(* ===== verification/Prelude.thy ===== *)
theory Prelude
  imports Main "HOL-Library.Word" "HOL-Library.List_Lexorder" "HOL-Library.Char_ord"
begin

text \<open>
  What every component shares: the result type of the fallible code (\<^verbatim>\<open>anyhow::Result\<close>),
  state passing with errors, machine integers with the saturating and checked operations of
  Rust, little-endian byte strings, \<^verbatim>\<open>BTreeMap\<close> as a key-sorted association list, the
  string operations of \<^verbatim>\<open>str\<close> that the code uses (on UTF-8 bytes), and the lemma
  collections the component proofs work with.
\<close>

section \<open>Types\<close>

type_synonym byte = "8 word"
type_synonym u8 = "8 word"
type_synonym u16 = "16 word"
type_synonym u32 = "32 word"
type_synonym u64 = "64 word"

text \<open>
  An \<^verbatim>\<open>anyhow\<close> error: \<open>Bail m\<close> is an error whose message starts with (or, where the
  message is fixed, is) \<open>m\<close>; interpolated arguments are dropped. \<open>Missing_physical p\<close> is the
  "missing physical object" error of a blob store, which callers test for. \<open>Io_not_found m\<close> is
  an \<^verbatim>\<open>io::Error\<close> of kind \<^verbatim>\<open>NotFound\<close>, and \<open>Context m e\<close> is \<open>e\<close> wrapped by
  \<^verbatim>\<open>with_context\<close>.
\<close>

datatype error = Bail string | Missing_physical string | Io_not_found string | Context string error

type_synonym 'a res = "error + 'a"

named_theorems res_simps \<open>results: what a successful or failed computation did\<close>
named_theorems map_simps \<open>lookups after the operations of a component's maps\<close>

section \<open>Results\<close>

definition rbind :: "'a res \<Rightarrow> ('a \<Rightarrow> 'b res) \<Rightarrow> 'b res" where
  "rbind r f = (case r of Inl e \<Rightarrow> Inl e | Inr x \<Rightarrow> f x)"

abbreviation ensure :: "bool \<Rightarrow> error \<Rightarrow> 'a res \<Rightarrow> 'a res" where
  "ensure b e k \<equiv> (if b then k else Inl e)"

definition with_context :: "string \<Rightarrow> 'a res \<Rightarrow> 'a res" where
  "with_context m r = (case r of Inl e \<Rightarrow> Inl (Context m e) | Inr x \<Rightarrow> Inr x)"

definition ok_or :: "error \<Rightarrow> 'a option \<Rightarrow> 'a res" where
  "ok_or e x = (case x of None \<Rightarrow> Inl e | Some y \<Rightarrow> Inr y)"

fun is_ok :: "'a res \<Rightarrow> bool" where
  "is_ok (Inr x) = True"
| "is_ok (Inl e) = False"

fun mapM :: "('a \<Rightarrow> 'b res) \<Rightarrow> 'a list \<Rightarrow> 'b list res" where
  "mapM f [] = Inr []"
| "mapM f (x # xs) = rbind (f x) (\<lambda>y. rbind (mapM f xs) (\<lambda>ys. Inr (y # ys)))"

lemma rbind_simps [simp, res_simps]:
  "rbind (Inl e) f = Inl e" "rbind (Inr x) f = f x"
  by (simp_all add: rbind_def)

lemma rbind_Inr_iff [res_simps]: "rbind r f = Inr y \<longleftrightarrow> (\<exists>x. r = Inr x \<and> f x = Inr y)"
  by (cases r) auto

lemma with_context_simps [simp, res_simps]:
  "with_context m (Inl e) = Inl (Context m e)" "with_context m (Inr x) = Inr x"
  by (simp_all add: with_context_def)

lemma with_context_Inr_iff [res_simps]: "with_context m r = Inr x \<longleftrightarrow> r = Inr x"
  by (cases r) auto

lemma ok_or_simps [simp, res_simps]: "ok_or e None = Inl e" "ok_or e (Some x) = Inr x"
  by (simp_all add: ok_or_def)

lemma ok_or_Inr_iff [res_simps]: "ok_or e x = Inr y \<longleftrightarrow> x = Some y"
  by (cases x) auto

lemma is_ok_iff: "is_ok r \<longleftrightarrow> (\<exists>x. r = Inr x)"
  by (cases r) auto

lemma mapM_Inr_length: "mapM f xs = Inr ys \<Longrightarrow> length ys = length xs"
  by (induction xs arbitrary: ys) (auto simp: rbind_Inr_iff)

lemma mapM_Inr_map: "(\<And>x. x \<in> set xs \<Longrightarrow> f x = Inr (g x)) \<Longrightarrow> mapM f xs = Inr (map g xs)"
  by (induction xs) auto

lemma mapM_Inr_nth:
  "mapM f xs = Inr ys \<Longrightarrow> i < length xs \<Longrightarrow> f (xs ! i) = Inr (ys ! i)"
proof (induction xs arbitrary: ys i)
  case Nil
  then show ?case by simp
next
  case (Cons x xs)
  then show ?case by (cases i) (auto simp: rbind_Inr_iff)
qed

lemma mapM_Inr_set: "mapM f xs = Inr ys \<Longrightarrow> set ys = {y. \<exists>x \<in> set xs. f x = Inr y}"
proof (induction xs arbitrary: ys)
  case (Cons x xs)
  then obtain y zs where "f x = Inr y" "mapM f xs = Inr zs" "ys = y # zs"
    by (auto simp: rbind_Inr_iff)
  with Cons.IH show ?case by auto
qed simp

lemma mapM_is_Inr: "(\<And>x. x \<in> set xs \<Longrightarrow> \<exists>y. f x = Inr y) \<Longrightarrow> \<exists>ys. mapM f xs = Inr ys"
proof (induction xs)
  case (Cons x xs)
  then obtain y ys where "f x = Inr y" "mapM f xs = Inr ys" by fastforce
  then show ?case by simp
qed simp

lemma set_map_filter: "set (List.map_filter f xs) = {y. \<exists>x \<in> set xs. f x = Some y}"
  by (force simp: List.map_filter_def)

section \<open>State passing with errors\<close>

text \<open>
  A method that changes state and may fail: it returns its result and the state it leaves, in
  the failing case too, since an early return keeps what was done before it.
\<close>

type_synonym ('s, 'a) prog = "'s \<Rightarrow> 'a res \<times> 's"

definition sret :: "'a \<Rightarrow> ('s, 'a) prog" where
  "sret x s = (Inr x, s)"

definition sfail :: "error \<Rightarrow> ('s, 'a) prog" where
  "sfail e s = (Inl e, s)"

definition slift :: "'a res \<Rightarrow> ('s, 'a) prog" where
  "slift r s = (r, s)"

definition sbind :: "('s, 'a) prog \<Rightarrow> ('a \<Rightarrow> ('s, 'b) prog) \<Rightarrow> ('s, 'b) prog" where
  "sbind m f s = (case m s of (Inl e, t) \<Rightarrow> (Inl e, t) | (Inr x, t) \<Rightarrow> f x t)"

definition sread :: "('s \<Rightarrow> 'a res) \<Rightarrow> ('s, 'a) prog" where
  "sread f s = (f s, s)"

abbreviation sensure :: "bool \<Rightarrow> error \<Rightarrow> ('s, 'a) prog \<Rightarrow> ('s, 'a) prog" where
  "sensure b e k \<equiv> (if b then k else sfail e)"

lemma prog_simps [simp, res_simps]:
  "sret x s = (Inr x, s)" "sfail e s = (Inl e, s)" "slift r s = (r, s)" "sread f s = (f s, s)"
  by (simp_all add: sret_def sfail_def slift_def sread_def)

lemma if_apply: "(if b then f else g) s = (if b then f s else g s)"
  by simp

lemma sbind_Inr: "m s = (Inr x, t) \<Longrightarrow> sbind m f s = f x t"
  and sbind_Inl: "m s = (Inl e, t) \<Longrightarrow> sbind m f s = (Inl e, t)"
  by (simp_all add: sbind_def)

lemma sbind_prim [simp, res_simps]:
  "sbind (sret x) f s = f x s"
  "sbind (sfail e) f s = (Inl e, s)"
  "sbind (slift r) f s = (case r of Inl e \<Rightarrow> (Inl e, s) | Inr x \<Rightarrow> f x s)"
  "sbind (sread g) f s = (case g s of Inl e \<Rightarrow> (Inl e, s) | Inr x \<Rightarrow> f x s)"
  by (auto simp: sbind_def split: sum.splits)

lemma sbind_Inr_iff [res_simps]:
  "sbind m f s = (Inr y, u) \<longleftrightarrow> (\<exists>x t. m s = (Inr x, t) \<and> f x t = (Inr y, u))"
  by (auto simp: sbind_def split: prod.splits sum.splits)

lemma sbind_Inl_iff:
  "sbind m f s = (Inl e, u) \<longleftrightarrow>
     m s = (Inl e, u) \<or> (\<exists>x t. m s = (Inr x, t) \<and> f x t = (Inl e, u))"
  by (auto simp: sbind_def split: prod.splits sum.splits)

fun for_each :: "('a \<Rightarrow> ('w, unit) prog) \<Rightarrow> 'a list \<Rightarrow> ('w, unit) prog" where
  "for_each f [] = sret ()"
| "for_each f (x # xs) = sbind (f x) (\<lambda>_. for_each f xs)"

section \<open>Machine integers\<close>

text \<open>
  Rust's \<^verbatim>\<open>saturating_add\<close>, \<^verbatim>\<open>saturating_sub\<close> and \<^verbatim>\<open>checked_add\<close> on unsigned integers of
  width \<open>'w\<close>. A plain \<open>+\<close> of the code is \<open>+\<close> on words: it wraps, as the release profile does.
\<close>

definition sat_add :: "'w::len word \<Rightarrow> 'w word \<Rightarrow> 'w word" where
  "sat_add a b = (if unat a + unat b < 2 ^ LENGTH('w) then a + b else -1)"

definition sat_sub :: "'w::len word \<Rightarrow> 'w word \<Rightarrow> 'w word" where
  "sat_sub a b = (if b \<le> a then a - b else 0)"

definition checked_add :: "'w::len word \<Rightarrow> 'w word \<Rightarrow> 'w word option" where
  "checked_add a b = (if unat a + unat b < 2 ^ LENGTH('w) then Some (a + b) else None)"

lemma unat_minus_one_word: "unat (-1 :: 'w::len word) = 2 ^ LENGTH('w) - 1"
  by (simp add: unsigned_minus_1_eq_mask mask_eq_exp_minus_1)

lemma unat_add_no_wrap:
  "unat a + unat b < 2 ^ LENGTH('w) \<Longrightarrow> unat (a + b :: 'w::len word) = unat a + unat b"
  by (simp add: unat_word_ariths)

lemma unat_sat_add:
  "unat (sat_add a b :: 'w::len word) = min (unat a + unat b) (2 ^ LENGTH('w) - 1)"
  by (auto simp: sat_add_def unat_add_no_wrap unat_minus_one_word min_def)

lemma unat_sat_sub: "unat (sat_sub a b) = unat a - unat b"
  by (auto simp: sat_sub_def word_le_nat_alt unat_sub)

lemma checked_add_Some_iff:
  "checked_add a b = Some (c :: 'w::len word) \<longleftrightarrow> unat c = unat a + unat b"
proof
  assume "unat c = unat a + unat b"
  moreover have "unat c < 2 ^ LENGTH('w)" by simp
  ultimately show "checked_add a b = Some c"
    by (auto simp: checked_add_def word_unat_eq_iff unat_add_no_wrap)
qed (auto simp: checked_add_def unat_add_no_wrap split: if_splits)

text \<open>
  \<^verbatim>\<open>usize\<close> (64 bits) as \<^typ>\<open>nat\<close>: lengths and offsets into byte vectors. Where the code
  saturates, so does \<open>usize_sat_add\<close>.
\<close>

definition usize_max :: nat where
  "usize_max = 2 ^ 64 - 1"

definition usize_sat_add :: "nat \<Rightarrow> nat \<Rightarrow> nat" where
  "usize_sat_add a b = min (a + b) usize_max"

subsection \<open>Little-endian bytes\<close>

fun le_bytes :: "nat \<Rightarrow> nat \<Rightarrow> byte list" where
  "le_bytes 0 x = []"
| "le_bytes (Suc n) x = of_nat (x mod 256) # le_bytes n (x div 256)"

fun le_value :: "byte list \<Rightarrow> nat" where
  "le_value [] = 0"
| "le_value (b # bs) = unat b + 256 * le_value bs"

definition u32_to_le :: "u32 \<Rightarrow> byte list" where
  "u32_to_le w = le_bytes 4 (unat w)"

definition u64_to_le :: "u64 \<Rightarrow> byte list" where
  "u64_to_le w = le_bytes 8 (unat w)"

definition u32_from_le :: "byte list \<Rightarrow> u32" where
  "u32_from_le bs = of_nat (le_value bs)"

definition u64_from_le :: "byte list \<Rightarrow> u64" where
  "u64_from_le bs = of_nat (le_value bs)"

lemma length_le_bytes [simp]: "length (le_bytes n x) = n"
  by (induction n arbitrary: x) auto

lemma le_value_le_bytes: "le_value (le_bytes n x) = x mod 256 ^ n"
proof (induction n arbitrary: x)
  case (Suc n)
  have "unat (of_nat (x mod 256) :: byte) = x mod 256"
    by (simp add: unat_of_nat)
  with Suc show ?case
    by (simp add: mod_mult2_eq algebra_simps)
qed simp

lemma u32_le_simps [simp]: "length (u32_to_le w) = 4" "u32_from_le (u32_to_le w) = w"
proof -
  have "unat w < 256 ^ 4" using unsigned_less [of w] by simp
  then show "u32_from_le (u32_to_le w) = w"
    by (simp add: u32_from_le_def u32_to_le_def le_value_le_bytes)
qed (simp add: u32_to_le_def)

lemma u64_le_simps [simp]: "length (u64_to_le w) = 8" "u64_from_le (u64_to_le w) = w"
proof -
  have "unat w < 256 ^ 8" using unsigned_less [of w] by simp
  then show "u64_from_le (u64_to_le w) = w"
    by (simp add: u64_from_le_def u64_to_le_def le_value_le_bytes)
qed (simp add: u64_to_le_def)

lemma le_bytes_le_value: "le_bytes (length bs) (le_value bs) = bs"
proof (induction bs)
  case (Cons b bs)
  have b: "unat b < 256" using unsigned_less [of b, where 'a = nat] by simp
  have "(unat b + 256 * le_value bs) mod 256 = unat b" "(unat b + 256 * le_value bs) div 256 = le_value bs"
    using b by simp_all
  with Cons show ?case by simp
qed simp

lemma le_value_bound: "le_value bs < 256 ^ length bs"
proof (induction bs)
  case (Cons b bs)
  have "unat b < 256" using unsigned_less [of b, where 'a = nat] by simp
  with Cons show ?case by simp
qed simp

lemma u32_le_inverse: "length bs = 4 \<Longrightarrow> u32_to_le (u32_from_le bs) = bs"
proof -
  assume len: "length bs = 4"
  then have "le_value bs < 2 ^ 32" using le_value_bound [of bs] by simp
  then have "unat (of_nat (le_value bs) :: u32) = le_value bs" by (simp add: unat_of_nat)
  then show ?thesis using le_bytes_le_value [of bs] len by (simp add: u32_to_le_def u32_from_le_def)
qed

lemma u64_le_inverse: "length bs = 8 \<Longrightarrow> u64_to_le (u64_from_le bs) = bs"
proof -
  assume len: "length bs = 8"
  then have "le_value bs < 2 ^ 64" using le_value_bound [of bs] by simp
  then have "unat (of_nat (le_value bs) :: u64) = le_value bs" by (simp add: unat_of_nat)
  then show ?thesis using le_bytes_le_value [of bs] len by (simp add: u64_to_le_def u64_from_le_def)
qed

section \<open>Strings\<close>

text \<open>
  A \<^verbatim>\<open>str\<close> is its UTF-8 bytes, so \<open>length\<close> is \<^verbatim>\<open>len()\<close> and the order of
  \<open>HOL-Library.List_Lexorder\<close> (by bytes) is the \<^verbatim>\<open>Ord\<close> of \<^verbatim>\<open>str\<close>.
\<close>

fun strip_prefix :: "'a list \<Rightarrow> 'a list \<Rightarrow> 'a list option" where
  "strip_prefix [] s = Some s"
| "strip_prefix (p # ps) [] = None"
| "strip_prefix (p # ps) (c # cs) = (if p = c then strip_prefix ps cs else None)"

definition starts_with :: "'a list \<Rightarrow> 'a list \<Rightarrow> bool" where
  "starts_with s p = (strip_prefix p s \<noteq> None)"

definition strip_suffix :: "'a list \<Rightarrow> 'a list \<Rightarrow> 'a list option" where
  "strip_suffix p s = map_option rev (strip_prefix (rev p) (rev s))"

fun split_on :: "char \<Rightarrow> string \<Rightarrow> string list" where
  "split_on c [] = [[]]"
| "split_on c (x # xs) =
     (if x = c then [] # split_on c xs
      else case split_on c xs of [] \<Rightarrow> [[x]] | seg # segs \<Rightarrow> (x # seg) # segs)"

fun join_with :: "string \<Rightarrow> string list \<Rightarrow> string" where
  "join_with sep [] = []"
| "join_with sep [s] = s"
| "join_with sep (s # t # ss) = s @ sep @ join_with sep (t # ss)"

text \<open>\<^verbatim>\<open>rsplit_once(c)\<close>: what is before and after the last occurrence of \<open>c\<close>.\<close>

fun rsplit_once :: "char \<Rightarrow> string \<Rightarrow> (string \<times> string) option" where
  "rsplit_once c [] = None"
| "rsplit_once c (x # xs) =
     (case rsplit_once c xs of
        Some (a, b) \<Rightarrow> Some (x # a, b)
      | None \<Rightarrow> if x = c then Some ([], xs) else None)"

definition trim_matches :: "char \<Rightarrow> string \<Rightarrow> string" where
  "trim_matches c s = rev (dropWhile (\<lambda>x. x = c) (rev (dropWhile (\<lambda>x. x = c) s)))"

lemma strip_prefix_Some_iff: "strip_prefix p s = Some t \<longleftrightarrow> s = p @ t"
  by (induction p s rule: strip_prefix.induct) auto

lemma strip_prefix_append [simp]: "strip_prefix p (p @ t) = Some t"
  by (simp add: strip_prefix_Some_iff)

lemma starts_with_iff: "starts_with s p \<longleftrightarrow> (\<exists>t. s = p @ t)"
  by (auto simp: starts_with_def strip_prefix_Some_iff)

lemma strip_suffix_Some_iff: "strip_suffix p s = Some t \<longleftrightarrow> s = t @ p"
proof -
  have "strip_suffix p s = Some t \<longleftrightarrow> strip_prefix (rev p) (rev s) = Some (rev t)"
    by (auto simp: strip_suffix_def)
  also have "\<dots> \<longleftrightarrow> rev s = rev (t @ p)"
    by (simp add: strip_prefix_Some_iff)
  finally show ?thesis by (metis rev_rev_ident)
qed

lemma split_on_not_Nil [simp]: "split_on c s \<noteq> []"
  by (induction c s rule: split_on.induct) (auto split: list.splits)

lemma split_on_no_sep: "seg \<in> set (split_on c s) \<Longrightarrow> c \<notin> set seg"
proof (induction c s arbitrary: seg rule: split_on.induct)
  case (2 c x xs)
  then show ?case by (cases "split_on c xs") (auto split: if_splits)
qed simp

lemma split_on_single: "c \<notin> set s \<Longrightarrow> split_on c s = [s]"
  by (induction s) auto

lemma split_on_append_sep: "split_on c (s @ c # t) = split_on c s @ split_on c t"
proof (induction s)
  case (Cons x xs)
  then show ?case by (cases "split_on c xs") auto
qed simp

lemma split_on_append:
  "split_on c (s @ t) =
     butlast (split_on c s) @ (last (split_on c s) @ hd (split_on c t)) # tl (split_on c t)"
proof (induction s)
  case Nil
  then show ?case by (cases "split_on c t") auto
next
  case (Cons x xs)
  then show ?case by (cases "split_on c xs"; cases "split_on c (xs @ t)") auto
qed

lemma join_split_on: "join_with [c] (split_on c s) = s"
proof (induction c s rule: split_on.induct)
  case (2 c x xs)
  show ?case
  proof (cases "split_on c xs")
    case (Cons seg segs)
    then show ?thesis using 2 by (cases segs) auto
  qed (simp)
qed simp

lemma rsplit_once_Some: "rsplit_once c s = Some (a, b) \<Longrightarrow> s = a @ c # b \<and> c \<notin> set b"
proof (induction s arbitrary: a b)
  case (Cons x xs)
  have none: "rsplit_once c ys = None \<Longrightarrow> c \<notin> set ys" for ys
    by (induction ys) (auto split: option.splits if_splits)
  show ?case
    using Cons none by (auto split: option.splits if_splits)
qed simp

subsection \<open>Bytes and UTF-8\<close>

definition as_bytes :: "string \<Rightarrow> byte list" where
  "as_bytes s = map of_char s"

definition from_bytes :: "byte list \<Rightarrow> string" where
  "from_bytes bs = map (\<lambda>b. char_of (unat b)) bs"

lemma length_as_bytes [simp]: "length (as_bytes s) = length s"
  by (simp add: as_bytes_def)

lemma unat_of_char [simp]: "unat (of_char c :: byte) = of_char c"
  by (cases c) (simp add: of_char_def)

lemma from_bytes_as_bytes [simp]: "from_bytes (as_bytes s) = s"
  by (simp add: from_bytes_def as_bytes_def o_def)

lemma of_char_of_byte [simp]: "(of_char (char_of (unat b) :: char) :: byte) = b"
proof -
  have "unat b < 256" using unsigned_less [of b, where 'a = nat] by simp
  then have "(of_char (char_of (unat b) :: char) :: nat) = unat b" by simp
  then have "unat (of_char (char_of (unat b) :: char) :: byte) = unat b" by (simp only: unat_of_char)
  then show ?thesis by (rule word_unat_eq_iff [THEN iffD2])
qed

lemma as_bytes_from_bytes [simp]: "as_bytes (from_bytes bs) = bs"
  by (simp add: as_bytes_def from_bytes_def o_def)

lemma length_from_bytes [simp]: "length (from_bytes bs) = length bs"
  by (simp add: from_bytes_def)

lemma as_bytes_append [simp]: "as_bytes (s @ t) = as_bytes s @ as_bytes t"
  by (simp add: as_bytes_def)

definition utf8_cont :: "byte \<Rightarrow> bool" where
  "utf8_cont b = (128 \<le> unat b \<and> unat b \<le> 191)"

text \<open>The validity check of \<^verbatim>\<open>String::from_utf8\<close> (the table of RFC 3629).\<close>

fun utf8_valid :: "byte list \<Rightarrow> bool" where
  "utf8_valid [] = True"
| "utf8_valid (b # bs) =
     (let n = unat b in
      if n \<le> 127 then utf8_valid bs
      else if 194 \<le> n \<and> n \<le> 223 then
        (case bs of c1 # r \<Rightarrow> utf8_cont c1 \<and> utf8_valid r | [] \<Rightarrow> False)
      else if 224 \<le> n \<and> n \<le> 239 then
        (case bs of c1 # c2 # r \<Rightarrow>
           utf8_cont c1 \<and> utf8_cont c2 \<and> (n = 224 \<longrightarrow> 160 \<le> unat c1) \<and>
           (n = 237 \<longrightarrow> unat c1 \<le> 159) \<and> utf8_valid r
         | _ \<Rightarrow> False)
      else if 240 \<le> n \<and> n \<le> 244 then
        (case bs of c1 # c2 # c3 # r \<Rightarrow>
           utf8_cont c1 \<and> utf8_cont c2 \<and> utf8_cont c3 \<and> (n = 240 \<longrightarrow> 144 \<le> unat c1) \<and>
           (n = 244 \<longrightarrow> unat c1 \<le> 143) \<and> utf8_valid r
         | _ \<Rightarrow> False)
      else False)"

definition from_utf8 :: "byte list \<Rightarrow> string option" where
  "from_utf8 bs = (if utf8_valid bs then Some (from_bytes bs) else None)"

text \<open>What every \<^verbatim>\<open>String\<close> of the program satisfies.\<close>

definition utf8_string :: "string \<Rightarrow> bool" where
  "utf8_string s = utf8_valid (as_bytes s)"

definition ascii_char :: "char \<Rightarrow> bool" where
  "ascii_char c = ((of_char c :: nat) \<le> 127)"

lemma from_utf8_as_bytes [simp]: "utf8_string s \<Longrightarrow> from_utf8 (as_bytes s) = Some s"
  by (simp add: from_utf8_def utf8_string_def)

lemma from_utf8_Some_iff: "from_utf8 bs = Some s \<longleftrightarrow> bs = as_bytes s \<and> utf8_string s"
  by (auto simp: from_utf8_def utf8_string_def)

lemma utf8_string_ascii: "list_all ascii_char s \<Longrightarrow> utf8_string s"
  by (induction s) (auto simp: utf8_string_def as_bytes_def ascii_char_def)

subsection \<open>Whitespace\<close>

text \<open>
  \<open>blank s\<close> is \<^verbatim>\<open>s.trim().is_empty()\<close>: every character has the Unicode property
  White\_Space, in its UTF-8 encoding.
\<close>

fun blank_bytes :: "nat list \<Rightarrow> bool" where
  "blank_bytes [] = True"
| "blank_bytes (b # bs) =
     (if (9 \<le> b \<and> b \<le> 13) \<or> b = 32 then blank_bytes bs
      else if b = 194 then
        (case bs of c # r \<Rightarrow> (c = 133 \<or> c = 160) \<and> blank_bytes r | [] \<Rightarrow> False)
      else if b = 225 then
        (case bs of c # d # r \<Rightarrow> c = 154 \<and> d = 128 \<and> blank_bytes r | _ \<Rightarrow> False)
      else if b = 226 then
        (case bs of c # d # r \<Rightarrow>
           (c = 128 \<and> ((128 \<le> d \<and> d \<le> 138) \<or> d = 168 \<or> d = 169 \<or> d = 175) \<or> c = 129 \<and> d = 159)
           \<and> blank_bytes r
         | _ \<Rightarrow> False)
      else if b = 227 then
        (case bs of c # d # r \<Rightarrow> c = 128 \<and> d = 128 \<and> blank_bytes r | _ \<Rightarrow> False)
      else False)"

definition blank :: "string \<Rightarrow> bool" where
  "blank s = blank_bytes (map of_char s)"

lemma blank_Nil [simp]: "blank []"
  by (simp add: blank_def)

subsection \<open>Decimal numbers\<close>

fun decimal :: "nat \<Rightarrow> string" where
  "decimal n = (if n < 10 then [char_of (48 + n)] else decimal (n div 10) @ [char_of (48 + n mod 10)])"

declare decimal.simps [simp del]

text \<open>\<^verbatim>\<open>{n:0w}\<close>: at least \<open>w\<close> digits, padded with zeros on the left.\<close>

definition padded :: "nat \<Rightarrow> nat \<Rightarrow> string" where
  "padded w n = replicate (w - length (decimal n)) (CHR ''0'') @ decimal n"

lemma decimal_not_slash: "c \<in> set (decimal n) \<Longrightarrow> c \<noteq> CHR ''/'' \<and> c \<noteq> CHR ''.''"
proof (induction n rule: decimal.induct)
  case (1 n)
  have digit: "char_of (48 + d) \<noteq> CHR ''/'' \<and> char_of (48 + d) \<noteq> CHR ''.''" if "d < 10" for d :: nat
  proof -
    from that have "d = 0 \<or> d = 1 \<or> d = 2 \<or> d = 3 \<or> d = 4 \<or> d = 5 \<or> d = 6 \<or> d = 7 \<or> d = 8 \<or> d = 9"
      by arith
    then show ?thesis by (elim disjE) (simp_all add: char_of_def)
  qed
  show ?case
    using 1 digit [of n] digit [of "n mod 10"]
    by (subst (asm) decimal.simps) (auto split: if_splits)
qed

lemma padded_not_slash: "c \<in> set (padded w n) \<Longrightarrow> c \<noteq> CHR ''/'' \<and> c \<noteq> CHR ''.''"
  by (auto simp: padded_def dest: decimal_not_slash split: if_splits)

text \<open>Reading the digits back, so that names built from different numbers differ.\<close>

definition dec_value :: "string \<Rightarrow> nat" where
  "dec_value s = foldl (\<lambda>a c. a * 10 + (of_char c - 48)) 0 s"

lemma of_char_digit: "d < 10 \<Longrightarrow> (of_char (char_of (48 + d) :: char) :: nat) = 48 + d"
  by simp

lemma dec_value_decimal [simp]: "dec_value (decimal n) = n"
proof (induction n rule: decimal.induct)
  case (1 n)
  show ?case
    using 1 by (subst decimal.simps) (auto simp: dec_value_def)
qed

lemma dec_value_padded [simp]: "dec_value (padded w n) = n"
proof -
  have "foldl (\<lambda>a c. a * 10 + (of_char c - 48)) 0 (replicate k (CHR ''0'')) = (0::nat)" for k
    by (induction k) auto
  then show ?thesis
    using dec_value_decimal [of n] by (simp add: padded_def dec_value_def)
qed

lemma padded_inject [simp]: "padded w m = padded w n \<longleftrightarrow> m = n"
  by (metis dec_value_padded)

lemma decimal_inject [simp]: "decimal m = decimal n \<longleftrightarrow> m = n"
  by (metis dec_value_decimal)

text \<open>Zero-padded numbers of one width sort as numbers do.\<close>

definition digit :: "char \<Rightarrow> bool" where
  "digit c = (48 \<le> (of_char c :: nat) \<and> (of_char c :: nat) < 58)"

lemma dec_foldl:
  "foldl (\<lambda>a c. a * 10 + (of_char c - 48)) a s = a * 10 ^ length s + dec_value s"
proof (induction s arbitrary: a)
  case (Cons c s)
  show ?case
    using Cons [of "a * 10 + (of_char c - 48)"] Cons [of "of_char c - 48"]
    by (simp add: dec_value_def algebra_simps)
qed (simp add: dec_value_def)

lemma dec_value_Cons: "dec_value (c # s) = (of_char c - 48) * 10 ^ length s + dec_value s"
  using dec_foldl [of "of_char c - 48" s] by (simp add: dec_value_def)

lemma dec_value_bound: "list_all digit s \<Longrightarrow> dec_value s < 10 ^ length s"
proof (induction s)
  case (Cons c s)
  then have "(of_char c :: nat) < 58" by (simp add: digit_def)
  then have "of_char c - 48 \<le> (9::nat)" by linarith
  then have "(of_char c - 48) * 10 ^ length s \<le> 9 * (10::nat) ^ length s"
    by (rule mult_right_mono) simp
  moreover have "dec_value s < 10 ^ length s" using Cons by simp
  ultimately have "dec_value (c # s) < 10 ^ length s + 9 * 10 ^ length s"
    unfolding dec_value_Cons by linarith
  then show ?case by simp
qed (simp add: dec_value_def)

lemma digits_less_iff:
  "list_all digit xs \<Longrightarrow> list_all digit ys \<Longrightarrow> length xs = length ys \<Longrightarrow>
     xs < ys \<longleftrightarrow> dec_value xs < dec_value ys"
proof (induction xs arbitrary: ys)
  case (Cons x xs)
  then obtain y ys' where ys: "ys = y # ys'" by (cases ys) auto
  have bounds: "dec_value xs < 10 ^ length xs" "dec_value ys' < 10 ^ length xs"
    using Cons.prems dec_value_bound [of xs] dec_value_bound [of ys'] by (simp_all add: ys)
  have step: "(of_char a - 48) * 10 ^ length xs + dec_value p < (of_char b - 48) * 10 ^ length xs + dec_value q"
    if "(of_char a :: nat) < of_char b" "48 \<le> (of_char a :: nat)" "dec_value p < 10 ^ length xs"
    for a b :: char and p q
  proof -
    have "(of_char a - 48) + 1 \<le> (of_char b - 48 :: nat)" using that by simp
    then have "((of_char a - 48) + 1) * 10 ^ length xs \<le> (of_char b - 48) * (10 ^ length xs :: nat)"
      by (rule mult_right_mono) simp
    with that(3) show ?thesis by simp
  qed
  consider "x < y" | "x = y" | "y < x" by (rule linorder_cases)
  then show ?case
  proof cases
    case 1
    with step [of x y xs ys'] bounds Cons.prems show ?thesis
      by (simp add: ys dec_value_Cons digit_def less_char_def)
  next
    case 2
    with Cons show ?thesis by (simp add: ys dec_value_Cons)
  next
    case 3
    with step [of y x ys' xs] bounds Cons.prems show ?thesis
      by (auto simp: ys dec_value_Cons digit_def less_char_def)
  qed
qed simp

lemma digit_decimal: "list_all digit (decimal n)"
proof (induction n rule: decimal.induct)
  case (1 n)
  have "digit (char_of (48 + d))" if "d < 10" for d :: nat
    using that by (simp add: digit_def of_char_digit)
  with 1 show ?case by (subst decimal.simps) auto
qed

lemma digit_padded: "list_all digit (padded w n)"
  using digit_decimal [of n] by (auto simp: padded_def list_all_iff digit_def)

lemma length_decimal: "0 < w \<Longrightarrow> n < 10 ^ w \<Longrightarrow> length (decimal n) \<le> w"
proof (induction n arbitrary: w rule: decimal.induct)
  case (1 n)
  show ?case
  proof (cases "n < 10")
    case True
    with 1 show ?thesis by (subst decimal.simps) simp
  next
    case False
    then have "w \<noteq> 1" using "1.prems" by auto
    then have "n div 10 < 10 ^ (w - 1)" "0 < w - 1"
      using "1.prems" by (auto simp: div_less_iff_less_mult simp flip: power_Suc2)
    from "1.IH" [OF False this(2,1)] this(2) False show ?thesis
      by (subst decimal.simps) simp
  qed
qed

lemma padded_less_iff:
  "0 < w \<Longrightarrow> m < 10 ^ w \<Longrightarrow> n < 10 ^ w \<Longrightarrow> padded w m < padded w n \<longleftrightarrow> m < n"
  using digits_less_iff [OF digit_padded [of w m] digit_padded [of w n]]
    length_decimal [of w m] length_decimal [of w n]
  by (simp add: padded_def) (metis dec_value_padded padded_def)

lemma append_less_prefix: "p @ x < p @ y \<longleftrightarrow> x < (y :: string)"
  by (induction p) auto

lemma append_less_suffix: "length x = length y \<Longrightarrow> x @ e < y @ e \<longleftrightarrow> x < (y :: string)"
proof (induction x arbitrary: y)
  case (Cons a x)
  then show ?case by (cases y) auto
qed simp

lemma length_padded: "0 < w \<Longrightarrow> n < 10 ^ w \<Longrightarrow> length (padded w n) = w"
  using length_decimal [of w n] by (simp add: padded_def)

section \<open>Ordered maps\<close>

text \<open>
  \<^verbatim>\<open>BTreeMap\<close>: the entries in key order. \<^const>\<open>map_of\<close> is \<^verbatim>\<open>get\<close>, iteration is the list
  itself. A \<^verbatim>\<open>HashMap\<close> whose keys the code sorts before use is the same list.
\<close>

type_synonym ('k, 'v) btree = "('k \<times> 'v) list"

fun bt_insert :: "'k::linorder \<Rightarrow> 'v \<Rightarrow> ('k, 'v) btree \<Rightarrow> ('k, 'v) btree" where
  "bt_insert k v [] = [(k, v)]"
| "bt_insert k v (e # m) =
     (if fst e < k then e # bt_insert k v m
      else if k < fst e then (k, v) # e # m else (k, v) # m)"

definition bt_remove :: "'k \<Rightarrow> ('k, 'v) btree \<Rightarrow> ('k, 'v) btree" where
  "bt_remove k m = filter (\<lambda>e. fst e \<noteq> k) m"

definition bt_ok :: "('k::linorder, 'v) btree \<Rightarrow> bool" where
  "bt_ok m = sorted_wrt (<) (map fst m)"

lemma map_of_bt_insert [map_simps]:
  "bt_ok m \<Longrightarrow> map_of (bt_insert k v m) = (map_of m)(k \<mapsto> v)"
proof (induction m)
  case (Cons e m)
  then show ?case
    by (cases e) (auto simp: bt_ok_def fun_eq_iff)
qed simp

lemma map_of_bt_remove [map_simps]: "map_of (bt_remove k m) = (map_of m)(k := None)"
  by (induction m) (auto simp: bt_remove_def fun_eq_iff)

lemma set_keys_bt_insert: "fst ` set (bt_insert k v m) = insert k (fst ` set m)"
  by (induction m) auto

lemma bt_ok_insert [simp]: "bt_ok m \<Longrightarrow> bt_ok (bt_insert k v m)"
proof (induction m)
  case (Cons e m)
  have "\<forall>x \<in> fst ` set (bt_insert k v m). fst e < x"
    if "fst e < k" using Cons.prems that by (auto simp: bt_ok_def set_keys_bt_insert)
  with Cons show ?case by (fastforce simp: bt_ok_def)
qed (simp add: bt_ok_def)

lemma bt_ok_remove [simp]: "bt_ok m \<Longrightarrow> bt_ok (bt_remove k m)"
  by (induction m) (auto simp: bt_ok_def bt_remove_def)

lemma bt_ok_Nil [simp]: "bt_ok []"
  by (simp add: bt_ok_def)

lemma bt_ok_distinct: "bt_ok m \<Longrightarrow> distinct (map fst m)"
  by (simp add: bt_ok_def strict_sorted_iff)

lemma bt_ok_sorted: "bt_ok m \<Longrightarrow> sorted (map fst m)"
  by (simp add: bt_ok_def strict_sorted_iff)

lemma bt_eqI: "bt_ok m \<Longrightarrow> bt_ok n \<Longrightarrow> map_of m = map_of n \<Longrightarrow> m = n"
proof -
  assume ok: "bt_ok m" "bt_ok n" and eq: "map_of m = map_of n"
  then have "set m = set n"
    by (metis bt_ok_distinct map_of_inject_set)
  moreover have "map fst m = map fst n"
    using ok \<open>set m = set n\<close>
    by (metis bt_ok_def set_map strict_sorted_equal)
  moreover have "m = map (\<lambda>k. (k, the (map_of m k))) (map fst m)" if "bt_ok m" for m :: "('a \<times> 'b) list"
  proof (intro nth_equalityI)
    fix i assume i: "i < length m"
    then have "(fst (m ! i), snd (m ! i)) \<in> set m" by simp
    then have "map_of m (fst (m ! i)) = Some (snd (m ! i))"
      using bt_ok_distinct [OF that] by (simp add: map_of_eq_Some_iff)
    then show "m ! i = map (\<lambda>k. (k, the (map_of m k))) (map fst m) ! i"
      using i by simp
  qed simp
  ultimately show "m = n"
    using ok eq by metis
qed

end
