(* ===== verification/Paths.thy ===== *)
theory Paths
  imports Prelude
begin

text \<open>
  Relative paths and the identifiers that become part of one. \<open>components\<close> is
  \<^verbatim>\<open>std::path::Path::components\<close> on a Unix host; the validators are the checks that the store,
  the sync engine and the keyring run on tokens, object ids, operation ids and file names before
  they build a path from them. \<open>walk\<close> says where a path leads when it is followed from a
  directory, so that "the path stays inside the directory" can be stated.
\<close>

section \<open>Path components (Unix)\<close>

datatype component = RootDir | CurDir | ParentDir | Normal string

abbreviation slash :: char where "slash \<equiv> CHR ''/''"

definition segment_components :: "string \<Rightarrow> component list" where
  "segment_components seg =
     (if seg = [] \<or> seg = ''.'' then [] else if seg = ''..'' then [ParentDir] else [Normal seg])"

definition is_absolute :: "string \<Rightarrow> bool" where
  "is_absolute s = starts_with s ''/''"

definition components :: "string \<Rightarrow> component list" where
  "components s =
     (let segs = split_on slash s in
      if is_absolute s then RootDir # concat (map segment_components (tl segs))
      else (if hd segs = ''.'' then [CurDir] else segment_components (hd segs))
           @ concat (map segment_components (tl segs)))"

definition is_normal :: "component \<Rightarrow> bool" where
  "is_normal c = (case c of Normal n \<Rightarrow> True | _ \<Rightarrow> False)"

definition all_normal :: "string \<Rightarrow> bool" where
  "all_normal s = list_all is_normal (components s)"

text \<open>Following components from a directory, given as the list of its names.\<close>

fun walk :: "string list \<Rightarrow> component list \<Rightarrow> string list" where
  "walk dir [] = dir"
| "walk dir (RootDir # cs) = walk [] cs"
| "walk dir (CurDir # cs) = walk dir cs"
| "walk dir (ParentDir # cs) = walk (butlast dir) cs"
| "walk dir (Normal n # cs) = walk (dir @ [n]) cs"

section \<open>Validators\<close>

definition validate_ref_token_value :: "string \<Rightarrow> unit res" where
  "validate_ref_token_value value =
     ensure (\<not> blank value) (Bail ''ref token must not be empty'')
     (ensure (\<not> is_absolute value) (Bail ''ref token must be relative'')
     (ensure (all_normal value) (Bail ''ref token path traversal is not allowed'')
     (Inr ())))"

definition validate_object_id_value :: "string \<Rightarrow> unit res" where
  "validate_object_id_value value =
     ensure (\<not> blank value) (Bail ''object id must not be empty'')
     (ensure (\<not> is_absolute value) (Bail ''object id must be relative'')
     (ensure (all_normal value) (Bail ''object id path traversal is not allowed'')
     (ensure (length (components value) = 1) (Bail ''object id must be a single path segment'')
     (Inr ()))))"

definition validate_sync_identifier :: "string \<Rightarrow> unit res" where
  "validate_sync_identifier value =
     ensure (\<not> blank value) (Bail ''must not be empty'')
     (ensure (slash \<notin> set value \<and> CHR 0x5C \<notin> set value)
        (Bail ''must not contain path separators'')
     (ensure (value \<noteq> ''.'' \<and> value \<noteq> ''..'') (Bail ''must not contain path traversal'')
     (Inr ())))"

definition validate_keyring_file_name :: "string \<Rightarrow> unit res" where
  "validate_keyring_file_name value =
     ensure (\<not> blank value) (Bail ''keyring file name must not be empty'')
     (ensure (\<not> is_absolute value) (Bail ''keyring file name must be relative'')
     (ensure (all_normal value) (Bail ''keyring path traversal is not allowed'')
     (ensure (length (components value) = 1)
        (Bail ''keyring file name must be a single path segment'')
     (Inr ()))))"

definition validate_pack_relative_path :: "string \<Rightarrow> unit res" where
  "validate_pack_relative_path value =
     ensure (value \<noteq> []) (Bail ''empty pack data path'')
     (ensure (\<not> is_absolute value) (Bail ''pack data path escapes target directory'')
     (ensure (all_normal value) (Bail ''pack data path traversal is not allowed'')
     (Inr ())))"

definition validate_cached_pack_relative_name :: "string \<Rightarrow> unit res" where
  "validate_cached_pack_relative_name value =
     ensure (value \<noteq> []) (Bail ''empty relative path'')
     (ensure (\<not> is_absolute value) (Bail ''path escapes target directory'')
     (ensure (all_normal value) (Bail ''path traversal is not allowed'')
     (Inr ())))"

text \<open>\<^verbatim>\<open>LocalFolderBackend::resolve_relative_path\<close>: the checked join of the root and the path.\<close>

definition resolve_relative_path :: "string \<Rightarrow> string \<Rightarrow> string res" where
  "resolve_relative_path repo_root relative_path =
     ensure (relative_path \<noteq> []) (Bail ''path must not be empty'')
     (ensure (\<not> is_absolute relative_path) (Bail ''path must be relative to repo root'')
     (ensure (all_normal relative_path)
        (Bail ''path traversal outside repo root is not allowed'')
     (Inr (repo_root @ ''/'' @ relative_path))))"

definition ref_path :: "string \<Rightarrow> string" where
  "ref_path token = ''control/refs/by-token/'' @ token @ ''.json''"

definition relative_object_path :: "string \<Rightarrow> string" where
  "relative_object_path object_id = ''objects/'' @ object_id @ ''.json''"

definition layout_history_path :: "nat \<Rightarrow> string" where
  "layout_history_path generation = ''control/layout-roots/'' @ padded 20 generation @ ''.json''"

definition branch_ref_path :: "string \<Rightarrow> string \<Rightarrow> string res" where
  "branch_ref_path control_dir ref_token_hex =
     rbind (validate_ref_token_value ref_token_hex) (\<lambda>_.
     ensure (length (components ref_token_hex) = 1)
       (Bail ''branch token must be a single path segment'')
     (Inr (control_dir @ ''/refs/branches/'' @ ref_token_hex @ ''.json'')))"

section \<open>Which paths are made of names only\<close>

lemma segment_normal_iff: "list_all is_normal (segment_components seg) \<longleftrightarrow> seg \<noteq> ''..''"
  by (auto simp: segment_components_def is_normal_def)

lemma all_normal_iff:
  "all_normal s \<longleftrightarrow>
     \<not> is_absolute s \<and> hd (split_on slash s) \<noteq> ''.'' \<and> ''..'' \<notin> set (split_on slash s)"
proof -
  obtain seg segs where s: "split_on slash s = seg # segs"
    by (meson neq_Nil_conv split_on_not_Nil)
  have "list_all is_normal (concat (map segment_components segs)) \<longleftrightarrow> ''..'' \<notin> set segs"
    by (induction segs) (auto simp: segment_normal_iff)
  then show ?thesis
    by (auto simp: all_normal_def components_def s is_normal_def segment_normal_iff Let_def)
qed

lemma walk_normal:
  "list_all is_normal cs \<Longrightarrow> \<exists>names. walk dir cs = dir @ names \<and> length names = length cs"
proof (induction cs arbitrary: dir)
  case (Cons c cs)
  then obtain n where c: "c = Normal n"
    by (cases c) (auto simp: is_normal_def)
  from Cons.prems have "list_all is_normal cs" by simp
  then obtain names where "walk (dir @ [n]) cs = (dir @ [n]) @ names" "length names = length cs"
    using Cons.IH by blast
  then show ?case by (intro exI [of _ "n # names"]) (simp add: c)
qed simp

lemma walk_append: "walk dir (cs @ ds) = walk (walk dir cs) ds"
  by (induction dir cs rule: walk.induct) auto

text \<open>
  Where a path of names below a fixed directory leads: the fixed part is a list of non-empty
  names without separators, the rest has only names, and the extension is not made of dots.
\<close>

lemma components_below:
  assumes dir: "\<forall>d \<in> set dirs. slash \<notin> set d \<and> d \<notin> {[], ''.'', ''..''}" "dirs \<noteq> []"
    and rest: "all_normal v"
    and ext: "slash \<notin> set ext" "2 < length ext"
  shows "\<exists>names. names \<noteq> [] \<and>
    components (join_with ''/'' dirs @ ''/'' @ v @ ext) = map Normal (dirs @ names)"
proof -
  have split_dirs: "split_on slash (join_with ''/'' ds @ ''/'' @ w) = ds @ split_on slash w"
    if "\<forall>d \<in> set ds. slash \<notin> set d" "ds \<noteq> []" for ds w
    using that
  proof (induction ds)
    case (Cons d ds)
    then show ?case
      by (cases ds) (auto simp: split_on_append_sep split_on_single)
  qed simp
  have segs_ok: "''..'' \<notin> set (split_on slash v)"
    using rest by (simp add: all_normal_iff)
  let ?segs = "butlast (split_on slash v)" and ?l = "last (split_on slash v) @ ext"
  have split: "split_on slash (v @ ext) = ?segs @ [?l]"
    by (simp add: split_on_append split_on_single ext)
  have "2 < length ?l" using ext by simp
  then have "?l \<noteq> []" "?l \<noteq> ''.''" "?l \<noteq> ''..''"
    by (metis list.size(3) not_less_zero, fastforce, fastforce)
  then have "segment_components ?l = [Normal ?l]"
    by (simp add: segment_components_def)
  moreover have "\<exists>ns. concat (map segment_components ss) = map Normal ns"
    if "''..'' \<notin> set ss" for ss
    using that
  proof (induction ss)
    case (Cons a ss)
    then obtain ns where ns: "concat (map segment_components ss) = map Normal ns" by auto
    show ?case
    proof (cases "segment_components a = []")
      case True
      with ns show ?thesis by auto
    next
      case False
      then have "segment_components a = [Normal a]"
        using Cons.prems by (auto simp: segment_components_def split: if_splits)
      with ns have "concat (map segment_components (a # ss)) = map Normal (a # ns)" by simp
      then show ?thesis by blast
    qed
  qed simp
  moreover have "''..'' \<notin> set ?segs"
    using segs_ok in_set_butlastD by metis
  ultimately obtain names where
    names: "concat (map segment_components (?segs @ [?l])) = map Normal (names @ [?l])"
    by fastforce
  have dirs_comp: "concat (map segment_components ds) = map Normal ds"
    if "\<forall>d \<in> set ds. d \<notin> {[], ''.'', ''..''}" for ds
    using that by (induction ds) (auto simp: segment_components_def)
  let ?s = "join_with ''/'' dirs @ ''/'' @ v @ ext"
  have sp: "split_on slash ?s = dirs @ ?segs @ [?l]"
    using split_dirs [of dirs "v @ ext"] dir by (simp add: split)
  have "\<not> is_absolute ?s"
  proof
    assume "is_absolute ?s"
    then have "hd (split_on slash ?s) = []" by (auto simp: is_absolute_def starts_with_iff)
    with sp dir show False by (cases dirs) auto
  qed
  moreover have "hd (split_on slash ?s) = hd dirs" "tl (split_on slash ?s) = tl dirs @ ?segs @ [?l]"
    using sp dir by auto
  moreover have "hd dirs \<noteq> ''.''" using dir by (cases dirs) auto
  ultimately have "components ?s =
      concat (map segment_components (hd dirs # tl dirs)) @ concat (map segment_components (?segs @ [?l]))"
    by (simp add: components_def Let_def)
  also have "\<dots> = map Normal (dirs @ names @ [?l])"
    using dirs_comp [of dirs] dir names by simp
  finally show ?thesis
    by (intro exI [of _ "names @ [?l]"]) simp
qed

lemma is_normal_iff: "is_normal c \<longleftrightarrow> (\<exists>n. c = Normal n)"
  by (cases c) (auto simp: is_normal_def)

lemma list_all_normal_iff: "list_all is_normal cs \<longleftrightarrow> (\<exists>ns. cs = map Normal ns)"
proof (induction cs)
  case (Cons c cs)
  have "(\<exists>ns. c # cs = map Normal ns) \<longleftrightarrow> (\<exists>n ns. c # cs = map Normal (n # ns))"
    by (metis Cons_eq_map_D list.simps(9))
  then show ?case using Cons by (auto simp: is_normal_iff)
qed simp

lemma walk_map_Normal [simp]: "walk dir (map Normal ns) = dir @ ns"
  by (induction ns arbitrary: dir) auto

lemma split_on_dirs:
  "\<forall>d \<in> set ds. slash \<notin> set d \<Longrightarrow> ds \<noteq> [] \<Longrightarrow>
    split_on slash (join_with ''/'' ds @ ''/'' @ w) = ds @ split_on slash w"
proof (induction ds)
  case (Cons d ds)
  then show ?case
    by (cases ds) (auto simp: split_on_append_sep split_on_single)
qed simp

lemma components_relative:
  "\<not> is_absolute v \<Longrightarrow> hd (split_on slash v) \<noteq> ''.'' \<Longrightarrow>
    components v = concat (map segment_components (split_on slash v))"
  by (cases "split_on slash v") (auto simp: components_def Let_def)

lemma components_join_dirs:
  assumes "\<forall>d \<in> set dirs. slash \<notin> set d \<and> d \<notin> {[], ''.'', ''..''}" "dirs \<noteq> []"
    and "all_normal v"
  shows "components (join_with ''/'' dirs @ ''/'' @ v) = map Normal dirs @ components v"
proof -
  let ?s = "join_with ''/'' dirs @ ''/'' @ v"
  have sp: "split_on slash ?s = dirs @ split_on slash v"
    using split_on_dirs assms by auto
  have "\<not> is_absolute ?s"
  proof
    assume "is_absolute ?s"
    then have "hd (split_on slash ?s) = []" by (auto simp: is_absolute_def starts_with_iff)
    with sp assms show False by (cases dirs) auto
  qed
  moreover have "hd (split_on slash ?s) \<noteq> ''.''" using sp assms by (cases dirs) auto
  moreover have "concat (map segment_components ds) = map Normal ds"
    if "\<forall>d \<in> set ds. d \<notin> {[], ''.'', ''..''}" for ds
    using that by (induction ds) (auto simp: segment_components_def)
  ultimately show ?thesis
    using assms sp by (simp add: components_relative all_normal_iff)
qed

lemma all_normal_names:
  assumes "all_normal v" and "v \<noteq> []"
  shows "\<exists>n ns. components v = map Normal (n # ns)"
proof -
  obtain ns where ns: "components v = map Normal ns"
    using assms by (auto simp: all_normal_def list_all_normal_iff)
  obtain a as where split: "split_on slash v = a # as"
    by (meson neq_Nil_conv split_on_not_Nil)
  then have "a \<noteq> []"
    using assms join_split_on [of slash v]
    by (cases as) (auto simp: all_normal_iff is_absolute_def starts_with_iff)
  then have "components v \<noteq> []"
    using split assms
    by (auto simp: components_relative all_normal_iff segment_components_def)
  with ns show ?thesis by (cases ns) auto
qed

lemmas validator_defs =
  validate_ref_token_value_def validate_object_id_value_def validate_sync_identifier_def
  validate_keyring_file_name_def validate_pack_relative_path_def
  validate_cached_pack_relative_name_def resolve_relative_path_def branch_ref_path_def

section \<open>Accepted names stay below their directory\<close>

text \<open>A ref token that \<^verbatim>\<open>validate_ref_token_value\<close> accepts names a file strictly below
  \<^verbatim>\<open>control/refs/by-token\<close>: followed from any directory, its ref path never leaves that
  subdirectory. The empty token, an absolute one and one with a parent component are refused.\<close>

theorem ref_token_path_confined:
  assumes "validate_ref_token_value token = Inr ()"
  shows "\<exists>names. names \<noteq> [] \<and>
    walk root (components (ref_path token)) = root @ [''control'', ''refs'', ''by-token''] @ names"
proof -
  have "all_normal token"
    using assms by (auto simp: validate_ref_token_value_def split: if_splits)
  then have "\<exists>names. names \<noteq> [] \<and> components (join_with ''/'' [''control'', ''refs'', ''by-token''] @
      ''/'' @ token @ ''.json'') = map Normal ([''control'', ''refs'', ''by-token''] @ names)"
    by (intro components_below) auto
  then obtain names where "names \<noteq> []"
    "components (ref_path token) = map Normal ([''control'', ''refs'', ''by-token''] @ names)"
    by (auto simp: ref_path_def)
  then have "walk root (components (ref_path token)) =
      root @ [''control'', ''refs'', ''by-token''] @ names"
    by (metis walk_map_Normal)
  with \<open>names \<noteq> []\<close> show ?thesis by blast
qed

theorem ref_token_path_confined_witness:
  "validate_ref_token_value ''t/x..y'' = Inr () \<and>
   (\<exists>names. names \<noteq> [] \<and> walk [''repo''] (components (ref_path ''t/x..y'')) =
     [''repo''] @ [''control'', ''refs'', ''by-token''] @ names)"
proof
  show ok: "validate_ref_token_value ''t/x..y'' = Inr ()" by code_simp
  show "\<exists>names. names \<noteq> [] \<and> walk [''repo''] (components (ref_path ''t/x..y'')) =
     [''repo''] @ [''control'', ''refs'', ''by-token''] @ names"
    by (rule ref_token_path_confined [OF ok])
qed

text \<open>An object id that \<^verbatim>\<open>validate_object_id_value\<close> accepts names a file below
  \<^verbatim>\<open>objects\<close>; when it holds no separator the file is exactly \<^verbatim>\<open>objects/<id>.json\<close>. The check
  counts components, so it lets a trailing separator through, and then the file is one directory
  deeper, against the message "must be a single path segment".\<close>

theorem object_path_confined:
  "(validate_object_id_value i = Inr () \<longrightarrow>
      (\<exists>names. names \<noteq> [] \<and>
        walk root (components (relative_object_path i)) = root @ [''objects''] @ names) \<and>
      (slash \<notin> set i \<longrightarrow>
        walk root (components (relative_object_path i)) = root @ [''objects'', i @ ''.json'']))
   \<and> validate_object_id_value ''a/'' = Inr ()
   \<and> walk root (components (relative_object_path ''a/'')) = root @ [''objects'', ''a'', ''.json'']"
proof (intro conjI impI)
  assume ok: "validate_object_id_value i = Inr ()"
  then have "all_normal i"
    by (auto simp: validate_object_id_value_def split: if_splits)
  then have "\<exists>names. names \<noteq> [] \<and> components (join_with ''/'' [''objects''] @
      ''/'' @ i @ ''.json'') = map Normal ([''objects''] @ names)"
    by (intro components_below) auto
  then obtain names where names: "names \<noteq> []"
    "components (relative_object_path i) = map Normal ([''objects''] @ names)"
    by (auto simp: relative_object_path_def)
  then show "\<exists>names. names \<noteq> [] \<and>
      walk root (components (relative_object_path i)) = root @ [''objects''] @ names"
    by (metis walk_map_Normal)
  assume "slash \<notin> set i"
  then have "split_on slash (relative_object_path i) = [''objects'', i @ ''.json'']"
    by (simp add: relative_object_path_def split_on_single)
  moreover have "segment_components (i @ ''.json'') = [Normal (i @ ''.json'')]"
    by (auto simp: segment_components_def append_eq_Cons_conv)
  moreover have "\<not> is_absolute (relative_object_path i)"
    by (simp add: is_absolute_def starts_with_iff relative_object_path_def)
  ultimately have "components (relative_object_path i) = map Normal [''objects'', i @ ''.json'']"
    by (simp add: components_def Let_def segment_components_def)
  then show "walk root (components (relative_object_path i)) = root @ [''objects'', i @ ''.json'']"
    by (metis walk_map_Normal)
next
  show "validate_object_id_value ''a/'' = Inr ()" by code_simp
  have "components (relative_object_path ''a/'') = map Normal [''objects'', ''a'', ''.json'']"
    by code_simp
  then show "walk root (components (relative_object_path ''a/'')) = root @ [''objects'', ''a'', ''.json'']"
    by (metis walk_map_Normal)
qed

theorem object_path_confined_witness:
  "validate_object_id_value ''ab12'' = Inr () \<and>
   walk [] (components (relative_object_path ''ab12'')) = [''objects'', ''ab12.json'']"
proof -
  have "validate_object_id_value ''ab12'' = Inr ()" by code_simp
  then show ?thesis
    using object_path_confined [of "''ab12''" "[]"] by simp
qed

end
