(* ===== verification/Layout.thy ===== *)
theory Layout
  imports Paths
begin

text \<open>
  What a storage backend can do and how objects are laid out on it: the capability rules that
  choose the writer mode (\<^verbatim>\<open>e2v-store/src/capability.rs\<close>), the layout root
  (\<^verbatim>\<open>layout.rs\<close>), the three storage layouts and the read plans they make
  (\<^verbatim>\<open>storage_layout.rs\<close>, \<^verbatim>\<open>oblivious_layout.rs\<close>), and the policy tables from which the sync
  engine builds the next oblivious root (\<^verbatim>\<open>e2v-sync/src/oram.rs\<close>).
\<close>

section \<open>Backend capabilities\<close>

datatype consistency_class = StrongWhitelisted | UnknownOrEventual

datatype writer_mode = MultiWriter | SingleWriter | ReadOnly

record backend_capability =
  supports_conditional_put :: bool
  supports_range_read :: bool
  supports_atomic_rename :: bool
  supports_paged_list :: bool
  consistency :: consistency_class
  supports_remote_lock_or_lease :: bool
  supports_atomic_create_if_absent :: bool
  supports_transaction_markers :: bool
  supports_reliable_remote_time :: bool
  supports_object_generation_or_etag :: bool
  supports_layout_root_cas :: bool
  supports_oblivious_access_schedule :: bool

definition capability_writer_mode :: "backend_capability \<Rightarrow> writer_mode" where
  "capability_writer_mode c =
     (if supports_conditional_put c then MultiWriter
      else if supports_remote_lock_or_lease c then SingleWriter
      else ReadOnly)"

definition supports_safe_single_writer_push :: "backend_capability \<Rightarrow> bool" where
  "supports_safe_single_writer_push c =
     (supports_remote_lock_or_lease c \<and> supports_atomic_create_if_absent c \<and>
      supports_transaction_markers c \<and>
      (supports_reliable_remote_time c \<or> supports_object_generation_or_etag c))"

definition push_write_mode :: "backend_capability \<Rightarrow> writer_mode" where
  "push_write_mode c =
     (if supports_conditional_put c then MultiWriter
      else if supports_safe_single_writer_push c then SingleWriter
      else ReadOnly)"

definition supports_oblivious_layout_updates :: "backend_capability \<Rightarrow> bool" where
  "supports_oblivious_layout_updates c =
     (supports_oblivious_access_schedule c \<and> supports_range_read c \<and>
      (supports_layout_root_cas c \<or> supports_safe_single_writer_push c) \<and>
      supports_transaction_markers c \<and>
      (supports_reliable_remote_time c \<or> supports_object_generation_or_etag c))"

section \<open>The layout root\<close>

datatype layout_mode = Direct | Pack | Rewrite | Oblivious

datatype dedup_mode = StablePhysical | GenerationScopedRandomized

record layout_schedule_policy =
  bucket_bytes :: u32
  min_total_reads :: u8
  cover_reads_per_request :: u8
  reshuffle_after_generations :: u32

record layout_traffic_policy =
  max_parallel_reads :: u8
  inter_read_delay_ms :: u16
  burst_budget_bytes :: u64
  target_request_window_ms :: u32

record layout_cost_policy =
  cost_profile :: string
  max_expected_read_amplification :: u8
  max_expected_write_amplification :: u8

record layout_root =
  root_schema_version :: u32
  root_layout_id :: string
  root_generation :: u64
  root_mode :: layout_mode
  mapping_policy :: string
  root_dedup_mode :: dedup_mode
  oblivious_generation :: "u64 option"
  schedule_policy :: layout_schedule_policy
  traffic_policy :: layout_traffic_policy
  cost_policy :: layout_cost_policy

definition direct_default :: layout_root where
  "direct_default =
     \<lparr> root_schema_version = 1, root_layout_id = ''direct'', root_generation = 1,
       root_mode = Direct, mapping_policy = ''loose'', root_dedup_mode = StablePhysical,
       oblivious_generation = None,
       schedule_policy = \<lparr> bucket_bytes = 0, min_total_reads = 1,
         cover_reads_per_request = 0, reshuffle_after_generations = 0 \<rparr>,
       traffic_policy = \<lparr> max_parallel_reads = 0, inter_read_delay_ms = 0,
         burst_budget_bytes = 0, target_request_window_ms = 0 \<rparr>,
       cost_policy = \<lparr> cost_profile = ''direct'', max_expected_read_amplification = 1,
         max_expected_write_amplification = 1 \<rparr> \<rparr>"

section \<open>Physical references and read plans\<close>

record physical_object_ref =
  ref_layout_id :: string
  container_id :: string
  ref_offset :: "u64 option"
  ref_length :: u64

definition physical_ref_pack :: "string \<Rightarrow> u64 \<Rightarrow> u64 \<Rightarrow> physical_object_ref" where
  "physical_ref_pack container off len =
     \<lparr> ref_layout_id = ''pack'', container_id = container, ref_offset = Some off,
       ref_length = len \<rparr>"

record logical_read_request =
  req_object_id :: string
  req_offset :: u64
  req_length :: u64

datatype physical_read_kind = Real | Cover

record physical_read_op =
  physical_ref :: physical_object_ref
  op_kind :: physical_read_kind

record logical_response_window =
  logical_offset :: u64
  logical_length :: u64

record traffic_execution_hint =
  hint_max_parallel_reads :: u8
  hint_inter_read_delay_ms :: u16
  hint_burst_budget_bytes :: u64
  hint_target_request_window_ms :: u32

definition no_shaping :: traffic_execution_hint where
  "no_shaping = \<lparr> hint_max_parallel_reads = 0, hint_inter_read_delay_ms = 0,
     hint_burst_budget_bytes = 0, hint_target_request_window_ms = 0 \<rparr>"

record read_plan =
  plan_layout_id :: string
  plan_generation :: u64
  operations :: "physical_read_op list"
  response_window :: logical_response_window
  traffic_hint :: traffic_execution_hint

datatype layout_object_location =
  LooseObject string u64
| PackedObject string u64 u64

section \<open>The direct and the pack layout\<close>

definition direct_resolve :: "layout_object_location \<Rightarrow> physical_object_ref res" where
  "direct_resolve location =
     (case location of
        LooseObject object_id stored_len \<Rightarrow>
          rbind (validate_object_id_value object_id) (\<lambda>_.
          Inr \<lparr> ref_layout_id = ''direct'', container_id = ''objects/'' @ object_id @ ''.json'',
                ref_offset = None, ref_length = stored_len \<rparr>)
      | PackedObject _ _ _ \<Rightarrow> Inl (Bail ''direct storage layout cannot resolve packed objects''))"

definition direct_plan_logical_read :: "logical_read_request \<Rightarrow> read_plan res" where
  "direct_plan_logical_read request =
     rbind (direct_resolve (LooseObject (req_object_id request) (req_length request))) (\<lambda>r.
     Inr \<lparr> plan_layout_id = ''direct'', plan_generation = 1,
           operations = [\<lparr> physical_ref = r, op_kind = Real \<rparr>],
           response_window = \<lparr> logical_offset = req_offset request,
                               logical_length = req_length request \<rparr>,
           traffic_hint = no_shaping \<rparr>)"

definition pack_resolve :: "layout_object_location \<Rightarrow> physical_object_ref res" where
  "pack_resolve location =
     (case location of
        PackedObject container offset len \<Rightarrow>
          ensure (starts_with container ''packs/data/'')
            (Bail ''pack storage layout requires pack data container ids'')
          (let relative = (case strip_prefix ''packs/data/'' container of
                             Some r \<Rightarrow> r | None \<Rightarrow> [])
           in ensure (relative \<noteq> []) (Bail ''pack data path must not be empty'')
              (ensure (all_normal relative) (Bail ''pack data path traversal is not allowed'')
              (Inr (physical_ref_pack container offset len))))
      | LooseObject _ _ \<Rightarrow> Inl (Bail ''pack storage layout cannot resolve loose objects''))"

definition pack_plan_logical_read :: "logical_read_request \<Rightarrow> read_plan res" where
  "pack_plan_logical_read request =
     rbind (pack_resolve
              (PackedObject ''packs/data/test-pack.bin'' (req_offset request) (req_length request)))
     (\<lambda>r. Inr \<lparr> plan_layout_id = ''pack'', plan_generation = 1,
                 operations = [\<lparr> physical_ref = r, op_kind = Real \<rparr>],
                 response_window = \<lparr> logical_offset = req_offset request,
                                     logical_length = req_length request \<rparr>,
                 traffic_hint = no_shaping \<rparr>)"

section \<open>The oblivious layout\<close>

record oblivious_object_placement =
  placed_object_id :: string
  bucket_path :: string
  slot_offset :: u64
  slot_length :: u64

record oblivious_storage_layout =
  layout_root_of :: layout_root
  placements :: "oblivious_object_placement list"

definition placement_for ::
  "oblivious_storage_layout \<Rightarrow> string \<Rightarrow> oblivious_object_placement res" where
  "placement_for l object_id =
     ok_or (Bail ''missing oblivious placement for object'')
       (find (\<lambda>p. placed_object_id p = object_id) (placements l))"

definition bucket_ref :: "oblivious_storage_layout \<Rightarrow> string \<Rightarrow> physical_object_ref" where
  "bucket_ref l path =
     physical_ref_pack path 0 (ucast (bucket_bytes (schedule_policy (layout_root_of l))))"

definition cover_bucket_ref :: "oblivious_storage_layout \<Rightarrow> nat \<Rightarrow> physical_object_ref" where
  "cover_bucket_ref l cover_index =
     (let generation = (case oblivious_generation (layout_root_of l) of Some g \<Rightarrow> g | None \<Rightarrow> 0)
      in bucket_ref l (''oblivious/data/'' @ padded 20 (unat generation) @ ''/cover-'' @
                       padded 2 cover_index @ ''.bin''))"

definition cover_op :: "oblivious_storage_layout \<Rightarrow> nat \<Rightarrow> physical_read_op" where
  "cover_op l i = \<lparr> physical_ref = cover_bucket_ref l i, op_kind = Cover \<rparr>"

text \<open>The \<^verbatim>\<open>while operations.len() < min_total_reads\<close> loop of the planner.\<close>

function fill_covers ::
  "oblivious_storage_layout \<Rightarrow> nat \<Rightarrow> physical_read_op list \<Rightarrow> physical_read_op list" where
  "fill_covers l n ops =
     (if length ops < n then fill_covers l n (ops @ [cover_op l (length ops)]) else ops)"
  by auto

termination
  by (relation "measure (\<lambda>(l, n, ops). n - length ops)") auto

declare fill_covers.simps [simp del]

definition oblivious_plan_logical_read ::
  "oblivious_storage_layout \<Rightarrow> logical_read_request \<Rightarrow> read_plan res" where
  "oblivious_plan_logical_read l request =
     rbind (placement_for l (req_object_id request)) (\<lambda>placement.
     (let root = layout_root_of l;
          ops = \<lparr> physical_ref = bucket_ref l (bucket_path placement), op_kind = Real \<rparr>
                # map (cover_op l) [0..<unat (cover_reads_per_request (schedule_policy root))]
      in Inr \<lparr> plan_layout_id = root_layout_id root, plan_generation = root_generation root,
               operations = fill_covers l (unat (min_total_reads (schedule_policy root))) ops,
               response_window = \<lparr> logical_offset = req_offset request,
                                   logical_length = req_length request \<rparr>,
               traffic_hint =
                 \<lparr> hint_max_parallel_reads = max_parallel_reads (traffic_policy root),
                   hint_inter_read_delay_ms = inter_read_delay_ms (traffic_policy root),
                   hint_burst_budget_bytes = burst_budget_bytes (traffic_policy root),
                   hint_target_request_window_ms =
                     target_request_window_ms (traffic_policy root) \<rparr> \<rparr>))"

definition enumerate_reachable_physical_refs ::
  "oblivious_storage_layout \<Rightarrow> physical_object_ref list res" where
  "enumerate_reachable_physical_refs l = Inr (map (\<lambda>p. bucket_ref l (bucket_path p)) (placements l))"

section \<open>Oblivious policies\<close>

definition policy_for_profile :: "string \<Rightarrow> layout_schedule_policy" where
  "policy_for_profile profile =
     (if profile = ''throughput'' then
        \<lparr> bucket_bytes = 8192, min_total_reads = 2, cover_reads_per_request = 1,
          reshuffle_after_generations = 8 \<rparr>
      else if profile = ''strict'' then
        \<lparr> bucket_bytes = 4096, min_total_reads = 4, cover_reads_per_request = 3,
          reshuffle_after_generations = 3 \<rparr>
      else
        \<lparr> bucket_bytes = 4096, min_total_reads = 3, cover_reads_per_request = 2,
          reshuffle_after_generations = 5 \<rparr>)"

definition traffic_for_profile :: "string \<Rightarrow> layout_traffic_policy" where
  "traffic_for_profile profile =
     (if profile = ''throughput'' then
        \<lparr> max_parallel_reads = 4, inter_read_delay_ms = 0, burst_budget_bytes = 65536,
          target_request_window_ms = 40 \<rparr>
      else if profile = ''strict'' then
        \<lparr> max_parallel_reads = 1, inter_read_delay_ms = 20, burst_budget_bytes = 8192,
          target_request_window_ms = 120 \<rparr>
      else
        \<lparr> max_parallel_reads = 2, inter_read_delay_ms = 15, burst_budget_bytes = 16384,
          target_request_window_ms = 90 \<rparr>)"

definition cost_for_profile :: "string \<Rightarrow> layout_cost_policy" where
  "cost_for_profile profile =
     (if profile = ''throughput'' then
        \<lparr> cost_profile = profile, max_expected_read_amplification = 2,
          max_expected_write_amplification = 3 \<rparr>
      else if profile = ''strict'' then
        \<lparr> cost_profile = profile, max_expected_read_amplification = 4,
          max_expected_write_amplification = 5 \<rparr>
      else
        \<lparr> cost_profile = profile, max_expected_read_amplification = 3,
          max_expected_write_amplification = 4 \<rparr>)"

definition build_next_oblivious_layout_root ::
  "layout_root \<Rightarrow> u64 \<Rightarrow> u64 \<Rightarrow> string \<Rightarrow> layout_root" where
  "build_next_oblivious_layout_root current next_layout_generation next_oblivious_generation
     policy_profile =
     \<lparr> root_schema_version = root_schema_version current,
       root_layout_id = ''oram-v'' @ decimal (unat next_oblivious_generation),
       root_generation = next_layout_generation,
       root_mode = Oblivious,
       mapping_policy = ''bucketed-randomized'',
       root_dedup_mode = GenerationScopedRandomized,
       oblivious_generation = Some next_oblivious_generation,
       schedule_policy = policy_for_profile policy_profile,
       traffic_policy = traffic_for_profile policy_profile,
       cost_policy = cost_for_profile policy_profile \<rparr>"

record oblivious_layout_plan =
  estimated_real_reads_per_request :: u8
  estimated_cover_reads_per_request :: u8
  estimated_bytes_per_request :: u64
  estimated_write_amplification :: u8
  requires_layout_root_rewrite :: bool

record oblivious_layout_status =
  status_layout_mode :: string
  status_dedup_mode :: string
  status_layout_generation :: u64
  status_oblivious_generation :: "u64 option"
  status_policy_profile :: string

text \<open>
  \<^verbatim>\<open>plan_oblivious_layout\<close> and \<^verbatim>\<open>status_oblivious_layout\<close>, from the two records they read:
  the layout root and, when there is one, the policy profile of the remote oblivious root. The
  advisory messages of the plan are left out.
\<close>

definition plan_oblivious_layout :: "layout_root \<Rightarrow> string option \<Rightarrow> oblivious_layout_plan" where
  "plan_oblivious_layout root remote_profile =
     (let policy = policy_for_profile
                     (case remote_profile of Some p \<Rightarrow> p | None \<Rightarrow> ''balanced'')
      in \<lparr> estimated_real_reads_per_request = 1,
           estimated_cover_reads_per_request = max (cover_reads_per_request policy) 1,
           estimated_bytes_per_request =
             ucast (bucket_bytes policy) * ucast (max (min_total_reads policy) 1),
           estimated_write_amplification = max (sat_add (cover_reads_per_request policy) 2) 2,
           requires_layout_root_rewrite = (root_mode root \<noteq> Oblivious) \<rparr>)"

definition status_from_layout_root :: "layout_root \<Rightarrow> string \<Rightarrow> oblivious_layout_status" where
  "status_from_layout_root root policy_profile =
     \<lparr> status_layout_mode =
         (case root_mode root of Direct \<Rightarrow> ''direct'' | Pack \<Rightarrow> ''pack''
          | Rewrite \<Rightarrow> ''rewrite'' | Oblivious \<Rightarrow> ''oblivious''),
       status_dedup_mode =
         (case root_dedup_mode root of StablePhysical \<Rightarrow> ''stable-physical''
          | GenerationScopedRandomized \<Rightarrow> ''generation-scoped-randomized''),
       status_layout_generation = root_generation root,
       status_oblivious_generation = oblivious_generation root,
       status_policy_profile = policy_profile \<rparr>"

definition status_oblivious_layout ::
  "layout_root \<Rightarrow> string option \<Rightarrow> oblivious_layout_status" where
  "status_oblivious_layout root remote_profile =
     status_from_layout_root root
       (case remote_profile of Some p \<Rightarrow> p | None \<Rightarrow> cost_profile (cost_policy root))"

section \<open>Plans of every layout\<close>

text \<open>
  The part of the \<^verbatim>\<open>StorageLayout\<close> contract that a reader of plans uses: a plan answers the
  window that was asked for, and its first operation is the only real one.
\<close>

locale storage_layout =
  fixes plan :: "logical_read_request \<Rightarrow> read_plan res"
  assumes window: "plan r = Inr p \<Longrightarrow>
      response_window p = \<lparr> logical_offset = req_offset r, logical_length = req_length r \<rparr>"
    and real_first: "plan r = Inr p \<Longrightarrow>
      \<exists>op covers. operations p = op # covers \<and> op_kind op = Real \<and> (\<forall>c \<in> set covers. op_kind c = Cover)"
begin

lemma one_real_read:
  "plan r = Inr p \<Longrightarrow> length (filter (\<lambda>op. op_kind op = Real) (operations p)) = 1"
proof -
  assume "plan r = Inr p"
  then obtain op covers where "operations p = op # covers" "op_kind op = Real"
    and covers: "\<forall>c \<in> set covers. op_kind c = Cover"
    using real_first by blast
  moreover from covers have "filter (\<lambda>op. op_kind op = Real) covers = []"
    by (simp add: filter_empty_conv)
  ultimately show ?thesis by simp
qed

lemma operations_nonempty: "plan r = Inr p \<Longrightarrow> operations p \<noteq> []"
  using real_first by fastforce

end

lemma direct_plan_Inr_iff:
  "direct_plan_logical_read r = Inr p \<longleftrightarrow>
     validate_object_id_value (req_object_id r) = Inr () \<and>
     p = \<lparr> plan_layout_id = ''direct'', plan_generation = 1,
           operations = [\<lparr> physical_ref =
             \<lparr> ref_layout_id = ''direct'',
               container_id = ''objects/'' @ req_object_id r @ ''.json'',
               ref_offset = None, ref_length = req_length r \<rparr>, op_kind = Real \<rparr>],
           response_window = \<lparr> logical_offset = req_offset r, logical_length = req_length r \<rparr>,
           traffic_hint = no_shaping \<rparr>"
  by (auto simp: direct_plan_logical_read_def direct_resolve_def rbind_Inr_iff)

interpretation direct: storage_layout direct_plan_logical_read
  by unfold_locales (auto simp: direct_plan_Inr_iff)

interpretation pack: storage_layout pack_plan_logical_read
  by unfold_locales (auto simp: pack_plan_logical_read_def rbind_Inr_iff)

lemma fill_covers_eq:
  "fill_covers l n ops = ops @ map (cover_op l) [length ops..<n]"
proof (induction l n ops rule: fill_covers.induct)
  case (1 l n ops)
  then show ?case
    by (subst fill_covers.simps) (simp add: upt_conv_Cons)
qed

text \<open>The cover indices of a plan: \<open>0..<c\<close>, then those the padding loop adds.\<close>

definition cover_indices :: "layout_schedule_policy \<Rightarrow> nat list" where
  "cover_indices s =
     [0..<unat (cover_reads_per_request s)] @
     [Suc (unat (cover_reads_per_request s))..<unat (min_total_reads s)]"

lemma oblivious_plan_Inr_iff:
  "oblivious_plan_logical_read l r = Inr p \<longleftrightarrow>
     (\<exists>pl. find (\<lambda>pl. placed_object_id pl = req_object_id r) (placements l) = Some pl \<and>
       p = \<lparr> plan_layout_id = root_layout_id (layout_root_of l),
             plan_generation = root_generation (layout_root_of l),
             operations = \<lparr> physical_ref = bucket_ref l (bucket_path pl), op_kind = Real \<rparr>
               # map (cover_op l) (cover_indices (schedule_policy (layout_root_of l))),
             response_window = \<lparr> logical_offset = req_offset r, logical_length = req_length r \<rparr>,
             traffic_hint =
               \<lparr> hint_max_parallel_reads = max_parallel_reads (traffic_policy (layout_root_of l)),
                 hint_inter_read_delay_ms = inter_read_delay_ms (traffic_policy (layout_root_of l)),
                 hint_burst_budget_bytes = burst_budget_bytes (traffic_policy (layout_root_of l)),
                 hint_target_request_window_ms =
                   target_request_window_ms (traffic_policy (layout_root_of l)) \<rparr> \<rparr>)"
  by (auto simp: oblivious_plan_logical_read_def placement_for_def Let_def rbind_Inr_iff
      ok_or_Inr_iff fill_covers_eq cover_indices_def)

interpretation obl: storage_layout "oblivious_plan_logical_read l" for l
  by unfold_locales (auto simp: oblivious_plan_Inr_iff cover_op_def)

lemma cover_bucket_ref_inject: "cover_bucket_ref l i = cover_bucket_ref l j \<longleftrightarrow> i = j"
  by (auto simp: cover_bucket_ref_def bucket_ref_def physical_ref_pack_def Let_def)

lemma length_cover_indices:
  "length (cover_indices s) + 1 =
     max (unat (cover_reads_per_request s) + 1) (unat (min_total_reads s))"
  by (auto simp: cover_indices_def)

lemma distinct_cover_indices: "distinct (cover_indices s)"
  by (auto simp: cover_indices_def)

section \<open>What the layouts promise\<close>

text \<open>The access pattern of an oblivious read. A plan holds
  \<open>max (1 + cover_reads_per_request) min_total_reads\<close> operations, each reads one whole bucket
  from its start, exactly one is real, no cover bucket is read twice, and everything
  after the first operation and the bucket-sized window of the first is the same for any two
  objects, offsets and lengths.\<close>

theorem oblivious_access_pattern:
  assumes "oblivious_plan_logical_read l r = Inr p" and "oblivious_plan_logical_read l r' = Inr p'"
  shows "length (operations p) =
      max (1 + unat (cover_reads_per_request (schedule_policy (layout_root_of l))))
          (unat (min_total_reads (schedule_policy (layout_root_of l)))) \<and>
    (\<forall>op \<in> set (operations p). ref_offset (physical_ref op) = Some 0 \<and>
      ref_length (physical_ref op) = ucast (bucket_bytes (schedule_policy (layout_root_of l)))) \<and>
    length (filter (\<lambda>op. op_kind op = Real) (operations p)) = 1 \<and>
    distinct (map physical_ref (filter (\<lambda>op. op_kind op = Cover) (operations p))) \<and>
    tl (operations p) = tl (operations p') \<and>
    (req_object_id r = req_object_id r' \<longrightarrow> operations p = operations p')"
proof (intro conjI impI)
  let ?s = "schedule_policy (layout_root_of l)"
  obtain a where p: "operations p = a # map (cover_op l) (cover_indices ?s)"
    and a: "op_kind a = Real" "ref_offset (physical_ref a) = Some 0"
      "ref_length (physical_ref a) = ucast (bucket_bytes ?s)"
    using assms by (auto simp: oblivious_plan_Inr_iff bucket_ref_def physical_ref_pack_def)
  obtain a' where p': "operations p' = a' # map (cover_op l) (cover_indices ?s)"
    using assms by (auto simp: oblivious_plan_Inr_iff)
  show "length (operations p) = max (1 + unat (cover_reads_per_request ?s)) (unat (min_total_reads ?s))"
    using length_cover_indices [of ?s] by (simp add: p)
  show "\<forall>op \<in> set (operations p). ref_offset (physical_ref op) = Some 0 \<and>
      ref_length (physical_ref op) = ucast (bucket_bytes ?s)"
    using a by (auto simp: p cover_op_def cover_bucket_ref_def bucket_ref_def
        physical_ref_pack_def Let_def)
  show "length (filter (\<lambda>op. op_kind op = Real) (operations p)) = 1"
    using assms(1) by (rule obl.one_real_read)
  have "filter (\<lambda>op. op_kind op = Cover) (operations p) = map (cover_op l) (cover_indices ?s)"
    using a by (simp add: p cover_op_def filter_map o_def)
  then show "distinct (map physical_ref (filter (\<lambda>op. op_kind op = Cover) (operations p)))"
    by (auto simp: distinct_map distinct_cover_indices inj_on_def cover_op_def
        cover_bucket_ref_inject)
  show "tl (operations p) = tl (operations p')" by (simp add: p p')
  show "operations p = operations p'" if "req_object_id r = req_object_id r'"
    using assms that by (auto simp: oblivious_plan_Inr_iff)
qed

definition sample_oblivious_layout :: oblivious_storage_layout where
  "sample_oblivious_layout =
     \<lparr> layout_root_of = build_next_oblivious_layout_root direct_default 2 1 ''strict'',
       placements = [\<lparr> placed_object_id = ''a'', bucket_path = ''b0'', slot_offset = 0,
                       slot_length = 9 \<rparr>,
                     \<lparr> placed_object_id = ''c'', bucket_path = ''b1'', slot_offset = 0,
                       slot_length = 7 \<rparr>] \<rparr>"

theorem oblivious_access_pattern_witness:
  "\<exists>p p'. oblivious_plan_logical_read sample_oblivious_layout
       \<lparr> req_object_id = ''a'', req_offset = 0, req_length = 5 \<rparr> = Inr p \<and>
     oblivious_plan_logical_read sample_oblivious_layout
       \<lparr> req_object_id = ''c'', req_offset = 3, req_length = 4 \<rparr> = Inr p' \<and>
     length (operations p) = 4 \<and> tl (operations p) = tl (operations p')"
proof -
  obtain p p' where
    p: "oblivious_plan_logical_read sample_oblivious_layout
       \<lparr> req_object_id = ''a'', req_offset = 0, req_length = 5 \<rparr> = Inr p" and
    p': "oblivious_plan_logical_read sample_oblivious_layout
       \<lparr> req_object_id = ''c'', req_offset = 3, req_length = 4 \<rparr> = Inr p'"
    by (simp add: sample_oblivious_layout_def oblivious_plan_logical_read_def placement_for_def Let_def)
  have "unat (cover_reads_per_request (schedule_policy (layout_root_of sample_oblivious_layout))) = 3"
    "unat (min_total_reads (schedule_policy (layout_root_of sample_oblivious_layout))) = 4"
    by (simp_all add: sample_oblivious_layout_def build_next_oblivious_layout_root_def
        policy_for_profile_def)
  with p p' oblivious_access_pattern [OF p p'] show ?thesis by auto
qed

text \<open>The cost estimate is exact. On a root that \<^verbatim>\<open>build_next_oblivious_layout_root\<close> makes for
  a profile, every successful read plan fetches exactly the bytes that
  \<^verbatim>\<open>plan_oblivious_layout\<close> estimates for that profile, with the estimated number of cover reads,
  and its number of reads is the read amplification that the cost policy announces.\<close>

theorem oblivious_estimate_exact:
  assumes "layout_root_of l = build_next_oblivious_layout_root cur gen obl_gen profile"
    and "oblivious_plan_logical_read l r = Inr p"
  shows "sum_list (map (\<lambda>op. unat (ref_length (physical_ref op))) (operations p)) =
      unat (estimated_bytes_per_request (plan_oblivious_layout root (Some profile))) \<and>
    length (filter (\<lambda>op. op_kind op = Cover) (operations p)) =
      unat (estimated_cover_reads_per_request (plan_oblivious_layout root (Some profile))) \<and>
    length (operations p) =
      unat (max_expected_read_amplification (cost_policy (layout_root_of l)))"
proof (intro conjI)
  let ?s = "policy_for_profile profile"
  have s: "schedule_policy (layout_root_of l) = ?s"
    using assms(1) by (simp add: build_next_oblivious_layout_root_def)
  obtain a where p: "operations p = a # map (cover_op l) (cover_indices ?s)"
    and a: "op_kind a = Real" "ref_length (physical_ref a) = ucast (bucket_bytes ?s)"
    using assms(2) by (auto simp: oblivious_plan_Inr_iff bucket_ref_def physical_ref_pack_def s)
  have cover: "op_kind (cover_op l i) = Cover"
    "ref_length (physical_ref (cover_op l i)) = ucast (bucket_bytes ?s)" for i
    by (simp_all add: cover_op_def cover_bucket_ref_def bucket_ref_def physical_ref_pack_def Let_def s)
  have covers: "filter (\<lambda>op. op_kind op = Cover) (operations p) = map (cover_op l) (cover_indices ?s)"
    using a cover by (simp add: p filter_map o_def)
  have len: "length (cover_indices ?s) = unat (cover_reads_per_request ?s)"
    by (simp add: cover_indices_def policy_for_profile_def)
  have sum: "sum_list (map (\<lambda>op. unat (ref_length (physical_ref op))) (operations p)) =
      Suc (length (cover_indices ?s)) * unat (ucast (bucket_bytes ?s) :: u64)"
    by (simp add: p a o_def cover sum_list_triv)
  show "sum_list (map (\<lambda>op. unat (ref_length (physical_ref op))) (operations p)) =
      unat (estimated_bytes_per_request (plan_oblivious_layout root (Some profile)))"
    unfolding sum len by (simp add: plan_oblivious_layout_def policy_for_profile_def Let_def)
  show "length (filter (\<lambda>op. op_kind op = Cover) (operations p)) =
      unat (estimated_cover_reads_per_request (plan_oblivious_layout root (Some profile)))"
    unfolding covers length_map len
    by (simp add: plan_oblivious_layout_def policy_for_profile_def Let_def)
  show "length (operations p) = unat (max_expected_read_amplification (cost_policy (layout_root_of l)))"
    unfolding p by (simp only: list.size length_map len)
      (simp add: assms(1) build_next_oblivious_layout_root_def cost_for_profile_def
        policy_for_profile_def)
qed

theorem oblivious_estimate_exact_witness:
  "\<exists>p. oblivious_plan_logical_read sample_oblivious_layout
       \<lparr> req_object_id = ''a'', req_offset = 0, req_length = 5 \<rparr> = Inr p \<and>
     sum_list (map (\<lambda>op. unat (ref_length (physical_ref op))) (operations p)) = 16384"
proof -
  have root: "layout_root_of sample_oblivious_layout =
      build_next_oblivious_layout_root direct_default 2 1 ''strict''"
    by (simp add: sample_oblivious_layout_def)
  obtain p where p: "oblivious_plan_logical_read sample_oblivious_layout
       \<lparr> req_object_id = ''a'', req_offset = 0, req_length = 5 \<rparr> = Inr p"
    by (simp add: sample_oblivious_layout_def oblivious_plan_logical_read_def placement_for_def Let_def)
  have "unat (estimated_bytes_per_request (plan_oblivious_layout direct_default (Some ''strict''))) = 16384"
    by (simp add: plan_oblivious_layout_def policy_for_profile_def Let_def)
  with p oblivious_estimate_exact [OF root p, of direct_default] show ?thesis by auto
qed

lemma pack_resolve_container:
  assumes "pack_resolve loc = Inr r"
  shows "\<exists>n ns. walk root (components (container_id r)) = root @ [''packs'', ''data''] @ n # ns"
proof -
  obtain c off len where loc: "loc = PackedObject c off len"
    using assms by (cases loc) (auto simp: pack_resolve_def)
  then obtain rel where c: "c = ''packs/data/'' @ rel" "rel \<noteq> []" "all_normal rel"
    and r: "container_id r = c"
    using assms by (auto simp: pack_resolve_def starts_with_def physical_ref_pack_def
        strip_prefix_Some_iff split: if_splits)
  have "components (join_with ''/'' [''packs'', ''data''] @ ''/'' @ rel) =
      map Normal [''packs'', ''data''] @ components rel"
    by (intro components_join_dirs) (auto simp: c)
  moreover obtain n ns where "components rel = map Normal (n # ns)"
    using c all_normal_names by blast
  ultimately have "components c = map Normal ([''packs'', ''data''] @ n # ns)"
    by (simp add: c)
  then show ?thesis
    by (metis walk_map_Normal r)
qed

text \<open>A container id that the pack layout resolves leads to a file strictly below
  \<^verbatim>\<open>packs/data\<close>, and the direct and pack layouts never resolve each other's locations.\<close>

theorem pack_resolve_confined:
  assumes "pack_resolve loc = Inr r"
  shows "(\<exists>n ns. walk root (components (container_id r)) = root @ [''packs'', ''data''] @ n # ns)
    \<and> direct_resolve loc = Inl (Bail ''direct storage layout cannot resolve packed objects'')"
proof
  show "direct_resolve loc = Inl (Bail ''direct storage layout cannot resolve packed objects'')"
    using assms by (cases loc) (auto simp: pack_resolve_def direct_resolve_def)
qed (rule pack_resolve_container [OF assms])

theorem pack_resolve_confined_witness:
  "\<exists>n ns. walk [''r''] (components ''packs/data/p-1.bin'') = [''r''] @ [''packs'', ''data''] @ n # ns"
proof -
  have ok: "pack_resolve (PackedObject ''packs/data/p-1.bin'' 0 5) =
      Inr (physical_ref_pack ''packs/data/p-1.bin'' 0 5)"
    by code_simp
  show ?thesis
    using pack_resolve_confined [OF ok, of "[''r'']"] by (simp add: physical_ref_pack_def)
qed

text \<open>The writer mode of a push is never stronger than what the backend supports: a
  multi-writer push needs conditional puts, a single-writer push needs a lease, atomic create,
  transaction markers and a trusted clock or etag; and a backend that is allowed oblivious
  updates without a conditional layout root is never read-only for a push.\<close>

theorem push_write_mode_sound:
  "(push_write_mode c = MultiWriter \<longleftrightarrow> supports_conditional_put c) \<and>
   (push_write_mode c = SingleWriter \<longleftrightarrow>
      \<not> supports_conditional_put c \<and> supports_safe_single_writer_push c) \<and>
   (push_write_mode c \<noteq> ReadOnly \<longrightarrow> push_write_mode c = capability_writer_mode c) \<and>
   (supports_oblivious_layout_updates c \<and> \<not> supports_layout_root_cas c \<longrightarrow>
      push_write_mode c \<noteq> ReadOnly)"
  by (simp add: push_write_mode_def capability_writer_mode_def supports_safe_single_writer_push_def
      supports_oblivious_layout_updates_def)

definition sample_capability :: backend_capability where
  "sample_capability =
     \<lparr> supports_conditional_put = False, supports_range_read = True,
       supports_atomic_rename = False, supports_paged_list = True,
       consistency = StrongWhitelisted, supports_remote_lock_or_lease = True,
       supports_atomic_create_if_absent = True, supports_transaction_markers = True,
       supports_reliable_remote_time = True, supports_object_generation_or_etag = False,
       supports_layout_root_cas = False, supports_oblivious_access_schedule = True \<rparr>"

theorem push_write_mode_sound_witness:
  "push_write_mode sample_capability = SingleWriter"
  using push_write_mode_sound [of sample_capability]
  by (simp add: sample_capability_def supports_safe_single_writer_push_def)

end
