(* ===== verification/Remote.thy ===== *)
theory Remote
  imports Layout "HOL-Library.Countable"
begin

text \<open>
  The interface of a remote backend (the traits \<^verbatim>\<open>BlobStore\<close>, \<^verbatim>\<open>RefStore\<close> and
  \<^verbatim>\<open>LayoutRootStore\<close> of \<^verbatim>\<open>e2v-store\<close>) as a record of functions on a state, and the
  contracts its clients rely on: locale \<open>blob_store\<close> describes a backend by the map from
  paths to contents and modification times that it implements, locale \<open>ref_store\<close> says what a
  compare-and-swap on a reference does. \<^verbatim>\<open>serde_json\<close> and \<^verbatim>\<open>postcard\<close> are parameters of the
  operations that encode records.
\<close>

section \<open>Serialisation, a parameter of the model\<close>

record 'a serde =
  to_vec :: "'a \<Rightarrow> byte list"
  from_slice :: "byte list \<Rightarrow> 'a option"

text \<open>What \<^verbatim>\<open>serde_json\<close> and \<^verbatim>\<open>postcard\<close> promise for a derived type: decoding undoes encoding.\<close>

definition serde_ok :: "'a serde \<Rightarrow> bool" where
  "serde_ok c \<longleftrightarrow> (\<forall>x. from_slice c (to_vec c x) = Some x)"

lemma serde_okD [simp]: "serde_ok c \<Longrightarrow> from_slice c (to_vec c x) = Some x"
  by (simp add: serde_ok_def)

lemma serde_ok_inject: "serde_ok c \<Longrightarrow> to_vec c x = to_vec c y \<longleftrightarrow> x = y"
  by (metis option.inject serde_okD)

text \<open>A codec that satisfies the law for any countable type, for the witnesses.\<close>

definition unary_codec :: "'a::countable serde" where
  "unary_codec =
     \<lparr> to_vec = (\<lambda>x. replicate (Suc (to_nat x)) 0),
       from_slice = (\<lambda>bs. if bs = [] then None else Some (from_nat (length bs - 1))) \<rparr>"

lemma serde_ok_unary [simp]: "serde_ok unary_codec"
  by (simp add: serde_ok_def unary_codec_def del: replicate_Suc)

lemma unary_codec_nonempty [simp]: "to_vec unary_codec x \<noteq> []"
  by (simp add: unary_codec_def)

lemmas unary_roundtrip = serde_okD [OF serde_ok_unary]

section \<open>References and their versions\<close>

record stored_ref =
  ref_version :: u64
  ref_value :: "byte list"

record listed_ref =
  listed_token :: string
  listed_stored :: stored_ref

record cas_result =
  applied :: bool
  current :: "stored_ref option"

record object_stat =
  stat_length :: u64
  stat_modified_at :: "nat option"

instance stored_ref_ext :: (countable) countable
  by (rule countable_classI [of "\<lambda>r. to_nat (ref_version r, ref_value r, stored_ref.more r)"]) auto

instance layout_schedule_policy_ext :: (countable) countable
  by (rule countable_classI [of "\<lambda>r. to_nat (bucket_bytes r, min_total_reads r,
        cover_reads_per_request r, reshuffle_after_generations r, layout_schedule_policy.more r)"]) auto

instance layout_traffic_policy_ext :: (countable) countable
  by (rule countable_classI [of "\<lambda>r. to_nat (max_parallel_reads r, inter_read_delay_ms r,
        burst_budget_bytes r, target_request_window_ms r, layout_traffic_policy.more r)"]) auto

instance layout_cost_policy_ext :: (countable) countable
  by (rule countable_classI [of "\<lambda>r. to_nat (cost_profile r, max_expected_read_amplification r,
        max_expected_write_amplification r, layout_cost_policy.more r)"]) auto

instance layout_mode :: countable by countable_datatype
instance dedup_mode :: countable by countable_datatype

instance layout_root_ext :: (countable) countable
  by (rule countable_classI [of "\<lambda>r. to_nat (root_schema_version r, root_layout_id r,
        root_generation r, root_mode r, mapping_policy r, root_dedup_mode r,
        oblivious_generation r, schedule_policy r, traffic_policy r, cost_policy r,
        layout_root.more r)"]) auto

section \<open>The error that means "not there"\<close>

fun contains_sub :: "string \<Rightarrow> string \<Rightarrow> bool" where
  "contains_sub p [] = (p = [])"
| "contains_sub p (c # cs) = (starts_with (c # cs) p \<or> contains_sub p cs)"

fun error_message :: "error \<Rightarrow> string" where
  "error_message (Bail m) = m"
| "error_message (Missing_physical p) = ''missing physical object '' @ p"
| "error_message (Io_not_found m) = m"
| "error_message (Context m e) = m"

fun chain_not_found :: "error \<Rightarrow> bool" where
  "chain_not_found (Io_not_found m) = True"
| "chain_not_found (Context m e) = chain_not_found e"
| "chain_not_found (Bail m) = False"
| "chain_not_found (Missing_physical p) = False"

definition is_missing_physical_object_error :: "error \<Rightarrow> bool" where
  "is_missing_physical_object_error e =
     (contains_sub ''missing physical object'' (error_message e) \<or> chain_not_found e)"

lemma missing_physical_is_missing [simp]: "is_missing_physical_object_error (Missing_physical p)"
  by (simp add: is_missing_physical_object_error_def starts_with_def)

section \<open>The trait as a record of operations\<close>

record 's remote =
  r_get :: "string \<Rightarrow> 's \<Rightarrow> byte list res"
  r_get_range :: "string \<Rightarrow> nat \<Rightarrow> nat \<Rightarrow> 's \<Rightarrow> byte list res"
  r_put :: "string \<Rightarrow> byte list \<Rightarrow> ('s, unit) prog"
  r_put_if_absent :: "string \<Rightarrow> byte list \<Rightarrow> ('s, bool) prog"
  r_delete :: "string \<Rightarrow> ('s, unit) prog"
  r_exists :: "string \<Rightarrow> 's \<Rightarrow> bool"
  r_stat :: "string \<Rightarrow> 's \<Rightarrow> object_stat res"
  r_list :: "string \<Rightarrow> 's \<Rightarrow> string list res"
  r_read_ref :: "string \<Rightarrow> 's \<Rightarrow> stored_ref option res"
  r_list_refs :: "'s \<Rightarrow> listed_ref list res"
  r_cas_ref :: "string \<Rightarrow> u64 option \<Rightarrow> byte list \<Rightarrow> ('s, cas_result) prog"
  r_read_layout_root :: "'s \<Rightarrow> layout_root res"
  r_cas_layout_root :: "u64 \<Rightarrow> layout_root \<Rightarrow> ('s, cas_result) prog"

definition ref_matches :: "stored_ref option \<Rightarrow> u64 option \<Rightarrow> bool" where
  "ref_matches cur expected =
     (case (cur, expected) of
        (None, None) \<Rightarrow> True
      | (Some stored, Some expected_version) \<Rightarrow> ref_version stored = expected_version
      | _ \<Rightarrow> False)"

lemma ref_matches_iff: "ref_matches cur expected \<longleftrightarrow> map_option ref_version cur = expected"
  by (auto simp: ref_matches_def split: option.splits)

definition next_version :: "stored_ref option \<Rightarrow> u64" where
  "next_version cur = (case cur of Some stored \<Rightarrow> ref_version stored + 1 | None \<Rightarrow> 1)"

section \<open>Contract of the blob store\<close>

text \<open>
  \<open>view s\<close> is the map from paths to contents and modification times, \<open>now s\<close> the backend's
  clock. An operation touches the path it is given and no other.
\<close>

locale blob_store =
  fixes R :: "'s remote" and ok :: "'s \<Rightarrow> bool"
    and view :: "'s \<Rightarrow> string \<Rightarrow> (byte list \<times> nat) option" and now :: "'s \<Rightarrow> nat"
  assumes get_some: "ok s \<Longrightarrow> view s p = Some (b, t) \<Longrightarrow> r_get R p s = Inr b"
    and get_none: "ok s \<Longrightarrow> view s p = None \<Longrightarrow>
      \<exists>e. r_get R p s = Inl e \<and> is_missing_physical_object_error e"
    and get_range: "ok s \<Longrightarrow> view s p = Some (b, t) \<Longrightarrow> off \<le> length b \<Longrightarrow>
      r_get_range R p off len s =
        Inr (take (min (usize_sat_add off len) (length b) - off) (drop off b))"
    and list_view: "ok s \<Longrightarrow> \<exists>ps. r_list R prefix s = Inr ps \<and> sorted ps \<and> distinct ps \<and>
      set ps = {p. view s p \<noteq> None \<and> starts_with p prefix}"
    and exists_iff: "ok s \<Longrightarrow> r_exists R p s \<longleftrightarrow> view s p \<noteq> None"
    and stat_some: "ok s \<Longrightarrow> view s p = Some (b, t) \<Longrightarrow>
      r_stat R p s = Inr \<lparr> stat_length = of_nat (length b), stat_modified_at = Some t \<rparr>"
    and put: "ok s \<Longrightarrow> \<exists>s'. r_put R p b s = (Inr (), s') \<and> ok s' \<and>
      view s' = (view s)(p \<mapsto> (b, now s)) \<and> now s' = now s"
    and put_if_absent_none: "ok s \<Longrightarrow> view s p = None \<Longrightarrow>
      \<exists>s'. r_put_if_absent R p b s = (Inr True, s') \<and> ok s' \<and>
      view s' = (view s)(p \<mapsto> (b, now s)) \<and> now s' = now s"
    and put_if_absent_some: "ok s \<Longrightarrow> view s p = Some x \<Longrightarrow>
      r_put_if_absent R p b s = (Inr False, s)"
    and delete: "ok s \<Longrightarrow> \<exists>s'. r_delete R p s = (Inr (), s') \<and> ok s' \<and>
      view s' = (view s)(p := None) \<and> now s' = now s"
begin

text \<open>Of two creations of the same path, only the first can succeed.\<close>

lemma put_if_absent_exclusive:
  assumes "ok s" and "r_put_if_absent R p b s = (Inr r, s')"
  shows "ok s' \<and> r_put_if_absent R p c s' = (Inr False, s')"
proof (cases "view s p")
  case None
  with put_if_absent_none [OF assms(1) None, of b] assms(2) have "ok s'" "view s' p \<noteq> None"
    by auto
  then show ?thesis using put_if_absent_some by blast
next
  case (Some x)
  with put_if_absent_some [OF assms(1) Some] assms show ?thesis by auto
qed

lemma get_after_put:
  "ok s \<Longrightarrow> r_put R p b s = (Inr (), s') \<Longrightarrow> r_get R p s' = Inr b"
  using put [of s p b] get_some [of s' p b "now s"] by auto

lemma get_frame:
  assumes "ok s" "r_put R p b s = (Inr (), s')" "q \<noteq> p" "r_get R q s = Inr c"
  shows "r_get R q s' = Inr c"
proof (cases "view s q")
  case None
  with get_none [of s q] assms show ?thesis by auto
next
  case (Some x)
  then have "r_get R q s = Inr (fst x)" using get_some assms by (cases x) auto
  moreover have "view s' q = Some (c, snd x)" "ok s'"
    using put [of s p b] assms Some calculation by (cases x, auto)+
  ultimately show ?thesis using get_some by blast
qed

end

section \<open>Contract of the reference store\<close>

locale ref_store =
  fixes R :: "'s remote" and ok :: "'s \<Rightarrow> bool"
  assumes cas_ok: "ok s \<Longrightarrow> r_cas_ref R t e n s = (out, s') \<Longrightarrow> ok s'"
    and cas_result: "ok s \<Longrightarrow> r_cas_ref R t e n s = (Inr r, s') \<Longrightarrow>
      \<exists>cur. r_read_ref R t s = Inr cur \<and> applied r = ref_matches cur e"
    and cas_applied: "ok s \<Longrightarrow> r_cas_ref R t e n s = (Inr r, s') \<Longrightarrow> applied r \<Longrightarrow>
      r_read_ref R t s = Inr cur \<Longrightarrow>
      current r = Some \<lparr> ref_version = next_version cur, ref_value = n \<rparr> \<and>
      r_read_ref R t s' = Inr (current r)"
    and cas_refused: "ok s \<Longrightarrow> r_cas_ref R t e n s = (Inr r, s') \<Longrightarrow> \<not> applied r \<Longrightarrow>
      s' = s \<and> r_read_ref R t s = Inr (current r)"
    and cas_failed: "ok s \<Longrightarrow> r_cas_ref R t e n s = (Inl err, s') \<Longrightarrow> s' = s"
    and cas_frame: "ok s \<Longrightarrow> r_cas_ref R t e n s = (out, s') \<Longrightarrow> t' \<noteq> t \<Longrightarrow>
      r_read_ref R t' s' = r_read_ref R t' s"

text \<open>
  A sequence of compare-and-swap requests, each served before the next is made. \<open>run_cas\<close> runs one
  and keeps the answers.
\<close>

type_synonym cas_request = "string \<times> u64 option \<times> byte list"

fun run_cas :: "'s remote \<Rightarrow> cas_request list \<Rightarrow> 's \<Rightarrow> cas_result res list \<times> 's" where
  "run_cas R [] s = ([], s)"
| "run_cas R ((t, e, n) # reqs) s =
     (let (r, s') = r_cas_ref R t e n s; (rs, s'') = run_cas R reqs s' in (r # rs, s''))"

definition cas_applied_on :: "string \<Rightarrow> cas_request \<Rightarrow> cas_result res \<Rightarrow> bool" where
  "cas_applied_on t req r = (fst req = t \<and> (case r of Inr c \<Rightarrow> applied c | Inl e \<Rightarrow> False))"

text \<open>The requests on \<open>t\<close> that were applied, in order.\<close>

definition applied_on :: "string \<Rightarrow> cas_request list \<Rightarrow> cas_result res list \<Rightarrow> cas_request list" where
  "applied_on t reqs rs = map fst (filter (\<lambda>(req, r). cas_applied_on t req r) (zip reqs rs))"

text \<open>The version and the value after applying \<open>n\<close> requests one after the other.\<close>

fun apply_all :: "stored_ref option \<Rightarrow> cas_request list \<Rightarrow> stored_ref option" where
  "apply_all cur [] = cur"
| "apply_all cur ((t, e, n) # reqs) =
     apply_all (Some \<lparr> ref_version = next_version cur, ref_value = n \<rparr>) reqs"

text \<open>Each request of the list expected exactly what the one before it left.\<close>

fun chained :: "stored_ref option \<Rightarrow> cas_request list \<Rightarrow> bool" where
  "chained cur [] = True"
| "chained cur ((t, e, n) # reqs) =
     (ref_matches cur e \<and> chained (Some \<lparr> ref_version = next_version cur, ref_value = n \<rparr>) reqs)"

context ref_store
begin

lemma run_cas_chain:
  "ok s \<Longrightarrow> r_read_ref R t s = Inr cur \<Longrightarrow> run_cas R reqs s = (rs, s') \<Longrightarrow>
     ok s' \<and> length rs = length reqs \<and> chained cur (applied_on t reqs rs) \<and>
     r_read_ref R t s' = Inr (apply_all cur (applied_on t reqs rs))"
proof (induction reqs arbitrary: s cur rs)
  case Nil
  then show ?case by (simp add: applied_on_def)
next
  case (Cons req reqs)
  obtain u e n where req: "req = (u, e, n)" by (cases req)
  obtain r s1 where step: "r_cas_ref R u e n s = (r, s1)" by fastforce
  obtain rs1 where rest: "run_cas R reqs s1 = (rs1, s')" and rs: "rs = r # rs1"
    using Cons.prems(3) by (auto simp: req step split: prod.splits)
  have ok1: "ok s1" using cas_ok step Cons.prems by blast
  show ?case
  proof (cases "cas_applied_on t req r")
    case True
    then obtain c where c: "r = Inr c" "applied c" and u: "u = t"
      by (auto simp: cas_applied_on_def req split: sum.splits)
    let ?new = "Some \<lparr> ref_version = next_version cur, ref_value = n \<rparr>"
    have "r_read_ref R t s1 = Inr ?new"
      using cas_applied [OF Cons.prems(1) step [unfolded c] c(2), of cur] Cons.prems(2) u by auto
    then have "ok s' \<and> length rs1 = length reqs \<and> chained ?new (applied_on t reqs rs1) \<and>
        r_read_ref R t s' = Inr (apply_all ?new (applied_on t reqs rs1))"
      using Cons.IH ok1 rest by blast
    moreover have "ref_matches cur e"
      using cas_result [OF Cons.prems(1) step [unfolded c]] Cons.prems(2) c u by auto
    ultimately show ?thesis
      using True by (simp add: rs applied_on_def) (simp add: req)
  next
    case False
    have "r_read_ref R t s1 = Inr cur"
    proof (cases "u = t")
      case True
      with False have "s1 = s"
        using step cas_refused [OF Cons.prems(1)] cas_failed [OF Cons.prems(1)]
        by (cases r) (auto simp: cas_applied_on_def req)
      then show ?thesis using Cons.prems by simp
    next
      case False
      then show ?thesis using cas_frame [OF Cons.prems(1) step, of t] Cons.prems by simp
    qed
    then show ?thesis
      using Cons.IH [OF ok1 _ rest, of cur] False by (simp add: rs applied_on_def)
  qed
qed

end

lemma apply_all_append: "apply_all cur (xs @ ys) = apply_all (apply_all cur xs) ys"
  by (induction cur xs rule: apply_all.induct) auto

lemma chained_append: "chained cur (xs @ ys) \<longleftrightarrow> chained cur xs \<and> chained (apply_all cur xs) ys"
  by (induction cur xs rule: chained.induct) auto

definition version_number :: "stored_ref option \<Rightarrow> nat" where
  "version_number cur = (case cur of None \<Rightarrow> 0 | Some r \<Rightarrow> unat (ref_version r))"

lemma version_number_next:
  assumes "version_number cur + 1 < 2 ^ 64"
  shows "version_number (Some \<lparr> ref_version = next_version cur, ref_value = n \<rparr>) = version_number cur + 1"
  using assms
  by (auto simp: version_number_def next_version_def unat_add_no_wrap split: option.splits)

lemma version_number_apply_all:
  "version_number cur + length reqs < 2 ^ 64 \<Longrightarrow>
     version_number (apply_all cur reqs) = version_number cur + length reqs"
proof (induction cur reqs rule: apply_all.induct)
  case (2 cur t e n reqs)
  have "version_number (Some \<lparr> ref_version = next_version cur, ref_value = n \<rparr>) = version_number cur + 1"
    using 2 by (intro version_number_next) auto
  with 2 show ?case by simp
qed simp

text \<open>Two applied requests of a run cannot have expected the same version.\<close>

lemma chained_expected_distinct:
  assumes "chained cur reqs" "version_number cur + length reqs < 2 ^ 64"
    and "i < j" "j < length reqs"
  shows "fst (snd (reqs ! i)) \<noteq> fst (snd (reqs ! j))"
proof -
  have split: "k < length reqs \<Longrightarrow> reqs = take k reqs @ reqs ! k # drop (Suc k) reqs" for k
    by (simp add: id_take_nth_drop)
  have expected: "fst (snd (reqs ! k)) = map_option ref_version (apply_all cur (take k reqs)) \<and>
      version_number (apply_all cur (take k reqs)) = version_number cur + k"
    if "k < length reqs" for k
  proof -
    obtain t e n where k: "reqs ! k = (t, e, n)" by (cases "reqs ! k")
    have "chained cur (take k reqs @ (t, e, n) # drop (Suc k) reqs)"
      using assms(1) split [OF that] k by simp
    then have "ref_matches (apply_all cur (take k reqs)) e"
      by (simp add: chained_append)
    moreover have "version_number (apply_all cur (take k reqs)) = version_number cur + k"
      using that assms(2) by (subst version_number_apply_all) auto
    ultimately show ?thesis by (simp add: k ref_matches_iff)
  qed
  show ?thesis
  proof
    assume eq: "fst (snd (reqs ! i)) = fst (snd (reqs ! j))"
    have "version_number (apply_all cur (take i reqs)) = version_number (apply_all cur (take j reqs))"
      using eq expected [of i] expected [of j] assms
      by (cases "apply_all cur (take i reqs)"; cases "apply_all cur (take j reqs)")
        (auto simp: version_number_def)
    then show False using expected [of i] expected [of j] assms by auto
  qed
qed

end
