(* ===== verification/Memory_Backend.thy ===== *)
theory Memory_Backend
  imports Remote
begin

text \<open>
  The in-memory backend (\<^verbatim>\<open>e2v-store/src/memory_backend.rs\<close>), the provider of both contracts
  of theory \<open>Remote\<close>, as one caller sees it: each definition is a call that nobody interrupts. What happens
  when threads interleave between its lock acquisitions is in \<open>Backend_Steps\<close>. The two mutexed hash maps
  are maps in key order, which is the order every listing sorts into; \<^verbatim>\<open>SystemTime::now()\<close> reads the \<open>clock\<close>
  of the state, in milliseconds.
\<close>

section \<open>The in-memory backend\<close>

record mem =
  physical :: "(string, byte list) btree"
  physical_modified_at :: "(string, nat) btree"
  mem_layout_root :: layout_root
  clock :: nat

definition mem_new :: "nat \<Rightarrow> mem" where
  "mem_new t = \<lparr> physical = [], physical_modified_at = [], mem_layout_root = direct_default,
                 clock = t \<rparr>"

definition mem_capability :: backend_capability where
  "mem_capability =
     \<lparr> supports_conditional_put = True, supports_range_read = True,
       supports_atomic_rename = True, supports_paged_list = True,
       consistency = StrongWhitelisted, supports_remote_lock_or_lease = True,
       supports_atomic_create_if_absent = True, supports_transaction_markers = True,
       supports_reliable_remote_time = True, supports_object_generation_or_etag = True,
       supports_layout_root_cas = True, supports_oblivious_access_schedule = True \<rparr>"

definition put_physical :: "string \<Rightarrow> byte list \<Rightarrow> (mem, unit) prog" where
  "put_physical path bytes s =
     (Inr (), s\<lparr> physical := bt_insert path bytes (physical s),
                 physical_modified_at := bt_insert path (clock s) (physical_modified_at s) \<rparr>)"

definition put_physical_if_absent :: "string \<Rightarrow> byte list \<Rightarrow> (mem, bool) prog" where
  "put_physical_if_absent path bytes s =
     (if map_of (physical s) path \<noteq> None then (Inr False, s)
      else (Inr True, s\<lparr> physical := bt_insert path bytes (physical s),
                physical_modified_at := bt_insert path (clock s) (physical_modified_at s) \<rparr>))"

definition get_physical :: "string \<Rightarrow> mem \<Rightarrow> byte list res" where
  "get_physical path s = ok_or (Missing_physical path) (map_of (physical s) path)"

definition get_physical_range :: "string \<Rightarrow> nat \<Rightarrow> nat \<Rightarrow> mem \<Rightarrow> byte list res" where
  "get_physical_range path offset len s =
     rbind (get_physical path s) (\<lambda>bytes.
     ensure (offset \<le> length bytes) (Bail ''range offset out of bounds'')
     (let end_pos = min (usize_sat_add offset len) (length bytes)
      in Inr (take (end_pos - offset) (drop offset bytes))))"

definition delete_physical :: "string \<Rightarrow> (mem, unit) prog" where
  "delete_physical path s =
     (Inr (), s\<lparr> physical := bt_remove path (physical s),
                 physical_modified_at := bt_remove path (physical_modified_at s) \<rparr>)"

definition exists_physical :: "string \<Rightarrow> mem \<Rightarrow> bool" where
  "exists_physical path s = (map_of (physical s) path \<noteq> None)"

definition stat_physical :: "string \<Rightarrow> mem \<Rightarrow> object_stat res" where
  "stat_physical path s =
     rbind (get_physical path s) (\<lambda>bytes.
     Inr \<lparr> stat_length = of_nat (length bytes),
           stat_modified_at = map_of (physical_modified_at s) path \<rparr>)"

definition list_physical :: "string \<Rightarrow> mem \<Rightarrow> string list res" where
  "list_physical prefix s =
     Inr (sort (filter (\<lambda>path. starts_with path prefix) (map fst (physical s))))"

subsection \<open>References\<close>

definition read_ref :: "stored_ref serde \<Rightarrow> string \<Rightarrow> mem \<Rightarrow> stored_ref option res" where
  "read_ref json token s =
     rbind (validate_ref_token_value token) (\<lambda>_.
     (case get_physical (ref_path token) s of
        Inr bytes \<Rightarrow>
          rbind (ok_or (Bail ''failed to decode remote branch ref'') (from_slice json bytes))
            (\<lambda>stored. Inr (Some stored))
      | Inl e \<Rightarrow> if is_missing_physical_object_error e then Inr None else Inl e))"

text \<open>The two closures of \<^verbatim>\<open>list_refs\<close>.\<close>

definition token_of_path :: "string \<Rightarrow> (string \<times> string) option" where
  "token_of_path path =
     Option.bind (strip_prefix ''control/refs/by-token/'' path) (\<lambda>rest.
     Option.bind (strip_suffix ''.json'' rest) (\<lambda>token. Some (path, token)))"

definition load_listed_ref :: "stored_ref serde \<Rightarrow> mem \<Rightarrow> string \<times> string \<Rightarrow> listed_ref res" where
  "load_listed_ref json s pt =
     rbind (validate_ref_token_value (snd pt)) (\<lambda>_.
     rbind (get_physical (fst pt) s) (\<lambda>bytes.
     rbind (ok_or (Bail ''failed to decode remote branch ref'') (from_slice json bytes))
       (\<lambda>stored. Inr \<lparr> listed_token = snd pt, listed_stored = stored \<rparr>)))"

definition list_refs :: "stored_ref serde \<Rightarrow> mem \<Rightarrow> listed_ref list res" where
  "list_refs json s =
     rbind (list_physical ''control/refs/by-token/'' s) (\<lambda>paths.
     rbind (mapM (load_listed_ref json s) (List.map_filter token_of_path paths))
     (\<lambda>listed. Inr (sort_key listed_token listed)))"

definition compare_and_swap_ref ::
  "stored_ref serde \<Rightarrow> string \<Rightarrow> u64 option \<Rightarrow> byte list \<Rightarrow> (mem, cas_result) prog" where
  "compare_and_swap_ref json token expected next =
     sbind (slift (validate_ref_token_value token)) (\<lambda>_.
     sbind (sread (read_ref json token)) (\<lambda>cur.
     if \<not> ref_matches cur expected then sret \<lparr> applied = False, current = cur \<rparr>
     else
       (let stored = \<lparr> ref_version = next_version cur, ref_value = next \<rparr>
        in sbind (put_physical (ref_path token) (to_vec json stored)) (\<lambda>_.
           sret \<lparr> applied = True, current = Some stored \<rparr>))))"

subsection \<open>The layout root\<close>

definition read_layout_root :: "layout_root serde \<Rightarrow> mem \<Rightarrow> layout_root res" where
  "read_layout_root json s =
     (case get_physical ''layout_root.json'' s of
        Inr bytes \<Rightarrow> ok_or (Bail ''failed to decode remote layout root'') (from_slice json bytes)
      | Inl e \<Rightarrow> if is_missing_physical_object_error e then Inr (mem_layout_root s) else Inl e)"

definition set_layout_root :: "layout_root \<Rightarrow> (mem, unit) prog" where
  "set_layout_root next s = (Inr (), s\<lparr> mem_layout_root := next \<rparr>)"

definition compare_and_swap_layout_root ::
  "layout_root serde \<Rightarrow> u64 \<Rightarrow> layout_root \<Rightarrow> (mem, cas_result) prog" where
  "compare_and_swap_layout_root json expected next =
     sbind (sread (read_layout_root json)) (\<lambda>cur.
     if root_generation cur \<noteq> expected then sret \<lparr> applied = False, current = None \<rparr>
     else
       sbind (set_layout_root next) (\<lambda>_.
       sbind (put_physical ''layout_root.json'' (to_vec json next)) (\<lambda>_.
       sbind (put_physical (layout_history_path (unat (root_generation next))) (to_vec json next))
         (\<lambda>_. sret \<lparr> applied = True, current = None \<rparr>))))"

definition list_retained_layout_roots :: "layout_root serde \<Rightarrow> mem \<Rightarrow> layout_root list res" where
  "list_retained_layout_roots json s =
     rbind (list_physical ''control/layout-roots/'' s) (\<lambda>paths.
     if paths = [] then rbind (read_layout_root json s) (\<lambda>root. Inr [root])
     else mapM (\<lambda>path. rbind (get_physical path s) (\<lambda>bytes.
                 ok_or (Bail ''failed to decode layout root'') (from_slice json bytes))) paths)"

definition memory_remote :: "stored_ref serde \<Rightarrow> layout_root serde \<Rightarrow> mem remote" where
  "memory_remote ref_json root_json =
     \<lparr> r_get = get_physical, r_get_range = get_physical_range, r_put = put_physical, r_put_if_absent = put_physical_if_absent,
       r_delete = delete_physical, r_exists = exists_physical, r_stat = stat_physical,
       r_list = list_physical, r_read_ref = read_ref ref_json, r_list_refs = list_refs ref_json,
       r_cas_ref = compare_and_swap_ref ref_json,
       r_read_layout_root = read_layout_root root_json,
       r_cas_layout_root = compare_and_swap_layout_root root_json \<rparr>"

section \<open>The state invariant and the view of a state\<close>

definition mem_ok :: "mem \<Rightarrow> bool" where
  "mem_ok s \<longleftrightarrow> bt_ok (physical s) \<and> bt_ok (physical_modified_at s) \<and>
     dom (map_of (physical s)) = dom (map_of (physical_modified_at s))"

definition mem_view :: "mem \<Rightarrow> string \<Rightarrow> (byte list \<times> nat) option" where
  "mem_view s p =
     (case (map_of (physical s) p, map_of (physical_modified_at s) p) of
        (Some b, Some t) \<Rightarrow> Some (b, t) | _ \<Rightarrow> None)"

lemma mem_ok_new [simp]: "mem_ok (mem_new t)"
  by (simp add: mem_ok_def mem_new_def)

lemma mem_domD:
  "mem_ok s \<Longrightarrow> map_of (physical s) p = None \<longleftrightarrow> map_of (physical_modified_at s) p = None"
  unfolding mem_ok_def by (metis domIff)

lemma mem_view_None: "mem_ok s \<Longrightarrow> mem_view s p = None \<longleftrightarrow> map_of (physical s) p = None"
  using mem_domD [of s p] by (auto simp: mem_view_def split: option.splits)

lemma mem_view_Some:
  "mem_ok s \<Longrightarrow> mem_view s p = Some (b, t) \<longleftrightarrow>
     map_of (physical s) p = Some b \<and> map_of (physical_modified_at s) p = Some t"
  by (auto simp: mem_view_def split: option.splits)

lemma put_physical_step:
  assumes "mem_ok s"
  shows "\<exists>s'. put_physical p b s = (Inr (), s') \<and> mem_ok s' \<and>
    mem_view s' = (mem_view s)(p \<mapsto> (b, clock s)) \<and> clock s' = clock s"
  using assms
  by (auto simp: put_physical_def mem_ok_def map_of_bt_insert fun_eq_iff mem_view_def
      split: option.splits)

lemma mem_ok_put: "mem_ok s \<Longrightarrow> mem_ok (snd (put_physical p b s))"
  using put_physical_step [of s p b] by auto

lemma put_same:
  "mem_ok s \<Longrightarrow> map_of (physical (snd (put_physical p b s))) p = Some b"
  by (simp add: put_physical_def map_of_bt_insert mem_ok_def)

lemma put_frame:
  "mem_ok s \<Longrightarrow> q \<noteq> p \<Longrightarrow> map_of (physical (snd (put_physical p b s))) q = map_of (physical s) q"
  by (simp add: put_physical_def map_of_bt_insert mem_ok_def)

lemma delete_physical_step:
  assumes "mem_ok s"
  shows "\<exists>s'. delete_physical p s = (Inr (), s') \<and> mem_ok s' \<and>
    mem_view s' = (mem_view s)(p := None) \<and> clock s' = clock s"
  using assms
  by (auto simp: delete_physical_def mem_ok_def map_of_bt_remove fun_eq_iff mem_view_def
      split: option.splits)

lemma put_if_absent_eq_put:
  "map_of (physical s) p = None \<Longrightarrow>
     put_physical_if_absent p b s = (Inr True, snd (put_physical p b s))"
  by (simp add: put_physical_if_absent_def put_physical_def)

interpretation memory: blob_store "memory_remote ref_json root_json" mem_ok mem_view clock
  for ref_json root_json
proof unfold_locales
  fix s p b t assume ok: "mem_ok s" and v: "mem_view s p = Some (b, t)"
  then show "r_get (memory_remote ref_json root_json) p s = Inr b"
    by (simp add: memory_remote_def get_physical_def mem_view_Some)
  show "r_stat (memory_remote ref_json root_json) p s =
      Inr \<lparr> stat_length = of_nat (length b), stat_modified_at = Some t \<rparr>"
    using ok v by (simp add: memory_remote_def stat_physical_def get_physical_def mem_view_Some)
  show "r_get_range (memory_remote ref_json root_json) p off len s =
      Inr (take (min (usize_sat_add off len) (length b) - off) (drop off b))" if "off \<le> length b" for off len
    using ok v that
    by (simp add: memory_remote_def get_physical_range_def get_physical_def mem_view_Some Let_def)
next
  fix s prefix assume ok: "mem_ok s"
  have "mem_view s p \<noteq> None \<longleftrightarrow> p \<in> fst ` set (physical s)" for p
    by (simp add: mem_view_None [OF ok] map_of_eq_None_iff)
  then show "\<exists>ps. r_list (memory_remote ref_json root_json) prefix s = Inr ps \<and> sorted ps \<and>
      distinct ps \<and> set ps = {p. mem_view s p \<noteq> None \<and> starts_with p prefix}"
    using ok by (auto simp: memory_remote_def list_physical_def mem_ok_def bt_ok_distinct)
next
  fix s p assume ok: "mem_ok s" and v: "mem_view s p = None"
  then show "\<exists>e. r_get (memory_remote ref_json root_json) p s = Inl e \<and>
      is_missing_physical_object_error e"
    by (simp add: memory_remote_def get_physical_def mem_view_None)
next
  fix s p assume "mem_ok s"
  then show "r_exists (memory_remote ref_json root_json) p s \<longleftrightarrow> mem_view s p \<noteq> None"
    by (simp add: memory_remote_def exists_physical_def mem_view_None)
next
  fix s p b assume ok: "mem_ok s"
  then show "\<exists>s'. r_put (memory_remote ref_json root_json) p b s = (Inr (), s') \<and> mem_ok s' \<and>
      mem_view s' = (mem_view s)(p \<mapsto> (b, clock s)) \<and> clock s' = clock s"
    using put_physical_step by (simp add: memory_remote_def)
  show "\<exists>s'. r_delete (memory_remote ref_json root_json) p s = (Inr (), s') \<and> mem_ok s' \<and>
      mem_view s' = (mem_view s)(p := None) \<and> clock s' = clock s"
    using ok delete_physical_step by (simp add: memory_remote_def)
  show "\<exists>s'. r_put_if_absent (memory_remote ref_json root_json) p b s = (Inr True, s') \<and> mem_ok s' \<and>
      mem_view s' = (mem_view s)(p \<mapsto> (b, clock s)) \<and> clock s' = clock s"
    if "mem_view s p = None"
    using put_physical_step [OF ok, of p b] that ok
    by (auto simp: memory_remote_def put_if_absent_eq_put mem_view_None)
next
  fix s p x b assume "mem_ok s" "mem_view s p = Some x"
  then show "r_put_if_absent (memory_remote ref_json root_json) p b s = (Inr False, s)"
    by (cases x) (auto simp: memory_remote_def put_physical_if_absent_def mem_view_Some)
qed

section \<open>Compare-and-swap on references\<close>

lemma ref_path_inject [simp]: "ref_path t = ref_path u \<longleftrightarrow> t = u"
  by (simp add: ref_path_def)

lemma read_ref_cong:
  "map_of (physical s) (ref_path t) = map_of (physical s') (ref_path t) \<Longrightarrow>
     read_ref json t s = read_ref json t s'"
  by (simp add: read_ref_def get_physical_def)

lemma read_ref_value:
  "validate_ref_token_value t = Inr () \<Longrightarrow> map_of (physical s) (ref_path t) = Some bytes \<Longrightarrow>
     from_slice json bytes = Some r \<Longrightarrow> read_ref json t s = Inr (Some r)"
  by (simp add: read_ref_def get_physical_def)

lemma cas_ref_cases:
  assumes "compare_and_swap_ref json t e n s = (out, s')"
  obtains (failed) err where "out = Inl err" "s' = s"
  | (refused) cur where "read_ref json t s = Inr cur" "\<not> ref_matches cur e"
      "out = Inr \<lparr> applied = False, current = cur \<rparr>" "s' = s"
  | (swapped) cur stored where "validate_ref_token_value t = Inr ()" "read_ref json t s = Inr cur"
      "ref_matches cur e" "stored = \<lparr> ref_version = next_version cur, ref_value = n \<rparr>"
      "out = Inr \<lparr> applied = True, current = Some stored \<rparr>"
      "s' = snd (put_physical (ref_path t) (to_vec json stored) s)"
proof (cases "validate_ref_token_value t")
  case (Inl err)
  with assms failed show ?thesis by (auto simp: compare_and_swap_ref_def)
next
  case valid: (Inr u)
  show ?thesis
  proof (cases "read_ref json t s")
    case (Inl err)
    with assms valid failed show ?thesis by (auto simp: compare_and_swap_ref_def)
  next
    case (Inr cur)
    with assms valid refused swapped show ?thesis
      by (auto simp: compare_and_swap_ref_def Let_def sbind_def sret_def put_physical_def
          split: if_splits)
  qed
qed

text \<open>The state invariant of the reference store, with the law of the codec it is used with.\<close>

definition mem_refs_ok :: "stored_ref serde \<Rightarrow> mem \<Rightarrow> bool" where
  "mem_refs_ok json s \<longleftrightarrow> mem_ok s \<and> serde_ok json"

interpretation memory_refs: ref_store "memory_remote ref_json root_json" "mem_refs_ok ref_json"
  for ref_json root_json
proof unfold_locales
  fix s s' t e n out and cur :: "stored_ref option"
  assume ok': "mem_refs_ok ref_json s" and cas: "r_cas_ref (memory_remote ref_json root_json) t e n s = (out, s')"
  then have cas': "compare_and_swap_ref ref_json t e n s = (out, s')"
    by (simp add: memory_remote_def)
  have ok: "mem_ok s" and json: "serde_ok ref_json" using ok' by (simp_all add: mem_refs_ok_def)
  have "mem_ok s'"
    using cas'
  proof (cases rule: cas_ref_cases)
    case (swapped cur stored)
    show ?thesis unfolding swapped(6) by (rule mem_ok_put [OF ok])
  qed (use ok in blast)+
  with json show "mem_refs_ok ref_json s'" by (simp add: mem_refs_ok_def)
  show "r_read_ref (memory_remote ref_json root_json) t' s' =
      r_read_ref (memory_remote ref_json root_json) t' s" if "t' \<noteq> t" for t'
    using cas'
  proof (cases rule: cas_ref_cases)
    case (swapped cur stored)
    have "map_of (physical s') (ref_path t') = map_of (physical s) (ref_path t')"
      unfolding swapped(6) by (rule put_frame [OF ok]) (simp add: that)
    then have "read_ref ref_json t' s' = read_ref ref_json t' s"
      by (rule read_ref_cong)
    then show ?thesis by (simp add: memory_remote_def)
  next
    case (failed err)
    show ?thesis unfolding failed(2) by (rule refl)
  next
    case (refused cur)
    show ?thesis unfolding refused(4) by (rule refl)
  qed
next
  fix s s' t e n r
  assume ok': "mem_refs_ok ref_json s" and cas: "r_cas_ref (memory_remote ref_json root_json) t e n s = (Inr r, s')"
  then have cas': "compare_and_swap_ref ref_json t e n s = (Inr r, s')"
    by (simp add: memory_remote_def)
  have ok: "mem_ok s" and json: "serde_ok ref_json" using ok' by (simp_all add: mem_refs_ok_def)
  show "\<exists>cur. r_read_ref (memory_remote ref_json root_json) t s = Inr cur \<and>
      applied r = ref_matches cur e"
    using cas' by (cases rule: cas_ref_cases) (auto simp: memory_remote_def)
  show "s' = s \<and> r_read_ref (memory_remote ref_json root_json) t s = Inr (current r)"
    if "\<not> applied r"
    using cas' that by (cases rule: cas_ref_cases) (auto simp: memory_remote_def)
  fix cur
  assume "applied r" and cur: "r_read_ref (memory_remote ref_json root_json) t s = Inr cur"
  with cas' show "current r = Some \<lparr> ref_version = next_version cur, ref_value = n \<rparr> \<and>
      r_read_ref (memory_remote ref_json root_json) t s' = Inr (current r)"
  proof (cases rule: cas_ref_cases)
    case (swapped cur' stored)
    have "map_of (physical s') (ref_path t) = Some (to_vec ref_json stored)"
      unfolding swapped(6) by (rule put_same [OF ok])
    with swapped(1) json have "read_ref ref_json t s' = Inr (Some stored)"
      by (intro read_ref_value) auto
    with swapped(2,4,5) cur show ?thesis by (simp add: memory_remote_def)
  qed (auto)
next
  fix s s' t e n err
  assume "r_cas_ref (memory_remote ref_json root_json) t e n s = (Inl err, s')"
  then have "compare_and_swap_ref ref_json t e n s = (Inl err, s')"
    by (simp add: memory_remote_def)
  then show "s' = s" by (cases rule: cas_ref_cases) auto
qed

lemma memory_refs_ok_new: "serde_ok json \<Longrightarrow> mem_refs_ok json (mem_new t)"
  by (simp add: mem_refs_ok_def)

lemma read_ref_new: "validate_ref_token_value t = Inr () \<Longrightarrow> read_ref json t (mem_new c) = Inr None"
  by (simp add: read_ref_def mem_new_def get_physical_def)

text \<open>Requests that are served one after the other: the reference ends as the initial one with the applied
  requests of its token performed in order.\<close>

lemma cas_ref_sequence:
  assumes "mem_ok s" and "serde_ok json" and "read_ref json t s = Inr cur"
    and "run_cas (memory_remote json root_json) reqs s = (rs, s')"
  shows "length rs = length reqs \<and> mem_ok s' \<and> chained cur (applied_on t reqs rs) \<and>
    read_ref json t s' = Inr (apply_all cur (applied_on t reqs rs))"
  using memory_refs.run_cas_chain [of json s root_json t cur reqs rs s'] assms
  by (simp add: mem_refs_ok_def memory_remote_def)

lemma sample_token: "validate_ref_token_value ''b'' = Inr ()"
  by code_simp

section \<open>Listing references\<close>

lemma listed_refs:
  assumes "mem_ok s" and "list_refs json s = Inr listed"
  shows "sorted (map listed_token listed) \<and>
    (\<forall>t r. \<lparr> listed_token = t, listed_stored = r \<rparr> \<in> set listed \<longleftrightarrow> read_ref json t s = Inr (Some r))"
proof -
  let ?keys = "sort (filter (\<lambda>path. starts_with path ''control/refs/by-token/'') (map fst (physical s)))"
  obtain ls where ls: "mapM (load_listed_ref json s) (List.map_filter token_of_path ?keys) = Inr ls" "listed = sort_key listed_token ls"
    using assms(2) by (auto simp: list_refs_def list_physical_def rbind_Inr_iff)
  have tok: "token_of_path path = Some (p, token) \<longleftrightarrow> p = path \<and> path = ref_path token" for path p token
    by (auto simp: bind_eq_Some_conv strip_prefix_Some_iff strip_suffix_Some_iff ref_path_def
        token_of_path_def)
  have dist: "distinct (map fst (physical s))"
    using assms(1) by (simp add: mem_ok_def bt_ok_distinct)
  have keys: "(p, token) \<in> set (List.map_filter token_of_path ?keys) \<longleftrightarrow>
      p = ref_path token \<and> map_of (physical s) p \<noteq> None" for p token
  proof -
    have "starts_with (ref_path token) ''control/refs/by-token/''"
      by (simp add: ref_path_def starts_with_iff)
    then show ?thesis
      unfolding set_map_filter by (auto simp: tok map_of_eq_None_iff image_iff Bex_def)
  qed
  have "\<lparr> listed_token = t, listed_stored = r \<rparr> \<in> set listed \<longleftrightarrow> read_ref json t s = Inr (Some r)" for t r
  proof -
    have "\<lparr> listed_token = t, listed_stored = r \<rparr> \<in> set listed \<longleftrightarrow>
        (\<exists>path token. (path, token) \<in> set (List.map_filter token_of_path ?keys) \<and>
          load_listed_ref json s (path, token) = Inr \<lparr> listed_token = t, listed_stored = r \<rparr>)"
      unfolding ls(2) set_sort mapM_Inr_set [OF ls(1)] by (simp only: mem_Collect_eq Bex_def split_paired_Ex)
    also have "\<dots> \<longleftrightarrow> map_of (physical s) (ref_path t) \<noteq> None \<and>
        load_listed_ref json s (ref_path t, t) = Inr \<lparr> listed_token = t, listed_stored = r \<rparr>"
      by (auto simp: keys load_listed_ref_def rbind_Inr_iff)
    also have "\<dots> \<longleftrightarrow> read_ref json t s = Inr (Some r)"
      by (cases "map_of (physical s) (ref_path t)")
        (auto simp: read_ref_def load_listed_ref_def get_physical_def rbind_Inr_iff ok_or_Inr_iff split: sum.splits)
    finally show ?thesis .
  qed
  moreover have "sorted (map listed_token listed)" by (simp add: ls(2))
  ultimately show ?thesis by blast
qed

text \<open>\<^verbatim>\<open>list_refs\<close> lists the references in token order, and it lists exactly what
  \<^verbatim>\<open>read_ref\<close> returns: a token is listed with a stored value if and only if reading it gives
  that value.\<close>

theorem list_refs_complete:
  assumes "mem_ok s" and "list_refs json s = Inr listed"
  shows "sorted (map listed_token listed) \<and>
    (\<forall>t r. \<lparr> listed_token = t, listed_stored = r \<rparr> \<in> set listed \<longleftrightarrow> read_ref json t s = Inr (Some r))"
  by (rule listed_refs [OF assms])

theorem list_refs_complete_witness:
  "\<exists>s listed. list_refs unary_codec s = Inr listed \<and> sorted (map listed_token listed) \<and>
     \<lparr> listed_token = ''b'', listed_stored = \<lparr> ref_version = 1, ref_value = [7] \<rparr> \<rparr> \<in> set listed"
proof -
  let ?r = "\<lparr> ref_version = 1, ref_value = [7] \<rparr> :: stored_ref"
  let ?s = "snd (put_physical (ref_path ''b'') (to_vec unary_codec ?r) (mem_new 0))"
  have ok: "mem_ok ?s" by (simp add: mem_ok_put)
  have phys: "physical ?s = [(ref_path ''b'', to_vec unary_codec ?r)]"
    by (simp add: put_physical_def mem_new_def)
  have read: "read_ref unary_codec ''b'' ?s = Inr (Some ?r)"
    by (rule read_ref_value [OF sample_token, of _ "to_vec unary_codec ?r"])
      (simp add: phys, rule serde_okD [OF serde_ok_unary])
  have tok: "token_of_path (ref_path ''b'') = Some (ref_path ''b'', ''b'')"
    by code_simp
  have "starts_with (ref_path ''b'') ''control/refs/by-token/''"
    by (simp add: ref_path_def starts_with_iff)
  then have "list_refs unary_codec ?s = Inr [\<lparr> listed_token = ''b'', listed_stored = ?r \<rparr>]"
    by (simp add: list_refs_def list_physical_def phys tok sample_token get_physical_def
        load_listed_ref_def map_filter_simps)
  with list_refs_complete [OF ok this] read show ?thesis by blast
qed

end
