(* ===== verification/Backend_Steps.thy ===== *)
theory Backend_Steps
  imports Memory_Backend
begin

text \<open>
  The in-memory backend used by several threads. No call holds a lock from its start to its end: each access
  to one of the three mutexes of \<^verbatim>\<open>memory_backend.rs\<close> is a step of its own, and a call keeps what it has read
  between two steps. What the threads do is a list of turns; the definitions of \<open>Memory_Backend\<close> are the calls
  that nobody interrupts.
\<close>

section \<open>Calls\<close>

datatype answer = Done_unit | Created bool | Swapped cas_result | Failed error

text \<open>A call that has not started, or the rest of one with its local variables.\<close>

datatype call =
    Blob_put string "byte list"
  | Blob_create string "byte list"
  | Blob_delete string
  | Ref_swap string "u64 option" "byte list"
  | Root_swap u64 layout_root
  | Ref_insert string "u64 option" "byte list" "stored_ref option"
  | Root_default u64 layout_root
  | Root_field layout_root
  | Root_put layout_root
  | Root_history layout_root
  | Stamp string call
  | Unstamp string
  | Answered answer

definition insert_physical :: "string \<Rightarrow> byte list \<Rightarrow> mem \<Rightarrow> mem" where
  "insert_physical path bytes s = s\<lparr> physical := bt_insert path bytes (physical s) \<rparr>"

definition stamp_physical :: "string \<Rightarrow> mem \<Rightarrow> mem" where
  "stamp_physical path s = s\<lparr> physical_modified_at := bt_insert path (clock s) (physical_modified_at s) \<rparr>"

definition stored_next :: "stored_ref option \<Rightarrow> byte list \<Rightarrow> stored_ref" where
  "stored_next cur next = \<lparr> ref_version = next_version cur, ref_value = next \<rparr>"

definition root_read :: "layout_root \<Rightarrow> u64 \<Rightarrow> layout_root \<Rightarrow> call" where
  "root_read cur expected next =
     (if root_generation cur = expected then Root_field next else Answered (Swapped \<lparr> applied = False, current = None \<rparr>))"

fun lock_step :: "stored_ref serde \<Rightarrow> layout_root serde \<Rightarrow> call \<Rightarrow> mem \<Rightarrow> call \<times> mem" where
  "lock_step rj lj (Blob_put p b) s = (Stamp p (Answered Done_unit), insert_physical p b s)"
| "lock_step rj lj (Blob_create p b) s =
     (if map_of (physical s) p \<noteq> None then (Answered (Created False), s)
      else (Stamp p (Answered (Created True)), insert_physical p b s))"
| "lock_step rj lj (Blob_delete p) s = (Unstamp p, s\<lparr> physical := bt_remove p (physical s) \<rparr>)"
| "lock_step rj lj (Ref_swap t expected next) s =
     (case read_ref rj t s of
        Inl e \<Rightarrow> (Answered (Failed e), s)
      | Inr cur \<Rightarrow>
          (if ref_matches cur expected then Ref_insert t expected next cur
           else Answered (Swapped \<lparr> applied = False, current = cur \<rparr>), s))"
| "lock_step rj lj (Ref_insert t expected next cur) s =
     (Stamp (ref_path t) (Answered (Swapped \<lparr> applied = True, current = Some (stored_next cur next) \<rparr>)),
      insert_physical (ref_path t) (to_vec rj (stored_next cur next)) s)"
| "lock_step rj lj (Root_swap expected next) s =
     (case get_physical ''layout_root.json'' s of
        Inl e \<Rightarrow> (if is_missing_physical_object_error e then Root_default expected next else Answered (Failed e), s)
      | Inr bytes \<Rightarrow>
          (case from_slice lj bytes of
             None \<Rightarrow> Answered (Failed (Bail ''failed to decode remote layout root''))
           | Some cur \<Rightarrow> root_read cur expected next, s))"
| "lock_step rj lj (Root_default expected next) s = (root_read (mem_layout_root s) expected next, s)"
| "lock_step rj lj (Root_field next) s = (Root_put next, s\<lparr> mem_layout_root := next \<rparr>)"
| "lock_step rj lj (Root_put next) s =
     (Stamp ''layout_root.json'' (Root_history next), insert_physical ''layout_root.json'' (to_vec lj next) s)"
| "lock_step rj lj (Root_history next) s =
     (let path = layout_history_path (unat (root_generation next)) in
      (Stamp path (Answered (Swapped \<lparr> applied = True, current = None \<rparr>)), insert_physical path (to_vec lj next) s))"
| "lock_step rj lj (Stamp p rest) s = (rest, stamp_physical p s)"
| "lock_step rj lj (Unstamp p) s =
     (Answered Done_unit, s\<lparr> physical_modified_at := bt_remove p (physical_modified_at s) \<rparr>)"
| "lock_step rj lj (Answered a) s = (Answered a, s)"

section \<open>Interleavings\<close>

text \<open>A thread gets a turn, or time passes. \<open>swaps_by\<close> notes the swaps of references, in the order of their writes.\<close>

datatype turn = Turn nat | Tick nat

fun swaps_by :: "call \<Rightarrow> cas_request list" where
  "swaps_by (Ref_insert t expected next cur) = [(t, expected, next)]"
| "swaps_by c = []"

fun lock_run ::
  "stored_ref serde \<Rightarrow> layout_root serde \<Rightarrow> turn list \<Rightarrow> call list \<Rightarrow> mem \<Rightarrow> call list \<times> mem \<times> cas_request list" where
  "lock_run rj lj [] cs s = (cs, s, [])"
| "lock_run rj lj (Tick d # turns) cs s = lock_run rj lj turns cs (s\<lparr> clock := clock s + d \<rparr>)"
| "lock_run rj lj (Turn i # turns) cs s =
     (if i < length cs then
        case lock_step rj lj (cs ! i) s of (c, s1) \<Rightarrow>
          (case lock_run rj lj turns (cs[i := c]) s1 of (cs', s', swaps) \<Rightarrow> (cs', s', swaps_by (cs ! i) @ swaps))
      else lock_run rj lj turns cs s)"

fun started :: "call \<Rightarrow> bool" where
  "started (Blob_put p b) = False"
| "started (Blob_create p b) = False"
| "started (Blob_delete p) = False"
| "started (Ref_swap t e n) = False"
| "started (Root_swap e n) = False"
| "started c = True"

subsection \<open>A call that is not interrupted\<close>

lemma put_physical_steps: "put_physical p b s = (Inr (), stamp_physical p (insert_physical p b s))"
  by (simp add: put_physical_def stamp_physical_def insert_physical_def)

text \<open>With the backend to itself, a call does what the definition of \<open>Memory_Backend\<close> says.\<close>

lemma ref_swap_alone:
  "compare_and_swap_ref rj t e n s = (r, s') \<Longrightarrow>
     \<exists>log. lock_run rj lj (replicate 3 (Turn 0)) [Ref_swap t e n] s =
       ([Answered (case r of Inl err \<Rightarrow> Failed err | Inr c \<Rightarrow> Swapped c)], s', log)"
  by (auto simp: compare_and_swap_ref_def numeral_3_eq_3 read_ref_def put_physical_steps stored_next_def Let_def
      sbind_def slift_def sread_def sret_def rbind_def
      split: sum.splits if_splits)

lemma root_swap_alone:
  "compare_and_swap_layout_root lj e n s = (r, s') \<Longrightarrow>
     \<exists>log. lock_run rj lj (replicate 7 (Turn 0)) [Root_swap e n] s =
       ([Answered (case r of Inl err \<Rightarrow> Failed err | Inr c \<Rightarrow> Swapped c)], s', log)"
  by (auto simp: compare_and_swap_layout_root_def eval_nat_numeral put_physical_steps set_layout_root_def Let_def
      read_layout_root_def root_read_def sbind_def sread_def sret_def ok_or_def
      split: sum.splits if_splits option.splits)

section \<open>Swaps of a reference\<close>

fun holds :: "string \<Rightarrow> call \<Rightarrow> bool" where
  "holds t (Ref_insert t' e n cur) = (t' = t)"
| "holds t c = False"

text \<open>Along a run, at most one swap of the reference is between its read and its write.\<close>

definition one_holder :: "string \<Rightarrow> call list \<Rightarrow> bool" where
  "one_holder t cs \<longleftrightarrow> length (filter (holds t) cs) \<le> 1"

fun exclusive :: "stored_ref serde \<Rightarrow> layout_root serde \<Rightarrow> string \<Rightarrow> turn list \<Rightarrow> call list \<Rightarrow> mem \<Rightarrow> bool" where
  "exclusive rj lj t [] cs s = one_holder t cs"
| "exclusive rj lj t (Tick d # turns) cs s = (one_holder t cs \<and> exclusive rj lj t turns cs (s\<lparr> clock := clock s + d \<rparr>))"
| "exclusive rj lj t (Turn i # turns) cs s =
     (one_holder t cs \<and>
      (if i < length cs then
         case lock_step rj lj (cs ! i) s of (c, s1) \<Rightarrow> exclusive rj lj t turns (cs[i := c]) s1
       else exclusive rj lj t turns cs s))"

text \<open>Calls whose plain writes and deletions stay inside \<open>P\<close>, and their rests.\<close>

fun raw_in :: "(string \<Rightarrow> bool) \<Rightarrow> call \<Rightarrow> bool" where
  "raw_in P (Blob_put p b) = P p"
| "raw_in P (Blob_create p b) = P p"
| "raw_in P (Blob_delete p) = P p"
| "raw_in P (Stamp p c) = ((case c of Answered a \<Rightarrow> True | Root_history n \<Rightarrow> True | _ \<Rightarrow> False))"
| "raw_in P c = True"

abbreviation ref_safe :: "string \<Rightarrow> call \<Rightarrow> bool" where
  "ref_safe t \<equiv> raw_in (\<lambda>p. p \<noteq> ref_path t)"

lemma layout_paths_not_refs: "layout_history_path g \<noteq> ref_path t" "''layout_root.json'' \<noteq> ref_path t"
  by (simp_all add: layout_history_path_def ref_path_def)

lemmas refs_not_layout_paths = layout_paths_not_refs [symmetric]

lemma lock_step_ok: "bt_ok (physical s) \<Longrightarrow> lock_step rj lj c s = (c', s') \<Longrightarrow> bt_ok (physical s')"
  by (cases c) (auto simp: insert_physical_def stamp_physical_def Let_def split: if_splits sum.splits option.splits)

lemma lock_step_raw_in: "raw_in P c \<Longrightarrow> lock_step rj lj c s = (c', s') \<Longrightarrow> raw_in P c'"
  by (cases c) (auto simp: Let_def root_read_def split: if_splits sum.splits option.splits call.splits)

lemma lock_step_frame:
  assumes "bt_ok (physical s)" and "ref_safe t c" and "\<not> holds t c" and "lock_step rj lj c s = (c', s')"
  shows "read_ref rj t s' = read_ref rj t s"
proof -
  have "map_of (physical s') (ref_path t) = map_of (physical s) (ref_path t)"
    using assms
    by (cases c) (auto simp: layout_paths_not_refs refs_not_layout_paths insert_physical_def stamp_physical_def Let_def map_of_bt_insert map_of_bt_remove
        split: if_splits sum.splits option.splits)
  then show ?thesis by (rule read_ref_cong)
qed

text \<open>What a swap between its two steps knows: the reference still is what it read.\<close>

definition in_date :: "stored_ref serde \<Rightarrow> string \<Rightarrow> mem \<Rightarrow> call \<Rightarrow> bool" where
  "in_date rj t s c \<longleftrightarrow> (\<forall>e n cur. c = Ref_insert t e n cur \<longrightarrow> read_ref rj t s = Inr cur \<and> ref_matches cur e)"

lemma not_holds_in_date: "\<not> holds t c \<Longrightarrow> in_date rj t s c"
  by (auto simp: in_date_def)

lemma lock_step_in_date:
  assumes "\<not> holds t c" and "lock_step rj lj c s = (c', s')" and "ref_safe t c"
  shows "in_date rj t s' c'"
proof (cases "\<exists>e n. c = Ref_swap t e n")
  case True
  then show ?thesis using assms(2) by (auto simp: in_date_def split: sum.splits if_splits)
next
  case False
  then have "\<not> holds t c'" using assms
    by (cases c) (auto simp: Let_def root_read_def split: sum.splits if_splits option.splits call.splits)
  then show ?thesis by (rule not_holds_in_date)
qed

lemma one_holder_others:
  assumes "one_holder t cs" and "i < length cs" and "holds t (cs ! i)" and "j < length cs" and "j \<noteq> i"
  shows "\<not> holds t (cs ! j)"
proof
  assume h: "holds t (cs ! j)"
  have "{i, j} \<subseteq> {k. k < length cs \<and> holds t (cs ! k)}" using assms h by auto
  then have "card {i, j} \<le> card {k. k < length cs \<and> holds t (cs ! k)}" by (intro card_mono) auto
  then show False using assms(1,5) by (simp add: one_holder_def length_filter_conv_card)
qed

abbreviation swaps_on :: "string \<Rightarrow> cas_request list \<Rightarrow> cas_request list" where
  "swaps_on t \<equiv> filter (\<lambda>req. fst req = t)"

lemma exclusive_run:
  assumes "serde_ok rj"
  shows "lock_run rj lj turns cs s = (cs', s', swaps) \<Longrightarrow> exclusive rj lj t turns cs s \<Longrightarrow> bt_ok (physical s) \<Longrightarrow>
     \<forall>c \<in> set cs. ref_safe t c \<and> in_date rj t s c \<Longrightarrow> read_ref rj t s = Inr cur \<Longrightarrow>
     chained cur (swaps_on t swaps) \<and> read_ref rj t s' = Inr (apply_all cur (swaps_on t swaps))"
proof (induction turns arbitrary: cs s swaps cur)
  case (Cons turn turns)
  show ?case
  proof (cases turn)
    case (Tick d)
    have same: "read_ref rj t (s\<lparr> clock := clock s + d \<rparr>) = read_ref rj t s" by (rule read_ref_cong) simp
    then have "in_date rj t (s\<lparr> clock := clock s + d \<rparr>) c" if "in_date rj t s c" for c
      using that by (simp add: in_date_def)
    then show ?thesis using Cons.IH [of cs "s\<lparr> clock := clock s + d \<rparr>" swaps cur] Cons.prems same by (simp add: Tick)
  next
    case turn: (Turn i)
    show ?thesis
    proof (cases "i < length cs")
      case False
      then show ?thesis using Cons.IH [of cs s swaps cur] Cons.prems by (simp add: turn)
    next
      case True
      obtain c s1 where step: "lock_step rj lj (cs ! i) s = (c, s1)" by fastforce
      obtain swaps1 where rest: "lock_run rj lj turns (cs[i := c]) s1 = (cs', s', swaps1)"
        and swaps: "swaps = swaps_by (cs ! i) @ swaps1"
        using Cons.prems(1) True by (auto simp: turn step split: prod.splits)
      have ex: "one_holder t cs" "exclusive rj lj t turns (cs[i := c]) s1" using Cons.prems(2) True by (auto simp: turn step)
      have ok: "bt_ok (physical s1)" by (rule lock_step_ok [OF Cons.prems(3) step])
      have this_call: "ref_safe t (cs ! i)" "in_date rj t s (cs ! i)" using Cons.prems(4) True by (simp_all add: nth_mem)
      have safe: "\<forall>d \<in> set (cs[i := c]). ref_safe t d"
        using Cons.prems(4) lock_step_raw_in [OF this_call(1) step] by (auto dest!: subsetD [OF set_update_subset_insert])
      show ?thesis
      proof (cases "holds t (cs ! i)")
        case False
        have same: "read_ref rj t s1 = read_ref rj t s" by (rule lock_step_frame [OF Cons.prems(3) this_call(1) False step])
        have "\<forall>d \<in> set (cs[i := c]). in_date rj t s1 d"
          using Cons.prems(4) lock_step_in_date [OF False step this_call(1)] same
          by (auto simp: in_date_def dest!: subsetD [OF set_update_subset_insert])
        moreover have "swaps_on t (swaps_by (cs ! i)) = []" using False by (cases "cs ! i") auto
        ultimately show ?thesis using Cons.IH [OF rest ex(2) ok] safe Cons.prems(5) same by (simp add: swaps)
      next
        case True': True
        then obtain e n cur' where call: "cs ! i = Ref_insert t e n cur'" by (cases "cs ! i") auto
        then have cur: "cur' = cur" "ref_matches cur e" using this_call(2) Cons.prems(5) by (auto simp: in_date_def)
        let ?new = "stored_next cur n"
        have c: "\<not> holds t c" and s1: "map_of (physical s1) (ref_path t) = Some (to_vec rj ?new)"
          using step Cons.prems(3) by (auto simp: call cur insert_physical_def map_of_bt_insert)
        have valid: "validate_ref_token_value t = Inr ()"
          using Cons.prems(5) by (cases "validate_ref_token_value t") (auto simp: read_ref_def)
        have new: "read_ref rj t s1 = Inr (Some ?new)"
          by (rule read_ref_value [OF valid s1]) (simp add: serde_okD [OF assms])
        have "\<not> holds t d" if "d \<in> set (cs[i := c])" for d
        proof -
          obtain j where j: "j < length cs" "d = cs[i := c] ! j" using \<open>d \<in> set (cs[i := c])\<close> by (auto simp: in_set_conv_nth)
          then show ?thesis using c one_holder_others [OF ex(1) True True'] by (cases "j = i") auto
        qed
        then have "\<forall>d \<in> set (cs[i := c]). ref_safe t d \<and> in_date rj t s1 d" using safe not_holds_in_date by blast
        from Cons.IH [OF rest ex(2) ok this new]
        show ?thesis using cur(2) by (simp add: swaps call stored_next_def)
      qed
    qed
  qed
qed simp

text \<open>C1: Swaps of a reference are linearizable as long as no two of them overlap. Let any threads run any
  calls, one lock at a time and in any interleaving, none of which writes the file of the reference without a
  swap. If at no time two swaps of the reference are between their read and their write, then the reference
  ends as the initial one with the applied swaps performed one after the other, each having expected exactly
  what the previous one left, and (below \<open>2 ^ 64\<close> swaps) no two of them expected the same version and the version counts them.\<close>

theorem exclusive_swaps_linearizable:
  assumes "serde_ok rj" and "bt_ok (physical s)" and "read_ref rj t s = Inr cur"
    and "\<forall>c \<in> set cs. \<not> started c \<and> raw_in (\<lambda>p. p \<noteq> ref_path t) c"
    and "lock_run rj lj turns cs s = (cs', s', swaps)" and "exclusive rj lj t turns cs s"
  shows "chained cur (swaps_on t swaps) \<and> read_ref rj t s' = Inr (apply_all cur (swaps_on t swaps)) \<and>
    (version_number cur + length swaps < 2 ^ 64 \<longrightarrow> distinct (map (\<lambda>req. fst (snd req)) (swaps_on t swaps)) \<and>
       version_number (apply_all cur (swaps_on t swaps)) = version_number cur + length (swaps_on t swaps))"
proof -
  have "\<not> holds t c" if "c \<in> set cs" for c using assms(4) that by (cases c) auto
  then have "\<forall>c \<in> set cs. ref_safe t c \<and> in_date rj t s c" using assms(4) not_holds_in_date by blast
  from exclusive_run [OF assms(1,5,6,2) this assms(3)]
  have run: "chained cur (swaps_on t swaps)" "read_ref rj t s' = Inr (apply_all cur (swaps_on t swaps))" by simp_all
  have "distinct (map (\<lambda>req. fst (snd req)) (swaps_on t swaps)) \<and>
      version_number (apply_all cur (swaps_on t swaps)) = version_number cur + length (swaps_on t swaps)"
    if "version_number cur + length swaps < 2 ^ 64"
  proof -
    have "length (swaps_on t swaps) \<le> length swaps" by simp
    then have bound: "version_number cur + length (swaps_on t swaps) < 2 ^ 64" using that by linarith
    have "distinct (map (\<lambda>req. fst (snd req)) (swaps_on t swaps))"
      unfolding distinct_conv_nth using chained_expected_distinct [OF run(1) bound]
      by (metis (no_types, lifting) length_map nat_neq_iff nth_map)
    then show ?thesis using version_number_apply_all [OF bound] by simp
  qed
  with run show ?thesis by blast
qed

text \<open>Two swaps that do not overlap, with a put between the steps of the first.\<close>

definition sample_calls :: "call list" where
  "sample_calls = [Ref_swap ''b'' None [1], Blob_put ''x'' [9], Ref_swap ''b'' (Some 1) [2]]"

definition sample_turns :: "turn list" where
  "sample_turns = [Turn 0, Turn 1, Tick 3, Turn 0, Turn 2, Turn 0, Turn 2, Turn 1, Turn 2]"

theorem exclusive_swaps_linearizable_witness:
  "\<exists>cs' s'. lock_run unary_codec unary_codec sample_turns sample_calls (mem_new 0) =
       (cs', s', [(''b'', None, [1]), (''b'', Some 1, [2])]) \<and>
     read_ref unary_codec ''b'' s' = Inr (Some \<lparr> ref_version = 2, ref_value = [2] \<rparr>)"
proof -
  have paths: "ref_path ''b'' \<noteq> ''x''" "''x'' \<noteq> ref_path ''b''" by code_simp+
  have reads: "read_ref unary_codec ''b'' s =
      (case map_of (physical s) (ref_path ''b'') of None \<Rightarrow> Inr None
       | Some b \<Rightarrow> (case from_slice unary_codec b of None \<Rightarrow> Inl (Bail ''failed to decode remote branch ref'') | Some r \<Rightarrow> Inr (Some r)))" for s
    by (simp add: read_ref_def sample_token get_physical_def split: option.splits)
  note defs = sample_turns_def sample_calls_def reads paths insert_physical_def stamp_physical_def map_of_bt_insert
    bt_ok_insert bt_ok_Nil mem_new_def ref_matches_def stored_next_def next_version_def unary_roundtrip
  obtain cs' s' where run: "lock_run unary_codec unary_codec sample_turns sample_calls (mem_new 0) =
      (cs', s', [(''b'', None, [1]), (''b'', Some 1, [2])])" by (simp add: defs del: bt_insert.simps)
  have "exclusive unary_codec unary_codec ''b'' sample_turns sample_calls (mem_new 0)" by (simp add: defs one_holder_def del: bt_insert.simps)
  moreover have "\<forall>c \<in> set sample_calls. \<not> started c \<and> raw_in (\<lambda>p. p \<noteq> ref_path ''b'') c" using paths by (simp add: sample_calls_def)
  moreover have "bt_ok (physical (mem_new 0))" by (simp add: mem_new_def)
  ultimately have "read_ref unary_codec ''b'' s' = Inr (apply_all None [(''b'', None, [1]), (''b'', Some 1, [2])])"
    using exclusive_swaps_linearizable [OF serde_ok_unary _ read_ref_new [OF sample_token] _ run] by simp
  with run show ?thesis by (simp add: next_version_def)
qed

text \<open>C2: The backend's compare-and-swap is not atomic. When two threads swap the same reference, expecting
  the version it has, and the second reads before the first writes, both are told that their swap was
  applied; the value of the first is gone, and the version counts one swap.\<close>

theorem racing_swaps_lose_update:
  assumes "serde_ok rj" and "bt_ok (physical s)" and "read_ref rj t s = Inr cur" and "ref_matches cur e"
  shows "\<exists>s'. lock_run rj lj [Turn 0, Turn 1, Turn 0, Turn 0, Turn 1, Turn 1] [Ref_swap t e n1, Ref_swap t e n2] s =
      ([Answered (Swapped \<lparr> applied = True, current = Some \<lparr> ref_version = next_version cur, ref_value = n1 \<rparr> \<rparr>),
        Answered (Swapped \<lparr> applied = True, current = Some \<lparr> ref_version = next_version cur, ref_value = n2 \<rparr> \<rparr>)],
       s', [(t, e, n1), (t, e, n2)]) \<and>
    read_ref rj t s' = Inr (Some \<lparr> ref_version = next_version cur, ref_value = n2 \<rparr>)"
proof -
  have valid: "validate_ref_token_value t = Inr ()" using assms(3) by (cases "validate_ref_token_value t") (auto simp: read_ref_def)
  show ?thesis
    using assms by (simp add: stored_next_def)
      (rule read_ref_value [OF valid, of _ "to_vec rj (stored_next cur n2)"],
       simp_all add: insert_physical_def stamp_physical_def map_of_bt_insert stored_next_def serde_okD)
qed

theorem racing_swaps_lose_update_witness:
  "\<exists>s'. lock_run unary_codec unary_codec [Turn 0, Turn 1, Turn 0, Turn 0, Turn 1, Turn 1]
       [Ref_swap ''b'' None [1], Ref_swap ''b'' None [2]] (mem_new 0) =
      ([Answered (Swapped \<lparr> applied = True, current = Some \<lparr> ref_version = 1, ref_value = [1] \<rparr> \<rparr>),
        Answered (Swapped \<lparr> applied = True, current = Some \<lparr> ref_version = 1, ref_value = [2] \<rparr> \<rparr>)],
       s', [(''b'', None, [1]), (''b'', None, [2])]) \<and>
    read_ref unary_codec ''b'' s' = Inr (Some \<lparr> ref_version = 1, ref_value = [2] \<rparr>)"
proof -
  have "bt_ok (physical (mem_new 0))" "ref_matches None None" by (simp_all add: mem_new_def ref_matches_def)
  from racing_swaps_lose_update [OF serde_ok_unary this(1) read_ref_new [OF sample_token] this(2), of unary_codec "[1]" "[2]"]
  show ?thesis by (simp add: next_version_def)
qed

end
