(* ===== verification/Layout_Roots.thy ===== *)
theory Layout_Roots
  imports Backend_Steps
begin

text \<open>
  The layout roots of the in-memory backend under any interleaving of its calls: the current root, the history
  of retained roots below \<^verbatim>\<open>control/layout-roots\<close>, and the order in which they are listed. A swap of the root is
  several steps, so the current root and the history may disagree while one is under way.
\<close>

section \<open>The files of the layout\<close>

definition layout_path :: "string \<Rightarrow> bool" where
  "layout_path p \<longleftrightarrow> starts_with p ''control/layout-roots/'' \<or> p = ''layout_root.json''"

lemma layout_history_path_is_layout: "starts_with (layout_history_path g) ''control/layout-roots/''"
  by (simp add: layout_history_path_def starts_with_iff)

lemma layout_history_path_neq [simp]: "layout_history_path g \<noteq> ''layout_root.json''"
  by (simp add: layout_history_path_def)

lemma layout_history_path_inject [simp]: "layout_history_path g = layout_history_path h \<longleftrightarrow> g = h"
  by (simp add: layout_history_path_def)

lemma layout_root_json_no_history: "\<not> starts_with ''layout_root.json'' ''control/layout-roots/''"
  by code_simp

lemma ref_path_not_layout: "\<not> layout_path (ref_path t)"
  by (auto simp: layout_path_def ref_path_def starts_with_iff)

text \<open>
  The invariant: every history file holds a root under the path of its own generation, and the current file,
  if it is there, holds a root.
\<close>

definition history_ok :: "layout_root serde \<Rightarrow> mem \<Rightarrow> bool" where
  "history_ok json s \<longleftrightarrow>
     (\<forall>p b. starts_with p ''control/layout-roots/'' \<longrightarrow> map_of (physical s) p = Some b \<longrightarrow>
        (\<exists>r. b = to_vec json r \<and> p = layout_history_path (unat (root_generation r))))"

definition layout_ok :: "layout_root serde \<Rightarrow> mem \<Rightarrow> bool" where
  "layout_ok json s \<longleftrightarrow> bt_ok (physical s) \<and> history_ok json s \<and>
     (\<forall>b. map_of (physical s) ''layout_root.json'' = Some b \<longrightarrow> (\<exists>r. b = to_vec json r))"

lemma layout_ok_new: "layout_ok json (mem_new t)"
  by (simp add: layout_ok_def history_ok_def mem_new_def)

lemma layout_ok_other:
  assumes "layout_ok json s" and "bt_ok (physical s')"
    and "\<And>p. layout_path p \<Longrightarrow> map_of (physical s') p = map_of (physical s) p"
  shows "layout_ok json s'"
  using assms by (simp add: layout_ok_def history_ok_def layout_path_def)

abbreviation layout_safe :: "call \<Rightarrow> bool" where
  "layout_safe \<equiv> raw_in (\<lambda>p. \<not> layout_path p)"

lemma layout_ok_insert_root: "layout_ok json s \<Longrightarrow> layout_ok json (insert_physical ''layout_root.json'' (to_vec json n) s)"
  using layout_root_json_no_history by (auto simp: layout_ok_def history_ok_def insert_physical_def map_of_bt_insert)

lemma layout_ok_insert_history:
  "layout_ok json s \<Longrightarrow> layout_ok json (insert_physical (layout_history_path (unat (root_generation n))) (to_vec json n) s)"
  by (auto simp: layout_ok_def history_ok_def insert_physical_def map_of_bt_insert)

lemma layout_ok_step:
  assumes "layout_ok lj s" and "layout_safe c" and "lock_step rj lj c s = (c', s')"
  shows "layout_ok lj s'"
proof -
  have ok: "bt_ok (physical s')" by (rule lock_step_ok [OF _ assms(3)]) (use assms(1) in \<open>simp add: layout_ok_def\<close>)
  have sorted: "bt_ok (physical s)" using assms(1) by (simp add: layout_ok_def)
  consider n where "c = Root_put n" | n where "c = Root_history n" | "\<forall>n. c \<noteq> Root_put n \<and> c \<noteq> Root_history n" by blast
  then show ?thesis
  proof cases
    case 1
    then show ?thesis using assms layout_ok_insert_root by auto
  next
    case 2
    then show ?thesis using assms layout_ok_insert_history by (auto simp: Let_def)
  next
    case 3
    have "map_of (physical s') p = map_of (physical s) p" if "layout_path p" for p
      using assms(2,3) 3 that sorted ref_path_not_layout
      by (cases c) (auto simp: insert_physical_def stamp_physical_def map_of_bt_insert map_of_bt_remove
          split: if_splits sum.splits option.splits)
    from layout_ok_other [OF assms(1) ok this] show ?thesis .
  qed
qed

lemma layout_ok_run:
  "lock_run rj lj turns cs s = (cs', s', swaps) \<Longrightarrow> layout_ok lj s \<Longrightarrow> \<forall>c \<in> set cs. layout_safe c \<Longrightarrow> layout_ok lj s'"
proof (induction turns arbitrary: cs s swaps)
  case (Cons turn turns)
  show ?case
  proof (cases turn)
    case (Tick d)
    have "layout_ok lj (s\<lparr> clock := clock s + d \<rparr>)" using Cons.prems(2) by (simp add: layout_ok_def history_ok_def)
    then show ?thesis using Cons.IH Cons.prems(1,3) by (simp add: Tick)
  next
    case turn: (Turn i)
    show ?thesis
    proof (cases "i < length cs")
      case False
      then show ?thesis using Cons.IH Cons.prems by (simp add: turn)
    next
      case True
      obtain c s1 where step: "lock_step rj lj (cs ! i) s = (c, s1)" by fastforce
      obtain swaps1 where rest: "lock_run rj lj turns (cs[i := c]) s1 = (cs', s', swaps1)"
        using Cons.prems(1) True by (auto simp: turn step split: prod.splits)
      have safe: "layout_safe (cs ! i)" using Cons.prems(3) True by (simp add: nth_mem)
      have "\<forall>d \<in> set (cs[i := c]). layout_safe d"
        using Cons.prems(3) lock_step_raw_in [OF safe step] by (auto dest!: subsetD [OF set_update_subset_insert])
      from Cons.IH [OF rest layout_ok_step [OF Cons.prems(2) safe step] this] show ?thesis .
    qed
  qed
qed simp

section \<open>What is read back\<close>

lemma layout_ok_current: "serde_ok json \<Longrightarrow> layout_ok json s \<Longrightarrow> \<exists>cur. read_layout_root json s = Inr cur"
  by (cases "map_of (physical s) ''layout_root.json''")
    (auto simp: layout_ok_def read_layout_root_def get_physical_def)

lemma layout_history_path_less:
  "layout_history_path (unat g) < layout_history_path (unat (h :: u64)) \<longleftrightarrow> unat (g :: u64) < unat h"
proof -
  have bound: "unat x < 10 ^ 20" for x :: u64
    using unsigned_less [of x, where 'a = nat] by simp
  then have "length (padded 20 (unat g)) = length (padded 20 (unat h))"
    by (simp add: length_padded)
  then show ?thesis
    using bound by (simp add: layout_history_path_def append_less_suffix padded_less_iff)
qed

text \<open>C3: At every point of every interleaving of calls that leave the layout paths to the swaps of the layout
  root, the current root can be read, and the retained roots can be listed, in strictly ascending order of
  generation. (Whether the current root is among them is not promised: its file is written before its entry in
  the history.)\<close>

theorem retained_roots_ascending:
  assumes "serde_ok lj" and "\<forall>c \<in> set cs. \<not> started c \<and> raw_in (\<lambda>p. \<not> layout_path p) c"
    and "lock_run rj lj turns cs (mem_new t) = (cs', s, swaps)"
  shows "\<exists>roots cur. list_retained_layout_roots lj s = Inr roots \<and> read_layout_root lj s = Inr cur \<and>
    sorted_wrt (<) (map (\<lambda>r. unat (root_generation r)) roots)"
proof -
  let ?hist = "\<lambda>path. starts_with path ''control/layout-roots/''"
  let ?paths = "sort (filter ?hist (map fst (physical s)))"
  let ?load = "\<lambda>path. rbind (get_physical path s) (\<lambda>bytes.
      ok_or (Bail ''failed to decode layout root'') (from_slice lj bytes))"
  have ok: "layout_ok lj s" by (rule layout_ok_run [OF assms(3) layout_ok_new]) (use assms(2) in blast)
  obtain cur where cur: "read_layout_root lj s = Inr cur" using layout_ok_current [OF assms(1) ok] by blast
  have dist: "distinct ?paths" using ok by (simp add: layout_ok_def bt_ok_distinct)
  show ?thesis
  proof (cases "?paths = []")
    case True
    then have "list_retained_layout_roots lj s = Inr [cur]"
      unfolding list_retained_layout_roots_def list_physical_def by (simp only: rbind_simps cur if_P [OF refl])
    with cur show ?thesis by simp
  next
    case False
    have load: "\<exists>r. ?load p = Inr r \<and> p = layout_history_path (unat (root_generation r))"
      if "p \<in> set ?paths" for p
    proof -
      from that obtain b where b: "map_of (physical s) p = Some b" and p: "?hist p"
        using weak_map_of_SomeI by fastforce
      then obtain r where "b = to_vec lj r" "p = layout_history_path (unat (root_generation r))"
        using ok by (auto simp: layout_ok_def history_ok_def)
      with b assms(1) show ?thesis by (auto simp: get_physical_def)
    qed
    then obtain roots where roots: "mapM ?load ?paths = Inr roots"
      using mapM_is_Inr by (metis (no_types, lifting))
    have len: "length roots = length ?paths" by (rule mapM_Inr_length [OF roots])
    have path_at: "?paths ! i = layout_history_path (unat (root_generation (roots ! i)))"
      if "i < length roots" for i
    proof -
      have i: "i < length ?paths" using that len by argo
      obtain r where "?load (?paths ! i) = Inr r"
        "?paths ! i = layout_history_path (unat (root_generation r))"
        using load [OF nth_mem [OF i]] by blast
      then show ?thesis using mapM_Inr_nth [OF roots i] by (metis sum.inject(2))
    qed
    have "sorted_wrt (<) ?paths" using dist by (simp add: strict_sorted_iff)
    then have "unat (root_generation (roots ! i)) < unat (root_generation (roots ! j))"
      if "i < j" "j < length roots" for i j
      using path_at [of i] path_at [of j] that len sorted_wrt_nth_less [of "(<)" ?paths i j]
      by (simp add: layout_history_path_less)
    then have "sorted_wrt (<) (map (\<lambda>r. unat (root_generation r)) roots)"
      by (simp add: sorted_wrt_iff_nth_less)
    then show ?thesis
      using False roots cur unfolding list_retained_layout_roots_def list_physical_def by simp
  qed
qed

text \<open>Two threads swap the same generation; the first stops between its two writes.\<close>

theorem retained_roots_ascending_witness:
  "\<exists>cs' s swaps roots cur. lock_run unary_codec unary_codec [Turn 0, Turn 0, Turn 1, Turn 1, Turn 0, Turn 0, Turn 1]
       [Root_swap 1 (direct_default\<lparr> root_generation := 2 \<rparr>), Root_swap 1 (direct_default\<lparr> root_generation := 3 \<rparr>)]
       (mem_new 0) = (cs', s, swaps) \<and>
     list_retained_layout_roots unary_codec s = Inr roots \<and> read_layout_root unary_codec s = Inr cur \<and>
     sorted_wrt (<) (map (\<lambda>r. unat (root_generation r)) roots)"
proof -
  let ?cs = "[Root_swap 1 (direct_default\<lparr> root_generation := 2 \<rparr>), Root_swap 1 (direct_default\<lparr> root_generation := 3 \<rparr>)]"
    and ?turns = "[Turn 0, Turn 0, Turn 1, Turn 1, Turn 0, Turn 0, Turn 1]"
  obtain cs' s swaps where run: "lock_run unary_codec unary_codec ?turns ?cs (mem_new 0) = (cs', s, swaps)"
    by (metis prod.exhaust)
  from retained_roots_ascending [OF serde_ok_unary _ run] show ?thesis using run by auto
qed

end
