(* ===== verification/Publisher.thy ===== *)
theory Publisher
  imports Memory_Backend
begin

text \<open>
  The transaction publisher of the sync engine (\<^verbatim>\<open>e2v-sync/src/publisher.rs\<close>) and the markers
  it leaves on the remote (\<^verbatim>\<open>remote_markers.rs\<close>, \<^verbatim>\<open>transaction.rs\<close>): the write intent of an
  operation, the writer lease of a branch, their renewal, takeover and removal, the checks before
  a commit and the commit itself. The operations are generic in the backend, as
  \<^verbatim>\<open>SimpleTransactionPublisher<R>\<close> is; their lemmas are proved from the contract
  \<open>blob_store\<close> of the backend and used at the in-memory one. Times are milliseconds.
\<close>

section \<open>Markers\<close>

record marker_heartbeat =
  hb_observed_at :: u64
  hb_sequence :: u64

record write_intent_marker =
  im_operation_id :: string
  im_writer_id :: string
  im_started_at :: u64
  im_heartbeat :: marker_heartbeat
  im_expected_ref_version :: "u64 option"
  im_target_branch_token :: string
  im_planned_snapshot_id :: "string option"
  im_client_version :: string

record writer_lease_marker =
  lm_writer_id :: string
  lm_operation_id :: string
  lm_target_branch_token :: string
  lm_observed_at :: u64
  lm_lease_generation :: u64
  lm_heartbeat :: marker_heartbeat

instance marker_heartbeat_ext :: (countable) countable
  by (rule countable_classI [of "\<lambda>r. to_nat (hb_observed_at r, hb_sequence r,
        marker_heartbeat.more r)"]) auto

instance write_intent_marker_ext :: (countable) countable
  by (rule countable_classI [of "\<lambda>r. to_nat (im_operation_id r, im_writer_id r, im_started_at r,
        im_heartbeat r, im_expected_ref_version r, im_target_branch_token r,
        im_planned_snapshot_id r, im_client_version r, write_intent_marker.more r)"]) auto

instance writer_lease_marker_ext :: (countable) countable
  by (rule countable_classI [of "\<lambda>r. to_nat (lm_writer_id r, lm_operation_id r,
        lm_target_branch_token r, lm_observed_at r, lm_lease_generation r, lm_heartbeat r,
        writer_lease_marker.more r)"]) auto

record publish_plan =
  pp_operation_id :: string
  pp_target_branch_token :: string
  pp_expected_ref_version :: "u64 option"
  pp_planned_snapshot_id :: "string option"
  pp_writer_mode :: writer_mode

record publish_session =
  ps_operation_id :: string
  ps_target_branch_token :: string
  ps_expected_ref_version :: "u64 option"
  ps_planned_snapshot_id :: "string option"
  ps_writer_mode :: writer_mode
  ps_started_at :: u64
  ps_observed_layout_root_generation :: "u64 option"
  ps_next_layout_root :: "layout_root option"
  ps_next_layout_root_bytes :: "byte list option"
  ps_active_intent_path :: string
  ps_lease_path :: "string option"

definition writer_id_for_operation :: "string \<Rightarrow> string" where
  "writer_id_for_operation operation_id = ''writer:'' @ operation_id"

definition intent_path :: "string \<Rightarrow> string" where
  "intent_path operation_id = ''transactions/active/'' @ operation_id @ ''.intent''"

definition lease_path_for :: "string \<Rightarrow> string" where
  "lease_path_for branch_token = ''leases/'' @ branch_token @ ''.lock''"

definition probe_path :: string where
  "probe_path = ''.e2v/publish-remote-time.probe''"

definition intent_expiry_hours :: nat where
  "intent_expiry_hours = 72"

definition build_write_intent_marker ::
  "string \<Rightarrow> publish_plan \<Rightarrow> u64 \<Rightarrow> u64 \<Rightarrow> write_intent_marker" where
  "build_write_intent_marker version plan observed_at seqno =
     \<lparr> im_operation_id = pp_operation_id plan,
       im_writer_id = writer_id_for_operation (pp_operation_id plan),
       im_started_at = observed_at,
       im_heartbeat = \<lparr> hb_observed_at = observed_at, hb_sequence = seqno \<rparr>,
       im_expected_ref_version = pp_expected_ref_version plan,
       im_target_branch_token = pp_target_branch_token plan,
       im_planned_snapshot_id = pp_planned_snapshot_id plan,
       im_client_version = version \<rparr>"

definition build_writer_lease_marker ::
  "publish_plan \<Rightarrow> u64 \<Rightarrow> u64 \<Rightarrow> u64 \<Rightarrow> writer_lease_marker" where
  "build_writer_lease_marker plan observed_at lease_generation seqno =
     \<lparr> lm_writer_id = writer_id_for_operation (pp_operation_id plan),
       lm_operation_id = pp_operation_id plan,
       lm_target_branch_token = pp_target_branch_token plan,
       lm_observed_at = observed_at,
       lm_lease_generation = lease_generation,
       lm_heartbeat = \<lparr> hb_observed_at = observed_at, hb_sequence = seqno \<rparr> \<rparr>"

definition renew_write_intent_marker :: "write_intent_marker \<Rightarrow> u64 \<Rightarrow> write_intent_marker" where
  "renew_write_intent_marker existing observed_at =
     existing\<lparr> im_heartbeat := \<lparr> hb_observed_at = observed_at,
                 hb_sequence = sat_add (hb_sequence (im_heartbeat existing)) 1 \<rparr> \<rparr>"

definition renew_writer_lease_marker :: "writer_lease_marker \<Rightarrow> u64 \<Rightarrow> writer_lease_marker" where
  "renew_writer_lease_marker existing observed_at =
     existing\<lparr> lm_observed_at := observed_at,
               lm_lease_generation := sat_add (lm_lease_generation existing) 1,
               lm_heartbeat := \<lparr> hb_observed_at = observed_at,
                 hb_sequence = sat_add (hb_sequence (lm_heartbeat existing)) 1 \<rparr> \<rparr>"

definition system_time_to_unix_ms :: "nat \<Rightarrow> u64 res" where
  "system_time_to_unix_ms t =
     (if t < 2 ^ 64 then Inr (of_nat t) else Inl (Bail ''remote observed timestamp overflow''))"

definition remote_observed_at_unix_ms :: "'s remote \<Rightarrow> string \<Rightarrow> 's \<Rightarrow> u64 res" where
  "remote_observed_at_unix_ms R path s =
     rbind (r_stat R path s) (\<lambda>st.
     rbind (ok_or (Bail ''remote marker has no reliable remote modification time'')
              (stat_modified_at st)) (\<lambda>t.
     system_time_to_unix_ms t))"

definition observe_remote_now_with_probe :: "'s remote \<Rightarrow> string \<Rightarrow> ('s, nat) prog" where
  "observe_remote_now_with_probe R probe =
     sbind (r_put R probe (as_bytes ''{\"probe\":true}'')) (\<lambda>_.
     sbind (sread (r_stat R probe)) (\<lambda>st.
     sbind (slift (ok_or (Bail ''remote probe has no reliable remote modification time'')
                     (stat_modified_at st))) (\<lambda>observed.
     sbind (r_delete R probe) (\<lambda>_. sret observed))))"

definition marker_is_fresh_at :: "'s remote \<Rightarrow> string \<Rightarrow> nat \<Rightarrow> nat \<Rightarrow> 's \<Rightarrow> bool res" where
  "marker_is_fresh_at R path observed_now expiry_hours s =
     rbind (r_stat R path s) (\<lambda>st.
     rbind (ok_or (Bail ''remote marker has no reliable remote modification time'')
              (stat_modified_at st)) (\<lambda>modified_at.
     Inr (observed_now - modified_at \<le> expiry_hours * 3600 * 1000)))"

section \<open>The publisher\<close>

record 's pub_env =
  capability :: backend_capability
  backend :: "'s remote"
  intent_json :: "write_intent_marker serde"
  lease_json :: "writer_lease_marker serde"
  client_version :: string

text \<open>
  The state of a publisher: the remote, the local map of last heartbeats
  (\<^verbatim>\<open>heartbeat_observed_at_local\<close>) and the local clock that \<^verbatim>\<open>heartbeat_now\<close> reads.
\<close>

record 's pub =
  remote_st :: 's
  observed_local :: "(string, nat) btree"
  local_now :: nat

definition on_remote :: "('s, 'a) prog \<Rightarrow> ('s pub, 'a) prog" where
  "on_remote m p = (fst (m (remote_st p)), p\<lparr> remote_st := snd (m (remote_st p)) \<rparr>)"

definition effective_writer_mode :: "backend_capability \<Rightarrow> bool \<Rightarrow> writer_mode" where
  "effective_writer_mode cap allow_risky =
     (if allow_risky \<and> capability_writer_mode cap = SingleWriter \<and> push_write_mode cap = ReadOnly
      then SingleWriter else push_write_mode cap)"

text \<open>The lease part of \<^verbatim>\<open>begin_allowing_risky_single_writer\<close>: create it, or take a stale one over.\<close>

definition acquire_lease :: "'s pub_env \<Rightarrow> publish_plan \<Rightarrow> ('s, string) prog" where
  "acquire_lease env plan =
     (let R = backend env;
          lease_path = lease_path_for (pp_target_branch_token plan);
          initial = to_vec (lease_json env) (build_writer_lease_marker plan 0 1 1);
          failed = Bail ''writer lease acquisition failed'';
          rewrite =
            sbind (sread (remote_observed_at_unix_ms R lease_path)) (\<lambda>observed_at.
            sbind (r_put R lease_path
                     (to_vec (lease_json env) (build_writer_lease_marker plan observed_at 1 1)))
              (\<lambda>_. sret lease_path))
      in sbind (r_put_if_absent R lease_path initial) (\<lambda>created.
         if created then rewrite
         else
           sbind (observe_remote_now_with_probe R probe_path) (\<lambda>observed_now.
           sbind (sread (marker_is_fresh_at R lease_path observed_now intent_expiry_hours)) (\<lambda>fresh.
           if fresh then sfail failed
           else
             sbind (sread (r_get R lease_path)) (\<lambda>lease_bytes.
             if (case from_slice (lease_json env) lease_bytes of
                   Some existing \<Rightarrow> lm_target_branch_token existing \<noteq> pp_target_branch_token plan
                 | None \<Rightarrow> False)
             then sfail failed
             else
               sbind (r_delete R lease_path) (\<lambda>_.
               sbind (r_put_if_absent R lease_path initial) (\<lambda>reacquired.
               if reacquired then rewrite else sfail failed)))))))"

definition begin_publish :: "'s pub_env \<Rightarrow> publish_plan \<Rightarrow> bool \<Rightarrow> ('s pub, publish_session) prog" where
  "begin_publish env plan allow_risky =
     (let R = backend env;
          cap = capability env;
          advertised = capability_writer_mode cap;
          mode = effective_writer_mode cap allow_risky;
          active = intent_path (pp_operation_id plan)
      in
      sbind (slift (validate_sync_identifier (pp_target_branch_token plan))) (\<lambda>_.
      if advertised = SingleWriter \<and> mode = ReadOnly then
        sfail (Bail ''risky single-writer backend capabilities are disabled by default'')
      else if mode = ReadOnly then
        sfail (Bail ''read-only backend capabilities cannot publish'')
      else
        sbind (if mode = SingleWriter \<and> supports_atomic_create_if_absent cap
               then sbind (on_remote (acquire_lease env plan)) (\<lambda>p. sret (Some p))
               else sret None) (\<lambda>lease_path.
        sbind (on_remote (r_put R active
                 (to_vec (intent_json env) (build_write_intent_marker (client_version env) plan 0 1))))
          (\<lambda>_.
        sbind (on_remote (sread (remote_observed_at_unix_ms R active))) (\<lambda>observed_at.
        sbind (if supports_reliable_remote_time cap \<or> supports_object_generation_or_etag cap
               then on_remote (r_put R active (to_vec (intent_json env)
                      (build_write_intent_marker (client_version env) plan observed_at 1)))
               else sret ()) (\<lambda>_.
        (\<lambda>p. (Inr \<lparr> ps_operation_id = pp_operation_id plan,
                    ps_target_branch_token = pp_target_branch_token plan,
                    ps_expected_ref_version = pp_expected_ref_version plan,
                    ps_planned_snapshot_id = pp_planned_snapshot_id plan,
                    ps_writer_mode = mode,
                    ps_started_at = observed_at,
                    ps_observed_layout_root_generation = None,
                    ps_next_layout_root = None,
                    ps_next_layout_root_bytes = None,
                    ps_active_intent_path = active,
                    ps_lease_path = lease_path \<rparr>,
              p\<lparr> observed_local :=
                   bt_insert (pp_operation_id plan) (local_now p) (observed_local p) \<rparr>))))))))"

text \<open>\<^verbatim>\<open>validate_intent_marker_for_session\<close> and \<^verbatim>\<open>validate_lease_marker_for_session\<close>.\<close>

definition validate_intent_marker ::
  "write_intent_marker \<Rightarrow> publish_session \<Rightarrow> string \<Rightarrow> unit res" where
  "validate_intent_marker marker session phase =
     ensure (im_operation_id marker = ps_operation_id session)
       (Bail (phase @ '': active intent belongs to another operation''))
     (ensure (im_writer_id marker = writer_id_for_operation (ps_operation_id session))
       (Bail (phase @ '': active intent belongs to another writer''))
     (ensure (im_target_branch_token marker = ps_target_branch_token session)
       (Bail (phase @ '': active intent belongs to another branch''))
     (ensure (im_expected_ref_version marker = ps_expected_ref_version session)
       (Bail (phase @ '': active intent expected ref version does not match session''))
     (ensure (im_planned_snapshot_id marker = ps_planned_snapshot_id session)
       (Bail (phase @ '': active intent planned snapshot does not match session''))
     (Inr ())))))"

definition validate_lease_marker ::
  "writer_lease_marker \<Rightarrow> publish_session \<Rightarrow> string \<Rightarrow> unit res" where
  "validate_lease_marker marker session phase =
     ensure (lm_operation_id marker = ps_operation_id session)
       (Bail (phase @ '': writer lease belongs to another operation''))
     (ensure (lm_writer_id marker = writer_id_for_operation (ps_operation_id session))
       (Bail (phase @ '': writer lease belongs to another writer''))
     (ensure (lm_target_branch_token marker = ps_target_branch_token session)
       (Bail (phase @ '': writer lease belongs to another branch''))
     (Inr ())))"

definition session_plan :: "publish_session \<Rightarrow> string option \<Rightarrow> publish_plan" where
  "session_plan session planned =
     \<lparr> pp_operation_id = ps_operation_id session,
       pp_target_branch_token = ps_target_branch_token session,
       pp_expected_ref_version = ps_expected_ref_version session,
       pp_planned_snapshot_id = planned,
       pp_writer_mode = ps_writer_mode session \<rparr>"

definition load_or_recover_intent ::
  "'s pub_env \<Rightarrow> string \<Rightarrow> publish_session \<Rightarrow> string \<Rightarrow> ('s, write_intent_marker) prog" where
  "load_or_recover_intent env path session phase =
     (let R = backend env in
      sbind (sread (r_get R path)) (\<lambda>intent_bytes.
      sensure (intent_bytes \<noteq> []) (Bail (phase @ '': active intent missing or empty''))
      (case from_slice (intent_json env) intent_bytes of
         Some marker \<Rightarrow>
           sbind (slift (validate_intent_marker marker session phase)) (\<lambda>_. sret marker)
       | None \<Rightarrow>
           sbind (observe_remote_now_with_probe R probe_path) (\<lambda>observed_now.
           sbind (sread (marker_is_fresh_at R path observed_now intent_expiry_hours)) (\<lambda>fresh.
           if fresh then
             sfail (Context (phase @ '': invalid active intent marker'') (Bail ''invalid json''))
           else
             sbind (slift (system_time_to_unix_ms observed_now)) (\<lambda>observed_at.
             (let recovered = (build_write_intent_marker (client_version env)
                    (session_plan session (ps_planned_snapshot_id session)) observed_at 1)
                    \<lparr> im_started_at := ps_started_at session \<rparr>
              in sbind (r_put R path (to_vec (intent_json env) recovered)) (\<lambda>_.
                 sret recovered))))))))"

definition load_or_recover_lease ::
  "'s pub_env \<Rightarrow> string \<Rightarrow> publish_session \<Rightarrow> string \<Rightarrow> ('s, writer_lease_marker) prog" where
  "load_or_recover_lease env path session phase =
     (let R = backend env in
      sbind (sread (r_get R path)) (\<lambda>lease_bytes.
      sensure (lease_bytes \<noteq> []) (Bail (phase @ '': writer lease missing or empty''))
      (case from_slice (lease_json env) lease_bytes of
         Some marker \<Rightarrow>
           sbind (slift (validate_lease_marker marker session phase)) (\<lambda>_. sret marker)
       | None \<Rightarrow>
           sbind (observe_remote_now_with_probe R probe_path) (\<lambda>observed_now.
           sbind (sread (marker_is_fresh_at R path observed_now intent_expiry_hours)) (\<lambda>fresh.
           if fresh then
             sfail (Context (phase @ '': invalid writer lease marker'') (Bail ''invalid json''))
           else
             sbind (slift (system_time_to_unix_ms observed_now)) (\<lambda>observed_at.
             (let recovered = build_writer_lease_marker (session_plan session None) observed_at 1 1
              in sbind (r_put R path (to_vec (lease_json env) recovered)) (\<lambda>_.
                 sret recovered))))))))"

definition renew_intent_if_needed ::
  "'s pub_env \<Rightarrow> string \<Rightarrow> write_intent_marker \<Rightarrow> ('s, write_intent_marker) prog" where
  "renew_intent_if_needed env path intent =
     (let R = backend env in
      sbind (observe_remote_now_with_probe R probe_path) (\<lambda>observed_now.
      sbind (sread (marker_is_fresh_at R path observed_now intent_expiry_hours)) (\<lambda>fresh.
      if fresh then sret intent
      else
        sbind (slift (system_time_to_unix_ms observed_now)) (\<lambda>observed_at.
        (let renewed = renew_write_intent_marker intent observed_at
         in sbind (r_put R path (to_vec (intent_json env) renewed)) (\<lambda>_. sret renewed))))))"

definition renew_lease_if_needed ::
  "'s pub_env \<Rightarrow> string \<Rightarrow> writer_lease_marker \<Rightarrow> ('s, writer_lease_marker) prog" where
  "renew_lease_if_needed env path lease =
     (let R = backend env in
      sbind (observe_remote_now_with_probe R probe_path) (\<lambda>observed_now.
      sbind (sread (marker_is_fresh_at R path observed_now intent_expiry_hours)) (\<lambda>fresh.
      if fresh then sret lease
      else
        sbind (slift (system_time_to_unix_ms observed_now)) (\<lambda>observed_at.
        (let renewed = renew_writer_lease_marker lease observed_at
         in sbind (r_put R path (to_vec (lease_json env) renewed)) (\<lambda>_. sret renewed))))))"

text \<open>The local bookkeeping of heartbeats; the interval is ten minutes.\<close>

definition heartbeat_renewal_interval :: nat where
  "heartbeat_renewal_interval = 10 * 60 * 1000"

definition record_heartbeat_observed_now :: "string \<Rightarrow> nat \<Rightarrow> ('s pub, unit) prog" where
  "record_heartbeat_observed_now op t p =
     (Inr (), p\<lparr> observed_local := bt_insert op t (observed_local p) \<rparr>)"

definition clear_heartbeat_state :: "string \<Rightarrow> ('s pub, unit) prog" where
  "clear_heartbeat_state op p = (Inr (), p\<lparr> observed_local := bt_remove op (observed_local p) \<rparr>)"

definition should_renew_heartbeat :: "string \<Rightarrow> nat \<Rightarrow> 's pub \<Rightarrow> bool" where
  "should_renew_heartbeat op t p =
     (case map_of (observed_local p) op of
        None \<Rightarrow> True
      | Some last_observed \<Rightarrow>
          last_observed \<le> t \<and> heartbeat_renewal_interval \<le> t - last_observed)"

definition heartbeat_remote :: "'s pub_env \<Rightarrow> publish_session \<Rightarrow> ('s, unit) prog" where
  "heartbeat_remote env session =
     (let R = backend env; phase = ''heartbeat failed'' in
      sbind (load_or_recover_intent env (ps_active_intent_path session) session phase) (\<lambda>intent.
      sbind (case ps_lease_path session of
               Some p \<Rightarrow> sbind (load_or_recover_lease env p session phase) (\<lambda>l. sret (Some (p, l)))
             | None \<Rightarrow> sret None) (\<lambda>lease.
      sbind (observe_remote_now_with_probe R probe_path) (\<lambda>observed_now.
      sbind (slift (system_time_to_unix_ms observed_now)) (\<lambda>observed_at.
      sbind (r_put R (ps_active_intent_path session)
               (to_vec (intent_json env) (renew_write_intent_marker intent observed_at))) (\<lambda>_.
      (case lease of
         Some (p, l) \<Rightarrow> r_put R p (to_vec (lease_json env) (renew_writer_lease_marker l observed_at))
       | None \<Rightarrow> sret ())))))))"

definition heartbeat :: "'s pub_env \<Rightarrow> publish_session \<Rightarrow> ('s pub, unit) prog" where
  "heartbeat env session p =
     sbind (on_remote (heartbeat_remote env session)) (\<lambda>_.
     record_heartbeat_observed_now (ps_operation_id session) (local_now p)) p"

definition heartbeat_if_needed :: "'s pub_env \<Rightarrow> publish_session \<Rightarrow> ('s pub, unit) prog" where
  "heartbeat_if_needed env session p =
     (if \<not> should_renew_heartbeat (ps_operation_id session) (local_now p) p then (Inr (), p)
      else heartbeat env session p)"

definition publish_layout_if_needed :: "'s pub_env \<Rightarrow> publish_session \<Rightarrow> ('s pub, u64) prog" where
  "publish_layout_if_needed env session =
     (let R = backend env;
          observed = (case ps_observed_layout_root_generation session of
             Some g \<Rightarrow> sret g
           | None \<Rightarrow> on_remote (sread (\<lambda>s. rbind (r_read_layout_root R s) (\<lambda>root.
                       Inr (root_generation root)))))
      in case ps_next_layout_root session of
           Some next \<Rightarrow>
             sbind observed (\<lambda>expected.
             sbind (on_remote (r_cas_layout_root R expected next)) (\<lambda>result.
             sensure (applied result)
               (Bail ''layout root publish failed: generation changed before publish'')
             (sret (root_generation next))))
         | None \<Rightarrow> observed)"

definition check_expected_ref :: "'s pub_env \<Rightarrow> publish_session \<Rightarrow> 's \<Rightarrow> unit res" where
  "check_expected_ref env session s =
     (case ps_expected_ref_version session of
        None \<Rightarrow> Inr ()
      | Some expected \<Rightarrow>
          rbind (validate_sync_identifier (ps_target_branch_token session)) (\<lambda>_.
          rbind (r_read_ref (backend env) (ps_target_branch_token session) s) (\<lambda>cur.
          rbind (ok_or (Bail ''pre-commit verify failed: remote ref missing'')
                   (map_option ref_version cur)) (\<lambda>current_version.
          ensure (current_version = expected)
            (Bail ''pre-commit verify failed: remote ref version changed'') (Inr ())))))"

definition pre_commit_remote :: "'s pub_env \<Rightarrow> publish_session \<Rightarrow> bool \<Rightarrow> ('s, unit) prog" where
  "pre_commit_remote env session should_renew =
     (let phase = ''pre-commit verify failed'' in
      sbind (load_or_recover_intent env (ps_active_intent_path session) session phase) (\<lambda>intent.
      sbind (if should_renew
             then sbind (renew_intent_if_needed env (ps_active_intent_path session) intent) (\<lambda>_. sret ())
             else sret ()) (\<lambda>_.
      sbind (sread (check_expected_ref env session)) (\<lambda>_.
      (case ps_lease_path session of
         Some p \<Rightarrow>
           sbind (load_or_recover_lease env p session phase) (\<lambda>lease.
           if should_renew
           then sbind (renew_lease_if_needed env p lease) (\<lambda>_. sret ()) else sret ())
       | None \<Rightarrow> sret ())))))"

definition pre_commit_verify :: "'s pub_env \<Rightarrow> publish_session \<Rightarrow> ('s pub, unit) prog" where
  "pre_commit_verify env session p =
     (let t = local_now p; should_renew = should_renew_heartbeat (ps_operation_id session) t p in
      sbind (on_remote (pre_commit_remote env session should_renew)) (\<lambda>_.
      if should_renew then record_heartbeat_observed_now (ps_operation_id session) t
      else sret ()) p)"

definition publish_ref :: "'s pub_env \<Rightarrow> publish_session \<Rightarrow> byte list \<Rightarrow> ('s pub, cas_result) prog" where
  "publish_ref env session next =
     sbind (slift (validate_sync_identifier (ps_target_branch_token session))) (\<lambda>_.
     on_remote (r_cas_ref (backend env) (ps_target_branch_token session)
                  (ps_expected_ref_version session) next))"

definition complete :: "'s pub_env \<Rightarrow> publish_session \<Rightarrow> ('s pub, unit) prog" where
  "complete env session =
     sbind (on_remote (r_delete (backend env) (ps_active_intent_path session))) (\<lambda>_.
     sbind (case ps_lease_path session of
              Some p \<Rightarrow> on_remote (r_delete (backend env) p) | None \<Rightarrow> sret ()) (\<lambda>_.
     clear_heartbeat_state (ps_operation_id session)))"

section \<open>Clean-up after a completed operation\<close>

text \<open>\<^verbatim>\<open>other_active_intent_may_own_branch_lease\<close> (\<^verbatim>\<open>push.rs\<close>): the loop over the active intents.\<close>

fun other_intent_loop ::
  "'s pub_env \<Rightarrow> string \<Rightarrow> string \<Rightarrow> string list \<Rightarrow> 's \<Rightarrow> bool res" where
  "other_intent_loop env cur_path branch_token [] s = Inr False"
| "other_intent_loop env cur_path branch_token (path # paths) s =
     (if path = cur_path then other_intent_loop env cur_path branch_token paths s
      else (case r_get (backend env) path s of
              Inl e \<Rightarrow> if is_missing_physical_object_error e
                       then other_intent_loop env cur_path branch_token paths s else Inl e
            | Inr bytes \<Rightarrow>
                (case from_slice (intent_json env) bytes of
                   Some marker \<Rightarrow>
                     if im_target_branch_token marker = branch_token then Inr True
                     else other_intent_loop env cur_path branch_token paths s
                 | None \<Rightarrow> Inr True)))"

definition other_active_intent_may_own_branch_lease ::
  "'s pub_env \<Rightarrow> string \<Rightarrow> string \<Rightarrow> 's \<Rightarrow> bool res" where
  "other_active_intent_may_own_branch_lease env cur_path branch_token s =
     rbind (r_list (backend env) ''transactions/active/'' s) (\<lambda>paths.
     other_intent_loop env cur_path branch_token paths s)"

text \<open>A delete whose "missing" error is ignored.\<close>

definition delete_ignoring_missing :: "'s remote \<Rightarrow> string \<Rightarrow> ('s, unit) prog" where
  "delete_ignoring_missing R path s =
     (case r_delete R path s of
        (Inr u, t) \<Rightarrow> (Inr (), t)
      | (Inl e, t) \<Rightarrow> if is_missing_physical_object_error e then (Inr (), t) else (Inl e, t))"

definition cleanup_completed_operation_markers ::
  "'s pub_env \<Rightarrow> string \<Rightarrow> string \<Rightarrow> ('s, unit) prog" where
  "cleanup_completed_operation_markers env operation_id branch_token s0 =
     (let R = backend env;
          intent = intent_path operation_id;
          had_current_intent = r_exists R intent s0;
          lease = lease_path_for branch_token
      in sbind (delete_ignoring_missing R intent) (\<lambda>_ s.
         (case r_get R lease s of
            Inl e \<Rightarrow> if is_missing_physical_object_error e then (Inr (), s) else (Inl e, s)
          | Inr lease_bytes \<Rightarrow>
              sbind (slift (case from_slice (lease_json env) lease_bytes of
                       Some marker \<Rightarrow> Inr (lm_operation_id marker = operation_id \<and>
                                          lm_target_branch_token marker = branch_token)
                     | None \<Rightarrow>
                         if had_current_intent then
                           rbind (other_active_intent_may_own_branch_lease env intent branch_token s)
                             (\<lambda>other. Inr (\<not> other))
                         else Inr False)) (\<lambda>should_remove.
              if should_remove then delete_ignoring_missing R lease else sret ()) s)) s0)"

end
