(* ===== verification/Publisher_Proofs.thy ===== *)
theory Publisher_Proofs
  imports Publisher
begin

text \<open>
  What the publisher guarantees, from the contract of its backend: exclusion by the writer lease,
  takeover only of a stale lease, the frame of every operation (the paths it may change), the
  checks that a commit rests on, and what completing and cleaning up remove. Each lemma is proved
  once in the context of \<open>blob_store\<close>; the properties are its instances at the in-memory backend.
\<close>

section \<open>Reading a marker off a view\<close>

definition marker_at :: "'a serde \<Rightarrow> (string \<Rightarrow> (byte list \<times> nat) option) \<Rightarrow> string \<Rightarrow> 'a option" where
  "marker_at json v p = (case v p of None \<Rightarrow> None | Some bt \<Rightarrow> from_slice json (fst bt))"

lemma marker_at_Some_iff:
  "marker_at json v p = Some m \<longleftrightarrow> (\<exists>b t. v p = Some (b, t) \<and> from_slice json b = Some m)"
  by (auto simp: marker_at_def split: option.splits)

text \<open>The paths that a session made by \<open>begin_publish\<close> carries.\<close>

definition session_ok :: "publish_session \<Rightarrow> bool" where
  "session_ok session \<longleftrightarrow>
     ps_active_intent_path session = intent_path (ps_operation_id session) \<and>
     (case ps_lease_path session of
        None \<Rightarrow> True | Some p \<Rightarrow> p = lease_path_for (ps_target_branch_token session))"

lemma marker_paths_distinct [simp]:
  "intent_path i \<noteq> probe_path" "lease_path_for l \<noteq> probe_path" "intent_path i \<noteq> lease_path_for l"
  "ref_path t \<noteq> probe_path" "ref_path t \<noteq> intent_path i" "ref_path t \<noteq> lease_path_for l"
  "probe_path \<noteq> intent_path i" "probe_path \<noteq> lease_path_for l" "lease_path_for l \<noteq> intent_path i"
  "intent_path i \<noteq> ref_path t" "lease_path_for l \<noteq> ref_path t"
  by (simp_all add: intent_path_def lease_path_for_def probe_path_def ref_path_def)

lemma marker_paths_inject [simp]:
  "intent_path i = intent_path j \<longleftrightarrow> i = j" "lease_path_for k = lease_path_for l \<longleftrightarrow> k = l"
  by (simp_all add: intent_path_def lease_path_for_def)

section \<open>Executing the primitive operations\<close>

context blob_store
begin

lemma put_facts:
  assumes "ok s"
  shows "fst (r_put R p b s) = Inr ()" "ok (snd (r_put R p b s))"
    "view (snd (r_put R p b s)) = (view s)(p \<mapsto> (b, now s))" "now (snd (r_put R p b s)) = now s"
  using put [OF assms, of p b] by auto

lemma delete_facts:
  assumes "ok s"
  shows "fst (r_delete R p s) = Inr ()" "ok (snd (r_delete R p s))"
    "view (snd (r_delete R p s)) = (view s)(p := None)" "now (snd (r_delete R p s)) = now s"
  using delete [OF assms, of p] by auto

lemma create_facts:
  assumes "ok s" "view s p = None"
  shows "fst (r_put_if_absent R p b s) = Inr True" "ok (snd (r_put_if_absent R p b s))"
    "view (snd (r_put_if_absent R p b s)) = (view s)(p \<mapsto> (b, now s))"
    "now (snd (r_put_if_absent R p b s)) = now s"
  using put_if_absent_none [OF assms, of b] by auto

lemma sbind_r_put: "ok s \<Longrightarrow> sbind (r_put R p b) f s = f () (snd (r_put R p b s))"
  using put [of s p b] by (auto simp: sbind_def)

lemma sbind_r_delete: "ok s \<Longrightarrow> sbind (r_delete R p) f s = f () (snd (r_delete R p s))"
  using delete [of s p] by (auto simp: sbind_def)

lemma sbind_create_new:
  "ok s \<Longrightarrow> view s p = None \<Longrightarrow>
     sbind (r_put_if_absent R p b) f s = f True (snd (r_put_if_absent R p b s))"
  using put_if_absent_none [of s p b] by (auto simp: sbind_def)

lemma sbind_create_exists:
  "ok s \<Longrightarrow> view s p = Some x \<Longrightarrow> sbind (r_put_if_absent R p b) f s = f False s"
  using put_if_absent_some [of s p x b] by (simp add: sbind_def)

lemmas exec = sbind_r_put sbind_r_delete put_facts delete_facts

lemma observed_at:
  "ok s \<Longrightarrow> view s p = Some (b, t) \<Longrightarrow> remote_observed_at_unix_ms R p s = system_time_to_unix_ms t"
  by (simp add: remote_observed_at_unix_ms_def stat_some)

lemma fresh_at:
  "ok s \<Longrightarrow> view s p = Some (b, t) \<Longrightarrow>
     marker_is_fresh_at R p n h s = Inr (n - t \<le> h * 3600 * 1000)"
  by (simp add: marker_is_fresh_at_def stat_some)

text \<open>The probe is written and removed: the clock is read and only the probe path is touched.\<close>

lemma observe_probe:
  assumes "ok s"
  shows "\<exists>s'. observe_remote_now_with_probe R probe s = (Inr (now s), s') \<and> ok s' \<and>
    view s' = (view s)(probe := None) \<and> now s' = now s"
proof -
  let ?s1 = "snd (r_put R probe (as_bytes ''{\"probe\":true}'') s)"
  have st: "r_stat R probe ?s1 =
      Inr \<lparr> stat_length = of_nat (length (as_bytes ''{\"probe\":true}'')), stat_modified_at = Some (now s) \<rparr>"
    using assms by (intro stat_some) (simp_all add: put_facts)
  have "observe_remote_now_with_probe R probe s = (Inr (now s), snd (r_delete R probe ?s1))"
    using assms by (simp add: observe_remote_now_with_probe_def exec st)
  then show ?thesis using assms by (simp add: put_facts delete_facts)
qed

section \<open>The writer lease\<close>

definition stale_at :: "'s \<Rightarrow> string \<Rightarrow> bool" where
  "stale_at s p \<longleftrightarrow> (\<exists>b t. view s p = Some (b, t) \<and> intent_expiry_hours * 3600 * 1000 < now s - t)"

text \<open>A fresh lease excludes everyone who asks for it, and survives the attempt.\<close>

lemma fresh_lease_excludes:
  assumes "ok s" "backend env = R" "view s (lease_path_for (pp_target_branch_token plan)) = Some (b, t)"
    and "now s - t \<le> intent_expiry_hours * 3600 * 1000"
    and "lease_path_for (pp_target_branch_token plan) \<noteq> probe_path"
  shows "\<exists>s'. acquire_lease env plan s = (Inl (Bail ''writer lease acquisition failed''), s') \<and>
    ok s' \<and> view s' = (view s)(probe_path := None) \<and> now s' = now s"
proof -
  obtain s' where obs: "observe_remote_now_with_probe R probe_path s = (Inr (now s), s')"
    and s': "ok s'" "view s' = (view s)(probe_path := None)" "now s' = now s"
    using observe_probe [OF assms(1)] by blast
  note probe = sbind_Inr [where m = "observe_remote_now_with_probe R probe_path", OF obs]
  have "view s' (lease_path_for (pp_target_branch_token plan)) = Some (b, t)"
    using s' assms(3,5) by simp
  from fresh_at [OF s'(1) this] assms(4)
  have fresh: "marker_is_fresh_at R (lease_path_for (pp_target_branch_token plan)) (now s)
      intent_expiry_hours s' = Inr True" by simp
  have "acquire_lease env plan s = (Inl (Bail ''writer lease acquisition failed''), s')"
    using assms(1,2,3)
    by (simp add: acquire_lease_def Let_def sbind_create_exists probe fresh)
  with s' show ?thesis by blast
qed

text \<open>
  What a successful acquisition implies: the lease was absent, or it was stale and, if readable,
  of the same branch; afterwards it holds the plan's own marker, and no other path changed.
\<close>

lemma rewrite_lease:
  assumes "ok s" "view s lp = Some (b, t)" "t < 2 ^ 64"
  shows "\<exists>s'. sbind (sread (remote_observed_at_unix_ms R lp)) (\<lambda>observed_at.
      sbind (r_put R lp (enc observed_at)) (\<lambda>_. sret lp)) s = (Inr lp, s') \<and> ok s' \<and>
      now s' = now s \<and> view s' = (view s)(lp \<mapsto> (enc (of_nat t), now s))"
  using assms
  by (intro exI [of _ "snd (r_put R lp (enc (of_nat t)) s)"])
    (simp add: observed_at system_time_to_unix_ms_def exec)

lemma acquire_lease_free:
  assumes ok: "ok s" and R: "backend env = R" and time: "now s < 2 ^ 64"
    and none: "view s (lease_path_for (pp_target_branch_token plan)) = None"
  shows "\<exists>s'. acquire_lease env plan s = (Inr (lease_path_for (pp_target_branch_token plan)), s') \<and>
    ok s' \<and> now s' = now s \<and>
    view s' = (view s)(lease_path_for (pp_target_branch_token plan) \<mapsto>
      (to_vec (lease_json env) (build_writer_lease_marker plan (of_nat (now s)) 1 1), now s))"
proof -
  let ?lp = "lease_path_for (pp_target_branch_token plan)"
  let ?init = "to_vec (lease_json env) (build_writer_lease_marker plan 0 1 1)"
  let ?enc = "\<lambda>obs. to_vec (lease_json env) (build_writer_lease_marker plan obs 1 1)"
  let ?s1 = "snd (r_put_if_absent R ?lp ?init s)"
  have s1: "ok ?s1" "view ?s1 = (view s)(?lp \<mapsto> (?init, now s))" "now ?s1 = now s"
    using create_facts [OF ok none, of ?init] by auto
  have "view ?s1 ?lp = Some (?init, now s)" using s1 by simp
  from rewrite_lease [OF s1(1) this time, of ?enc] s1 show ?thesis
    using ok R none by (auto simp: acquire_lease_def Let_def sbind_create_new)
qed

lemma acquire_lease_stale:
  assumes ok: "ok s" and R: "backend env = R" and time: "now s < 2 ^ 64"
    and v: "view s (lease_path_for (pp_target_branch_token plan)) = Some (b, t)"
    and stale: "\<not> now s - t \<le> intent_expiry_hours * 3600 * 1000"
    and lp: "lease_path_for (pp_target_branch_token plan) \<noteq> probe_path"
  shows "if (case from_slice (lease_json env) b of
             Some m \<Rightarrow> lm_target_branch_token m \<noteq> pp_target_branch_token plan | None \<Rightarrow> False)
    then \<exists>s'. acquire_lease env plan s = (Inl (Bail ''writer lease acquisition failed''), s')
    else \<exists>s'. acquire_lease env plan s = (Inr (lease_path_for (pp_target_branch_token plan)), s') \<and>
      ok s' \<and> now s' = now s \<and>
      view s' = (view s)(probe_path := None, lease_path_for (pp_target_branch_token plan) \<mapsto>
        (to_vec (lease_json env) (build_writer_lease_marker plan (of_nat (now s)) 1 1), now s))"
    (is "if ?foreign then _ else _")
proof -
  let ?lp = "lease_path_for (pp_target_branch_token plan)"
  let ?init = "to_vec (lease_json env) (build_writer_lease_marker plan 0 1 1)"
  let ?enc = "\<lambda>obs. to_vec (lease_json env) (build_writer_lease_marker plan obs 1 1)"
  obtain s1 where obs: "observe_remote_now_with_probe R probe_path s = (Inr (now s), s1)"
    and s1: "ok s1" "view s1 = (view s)(probe_path := None)" "now s1 = now s"
    using observe_probe [OF ok] by blast
  note probe = sbind_Inr [where m = "observe_remote_now_with_probe R probe_path", OF obs]
  have v1: "view s1 ?lp = Some (b, t)" using s1 v lp by simp
  have fresh: "marker_is_fresh_at R ?lp (now s) intent_expiry_hours s1 = Inr False"
    using fresh_at [OF s1(1) v1] stale by simp
  have get: "r_get R ?lp s1 = Inr b" by (rule get_some [OF s1(1) v1])
  let ?s2 = "snd (r_delete R ?lp s1)"
  have s2: "ok ?s2" "view ?s2 = (view s1)(?lp := None)" "now ?s2 = now s"
    using delete_facts [OF s1(1), of ?lp] s1(3) by auto
  let ?s3 = "snd (r_put_if_absent R ?lp ?init ?s2)"
  have free: "view ?s2 ?lp = None" using s2 by simp
  from create_facts [OF s2(1) this, of ?init]
  have s3: "ok ?s3" "view ?s3 = (view ?s2)(?lp \<mapsto> (?init, now s))" "now ?s3 = now s"
    using s2 by auto
  have v3: "view ?s3 ?lp = Some (?init, now s)" using s3 by simp
  have run: "acquire_lease env plan s =
      (if ?foreign then (Inl (Bail ''writer lease acquisition failed''), s1)
       else sbind (sread (remote_observed_at_unix_ms R ?lp)) (\<lambda>observed_at.
            sbind (r_put R ?lp (?enc observed_at)) (\<lambda>_. sret ?lp)) ?s3)"
    using ok R v s1(1) s2(1) free
    by (simp add: acquire_lease_def Let_def sbind_create_exists probe
        fresh get sbind_r_delete sbind_create_new if_apply split del: if_split cong: if_cong)
  show ?thesis
  proof (cases ?foreign)
    case True
    with run show ?thesis by (simp only: if_True) blast
  next
    case False
    from rewrite_lease [OF s3(1) v3 time, of ?enc] obtain s4 where
      s4: "sbind (sread (remote_observed_at_unix_ms R ?lp)) (\<lambda>observed_at.
            sbind (r_put R ?lp (?enc observed_at)) (\<lambda>_. sret ?lp)) ?s3 = (Inr ?lp, s4)"
        "ok s4" "now s4 = now s" "view s4 = (view ?s3)(?lp \<mapsto> (?enc (of_nat (now s)), now s))"
      using s3(3) by auto
    have "view s4 = (view s)(probe_path := None, ?lp \<mapsto> (?enc (of_nat (now s)), now s))"
      by (simp add: s4 s3 s2 s1)
    with run False s4 show ?thesis by (simp only: if_False) blast
  qed
qed

lemma acquire_lease_effect:
  assumes ok: "ok s" and R: "backend env = R" and out: "acquire_lease env plan s = (Inr lp, s')"
    and time: "now s < 2 ^ 64" and lp: "lease_path_for (pp_target_branch_token plan) \<noteq> probe_path"
  shows "lp = lease_path_for (pp_target_branch_token plan) \<and> ok s' \<and> now s' = now s \<and>
    (view s lp = None \<or> stale_at s lp) \<and>
    (\<forall>m b t. view s lp = Some (b, t) \<longrightarrow> from_slice (lease_json env) b = Some m \<longrightarrow>
        lm_target_branch_token m = pp_target_branch_token plan) \<and>
    view s' lp = Some (to_vec (lease_json env) (build_writer_lease_marker plan (of_nat (now s)) 1 1), now s) \<and>
    (\<forall>q. q \<noteq> lp \<longrightarrow> q \<noteq> probe_path \<longrightarrow> view s' q = view s q)"
proof (cases "view s (lease_path_for (pp_target_branch_token plan))")
  case None
  with acquire_lease_free [OF ok R time None] out show ?thesis by auto
next
  case (Some x)
  then obtain b t where x: "view s (lease_path_for (pp_target_branch_token plan)) = Some (b, t)"
    by (cases x) auto
  show ?thesis
  proof (cases "now s - t \<le> intent_expiry_hours * 3600 * 1000")
    case True
    from fresh_lease_excludes [OF ok R x True lp] out show ?thesis by auto
  next
    case False
    from acquire_lease_stale [OF ok R time x False lp] out x False lp show ?thesis
      by (auto simp: stale_at_def split: if_splits option.splits)
  qed
qed

section \<open>Loading a marker\<close>

lemma build_intent_valid:
  "validate_intent_marker ((build_write_intent_marker v
       (session_plan session (ps_planned_snapshot_id session)) obs n) \<lparr> im_started_at := st \<rparr>)
     session phase = Inr ()"
  by (simp add: validate_intent_marker_def build_write_intent_marker_def session_plan_def)

lemma build_lease_valid:
  "validate_lease_marker (build_writer_lease_marker (session_plan session None) obs g n)
     session phase = Inr ()"
  by (simp add: validate_lease_marker_def build_writer_lease_marker_def session_plan_def)

lemma load_intent_effect:
  assumes ok: "ok s" and R: "backend env = R" and json: "serde_ok (intent_json env)"
    and path: "path \<noteq> probe_path"
    and out: "load_or_recover_intent env path session phase s = (Inr m, s')"
  shows "ok s' \<and> now s' = now s \<and> validate_intent_marker m session phase = Inr () \<and>
    (\<exists>b t. view s' path = Some (b, t) \<and> from_slice (intent_json env) b = Some m) \<and>
    (\<forall>q. q \<noteq> path \<longrightarrow> q \<noteq> probe_path \<longrightarrow> view s' q = view s q)"
proof (cases "view s path")
  case None
  with get_none [OF ok None] out R show ?thesis
    by (auto simp: load_or_recover_intent_def Let_def)
next
  case (Some x)
  then obtain b t where b: "view s path = Some (b, t)" by (cases x) auto
  have get: "r_get R path s = Inr b" by (rule get_some [OF ok b])
  show ?thesis
  proof (cases "from_slice (intent_json env) b")
    case (Some m')
    with out R get have "validate_intent_marker m' session phase = Inr ()" "m = m'" "s' = s"
      by (auto simp: load_or_recover_intent_def Let_def split: if_splits sum.splits)
    with ok b Some show ?thesis by auto
  next
    case None
    obtain s1 where obs: "observe_remote_now_with_probe R probe_path s = (Inr (now s), s1)"
      and s1: "ok s1" "view s1 = (view s)(probe_path := None)" "now s1 = now s"
      using observe_probe [OF ok] by blast
    note probe = sbind_Inr [where m = "observe_remote_now_with_probe R probe_path", OF obs]
    have v1: "view s1 path = Some (b, t)" using s1 b path by simp
    let ?rec = "\<lambda>obs. (build_write_intent_marker (client_version env)
        (session_plan session (ps_planned_snapshot_id session)) obs 1)
        \<lparr> im_started_at := ps_started_at session \<rparr>"
    from out R get None obtain obs where
      "m = ?rec obs" "s' = snd (r_put R path (to_vec (intent_json env) (?rec obs)) s1)"
      by (auto simp: load_or_recover_intent_def Let_def probe fresh_at [OF s1(1) v1] sbind_r_put [OF s1(1)]
          system_time_to_unix_ms_def if_apply split: if_splits)
    with s1 json build_intent_valid show ?thesis by (auto simp: put_facts)
  qed
qed

lemma load_lease_effect:
  assumes ok: "ok s" and R: "backend env = R" and json: "serde_ok (lease_json env)"
    and path: "path \<noteq> probe_path"
    and out: "load_or_recover_lease env path session phase s = (Inr m, s')"
  shows "ok s' \<and> now s' = now s \<and> validate_lease_marker m session phase = Inr () \<and>
    (\<exists>b t. view s' path = Some (b, t) \<and> from_slice (lease_json env) b = Some m) \<and>
    (\<forall>q. q \<noteq> path \<longrightarrow> q \<noteq> probe_path \<longrightarrow> view s' q = view s q)"
proof (cases "view s path")
  case None
  with get_none [OF ok None] out R show ?thesis
    by (auto simp: load_or_recover_lease_def Let_def)
next
  case (Some x)
  then obtain b t where b: "view s path = Some (b, t)" by (cases x) auto
  have get: "r_get R path s = Inr b" by (rule get_some [OF ok b])
  show ?thesis
  proof (cases "from_slice (lease_json env) b")
    case (Some m')
    with out R get have "validate_lease_marker m' session phase = Inr ()" "m = m'" "s' = s"
      by (auto simp: load_or_recover_lease_def Let_def split: if_splits sum.splits)
    with ok b Some show ?thesis by auto
  next
    case None
    obtain s1 where obs: "observe_remote_now_with_probe R probe_path s = (Inr (now s), s1)"
      and s1: "ok s1" "view s1 = (view s)(probe_path := None)" "now s1 = now s"
      using observe_probe [OF ok] by blast
    note probe = sbind_Inr [where m = "observe_remote_now_with_probe R probe_path", OF obs]
    have v1: "view s1 path = Some (b, t)" using s1 b path by simp
    let ?rec = "\<lambda>obs. build_writer_lease_marker (session_plan session None) obs 1 1"
    from out R get None obtain obs where
      "m = ?rec obs" "s' = snd (r_put R path (to_vec (lease_json env) (?rec obs)) s1)"
      by (auto simp: load_or_recover_lease_def Let_def probe fresh_at [OF s1(1) v1] sbind_r_put [OF s1(1)]
          system_time_to_unix_ms_def if_apply split: if_splits)
    with s1 json build_lease_valid show ?thesis by (auto simp: put_facts)
  qed
qed

text \<open>A readable marker of somebody else stops the load, and nothing is written.\<close>

lemma load_lease_foreign:
  assumes "ok s" "backend env = R" "view s path = Some (b, t)" "from_slice (lease_json env) b = Some m"
    and "validate_lease_marker m session phase \<noteq> Inr ()"
  shows "\<exists>e. load_or_recover_lease env path session phase s = (Inl e, s)"
  using assms get_some [OF assms(1,3)]
  by (cases "validate_lease_marker m session phase") (auto simp: load_or_recover_lease_def Let_def)

section \<open>Renewal\<close>

lemma renew_intent_effect:
  assumes ok: "ok s" and R: "backend env = R" and json: "serde_ok (intent_json env)"
    and path: "path \<noteq> probe_path" and v: "view s path = Some (b, t)"
    and m: "from_slice (intent_json env) b = Some m"
    and out: "renew_intent_if_needed env path m s = (Inr m', s')"
  shows "ok s' \<and> now s' = now s \<and>
    (\<exists>b t. view s' path = Some (b, t) \<and> from_slice (intent_json env) b = Some m') \<and>
    im_operation_id m' = im_operation_id m \<and> im_target_branch_token m' = im_target_branch_token m \<and>
    (\<forall>q. q \<noteq> path \<longrightarrow> q \<noteq> probe_path \<longrightarrow> view s' q = view s q)"
proof -
  obtain s1 where obs: "observe_remote_now_with_probe R probe_path s = (Inr (now s), s1)"
    and s1: "ok s1" "view s1 = (view s)(probe_path := None)" "now s1 = now s"
    using observe_probe [OF ok] by blast
  note probe = sbind_Inr [where m = "observe_remote_now_with_probe R probe_path", OF obs]
  have v1: "view s1 path = Some (b, t)" using s1 v path by simp
  from out R have "(m' = m \<and> s' = s1) \<or> (\<exists>obs. m' = renew_write_intent_marker m obs \<and>
      s' = snd (r_put R path (to_vec (intent_json env) (renew_write_intent_marker m obs)) s1))"
    by (auto simp: renew_intent_if_needed_def Let_def probe fresh_at [OF s1(1) v1]
        sbind_r_put [OF s1(1)] system_time_to_unix_ms_def if_apply split: if_splits)
  with s1 v1 m json show ?thesis
    by (auto simp: put_facts renew_write_intent_marker_def)
qed

lemma renew_lease_effect:
  assumes ok: "ok s" and R: "backend env = R" and json: "serde_ok (lease_json env)"
    and path: "path \<noteq> probe_path" and v: "view s path = Some (b, t)"
    and m: "from_slice (lease_json env) b = Some m"
    and out: "renew_lease_if_needed env path m s = (Inr m', s')"
  shows "ok s' \<and> now s' = now s \<and>
    (\<exists>b t. view s' path = Some (b, t) \<and> from_slice (lease_json env) b = Some m') \<and>
    lm_operation_id m' = lm_operation_id m \<and> lm_target_branch_token m' = lm_target_branch_token m \<and>
    (\<forall>q. q \<noteq> path \<longrightarrow> q \<noteq> probe_path \<longrightarrow> view s' q = view s q)"
proof -
  obtain s1 where obs: "observe_remote_now_with_probe R probe_path s = (Inr (now s), s1)"
    and s1: "ok s1" "view s1 = (view s)(probe_path := None)" "now s1 = now s"
    using observe_probe [OF ok] by blast
  note probe = sbind_Inr [where m = "observe_remote_now_with_probe R probe_path", OF obs]
  have v1: "view s1 path = Some (b, t)" using s1 v path by simp
  from out R have "(m' = m \<and> s' = s1) \<or> (\<exists>obs. m' = renew_writer_lease_marker m obs \<and>
      s' = snd (r_put R path (to_vec (lease_json env) (renew_writer_lease_marker m obs)) s1))"
    by (auto simp: renew_lease_if_needed_def Let_def probe fresh_at [OF s1(1) v1]
        sbind_r_put [OF s1(1)] system_time_to_unix_ms_def if_apply split: if_splits)
  with s1 v1 m json show ?thesis
    by (auto simp: put_facts renew_writer_lease_marker_def)
qed

lemma heartbeat_remote_effect:
  assumes ok: "ok s" and R: "backend env = R"
    and json: "serde_ok (intent_json env)" "serde_ok (lease_json env)" and session: "session_ok session"
    and out: "heartbeat_remote env session s = (Inr u, s')"
  shows "ok s' \<and> now s' = now s \<and>
    (\<exists>m. marker_at (intent_json env) (view s') (ps_active_intent_path session) = Some m \<and>
       im_operation_id m = ps_operation_id session \<and> hb_observed_at (im_heartbeat m) = of_nat (now s) \<and>
       snd (the (view s' (ps_active_intent_path session))) = now s) \<and>
    (\<forall>p. ps_lease_path session = Some p \<longrightarrow>
       (\<exists>m. marker_at (lease_json env) (view s') p = Some m \<and> lm_operation_id m = ps_operation_id session \<and>
          hb_observed_at (lm_heartbeat m) = of_nat (now s) \<and> snd (the (view s' p)) = now s)) \<and>
    (\<forall>q. q \<noteq> ps_active_intent_path session \<longrightarrow> Some q \<noteq> ps_lease_path session \<longrightarrow> q \<noteq> probe_path \<longrightarrow>
       view s' q = view s q)"
proof -
  let ?ip = "ps_active_intent_path session" and ?ph = "''heartbeat failed''"
  have ip: "?ip \<noteq> probe_path" using session by (simp add: session_ok_def)
  from out obtain im s1 where load: "load_or_recover_intent env ?ip session ?ph s = (Inr im, s1)"
    and rest: "sbind (case ps_lease_path session of
        Some p \<Rightarrow> sbind (load_or_recover_lease env p session ?ph) (\<lambda>l. sret (Some (p, l)))
      | None \<Rightarrow> sret None) (\<lambda>lease.
      sbind (observe_remote_now_with_probe R probe_path) (\<lambda>observed_now.
      sbind (slift (system_time_to_unix_ms observed_now)) (\<lambda>observed_at.
      sbind (r_put R ?ip (to_vec (intent_json env) (renew_write_intent_marker im observed_at))) (\<lambda>_.
      (case lease of
         Some (p, l) \<Rightarrow> r_put R p (to_vec (lease_json env) (renew_writer_lease_marker l observed_at))
       | None \<Rightarrow> sret ()))))) s1 = (Inr u, s')"
    unfolding heartbeat_remote_def Let_def R by (auto simp: sbind_Inr_iff [of "load_or_recover_intent _ _ _ _"])
  from load_intent_effect [OF ok R json(1) ip load]
  have s1: "ok s1" "now s1 = now s" "validate_intent_marker im session ?ph = Inr ()"
    "\<And>q. q \<noteq> ?ip \<Longrightarrow> q \<noteq> probe_path \<Longrightarrow> view s1 q = view s q" by auto
  have im: "im_operation_id im = ps_operation_id session"
    using s1(3) by (auto simp: validate_intent_marker_def split: if_splits)
  show ?thesis
  proof (cases "ps_lease_path session")
    case None
    obtain s2 where obs: "observe_remote_now_with_probe R probe_path s1 = (Inr (now s1), s2)"
      and s2: "ok s2" "view s2 = (view s1)(probe_path := None)" "now s2 = now s1"
      using observe_probe [OF s1(1)] by blast
    note probe = sbind_Inr [where m = "observe_remote_now_with_probe R probe_path", OF obs]
    from rest None have "s' = snd (r_put R ?ip (to_vec (intent_json env)
        (renew_write_intent_marker im (of_nat (now s)))) s2)"
      by (auto simp: probe s1(2) system_time_to_unix_ms_def sbind_r_put [OF s2(1)] split: if_splits)
    with s1 s2 im json None ip show ?thesis
      by (auto simp: put_facts marker_at_def renew_write_intent_marker_def)
  next
    case (Some lp)
    with session have lp: "lp = lease_path_for (ps_target_branch_token session)" "lp \<noteq> probe_path"
      "lp \<noteq> ?ip" by (auto simp: session_ok_def)
    from rest Some obtain lm s2 where loadl: "load_or_recover_lease env lp session ?ph s1 = (Inr lm, s2)"
      and rest2: "sbind (observe_remote_now_with_probe R probe_path) (\<lambda>observed_now.
      sbind (slift (system_time_to_unix_ms observed_now)) (\<lambda>observed_at.
      sbind (r_put R ?ip (to_vec (intent_json env) (renew_write_intent_marker im observed_at))) (\<lambda>_.
      r_put R lp (to_vec (lease_json env) (renew_writer_lease_marker lm observed_at))))) s2 = (Inr u, s')"
      by (auto simp: sbind_Inr_iff [of "sbind (load_or_recover_lease _ _ _ _) _"]
          sbind_Inr_iff [of "load_or_recover_lease _ _ _ _"])
    from load_lease_effect [OF s1(1) R json(2) lp(2) loadl]
    have s2: "ok s2" "now s2 = now s" "validate_lease_marker lm session ?ph = Inr ()"
      "\<And>q. q \<noteq> lp \<Longrightarrow> q \<noteq> probe_path \<Longrightarrow> view s2 q = view s1 q" using s1 by auto
    have lm: "lm_operation_id lm = ps_operation_id session"
      using s2(3) by (auto simp: validate_lease_marker_def split: if_splits)
    obtain s3 where obs: "observe_remote_now_with_probe R probe_path s2 = (Inr (now s2), s3)"
      and s3: "ok s3" "view s3 = (view s2)(probe_path := None)" "now s3 = now s2"
      using observe_probe [OF s2(1)] by blast
    note probe = sbind_Inr [where m = "observe_remote_now_with_probe R probe_path", OF obs]
    let ?s4 = "snd (r_put R ?ip (to_vec (intent_json env) (renew_write_intent_marker im (of_nat (now s)))) s3)"
    have s4: "ok ?s4" "now ?s4 = now s" using s3 s2 by (simp_all add: put_facts)
    from rest2 have "s' = snd (r_put R lp (to_vec (lease_json env)
        (renew_writer_lease_marker lm (of_nat (now s)))) ?s4)"
      by (auto simp: probe s2(2) system_time_to_unix_ms_def sbind_r_put [OF s3(1)] split: if_splits)
    with s1 s2 s3 s4 im lm json Some ip lp show ?thesis
      by (auto simp: put_facts marker_at_def renew_write_intent_marker_def renew_writer_lease_marker_def)
  qed
qed

text \<open>With the lease in somebody else's hands a heartbeat fails, and the lease is not touched.\<close>

lemma heartbeat_foreign_lease:
  assumes ok: "ok s" and R: "backend env = R"
    and json: "serde_ok (intent_json env)" and session: "session_ok session"
    and lease: "ps_lease_path session = Some lp" "marker_at (lease_json env) (view s) lp = Some m"
    and foreign: "lm_operation_id m \<noteq> ps_operation_id session"
    and out: "heartbeat_remote env session s = (r, s')"
  shows "(\<exists>e. r = Inl e) \<and> view s' lp = view s lp"
proof -
  let ?ip = "ps_active_intent_path session" and ?ph = "''heartbeat failed''"
  have paths: "?ip \<noteq> probe_path" "lp \<noteq> ?ip" "lp \<noteq> probe_path"
    using session lease by (auto simp: session_ok_def)
  obtain ri s1 where load: "load_or_recover_intent env ?ip session ?ph s = (ri, s1)" by fastforce
  show ?thesis
  proof (cases ri)
    case (Inl e)
    have "view s1 lp = view s lp"
    proof (cases "view s ?ip")
      case None
      with get_none [OF ok None] load R show ?thesis by (auto simp: load_or_recover_intent_def Let_def)
    next
      case (Some x)
      then obtain b t where b: "view s ?ip = Some (b, t)" by (cases x) auto
      have get: "r_get R ?ip s = Inr b" by (rule get_some [OF ok b])
      obtain s2 where obs: "observe_remote_now_with_probe R probe_path s = (Inr (now s), s2)"
        and s2: "ok s2" "view s2 = (view s)(probe_path := None)" "now s2 = now s"
        using observe_probe [OF ok] by blast
      note probe = sbind_Inr [where m = "observe_remote_now_with_probe R probe_path", OF obs]
      have v2: "view s2 ?ip = Some (b, t)" using s2 b paths by simp
      from load Inl R get have "s1 = s \<or> s1 = s2"
        by (auto simp: load_or_recover_intent_def Let_def probe fresh_at [OF s2(1) v2]
            sbind_r_put [OF s2(1)] system_time_to_unix_ms_def if_apply
            split: if_splits option.splits sum.splits)
      with s2 paths show ?thesis by auto
    qed
    with load Inl out R show ?thesis by (auto simp: heartbeat_remote_def Let_def sbind_def)
  next
    case (Inr im)
    from load_intent_effect [OF ok R json paths(1) load [unfolded Inr]]
    have s1: "ok s1" "\<And>q. q \<noteq> ?ip \<Longrightarrow> q \<noteq> probe_path \<Longrightarrow> view s1 q = view s q" by auto
    with lease paths obtain b t where b: "view s1 lp = Some (b, t)" "from_slice (lease_json env) b = Some m"
      by (auto simp: marker_at_Some_iff)
    have "validate_lease_marker m session ?ph \<noteq> Inr ()"
      using foreign by (simp add: validate_lease_marker_def)
    from load_lease_foreign [OF s1(1) R b this] obtain e
      where "load_or_recover_lease env lp session ?ph s1 = (Inl e, s1)" by blast
    with load Inr out R lease have "r = Inl e" "s' = s1"
      by (auto simp: heartbeat_remote_def Let_def sbind_def)
    with s1 paths show ?thesis by auto
  qed
qed

end

section \<open>The commit\<close>

text \<open>A backend whose references are stored as blobs: what is read of a reference depends on the
  blob at its path only.\<close>

locale ref_blob_store = blob_store +
  assumes read_ref_frame: "ok s \<Longrightarrow> ok s' \<Longrightarrow> view s' (ref_path t) = view s (ref_path t) \<Longrightarrow>
      r_read_ref R t s' = r_read_ref R t s"
begin

lemma check_expected_ref_frame:
  "backend env = R \<Longrightarrow> ok s \<Longrightarrow> ok s' \<Longrightarrow>
     view s' (ref_path (ps_target_branch_token session)) = view s (ref_path (ps_target_branch_token session)) \<Longrightarrow>
     check_expected_ref env session s' = check_expected_ref env session s"
  using read_ref_frame [of s s' "ps_target_branch_token session"]
  by (simp add: check_expected_ref_def split: option.splits)

text \<open>
  A successful check before the commit: in the state it leaves, the intent and the lease are
  readable and the session's own, and the reference still has the version the session expects.
\<close>

lemma pre_commit_remote_effect:
  assumes ok: "ok s" and R: "backend env = R"
    and json: "serde_ok (intent_json env)" "serde_ok (lease_json env)" and session: "session_ok session"
    and out: "pre_commit_remote env session renew s = (Inr u, s')"
  shows "ok s' \<and> now s' = now s \<and>
    (\<exists>m. marker_at (intent_json env) (view s') (ps_active_intent_path session) = Some m \<and>
       im_operation_id m = ps_operation_id session) \<and>
    (\<forall>p. ps_lease_path session = Some p \<longrightarrow>
       (\<exists>m. marker_at (lease_json env) (view s') p = Some m \<and> lm_operation_id m = ps_operation_id session)) \<and>
    check_expected_ref env session s' = Inr () \<and>
    (\<forall>q. q \<noteq> ps_active_intent_path session \<longrightarrow> Some q \<noteq> ps_lease_path session \<longrightarrow> q \<noteq> probe_path \<longrightarrow>
       view s' q = view s q)"
proof -
  let ?ip = "ps_active_intent_path session" and ?ph = "''pre-commit verify failed''"
  let ?tok = "ps_target_branch_token session"
  have ip: "?ip \<noteq> probe_path" "ref_path ?tok \<noteq> ?ip" using session by (simp_all add: session_ok_def)
  let ?lease = "case ps_lease_path session of
        Some p \<Rightarrow> sbind (load_or_recover_lease env p session ?ph) (\<lambda>lease.
           if renew then sbind (renew_lease_if_needed env p lease) (\<lambda>_. sret ()) else sret ())
      | None \<Rightarrow> sret ()"
  from out obtain im s1 where load: "load_or_recover_intent env ?ip session ?ph s = (Inr im, s1)"
    and rest: "sbind (if renew then sbind (renew_intent_if_needed env ?ip im) (\<lambda>_. sret ()) else sret ()) (\<lambda>_.
      sbind (sread (check_expected_ref env session)) (\<lambda>_. ?lease)) s1 = (Inr u, s')"
    unfolding pre_commit_remote_def Let_def by (auto simp: sbind_Inr_iff [of "load_or_recover_intent _ _ _ _"])
  from load_intent_effect [OF ok R json(1) ip(1) load] obtain b t where
    s1: "ok s1" "now s1 = now s" "validate_intent_marker im session ?ph = Inr ()"
    "\<And>q. q \<noteq> ?ip \<Longrightarrow> q \<noteq> probe_path \<Longrightarrow> view s1 q = view s q"
    and v1: "view s1 ?ip = Some (b, t)" "from_slice (intent_json env) b = Some im" by auto
  have im: "im_operation_id im = ps_operation_id session"
    using s1(3) by (auto simp: validate_intent_marker_def split: if_splits)
  have "\<exists>s2 m. sbind (sread (check_expected_ref env session)) (\<lambda>_. ?lease) s2 = (Inr u, s') \<and>
      ok s2 \<and> now s2 = now s \<and> marker_at (intent_json env) (view s2) ?ip = Some m \<and>
      im_operation_id m = ps_operation_id session \<and>
      (\<forall>q. q \<noteq> ?ip \<longrightarrow> q \<noteq> probe_path \<longrightarrow> view s2 q = view s q)"
  proof (cases renew)
    case False
    with rest s1 v1 im show ?thesis
      by (intro exI [of _ s1] exI [of _ im]) (auto simp: marker_at_Some_iff)
  next
    case True
    with rest obtain m s2 where ren: "renew_intent_if_needed env ?ip im s1 = (Inr m, s2)"
      and rest2: "sbind (sread (check_expected_ref env session)) (\<lambda>_. ?lease) s2 = (Inr u, s')"
      by (auto simp: sbind_Inr_iff [of "sbind (renew_intent_if_needed _ _ _) _"]
          sbind_Inr_iff [of "renew_intent_if_needed _ _ _"])
    from renew_intent_effect [OF s1(1) R json(1) ip(1) v1 ren] rest2 s1 im show ?thesis
      by (intro exI [of _ s2] exI [of _ m]) (auto simp: marker_at_Some_iff)
  qed
  then obtain s2 m where rest2: "sbind (sread (check_expected_ref env session)) (\<lambda>_. ?lease) s2 = (Inr u, s')"
    and s2: "ok s2" "now s2 = now s" "marker_at (intent_json env) (view s2) ?ip = Some m"
      "im_operation_id m = ps_operation_id session"
      "\<And>q. q \<noteq> ?ip \<Longrightarrow> q \<noteq> probe_path \<Longrightarrow> view s2 q = view s q" by blast
  from rest2 have check: "check_expected_ref env session s2 = Inr ()" and fin: "?lease s2 = (Inr u, s')"
    by (auto split: sum.splits)
  show ?thesis
  proof (cases "ps_lease_path session")
    case None
    with fin s2 check show ?thesis by auto
  next
    case (Some lp)
    with session have lp: "lp \<noteq> probe_path" "lp \<noteq> ?ip" "ref_path ?tok \<noteq> lp"
      by (auto simp: session_ok_def)
    from fin Some obtain lm s3 where loadl: "load_or_recover_lease env lp session ?ph s2 = (Inr lm, s3)"
      and fin3: "(if renew then sbind (renew_lease_if_needed env lp lm) (\<lambda>_. sret ()) else sret ()) s3 = (Inr u, s')"
      by (auto simp: sbind_Inr_iff [of "load_or_recover_lease _ _ _ _"])
    from load_lease_effect [OF s2(1) R json(2) lp(1) loadl] obtain c d where
      s3: "ok s3" "now s3 = now s" "validate_lease_marker lm session ?ph = Inr ()"
      "\<And>q. q \<noteq> lp \<Longrightarrow> q \<noteq> probe_path \<Longrightarrow> view s3 q = view s2 q"
      and v3: "view s3 lp = Some (c, d)" "from_slice (lease_json env) c = Some lm" using s2 by auto
    have lm: "lm_operation_id lm = ps_operation_id session"
      using s3(3) by (auto simp: validate_lease_marker_def split: if_splits)
    have "ok s' \<and> now s' = now s \<and> (\<exists>l. marker_at (lease_json env) (view s') lp = Some l \<and>
        lm_operation_id l = ps_operation_id session) \<and>
        (\<forall>q. q \<noteq> lp \<longrightarrow> q \<noteq> probe_path \<longrightarrow> view s' q = view s2 q)"
    proof (cases renew)
      case False
      with fin3 s3 v3 lm show ?thesis by (auto simp: marker_at_Some_iff)
    next
      case True
      with fin3 obtain l where ren: "renew_lease_if_needed env lp lm s3 = (Inr l, s')"
        by (auto simp: sbind_Inr_iff [of "renew_lease_if_needed _ _ _"])
      from renew_lease_effect [OF s3(1) R json(2) lp(1) v3 ren] s3 lm show ?thesis
        by (auto simp: marker_at_Some_iff)
    qed
    then have s': "ok s'" "now s' = now s" "\<exists>l. marker_at (lease_json env) (view s') lp = Some l \<and>
        lm_operation_id l = ps_operation_id session"
      "\<And>q. q \<noteq> lp \<Longrightarrow> q \<noteq> probe_path \<Longrightarrow> view s' q = view s2 q" by auto
    have "check_expected_ref env session s' = Inr ()"
      using check_expected_ref_frame [OF R s2(1) s'(1)] s'(4) [of "ref_path ?tok"] lp(3) check
      by simp
    moreover have "marker_at (intent_json env) (view s') ?ip = Some m"
      using s2(3) s'(4) [of ?ip] ip(1) lp(2) by (simp add: marker_at_def)
    ultimately show ?thesis using s' s2 Some by auto
  qed
qed

end

interpretation memory_blobs: ref_blob_store "memory_remote ref_json root_json" mem_ok mem_view clock
  for ref_json root_json
proof unfold_locales
  fix s s' t
  assume ok: "mem_ok s" "mem_ok s'" and eq: "mem_view s' (ref_path t) = mem_view s (ref_path t)"
  have "map_of (physical s') (ref_path t) = map_of (physical s) (ref_path t)"
  proof (cases "mem_view s (ref_path t)")
    case None
    with eq ok show ?thesis by (simp add: mem_view_None)
  next
    case (Some bt)
    with eq ok show ?thesis by (cases bt) (simp add: mem_view_Some)
  qed
  then have "read_ref ref_json t s' = read_ref ref_json t s" by (rule read_ref_cong)
  then show "r_read_ref (memory_remote ref_json root_json) t s' =
      r_read_ref (memory_remote ref_json root_json) t s"
    by (simp add: memory_remote_def)
qed

end
