(* ===== verification/Publisher_Claims.thy ===== *)
theory Publisher_Claims
  imports Publisher_Proofs Layout_Roots
begin

text \<open>
  The properties of the publisher at the in-memory backend: who may begin, what a heartbeat and
  a commit check establish, what completing and cleaning up remove, and the layout-root publish.
\<close>

definition on_memory :: "mem pub_env \<Rightarrow> stored_ref serde \<Rightarrow> layout_root serde \<Rightarrow> bool" where
  "on_memory env ref_json root_json \<longleftrightarrow>
     backend env = memory_remote ref_json root_json \<and> serde_ok ref_json \<and> serde_ok root_json \<and>
     serde_ok (intent_json env) \<and> serde_ok (lease_json env)"

lemma on_memoryD:
  assumes "on_memory env ref_json root_json"
  shows "backend env = memory_remote ref_json root_json" "serde_ok ref_json" "serde_ok root_json"
    "serde_ok (intent_json env)" "serde_ok (lease_json env)"
  using assms by (simp_all add: on_memory_def)

definition needs_lease :: "'s pub_env \<Rightarrow> bool \<Rightarrow> bool" where
  "needs_lease env risky \<longleftrightarrow> effective_writer_mode (capability env) risky = SingleWriter \<and>
     supports_atomic_create_if_absent (capability env)"

definition sample_env :: "backend_capability \<Rightarrow> mem pub_env" where
  "sample_env cap = \<lparr> capability = cap, backend = memory_remote unary_codec unary_codec,
     intent_json = unary_codec, lease_json = unary_codec, client_version = ''1'' \<rparr>"

lemma sample_on_memory [simp]: "on_memory (sample_env cap) unary_codec unary_codec"
  by (simp add: on_memory_def sample_env_def)

definition sample_plan :: "string \<Rightarrow> publish_plan" where
  "sample_plan op = \<lparr> pp_operation_id = op, pp_target_branch_token = ''b'',
     pp_expected_ref_version = None, pp_planned_snapshot_id = None, pp_writer_mode = SingleWriter \<rparr>"

lemma sample_needs_lease: "needs_lease (sample_env sample_capability) False"
  by (simp add: needs_lease_def sample_env_def effective_writer_mode_def push_write_mode_def
      supports_safe_single_writer_push_def sample_capability_def)

lemma sample_branch: "validate_sync_identifier ''b'' = Inr ()"
  by code_simp

definition sample_pub :: "mem \<Rightarrow> mem pub" where
  "sample_pub s = \<lparr> remote_st = s, observed_local = [], local_now = 0 \<rparr>"

section \<open>Beginning an operation\<close>

lemma on_remote_simps:
  "m (remote_st p) = (r, s') \<Longrightarrow> on_remote m p = (r, p\<lparr> remote_st := s' \<rparr>)"
  by (simp add: on_remote_def)

lemma sbind_on_remote:
  "m (remote_st p) = (Inr x, s') \<Longrightarrow> sbind (on_remote m) f p = f x (p\<lparr> remote_st := s' \<rparr>)"
  "m (remote_st p) = (Inl e, s') \<Longrightarrow> sbind (on_remote m) f p = (Inl e, p\<lparr> remote_st := s' \<rparr>)"
  by (simp_all add: sbind_def on_remote_def)

text \<open>C4: Mutual exclusion by the writer lease, where a begin takes one: in single-writer mode on a
  backend that can create a file atomically (the risky mode on other backends takes no lease).
  While the lease file of a branch is at most 72 hours old, nobody can begin a single-writer operation on that branch, whoever holds the lease: the
  attempt fails and leaves every file of the backend (its own time probe apart) as it was, so
  the lease survives any number of attempts.\<close>

theorem lease_excludes_writers:
  assumes "on_memory env ref_json root_json" and "mem_ok (remote_st p)" and "needs_lease env risky"
    and "mem_view (remote_st p) (lease_path_for (pp_target_branch_token plan)) = Some (b, t)"
    and "clock (remote_st p) - t \<le> 72 * 3600 * 1000"
  shows "\<exists>e p'. begin_publish env plan risky p = (Inl e, p') \<and>
    (\<forall>q. q \<noteq> probe_path \<longrightarrow> mem_view (remote_st p') q = mem_view (remote_st p) q) \<and>
    mem_ok (remote_st p') \<and> clock (remote_st p') = clock (remote_st p)"
proof (cases "validate_sync_identifier (pp_target_branch_token plan)")
  case (Inl e)
  with assms(2) show ?thesis
    by (intro exI [of _ e] exI [of _ p]) (simp add: begin_publish_def Let_def)
next
  case (Inr u)
  let ?failed = "Bail ''writer lease acquisition failed''"
  obtain s' where acq: "acquire_lease env plan (remote_st p) = (Inl ?failed, s')"
    and s': "mem_ok s'" "mem_view s' = (mem_view (remote_st p))(probe_path := None)"
      "clock s' = clock (remote_st p)"
    using memory.fresh_lease_excludes [OF assms(2) on_memoryD(1) [OF assms(1)] assms(4)] assms(5)
    by (auto simp: intent_expiry_hours_def)
  have "begin_publish env plan risky p = (Inl ?failed, p\<lparr> remote_st := s' \<rparr>)"
    using assms(3) Inr
    by (simp add: begin_publish_def Let_def needs_lease_def sbind_def [of "sbind _ _"]
        sbind_on_remote(2) [where m = "acquire_lease env plan", OF acq] if_apply)
  with s' show ?thesis by auto
qed

theorem lease_excludes_writers_witness:
  "\<exists>e p'. begin_publish (sample_env sample_capability) (sample_plan ''o2'') False
     (sample_pub (snd (put_physical (lease_path_for ''b'') [1] (mem_new 5)))) = (Inl e, p')"
proof -
  let ?s = "snd (put_physical (lease_path_for ''b'') [1] (mem_new 5))"
  have ok: "mem_ok (remote_st (sample_pub ?s))" by (simp add: sample_pub_def mem_ok_put)
  have v: "mem_view (remote_st (sample_pub ?s))
      (lease_path_for (pp_target_branch_token (sample_plan ''o2''))) = Some ([1], 5)"
    by (simp add: sample_pub_def sample_plan_def mem_view_def put_physical_def mem_new_def)
  have "clock (remote_st (sample_pub ?s)) - 5 \<le> 72 * 3600 * 1000"
    by (simp add: sample_pub_def put_physical_def mem_new_def)
  from lease_excludes_writers [OF sample_on_memory ok sample_needs_lease v this]
  show ?thesis by blast
qed

text \<open>What a successful begin leaves, with and without a lease.\<close>

lemma write_intent_effect:
  assumes ok: "mem_ok (remote_st p)" and R: "backend env = memory_remote ref_json root_json"
    and time: "clock (remote_st p) < 2 ^ 64"
  shows "\<exists>p1. (\<forall>f :: u64 \<Rightarrow> (mem pub, publish_session) prog. sbind (on_remote (r_put (backend env) (intent_path op) (enc 0))) (\<lambda>_.
      sbind (on_remote (sread (remote_observed_at_unix_ms (backend env) (intent_path op)))) (\<lambda>observed_at.
      sbind (if c then on_remote (r_put (backend env) (intent_path op) (enc observed_at)) else sret ())
        (\<lambda>_. f observed_at))) p = f (of_nat (clock (remote_st p))) p1) \<and>
    mem_ok (remote_st p1) \<and> clock (remote_st p1) = clock (remote_st p) \<and>
    mem_view (remote_st p1) = (mem_view (remote_st p))(intent_path op \<mapsto>
      (enc (if c then of_nat (clock (remote_st p)) else 0), clock (remote_st p)))"
proof -
  let ?s = "remote_st p" and ?i = "intent_path op" and ?R = "memory_remote ref_json root_json"
  obtain s1 where put1: "r_put ?R ?i (enc 0) ?s = (Inr (), s1)" and s1: "mem_ok s1"
    "mem_view s1 = (mem_view ?s)(?i \<mapsto> (enc 0, clock ?s))" "clock s1 = clock ?s"
    using memory.put [OF ok, of ref_json root_json ?i "enc 0"] by blast
  have obs: "remote_observed_at_unix_ms ?R ?i s1 = Inr (of_nat (clock ?s))"
    using memory.observed_at [OF s1(1), of ?i "enc 0" "clock ?s" ref_json root_json] s1(2) time
    by (simp add: system_time_to_unix_ms_def)
  obtain s2 where put2: "r_put ?R ?i (enc (of_nat (clock ?s))) s1 = (Inr (), s2)" and s2: "mem_ok s2"
    "mem_view s2 = (mem_view s1)(?i \<mapsto> (enc (of_nat (clock ?s)), clock s1))" "clock s2 = clock s1"
    using memory.put [OF s1(1), of ref_json root_json ?i "enc (of_nat (clock ?s))"] by blast
  show ?thesis
    using s1 s2 put1 put2 obs
    by (intro exI [of _ "p\<lparr> remote_st := if c then s2 else s1 \<rparr>"])
      (auto simp: R sbind_def on_remote_def)
qed

text \<open>C5: A successful single-writer begin on a backend that can create a file atomically took the
  branch lease legitimately and left its own markers. Before, the lease file was absent, or older than 72 hours and (where readable) of the
  same branch. Afterwards the lease file holds the marker of this operation, written now; the
  intent file holds the intent of this operation; no file other than these two and the time
  probe has changed; and the session carries these two paths.\<close>

theorem begin_takes_lease:
  assumes mem: "on_memory env ref_json root_json" and ok: "mem_ok (remote_st p)"
    and lease: "needs_lease env risky" and time: "clock (remote_st p) < 2 ^ 64"
    and out: "begin_publish env plan risky p = (Inr session, p')"
  shows "session_ok session \<and> ps_operation_id session = pp_operation_id plan \<and>
    ps_target_branch_token session = pp_target_branch_token plan \<and>
    (\<exists>lp. ps_lease_path session = Some lp \<and>
       (mem_view (remote_st p) lp = None \<or>
        (\<exists>b t. mem_view (remote_st p) lp = Some (b, t) \<and> 72 * 3600 * 1000 < clock (remote_st p) - t \<and>
           (\<forall>m. from_slice (lease_json env) b = Some m \<longrightarrow>
              lm_target_branch_token m = pp_target_branch_token plan))) \<and>
       (\<exists>m. marker_at (lease_json env) (mem_view (remote_st p')) lp = Some m \<and>
          lm_operation_id m = pp_operation_id plan \<and>
          lm_target_branch_token m = pp_target_branch_token plan \<and>
          snd (the (mem_view (remote_st p') lp)) = clock (remote_st p)) \<and>
       (\<exists>m. marker_at (intent_json env) (mem_view (remote_st p')) (ps_active_intent_path session) = Some m \<and>
          validate_intent_marker m session [] = Inr ()) \<and>
       (\<forall>q. q \<noteq> lp \<longrightarrow> q \<noteq> ps_active_intent_path session \<longrightarrow> q \<noteq> probe_path \<longrightarrow>
          mem_view (remote_st p') q = mem_view (remote_st p) q))"
proof -
  note R = on_memoryD(1) [OF mem]
  have ids: "validate_sync_identifier (pp_target_branch_token plan) = Inr ()"
    using out by (cases "validate_sync_identifier (pp_target_branch_token plan)")
      (auto simp: begin_publish_def Let_def)
  have "\<exists>lp s1. acquire_lease env plan (remote_st p) = (Inr lp, s1)"
  proof (cases "acquire_lease env plan (remote_st p)")
    case (Pair r s1)
    show ?thesis
    proof (cases r)
      case (Inl e)
      with out ids lease Pair have False
        by (auto simp: begin_publish_def Let_def needs_lease_def sbind_def [of "sbind _ _"]
            sbind_on_remote(2) [where m = "acquire_lease env plan" and p = p and e = e and s' = s1]
            if_apply)
      then show ?thesis ..
    qed (use Pair in blast)
  qed
  then obtain lp s1 where acq: "acquire_lease env plan (remote_st p) = (Inr lp, s1)" by blast
  note eff = memory.acquire_lease_effect [OF ok R acq time]
  let ?tok = "pp_target_branch_token plan" and ?op = "pp_operation_id plan"
  have lp: "lp = lease_path_for ?tok" and s1: "mem_ok s1" "clock s1 = clock (remote_st p)"
    and before: "mem_view (remote_st p) lp = None \<or> memory.stale_at (remote_st p) lp"
      "\<And>m b t. mem_view (remote_st p) lp = Some (b, t) \<Longrightarrow> from_slice (lease_json env) b = Some m \<Longrightarrow>
        lm_target_branch_token m = ?tok"
    and after: "mem_view s1 lp = Some (to_vec (lease_json env)
        (build_writer_lease_marker plan (of_nat (clock (remote_st p))) 1 1), clock (remote_st p))"
      "\<And>q. q \<noteq> lp \<Longrightarrow> q \<noteq> probe_path \<Longrightarrow> mem_view s1 q = mem_view (remote_st p) q"
    using eff by auto
  let ?p1 = "p\<lparr> remote_st := s1 \<rparr>"
  let ?cap = "capability env"
  let ?c = "supports_reliable_remote_time ?cap \<or> supports_object_generation_or_etag ?cap"
  let ?enc = "\<lambda>obs. to_vec (intent_json env) (build_write_intent_marker (client_version env) plan obs 1)"
  have "mem_ok (remote_st ?p1)" "clock (remote_st ?p1) < 2 ^ 64" using s1 time by simp_all
  from write_intent_effect [OF this(1) R this(2), of ?op ?enc ?c]
  obtain p2 where run: "\<And>f :: u64 \<Rightarrow> (mem pub, publish_session) prog. sbind (on_remote (r_put (backend env) (intent_path ?op) (?enc 0))) (\<lambda>_.
      sbind (on_remote (sread (remote_observed_at_unix_ms (backend env) (intent_path ?op)))) (\<lambda>observed_at.
      sbind (if ?c then on_remote (r_put (backend env) (intent_path ?op) (?enc observed_at)) else sret ())
        (\<lambda>_. f observed_at))) ?p1 = f (of_nat (clock (remote_st p))) p2"
    and p2: "mem_view (remote_st p2) = (mem_view s1)(intent_path ?op \<mapsto>
      (?enc (if ?c then of_nat (clock (remote_st p)) else 0), clock (remote_st p)))"
    using s1 by auto
  have "sbind (sbind (on_remote (acquire_lease env plan)) (\<lambda>p. sret (Some p))) f p = f (Some lp) ?p1" for f :: "string option \<Rightarrow> (mem pub, publish_session) prog"
    by (simp add: sbind_def [of "sbind _ _"] sbind_on_remote(1) [where m = "acquire_lease env plan", OF acq])
  with out ids lease run have fin: "remote_st p' = remote_st p2"
    "session = \<lparr> ps_operation_id = ?op, ps_target_branch_token = ?tok,
       ps_expected_ref_version = pp_expected_ref_version plan,
       ps_planned_snapshot_id = pp_planned_snapshot_id plan,
       ps_writer_mode = effective_writer_mode ?cap risky,
       ps_started_at = of_nat (clock (remote_st p)), ps_observed_layout_root_generation = None,
       ps_next_layout_root = None, ps_next_layout_root_bytes = None,
       ps_active_intent_path = intent_path ?op, ps_lease_path = Some lp \<rparr>"
    by (auto simp: begin_publish_def Let_def needs_lease_def)
  have view: "mem_view (remote_st p') lp = mem_view s1 lp"
    "\<And>q. q \<noteq> lp \<Longrightarrow> q \<noteq> intent_path ?op \<Longrightarrow> q \<noteq> probe_path \<Longrightarrow>
       mem_view (remote_st p') q = mem_view (remote_st p) q"
    using fin(1) p2 after(2) lp by auto
  have "session_ok session" by (simp add: session_ok_def fin(2) lp)
  moreover have "\<exists>m. marker_at (intent_json env) (mem_view (remote_st p')) (intent_path ?op) = Some m \<and>
      validate_intent_marker m session [] = Inr ()"
    using on_memoryD(4) [OF mem]
    by (simp add: marker_at_def fin p2 build_write_intent_marker_def validate_intent_marker_def)
  moreover have "\<exists>m. marker_at (lease_json env) (mem_view (remote_st p')) lp = Some m \<and>
      lm_operation_id m = ?op \<and> lm_target_branch_token m = ?tok \<and>
      snd (the (mem_view (remote_st p') lp)) = clock (remote_st p)"
    using on_memoryD(5) [OF mem] after(1)
    by (simp add: marker_at_def view(1) build_writer_lease_marker_def)
  ultimately show ?thesis
    using before view(2) unfolding memory.stale_at_def intent_expiry_hours_def
    by (simp add: fin(2)) metis
qed

text \<open>Conversely, a begin succeeds as soon as the lease can be acquired.\<close>

lemma begin_after_acquire:
  assumes mem: "on_memory env ref_json root_json" and lease: "needs_lease env risky"
    and time: "clock (remote_st p) < 2 ^ 64"
    and ids: "validate_sync_identifier (pp_target_branch_token plan) = Inr ()"
    and acq: "acquire_lease env plan (remote_st p) = (Inr lp, s1)"
    and s1: "mem_ok s1" "clock s1 = clock (remote_st p)"
    and lp: "lp = lease_path_for (pp_target_branch_token plan)"
  shows "\<exists>session p'. begin_publish env plan risky p = (Inr session, p') \<and> mem_ok (remote_st p') \<and>
    clock (remote_st p') = clock (remote_st p) \<and> session_ok session \<and>
    ps_lease_path session = Some lp \<and> ps_operation_id session = pp_operation_id plan \<and>
    ps_target_branch_token session = pp_target_branch_token plan \<and>
    mem_view (remote_st p') lp = mem_view s1 lp"
proof -
  note R = on_memoryD(1) [OF mem]
  let ?p1 = "p\<lparr> remote_st := s1 \<rparr>" and ?cap = "capability env"
  have p1: "mem_ok (remote_st ?p1)" "clock (remote_st ?p1) < 2 ^ 64" using s1 time by simp_all
  note w = write_intent_effect [OF p1(1) R p1(2), of "pp_operation_id plan"
      "\<lambda>obs. to_vec (intent_json env) (build_write_intent_marker (client_version env) plan obs 1)"
      "supports_reliable_remote_time ?cap \<or> supports_object_generation_or_etag ?cap"]
  have "sbind (sbind (on_remote (acquire_lease env plan)) (\<lambda>p. sret (Some p))) f p = f (Some lp) ?p1"
    for f :: "string option \<Rightarrow> (mem pub, publish_session) prog"
    by (simp add: sbind_def [of "sbind _ _"] sbind_on_remote(1) [where m = "acquire_lease env plan", OF acq])
  with w ids lease s1 lp show ?thesis
    by (auto simp: begin_publish_def Let_def needs_lease_def session_ok_def)
qed

lemma begin_from_free_lease:
  assumes "on_memory env ref_json root_json" "mem_ok (remote_st p)" "needs_lease env risky"
    "clock (remote_st p) < 2 ^ 64"
    "validate_sync_identifier (pp_target_branch_token plan) = Inr ()"
    and free: "mem_view (remote_st p) (lease_path_for (pp_target_branch_token plan)) = None"
  shows "\<exists>session p'. begin_publish env plan risky p = (Inr session, p') \<and> mem_ok (remote_st p') \<and>
    clock (remote_st p') = clock (remote_st p) \<and> session_ok session \<and>
    ps_lease_path session = Some (lease_path_for (pp_target_branch_token plan)) \<and>
    ps_operation_id session = pp_operation_id plan \<and>
    ps_target_branch_token session = pp_target_branch_token plan \<and>
    mem_view (remote_st p') (lease_path_for (pp_target_branch_token plan)) =
      Some (to_vec (lease_json env) (build_writer_lease_marker plan (of_nat (clock (remote_st p))) 1 1),
            clock (remote_st p))"
proof -
  obtain s1 where s1: "acquire_lease env plan (remote_st p) =
      (Inr (lease_path_for (pp_target_branch_token plan)), s1)" "mem_ok s1" "clock s1 = clock (remote_st p)"
    "mem_view s1 (lease_path_for (pp_target_branch_token plan)) =
      Some (to_vec (lease_json env) (build_writer_lease_marker plan (of_nat (clock (remote_st p))) 1 1),
            clock (remote_st p))"
    using memory.acquire_lease_free [OF assms(2) on_memoryD(1) [OF assms(1)] assms(4) free] by auto
  from begin_after_acquire [OF assms(1,3,4,5) s1(1,2,3) refl] s1(4) show ?thesis by simp
qed

lemma begin_takeover:
  assumes "on_memory env ref_json root_json" "mem_ok (remote_st p)" "needs_lease env risky"
    "clock (remote_st p) < 2 ^ 64"
    "validate_sync_identifier (pp_target_branch_token plan) = Inr ()"
    and v: "mem_view (remote_st p) (lease_path_for (pp_target_branch_token plan)) = Some (b, t)"
    and stale: "72 * 3600 * 1000 < clock (remote_st p) - t"
    and own: "\<And>m. from_slice (lease_json env) b = Some m \<Longrightarrow>
      lm_target_branch_token m = pp_target_branch_token plan"
  shows "\<exists>session p'. begin_publish env plan risky p = (Inr session, p') \<and> mem_ok (remote_st p') \<and>
    clock (remote_st p') = clock (remote_st p) \<and> session_ok session \<and>
    ps_lease_path session = Some (lease_path_for (pp_target_branch_token plan)) \<and>
    ps_operation_id session = pp_operation_id plan \<and>
    ps_target_branch_token session = pp_target_branch_token plan \<and>
    mem_view (remote_st p') (lease_path_for (pp_target_branch_token plan)) =
      Some (to_vec (lease_json env) (build_writer_lease_marker plan (of_nat (clock (remote_st p))) 1 1),
            clock (remote_st p))"
proof -
  have "\<not> clock (remote_st p) - t \<le> intent_expiry_hours * 3600 * 1000"
    using stale by (simp add: intent_expiry_hours_def)
  from memory.acquire_lease_stale [OF assms(2) on_memoryD(1) [OF assms(1)] assms(4) v this] own
  obtain s1 where s1: "acquire_lease env plan (remote_st p) =
      (Inr (lease_path_for (pp_target_branch_token plan)), s1)" "mem_ok s1" "clock s1 = clock (remote_st p)"
    "mem_view s1 (lease_path_for (pp_target_branch_token plan)) =
      Some (to_vec (lease_json env) (build_writer_lease_marker plan (of_nat (clock (remote_st p))) 1 1),
            clock (remote_st p))"
    by (auto split: option.splits if_splits)
  from begin_after_acquire [OF assms(1,3,4,5) s1(1,2,3) refl] s1(4) show ?thesis by simp
qed

theorem begin_takes_lease_witness:
  "\<exists>session p'. begin_publish (sample_env sample_capability) (sample_plan ''o1'') False
       (sample_pub (mem_new 5)) = (Inr session, p') \<and> session_ok session"
proof -
  let ?p = "sample_pub (mem_new 5)" and ?env = "sample_env sample_capability"
  have p: "mem_ok (remote_st ?p)" "clock (remote_st ?p) < 2 ^ 64"
    by (simp_all add: sample_pub_def) (simp add: mem_new_def)
  have "validate_sync_identifier (pp_target_branch_token (sample_plan ''o1'')) = Inr ()"
    by (simp add: sample_plan_def sample_branch)
  moreover have "mem_view (remote_st ?p) q = None" for q
    by (simp add: sample_pub_def mem_view_def mem_new_def)
  ultimately obtain session p' where
    out: "begin_publish ?env (sample_plan ''o1'') False ?p = (Inr session, p')"
    using begin_from_free_lease [OF sample_on_memory p(1) sample_needs_lease p(2)] by metis
  from begin_takes_lease [OF sample_on_memory p(1) sample_needs_lease p(2) out]
  show ?thesis using out by blast
qed

section \<open>Heartbeats\<close>

lemma on_memory_run:
  "sbind (on_remote m) f p = (Inr x, p') \<Longrightarrow> \<exists>y s'. m (remote_st p) = (Inr y, s') \<and>
     f y (p\<lparr> remote_st := s' \<rparr>) = (Inr x, p')"
  by (cases "m (remote_st p)") (auto simp: sbind_def on_remote_def split: sum.splits)

text \<open>C6: A heartbeat renews only what the session owns. When it succeeds, the intent and (if the
  session has one) the lease are the session's own markers, stamped and written now, and nothing
  but these and the time probe changed. When the lease file holds another operation's marker, the
  heartbeat fails and the lease file is left as it was.\<close>

theorem heartbeat_renews_own:
  assumes "on_memory env ref_json root_json" and "mem_ok (remote_st p)" and "session_ok session"
    and "bt_ok (observed_local p)"
  shows "(\<forall>p'. heartbeat env session p = (Inr (), p') \<longrightarrow>
      (\<exists>m. marker_at (intent_json env) (mem_view (remote_st p')) (ps_active_intent_path session) = Some m \<and>
         im_operation_id m = ps_operation_id session \<and>
         hb_observed_at (im_heartbeat m) = of_nat (clock (remote_st p))) \<and>
      (\<forall>lp. ps_lease_path session = Some lp \<longrightarrow>
         (\<exists>m. marker_at (lease_json env) (mem_view (remote_st p')) lp = Some m \<and>
            lm_operation_id m = ps_operation_id session \<and>
            snd (the (mem_view (remote_st p') lp)) = clock (remote_st p))) \<and>
      (\<forall>q. q \<noteq> ps_active_intent_path session \<longrightarrow> Some q \<noteq> ps_lease_path session \<longrightarrow> q \<noteq> probe_path \<longrightarrow>
         mem_view (remote_st p') q = mem_view (remote_st p) q) \<and>
      map_of (observed_local p') (ps_operation_id session) = Some (local_now p)) \<and>
    (\<forall>lp m r p'. ps_lease_path session = Some lp \<longrightarrow>
       marker_at (lease_json env) (mem_view (remote_st p)) lp = Some m \<longrightarrow>
       lm_operation_id m \<noteq> ps_operation_id session \<longrightarrow>
       heartbeat env session p = (r, p') \<longrightarrow>
       (\<exists>e. r = Inl e) \<and> mem_view (remote_st p') lp = mem_view (remote_st p) lp)"
proof (rule conjI; intro allI impI)
  fix p' assume "heartbeat env session p = (Inr (), p')"
  then obtain s' where run: "heartbeat_remote env session (remote_st p) = (Inr (), s')"
    and p': "p' = p\<lparr> remote_st := s', observed_local :=
      bt_insert (ps_operation_id session) (local_now p) (observed_local p) \<rparr>"
    by (auto simp: heartbeat_def record_heartbeat_observed_now_def dest!: on_memory_run)
  show "(\<exists>m. marker_at (intent_json env) (mem_view (remote_st p')) (ps_active_intent_path session) = Some m \<and>
         im_operation_id m = ps_operation_id session \<and>
         hb_observed_at (im_heartbeat m) = of_nat (clock (remote_st p))) \<and>
      (\<forall>lp. ps_lease_path session = Some lp \<longrightarrow>
         (\<exists>m. marker_at (lease_json env) (mem_view (remote_st p')) lp = Some m \<and>
            lm_operation_id m = ps_operation_id session \<and>
            snd (the (mem_view (remote_st p') lp)) = clock (remote_st p))) \<and>
      (\<forall>q. q \<noteq> ps_active_intent_path session \<longrightarrow> Some q \<noteq> ps_lease_path session \<longrightarrow> q \<noteq> probe_path \<longrightarrow>
         mem_view (remote_st p') q = mem_view (remote_st p) q) \<and>
      map_of (observed_local p') (ps_operation_id session) = Some (local_now p)"
    using memory.heartbeat_remote_effect [OF assms(2) on_memoryD(1,4,5) [OF assms(1)] assms(3) run] assms(4)
    by (auto simp: p' map_of_bt_insert)
next
  fix lp m r p'
  assume lease: "ps_lease_path session = Some lp"
    "marker_at (lease_json env) (mem_view (remote_st p)) lp = Some m"
    "lm_operation_id m \<noteq> ps_operation_id session" and run: "heartbeat env session p = (r, p')"
  obtain r0 s' where r0: "heartbeat_remote env session (remote_st p) = (r0, s')" by fastforce
  from memory.heartbeat_foreign_lease [OF assms(2) on_memoryD(1,4) [OF assms(1)] assms(3) lease r0]
  obtain e where e: "r0 = Inl e" "mem_view s' lp = mem_view (remote_st p) lp" by blast
  with run r0 have "r = Inl e" "p' = p\<lparr> remote_st := s' \<rparr>"
    by (auto simp: heartbeat_def sbind_on_remote(2))
  with e show "(\<exists>e. r = Inl e) \<and> mem_view (remote_st p') lp = mem_view (remote_st p) lp" by auto
qed

definition sample_session :: "string option \<Rightarrow> publish_session" where
  "sample_session lease = \<lparr> ps_operation_id = ''o1'', ps_target_branch_token = ''b'',
     ps_expected_ref_version = None, ps_planned_snapshot_id = None, ps_writer_mode = SingleWriter,
     ps_started_at = 0, ps_observed_layout_root_generation = None, ps_next_layout_root = None,
     ps_next_layout_root_bytes = None, ps_active_intent_path = intent_path ''o1'',
     ps_lease_path = lease \<rparr>"

lemma sample_session_ok: "session_ok (sample_session None)"
  "session_ok (sample_session (Some (lease_path_for ''b'')))"
  by (simp_all add: session_ok_def sample_session_def)

text \<open>A backend on which another operation, \<open>o2\<close>, holds the lease of the branch.\<close>

definition foreign_lease_mem :: mem where
  "foreign_lease_mem = snd (put_physical (lease_path_for ''b'')
     (to_vec unary_codec (build_writer_lease_marker (sample_plan ''o2'') 0 1 1)) (mem_new 5))"

lemma foreign_lease_mem_ok: "mem_ok foreign_lease_mem"
  by (simp add: foreign_lease_mem_def mem_ok_put)

lemma foreign_lease_marker:
  "marker_at unary_codec (mem_view foreign_lease_mem) (lease_path_for ''b'') =
     Some (build_writer_lease_marker (sample_plan ''o2'') 0 1 1)"
proof -
  have "mem_view foreign_lease_mem (lease_path_for ''b'') =
      Some (to_vec unary_codec (build_writer_lease_marker (sample_plan ''o2'') 0 1 1), 5)"
    by (simp add: foreign_lease_mem_def mem_view_def put_physical_def mem_new_def)
  then show ?thesis by (simp only: marker_at_def option.case fst_conv serde_okD [OF serde_ok_unary])
qed

theorem heartbeat_renews_own_witness:
  "\<exists>e p'. heartbeat (sample_env sample_capability) (sample_session (Some (lease_path_for ''b'')))
     (sample_pub foreign_lease_mem) = (Inl e, p') \<and>
     mem_view (remote_st p') (lease_path_for ''b'') = mem_view foreign_lease_mem (lease_path_for ''b'')"
proof -
  let ?p = "sample_pub foreign_lease_mem"
  have p: "mem_ok (remote_st ?p)" "bt_ok (observed_local ?p)" "remote_st ?p = foreign_lease_mem"
    by (simp_all add: sample_pub_def foreign_lease_mem_ok)
  obtain r p' where run: "heartbeat (sample_env sample_capability)
      (sample_session (Some (lease_path_for ''b''))) ?p = (r, p')" by fastforce
  have "ps_lease_path (sample_session (Some (lease_path_for ''b''))) = Some (lease_path_for ''b'')"
    "marker_at (lease_json (sample_env sample_capability)) (mem_view (remote_st ?p)) (lease_path_for ''b'') =
      Some (build_writer_lease_marker (sample_plan ''o2'') 0 1 1)"
    "lm_operation_id (build_writer_lease_marker (sample_plan ''o2'') 0 1 1) \<noteq>
      ps_operation_id (sample_session (Some (lease_path_for ''b'')))"
    by (simp_all add: sample_session_def sample_env_def p foreign_lease_marker)
      (simp add: build_writer_lease_marker_def sample_plan_def)
  with heartbeat_renews_own [OF sample_on_memory p(1) sample_session_ok(2) p(2)] run
  have "(\<exists>e. r = Inl e) \<and> mem_view (remote_st p') (lease_path_for ''b'') =
      mem_view (remote_st ?p) (lease_path_for ''b'')" by blast
  with run p show ?thesis by auto
qed

section \<open>The commit\<close>

text \<open>What a passed pre-commit check establishes. In the state it leaves, the intent and (if the
  session has one) the lease on the backend are this session's own; if the session expects a
  version of the branch reference, the reference exists with exactly that version, so publishing
  in that state is applied and moves the reference on by one; and the check changed no file other
  than its two markers and the time probe.\<close>

theorem pre_commit_verify_sound:
  assumes mem: "on_memory env ref_json root_json" and ok: "mem_ok (remote_st p)" and session: "session_ok session"
    and out: "pre_commit_verify env session p = (Inr (), p')"
  shows "(\<exists>m. marker_at (intent_json env) (mem_view (remote_st p')) (ps_active_intent_path session) = Some m \<and>
       im_operation_id m = ps_operation_id session) \<and>
    (\<forall>lp. ps_lease_path session = Some lp \<longrightarrow>
       (\<exists>m. marker_at (lease_json env) (mem_view (remote_st p')) lp = Some m \<and>
          lm_operation_id m = ps_operation_id session)) \<and>
    (\<forall>v. ps_expected_ref_version session = Some v \<longrightarrow>
       (\<exists>cur. read_ref ref_json (ps_target_branch_token session) (remote_st p') = Inr (Some cur) \<and>
          ref_version cur = v)) \<and>
    (\<forall>v next r p''. ps_expected_ref_version session = Some v \<longrightarrow>
       publish_ref env session next p' = (Inr r, p'') \<longrightarrow>
       applied r \<and> current r = Some \<lparr> ref_version = v + 1, ref_value = next \<rparr>) \<and>
    (\<forall>q. q \<noteq> ps_active_intent_path session \<longrightarrow> Some q \<noteq> ps_lease_path session \<longrightarrow> q \<noteq> probe_path \<longrightarrow>
       mem_view (remote_st p') q = mem_view (remote_st p) q)"
proof -
  note R = on_memoryD(1) [OF mem]
  from out obtain s' renew where run: "pre_commit_remote env session renew (remote_st p) = (Inr (), s')"
    and p': "remote_st p' = s'"
    by (auto simp: pre_commit_verify_def Let_def record_heartbeat_observed_now_def
        dest!: on_memory_run split: if_splits)
  note eff = memory_blobs.pre_commit_remote_effect [OF ok R on_memoryD(4,5) [OF mem] session run]
  have ref: "\<exists>cur. read_ref ref_json (ps_target_branch_token session) s' = Inr (Some cur) \<and> ref_version cur = v"
    if "ps_expected_ref_version session = Some v" for v
    using eff that R
    by (auto simp: check_expected_ref_def rbind_Inr_iff ok_or_Inr_iff memory_remote_def split: if_splits)
  have "applied r \<and> current r = Some \<lparr> ref_version = v + 1, ref_value = nxt \<rparr>"
    if v: "ps_expected_ref_version session = Some v" and pub: "publish_ref env session nxt p' = (Inr r, p'')"
    for v nxt r p''
  proof -
    let ?tok = "ps_target_branch_token session"
    from ref [OF v] obtain cur where cur: "read_ref ref_json ?tok s' = Inr (Some cur)" "ref_version cur = v"
      by blast
    from pub have "fst (r_cas_ref (backend env) ?tok (Some v) nxt s') = Inr r"
      by (cases "validate_sync_identifier ?tok") (auto simp: publish_ref_def on_remote_def p' v)
    then obtain s'' where "r_cas_ref (backend env) ?tok (Some v) nxt s' = (Inr r, s'')"
      by (metis prod.collapse)
    then have "compare_and_swap_ref ref_json ?tok (Some v) nxt s' = (Inr r, s'')"
      by (simp add: R memory_remote_def)
    then show ?thesis
      by (cases rule: cas_ref_cases) (use cur in \<open>auto simp: ref_matches_def next_version_def\<close>)
  qed
  with eff ref p' show ?thesis by blast
qed

definition intent_mem :: mem where
  "intent_mem = snd (put_physical (intent_path ''o1'')
     (to_vec unary_codec (build_write_intent_marker ''1'' (sample_plan ''o1'') 0 1)) (mem_new 5))"

theorem pre_commit_verify_sound_witness:
  "\<exists>p'. pre_commit_verify (sample_env sample_capability) (sample_session None)
     (\<lparr> remote_st = intent_mem, observed_local = [(''o1'', 0)], local_now = 1 \<rparr>) = (Inr (), p') \<and>
     (\<exists>m. marker_at (unary_codec :: write_intent_marker serde) (mem_view (remote_st p')) (intent_path ''o1'') = Some m \<and>
        im_operation_id m = ''o1'')"
proof -
  let ?p = "\<lparr> remote_st = intent_mem, observed_local = [(''o1'', 0)], local_now = 1 \<rparr>"
  let ?m = "build_write_intent_marker ''1'' (sample_plan ''o1'') 0 1"
  have get: "get_physical (intent_path ''o1'') intent_mem = Inr (to_vec unary_codec ?m)"
    by (simp add: intent_mem_def get_physical_def put_physical_def mem_new_def)
  have valid: "validate_intent_marker ?m (sample_session None) ''pre-commit verify failed'' = Inr ()"
    by (simp add: validate_intent_marker_def build_write_intent_marker_def sample_plan_def sample_session_def)
  let ?env = "sample_env sample_capability"
  have env: "backend ?env = memory_remote unary_codec unary_codec" "intent_json ?env = unary_codec"
    by (simp_all add: sample_env_def)
  have path: "ps_active_intent_path (sample_session None) = intent_path ''o1''"
    "ps_lease_path (sample_session None) = None" "ps_operation_id (sample_session None) = ''o1''"
    "ps_expected_ref_version (sample_session None) = None"
    by (simp_all add: sample_session_def)
  have load: "load_or_recover_intent ?env (intent_path ''o1'') (sample_session None)
      ''pre-commit verify failed'' intent_mem = (Inr ?m, intent_mem)"
    unfolding load_or_recover_intent_def Let_def env
    by (simp add: memory_remote_def get unary_roundtrip valid)
  have "pre_commit_remote ?env (sample_session None) False intent_mem = (Inr (), intent_mem)"
    by (simp add: pre_commit_remote_def path sbind_Inr [where m = "load_or_recover_intent _ _ _ _", OF load]
        check_expected_ref_def Let_def)
  moreover have "\<not> should_renew_heartbeat (ps_operation_id (sample_session None)) (local_now ?p) ?p"
    by (simp add: should_renew_heartbeat_def heartbeat_renewal_interval_def path)
  ultimately have out: "pre_commit_verify ?env (sample_session None) ?p = (Inr (), ?p)"
    by (simp add: pre_commit_verify_def Let_def sbind_def on_remote_def)
  have "mem_ok (remote_st ?p)" by (simp add: intent_mem_def mem_ok_put)
  from conjunct1 [OF pre_commit_verify_sound [OF sample_on_memory this sample_session_ok(1) out]]
  have "\<exists>m. marker_at (unary_codec :: write_intent_marker serde) (mem_view (remote_st ?p)) (intent_path ''o1'') = Some m \<and>
      im_operation_id m = ''o1''"
    unfolding env path .
  with out show ?thesis by (intro exI [of _ ?p] conjI)
qed

section \<open>Completing and cleaning up\<close>

lemma complete_effect:
  assumes mem: "on_memory env ref_json root_json" and ok: "mem_ok (remote_st p)"
  shows "\<exists>p'. complete env session p = (Inr (), p') \<and> mem_ok (remote_st p') \<and>
    clock (remote_st p') = clock (remote_st p) \<and>
    (\<forall>q. mem_view (remote_st p') q =
       (if q = ps_active_intent_path session \<or> Some q = ps_lease_path session then None
        else mem_view (remote_st p) q))"
proof -
  let ?R = "memory_remote ref_json root_json"
  note R = on_memoryD(1) [OF mem]
  obtain s1 where d1: "r_delete ?R (ps_active_intent_path session) (remote_st p) = (Inr (), s1)"
    and s1: "mem_ok s1" "mem_view s1 = (mem_view (remote_st p))(ps_active_intent_path session := None)"
      "clock s1 = clock (remote_st p)"
    using memory.delete [OF ok] by blast
  show ?thesis
  proof (cases "ps_lease_path session")
    case None
    with d1 s1 show ?thesis
      by (auto simp: complete_def R sbind_def on_remote_def clear_heartbeat_state_def)
  next
    case (Some lp)
    obtain s2 where d2: "r_delete ?R lp s1 = (Inr (), s2)"
      and s2: "mem_ok s2" "mem_view s2 = (mem_view s1)(lp := None)" "clock s2 = clock s1"
      using memory.delete [OF s1(1)] by blast
    with d1 s1 Some show ?thesis
      by (auto simp: complete_def R sbind_def on_remote_def clear_heartbeat_state_def)
  qed
qed

lemma cleanup_keeps_foreign:
  assumes mem: "on_memory env ref_json root_json" and ok: "mem_ok s"
    and lease: "marker_at (lease_json env) (mem_view s) (lease_path_for tok) = Some m"
    and foreign: "lm_operation_id m \<noteq> op"
  shows "\<exists>s'. cleanup_completed_operation_markers env op tok s = (Inr (), s') \<and>
    mem_view s' = (mem_view s)(intent_path op := None)"
proof -
  let ?R = "memory_remote ref_json root_json"
  note R = on_memoryD(1) [OF mem]
  obtain s1 where d1: "r_delete ?R (intent_path op) s = (Inr (), s1)"
    and s1: "mem_ok s1" "mem_view s1 = (mem_view s)(intent_path op := None)"
    using memory.delete [OF ok] by blast
  obtain b t where b: "mem_view s1 (lease_path_for tok) = Some (b, t)" "from_slice (lease_json env) b = Some m"
    using lease s1 by (auto simp: marker_at_Some_iff)
  have "r_get ?R (lease_path_for tok) s1 = Inr b" by (rule memory.get_some [OF s1(1) b(1)])
  with d1 b foreign have "cleanup_completed_operation_markers env op tok s = (Inr (), s1)"
    by (simp add: cleanup_completed_operation_markers_def Let_def R delete_ignoring_missing_def sbind_def)
  with s1 show ?thesis by blast
qed

text \<open>C7: Completing an operation removes the branch lease whoever holds it, while the clean-up that
  \<^verbatim>\<open>push.rs\<close> runs after a finished operation checks the owner. On a backend whose lease file is
  another operation's readable marker, \<^verbatim>\<open>complete\<close> leaves no lease, and
  \<^verbatim>\<open>cleanup_completed_operation_markers\<close> leaves the lease as it was.\<close>

theorem complete_drops_foreign_lease:
  assumes "on_memory env ref_json root_json" and "mem_ok (remote_st p)" and "session_ok session"
    and "ps_lease_path session = Some lp"
    and "marker_at (lease_json env) (mem_view (remote_st p)) lp = Some m"
    and "lm_operation_id m \<noteq> ps_operation_id session"
  shows "(\<exists>p'. complete env session p = (Inr (), p') \<and> mem_view (remote_st p') lp = None) \<and>
    (\<exists>s'. cleanup_completed_operation_markers env (ps_operation_id session)
        (ps_target_branch_token session) (remote_st p) = (Inr (), s') \<and>
       mem_view s' lp = mem_view (remote_st p) lp)"
proof
  show "\<exists>p'. complete env session p = (Inr (), p') \<and> mem_view (remote_st p') lp = None"
    using complete_effect [OF assms(1,2), of session] assms(4) by force
  have lp: "lp = lease_path_for (ps_target_branch_token session)"
    using assms(3,4) by (simp add: session_ok_def)
  show "\<exists>s'. cleanup_completed_operation_markers env (ps_operation_id session)
      (ps_target_branch_token session) (remote_st p) = (Inr (), s') \<and>
      mem_view s' lp = mem_view (remote_st p) lp"
    using cleanup_keeps_foreign [OF assms(1,2) assms(5) [unfolded lp] assms(6)]
    by (auto simp: lp)
qed

theorem complete_drops_foreign_lease_witness:
  "\<exists>p'. complete (sample_env sample_capability) (sample_session (Some (lease_path_for ''b'')))
     (sample_pub foreign_lease_mem) = (Inr (), p') \<and>
     mem_view (remote_st p') (lease_path_for ''b'') = None \<and>
     mem_view foreign_lease_mem (lease_path_for ''b'') \<noteq> None"
proof -
  let ?p = "sample_pub foreign_lease_mem"
  have p: "mem_ok (remote_st ?p)" "remote_st ?p = foreign_lease_mem"
    by (simp_all add: sample_pub_def foreign_lease_mem_ok)
  have "ps_lease_path (sample_session (Some (lease_path_for ''b''))) = Some (lease_path_for ''b'')"
    and m: "marker_at (lease_json (sample_env sample_capability)) (mem_view (remote_st ?p)) (lease_path_for ''b'') =
      Some (build_writer_lease_marker (sample_plan ''o2'') 0 1 1)"
    and "lm_operation_id (build_writer_lease_marker (sample_plan ''o2'') 0 1 1) \<noteq>
      ps_operation_id (sample_session (Some (lease_path_for ''b'')))"
    by (simp_all add: sample_session_def sample_env_def p foreign_lease_marker)
      (simp add: build_writer_lease_marker_def sample_plan_def)
  from complete_drops_foreign_lease [OF sample_on_memory p(1) sample_session_ok(2) this] m p
  show ?thesis by (auto simp: marker_at_Some_iff)
qed

text \<open>C8: How that breaks the exclusion. Three writers \<open>o1\<close>, \<open>o2\<close>, \<open>o3\<close> use one branch. \<open>o1\<close> begins
  and is silent for 73 hours; \<open>o2\<close> takes the stale lease over; \<open>o1\<close> then completes; and \<open>o3\<close>
  begins at once, at the very time at which \<open>o2\<close> wrote its lease, although \<open>o2\<close> has not
  completed.\<close>

theorem stale_completion_breaks_exclusion:
  "\<exists>s1 p1 s2 p2 p3 s3 p4.
     begin_publish (sample_env sample_capability) (sample_plan ''o1'') False (sample_pub (mem_new 0)) = (Inr s1, p1) \<and>
     begin_publish (sample_env sample_capability) (sample_plan ''o2'') False
       (sample_pub ((remote_st p1)\<lparr> clock := 73 * 3600 * 1000 \<rparr>)) = (Inr s2, p2) \<and>
     complete (sample_env sample_capability) s1 (p1\<lparr> remote_st := remote_st p2 \<rparr>) = (Inr (), p3) \<and>
     begin_publish (sample_env sample_capability) (sample_plan ''o3'') False
       (sample_pub (remote_st p3)) = (Inr s3, p4) \<and>
     clock (remote_st p4) = 73 * 3600 * 1000 \<and> ps_operation_id s2 = ''o2'' \<and> ps_operation_id s3 = ''o3'' \<and>
     ps_lease_path s2 = ps_lease_path s3"
proof -
  let ?env = "sample_env sample_capability" and ?lp = "lease_path_for ''b''"
  let ?T = "73 * 3600 * 1000 :: nat"
  have plan: "pp_target_branch_token (sample_plan op) = ''b''" "pp_operation_id (sample_plan op) = op" for op
    by (simp_all add: sample_plan_def)
  have ids: "validate_sync_identifier (pp_target_branch_token (sample_plan op)) = Inr ()" for op
    by (simp add: plan sample_branch)
  have json: "lease_json ?env = unary_codec" by (simp add: sample_env_def)
  have pub: "remote_st (sample_pub s) = s" for s by (simp add: sample_pub_def)
  have "mem_view (mem_new 0) ?lp = None" "clock (mem_new 0) < 2 ^ 64"
    by (simp_all add: mem_view_def mem_new_def)
  then obtain s1 p1 where b1: "begin_publish ?env (sample_plan ''o1'') False (sample_pub (mem_new 0)) = (Inr s1, p1)"
    and p1: "mem_ok (remote_st p1)" and s1: "session_ok s1" "ps_lease_path s1 = Some ?lp"
    and v1: "mem_view (remote_st p1) ?lp = Some (to_vec unary_codec
      (build_writer_lease_marker (sample_plan ''o1'') (of_nat (clock (mem_new 0))) 1 1), clock (mem_new 0))"
    using begin_from_free_lease [OF sample_on_memory _ sample_needs_lease _ ids, of "sample_pub (mem_new 0)" "''o1''"]
    by (auto simp: pub plan json)
  let ?s = "(remote_st p1)\<lparr> clock := ?T \<rparr>"
  have s: "mem_ok ?s" "mem_view ?s ?lp = mem_view (remote_st p1) ?lp" "clock ?s = ?T"
    using p1 by (simp_all add: mem_ok_def mem_view_def)
  have "from_slice (lease_json ?env) (to_vec unary_codec
      (build_writer_lease_marker (sample_plan ''o1'') (of_nat (clock (mem_new 0))) 1 1)) = Some m \<Longrightarrow>
      lm_target_branch_token m = pp_target_branch_token (sample_plan ''o2'')" for m
    unfolding json unary_roundtrip by (auto simp: build_writer_lease_marker_def plan)
  moreover have "clock (mem_new 0) = 0" by (simp add: mem_new_def)
  ultimately obtain s2 p2 where
    b2: "begin_publish ?env (sample_plan ''o2'') False (sample_pub ?s) = (Inr s2, p2)"
    and p2: "mem_ok (remote_st p2)" "clock (remote_st p2) = ?T"
    and s2: "ps_lease_path s2 = Some ?lp" "ps_operation_id s2 = ''o2''"
    using begin_takeover [OF sample_on_memory _ sample_needs_lease _ ids, of "sample_pub ?s" "''o2''"] s v1
    by (auto simp: pub plan)
  obtain p3 where c: "complete ?env s1 (p1\<lparr> remote_st := remote_st p2 \<rparr>) = (Inr (), p3)"
    and p3: "mem_ok (remote_st p3)" "clock (remote_st p3) = ?T" "mem_view (remote_st p3) ?lp = None"
    using complete_effect [OF sample_on_memory, of "p1\<lparr> remote_st := remote_st p2 \<rparr>" sample_capability s1] p2 s1
    by auto
  obtain s3 p4 where "begin_publish ?env (sample_plan ''o3'') False (sample_pub (remote_st p3)) = (Inr s3, p4)"
    "clock (remote_st p4) = ?T" "ps_lease_path s3 = Some ?lp" "ps_operation_id s3 = ''o3''"
    using begin_from_free_lease [OF sample_on_memory _ sample_needs_lease _ ids, of "sample_pub (remote_st p3)" "''o3''"] p3
    by (auto simp: pub plan)
  with b1 b2 c s2 show ?thesis by metis
qed

end
