(* ===== verification/Envelope.thy ===== *)
theory Envelope
  imports Remote
begin

text \<open>
  Encrypted objects and control records: the envelope codec and the direct object store
  (\<^verbatim>\<open>e2v-store/src/logical_object_store.rs\<close>), and the encrypted control records of the
  repository (\<^verbatim>\<open>e2v-core/src/facade.rs\<close>). Keyed BLAKE3, XChaCha20-Poly1305 and the random
  source are parameters; what is used of them is \<open>crypto_ok\<close>. The files below the control
  directory are a map from relative paths to contents.
\<close>

section \<open>Cryptography, a parameter of the model\<close>

record crypto =
  keyed_hash :: "byte list \<Rightarrow> byte list \<Rightarrow> byte list"
  aead_seal :: "byte list \<Rightarrow> byte list \<Rightarrow> byte list \<Rightarrow> byte list \<Rightarrow> (byte list \<times> byte list) option"
  aead_open :: "byte list \<Rightarrow> byte list \<Rightarrow> byte list \<Rightarrow> byte list \<Rightarrow> byte list \<Rightarrow> byte list option"

text \<open>
  Documented behaviour: a hash has 32 bytes, a tag 16, the ciphertext is as long as the
  plaintext, and opening with the same key, nonce and associated data inverts sealing.
\<close>

definition crypto_ok :: "crypto \<Rightarrow> bool" where
  "crypto_ok C \<longleftrightarrow>
     (\<forall>k m. length (keyed_hash C k m) = 32) \<and>
     (\<forall>k n a p c t. aead_seal C k n a p = Some (c, t) \<longrightarrow>
        length t = 16 \<and> length c = length p \<and> aead_open C k n a c t = Some p)"

text \<open>The random bytes one call draws: \<open>None\<close> when the source fails.\<close>

record random_draw =
  random_seed :: "byte option"
  random_nonce :: "byte list option"

definition draw_ok :: "random_draw \<Rightarrow> bool" where
  "draw_ok r \<longleftrightarrow> (case random_nonce r of None \<Rightarrow> True | Some n \<Rightarrow> length n = 24)"

definition hex_digit :: "nat \<Rightarrow> char" where
  "hex_digit d = (if d < 10 then char_of (48 + d) else char_of (87 + d))"

text \<open>\<^verbatim>\<open>hex::encode\<close>\<close>

fun hex_encode :: "byte list \<Rightarrow> string" where
  "hex_encode [] = []"
| "hex_encode (b # bs) = hex_digit (unat b div 16) # hex_digit (unat b mod 16) # hex_encode bs"

section \<open>Secrets\<close>

record epoch_secrets =
  manifest_enc_key :: "byte list"
  nonce_key :: "byte list"

record repo_secrets =
  secrets_repo_id :: string
  active_epoch :: u32
  repo_dedup_key :: "byte list"
  repo_ref_key :: "byte list"
  repo_manifest_enc_key :: "byte list"
  repo_nonce_key :: "byte list"
  repo_path_index_key :: "byte list"
  epoch_keys_of :: "(u32, epoch_secrets) btree"

definition epoch_keys :: "repo_secrets \<Rightarrow> u32 \<Rightarrow> epoch_secrets res" where
  "epoch_keys s epoch = ok_or (Bail ''missing epoch keys for epoch'') (map_of (epoch_keys_of s) epoch)"

definition active_epoch_keys :: "repo_secrets \<Rightarrow> epoch_secrets res" where
  "active_epoch_keys s = epoch_keys s (active_epoch s)"

section \<open>The envelope codec\<close>

definition envelope_magic :: "byte list" where "envelope_magic = as_bytes ''E2V0''"

definition envelope_format_version :: u32 where "envelope_format_version = 1"

definition crypto_suite_name :: string where "crypto_suite_name = ''xchacha20poly1305''"

definition padding_policy_none :: string where "padding_policy_none = ''none''"

definition padding_policy_randomized :: string where
  "padding_policy_randomized = ''randomized-manifest-padding''"

record encrypted_object_envelope =
  env_format_version :: u32
  env_object_type :: string
  env_crypto_suite :: string
  env_key_epoch :: u32
  env_padding_policy :: string
  env_object_id :: string
  env_nonce :: "byte list"
  env_ciphertext :: "byte list"
  env_auth_tag :: "byte list"

text \<open>\<^verbatim>\<open>value.len() as u8\<close> keeps the length modulo 256.\<close>

definition push_string :: "string \<Rightarrow> byte list" where
  "push_string value = of_nat (length value) # as_bytes value"

definition envelope_encode :: "encrypted_object_envelope \<Rightarrow> byte list" where
  "envelope_encode e =
     envelope_magic @ u32_to_le (env_format_version e) @ push_string (env_object_type e) @
     push_string (env_crypto_suite e) @ u32_to_le (env_key_epoch e) @
     push_string (env_padding_policy e) @ push_string (env_object_id e) @ [24] @ env_nonce e @
     u64_to_le (of_nat (length (env_ciphertext e))) @ env_ciphertext e @ env_auth_tag e"

abbreviation auth_failed :: error where
  "auth_failed \<equiv> Bail ''object authentication failed''"

text \<open>Readers take the bytes and the cursor and return what they read and the new cursor.\<close>

definition take_exact :: "byte list \<Rightarrow> nat \<Rightarrow> nat \<Rightarrow> (byte list \<times> nat) res" where
  "take_exact bytes cursor len =
     ensure (len \<le> length bytes - cursor) auth_failed
       (Inr (take len (drop cursor bytes), cursor + len))"

definition take_u8 :: "byte list \<Rightarrow> nat \<Rightarrow> (byte \<times> nat) res" where
  "take_u8 bytes cursor = rbind (take_exact bytes cursor 1) (\<lambda>(s, c). Inr (hd s, c))"

definition take_string :: "byte list \<Rightarrow> nat \<Rightarrow> (string \<times> nat) res" where
  "take_string bytes cursor =
     rbind (take_u8 bytes cursor) (\<lambda>(len, c).
     rbind (take_exact bytes c (unat len)) (\<lambda>(s, c').
     rbind (with_context ''object authentication failed'' (ok_or (Bail ''invalid utf-8'') (from_utf8 s)))
       (\<lambda>v. Inr (v, c'))))"

definition envelope_decode :: "byte list \<Rightarrow> encrypted_object_envelope res" where
  "envelope_decode bytes =
     ensure (4 \<le> length bytes) auth_failed
     (rbind (take_exact bytes 0 4) (\<lambda>(magic, c1).
      ensure (magic = envelope_magic) auth_failed
     (rbind (take_exact bytes c1 4) (\<lambda>(v, c2).
      ensure (u32_from_le v = envelope_format_version) (Bail ''unsupported object format version'')
     (rbind (take_string bytes c2) (\<lambda>(object_type, c3).
      rbind (take_string bytes c3) (\<lambda>(crypto_suite, c4).
      rbind (take_exact bytes c4 4) (\<lambda>(epoch, c5).
      rbind (take_string bytes c5) (\<lambda>(padding_policy, c6).
      rbind (take_string bytes c6) (\<lambda>(object_id, c7).
      rbind (take_u8 bytes c7) (\<lambda>(nonce_len, c8).
      ensure (unat nonce_len = 24) auth_failed
     (rbind (take_exact bytes c8 (unat nonce_len)) (\<lambda>(nonce, c9).
      rbind (take_exact bytes c9 8) (\<lambda>(clen, c10).
      rbind (take_exact bytes c10 (unat (u64_from_le clen))) (\<lambda>(ciphertext, c11).
      rbind (take_exact bytes c11 16) (\<lambda>(auth_tag, c12).
      ensure (c12 = length bytes) auth_failed
     (Inr \<lparr> env_format_version = u32_from_le v, env_object_type = object_type,
            env_crypto_suite = crypto_suite, env_key_epoch = u32_from_le epoch,
            env_padding_policy = padding_policy, env_object_id = object_id, env_nonce = nonce,
            env_ciphertext = ciphertext, env_auth_tag = auth_tag \<rparr>)))))))))))))))))"

section \<open>Padding\<close>

definition padding_policy_for :: "string \<Rightarrow> string" where
  "padding_policy_for object_type =
     (if object_type = ''chunk'' then padding_policy_none else padding_policy_randomized)"

definition apply_padding_policy ::
  "random_draw \<Rightarrow> string \<Rightarrow> byte list \<Rightarrow> string \<Rightarrow> byte list res" where
  "apply_padding_policy rnd object_type plaintext policy =
     (if object_type = ''chunk'' \<or> policy = padding_policy_none then Inr plaintext
      else
        rbind (ok_or (Bail ''failed to obtain random padding seed'') (random_seed rnd)) (\<lambda>seed.
        (let pad_len = unat seed mod 32 + 1
         in Inr (u32_to_le (of_nat pad_len) @ plaintext @ replicate pad_len 0))))"

definition remove_padding_policy :: "string \<Rightarrow> byte list \<Rightarrow> byte list res" where
  "remove_padding_policy policy plaintext =
     (if policy = padding_policy_none then Inr plaintext
      else
        ensure (4 \<le> length plaintext) auth_failed
        (let pad_len = unat (u32_from_le (take 4 plaintext)) in
         ensure (4 + pad_len \<le> length plaintext) auth_failed
         (Inr (take (length plaintext - pad_len - 4) (drop 4 plaintext)))))"

section \<open>The direct object store\<close>

text \<open>The files of the control directory; object paths never nest, so a flat map holds them.\<close>

type_synonym files = "(string, byte list) btree"

definition file_put :: "string \<Rightarrow> byte list \<Rightarrow> (files, unit) prog" where
  "file_put path bytes fs =
     (case resolve_relative_path [] path of
        Inl e \<Rightarrow> (Inl e, fs) | Inr _ \<Rightarrow> (Inr (), bt_insert path bytes fs))"

definition file_get :: "string \<Rightarrow> files \<Rightarrow> byte list res" where
  "file_get path fs =
     rbind (resolve_relative_path [] path) (\<lambda>_.
     with_context ''failed to read object'' (ok_or (Io_not_found path) (map_of fs path)))"

text \<open>\<^verbatim>\<open>std::fs::read\<close>\<close>

definition fs_read :: "string \<Rightarrow> files \<Rightarrow> byte list res" where
  "fs_read path fs = ok_or (Io_not_found path) (map_of fs path)"

definition file_exists :: "string \<Rightarrow> files \<Rightarrow> bool" where
  "file_exists path fs =
     (case resolve_relative_path [] path of Inl e \<Rightarrow> False | Inr _ \<Rightarrow> map_of fs path \<noteq> None)"

definition derive_object_id :: "crypto \<Rightarrow> repo_secrets \<Rightarrow> string \<Rightarrow> byte list \<Rightarrow> string" where
  "derive_object_id C s object_type plaintext =
     hex_encode (keyed_hash C (repo_dedup_key s)
       (as_bytes object_type @ u64_to_le (of_nat (length plaintext)) @ plaintext))"

definition derive_nonce ::
  "crypto \<Rightarrow> repo_secrets \<Rightarrow> string \<Rightarrow> string \<Rightarrow> string \<Rightarrow> byte list res" where
  "derive_nonce C s object_id object_type policy =
     rbind (active_epoch_keys s) (\<lambda>k.
     Inr (take 24 (keyed_hash C (nonce_key k)
       (as_bytes object_id @ as_bytes object_type @ u32_to_le envelope_format_version @ as_bytes policy))))"

definition nonce_for ::
  "crypto \<Rightarrow> random_draw \<Rightarrow> repo_secrets \<Rightarrow> string \<Rightarrow> string \<Rightarrow> string \<Rightarrow> byte list res" where
  "nonce_for C rnd s object_type object_id policy =
     (if object_type = ''chunk'' \<or> policy = padding_policy_none
      then derive_nonce C s object_id object_type policy
      else ok_or (Bail ''failed to obtain random object nonce'') (random_nonce rnd))"

definition associated_data :: "repo_secrets \<Rightarrow> string \<Rightarrow> string \<Rightarrow> string \<Rightarrow> u32 \<Rightarrow> byte list" where
  "associated_data s object_id object_type policy key_epoch =
     envelope_magic @ u32_to_le envelope_format_version @ as_bytes (secrets_repo_id s) @
     as_bytes object_type @ as_bytes object_id @ as_bytes crypto_suite_name @
     u32_to_le key_epoch @ as_bytes policy"

definition encrypt_object ::
  "crypto \<Rightarrow> repo_secrets \<Rightarrow> string \<Rightarrow> string \<Rightarrow> string \<Rightarrow> byte list \<Rightarrow> byte list \<Rightarrow> (byte list \<times> byte list) res" where
  "encrypt_object C s object_id object_type policy nonce plaintext =
     rbind (active_epoch_keys s) (\<lambda>k.
     ok_or (Bail ''failed to encrypt object'')
       (aead_seal C (manifest_enc_key k) nonce
          (associated_data s object_id object_type policy (active_epoch s)) plaintext))"

definition decrypt_object :: "crypto \<Rightarrow> repo_secrets \<Rightarrow> encrypted_object_envelope \<Rightarrow> byte list res" where
  "decrypt_object C s e =
     rbind (epoch_keys s (env_key_epoch e)) (\<lambda>k.
     ok_or auth_failed
       (aead_open C (manifest_enc_key k) (env_nonce e)
          (associated_data s (env_object_id e) (env_object_type e) (env_padding_policy e) (env_key_epoch e))
          (env_ciphertext e) (env_auth_tag e)))"

definition put_object ::
  "crypto \<Rightarrow> random_draw \<Rightarrow> repo_secrets \<Rightarrow> string \<Rightarrow> byte list \<Rightarrow> (files, string) prog" where
  "put_object C rnd s object_type plaintext =
     (let object_id = derive_object_id C s object_type plaintext;
          policy = padding_policy_for object_type
      in
      sbind (slift (apply_padding_policy rnd object_type plaintext policy)) (\<lambda>padded.
      sbind (slift (nonce_for C rnd s object_type object_id policy)) (\<lambda>nonce.
      sbind (slift (encrypt_object C s object_id object_type policy nonce padded)) (\<lambda>(ciphertext, auth_tag).
      sbind (\<lambda>fs. (case file_put (relative_object_path object_id)
               (envelope_encode
                  \<lparr> env_format_version = envelope_format_version, env_object_type = object_type,
                    env_crypto_suite = crypto_suite_name, env_key_epoch = active_epoch s,
                    env_padding_policy = policy, env_object_id = object_id, env_nonce = nonce,
                    env_ciphertext = ciphertext, env_auth_tag = auth_tag \<rparr>) fs of
             (r, fs') \<Rightarrow> (with_context ''failed to write object'' r, fs'))) (\<lambda>_.
      sret object_id)))))"

record loaded_object =
  loaded_type :: string
  loaded_plaintext :: "byte list"

definition open_envelope ::
  "crypto \<Rightarrow> repo_secrets \<Rightarrow> string \<Rightarrow> byte list \<Rightarrow> loaded_object res" where
  "open_envelope C s object_id bytes =
     rbind (envelope_decode bytes) (\<lambda>e.
     ensure (env_crypto_suite e = crypto_suite_name) (Bail ''unsupported crypto suite'')
     (ensure (env_object_id e = object_id) (Bail ''object id mismatch in stored envelope'')
     (rbind (decrypt_object C s e) (\<lambda>padded.
      rbind (remove_padding_policy (env_padding_policy e) padded) (\<lambda>plaintext.
      ensure (derive_object_id C s (env_object_type e) plaintext = object_id)
        (Bail ''object authentication failed: object id mismatch'')
      (Inr \<lparr> loaded_type = env_object_type e, loaded_plaintext = plaintext \<rparr>))))))"

definition get_typed_object :: "crypto \<Rightarrow> repo_secrets \<Rightarrow> string \<Rightarrow> files \<Rightarrow> loaded_object res" where
  "get_typed_object C s object_id fs =
     rbind (validate_object_id_value object_id) (\<lambda>_.
     rbind (with_context ''failed to read object'' (file_get (relative_object_path object_id) fs)) (\<lambda>bytes.
     open_envelope C s object_id bytes))"

definition get_object :: "crypto \<Rightarrow> repo_secrets \<Rightarrow> string \<Rightarrow> string \<Rightarrow> files \<Rightarrow> byte list res" where
  "get_object C s object_id expected_type fs =
     rbind (get_typed_object C s object_id fs) (\<lambda>loaded.
     ensure (loaded_type loaded = expected_type) (Bail ''object type mismatch'')
     (Inr (loaded_plaintext loaded)))"

definition get_object_range ::
  "crypto \<Rightarrow> repo_secrets \<Rightarrow> string \<Rightarrow> string \<Rightarrow> nat \<Rightarrow> nat \<Rightarrow> files \<Rightarrow> byte list res" where
  "get_object_range C s object_id expected_type offset len fs =
     rbind (get_object C s object_id expected_type fs) (\<lambda>bytes.
     ensure (offset \<le> length bytes) (Bail ''range offset out of bounds'')
     (let end_pos = min (usize_sat_add offset len) (length bytes)
      in Inr (take (end_pos - offset) (drop offset bytes))))"

definition exists_object :: "string \<Rightarrow> files \<Rightarrow> bool" where
  "exists_object object_id fs =
     (case validate_object_id_value object_id of
        Inl e \<Rightarrow> False | Inr _ \<Rightarrow> file_exists (relative_object_path object_id) fs)"

definition resolve_object :: "string \<Rightarrow> files \<Rightarrow> physical_object_ref res" where
  "resolve_object object_id fs =
     rbind (validate_object_id_value object_id) (\<lambda>_.
     rbind (file_get (relative_object_path object_id) fs) (\<lambda>bytes.
     direct_resolve (LooseObject object_id (of_nat (length bytes)))))"

section \<open>Control records\<close>

record encrypted_control_record =
  cr_magic :: "byte list"
  cr_format_version :: u32
  cr_object_type :: string
  cr_crypto_suite :: string
  cr_key_epoch :: u32
  cr_object_id :: string
  cr_nonce :: "byte list"
  cr_ciphertext :: "byte list"
  cr_auth_tag :: "byte list"

definition control_ref_magic :: "byte list" where "control_ref_magic = as_bytes ''E2RF''"

definition control_ref_format_version :: u32 where "control_ref_format_version = 1"

definition derive_control_object_id ::
  "crypto \<Rightarrow> repo_secrets \<Rightarrow> string \<Rightarrow> string \<Rightarrow> byte list \<Rightarrow> string" where
  "derive_control_object_id C s stable_name object_type plaintext =
     hex_encode (keyed_hash C (repo_dedup_key s)
       (as_bytes stable_name @ as_bytes object_type @ u64_to_le (of_nat (length plaintext)) @ plaintext))"

definition derive_control_nonce ::
  "crypto \<Rightarrow> repo_secrets \<Rightarrow> string \<Rightarrow> string \<Rightarrow> byte list res" where
  "derive_control_nonce C s object_id object_type =
     rbind (active_epoch_keys s) (\<lambda>k.
     Inr (take 24 (keyed_hash C (nonce_key k)
       (as_bytes object_id @ as_bytes object_type @ as_bytes ''control-record''))))"

definition control_record_associated_data ::
  "repo_secrets \<Rightarrow> string \<Rightarrow> string \<Rightarrow> u32 \<Rightarrow> byte list" where
  "control_record_associated_data s object_id object_type key_epoch =
     control_ref_magic @ u32_to_le control_ref_format_version @ as_bytes (secrets_repo_id s) @
     as_bytes object_type @ as_bytes object_id @ as_bytes crypto_suite_name @ u32_to_le key_epoch"

definition encrypt_control_record ::
  "crypto \<Rightarrow> encrypted_control_record serde \<Rightarrow> repo_secrets \<Rightarrow> string \<Rightarrow> string \<Rightarrow> byte list \<Rightarrow> byte list res" where
  "encrypt_control_record C postcard s stable_name object_type plaintext =
     (let object_id = derive_control_object_id C s stable_name object_type plaintext in
      rbind (derive_control_nonce C s object_id object_type) (\<lambda>nonce.
      rbind (active_epoch_keys s) (\<lambda>k.
      rbind (ok_or (Bail ''failed to encrypt local ref'')
               (aead_seal C (manifest_enc_key k) nonce
                  (control_record_associated_data s object_id object_type (active_epoch s)) plaintext))
        (\<lambda>(ciphertext, auth_tag).
      Inr (to_vec postcard
        \<lparr> cr_magic = control_ref_magic, cr_format_version = control_ref_format_version,
          cr_object_type = object_type, cr_crypto_suite = crypto_suite_name,
          cr_key_epoch = active_epoch s, cr_object_id = object_id, cr_nonce = nonce,
          cr_ciphertext = ciphertext, cr_auth_tag = auth_tag \<rparr>)))))"

abbreviation ref_auth_failed :: error where
  "ref_auth_failed \<equiv> Bail ''ref authentication failed''"

definition decrypt_control_record ::
  "crypto \<Rightarrow> encrypted_control_record serde \<Rightarrow> repo_secrets \<Rightarrow> string \<Rightarrow> string \<Rightarrow> byte list \<Rightarrow> byte list res" where
  "decrypt_control_record C postcard s stable_name object_type bytes =
     rbind (with_context ''failed to decode encrypted ref''
              (ok_or (Bail ''postcard'') (from_slice postcard bytes))) (\<lambda>e.
     ensure (cr_magic e = control_ref_magic) ref_auth_failed
     (ensure (cr_format_version e = control_ref_format_version) (Bail ''unsupported ref format version'')
     (ensure (cr_object_type e = object_type) ref_auth_failed
     (ensure (cr_crypto_suite e = crypto_suite_name) (Bail ''unsupported ref crypto suite'')
     (ensure (length (cr_nonce e) = 24) ref_auth_failed
     (ensure (length (cr_auth_tag e) = 16) ref_auth_failed
     (rbind (epoch_keys s (cr_key_epoch e)) (\<lambda>k.
      rbind (ok_or ref_auth_failed
               (aead_open C (manifest_enc_key k) (cr_nonce e)
                  (control_record_associated_data s (cr_object_id e) object_type (cr_key_epoch e))
                  (cr_ciphertext e) (cr_auth_tag e))) (\<lambda>plaintext.
      ensure (derive_control_object_id C s stable_name object_type plaintext = cr_object_id e)
        ref_auth_failed
      (Inr plaintext))))))))))"

section \<open>The codec round trip\<close>

lemma take_exact_at:
  "drop c bs = f @ rest \<Longrightarrow> length f = n \<Longrightarrow> take_exact bs c n = Inr (f, c + n)"
proof -
  assume d: "drop c bs = f @ rest" and n: "length f = n"
  have "length bs - c = n + length rest" using arg_cong [OF d, of length] n by simp
  with d n show ?thesis by (simp add: take_exact_def)
qed

lemma drop_step: "drop c bs = f @ rest \<Longrightarrow> length f = n \<Longrightarrow> drop (c + n) bs = rest"
  by (metis add.commute append_eq_conv_conj drop_drop)

lemma take_exact_Inr:
  "take_exact bs c n = Inr (f, c') \<Longrightarrow>
     c' = c + n \<and> length f = n \<and> drop c bs = f @ drop c' bs \<and> (c \<le> length bs \<longrightarrow> c' \<le> length bs)"
  by (auto simp: take_exact_def split: if_splits) (metis add.commute append_take_drop_id drop_drop)

lemma take_u8_at: "drop c bs = b # rest \<Longrightarrow> take_u8 bs c = Inr (b, c + 1)"
  using take_exact_at [of c bs "[b]" rest 1] by (simp add: take_u8_def)

lemma take_u8_Inr:
  "take_u8 bs c = Inr (b, c') \<Longrightarrow>
     c' = c + 1 \<and> drop c bs = b # drop c' bs \<and> (c \<le> length bs \<longrightarrow> c' \<le> length bs)"
proof -
  assume "take_u8 bs c = Inr (b, c')"
  then obtain f where f: "take_exact bs c 1 = Inr (f, c')" "b = hd f"
    by (auto simp: take_u8_def rbind_Inr_iff)
  from take_exact_Inr [OF f(1)] f(2) show ?thesis by (cases f) auto
qed

lemma take_string_at:
  assumes "drop c bs = push_string v @ rest" "length v < 256" "utf8_string v"
  shows "take_string bs c = Inr (v, c + (1 + length v))"
proof -
  have d: "drop c bs = of_nat (length v) # as_bytes v @ rest"
    using assms(1) by (simp add: push_string_def)
  have "drop (c + 1) bs = as_bytes v @ rest"
    by (rule drop_step [of c bs "[of_nat (length v)]"]) (simp_all add: d)
  then have "take_exact bs (c + 1) (length v) = Inr (as_bytes v, c + 1 + length v)"
    by (rule take_exact_at) simp
  moreover have "unat (of_nat (length v) :: byte) = length v" using assms(2) by (simp add: unat_of_nat)
  ultimately show ?thesis
    using assms(3) by (simp add: take_string_def take_u8_at [OF d])
qed

lemma take_string_Inr:
  assumes "take_string bs c = Inr (v, c')"
  shows "drop c bs = push_string v @ drop c' bs \<and> length v < 256 \<and> utf8_string v \<and>
    (c \<le> length bs \<longrightarrow> c' \<le> length bs)"
proof -
  from assms obtain len c1 f where len: "take_u8 bs c = Inr (len, c1)"
    and f: "take_exact bs c1 (unat len) = Inr (f, c')" "from_utf8 f = Some v"
    by (auto simp: take_string_def rbind_Inr_iff with_context_Inr_iff ok_or_Inr_iff)
  from take_exact_Inr [OF f(1)] take_u8_Inr [OF len] f(2)
  have "length v = unat len" "drop c bs = len # as_bytes v @ drop c' bs" "utf8_string v"
    "c \<le> length bs \<longrightarrow> c' \<le> length bs" by (auto simp: from_utf8_Some_iff)
  moreover have "unat len < 256" using unsigned_less [of len, where 'a = nat] by simp
  ultimately show ?thesis by (simp add: push_string_def)
qed

definition envelope_ok :: "encrypted_object_envelope \<Rightarrow> bool" where
  "envelope_ok e \<longleftrightarrow>
     env_format_version e = envelope_format_version \<and>
     (\<forall>v \<in> {env_object_type e, env_crypto_suite e, env_padding_policy e, env_object_id e}.
        length v < 256 \<and> utf8_string v) \<and>
     length (env_nonce e) = 24 \<and> length (env_auth_tag e) = 16 \<and> length (env_ciphertext e) < 2 ^ 64"

lemma envelope_decode_encode:
  assumes "envelope_ok e"
  shows "envelope_decode (envelope_encode e) = Inr e"
proof -
  let ?bs = "envelope_encode e"
  note ok = assms [unfolded envelope_ok_def]
  have d0: "drop 0 ?bs = envelope_magic @ u32_to_le (env_format_version e) @ push_string (env_object_type e) @
     push_string (env_crypto_suite e) @ u32_to_le (env_key_epoch e) @
     push_string (env_padding_policy e) @ push_string (env_object_id e) @ [24] @ env_nonce e @
     u64_to_le (of_nat (length (env_ciphertext e))) @ env_ciphertext e @ env_auth_tag e @ []"
    by (simp add: envelope_encode_def)
  have magic: "length envelope_magic = 4" by (simp add: envelope_magic_def)
  have pl: "length (push_string v) = 1 + length v" for v by (simp add: push_string_def)
  note d1 = drop_step [OF d0 magic]
  note d2 = drop_step [OF d1 u32_le_simps(1)]
  note d3 = drop_step [OF d2 pl]
  note d4 = drop_step [OF d3 pl]
  note d5 = drop_step [OF d4 u32_le_simps(1)]
  note d6 = drop_step [OF d5 pl]
  note d7 = drop_step [OF d6 pl]
  have one: "length [24 :: byte] = 1" by simp
  note d8 = drop_step [OF d7 one]
  have nl: "length (env_nonce e) = 24" and tl: "length (env_auth_tag e) = 16" using ok by simp_all
  note d9 = drop_step [OF d8 nl]
  note d10 = drop_step [OF d9 u64_le_simps(1)]
  note d11 = drop_step [OF d10 refl]
  note d12 = drop_step [OF d11 tl]
  have str: "length v < 256" "utf8_string v"
    if "v \<in> {env_object_type e, env_crypto_suite e, env_padding_policy e, env_object_id e}" for v
    using ok that by blast+
  note t0 = take_exact_at [OF d0 magic]
  note t1 = take_exact_at [OF d1 u32_le_simps(1)]
  note t2 = take_string_at [OF d2 str(1,2)]
  note t3 = take_string_at [OF d3 str(1,2)]
  note t4 = take_exact_at [OF d4 u32_le_simps(1)]
  note t5 = take_string_at [OF d5 str(1,2)]
  note t6 = take_string_at [OF d6 str(1,2)]
  note t7 = take_u8_at [OF d7 [unfolded append_Cons append_Nil]]
  note t8 = take_exact_at [OF d8 nl]
  note t9 = take_exact_at [OF d9 u64_le_simps(1)]
  have clen: "unat (of_nat (length (env_ciphertext e)) :: u64) = length (env_ciphertext e)"
    using ok by (simp add: unat_of_nat)
  note t10 = take_exact_at [OF d10 refl]
  note t11 = take_exact_at [OF d11 tl]
  have len: "length ?bs = 0 + 4 + 4 + (1 + length (env_object_type e)) + (1 + length (env_crypto_suite e)) + 4 +
      (1 + length (env_padding_policy e)) + (1 + length (env_object_id e)) + 1 + 24 + 8 +
      length (env_ciphertext e) + 16"
    using ok magic by (simp add: envelope_encode_def pl)
  have u24: "unat (24 :: byte) = 24" by simp
  have "4 \<le> length ?bs" unfolding len by simp
  then show ?thesis
    unfolding envelope_decode_def
    using ok
    by (simp only: if_True rbind_simps prod.case t0 t1 t2 t3 t4 t5 t6 t7 t8 t9 t10 t11 u32_le_simps
        u64_le_simps u24 clen simp_thms insertI1 insertI2 singletonI refl len [symmetric] insert_iff) simp
qed

lemma envelope_encode_decode:
  assumes out: "envelope_decode bs = Inr e"
  shows "envelope_encode e = bs \<and> envelope_ok e"
proof -
  from out obtain c1 v c2 c3 c4 ep c5 c6 c7 nl c8 c9 cl c10 c11 c12 where
    t0: "take_exact bs 0 4 = Inr (envelope_magic, c1)" and
    t1: "take_exact bs c1 4 = Inr (v, c2)" and
    v: "u32_from_le v = envelope_format_version" "env_format_version e = u32_from_le v" and
    t2: "take_string bs c2 = Inr (env_object_type e, c3)" and
    t3: "take_string bs c3 = Inr (env_crypto_suite e, c4)" and
    t4: "take_exact bs c4 4 = Inr (ep, c5)" and ep: "env_key_epoch e = u32_from_le ep" and
    t5: "take_string bs c5 = Inr (env_padding_policy e, c6)" and
    t6: "take_string bs c6 = Inr (env_object_id e, c7)" and
    t7: "take_u8 bs c7 = Inr (nl, c8)" and nl: "unat nl = 24" and
    t8: "take_exact bs c8 24 = Inr (env_nonce e, c9)" and
    t9: "take_exact bs c9 8 = Inr (cl, c10)" and
    t10: "take_exact bs c10 (unat (u64_from_le cl)) = Inr (env_ciphertext e, c11)" and
    t11: "take_exact bs c11 16 = Inr (env_auth_tag e, c12)" and c12: "c12 = length bs"
    by (auto simp: envelope_decode_def rbind_Inr_iff split: if_splits)
  note s0 = take_exact_Inr [OF t0] and s1 = take_exact_Inr [OF t1] and s2 = take_string_Inr [OF t2]
    and s3 = take_string_Inr [OF t3] and s4 = take_exact_Inr [OF t4] and s5 = take_string_Inr [OF t5]
    and s6 = take_string_Inr [OF t6] and s7 = take_u8_Inr [OF t7] and s8 = take_exact_Inr [OF t8]
    and s9 = take_exact_Inr [OF t9] and s10 = take_exact_Inr [OF t10] and s11 = take_exact_Inr [OF t11]
  have "nl = 24" using nl by (simp add: word_unat_eq_iff)
  have v': "u32_to_le (env_format_version e) = v" unfolding v(2) using s1 by (intro u32_le_inverse) blast
  have ep': "u32_to_le (env_key_epoch e) = ep" unfolding ep using s4 by (intro u32_le_inverse) blast
  have clen: "unat (u64_from_le cl) = length (env_ciphertext e)" using s10 by simp
  have "u64_to_le (of_nat (unat (u64_from_le cl))) = cl"
    using s9 by (simp add: u64_le_inverse)
  then have cl': "u64_to_le (of_nat (length (env_ciphertext e))) = cl" unfolding clen .
  have e0: "drop 0 bs = envelope_magic @ drop c1 bs" using s0 by blast
  have e1: "drop c1 bs = v @ drop c2 bs" using s1 by blast
  have e2: "drop c2 bs = push_string (env_object_type e) @ drop c3 bs" using s2 by blast
  have e3: "drop c3 bs = push_string (env_crypto_suite e) @ drop c4 bs" using s3 by blast
  have e4: "drop c4 bs = ep @ drop c5 bs" using s4 by blast
  have e5: "drop c5 bs = push_string (env_padding_policy e) @ drop c6 bs" using s5 by blast
  have e6: "drop c6 bs = push_string (env_object_id e) @ drop c7 bs" using s6 by blast
  have e7: "drop c7 bs = nl # drop c8 bs" using s7 by blast
  have e8: "drop c8 bs = env_nonce e @ drop c9 bs" using s8 by blast
  have e9: "drop c9 bs = cl @ drop c10 bs" using s9 by blast
  have e10: "drop c10 bs = env_ciphertext e @ drop c11 bs" using s10 by blast
  have e11: "drop c11 bs = env_auth_tag e @ drop c12 bs" using s11 by blast
  have e12: "drop c12 bs = []" using c12 by simp
  note e = e0 e1 e2 e3 e4 e5 e6 e7 e8 e9 e10 e11 e12
  have "drop 0 bs = envelope_encode e"
    unfolding e envelope_encode_def v' ep' cl' \<open>nl = 24\<close> by simp
  then have "envelope_encode e = bs" by simp
  moreover have "length (env_ciphertext e) < 2 ^ 64"
    unfolding clen [symmetric] using unsigned_less [of "u64_from_le cl", where 'a = nat] by simp
  ultimately show ?thesis
    using s2 s3 s5 s6 s8 s11 v by (simp add: envelope_ok_def)
qed

text \<open>C9: The envelope codec is exact. The decoder accepts exactly the encodings of well-formed
  envelopes (supported version, strings of fewer than 256 bytes of UTF-8, 24-byte nonce, 16-byte
  tag) and returns the envelope that was encoded: nothing can be appended, truncated or encoded a
  second way, and an envelope with a string of 256 bytes or more, whose length byte is
  truncated, is not read back.\<close>

theorem envelope_codec_exact:
  "envelope_decode bs = Inr e \<longleftrightarrow> envelope_ok e \<and> bs = envelope_encode e"
  using envelope_decode_encode envelope_encode_decode by metis

section \<open>Padding and the object store\<close>

lemma padding_roundtrip:
  assumes "apply_padding_policy rnd object_type plaintext (padding_policy_for object_type) = Inr buf"
  shows "remove_padding_policy (padding_policy_for object_type) buf = Inr plaintext \<and>
    length buf \<le> length plaintext + 36"
proof (cases "object_type = ''chunk''")
  case True
  with assms show ?thesis
    by (simp add: apply_padding_policy_def remove_padding_policy_def padding_policy_for_def)
next
  case False
  then have policy: "padding_policy_for object_type = padding_policy_randomized"
    "padding_policy_randomized \<noteq> padding_policy_none"
    by (simp_all add: padding_policy_for_def padding_policy_randomized_def padding_policy_none_def)
  obtain seed where seed: "random_seed rnd = Some seed"
    using assms False policy by (cases "random_seed rnd") (auto simp: apply_padding_policy_def)
  have buf: "buf = u32_to_le (of_nat (unat seed mod 32 + 1)) @ plaintext @ replicate (unat seed mod 32 + 1) 0"
    using assms False policy unfolding apply_padding_policy_def seed by (simp only: ok_or_simps rbind_simps
      Let_def if_False simp_thms sum.inject)
  let ?n = "unat seed mod 32 + 1"
  have n: "?n \<le> 32" by (metis Suc_eq_plus1 Suc_leI mod_less_divisor zero_less_numeral)
  then have u: "unat (of_nat ?n :: u32) = ?n" unfolding unat_of_nat by simp
  have "take 4 buf = u32_to_le (of_nat ?n)" "drop 4 buf = plaintext @ replicate ?n 0"
    "length buf = 4 + length plaintext + ?n"
    by (simp_all add: buf)
  then show ?thesis
    using n u policy unfolding remove_padding_policy_def by (simp add: Let_def)
qed

lemma hex_digit_props: "d < 16 \<Longrightarrow> hex_digit d \<in> set ''0123456789abcdef''"
proof -
  assume "d < 16"
  moreover have "\<forall>d \<in> set [0..<16]. hex_digit d \<in> set ''0123456789abcdef''" by code_simp
  ultimately show ?thesis by simp
qed

lemma hex_encode_chars: "c \<in> set (hex_encode bs) \<Longrightarrow> c \<in> set ''0123456789abcdef''"
proof (induction bs)
  case (Cons b bs)
  have "unat b div 16 < 16" using unsigned_less [of b, where 'a = nat] by simp
  then have "hex_digit (unat b div 16) \<in> set ''0123456789abcdef''" by (rule hex_digit_props)
  moreover have "hex_digit (unat b mod 16) \<in> set ''0123456789abcdef''" by (rule hex_digit_props) simp
  moreover have "c = hex_digit (unat b div 16) \<or> c = hex_digit (unat b mod 16) \<or> c \<in> set (hex_encode bs)"
    using Cons.prems by simp
  ultimately show ?case using Cons.IH by metis
qed simp

lemma length_hex_encode: "length (hex_encode bs) = 2 * length bs"
  by (induction bs) auto

lemma hex_encode_ascii: "utf8_string (hex_encode bs)"
proof (rule utf8_string_ascii)
  have "ascii_char c" if "c \<in> set ''0123456789abcdef''" for c
    using that by (auto simp: ascii_char_def)
  then show "list_all ascii_char (hex_encode bs)"
    using hex_encode_chars by (auto simp: list_all_iff)
qed

lemma validate_hex_id: "bs \<noteq> [] \<Longrightarrow> validate_object_id_value (hex_encode bs) = Inr ()"
proof -
  assume ne: "bs \<noteq> []"
  then obtain c s where cs: "hex_encode bs = c # s" by (cases bs) auto
  have c: "c \<in> set ''0123456789abcdef''" using hex_encode_chars [of c bs] cs by simp
  have slash: "slash \<notin> set (hex_encode bs)" using hex_encode_chars [of slash bs] by auto
  have dot: "CHR ''.'' \<notin> set (hex_encode bs)" using hex_encode_chars [of "CHR ''.''" bs] by auto
  have split: "split_on slash (hex_encode bs) = [hex_encode bs]" by (rule split_on_single [OF slash])
  have "\<not> blank (hex_encode bs)" using c unfolding cs by (auto simp: blank_def)
  moreover have abs: "\<not> is_absolute (hex_encode bs)"
    using slash by (auto simp: is_absolute_def starts_with_iff cs)
  moreover have "hex_encode bs \<noteq> ''.''" "hex_encode bs \<noteq> ''..''" "hex_encode bs \<noteq> []"
    using dot cs by auto
  then have comp: "components (hex_encode bs) = [Normal (hex_encode bs)]"
    using abs by (simp add: components_relative split segment_components_def)
  ultimately show ?thesis by (simp add: validate_object_id_value_def all_normal_def is_normal_def)
qed

lemma derive_object_id_facts:
  assumes "crypto_ok C"
  shows "validate_object_id_value (derive_object_id C s t p) = Inr ()"
    "length (derive_object_id C s t p) = 64" "utf8_string (derive_object_id C s t p)"
proof -
  have len: "length (keyed_hash C k m) = 32" for k m using assms by (simp add: crypto_ok_def)
  then have "keyed_hash C k m \<noteq> []" for k m by (metis list.size(3) zero_neq_numeral)
  then show "validate_object_id_value (derive_object_id C s t p) = Inr ()"
    by (simp add: derive_object_id_def validate_hex_id)
  show "length (derive_object_id C s t p) = 64" "utf8_string (derive_object_id C s t p)"
    by (simp_all add: derive_object_id_def length_hex_encode len hex_encode_ascii)
qed

lemma resolve_object_path:
  assumes "validate_object_id_value i = Inr ()"
  shows "resolve_relative_path [] (relative_object_path i) = Inr (''/'' @ relative_object_path i)"
proof -
  have "all_normal i"
    using assms by (auto simp: validate_object_id_value_def split: if_splits)
  then obtain names where "components (relative_object_path i) = map Normal ([''objects''] @ names)"
    using components_below [of "[''objects'']" i "''.json''"] by (auto simp: relative_object_path_def)
  then have "all_normal (relative_object_path i)"
    by (simp add: all_normal_def list_all_iff is_normal_def)
  then show ?thesis
    by (simp add: resolve_relative_path_def all_normal_iff) (simp add: relative_object_path_def)
qed

lemma padding_policy_facts:
  "length (padding_policy_for t) < 256" "utf8_string (padding_policy_for t)"
proof -
  have "list_all ascii_char padding_policy_none" "list_all ascii_char padding_policy_randomized"
    by code_simp+
  then show "utf8_string (padding_policy_for t)"
    by (simp add: padding_policy_for_def utf8_string_ascii)
qed (simp add: padding_policy_for_def padding_policy_none_def padding_policy_randomized_def)

lemma crypto_suite_facts: "length crypto_suite_name < 256" "utf8_string crypto_suite_name"
proof -
  have "list_all ascii_char crypto_suite_name" by code_simp
  then show "utf8_string crypto_suite_name" by (rule utf8_string_ascii)
qed (simp add: crypto_suite_name_def)

lemma nonce_for_length:
  "crypto_ok C \<Longrightarrow> draw_ok rnd \<Longrightarrow> nonce_for C rnd s t i pol = Inr nonce \<Longrightarrow> length nonce = 24"
  by (auto simp: nonce_for_def derive_nonce_def crypto_ok_def draw_ok_def rbind_Inr_iff ok_or_Inr_iff
      split: if_splits)

text \<open>What a successful put stored.\<close>

lemma put_object_stored:
  assumes "put_object C rnd s t p fs = (Inr i, fs')"
  obtains padded_p nonce c tag k where
    "i = derive_object_id C s t p"
    "apply_padding_policy rnd t p (padding_policy_for t) = Inr padded_p"
    "nonce_for C rnd s t i (padding_policy_for t) = Inr nonce"
    "active_epoch_keys s = Inr k"
    "aead_seal C (manifest_enc_key k) nonce
       (associated_data s i t (padding_policy_for t) (active_epoch s)) padded_p = Some (c, tag)"
    "fs' = bt_insert (relative_object_path i)
       (envelope_encode \<lparr> env_format_version = envelope_format_version, env_object_type = t,
          env_crypto_suite = crypto_suite_name, env_key_epoch = active_epoch s,
          env_padding_policy = padding_policy_for t, env_object_id = i, env_nonce = nonce,
          env_ciphertext = c, env_auth_tag = tag \<rparr>) fs"
  using assms that
  by (auto simp: put_object_def Let_def sbind_def file_put_def encrypt_object_def rbind_Inr_iff
      ok_or_Inr_iff split: sum.splits prod.splits)

lemma put_get_typed:
  assumes crypto: "crypto_ok C" and draw: "draw_ok rnd" and fs: "bt_ok fs"
    and t: "utf8_string t" "length t < 256" and p: "length p + 36 < 2 ^ 64"
    and put: "put_object C rnd s t p fs = (Inr i, fs')"
  shows "get_typed_object C s i fs' = Inr \<lparr> loaded_type = t, loaded_plaintext = p \<rparr> \<and>
    (\<forall>path. path \<noteq> relative_object_path i \<longrightarrow> map_of fs' path = map_of fs path)"
proof -
  from put obtain buf nonce c tag k where
    i: "i = derive_object_id C s t p"
    and pad: "apply_padding_policy rnd t p (padding_policy_for t) = Inr buf"
    and nonce: "nonce_for C rnd s t i (padding_policy_for t) = Inr nonce"
    and k: "active_epoch_keys s = Inr k"
    and seal: "aead_seal C (manifest_enc_key k) nonce
       (associated_data s i t (padding_policy_for t) (active_epoch s)) buf = Some (c, tag)"
    and fs': "fs' = bt_insert (relative_object_path i)
       (envelope_encode \<lparr> env_format_version = envelope_format_version, env_object_type = t,
          env_crypto_suite = crypto_suite_name, env_key_epoch = active_epoch s,
          env_padding_policy = padding_policy_for t, env_object_id = i, env_nonce = nonce,
          env_ciphertext = c, env_auth_tag = tag \<rparr>) fs"
    by (rule put_object_stored)
  let ?e = "\<lparr> env_format_version = envelope_format_version, env_object_type = t,
          env_crypto_suite = crypto_suite_name, env_key_epoch = active_epoch s,
          env_padding_policy = padding_policy_for t, env_object_id = i, env_nonce = nonce,
          env_ciphertext = c, env_auth_tag = tag \<rparr> :: encrypted_object_envelope"
  have open_seal: "length tag = 16" "length c = length buf"
    "aead_open C (manifest_enc_key k) nonce
       (associated_data s i t (padding_policy_for t) (active_epoch s)) c tag = Some buf"
    using crypto seal by (auto simp: crypto_ok_def)
  have rem: "remove_padding_policy (padding_policy_for t) buf = Inr p" "length buf \<le> length p + 36"
    using padding_roundtrip [OF pad] by simp_all
  note id = derive_object_id_facts [OF crypto, of s t p, folded i]
  have "envelope_ok ?e"
    using nonce_for_length [OF crypto draw nonce] open_seal rem p t id padding_policy_facts crypto_suite_facts
    by (simp add: envelope_ok_def)
  then have dec: "envelope_decode (envelope_encode ?e) = Inr ?e" by (rule envelope_decode_encode)
  have "epoch_keys s (active_epoch s) = Inr k" using k by (simp add: active_epoch_keys_def)
  then have "open_envelope C s i (envelope_encode ?e) = Inr \<lparr> loaded_type = t, loaded_plaintext = p \<rparr>"
    by (simp add: open_envelope_def dec decrypt_object_def open_seal rem i [symmetric])
  moreover have "file_get (relative_object_path i) fs' = Inr (envelope_encode ?e)"
    using resolve_object_path [OF id(1)] fs
    by (simp add: file_get_def fs' map_of_bt_insert)
  ultimately have "get_typed_object C s i fs' = Inr \<lparr> loaded_type = t, loaded_plaintext = p \<rparr>"
    using id by (simp add: get_typed_object_def)
  then show ?thesis
    using fs by (simp add: fs' map_of_bt_insert)
qed

text \<open>C10: An object can be read back. After a successful put the object is found under its id,
  with its type and plaintext, whatever the random padding and nonce were; asking for another
  type is refused; and the file of every other object is untouched.\<close>

theorem put_get_roundtrip:
  assumes crypto: "crypto_ok C" and draw: "draw_ok rnd" and fs: "bt_ok fs"
    and t: "utf8_string t" "length t < 256" and p: "length p + 36 < 2 ^ 64"
    and put: "put_object C rnd s t p fs = (Inr i, fs')"
  shows "get_object C s i t fs' = Inr p \<and>
    (\<forall>u. u \<noteq> t \<longrightarrow> get_object C s i u fs' = Inl (Bail ''object type mismatch'')) \<and>
    (\<forall>path. path \<noteq> relative_object_path i \<longrightarrow> map_of fs' path = map_of fs path)"
  using put_get_typed [OF assms] by (simp add: get_object_def)

text \<open>A stand-in for the cryptography that satisfies \<open>crypto_ok\<close>, for the witnesses.\<close>

definition plain_crypto :: crypto where
  "plain_crypto =
     \<lparr> keyed_hash = (\<lambda>k m. take 32 (m @ replicate 32 0)),
       aead_seal = (\<lambda>k n a p. Some (p, replicate 16 0)),
       aead_open = (\<lambda>k n a c t. Some c) \<rparr>"

lemma plain_crypto_ok: "crypto_ok plain_crypto"
  by (auto simp: crypto_ok_def plain_crypto_def)

definition sample_secrets :: repo_secrets where
  "sample_secrets =
     \<lparr> secrets_repo_id = ''r'', active_epoch = 1, repo_dedup_key = [], repo_ref_key = [],
       repo_manifest_enc_key = [], repo_nonce_key = [], repo_path_index_key = [],
       epoch_keys_of = [(1, \<lparr> manifest_enc_key = [], nonce_key = [] \<rparr>)] \<rparr>"

definition sample_draw :: random_draw where
  "sample_draw = \<lparr> random_seed = Some 5, random_nonce = Some (replicate 24 7) \<rparr>"

lemma sample_draw_ok: "draw_ok sample_draw"
  by (simp add: draw_ok_def sample_draw_def)

lemma sample_put: "\<exists>i fs'. put_object plain_crypto sample_draw sample_secrets ''tree'' [1, 2, 3] [] = (Inr i, fs')"
proof -
  have "validate_object_id_value (derive_object_id plain_crypto sample_secrets ''tree'' [1, 2, 3]) = Inr ()"
    by (rule derive_object_id_facts [OF plain_crypto_ok])
  from resolve_object_path [OF this] show ?thesis
    by (simp add: put_object_def Let_def apply_padding_policy_def nonce_for_def padding_policy_for_def
        padding_policy_none_def padding_policy_randomized_def sample_draw_def encrypt_object_def
        active_epoch_keys_def epoch_keys_def sample_secrets_def plain_crypto_def sbind_def file_put_def)
qed

theorem put_get_roundtrip_witness:
  "\<exists>i fs'. put_object plain_crypto sample_draw sample_secrets ''tree'' [1, 2, 3] [] = (Inr i, fs') \<and>
     get_object plain_crypto sample_secrets i ''tree'' fs' = Inr [1, 2, 3]"
proof -
  obtain i fs' where put: "put_object plain_crypto sample_draw sample_secrets ''tree'' [1, 2, 3] [] = (Inr i, fs')"
    using sample_put by blast
  have "utf8_string ''tree''" by (rule utf8_string_ascii) code_simp
  from put_get_roundtrip [OF plain_crypto_ok sample_draw_ok bt_ok_Nil this _ _ put] put
  show ?thesis by auto
qed

text \<open>C11: What is read is what was named. Whatever bytes the files hold, an object that is read
  under an id has exactly the type and plaintext of which that id is the keyed hash, its file is a
  well-formed envelope of the supported suite with that id in it, and the epoch key that opened it
  is one the repository has.\<close>

theorem get_typed_object_sound:
  assumes "get_typed_object C s i fs = Inr loaded"
  shows "i = derive_object_id C s (loaded_type loaded) (loaded_plaintext loaded) \<and>
    (\<exists>e k. map_of fs (relative_object_path i) = Some (envelope_encode e) \<and> envelope_ok e \<and>
       env_object_id e = i \<and> env_object_type e = loaded_type loaded \<and>
       env_crypto_suite e = crypto_suite_name \<and> map_of (epoch_keys_of s) (env_key_epoch e) = Some k)"
proof -
  from assms obtain bytes where bytes: "map_of fs (relative_object_path i) = Some bytes"
    and opened: "open_envelope C s i bytes = Inr loaded"
    by (auto simp: get_typed_object_def file_get_def rbind_Inr_iff with_context_Inr_iff ok_or_Inr_iff)
  from opened obtain e padded_p p where e: "envelope_decode bytes = Inr e"
    "env_crypto_suite e = crypto_suite_name" "env_object_id e = i"
    "decrypt_object C s e = Inr padded_p" "derive_object_id C s (env_object_type e) p = i"
    "loaded = \<lparr> loaded_type = env_object_type e, loaded_plaintext = p \<rparr>"
    by (auto simp: open_envelope_def rbind_Inr_iff split: if_splits)
  then show ?thesis
    using bytes envelope_encode_decode [OF e(1)]
    by (auto simp: decrypt_object_def epoch_keys_def rbind_Inr_iff ok_or_Inr_iff)
qed

theorem get_typed_object_sound_witness:
  "\<exists>i fs' loaded. get_typed_object plain_crypto sample_secrets i fs' = Inr loaded \<and>
     i = derive_object_id plain_crypto sample_secrets (loaded_type loaded) (loaded_plaintext loaded)"
proof -
  obtain i fs' where put: "put_object plain_crypto sample_draw sample_secrets ''tree'' [1, 2, 3] [] = (Inr i, fs')"
    using sample_put by blast
  have "utf8_string ''tree''" by (rule utf8_string_ascii) code_simp
  from put_get_typed [OF plain_crypto_ok sample_draw_ok bt_ok_Nil this _ _ put]
  have "get_typed_object plain_crypto sample_secrets i fs' =
      Inr \<lparr> loaded_type = ''tree'', loaded_plaintext = [1, 2, 3] \<rparr>" by simp
  from get_typed_object_sound [OF this] this show ?thesis by blast
qed

section \<open>Control records: what is stored under a name\<close>

lemma encrypt_control_record_stored:
  assumes "encrypt_control_record C pc s n t p = Inr bs"
  obtains nonce k c tag where
    "active_epoch_keys s = Inr k"
    "nonce = take 24 (keyed_hash C (nonce_key k)
       (as_bytes (derive_control_object_id C s n t p) @ as_bytes t @ as_bytes ''control-record''))"
    "aead_seal C (manifest_enc_key k) nonce
       (control_record_associated_data s (derive_control_object_id C s n t p) t (active_epoch s)) p = Some (c, tag)"
    "bs = to_vec pc \<lparr> cr_magic = control_ref_magic, cr_format_version = control_ref_format_version,
       cr_object_type = t, cr_crypto_suite = crypto_suite_name, cr_key_epoch = active_epoch s,
       cr_object_id = derive_control_object_id C s n t p, cr_nonce = nonce, cr_ciphertext = c,
       cr_auth_tag = tag \<rparr>"
  using assms that
  by (auto simp: encrypt_control_record_def derive_control_nonce_def Let_def rbind_Inr_iff ok_or_Inr_iff)

lemma decrypt_control_record_Inr:
  assumes "decrypt_control_record C pc s n t bs = Inr p"
  shows "\<exists>e k. from_slice pc bs = Some e \<and> cr_object_type e = t \<and>
    cr_object_id e = derive_control_object_id C s n t p \<and>
    map_of (epoch_keys_of s) (cr_key_epoch e) = Some k \<and>
    aead_open C (manifest_enc_key k) (cr_nonce e)
      (control_record_associated_data s (cr_object_id e) t (cr_key_epoch e)) (cr_ciphertext e) (cr_auth_tag e)
      = Some p"
  using assms
  by (auto simp: decrypt_control_record_def rbind_Inr_iff ok_or_Inr_iff with_context_Inr_iff
      epoch_keys_def split: if_splits)

lemma decrypt_of_encrypted:
  assumes crypto: "crypto_ok C" and pc: "serde_ok pc"
    and enc: "encrypt_control_record C pc s n t p = Inr bs"
  shows "decrypt_control_record C pc s n' t' bs =
    (if t' = t \<and> derive_control_object_id C s n' t p = derive_control_object_id C s n t p
     then Inr p else Inl ref_auth_failed)"
proof -
  let ?i = "derive_control_object_id C s n t p"
  from enc obtain nonce k c tag where
    k: "active_epoch_keys s = Inr k"
    and nonce: "nonce = take 24 (keyed_hash C (nonce_key k) (as_bytes ?i @ as_bytes t @ as_bytes ''control-record''))"
    and seal: "aead_seal C (manifest_enc_key k) nonce (control_record_associated_data s ?i t (active_epoch s)) p
      = Some (c, tag)"
    and bs: "bs = to_vec pc \<lparr> cr_magic = control_ref_magic, cr_format_version = control_ref_format_version,
       cr_object_type = t, cr_crypto_suite = crypto_suite_name, cr_key_epoch = active_epoch s,
       cr_object_id = ?i, cr_nonce = nonce, cr_ciphertext = c, cr_auth_tag = tag \<rparr>"
    by (rule encrypt_control_record_stored)
  have facts: "length nonce = 24" "length tag = 16"
    "aead_open C (manifest_enc_key k) nonce (control_record_associated_data s ?i t (active_epoch s)) c tag = Some p"
    using crypto seal by (auto simp: crypto_ok_def nonce)
  have ep: "epoch_keys s (active_epoch s) = Inr k" using k by (simp add: active_epoch_keys_def)
  show ?thesis
  proof (cases "t' = t")
    case True
    show ?thesis unfolding True by (simp add: decrypt_control_record_def bs serde_okD [OF pc] facts ep)
  next
    case False
    then show ?thesis by (simp add: decrypt_control_record_def bs serde_okD [OF pc])
  qed
qed

lemma decrypt_encrypted:
  "crypto_ok C \<Longrightarrow> serde_ok pc \<Longrightarrow> encrypt_control_record C pc s n t p = Inr bs \<Longrightarrow>
     decrypt_control_record C pc s n t bs = Inr p"
  using decrypt_of_encrypted [of C pc s n t p bs n t] by simp

text \<open>C12: Control records are bound to their name and type. What is encrypted under a name and a type
  is decrypted under them to the same plaintext; it is refused under every other type; and if it
  is accepted under another name, then the keyed hashes of the two names (with that type and
  plaintext) coincide.\<close>

theorem control_record_bound_to_name:
  assumes crypto: "crypto_ok C" and pc: "serde_ok pc"
    and enc: "encrypt_control_record C pc s n t p = Inr bs"
  shows "decrypt_control_record C pc s n t bs = Inr p \<and>
    (\<forall>n' t'. t' \<noteq> t \<longrightarrow> decrypt_control_record C pc s n' t' bs = Inl (Bail ''ref authentication failed'')) \<and>
    (\<forall>n' q. decrypt_control_record C pc s n' t bs = Inr q \<longrightarrow> q = p \<and>
       derive_control_object_id C s n' t p = derive_control_object_id C s n t p)"
  using decrypt_of_encrypted [OF assms] by (auto split: if_splits)

instance encrypted_control_record_ext :: (countable) countable
  by (rule countable_classI [of "\<lambda>r. to_nat (cr_magic r, cr_format_version r, cr_object_type r,
        cr_crypto_suite r, cr_key_epoch r, cr_object_id r, cr_nonce r, cr_ciphertext r, cr_auth_tag r,
        encrypted_control_record.more r)"]) auto

theorem control_record_bound_to_name_witness:
  "\<exists>bs. encrypt_control_record plain_crypto unary_codec sample_secrets ''n'' ''ref'' [9] = Inr bs \<and>
     decrypt_control_record plain_crypto unary_codec sample_secrets ''n'' ''ref'' bs = Inr [9]"
proof -
  obtain bs where enc: "encrypt_control_record plain_crypto unary_codec sample_secrets ''n'' ''ref'' [9] = Inr bs"
    by (simp add: encrypt_control_record_def derive_control_nonce_def active_epoch_keys_def epoch_keys_def
        sample_secrets_def plain_crypto_def Let_def)
  from control_record_bound_to_name [OF plain_crypto_ok serde_ok_unary enc] enc show ?thesis by blast
qed

end
