(* ===== verification/Pack.thy ===== *)
theory Pack
  imports Envelope Memory_Backend
begin

text \<open>
  Packed objects (\<^verbatim>\<open>e2v-sync/src/pack.rs\<close>): building a pack and its index, reading an index
  back into locations with all its checks, reading one object out of a pack, and the upload of
  a set of objects as loose files or packs (\<^verbatim>\<open>e2v-sync/src/push.rs\<close>). Generic in the backend.
\<close>

section \<open>Packs and their index\<close>

definition pack_schema_version :: u32 where "pack_schema_version = 1"

definition remote_pack_data_prefix :: string where "remote_pack_data_prefix = ''packs/data/''"

definition remote_pack_index_prefix :: string where "remote_pack_index_prefix = ''packs/index/''"

record object_pack_entry =
  pe_object_id :: string
  pe_offset :: u64
  pe_length :: u64

record object_pack_index =
  pi_schema_version :: u32
  pi_pack_id :: string
  pi_data_path :: string
  pi_entries :: "object_pack_entry list"

instance object_pack_entry_ext :: (countable) countable
  by (rule countable_classI [of "\<lambda>r. to_nat (pe_object_id r, pe_offset r, pe_length r, object_pack_entry.more r)"]) auto

instance object_pack_index_ext :: (countable) countable
  by (rule countable_classI [of "\<lambda>r. to_nat (pi_schema_version r, pi_pack_id r, pi_data_path r, pi_entries r,
        object_pack_index.more r)"]) auto

record packed_object_location =
  loc_data_path :: string
  loc_offset :: nat
  loc_length :: nat

type_synonym locations = "(string, packed_object_location) btree"

definition location_validate :: "packed_object_location \<Rightarrow> unit res" where
  "location_validate l =
     ensure (starts_with (loc_data_path l) remote_pack_data_prefix) (Bail ''invalid pack data path'')
     (rbind (validate_pack_relative_path
               (case strip_prefix remote_pack_data_prefix (loc_data_path l) of Some r \<Rightarrow> r | None \<Rightarrow> []))
       (\<lambda>_. Inr ()))"

definition location_physical_ref :: "packed_object_location \<Rightarrow> physical_object_ref res" where
  "location_physical_ref l =
     rbind (location_validate l) (\<lambda>_.
     with_context ''packed object locations must resolve through pack storage layout''
       (pack_resolve (PackedObject (loc_data_path l) (of_nat (loc_offset l)) (of_nat (loc_length l)))))"

definition pack_paths :: "string \<Rightarrow> nat \<Rightarrow> (string \<times> string \<times> string) res" where
  "pack_paths operation_id batch_index =
     rbind (validate_sync_identifier operation_id) (\<lambda>_.
     (let pack_id = operation_id @ ''-'' @ padded 8 batch_index
      in Inr (pack_id, remote_pack_data_prefix @ pack_id @ ''.bin'',
              remote_pack_index_prefix @ pack_id @ ''.json'')))"

record object_pack_builder =
  pb_pack_id :: string
  pb_data_path :: string
  pb_entries :: "object_pack_entry list"
  pb_payload :: "byte list"

definition builder_new :: "string \<Rightarrow> nat \<Rightarrow> object_pack_builder res" where
  "builder_new operation_id batch_index =
     rbind (pack_paths operation_id batch_index) (\<lambda>(pack_id, data_path, index_path).
     Inr \<lparr> pb_pack_id = pack_id, pb_data_path = data_path, pb_entries = [], pb_payload = [] \<rparr>)"

definition builder_push_object :: "string \<Rightarrow> byte list \<Rightarrow> object_pack_builder \<Rightarrow> object_pack_builder" where
  "builder_push_object object_id bytes b =
     b\<lparr> pb_entries := pb_entries b @ [\<lparr> pe_object_id = object_id,
            pe_offset = of_nat (length (pb_payload b)), pe_length = of_nat (length bytes) \<rparr>],
        pb_payload := pb_payload b @ bytes \<rparr>"

definition builder_finish :: "object_pack_builder \<Rightarrow> object_pack_index \<times> byte list" where
  "builder_finish b =
     (\<lparr> pi_schema_version = pack_schema_version, pi_pack_id = pb_pack_id b,
        pi_data_path = pb_data_path b, pi_entries = pb_entries b \<rparr>, pb_payload b)"

section \<open>Reading an index and an object\<close>

definition read_packed_object ::
  "'s remote \<Rightarrow> locations \<Rightarrow> string \<Rightarrow> 's \<Rightarrow> byte list option res" where
  "read_packed_object R locs object_id s =
     (case map_of locs object_id of
        None \<Rightarrow> Inr None
      | Some l \<Rightarrow>
          rbind (r_get_range R (loc_data_path l) (loc_offset l) (loc_length l) s) (\<lambda>bytes.
          Inr (Some bytes)))"

definition ascii_hexdigit :: "char \<Rightarrow> bool" where
  "ascii_hexdigit c \<longleftrightarrow>
     (let n = of_char c :: nat in (48 \<le> n \<and> n \<le> 57) \<or> (65 \<le> n \<and> n \<le> 70) \<or> (97 \<le> n \<and> n \<le> 102))"

text \<open>The loop over the entries of an index; \<open>previous_end\<close> is where the last entry ended.\<close>

fun append_entries ::
  "string \<Rightarrow> u64 \<Rightarrow> u64 \<Rightarrow> object_pack_entry list \<Rightarrow> locations \<Rightarrow> locations res" where
  "append_entries data_path pack_len previous_end [] locs = Inr locs"
| "append_entries data_path pack_len previous_end (entry # entries) locs =
     ensure (pe_object_id entry \<noteq> [] \<and> list_all ascii_hexdigit (pe_object_id entry))
       (Bail ''invalid packed object id'')
     (rbind (ok_or (Bail ''invalid pack entry range'') (checked_add (pe_offset entry) (pe_length entry)))
       (\<lambda>entry_end.
     ensure (0 < pe_length entry) (Bail ''invalid pack entry range'')
     (ensure (previous_end \<le> pe_offset entry) (Bail ''pack entry overlap detected'')
     (ensure (entry_end \<le> pack_len) (Bail ''pack entry range out of bounds'')
     (ensure (map_of locs (pe_object_id entry) = None) (Bail ''duplicate packed object id'')
     (append_entries data_path pack_len entry_end entries
        (bt_insert (pe_object_id entry)
           \<lparr> loc_data_path = data_path, loc_offset = unat (pe_offset entry),
             loc_length = unat (pe_length entry) \<rparr> locs)))))))"

definition append_pack_index_locations ::
  "'s remote \<Rightarrow> object_pack_index \<Rightarrow> locations \<Rightarrow> 's \<Rightarrow> locations res" where
  "append_pack_index_locations R index locs s =
     ensure (pi_schema_version index = pack_schema_version)
       (Bail ''unsupported pack index schema version'')
     (ensure (starts_with (pi_data_path index) remote_pack_data_prefix) (Bail ''invalid pack data path'')
     (rbind (validate_pack_relative_path
               (case strip_prefix remote_pack_data_prefix (pi_data_path index) of
                  Some r \<Rightarrow> r | None \<Rightarrow> [])) (\<lambda>_.
      rbind (r_stat R (pi_data_path index) s) (\<lambda>st.
      append_entries (pi_data_path index) (stat_length st) 0 (pi_entries index) locs))))"

definition append_pack_index_locations_from_bytes ::
  "object_pack_index serde \<Rightarrow> 's remote \<Rightarrow> byte list \<Rightarrow> locations \<Rightarrow> 's \<Rightarrow> locations res" where
  "append_pack_index_locations_from_bytes json R index_bytes locs s =
     rbind (with_context ''failed to decode authenticated pack index segment''
              (ok_or (Bail ''invalid json'') (from_slice json index_bytes))) (\<lambda>index.
     append_pack_index_locations R index locs s)"

section \<open>Uploading objects\<close>

definition small_object_pack_batch_size :: nat where "small_object_pack_batch_size = 256"
definition small_object_max_bytes :: nat where "small_object_max_bytes = 1024 * 1024"
definition small_object_pack_threshold :: nat where "small_object_pack_threshold = 100000"
definition small_push_pack_threshold :: nat where "small_push_pack_threshold = 2"

text \<open>
  What an upload works with: the backend, the local object files, and the secrets, cryptography
  and codecs that seal an index segment.
\<close>

record 's upload_env =
  up_remote :: "'s remote"
  up_local :: files
  up_secrets :: repo_secrets
  up_crypto :: crypto
  up_postcard :: "encrypted_control_record serde"
  up_index_json :: "object_pack_index serde"

definition at_remote :: "('s, 'a) prog \<Rightarrow> ('s \<times> 'j, 'a) prog" where
  "at_remote m w = (fst (m (fst w)), (snd (m (fst w)), snd w))"

definition encode_pack_index_segment_bytes :: "'s upload_env \<Rightarrow> string \<Rightarrow> byte list \<Rightarrow> byte list res" where
  "encode_pack_index_segment_bytes U segment_path plaintext =
     encrypt_control_record (up_crypto U) (up_postcard U) (up_secrets U)
       (''pack-index-segment:'' @ segment_path) ''pack-index-segment'' plaintext"

definition decode_pack_index_segment_plaintext :: "'s upload_env \<Rightarrow> string \<Rightarrow> byte list \<Rightarrow> byte list res" where
  "decode_pack_index_segment_plaintext U segment_path bytes =
     with_context ''failed to decrypt authenticated pack index segment''
       (decrypt_control_record (up_crypto U) (up_postcard U) (up_secrets U)
          (''pack-index-segment:'' @ segment_path) ''pack-index-segment'' bytes)"

definition pack_locations_from_index :: "object_pack_index \<Rightarrow> locations res" where
  "pack_locations_from_index index =
     foldl (\<lambda>acc entry. rbind acc (\<lambda>locs.
        (let l = \<lparr> loc_data_path = pi_data_path index, loc_offset = unat (pe_offset entry),
                   loc_length = unat (pe_length entry) \<rparr>
         in rbind (location_validate l) (\<lambda>_.
            ensure (map_of locs (pe_object_id entry) = None) (Bail ''duplicate packed object id'')
            (Inr (bt_insert (pe_object_id entry) l locs))))))
       (Inr []) (pi_entries index)"

definition next_pack_batch_index :: "'s remote \<Rightarrow> string \<Rightarrow> 's \<Rightarrow> nat res" where
  "next_pack_batch_index R operation_id s =
     rbind (r_list R ''packs/index/'' s) (\<lambda>paths.
     Inr (length (filter (\<lambda>path. starts_with path (''packs/index/'' @ operation_id @ ''-'')) paths)))"

definition should_pack_small_objects :: "nat \<Rightarrow> bool" where
  "should_pack_small_objects object_count = (small_object_pack_threshold \<le> object_count)"

fun count_pack_eligible :: "files \<Rightarrow> nat \<Rightarrow> string list \<Rightarrow> bool res" where
  "count_pack_eligible local n [] = Inr False"
| "count_pack_eligible local n (i # is) =
     rbind (validate_object_id_value i) (\<lambda>_.
     rbind (fs_read (relative_object_path i) local) (\<lambda>bytes.
     if length bytes \<le> small_object_max_bytes then
       (if small_push_pack_threshold \<le> n + 1 then Inr True else count_pack_eligible local (n + 1) is)
     else count_pack_eligible local n is))"

definition should_pack_current_upload_set :: "files \<Rightarrow> string list \<Rightarrow> nat \<Rightarrow> bool res" where
  "should_pack_current_upload_set local missing_object_ids total_object_count_hint =
     (if should_pack_small_objects total_object_count_hint then Inr True
      else count_pack_eligible local 0 missing_object_ids)"

definition inventory_has_object :: "string list \<Rightarrow> locations \<Rightarrow> string \<Rightarrow> bool" where
  "inventory_has_object loose locs object_id = (object_id \<in> set loose \<or> map_of locs object_id \<noteq> None)"

definition verify_remote_reachable_objects :: "string list \<Rightarrow> locations \<Rightarrow> string list \<Rightarrow> unit res" where
  "verify_remote_reachable_objects loose locs object_ids =
     (if list_all (inventory_has_object loose locs) object_ids then Inr ()
      else Inl (Bail ''pre-commit verify failed: reachable object missing from remote''))"

record published_pack_uploads =
  pub_index_paths :: "string list"
  pub_locations :: locations

text \<open>\<^verbatim>\<open>BTreeMap::extend\<close>\<close>

definition bt_extend :: "('k::linorder, 'v) btree \<Rightarrow> ('k, 'v) btree \<Rightarrow> ('k, 'v) btree" where
  "bt_extend m n = foldl (\<lambda>acc kv. bt_insert (fst kv) (snd kv) acc) m n"


record published_pack_batch =
  batch_index_path :: string
  batch_locations :: locations

text \<open>
  The loop over one batch: a small object goes into the pack under construction (when there is
  one), any other object is put at once. \<open>on_uploaded\<close> is the caller's callback, which may change
  the local journal \<open>'j\<close>.
\<close>

fun upload_batch_loop ::
  "'s upload_env \<Rightarrow> (string \<Rightarrow> ('s \<times> 'j, unit) prog) \<Rightarrow> object_pack_builder option \<Rightarrow> string list \<Rightarrow>
   string list \<Rightarrow> ('s \<times> 'j, object_pack_builder option \<times> string list) prog" where
  "upload_batch_loop U on_uploaded builder packed [] = sret (builder, packed)"
| "upload_batch_loop U on_uploaded builder packed (object_id # object_ids) =
     sbind (slift (validate_object_id_value object_id)) (\<lambda>_.
     sbind (slift (fs_read (relative_object_path object_id) (up_local U))) (\<lambda>bytes.
     (case builder of
        Some b \<Rightarrow>
          if length bytes \<le> small_object_max_bytes then
            upload_batch_loop U on_uploaded (Some (builder_push_object object_id bytes b))
              (packed @ [object_id]) object_ids
          else
            sbind (at_remote (r_put (up_remote U) (relative_object_path object_id) bytes)) (\<lambda>_.
            sbind (on_uploaded object_id) (\<lambda>_.
            upload_batch_loop U on_uploaded builder packed object_ids))
      | None \<Rightarrow>
          sbind (at_remote (r_put (up_remote U) (relative_object_path object_id) bytes)) (\<lambda>_.
          sbind (on_uploaded object_id) (\<lambda>_.
          upload_batch_loop U on_uploaded builder packed object_ids)))))"

text \<open>
  Publishing a finished pack: the data file, then the sealed index segment, so that an index
  never names a data file that is not there.
\<close>

definition publish_pack ::
  "'s upload_env \<Rightarrow> string \<Rightarrow> nat \<Rightarrow> object_pack_builder \<Rightarrow> ('s \<times> 'j, published_pack_batch) prog" where
  "publish_pack U operation_id pack_batch_index builder =
     (let (index, payload) = builder_finish builder in
      sbind (slift (pack_locations_from_index index)) (\<lambda>locs.
      sbind (slift (pack_paths operation_id pack_batch_index)) (\<lambda>(pack_id, data_path, index_path).
      sbind (at_remote (r_put (up_remote U) data_path payload)) (\<lambda>_.
      sbind (slift (encode_pack_index_segment_bytes U index_path (to_vec (up_index_json U) index)))
        (\<lambda>segment.
      sbind (at_remote (r_put (up_remote U) index_path segment)) (\<lambda>_.
      sret \<lparr> batch_index_path = index_path, batch_locations = locs \<rparr>))))))"

definition upload_object_batch ::
  "'s upload_env \<Rightarrow> string \<Rightarrow> string list \<Rightarrow> bool \<Rightarrow> nat \<Rightarrow> (string \<Rightarrow> ('s \<times> 'j, unit) prog) \<Rightarrow>
   ('s \<times> 'j, nat \<times> published_pack_batch option) prog" where
  "upload_object_batch U operation_id object_ids pack_enabled pack_batch_index on_uploaded =
     sbind (slift (if pack_enabled
                   then rbind (builder_new operation_id pack_batch_index) (\<lambda>b. Inr (Some b))
                   else Inr None)) (\<lambda>builder.
     sbind (upload_batch_loop U on_uploaded builder [] object_ids) (\<lambda>(builder, packed).
     (case builder of
        Some b \<Rightarrow>
          if packed = [] then sret (pack_batch_index, None)
          else
            sbind (publish_pack U operation_id pack_batch_index b) (\<lambda>batch.
            sbind (for_each on_uploaded packed) (\<lambda>_.
            sret (pack_batch_index + 1, Some batch)))
      | None \<Rightarrow> sret (pack_batch_index, None))))"

text \<open>\<^verbatim>\<open>slice::chunks\<close>\<close>

function chunks :: "nat \<Rightarrow> 'a list \<Rightarrow> 'a list list" where
  "chunks n xs = (if n = 0 \<or> xs = [] then [] else take n xs # chunks n (drop n xs))"
  by pat_completeness auto
termination by (relation "measure (\<lambda>(n, xs). length xs)") auto

declare chunks.simps [simp del]

fun upload_batches ::
  "'s upload_env \<Rightarrow> string \<Rightarrow> bool \<Rightarrow> (string \<Rightarrow> ('s \<times> 'j, unit) prog) \<Rightarrow> nat \<Rightarrow>
   published_pack_uploads \<Rightarrow> string list list \<Rightarrow> ('s \<times> 'j, published_pack_uploads) prog" where
  "upload_batches U operation_id pack_enabled on_uploaded pack_batch_index acc [] = sret acc"
| "upload_batches U operation_id pack_enabled on_uploaded pack_batch_index acc (batch # batches) =
     sbind (upload_object_batch U operation_id batch pack_enabled pack_batch_index on_uploaded)
       (\<lambda>(pack_batch_index', published).
     upload_batches U operation_id pack_enabled on_uploaded pack_batch_index'
       (case published of
          None \<Rightarrow> acc
        | Some b \<Rightarrow> \<lparr> pub_index_paths = pub_index_paths acc @ [batch_index_path b],
                      pub_locations = bt_extend (pub_locations acc) (batch_locations b) \<rparr>)
       batches)"

definition upload_objects_with_policy ::
  "'s upload_env \<Rightarrow> string \<Rightarrow> string list \<Rightarrow> bool \<Rightarrow> (string \<Rightarrow> ('s \<times> 'j, unit) prog) \<Rightarrow>
   ('s \<times> 'j, published_pack_uploads) prog" where
  "upload_objects_with_policy U operation_id object_ids pack_enabled on_uploaded =
     (if object_ids = [] then sret \<lparr> pub_index_paths = [], pub_locations = [] \<rparr>
      else
        sbind (if pack_enabled
               then sread (\<lambda>w. next_pack_batch_index (up_remote U) operation_id (fst w))
               else sret 0) (\<lambda>pack_batch_index.
        upload_batches U operation_id pack_enabled on_uploaded pack_batch_index
          \<lparr> pub_index_paths = [], pub_locations = [] \<rparr>
          (chunks small_object_pack_batch_size object_ids)))"

text \<open>The segment-only upload of the oblivious layout: every object, whatever its size, is packed.\<close>

fun push_all_objects :: "files \<Rightarrow> object_pack_builder \<Rightarrow> string list \<Rightarrow> object_pack_builder res" where
  "push_all_objects local builder [] = Inr builder"
| "push_all_objects local builder (object_id # object_ids) =
     rbind (validate_object_id_value object_id) (\<lambda>_.
     rbind (fs_read (relative_object_path object_id) local) (\<lambda>bytes.
     push_all_objects local (builder_push_object object_id bytes builder) object_ids))"

fun upload_segments ::
  "'s upload_env \<Rightarrow> string \<Rightarrow> (string \<Rightarrow> ('s \<times> 'j, unit) prog) \<Rightarrow> nat \<Rightarrow>
   published_pack_uploads \<Rightarrow> string list list \<Rightarrow> ('s \<times> 'j, published_pack_uploads) prog" where
  "upload_segments U operation_id on_uploaded pack_batch_index acc [] = sret acc"
| "upload_segments U operation_id on_uploaded pack_batch_index acc (batch # batches) =
     sbind (slift (builder_new operation_id pack_batch_index)) (\<lambda>empty.
     sbind (slift (push_all_objects (up_local U) empty batch)) (\<lambda>builder.
     sbind (publish_pack U operation_id pack_batch_index builder) (\<lambda>b.
     sbind (for_each on_uploaded batch) (\<lambda>_.
     upload_segments U operation_id on_uploaded (pack_batch_index + 1)
       \<lparr> pub_index_paths = pub_index_paths acc @ [batch_index_path b],
         pub_locations = bt_extend (pub_locations acc) (batch_locations b) \<rparr>
       batches))))"

definition upload_objects_as_pack_segments ::
  "'s upload_env \<Rightarrow> string \<Rightarrow> string list \<Rightarrow> (string \<Rightarrow> ('s \<times> 'j, unit) prog) \<Rightarrow>
   ('s \<times> 'j, published_pack_uploads) prog" where
  "upload_objects_as_pack_segments U operation_id object_ids on_uploaded =
     (if object_ids = [] then sret \<lparr> pub_index_paths = [], pub_locations = [] \<rparr>
      else
        sbind (sread (\<lambda>w. next_pack_batch_index (up_remote U) operation_id (fst w))) (\<lambda>pack_batch_index.
        upload_segments U operation_id on_uploaded pack_batch_index
          \<lparr> pub_index_paths = [], pub_locations = [] \<rparr>
          (chunks small_object_pack_batch_size object_ids)))"

end
