(* ===== verification/Pack_Proofs.thy ===== *)
theory Pack_Proofs
  imports Pack
begin

text \<open>
  What packs guarantee: the shape of a pack that was built, the meaning of an index that was
  accepted, and what an upload leaves in the backend. The upload lemmas are proved for every
  backend that keeps the contract of \<open>blob_store\<close>.
\<close>

section \<open>The entries of a pack under construction\<close>

fun entries_of :: "nat \<Rightarrow> (string \<times> byte list) list \<Rightarrow> object_pack_entry list" where
  "entries_of off [] = []"
| "entries_of off ((i, b) # objs) =
     \<lparr> pe_object_id = i, pe_offset = of_nat off, pe_length = of_nat (length b) \<rparr>
     # entries_of (off + length b) objs"

definition add_objects :: "(string \<times> byte list) list \<Rightarrow> object_pack_builder \<Rightarrow> object_pack_builder" where
  "add_objects objs b =
     b\<lparr> pb_entries := pb_entries b @ entries_of (length (pb_payload b)) objs,
        pb_payload := pb_payload b @ concat (map snd objs) \<rparr>"

lemma add_objects_Nil [simp]: "add_objects [] b = b"
  by (simp add: add_objects_def)

lemma add_objects_Cons:
  "add_objects objs (builder_push_object i bytes b) = add_objects ((i, bytes) # objs) b"
  by (simp add: add_objects_def builder_push_object_def)

lemma ids_entries_of [simp]: "map pe_object_id (entries_of off objs) = map fst objs"
  by (induction off objs rule: entries_of.induct) auto

lemma entries_of_split:
  "e \<in> set (entries_of off objs) \<Longrightarrow> \<exists>xs i b ys. objs = xs @ (i, b) # ys \<and>
     e = \<lparr> pe_object_id = i, pe_offset = of_nat (off + length (concat (map snd xs))),
           pe_length = of_nat (length b) \<rparr>"
proof (induction off objs rule: entries_of.induct)
  case (2 off i b objs)
  show ?case
  proof (cases "e \<in> set (entries_of (off + length b) objs)")
    case True
    with 2 obtain xs j c ys where "objs = xs @ (j, c) # ys"
      "e = \<lparr> pe_object_id = j, pe_offset = of_nat (off + length b + length (concat (map snd xs))),
             pe_length = of_nat (length c) \<rparr>" by blast
    then show ?thesis
      by (intro exI [of _ "(i, b) # xs"] exI [of _ j] exI [of _ c] exI [of _ ys])
        (simp add: add.assoc)
  next
    case False
    with 2 show ?thesis
      by (intro exI [of _ "[]"] exI [of _ i] exI [of _ b] exI [of _ objs]) auto
  qed
qed simp

section \<open>The locations an index gives\<close>

definition entry_location :: "string \<Rightarrow> object_pack_entry \<Rightarrow> packed_object_location" where
  "entry_location data_path e =
     \<lparr> loc_data_path = data_path, loc_offset = unat (pe_offset e), loc_length = unat (pe_length e) \<rparr>"

definition add_entries :: "string \<Rightarrow> object_pack_entry list \<Rightarrow> locations \<Rightarrow> locations" where
  "add_entries data_path es locs =
     foldl (\<lambda>m e. bt_insert (pe_object_id e) (entry_location data_path e) m) locs es"

lemma add_entries_simps [simp]:
  "add_entries dp [] locs = locs"
  "add_entries dp (e # es) locs =
     add_entries dp es (bt_insert (pe_object_id e) (entry_location dp e) locs)"
  by (simp_all add: add_entries_def)

lemma add_entries_ok: "bt_ok locs \<Longrightarrow> bt_ok (add_entries dp es locs)"
  by (induction es arbitrary: locs) auto

lemma map_of_add_entries:
  "bt_ok locs \<Longrightarrow> distinct (map pe_object_id es) \<Longrightarrow>
     map_of (add_entries dp es locs) =
       map_of locs ++ map_of (map (\<lambda>e. (pe_object_id e, entry_location dp e)) es)"
proof (induction es arbitrary: locs)
  case (Cons e es)
  have "pe_object_id e \<notin> dom (map_of (map (\<lambda>e. (pe_object_id e, entry_location dp e)) es))"
    using Cons.prems(2) by (simp add: dom_map_of_conv_image_fst image_image)
  with Cons show ?case by (auto simp: map_of_bt_insert map_add_def fun_eq_iff split: option.splits)
qed simp

lemma map_of_add_entries_Nil:
  assumes "distinct (map pe_object_id es)"
  shows "map_of (add_entries dp es []) i = Some l \<longleftrightarrow>
    (\<exists>e \<in> set es. pe_object_id e = i \<and> l = entry_location dp e)"
proof -
  have "distinct (map fst (map (\<lambda>e. (pe_object_id e, entry_location dp e)) es))"
    using assms by (simp add: comp_def)
  then have "map_of (add_entries dp es []) i = Some l \<longleftrightarrow>
      (i, l) \<in> set (map (\<lambda>e. (pe_object_id e, entry_location dp e)) es)"
    using assms by (simp only: map_of_add_entries bt_ok_Nil map_of.simps empty_map_add map_of_eq_Some_iff)
  then show ?thesis by auto
qed

section \<open>Accepted indexes\<close>

fun entries_in_order :: "u64 \<Rightarrow> nat \<Rightarrow> object_pack_entry list \<Rightarrow> bool" where
  "entries_in_order pack_len from [] = True"
| "entries_in_order pack_len from (e # es) =
     (pe_object_id e \<noteq> [] \<and> list_all ascii_hexdigit (pe_object_id e) \<and> 0 < unat (pe_length e) \<and>
      from \<le> unat (pe_offset e) \<and> unat (pe_offset e) + unat (pe_length e) \<le> unat pack_len \<and>
      entries_in_order pack_len (unat (pe_offset e) + unat (pe_length e)) es)"

lemma all_new_after_insert:
  "bt_ok locs \<Longrightarrow>
     (\<forall>e \<in> set es. map_of (bt_insert k v locs) (g e) = None) \<longleftrightarrow>
       k \<notin> set (map g es) \<and> (\<forall>e \<in> set es. map_of locs (g e) = None)"
  by (auto simp: map_of_bt_insert)

lemma append_entries_Inr_iff:
  "bt_ok locs \<Longrightarrow>
     append_entries dp pack_len from es locs = Inr l \<longleftrightarrow>
       entries_in_order pack_len (unat from) es \<and> distinct (map pe_object_id es) \<and>
       (\<forall>e \<in> set es. map_of locs (pe_object_id e) = None) \<and> l = add_entries dp es locs"
proof (induction es arbitrary: "from" locs)
  case (Cons e es)
  let ?stop = "pe_offset e + pe_length e"
  have fits: "checked_add (pe_offset e) (pe_length e) = Some w \<longleftrightarrow>
      w = ?stop \<and> unat ?stop = unat (pe_offset e) + unat (pe_length e)" for w
    by (auto simp: checked_add_Some_iff word_unat_eq_iff)
      (metis checked_add_Some_iff checked_add_def option.inject option.distinct(1))+
  have add: "unat ?stop = unat (pe_offset e) + unat (pe_length e)"
    if "unat (pe_offset e) + unat (pe_length e) \<le> unat pack_len"
    using that unsigned_less [of pack_len, where 'a = nat] by (intro unat_add_no_wrap) linarith
  let ?locs = "bt_insert (pe_object_id e) (entry_location dp e) locs"
  have IH: "append_entries dp pack_len ?stop es ?locs = Inr l \<longleftrightarrow>
      entries_in_order pack_len (unat ?stop) es \<and> distinct (map pe_object_id es) \<and>
      (\<forall>f \<in> set es. map_of ?locs (pe_object_id f) = None) \<and> l = add_entries dp es ?locs"
    using Cons by (intro Cons.IH) simp
  have step: "append_entries dp pack_len from (e # es) locs = Inr l \<longleftrightarrow>
      pe_object_id e \<noteq> [] \<and> list_all ascii_hexdigit (pe_object_id e) \<and>
      unat ?stop = unat (pe_offset e) + unat (pe_length e) \<and> 0 < pe_length e \<and> from \<le> pe_offset e \<and>
      ?stop \<le> pack_len \<and> map_of locs (pe_object_id e) = None \<and>
      append_entries dp pack_len ?stop es ?locs = Inr l"
    by (auto simp: rbind_Inr_iff ok_or_Inr_iff fits entry_location_def split: if_splits)
  show ?case
    unfolding step IH all_new_after_insert [OF Cons.prems]
    using add by (auto simp: word_less_nat_alt word_le_nat_alt)
qed auto

lemma entries_in_order_nth:
  "entries_in_order pack_len from es \<Longrightarrow> e \<in> set es \<Longrightarrow>
     from \<le> unat (pe_offset e) \<and> 0 < unat (pe_length e) \<and>
     unat (pe_offset e) + unat (pe_length e) \<le> unat pack_len"
  by (induction es arbitrary: "from") fastforce+

lemma entries_in_order_disjoint:
  "entries_in_order pack_len from es \<Longrightarrow> e \<in> set es \<Longrightarrow> f \<in> set es \<Longrightarrow> e \<noteq> f \<Longrightarrow>
     unat (pe_offset e) + unat (pe_length e) \<le> unat (pe_offset f) \<or>
     unat (pe_offset f) + unat (pe_length f) \<le> unat (pe_offset e)"
  by (induction es arbitrary: "from") (auto dest: entries_in_order_nth)

lemma entries_of_in_order:
  "\<forall>(i, b) \<in> set objs. i \<noteq> [] \<and> list_all ascii_hexdigit i \<and> b \<noteq> [] \<Longrightarrow>
     off + length (concat (map snd objs)) \<le> unat pack_len \<Longrightarrow> from \<le> off \<Longrightarrow>
     entries_in_order pack_len from (entries_of off objs)"
proof (induction off objs arbitrary: "from" rule: entries_of.induct)
  case (2 off i b objs)
  have "unat pack_len < 2 ^ 64" using unsigned_less [of pack_len, where 'a = nat] by simp
  then have "off < 2 ^ 64" "length b < 2 ^ 64" using "2.prems" by auto
  then have "unat (of_nat off :: u64) = off" "unat (of_nat (length b) :: u64) = length b"
    by (simp_all add: unat_of_nat)
  with 2 show ?case by simp
qed simp

lemma pack_locations_from_index_Inr:
  assumes "pack_locations_from_index index = Inr l"
  shows "l = add_entries (pi_data_path index) (pi_entries index) [] \<and>
    distinct (map pe_object_id (pi_entries index))"
proof -
  define step where "step = (\<lambda>acc (entry :: object_pack_entry). rbind acc (\<lambda>locs.
        (let l = \<lparr> loc_data_path = pi_data_path index, loc_offset = unat (pe_offset entry),
                   loc_length = unat (pe_length entry) \<rparr>
         in rbind (location_validate l) (\<lambda>_.
            ensure (map_of locs (pe_object_id entry) = None) (Bail ''duplicate packed object id'')
            (Inr (bt_insert (pe_object_id entry) l locs))))))"
  have fail: "foldl step (Inl e) es = Inl e" for e es by (induction es) (auto simp: step_def)
  have one: "step (Inr locs) e = Inr m \<Longrightarrow> map_of locs (pe_object_id e) = None \<and>
      m = bt_insert (pe_object_id e) (entry_location (pi_data_path index) e) locs" for locs m and e :: object_pack_entry
    by (auto simp: step_def Let_def rbind_Inr_iff entry_location_def split: if_splits)
  have "foldl step (Inr locs) es = Inr l \<Longrightarrow> bt_ok locs \<Longrightarrow>
      l = add_entries (pi_data_path index) es locs \<and> distinct (map pe_object_id es) \<and>
      (\<forall>e \<in> set es. map_of locs (pe_object_id e) = None)" for locs es
  proof (induction es arbitrary: locs)
    case (Cons e es)
    then obtain m where m: "step (Inr locs) e = Inr m"
      by (cases "step (Inr locs) e") (auto simp: fail)
    have "foldl step (Inr m) es = Inr l" "bt_ok m" using Cons.prems m one [OF m] by auto
    with Cons.IH have IH: "l = add_entries (pi_data_path index) es m" "distinct (map pe_object_id es)"
      "\<forall>e \<in> set es. map_of m (pe_object_id e) = None" by auto
    with one [OF m] all_new_after_insert [OF Cons.prems(2), of es] show ?case by simp
  qed simp
  from this [of "[]" "pi_entries index"] assms show ?thesis
    by (simp add: pack_locations_from_index_def step_def)
qed

section \<open>Reading an object out of a finished pack\<close>

text \<open>The location names bytes of a data file that are there, and they are \<open>b\<close>.\<close>

definition located ::
  "(string \<Rightarrow> (byte list \<times> nat) option) \<Rightarrow> packed_object_location \<Rightarrow> byte list \<Rightarrow> bool" where
  "located v l b \<longleftrightarrow> (\<exists>payload t. v (loc_data_path l) = Some (payload, t) \<and>
     loc_offset l + loc_length l \<le> length payload \<and> loc_offset l + loc_length l < 2 ^ 64 \<and>
     b = take (loc_length l) (drop (loc_offset l) payload))"

lemma located_cong: "v (loc_data_path l) = v' (loc_data_path l) \<Longrightarrow> located v l b \<longleftrightarrow> located v' l b"
  by (simp add: located_def)

lemma located_built:
  assumes v: "v dp = Some (concat (map snd objs), t)" and distinct: "distinct (map fst objs)"
    and small: "length (concat (map snd objs)) < 2 ^ 64"
    and loc: "map_of (add_entries dp (entries_of 0 objs) []) i = Some l"
  shows "\<exists>b. (i, b) \<in> set objs \<and> loc_data_path l = dp \<and> located v l b"
proof -
  obtain e where e: "e \<in> set (entries_of 0 objs)" "pe_object_id e = i" "l = entry_location dp e"
    using map_of_add_entries_Nil [of "entries_of 0 objs" dp i l] distinct loc by auto
  then obtain xs j b ys where objs: "objs = xs @ (j, b) # ys"
    and e': "e = \<lparr> pe_object_id = j, pe_offset = of_nat (0 + length (concat (map snd xs))),
                  pe_length = of_nat (length b) \<rparr>"
    using entries_of_split by blast
  have bounds: "length (concat (map snd xs)) + length b \<le> length (concat (map snd objs))"
    by (simp add: objs)
  then have "length (concat (map snd xs)) < 2 ^ 64" "length b < 2 ^ 64" using small by linarith+
  then have l: "l = \<lparr> loc_data_path = dp, loc_offset = length (concat (map snd xs)), loc_length = length b \<rparr>"
    by (simp add: e(3) entry_location_def e' unat_of_nat)
  have "located v l b"
    using v bounds small by (auto simp: located_def l objs)
  moreover have "(i, b) \<in> set objs" using e(2) e' objs by simp
  ultimately show ?thesis using l by auto
qed

lemma dom_built:
  assumes "distinct (map fst objs)" "i \<in> fst ` set objs"
  shows "map_of (add_entries dp (entries_of 0 objs) []) i \<noteq> None"
proof -
  have "pe_object_id ` set (entries_of 0 objs) = fst ` set objs" using ids_entries_of by (metis set_map)
  then obtain e where "e \<in> set (entries_of 0 objs)" "pe_object_id e = i" using assms(2) by (metis imageE)
  then show ?thesis
    using map_of_add_entries_Nil [of "entries_of 0 objs" dp i] assms(1) by auto
qed

context blob_store
begin

lemma read_located:
  assumes "ok s" "located (view s) l b" "map_of locs i = Some l"
  shows "read_packed_object R locs i s = Inr (Some b)"
proof -
  from assms(2) obtain payload t where "view s (loc_data_path l) = Some (payload, t)"
    and "loc_offset l + loc_length l \<le> length payload" "loc_offset l + loc_length l < 2 ^ 64"
    and "b = take (loc_length l) (drop (loc_offset l) payload)"
    by (auto simp: located_def)
  then show ?thesis
    using assms(3) get_range [OF assms(1), of "loc_data_path l" payload t "loc_offset l" "loc_length l"]
    by (simp add: read_packed_object_def usize_sat_add_def usize_max_def min_def)
qed

end

section \<open>What one batch leaves\<close>

text \<open>An object that lies loose in the backend with the bytes of its local file.\<close>

definition stored_loose ::
  "files \<Rightarrow> (string \<Rightarrow> (byte list \<times> nat) option) \<Rightarrow> string \<Rightarrow> bool" where
  "stored_loose local v i \<longleftrightarrow>
     (\<exists>b t. fs_read (relative_object_path i) local = Inr b \<and> v (relative_object_path i) = Some (b, t))"

lemma relative_object_path_inject [simp]: "relative_object_path i = relative_object_path j \<longleftrightarrow> i = j"
  by (simp add: relative_object_path_def)

definition data_path_of :: "string \<Rightarrow> nat \<Rightarrow> string" where
  "data_path_of op n = remote_pack_data_prefix @ op @ ''-'' @ padded 8 n @ ''.bin''"

lemma pack_path_facts [simp]:
  "data_path_of op m = data_path_of op n \<longleftrightarrow> m = n"
  "data_path_of op n \<noteq> relative_object_path i" "relative_object_path i \<noteq> data_path_of op n"
  by (simp_all add: data_path_of_def remote_pack_data_prefix_def relative_object_path_def)

lemma pack_paths_Inr:
  "pack_paths op n = Inr (pid, dp, ip) \<Longrightarrow> dp = data_path_of op n \<and>
     (\<forall>m. ip \<noteq> data_path_of op m \<and> data_path_of op m \<noteq> ip) \<and>
     (\<forall>i. ip \<noteq> relative_object_path i \<and> relative_object_path i \<noteq> ip)"
  by (auto simp: pack_paths_def data_path_of_def Let_def rbind_Inr_iff remote_pack_data_prefix_def
      remote_pack_index_prefix_def relative_object_path_def)

text \<open>
  The files that an upload is about: loose objects and pack data. A callback keeps the uploads when a
  successful run of it leaves these files as they are; it may change the journal and any other file
  of the backend, such as the markers of a transaction.
\<close>

definition upload_path :: "string \<Rightarrow> bool" where
  "upload_path p \<longleftrightarrow> (\<exists>i. p = relative_object_path i) \<or> (\<exists>op n. p = data_path_of op n)"

lemma upload_path_simps [simp]: "upload_path (relative_object_path i)" "upload_path (data_path_of op n)"
  by (auto simp: upload_path_def)

definition same_uploads ::
  "(string \<Rightarrow> (byte list \<times> nat) option) \<Rightarrow> (string \<Rightarrow> (byte list \<times> nat) option) \<Rightarrow> bool" where
  "same_uploads v v' \<longleftrightarrow> (\<forall>p. upload_path p \<longrightarrow> v' p = v p)"

definition keeps_uploads ::
  "('s \<Rightarrow> bool) \<Rightarrow> ('s \<Rightarrow> string \<Rightarrow> (byte list \<times> nat) option) \<Rightarrow>
   (string \<Rightarrow> ('s \<times> 'j, unit) prog) \<Rightarrow> bool" where
  "keeps_uploads ok view f \<longleftrightarrow> (\<forall>i s j s' j'. ok s \<longrightarrow> f i (s, j) = (Inr (), s', j') \<longrightarrow>
     ok s' \<and> same_uploads (view s) (view s'))"

lemma keeps_uploadsD:
  "keeps_uploads ok view f \<Longrightarrow> ok s \<Longrightarrow> f i (s, j) = (Inr (), s', j') \<Longrightarrow>
     ok s' \<and> same_uploads (view s) (view s')"
  unfolding keeps_uploads_def by blast

lemma for_each_keeps_uploads:
  "keeps_uploads ok view f \<Longrightarrow> ok s \<Longrightarrow> for_each f xs (s, j) = (Inr (), s', j') \<Longrightarrow>
     ok s' \<and> same_uploads (view s) (view s')"
proof (induction xs arbitrary: s j)
  case (Cons x xs)
  then obtain t k where one: "f x (s, j) = (Inr (), t, k)" and rest: "for_each f xs (t, k) = (Inr (), s', j')"
    by (auto simp: sbind_Inr_iff)
  have t: "ok t" "same_uploads (view s) (view t)" using keeps_uploadsD [OF Cons.prems(1,2) one] by auto
  with Cons.IH [OF Cons.prems(1) t(1) rest] show ?case by (simp add: same_uploads_def)
qed (simp add: same_uploads_def)

lemma stored_loose_same_uploads: "same_uploads v v' \<Longrightarrow> stored_loose local v' i \<longleftrightarrow> stored_loose local v i"
  by (simp add: same_uploads_def stored_loose_def)

context blob_store
begin

lemma sbind_at_remote_put:
  "ok s \<Longrightarrow> sbind (at_remote (r_put R p b)) f (s, j) = f () (snd (r_put R p b s), j)"
  using put [of s p b] by (auto simp: sbind_def at_remote_def)

lemma stored_loose_put_other:
  "ok s \<Longrightarrow> p \<noteq> relative_object_path i \<Longrightarrow> stored_loose local (view s) i \<Longrightarrow>
     stored_loose local (view (snd (r_put R p b s))) i"
  using put [of s p b] by (auto simp: stored_loose_def)

lemma stored_loose_put:
  assumes "ok s" "fs_read (relative_object_path j) local = Inr b"
  shows "stored_loose local (view (snd (r_put R (relative_object_path j) b s))) i \<longleftrightarrow>
    i = j \<or> stored_loose local (view s) i"
  using put [OF assms(1), of "relative_object_path j" b] assms(2) by (auto simp: stored_loose_def)

definition batch_effect ::
  "files \<Rightarrow> string list \<Rightarrow> (string \<times> byte list) list \<Rightarrow> 's \<Rightarrow> 's \<Rightarrow> bool" where
  "batch_effect local ids objs s s' \<longleftrightarrow>
     ok s' \<and> length objs \<le> length ids \<and>
     (\<forall>(i, b) \<in> set objs. fs_read (relative_object_path i) local = Inr b \<and> length b \<le> small_object_max_bytes) \<and>
     (\<forall>i \<in> set ids. i \<in> fst ` set objs \<or> stored_loose local (view s') i) \<and>
     (\<forall>i. stored_loose local (view s) i \<longrightarrow> stored_loose local (view s') i) \<and>
     (\<forall>op n. view s' (data_path_of op n) = view s (data_path_of op n))"

lemma batch_effect_Nil: "ok s \<Longrightarrow> batch_effect local [] [] s s"
  by (simp add: batch_effect_def)

lemma batch_effect_packed:
  "fs_read (relative_object_path i) local = Inr b \<Longrightarrow> length b \<le> small_object_max_bytes \<Longrightarrow>
     batch_effect local ids objs s s' \<Longrightarrow> batch_effect local (i # ids) ((i, b) # objs) s s'"
  by (auto simp: batch_effect_def)

lemma batch_effect_loose:
  assumes "ok s" "fs_read (relative_object_path i) local = Inr b"
    and "batch_effect local ids objs (snd (r_put R (relative_object_path i) b s)) s'"
  shows "batch_effect local (i # ids) objs s s'"
  using assms(3) put [OF assms(1), of "relative_object_path i" b] stored_loose_put [OF assms(1,2)]
  by (auto simp: batch_effect_def)

lemma batch_effect_callback:
  "same_uploads (view s) (view t) \<Longrightarrow> batch_effect local ids objs t s' \<Longrightarrow> batch_effect local ids objs s s'"
  using stored_loose_same_uploads [of "view s" "view t" local]
  by (simp add: batch_effect_def same_uploads_def)

lemma upload_batch_loop_effect:
  assumes "up_remote U = R" "keeps_uploads ok view f"
  shows "ok s \<Longrightarrow>
    upload_batch_loop U f builder packed ids (s, j) = (Inr (builder', packed'), s', j') \<Longrightarrow>
    \<exists>objs. batch_effect (up_local U) ids objs s s' \<and> packed' = packed @ map fst objs \<and>
      builder' = map_option (add_objects objs) builder \<and> (builder = None \<longrightarrow> objs = [])"
proof (induction ids arbitrary: builder packed s j)
  case Nil
  then show ?case
    by (intro exI [of _ "[]"]) (auto simp: batch_effect_Nil add_objects_def [abs_def] intro: option.map_ident [symmetric])
next
  case (Cons i ids)
  from Cons.prems(2) obtain b where b: "fs_read (relative_object_path i) (up_local U) = Inr b"
    by (auto split: sum.splits)
  have valid: "validate_object_id_value i = Inr ()"
    using Cons.prems(2) by (auto split: sum.splits)
  show ?case
  proof (cases "builder \<noteq> None \<and> length b \<le> small_object_max_bytes")
    case True
    then obtain bl where bl: "builder = Some bl" by auto
    have "upload_batch_loop U f (Some (builder_push_object i b bl)) (packed @ [i]) ids (s, j) =
        (Inr (builder', packed'), s', j')"
      using Cons.prems(2) True by (simp add: valid b bl)
    from Cons.IH [OF Cons.prems(1) this] obtain objs where
      "batch_effect (up_local U) ids objs s s'" "packed' = (packed @ [i]) @ map fst objs"
      "builder' = Some (add_objects objs (builder_push_object i b bl))" by auto
    with batch_effect_packed [OF b, of ids objs s s'] True show ?thesis
      by (intro exI [of _ "(i, b) # objs"]) (simp add: bl add_objects_Cons)
  next
    case False
    let ?s = "snd (r_put R (relative_object_path i) b s)"
    let ?rest = "sbind (f i) (\<lambda>_. upload_batch_loop U f builder packed ids)"
    have "sbind (at_remote (r_put R (relative_object_path i) b)) (\<lambda>_. ?rest) (s, j) =
        (Inr (builder', packed'), s', j')"
      using Cons.prems(2) False
      by (auto simp: valid b assms(1) split: option.splits)
    then have rest: "?rest (?s, j) = (Inr (builder', packed'), s', j')"
      by (simp add: sbind_at_remote_put [OF Cons.prems(1)])
    then obtain t k where one: "f i (?s, j) = (Inr (), t, k)"
      and loop: "upload_batch_loop U f builder packed ids (t, k) = (Inr (builder', packed'), s', j')"
      by (auto simp: sbind_Inr_iff)
    have "ok ?s" using put [OF Cons.prems(1)] by (metis snd_conv)
    from keeps_uploadsD [OF assms(2) this one] have t: "ok t" "same_uploads (view ?s) (view t)" by auto
    from Cons.IH [OF t(1) loop] obtain objs where "batch_effect (up_local U) ids objs t s'"
      and objs: "packed' = packed @ map fst objs" "builder' = map_option (add_objects objs) builder"
      "builder = None \<longrightarrow> objs = []" by blast
    from batch_effect_loose [OF Cons.prems(1) b batch_effect_callback [OF t(2) this(1)]] objs
    show ?thesis by blast
  qed
qed


lemma publish_pack_effect:
  assumes "up_remote U = R" "ok s" "publish_pack U op n b (s, j) = (Inr batch, s', j')"
  shows "ok s' \<and> (\<exists>pid segment. pack_paths op n = Inr (pid, data_path_of op n, batch_index_path batch) \<and>
      pack_locations_from_index (fst (builder_finish b)) = Inr (batch_locations batch) \<and>
      encode_pack_index_segment_bytes U (batch_index_path batch)
        (to_vec (up_index_json U) (fst (builder_finish b))) = Inr segment \<and>
      view s' = (view s)(data_path_of op n \<mapsto> (pb_payload b, now s),
                         batch_index_path batch \<mapsto> (segment, now s)))"
proof -
  let ?index = "fst (builder_finish b)"
  obtain pid dp ip where paths: "pack_paths op n = Inr (pid, dp, ip)"
    using assms(3) by (cases "pack_paths op n")
      (auto simp: publish_pack_def builder_finish_def split: sum.splits)
  have dp: "dp = data_path_of op n"
    using paths by (auto simp: pack_paths_def data_path_of_def Let_def rbind_Inr_iff)
  let ?s1 = "snd (r_put R dp (pb_payload b) s)"
  have ok1: "ok ?s1" "view ?s1 = (view s)(dp \<mapsto> (pb_payload b, now s))" "now ?s1 = now s"
    using put [OF assms(2), of dp "pb_payload b"] by auto
  obtain locs where locs: "pack_locations_from_index ?index = Inr locs"
    using assms(3) by (auto simp: publish_pack_def builder_finish_def split: sum.splits)
  obtain segment where seg: "encode_pack_index_segment_bytes U ip (to_vec (up_index_json U) ?index) = Inr segment"
    using assms(1,3) locs
    by (auto simp: publish_pack_def builder_finish_def paths sbind_at_remote_put [OF assms(2)] split: sum.splits)
  have "s' = snd (r_put R ip segment ?s1) \<and> batch = \<lparr> batch_index_path = ip, batch_locations = locs \<rparr>"
    using assms(1,3) locs seg
    by (auto simp: publish_pack_def builder_finish_def paths sbind_at_remote_put [OF assms(2)]
        sbind_at_remote_put [OF ok1(1)])
  then show ?thesis
    using put [OF ok1(1), of ip segment] ok1 locs seg paths dp by auto
qed


end

text \<open>
  \<open>packed_in local op n locs v\<close>: the locations are read from the packs of \<open>op\<close> below number \<open>n\<close>,
  and give the bytes of the local files.
\<close>

definition packed_in ::
  "files \<Rightarrow> string \<Rightarrow> nat \<Rightarrow> locations \<Rightarrow> (string \<Rightarrow> (byte list \<times> nat) option) \<Rightarrow> bool" where
  "packed_in local op n locs v \<longleftrightarrow> bt_ok locs \<and>
     (\<forall>i l. map_of locs i = Some l \<longrightarrow> (\<exists>k<n. loc_data_path l = data_path_of op k) \<and>
        (\<exists>b. fs_read (relative_object_path i) local = Inr b \<and> located v l b))"

lemma packed_in_frame:
  "packed_in local op n locs v \<Longrightarrow> n \<le> m \<Longrightarrow> (\<And>k. k < n \<Longrightarrow> v' (data_path_of op k) = v (data_path_of op k)) \<Longrightarrow>
     packed_in local op m locs v'"
  unfolding packed_in_def by (metis located_cong order_less_le_trans)

lemma map_of_bt_extend: "bt_ok m \<Longrightarrow> bt_ok n \<Longrightarrow> bt_ok (bt_extend m n) \<and> map_of (bt_extend m n) = map_of m ++ map_of n"
proof (induction n arbitrary: m)
  case (Cons kv n)
  obtain k v where kv: "kv = (k, v)" by (cases kv)
  have "bt_ok n" "k \<notin> dom (map_of n)"
    using Cons.prems(2) by (auto simp: bt_ok_def kv dom_map_of_conv_image_fst)
  then have "map_of (bt_insert k v m) ++ map_of n = map_of m ++ (map_of n)(k \<mapsto> v)"
    using Cons.prems(1) by (auto simp: map_of_bt_insert map_add_def fun_eq_iff split: option.splits)
  moreover have "bt_extend m (kv # n) = bt_extend (bt_insert k v m) n" by (simp add: bt_extend_def kv)
  ultimately show ?case
    using Cons.IH [of "bt_insert k v m"] Cons.prems(1) \<open>bt_ok n\<close> by (simp only: bt_ok_insert kv map_of.simps fst_conv snd_conv)
qed (simp add: bt_extend_def)

lemma packed_in_extend:
  assumes "packed_in local op n locs v" "packed_in local op n new v"
  shows "packed_in local op n (bt_extend locs new) v"
  using assms map_of_bt_extend [of locs new]
  by (auto simp: packed_in_def map_add_Some_iff)

lemma length_concat_le: "\<forall>x \<in> set xs. length x \<le> n \<Longrightarrow> length (concat xs) \<le> length xs * n"
  by (induction xs) auto

context blob_store
begin

lemma publish_built:
  assumes "up_remote U = R" "ok s" and built: "b = add_objects objs b0" and b0: "builder_new op n = Inr b0"
    and publish: "publish_pack U op n b (s, j) = (Inr batch, s', j')"
    and objs: "\<forall>(i, b) \<in> set objs. fs_read (relative_object_path i) (up_local U) = Inr b"
    and small: "length (concat (map snd objs)) < 2 ^ 64"
  shows "ok s' \<and> packed_in (up_local U) op (n + 1) (batch_locations batch) (view s') \<and>
    (\<forall>i \<in> fst ` set objs. map_of (batch_locations batch) i \<noteq> None) \<and>
    (\<forall>i. view s' (relative_object_path i) = view s (relative_object_path i)) \<and>
    (\<forall>m. m \<noteq> n \<longrightarrow> view s' (data_path_of op m) = view s (data_path_of op m))"
proof -
  obtain pid segment where eff: "ok s'" "pack_paths op n = Inr (pid, data_path_of op n, batch_index_path batch)"
    "pack_locations_from_index (fst (builder_finish b)) = Inr (batch_locations batch)"
    "view s' = (view s)(data_path_of op n \<mapsto> (pb_payload b, now s), batch_index_path batch \<mapsto> (segment, now s))"
    using publish_pack_effect [OF assms(1,2) publish] by blast
  note ip = pack_paths_Inr [OF eff(2)]
  have b: "pb_payload b = concat (map snd objs)" "pb_entries b = entries_of 0 objs"
    "pb_data_path b = data_path_of op n"
    using b0 eff(2) by (auto simp: built builder_new_def add_objects_def rbind_Inr_iff)
  have v: "view s' (data_path_of op n) = Some (concat (map snd objs), now s)"
    using ip by (simp add: eff(4) b)
  have locs: "batch_locations batch = add_entries (data_path_of op n) (entries_of 0 objs) []"
    and "distinct (map pe_object_id (entries_of 0 objs))"
    using pack_locations_from_index_Inr [OF eff(3)] by (simp_all add: builder_finish_def b)
  then have distinct: "distinct (map fst objs)" by (simp only: ids_entries_of)
  have "\<exists>b. fs_read (relative_object_path i) (up_local U) = Inr b \<and> loc_data_path l = data_path_of op n \<and>
      located (view s') l b" if "map_of (batch_locations batch) i = Some l" for i l
    using located_built [of "view s'", OF v distinct small that [unfolded locs]] objs by auto
  then have "packed_in (up_local U) op (n + 1) (batch_locations batch) (view s')"
    unfolding packed_in_def by (force simp: locs add_entries_ok)
  moreover have "\<forall>i \<in> fst ` set objs. map_of (batch_locations batch) i \<noteq> None"
    using dom_built [OF distinct] locs by simp
  ultimately show ?thesis
    using eff(1) ip by (auto simp: eff(4))
qed

text \<open>What an uploaded object is afterwards: loose, or in one of the packs of the operation.\<close>

lemma upload_object_batch_effect:
  assumes U: "up_remote U = R" "keeps_uploads ok view f" and ok: "ok s" and short: "length ids \<le> 256"
    and run: "upload_object_batch U op ids pack_enabled n f (s, j) = (Inr (n', out), s', j')"
  defines "new \<equiv> (case out of None \<Rightarrow> [] | Some batch \<Rightarrow> batch_locations batch)"
  shows "ok s' \<and> n \<le> n' \<and> packed_in (up_local U) op n' new (view s') \<and>
    (\<forall>i \<in> set ids. map_of new i \<noteq> None \<or> stored_loose (up_local U) (view s') i) \<and>
    (\<forall>i. stored_loose (up_local U) (view s) i \<longrightarrow> stored_loose (up_local U) (view s') i) \<and>
    (\<forall>k < n. view s' (data_path_of op k) = view s (data_path_of op k))"
proof -
  let ?start = "if pack_enabled then rbind (builder_new op n) (\<lambda>b. Inr (Some b)) else Inr None"
  from run obtain start where start: "?start = Inr start"
    by (cases ?start) (auto simp: upload_object_batch_def)
  from run obtain builder packed s1 j1 where
    loop: "upload_batch_loop U f start [] ids (s, j) = (Inr (builder, packed), s1, j1)"
    by (auto simp: upload_object_batch_def start sbind_Inr_iff)
  from upload_batch_loop_effect [OF U ok loop] obtain objs where
    eff: "batch_effect (up_local U) ids objs s s1" and packed: "packed = map fst objs"
    and builder: "builder = map_option (add_objects objs) start" "start = None \<longrightarrow> objs = []" by auto
  note e = eff [unfolded batch_effect_def]
  note rest = run [unfolded upload_object_batch_def, simplified start, simplified, unfolded sbind_Inr [where m = "upload_batch_loop U f start [] ids", OF loop]]
  show ?thesis
  proof (cases "objs = []")
    case True
    then have "out = None \<and> n' = n \<and> s' = s1"
      using rest by (auto simp: packed split: option.splits)
    with e True show ?thesis by (auto simp: new_def packed_in_def)
  next
    case False
    with builder obtain b0 where b0: "start = Some b0" "builder = Some (add_objects objs b0)"
      by (cases start) auto
    have new_b0: "builder_new op n = Inr b0" using start b0(1) by (auto simp: rbind_Inr_iff split: if_splits)
    obtain batch s2 j2 where
      publish: "publish_pack U op n (add_objects objs b0) (s1, j1) = (Inr batch, s2, j2)"
      and fin: "for_each f packed (s2, j2) = (Inr (), s', j')" and out: "out = Some batch" "n' = n + 1"
      using rest False by (auto simp: b0(2) packed sbind_Inr_iff)
    have "length (concat (map snd objs)) \<le> length (map snd objs) * small_object_max_bytes"
      using e by (intro length_concat_le) auto
    then have "length (concat (map snd objs)) < 2 ^ 64"
      using e short by (auto simp: small_object_max_bytes_def)
    moreover have "ok s1" "\<forall>(i, b) \<in> set objs. fs_read (relative_object_path i) (up_local U) = Inr b"
      using e by auto
    ultimately have built: "ok s2" "packed_in (up_local U) op (n + 1) (batch_locations batch) (view s2)"
      "\<forall>i \<in> fst ` set objs. map_of (batch_locations batch) i \<noteq> None"
      "\<forall>i. view s2 (relative_object_path i) = view s1 (relative_object_path i)"
      "\<forall>m. m \<noteq> n \<longrightarrow> view s2 (data_path_of op m) = view s1 (data_path_of op m)"
      using publish_built [OF U(1) _ refl new_b0 publish] by blast+
    from for_each_keeps_uploads [OF U(2) built(1) fin]
    have fin_ok: "ok s'" and same: "same_uploads (view s2) (view s')" by auto
    have loose: "stored_loose (up_local U) (view s') i \<longleftrightarrow> stored_loose (up_local U) (view s1) i" for i
      using stored_loose_same_uploads [OF same] built(4) by (simp add: stored_loose_def)
    have data: "view s' (data_path_of op m) = view s2 (data_path_of op m)" for m
      using same by (simp add: same_uploads_def)
    have "packed_in (up_local U) op (n + 1) (batch_locations batch) (view s')"
      by (rule packed_in_frame [OF built(2) le_refl]) (simp add: data)
    moreover have "\<forall>i \<in> set ids. map_of (batch_locations batch) i \<noteq> None \<or> stored_loose (up_local U) (view s1) i"
      using e built(3) by meson
    moreover have "\<forall>k < n. view s' (data_path_of op k) = view s (data_path_of op k)"
      using e built(5) data by simp
    ultimately show ?thesis
      using e fin_ok loose by (simp add: out new_def)
  qed
qed

lemma upload_batches_effect:
  assumes U: "up_remote U = R" "keeps_uploads ok view f"
  shows "ok s \<Longrightarrow> \<forall>ids \<in> set batches. length ids \<le> 256 \<Longrightarrow>
    packed_in (up_local U) op n (pub_locations acc) (view s) \<Longrightarrow>
    \<forall>i \<in> done. map_of (pub_locations acc) i \<noteq> None \<or> stored_loose (up_local U) (view s) i \<Longrightarrow>
    upload_batches U op pack_enabled f n acc batches (s, j) = (Inr pub, s', j') \<Longrightarrow>
    ok s' \<and> (\<exists>m. packed_in (up_local U) op m (pub_locations pub) (view s')) \<and>
    (\<forall>i \<in> done \<union> \<Union> (set ` set batches).
       map_of (pub_locations pub) i \<noteq> None \<or> stored_loose (up_local U) (view s') i)"
proof (induction batches arbitrary: s j n acc "done")
  case (Cons ids batches)
  obtain n1 out s1 j1 where
    one: "upload_object_batch U op ids pack_enabled n f (s, j) = (Inr (n1, out), s1, j1)"
    using Cons.prems(5) by (auto simp: sbind_Inr_iff)
  define new where "new = (case out of None \<Rightarrow> [] | Some batch \<Rightarrow> batch_locations batch)"
  define acc1 where "acc1 = (case out of None \<Rightarrow> acc
        | Some b \<Rightarrow> \<lparr> pub_index_paths = pub_index_paths acc @ [batch_index_path b],
                      pub_locations = bt_extend (pub_locations acc) (batch_locations b) \<rparr>)"
  have rest: "upload_batches U op pack_enabled f n1 acc1 batches (s1, j1) = (Inr pub, s', j')"
    using Cons.prems(5) by (simp add: sbind_def one acc1_def)
  have short: "length ids \<le> 256" using Cons.prems(2) by simp
  note e = upload_object_batch_effect [OF U Cons.prems(1) short one, folded new_def]
  have acc1: "pub_locations acc1 = bt_extend (pub_locations acc) new"
    by (auto simp: acc1_def new_def bt_extend_def split: option.splits)
  have old: "packed_in (up_local U) op n1 (pub_locations acc) (view s1)"
    using packed_in_frame Cons.prems(3) e by blast
  have ext: "map_of (pub_locations acc1) = map_of (pub_locations acc) ++ map_of new"
    unfolding acc1 using old e map_of_bt_extend [THEN conjunct2] by (metis packed_in_def)
  have "packed_in (up_local U) op n1 (pub_locations acc1) (view s1)"
    unfolding acc1 using packed_in_extend old e by blast
  moreover have "\<forall>i \<in> done \<union> set ids. map_of (pub_locations acc1) i \<noteq> None \<or> stored_loose (up_local U) (view s1) i"
    using Cons.prems(4) e by (auto simp: ext)
  ultimately show ?case
    using Cons.IH [of s1 n1 acc1 "done \<union> set ids" j1] e Cons.prems(2) rest by auto
qed auto

end

end
