(* ===== verification/Pack_Claims.thy ===== *)
theory Pack_Claims
  imports Pack_Proofs
begin

text \<open>
  The properties of packs, stated on the in-memory backend: an uploaded object can be read back,
  a published index segment gives back the locations it was made from, and an accepted index
  only names disjoint ranges of a data file below \<^verbatim>\<open>packs/data\<close>.
\<close>

lemma chunks_facts: "0 < n \<Longrightarrow> concat (chunks n xs) = xs \<and> (\<forall>c \<in> set (chunks n xs). length c \<le> n)"
proof (induction n xs rule: chunks.induct)
  case (1 n xs)
  have "chunks n xs = (if n = 0 \<or> xs = [] then [] else take n xs # chunks n (drop n xs))"
    by (rule chunks.simps)
  with 1 show ?case by auto
qed

lemma set_chunks: "0 < n \<Longrightarrow> \<Union> (set ` set (chunks n xs)) = set xs"
  using chunks_facts [of n xs] by (metis set_concat)

lemma memory_remote_simps [simp]:
  "r_get (memory_remote rj lj) = get_physical" "r_stat (memory_remote rj lj) = stat_physical"
  "r_get_range (memory_remote rj lj) = get_physical_range" "r_put (memory_remote rj lj) = put_physical"
  by (simp_all add: memory_remote_def)

lemma at_remote_put_physical:
  "sbind (at_remote (put_physical p b)) f (s, j) = f () (snd (put_physical p b s), j)"
  by (simp add: sbind_def at_remote_def put_physical_def)

lemma get_physical_view: "mem_ok s \<Longrightarrow> mem_view s p = Some (b, t) \<Longrightarrow> get_physical p s = Inr b"
  by (simp add: mem_view_Some get_physical_def)

text \<open>
  An upload of a set of objects, packed or not, in any number of batches, with any callback that
  keeps the uploads: when it succeeds, every object of the set has a readable local file, and the
  backend holds exactly its bytes, either loose under the object's path or at the location that the
  upload returns for it.
\<close>

lemma uploaded_objects_readable:
  assumes "mem_ok s" "up_remote U = memory_remote rj lj" "keeps_uploads mem_ok mem_view f"
    and "upload_objects_with_policy U op ids pack_enabled f (s, j) = (Inr pub, s', j')"
  shows "\<forall>i \<in> set ids. \<exists>b. fs_read (relative_object_path i) (up_local U) = Inr b \<and>
    (get_physical (relative_object_path i) s' = Inr b \<or>
     read_packed_object (memory_remote rj lj) (pub_locations pub) i s' = Inr (Some b))"
proof (cases "ids = []")
  case False
  let ?acc = "\<lparr> pub_index_paths = [], pub_locations = [] \<rparr>"
  have run: "\<exists>n. upload_batches U op pack_enabled f n ?acc (chunks 256 ids) (s, j) = (Inr pub, s', j')"
    using assms(4) False
    by (auto simp: upload_objects_with_policy_def small_object_pack_batch_size_def split: if_splits sum.splits)
  then obtain n where n: "upload_batches U op pack_enabled f n ?acc (chunks 256 ids) (s, j) = (Inr pub, s', j')" ..
  have ok: "mem_ok s'" and packed: "\<exists>m. packed_in (up_local U) op m (pub_locations pub) (mem_view s')"
    and all: "\<forall>i \<in> set ids. map_of (pub_locations pub) i \<noteq> None \<or> stored_loose (up_local U) (mem_view s') i"
    using memory.upload_batches_effect [OF assms(2,3,1) _ _ _ n, of "{}"] chunks_facts [of 256 ids]
    by (auto simp: packed_in_def set_chunks)
  show ?thesis
  proof
    fix i assume "i \<in> set ids"
    with all consider l where "map_of (pub_locations pub) i = Some l" | "stored_loose (up_local U) (mem_view s') i"
      by blast
    then show "\<exists>b. fs_read (relative_object_path i) (up_local U) = Inr b \<and>
        (get_physical (relative_object_path i) s' = Inr b \<or>
         read_packed_object (memory_remote rj lj) (pub_locations pub) i s' = Inr (Some b))"
    proof cases
      case 1
      with packed obtain b where "fs_read (relative_object_path i) (up_local U) = Inr b"
        "located (mem_view s') l b" by (auto simp: packed_in_def)
      then show ?thesis using memory.read_located [OF ok _ 1] by blast
    next
      case 2
      then show ?thesis using get_physical_view [OF ok] by (auto simp: stored_loose_def)
    qed
  qed
qed simp

section \<open>Reading a published index segment\<close>

lemma push_all_objects_Inr:
  "push_all_objects local b0 ids = Inr b \<Longrightarrow>
     \<exists>objs. map fst objs = ids \<and> b = add_objects objs b0 \<and>
       (\<forall>(i, c) \<in> set objs. fs_read (relative_object_path i) local = Inr c)"
proof (induction ids arbitrary: b0)
  case (Cons i ids)
  then obtain c where c: "fs_read (relative_object_path i) local = Inr c"
    and rest: "push_all_objects local (builder_push_object i c b0) ids = Inr b"
    by (auto simp: rbind_Inr_iff)
  from Cons.IH [OF rest] obtain objs where "map fst objs = ids"
    "b = add_objects objs (builder_push_object i c b0)"
    "\<forall>(i, c) \<in> set objs. fs_read (relative_object_path i) local = Inr c" by blast
  then show ?case
    by (intro exI [of _ "(i, c) # objs"]) (auto simp: c add_objects_Cons)
qed (auto intro: exI [of _ "[]"])

lemma padded_no_slash: "slash \<notin> set (padded w n)"
  using padded_not_slash by blast

lemma pack_data_path_valid:
  "validate_sync_identifier op = Inr () \<Longrightarrow>
     validate_pack_relative_path (op @ ''-'' @ padded 8 n @ ''.bin'') = Inr ()"
proof -
  define p where "p = op @ ''-'' @ padded 8 n @ ''.bin''"
  assume "validate_sync_identifier op = Inr ()"
  then have "slash \<notin> set p"
    using padded_no_slash [of 8 n] by (auto simp: validate_sync_identifier_def p_def split: if_splits)
  then have split: "split_on slash p = [p]" by (rule split_on_single)
  have "\<not> is_absolute p"
  proof
    assume "is_absolute p"
    then obtain t where "p = slash # t" by (auto simp: is_absolute_def starts_with_iff)
    then have "slash \<in> set p" by (metis list.set_intros(1))
    with \<open>slash \<notin> set p\<close> show False ..
  qed
  moreover have "last p = CHR ''n''" by (simp add: p_def)
  then have "p \<noteq> ''.''" "p \<noteq> ''..''" by force+
  moreover have "p \<noteq> []" by (simp add: p_def)
  ultimately have "validate_pack_relative_path p = Inr ()"
    by (simp add: validate_pack_relative_path_def all_normal_iff split)
  then show ?thesis by (simp only: p_def)
qed

text \<open>C14: A pack that is built from local objects (with hexadecimal ids and non-empty contents, as object
  ids and envelopes are) and published can be read by whoever holds the secrets: the index segment
  in the backend is decrypted under its path, its entries are accepted, the locations they give are
  those the publisher returned, and reading each object at its location gives the local bytes.\<close>

theorem published_pack_readable:
  assumes "crypto_ok (up_crypto U)" "serde_ok (up_postcard U)" "serde_ok (up_index_json U)"
    and "mem_ok s" "up_remote U = memory_remote rj lj"
    and "builder_new op n = Inr b0" "push_all_objects (up_local U) b0 ids = Inr b"
    and "\<forall>i \<in> set ids. i \<noteq> [] \<and> list_all ascii_hexdigit i \<and>
           fs_read (relative_object_path i) (up_local U) \<noteq> Inr []"
    and "length (pb_payload b) < 2 ^ 64"
    and "publish_pack U op n b (s, j) = (Inr batch, s', j')"
  shows "\<exists>segment plaintext.
    get_physical (batch_index_path batch) s' = Inr segment \<and>
    decode_pack_index_segment_plaintext U (batch_index_path batch) segment = Inr plaintext \<and>
    append_pack_index_locations_from_bytes (up_index_json U) (memory_remote rj lj) plaintext [] s'
      = Inr (batch_locations batch) \<and>
    (\<forall>i \<in> set ids. \<exists>c. fs_read (relative_object_path i) (up_local U) = Inr c \<and>
       read_packed_object (memory_remote rj lj) (batch_locations batch) i s' = Inr (Some c))"
proof -
  let ?R = "memory_remote rj lj" and ?dp = "data_path_of op n" and ?index = "fst (builder_finish b)"
  obtain objs where ids: "map fst objs = ids" and built: "b = add_objects objs b0"
    and files: "\<forall>(i, c) \<in> set objs. fs_read (relative_object_path i) (up_local U) = Inr c"
    using push_all_objects_Inr [OF assms(7)] by blast
  obtain pid segment where eff: "mem_ok s'" "pack_paths op n = Inr (pid, ?dp, batch_index_path batch)"
    "pack_locations_from_index ?index = Inr (batch_locations batch)"
    "encode_pack_index_segment_bytes U (batch_index_path batch) (to_vec (up_index_json U) ?index) = Inr segment"
    "mem_view s' = (mem_view s)(?dp \<mapsto> (pb_payload b, clock s), batch_index_path batch \<mapsto> (segment, clock s))"
    using memory.publish_pack_effect [OF assms(5,4,10)] by blast
  note ip = pack_paths_Inr [OF eff(2)]
  have sync: "validate_sync_identifier op = Inr ()" using eff(2) by (auto simp: pack_paths_def rbind_Inr_iff)
  have payload: "pb_payload b = concat (map snd objs)"
    and index: "pi_schema_version ?index = pack_schema_version" "pi_data_path ?index = ?dp"
      "pi_entries ?index = entries_of 0 objs"
    using assms(6) eff(2) by (auto simp: built builder_new_def add_objects_def rbind_Inr_iff builder_finish_def)
  have data: "mem_view s' ?dp = Some (concat (map snd objs), clock s)"
    using ip by (simp add: eff(5) payload)
  have "distinct (map pe_object_id (entries_of 0 objs))"
    and locs: "batch_locations batch = add_entries ?dp (entries_of 0 objs) []"
    using pack_locations_from_index_Inr [OF eff(3)] by (simp_all only: index)
  then have distinct: "distinct (map fst objs)" by (simp only: ids_entries_of)
  have small: "length (concat (map snd objs)) < 2 ^ 64" using assms(9) payload by simp
  then have stat: "stat_physical ?dp s' = Inr \<lparr> stat_length = of_nat (length (concat (map snd objs))),
      stat_modified_at = Some (clock s) \<rparr>"
    using memory.stat_some [OF eff(1) data] by simp
  have "i \<in> set ids" if "(i, c) \<in> set objs" for i c
    unfolding ids [symmetric] using that by force
  then have shape: "\<forall>(i, c) \<in> set objs. i \<noteq> [] \<and> list_all ascii_hexdigit i \<and> c \<noteq> []"
    using assms(8) files by fastforce
  have order: "entries_in_order (of_nat (length (concat (map snd objs)))) (unat (0 :: u64)) (entries_of 0 objs)"
    using small by (intro entries_of_in_order [OF shape]) (simp_all add: unat_of_nat)
  define rel where "rel = op @ ''-'' @ padded 8 n @ ''.bin''"
  have prefix: "strip_prefix remote_pack_data_prefix ?dp = Some rel"
    by (simp add: strip_prefix_Some_iff data_path_of_def rel_def)
  have valid: "validate_pack_relative_path rel = Inr ()"
    unfolding rel_def using pack_data_path_valid [OF sync] .
  have append: "append_pack_index_locations ?R ?index [] s' = Inr (batch_locations batch)"
    using order distinct
    by (simp add: append_pack_index_locations_def index prefix starts_with_def
        valid stat append_entries_Inr_iff locs)
  have stored: "get_physical (batch_index_path batch) s' = Inr segment"
    using get_physical_view [OF eff(1)] by (simp add: eff(5))
  have decode: "decode_pack_index_segment_plaintext U (batch_index_path batch) segment =
      Inr (to_vec (up_index_json U) ?index)"
    using decrypt_encrypted [OF assms(1,2) eff(4) [unfolded encode_pack_index_segment_bytes_def]]
    by (simp add: decode_pack_index_segment_plaintext_def)
  have read: "\<exists>c. fs_read (relative_object_path i) (up_local U) = Inr c \<and>
      read_packed_object ?R (batch_locations batch) i s' = Inr (Some c)" if "i \<in> set ids" for i
  proof -
    have "i \<in> fst ` set objs" using that by (simp add: ids [symmetric])
    then have "map_of (batch_locations batch) i \<noteq> None" unfolding locs by (rule dom_built [OF distinct])
    then obtain l where l: "map_of (batch_locations batch) i = Some l" by blast
    from located_built [of "mem_view s'", OF data distinct small l [unfolded locs]] obtain c where
      "(i, c) \<in> set objs" "located (mem_view s') l c" by blast
    then show ?thesis using memory.read_located [OF eff(1) _ l] files by blast
  qed
  show ?thesis
  proof (intro exI conjI)
    show "get_physical (batch_index_path batch) s' = Inr segment" by (rule stored)
    show "decode_pack_index_segment_plaintext U (batch_index_path batch) segment =
        Inr (to_vec (up_index_json U) ?index)" by (rule decode)
    show "append_pack_index_locations_from_bytes (up_index_json U) ?R (to_vec (up_index_json U) ?index) [] s'
        = Inr (batch_locations batch)"
      by (simp add: append_pack_index_locations_from_bytes_def serde_okD [OF assms(3)] append)
  qed (use read in blast)
qed

text \<open>C15: An index that is accepted names only one data file below \<^verbatim>\<open>packs/data\<close>, whatever the index
  says; every location it gives lies inside the file that is there and reads exactly its bytes; and
  the ranges of two objects do not overlap.\<close>

theorem accepted_index_sound:
  assumes "mem_ok s"
    and "append_pack_index_locations (memory_remote rj lj) index [] s = Inr locs"
  shows "\<exists>payload names. get_physical (pi_data_path index) s = Inr payload \<and> names \<noteq> [] \<and>
    components (pi_data_path index) = map Normal ([''packs'', ''data''] @ names) \<and>
    (\<forall>i l. map_of locs i = Some l \<longrightarrow> loc_data_path l = pi_data_path index \<and> 0 < loc_length l \<and>
       loc_offset l + loc_length l \<le> length payload \<and>
       read_packed_object (memory_remote rj lj) locs i s =
         Inr (Some (take (loc_length l) (drop (loc_offset l) payload)))) \<and>
    (\<forall>i j l m. map_of locs i = Some l \<longrightarrow> map_of locs j = Some m \<longrightarrow> i \<noteq> j \<longrightarrow>
       loc_offset l + loc_length l \<le> loc_offset m \<or> loc_offset m + loc_length m \<le> loc_offset l)"
proof -
  let ?dp = "pi_data_path index" and ?es = "pi_entries index"
  obtain rel where rel: "?dp = remote_pack_data_prefix @ rel" "validate_pack_relative_path rel = Inr ()"
    using assms(2)
    by (auto simp: append_pack_index_locations_def rbind_Inr_iff starts_with_def strip_prefix_Some_iff
        split: if_splits)
  obtain st where st: "stat_physical ?dp s = Inr st"
    and app: "append_entries ?dp (stat_length st) 0 ?es [] = Inr locs"
    using assms(2) by (auto simp: append_pack_index_locations_def rbind_Inr_iff split: if_splits)
  obtain payload where payload: "get_physical ?dp s = Inr payload" "stat_length st = of_nat (length payload)"
    using st by (auto simp: stat_physical_def rbind_Inr_iff)
  then obtain t where v: "mem_view s ?dp = Some (payload, t)"
    using mem_domD [OF assms(1), of ?dp]
    by (auto simp: get_physical_def ok_or_Inr_iff mem_view_def split: option.splits)
  have order: "entries_in_order (of_nat (length payload)) 0 ?es" and distinct: "distinct (map pe_object_id ?es)"
    and locs: "locs = add_entries ?dp ?es []"
    using app append_entries_Inr_iff [of "[]" ?dp "stat_length st" 0 ?es locs] by (simp_all add: payload)
  have len: "unat (of_nat (length payload) :: u64) \<le> length payload" "unat (of_nat (length payload) :: u64) < 2 ^ 64"
    using unsigned_less [of "of_nat (length payload) :: u64", where 'a = nat]
    by (simp_all add: unat_of_nat)
  have entry: "\<exists>e \<in> set ?es. pe_object_id e = i \<and> l = entry_location ?dp e" if "map_of locs i = Some l" for i l
    using that map_of_add_entries_Nil [OF distinct] locs by metis
  have "components (join_with ''/'' [''packs'', ''data''] @ ''/'' @ rel) = map Normal [''packs'', ''data''] @ components rel"
    by (intro components_join_dirs) (use rel in \<open>auto simp: validate_pack_relative_path_def split: if_splits\<close>)
  moreover obtain x xs where "components rel = map Normal (x # xs)"
    using all_normal_names [of rel] rel(2) by (auto simp: validate_pack_relative_path_def split: if_splits)
  ultimately have names: "components ?dp = map Normal ([''packs'', ''data''] @ x # xs)"
    by (simp add: rel remote_pack_data_prefix_def)
  have loc: "loc_data_path l = ?dp \<and> 0 < loc_length l \<and> loc_offset l + loc_length l \<le> length payload \<and>
      read_packed_object (memory_remote rj lj) locs i s =
        Inr (Some (take (loc_length l) (drop (loc_offset l) payload)))" if l: "map_of locs i = Some l" for i l
  proof -
    obtain e where e: "e \<in> set ?es" "l = entry_location ?dp e" using entry l by blast
    then have "loc_data_path l = ?dp" "0 < loc_length l" "loc_offset l + loc_length l \<le> length payload"
      "loc_offset l + loc_length l < 2 ^ 64"
      using entries_in_order_nth [OF order e(1)] len by (auto simp: entry_location_def)
    moreover from this have "located (mem_view s) l (take (loc_length l) (drop (loc_offset l) payload))"
      using v by (auto simp: located_def)
    ultimately show ?thesis using memory.read_located [OF assms(1) _ l] by blast
  qed
  have disjoint: "loc_offset l + loc_length l \<le> loc_offset m \<or> loc_offset m + loc_length m \<le> loc_offset l"
    if ij: "map_of locs i = Some l" "map_of locs j = Some m" "i \<noteq> j" for i j l m
  proof -
    obtain e f where "e \<in> set ?es" "f \<in> set ?es" "e \<noteq> f" "l = entry_location ?dp e" "m = entry_location ?dp f"
      using entry [OF ij(1)] entry [OF ij(2)] ij(3) by blast
    with entries_in_order_disjoint [OF order this(1-3)] show ?thesis by (simp add: entry_location_def)
  qed
  show ?thesis
    using payload(1) names loc disjoint by (intro exI [of _ payload] exI [of _ "x # xs"]) auto
qed

section \<open>Witnesses\<close>

definition sample_upload_env :: "mem upload_env" where
  "sample_upload_env = \<lparr> up_remote = memory_remote unary_codec unary_codec,
     up_local = [(''objects/aa.json'', [1, 2]), (''objects/bb.json'', [3])],
     up_secrets = sample_secrets, up_crypto = plain_crypto,
     up_postcard = unary_codec, up_index_json = unary_codec \<rparr>"

lemma sample_builder:
  "builder_new ''op'' 0 = Inr \<lparr> pb_pack_id = ''op-00000000'', pb_data_path = ''packs/data/op-00000000.bin'',
     pb_entries = [], pb_payload = [] \<rparr>"
  by code_simp

lemma sample_pack_paths:
  "pack_paths ''op'' 0 = Inr (''op-00000000'', ''packs/data/op-00000000.bin'', ''packs/index/op-00000000.json'')"
  by code_simp

text \<open>The sample pack holds two objects; its segment is sealed with the sample secrets.\<close>

definition sample_pack_builder :: object_pack_builder where
  "sample_pack_builder = \<lparr> pb_pack_id = ''op-00000000'', pb_data_path = ''packs/data/op-00000000.bin'',
     pb_entries = [\<lparr> pe_object_id = ''aa'', pe_offset = 0, pe_length = 2 \<rparr>,
                   \<lparr> pe_object_id = ''bb'', pe_offset = 2, pe_length = 1 \<rparr>],
     pb_payload = [1, 2, 3] \<rparr>"

lemma sample_files:
  "fs_read (relative_object_path ''aa'') (up_local sample_upload_env) = Inr [1, 2]"
  "fs_read (relative_object_path ''bb'') (up_local sample_upload_env) = Inr [3]"
  "validate_object_id_value ''aa'' = Inr ()" "validate_object_id_value ''bb'' = Inr ()"
  unfolding sample_upload_env_def upload_env.simps by code_simp+

lemma sample_push:
  "push_all_objects (up_local sample_upload_env)
     \<lparr> pb_pack_id = ''op-00000000'', pb_data_path = ''packs/data/op-00000000.bin'', pb_entries = [],
       pb_payload = [] \<rparr> [''aa'', ''bb''] = Inr sample_pack_builder"
  by (simp add: sample_files sample_pack_builder_def builder_push_object_def)

lemma sample_seal:
  "\<exists>segment. encode_pack_index_segment_bytes sample_upload_env path plaintext = Inr segment"
  by (simp add: encode_pack_index_segment_bytes_def sample_upload_env_def encrypt_control_record_def
      derive_control_nonce_def active_epoch_keys_def epoch_keys_def sample_secrets_def plain_crypto_def Let_def)

lemma sample_locations:
  "\<exists>l. pack_locations_from_index (fst (builder_finish sample_pack_builder)) = Inr l"
proof -
  have "is_ok (pack_locations_from_index (fst (builder_finish sample_pack_builder)))" by code_simp
  then show ?thesis by (simp add: is_ok_iff)
qed

lemma sample_publish:
  "\<exists>batch s'. publish_pack sample_upload_env ''op'' 0 sample_pack_builder (s, j) = (Inr batch, s', j)"
proof -
  obtain l where l: "pack_locations_from_index (fst (builder_finish sample_pack_builder)) = Inr l"
    using sample_locations by blast
  obtain segment where seg: "encode_pack_index_segment_bytes sample_upload_env ''packs/index/op-00000000.json''
      (to_vec (up_index_json sample_upload_env) (fst (builder_finish sample_pack_builder))) = Inr segment"
    using sample_seal by blast
  have "up_remote sample_upload_env = memory_remote unary_codec unary_codec" by (simp add: sample_upload_env_def)
  then show ?thesis
    using l seg
    by (simp add: publish_pack_def builder_finish_def sample_pack_paths at_remote_put_physical)
qed

theorem published_pack_readable_witness:
  "\<exists>batch s' segment plaintext.
    publish_pack sample_upload_env ''op'' 0 sample_pack_builder (mem_new 0, ()) = (Inr batch, s', ()) \<and>
    get_physical (batch_index_path batch) s' = Inr segment \<and>
    decode_pack_index_segment_plaintext sample_upload_env (batch_index_path batch) segment = Inr plaintext \<and>
    append_pack_index_locations_from_bytes (up_index_json sample_upload_env) (memory_remote unary_codec unary_codec)
      plaintext [] s' = Inr (batch_locations batch)"
proof -
  obtain batch s' where p: "publish_pack sample_upload_env ''op'' 0 sample_pack_builder (mem_new 0, ()) = (Inr batch, s', ())"
    using sample_publish [of "mem_new 0" "()"] by blast
  have U: "crypto_ok (up_crypto sample_upload_env)" "serde_ok (up_postcard sample_upload_env)" "serde_ok (up_index_json sample_upload_env)"
    "up_remote sample_upload_env = memory_remote unary_codec unary_codec"
    by (simp_all add: sample_upload_env_def plain_crypto_ok)
  have ids: "\<forall>i \<in> set [''aa'', ''bb'']. i \<noteq> [] \<and> list_all ascii_hexdigit i \<and>
      fs_read (relative_object_path i) (up_local sample_upload_env) \<noteq> Inr []"
    by (simp add: ascii_hexdigit_def sample_files)
  have small: "length (pb_payload sample_pack_builder) < 2 ^ 64" by (simp add: sample_pack_builder_def)
  from published_pack_readable [OF U(1-3) mem_ok_new U(4) sample_builder sample_push ids small p] p
  show ?thesis by blast
qed

text \<open>An index with two entries on the sample data file.\<close>

definition sample_store :: mem where
  "sample_store = snd (put_physical ''packs/data/p.bin'' [7, 8, 9] (mem_new 0))"

definition sample_index :: object_pack_index where
  "sample_index = \<lparr> pi_schema_version = 1, pi_pack_id = ''p'', pi_data_path = ''packs/data/p.bin'',
     pi_entries = [\<lparr> pe_object_id = ''aa'', pe_offset = 0, pe_length = 1 \<rparr>,
                   \<lparr> pe_object_id = ''bb'', pe_offset = 1, pe_length = 2 \<rparr>] \<rparr>"

theorem accepted_index_sound_witness:
  "\<exists>locs l. append_pack_index_locations (memory_remote unary_codec unary_codec) sample_index [] sample_store = Inr locs \<and>
     map_of locs ''bb'' = Some l \<and>
     (\<exists>payload. loc_offset l + loc_length l \<le> length payload \<and>
       get_physical ''packs/data/p.bin'' sample_store = Inr payload)"
proof -
  let ?R = "memory_remote unary_codec unary_codec"
  have "stat_physical ''packs/data/p.bin'' sample_store = Inr \<lparr> stat_length = 3, stat_modified_at = Some 0 \<rparr>"
    by (simp add: sample_store_def stat_physical_def get_physical_def put_physical_def mem_new_def)
  moreover have "validate_pack_relative_path ''p.bin'' = Inr ()" by code_simp
  moreover have "append_entries ''packs/data/p.bin'' 3 0 (pi_entries sample_index) [] =
      Inr (add_entries ''packs/data/p.bin'' (pi_entries sample_index) [])"
    by (simp add: append_entries_Inr_iff sample_index_def ascii_hexdigit_def del: append_entries.simps)
  ultimately have locs: "append_pack_index_locations ?R sample_index [] sample_store =
      Inr (add_entries ''packs/data/p.bin'' (pi_entries sample_index) [])"
    by (simp add: append_pack_index_locations_def sample_index_def pack_schema_version_def
        remote_pack_data_prefix_def starts_with_def del: append_entries.simps)
  have ok: "mem_ok sample_store" unfolding sample_store_def by (intro mem_ok_put mem_ok_new)
  have "\<exists>l. map_of (add_entries ''packs/data/p.bin'' (pi_entries sample_index) []) ''bb'' = Some l"
    by (simp add: sample_index_def)
  then obtain l where "map_of (add_entries ''packs/data/p.bin'' (pi_entries sample_index) []) ''bb'' = Some l" ..
  moreover have "pi_data_path sample_index = ''packs/data/p.bin''" by (simp add: sample_index_def)
  ultimately show ?thesis
    using accepted_index_sound [OF ok locs] locs by metis
qed

end
