(* ===== verification/Sync_Support.thy ===== *)
theory Sync_Support
  imports Pack
begin

text \<open>
  What synchronisation reads of the object format by itself (module \<^verbatim>\<open>sync_support\<close> of
  \<^verbatim>\<open>e2v-core/src/lib.rs\<close>): a second decoder of object envelopes, the header parser that gives a
  type hint, the lookup of an object in the cached pack index, and the inference of an object's
  type from its hint (\<^verbatim>\<open>e2v-sync/src/object_type.rs\<close>).
\<close>

section \<open>Readers\<close>

definition sync_take_exact :: "byte list \<Rightarrow> nat \<Rightarrow> nat \<Rightarrow> (byte list \<times> nat) res" where
  "sync_take_exact bytes cursor len =
     (let end_pos = usize_sat_add cursor len
      in ensure (end_pos \<le> length bytes) auth_failed
           (Inr (take (end_pos - cursor) (drop cursor bytes), end_pos)))"

definition read_u8 :: "byte list \<Rightarrow> nat \<Rightarrow> (u8 \<times> nat) res" where
  "read_u8 bytes cursor = rbind (sync_take_exact bytes cursor 1) (\<lambda>(s, c). Inr (hd s, c))"

definition read_u32 :: "byte list \<Rightarrow> nat \<Rightarrow> (u32 \<times> nat) res" where
  "read_u32 bytes cursor = rbind (sync_take_exact bytes cursor 4) (\<lambda>(s, c). Inr (u32_from_le s, c))"

definition read_u64 :: "byte list \<Rightarrow> nat \<Rightarrow> (u64 \<times> nat) res" where
  "read_u64 bytes cursor = rbind (sync_take_exact bytes cursor 8) (\<lambda>(s, c). Inr (u64_from_le s, c))"

definition read_string :: "byte list \<Rightarrow> nat \<Rightarrow> (string \<times> nat) res" where
  "read_string bytes cursor =
     rbind (read_u8 bytes cursor) (\<lambda>(len, c).
     rbind (sync_take_exact bytes c (unat len)) (\<lambda>(raw, c').
     rbind (ok_or auth_failed (from_utf8 raw)) (\<lambda>v. Inr (v, c'))))"

section \<open>The decoder\<close>

text \<open>The part of the decoder that reads the fields of the envelope.\<close>

definition read_envelope_for_sync :: "byte list \<Rightarrow> encrypted_object_envelope res" where
  "read_envelope_for_sync bytes =
     rbind (sync_take_exact bytes 0 4) (\<lambda>(magic, c1).
     ensure (magic = envelope_magic) auth_failed
    (rbind (read_u32 bytes c1) (\<lambda>(format_version, c2).
     ensure (format_version = envelope_format_version) (Bail ''unsupported object format version'')
    (rbind (read_string bytes c2) (\<lambda>(object_type, c3).
     rbind (read_string bytes c3) (\<lambda>(crypto_suite, c4).
     rbind (read_u32 bytes c4) (\<lambda>(key_epoch, c5).
     rbind (read_string bytes c5) (\<lambda>(padding_policy, c6).
     rbind (read_string bytes c6) (\<lambda>(stored_object_id, c7).
     rbind (read_u8 bytes c7) (\<lambda>(nonce_len, c8).
     ensure (unat nonce_len = 24) auth_failed
    (rbind (sync_take_exact bytes c8 (unat nonce_len)) (\<lambda>(nonce, c9).
     rbind (read_u64 bytes c9) (\<lambda>(ciphertext_len, c10).
     rbind (sync_take_exact bytes c10 (unat ciphertext_len)) (\<lambda>(ciphertext, c11).
     rbind (sync_take_exact bytes c11 16) (\<lambda>(auth_tag, c12).
     ensure (c12 = length bytes) auth_failed
     (Inr \<lparr> env_format_version = format_version, env_object_type = object_type,
            env_crypto_suite = crypto_suite, env_key_epoch = key_epoch,
            env_padding_policy = padding_policy, env_object_id = stored_object_id, env_nonce = nonce,
            env_ciphertext = ciphertext, env_auth_tag = auth_tag \<rparr>))))))))))))))))"

definition decode_object_bytes_for_sync ::
  "crypto \<Rightarrow> repo_secrets \<Rightarrow> string \<Rightarrow> string \<Rightarrow> byte list \<Rightarrow> byte list res" where
  "decode_object_bytes_for_sync C s object_id expected_type bytes =
     rbind (read_envelope_for_sync bytes) (\<lambda>e.
     ensure (env_object_type e = expected_type) (Bail ''object type mismatch'')
    (ensure (env_crypto_suite e = crypto_suite_name) (Bail ''unsupported crypto suite'')
    (ensure (env_object_id e = object_id) (Bail ''object id mismatch in stored envelope'')
    (ensure (0 < env_key_epoch e) auth_failed
    (let associated = envelope_magic @ u32_to_le envelope_format_version @ as_bytes (secrets_repo_id s) @
           as_bytes (env_object_type e) @ as_bytes (env_object_id e) @ as_bytes crypto_suite_name @
           u32_to_le (env_key_epoch e) @ as_bytes (env_padding_policy e)
     in
     rbind (epoch_keys s (env_key_epoch e)) (\<lambda>keys.
     rbind (ok_or auth_failed
              (aead_open C (manifest_enc_key keys) (env_nonce e) associated (env_ciphertext e) (env_auth_tag e)))
       (\<lambda>padded.
     rbind (if env_padding_policy e = padding_policy_none then Inr padded
            else ensure (4 \<le> length padded) auth_failed
                 (let pad_len = unat (u32_from_le (take 4 padded))
                  in ensure (4 + pad_len \<le> length padded) auth_failed
                       (Inr (take (length padded - pad_len - 4) (drop 4 padded))))) (\<lambda>plaintext.
     ensure (hex_encode (keyed_hash C (repo_dedup_key s)
               (as_bytes expected_type @ u64_to_le (of_nat (length plaintext)) @ plaintext)) = object_id)
       (Bail ''object authentication failed: object id mismatch'')
     (Inr plaintext)))))))))"

section \<open>The header of a local object\<close>

definition parse_local_object_envelope_header :: "string \<Rightarrow> files \<Rightarrow> string res" where
  "parse_local_object_envelope_header object_id fs =
     rbind (validate_object_id_value object_id) (\<lambda>_.
     rbind (fs_read (relative_object_path object_id) fs) (\<lambda>bytes.
     ensure (4 \<le> length bytes) auth_failed
    (rbind (sync_take_exact bytes 0 4) (\<lambda>(magic, c1).
     ensure (magic = envelope_magic) auth_failed
    (rbind (read_u32 bytes c1) (\<lambda>(format_version, c2).
     ensure (format_version = envelope_format_version) auth_failed
    (rbind (read_string bytes c2) (\<lambda>(object_type, c3).
     ensure (\<not> blank object_type) auth_failed
    (rbind (read_string bytes c3) (\<lambda>(crypto_suite, c4).
     ensure (crypto_suite = crypto_suite_name) auth_failed
    (rbind (read_u32 bytes c4) (\<lambda>(key_epoch, c5).
     ensure (0 < key_epoch) auth_failed
    (rbind (read_string bytes c5) (\<lambda>(padding_policy, c6).
     ensure (\<not> blank padding_policy) auth_failed
    (rbind (read_string bytes c6) (\<lambda>(stored_object_id, c7).
     ensure (stored_object_id = object_id) auth_failed
    (rbind (read_u8 bytes c7) (\<lambda>(nonce_len, c8).
     ensure (unat nonce_len = 24) auth_failed
    (rbind (sync_take_exact bytes c8 (unat nonce_len)) (\<lambda>(nonce, c9).
     rbind (read_u64 bytes c9) (\<lambda>(ciphertext_len, c10).
     ensure (0 < ciphertext_len) auth_failed
    (rbind (sync_take_exact bytes c10 (unat ciphertext_len)) (\<lambda>(ciphertext, c11).
     rbind (sync_take_exact bytes c11 16) (\<lambda>(auth_tag, c12).
     ensure (c12 = length bytes) auth_failed
     (Inr object_type)))))))))))))))))))))))))"

definition read_local_object_type_hint :: "string \<Rightarrow> files \<Rightarrow> string res" where
  "read_local_object_type_hint object_id fs = parse_local_object_envelope_header object_id fs"

definition local_object_envelope_looks_valid :: "string \<Rightarrow> files \<Rightarrow> bool res" where
  "local_object_envelope_looks_valid object_id fs =
     rbind (parse_local_object_envelope_header object_id fs) (\<lambda>_. Inr True)"

section \<open>Object types\<close>

definition object_type_candidates :: "string list" where
  "object_type_candidates =
     [''snapshot'', ''tree'', ''file'', ''chunk'', ''directory_root'', ''tree_shard'', ''file_shard'']"

definition candidate_object_types :: "string option \<Rightarrow> string list" where
  "candidate_object_types hint =
     (let start = (case hint of Some h \<Rightarrow> if h \<in> set object_type_candidates then [h] else [] | None \<Rightarrow> [])
      in foldl (\<lambda>acc t. if t \<in> set acc then acc else acc @ [t]) start object_type_candidates)"

definition infer_object_type_from_hint :: "string option \<Rightarrow> (string \<Rightarrow> bool) \<Rightarrow> string" where
  "infer_object_type_from_hint hint matches_type =
     (case find matches_type (candidate_object_types hint) of Some t \<Rightarrow> t | None \<Rightarrow> ''chunk'')"

definition infer_object_type_for_resume_candidate ::
  "crypto \<Rightarrow> repo_secrets \<Rightarrow> files \<Rightarrow> string \<Rightarrow> string" where
  "infer_object_type_for_resume_candidate C s fs object_id =
     (let hint = (case read_local_object_type_hint object_id fs of Inr h \<Rightarrow> Some h | Inl _ \<Rightarrow> None)
      in infer_object_type_from_hint hint (\<lambda>t. is_ok (get_object C s object_id t fs)))"

section \<open>The cached pack index\<close>

record cached_pack_index_root =
  cached_root_schema_version :: u32
  cached_root_layout_id :: string
  cached_root_segments :: "string list"

record cached_pack_entry =
  cached_entry_object_id :: string
  cached_entry_data_path :: string
  cached_entry_offset :: u64
  cached_entry_length :: u64

record cached_object_pack_index =
  cached_index_schema_version :: u32
  cached_index_data_path :: string
  cached_index_entries :: "object_pack_entry list"

record cached_aggregate_segment =
  cached_segment_schema_version :: u32
  cached_segment_entries :: "cached_pack_entry list"

record cache_codecs =
  cc_postcard :: "encrypted_control_record serde"
  cc_root :: "cached_pack_index_root serde"
  cc_index :: "cached_object_pack_index serde"
  cc_segment :: "cached_aggregate_segment serde"

definition cached_root_path :: string where "cached_root_path = ''cache/pack-index/root.json''"

definition replace_slashes :: "string \<Rightarrow> string" where
  "replace_slashes s = concat (map (\<lambda>c. if c = slash then ''__'' else [c]) s)"

definition cached_segment_path :: "string \<Rightarrow> string" where
  "cached_segment_path segment_path = ''cache/pack-index/segments/'' @ replace_slashes segment_path"

definition validate_cached_pack_data_path :: "string \<Rightarrow> unit res" where
  "validate_cached_pack_data_path data_path =
     ensure (starts_with data_path ''packs/data/'') (Bail ''invalid aggregate pack data path'')
     (let relative = (case strip_prefix ''packs/data/'' data_path of Some r \<Rightarrow> r | None \<Rightarrow> [])
      in ensure (relative \<noteq> []) (Bail ''pack data path must not be empty'')
         (ensure (all_normal relative) (Bail ''pack data path traversal is not allowed'')
         (Inr ())))"

definition decode_cached_root ::
  "crypto \<Rightarrow> cache_codecs \<Rightarrow> repo_secrets \<Rightarrow> byte list \<Rightarrow> cached_pack_index_root res" where
  "decode_cached_root C K s bytes =
     rbind (with_context ''failed to decrypt authenticated pack index root''
              (decrypt_control_record C (cc_postcard K) s ''pack-index-root'' ''pack-index-root'' bytes))
       (\<lambda>plaintext.
     with_context ''failed to decode authenticated pack index root''
       (ok_or (Bail ''invalid json'') (from_slice (cc_root K) plaintext)))"

definition decode_cached_segment ::
  "crypto \<Rightarrow> cache_codecs \<Rightarrow> repo_secrets \<Rightarrow> string \<Rightarrow> byte list \<Rightarrow> cached_pack_entry list res" where
  "decode_cached_segment C K s segment_path bytes =
     rbind (with_context ''failed to decrypt authenticated pack index segment''
              (decrypt_control_record C (cc_postcard K) s (''pack-index-segment:'' @ segment_path)
                 ''pack-index-segment'' bytes)) (\<lambda>plaintext.
     if starts_with segment_path ''packs/index/'' then
       rbind (ok_or (Bail ''invalid json'') (from_slice (cc_index K) plaintext)) (\<lambda>index.
       ensure (cached_index_schema_version index = 1) (Bail ''unsupported pack index schema version'')
      (ensure (starts_with (cached_index_data_path index) ''packs/data/'') (Bail ''invalid pack data path'')
      (rbind (validate_cached_pack_data_path (cached_index_data_path index)) (\<lambda>_.
       Inr (map (\<lambda>entry. \<lparr> cached_entry_object_id = pe_object_id entry,
                 cached_entry_data_path = cached_index_data_path index,
                 cached_entry_offset = pe_offset entry, cached_entry_length = pe_length entry \<rparr>)
             (cached_index_entries index))))))
     else
       rbind (ok_or (Bail ''invalid json'') (from_slice (cc_segment K) plaintext)) (\<lambda>aggregate.
       ensure (cached_segment_schema_version aggregate = 1)
         (Bail ''unsupported aggregate pack index schema version'')
       (Inr (cached_segment_entries aggregate))))"

text \<open>A cached file that cannot be decoded is removed before the error is returned.\<close>

definition or_remove :: "string \<Rightarrow> 'a res \<Rightarrow> (files, 'a) prog" where
  "or_remove path r fs = (case r of Inl e \<Rightarrow> (Inl e, bt_remove path fs) | Inr x \<Rightarrow> (Inr x, fs))"

fun find_cached_entry :: "string \<Rightarrow> cached_pack_entry list \<Rightarrow> physical_object_ref option res" where
  "find_cached_entry object_id [] = Inr None"
| "find_cached_entry object_id (entry # entries) =
     rbind (validate_cached_pack_data_path (cached_entry_data_path entry)) (\<lambda>_.
     if cached_entry_object_id entry = object_id then
       rbind (pack_resolve (PackedObject (cached_entry_data_path entry)
                (cached_entry_offset entry) (cached_entry_length entry))) (\<lambda>r. Inr (Some r))
     else find_cached_entry object_id entries)"

fun find_in_cached_segments ::
  "crypto \<Rightarrow> cache_codecs \<Rightarrow> repo_secrets \<Rightarrow> string \<Rightarrow> string list \<Rightarrow> (files, physical_object_ref) prog" where
  "find_in_cached_segments C K s object_id [] = sfail (Bail ''cached pack index has no entry for object'')"
| "find_in_cached_segments C K s object_id (segment_path # segments) =
     sensure (starts_with segment_path ''packs/index/'' \<or> starts_with segment_path ''pack-index/segments/'')
       (Bail ''invalid pack index segment path'')
    (sbind (sread (\<lambda>fs. with_context ''cached pack index segment is missing''
               (fs_read (cached_segment_path segment_path) fs))) (\<lambda>segment_bytes.
     sbind (or_remove (cached_segment_path segment_path)
              (decode_cached_segment C K s segment_path segment_bytes)) (\<lambda>entries.
     sbind (slift (find_cached_entry object_id entries)) (\<lambda>found.
     (case found of
        Some r \<Rightarrow> sret r
      | None \<Rightarrow> find_in_cached_segments C K s object_id segments)))))"

definition load_cached_pack_physical_ref_for_object_id ::
  "crypto \<Rightarrow> cache_codecs \<Rightarrow> repo_secrets \<Rightarrow> string \<Rightarrow> (files, physical_object_ref) prog" where
  "load_cached_pack_physical_ref_for_object_id C K s object_id =
     sbind (slift (validate_object_id_value object_id)) (\<lambda>_.
     sbind (sread (\<lambda>fs. with_context ''cached pack index root is missing'' (fs_read cached_root_path fs)))
       (\<lambda>root_bytes.
     sbind (or_remove cached_root_path (decode_cached_root C K s root_bytes)) (\<lambda>root.
     sensure (cached_root_schema_version root = 1) (Bail ''unsupported pack index root schema version'')
    (sensure (\<not> blank (cached_root_layout_id root)) (Bail ''pack index root layout id must not be empty'')
    (find_in_cached_segments C K s object_id (cached_root_segments root))))))"

end
