(* ===== verification/Journal.thy ===== *)
theory Journal
  imports Sync_Support "HOL-Library.Product_Lexorder"
begin

text \<open>
  The operation journal (\<^verbatim>\<open>e2v-sync/src/journal.rs\<close>). Its three SQLite tables are maps from their
  primary keys; \<open>object_states\<close> is kept in the order of its key (operation, object), so that
  \<^verbatim>\<open>ORDER BY object_id\<close> within an operation is the order of the list.
\<close>

section \<open>Records\<close>

datatype operation_type = Push | Fetch | Clone

record operation_metadata =
  md_operation_type :: operation_type
  md_target_branch_token :: string
  md_expected_ref_version :: "u64 option"

definition metadata_push :: "string \<Rightarrow> u64 option \<Rightarrow> operation_metadata" where
  "metadata_push token expected = \<lparr> md_operation_type = Push, md_target_branch_token = token,
     md_expected_ref_version = expected \<rparr>"

datatype object_upload_state = Planned | Uploaded | Verified | Failed

fun state_as_str :: "object_upload_state \<Rightarrow> string" where
  "state_as_str Planned = ''planned''"
| "state_as_str Uploaded = ''uploaded''"
| "state_as_str Verified = ''verified''"
| "state_as_str Failed = ''failed''"

definition state_from_str :: "string \<Rightarrow> object_upload_state res" where
  "state_from_str value =
     (if value = ''planned'' then Inr Planned
      else if value = ''uploaded'' then Inr Uploaded
      else if value = ''verified'' then Inr Verified
      else if value = ''failed'' then Inr Failed
      else Inl (Bail ''unknown object upload state''))"

record object_upload_record =
  rec_object_id :: string
  rec_object_type :: string
  rec_state :: object_upload_state

record object_state_batch_record =
  batch_records :: "object_upload_record list"
  next_cursor :: "nat option"

record rewrite_journal_state =
  rw_stage :: string
  rw_target_layout_generation :: u64
  rw_rewritten_object_ids :: "string list"
  rw_retired_epoch_count :: nat

section \<open>The tables\<close>

record journal =
  jr_metadata :: "(string, byte list) btree"
  jr_objects :: "(string \<times> string, string \<times> string) btree"
  jr_rewrite :: "(string, byte list) btree"

definition journal_new :: journal where
  "journal_new = \<lparr> jr_metadata = [], jr_objects = [], jr_rewrite = [] \<rparr>"

definition operation_id_new :: "string \<Rightarrow> string res" where
  "operation_id_new value = rbind (validate_sync_identifier value) (\<lambda>_. Inr value)"

definition begin_operation ::
  "operation_metadata serde \<Rightarrow> string \<Rightarrow> operation_metadata \<Rightarrow> (journal, unit) prog" where
  "begin_operation json op metadata j =
     (Inr (), j\<lparr> jr_metadata := bt_insert op (to_vec json metadata) (jr_metadata j) \<rparr>)"

definition upsert_object_state ::
  "string \<Rightarrow> string \<Rightarrow> string \<Rightarrow> object_upload_state \<Rightarrow> (journal, unit) prog" where
  "upsert_object_state op object_id object_type state j =
     (Inr (), j\<lparr> jr_objects := bt_insert (op, object_id) (object_type, state_as_str state) (jr_objects j) \<rparr>)"

definition plan_object :: "string \<Rightarrow> string \<Rightarrow> string \<Rightarrow> (journal, unit) prog" where
  "plan_object op object_id object_type = upsert_object_state op object_id object_type Planned"

definition record_uploaded :: "string \<Rightarrow> string \<Rightarrow> string \<Rightarrow> (journal, unit) prog" where
  "record_uploaded op object_id object_type = upsert_object_state op object_id object_type Uploaded"

definition record_verified :: "string \<Rightarrow> string \<Rightarrow> string \<Rightarrow> (journal, unit) prog" where
  "record_verified op object_id object_type = upsert_object_state op object_id object_type Verified"

section \<open>Queries\<close>

type_synonym object_row = "(string \<times> string) \<times> (string \<times> string)"

definition operation_rows :: "string \<Rightarrow> journal \<Rightarrow> object_row list" where
  "operation_rows op j = filter (\<lambda>((o', i), t, st). o' = op) (jr_objects j)"

definition decode_row :: "object_row \<Rightarrow> object_upload_record res" where
  "decode_row row = (case row of ((o', i), t, st) \<Rightarrow>
     rbind (state_from_str st) (\<lambda>state.
     Inr \<lparr> rec_object_id = i, rec_object_type = t, rec_state = state \<rparr>))"

text \<open>\<^verbatim>\<open>usize as i64\<close>, and what SQLite does with a negative limit or offset.\<close>

definition as_i64 :: "nat \<Rightarrow> int" where
  "as_i64 n = (let m = n mod 2 ^ 64 in if m < 2 ^ 63 then int m else int m - 2 ^ 64)"

definition sql_page :: "int \<Rightarrow> int \<Rightarrow> 'a list \<Rightarrow> 'a list" where
  "sql_page limit offset rows =
     (let rest = drop (nat offset) rows in if limit < 0 then rest else take (nat limit) rest)"

definition latest_records :: "string \<Rightarrow> journal \<Rightarrow> object_upload_record list res" where
  "latest_records op j =
     with_context ''failed to decode pending objects'' (mapM decode_row (operation_rows op j))"

definition pending_objects :: "string \<Rightarrow> journal \<Rightarrow> object_upload_record list res" where
  "pending_objects op j = latest_records op j"

definition total_object_count :: "string \<Rightarrow> journal \<Rightarrow> nat res" where
  "total_object_count op j = Inr (length (operation_rows op j))"

definition count_objects_in_states :: "string \<Rightarrow> object_upload_state list \<Rightarrow> journal \<Rightarrow> nat res" where
  "count_objects_in_states op states j =
     (if states = [] then Inr 0
      else Inr (length (filter (\<lambda>(k, t, st). st \<in> set (map state_as_str states)) (operation_rows op j))))"

definition pending_object_batch :: "string \<Rightarrow> nat \<Rightarrow> nat \<Rightarrow> journal \<Rightarrow> object_state_batch_record res" where
  "pending_object_batch op start limit j =
     ensure (0 < limit) (Bail ''object state batch size must be positive'')
     (rbind (with_context ''failed to decode pending object batch''
               (mapM decode_row (sql_page (as_i64 limit) (as_i64 start)
                  (filter (\<lambda>(k, t, st). st \<noteq> state_as_str Verified) (operation_rows op j)))))
       (\<lambda>records.
      rbind (count_objects_in_states op [Planned, Uploaded, Failed] j) (\<lambda>total.
      Inr \<lparr> batch_records = records,
            next_cursor = (if start + length records < total then Some (start + length records) else None) \<rparr>)))"

definition object_state_batch :: "string \<Rightarrow> nat \<Rightarrow> nat \<Rightarrow> journal \<Rightarrow> object_state_batch_record res" where
  "object_state_batch op start limit j =
     ensure (0 < limit) (Bail ''object state batch size must be positive'')
     (rbind (with_context ''failed to decode object state batch''
               (mapM decode_row (sql_page (as_i64 limit) (as_i64 start) (operation_rows op j))))
       (\<lambda>records.
      rbind (total_object_count op j) (\<lambda>total.
      Inr \<lparr> batch_records = records,
            next_cursor = (if start + length records < total then Some (start + length records) else None) \<rparr>)))"

definition read_operation_metadata ::
  "operation_metadata serde \<Rightarrow> string \<Rightarrow> journal \<Rightarrow> operation_metadata option res" where
  "read_operation_metadata json op j =
     (case map_of (jr_metadata j) op of
        None \<Rightarrow> Inr None
      | Some bytes \<Rightarrow>
          rbind (with_context ''failed to decode operation metadata''
                   (ok_or (Bail ''invalid json'') (from_slice json bytes))) (\<lambda>m. Inr (Some m)))"

definition write_rewrite_state ::
  "rewrite_journal_state serde \<Rightarrow> string \<Rightarrow> rewrite_journal_state \<Rightarrow> (journal, unit) prog" where
  "write_rewrite_state json op state j =
     (Inr (), j\<lparr> jr_rewrite := bt_insert op (to_vec json state) (jr_rewrite j) \<rparr>)"

definition read_rewrite_state ::
  "rewrite_journal_state serde \<Rightarrow> string \<Rightarrow> journal \<Rightarrow> rewrite_journal_state option res" where
  "read_rewrite_state json op j =
     (case map_of (jr_rewrite j) op of
        None \<Rightarrow> Inr None
      | Some bytes \<Rightarrow>
          rbind (with_context ''failed to decode rewrite journal state''
                   (ok_or (Bail ''invalid json'') (from_slice json bytes))) (\<lambda>m. Inr (Some m)))"

definition clear_operation :: "string \<Rightarrow> (journal, unit) prog" where
  "clear_operation op j =
     (Inr (), j\<lparr> jr_rewrite := bt_remove op (jr_rewrite j),
                 jr_objects := filter (\<lambda>((o', i), v). o' \<noteq> op) (jr_objects j),
                 jr_metadata := bt_remove op (jr_metadata j) \<rparr>)"

section \<open>The invariant\<close>

definition journal_ok :: "journal \<Rightarrow> bool" where
  "journal_ok j \<longleftrightarrow> bt_ok (jr_metadata j) \<and> bt_ok (jr_objects j) \<and> bt_ok (jr_rewrite j) \<and>
     (\<forall>(k, t, st) \<in> set (jr_objects j). is_ok (state_from_str st))"

lemma state_str_roundtrip [simp]: "state_from_str (state_as_str st) = Inr st"
  by (cases st) (simp_all add: state_from_str_def)

lemma state_from_str_Inr: "state_from_str v = Inr st \<longleftrightarrow> v = state_as_str st"
  by (cases st) (auto simp: state_from_str_def split: if_splits)

lemma set_bt_insert: "set (bt_insert k v m) \<subseteq> insert (k, v) (set m)"
  by (induction m) auto

lemma journal_ok_new: "journal_ok journal_new"
  by (simp add: journal_ok_def journal_new_def)

lemma journal_ok_upsert: "journal_ok j \<Longrightarrow> journal_ok (snd (upsert_object_state op i t st j))"
  using set_bt_insert [of "(op, i)" "(t, state_as_str st)" "jr_objects j"]
  by (fastforce simp: journal_ok_def upsert_object_state_def)

lemma bt_ok_filter: "bt_ok m \<Longrightarrow> bt_ok (filter P m)"
  by (induction m) (auto simp: bt_ok_def)

lemma journal_ok_ops:
  assumes "journal_ok j"
  shows "journal_ok (snd (begin_operation mj op m j))" "journal_ok (snd (plan_object op i t j))"
    "journal_ok (snd (record_uploaded op i t j))" "journal_ok (snd (record_verified op i t j))"
    "journal_ok (snd (write_rewrite_state rj op rw j))" "journal_ok (snd (clear_operation op j))"
  using assms journal_ok_upsert bt_ok_filter
  by (auto simp: begin_operation_def plan_object_def record_uploaded_def record_verified_def
      write_rewrite_state_def clear_operation_def journal_ok_def)

end
