(* ===== verification/Push_Upload.thy ===== *)
theory Push_Upload
  imports Pack_Claims Publisher_Claims Journal
begin

text \<open>
  The upload of a push (\<^verbatim>\<open>e2v-sync/src/push.rs\<close>, \<^verbatim>\<open>push_head\<close>): the callback that is run for every uploaded
  object records it in the journal, renews the markers of the transaction on the remote when they
  are due, and records it as verified. Its heartbeat writes the remote between the puts of the
  upload, but never a file that the upload is about.
\<close>

section \<open>The callback of a push\<close>

text \<open>
  What a push carries besides the remote: the last heartbeats of its publisher, the number of times
  its local clock has been read, and the journal. The readings of the local clock are a function of
  that number.
\<close>

record push_progress =
  pg_observed :: "(string, nat) btree"
  pg_readings :: nat
  pg_journal :: journal

definition in_journal :: "(journal, 'a) prog \<Rightarrow> ('s \<times> push_progress, 'a) prog" where
  "in_journal m w = (case w of (s, g) \<Rightarrow>
     (fst (m (pg_journal g)), s, g\<lparr> pg_journal := snd (m (pg_journal g)) \<rparr>))"

definition in_publisher :: "(nat \<Rightarrow> nat) \<Rightarrow> ('s pub, 'a) prog \<Rightarrow> ('s \<times> push_progress, 'a) prog" where
  "in_publisher local_clock m w = (case w of (s, g) \<Rightarrow>
     (let (r, p) = m \<lparr> remote_st = s, observed_local = pg_observed g,
                       local_now = local_clock (pg_readings g) \<rparr>
      in (r, remote_st p, g\<lparr> pg_observed := observed_local p, pg_readings := pg_readings g + 1 \<rparr>)))"

definition push_on_uploaded ::
  "'s pub_env \<Rightarrow> publish_session \<Rightarrow> (nat \<Rightarrow> nat) \<Rightarrow> string \<Rightarrow> ('s \<times> push_progress, unit) prog" where
  "push_on_uploaded env session local_clock object_id =
     sbind (in_journal (record_uploaded (ps_operation_id session) object_id ''object'')) (\<lambda>_.
     sbind (in_publisher local_clock (heartbeat_if_needed env session)) (\<lambda>_.
     in_journal (record_verified (ps_operation_id session) object_id ''object'')))"

section \<open>The markers are not uploads\<close>

lemma markers_not_uploads:
  "\<not> upload_path (intent_path op)" "\<not> upload_path (lease_path_for b)" "\<not> upload_path probe_path"
  by (simp_all add: upload_path_def intent_path_def lease_path_for_def probe_path_def relative_object_path_def
      data_path_of_def remote_pack_data_prefix_def)

lemma heartbeat_if_needed_keeps_uploads:
  assumes mem: "on_memory env rj lj" and session: "session_ok session" and ok: "mem_ok (remote_st p)"
    and run: "heartbeat_if_needed env session p = (Inr (), p')"
  shows "mem_ok (remote_st p') \<and> same_uploads (mem_view (remote_st p)) (mem_view (remote_st p'))"
proof (cases "remote_st p' = remote_st p")
  case True
  with ok show ?thesis by (simp add: same_uploads_def)
next
  case False
  with run have "heartbeat env session p = (Inr (), p')"
    by (auto simp: heartbeat_if_needed_def split: if_splits)
  then obtain s' where s': "heartbeat_remote env session (remote_st p) = (Inr (), s')" "remote_st p' = s'"
    by (auto simp: heartbeat_def record_heartbeat_observed_now_def dest!: on_memory_run)
  have paths: "\<not> upload_path (ps_active_intent_path session)"
    "Some q = ps_lease_path session \<Longrightarrow> \<not> upload_path q" for q
    using session markers_not_uploads by (auto simp: session_ok_def split: option.splits)
  have "q \<noteq> ps_active_intent_path session \<and> Some q \<noteq> ps_lease_path session \<and> q \<noteq> probe_path" if "upload_path q" for q
    using that paths markers_not_uploads(3) by blast
  then show ?thesis
    using memory.heartbeat_remote_effect [OF ok on_memoryD(1,4,5) [OF mem] session s'(1)] s'(2)
    by (simp add: same_uploads_def)
qed

lemma push_on_uploaded_keeps_uploads:
  assumes mem: "on_memory env rj lj" and session: "session_ok session"
  shows "keeps_uploads mem_ok mem_view (push_on_uploaded env session local_clock)"
  unfolding keeps_uploads_def
proof (intro allI impI)
  fix i s g s' g'
  assume ok: "mem_ok s" and run: "push_on_uploaded env session local_clock i (s, g) = (Inr (), s', g')"
  let ?p = "\<lparr> remote_st = s, observed_local = pg_observed g, local_now = local_clock (pg_readings g) \<rparr>"
  obtain r p' where hb: "heartbeat_if_needed env session ?p = (r, p')" by fastforce
  with run have "r = Inr ()" "s' = remote_st p'"
    by (auto simp: push_on_uploaded_def sbind_def in_journal_def in_publisher_def record_uploaded_def
        record_verified_def upsert_object_state_def Let_def split: sum.splits)
  with heartbeat_if_needed_keeps_uploads [OF mem session, of ?p p'] ok hb
  show "mem_ok s' \<and> same_uploads (mem_view s) (mem_view s')" by simp
qed

text \<open>C13: What a push has uploaded can be read, although its heartbeats write the remote between the
  uploads. When the upload of a set of objects (the one for a layout that is not oblivious) succeeds with the
  callback of a push and no other client writes meanwhile, packed or not, in any number of batches and
  whatever the local clock shows, every object of the set has a readable local file, and the backend holds
  exactly its bytes, either loose under the object's path or at the location that the upload returns for it.
  The session is one with the paths that \<^verbatim>\<open>begin\<close> gives.\<close>

theorem pushed_objects_readable:
  assumes "mem_ok s" and "up_remote U = memory_remote rj lj"
    and "on_memory env rj lj" and "session_ok session"
    and "upload_objects_with_policy U (ps_operation_id session) ids pack_enabled
           (push_on_uploaded env session local_clock) (s, g) = (Inr pub, s', g')"
  shows "\<forall>i \<in> set ids. \<exists>b. fs_read (relative_object_path i) (up_local U) = Inr b \<and>
    (get_physical (relative_object_path i) s' = Inr b \<or>
     read_packed_object (memory_remote rj lj) (pub_locations pub) i s' = Inr (Some b))"
  using uploaded_objects_readable [OF assms(1,2) push_on_uploaded_keeps_uploads [OF assms(3,4)] assms(5)] .

section \<open>Witness\<close>

text \<open>A session whose own intent lies on the backend, so that its first heartbeat is due and renews it.\<close>

definition upload_session :: publish_session where
  "upload_session = (sample_session None)\<lparr> ps_operation_id := ''op'', ps_active_intent_path := intent_path ''op'' \<rparr>"

definition own_intent :: "mem \<Rightarrow> bool" where
  "own_intent s \<longleftrightarrow> mem_ok s \<and> clock s < 2 ^ 64 \<and>
     (\<exists>m. marker_at unary_codec (mem_view s) (intent_path ''op'') = Some m \<and>
        validate_intent_marker m upload_session ''heartbeat failed'' = Inr ())"

lemma upload_session_simps:
  "ps_active_intent_path upload_session = intent_path ''op''" "ps_lease_path upload_session = None"
  "ps_operation_id upload_session = ''op''" "session_ok upload_session"
  by (simp_all add: upload_session_def sample_session_def session_ok_def)

lemma to_vec_unary_not_Nil: "to_vec (unary_codec :: 'a :: countable serde) x \<noteq> []"
  by (simp add: unary_codec_def)

lemma sample_heartbeat:
  assumes "own_intent s"
  shows "\<exists>s'. heartbeat_remote (sample_env cap) upload_session s = (Inr (), s') \<and> own_intent s'"
proof -
  let ?ip = "intent_path ''op''" and ?env = "sample_env cap" and ?R = "memory_remote unary_codec unary_codec :: mem remote"
  obtain m b t where ok: "mem_ok s" "clock s < 2 ^ 64" and v: "mem_view s ?ip = Some (b, t)"
    and m: "from_slice unary_codec b = Some m" "validate_intent_marker m upload_session ''heartbeat failed'' = Inr ()"
    using assms by (auto simp: own_intent_def marker_at_Some_iff)
  have get: "get_physical ?ip s = Inr b" using get_physical_view [OF ok(1) v] .
  have b: "b \<noteq> []" using m(1) by (auto simp: unary_codec_def)
  have env: "backend ?env = ?R" "intent_json ?env = unary_codec" by (simp_all add: sample_env_def)
  have load: "load_or_recover_intent ?env ?ip upload_session ''heartbeat failed'' s = (Inr m, s)"
    unfolding load_or_recover_intent_def Let_def env by (simp add: get b m)
  obtain s2 where obs: "observe_remote_now_with_probe ?R probe_path s = (Inr (clock s), s2)"
    and s2: "mem_ok s2" "clock s2 = clock s"
    using memory.observe_probe [OF ok(1)] by blast
  let ?m = "renew_write_intent_marker m (of_nat (clock s))"
  let ?s3 = "snd (put_physical ?ip (to_vec unary_codec ?m) s2)"
  have "heartbeat_remote ?env upload_session s = (Inr (), ?s3)"
    using ok(2) s2(2)
    by (simp add: heartbeat_remote_def upload_session_simps Let_def env load obs
        system_time_to_unix_ms_def put_physical_def sbind_def)
  moreover have "own_intent ?s3"
  proof -
    have renewed: "validate_intent_marker ?m upload_session ''heartbeat failed'' =
        validate_intent_marker m upload_session ''heartbeat failed''"
      by (simp add: validate_intent_marker_def renew_write_intent_marker_def)
    have "mem_ok ?s3" "clock ?s3 = clock s" "mem_view ?s3 ?ip = Some (to_vec unary_codec ?m, clock s)"
      using memory.put_facts [OF s2(1), where p = ?ip and b = "to_vec unary_codec ?m"] s2 by simp_all
    then show ?thesis using ok(2) m(2) renewed by (simp add: own_intent_def marker_at_def unary_roundtrip)
  qed
  ultimately show ?thesis by blast
qed

lemma sample_callback:
  assumes "own_intent s"
  shows "\<exists>s' g'. push_on_uploaded (sample_env cap) upload_session local_clock i (s, g) = (Inr (), s', g') \<and> own_intent s'"
proof -
  let ?p = "\<lparr> remote_st = s, observed_local = pg_observed g, local_now = local_clock (pg_readings g) \<rparr>"
  obtain s' where hb: "heartbeat_remote (sample_env cap) upload_session s = (Inr (), s')" "own_intent s'"
    using sample_heartbeat [OF assms] by blast
  have "\<exists>p'. heartbeat_if_needed (sample_env cap) upload_session ?p = (Inr (), p') \<and> own_intent (remote_st p')"
    using hb assms
    by (auto simp: heartbeat_if_needed_def heartbeat_def record_heartbeat_observed_now_def sbind_def on_remote_def)
  then obtain p' where "heartbeat_if_needed (sample_env cap) upload_session ?p = (Inr (), p')" "own_intent (remote_st p')"
    by blast
  then show ?thesis
    by (simp add: push_on_uploaded_def sbind_def in_journal_def in_publisher_def record_uploaded_def
        record_verified_def upsert_object_state_def Let_def)
qed

definition upload_start :: mem where
  "upload_start = snd (put_physical (intent_path ''op'')
     (to_vec unary_codec (build_write_intent_marker ''1'' (sample_plan ''op'') 0 1)) (mem_new 5))"

lemma upload_start_intent: "own_intent upload_start"
proof -
  have "validate_intent_marker (build_write_intent_marker ''1'' (sample_plan ''op'') 0 1) upload_session ''heartbeat failed'' = Inr ()"
    by (simp add: validate_intent_marker_def build_write_intent_marker_def sample_plan_def upload_session_def sample_session_def)
  moreover have "mem_ok upload_start" "clock upload_start = 5"
    by (simp_all add: upload_start_def mem_ok_put) (simp add: put_physical_def mem_new_def)
  moreover have "mem_view upload_start (intent_path ''op'') =
      Some (to_vec unary_codec (build_write_intent_marker ''1'' (sample_plan ''op'') 0 1), 5)"
    by (simp add: upload_start_def mem_view_def put_physical_def mem_new_def)
  ultimately show ?thesis by (simp add: own_intent_def marker_at_def unary_roundtrip)
qed

lemma publish_pack_clock:
  assumes "up_remote U = memory_remote rj lj" "publish_pack U op n b (s, j) = (Inr batch, s', j')"
  shows "clock s' = clock s"
proof -
  have put: "put_physical p c t = (Inr (), snd (put_physical p c t)) \<and> clock (snd (put_physical p c t)) = clock t" for p c t
    by (simp add: put_physical_def)
  show ?thesis
    using assms put
    by (auto simp: publish_pack_def builder_finish_def at_remote_put_physical sbind_Inr_iff slift_def split: sum.splits)
qed

lemma sample_upload_run:
  assumes "local_clock = (\<lambda>n. 700000 * n)"
  shows "\<exists>pub s' g'. upload_objects_with_policy sample_upload_env ''op'' [''aa'', ''bb''] True
    (push_on_uploaded (sample_env cap) upload_session local_clock) (upload_start, g) = (Inr pub, s', g')"
proof -
  let ?f = "push_on_uploaded (sample_env cap) upload_session local_clock"
  obtain batch s1 where p: "publish_pack sample_upload_env ''op'' 0 sample_pack_builder (upload_start, g) = (Inr batch, s1, g)"
    using sample_publish [of upload_start g] by blast
  have R: "up_remote sample_upload_env = memory_remote unary_codec unary_codec" by (simp add: sample_upload_env_def)
  have start: "own_intent upload_start" by (rule upload_start_intent)
  then have "mem_ok upload_start" by (simp add: own_intent_def)
  from memory.publish_pack_effect [OF R this p] obtain pid segment where
    eff: "mem_ok s1" "pack_paths ''op'' 0 = Inr (pid, data_path_of ''op'' 0, batch_index_path batch)"
    "mem_view s1 = (mem_view upload_start)(data_path_of ''op'' 0 \<mapsto> (pb_payload sample_pack_builder, clock upload_start),
       batch_index_path batch \<mapsto> (segment, clock upload_start))" by blast
  have "batch_index_path batch = ''packs/index/op-00000000.json''" using eff(2) sample_pack_paths by simp
  then have other: "intent_path ''op'' \<noteq> batch_index_path batch" "intent_path ''op'' \<noteq> data_path_of ''op'' 0"
    using markers_not_uploads(1) [of "''op''"] by (auto simp: intent_path_def)
  have "clock s1 = clock upload_start"
    using publish_pack_clock [OF R p] .
  then have one: "own_intent s1" using start eff(1,3) other by (simp add: own_intent_def marker_at_def)
  obtain s2 g2 where c1: "?f ''aa'' (s1, g) = (Inr (), s2, g2)" "own_intent s2"
    using sample_callback [OF one] by blast
  obtain s3 g3 where c2: "?f ''bb'' (s2, g2) = (Inr (), s3, g3)"
    using sample_callback [OF c1(2)] by blast
  have first: "next_pack_batch_index (memory_remote rj lj) ''op'' upload_start = Inr 0" for rj lj
    by (simp add: next_pack_batch_index_def memory_remote_def list_physical_def upload_start_def mem_new_def
        put_physical_def intent_path_def starts_with_def remote_pack_data_prefix_def)
  have chunk: "chunks 256 [''aa'', ''bb''] = [[''aa'', ''bb'']]" by (simp add: chunks.simps)
  have loop: "upload_batch_loop sample_upload_env f (Some \<lparr> pb_pack_id = ''op-00000000'',
      pb_data_path = ''packs/data/op-00000000.bin'', pb_entries = [], pb_payload = [] \<rparr>) [] [''aa'', ''bb''] w
      = (Inr (Some sample_pack_builder, [''aa'', ''bb'']), w)"
    for f :: "string \<Rightarrow> (mem \<times> push_progress, unit) prog" and w
    by (simp add: sample_files sample_pack_builder_def builder_push_object_def small_object_max_bytes_def)
  show ?thesis
    by (simp add: upload_objects_with_policy_def small_object_pack_batch_size_def chunk first R
        upload_object_batch_def sample_builder sbind_def loop p c1 c2 del: upload_batch_loop.simps)
qed

theorem pushed_objects_readable_witness:
  "\<exists>pub s' g'. upload_objects_with_policy sample_upload_env ''op'' [''aa'', ''bb''] True
       (push_on_uploaded (sample_env sample_capability) upload_session (\<lambda>n. 700000 * n))
       (upload_start, \<lparr> pg_observed = [], pg_readings = 0, pg_journal = journal_new \<rparr>) = (Inr pub, s', g') \<and>
     (\<forall>i \<in> {''aa'', ''bb''}. \<exists>b. fs_read (relative_object_path i) (up_local sample_upload_env) = Inr b \<and>
       (get_physical (relative_object_path i) s' = Inr b \<or>
        read_packed_object (memory_remote unary_codec unary_codec) (pub_locations pub) i s' = Inr (Some b)))"
proof -
  let ?g = "\<lparr> pg_observed = [], pg_readings = 0, pg_journal = journal_new \<rparr>"
  obtain pub s' g' where run: "upload_objects_with_policy sample_upload_env ''op'' [''aa'', ''bb''] True
      (push_on_uploaded (sample_env sample_capability) upload_session (\<lambda>n. 700000 * n)) (upload_start, ?g) = (Inr pub, s', g')"
    using sample_upload_run [OF refl] by blast
  have U: "up_remote sample_upload_env = memory_remote unary_codec unary_codec" by (simp add: sample_upload_env_def)
  have start: "mem_ok upload_start" using upload_start_intent by (simp add: own_intent_def)
  from pushed_objects_readable [OF start U sample_on_memory upload_session_simps(4) run [folded upload_session_simps(3)]] run
  show ?thesis by (intro exI [of _ pub] exI [of _ s'] exI [of _ g']) simp
qed

end
