(* ===== verification/Sync_Support_Claims.thy ===== *)
theory Sync_Support_Claims
  imports Sync_Support
begin

text \<open>
  The second envelope decoder accepts exactly what the object store accepts (with one extra
  check), the type hint is the type that the object store finds, and inferring the type of an
  object gives its type whatever the hint says.
\<close>

section \<open>Two computations that succeed alike\<close>

definition same_ok :: "'a res \<Rightarrow> 'a res \<Rightarrow> bool" where
  "same_ok r r' \<longleftrightarrow> (\<forall>x. r = Inr x \<longleftrightarrow> r' = Inr x)"

lemma same_okD: "same_ok r r' \<Longrightarrow> r = Inr x \<longleftrightarrow> r' = Inr x"
  by (simp add: same_ok_def)

lemma same_ok_refl [simp]: "same_ok r r"
  by (simp add: same_ok_def)

lemma same_ok_Inl [simp]: "same_ok (Inl e) (Inl e')"
  by (simp add: same_ok_def)

lemma same_ok_bind:
  "same_ok r r' \<Longrightarrow> (\<And>x. r' = Inr x \<Longrightarrow> same_ok (f x) (g x)) \<Longrightarrow> same_ok (rbind r f) (rbind r' g)"
  unfolding same_ok_def rbind_Inr_iff by blast

lemma same_ok_bind_pair:
  "same_ok r r' \<Longrightarrow> (\<And>x c. r' = Inr (x, c) \<Longrightarrow> same_ok (f (x, c)) (g (x, c))) \<Longrightarrow>
     same_ok (rbind r f) (rbind r' g)"
  by (rule same_ok_bind) auto

lemma same_ok_if: "(b \<Longrightarrow> same_ok r r') \<Longrightarrow> same_ok (if b then r else Inl e) (if b then r' else Inl e')"
  by simp

section \<open>The readers\<close>

lemma sync_take_exact_eq:
  "length bytes < usize_max \<Longrightarrow> c \<le> length bytes \<Longrightarrow> sync_take_exact bytes c n = take_exact bytes c n"
  by (auto simp: sync_take_exact_def take_exact_def usize_sat_add_def Let_def min_def)

lemma take_exact_cursor: "take_exact bytes c n = Inr (x, c') \<Longrightarrow> c \<le> length bytes \<Longrightarrow> c' \<le> length bytes"
  by (auto simp: take_exact_def split: if_splits)

lemma take_u8_cursor: "take_u8 bytes c = Inr (x, c') \<Longrightarrow> c \<le> length bytes \<Longrightarrow> c' \<le> length bytes"
  by (auto simp: take_u8_def rbind_Inr_iff dest: take_exact_cursor)

lemma take_string_cursor: "take_string bytes c = Inr (x, c') \<Longrightarrow> c \<le> length bytes \<Longrightarrow> c' \<le> length bytes"
  by (auto simp: take_string_def rbind_Inr_iff dest: take_exact_cursor take_u8_cursor)

lemma read_u8_eq: "length bytes < usize_max \<Longrightarrow> c \<le> length bytes \<Longrightarrow> read_u8 bytes c = take_u8 bytes c"
  by (simp add: read_u8_def take_u8_def sync_take_exact_eq)

lemma same_ok_string:
  assumes "length bytes < usize_max" "c \<le> length bytes"
  shows "same_ok (read_string bytes c) (take_string bytes c)"
proof -
  have "same_ok (rbind (take_u8 bytes c) (\<lambda>(len, c).
     rbind (sync_take_exact bytes c (unat len)) (\<lambda>(raw, c').
     rbind (ok_or auth_failed (from_utf8 raw)) (\<lambda>v. Inr (v, c')))))
     (rbind (take_u8 bytes c) (\<lambda>(len, c).
     rbind (take_exact bytes c (unat len)) (\<lambda>(raw, c').
     rbind (with_context ''object authentication failed'' (ok_or (Bail ''invalid utf-8'') (from_utf8 raw)))
       (\<lambda>v. Inr (v, c')))))"
  proof (rule same_ok_bind_pair)
    fix len c' assume "take_u8 bytes c = Inr (len, c')"
    then have "c' \<le> length bytes" using take_u8_cursor assms by blast
    then show "same_ok (case (len, c') of (len, c) \<Rightarrow> rbind (sync_take_exact bytes c (unat len)) (\<lambda>(raw, c').
        rbind (ok_or auth_failed (from_utf8 raw)) (\<lambda>v. Inr (v, c'))))
      (case (len, c') of (len, c) \<Rightarrow> rbind (take_exact bytes c (unat len)) (\<lambda>(raw, c').
        rbind (with_context ''object authentication failed'' (ok_or (Bail ''invalid utf-8'') (from_utf8 raw)))
       (\<lambda>v. Inr (v, c'))))"
      using assms by (simp add: sync_take_exact_eq) (auto simp: same_ok_def rbind_Inr_iff with_context_Inr_iff ok_or_Inr_iff)
  qed simp
  then show ?thesis using assms by (simp add: read_string_def take_string_def read_u8_eq)
qed

text \<open>One rule per reader: both sides read the same and go on with the same cursor.\<close>

lemma same_ok_exact:
  assumes "length bytes < usize_max" "c \<le> length bytes"
    and "\<And>x c'. c' \<le> length bytes \<Longrightarrow> same_ok (f x c') (g x c')"
  shows "same_ok (rbind (sync_take_exact bytes c n) (case_prod f)) (rbind (take_exact bytes c n) (case_prod g))"
  using assms take_exact_cursor
  by (auto simp: sync_take_exact_eq intro!: same_ok_bind_pair)

lemma same_ok_u8:
  assumes "length bytes < usize_max" "c \<le> length bytes"
    and "\<And>x c'. c' \<le> length bytes \<Longrightarrow> same_ok (f x c') (g x c')"
  shows "same_ok (rbind (read_u8 bytes c) (case_prod f)) (rbind (take_u8 bytes c) (case_prod g))"
  using assms take_u8_cursor
  by (auto simp: read_u8_eq intro!: same_ok_bind_pair)

lemma same_ok_u32:
  assumes "length bytes < usize_max" "c \<le> length bytes"
    and "\<And>x c'. c' \<le> length bytes \<Longrightarrow> same_ok (f (u32_from_le x) c') (g x c')"
  shows "same_ok (rbind (read_u32 bytes c) (case_prod f)) (rbind (take_exact bytes c 4) (case_prod g))"
proof -
  have "rbind (read_u32 bytes c) (case_prod f) = rbind (take_exact bytes c 4) (\<lambda>(s, c). f (u32_from_le s) c)"
    using assms(1,2) by (simp add: read_u32_def sync_take_exact_eq rbind_def split: sum.splits)
  then show ?thesis
    using assms(2,3) take_exact_cursor by (auto intro!: same_ok_bind_pair)
qed

lemma same_ok_u64:
  assumes "length bytes < usize_max" "c \<le> length bytes"
    and "\<And>x c'. c' \<le> length bytes \<Longrightarrow> same_ok (f (u64_from_le x) c') (g x c')"
  shows "same_ok (rbind (read_u64 bytes c) (case_prod f)) (rbind (take_exact bytes c 8) (case_prod g))"
proof -
  have "rbind (read_u64 bytes c) (case_prod f) = rbind (take_exact bytes c 8) (\<lambda>(s, c). f (u64_from_le s) c)"
    using assms(1,2) by (simp add: read_u64_def sync_take_exact_eq rbind_def split: sum.splits)
  then show ?thesis
    using assms(2,3) take_exact_cursor by (auto intro!: same_ok_bind_pair)
qed

lemma same_ok_read_string:
  assumes "length bytes < usize_max" "c \<le> length bytes"
    and "\<And>x c'. c' \<le> length bytes \<Longrightarrow> same_ok (f x c') (g x c')"
  shows "same_ok (rbind (read_string bytes c) (case_prod f)) (rbind (take_string bytes c) (case_prod g))"
  using assms take_string_cursor
  by (auto intro!: same_ok_bind_pair same_ok_string)

lemmas reader_steps = same_ok_exact same_ok_u8 same_ok_u32 same_ok_u64 same_ok_read_string

lemma read_envelope_same_ok:
  assumes len: "length bytes < usize_max"
  shows "same_ok (read_envelope_for_sync bytes) (envelope_decode bytes)"
proof (cases "4 \<le> length bytes")
  case True
  have start: "(0::nat) \<le> length bytes" by simp
  show ?thesis
    unfolding read_envelope_for_sync_def envelope_decode_def if_P [OF True]
    by (rule same_ok_exact [OF len start] | rule same_ok_if same_ok_refl
      | rule reader_steps [OF len], assumption)+
next
  case False
  then show ?thesis
    by (simp add: read_envelope_for_sync_def envelope_decode_def sync_take_exact_eq [OF len] take_exact_def)
qed

section \<open>The decoder\<close>

text \<open>C16: The synchronisation decoder and the object store agree: on any byte string shorter than the
  largest \<^verbatim>\<open>usize\<close>, the decoder returns a plaintext for an id and a type exactly when the object
  store opens the same bytes under that id with that type and plaintext and the envelope's key
  epoch is not zero (which only the decoder checks).\<close>

theorem sync_decoder_agrees:
  assumes "length bytes < usize_max"
  shows "decode_object_bytes_for_sync C s i t bytes = Inr p \<longleftrightarrow>
    open_envelope C s i bytes = Inr \<lparr> loaded_type = t, loaded_plaintext = p \<rparr> \<and>
    (\<exists>e. envelope_decode bytes = Inr e \<and> 0 < env_key_epoch e)"
proof (cases "envelope_decode bytes")
  case (Inl err)
  with read_envelope_same_ok [OF assms] have "\<not> is_ok (read_envelope_for_sync bytes)"
    by (auto simp: is_ok_iff same_ok_def)
  with Inl show ?thesis
    by (cases "read_envelope_for_sync bytes") (auto simp: decode_object_bytes_for_sync_def open_envelope_def)
next
  case (Inr e)
  with read_envelope_same_ok [OF assms] have "read_envelope_for_sync bytes = Inr e"
    by (simp add: same_ok_def)
  with Inr show ?thesis
    by (auto simp: decode_object_bytes_for_sync_def open_envelope_def decrypt_object_def associated_data_def
        remove_padding_policy_def derive_object_id_def Let_def rbind_Inr_iff)
qed

text \<open>A stored tree object, for the witnesses.\<close>

lemma sample_stored:
  obtains i fs bytes where "file_get (relative_object_path i) fs = Inr bytes" "map_of fs (relative_object_path i) = Some bytes"
    "length bytes < usize_max"
    "get_typed_object plain_crypto sample_secrets i fs = Inr \<lparr> loaded_type = ''tree'', loaded_plaintext = [1, 2, 3] \<rparr>"
    "open_envelope plain_crypto sample_secrets i bytes = Inr \<lparr> loaded_type = ''tree'', loaded_plaintext = [1, 2, 3] \<rparr>"
    "\<exists>e. envelope_decode bytes = Inr e \<and> 0 < env_key_epoch e"
proof -
  obtain i fs where put: "put_object plain_crypto sample_draw sample_secrets ''tree'' [1, 2, 3] [] = (Inr i, fs)"
    using sample_put by blast
  have "utf8_string ''tree''" by (rule utf8_string_ascii) (simp add: ascii_char_def)
  then have get: "get_typed_object plain_crypto sample_secrets i fs = Inr \<lparr> loaded_type = ''tree'', loaded_plaintext = [1, 2, 3] \<rparr>"
    using put_get_typed [OF plain_crypto_ok sample_draw_ok bt_ok_Nil _ _ _ put] by simp
  then obtain bytes where bytes: "file_get (relative_object_path i) fs = Inr bytes"
    and op: "open_envelope plain_crypto sample_secrets i bytes = Inr \<lparr> loaded_type = ''tree'', loaded_plaintext = [1, 2, 3] \<rparr>"
    by (auto simp: get_typed_object_def rbind_Inr_iff with_context_Inr_iff)
  from put obtain buf nonce c tag k where id: "i = derive_object_id plain_crypto sample_secrets ''tree'' [1, 2, 3]"
    and pad: "apply_padding_policy sample_draw ''tree'' [1, 2, 3] (padding_policy_for ''tree'') = Inr buf"
    and nonce: "nonce_for plain_crypto sample_draw sample_secrets ''tree'' i (padding_policy_for ''tree'') = Inr nonce"
    and "active_epoch_keys sample_secrets = Inr k"
    and seal: "aead_seal plain_crypto (manifest_enc_key k) nonce
       (associated_data sample_secrets i ''tree'' (padding_policy_for ''tree'') (active_epoch sample_secrets)) buf = Some (c, tag)"
    and fs: "fs = bt_insert (relative_object_path i)
       (envelope_encode \<lparr> env_format_version = envelope_format_version, env_object_type = ''tree'',
          env_crypto_suite = crypto_suite_name, env_key_epoch = active_epoch sample_secrets,
          env_padding_policy = padding_policy_for ''tree'', env_object_id = i, env_nonce = nonce,
          env_ciphertext = c, env_auth_tag = tag \<rparr>) []"
    by (rule put_object_stored)
  have stored: "map_of fs (relative_object_path i) = Some bytes"
    using bytes by (auto simp: file_get_def rbind_Inr_iff ok_or_Inr_iff with_context_Inr_iff)
  have "length c \<le> 39" "length tag = 16"
    using seal padding_roundtrip [OF pad] by (auto simp: plain_crypto_def)
  moreover have "length nonce = 24" using nonce_for_length [OF plain_crypto_ok sample_draw_ok nonce] .
  moreover have "length i = 64"
    unfolding id derive_object_id_def length_hex_encode by (simp add: plain_crypto_def)
  ultimately have "length bytes < usize_max"
    using stored by (auto simp: fs envelope_encode_def push_string_def usize_max_def envelope_magic_def
        crypto_suite_name_def padding_policy_for_def padding_policy_none_def padding_policy_randomized_def)
  moreover have "\<exists>e. envelope_decode bytes = Inr e \<and> 0 < env_key_epoch e"
  proof -
    obtain e k where e: "envelope_decode bytes = Inr e" "epoch_keys sample_secrets (env_key_epoch e) = Inr k"
      using op by (auto simp: open_envelope_def decrypt_object_def rbind_Inr_iff split: if_splits)
    then have "env_key_epoch e = 1" by (auto simp: epoch_keys_def sample_secrets_def split: if_splits)
    then show ?thesis using e by auto
  qed
  ultimately show ?thesis using that bytes stored get op by blast
qed

theorem sync_decoder_agrees_witness:
  "\<exists>i bytes. length bytes < usize_max \<and>
     decode_object_bytes_for_sync plain_crypto sample_secrets i ''tree'' bytes = Inr [1, 2, 3]"
proof -
  obtain i fs bytes where "length bytes < usize_max"
    "open_envelope plain_crypto sample_secrets i bytes = Inr \<lparr> loaded_type = ''tree'', loaded_plaintext = [1, 2, 3] \<rparr>"
    "\<exists>e. envelope_decode bytes = Inr e \<and> 0 < env_key_epoch e"
    by (rule sample_stored)
  with sync_decoder_agrees [of bytes plain_crypto sample_secrets i "''tree''" "[1, 2, 3]"] show ?thesis by blast
qed

section \<open>Type inference\<close>

lemma set_foldl_new:
  "set (foldl (\<lambda>acc t. if t \<in> set acc then acc else acc @ [t]) acc ts) = set acc \<union> set ts"
  by (induction ts arbitrary: acc) auto

lemma set_candidate_object_types [simp]:
  "set (candidate_object_types hint) = set object_type_candidates"
  by (auto simp: candidate_object_types_def Let_def set_foldl_new split: option.splits)

lemma get_object_ok_iff:
  "get_typed_object C s i fs = Inr l \<Longrightarrow> is_ok (get_object C s i t fs) \<longleftrightarrow> loaded_type l = t"
  by (auto simp: get_object_def)

text \<open>The type inferred for an object that the store can open is the object's type when it is one of
  the known types, and \<^verbatim>\<open>chunk\<close> otherwise; what the header of the local file claims
  (the hint) changes only the order in which the types are tried.\<close>

theorem inferred_type_correct:
  assumes "get_typed_object C s i fs = Inr l"
  shows "infer_object_type_for_resume_candidate C s fs i =
    (if loaded_type l \<in> set object_type_candidates then loaded_type l else ''chunk'')"
proof -
  define hint where "hint = (case read_local_object_type_hint i fs of Inr h \<Rightarrow> Some h | Inl _ \<Rightarrow> None)"
  have probe: "(\<lambda>t. is_ok (get_object C s i t fs)) = (\<lambda>t. loaded_type l = t)"
    using get_object_ok_iff [OF assms] by auto
  have eq: "find (\<lambda>t. x = t) ts = (if x \<in> set ts then Some x else None)" for x :: string and ts
    by (induction ts) auto
  have found: "find (\<lambda>t. loaded_type l = t) (candidate_object_types hint) =
      (if loaded_type l \<in> set object_type_candidates then Some (loaded_type l) else None)"
    unfolding eq by simp
  show ?thesis
    unfolding infer_object_type_for_resume_candidate_def Let_def hint_def [symmetric] probe
      infer_object_type_from_hint_def found by simp
qed

theorem inferred_type_correct_witness:
  "\<exists>i fs. infer_object_type_for_resume_candidate plain_crypto sample_secrets fs i = ''tree''"
proof -
  obtain i fs where get: "get_typed_object plain_crypto sample_secrets i fs =
      Inr \<lparr> loaded_type = ''tree'', loaded_plaintext = [1, 2, 3] \<rparr>"
    by (rule sample_stored)
  have "''tree'' \<in> set object_type_candidates" by (simp add: object_type_candidates_def)
  with inferred_type_correct [OF get] show ?thesis by auto
qed

section \<open>The cached pack index\<close>

lemma or_remove_cases:
  "or_remove p r fs = (out, fs') \<Longrightarrow> out = r \<and> (fs' = fs \<and> (\<exists>x. r = Inr x) \<or> fs' = bt_remove p fs \<and> (\<exists>e. r = Inl e))"
  by (cases r) (auto simp: or_remove_def)

lemma find_cached_entry_Some:
  "find_cached_entry i es = Inr (Some r) \<Longrightarrow>
     \<exists>e \<in> set es. cached_entry_object_id e = i \<and>
       pack_resolve (PackedObject (cached_entry_data_path e) (cached_entry_offset e) (cached_entry_length e)) = Inr r"
  by (induction i es rule: find_cached_entry.induct) (auto simp: rbind_Inr_iff split: if_splits)

definition cached_hit ::
  "crypto \<Rightarrow> cache_codecs \<Rightarrow> repo_secrets \<Rightarrow> string \<Rightarrow> files \<Rightarrow> string \<Rightarrow> physical_object_ref \<Rightarrow> bool" where
  "cached_hit C K s i fs segment_path r \<longleftrightarrow>
     (\<exists>bytes es e. map_of fs (cached_segment_path segment_path) = Some bytes \<and>
        decode_cached_segment C K s segment_path bytes = Inr es \<and> e \<in> set es \<and> cached_entry_object_id e = i \<and>
        pack_resolve (PackedObject (cached_entry_data_path e) (cached_entry_offset e) (cached_entry_length e)) = Inr r)"

text \<open>The cached bytes of the path are there, and they do not open and decode.\<close>

definition broken_segment ::
  "crypto \<Rightarrow> cache_codecs \<Rightarrow> repo_secrets \<Rightarrow> files \<Rightarrow> string \<Rightarrow> bool" where
  "broken_segment C K s fs segment_path \<longleftrightarrow>
     (\<exists>bytes e. map_of fs (cached_segment_path segment_path) = Some bytes \<and>
        decode_cached_segment C K s segment_path bytes = Inl e)"

lemma find_in_cached_segments_effect:
  "find_in_cached_segments C K s i segs fs = (out, fs') \<Longrightarrow>
     (case out of
        Inr r \<Rightarrow> fs' = fs \<and> (\<exists>seg \<in> set segs. cached_hit C K s i fs seg r)
      | Inl _ \<Rightarrow> fs' = fs \<or>
          (\<exists>seg \<in> set segs. broken_segment C K s fs seg \<and> fs' = bt_remove (cached_segment_path seg) fs))"
proof (induction C K s i segs arbitrary: fs rule: find_in_cached_segments.induct)
  case (1 C K s i)
  then show ?case by auto
next
  case (2 C K s i seg segs)
  show ?case
  proof (cases "starts_with seg ''packs/index/'' \<or> starts_with seg ''pack-index/segments/''")
    case False
    with 2(2) show ?thesis by auto
  next
    case True
    show ?thesis
    proof (cases "map_of fs (cached_segment_path seg)")
      case None
      with True 2(2) show ?thesis by (auto simp: fs_read_def)
    next
      case (Some bytes)
      show ?thesis
      proof (cases "decode_cached_segment C K s seg bytes")
        case (Inl e)
        with True Some 2(2) show ?thesis by (auto simp: fs_read_def sbind_def or_remove_def broken_segment_def)
      next
        case (Inr es)
        then have step: "sbind (slift (find_cached_entry i es)) (\<lambda>found. case found of
            Some r \<Rightarrow> sret r | None \<Rightarrow> find_in_cached_segments C K s i segs) fs = (out, fs')"
          using True Some 2(2) by (simp add: fs_read_def sbind_def or_remove_def)
        consider e where "find_cached_entry i es = Inl e" | "find_cached_entry i es = Inr None"
          | r where "find_cached_entry i es = Inr (Some r)"
          by (metis not_None_eq old.sum.exhaust)
        then show ?thesis
        proof cases
          case 1
          with step show ?thesis by auto
        next
          case 2
          with step have "find_in_cached_segments C K s i segs fs = (out, fs')" by simp
          with "2.IH" [OF True, of fs] show ?thesis by (cases out) auto
        next
          case 3
          with find_cached_entry_Some [OF 3] Some Inr have "cached_hit C K s i fs seg r"
            by (auto simp: cached_hit_def)
          with step 3 show ?thesis by auto
        qed
      qed
    qed
  qed
qed

text \<open>C17: Looking up an object in the cached pack index: a reference that is returned comes from an
  authenticated entry for that object in a segment that the authenticated cached root lists, names
  a container below \<^verbatim>\<open>packs/data\<close>, and leaves the files alone; a lookup that fails removes at most
  one file, and only the cached root when its bytes do not open and decode, or the cached copy of a
  segment that the decoded root lists when the bytes of that copy do not open and decode.\<close>

theorem cached_pack_lookup_sound:
  assumes "load_cached_pack_physical_ref_for_object_id C K s i fs = (out, fs')"
  shows "case out of
      Inr r \<Rightarrow> fs' = fs \<and>
        (\<exists>n ns. walk root (components (container_id r)) = root @ [''packs'', ''data''] @ n # ns) \<and>
        (\<exists>bytes cached seg. map_of fs cached_root_path = Some bytes \<and>
           decode_cached_root C K s bytes = Inr cached \<and> seg \<in> set (cached_root_segments cached) \<and>
           cached_hit C K s i fs seg r)
    | Inl e \<Rightarrow> fs' = fs \<or>
        (\<exists>bytes. map_of fs cached_root_path = Some bytes \<and>
          ((\<exists>e'. decode_cached_root C K s bytes = Inl e') \<and> fs' = bt_remove cached_root_path fs \<or>
           (\<exists>cached seg segment e'. decode_cached_root C K s bytes = Inr cached \<and>
              seg \<in> set (cached_root_segments cached) \<and>
              map_of fs (cached_segment_path seg) = Some segment \<and>
              decode_cached_segment C K s seg segment = Inl e' \<and>
              fs' = bt_remove (cached_segment_path seg) fs)))"
proof -
  have res: "\<exists>n ns. walk root (components (container_id r)) = root @ [''packs'', ''data''] @ n # ns"
    if "cached_hit C K s i fs seg r" for seg r
    using that pack_resolve_container by (auto simp: cached_hit_def)
  show ?thesis
  proof (cases "validate_object_id_value i")
    case (Inl e)
    with assms show ?thesis by (auto simp: load_cached_pack_physical_ref_for_object_id_def)
  next
    case valid: (Inr u)
    show ?thesis
    proof (cases "map_of fs cached_root_path")
      case None
      with valid assms show ?thesis by (auto simp: load_cached_pack_physical_ref_for_object_id_def fs_read_def)
    next
      case root: (Some bytes)
      show ?thesis
      proof (cases "decode_cached_root C K s bytes")
        case (Inl e)
        with valid root assms show ?thesis
          by (auto simp: load_cached_pack_physical_ref_for_object_id_def fs_read_def sbind_def or_remove_def)
      next
        case (Inr cached)
        with valid root assms have "(sensure (cached_root_schema_version cached = 1) (Bail ''unsupported pack index root schema version'')
            (sensure (\<not> blank (cached_root_layout_id cached)) (Bail ''pack index root layout id must not be empty'')
            (find_in_cached_segments C K s i (cached_root_segments cached)))) fs = (out, fs')"
          by (simp add: load_cached_pack_physical_ref_for_object_id_def fs_read_def sbind_def or_remove_def)
        then show ?thesis
          using find_in_cached_segments_effect [of C K s i "cached_root_segments cached" fs out fs'] root Inr res
          by (auto simp: broken_segment_def split: if_splits sum.splits)
      qed
    qed
  qed
qed

instance cached_pack_index_root_ext :: (countable) countable
  by (rule countable_classI [of "\<lambda>r. to_nat (cached_root_schema_version r, cached_root_layout_id r,
        cached_root_segments r, cached_pack_index_root.more r)"]) auto

instance cached_pack_entry_ext :: (countable) countable
  by (rule countable_classI [of "\<lambda>r. to_nat (cached_entry_object_id r, cached_entry_data_path r,
        cached_entry_offset r, cached_entry_length r, cached_pack_entry.more r)"]) auto

instance cached_object_pack_index_ext :: (countable) countable
  by (rule countable_classI [of "\<lambda>r. to_nat (cached_index_schema_version r, cached_index_data_path r,
        cached_index_entries r, cached_object_pack_index.more r)"]) auto

instance cached_aggregate_segment_ext :: (countable) countable
  by (rule countable_classI [of "\<lambda>r. to_nat (cached_segment_schema_version r, cached_segment_entries r,
        cached_aggregate_segment.more r)"]) auto

definition sample_codecs :: cache_codecs where
  "sample_codecs = \<lparr> cc_postcard = unary_codec, cc_root = unary_codec, cc_index = unary_codec,
     cc_segment = unary_codec \<rparr>"

lemma sample_encrypt: "\<exists>bs. encrypt_control_record plain_crypto unary_codec sample_secrets n t p = Inr bs"
  by (simp add: encrypt_control_record_def derive_control_nonce_def active_epoch_keys_def epoch_keys_def
      sample_secrets_def plain_crypto_def Let_def)

text \<open>A cache with one aggregate segment that has the object \<^verbatim>\<open>aa\<close>.\<close>

theorem cached_pack_lookup_sound_witness:
  "\<exists>fs r. load_cached_pack_physical_ref_for_object_id plain_crypto sample_codecs sample_secrets ''aa'' fs = (Inr r, fs) \<and>
     (\<exists>n ns. walk [''r''] (components (container_id r)) = [''r''] @ [''packs'', ''data''] @ n # ns)"
proof -
  let ?seg = "''pack-index/segments/s''"
  let ?root = "\<lparr> cached_root_schema_version = 1, cached_root_layout_id = ''l'', cached_root_segments = [?seg] \<rparr>"
  let ?entry = "\<lparr> cached_entry_object_id = ''aa'', cached_entry_data_path = ''packs/data/p.bin'',
      cached_entry_offset = 0, cached_entry_length = 4 \<rparr>"
  let ?segment = "\<lparr> cached_segment_schema_version = 1, cached_segment_entries = [?entry] \<rparr>"
  obtain rb where rb: "encrypt_control_record plain_crypto unary_codec sample_secrets ''pack-index-root''
      ''pack-index-root'' (to_vec (unary_codec :: cached_pack_index_root serde) ?root) = Inr rb"
    using sample_encrypt by blast
  obtain sb where sb: "encrypt_control_record plain_crypto unary_codec sample_secrets
      (''pack-index-segment:'' @ ?seg) ''pack-index-segment''
      (to_vec (unary_codec :: cached_aggregate_segment serde) ?segment) = Inr sb"
    using sample_encrypt by blast
  let ?fs = "[(cached_root_path, rb), (cached_segment_path ?seg, sb)]"
  have names: "cached_root_path \<noteq> cached_segment_path ?seg" "\<not> starts_with ?seg ''packs/index/''"
    "starts_with ?seg ''pack-index/segments/''" "\<not> blank ''l''" "validate_object_id_value ''aa'' = Inr ()"
    "validate_cached_pack_data_path ''packs/data/p.bin'' = Inr ()"
    by code_simp+
  obtain r where r: "pack_resolve (PackedObject ''packs/data/p.bin'' 0 4) = Inr r"
  proof -
    have "is_ok (pack_resolve (PackedObject ''packs/data/p.bin'' 0 4))" by code_simp
    then show ?thesis using that by (auto simp: is_ok_iff)
  qed
  have root: "decode_cached_root plain_crypto sample_codecs sample_secrets rb = Inr ?root"
    using decrypt_encrypted [OF plain_crypto_ok serde_ok_unary rb]
    by (simp add: decode_cached_root_def sample_codecs_def unary_roundtrip)
  have segment: "decode_cached_segment plain_crypto sample_codecs sample_secrets ?seg sb = Inr [?entry]"
    using decrypt_encrypted [OF plain_crypto_ok serde_ok_unary sb] names(2)
    unfolding decode_cached_segment_def by (simp add: sample_codecs_def unary_roundtrip)
  have lookup: "map_of ?fs cached_root_path = Some rb" "map_of ?fs (cached_segment_path ?seg) = Some sb"
    using names(1) by auto
  have found: "find_cached_entry ''aa'' [?entry] = Inr (Some r)" using names(6) r by simp
  have "find_in_cached_segments plain_crypto sample_codecs sample_secrets ''aa'' [?seg] ?fs = (Inr r, ?fs)"
    using names(3) lookup(2) segment found
    unfolding find_in_cached_segments.simps fs_read_def or_remove_def [abs_def] by (simp add: sbind_def)
  then have run: "load_cached_pack_physical_ref_for_object_id plain_crypto sample_codecs sample_secrets ''aa'' ?fs = (Inr r, ?fs)"
    using names(4,5) lookup(1) root
    unfolding load_cached_pack_physical_ref_for_object_id_def fs_read_def or_remove_def [abs_def]
    by (simp add: sbind_def)
  from cached_pack_lookup_sound [OF run, of "[''r'']"] run show ?thesis by auto
qed

end
