(* ===== verification/Resume.thy ===== *)
theory Resume
  imports Journal
begin

text \<open>
  Resuming a push (\<^verbatim>\<open>e2v-sync/src/push.rs\<close>, \<^verbatim>\<open>resume_push\<close>): which journalled objects the
  remote already has, and the loop over the pending objects of the journal in batches of 128.
  The state is the pair of the remote and the journal.
\<close>

section \<open>Does the remote hold an object?\<close>

type_synonym pack_cache = "(string, byte list) btree"

text \<open>The pack named by a location, from the cache or read whole from the remote.\<close>

definition load_pack :: "'s remote \<Rightarrow> string \<Rightarrow> pack_cache \<Rightarrow> 's \<Rightarrow> pack_cache option" where
  "load_pack R container cache s =
     (if map_of cache container \<noteq> None then Some cache
      else
        (case r_stat R container s of
           Inl e \<Rightarrow> None
         | Inr st \<Rightarrow>
             (case r_get_range R container 0 (unat (stat_length st)) s of
                Inl e \<Rightarrow> None
              | Inr bytes \<Rightarrow> Some (bt_insert container bytes cache))))"

definition remote_object_authenticates_for_repo ::
  "'s upload_env \<Rightarrow> locations \<Rightarrow> pack_cache \<Rightarrow> string \<Rightarrow> string \<Rightarrow> 's \<Rightarrow> bool \<times> pack_cache" where
  "remote_object_authenticates_for_repo U locs cache object_id expected_type s =
     (case map_of locs object_id of
        Some l \<Rightarrow>
          (case location_physical_ref l of
             Inl e \<Rightarrow> (False, cache)
           | Inr r \<Rightarrow>
               (case load_pack (up_remote U) (container_id r) cache s of
                  None \<Rightarrow> (False, cache)
                | Some cache' \<Rightarrow>
                    (case map_of cache' (container_id r) of
                       None \<Rightarrow> (False, cache')
                     | Some pack \<Rightarrow>
                         (let offset = unat (case ref_offset r of Some x \<Rightarrow> x | None \<Rightarrow> 0);
                              end_pos = usize_sat_add offset (unat (ref_length r))
                          in if length pack < end_pos then (False, cache')
                             else (is_ok (decode_object_bytes_for_sync (up_crypto U) (up_secrets U)
                                     object_id expected_type (take (end_pos - offset) (drop offset pack))),
                                   cache')))))
      | None \<Rightarrow>
          (case r_get (up_remote U) (relative_object_path object_id) s of
             Inl e \<Rightarrow> (False, cache)
           | Inr bytes \<Rightarrow>
               (is_ok (decode_object_bytes_for_sync (up_crypto U) (up_secrets U) object_id expected_type bytes),
                cache)))"

section \<open>The loop over the pending objects\<close>

definition resume_object_batch_size :: nat where "resume_object_batch_size = 128"

definition at_journal :: "(journal, 'a) prog \<Rightarrow> ('s \<times> journal, 'a) prog" where
  "at_journal m w = (fst (m (snd w)), (fst w, snd (m (snd w))))"

definition record_object_verified :: "string \<Rightarrow> string \<Rightarrow> ('s \<times> journal, unit) prog" where
  "record_object_verified op object_id = at_journal (record_verified op object_id ''object'')"

text \<open>One batch: objects that the remote has are recorded, the others are collected.\<close>

fun resume_scan ::
  "'s upload_env \<Rightarrow> string \<Rightarrow> locations \<Rightarrow> pack_cache \<Rightarrow> bool \<Rightarrow> string list \<Rightarrow> object_upload_record list \<Rightarrow>
   ('s \<times> journal, bool \<times> string list) prog" where
  "resume_scan U op locs cache saw missing [] = sret (saw, missing)"
| "resume_scan U op locs cache saw missing (r # rs) =
     (if rec_object_type r \<noteq> ''object'' then resume_scan U op locs cache saw missing rs
      else
        sbind (sread (\<lambda>w. Inr (remote_object_authenticates_for_repo U locs cache (rec_object_id r)
            (infer_object_type_for_resume_candidate (up_crypto U) (up_secrets U) (up_local U) (rec_object_id r))
            (fst w)))) (\<lambda>(authentic, cache').
        if authentic then
          sbind (record_object_verified op (rec_object_id r)) (\<lambda>_.
          resume_scan U op locs cache' True missing rs)
        else resume_scan U op locs cache' True (missing @ [rec_object_id r]) rs))"

record resume_progress =
  saw_journal_objects :: bool
  resume_pack_locations :: locations
  resume_index_segments :: "string list"

definition resume_batch ::
  "'s upload_env \<Rightarrow> string \<Rightarrow> bool \<Rightarrow> nat \<Rightarrow> resume_progress \<Rightarrow> nat \<Rightarrow>
   ('s \<times> journal, nat option \<times> resume_progress) prog" where
  "resume_batch U op segment_only_uploads total_tracked_objects progress cursor =
     sbind (sread (\<lambda>w. pending_object_batch op cursor resume_object_batch_size (snd w))) (\<lambda>batch.
     sbind (resume_scan U op (resume_pack_locations progress) [] (saw_journal_objects progress) []
              (batch_records batch)) (\<lambda>(saw, missing).
     sbind (slift (should_pack_current_upload_set (up_local U) missing total_tracked_objects)) (\<lambda>pack_enabled.
     sbind (if segment_only_uploads
            then upload_objects_as_pack_segments U op missing (record_object_verified op)
            else upload_objects_with_policy U op missing pack_enabled (record_object_verified op)) (\<lambda>published.
     sret (next_cursor batch,
           \<lparr> saw_journal_objects = saw,
             resume_pack_locations = bt_extend (resume_pack_locations progress) (pub_locations published),
             resume_index_segments = resume_index_segments progress @ pub_index_paths published \<rparr>)))))"

text \<open>
  The loop runs until there is no next cursor. \<open>fuel\<close> bounds the number of batches; the result
  is \<^const>\<open>None\<close> when it is used up. One more than the number of pending objects is enough.
\<close>

fun resume_loop ::
  "nat \<Rightarrow> 's upload_env \<Rightarrow> string \<Rightarrow> bool \<Rightarrow> nat \<Rightarrow> resume_progress \<Rightarrow> nat option \<Rightarrow> 's \<times> journal \<Rightarrow>
   (resume_progress res \<times> 's \<times> journal) option" where
  "resume_loop fuel U op segment_only_uploads tracked progress None w = Some (Inr progress, w)"
| "resume_loop 0 U op segment_only_uploads tracked progress (Some cursor) w = None"
| "resume_loop (Suc fuel) U op segment_only_uploads tracked progress (Some cursor) w =
     (case resume_batch U op segment_only_uploads tracked progress cursor w of
        (Inl e, w') \<Rightarrow> Some (Inl e, w')
      | (Inr (next, progress'), w') \<Rightarrow>
          resume_loop fuel U op segment_only_uploads tracked progress' next w')"

end
