(* ===== verification/Resume_Proofs.thy ===== *)
theory Resume_Proofs
  imports Resume
begin

text \<open>
  Lemmas on the journal and the resume loop: what a page of a query returns, which records a
  batch marks as verified, and what each iteration of the loop leaves pending.
\<close>

section \<open>Rows and pages\<close>

lemma sorted_filter_keys: "sorted_wrt (<) (map fst m) \<Longrightarrow> sorted_wrt (<) (map fst (filter P m))"
  by (induction m) auto

lemma operation_rows_sorted:
  assumes "journal_ok j"
  shows "sorted_wrt (<) (map (snd \<circ> fst) (operation_rows op j))"
proof -
  have "sorted_wrt (<) (map fst (operation_rows op j))"
    using assms unfolding operation_rows_def journal_ok_def bt_ok_def by (intro sorted_filter_keys) blast
  moreover have "\<forall>r \<in> set (operation_rows op j). fst (fst r) = op"
    by (auto simp: operation_rows_def)
  moreover have "sorted_wrt (<) (map (snd \<circ> fst) rs)" if "sorted_wrt (<) (map fst rs)"
    "\<forall>r \<in> set rs. fst (fst r) = op" for rs :: "object_row list"
    using that by (induction rs) (auto simp: less_prod_def)
  ultimately show ?thesis by blast
qed

definition row_record :: "object_row \<Rightarrow> object_upload_record" where
  "row_record row = (case row of ((o', i), t, st) \<Rightarrow>
     \<lparr> rec_object_id = i, rec_object_type = t,
       rec_state = (case state_from_str st of Inr s \<Rightarrow> s | Inl e \<Rightarrow> Failed) \<rparr>)"

lemma decode_row_ok:
  "is_ok (state_from_str (snd (snd row))) \<Longrightarrow> decode_row row = Inr (row_record row)"
  by (cases row) (auto simp: decode_row_def row_record_def is_ok_iff)

lemma operation_row_state:
  assumes "journal_ok j" "row \<in> set (operation_rows op j)"
  obtains st where "snd (snd row) = state_as_str st"
proof -
  have "row \<in> set (jr_objects j)" using assms(2) by (auto simp: operation_rows_def)
  with assms(1) have "is_ok (state_from_str (snd (snd row)))"
    unfolding journal_ok_def by (cases row) fastforce
  with that show thesis by (auto simp: is_ok_iff state_from_str_Inr)
qed

lemma decode_rows:
  assumes "journal_ok j" "set rows \<subseteq> set (operation_rows op j)"
  shows "mapM decode_row rows = Inr (map row_record rows)"
proof (rule mapM_Inr_map)
  fix row assume "row \<in> set rows"
  then obtain st where "snd (snd row) = state_as_str st"
    using operation_row_state assms by (meson subsetD)
  then show "decode_row row = Inr (row_record row)" by (simp add: decode_row_ok)
qed

lemma row_record_id [simp]: "rec_object_id (row_record row) = snd (fst row)"
  by (cases row) (auto simp: row_record_def)

lemma as_i64_small: "n < 2 ^ 63 \<Longrightarrow> as_i64 n = int n"
  by (simp add: as_i64_def Let_def)

lemma sql_page_small:
  "limit < 2 ^ 63 \<Longrightarrow> start < 2 ^ 63 \<Longrightarrow> sql_page (as_i64 limit) (as_i64 start) rows = take limit (drop start rows)"
  by (simp add: sql_page_def as_i64_small)

lemma set_sql_page: "set (sql_page l s rows) \<subseteq> set rows"
  by (auto simp: sql_page_def Let_def dest: in_set_takeD in_set_dropD)

definition pending_rows :: "string \<Rightarrow> journal \<Rightarrow> object_row list" where
  "pending_rows op j = filter (\<lambda>(k, t, st). st \<noteq> state_as_str Verified) (operation_rows op j)"

lemma state_as_str_pending: "state_as_str st \<in> set (map state_as_str [Planned, Uploaded, Failed]) \<longleftrightarrow>
    state_as_str st \<noteq> state_as_str Verified"
  by (cases st) auto

lemma pending_count:
  assumes "journal_ok j"
  shows "count_objects_in_states op [Planned, Uploaded, Failed] j = Inr (length (pending_rows op j))"
proof -
  have "filter (\<lambda>(k, t, st). st \<in> set (map state_as_str [Planned, Uploaded, Failed])) (operation_rows op j)
      = pending_rows op j"
    unfolding pending_rows_def
  proof (rule filter_cong [OF refl])
    fix row assume "row \<in> set (operation_rows op j)"
    then obtain st where st: "snd (snd row) = state_as_str st" using operation_row_state assms by blast
    then obtain k t where row: "row = (k, t, state_as_str st)" by (cases row) auto
    show "(case row of (k, t, st) \<Rightarrow> st \<in> set (map state_as_str [Planned, Uploaded, Failed])) =
        (case row of (k, t, st) \<Rightarrow> st \<noteq> state_as_str Verified)"
      unfolding row prod.case by (rule state_as_str_pending)
  qed
  then show ?thesis unfolding count_objects_in_states_def by (simp only: list.distinct if_False)
qed

lemma pending_batch_page:
  assumes "journal_ok j" "0 < limit" "limit < 2 ^ 63" "start < 2 ^ 63"
  shows "pending_object_batch op start limit j = Inr
    (let page = take limit (drop start (pending_rows op j))
     in \<lparr> batch_records = map row_record page,
          next_cursor = (if start + length page < length (pending_rows op j) then Some (start + length page) else None) \<rparr>)"
proof -
  have "set (take limit (drop start (pending_rows op j))) \<subseteq> set (operation_rows op j)"
    by (auto simp: pending_rows_def dest!: in_set_takeD in_set_dropD)
  then have "mapM decode_row (take limit (drop start (pending_rows op j))) =
      Inr (map row_record (take limit (drop start (pending_rows op j))))"
    by (rule decode_rows [OF assms(1)])
  then show ?thesis
    using assms pending_count [OF assms(1), of op] sql_page_small [OF assms(3,4), of "pending_rows op j"]
    unfolding pending_object_batch_def pending_rows_def [symmetric] by (simp add: Let_def del: length_take)
qed

section \<open>Marking objects as verified\<close>

text \<open>\<open>marked op ids j j'\<close>: the records of \<open>ids\<close> are verified, and that is all that changed.\<close>

definition marked :: "string \<Rightarrow> string set \<Rightarrow> journal \<Rightarrow> journal \<Rightarrow> bool" where
  "marked op ids j j' \<longleftrightarrow> journal_ok j' \<and> jr_metadata j' = jr_metadata j \<and> jr_rewrite j' = jr_rewrite j \<and>
     (\<forall>k. map_of (jr_objects j') k =
        (if fst k = op \<and> snd k \<in> ids then Some (''object'', state_as_str Verified) else map_of (jr_objects j) k))"

lemma marked_none: "journal_ok j \<Longrightarrow> marked op {} j j"
  by (simp add: marked_def)

lemma marked_trans:
  assumes "marked op A j j'" "marked op B j' j''"
  shows "marked op (A \<union> B) j j''"
  using assms by (auto simp: marked_def)

lemma marked_one:
  assumes "journal_ok j"
  shows "marked op {i} j (snd (record_verified op i ''object'' j))"
proof -
  have "journal_ok (snd (record_verified op i ''object'' j))" using journal_ok_ops(4) assms .
  moreover have "bt_ok (jr_objects j)" using assms by (simp add: journal_ok_def)
  ultimately show ?thesis
    by (auto simp: marked_def record_verified_def upsert_object_state_def map_of_bt_insert)
qed

lemma record_object_verified_run:
  "record_object_verified op i (s, j) = (Inr (), s, snd (record_verified op i ''object'' j))"
  by (simp add: record_object_verified_def at_journal_def record_verified_def upsert_object_state_def)

lemma sbind_record_verified:
  "sbind (record_object_verified op i) f (s, j) = f () (s, snd (record_verified op i ''object'' j))"
  by (simp add: sbind_def record_object_verified_run)

lemma for_each_marked:
  "journal_ok j \<Longrightarrow> for_each (record_object_verified op) ids (s, j) = (r, s', j') \<Longrightarrow>
     r = Inr () \<and> s' = s \<and> marked op (set ids) j j'"
proof (induction ids arbitrary: j)
  case Nil
  then show ?case by (simp add: marked_none)
next
  case (Cons i ids)
  let ?j = "snd (record_verified op i ''object'' j)"
  have one: "marked op {i} j ?j" using marked_one Cons.prems(1) .
  then have "journal_ok ?j" by (simp add: marked_def)
  with Cons.IH [of ?j] Cons.prems(2) have "r = Inr () \<and> s' = s \<and> marked op (set ids) ?j j'"
    by (simp add: sbind_record_verified)
  with marked_trans [OF one] show ?case by simp
qed

text \<open>The rows that stay pending, in order.\<close>

lemma pending_rows_key: "row \<in> set (pending_rows op j) \<Longrightarrow> fst row = (op, snd (fst row))"
  by (auto simp: pending_rows_def operation_rows_def)

lemma pending_rows_sorted:
  "journal_ok j \<Longrightarrow> sorted_wrt (<) (map fst (pending_rows op j))"
  unfolding pending_rows_def operation_rows_def journal_ok_def bt_ok_def
  by (intro sorted_filter_keys) blast

lemma pending_rows_mem:
  assumes "journal_ok j"
  shows "((op', i), t, st) \<in> set (pending_rows op j) \<longleftrightarrow>
    op' = op \<and> map_of (jr_objects j) (op, i) = Some (t, st) \<and> st \<noteq> state_as_str Verified"
  using assms bt_ok_distinct [of "jr_objects j"]
  by (auto simp: pending_rows_def operation_rows_def journal_ok_def map_of_eq_Some_iff)

lemma sorted_keys_eqI:
  assumes "sorted_wrt (<) (map fst m)" "sorted_wrt (<) (map fst n)" "set m = set n"
  shows "m = (n :: ('a::linorder \<times> 'b) list)"
proof -
  have "bt_ok m" "bt_ok n" using assms by (simp_all add: bt_ok_def)
  moreover from this have "map_of m = map_of n"
    by (metis assms(3) bt_ok_distinct map_of_inject_set)
  ultimately show ?thesis by (rule bt_eqI)
qed

lemma pending_rows_marked:
  assumes "journal_ok j" "marked op ids j j'"
  shows "pending_rows op j' = filter (\<lambda>row. snd (fst row) \<notin> ids) (pending_rows op j)"
proof (rule sorted_keys_eqI)
  have ok': "journal_ok j'" using assms(2) by (simp add: marked_def)
  show "sorted_wrt (<) (map fst (pending_rows op j'))" using pending_rows_sorted ok' .
  show "sorted_wrt (<) (map fst (filter (\<lambda>row. snd (fst row) \<notin> ids) (pending_rows op j)))"
    using sorted_filter_keys pending_rows_sorted assms(1) by blast
  have "((o', i), t, st) \<in> set (pending_rows op j') \<longleftrightarrow>
      ((o', i), t, st) \<in> set (filter (\<lambda>row. snd (fst row) \<notin> ids) (pending_rows op j))" for o' i t st
    using assms(2) by (auto simp: pending_rows_mem [OF ok'] pending_rows_mem [OF assms(1)] marked_def split: if_splits)
  then show "set (pending_rows op j') = set (filter (\<lambda>row. snd (fst row) \<notin> ids) (pending_rows op j))"
    by auto
qed

section \<open>Uploads mark what they upload\<close>

lemma at_remote_journal: "at_remote m (s, j) = (r, s', j') \<Longrightarrow> j' = j"
  by (auto simp: at_remote_def)

lemma sbind_keeps_journal:
  "(\<And>w. snd (snd (m w)) = snd w) \<Longrightarrow> (\<And>x w. snd (snd (f x w)) = snd w) \<Longrightarrow> snd (snd (sbind m f w)) = snd w"
proof -
  assume m: "\<And>w. snd (snd (m w)) = snd w" and f: "\<And>x w. snd (snd (f x w)) = snd w"
  obtain r t where run: "m w = (r, t)" by (cases "m w")
  show ?thesis
    using m [of w] f [of _ t] by (cases r) (simp_all add: sbind_def run)
qed

lemma publish_pack_keeps_journal: "snd (snd (publish_pack U op n b w)) = snd w"
  unfolding publish_pack_def Let_def
  by (auto simp: at_remote_def simp del: sbind_prim split: prod.splits intro!: sbind_keeps_journal)

lemma publish_pack_journal: "publish_pack U op n b (s, j) = (Inr r, s', j') \<Longrightarrow> j' = j"
  using publish_pack_keeps_journal [of U op n b "(s, j)"] by simp

lemma marked_ok: "marked op A j j' \<Longrightarrow> journal_ok j'"
  by (simp add: marked_def)

lemma upload_loop_marked:
  assumes "journal_ok j"
    and "upload_batch_loop U (record_object_verified op) b packed ids (s, j) = (Inr (b', packed'), s', j')"
  shows "\<exists>A. marked op A j j' \<and> A \<union> set packed' = set ids \<union> set packed \<and> set packed \<subseteq> set packed' \<and>
    (b = None \<longleftrightarrow> b' = None) \<and> (b = None \<longrightarrow> packed' = packed)"
  using assms
proof (induction ids arbitrary: b packed s j)
  case Nil
  then show ?case by (auto intro: marked_none)
next
  case (Cons i ids)
  let ?loose = "\<lambda>bytes. sbind (at_remote (r_put (up_remote U) (relative_object_path i) bytes)) (\<lambda>_.
      sbind (record_object_verified op i) (\<lambda>_. upload_batch_loop U (record_object_verified op) b packed ids))"
  obtain bytes where step: "(case b of Some x \<Rightarrow>
        if length bytes \<le> small_object_max_bytes
        then upload_batch_loop U (record_object_verified op) (Some (builder_push_object i bytes x)) (packed @ [i]) ids
        else ?loose bytes
      | None \<Rightarrow> ?loose bytes) (s, j) = (Inr (b', packed'), s', j')"
    using Cons.prems(2) by (auto split: sum.splits)
  then consider (loose) "?loose bytes (s, j) = (Inr (b', packed'), s', j')"
    | (pack) x where "b = Some x" "upload_batch_loop U (record_object_verified op)
        (Some (builder_push_object i bytes x)) (packed @ [i]) ids (s, j) = (Inr (b', packed'), s', j')"
    by (auto split: option.splits if_splits)
  then show ?case
  proof cases
    case loose
    let ?j = "snd (record_verified op i ''object'' j)"
    obtain t where "upload_batch_loop U (record_object_verified op) b packed ids (t, ?j) = (Inr (b', packed'), s', j')"
      using loose by (auto simp: sbind_Inr_iff record_object_verified_run dest!: at_remote_journal)
    moreover have one: "marked op {i} j ?j" using marked_one Cons.prems(1) .
    ultimately obtain A where A: "marked op A ?j j'" "A \<union> set packed' = set ids \<union> set packed"
      "set packed \<subseteq> set packed'" "b = None \<longleftrightarrow> b' = None" "b = None \<longrightarrow> packed' = packed"
      using Cons.IH [OF marked_ok [OF one]] by metis
    have "{i} \<union> A \<union> set packed' = set (i # ids) \<union> set packed" using A(2) by (simp add: Un_assoc)
    with marked_trans [OF one A(1)] A(3-5) show ?thesis by metis
  next
    case pack
    then show ?thesis using Cons.IH [OF Cons.prems(1) pack(2)] by auto
  qed
qed

lemma upload_batch_marked:
  assumes "journal_ok j"
    and "upload_object_batch U op' ids pack_enabled n (record_object_verified op) (s, j) = (Inr r, s', j')"
  shows "marked op (set ids) j j'"
proof -
  obtain b b' packed t k where loop:
      "upload_batch_loop U (record_object_verified op) b [] ids (s, j) = (Inr (b', packed), t, k)"
    and rest: "(case b' of Some x \<Rightarrow>
          if packed = [] then sret (n, None)
          else sbind (publish_pack U op' n x) (\<lambda>batch. sbind (for_each (record_object_verified op) packed) (\<lambda>_.
                 sret (n + 1, Some batch)))
        | None \<Rightarrow> sret (n, None)) (t, k) = (Inr r, s', j')"
    using assms(2) by (auto simp: upload_object_batch_def sbind_Inr_iff split: prod.splits sum.splits)
  from upload_loop_marked [OF assms(1) loop] obtain A where A: "marked op A j k" "A \<union> set packed = set ids"
    "b' = None \<longrightarrow> packed = []" by auto
  show ?thesis
  proof (cases "packed = []")
    case True
    with rest A show ?thesis by (auto split: option.splits)
  next
    case False
    with rest A(3) obtain t' where "for_each (record_object_verified op) packed (t', k) = (Inr (), s', j')"
      by (auto simp: sbind_Inr_iff dest!: publish_pack_journal split: option.splits)
    then have "marked op (set packed) k j'" using for_each_marked [OF marked_ok [OF A(1)]] by metis
    with marked_trans [OF A(1)] A(2) show ?thesis by metis
  qed
qed

lemma upload_batches_marked:
  assumes "journal_ok j"
    and "upload_batches U op' pack_enabled (record_object_verified op) n acc batches (s, j) = (Inr r, s', j')"
  shows "marked op (\<Union> (set ` set batches)) j j'"
  using assms
proof (induction batches arbitrary: n acc s j)
  case Nil
  then show ?case by (auto intro: marked_none)
next
  case (Cons batch batches)
  obtain n' published t k acc' where
      one: "upload_object_batch U op' batch pack_enabled n (record_object_verified op) (s, j) = (Inr (n', published), t, k)"
    and rest: "upload_batches U op' pack_enabled (record_object_verified op) n' acc' batches (t, k) = (Inr r, s', j')"
    using Cons.prems(2) by (auto simp: sbind_Inr_iff split: prod.splits)
  have m: "marked op (set batch) j k" using upload_batch_marked Cons.prems(1) one .
  from marked_trans [OF m Cons.IH [OF marked_ok [OF m] rest]] show ?case by simp
qed

lemma upload_segments_marked:
  assumes "journal_ok j"
    and "upload_segments U op' (record_object_verified op) n acc batches (s, j) = (Inr r, s', j')"
  shows "marked op (\<Union> (set ` set batches)) j j'"
  using assms
proof (induction batches arbitrary: n acc s j)
  case Nil
  then show ?case by (auto intro: marked_none)
next
  case (Cons batch batches)
  obtain t0 t k n' acc' where
      one: "for_each (record_object_verified op) batch (t0, j) = (Inr (), t, k)"
    and rest: "upload_segments U op' (record_object_verified op) n' acc' batches (t, k) = (Inr r, s', j')"
    using Cons.prems(2) by (auto simp: sbind_Inr_iff dest!: publish_pack_journal intro: that split: sum.splits)
  have m: "marked op (set batch) j k" using for_each_marked [OF Cons.prems(1) one] by simp
  from marked_trans [OF m Cons.IH [OF marked_ok [OF m] rest]] show ?case by simp
qed

lemma set_chunks_union: "0 < n \<Longrightarrow> \<Union> (set ` set (chunks n xs)) = set xs"
proof (induction n xs rule: chunks.induct)
  case (1 n xs)
  have "set (take n xs) \<union> set (drop n xs) = set xs" by (metis append_take_drop_id set_append)
  with 1 show ?case by (subst chunks.simps) auto
qed

lemma upload_with_policy_marked:
  assumes "journal_ok j"
    and "upload_objects_with_policy U op' ids pack_enabled (record_object_verified op) (s, j) = (Inr r, s', j')"
  shows "marked op (set ids) j j'"
proof (cases "ids = []")
  case False
  then obtain n where "upload_batches U op' pack_enabled (record_object_verified op) n
      \<lparr> pub_index_paths = [], pub_locations = [] \<rparr> (chunks small_object_pack_batch_size ids) (s, j) = (Inr r, s', j')"
    using assms(2) by (auto simp: upload_objects_with_policy_def split: if_splits sum.splits)
  from upload_batches_marked [OF assms(1) this] show ?thesis
    by (simp add: set_chunks_union small_object_pack_batch_size_def)
qed (use assms in \<open>auto simp: upload_objects_with_policy_def intro: marked_none\<close>)

lemma upload_as_segments_marked:
  assumes "journal_ok j"
    and "upload_objects_as_pack_segments U op' ids (record_object_verified op) (s, j) = (Inr r, s', j')"
  shows "marked op (set ids) j j'"
proof (cases "ids = []")
  case False
  then obtain n where "upload_segments U op' (record_object_verified op) n
      \<lparr> pub_index_paths = [], pub_locations = [] \<rparr> (chunks small_object_pack_batch_size ids) (s, j) = (Inr r, s', j')"
    using assms(2) by (auto simp: upload_objects_as_pack_segments_def split: if_splits sum.splits)
  from upload_segments_marked [OF assms(1) this] show ?thesis
    by (simp add: set_chunks_union small_object_pack_batch_size_def)
qed (use assms in \<open>auto simp: upload_objects_as_pack_segments_def intro: marked_none\<close>)

section \<open>One batch\<close>

lemma resume_scan_marked:
  assumes "journal_ok j"
    and "resume_scan U op locs cache saw missing rs (s, j) = (Inr (saw', missing'), s', j')"
  shows "\<exists>A M. s' = s \<and> marked op A j j' \<and> missing' = missing @ M \<and>
    A \<union> set M = rec_object_id ` {r \<in> set rs. rec_object_type r = ''object''}"
  using assms
proof (induction rs arbitrary: cache saw missing j)
  case Nil
  then show ?case by (auto intro: marked_none)
next
  case (Cons r rs)
  let ?auth = "remote_object_authenticates_for_repo U locs cache (rec_object_id r)
      (infer_object_type_for_resume_candidate (up_crypto U) (up_secrets U) (up_local U) (rec_object_id r)) s"
  let ?j = "snd (record_verified op (rec_object_id r) ''object'' j)"
  have one: "marked op {rec_object_id r} j ?j" using marked_one Cons.prems(1) .
  note ih = Cons.IH [OF Cons.prems(1)] and ih' = Cons.IH [OF marked_ok [OF one]]
  consider "rec_object_type r \<noteq> ''object''" | "rec_object_type r = ''object''" "fst ?auth"
    | "rec_object_type r = ''object''" "\<not> fst ?auth" by blast
  then show ?case
  proof cases
    case 1
    then have "{r' \<in> set (r # rs). rec_object_type r' = ''object''} = {r' \<in> set rs. rec_object_type r' = ''object''}"
      by auto
    with 1 ih Cons.prems(2) show ?thesis by simp
  next
    case 2
    then have "resume_scan U op locs (snd ?auth) True missing rs (s, ?j) = (Inr (saw', missing'), s', j')"
      using Cons.prems(2) by (auto simp: sbind_record_verified split: prod.splits)
    from ih' [OF this] obtain A M where IH: "s' = s" "marked op A ?j j'" "missing' = missing @ M"
      "A \<union> set M = rec_object_id ` {r \<in> set rs. rec_object_type r = ''object''}" by blast
    have "({rec_object_id r} \<union> A) \<union> set M = rec_object_id ` {r' \<in> set (r # rs). rec_object_type r' = ''object''}"
      using IH(4) 2(1) by auto
    with marked_trans [OF one IH(2)] IH(1,3) show ?thesis by blast
  next
    case 3
    then have "resume_scan U op locs (snd ?auth) True (missing @ [rec_object_id r]) rs (s, j) = (Inr (saw', missing'), s', j')"
      using Cons.prems(2) by (auto split: prod.splits)
    from ih [OF this] obtain A M where IH: "s' = s" "marked op A j j'" "missing' = missing @ [rec_object_id r] @ M"
      "A \<union> set M = rec_object_id ` {r \<in> set rs. rec_object_type r = ''object''}" by auto
    have "A \<union> set ([rec_object_id r] @ M) = rec_object_id ` {r' \<in> set (r # rs). rec_object_type r' = ''object''}"
      using IH(4) 3(1) by auto
    with IH(1-3) show ?thesis by blast
  qed
qed

definition pending_page :: "string \<Rightarrow> nat \<Rightarrow> journal \<Rightarrow> object_row list" where
  "pending_page op cursor j = take 128 (drop cursor (pending_rows op j))"

definition object_row :: "object_row \<Rightarrow> bool" where
  "object_row row = (fst (snd row) = ''object'')"

lemma row_record_type [simp]: "rec_object_type (row_record row) = fst (snd row)"
  by (cases row) (auto simp: row_record_def)

text \<open>A batch that succeeds marks every object of its page, and moves the cursor past the page.\<close>

lemma resume_batch_marked:
  assumes ok: "journal_ok j" and cursor: "cursor < 2 ^ 63"
    and run: "resume_batch U op segs tracked progress cursor (s, j) = (Inr (next, progress'), s', j')"
  shows "marked op ((snd \<circ> fst) ` {row \<in> set (pending_page op cursor j). object_row row}) j j'"
    and "next = (if cursor + length (pending_page op cursor j) < length (pending_rows op j)
                 then Some (cursor + length (pending_page op cursor j)) else None)"
proof -
  let ?page = "pending_page op cursor j"
  let ?R = "map row_record ?page"
  have batch: "pending_object_batch op cursor resume_object_batch_size j = Inr
      \<lparr> batch_records = ?R, next_cursor = (if cursor + length ?page < length (pending_rows op j)
                 then Some (cursor + length ?page) else None) \<rparr>"
    using pending_batch_page [OF ok _ _ cursor, of resume_object_batch_size op]
    by (simp add: resume_object_batch_size_def Let_def pending_page_def del: length_take)
  obtain saw missing t k p published where scan: "resume_scan U op (resume_pack_locations progress) []
      (saw_journal_objects progress) [] ?R (s, j) = (Inr (saw, missing), t, k)"
    and up: "(if segs then upload_objects_as_pack_segments U op missing (record_object_verified op)
        else upload_objects_with_policy U op missing p (record_object_verified op)) (t, k) = (Inr published, s', j')"
    and nxt: "next = (if cursor + length ?page < length (pending_rows op j) then Some (cursor + length ?page) else None)"
    using run unfolding resume_batch_def
    by (clarsimp simp: batch sbind_Inr_iff simp del: sbind_prim split del: if_split)
  from resume_scan_marked [OF ok scan] obtain A where A: "marked op A j k"
    "A \<union> set missing = rec_object_id ` {r \<in> set ?R. rec_object_type r = ''object''}" by auto
  have "marked op (set missing) k j'"
    using up upload_with_policy_marked [OF marked_ok [OF A(1)]] upload_as_segments_marked [OF marked_ok [OF A(1)]]
    by (cases segs) auto
  from marked_trans [OF A(1) this] have "marked op (rec_object_id ` {r \<in> set ?R. rec_object_type r = ''object''}) j j'"
    unfolding A(2) .
  moreover have "rec_object_id ` {r \<in> set ?R. rec_object_type r = ''object''} =
      (snd \<circ> fst) ` {row \<in> set ?page. object_row row}" by (auto simp: object_row_def image_iff) force+
  ultimately show "marked op ((snd \<circ> fst) ` {row \<in> set ?page. object_row row}) j j'" by simp
  show "next = (if cursor + length ?page < length (pending_rows op j) then Some (cursor + length ?page) else None)"
    by (rule nxt)
qed

section \<open>The loop\<close>

lemma distinct_pending: "journal_ok j \<Longrightarrow> distinct (map (snd \<circ> fst) (pending_rows op j))"
proof -
  assume ok: "journal_ok j"
  then have "distinct (map fst (pending_rows op j))" using pending_rows_sorted strict_sorted_iff by blast
  moreover have "map fst (pending_rows op j) = map (Pair op \<circ> (snd \<circ> fst)) (pending_rows op j)"
    using pending_rows_key by force
  ultimately show ?thesis by (simp add: distinct_map comp_inj_on_iff inj_on_def)
qed

lemma filter_page_gone:
  assumes "distinct (map f (A @ B @ C))"
  shows "filter (\<lambda>x. f x \<notin> f ` set B) (A @ B @ C) = A @ C"
proof -
  have "filter (\<lambda>x. f x \<notin> f ` set B) A = A" "filter (\<lambda>x. f x \<notin> f ` set B) C = C"
    using assms by (auto simp: filter_id_conv)
  moreover have "filter (\<lambda>x. f x \<notin> f ` set B) B = []" by (auto simp: filter_empty_conv)
  ultimately show ?thesis by simp
qed

lemma resume_batch_pending:
  assumes ok: "journal_ok j" and cursor: "cursor < 2 ^ 63"
    and objects: "list_all object_row (pending_rows op j)"
    and run: "resume_batch U op segs tracked progress cursor (s, j) = (Inr (next, progress'), s', j')"
  shows "pending_rows op j' = take cursor (pending_rows op j) @ drop (cursor + 128) (pending_rows op j)"
proof -
  let ?L = "pending_rows op j" and ?page = "pending_page op cursor j"
  have split: "?L = take cursor ?L @ ?page @ drop (cursor + 128) ?L"
    by (metis add.commute append_take_drop_id drop_drop pending_page_def)
  have "set ?page \<subseteq> set ?L" by (auto simp: pending_page_def dest: in_set_takeD in_set_dropD)
  with objects have page: "{row \<in> set ?page. object_row row} = set ?page" by (auto simp: list_all_iff)
  have "pending_rows op j' = filter (\<lambda>row. (snd \<circ> fst) row \<notin> (snd \<circ> fst) ` set ?page) ?L"
    using pending_rows_marked [OF ok resume_batch_marked(1) [OF ok cursor run]] unfolding page by simp
  also have "\<dots> = take cursor ?L @ drop (cursor + 128) ?L"
    using filter_page_gone [of "snd \<circ> fst" "take cursor ?L" ?page "drop (cursor + 128) ?L"]
      distinct_pending [OF ok, of op] split by metis
  finally show ?thesis .
qed

text \<open>Every second block of 128 elements.\<close>

definition odd_blocks :: "'a list \<Rightarrow> 'a list" where
  "odd_blocks xs = nths xs {i. odd (i div 128)}"

lemma odd_blocks_short: "length xs \<le> 128 \<Longrightarrow> odd_blocks xs = []"
proof -
  assume len: "length xs \<le> 128"
  then have "set (odd_blocks xs) = {}" by (auto simp: odd_blocks_def set_nths)
  then show ?thesis by simp
qed

lemma odd_blocks_step: "odd_blocks xs = take 128 (drop 128 xs) @ odd_blocks (drop 256 xs)"
proof -
  have shift: "{j. j + length (take 256 xs) \<in> {i. odd (i div 128)}} = {i. odd (i div 128)}"
    if "256 < length xs" using that by (simp add: div_add1_eq)
  have "take 256 xs = take 128 xs @ take 128 (drop 128 xs)"
    using take_add [of 128 128 xs] by simp
  then have "nths (take 256 xs) {i. odd (i div 128)} =
      nths (take 128 xs) {i. odd (i div 128)} @
      nths (take 128 (drop 128 xs)) {j. j + length (take 128 xs) \<in> {i. odd (i div 128)}}"
    by (simp add: nths_append)
  moreover have "nths (take 128 xs) {i. odd (i div 128)} = []"
    using odd_blocks_short [of "take 128 xs"] by (simp add: odd_blocks_def)
  moreover have "nths (take 128 (drop 128 xs)) {j. j + length (take 128 xs) \<in> {i. odd (i div 128)}} = take 128 (drop 128 xs)"
  proof (rule nths_all, intro allI impI)
    fix i assume "i < length (take 128 (drop 128 xs))"
    then have "128 < length xs" "i < 128" by auto
    then have "(i + length (take 128 xs)) div 128 = 1" by simp
    then show "i \<in> {j. j + length (take 128 xs) \<in> {i. odd (i div 128)}}" by simp
  qed
  ultimately have first: "nths (take 256 xs) {i. odd (i div 128)} = take 128 (drop 128 xs)" by simp
  show ?thesis
  proof (cases "256 < length xs")
    case True
    have "nths xs {i. odd (i div 128)} = nths (take 256 xs @ drop 256 xs) {i. odd (i div 128)}" by simp
    also have "\<dots> = take 128 (drop 128 xs) @ nths (drop 256 xs) {i. odd (i div 128)}"
      unfolding nths_append first shift [OF True] ..
    finally show ?thesis by (simp add: odd_blocks_def)
  next
    case False
    then have "take 256 xs = xs" "drop 256 xs = []" by simp_all
    with first show ?thesis by (simp add: odd_blocks_def)
  qed
qed

lemma resume_loop_pending_at:
  assumes "journal_ok j" "list_all object_row (pending_rows op j)" "length (pending_rows op j) < 2 ^ 63"
    and "c < 2 ^ 63"
    and "resume_loop fuel U op segs tracked progress (Some c) (s, j) = Some (Inr progress', s', j')"
  shows "pending_rows op j' = take c (pending_rows op j) @ odd_blocks (drop c (pending_rows op j))"
  using assms
proof (induction fuel arbitrary: c progress s j)
  case (Suc fuel)
  let ?L = "pending_rows op j"
  from Suc.prems(5) obtain nxt p t k where
      batch: "resume_batch U op segs tracked progress c (s, j) = (Inr (nxt, p), t, k)"
    and rest: "resume_loop fuel U op segs tracked p nxt (t, k) = Some (Inr progress', s', j')"
    by (auto split: prod.splits sum.splits)
  note c = Suc.prems(4)
  have L': "pending_rows op k = take c ?L @ drop (c + 128) ?L"
    by (rule resume_batch_pending [OF Suc.prems(1) c Suc.prems(2) batch])
  have page: "length (pending_page op c j) = min (length ?L - c) 128" by (simp add: pending_page_def)
  have ok: "journal_ok k" using resume_batch_marked(1) [OF Suc.prems(1) c batch] by (rule marked_ok)
  show ?case
  proof (cases "c + 128 < length ?L")
    case True
    then have "nxt = Some (c + 128)" using resume_batch_marked(2) [OF Suc.prems(1) c batch] page by simp
    with rest have rest': "resume_loop fuel U op segs tracked p (Some (c + 128)) (t, k) = Some (Inr progress', s', j')"
      by simp
    have "list_all object_row (pending_rows op k)" "length (pending_rows op k) < 2 ^ 63" "c + 128 < 2 ^ 63"
      using Suc.prems(2,3) True unfolding L' by (auto simp: list_all_iff dest: in_set_takeD in_set_dropD)
    from Suc.IH [OF ok this rest'] have "pending_rows op j' =
        take (c + 128) (take c ?L @ drop (c + 128) ?L) @ odd_blocks (drop (c + 128) (take c ?L @ drop (c + 128) ?L))"
      unfolding L' .
    also have "\<dots> = take c ?L @ take 128 (drop 128 (drop c ?L)) @ odd_blocks (drop 256 (drop c ?L))"
      using True by (simp add: min_def add.commute)
    also have "\<dots> = take c ?L @ odd_blocks (drop c ?L)"
      using odd_blocks_step [of "drop c ?L"] by simp
    finally show ?thesis .
  next
    case False
    then have "nxt = None" using resume_batch_marked(2) [OF Suc.prems(1) c batch] page by auto
    with rest have "j' = k" by simp
    with L' False odd_blocks_short [of "drop c ?L"] show ?thesis by simp
  qed
qed simp

lemma resume_loop_terminates_at:
  assumes "journal_ok j" "length (pending_rows op j) < 2 ^ 63" "c < 2 ^ 63" "length (pending_rows op j) - c < fuel"
  shows "resume_loop fuel U op segs tracked progress (Some c) (s, j) \<noteq> None"
  using assms
proof (induction fuel arbitrary: c progress s j)
  case (Suc fuel)
  let ?L = "pending_rows op j"
  obtain r t k where batch: "resume_batch U op segs tracked progress c (s, j) = (r, t, k)" by (metis prod_cases3)
  show ?case
  proof (cases r)
    case (Inl e)
    with batch show ?thesis by simp
  next
    case (Inr np)
    then obtain nxt p where r: "r = Inr (nxt, p)" by (cases np) auto
    note marked = resume_batch_marked [OF Suc.prems(1,3) batch [unfolded r]]
    have shrink: "length (pending_rows op k) \<le> length ?L"
      unfolding pending_rows_marked [OF Suc.prems(1) marked(1)] by simp
    show ?thesis
    proof (cases nxt)
      case None
      with batch r show ?thesis by simp
    next
      case (Some c')
      then have c': "c' = c + length (pending_page op c j)" "c' < length ?L"
        using marked(2) by (auto split: if_splits)
      then have "c < c'" by (auto simp: pending_page_def)
      then have "length (pending_rows op k) - c' < fuel" "length (pending_rows op k) < 2 ^ 63" "c' < 2 ^ 63"
        using Suc.prems(2,4) c' shrink by linarith+
      from Suc.IH [OF marked_ok [OF marked(1)] this(2,3,1)] show ?thesis using batch r Some by simp
    qed
  qed
qed simp

end
