(* ===== verification/Resume_Claims.thy ===== *)
theory Resume_Claims
  imports Resume_Proofs Pack_Claims
begin

text \<open>
  The properties of the journal (\<^verbatim>\<open>journal.rs\<close>) and of the resume loop of
  \<^verbatim>\<open>push.rs\<close>, with their witnesses.
\<close>

section \<open>The journal\<close>

text \<open>A sequence of upserts: operation, object, type and state.\<close>

type_synonym upsert = "string \<times> string \<times> string \<times> object_upload_state"

definition run_upserts :: "upsert list \<Rightarrow> journal \<Rightarrow> journal" where
  "run_upserts us j = foldl (\<lambda>j (op, i, t, st). snd (upsert_object_state op i t st j)) j us"

definition last_upsert :: "string \<Rightarrow> string \<Rightarrow> upsert list \<Rightarrow> (string \<times> object_upload_state) option" where
  "last_upsert op i us = map_option (\<lambda>(o', i', t, st). (t, st)) (List.find (\<lambda>(o', i', t, st). o' = op \<and> i' = i) (rev us))"

lemma run_upserts_snoc:
  "run_upserts (us @ [(op, i, t, st)]) j = snd (upsert_object_state op i t st (run_upserts us j))"
  by (simp add: run_upserts_def)

lemma last_upsert_snoc:
  "last_upsert op i (us @ [(o', i', t, st)]) = (if o' = op \<and> i' = i then Some (t, st) else last_upsert op i us)"
  by (simp add: last_upsert_def)

lemma run_upserts_objects:
  "journal_ok (run_upserts us journal_new) \<and>
   map_of (jr_objects (run_upserts us journal_new)) (op, i) =
     map_option (\<lambda>(t, st). (t, state_as_str st)) (last_upsert op i us)"
proof (induction us arbitrary: op i rule: rev_induct)
  case Nil
  then show ?case by (simp add: run_upserts_def last_upsert_def journal_ok_new) (simp add: journal_new_def)
next
  case (snoc u us)
  obtain o' i' t st where u: "u = (o', i', t, st)" by (cases u)
  let ?j = "run_upserts us journal_new"
  have ok: "journal_ok ?j" using snoc by blast
  then have "bt_ok (jr_objects ?j)" by (simp add: journal_ok_def)
  then have "map_of (jr_objects (snd (upsert_object_state o' i' t st ?j))) (op, i) =
      (if o' = op \<and> i' = i then Some (t, state_as_str st) else map_of (jr_objects ?j) (op, i))"
    by (simp add: upsert_object_state_def map_of_bt_insert)
  with journal_ok_upsert [OF ok] snoc show ?case
    by (simp add: u run_upserts_snoc last_upsert_snoc)
qed

lemma latest_records_rows:
  "journal_ok j \<Longrightarrow> latest_records op j = Inr (map row_record (operation_rows op j))"
  using decode_rows [of j "operation_rows op j" op] by (simp add: latest_records_def)

lemma operation_rows_mem:
  assumes "journal_ok j"
  shows "row \<in> set (operation_rows op j) \<longleftrightarrow> (\<exists>i t st. row = ((op, i), t, st) \<and> map_of (jr_objects j) (op, i) = Some (t, st))"
  using assms bt_ok_distinct [of "jr_objects j"]
  by (cases row) (auto simp: operation_rows_def journal_ok_def map_of_eq_Some_iff)

text \<open>Whatever sequence of records is written to a new journal, \<^verbatim>\<open>latest_records\<close> of an operation
  returns one record for each object of that operation, in the order of the object ids, with the
  type and state of the last record written for it; records of other operations do not show.\<close>

theorem journal_records_last:
  "\<exists>rs. latest_records op (run_upserts us journal_new) = Inr rs \<and>
     sorted_wrt (<) (map rec_object_id rs) \<and>
     set rs = {r. last_upsert op (rec_object_id r) us = Some (rec_object_type r, rec_state r)}"
proof -
  let ?j = "run_upserts us journal_new"
  have ok: "journal_ok ?j" using run_upserts_objects by blast
  have rows: "latest_records op ?j = Inr (map row_record (operation_rows op ?j))"
    by (rule latest_records_rows [OF ok])
  have sorted: "sorted_wrt (<) (map rec_object_id (map row_record (operation_rows op ?j)))"
    using operation_rows_sorted [OF ok, of op] by (simp add: comp_def)
  have "row_record ` set (operation_rows op ?j) =
      {r. last_upsert op (rec_object_id r) us = Some (rec_object_type r, rec_state r)}"
  proof (intro set_eqI iffI)
    fix r assume "r \<in> row_record ` set (operation_rows op ?j)"
    then obtain row where "row \<in> set (operation_rows op ?j)" "r = row_record row" by blast
    then obtain i t s where "r = row_record ((op, i), t, s)" "map_of (jr_objects ?j) (op, i) = Some (t, s)"
      using operation_rows_mem [OF ok] by metis
    then show "r \<in> {r. last_upsert op (rec_object_id r) us = Some (rec_object_type r, rec_state r)}"
      using run_upserts_objects [of us op i] by (auto simp: row_record_def)
  next
    fix r :: object_upload_record
    assume "r \<in> {r. last_upsert op (rec_object_id r) us = Some (rec_object_type r, rec_state r)}"
    then have "map_of (jr_objects ?j) (op, rec_object_id r) = Some (rec_object_type r, state_as_str (rec_state r))"
      using run_upserts_objects [of us op "rec_object_id r"] by simp
    then have "((op, rec_object_id r), rec_object_type r, state_as_str (rec_state r)) \<in> set (operation_rows op ?j)"
      unfolding operation_rows_mem [OF ok] by blast
    moreover have "r = row_record ((op, rec_object_id r), rec_object_type r, state_as_str (rec_state r))"
      by (cases r) (simp add: row_record_def)
    ultimately show "r \<in> row_record ` set (operation_rows op ?j)" by (metis image_eqI)
  qed
  with rows sorted show ?thesis by auto
qed

text \<open>Following the cursors of \<^verbatim>\<open>object_state_batch\<close>.\<close>

fun follow_pages :: "nat \<Rightarrow> string \<Rightarrow> nat \<Rightarrow> journal \<Rightarrow> nat option \<Rightarrow> object_upload_record list res option" where
  "follow_pages fuel op limit j None = Some (Inr [])"
| "follow_pages 0 op limit j (Some cursor) = None"
| "follow_pages (Suc fuel) op limit j (Some cursor) =
     (case object_state_batch op cursor limit j of
        Inl e \<Rightarrow> Some (Inl e)
      | Inr batch \<Rightarrow> map_option (\<lambda>rest. rbind rest (\<lambda>rs. Inr (batch_records batch @ rs)))
          (follow_pages fuel op limit j (next_cursor batch)))"

lemma object_state_batch_page:
  assumes "journal_ok j" "0 < limit" "limit < 2 ^ 63" "start < 2 ^ 63"
  shows "object_state_batch op start limit j = Inr
    \<lparr> batch_records = map row_record (take limit (drop start (operation_rows op j))),
      next_cursor = (if start + limit < length (operation_rows op j) then Some (start + limit) else None) \<rparr>"
proof -
  have "set (take limit (drop start (operation_rows op j))) \<subseteq> set (operation_rows op j)"
    by (auto dest!: in_set_takeD in_set_dropD)
  from decode_rows [OF assms(1) this] show ?thesis
    using assms sql_page_small [OF assms(3,4), of "operation_rows op j"]
    by (auto simp: object_state_batch_def total_object_count_def min_def)
qed

lemma follow_pages_from:
  assumes "journal_ok j" "0 < limit" "limit < 2 ^ 63" "length (operation_rows op j) < 2 ^ 63"
    and "start < 2 ^ 63" "length (operation_rows op j) - start < fuel"
  shows "follow_pages fuel op limit j (Some start) = Some (Inr (map row_record (drop start (operation_rows op j))))"
  using assms(5,6)
proof (induction fuel arbitrary: start)
  case (Suc fuel)
  let ?L = "operation_rows op j"
  note page = object_state_batch_page [OF assms(1-3) Suc.prems(1), of op]
  show ?case
  proof (cases "start + limit < length ?L")
    case True
    then have "start + limit < 2 ^ 63" "length ?L - (start + limit) < fuel"
      using assms(2,4) Suc.prems(2) by linarith+
    from Suc.IH [OF this] have "follow_pages fuel op limit j (Some (start + limit)) =
        Some (Inr (map row_record (drop (start + limit) ?L)))" .
    moreover have "take limit (drop start ?L) @ drop (start + limit) ?L = drop start ?L"
      by (metis add.commute append_take_drop_id drop_drop)
    ultimately show ?thesis using True by (simp add: page flip: map_append)
  next
    case False
    then show ?thesis by (simp add: page)
  qed
qed simp

text \<open>Reading an operation's records page by page, following \<^verbatim>\<open>next_cursor\<close> from 0 with any
  positive page size, ends (with as much fuel as there are records, plus one) and gives exactly
  \<^verbatim>\<open>latest_records\<close>: no record is skipped or repeated.\<close>

theorem journal_pages_complete:
  assumes "journal_ok j" "0 < limit" "limit < 2 ^ 63"
    and "total_object_count op j = Inr n" "n < 2 ^ 63" "n < fuel"
  shows "follow_pages fuel op limit j (Some 0) = Some (latest_records op j)"
  using follow_pages_from [OF assms(1-3), of op 0 fuel] assms(4-6)
  by (simp add: total_object_count_def latest_records_rows [OF assms(1)])

text \<open>The resume loop ends: with more fuel than there are pending records it returns, with a
  result or with an error, whatever the remote and the local store contain.\<close>

theorem resume_loop_terminates:
  assumes "journal_ok (snd w)" "length (pending_rows op (snd w)) < 2 ^ 63" "length (pending_rows op (snd w)) < fuel"
  shows "resume_loop fuel U op segs tracked progress (Some 0) w \<noteq> None"
  using resume_loop_terminates_at [of "snd w" op 0 fuel U segs tracked progress "fst w"] assms by simp

text \<open>C18: What a resumed push leaves undone. When the loop succeeds over a journal whose pending records
  are objects, the records still pending are exactly those at the positions \<open>i\<close> of the pending list
  with \<open>i div 128\<close> odd: the cursor advances by 128 over a list from which the 128 objects just
  verified have been removed, so every second batch is never looked at. Up to 128 pending objects,
  all are verified.\<close>

theorem resume_skips_odd_batches:
  assumes "journal_ok (snd w)" "length (pending_rows op (snd w)) < 2 ^ 63"
    and "list_all object_row (pending_rows op (snd w))"
    and "resume_loop fuel U op segs tracked progress (Some 0) w = Some (Inr progress', w')"
  shows "pending_rows op (snd w') = nths (pending_rows op (snd w)) {i. odd (i div resume_object_batch_size)}"
  using resume_loop_pending_at [of "snd w" op 0 fuel U segs tracked progress "fst w" progress' "fst w'" "snd w'"] assms
  by (simp add: odd_blocks_def resume_object_batch_size_def)

section \<open>Witnesses\<close>

definition sample_journal :: journal where
  "sample_journal = run_upserts
     [(''op'', ''bb'', ''object'', Planned), (''op'', ''aa'', ''object'', Uploaded),
      (''other'', ''aa'', ''object'', Failed), (''op'', ''bb'', ''object'', Verified)] journal_new"

lemma sample_journal_ok: "journal_ok sample_journal"
  using run_upserts_objects by (auto simp: sample_journal_def)

theorem journal_pages_complete_witness:
  "follow_pages 4 ''op'' 1 sample_journal (Some 0) = Some (latest_records ''op'' sample_journal)"
proof (rule journal_pages_complete [OF sample_journal_ok])
  show "total_object_count ''op'' sample_journal = Inr 2" by code_simp
qed simp_all

text \<open>129 planned objects, each too large to be packed, and an empty remote.\<close>

definition big_ids :: "string list" where
  "big_ids = map (padded 3) [0..<129]"

definition big_bytes :: "byte list" where
  "big_bytes = replicate (Suc small_object_max_bytes) 0"

definition big_upload_env :: "mem upload_env" where
  "big_upload_env = \<lparr> up_remote = memory_remote unary_codec unary_codec,
     up_local = map (\<lambda>i. (relative_object_path i, big_bytes)) big_ids,
     up_secrets = sample_secrets, up_crypto = plain_crypto,
     up_postcard = unary_codec, up_index_json = unary_codec \<rparr>"

definition big_journal :: journal where
  "big_journal = \<lparr> jr_metadata = [],
     jr_objects = map (\<lambda>i. ((''op'', i), ''object'', state_as_str Planned)) big_ids, jr_rewrite = [] \<rparr>"

definition no_progress :: resume_progress where
  "no_progress = \<lparr> saw_journal_objects = False, resume_pack_locations = [], resume_index_segments = [] \<rparr>"

lemma big_ids_sorted: "sorted_wrt (<) big_ids"
proof -
  have "padded 3 i < padded 3 k" if "i < k" "k < 129" for i k
    using that by (simp add: padded_less_iff)
  then show ?thesis by (simp add: big_ids_def sorted_wrt_map sorted_wrt_iff_nth_less)
qed

lemma big_journal_ok: "journal_ok big_journal"
proof -
  have "sorted_wrt (<) (map (Pair ''op'') big_ids)"
    using big_ids_sorted by (simp add: sorted_wrt_map)
  then show ?thesis by (auto simp: journal_ok_def big_journal_def bt_ok_def comp_def state_from_str_def)
qed

lemma big_pending: "pending_rows ''op'' big_journal = jr_objects big_journal"
  by (auto simp: pending_rows_def operation_rows_def big_journal_def filter_id_conv)

lemma big_rows [simp]: "length (jr_objects big_journal) = 129" "list_all object_row (jr_objects big_journal)"
  by (simp_all add: big_journal_def big_ids_def object_row_def list_all_iff)

lemma digits_object_id:
  assumes "list_all digit s" "s \<noteq> []"
  shows "validate_object_id_value s = Inr ()"
proof -
  obtain c cs where s: "s = c # cs" using assms(2) by (cases s) auto
  have c: "48 \<le> (of_char c :: nat)" "(of_char c :: nat) < 58" using assms(1) by (simp_all add: s digit_def)
  have "slash \<notin> set s" using assms(1) by (auto simp: list_all_iff digit_def)
  then have split: "split_on slash s = [s]" and "\<not> is_absolute s"
    by (auto simp: split_on_single is_absolute_def starts_with_iff)
  moreover have "\<not> blank s" using c by (simp add: blank_def s)
  moreover have "c \<noteq> CHR ''.''" using c by auto
  then have "s \<noteq> ''.''" "s \<noteq> ''..''" by (simp_all add: s)
  ultimately show ?thesis
    using assms(2) by (simp add: validate_object_id_value_def all_normal_def is_normal_def components_def segment_components_def)
qed

lemma big_ids_valid: "list_all (\<lambda>i. validate_object_id_value i = Inr ()) big_ids"
proof -
  have "padded 3 n \<noteq> []" for n
    by (metis dec_value_padded decimal.simps list.distinct(1) append_is_Nil_conv padded_def)
  with digits_object_id [OF digit_padded] show ?thesis by (auto simp: big_ids_def list_all_iff)
qed

lemma big_file: "i \<in> set big_ids \<Longrightarrow> fs_read (relative_object_path i) (up_local big_upload_env) = Inr big_bytes"
proof -
  have "map_of (map (\<lambda>k. (f k, v)) ks) (f i) = Some v" if "i \<in> set ks" for f :: "string \<Rightarrow> string" and ks and v :: "byte list"
    using that by (induction ks) auto
  moreover assume "i \<in> set big_ids"
  ultimately show ?thesis by (simp add: fs_read_def big_upload_env_def)
qed

text \<open>An empty remote has none of the objects, and putting objects never fails.\<close>

lemma empty_remote_scan:
  assumes "r_get (up_remote U) = get_physical" "list_all (\<lambda>r. rec_object_type r = ''object'') rs"
  shows "\<exists>saw'. resume_scan U op [] [] saw missing rs (mem_new n, j) =
    (Inr (saw', missing @ map rec_object_id rs), mem_new n, j)"
  using assms(2)
proof (induction rs arbitrary: saw missing)
  case (Cons r rs)
  have none: "get_physical p (mem_new n) = Inl (Missing_physical p)" for p
    by (simp add: get_physical_def mem_new_def)
  with Cons.IH [of True "missing @ [rec_object_id r]"] Cons.prems show ?case
    by (simp add: remote_object_authenticates_for_repo_def assms(1))
qed simp

lemma loose_upload_loop:
  assumes "r_put (up_remote U) = put_physical"
    and "\<forall>i \<in> set ids. validate_object_id_value i = Inr () \<and> is_ok (fs_read (relative_object_path i) (up_local U))"
  shows "\<exists>s' j'. upload_batch_loop U (record_object_verified op) None [] ids (s, j) = (Inr (None, []), s', j')"
  using assms(2)
proof (induction ids arbitrary: s j)
  case (Cons i ids)
  then obtain b where "fs_read (relative_object_path i) (up_local U) = Inr b" by (auto simp: is_ok_iff)
  with Cons show ?case
    by (simp add: assms(1) at_remote_put_physical sbind_record_verified)
qed simp

lemma nothing_eligible:
  assumes "\<forall>i \<in> set ids. validate_object_id_value i = Inr () \<and>
    (\<exists>b. fs_read (relative_object_path i) local = Inr b \<and> small_object_max_bytes < length b)"
  shows "count_pack_eligible local n ids = Inr False"
  using assms by (induction ids) auto

lemma big_env_simps:
  "r_get (up_remote big_upload_env) = get_physical" "r_put (up_remote big_upload_env) = put_physical"
  by (simp_all add: big_upload_env_def)

lemma big_objects:
  assumes "set ids \<subseteq> set big_ids"
  shows "\<forall>i \<in> set ids. validate_object_id_value i = Inr () \<and>
    fs_read (relative_object_path i) (up_local big_upload_env) = Inr big_bytes"
  using big_ids_valid big_file assms by (auto simp: list_all_iff)

lemma big_not_packed:
  "set ids \<subseteq> set big_ids \<Longrightarrow> should_pack_current_upload_set (up_local big_upload_env) ids 0 = Inr False"
  using big_objects [of ids] nothing_eligible [of ids "up_local big_upload_env" 0]
  by (simp add: should_pack_current_upload_set_def should_pack_small_objects_def small_object_pack_threshold_def big_bytes_def)

lemma big_uploaded:
  assumes "set ids \<subseteq> set big_ids" "length ids \<le> 256"
  shows "\<exists>pub s' j'. upload_objects_with_policy big_upload_env ''op'' ids False (record_object_verified ''op'') (s, j) =
      (Inr pub, s', j')"
proof (cases "ids = []")
  case False
  obtain s' j' where loop: "upload_batch_loop big_upload_env (record_object_verified ''op'') None [] ids (s, j) =
      (Inr (None, []), s', j')"
    using loose_upload_loop [OF big_env_simps(2), of ids "''op''" s j] big_objects [OF assms(1)] by auto
  have "chunks small_object_pack_batch_size ids = [ids]"
    using False assms(2) by (simp add: small_object_pack_batch_size_def chunks.simps)
  then show ?thesis
    using False by (simp add: upload_objects_with_policy_def upload_object_batch_def sbind_def loop)
qed (simp add: upload_objects_with_policy_def)

lemma big_batch_runs:
  assumes "journal_ok j" "cursor < 2 ^ 63" "pending_page ''op'' cursor j = rows" "set rows \<subseteq> set (jr_objects big_journal)"
    and "s = mem_new 0 \<and> resume_pack_locations progress = [] \<or> rows = []"
  shows "\<exists>x s' j'. resume_batch big_upload_env ''op'' False 0 progress cursor (s, j) = (Inr x, s', j')"
proof -
  let ?ids = "map (snd \<circ> fst) rows"
  have ids: "set ?ids \<subseteq> set big_ids" "length ?ids \<le> 256" and types: "list_all (\<lambda>r. fst (snd r) = ''object'') rows"
    using assms(3,4) by (auto simp: big_journal_def pending_page_def list_all_iff)
  obtain nxt where batch: "pending_object_batch ''op'' cursor resume_object_batch_size j = Inr
      \<lparr> batch_records = map row_record rows, next_cursor = nxt \<rparr>"
    using pending_batch_page [OF assms(1) _ _ assms(2), of 128 "''op''"] assms(3)
    by (simp add: resume_object_batch_size_def Let_def pending_page_def del: length_take)
  obtain saw where scan: "resume_scan big_upload_env ''op'' (resume_pack_locations progress) []
      (saw_journal_objects progress) [] (map row_record rows) (s, j) = (Inr (saw, ?ids), (s, j))"
  proof (cases "rows = []")
    case False
    with assms(5) empty_remote_scan [OF big_env_simps(1), of "map row_record rows" "''op''" "saw_journal_objects progress" "[]" 0 j]
      types that
    show ?thesis by (auto simp: list_all_iff comp_def)
  qed (use that in simp)
  obtain pub s' j' where up: "upload_objects_with_policy big_upload_env ''op'' ?ids False (record_object_verified ''op'') (s, j) =
      (Inr pub, s', j')"
    using big_uploaded [OF ids] by blast
  then show ?thesis
    unfolding resume_batch_def
    by (simp add: batch sbind_Inr [where m = "resume_scan U op l c b m r" for U op l c b m r, OF scan]
        big_not_packed [OF ids(1)] sbind_Inr [where m = "upload_objects_with_policy U op i b f" for U op i b f, OF up])
qed

lemma big_run:
  "\<exists>p w. resume_loop 3 big_upload_env ''op'' False 0 no_progress (Some 0) (mem_new 0, big_journal) = Some (Inr p, w)"
proof -
  let ?page = "pending_page ''op'' 0 big_journal"
  have "set ?page \<subseteq> set (jr_objects big_journal)"
    by (auto simp: pending_page_def big_pending dest: in_set_takeD)
  with big_batch_runs [OF big_journal_ok _ refl, of 0 "mem_new 0" no_progress]
  obtain nxt p s' j' where one: "resume_batch big_upload_env ''op'' False 0 no_progress 0 (mem_new 0, big_journal) =
      (Inr (nxt, p), s', j')"
    by (auto simp: no_progress_def)
  note marked = resume_batch_marked [OF big_journal_ok _ one]
  have nxt: "nxt = Some 128" using marked(2) by (simp add: pending_page_def big_pending)
  have "pending_rows ''op'' j' = drop 128 (jr_objects big_journal)"
    using resume_batch_pending [OF big_journal_ok _ _ one] by (simp add: big_pending)
  then have page: "pending_page ''op'' 128 j' = []" and len: "length (pending_rows ''op'' j') = 1"
    by (simp_all add: pending_page_def)
  have ok': "journal_ok j'" using marked(1) marked_ok by simp
  from big_batch_runs [OF ok' _ page, of s' p]
  obtain nxt' p' s2 j2 where two: "resume_batch big_upload_env ''op'' False 0 p 128 (s', j') = (Inr (nxt', p'), s2, j2)"
    by auto
  have "nxt' = None" using resume_batch_marked(2) [OF ok' _ two] page len by simp
  with one two nxt show ?thesis by (simp add: eval_nat_numeral)
qed

theorem resume_loop_terminates_witness:
  "resume_loop 130 big_upload_env ''op'' False 0 no_progress (Some 0) (mem_new 0, big_journal) \<noteq> None"
proof (rule resume_loop_terminates)
  show "journal_ok (snd (mem_new 0, big_journal))" using big_journal_ok by simp
qed (simp_all add: big_pending big_rows)

theorem resume_skips_odd_batches_witness:
  "\<exists>p w. resume_loop 3 big_upload_env ''op'' False 0 no_progress (Some 0) (mem_new 0, big_journal) = Some (Inr p, w) \<and>
     map (snd \<circ> fst) (pending_rows ''op'' (snd w)) = [''128'']"
proof -
  obtain p w where run: "resume_loop 3 big_upload_env ''op'' False 0 no_progress (Some 0) (mem_new 0, big_journal) = Some (Inr p, w)"
    using big_run by blast
  have "pending_rows ''op'' (snd w) = odd_blocks (jr_objects big_journal)"
    using resume_skips_odd_batches [OF _ _ _ run] big_journal_ok
    by (simp add: big_pending odd_blocks_def resume_object_batch_size_def)
  also have "\<dots> = drop 128 (jr_objects big_journal)"
    using odd_blocks_step [of "jr_objects big_journal"] by (simp add: odd_blocks_def)
  also have "map (snd \<circ> fst) \<dots> = [''128'']"
  proof -
    have "map (snd \<circ> fst) (drop 128 (jr_objects big_journal)) = [padded 3 128]"
      by (simp add: big_journal_def big_ids_def drop_map comp_def)
    also have "padded 3 128 = ''128''" by code_simp
    finally show ?thesis .
  qed
  finally show ?thesis using run by (intro exI conjI)
qed

end
