(* ===== verification/Manifest.thy ===== *)
theory Manifest
  imports Envelope
begin

text \<open>
  The manifest store (\<^verbatim>\<open>e2v-core/src/manifest_store.rs\<close>): snapshots, directories (one tree
  object, or a root over shards) and files as typed objects of the object store, the iterative
  tree walk, and the collection of every object id reachable from a snapshot. The recursive
  functions take fuel and return \<^const>\<open>None\<close> when it is used up.
\<close>

section \<open>Objects\<close>

record snapshot_object =
  sn_schema_version :: u32
  sn_message :: string
  sn_root_tree_id :: string
  sn_parent_snapshot_id :: "string option"

record tree_entry =
  te_name :: string
  te_kind :: string
  te_object_id :: string

record tree_object =
  tr_schema_version :: u32
  tr_entries :: "tree_entry list"

record directory_root_object =
  dr_schema_version :: u32
  dr_fanout :: u32
  dr_shards :: "string list"

record tree_shard_object =
  ts_schema_version :: u32
  ts_range_start :: string
  ts_range_end :: string
  ts_entries :: "tree_entry list"

record file_object =
  fo_schema_version :: u32
  fo_entry_name :: string
  fo_file_size :: u64
  fo_modified_unix_ms :: u64
  fo_chunker_id :: string
  fo_chunker_config_id :: string
  fo_chunk_count :: u64
  fo_chunks :: "string list"
  fo_chunk_lengths :: "u64 list"
  fo_shard_ids :: "string list"
  fo_shard_byte_lengths :: "u64 list"

record file_shard_object =
  fs_schema_version :: u32
  fs_chunks :: "string list"
  fs_chunk_lengths :: "u64 list"

record tree_walk_entry =
  tw_path :: string
  tw_kind :: string

text \<open>\<open>ManifestObject\<close>; the public records have the fields of the stored ones.\<close>

datatype manifest_object = Snapshot snapshot_object | Tree tree_object | File file_object

text \<open>A store: the opened object store of the repository and the codecs of its records.\<close>

record manifest_store =
  ms_crypto :: crypto
  ms_secrets :: repo_secrets
  ms_files :: files
  ms_snapshot :: "snapshot_object serde"
  ms_tree :: "tree_object serde"
  ms_directory_root :: "directory_root_object serde"
  ms_tree_shard :: "tree_shard_object serde"
  ms_file :: "file_object serde"
  ms_file_shard :: "file_shard_object serde"

text \<open>The store over the files at a later time.\<close>

definition store_at :: "manifest_store \<Rightarrow> files \<Rightarrow> manifest_store" where
  "store_at M fs = M\<lparr> ms_files := fs \<rparr>"

lemma store_at_simps [simp]:
  "ms_crypto (store_at M fs) = ms_crypto M" "ms_secrets (store_at M fs) = ms_secrets M" "ms_files (store_at M fs) = fs"
  "ms_snapshot (store_at M fs) = ms_snapshot M" "ms_tree (store_at M fs) = ms_tree M"
  "ms_directory_root (store_at M fs) = ms_directory_root M" "ms_tree_shard (store_at M fs) = ms_tree_shard M"
  "ms_file (store_at M fs) = ms_file M" "ms_file_shard (store_at M fs) = ms_file_shard M"
  by (simp_all add: store_at_def)

definition repo_format_version :: u32 where "repo_format_version = 1"

section \<open>Readers\<close>

definition postcard_from_bytes :: "'a serde \<Rightarrow> byte list \<Rightarrow> 'a res" where
  "postcard_from_bytes pc bytes =
     with_context ''failed to decode object plaintext'' (ok_or (Bail ''postcard'') (from_slice pc bytes))"

definition read_stored_object :: "manifest_store \<Rightarrow> 'a serde \<Rightarrow> string \<Rightarrow> string \<Rightarrow> 'a res" where
  "read_stored_object M pc object_id expected_type =
     rbind (get_object (ms_crypto M) (ms_secrets M) object_id expected_type (ms_files M)) (\<lambda>plaintext.
     postcard_from_bytes pc plaintext)"

definition validate_manifest_schema_version :: "u32 \<Rightarrow> unit res" where
  "validate_manifest_schema_version schema_version =
     ensure (schema_version = repo_format_version) (Bail ''unsupported manifest schema version'') (Inr ())"

definition validate_directory_root_object :: "directory_root_object \<Rightarrow> unit res" where
  "validate_directory_root_object root =
     ensure (unat (dr_fanout root) = length (dr_shards root))
       (Bail ''directory_root fanout does not match shard count'') (Inr ())"

definition validate_tree_shard_object :: "tree_shard_object \<Rightarrow> unit res" where
  "validate_tree_shard_object shard =
     (case ts_entries shard of
        [] \<Rightarrow>
          ensure (ts_range_start shard = [] \<and> ts_range_end shard = [])
            (Bail ''tree_shard range metadata must be empty when the shard has no entries'') (Inr ())
      | first # rest \<Rightarrow>
          ensure (ts_range_start shard = te_name first)
            (Bail ''tree_shard range_start does not match the first entry name'')
         (ensure (ts_range_end shard = te_name (last (first # rest)))
            (Bail ''tree_shard range_end does not match the last entry name'')
         (Inr ())))"

definition read_snapshot_object :: "manifest_store \<Rightarrow> string \<Rightarrow> snapshot_object res" where
  "read_snapshot_object M object_id =
     rbind (read_stored_object M (ms_snapshot M) object_id ''snapshot'') (\<lambda>snapshot.
     rbind (validate_manifest_schema_version (sn_schema_version snapshot)) (\<lambda>_. Inr snapshot))"

definition read_file_object :: "manifest_store \<Rightarrow> string \<Rightarrow> file_object res" where
  "read_file_object M object_id =
     rbind (read_stored_object M (ms_file M) object_id ''file'') (\<lambda>f.
     rbind (validate_manifest_schema_version (fo_schema_version f)) (\<lambda>_. Inr f))"

definition read_file_shard_object :: "manifest_store \<Rightarrow> string \<Rightarrow> file_shard_object res" where
  "read_file_shard_object M object_id =
     rbind (read_stored_object M (ms_file_shard M) object_id ''file_shard'') (\<lambda>f.
     rbind (validate_manifest_schema_version (fs_schema_version f)) (\<lambda>_. Inr f))"

definition read_tree_shard_object :: "manifest_store \<Rightarrow> string \<Rightarrow> tree_shard_object res" where
  "read_tree_shard_object M object_id =
     rbind (read_stored_object M (ms_tree_shard M) object_id ''tree_shard'') (\<lambda>t.
     rbind (validate_manifest_schema_version (ts_schema_version t)) (\<lambda>_.
     rbind (validate_tree_shard_object t) (\<lambda>_. Inr t)))"

fun flatten_shards :: "manifest_store \<Rightarrow> string list \<Rightarrow> string list \<Rightarrow> u64 list \<Rightarrow> (string list \<times> u64 list) res" where
  "flatten_shards M [] chunk_ids chunk_lengths = Inr (chunk_ids, chunk_lengths)"
| "flatten_shards M (shard_id # shard_ids) chunk_ids chunk_lengths =
     rbind (read_file_shard_object M shard_id) (\<lambda>shard.
     ensure (length (fs_chunks shard) = length (fs_chunk_lengths shard))
       (Bail ''file shard metadata is inconsistent'')
     (flatten_shards M shard_ids (chunk_ids @ fs_chunks shard) (chunk_lengths @ fs_chunk_lengths shard)))"

definition read_file_object_flattened :: "manifest_store \<Rightarrow> string \<Rightarrow> file_object res" where
  "read_file_object_flattened M object_id =
     rbind (read_file_object M object_id) (\<lambda>f.
     if fo_shard_ids f = [] then Inr f
     else
       rbind (flatten_shards M (fo_shard_ids f) [] []) (\<lambda>(chunk_ids, chunk_lengths).
       Inr (f\<lparr> fo_chunks := chunk_ids, fo_chunk_lengths := chunk_lengths \<rparr>)))"

text \<open>
  A directory object: the entries of a plain tree, or the shards of a root. Both readers of
  directories (\<^verbatim>\<open>read_directory_entries\<close> and \<^verbatim>\<open>collect_tree_object_ids\<close>) start with it.
\<close>

datatype directory_object = Plain_Tree "tree_entry list" | Sharded_Directory "string list"

definition read_directory_object :: "manifest_store \<Rightarrow> string \<Rightarrow> directory_object res" where
  "read_directory_object M object_id =
     rbind (get_typed_object (ms_crypto M) (ms_secrets M) object_id (ms_files M)) (\<lambda>loaded.
     if loaded_type loaded = ''tree'' then
       rbind (postcard_from_bytes (ms_tree M) (loaded_plaintext loaded)) (\<lambda>tree.
       rbind (validate_manifest_schema_version (tr_schema_version tree)) (\<lambda>_.
       Inr (Plain_Tree (tr_entries tree))))
     else if loaded_type loaded = ''directory_root'' then
       rbind (postcard_from_bytes (ms_directory_root M) (loaded_plaintext loaded)) (\<lambda>root.
       rbind (validate_manifest_schema_version (dr_schema_version root)) (\<lambda>_.
       rbind (validate_directory_root_object root) (\<lambda>_.
       Inr (Sharded_Directory (dr_shards root)))))
     else Inl (Bail ''unsupported directory object type''))"

text \<open>\<^verbatim>\<open>sort_by\<close> is a stable sort.\<close>

definition read_directory_entries :: "manifest_store \<Rightarrow> string \<Rightarrow> tree_entry list res" where
  "read_directory_entries M object_id =
     rbind (read_directory_object M object_id) (\<lambda>d.
     case d of
       Plain_Tree entries \<Rightarrow> Inr entries
     | Sharded_Directory shards \<Rightarrow>
         rbind (mapM (read_tree_shard_object M) shards) (\<lambda>loaded.
         Inr (sort_key te_name (concat (map ts_entries loaded)))))"

section \<open>The store's interface\<close>

definition get_snapshot :: "manifest_store \<Rightarrow> string \<Rightarrow> snapshot_object res" where
  "get_snapshot M object_id = read_snapshot_object M object_id"

definition get_tree_node :: "manifest_store \<Rightarrow> string \<Rightarrow> tree_object res" where
  "get_tree_node M object_id =
     rbind (read_directory_entries M object_id) (\<lambda>entries.
     Inr \<lparr> tr_schema_version = repo_format_version, tr_entries = entries \<rparr>)"

definition get_file :: "manifest_store \<Rightarrow> string \<Rightarrow> file_object res" where
  "get_file M object_id = read_file_object_flattened M object_id"

definition get_file_metadata :: "manifest_store \<Rightarrow> string \<Rightarrow> file_object res" where
  "get_file_metadata M object_id = read_file_object M object_id"

definition get_one :: "manifest_store \<Rightarrow> string \<times> string \<Rightarrow> manifest_object res" where
  "get_one M entry = (case entry of (object_id, object_type) \<Rightarrow>
     if object_type = ''snapshot'' then rbind (get_snapshot M object_id) (\<lambda>s. Inr (Snapshot s))
     else if object_type = ''tree'' then rbind (get_tree_node M object_id) (\<lambda>t. Inr (Tree t))
     else if object_type = ''file'' then rbind (get_file M object_id) (\<lambda>f. Inr (File f))
     else Inl (Bail ''manifest store get_many does not support type''))"

definition get_many :: "manifest_store \<Rightarrow> (string \<times> string) list \<Rightarrow> manifest_object list res" where
  "get_many M ids = mapM (get_one M) ids"

section \<open>The tree walk\<close>

record pending_directory =
  pd_prefix :: string
  pd_entries :: "tree_entry list"
  pd_next_index :: nat

type_synonym walk_stack = "pending_directory list"

text \<open>The stack has its top at the head of the list (\<^verbatim>\<open>Vec\<close> pushes at the end).\<close>

definition tree_walk_new :: "manifest_store \<Rightarrow> string \<Rightarrow> walk_stack res" where
  "tree_walk_new M root_tree_id =
     rbind (read_directory_entries M root_tree_id) (\<lambda>root_entries.
     Inr [\<lparr> pd_prefix = [], pd_entries = root_entries, pd_next_index = 0 \<rparr>])"

definition child_path :: "string \<Rightarrow> string \<Rightarrow> string" where
  "child_path prefix name = (if prefix = [] then name else prefix @ ''/'' @ name)"

text \<open>
  One iteration of the loop of \<^verbatim>\<open>next\<close>: the iteration ends (\<open>Done\<close>), yields an item, or goes on
  with another stack.
\<close>

datatype walk_step = Done | Yield "tree_walk_entry res" walk_stack | Continue walk_stack

definition walk_iteration :: "manifest_store \<Rightarrow> walk_stack \<Rightarrow> walk_step" where
  "walk_iteration M stack =
     (case stack of
        [] \<Rightarrow> Done
      | cur # below \<Rightarrow>
          if length (pd_entries cur) \<le> pd_next_index cur then Continue below
          else
            (let entry = pd_entries cur ! pd_next_index cur;
                 stack' = cur\<lparr> pd_next_index := pd_next_index cur + 1 \<rparr> # below;
                 path = child_path (pd_prefix cur) (te_name entry)
             in if te_kind entry = ''tree'' then
                  (case read_directory_entries M (te_object_id entry) of
                     Inr entries \<Rightarrow>
                       Continue (\<lparr> pd_prefix = path, pd_entries = entries, pd_next_index = 0 \<rparr> # stack')
                   | Inl e \<Rightarrow> Yield (Inl e) stack')
                else if te_kind entry = ''file'' then
                  (case read_file_object M (te_object_id entry) of
                     Inr f \<Rightarrow> Yield (Inr \<lparr> tw_path = path, tw_kind = ''file'' \<rparr>) stack'
                   | Inl e \<Rightarrow> Yield (Inl e) stack')
                else Yield (Inl (Bail ''manifest store encountered unknown tree entry kind'')) stack'))"

text \<open>\<^verbatim>\<open>collect()\<close> into a \<^verbatim>\<open>Result\<close>: the items up to the first error.\<close>

fun walk_collect :: "nat \<Rightarrow> manifest_store \<Rightarrow> walk_stack \<Rightarrow> tree_walk_entry list \<Rightarrow> tree_walk_entry list res option" where
  "walk_collect 0 M stack acc = None"
| "walk_collect (Suc fuel) M stack acc =
     (case walk_iteration M stack of
        Done \<Rightarrow> Some (Inr acc)
      | Yield (Inl e) stack' \<Rightarrow> Some (Inl e)
      | Yield (Inr item) stack' \<Rightarrow> walk_collect fuel M stack' (acc @ [item])
      | Continue stack' \<Rightarrow> walk_collect fuel M stack' acc)"

definition walk_tree :: "nat \<Rightarrow> manifest_store \<Rightarrow> string \<Rightarrow> tree_walk_entry list res option" where
  "walk_tree fuel M snapshot_id =
     (case read_snapshot_object M snapshot_id of
        Inl e \<Rightarrow> Some (Inl e)
      | Inr snapshot \<Rightarrow>
          (case tree_walk_new M (sn_root_tree_id snapshot) of
             Inl e \<Rightarrow> Some (Inl e)
           | Inr stack \<Rightarrow> walk_collect fuel M stack []))"

section \<open>Reachable objects\<close>

text \<open>The list of reachable ids and the set of those already seen.\<close>

type_synonym reach = "string list \<times> string set"

definition push_reachable_id :: "string \<Rightarrow> reach \<Rightarrow> bool \<times> reach" where
  "push_reachable_id object_id st = (case st of (reachable, seen) \<Rightarrow>
     if object_id \<in> seen then (False, st) else (True, (reachable @ [object_id], insert object_id seen)))"

fun push_valid_ids :: "string \<Rightarrow> string list \<Rightarrow> (reach, unit) prog" where
  "push_valid_ids context [] = sret ()"
| "push_valid_ids context (i # is) =
     sbind (slift (with_context context (validate_object_id_value i))) (\<lambda>_.
     sbind (\<lambda>st. (Inr (), snd (push_reachable_id i st))) (\<lambda>_.
     push_valid_ids context is))"

definition collect_file_entry :: "manifest_store \<Rightarrow> string \<Rightarrow> (reach, unit) prog" where
  "collect_file_entry M object_id st =
     (case push_reachable_id object_id st of
        (False, st') \<Rightarrow> (Inr (), st')
      | (True, st') \<Rightarrow>
          sbind (slift (read_file_object_flattened M object_id)) (\<lambda>f.
          sbind (push_valid_ids ''invalid chunk id in file'' (fo_chunks f)) (\<lambda>_.
          push_valid_ids ''invalid file shard id in file'' (fo_shard_ids f))) st')"

text \<open>
  The three mutually recursive parts of the collection: the loops over entries and over shards
  take the recursive call for a subdirectory as an argument.
\<close>

type_synonym reach_run = "(unit res \<times> reach) option"

fun collect_tree_entries :: "(string \<Rightarrow> reach \<Rightarrow> reach_run) \<Rightarrow> manifest_store \<Rightarrow> tree_entry list \<Rightarrow> reach \<Rightarrow> reach_run" where
  "collect_tree_entries collect M [] st = Some (Inr (), st)"
| "collect_tree_entries collect M (entry # entries) st =
     (if te_kind entry = ''tree'' then
        (case collect (te_object_id entry) st of
           None \<Rightarrow> None
         | Some (Inl e, st') \<Rightarrow> Some (Inl e, st')
         | Some (Inr _, st') \<Rightarrow> collect_tree_entries collect M entries st')
      else if te_kind entry = ''file'' then
        (case collect_file_entry M (te_object_id entry) st of
           (Inl e, st') \<Rightarrow> Some (Inl e, st')
         | (Inr _, st') \<Rightarrow> collect_tree_entries collect M entries st')
      else Some (Inl (Bail ''manifest store encountered unknown tree entry kind''), st))"

fun collect_tree_shards :: "(string \<Rightarrow> reach \<Rightarrow> reach_run) \<Rightarrow> manifest_store \<Rightarrow> string list \<Rightarrow> reach \<Rightarrow> reach_run" where
  "collect_tree_shards collect M [] st = Some (Inr (), st)"
| "collect_tree_shards collect M (shard_id # shard_ids) st =
     (case push_reachable_id shard_id st of
        (False, st') \<Rightarrow> collect_tree_shards collect M shard_ids st'
      | (True, st') \<Rightarrow>
          (case read_tree_shard_object M shard_id of
             Inl e \<Rightarrow> Some (Inl e, st')
           | Inr shard \<Rightarrow>
               (case collect_tree_entries collect M (ts_entries shard) st' of
                  None \<Rightarrow> None
                | Some (Inl e, st'') \<Rightarrow> Some (Inl e, st'')
                | Some (Inr _, st'') \<Rightarrow> collect_tree_shards collect M shard_ids st'')))"

primrec collect_tree_object_ids :: "nat \<Rightarrow> manifest_store \<Rightarrow> string \<Rightarrow> reach \<Rightarrow> reach_run" where
  "collect_tree_object_ids 0 M = (\<lambda>tree_id st. None)"
| "collect_tree_object_ids (Suc fuel) M = (\<lambda>tree_id st.
     (case push_reachable_id tree_id st of
        (False, st') \<Rightarrow> Some (Inr (), st')
      | (True, st') \<Rightarrow>
          (case read_directory_object M tree_id of
             Inl e \<Rightarrow> Some (Inl e, st')
           | Inr (Plain_Tree entries) \<Rightarrow> collect_tree_entries (collect_tree_object_ids fuel M) M entries st'
           | Inr (Sharded_Directory shards) \<Rightarrow> collect_tree_shards (collect_tree_object_ids fuel M) M shards st')))"

definition collect_reachable_object_ids :: "nat \<Rightarrow> manifest_store \<Rightarrow> string \<Rightarrow> string list res option" where
  "collect_reachable_object_ids fuel M snapshot_id =
     (case read_snapshot_object M snapshot_id of
        Inl e \<Rightarrow> Some (Inl e)
      | Inr snapshot \<Rightarrow>
          (case collect_tree_object_ids fuel M (sn_root_tree_id snapshot)
                  (snd (push_reachable_id snapshot_id ([], {}))) of
             None \<Rightarrow> None
           | Some (Inl e, st) \<Rightarrow> Some (Inl e)
           | Some (Inr _, reachable, seen) \<Rightarrow> Some (Inr reachable)))"

end
