(* ===== verification/Object_Graph.thy ===== *)
theory Object_Graph
  imports Prelude
begin

text \<open>
  Graphs of objects and the runs that explore them, shared by the local collection of reachable
  objects and the traversal of a remote. A node is an object id with the role it is met in; a run
  keeps the list of the ids it has recorded and the set of them.
\<close>

type_synonym recorded = "string list \<times> string set"

inductive leads :: "('n \<Rightarrow> 'n set) \<Rightarrow> 'n \<Rightarrow> 'n \<Rightarrow> bool" for kids where
  leads_refl: "leads kids n n"
| leads_step: "leads kids n m \<Longrightarrow> k \<in> kids m \<Longrightarrow> leads kids n k"

lemma leads_trans: "leads kids m k \<Longrightarrow> leads kids n m \<Longrightarrow> leads kids n k"
  by (induction rule: leads.induct) (auto intro: leads_step)

lemma kids_leads: "k \<in> kids n \<Longrightarrow> leads kids k x \<Longrightarrow> leads kids n x"
  by (meson leads_refl leads_step leads_trans)

section \<open>What a run explores\<close>

text \<open>
  From the nodes \<open>ns\<close>: the new ids are recorded once each, each is the id of an opened node that one of
  the \<open>ns\<close> leads to, and with it those of all its children are recorded.
\<close>

definition exploration ::
  "('n \<Rightarrow> string) \<Rightarrow> ('n \<Rightarrow> 'n set) \<Rightarrow> ('n \<Rightarrow> bool) \<Rightarrow> 'n set \<Rightarrow> recorded \<Rightarrow> recorded \<Rightarrow> bool" where
  "exploration ident kids opened ns st st' \<longleftrightarrow>
     (\<exists>T. fst st' = fst st @ T \<and> snd st' = snd st \<union> set T \<and> distinct T \<and> set T \<inter> snd st = {} \<and>
       (\<forall>x \<in> set T. \<exists>n. ident n = x \<and> opened n \<and> (\<exists>k \<in> ns. leads kids k n) \<and> ident ` kids n \<subseteq> snd st')) \<and>
     ident ` ns \<subseteq> snd st'"

lemma explores_grows: "exploration ident kids opened ns st st' \<Longrightarrow> snd st \<subseteq> snd st'"
  by (auto simp: exploration_def)

lemma explores_none: "exploration ident kids opened {} st st"
  by (simp add: exploration_def)

lemma explores_seen: "ident n \<in> snd st \<Longrightarrow> exploration ident kids opened {n} st st"
  by (simp add: exploration_def)

lemma explores_union:
  assumes "exploration ident kids opened ns st st1" "exploration ident kids opened ms st1 st2"
  shows "exploration ident kids opened (ns \<union> ms) st st2"
proof -
  from assms(1) obtain T where T: "fst st1 = fst st @ T" "snd st1 = snd st \<union> set T" "distinct T" "set T \<inter> snd st = {}"
    "\<forall>x \<in> set T. \<exists>n. ident n = x \<and> opened n \<and> (\<exists>k \<in> ns. leads kids k n) \<and> ident ` kids n \<subseteq> snd st1"
    "ident ` ns \<subseteq> snd st1" by (auto simp: exploration_def)
  from assms(2) obtain U where U: "fst st2 = fst st1 @ U" "snd st2 = snd st1 \<union> set U" "distinct U" "set U \<inter> snd st1 = {}"
    "\<forall>x \<in> set U. \<exists>n. ident n = x \<and> opened n \<and> (\<exists>k \<in> ms. leads kids k n) \<and> ident ` kids n \<subseteq> snd st2"
    "ident ` ms \<subseteq> snd st2" by (auto simp: exploration_def)
  have grow: "snd st1 \<subseteq> snd st2" using U(2) by blast
  have "\<exists>n. ident n = x \<and> opened n \<and> (\<exists>k \<in> ns \<union> ms. leads kids k n) \<and> ident ` kids n \<subseteq> snd st2"
    if "x \<in> set (T @ U)" for x
  proof (cases "x \<in> set T")
    case True
    with T(5) obtain n where "ident n = x" "opened n" "\<exists>k \<in> ns. leads kids k n" "ident ` kids n \<subseteq> snd st1" by blast
    with grow show ?thesis by (intro exI [of _ n]) blast
  next
    case False
    with that have "x \<in> set U" by simp
    with U(5) obtain n where "ident n = x" "opened n" "\<exists>k \<in> ms. leads kids k n" "ident ` kids n \<subseteq> snd st2" by blast
    then show ?thesis by (intro exI [of _ n]) blast
  qed
  moreover have "ident ` (ns \<union> ms) \<subseteq> snd st2" using T(6) U(2,6) by auto
  ultimately show ?thesis
    unfolding exploration_def using T(1-4) U(1-4) by (intro conjI exI [of _ "T @ U"]) auto
qed

text \<open>A node that is new is recorded, and then its children are explored, perhaps with other nodes.\<close>

lemma explores_new:
  assumes "ident n \<notin> snd st" "st1 = (fst st @ [ident n], insert (ident n) (snd st))" and open_n: "opened n"
    and rest: "exploration ident kids opened (kids n \<union> ms) st1 st2"
  shows "exploration ident kids opened (insert n ms) st st2"
proof -
  from rest obtain T where T: "fst st2 = fst st1 @ T" "snd st2 = snd st1 \<union> set T" "distinct T" "set T \<inter> snd st1 = {}"
    "\<forall>x \<in> set T. \<exists>m. ident m = x \<and> opened m \<and> (\<exists>k \<in> kids n \<union> ms. leads kids k m) \<and> ident ` kids m \<subseteq> snd st2"
    "ident ` kids n \<union> ident ` ms \<subseteq> snd st2" unfolding exploration_def image_Un by (elim conjE exE)
  have "\<exists>m. ident m = x \<and> opened m \<and> (\<exists>k \<in> insert n ms. leads kids k m) \<and> ident ` kids m \<subseteq> snd st2"
    if "x \<in> set (ident n # T)" for x
  proof (cases "x = ident n")
    case True
    with open_n T(6) show ?thesis by (auto intro: leads_refl)
  next
    case False
    with that have "x \<in> set T" by simp
    with T(5) obtain m k where m: "ident m = x" "opened m" "k \<in> kids n \<union> ms" "leads kids k m" "ident ` kids m \<subseteq> snd st2"
      by blast
    then have "\<exists>k \<in> insert n ms. leads kids k m" using kids_leads [of k kids n m] by blast
    with m show ?thesis by blast
  qed
  then show ?thesis
    unfolding exploration_def using assms(1,2) T(1-4,6) by (intro conjI exI [of _ "ident n # T"]) auto
qed

section \<open>The closure\<close>

text \<open>
  In a graph of typed objects the id of a node that is opened and not a leaf determines the node,
  and only such nodes have children.
\<close>

locale object_graph =
  fixes ident :: "'n \<Rightarrow> string" and kids :: "'n \<Rightarrow> 'n set" and opened :: "'n \<Rightarrow> bool" and leaf :: "'n \<Rightarrow> bool"
  assumes kids_inner: "k \<in> kids n \<Longrightarrow> opened n \<and> \<not> leaf n"
    and one_role: "opened n \<Longrightarrow> \<not> leaf n \<Longrightarrow> opened m \<Longrightarrow> \<not> leaf m \<Longrightarrow> ident n = ident m \<Longrightarrow> n = m"
begin

text \<open>
  A run that begins with ids of no inner node records the closure of its roots, provided that no leaf
  has the id of an inner node (an id is the keyed hash of type and content).
\<close>

lemma explored_closure:
  assumes run: "exploration ident kids opened ns st st'"
    and start: "\<And>n. ident n \<in> snd st \<Longrightarrow> opened n \<Longrightarrow> leaf n"
    and leaves: "\<And>l n. leaf l \<Longrightarrow> \<exists>k \<in> ns. leads kids k l \<Longrightarrow> \<exists>k \<in> ns. leads kids k n \<Longrightarrow>
      opened n \<Longrightarrow> ident n = ident l \<Longrightarrow> leaf n"
  shows "snd st' = snd st \<union> ident ` {n. \<exists>k \<in> ns. leads kids k n}"
proof -
  from run obtain T where T: "snd st' = snd st \<union> set T"
    and nodes: "\<forall>x \<in> set T. \<exists>n. ident n = x \<and> opened n \<and> (\<exists>k \<in> ns. leads kids k n) \<and> ident ` kids n \<subseteq> snd st'"
    and roots: "ident ` ns \<subseteq> snd st'" by (auto simp: exploration_def)
  have closed: "ident k \<in> snd st'"
    if r: "r \<in> ns" "leads kids r m" "ident m \<in> snd st'" and k: "k \<in> kids m" for r m k
  proof -
    from kids_inner [OF k] have m: "opened m" "\<not> leaf m" by simp_all
    then have "ident m \<in> set T" using start r(3) T by blast
    then obtain n where n: "ident n = ident m" "opened n" "\<exists>k \<in> ns. leads kids k n" "ident ` kids n \<subseteq> snd st'"
      using nodes by blast
    have "\<not> leaf n" using leaves [of n m] n(1,3) r(1,2) m by metis
    then have "n = m" using one_role n(1,2) m by blast
    with n(4) k show ?thesis by blast
  qed
  have up: "ident n \<in> snd st'" if "leads kids r n" "r \<in> ns" for r n
    using that
  proof (induction rule: leads.induct)
    case (leads_refl n)
    then show ?case using roots by blast
  next
    case (leads_step n m k)
    then show ?case using closed [of n m k] by blast
  qed
  have down: "set T \<subseteq> ident ` {n. \<exists>k \<in> ns. leads kids k n}"
  proof
    fix x assume "x \<in> set T"
    with nodes obtain n where "ident n = x" "\<exists>k \<in> ns. leads kids k n" by meson
    then show "x \<in> ident ` {n. \<exists>k \<in> ns. leads kids k n}" by (metis image_eqI mem_Collect_eq)
  qed
  have "ident ` {n. \<exists>k \<in> ns. leads kids k n} \<subseteq> snd st'" using up by blast
  with down T show ?thesis by blast
qed

end

section \<open>How far a run can go\<close>

text \<open>How many of the ids \<open>A\<close> that objects can have are not recorded yet.\<close>

definition unrecorded :: "string set \<Rightarrow> string set \<Rightarrow> nat" where
  "unrecorded A S = card (A - S)"

lemma unrecorded_mono: "finite A \<Longrightarrow> S \<subseteq> S' \<Longrightarrow> unrecorded A S' \<le> unrecorded A S"
  by (auto simp: unrecorded_def intro!: card_mono)

lemma unrecorded_less: "finite A \<Longrightarrow> i \<in> A \<Longrightarrow> i \<notin> S \<Longrightarrow> unrecorded A (insert i S) < unrecorded A S"
  unfolding unrecorded_def by (intro psubset_card_mono) auto

end
