(* ===== verification/Manifest_Claims.thy ===== *)
theory Manifest_Claims
  imports Manifest Object_Graph
begin

text \<open>
  Lemmas and properties of the manifest store: the collection of reachable objects computes the
  closure of the object graph and always ends, and the iterative tree walk lists a snapshot's
  files as the recursive definition does.
\<close>

section \<open>The object graph\<close>

text \<open>
  A node is an object id with the role in which the collection meets it: as a directory, as a
  shard of a directory, as a file, or as a chunk or file shard, which it only lists.
\<close>

datatype node = Dir string | Dir_Shard string | File_Node string | Leaf string

fun node_id :: "node \<Rightarrow> string" where
  "node_id (Dir i) = i"
| "node_id (Dir_Shard i) = i"
| "node_id (File_Node i) = i"
| "node_id (Leaf i) = i"

definition entry_node :: "tree_entry \<Rightarrow> node" where
  "entry_node e = (if te_kind e = ''tree'' then Dir (te_object_id e) else File_Node (te_object_id e))"

fun node_children :: "manifest_store \<Rightarrow> node \<Rightarrow> node list res" where
  "node_children M (Dir i) = rbind (read_directory_object M i) (\<lambda>d. Inr (case d of
     Plain_Tree es \<Rightarrow> map entry_node es | Sharded_Directory shards \<Rightarrow> map Dir_Shard shards))"
| "node_children M (Dir_Shard i) = rbind (read_tree_shard_object M i) (\<lambda>t. Inr (map entry_node (ts_entries t)))"
| "node_children M (File_Node i) = rbind (read_file_object_flattened M i) (\<lambda>f. Inr (map Leaf (fo_chunks f @ fo_shard_ids f)))"
| "node_children M (Leaf i) = Inr []"

definition children :: "manifest_store \<Rightarrow> node \<Rightarrow> node set" where
  "children M n = (case node_children M n of Inl e \<Rightarrow> {} | Inr ns \<Rightarrow> set ns)"

definition readable :: "manifest_store \<Rightarrow> node \<Rightarrow> bool" where
  "readable M n = is_ok (node_children M n)"

abbreviation reaches :: "manifest_store \<Rightarrow> node \<Rightarrow> node \<Rightarrow> bool" where
  "reaches M \<equiv> leads (children M)"

text \<open>What an id can be read as is determined by the type of the object under it.\<close>

lemma read_typed:
  "read_stored_object M pc i t = Inr x \<Longrightarrow> \<exists>p. get_typed_object (ms_crypto M) (ms_secrets M) i (ms_files M) =
     Inr \<lparr> loaded_type = t, loaded_plaintext = p \<rparr>"
  by (auto simp: read_stored_object_def get_object_def rbind_Inr_iff split: if_splits) (metis loaded_object.surjective old.unit.exhaust)

lemma node_typed:
  assumes "readable M n" "n \<noteq> Leaf (node_id n)"
  obtains t p where "get_typed_object (ms_crypto M) (ms_secrets M) (node_id n) (ms_files M) =
      Inr \<lparr> loaded_type = t, loaded_plaintext = p \<rparr>"
    and "t \<in> (case n of Dir i \<Rightarrow> {''tree'', ''directory_root''} | Dir_Shard i \<Rightarrow> {''tree_shard''}
               | File_Node i \<Rightarrow> {''file''} | Leaf i \<Rightarrow> {})"
proof (cases n)
  case (Dir i)
  then obtain d where "read_directory_object M i = Inr d"
    using assms(1) by (auto simp: readable_def is_ok_iff rbind_Inr_iff)
  then obtain l where l: "get_typed_object (ms_crypto M) (ms_secrets M) i (ms_files M) = Inr l"
    "loaded_type l \<in> {''tree'', ''directory_root''}"
    by (auto simp: read_directory_object_def rbind_Inr_iff split: if_splits)
  then show ?thesis using that [of "loaded_type l" "loaded_plaintext l"] Dir by simp
next
  case (Dir_Shard i)
  then obtain x where "read_stored_object M (ms_tree_shard M) i ''tree_shard'' = Inr x"
    using assms(1) by (auto simp: readable_def is_ok_iff rbind_Inr_iff read_tree_shard_object_def)
  from read_typed [OF this] that Dir_Shard show ?thesis by auto
next
  case (File_Node i)
  then obtain x where "read_stored_object M (ms_file M) i ''file'' = Inr x"
    using assms(1)
    by (auto simp: readable_def is_ok_iff rbind_Inr_iff read_file_object_flattened_def read_file_object_def)
  from read_typed [OF this] that File_Node show ?thesis by auto
qed (use assms in simp)

lemma same_role:
  assumes "readable M n" "n \<noteq> Leaf (node_id n)" "readable M m" "m \<noteq> Leaf (node_id m)" "node_id n = node_id m"
  shows "n = m"
proof -
  from node_typed [OF assms(1,2)] obtain t p where
    "get_typed_object (ms_crypto M) (ms_secrets M) (node_id n) (ms_files M) = Inr \<lparr> loaded_type = t, loaded_plaintext = p \<rparr>"
    "t \<in> (case n of Dir i \<Rightarrow> {''tree'', ''directory_root''} | Dir_Shard i \<Rightarrow> {''tree_shard''}
               | File_Node i \<Rightarrow> {''file''} | Leaf i \<Rightarrow> {})" by blast
  moreover from node_typed [OF assms(3,4)] obtain t' p' where
    "get_typed_object (ms_crypto M) (ms_secrets M) (node_id m) (ms_files M) = Inr \<lparr> loaded_type = t', loaded_plaintext = p' \<rparr>"
    "t' \<in> (case m of Dir i \<Rightarrow> {''tree'', ''directory_root''} | Dir_Shard i \<Rightarrow> {''tree_shard''}
               | File_Node i \<Rightarrow> {''file''} | Leaf i \<Rightarrow> {})" by blast
  ultimately show ?thesis using assms(5) by (cases n; cases m) auto
qed

lemma readable_iff:
  "readable M (Dir i) \<longleftrightarrow> is_ok (read_directory_object M i)"
  "readable M (Dir_Shard i) \<longleftrightarrow> is_ok (read_tree_shard_object M i)"
  "readable M (File_Node i) \<longleftrightarrow> is_ok (read_file_object_flattened M i)"
  "readable M (Leaf i)"
  by (simp_all add: readable_def rbind_def is_ok_iff split: sum.splits)

fun leaf_node :: "node \<Rightarrow> bool" where
  "leaf_node (Dir i) = False"
| "leaf_node (Dir_Shard i) = False"
| "leaf_node (File_Node i) = False"
| "leaf_node (Leaf i) = True"

lemma leaf_node_iff: "leaf_node n \<longleftrightarrow> n = Leaf (node_id n)"
  by (cases n) simp_all

interpretation mg: object_graph node_id "children M" "readable M" leaf_node for M
  using same_role
  by unfold_locales (auto simp: leaf_node_iff children_def readable_def is_ok_iff split: sum.splits elim: node_children.elims)

section \<open>What a run of the collection explores\<close>

abbreviation explores :: "manifest_store \<Rightarrow> node set \<Rightarrow> reach \<Rightarrow> reach \<Rightarrow> bool" where
  "explores M \<equiv> exploration node_id (children M) (readable M)"

lemma explores_push:
  assumes "push_reachable_id (node_id n) st = (True, st1)" and "readable M n" and "explores M (children M n) st1 st2"
  shows "explores M {n} st st2"
  using assms by (intro explores_new [of node_id n st st1 _ _ "{}"]) (auto simp: push_reachable_id_def split: prod.splits if_splits)

lemma push_cases:
  assumes "push_reachable_id i st = (b, st')"
  obtains "b = False" "st' = st" "i \<in> snd st" | "b = True" "i \<notin> snd st" "snd st' = insert i (snd st)"
  using assms by (auto simp: push_reachable_id_def split: prod.splits if_splits)

lemma explores_leaves:
  "push_valid_ids c is st = (Inr (), st') \<Longrightarrow> explores M (Leaf ` set is) st st'"
proof (induction "is" arbitrary: st)
  case (Cons i "is")
  let ?st = "snd (push_reachable_id i st)"
  have rest: "push_valid_ids c is ?st = (Inr (), st')"
    using Cons.prems by (auto simp: sbind_Inr_iff split: sum.splits)
  obtain b where b: "push_reachable_id i st = (b, ?st)" by (metis prod.collapse)
  have "explores M {Leaf i} st ?st"
    using b
  proof (cases rule: push_cases)
    case 1
    then show ?thesis using explores_seen [of node_id "Leaf i"] by simp
  next
    case 2
    then show ?thesis
      using explores_push [of "Leaf i" st ?st M ?st] b
      by (simp add: readable_iff children_def explores_none)
  qed
  from explores_union [OF this Cons.IH [OF rest]] show ?case by simp
qed (simp add: explores_none)

lemma explores_file:
  assumes "collect_file_entry M i st = (Inr (), st')"
  shows "explores M {File_Node i} st st'"
proof -
  obtain b st1 where b: "push_reachable_id i st = (b, st1)" by (cases "push_reachable_id i st")
  show ?thesis
    using b
  proof (cases rule: push_cases)
    case 1
    with assms b explores_seen [of node_id "File_Node i" st] show ?thesis by (simp add: collect_file_entry_def)
  next
    case 2
    then obtain f st2 where f: "read_file_object_flattened M i = Inr f"
      and c: "push_valid_ids ''invalid chunk id in file'' (fo_chunks f) st1 = (Inr (), st2)"
      and s: "push_valid_ids ''invalid file shard id in file'' (fo_shard_ids f) st2 = (Inr (), st')"
      using assms b by (auto simp: collect_file_entry_def sbind_Inr_iff split: sum.splits)
    have ch: "children M (File_Node i) = Leaf ` set (fo_chunks f) \<union> Leaf ` set (fo_shard_ids f)"
      by (simp add: children_def f image_Un)
    from explores_union [OF explores_leaves [OF c] explores_leaves [OF s]]
    have "explores M (children M (File_Node i)) st1 st'" unfolding ch .
    with explores_push [of "File_Node i" st st1 M st'] b 2(1) f show ?thesis by (simp add: readable_iff)
  qed
qed

lemma explores_entries:
  assumes dirs: "\<And>i st st'. collect i st = Some (Inr (), st') \<Longrightarrow> explores M {Dir i} st st'"
  shows "collect_tree_entries collect M es st = Some (Inr (), st') \<Longrightarrow> explores M (entry_node ` set es) st st'"
proof (induction es arbitrary: st)
  case (Cons e es)
  then consider st1 where "te_kind e = ''tree''" "collect (te_object_id e) st = Some (Inr (), st1)"
      "collect_tree_entries collect M es st1 = Some (Inr (), st')"
    | st1 where "te_kind e = ''file''" "collect_file_entry M (te_object_id e) st = (Inr (), st1)"
      "collect_tree_entries collect M es st1 = Some (Inr (), st')"
    by (simp split: if_splits option.splits prod.splits sum.splits)
  then obtain st1 where one: "explores M {entry_node e} st st1"
    and rest: "collect_tree_entries collect M es st1 = Some (Inr (), st')"
  proof cases
    case 1
    with dirs [OF 1(2)] that show thesis by (simp add: entry_node_def)
  next
    case 2
    with explores_file [OF 2(2)] that show thesis by (simp add: entry_node_def)
  qed
  from explores_union [OF one Cons.IH [OF rest]] show ?case by simp
qed (simp add: explores_none)

lemma explores_shards:
  assumes dirs: "\<And>i st st'. collect i st = Some (Inr (), st') \<Longrightarrow> explores M {Dir i} st st'"
  shows "collect_tree_shards collect M is st = Some (Inr (), st') \<Longrightarrow> explores M (Dir_Shard ` set is) st st'"
proof (induction "is" arbitrary: st)
  case (Cons i "is")
  obtain b st1 where b: "push_reachable_id i st = (b, st1)" by (cases "push_reachable_id i st")
  have "\<exists>st2. explores M {Dir_Shard i} st st2 \<and> collect_tree_shards collect M is st2 = Some (Inr (), st')"
    using b
  proof (cases rule: push_cases)
    case 1
    with Cons.prems b explores_seen [of node_id "Dir_Shard i" st] show ?thesis by (intro exI [of _ st]) simp
  next
    case 2
    then obtain t st2 where t: "read_tree_shard_object M i = Inr t"
      and es: "collect_tree_entries collect M (ts_entries t) st1 = Some (Inr (), st2)"
      and rest: "collect_tree_shards collect M is st2 = Some (Inr (), st')"
      using Cons.prems b by (auto split: sum.splits option.splits)
    have "children M (Dir_Shard i) = entry_node ` set (ts_entries t)" by (simp add: children_def t)
    with explores_entries [OF dirs es] have "explores M (children M (Dir_Shard i)) st1 st2" by simp
    with explores_push [of "Dir_Shard i" st st1 M st2] b 2(1) t rest show ?thesis
      by (intro exI [of _ st2]) (simp add: readable_iff)
  qed
  then obtain st2 where "explores M {Dir_Shard i} st st2" "collect_tree_shards collect M is st2 = Some (Inr (), st')"
    by blast
  from explores_union [OF this(1) Cons.IH [OF this(2)]] show ?case by simp
qed (simp add: explores_none)

lemma explores_tree:
  "collect_tree_object_ids fuel M i st = Some (Inr (), st') \<Longrightarrow> explores M {Dir i} st st'"
proof (induction fuel arbitrary: i st st')
  case (Suc fuel)
  obtain b st1 where b: "push_reachable_id i st = (b, st1)" by (cases "push_reachable_id i st")
  show ?case
    using b
  proof (cases rule: push_cases)
    case 1
    with Suc.prems b explores_seen [of node_id "Dir i" st] show ?thesis by auto
  next
    case 2
    then obtain d where d: "read_directory_object M i = Inr d"
      and run: "(case d of Plain_Tree es \<Rightarrow> collect_tree_entries (collect_tree_object_ids fuel M) M es st1
        | Sharded_Directory shards \<Rightarrow> collect_tree_shards (collect_tree_object_ids fuel M) M shards st1) = Some (Inr (), st')"
      using Suc.prems b by (auto split: sum.splits)
    have "explores M (children M (Dir i)) st1 st'"
      using run explores_entries [OF Suc.IH] explores_shards [OF Suc.IH]
      by (cases d) (auto simp: children_def d)
    with explores_push [of "Dir i" st st1 M st'] b 2(1) d show ?thesis by (simp add: readable_iff)
  qed
qed simp

section \<open>The collection ends\<close>

definition present :: "manifest_store \<Rightarrow> string set" where
  "present M = {i. relative_object_path i \<in> fst ` set (ms_files M)}"

lemma inj_object_path: "inj_on relative_object_path A"
  by (auto simp: inj_on_def relative_object_path_def)

lemma present_finite: "finite (present M)" "card (present M) \<le> length (ms_files M)"
proof -
  have img: "relative_object_path ` present M \<subseteq> fst ` set (ms_files M)" by (auto simp: present_def)
  then show "finite (present M)"
    using inj_object_path finite_imageD finite_subset by (metis List.finite_set finite_imageI)
  have "card (present M) = card (relative_object_path ` present M)"
    using card_image [OF inj_object_path] by metis
  also have "\<dots> \<le> card (fst ` set (ms_files M))" using img by (simp add: card_mono)
  also have "\<dots> \<le> length (ms_files M)" by (metis card_length length_map list.set_map)
  finally show "card (present M) \<le> length (ms_files M)" .
qed

abbreviation unread :: "manifest_store \<Rightarrow> string set \<Rightarrow> nat" where
  "unread M \<equiv> unrecorded (present M)"

lemma directory_present: "read_directory_object M i = Inr d \<Longrightarrow> i \<in> present M"
  by (auto simp: read_directory_object_def get_typed_object_def file_get_def rbind_Inr_iff with_context_Inr_iff
      ok_or_Inr_iff present_def image_iff dest!: map_of_SomeD) force

lemma push_grows: "push_reachable_id i st = (b, st') \<Longrightarrow> snd st \<subseteq> snd st'"
  by (auto simp: push_reachable_id_def split: prod.splits if_splits)

lemma entries_terminate:
  assumes some: "\<And>i st. unread M (snd st) < n \<Longrightarrow> collect i st \<noteq> None"
    and grow: "\<And>i st st'. collect i st = Some (Inr (), st') \<Longrightarrow> snd st \<subseteq> snd st'"
  shows "unread M (snd st) < n \<Longrightarrow> collect_tree_entries collect M es st \<noteq> None"
proof (induction es arbitrary: st)
  case (Cons e es)
  have next_ok: "collect_tree_entries collect M es st1 \<noteq> None" if "snd st \<subseteq> snd st1" for st1
    using Cons unrecorded_mono [OF present_finite(1) that, of M] by simp
  consider "te_kind e = ''tree''" | "te_kind e = ''file''" | "te_kind e \<noteq> ''tree''" "te_kind e \<noteq> ''file''" by blast
  then show ?case
  proof cases
    case 1
    obtain r st1 where run: "collect (te_object_id e) st = Some (r, st1)" using some Cons.prems by fastforce
    show ?thesis
    proof (cases r)
      case (Inr u)
      with grow [of _ st st1] run next_ok [of st1] 1 show ?thesis by simp
    qed (use 1 run in simp)
  next
    case 2
    obtain r st1 where run: "collect_file_entry M (te_object_id e) st = (r, st1)" by (metis prod.collapse)
    show ?thesis
    proof (cases r)
      case (Inr u)
      with explores_grows [OF explores_file, of M _ st st1] run next_ok [of st1] 2 show ?thesis by simp
    qed (use 2 run in simp)
  qed simp
qed simp

lemma shards_terminate:
  assumes some: "\<And>i st. unread M (snd st) < n \<Longrightarrow> collect i st \<noteq> None"
    and dirs: "\<And>i st st'. collect i st = Some (Inr (), st') \<Longrightarrow> explores M {Dir i} st st'"
  shows "unread M (snd st) < n \<Longrightarrow> collect_tree_shards collect M is st \<noteq> None"
proof (induction "is" arbitrary: st)
  case (Cons i "is")
  obtain b st1 where b: "push_reachable_id i st = (b, st1)" by (metis prod.collapse)
  have less: "unread M (snd st1) < n" using unrecorded_mono [OF present_finite(1) push_grows [OF b], of M] Cons.prems by simp
  show ?case
  proof (cases "b \<and> is_ok (read_tree_shard_object M i)")
    case True
    then obtain t where t: "read_tree_shard_object M i = Inr t" by (auto simp: is_ok_iff)
    have "collect_tree_entries collect M (ts_entries t) st1 \<noteq> None"
    proof (rule entries_terminate [OF _ _ less])
      show "collect i st \<noteq> None" if "unread M (snd st) < n" for i st using some that .
      show "snd st \<subseteq> snd st'" if "collect i st = Some (Inr (), st')" for i st st'
        using explores_grows [OF dirs [OF that]] .
    qed
    then obtain r st2 where run: "collect_tree_entries collect M (ts_entries t) st1 = Some (r, st2)" by force
    show ?thesis
    proof (cases r)
      case (Inr u)
      then have "collect_tree_entries collect M (ts_entries t) st1 = Some (Inr (), st2)" using run by simp
      from explores_grows [OF explores_entries [OF dirs this]] have "unread M (snd st2) < n" using unrecorded_mono [OF present_finite(1), of "snd st1" "snd st2" M] less by simp
      with Cons.IH True t run Inr b show ?thesis by simp
    qed (use True t run b in simp)
  next
    case False
    with Cons.IH [OF less] b show ?thesis
      by (cases b; cases "read_tree_shard_object M i") auto
  qed
qed simp

lemma tree_terminates: "unread M (snd st) < fuel \<Longrightarrow> collect_tree_object_ids fuel M i st \<noteq> None"
proof (induction fuel arbitrary: i st)
  case (Suc fuel)
  obtain b st1 where b: "push_reachable_id i st = (b, st1)" by (metis prod.collapse)
  show ?case
  proof (cases "b \<and> is_ok (read_directory_object M i)")
    case True
    then obtain d where d: "read_directory_object M i = Inr d" by (auto simp: is_ok_iff)
    have "unread M (snd st1) < unread M (snd st)"
      using b unrecorded_less [OF present_finite(1) directory_present [OF d], of "snd st"] True by (auto elim!: push_cases)
    then have less: "unread M (snd st1) < fuel" using Suc.prems by simp
    have "collect_tree_entries (collect_tree_object_ids fuel M) M es st1 \<noteq> None" for es
    proof (rule entries_terminate [OF _ _ less])
      show "collect_tree_object_ids fuel M i st \<noteq> None" if "unread M (snd st) < fuel" for i st using Suc.IH that .
      show "snd st \<subseteq> snd st'" if "collect_tree_object_ids fuel M i st = Some (Inr (), st')" for i st st'
        using explores_grows [OF explores_tree [OF that]] .
    qed
    moreover have "collect_tree_shards (collect_tree_object_ids fuel M) M is st1 \<noteq> None" for "is"
    proof (rule shards_terminate [OF _ _ less])
      show "collect_tree_object_ids fuel M i st \<noteq> None" if "unread M (snd st) < fuel" for i st using Suc.IH that .
      show "explores M {Dir i} st st'" if "collect_tree_object_ids fuel M i st = Some (Inr (), st')" for i st st'
        using explores_tree that .
    qed
    ultimately show ?thesis using b True d by (cases d) simp_all
  next
    case False
    with b show ?thesis by (cases b; cases "read_directory_object M i") auto
  qed
qed simp

text \<open>C19: Collecting the objects reachable from a snapshot ends on every store, even one whose
  directories form a cycle: fuel for one more level than the store has files is enough.\<close>

theorem collect_reachable_terminates:
  "length (ms_files M) < fuel \<Longrightarrow> collect_reachable_object_ids fuel M snapshot_id \<noteq> None"
proof -
  assume fuel: "length (ms_files M) < fuel"
  have "unread M S \<le> card (present M)" for S
    unfolding unrecorded_def using present_finite(1) by (intro card_mono) auto
  then have "unread M S < fuel" for S using present_finite(2) [of M] fuel by (meson order.strict_trans1 order_trans)
  then have some: "collect_tree_object_ids fuel M i st \<noteq> None" for i st using tree_terminates by blast
  show ?thesis
  proof (cases "read_snapshot_object M snapshot_id")
    case (Inr snapshot)
    obtain r R S where "collect_tree_object_ids fuel M (sn_root_tree_id snapshot)
        (snd (push_reachable_id snapshot_id ([], {}))) = Some (r, R, S)"
      using some by (metis not_None_eq prod_cases3)
    then show ?thesis by (cases r) (simp_all add: collect_reachable_object_ids_def Inr)
  qed (simp add: collect_reachable_object_ids_def)
qed

text \<open>C20: The collection returns the closure. When it succeeds, every id is listed once, and the ids
  are the snapshot's and those of all directories, shards, files, chunks and file shards reachable
  from its root, provided that no file lists as a chunk an id that is a reachable directory, shard or
  file (an id is the keyed hash of type and content, so only a colliding or forged file can).\<close>

theorem collect_reachable_closure:
  assumes "collect_reachable_object_ids fuel M snapshot_id = Some (Inr ids)"
    and "read_snapshot_object M snapshot_id = Inr snapshot"
    and leaves: "\<forall>i n. reaches M (Dir (sn_root_tree_id snapshot)) (Leaf i) \<longrightarrow>
      reaches M (Dir (sn_root_tree_id snapshot)) n \<longrightarrow> node_id n = i \<longrightarrow> n = Leaf i"
  shows "distinct ids \<and>
    set ids = insert snapshot_id (node_id ` {n. reaches M (Dir (sn_root_tree_id snapshot)) n})"
proof -
  let ?root = "Dir (sn_root_tree_id snapshot)"
  obtain S where run: "collect_tree_object_ids fuel M (sn_root_tree_id snapshot) ([snapshot_id], {snapshot_id}) =
      Some (Inr (), ids, S)"
    using assms(1,2)
    by (auto simp: collect_reachable_object_ids_def push_reachable_id_def split: option.splits sum.splits prod.splits)
  note e = explores_tree [OF run]
  have "distinct ids" "S = set ids" using e by (auto simp: exploration_def)
  moreover have "leaf_node n" if "node_id n \<in> {snapshot_id}" "readable M n" for n
  proof -
    from assms(2) obtain x where "read_stored_object M (ms_snapshot M) snapshot_id ''snapshot'' = Inr x"
      by (auto simp: read_snapshot_object_def rbind_Inr_iff)
    from read_typed [OF this] that node_typed [of M n] show ?thesis by (cases n) fastforce+
  qed
  moreover have "leaf_node n" if "leaf_node l" "reaches M ?root l" "reaches M ?root n" "node_id n = node_id l" for l n
  proof -
    from that(1) have "l = Leaf (node_id l)" by (simp add: leaf_node_iff)
    with leaves that(2-4) show ?thesis unfolding leaf_node_iff by metis
  qed
  ultimately show ?thesis
    using mg.explored_closure [OF e] by simp
qed

section \<open>The walk\<close>

text \<open>
  The reference: the files of a directory in order, those of a subdirectory where its entry
  stands, and the error of the first entry that cannot be read.
\<close>

type_synonym listing = "tree_walk_entry list res option"

definition then_list :: "tree_walk_entry list \<Rightarrow> listing \<Rightarrow> listing" where
  "then_list xs r = map_option (\<lambda>r. rbind r (\<lambda>ys. Inr (xs @ ys))) r"

fun list_entries :: "(string \<Rightarrow> tree_entry list \<Rightarrow> listing) \<Rightarrow> manifest_store \<Rightarrow> string \<Rightarrow> tree_entry list \<Rightarrow> listing" where
  "list_entries sub M prefix [] = Some (Inr [])"
| "list_entries sub M prefix (e # es) =
     (let path = child_path prefix (te_name e) in
      if te_kind e = ''tree'' then
        (case read_directory_entries M (te_object_id e) of
           Inl err \<Rightarrow> Some (Inl err)
         | Inr entries \<Rightarrow>
             (case sub path entries of
                None \<Rightarrow> None
              | Some (Inl err) \<Rightarrow> Some (Inl err)
              | Some (Inr xs) \<Rightarrow> then_list xs (list_entries sub M prefix es)))
      else if te_kind e = ''file'' then
        (case read_file_object M (te_object_id e) of
           Inl err \<Rightarrow> Some (Inl err)
         | Inr f \<Rightarrow> then_list [\<lparr> tw_path = path, tw_kind = ''file'' \<rparr>] (list_entries sub M prefix es))
      else Some (Inl (Bail ''manifest store encountered unknown tree entry kind'')))"

primrec list_files :: "nat \<Rightarrow> manifest_store \<Rightarrow> string \<Rightarrow> tree_entry list \<Rightarrow> listing" where
  "list_files 0 M = (\<lambda>prefix entries. None)"
| "list_files (Suc depth) M = list_entries (list_files depth M) M"

text \<open>\<open>walks k prefix es r\<close>: from a frame with \<open>es\<close> left, \<open>k\<close> iterations produce the listing \<open>r\<close>.\<close>

definition finish :: "manifest_store \<Rightarrow> nat \<Rightarrow> walk_stack \<Rightarrow> tree_walk_entry list \<Rightarrow> tree_walk_entry list res \<Rightarrow> listing" where
  "finish M fuel below acc r = (case r of Inl e \<Rightarrow> Some (Inl e) | Inr xs \<Rightarrow> walk_collect fuel M below (acc @ xs))"

definition frame :: "string \<Rightarrow> tree_entry list \<Rightarrow> nat \<Rightarrow> pending_directory" where
  "frame prefix all idx = \<lparr> pd_prefix = prefix, pd_entries = all, pd_next_index = idx \<rparr>"

definition walks :: "manifest_store \<Rightarrow> nat \<Rightarrow> string \<Rightarrow> tree_entry list \<Rightarrow> tree_walk_entry list res \<Rightarrow> bool" where
  "walks M k prefix es r \<longleftrightarrow> (\<forall>fuel all idx below acc. drop idx all = es \<longrightarrow>
     walk_collect (k + fuel) M (frame prefix all idx # below) acc = finish M fuel below acc r)"

lemma finish_simps [simp]:
  "finish M fuel below acc (Inl e) = Some (Inl e)"
  "finish M fuel below acc (Inr xs) = walk_collect fuel M below (acc @ xs)"
  "finish M fuel below acc (rbind r (\<lambda>ys. Inr (xs @ ys))) = finish M fuel below (acc @ xs) r"
  by (simp_all add: finish_def) (cases r; simp add: finish_def)

lemma walksD: "walks M k prefix es r \<Longrightarrow> drop idx all = es \<Longrightarrow>
    walk_collect (k + fuel) M (frame prefix all idx # below) acc = finish M fuel below acc r"
  by (simp add: walks_def)

lemma walks_Nil: "walks M 1 prefix [] (Inr [])"
  by (simp add: walks_def walk_iteration_def frame_def)

lemma drop_ConsD: "drop idx all = e # es \<Longrightarrow> idx < length all \<and> all ! idx = e \<and> drop (idx + 1) all = es"
  by (metis Suc_eq_plus1 drop_Suc hd_drop_conv_nth linorder_not_le drop_all list.distinct(1) list.sel(1,3) tl_drop)

text \<open>One iteration on a frame whose next entry is \<open>e\<close>.\<close>

lemma walk_iteration_entry:
  assumes "drop idx all = e # es"
  shows "walk_iteration M (frame prefix all idx # below) =
    (let path = child_path prefix (te_name e); stack' = frame prefix all (idx + 1) # below in
     if te_kind e = ''tree'' then
       (case read_directory_entries M (te_object_id e) of
          Inr entries \<Rightarrow> Continue (frame path entries 0 # stack')
        | Inl err \<Rightarrow> Yield (Inl err) stack')
     else if te_kind e = ''file'' then
       (case read_file_object M (te_object_id e) of
          Inr f \<Rightarrow> Yield (Inr \<lparr> tw_path = path, tw_kind = ''file'' \<rparr>) stack'
        | Inl err \<Rightarrow> Yield (Inl err) stack')
     else Yield (Inl (Bail ''manifest store encountered unknown tree entry kind'')) stack')"
  using drop_ConsD [OF assms] by (simp add: walk_iteration_def frame_def Let_def split: sum.split)

lemma walks_tree:
  assumes "walks M k prefix es r" "te_kind e = ''tree''" "read_directory_entries M (te_object_id e) = Inr entries"
    and "walks M k' (child_path prefix (te_name e)) entries s"
  shows "walks M (Suc (k' + k)) prefix (e # es) (rbind s (\<lambda>xs. rbind r (\<lambda>ys. Inr (xs @ ys))))"
  unfolding walks_def
proof (intro allI impI)
  fix fuel all idx below acc assume d: "drop idx all = e # es"
  note step = walk_iteration_entry [OF d] and rest = walksD [OF assms(1), of "idx + 1" all]
  have "walk_collect (k' + (k + fuel)) M (frame (child_path prefix (te_name e)) entries 0 # frame prefix all (idx + 1) # below) acc =
      finish M (k + fuel) (frame prefix all (idx + 1) # below) acc s"
    by (rule walksD [OF assms(4)]) simp
  then show "walk_collect (Suc (k' + k) + fuel) M (frame prefix all idx # below) acc =
      finish M fuel below acc (rbind s (\<lambda>xs. rbind r (\<lambda>ys. Inr (xs @ ys))))"
    using drop_ConsD [OF d] rest by (cases s) (simp_all add: step assms(2,3) Let_def add.assoc)
qed

lemma walks_tree_error:
  assumes "te_kind e = ''tree''" "read_directory_entries M (te_object_id e) = Inr entries"
    and "walks M k (child_path prefix (te_name e)) entries (Inl err)"
  shows "walks M (Suc k) prefix (e # es) (Inl err)"
  unfolding walks_def
  using assms walksD [OF assms(3), of 0 entries] by (auto simp: walk_iteration_entry Let_def)

lemma walks_file:
  assumes "walks M k prefix es r" "te_kind e = ''file''" "read_file_object M (te_object_id e) = Inr f"
  shows "walks M (Suc k) prefix (e # es)
    (rbind r (\<lambda>ys. Inr ([\<lparr> tw_path = child_path prefix (te_name e), tw_kind = ''file'' \<rparr>] @ ys)))"
  unfolding walks_def
proof (intro allI impI)
  fix fuel all idx below acc assume d: "drop idx all = e # es"
  note step = walk_iteration_entry [OF d] and rest = walksD [OF assms(1), of "idx + 1" all]
  show "walk_collect (Suc k + fuel) M (frame prefix all idx # below) acc = finish M fuel below acc
      (rbind r (\<lambda>ys. Inr ([\<lparr> tw_path = child_path prefix (te_name e), tw_kind = ''file'' \<rparr>] @ ys)))"
    unfolding finish_simps using drop_ConsD [OF d] rest by (simp add: step assms(2,3) Let_def)
qed

lemma walks_error:
  assumes "te_kind e = ''tree'' \<and> read_directory_entries M (te_object_id e) = Inl err \<or>
    te_kind e = ''file'' \<and> read_file_object M (te_object_id e) = Inl err \<or>
    te_kind e \<noteq> ''tree'' \<and> te_kind e \<noteq> ''file'' \<and> err = Bail ''manifest store encountered unknown tree entry kind''"
  shows "walks M 1 prefix (e # es) (Inl err)"
  unfolding walks_def using assms by (auto simp: walk_iteration_entry Let_def)

lemma list_entries_walks:
  assumes sub: "\<And>path entries r. sub path entries = Some r \<Longrightarrow> \<exists>k. walks M k path entries r"
  shows "list_entries sub M prefix es = Some r \<Longrightarrow> \<exists>k. walks M k prefix es r"
proof (induction es arbitrary: r)
  case Nil
  then show ?case using walks_Nil by auto
next
  case (Cons e es)
  define path where "path = child_path prefix (te_name e)"
  consider (directory) entries where "te_kind e = ''tree''" "read_directory_entries M (te_object_id e) = Inr entries"
    | (plain) f where "te_kind e = ''file''" "read_file_object M (te_object_id e) = Inr f"
    | (error) err where "te_kind e = ''tree'' \<and> read_directory_entries M (te_object_id e) = Inl err \<or>
        te_kind e = ''file'' \<and> read_file_object M (te_object_id e) = Inl err \<or>
        te_kind e \<noteq> ''tree'' \<and> te_kind e \<noteq> ''file'' \<and> err = Bail ''manifest store encountered unknown tree entry kind''"
    by (metis obj_sumE)
  then show ?case
  proof cases
    case directory
    with Cons.prems obtain s where s: "sub path entries = Some s"
      by (auto simp: path_def Let_def split: option.splits)
    with sub obtain k' where k': "walks M k' path entries s" by blast
    show ?thesis
    proof (cases s)
      case (Inl x)
      with directory s Cons.prems have "r = Inl x" by (auto simp: path_def Let_def)
      then show ?thesis using walks_tree_error [OF directory k' [unfolded path_def Inl]] by blast
    next
      case (Inr xs)
      with directory s Cons.prems obtain r' where r': "list_entries sub M prefix es = Some r'" "r = rbind r' (\<lambda>ys. Inr (xs @ ys))"
        by (auto simp: path_def Let_def then_list_def)
      from Cons.IH [OF r'(1)] obtain k where "walks M k prefix es r'" by blast
      from walks_tree [OF this directory k' [unfolded path_def]] Inr r'(2) show ?thesis by auto
    qed
  next
    case plain
    with Cons.prems obtain r' where r': "list_entries sub M prefix es = Some r'"
      "r = rbind r' (\<lambda>ys. Inr ([\<lparr> tw_path = path, tw_kind = ''file'' \<rparr>] @ ys))"
      by (auto simp: path_def Let_def then_list_def)
    from Cons.IH [OF r'(1)] obtain k where "walks M k prefix es r'" by blast
    from walks_file [OF this plain] r'(2) show ?thesis unfolding path_def by blast
  next
    case error
    then have "r = Inl err" using Cons.prems by (auto simp: Let_def)
    with walks_error [OF error] show ?thesis by blast
  qed
qed

lemma list_files_walks: "list_files depth M prefix es = Some r \<Longrightarrow> \<exists>k. walks M k prefix es r"
proof (induction depth arbitrary: prefix es r)
  case (Suc depth)
  then show ?case using list_entries_walks [of "list_files depth M" M prefix es r] by simp
qed simp

text \<open>C21: The iterative walk lists a snapshot as the recursive definition does. Whenever the recursion
  (to any depth) gives a listing or an error, the walk over its explicit stack, with enough
  iterations, gives the same: the same paths in the same order, or the same first error.\<close>

theorem walk_tree_lists_recursively:
  assumes "read_snapshot_object M snapshot_id = Inr snapshot"
    and "read_directory_entries M (sn_root_tree_id snapshot) = Inr entries"
    and "list_files depth M [] entries = Some r"
  shows "\<exists>k. \<forall>fuel \<ge> k. walk_tree fuel M snapshot_id = Some r"
proof -
  obtain k where k: "walks M k [] entries r" using list_files_walks [OF assms(3)] by blast
  have "walk_tree fuel M snapshot_id = Some r" if "Suc k \<le> fuel" for fuel
  proof -
    define n where "n = fuel - Suc k"
    have n: "fuel = k + Suc n" using that by (simp add: n_def)
    have "walk_collect (k + Suc n) M [frame [] entries 0] [] = finish M (Suc n) [] [] r"
      by (rule walksD [OF k]) simp
    then show ?thesis
      unfolding n
      by (cases r) (simp_all add: walk_tree_def assms(1,2) tree_walk_new_def walk_iteration_def frame_def del: add_Suc_right)
  qed
  then show ?thesis by blast
qed

section \<open>Witnesses\<close>

text \<open>A store that holds given objects, put one after the other.\<close>

definition put_all :: "(string \<times> byte list) list \<Rightarrow> files" where
  "put_all objs = foldl (\<lambda>fs (t, p). snd (put_object plain_crypto sample_draw sample_secrets t p fs)) [] objs"

abbreviation plain_id :: "string \<Rightarrow> byte list \<Rightarrow> string" where
  "plain_id t p \<equiv> derive_object_id plain_crypto sample_secrets t p"

lemma plain_put: "\<exists>fs'. put_object plain_crypto sample_draw sample_secrets t p fs = (Inr (plain_id t p), fs')"
proof -
  let ?pol = "padding_policy_for t"
  have "validate_object_id_value (plain_id t p) = Inr ()" by (rule derive_object_id_facts [OF plain_crypto_ok])
  note path = resolve_object_path [OF this]
  have keys: "active_epoch_keys sample_secrets = Inr \<lparr> manifest_enc_key = [], nonce_key = [] \<rparr>"
    by (simp add: active_epoch_keys_def epoch_keys_def sample_secrets_def)
  have "is_ok (apply_padding_policy sample_draw t p ?pol)"
    by (auto simp: apply_padding_policy_def sample_draw_def padding_policy_for_def Let_def)
  then obtain buf where buf: "apply_padding_policy sample_draw t p ?pol = Inr buf" by (auto simp: is_ok_iff)
  have "is_ok (nonce_for plain_crypto sample_draw sample_secrets t (plain_id t p) ?pol)"
    by (simp add: nonce_for_def derive_nonce_def keys sample_draw_def)
  then obtain nonce where nonce: "nonce_for plain_crypto sample_draw sample_secrets t (plain_id t p) ?pol = Inr nonce"
    by (auto simp: is_ok_iff)
  have seal: "encrypt_object plain_crypto sample_secrets (plain_id t p) t ?pol nonce buf = Inr (buf, replicate 16 0)"
    by (simp add: encrypt_object_def keys plain_crypto_def)
  show ?thesis
    unfolding put_object_def Let_def
    by (simp add: buf nonce seal file_put_def path sbind_Inr [where m = "\<lambda>fs. (Inr (), f fs)" for f])
qed

lemma get_typed_cong:
  "map_of fs (relative_object_path i) = map_of fs' (relative_object_path i) \<Longrightarrow>
     get_typed_object C s i fs = get_typed_object C s i fs'"
  by (simp add: get_typed_object_def file_get_def)

lemma put_all_stored:
  assumes "distinct (map (\<lambda>(t, p). plain_id t p) objs)"
    and "\<forall>(t, p) \<in> set objs. list_all ascii_char t \<and> length t < 256 \<and> length p + 36 < 2 ^ 64"
  shows "bt_ok (put_all objs) \<and> (\<forall>(t, p) \<in> set objs.
    get_typed_object plain_crypto sample_secrets (plain_id t p) (put_all objs) = Inr \<lparr> loaded_type = t, loaded_plaintext = p \<rparr>)"
  using assms
proof (induction objs rule: rev_induct)
  case Nil
  then show ?case by (simp add: put_all_def)
next
  case (snoc tp objs)
  obtain t p where tp: "tp = (t, p)" by (cases tp)
  let ?fs = "put_all objs"
  have ih: "bt_ok ?fs" "\<forall>(t, p) \<in> set objs.
      get_typed_object plain_crypto sample_secrets (plain_id t p) ?fs = Inr \<lparr> loaded_type = t, loaded_plaintext = p \<rparr>"
    using snoc by auto
  obtain fs' where put: "put_object plain_crypto sample_draw sample_secrets t p ?fs = (Inr (plain_id t p), fs')"
    using plain_put by blast
  then have fs': "put_all (objs @ [(t, p)]) = fs'" by (simp add: put_all_def)
  have "utf8_string t" "length t < 256" "length p + 36 < 2 ^ 64"
    using snoc.prems(2) utf8_string_ascii by (auto simp: tp)
  note got = put_get_typed [OF plain_crypto_ok sample_draw_ok ih(1) this put]
  have "bt_ok fs'" using put ih(1) by (elim put_object_stored) simp
  moreover have "get_typed_object plain_crypto sample_secrets (plain_id u q) fs' = Inr \<lparr> loaded_type = u, loaded_plaintext = q \<rparr>"
    if "(u, q) \<in> set objs" for u q
  proof -
    have "plain_id u q \<noteq> plain_id t p" using snoc.prems(1) that by (force simp: tp)
    then have "relative_object_path (plain_id u q) \<noteq> relative_object_path (plain_id t p)"
      by (simp add: relative_object_path_def)
    with got have "map_of fs' (relative_object_path (plain_id u q)) = map_of ?fs (relative_object_path (plain_id u q))"
      by blast
    from get_typed_cong [OF this] ih(2) that show ?thesis by fastforce
  qed
  ultimately show ?case using got by (auto simp: fs' tp)
qed

text \<open>A snapshot of a directory with a file and a subdirectory that has the same file.\<close>

definition table_codec :: "(byte list \<times> 'a) list \<Rightarrow> 'a serde" where
  "table_codec table = \<lparr> to_vec = (\<lambda>x. []), from_slice = map_of table \<rparr>"

definition sample_objects :: "(string \<times> byte list) list" where
  "sample_objects = [(''file'', [3]), (''tree'', [2]), (''tree'', [1]), (''snapshot'', [0])]"

definition id_snapshot :: string where "id_snapshot = plain_id ''snapshot'' [0]"
definition id_root :: string where "id_root = plain_id ''tree'' [1]"
definition id_docs :: string where "id_docs = plain_id ''tree'' [2]"
definition id_file :: string where "id_file = plain_id ''file'' [3]"

definition sample_manifest :: manifest_store where
  "sample_manifest = \<lparr> ms_crypto = plain_crypto, ms_secrets = sample_secrets, ms_files = put_all sample_objects,
     ms_snapshot = table_codec [([0], \<lparr> sn_schema_version = 1, sn_message = ''m'', sn_root_tree_id = id_root, sn_parent_snapshot_id = None \<rparr>)],
     ms_tree = table_codec
       [([1], \<lparr> tr_schema_version = 1, tr_entries =
           [\<lparr> te_name = ''docs'', te_kind = ''tree'', te_object_id = id_docs \<rparr>,
            \<lparr> te_name = ''x.txt'', te_kind = ''file'', te_object_id = id_file \<rparr>] \<rparr>),
        ([2], \<lparr> tr_schema_version = 1, tr_entries =
           [\<lparr> te_name = ''a.txt'', te_kind = ''file'', te_object_id = id_file \<rparr>] \<rparr>)],
     ms_directory_root = table_codec [], ms_tree_shard = table_codec [],
     ms_file = table_codec [([3], \<lparr> fo_schema_version = 1, fo_entry_name = ''x.txt'', fo_file_size = 4,
        fo_modified_unix_ms = 0, fo_chunker_id = [], fo_chunker_config_id = [], fo_chunk_count = 1,
        fo_chunks = [''cc''], fo_chunk_lengths = [4], fo_shard_ids = [], fo_shard_byte_lengths = [] \<rparr>)],
     ms_file_shard = table_codec [] \<rparr>"

lemma hex_digit_inject:
  assumes "a < 16" "b < 16"
  shows "hex_digit a = hex_digit b \<longleftrightarrow> a = b"
proof
  have h: "of_char (hex_digit d) = (if d < 10 then 48 + d else 87 + d)" if "d < 16" for d :: nat
    using that by (simp add: hex_digit_def)
  assume "hex_digit a = hex_digit b"
  with h [OF assms(1)] h [OF assms(2)] have "(if a < 10 then 48 + a else 87 + a) = (if b < 10 then 48 + b else 87 + b)"
    by simp
  then show "a = b" by (auto split: if_splits)
qed simp

lemma hex_encode_inject: "hex_encode xs = hex_encode ys \<longleftrightarrow> xs = ys"
proof (induction xs arbitrary: ys)
  case Nil
  then show ?case by (cases ys) auto
next
  case (Cons x xs)
  have "unat b div 16 < 16" "unat b mod 16 < 16" for b :: byte
    using unsigned_less [of b, where 'a = nat] by simp_all
  moreover have "unat x div 16 = unat y div 16 \<and> unat x mod 16 = unat y mod 16 \<longleftrightarrow> x = y" for y
    by (metis div_mult_mod_eq word_unat_eq_iff)
  ultimately show ?case
    using Cons by (cases ys) (auto simp: hex_digit_inject)
qed

lemma of_char_byte_inject: "(of_char c :: byte) = of_char d \<longleftrightarrow> c = d"
  by (metis char_of_char unat_of_char)

lemma plain_id_type: "c \<noteq> d \<Longrightarrow> plain_id (c # t) p \<noteq> plain_id (d # u) q"
  unfolding derive_object_id_def hex_encode_inject
  by (simp add: plain_crypto_def as_bytes_def of_char_byte_inject)

lemma plain_id_bytes: "length t < 20 \<Longrightarrow> n \<noteq> m \<Longrightarrow> plain_id t [n] \<noteq> plain_id t [m]"
  unfolding derive_object_id_def hex_encode_inject
  by (simp add: plain_crypto_def)

lemma plain_id_not_short: "length i \<noteq> 64 \<Longrightarrow> plain_id t p \<noteq> i"
  using derive_object_id_facts(2) [OF plain_crypto_ok] by metis

lemma sample_ids_distinct: "distinct [id_file, id_docs, id_root, id_snapshot, ''cc'']"
  by (simp add: id_snapshot_def id_root_def id_docs_def id_file_def plain_id_type plain_id_bytes plain_id_not_short)

lemma sample_typed:
  "get_typed_object plain_crypto sample_secrets id_snapshot (put_all sample_objects) = Inr \<lparr> loaded_type = ''snapshot'', loaded_plaintext = [0] \<rparr>"
  "get_typed_object plain_crypto sample_secrets id_root (put_all sample_objects) = Inr \<lparr> loaded_type = ''tree'', loaded_plaintext = [1] \<rparr>"
  "get_typed_object plain_crypto sample_secrets id_docs (put_all sample_objects) = Inr \<lparr> loaded_type = ''tree'', loaded_plaintext = [2] \<rparr>"
  "get_typed_object plain_crypto sample_secrets id_file (put_all sample_objects) = Inr \<lparr> loaded_type = ''file'', loaded_plaintext = [3] \<rparr>"
proof -
  have "distinct (map (\<lambda>(t, p). plain_id t p) sample_objects)"
    using sample_ids_distinct by (simp add: sample_objects_def id_snapshot_def id_root_def id_docs_def id_file_def)
  moreover have "\<forall>(t, p) \<in> set sample_objects. list_all ascii_char t \<and> length t < 256 \<and> length p + 36 < 2 ^ 64"
    by (simp add: sample_objects_def ascii_char_def)
  ultimately have stored: "\<forall>(t, p) \<in> set sample_objects. get_typed_object plain_crypto sample_secrets (plain_id t p)
      (put_all sample_objects) = Inr \<lparr> loaded_type = t, loaded_plaintext = p \<rparr>"
    using put_all_stored by blast
  then show
    "get_typed_object plain_crypto sample_secrets id_snapshot (put_all sample_objects) = Inr \<lparr> loaded_type = ''snapshot'', loaded_plaintext = [0] \<rparr>"
    "get_typed_object plain_crypto sample_secrets id_root (put_all sample_objects) = Inr \<lparr> loaded_type = ''tree'', loaded_plaintext = [1] \<rparr>"
    "get_typed_object plain_crypto sample_secrets id_docs (put_all sample_objects) = Inr \<lparr> loaded_type = ''tree'', loaded_plaintext = [2] \<rparr>"
    "get_typed_object plain_crypto sample_secrets id_file (put_all sample_objects) = Inr \<lparr> loaded_type = ''file'', loaded_plaintext = [3] \<rparr>"
    unfolding id_snapshot_def id_root_def id_docs_def id_file_def by (auto simp: sample_objects_def)
qed

lemmas sample_read_defs = read_snapshot_object_def read_stored_object_def get_object_def read_directory_object_def
  postcard_from_bytes_def read_file_object_flattened_def read_file_object_def validate_manifest_schema_version_def
  repo_format_version_def sample_manifest_def table_codec_def sample_typed

lemma sample_reads:
  "\<exists>sn. read_snapshot_object sample_manifest id_snapshot = Inr sn \<and> sn_root_tree_id sn = id_root"
  "read_directory_object sample_manifest id_root = Inr (Plain_Tree
     [\<lparr> te_name = ''docs'', te_kind = ''tree'', te_object_id = id_docs \<rparr>,
      \<lparr> te_name = ''x.txt'', te_kind = ''file'', te_object_id = id_file \<rparr>])"
  "read_directory_object sample_manifest id_docs = Inr (Plain_Tree
     [\<lparr> te_name = ''a.txt'', te_kind = ''file'', te_object_id = id_file \<rparr>])"
  "\<exists>f. read_file_object sample_manifest id_file = Inr f"
  "\<exists>f. read_file_object_flattened sample_manifest id_file = Inr f \<and> fo_chunks f = [''cc''] \<and> fo_shard_ids f = []"
  by (simp_all add: sample_read_defs)

text \<open>The sample's graph, and the run of the collection on it.\<close>

definition sample_nodes :: "node set" where
  "sample_nodes = {Dir id_root, Dir id_docs, File_Node id_file, Leaf ''cc''}"

lemma sample_children:
  "children sample_manifest (Dir id_root) = {Dir id_docs, File_Node id_file}"
  "children sample_manifest (Dir id_docs) = {File_Node id_file}"
  "children sample_manifest (File_Node id_file) = {Leaf ''cc''}"
  "children sample_manifest (Leaf i) = {}"
proof -
  obtain f where "read_file_object_flattened sample_manifest id_file = Inr f" "fo_chunks f = [''cc'']" "fo_shard_ids f = []"
    using sample_reads(5) by blast
  then show "children sample_manifest (File_Node id_file) = {Leaf ''cc''}" by (simp add: children_def)
qed (simp_all add: children_def sample_reads(2,3) entry_node_def)

lemma sample_reachable: "{n. reaches sample_manifest (Dir id_root) n} = sample_nodes"
proof (intro equalityI subsetI)
  fix n assume "n \<in> {n. reaches sample_manifest (Dir id_root) n}"
  moreover have "r = Dir id_root \<longrightarrow> n \<in> sample_nodes" if "reaches sample_manifest r n" for r n
    using that by (induction rule: leads.induct) (auto simp: sample_nodes_def sample_children)
  ultimately show "n \<in> sample_nodes" by simp
next
  have root: "reaches sample_manifest (Dir id_root) (Dir id_root)" by (rule leads_refl)
  have docs: "reaches sample_manifest (Dir id_root) (Dir id_docs)"
    by (rule leads_step [OF root]) (simp add: sample_children)
  have f: "reaches sample_manifest (Dir id_root) (File_Node id_file)"
    by (rule leads_step [OF root]) (simp add: sample_children)
  have "reaches sample_manifest (Dir id_root) (Leaf ''cc'')"
    by (rule leads_step [OF f]) (simp add: sample_children)
  with root docs f show "n \<in> sample_nodes \<Longrightarrow> n \<in> {n. reaches sample_manifest (Dir id_root) n}" for n
    by (auto simp: sample_nodes_def)
qed

lemma sample_cc_valid: "validate_object_id_value ''cc'' = Inr ()"
  by code_simp

lemma sample_collect:
  "collect_reachable_object_ids 5 sample_manifest id_snapshot = Some (Inr [id_snapshot, id_root, id_docs, id_file, ''cc''])"
proof -
  obtain sn where sn: "read_snapshot_object sample_manifest id_snapshot = Inr sn" "sn_root_tree_id sn = id_root"
    using sample_reads(1) by blast
  obtain f where f: "read_file_object_flattened sample_manifest id_file = Inr f" "fo_chunks f = [''cc'']" "fo_shard_ids f = []"
    using sample_reads(5) by blast
  have "id_file \<noteq> id_docs" "id_file \<noteq> id_root" "id_file \<noteq> id_snapshot" "id_docs \<noteq> id_root" "id_docs \<noteq> id_snapshot"
    "id_root \<noteq> id_snapshot" "''cc'' \<noteq> id_file" "''cc'' \<noteq> id_docs" "''cc'' \<noteq> id_root" "''cc'' \<noteq> id_snapshot"
    using sample_ids_distinct by auto
  then show ?thesis
    by (simp add: collect_reachable_object_ids_def sn f sample_reads(2,3) push_reachable_id_def eval_nat_numeral
        collect_file_entry_def sample_cc_valid sbind_def)
qed

theorem collect_reachable_closure_witness:
  "collect_reachable_object_ids 5 sample_manifest id_snapshot = Some (Inr [id_snapshot, id_root, id_docs, id_file, ''cc'']) \<and>
   set [id_snapshot, id_root, id_docs, id_file, ''cc''] =
     insert id_snapshot (node_id ` {n. reaches sample_manifest (Dir id_root) n})"
proof -
  obtain sn where sn: "read_snapshot_object sample_manifest id_snapshot = Inr sn" "sn_root_tree_id sn = id_root"
    using sample_reads(1) by blast
  have "n = Leaf i" if "reaches sample_manifest (Dir id_root) (Leaf i)" "reaches sample_manifest (Dir id_root) n" "node_id n = i" for i n
  proof -
    have "Leaf i \<in> sample_nodes" "n \<in> sample_nodes" using that(1,2) sample_reachable by auto
    with that(3) sample_ids_distinct show ?thesis by (auto simp: sample_nodes_def)
  qed
  then have "\<forall>i n. reaches sample_manifest (Dir (sn_root_tree_id sn)) (Leaf i) \<longrightarrow>
      reaches sample_manifest (Dir (sn_root_tree_id sn)) n \<longrightarrow> node_id n = i \<longrightarrow> n = Leaf i" by (simp add: sn)
  from collect_reachable_closure [OF sample_collect sn(1) this] sample_collect show ?thesis by (simp add: sn)
qed

theorem collect_reachable_terminates_witness:
  "collect_reachable_object_ids 5 sample_manifest id_snapshot \<noteq> None"
proof (rule collect_reachable_terminates)
  have "length (put_all objs) \<le> length objs" for objs
  proof (induction objs rule: rev_induct)
    case (snoc tp objs)
    obtain t p where tp: "tp = (t, p)" by (cases tp)
    have len: "length (bt_insert k v m) \<le> Suc (length m)" for k :: string and v :: "byte list" and m
      by (induction m) auto
    obtain fs' where put: "put_object plain_crypto sample_draw sample_secrets t p (put_all objs) = (Inr (plain_id t p), fs')"
      using plain_put by blast
    then have "length fs' \<le> Suc (length (put_all objs))" by (elim put_object_stored) (simp add: len)
    moreover have "put_all (objs @ [tp]) = fs'" using put by (simp add: put_all_def tp)
    ultimately show ?case using snoc by simp
  qed (simp add: put_all_def)
  from this [of sample_objects] show "length (ms_files sample_manifest) < 5"
    by (simp add: sample_manifest_def sample_objects_def)
qed

theorem walk_tree_lists_recursively_witness:
  "\<exists>k. \<forall>fuel \<ge> k. walk_tree fuel sample_manifest id_snapshot = Some (Inr
     [\<lparr> tw_path = ''docs/a.txt'', tw_kind = ''file'' \<rparr>, \<lparr> tw_path = ''x.txt'', tw_kind = ''file'' \<rparr>])"
proof -
  obtain sn where sn: "read_snapshot_object sample_manifest id_snapshot = Inr sn" "sn_root_tree_id sn = id_root"
    using sample_reads(1) by blast
  obtain f where f: "read_file_object sample_manifest id_file = Inr f" using sample_reads(4) by blast
  let ?es = "[\<lparr> te_name = ''docs'', te_kind = ''tree'', te_object_id = id_docs \<rparr>,
      \<lparr> te_name = ''x.txt'', te_kind = ''file'', te_object_id = id_file \<rparr>]"
  have root: "read_directory_entries sample_manifest (sn_root_tree_id sn) = Inr ?es"
    by (simp add: read_directory_entries_def sn sample_reads(2))
  have docs: "read_directory_entries sample_manifest id_docs =
      Inr [\<lparr> te_name = ''a.txt'', te_kind = ''file'', te_object_id = id_file \<rparr>]"
    by (simp add: read_directory_entries_def sample_reads(3))
  have "list_files 2 sample_manifest [] ?es = Some (Inr
     [\<lparr> tw_path = ''docs/a.txt'', tw_kind = ''file'' \<rparr>, \<lparr> tw_path = ''x.txt'', tw_kind = ''file'' \<rparr>])"
    by (simp add: eval_nat_numeral docs f child_path_def then_list_def)
  from walk_tree_lists_recursively [OF sn(1) root this] show ?thesis .
qed

end
