(* ===== verification/Working_Tree.thy ===== *)
theory Working_Tree
  imports Envelope
begin

text \<open>
  The path policy and the stable reads of the working tree (\<^verbatim>\<open>e2v-core/src/working_tree.rs\<close>).
  Unicode normalisation (NFC) and case folding are parameters; what is used of normalisation is
  \<open>nfc_ok\<close>. Directory listings, metadata and file contents are what a read returns, in a state
  that the environment may change between two reads.
\<close>

section \<open>Unicode, parameters of the model\<close>

definition nfc_ok :: "(string \<Rightarrow> string) \<Rightarrow> bool" where
  "nfc_ok nfc \<longleftrightarrow> (\<forall>s. nfc (nfc s) = nfc s) \<and> (\<forall>s. list_all ascii_char s \<longrightarrow> nfc s = s) \<and>
     (\<forall>s. slash \<notin> set s \<longrightarrow> slash \<notin> set (nfc s)) \<and> (\<forall>s. nfc s = [] \<longrightarrow> s = [])"

section \<open>The path policy\<close>

definition windows_reserved_names :: "string list" where
  "windows_reserved_names =
     [''CON'', ''PRN'', ''AUX'', ''NUL'', ''COM1'', ''COM2'', ''COM3'', ''COM4'', ''COM5'', ''COM6'', ''COM7'',
      ''COM8'', ''COM9'', ''LPT1'', ''LPT2'', ''LPT3'', ''LPT4'', ''LPT5'', ''LPT6'', ''LPT7'', ''LPT8'', ''LPT9'']"

definition to_ascii_uppercase :: "string \<Rightarrow> string" where
  "to_ascii_uppercase s = map (\<lambda>c. let n = (of_char c :: nat) in
     if 97 \<le> n \<and> n \<le> 122 then char_of (n - 32) else c) s"

definition ends_with :: "string \<Rightarrow> char \<Rightarrow> bool" where
  "ends_with s c = (s \<noteq> [] \<and> last s = c)"

definition validate_path_component :: "string \<Rightarrow> unit res" where
  "validate_path_component name =
     ensure (name \<noteq> []) (Bail ''path policy violation: empty path component'')
    (ensure (slash \<notin> set name) (Bail ''path policy violation: / is not allowed'')
    (ensure (CHR 0x00 \<notin> set name) (Bail ''path policy violation: NUL is not allowed'')
    (ensure (CHR ''<'' \<notin> set name \<and> CHR ''>'' \<notin> set name \<and> CHR '':'' \<notin> set name \<and> CHR 0x22 \<notin> set name \<and>
             CHR 0x5C \<notin> set name \<and> CHR ''|'' \<notin> set name \<and> CHR ''?'' \<notin> set name \<and> CHR ''*'' \<notin> set name)
       (Bail ''path policy violation: invalid portable-strict character'')
    (ensure (\<not> ends_with name (CHR '' '') \<and> \<not> ends_with name (CHR ''.''))
       (Bail ''path policy violation: trailing space or dot is not allowed'')
    (ensure (to_ascii_uppercase (hd (split_on (CHR ''.'') name)) \<notin> set windows_reserved_names)
       (Bail ''path policy violation: reserved Windows name'')
    (Inr ()))))))"

fun jail_components :: "string list \<Rightarrow> unit res" where
  "jail_components [] = Inr ()"
| "jail_components (component # rest) =
     ensure (component \<noteq> ''.'' \<and> component \<noteq> ''..'')
       (Bail ''path policy violation: checkout path escapes target root'')
     (rbind (validate_path_component component) (\<lambda>_. jail_components rest))"

definition path_jail_validate :: "string \<Rightarrow> unit res" where
  "path_jail_validate relative_path =
     (let normalized = trim_matches slash relative_path in
      if normalized = [] then Inr () else jail_components (split_on slash normalized))"

text \<open>A checkout path is the list of its names below the target directory.\<close>

fun push_components :: "string list \<Rightarrow> string list \<Rightarrow> string list res" where
  "push_components path [] = Inr path"
| "push_components path (component # rest) =
     rbind (validate_path_component component) (\<lambda>_. push_components (path @ [component]) rest)"

definition plan_checkout :: "string list \<Rightarrow> string \<Rightarrow> string list res" where
  "plan_checkout target_dir relative_path =
     rbind (path_jail_validate relative_path) (\<lambda>_.
     (let normalized = trim_matches slash relative_path in
      if normalized = [] then Inr target_dir
      else push_components target_dir (split_on slash normalized)))"

definition select_observed_checkout_name :: "(string \<Rightarrow> string) \<Rightarrow> string \<Rightarrow> string list \<Rightarrow> string res" where
  "select_observed_checkout_name nfc expected_name observed_names =
     ok_or (Bail ''file not found after publish'') (List.find (\<lambda>observed. nfc observed = nfc expected_name) observed_names)"

definition validate_checkout_read_back ::
  "(string \<Rightarrow> string) \<Rightarrow> (string \<Rightarrow> string) \<Rightarrow> string \<Rightarrow> string \<Rightarrow> unit res" where
  "validate_checkout_read_back nfc to_lowercase expected_name observed_name =
     ensure (to_lowercase (nfc expected_name) = to_lowercase (nfc observed_name))
       (Bail ''path policy violation: checkout read-back mismatch'') (Inr ())"

definition validate_case_fold_uniqueness :: "(string \<Rightarrow> string) \<Rightarrow> string \<Rightarrow> (string set, unit) prog" where
  "validate_case_fold_uniqueness to_lowercase normalized_name seen =
     (let folded = to_lowercase normalized_name in
      if folded \<in> seen then (Inl (Bail ''path policy violation: case-fold collision''), seen)
      else (Inr (), insert folded seen))"

section \<open>Scanning a directory\<close>

record working_tree_entry =
  wt_name :: string
  wt_raw_name :: string
  wt_is_dir :: bool

text \<open>The listing gives the raw names in the order of \<^verbatim>\<open>read_dir\<close>, each with whether it is a directory.\<close>

fun scan_entries ::
  "(string \<Rightarrow> string) \<Rightarrow> (string \<Rightarrow> string) \<Rightarrow> bool \<Rightarrow> working_tree_entry list \<Rightarrow> (string \<times> bool) list \<Rightarrow>
   (string set, working_tree_entry list) prog" where
  "scan_entries nfc to_lowercase skip_control entries [] = sret entries"
| "scan_entries nfc to_lowercase skip_control entries ((raw_name, is_dir) # listing) =
     (if skip_control \<and> (raw_name = ''.e2v'' \<or> raw_name = ''.e2v-checkout-mapping.json'')
      then scan_entries nfc to_lowercase skip_control entries listing
      else
        (let name = nfc raw_name in
         sbind (slift (validate_path_component name)) (\<lambda>_.
         sbind (validate_case_fold_uniqueness to_lowercase name) (\<lambda>_.
         scan_entries nfc to_lowercase skip_control
           (entries @ [\<lparr> wt_name = name, wt_raw_name = raw_name, wt_is_dir = is_dir \<rparr>]) listing))))"

definition scan_dir ::
  "(string \<Rightarrow> string) \<Rightarrow> (string \<Rightarrow> string) \<Rightarrow> bool \<Rightarrow> bool \<Rightarrow> (string \<times> bool) list \<Rightarrow> working_tree_entry list res" where
  "scan_dir nfc to_lowercase is_repo_root skip_control_dir listing =
     rbind (fst (scan_entries nfc to_lowercase (skip_control_dir \<and> is_repo_root) [] listing {}))
       (\<lambda>entries. Inr (sort_key wt_name entries))"

section \<open>Stable reads\<close>

text \<open>Times are nanoseconds since the epoch.\<close>

record file_metadata =
  md_len :: u64
  md_modified :: int
  md_created :: "int option"

definition validate_stable_metadata :: "file_metadata \<Rightarrow> file_metadata \<Rightarrow> unit res" where
  "validate_stable_metadata before_read after_read =
     ensure (before_read = after_read)
       (Bail ''stable read violation: file metadata changed during read'') (Inr ())"

text \<open>The loop makes as many attempts as its first argument says; \<open>last_error\<close> is that of the last one.\<close>

fun metadata_retry_loop ::
  "nat \<Rightarrow> error \<Rightarrow> ('s, file_metadata \<times> byte list \<times> file_metadata) prog \<Rightarrow> ('s, byte list) prog" where
  "metadata_retry_loop 0 last_error read_once = sfail last_error"
| "metadata_retry_loop (Suc n) last_error read_once =
     sbind read_once (\<lambda>(before_read, bytes, after_read).
     case validate_stable_metadata before_read after_read of
       Inr _ \<Rightarrow> sret bytes
     | Inl e \<Rightarrow> metadata_retry_loop n e read_once)"

definition read_with_metadata_retry ::
  "('s, file_metadata \<times> byte list \<times> file_metadata) prog \<Rightarrow> nat \<Rightarrow> ('s, byte list) prog" where
  "read_with_metadata_retry read_once max_attempts =
     metadata_retry_loop (max max_attempts 1) (Bail ''stable read violation'') read_once"

type_synonym volatile_read = "file_metadata \<times> byte list \<times> file_metadata \<times> byte list \<times> file_metadata"

fun volatile_retry_loop :: "nat \<Rightarrow> error \<Rightarrow> ('s, volatile_read) prog \<Rightarrow> ('s, byte list) prog" where
  "volatile_retry_loop 0 last_error read_once = sfail last_error"
| "volatile_retry_loop (Suc n) last_error read_once =
     sbind read_once (\<lambda>(before_read, first, after_first, second, after_second).
     if is_ok (validate_stable_metadata before_read after_first) \<and>
        is_ok (validate_stable_metadata after_first after_second) \<and> first = second
     then sret second
     else volatile_retry_loop n (Bail ''unstable input: volatile source retry budget exhausted'') read_once)"

definition read_volatile_with_retry :: "('s, volatile_read) prog \<Rightarrow> nat \<Rightarrow> ('s, byte list) prog" where
  "read_volatile_with_retry read_once max_attempts =
     volatile_retry_loop (max max_attempts 1) (Bail ''stable read violation'') read_once"

definition is_volatile_source :: "file_metadata \<Rightarrow> int \<Rightarrow> bool" where
  "is_volatile_source metadata now =
     (if md_modified metadata \<le> now then (now - md_modified metadata) div 1000000000 < 2 else True)"

definition large_file_snapshot_preference_bytes :: u64 where
  "large_file_snapshot_preference_bytes = 8 * 1024 * 1024"

definition should_prefer_snapshot :: "file_metadata \<Rightarrow> int \<Rightarrow> bool" where
  "should_prefer_snapshot metadata now =
     (large_file_snapshot_preference_bytes \<le> md_len metadata \<or> is_volatile_source metadata now)"

record stable_read_policy =
  metadata_retry_attempts :: nat
  volatile_retry_attempts :: nat

definition stable_read_policy_default :: stable_read_policy where
  "stable_read_policy_default = \<lparr> metadata_retry_attempts = 2, volatile_retry_attempts = 2 \<rparr>"

text \<open>
  \<^verbatim>\<open>open_stable_file\<close>: \<open>capture\<close> and \<open>read_file\<close> are the reads of the file's metadata and contents,
  \<open>now\<close> the clock, \<open>snapshot\<close> what the snapshot reader, when there is one, returns.
\<close>

definition open_stable_file ::
  "stable_read_policy \<Rightarrow> ('s, file_metadata) prog \<Rightarrow> ('s, byte list) prog \<Rightarrow> ('s, int) prog \<Rightarrow>
   ('s, byte list) prog option \<Rightarrow> ('s, byte list) prog" where
  "open_stable_file policy capture read_file now snapshot =
     sbind capture (\<lambda>before_read.
     sbind now (\<lambda>now1.
     sbind (if should_prefer_snapshot before_read now1
            then (case snapshot of
                    None \<Rightarrow> sret None
                  | Some reader \<Rightarrow> (\<lambda>s. case reader s of (Inr bytes, t) \<Rightarrow> (Inr (Some bytes), t) | (Inl e, t) \<Rightarrow> (Inr None, t)))
            else sret None) (\<lambda>from_snapshot.
     case from_snapshot of
       Some bytes \<Rightarrow> sret bytes
     | None \<Rightarrow>
         sbind now (\<lambda>now2.
         if is_volatile_source before_read now2 then
           read_volatile_with_retry
             (sbind capture (\<lambda>b. sbind read_file (\<lambda>first. sbind capture (\<lambda>a1.
              sbind read_file (\<lambda>second. sbind capture (\<lambda>a2. sret (b, first, a1, second, a2)))))))
             (volatile_retry_attempts policy)
         else
           read_with_metadata_retry
             (sbind capture (\<lambda>b. sbind read_file (\<lambda>bytes. sbind capture (\<lambda>a. sret (b, bytes, a)))))
             (metadata_retry_attempts policy)))))"

section \<open>Lemmas\<close>

lemma validate_path_component_Inr:
  assumes "validate_path_component name = Inr ()"
  shows "name \<noteq> []" "slash \<notin> set name" "name \<noteq> ''.''" "name \<noteq> ''..''"
  using assms by (auto simp: validate_path_component_def ends_with_def split: if_splits)

lemma jail_components_Inr:
  "jail_components cs = Inr () \<longleftrightarrow> (\<forall>c \<in> set cs. c \<noteq> ''.'' \<and> c \<noteq> ''..'' \<and> validate_path_component c = Inr ())"
  by (induction cs) (auto simp: rbind_Inr_iff)

lemma push_components_Inr: "push_components p cs = Inr q \<Longrightarrow> q = p @ cs"
  by (induction cs arbitrary: p) (fastforce simp: rbind_Inr_iff)+

end
