(* ===== verification/Overlay.thy ===== *)
theory Overlay
  imports Manifest Working_Tree
begin

text \<open>
  Writing an overlay of changes back to a branch (\<^verbatim>\<open>e2v-core/src/facade.rs\<close>): the virtual
  directory tree loaded from a snapshot, the changes applied to it, and the detection of
  conflicts when the branch has moved since the changes were made. A \<^verbatim>\<open>VirtualDirectory\<close> is a map
  from names to entries, and a method that takes \<^verbatim>\<open>&mut self\<close> is a state-passing function on it:
  what it did before an error stays done.
\<close>

section \<open>Changes and paths\<close>

datatype branch_overlay_change =
    UpsertFile string "byte list"
  | DeleteFile string
  | CreateDirectory string
  | DeleteDirectory string
  | Rename string string

definition normalize_snapshot_path :: "(string \<Rightarrow> string) \<Rightarrow> string \<Rightarrow> string" where
  "normalize_snapshot_path nfc path = join_with ''/'' (map nfc (split_on slash (trim_matches slash path)))"

definition validate_overlay_path :: "(string \<Rightarrow> string) \<Rightarrow> string \<Rightarrow> string res" where
  "validate_overlay_path nfc path =
     (let normalized = normalize_snapshot_path nfc path in
      ensure (normalized \<noteq> []) (Bail ''overlay path must not be empty'')
        (rbind (path_jail_validate normalized) (\<lambda>_. Inr normalized)))"

definition path_segments :: "string \<Rightarrow> string list" where
  "path_segments path = split_on slash path"

fun change_describe :: "branch_overlay_change \<Rightarrow> string" where
  "change_describe (UpsertFile path bytes) = ''upsert-file:'' @ path"
| "change_describe (DeleteFile path) = ''delete-file:'' @ path"
| "change_describe (CreateDirectory path) = ''create-directory:'' @ path"
| "change_describe (DeleteDirectory path) = ''delete-directory:'' @ path"
| "change_describe (Rename from_path to_path) = ''rename:'' @ from_path @ ''->'' @ to_path"

fun exact_conflict_paths :: "(string \<Rightarrow> string) \<Rightarrow> branch_overlay_change \<Rightarrow> string list" where
  "exact_conflict_paths nfc (UpsertFile path bytes) = [normalize_snapshot_path nfc path]"
| "exact_conflict_paths nfc (DeleteFile path) = [normalize_snapshot_path nfc path]"
| "exact_conflict_paths nfc (CreateDirectory path) = [normalize_snapshot_path nfc path]"
| "exact_conflict_paths nfc (DeleteDirectory path) = [normalize_snapshot_path nfc path]"
| "exact_conflict_paths nfc (Rename from_path to_path) =
     [normalize_snapshot_path nfc from_path, normalize_snapshot_path nfc to_path]"

lemma rsplit_once_shorter: "rsplit_once c s = Some (p, q) \<Longrightarrow> length p < length s"
  by (induction s arbitrary: p) (auto split: option.splits if_splits)

text \<open>The loop of \<^verbatim>\<open>ancestor_conflict_paths\<close>: the parent, its parent, and so on.\<close>

function parent_paths :: "string \<Rightarrow> string list" where
  "parent_paths path =
     (case rsplit_once slash path of None \<Rightarrow> [] | Some (parent, name) \<Rightarrow> parent # parent_paths parent)"
  by pat_completeness auto
termination by (relation "measure length") (auto dest: rsplit_once_shorter)

declare parent_paths.simps [simp del]

definition ancestor_conflict_paths :: "(string \<Rightarrow> string) \<Rightarrow> branch_overlay_change \<Rightarrow> string list" where
  "ancestor_conflict_paths nfc change =
     remdups_adj (sort (concat (map parent_paths (exact_conflict_paths nfc change))))"

section \<open>The virtual tree\<close>

datatype virtual_file_entry = Existing string | Staged "byte list" u64

datatype virtual_directory = VirtualDirectory (dir_entries: "(string \<times> virtual_entry) list")
  and virtual_entry = FileEntry virtual_file_entry | DirEntry virtual_directory

definition empty_directory :: virtual_directory where
  "empty_directory = VirtualDirectory []"

definition set_entry :: "string \<Rightarrow> virtual_entry \<Rightarrow> virtual_directory \<Rightarrow> virtual_directory" where
  "set_entry name entry d = VirtualDirectory (bt_insert name entry (dir_entries d))"

text \<open>Descending into a subdirectory: \<open>missing\<close> is the error when there is no such entry.\<close>

definition in_directory :: "error \<Rightarrow> string \<Rightarrow> (virtual_directory, 'a) prog \<Rightarrow> (virtual_directory, 'a) prog" where
  "in_directory missing name m d =
     (case map_of (dir_entries d) name of
        None \<Rightarrow> (Inl missing, d)
      | Some (FileEntry f) \<Rightarrow> (Inl (Bail ''parent path is not a directory''), d)
      | Some (DirEntry sub) \<Rightarrow> (case m sub of (r, sub') \<Rightarrow> (r, set_entry name (DirEntry sub') d)))"

fun create_directory_segments :: "string list \<Rightarrow> (virtual_directory, unit) prog" where
  "create_directory_segments [] = sfail (Bail ''overlay directory path must not be empty'')"
| "create_directory_segments [name] = (\<lambda>d.
     (case map_of (dir_entries d) name of
        Some (FileEntry f) \<Rightarrow> (Inl (Bail ''cannot create directory over file''), d)
      | Some (DirEntry sub) \<Rightarrow> (Inr (), d)
      | None \<Rightarrow> (Inr (), set_entry name (DirEntry empty_directory) d)))"
| "create_directory_segments (name # segment # segments) =
     in_directory (Bail ''parent directory does not exist'') name
       (create_directory_segments (segment # segments))"

fun upsert_file_segments :: "u64 \<Rightarrow> byte list \<Rightarrow> string list \<Rightarrow> (virtual_directory, unit) prog" where
  "upsert_file_segments now bytes [] = sfail (Bail ''overlay file path must not be empty'')"
| "upsert_file_segments now bytes [name] = (\<lambda>d.
     (case map_of (dir_entries d) name of
        Some (DirEntry sub) \<Rightarrow> (Inl (Bail ''cannot replace directory with file''), d)
      | _ \<Rightarrow> (Inr (), set_entry name (FileEntry (Staged bytes now)) d)))"
| "upsert_file_segments now bytes (name # segment # segments) =
     in_directory (Bail ''parent directory does not exist'') name
       (upsert_file_segments now bytes (segment # segments))"

fun remove_entry_segments :: "string list \<Rightarrow> (virtual_directory, virtual_entry) prog" where
  "remove_entry_segments [] = sfail (Bail ''overlay path must not be empty'')"
| "remove_entry_segments [name] = (\<lambda>d.
     (case map_of (dir_entries d) name of
        None \<Rightarrow> (Inl (Bail ''overlay path not found''), d)
      | Some entry \<Rightarrow> (Inr entry, VirtualDirectory (bt_remove name (dir_entries d)))))"
| "remove_entry_segments (name # segment # segments) =
     in_directory (Bail ''overlay path not found'') name (remove_entry_segments (segment # segments))"

fun insert_entry_segments :: "virtual_entry \<Rightarrow> string list \<Rightarrow> (virtual_directory, unit) prog" where
  "insert_entry_segments entry [] = sfail (Bail ''overlay path must not be empty'')"
| "insert_entry_segments entry [name] = (\<lambda>d.
     (case map_of (dir_entries d) name of
        Some e \<Rightarrow> (Inl (Bail ''overlay target already exists''), d)
      | None \<Rightarrow> (Inr (), set_entry name entry d)))"
| "insert_entry_segments entry (name # segment # segments) =
     in_directory (Bail ''parent directory does not exist'') name
       (insert_entry_segments entry (segment # segments))"

definition create_directory :: "string \<Rightarrow> (virtual_directory, unit) prog" where
  "create_directory path = create_directory_segments (path_segments path)"

definition upsert_file :: "u64 \<Rightarrow> string \<Rightarrow> byte list \<Rightarrow> (virtual_directory, unit) prog" where
  "upsert_file now path bytes = upsert_file_segments now bytes (path_segments path)"

definition delete_file :: "string \<Rightarrow> (virtual_directory, unit) prog" where
  "delete_file path =
     sbind (remove_entry_segments (path_segments path)) (\<lambda>removed.
     case removed of FileEntry f \<Rightarrow> sret () | DirEntry d \<Rightarrow> sfail (Bail ''path is a directory''))"

definition delete_directory :: "string \<Rightarrow> (virtual_directory, unit) prog" where
  "delete_directory path =
     sbind (remove_entry_segments (path_segments path)) (\<lambda>removed.
     case removed of
       DirEntry d \<Rightarrow> if dir_entries d = [] then sret () else sfail (Bail ''directory is not empty'')
     | FileEntry f \<Rightarrow> sfail (Bail ''path is not a directory''))"

definition rename_entry :: "string \<Rightarrow> string \<Rightarrow> (virtual_directory, unit) prog" where
  "rename_entry from_path to_path =
     sbind (remove_entry_segments (path_segments from_path)) (\<lambda>entry.
     insert_entry_segments entry (path_segments to_path))"

text \<open>\<open>clock n\<close> is what \<^verbatim>\<open>current_unix_time_ms\<close> returns when the \<open>n\<close>th change stages a file.\<close>

fun apply_overlay_change :: "(string \<Rightarrow> string) \<Rightarrow> u64 \<Rightarrow> branch_overlay_change \<Rightarrow> (virtual_directory, unit) prog" where
  "apply_overlay_change nfc now (UpsertFile path bytes) =
     sbind (slift (validate_overlay_path nfc path)) (\<lambda>p. upsert_file now p bytes)"
| "apply_overlay_change nfc now (DeleteFile path) =
     sbind (slift (validate_overlay_path nfc path)) delete_file"
| "apply_overlay_change nfc now (CreateDirectory path) =
     sbind (slift (validate_overlay_path nfc path)) create_directory"
| "apply_overlay_change nfc now (DeleteDirectory path) =
     sbind (slift (validate_overlay_path nfc path)) delete_directory"
| "apply_overlay_change nfc now (Rename from_path to_path) =
     sbind (slift (validate_overlay_path nfc from_path)) (\<lambda>p.
     sbind (slift (validate_overlay_path nfc to_path)) (\<lambda>q. rename_entry p q))"

fun apply_overlay_changes ::
  "(string \<Rightarrow> string) \<Rightarrow> (nat \<Rightarrow> u64) \<Rightarrow> branch_overlay_change list \<Rightarrow> (virtual_directory, unit) prog" where
  "apply_overlay_changes nfc clock [] = sret ()"
| "apply_overlay_changes nfc clock (change # changes) =
     sbind (apply_overlay_change nfc (clock 0) change) (\<lambda>_.
     apply_overlay_changes nfc (\<lambda>n. clock (Suc n)) changes)"

section \<open>Loading a snapshot\<close>

fun load_virtual_entries ::
  "(string \<Rightarrow> virtual_directory res option) \<Rightarrow> tree_entry list \<Rightarrow> (string \<times> virtual_entry) list \<Rightarrow>
   virtual_directory res option" where
  "load_virtual_entries load [] entries = Some (Inr (VirtualDirectory entries))"
| "load_virtual_entries load (entry # rest) entries =
     (if te_kind entry = ''file'' then
        load_virtual_entries load rest (bt_insert (te_name entry) (FileEntry (Existing (te_object_id entry))) entries)
      else if te_kind entry = ''tree'' then
        (case load (te_object_id entry) of
           None \<Rightarrow> None
         | Some (Inl e) \<Rightarrow> Some (Inl e)
         | Some (Inr d) \<Rightarrow> load_virtual_entries load rest (bt_insert (te_name entry) (DirEntry d) entries))
      else Some (Inl (Bail ''unsupported manifest entry kind'')))"

primrec load_virtual_directory :: "nat \<Rightarrow> manifest_store \<Rightarrow> string \<Rightarrow> virtual_directory res option" where
  "load_virtual_directory 0 M = (\<lambda>tree_id. None)"
| "load_virtual_directory (Suc fuel) M = (\<lambda>tree_id.
     (case get_tree_node M tree_id of
        Inl e \<Rightarrow> Some (Inl e)
      | Inr tree \<Rightarrow> load_virtual_entries (load_virtual_directory fuel M) (tr_entries tree) []))"

definition load_virtual_directory_from_snapshot ::
  "nat \<Rightarrow> manifest_store \<Rightarrow> string option \<Rightarrow> virtual_directory res option" where
  "load_virtual_directory_from_snapshot fuel M snapshot_id =
     (case snapshot_id of
        None \<Rightarrow> Some (Inr empty_directory)
      | Some s \<Rightarrow>
          (case get_snapshot M s of
             Inl e \<Rightarrow> Some (Inl e)
           | Inr snapshot \<Rightarrow> load_virtual_directory fuel M (sn_root_tree_id snapshot)))"

section \<open>Conflicts\<close>

datatype snapshot_path_state = Missing_Path | File_Path string | Directory_Path string

fun state_describe :: "snapshot_path_state \<Rightarrow> string" where
  "state_describe Missing_Path = ''missing''"
| "state_describe (File_Path object_id) = ''file:'' @ object_id"
| "state_describe (Directory_Path tree_id) = ''directory:'' @ tree_id"

fun kind_label :: "snapshot_path_state \<Rightarrow> string" where
  "kind_label Missing_Path = ''missing''"
| "kind_label (File_Path object_id) = ''file''"
| "kind_label (Directory_Path tree_id) = ''directory''"

fun path_state_below :: "manifest_store \<Rightarrow> string \<Rightarrow> string list \<Rightarrow> snapshot_path_state res" where
  "path_state_below M tree_id [] = Inr Missing_Path"
| "path_state_below M tree_id (segment # segments) =
     rbind (get_tree_node M tree_id) (\<lambda>tree.
     (case List.find (\<lambda>entry. te_name entry = segment) (tr_entries tree) of
        None \<Rightarrow> Inr Missing_Path
      | Some entry \<Rightarrow>
          if segments = [] then
            (if te_kind entry = ''file'' then Inr (File_Path (te_object_id entry))
             else if te_kind entry = ''tree'' then Inr (Directory_Path (te_object_id entry))
             else Inl (Bail ''unsupported manifest entry kind''))
          else if te_kind entry \<noteq> ''tree'' then Inr Missing_Path
          else path_state_below M (te_object_id entry) segments))"

definition snapshot_path_state ::
  "(string \<Rightarrow> string) \<Rightarrow> manifest_store \<Rightarrow> string option \<Rightarrow> string \<Rightarrow> snapshot_path_state res" where
  "snapshot_path_state nfc M snapshot_id path =
     (let normalized = normalize_snapshot_path nfc path in
      if normalized = [] then
        (case snapshot_id of
           Some s \<Rightarrow> rbind (get_snapshot M s) (\<lambda>snapshot. Inr (Directory_Path (sn_root_tree_id snapshot)))
         | None \<Rightarrow> Inr (Directory_Path ''__empty_root__''))
      else
        (case snapshot_id of
           None \<Rightarrow> Inr Missing_Path
         | Some s \<Rightarrow> rbind (get_snapshot M s) (\<lambda>snapshot.
             path_state_below M (sn_root_tree_id snapshot) (split_on slash normalized))))"

definition ancestor_transition_conflicts :: "snapshot_path_state \<Rightarrow> snapshot_path_state \<Rightarrow> bool" where
  "ancestor_transition_conflicts base_state current_state =
     (let l = kind_label base_state; r = kind_label current_state in
      if (l, r) \<in> {(''directory'', ''directory''), (''missing'', ''missing''), (''missing'', ''directory'')} then False
      else l \<noteq> r)"

record conflict_entry =
  ce_path :: string
  ce_conflict_kind :: string
  ce_base_state :: string
  ce_current_state :: string
  ce_overlay_change :: string

type_synonym conflict_scan = "conflict_entry list \<times> (string \<times> string) set"

definition conflict_at ::
  "(string \<Rightarrow> string) \<Rightarrow> manifest_store \<Rightarrow> string option \<Rightarrow> string option \<Rightarrow>
   (snapshot_path_state \<Rightarrow> snapshot_path_state \<Rightarrow> bool) \<Rightarrow> string \<Rightarrow> branch_overlay_change \<Rightarrow> string \<Rightarrow>
   (conflict_scan, unit) prog" where
  "conflict_at nfc M expected current_head differs kind change path scan =
     (case snapshot_path_state nfc M expected path of
        Inl e \<Rightarrow> (Inl e, scan)
      | Inr base_state \<Rightarrow>
          (case snapshot_path_state nfc M current_head path of
             Inl e \<Rightarrow> (Inl e, scan)
           | Inr current_state \<Rightarrow>
               (case scan of (conflicts, seen) \<Rightarrow>
                  if differs base_state current_state \<and> (path, kind) \<notin> seen then
                    (Inr (), (conflicts @ [\<lparr> ce_path = path, ce_conflict_kind = kind,
                        ce_base_state = state_describe base_state, ce_current_state = state_describe current_state,
                        ce_overlay_change = change_describe change \<rparr>], insert (path, kind) seen))
                  else (Inr (), scan))))"

fun detect_conflicts_loop ::
  "(string \<Rightarrow> string) \<Rightarrow> manifest_store \<Rightarrow> string option \<Rightarrow> string option \<Rightarrow> branch_overlay_change list \<Rightarrow>
   (conflict_scan, unit) prog" where
  "detect_conflicts_loop nfc M expected current_head [] = sret ()"
| "detect_conflicts_loop nfc M expected current_head (change # changes) =
     sbind (for_each (conflict_at nfc M expected current_head (\<noteq>) ''path-changed'' change)
              (exact_conflict_paths nfc change)) (\<lambda>_.
     sbind (for_each (conflict_at nfc M expected current_head ancestor_transition_conflicts ''ancestor-changed'' change)
              (ancestor_conflict_paths nfc change)) (\<lambda>_.
     detect_conflicts_loop nfc M expected current_head changes))"

definition detect_branch_overlay_conflicts ::
  "(string \<Rightarrow> string) \<Rightarrow> manifest_store \<Rightarrow> string option \<Rightarrow> string option \<Rightarrow> branch_overlay_change list \<Rightarrow>
   conflict_entry list res" where
  "detect_branch_overlay_conflicts nfc M expected current_head changes =
     (case detect_conflicts_loop nfc M expected current_head changes ([], {}) of
        (Inl e, scan) \<Rightarrow> Inl e
      | (Inr _, conflicts, seen) \<Rightarrow> Inr conflicts)"

end
