(* ===== verification/Overlay_Proofs.thy ===== *)
theory Overlay_Proofs
  imports Overlay "HOL-Library.Sublist"
begin

text \<open>
  Lemmas on the virtual tree: every method that changes it is an edit of the entry at a path,
  and an edit changes nothing that is not at, below or above that path.
\<close>

section \<open>Looking up a path\<close>

fun get_entry :: "virtual_entry \<Rightarrow> string list \<Rightarrow> virtual_entry option" where
  "get_entry e [] = Some e"
| "get_entry (FileEntry f) (n # ns) = None"
| "get_entry (DirEntry d) (n # ns) =
     (case map_of (dir_entries d) n of None \<Rightarrow> None | Some e \<Rightarrow> get_entry e ns)"

definition is_dir :: "virtual_entry option \<Rightarrow> bool" where
  "is_dir e = (\<exists>d. e = Some (DirEntry d))"

lemma is_dir_simps [simp]: "\<not> is_dir None" "is_dir (Some (DirEntry d))" "\<not> is_dir (Some (FileEntry f))"
  by (simp_all add: is_dir_def)

text \<open>Every directory of the tree is a sorted map.\<close>

inductive tree_ok :: "virtual_entry \<Rightarrow> bool" where
  tree_ok_file: "tree_ok (FileEntry f)"
| tree_ok_dir: "bt_ok (dir_entries d) \<Longrightarrow> (\<And>n e. map_of (dir_entries d) n = Some e \<Longrightarrow> tree_ok e) \<Longrightarrow> tree_ok (DirEntry d)"

inductive_simps tree_ok_simps [simp]: "tree_ok (FileEntry f)" "tree_ok (DirEntry d)"

lemma tree_ok_child: "tree_ok (DirEntry d) \<Longrightarrow> map_of (dir_entries d) n = Some e \<Longrightarrow> tree_ok e"
  by simp

lemma get_entry_append:
  "get_entry e (p @ q) = (case get_entry e p of None \<Rightarrow> None | Some e' \<Rightarrow> get_entry e' q)"
  by (induction e p rule: get_entry.induct) (auto split: option.splits)

lemma get_entry_Cons:
  "get_entry (DirEntry d) (n # ns) = (case map_of (dir_entries d) n of None \<Rightarrow> None | Some e \<Rightarrow> get_entry e ns)"
  by simp

lemma tree_ok_get: "tree_ok e \<Longrightarrow> get_entry e p = Some e' \<Longrightarrow> tree_ok e'"
  by (induction e p rule: get_entry.induct) (auto split: option.splits)

lemma get_entry_set_entry:
  "bt_ok (dir_entries d) \<Longrightarrow> get_entry (DirEntry (set_entry n e d)) (m # ms) =
     (if m = n then get_entry e ms else get_entry (DirEntry d) (m # ms))"
  by (simp add: set_entry_def map_of_bt_insert)

section \<open>Edits\<close>

definition put_back :: "string \<Rightarrow> virtual_entry option \<Rightarrow> virtual_directory \<Rightarrow> virtual_directory" where
  "put_back n e d = (case e of None \<Rightarrow> VirtualDirectory (bt_remove n (dir_entries d)) | Some e' \<Rightarrow> set_entry n e' d)"

text \<open>\<open>edit missing f p\<close>: the entry at \<open>p\<close>, if any, is replaced as \<open>f\<close> says, in an existing parent.\<close>

fun edit :: "error \<Rightarrow> (virtual_entry option \<Rightarrow> 'a res \<times> virtual_entry option) \<Rightarrow> string list \<Rightarrow> (virtual_directory, 'a) prog" where
  "edit missing f [] = sfail missing"
| "edit missing f [n] = (\<lambda>d. case f (map_of (dir_entries d) n) of (r, e) \<Rightarrow> (r, put_back n e d))"
| "edit missing f (n # m # ms) = in_directory missing n (edit missing f (m # ms))"

lemma bt_insert_same: "bt_ok m \<Longrightarrow> map_of m k = Some v \<Longrightarrow> bt_insert k v m = m"
  by (rule bt_eqI) (auto simp: map_of_bt_insert)

lemma bt_remove_absent: "map_of m k = None \<Longrightarrow> bt_remove k m = m"
  by (auto simp: bt_remove_def map_of_eq_None_iff filter_id_conv)

lemma put_back_same: "bt_ok (dir_entries d) \<Longrightarrow> put_back n (map_of (dir_entries d) n) d = d"
  by (cases d) (auto simp: put_back_def set_entry_def bt_insert_same bt_remove_absent split: option.splits)

lemma bt_ok_put_back: "bt_ok (dir_entries d) \<Longrightarrow> bt_ok (dir_entries (put_back n e d))"
  by (auto simp: put_back_def set_entry_def split: option.splits)

lemma map_of_put_back: "bt_ok (dir_entries d) \<Longrightarrow> map_of (dir_entries (put_back n e d)) = (map_of (dir_entries d))(n := e)"
  by (auto simp: put_back_def set_entry_def map_of_bt_insert map_of_bt_remove split: option.splits)

lemma set_entry_put_back: "set_entry n e d = put_back n (Some e) d"
  by (simp add: put_back_def)

text \<open>What the edit does at its path, and what it leaves alone.\<close>

definition after :: "virtual_entry option \<Rightarrow> string list \<Rightarrow> virtual_entry option" where
  "after e q = (case e of None \<Rightarrow> None | Some e' \<Rightarrow> get_entry e' q)"

lemma edit_effect:
  assumes "tree_ok (DirEntry d)" "p \<noteq> []"
    and "\<And>e. pred_option tree_ok e \<Longrightarrow> pred_option tree_ok (snd (f e))"
  shows "if is_dir (get_entry (DirEntry d) (butlast p))
    then fst (edit missing f p d) = fst (f (get_entry (DirEntry d) p)) \<and>
      tree_ok (DirEntry (snd (edit missing f p d))) \<and>
      (\<forall>q. get_entry (DirEntry (snd (edit missing f p d))) (p @ q) = after (snd (f (get_entry (DirEntry d) p))) q)
    else (\<exists>err. fst (edit missing f p d) = Inl err) \<and> snd (edit missing f p d) = d"
  using assms(1,2)
proof (induction p arbitrary: d)
  case (Cons n ns)
  have ok: "bt_ok (dir_entries d)" using Cons.prems(1) by simp
  show ?case
  proof (cases ns)
    case Nil
    have opt: "pred_option tree_ok (map_of (dir_entries d) n)"
      using Cons.prems(1) by (cases "map_of (dir_entries d) n") auto
    obtain r e where f: "f (map_of (dir_entries d) n) = (r, e)" by fastforce
    have e: "pred_option tree_ok e" using assms(3) [OF opt] by (simp add: f)
    have sub: "tree_ok (DirEntry (put_back n e d))"
      using Cons.prems(1) e ok
      by (auto simp: bt_ok_put_back map_of_put_back pred_option_def split: if_splits)
    have "get_entry (DirEntry d) [n] = map_of (dir_entries d) n" by (simp split: option.split)
    with sub show ?thesis
      by (auto simp: Nil f map_of_put_back ok after_def)
  next
    case (Cons m ms)
    show ?thesis
    proof (cases "map_of (dir_entries d) n")
      case None
      then show ?thesis by (simp add: local.Cons in_directory_def)
    next
      case (Some e)
      show ?thesis
      proof (cases e)
        case (FileEntry x)
        then show ?thesis
          using Some by (cases "butlast (m # ms)") (simp_all add: local.Cons in_directory_def)
      next
        case (DirEntry sub)
        have subok: "tree_ok (DirEntry sub)" using tree_ok_child [OF Cons.prems(1) Some] DirEntry by blast
        obtain r sub' where run: "edit missing f (m # ms) sub = (r, sub')" by fastforce
        note ih = Cons.IH [OF subok, unfolded local.Cons run, simplified]
        have run': "edit missing f (n # m # ms) d = (r, set_entry n (DirEntry sub') d)"
          by (simp add: in_directory_def Some DirEntry run)
        have path: "get_entry (DirEntry d) (butlast (n # m # ms)) = get_entry (DirEntry sub) (butlast (m # ms))"
          "get_entry (DirEntry d) (n # m # ms) = get_entry (DirEntry sub) (m # ms)"
          by (simp_all add: Some DirEntry)
        show ?thesis
        proof (cases "is_dir (get_entry (DirEntry sub) (butlast (m # ms)))")
          case True
          with ih have ih': "r = fst (f (get_entry (DirEntry sub) (m # ms)))" "tree_ok (DirEntry sub')"
            "\<And>q. get_entry (DirEntry sub') (m # ms @ q) = after (snd (f (get_entry (DirEntry sub) (m # ms)))) q"
            by (simp_all split: if_splits)
          have "tree_ok (DirEntry (set_entry n (DirEntry sub') d))"
            using Cons.prems(1) ih'(2) ok
            by (auto simp: set_entry_put_back bt_ok_put_back map_of_put_back split: if_splits)
          with True ih' ok show ?thesis
            unfolding local.Cons path run' by (simp add: set_entry_def map_of_bt_insert)
        next
          case False
          with ih have "\<exists>err. r = Inl err" "sub' = sub" by (simp_all split: if_splits)
          with False ok Some DirEntry show ?thesis
            unfolding local.Cons path run'
            by (cases d) (auto simp: set_entry_def bt_insert_same)
        qed
      qed
    qed
  qed
qed simp

text \<open>Paths that are not at, below or above the path of the edit.\<close>

lemma edit_frame:
  assumes "tree_ok (DirEntry d)" "\<not> prefix p q" "\<not> prefix q p"
  shows "get_entry (DirEntry (snd (edit missing f p d))) q = get_entry (DirEntry d) q"
  using assms
proof (induction missing f p arbitrary: d q rule: edit.induct)
  case (2 missing f n)
  obtain m ms where q: "q = m # ms" using "2.prems"(3) by (cases q) auto
  have "m \<noteq> n" using "2.prems"(2) by (auto simp: q)
  then show ?case
    using "2.prems"(1) by (auto simp: q map_of_put_back split: prod.splits)
next
  case (3 missing f n m ms)
  obtain k ks where q: "q = k # ks" using "3.prems"(3) by (cases q) auto
  have ok: "bt_ok (dir_entries d)" using "3.prems"(1) by simp
  show ?case
  proof (cases "map_of (dir_entries d) n")
    case (Some e)
    show ?thesis
    proof (cases e)
      case (DirEntry sub)
      have sub: "tree_ok (DirEntry sub)" using tree_ok_child [OF "3.prems"(1) Some] DirEntry by blast
      obtain r sub' where run: "edit missing f (m # ms) sub = (r, sub')" by fastforce
      show ?thesis
      proof (cases "k = n")
        case True
        with "3.prems" q have "\<not> prefix (m # ms) ks" "\<not> prefix ks (m # ms)" by auto
        from "3.IH" [OF sub this] True show ?thesis
          by (simp add: in_directory_def Some DirEntry run q set_entry_def map_of_bt_insert ok)
      next
        case False
        then show ?thesis
          by (simp add: in_directory_def Some DirEntry run q set_entry_def map_of_bt_insert ok)
      qed
    qed (simp add: in_directory_def Some)
  qed (simp add: in_directory_def)
qed auto

text \<open>A directory above the path of the edit has the edit done in it.\<close>

lemma edit_above:
  assumes "tree_ok (DirEntry d)" "get_entry (DirEntry d) q = Some (DirEntry sub)" "r \<noteq> []"
  shows "get_entry (DirEntry (snd (edit missing f (q @ r) d))) q = Some (DirEntry (snd (edit missing f r sub)))"
  using assms(1,2)
proof (induction q arbitrary: d)
  case (Cons n ns)
  obtain m ms where nr: "ns @ r = m # ms" using assms(3) by (cases "ns @ r") auto
  from Cons.prems(2) obtain e where e: "map_of (dir_entries d) n = Some e" "get_entry e ns = Some (DirEntry sub)"
    by (auto split: option.splits)
  have "\<exists>sub'. e = DirEntry sub'" using e(2) assms(3) by (cases e; cases ns) auto
  then obtain sub' where sub': "e = DirEntry sub'" ..
  have ok: "bt_ok (dir_entries d)" using Cons.prems(1) by simp
  have subok: "tree_ok (DirEntry sub')" using tree_ok_child [OF Cons.prems(1) e(1)] sub' by blast
  obtain x sub'' where run: "edit missing f (m # ms) sub' = (x, sub'')" by fastforce
  have "edit missing f ((n # ns) @ r) d = (x, set_entry n (DirEntry sub'') d)"
    by (simp add: nr in_directory_def e(1) sub' run)
  moreover have "get_entry (DirEntry sub'') ns = Some (DirEntry (snd (edit missing f r sub)))"
    using Cons.IH [OF subok] e(2) sub' run by (simp add: nr)
  ultimately show ?case by (simp add: set_entry_def map_of_bt_insert ok)
qed simp

section \<open>The methods are edits\<close>

definition create_edit :: "virtual_entry option \<Rightarrow> unit res \<times> virtual_entry option" where
  "create_edit e = (case e of
     Some (FileEntry f) \<Rightarrow> (Inl (Bail ''cannot create directory over file''), e)
   | Some (DirEntry sub) \<Rightarrow> (Inr (), e)
   | None \<Rightarrow> (Inr (), Some (DirEntry empty_directory)))"

definition upsert_edit :: "u64 \<Rightarrow> byte list \<Rightarrow> virtual_entry option \<Rightarrow> unit res \<times> virtual_entry option" where
  "upsert_edit now bytes e = (case e of
     Some (DirEntry sub) \<Rightarrow> (Inl (Bail ''cannot replace directory with file''), e)
   | _ \<Rightarrow> (Inr (), Some (FileEntry (Staged bytes now))))"

definition remove_edit :: "virtual_entry option \<Rightarrow> virtual_entry res \<times> virtual_entry option" where
  "remove_edit e = (case e of None \<Rightarrow> (Inl (Bail ''overlay path not found''), None) | Some x \<Rightarrow> (Inr x, None))"

definition insert_edit :: "virtual_entry \<Rightarrow> virtual_entry option \<Rightarrow> unit res \<times> virtual_entry option" where
  "insert_edit x e = (case e of Some y \<Rightarrow> (Inl (Bail ''overlay target already exists''), e) | None \<Rightarrow> (Inr (), Some x))"

lemmas edit_defs = create_edit_def upsert_edit_def remove_edit_def insert_edit_def

lemma put_back_unchanged: "bt_ok (dir_entries d) \<Longrightarrow> map_of (dir_entries d) n = e \<Longrightarrow> put_back n e d = d"
  using put_back_same by blast

lemma in_directory_cong:
  assumes "tree_ok (DirEntry d)" "\<And>sub. tree_ok (DirEntry sub) \<Longrightarrow> m sub = m' sub"
  shows "in_directory missing n m d = in_directory missing n m' d"
  using assms(2) tree_ok_child [OF assms(1), of n]
  by (auto simp: in_directory_def split: option.splits virtual_entry.splits)

lemma create_is_edit:
  "tree_ok (DirEntry d) \<Longrightarrow> p \<noteq> [] \<Longrightarrow>
     create_directory_segments p d = edit (Bail ''parent directory does not exist'') create_edit p d"
proof (induction p arbitrary: d rule: create_directory_segments.induct)
  case (2 n)
  then have "bt_ok (dir_entries d)" by simp
  then show ?case
    by (auto simp: create_edit_def put_back_unchanged set_entry_put_back split: option.splits virtual_entry.splits)
next
  case (3 n m ms)
  then show ?case by (simp only: create_directory_segments.simps edit.simps) (intro in_directory_cong; simp)
qed simp

lemma upsert_is_edit:
  "tree_ok (DirEntry d) \<Longrightarrow> p \<noteq> [] \<Longrightarrow>
     upsert_file_segments now bytes p d = edit (Bail ''parent directory does not exist'') (upsert_edit now bytes) p d"
proof (induction now bytes p arbitrary: d rule: upsert_file_segments.induct)
  case (2 now bytes n)
  then have "bt_ok (dir_entries d)" by simp
  then show ?case
    by (auto simp: upsert_edit_def put_back_unchanged set_entry_put_back split: option.splits virtual_entry.splits)
next
  case (3 now bytes n m ms)
  then show ?case by (simp only: upsert_file_segments.simps edit.simps) (intro in_directory_cong; simp)
qed simp

lemma remove_is_edit:
  "tree_ok (DirEntry d) \<Longrightarrow> p \<noteq> [] \<Longrightarrow>
     remove_entry_segments p d = edit (Bail ''overlay path not found'') remove_edit p d"
proof (induction p arbitrary: d rule: remove_entry_segments.induct)
  case (2 n)
  then have "bt_ok (dir_entries d)" by simp
  then show ?case
    by (auto simp: remove_edit_def put_back_unchanged split: option.splits) (simp add: put_back_def)
next
  case (3 n m ms)
  then show ?case by (simp only: remove_entry_segments.simps edit.simps) (intro in_directory_cong; simp)
qed simp

lemma insert_is_edit:
  "tree_ok (DirEntry d) \<Longrightarrow> p \<noteq> [] \<Longrightarrow>
     insert_entry_segments x p d = edit (Bail ''parent directory does not exist'') (insert_edit x) p d"
proof (induction x p arbitrary: d rule: insert_entry_segments.induct)
  case (2 x n)
  then have "bt_ok (dir_entries d)" by simp
  then show ?case
    by (auto simp: insert_edit_def put_back_unchanged set_entry_put_back split: option.splits)
next
  case (3 x n m ms)
  then show ?case by (simp only: insert_entry_segments.simps edit.simps) (intro in_directory_cong; simp)
qed simp

lemmas methods_are_edits = create_is_edit upsert_is_edit remove_is_edit insert_is_edit

lemma edits_ok:
  "pred_option tree_ok e \<Longrightarrow> pred_option tree_ok (snd (create_edit e))"
  "pred_option tree_ok e \<Longrightarrow> pred_option tree_ok (snd (upsert_edit now bytes e))"
  "pred_option tree_ok e \<Longrightarrow> pred_option tree_ok (snd (remove_edit e))"
  "tree_ok x \<Longrightarrow> pred_option tree_ok e \<Longrightarrow> pred_option tree_ok (snd (insert_edit x e))"
  by (auto simp: edit_defs empty_directory_def split: option.splits virtual_entry.splits)

text \<open>An edit that succeeds: what it found, and what it left.\<close>

lemma edit_Inr:
  assumes "tree_ok (DirEntry d)" "p \<noteq> []" "edit missing f p d = (Inr x, d')"
    and "\<And>e. pred_option tree_ok e \<Longrightarrow> pred_option tree_ok (snd (f e))"
  shows "is_dir (get_entry (DirEntry d) (butlast p))" "fst (f (get_entry (DirEntry d) p)) = Inr x"
    "tree_ok (DirEntry d')" "get_entry (DirEntry d') (p @ q) = after (snd (f (get_entry (DirEntry d) p))) q"
  using edit_effect [OF assms(1,2), of f missing] assms(3,4) by (auto split: if_splits)

lemma edit_InrI:
  assumes "tree_ok (DirEntry d)" "p \<noteq> []" "is_dir (get_entry (DirEntry d) (butlast p))"
    and "fst (f (get_entry (DirEntry d) p)) = Inr x"
    and "\<And>e. pred_option tree_ok e \<Longrightarrow> pred_option tree_ok (snd (f e))"
  shows "\<exists>d'. edit missing f p d = (Inr x, d')"
  using edit_effect [OF assms(1,2), of f missing] assms(3-5) by (cases "edit missing f p d") auto

end
