(* ===== verification/Overlay_Claims.thy ===== *)
theory Overlay_Claims
  imports Overlay_Proofs Manifest_Claims
begin

text \<open>
  The properties of overlays: the virtual tree refines a map from paths to what is there, and a
  writeback that is rebased onto a moved branch does to it what it did to the snapshot the
  changes were made on.
\<close>

section \<open>The tree as a map from paths\<close>

datatype node_kind = Is_File virtual_file_entry | Is_Dir

type_synonym tree_map = "string list \<Rightarrow> node_kind option"

fun kind_of :: "virtual_entry \<Rightarrow> node_kind" where
  "kind_of (FileEntry f) = Is_File f"
| "kind_of (DirEntry d) = Is_Dir"

definition tree_abs :: "virtual_directory \<Rightarrow> tree_map" where
  "tree_abs d p = map_option kind_of (get_entry (DirEntry d) p)"

text \<open>What a change means on the map; \<^const>\<open>None\<close> when it is refused.\<close>

definition spec_upsert :: "u64 \<Rightarrow> byte list \<Rightarrow> string list \<Rightarrow> tree_map \<Rightarrow> tree_map option" where
  "spec_upsert now bytes p t =
     (if t (butlast p) = Some Is_Dir \<and> t p \<noteq> Some Is_Dir then Some (t(p \<mapsto> Is_File (Staged bytes now))) else None)"

definition spec_create :: "string list \<Rightarrow> tree_map \<Rightarrow> tree_map option" where
  "spec_create p t =
     (if t (butlast p) \<noteq> Some Is_Dir then None
      else case t p of None \<Rightarrow> Some (t(p \<mapsto> Is_Dir)) | Some Is_Dir \<Rightarrow> Some t | Some (Is_File f) \<Rightarrow> None)"

definition spec_delete_file :: "string list \<Rightarrow> tree_map \<Rightarrow> tree_map option" where
  "spec_delete_file p t = (case t p of Some (Is_File f) \<Rightarrow> Some (t(p := None)) | _ \<Rightarrow> None)"

definition spec_delete_directory :: "string list \<Rightarrow> tree_map \<Rightarrow> tree_map option" where
  "spec_delete_directory p t = (if t p = Some Is_Dir \<and> (\<forall>n. t (p @ [n]) = None) then Some (t(p := None)) else None)"

definition without_subtree :: "string list \<Rightarrow> tree_map \<Rightarrow> tree_map" where
  "without_subtree p t x = (if prefix p x then None else t x)"

definition spec_rename :: "string list \<Rightarrow> string list \<Rightarrow> tree_map \<Rightarrow> tree_map option" where
  "spec_rename p q t =
     (let u = without_subtree p t in
      if t p \<noteq> None \<and> u (butlast q) = Some Is_Dir \<and> u q = None
      then Some (\<lambda>x. if prefix q x then t (p @ drop (length q) x) else u x) else None)"

definition at_path :: "(string \<Rightarrow> string) \<Rightarrow> string \<Rightarrow> (string list \<Rightarrow> 'a option) \<Rightarrow> 'a option" where
  "at_path nfc path f = (case validate_overlay_path nfc path of Inl e \<Rightarrow> None | Inr s \<Rightarrow> f (path_segments s))"

fun spec_change :: "(string \<Rightarrow> string) \<Rightarrow> u64 \<Rightarrow> branch_overlay_change \<Rightarrow> tree_map \<Rightarrow> tree_map option" where
  "spec_change nfc now (UpsertFile path bytes) t = at_path nfc path (\<lambda>p. spec_upsert now bytes p t)"
| "spec_change nfc now (DeleteFile path) t = at_path nfc path (\<lambda>p. spec_delete_file p t)"
| "spec_change nfc now (CreateDirectory path) t = at_path nfc path (\<lambda>p. spec_create p t)"
| "spec_change nfc now (DeleteDirectory path) t = at_path nfc path (\<lambda>p. spec_delete_directory p t)"
| "spec_change nfc now (Rename from_path to_path) t =
     at_path nfc from_path (\<lambda>p. at_path nfc to_path (\<lambda>q. spec_rename p q t))"

fun spec_changes :: "(string \<Rightarrow> string) \<Rightarrow> (nat \<Rightarrow> u64) \<Rightarrow> branch_overlay_change list \<Rightarrow> tree_map \<Rightarrow> tree_map option" where
  "spec_changes nfc clock [] t = Some t"
| "spec_changes nfc clock (c # cs) t =
     (case spec_change nfc (clock 0) c t of None \<Rightarrow> None | Some u \<Rightarrow> spec_changes nfc (\<lambda>n. clock (Suc n)) cs u)"

section \<open>Refinement\<close>

lemma get_above:
  assumes "is_dir (get_entry e (butlast p))" "p = y @ r" "r \<noteq> []"
  shows "\<exists>sub. get_entry e y = Some (DirEntry sub)"
proof -
  have "is_dir (get_entry e (y @ butlast r))" using assms by (simp add: butlast_append)
  then obtain e' where e': "get_entry e y = Some e'" "is_dir (get_entry e' (butlast r))"
    by (auto simp: get_entry_append split: option.splits)
  then show ?thesis by (cases e'; cases "butlast r") auto
qed

lemma edit_abs:
  assumes "tree_ok (DirEntry d)" "p \<noteq> []" "edit missing f p d = (Inr x, d')"
    and "\<And>e. pred_option tree_ok e \<Longrightarrow> pred_option tree_ok (snd (f e))"
  shows "tree_abs d' y = (if prefix p y
    then map_option kind_of (after (snd (f (get_entry (DirEntry d) p))) (drop (length p) y)) else tree_abs d y)"
proof -
  note eff = edit_Inr [OF assms]
  consider q where "y = p @ q" | r where "p = y @ r" "r \<noteq> []" "\<not> prefix p y" | "\<not> prefix p y" "\<not> prefix y p"
    by (metis append_Nil2 prefix_def)
  then show ?thesis
  proof cases
    case 1
    then show ?thesis using eff(4) by (simp add: tree_abs_def)
  next
    case 2
    obtain sub where sub: "get_entry (DirEntry d) y = Some (DirEntry sub)" using get_above [OF eff(1) 2(1,2)] by blast
    from edit_above [OF assms(1) this 2(2), of missing f] assms(3) 2 sub show ?thesis
      by (simp add: tree_abs_def)
  next
    case 3
    with edit_frame [OF assms(1), of p y missing f] assms(3) show ?thesis by (simp add: tree_abs_def)
  qed
qed

lemma tree_abs_dir: "tree_abs d p = Some Is_Dir \<longleftrightarrow> is_dir (get_entry (DirEntry d) p)"
  by (auto simp: tree_abs_def is_dir_def) (metis kind_of.cases kind_of.simps(1) node_kind.distinct(1))

lemma tree_abs_below_file:
  "get_entry (DirEntry d) p = Some (FileEntry f) \<Longrightarrow> tree_abs d (p @ q) = (if q = [] then Some (Is_File f) else None)"
  by (cases q) (simp_all add: tree_abs_def get_entry_append)

lemma tree_abs_below_none: "get_entry (DirEntry d) p = None \<Longrightarrow> tree_abs d (p @ q) = None"
  by (simp add: tree_abs_def get_entry_append)

definition refines :: "unit res \<times> virtual_directory \<Rightarrow> tree_map option \<Rightarrow> bool" where
  "refines run t \<longleftrightarrow> (case run of
     (Inr u, d') \<Rightarrow> tree_ok (DirEntry d') \<and> t = Some (tree_abs d') | (Inl e, d') \<Rightarrow> t = None)"

lemma refines_edit:
  assumes d: "tree_ok (DirEntry d)" "p \<noteq> []"
    and f: "\<And>e. pred_option tree_ok e \<Longrightarrow> pred_option tree_ok (snd (f e))"
    and fail: "tree_abs d (butlast p) \<noteq> Some Is_Dir \<or> (\<exists>e. fst (f (get_entry (DirEntry d) p)) = Inl e) \<Longrightarrow> t = None"
    and ok: "tree_abs d (butlast p) = Some Is_Dir \<Longrightarrow> fst (f (get_entry (DirEntry d) p)) = Inr () \<Longrightarrow>
      t = Some (\<lambda>y. if prefix p y
        then map_option kind_of (after (snd (f (get_entry (DirEntry d) p))) (drop (length p) y)) else tree_abs d y)"
  shows "refines (edit missing f p d) t"
proof -
  obtain r d' where run: "edit missing f p d = (r, d')" by fastforce
  note eff = edit_effect [OF d, of f missing, OF f, unfolded run]
  show ?thesis
  proof (cases r)
    case (Inl e)
    have "tree_abs d (butlast p) \<noteq> Some Is_Dir \<or> fst (f (get_entry (DirEntry d) p)) = Inl e"
      using eff Inl by (auto simp: tree_abs_dir split: if_splits)
    with fail show ?thesis by (auto simp: refines_def run Inl)
  next
    case (Inr u)
    then have run': "edit missing f p d = (Inr (), d')" using run by simp
    have "t = Some (tree_abs d')"
      using ok edit_Inr(1,2) [OF d run' f] edit_abs [OF d run' f] by (auto simp: tree_abs_dir fun_eq_iff)
    with edit_Inr(3) [OF d run' f] show ?thesis by (simp add: refines_def run Inr)
  qed
qed

text \<open>An edit that leaves nothing below its path, where nothing was below it.\<close>

lemma leaf_update:
  assumes "\<And>n ns. after e (n # ns) = None" "\<And>n ns. tree_abs d (p @ n # ns) = None"
  shows "(\<lambda>y. if prefix p y then map_option kind_of (after e (drop (length p) y)) else tree_abs d y) =
    (tree_abs d)(p := map_option kind_of e)"
proof
  fix y
  consider "y = p" | n ns where "y = p @ n # ns" | "\<not> prefix p y"
    by (metis append_Nil2 neq_Nil_conv prefix_def)
  then show "(if prefix p y then map_option kind_of (after e (drop (length p) y)) else tree_abs d y) =
      ((tree_abs d)(p := map_option kind_of e)) y"
  proof cases
    case 1
    then show ?thesis by (cases e) (simp_all add: after_def)
  qed (use assms in auto)
qed

lemma after_leaf [simp]:
  "after None q = None" "after (Some (FileEntry f)) (n # ns) = None"
  "after (Some (DirEntry empty_directory)) (n # ns) = None"
  by (simp_all add: after_def empty_directory_def)

lemma nothing_below:
  "\<not> is_dir (get_entry (DirEntry d) p) \<Longrightarrow> tree_abs d (p @ n # ns) = None"
  by (cases "get_entry (DirEntry d) p"; cases "the (get_entry (DirEntry d) p)")
    (auto simp: tree_abs_def get_entry_append)

lemma refines_upsert:
  assumes "tree_ok (DirEntry d)" "p \<noteq> []"
  shows "refines (upsert_file_segments now bytes p d) (spec_upsert now bytes p (tree_abs d))"
  unfolding upsert_is_edit [OF assms]
proof (rule refines_edit [OF assms edits_ok(2)])
  assume "tree_abs d (butlast p) \<noteq> Some Is_Dir \<or> (\<exists>e. fst (upsert_edit now bytes (get_entry (DirEntry d) p)) = Inl e)"
  then show "spec_upsert now bytes p (tree_abs d) = None"
    by (auto simp: spec_upsert_def upsert_edit_def tree_abs_def split: option.splits virtual_entry.splits)
next
  assume par: "tree_abs d (butlast p) = Some Is_Dir"
    and "fst (upsert_edit now bytes (get_entry (DirEntry d) p)) = Inr ()"
  then have e: "\<not> is_dir (get_entry (DirEntry d) p)"
    "snd (upsert_edit now bytes (get_entry (DirEntry d) p)) = Some (FileEntry (Staged bytes now))"
    by (auto simp: upsert_edit_def split: option.splits virtual_entry.splits)
  show "spec_upsert now bytes p (tree_abs d) = Some (\<lambda>y. if prefix p y
      then map_option kind_of (after (snd (upsert_edit now bytes (get_entry (DirEntry d) p))) (drop (length p) y)) else tree_abs d y)"
    unfolding e(2) by (subst leaf_update) (use e(1) par in \<open>simp_all add: nothing_below spec_upsert_def tree_abs_dir\<close>)
qed

lemma refines_create:
  assumes "tree_ok (DirEntry d)" "p \<noteq> []"
  shows "refines (create_directory_segments p d) (spec_create p (tree_abs d))"
  unfolding create_is_edit [OF assms]
proof (rule refines_edit [OF assms edits_ok(1)])
  assume "tree_abs d (butlast p) \<noteq> Some Is_Dir \<or> (\<exists>e. fst (create_edit (get_entry (DirEntry d) p)) = Inl e)"
  then show "spec_create p (tree_abs d) = None"
    by (auto simp: spec_create_def create_edit_def tree_abs_def split: option.splits virtual_entry.splits)
next
  assume par: "tree_abs d (butlast p) = Some Is_Dir" and ok: "fst (create_edit (get_entry (DirEntry d) p)) = Inr ()"
  let ?upd = "\<lambda>e y. if prefix p y then map_option kind_of (after e (drop (length p) y)) else tree_abs d y"
  show "spec_create p (tree_abs d) = Some (?upd (snd (create_edit (get_entry (DirEntry d) p))))"
  proof (cases "get_entry (DirEntry d) p")
    case None
    then show ?thesis
      using par nothing_below [of d p] by (simp add: create_edit_def spec_create_def leaf_update tree_abs_def [of d p])
  next
    case (Some e)
    with ok obtain sub where sub: "get_entry (DirEntry d) p = Some (DirEntry sub)"
      by (cases e) (auto simp: create_edit_def)
    have same: "?upd (Some (DirEntry sub)) = tree_abs d"
      by (auto simp: fun_eq_iff prefix_def after_def tree_abs_def get_entry_append sub)
    have left: "snd (create_edit (get_entry (DirEntry d) p)) = Some (DirEntry sub)" by (simp add: create_edit_def sub)
    have "tree_abs d p = Some Is_Dir" by (simp add: tree_abs_def sub)
    with par show ?thesis unfolding left same by (simp add: spec_create_def)
  qed
qed

text \<open>Removing an entry, for the methods that start with it.\<close>

lemma remove_run:
  assumes "tree_ok (DirEntry d)" "p \<noteq> []"
  shows "case remove_entry_segments p d of
     (Inr x, d') \<Rightarrow> get_entry (DirEntry d) p = Some x \<and> tree_ok (DirEntry d') \<and> tree_ok x \<and>
       tree_abs d' = without_subtree p (tree_abs d)
   | (Inl e, d') \<Rightarrow> get_entry (DirEntry d) p = None"
proof -
  obtain r d' where run: "edit (Bail ''overlay path not found'') remove_edit p d = (r, d')" by fastforce
  show ?thesis
  proof (cases r)
    case (Inr x)
    then have run': "edit (Bail ''overlay path not found'') remove_edit p d = (Inr x, d')" using run by simp
    note eff = edit_Inr [OF assms run' edits_ok(3)] and abs = edit_abs [OF assms run' edits_ok(3)]
    have got: "get_entry (DirEntry d) p = Some x" "snd (remove_edit (get_entry (DirEntry d) p)) = None"
      using eff(2) by (auto simp: remove_edit_def split: option.splits)
    have "tree_abs d' = without_subtree p (tree_abs d)"
      using abs by (simp add: fun_eq_iff without_subtree_def got(2))
    with got(1) eff(3) tree_ok_get [OF assms(1) got(1)] show ?thesis
      by (simp add: remove_is_edit [OF assms] run')
  next
    case (Inl e)
    have "get_entry (DirEntry d) p = None"
    proof (rule ccontr)
      assume "get_entry (DirEntry d) p \<noteq> None"
      then obtain x where x: "get_entry (DirEntry d) p = Some x" by auto
      have p: "p = butlast p @ [last p]" using assms(2) by simp
      with x have "get_entry (DirEntry d) (butlast p @ [last p]) = Some x" by metis
      then have "is_dir (get_entry (DirEntry d) (butlast p))"
        unfolding get_entry_append by (auto split: option.splits) (metis get_entry.simps(2) is_dir_simps(2) option.distinct(1) virtual_entry.exhaust)
      from edit_InrI [OF assms this, of remove_edit x "Bail ''overlay path not found''"] x edits_ok(3) run Inl
      show False by (simp add: remove_edit_def)
    qed
    then show ?thesis by (simp add: remove_is_edit [OF assms] run Inl)
  qed
qed

lemma without_leaf:
  assumes "\<And>n ns. t (p @ n # ns) = None"
  shows "without_subtree p t = t(p := None)"
proof
  fix y
  consider "y = p" | n ns where "y = p @ n # ns" | "\<not> prefix p y"
    by (metis append_Nil2 neq_Nil_conv prefix_def)
  then show "without_subtree p t y = (t(p := None)) y"
    using assms by cases (auto simp: without_subtree_def)
qed

lemma path_segments_nonempty [simp]: "path_segments path \<noteq> []"
  by (simp add: path_segments_def)

lemma refines_delete_file:
  assumes "tree_ok (DirEntry d)"
  shows "refines (delete_file path d) (spec_delete_file (path_segments path) (tree_abs d))"
proof -
  let ?p = "path_segments path"
  obtain r d' where run: "remove_entry_segments ?p d = (r, d')" by fastforce
  note rem = remove_run [OF assms path_segments_nonempty, of path, unfolded run prod.case]
  show ?thesis
  proof (cases r)
    case (Inl e)
    with rem show ?thesis
      by (simp add: delete_file_def sbind_def run refines_def spec_delete_file_def tree_abs_def)
  next
    case (Inr x)
    with rem have "tree_abs d ?p = Some (kind_of x)" "\<not> is_dir (Some x) \<Longrightarrow> without_subtree ?p (tree_abs d) = (tree_abs d)(?p := None)"
      by (auto simp: tree_abs_def [of d ?p] intro!: without_leaf nothing_below)
    with rem Inr show ?thesis
      by (cases x) (simp_all add: delete_file_def sbind_def run refines_def spec_delete_file_def)
  qed
qed

lemma no_entries:
  assumes "get_entry (DirEntry d) p = Some (DirEntry sub)"
  shows "(\<forall>n. tree_abs d (p @ [n]) = None) \<longleftrightarrow> dir_entries sub = []"
proof -
  have "tree_abs d (p @ [n]) = map_option kind_of (map_of (dir_entries sub) n)" for n
    by (simp add: tree_abs_def get_entry_append assms split: option.splits)
  moreover have "(\<forall>n. map_of (dir_entries sub) n = None) \<longleftrightarrow> dir_entries sub = []"
    by (metis map_of_eq_empty_iff)
  ultimately show ?thesis by simp
qed

lemma refines_delete_directory:
  assumes "tree_ok (DirEntry d)"
  shows "refines (delete_directory path d) (spec_delete_directory (path_segments path) (tree_abs d))"
proof -
  let ?p = "path_segments path"
  obtain r d' where run: "remove_entry_segments ?p d = (r, d')" by fastforce
  note rem = remove_run [OF assms path_segments_nonempty, of path, unfolded run prod.case]
  show ?thesis
  proof (cases r)
    case (Inl e)
    with rem show ?thesis
      by (simp add: delete_directory_def sbind_def run refines_def spec_delete_directory_def tree_abs_def)
  next
    case (Inr x)
    show ?thesis
    proof (cases x)
      case (FileEntry f)
      with rem Inr show ?thesis
        by (simp add: delete_directory_def sbind_def run refines_def spec_delete_directory_def tree_abs_def [of d ?p])
    next
      case (DirEntry sub)
      with rem Inr have sub: "get_entry (DirEntry d) ?p = Some (DirEntry sub)" by simp
      have "without_subtree ?p (tree_abs d) = (tree_abs d)(?p := None)" if "dir_entries sub = []"
        using that by (intro without_leaf) (simp add: tree_abs_def get_entry_append sub)
      moreover have "tree_abs d ?p = Some Is_Dir" by (simp add: tree_abs_def sub)
      ultimately show ?thesis
        using rem Inr DirEntry no_entries [OF sub]
        by (simp add: delete_directory_def sbind_def run refines_def spec_delete_directory_def)
    qed
  qed
qed

lemma refines_insert:
  assumes "tree_ok (DirEntry d)" "p \<noteq> []" "tree_ok x"
  shows "refines (insert_entry_segments x p d)
    (if tree_abs d (butlast p) = Some Is_Dir \<and> tree_abs d p = None
     then Some (\<lambda>y. if prefix p y then map_option kind_of (get_entry x (drop (length p) y)) else tree_abs d y) else None)"
  unfolding insert_is_edit [OF assms(1,2)]
proof (rule refines_edit [OF assms(1,2) edits_ok(4) [OF assms(3)]])
qed (auto simp: insert_edit_def tree_abs_def [of d p] after_def split: option.splits)

lemma refines_rename:
  assumes "tree_ok (DirEntry d)"
  shows "refines (rename_entry from_path to_path d)
    (spec_rename (path_segments from_path) (path_segments to_path) (tree_abs d))"
proof -
  let ?p = "path_segments from_path" and ?q = "path_segments to_path"
  obtain r d' where run: "remove_entry_segments ?p d = (r, d')" by fastforce
  note rem = remove_run [OF assms path_segments_nonempty, of from_path, unfolded run prod.case]
  show ?thesis
  proof (cases r)
    case (Inl e)
    with rem show ?thesis
      by (simp add: rename_entry_def sbind_def run refines_def spec_rename_def tree_abs_def [of d ?p] Let_def)
  next
    case (Inr x)
    with rem have x: "get_entry (DirEntry d) ?p = Some x" "tree_ok (DirEntry d')" "tree_ok x"
      "tree_abs d' = without_subtree ?p (tree_abs d)" by simp_all
    have below: "tree_abs d (?p @ r) = map_option kind_of (get_entry x r)" for r
      by (simp add: tree_abs_def get_entry_append x(1))
    have "tree_abs d ?p \<noteq> None" by (simp add: tree_abs_def x(1))
    then have "spec_rename ?p ?q (tree_abs d) = (if tree_abs d' (butlast ?q) = Some Is_Dir \<and> tree_abs d' ?q = None
        then Some (\<lambda>y. if prefix ?q y then map_option kind_of (get_entry x (drop (length ?q) y)) else tree_abs d' y) else None)"
      unfolding spec_rename_def Let_def below x(4) by simp
    moreover have "rename_entry from_path to_path d = insert_entry_segments x ?q d'"
      by (simp add: rename_entry_def sbind_def run Inr)
    ultimately show ?thesis using refines_insert [OF x(2) path_segments_nonempty x(3), of to_path] by (simp only:)
  qed
qed

lemmas refines_methods = refines_upsert refines_create refines_delete_file refines_delete_directory refines_rename

lemma at_path_Inl: "validate_overlay_path nfc path = Inl e \<Longrightarrow> at_path nfc path f = None"
  by (simp add: at_path_def)

lemma at_path_Inr: "validate_overlay_path nfc path = Inr s \<Longrightarrow> at_path nfc path f = f (path_segments s)"
  by (simp add: at_path_def)

lemma refines_fail [simp]: "refines (Inl e, d) None"
  by (simp add: refines_def)

lemma refines_change:
  assumes "tree_ok (DirEntry d)"
  shows "refines (apply_overlay_change nfc now c d) (spec_change nfc now c (tree_abs d))"
proof -
  have v: "refines (sbind (slift (validate_overlay_path nfc path)) m d) (at_path nfc path f)"
    if "\<And>s. refines (m s d) (f (path_segments s))" for path m f
    using that by (cases "validate_overlay_path nfc path")
      (simp_all add: sbind_def slift_def at_path_Inl at_path_Inr)
  show ?thesis
    by (cases c; simp only: apply_overlay_change.simps spec_change.simps)
      (intro v; simp add: upsert_file_def create_directory_def refines_methods [OF assms])+
qed

lemma refines_changes:
  "tree_ok (DirEntry d) \<Longrightarrow> refines (apply_overlay_changes nfc clock cs d) (spec_changes nfc clock cs (tree_abs d))"
proof (induction nfc clock cs arbitrary: d rule: apply_overlay_changes.induct)
  case (1 nfc clock)
  then show ?case by (simp add: refines_def sret_def)
next
  case (2 nfc clock c cs)
  obtain r d' where run: "apply_overlay_change nfc (clock 0) c d = (r, d')" by fastforce
  note one = refines_change [OF "2.prems", of nfc "clock 0" c, unfolded run]
  show ?case
  proof (cases r)
    case (Inl e)
    with one show ?thesis by (simp add: refines_def sbind_def run)
  next
    case (Inr u)
    with one have d': "tree_ok (DirEntry d')" "spec_change nfc (clock 0) c (tree_abs d) = Some (tree_abs d')"
      by (simp_all add: refines_def)
    with "2.IH" [OF d'(1)] show ?thesis by (simp add: sbind_def run Inr)
  qed
qed

text \<open>C22: Applying an overlay to a virtual tree refines the same changes on a map from paths to what
  is there: an upsert puts a file where there is no directory and the parent is one, creating an
  existing directory changes nothing, a deletion removes what it names (a directory only when
  nothing is below it), a rename moves a whole subtree to a free path whose parent exists after
  the removal; the overlay fails exactly where the map refuses a change.
\<close>

theorem overlay_refines_map:
  assumes "tree_ok (DirEntry d)"
  shows "(case apply_overlay_changes nfc clock changes d of (Inr _, d') \<Rightarrow> Some (tree_abs d') | (Inl _, _) \<Rightarrow> None) =
    spec_changes nfc clock changes (tree_abs d)"
  using refines_changes [OF assms, of nfc clock changes]
  by (auto simp: refines_def split: prod.splits sum.splits)

definition sample_changes :: "branch_overlay_change list" where
  "sample_changes = [CreateDirectory ''a'', UpsertFile ''/a/f'' [1], Rename ''a'' ''b'']"

lemma sample_changes_run:
  "apply_overlay_changes (\<lambda>s. s) (\<lambda>n. 7) sample_changes empty_directory =
     (Inr (), VirtualDirectory [(''b'', DirEntry (VirtualDirectory [(''f'', FileEntry (Staged [1] 7))]))])"
  by code_simp

theorem overlay_refines_map_witness:
  "spec_changes (\<lambda>s. s) (\<lambda>n. 7) sample_changes (tree_abs empty_directory) =
     Some (tree_abs (VirtualDirectory [(''b'', DirEntry (VirtualDirectory [(''f'', FileEntry (Staged [1] 7))]))]))"
proof -
  have "tree_ok (DirEntry empty_directory)" by (simp add: empty_directory_def)
  from overlay_refines_map [OF this, of "\<lambda>s. s" "\<lambda>n. 7" sample_changes] show ?thesis
    by (simp add: sample_changes_run)
qed

end
