(* ===== verification/Overlay_Merge.thy ===== *)
theory Overlay_Merge
  imports Overlay_Claims
begin

text \<open>
  Writing an overlay back to a branch that has moved: when the detection reports no conflict, the
  changes do to the current head what they did to the snapshot they were made on.
\<close>

section \<open>Paths the policy accepts\<close>

definition good_segments :: "(string \<Rightarrow> string) \<Rightarrow> string list \<Rightarrow> bool" where
  "good_segments nfc segs \<longleftrightarrow> segs \<noteq> [] \<and> (\<forall>s \<in> set segs. s \<noteq> [] \<and> slash \<notin> set s \<and> nfc s = s)"

lemma split_join: "segs \<noteq> [] \<Longrightarrow> \<forall>s \<in> set segs. c \<notin> set s \<Longrightarrow> split_on c (join_with [c] segs) = segs"
  by (induction "[c]" segs rule: join_with.induct) (auto simp: split_on_append_sep split_on_single)

lemma join_ends:
  assumes "segs \<noteq> []" "\<forall>s \<in> set segs. s \<noteq> [] \<and> c \<notin> set s"
  shows "join_with [c] segs \<noteq> []" "hd (join_with [c] segs) \<noteq> c" "last (join_with [c] segs) \<noteq> c"
  using assms by (induction "[c]" segs rule: join_with.induct) (auto split: if_splits)

lemma trim_keeps:
  assumes "s \<noteq> []" "hd s \<noteq> c" "last s \<noteq> c"
  shows "trim_matches c s = s"
proof -
  have keep: "dropWhile (\<lambda>x. x = c) ys = ys" if "ys \<noteq> []" "hd ys \<noteq> c" for ys
    using that by (cases ys) auto
  show ?thesis using assms by (simp add: trim_matches_def keep hd_rev)
qed

lemma trim_ends:
  assumes "trim_matches c s \<noteq> []"
  shows "hd (trim_matches c s) \<noteq> c" "last (trim_matches c s) \<noteq> c"
proof -
  define l where "l = dropWhile (\<lambda>x. x = c) s"
  define r where "r = dropWhile (\<lambda>x. x = c) (rev l)"
  have trim: "trim_matches c s = rev r" by (simp add: trim_matches_def l_def r_def)
  have r: "r \<noteq> []" using assms by (simp add: trim)
  show "last (trim_matches c s) \<noteq> c"
    using r hd_dropWhile [of "\<lambda>x. x = c" "rev l"] by (simp add: trim last_rev r_def)
  obtain t where "rev l = t @ r" unfolding r_def using takeWhile_dropWhile_id by metis
  then have l: "l = rev r @ rev t" by (metis rev_append rev_rev_ident)
  then have "l \<noteq> []" "hd l = hd (rev r)" using r by auto
  then show "hd (trim_matches c s) \<noteq> c"
    using hd_dropWhile [of "\<lambda>x. x = c" s] by (simp add: trim l_def)
qed

lemma split_ends:
  assumes "s \<noteq> []"
  shows "hd s \<noteq> c \<Longrightarrow> hd (split_on c s) \<noteq> []" "last s \<noteq> c \<Longrightarrow> last (split_on c s) \<noteq> []"
proof -
  show "hd s \<noteq> c \<Longrightarrow> hd (split_on c s) \<noteq> []"
    using assms by (cases s) (auto split: list.splits)
  show "last s \<noteq> c \<Longrightarrow> last (split_on c s) \<noteq> []"
    using assms by (induction s) (auto split: list.splits if_splits)
qed

lemma join_hd_last:
  "segs \<noteq> [] \<Longrightarrow> hd segs \<noteq> [] \<Longrightarrow> hd (join_with sep segs) = hd (hd segs) \<and> join_with sep segs \<noteq> []"
  "segs \<noteq> [] \<Longrightarrow> last segs \<noteq> [] \<Longrightarrow> last (join_with sep segs) = last (last segs) \<and> join_with sep segs \<noteq> []"
  by (induction sep segs rule: join_with.induct) auto

lemma trim_join:
  assumes "segs \<noteq> []" "\<forall>s \<in> set segs. s \<noteq> [] \<and> c \<notin> set s"
  shows "trim_matches c (join_with [c] segs) = join_with [c] segs"
  using join_ends [OF assms] by (intro trim_keeps)

lemma good_fixed:
  assumes "good_segments nfc segs"
  shows "normalize_snapshot_path nfc (join_with ''/'' segs) = join_with ''/'' segs"
    "split_on slash (join_with ''/'' segs) = segs" "join_with ''/'' segs \<noteq> []"
proof -
  have g: "segs \<noteq> []" "\<forall>s \<in> set segs. s \<noteq> [] \<and> slash \<notin> set s" "\<forall>s \<in> set segs. nfc s = s"
    using assms by (auto simp: good_segments_def)
  show split: "split_on slash (join_with ''/'' segs) = segs" using split_join [OF g(1), of slash] g(2) by simp
  show "join_with ''/'' segs \<noteq> []" using join_ends(1) [OF g(1,2)] .
  have "map nfc segs = segs" using g(3) by (simp add: map_idI)
  then show "normalize_snapshot_path nfc (join_with ''/'' segs) = join_with ''/'' segs"
    by (simp add: normalize_snapshot_path_def trim_join [OF g(1,2)] split)
qed

lemma good_prefix: "good_segments nfc (a @ b) \<Longrightarrow> a \<noteq> [] \<Longrightarrow> good_segments nfc a"
  by (simp add: good_segments_def)

lemma validate_path_component_plain:
  "validate_path_component name = Inr u \<Longrightarrow> name \<noteq> [] \<and> slash \<notin> set name"
  by (auto simp: validate_path_component_def split: if_splits)

lemma jail_components_each:
  "jail_components segs = Inr u \<Longrightarrow> s \<in> set segs \<Longrightarrow> validate_path_component s = Inr ()"
  by (induction segs) (auto simp: rbind_Inr_iff split: if_splits)

lemma validate_overlay_path_good:
  assumes "nfc_ok nfc" "validate_overlay_path nfc path = Inr s"
  shows "s = normalize_snapshot_path nfc path" "good_segments nfc (path_segments s)"
    "join_with ''/'' (path_segments s) = s"
proof -
  let ?raw = "split_on slash (trim_matches slash path)"
  have v: "s = normalize_snapshot_path nfc path" "s \<noteq> []" "path_jail_validate s = Inr ()"
    using assms(2) by (auto simp: validate_overlay_path_def Let_def rbind_Inr_iff split: if_splits)
  show "s = normalize_snapshot_path nfc path" by (fact v(1))
  show "join_with ''/'' (path_segments s) = s" by (simp add: path_segments_def join_split_on)
  have segs: "path_segments s = map nfc ?raw"
    unfolding v(1) normalize_snapshot_path_def path_segments_def
    using assms(1) split_on_no_sep [of _ slash "trim_matches slash path"]
    by (intro split_join) (auto simp: nfc_ok_def)
  have plain: "\<forall>x \<in> set (path_segments s). slash \<notin> set x \<and> nfc x = x"
    using assms(1) split_on_no_sep [of _ slash "trim_matches slash path"] by (auto simp: segs nfc_ok_def)
  have nfc_Nil: "nfc x = [] \<longleftrightarrow> x = []" for x using assms(1) by (force simp: nfc_ok_def)
  have "trim_matches slash path \<noteq> []" using v(1,2) nfc_Nil [of "[]"] by (auto simp: normalize_snapshot_path_def)
  from split_ends [OF this] trim_ends [OF this] have raw: "hd ?raw \<noteq> []" "last ?raw \<noteq> []" by blast+
  then have ends: "hd (path_segments s) \<noteq> []" "last (path_segments s) \<noteq> []"
    by (simp_all add: segs hd_map last_map nfc_Nil)
  have "trim_matches slash s = s"
    using ends plain join_hd_last [of "path_segments s" "''/''"] \<open>join_with ''/'' (path_segments s) = s\<close> v(2)
    by (intro trim_keeps) (metis hd_in_set last_in_set path_segments_nonempty)+
  with v(2,3) have "jail_components (path_segments s) = Inr ()"
    by (simp add: path_jail_validate_def path_segments_def)
  then have "\<forall>x \<in> set (path_segments s). x \<noteq> []"
    using jail_components_each validate_path_component_plain by metis
  with plain show "good_segments nfc (path_segments s)" by (simp add: good_segments_def)
qed

section \<open>The state of a path in a snapshot\<close>

text \<open>More fuel does not change what a load returns.\<close>

lemma load_entries_mono:
  assumes "\<And>i r. load i = Some r \<Longrightarrow> load' i = Some r"
  shows "load_virtual_entries load es acc = Some r \<Longrightarrow> load_virtual_entries load' es acc = Some r"
proof (induction es arbitrary: acc)
  case (Cons entry rest)
  show ?case
  proof (cases "load (te_object_id entry)")
    case (Some v)
    with Cons assms [OF Some] show ?thesis by (auto split: if_splits sum.splits)
  qed (use Cons in \<open>auto split: if_splits\<close>)
qed simp

lemma load_Suc: "load_virtual_directory k M i = Some r \<Longrightarrow> load_virtual_directory (Suc k) M i = Some r"
proof (induction k arbitrary: i r)
  case (Suc k)
  show ?case
  proof (cases "get_tree_node M i")
    case (Inr t)
    with Suc.prems have "load_virtual_entries (load_virtual_directory k M) (tr_entries t) [] = Some r" by simp
    from load_entries_mono [OF Suc.IH this] Inr show ?thesis by simp
  qed (use Suc.prems in simp)
qed simp

lemma load_more: "k \<le> k' \<Longrightarrow> load_virtual_directory k M i = Some r \<Longrightarrow> load_virtual_directory k' M i = Some r"
  by (induction rule: dec_induct) (auto simp del: load_virtual_directory.simps intro: load_Suc)

lemma load_deterministic:
  assumes "load_virtual_directory k M i = Some r" "load_virtual_directory k' M i = Some r'"
  shows "r = r'"
  using load_more [OF max.cobounded1 assms(1), of k'] load_more [OF max.cobounded2 assms(2), of k] by simp

text \<open>What is loaded for an entry of a listing.\<close>

definition entry_loads :: "manifest_store \<Rightarrow> tree_entry \<Rightarrow> virtual_entry \<Rightarrow> bool" where
  "entry_loads M entry x \<longleftrightarrow>
     te_kind entry = ''file'' \<and> x = FileEntry (Existing (te_object_id entry)) \<or>
     te_kind entry = ''tree'' \<and> (\<exists>k d. load_virtual_directory k M (te_object_id entry) = Some (Inr d) \<and> x = DirEntry d)"

lemma load_entries_lookup:
  assumes "load_virtual_entries (load_virtual_directory k M) es acc = Some (Inr d)"
    "distinct (map te_name es)" "bt_ok acc"
  shows "case List.find (\<lambda>e. te_name e = n) es of
      None \<Rightarrow> map_of (dir_entries d) n = map_of acc n
    | Some entry \<Rightarrow> \<exists>x. map_of (dir_entries d) n = Some x \<and> entry_loads M entry x"
  using assms
proof (induction es arbitrary: acc)
  case (Cons e es)
  have "\<exists>x. entry_loads M e x \<and> load_virtual_entries (load_virtual_directory k M) es (bt_insert (te_name e) x acc) = Some (Inr d)"
    using Cons.prems(1) by (force simp: entry_loads_def split: if_splits option.splits sum.splits)
  then obtain x where x: "entry_loads M e x"
      "load_virtual_entries (load_virtual_directory k M) es (bt_insert (te_name e) x acc) = Some (Inr d)" by blast
  have ih: "case List.find (\<lambda>e. te_name e = n) es of
      None \<Rightarrow> map_of (dir_entries d) n = map_of (bt_insert (te_name e) x acc) n
    | Some entry \<Rightarrow> \<exists>x. map_of (dir_entries d) n = Some x \<and> entry_loads M entry x"
    using Cons.IH [OF x(2)] Cons.prems(2,3) by simp
  show ?case
  proof (cases "te_name e = n")
    case True
    then have "List.find (\<lambda>e. te_name e = n) es = None" using Cons.prems(2) by (auto simp: find_None_iff image_iff)
    with ih x(1) True Cons.prems(3) show ?thesis by (simp add: map_of_bt_insert)
  next
    case False
    with ih Cons.prems(3) show ?thesis by (auto simp: map_of_bt_insert split: option.splits)
  qed
qed auto

definition names_distinct :: "manifest_store \<Rightarrow> bool" where
  "names_distinct M \<longleftrightarrow> (\<forall>i t. get_tree_node M i = Inr t \<longrightarrow> distinct (map te_name (tr_entries t)))"

definition state_shows :: "manifest_store \<Rightarrow> snapshot_path_state \<Rightarrow> virtual_entry option \<Rightarrow> bool" where
  "state_shows M st e = (case st of
     Missing_Path \<Rightarrow> e = None
   | File_Path i \<Rightarrow> e = Some (FileEntry (Existing i))
   | Directory_Path i \<Rightarrow> \<exists>k d. load_virtual_directory k M i = Some (Inr d) \<and> e = Some (DirEntry d))"

lemma state_shows_eq: "state_shows M st e \<Longrightarrow> state_shows M st e' \<Longrightarrow> e = e'"
  by (cases st) (auto simp: state_shows_def dest: load_deterministic)

lemma state_shows_dir: "state_shows M st e \<Longrightarrow> kind_label st = ''directory'' \<longleftrightarrow> is_dir e"
  by (cases st) (auto simp: state_shows_def)

lemma path_state_below_shows:
  assumes "names_distinct M"
  shows "path_state_below M i segs = Inr st \<Longrightarrow> load_virtual_directory k M i = Some (Inr d) \<Longrightarrow> segs \<noteq> [] \<Longrightarrow>
    state_shows M st (get_entry (DirEntry d) segs)"
proof (induction segs arbitrary: i k d)
  case (Cons n ns)
  obtain k' where k: "k = Suc k'" using Cons.prems(2) by (cases k) auto
  obtain t where t: "get_tree_node M i = Inr t" using Cons.prems(1) by (auto simp: rbind_Inr_iff)
  with Cons.prems(2) k have load: "load_virtual_entries (load_virtual_directory k' M) (tr_entries t) [] = Some (Inr d)" by simp
  have "distinct (map te_name (tr_entries t))" using assms t unfolding names_distinct_def by blast
  note found = load_entries_lookup [OF load this bt_ok_Nil, of n]
  show ?case
  proof (cases "List.find (\<lambda>e. te_name e = n) (tr_entries t)")
    case None
    with found Cons.prems(1) t show ?thesis by (simp add: state_shows_def)
  next
    case (Some e)
    with found obtain x where x: "map_of (dir_entries d) n = Some x" "entry_loads M e x" by auto
    show ?thesis
    proof (cases "ns = [] \<or> te_kind e \<noteq> ''tree''")
      case True
      with x Some Cons.prems(1) t show ?thesis
        by (cases ns) (auto simp: entry_loads_def state_shows_def split: if_splits)
    next
      case False
      with x(2) obtain k'' sub where sub: "load_virtual_directory k'' M (te_object_id e) = Some (Inr sub)" "x = DirEntry sub"
        by (auto simp: entry_loads_def)
      have "path_state_below M (te_object_id e) ns = Inr st" using Cons.prems(1) t Some False by simp
      from Cons.IH [OF this sub(1)] False x(1) sub(2) show ?thesis by simp
    qed
  qed
qed simp

lemma load_snapshot_dir:
  assumes "load_virtual_directory_from_snapshot k M sid = Some (Inr d)"
  obtains "sid = None" "d = empty_directory"
  | s sn where "sid = Some s" "get_snapshot M s = Inr sn" "load_virtual_directory k M (sn_root_tree_id sn) = Some (Inr d)"
  using assms by (auto simp: load_virtual_directory_from_snapshot_def split: option.splits sum.splits)

lemma snapshot_path_state_shows:
  assumes "names_distinct M" "load_virtual_directory_from_snapshot k M sid = Some (Inr d)" "good_segments nfc segs"
    and "snapshot_path_state nfc M sid (join_with ''/'' segs) = Inr st"
  shows "state_shows M st (get_entry (DirEntry d) segs)"
  using assms(2)
proof (cases rule: load_snapshot_dir)
  case 1
  obtain n ns where "segs = n # ns" using assms(3) by (cases segs) (auto simp: good_segments_def)
  with assms(4) good_fixed [OF assms(3)] 1 show ?thesis
    by (simp add: snapshot_path_state_def state_shows_def empty_directory_def)
next
  case (2 s sn)
  have "path_state_below M (sn_root_tree_id sn) segs = Inr st"
    using assms(4) good_fixed [OF assms(3)] 2 by (simp add: snapshot_path_state_def)
  from path_state_below_shows [OF assms(1) this 2(3)] assms(3) show ?thesis by (simp add: good_segments_def)
qed

lemma load_entries_ok:
  assumes "\<And>i d. load i = Some (Inr d) \<Longrightarrow> tree_ok (DirEntry d)"
  shows "load_virtual_entries load es acc = Some (Inr d) \<Longrightarrow> tree_ok (DirEntry (VirtualDirectory acc)) \<Longrightarrow> tree_ok (DirEntry d)"
proof (induction es arbitrary: acc)
  case (Cons entry rest)
  have step: "tree_ok x \<Longrightarrow> tree_ok (DirEntry (VirtualDirectory (bt_insert (te_name entry) x acc)))" for x
    using Cons.prems(2) by (auto simp: map_of_bt_insert split: if_splits)
  show ?case
  proof (cases "load (te_object_id entry)")
    case (Some v)
    with Cons step assms show ?thesis by (auto simp del: tree_ok_simps simp: tree_ok_file split: if_splits sum.splits)
  qed (use Cons step in \<open>auto simp del: tree_ok_simps simp: tree_ok_file split: if_splits\<close>)
qed simp

lemma load_ok: "load_virtual_directory k M i = Some (Inr d) \<Longrightarrow> tree_ok (DirEntry d)"
proof (induction k arbitrary: i d)
  case (Suc k)
  then obtain t where "get_tree_node M i = Inr t" by (auto split: sum.splits)
  with Suc.prems have "load_virtual_entries (load_virtual_directory k M) (tr_entries t) [] = Some (Inr d)" by simp
  from load_entries_ok [OF Suc.IH this] show ?case by simp
qed simp

lemma load_snapshot_ok: "load_virtual_directory_from_snapshot k M sid = Some (Inr d) \<Longrightarrow> tree_ok (DirEntry d)"
  by (auto elim!: load_snapshot_dir simp: empty_directory_def dest: load_ok simp del: tree_ok_simps) (simp add: empty_directory_def)

section \<open>What an empty report says\<close>

lemma conflict_at_Inr:
  assumes "conflict_at nfc M expected current_head differs kind change path scan = (Inr u, scan')"
    and "fst scan = [] \<longrightarrow> snd scan = {}"
  shows "\<exists>b c. snapshot_path_state nfc M expected path = Inr b \<and> snapshot_path_state nfc M current_head path = Inr c \<and>
    (fst scan' = [] \<longrightarrow> fst scan = [] \<and> snd scan' = {} \<and> \<not> differs b c)"
  using assms by (cases scan) (auto simp: conflict_at_def split: sum.splits if_splits)

lemma for_each_conflicts:
  assumes "for_each (conflict_at nfc M expected current_head differs kind change) ps scan = (Inr u, scan')"
    and "fst scan = [] \<longrightarrow> snd scan = {}" "fst scan' = []"
  shows "scan = ([], {}) \<and> scan' = ([], {}) \<and> (\<forall>p \<in> set ps. \<exists>b c. snapshot_path_state nfc M expected p = Inr b \<and>
    snapshot_path_state nfc M current_head p = Inr c \<and> \<not> differs b c)"
  using assms
proof (induction ps arbitrary: scan)
  case Nil
  then show ?case by (cases scan) (auto simp: sret_def)
next
  case (Cons p ps)
  from Cons.prems(1) obtain v scan1 where one: "conflict_at nfc M expected current_head differs kind change p scan = (Inr v, scan1)"
    and rest: "for_each (conflict_at nfc M expected current_head differs kind change) ps scan1 = (Inr u, scan')"
    by (auto simp: sbind_Inr_iff)
  obtain b c where st: "snapshot_path_state nfc M expected p = Inr b" "snapshot_path_state nfc M current_head p = Inr c"
      "fst scan1 = [] \<longrightarrow> fst scan = [] \<and> snd scan1 = {} \<and> \<not> differs b c"
    using conflict_at_Inr [OF one Cons.prems(2)] by blast
  moreover have "fst scan1 = [] \<longrightarrow> snd scan1 = {}" using st(3) by blast
  note Cons.IH [OF rest this Cons.prems(3)]
  ultimately show ?case using Cons.prems(2) by (cases scan) auto
qed

lemma detect_loop_empty:
  assumes "detect_conflicts_loop nfc M expected current_head changes scan = (Inr u, scan')"
    and "fst scan = [] \<longrightarrow> snd scan = {}" "fst scan' = []"
  shows "scan = ([], {}) \<and> (\<forall>ch \<in> set changes.
    (\<forall>p \<in> set (exact_conflict_paths nfc ch). \<exists>b. snapshot_path_state nfc M expected p = Inr b \<and>
       snapshot_path_state nfc M current_head p = Inr b) \<and>
    (\<forall>p \<in> set (ancestor_conflict_paths nfc ch). \<exists>b c. snapshot_path_state nfc M expected p = Inr b \<and>
       snapshot_path_state nfc M current_head p = Inr c \<and> \<not> ancestor_transition_conflicts b c))"
  using assms
proof (induction changes arbitrary: scan)
  case Nil
  then show ?case by (cases scan) (auto simp: sret_def)
next
  case (Cons ch changes)
  from Cons.prems(1) obtain v scan1 w scan2 where
      one: "for_each (conflict_at nfc M expected current_head (\<noteq>) ''path-changed'' ch) (exact_conflict_paths nfc ch) scan = (Inr v, scan1)"
    and two: "for_each (conflict_at nfc M expected current_head ancestor_transition_conflicts ''ancestor-changed'' ch)
        (ancestor_conflict_paths nfc ch) scan1 = (Inr w, scan2)"
    and rest: "detect_conflicts_loop nfc M expected current_head changes scan2 = (Inr u, scan')"
    by (auto simp: sbind_Inr_iff)
  have keep: "fst t = [] \<longrightarrow> snd t = {}"
    if "for_each (conflict_at nfc M expected current_head differs kind change) ps s = (Inr x, t)" "fst s = [] \<longrightarrow> snd s = {}"
    for differs kind change ps s x t
    using for_each_conflicts [OF that] by auto
  have e1: "fst scan1 = [] \<longrightarrow> snd scan1 = {}" using keep [OF one Cons.prems(2)] .
  have e2: "fst scan2 = [] \<longrightarrow> snd scan2 = {}" using keep [OF two e1] .
  note ih = Cons.IH [OF rest e2 Cons.prems(3)]
  then have "fst scan2 = []" by simp
  note d2 = for_each_conflicts [OF two e1 this]
  then have "fst scan1 = []" by simp
  from for_each_conflicts [OF one Cons.prems(2) this] d2 ih show ?case by auto
qed

lemma rsplit_once_last: "c \<notin> set b \<Longrightarrow> rsplit_once c (a @ c # b) = Some (a, b)"
proof (induction a)
  case Nil
  have "rsplit_once c b = None" if "c \<notin> set b" for b using that by (induction b) auto
  with Nil show ?case by simp
qed simp

lemma join_snoc: "segs \<noteq> [] \<Longrightarrow> join_with sep (segs @ [l]) = join_with sep segs @ sep @ l"
  by (induction sep segs rule: join_with.induct) auto

lemma parent_paths_prefix:
  assumes "good_segments nfc (a @ b)" "a \<noteq> []" "b \<noteq> []"
  shows "join_with ''/'' a \<in> set (parent_paths (join_with ''/'' (a @ b)))"
  using assms(3,1)
proof (induction b rule: rev_induct)
  case (snoc l b)
  have "slash \<notin> set l" using snoc.prems by (auto simp: good_segments_def)
  with rsplit_once_last [of slash l "join_with ''/'' (a @ b)"] join_snoc [of "a @ b" "''/''" l] assms(2)
  have "parent_paths (join_with ''/'' ((a @ b) @ [l])) = join_with ''/'' (a @ b) # parent_paths (join_with ''/'' (a @ b))"
    by (subst parent_paths.simps) simp
  moreover have "good_segments nfc (a @ b)" using snoc.prems assms(2) by (auto simp: good_segments_def)
  ultimately show ?case using snoc.IH by (cases "b = []") auto
qed simp

section \<open>Trees that agree where the changes go\<close>

definition agree :: "string list set \<Rightarrow> virtual_directory \<Rightarrow> virtual_directory \<Rightarrow> bool" where
  "agree T B C \<longleftrightarrow> (\<forall>p \<in> T. get_entry (DirEntry B) p = get_entry (DirEntry C) p) \<and>
     (\<forall>p \<in> T. \<forall>a r. p = a @ r \<longrightarrow> r \<noteq> [] \<longrightarrow> is_dir (get_entry (DirEntry B) a) \<longrightarrow> is_dir (get_entry (DirEntry C) a))"

definition apart :: "string list set \<Rightarrow> string list \<Rightarrow> bool" where
  "apart T q \<longleftrightarrow> (\<forall>p \<in> T. \<not> prefix p q \<and> \<not> prefix q p)"

definition same_apart :: "string list set \<Rightarrow> virtual_directory \<Rightarrow> virtual_directory \<Rightarrow> bool" where
  "same_apart T C C' \<longleftrightarrow> (\<forall>q. apart T q \<longrightarrow> get_entry (DirEntry C') q = get_entry (DirEntry C) q)"

lemma edit_agree:
  assumes ok: "tree_ok (DirEntry B)" "tree_ok (DirEntry C)" and p: "p \<in> T" "p \<noteq> []"
    and f: "\<And>e. pred_option tree_ok e \<Longrightarrow> pred_option tree_ok (snd (f e))"
    and agree: "agree T B C" and run: "edit missing f p B = (Inr x, B')"
  shows "\<exists>C'. edit missing f p C = (Inr x, C') \<and> agree T B' C' \<and> tree_ok (DirEntry B') \<and> tree_ok (DirEntry C') \<and> same_apart T C C'"
proof -
  note b = edit_Inr [OF ok(1) p(2) run f]
  have here: "get_entry (DirEntry B) p = get_entry (DirEntry C) p" using agree p(1) by (simp add: agree_def)
  have "p = butlast p @ [last p]" using p(2) by simp
  then have "is_dir (get_entry (DirEntry C) (butlast p))"
    using agree p(1) b(1) unfolding agree_def by blast
  from edit_InrI [OF ok(2) p(2) this, of f x missing] b(2) here f
  obtain C' where run': "edit missing f p C = (Inr x, C')" by auto
  note c = edit_Inr [OF ok(2) p(2) run' f]
  have below: "get_entry (DirEntry B') (p @ q) = get_entry (DirEntry C') (p @ q)" for q
    using b(4) c(4) here by simp
  have frame: "get_entry (DirEntry B') q = get_entry (DirEntry B) q" "get_entry (DirEntry C') q = get_entry (DirEntry C) q"
    if "\<not> prefix p q" "\<not> prefix q p" for q
    using edit_frame [OF ok(1) that, of missing f] edit_frame [OF ok(2) that, of missing f] run run' by simp_all
  have above: "is_dir (get_entry (DirEntry C') q) \<and>
      (get_entry (DirEntry B) q = get_entry (DirEntry C) q \<longrightarrow> get_entry (DirEntry B') q = get_entry (DirEntry C') q)"
    if q: "p = q @ r" "r \<noteq> []" for q r
  proof -
    obtain sb sc where s: "get_entry (DirEntry B) q = Some (DirEntry sb)" "get_entry (DirEntry C) q = Some (DirEntry sc)"
      using get_above [OF b(1) q] get_above [OF c(1) q] by blast
    with edit_above [OF ok(1) s(1) q(2), of missing f] edit_above [OF ok(2) s(2) q(2), of missing f] run run' q(1)
    show ?thesis by simp
  qed
  have "agree T B' C'" unfolding agree_def
  proof (intro conjI ballI allI impI)
    fix t assume t: "t \<in> T"
    then have tt: "get_entry (DirEntry B) t = get_entry (DirEntry C) t" using agree by (simp add: agree_def)
    consider q where "t = p @ q" | r where "p = t @ r" "r \<noteq> []" | "\<not> prefix p t" "\<not> prefix t p"
      by (metis append_Nil2 prefix_def)
    then show "get_entry (DirEntry B') t = get_entry (DirEntry C') t"
      by cases (use below above tt frame in auto)
  next
    fix t a r assume t: "t \<in> T" "t = a @ r" "r \<noteq> []" and dir: "is_dir (get_entry (DirEntry B') a)"
    consider q where "a = p @ q" | r where "p = a @ r" "r \<noteq> []" | "\<not> prefix p a" "\<not> prefix a p"
      by (metis append_Nil2 prefix_def)
    then show "is_dir (get_entry (DirEntry C') a)"
    proof cases
      case 3
      with t dir agree show ?thesis by (simp add: frame agree_def)
    qed (use below above dir in auto)
  qed
  moreover have "same_apart T C C'" using frame p(1) by (simp add: same_apart_def apart_def)
  ultimately show ?thesis using run' b(3) c(3) by blast
qed

text \<open>Programs on the tree that do to one tree what they did to another that agrees with it.\<close>

definition carries :: "string list set \<Rightarrow> ('a \<Rightarrow> bool) \<Rightarrow> (virtual_directory, 'a) prog \<Rightarrow> bool" where
  "carries T P m \<longleftrightarrow> (\<forall>B C x B'. tree_ok (DirEntry B) \<longrightarrow> tree_ok (DirEntry C) \<longrightarrow> agree T B C \<longrightarrow> m B = (Inr x, B') \<longrightarrow>
     P x \<and> tree_ok (DirEntry B') \<and>
     (\<exists>C'. m C = (Inr x, C') \<and> agree T B' C' \<and> tree_ok (DirEntry C') \<and> same_apart T C C'))"

lemma carriesI:
  assumes "\<And>B C x B'. tree_ok (DirEntry B) \<Longrightarrow> tree_ok (DirEntry C) \<Longrightarrow> agree T B C \<Longrightarrow> m B = (Inr x, B') \<Longrightarrow>
     P x \<and> tree_ok (DirEntry B') \<and>
     (\<exists>C'. m C = (Inr x, C') \<and> agree T B' C' \<and> tree_ok (DirEntry C') \<and> same_apart T C C')"
  shows "carries T P m"
  unfolding carries_def using assms by blast

lemma carriesD:
  assumes "carries T P m" "tree_ok (DirEntry B)" "tree_ok (DirEntry C)" "agree T B C" "m B = (Inr x, B')"
  shows "P x" "tree_ok (DirEntry B')"
    "\<exists>C'. m C = (Inr x, C') \<and> agree T B' C' \<and> tree_ok (DirEntry C') \<and> same_apart T C C'"
  using assms unfolding carries_def by blast+

lemma carries_sret [simp]: "P x \<Longrightarrow> carries T P (sret x)"
  by (rule carriesI) (simp add: sret_def same_apart_def)

lemma carries_sfail [simp]: "carries T P (sfail e)"
  by (rule carriesI) (simp add: sfail_def)

lemma carries_sbind:
  assumes m: "carries T P m" and f: "\<And>x. P x \<Longrightarrow> carries T Q (f x)"
  shows "carries T Q (sbind m f)"
proof (rule carriesI)
  fix B C y B'' assume ok: "tree_ok (DirEntry B)" "tree_ok (DirEntry C)" "agree T B C" and run: "sbind m f B = (Inr y, B'')"
  obtain x B' where one: "m B = (Inr x, B')" "f x B' = (Inr y, B'')"
    using run by (cases "m B") (auto simp: sbind_def split: sum.splits)
  note d = carriesD [OF m ok one(1)]
  obtain C' where C': "m C = (Inr x, C')" "agree T B' C'" "tree_ok (DirEntry C')" "same_apart T C C'" using d(3) by blast
  note e = carriesD [OF f [OF d(1)] d(2) C'(3,2) one(2)]
  obtain C'' where C'': "f x C' = (Inr y, C'')" "agree T B'' C''" "tree_ok (DirEntry C'')" "same_apart T C' C''" using e(3) by blast
  have "sbind m f C = (Inr y, C'')" by (simp add: sbind_def C'(1) C''(1))
  moreover have "same_apart T C C''" using C'(4) C''(4) by (simp add: same_apart_def)
  ultimately show "Q y \<and> tree_ok (DirEntry B'') \<and>
     (\<exists>C'. sbind m f C = (Inr y, C') \<and> agree T B'' C' \<and> tree_ok (DirEntry C') \<and> same_apart T C C')"
    using e(1,2) C''(2,3) by blast
qed

lemma carries_edit:
  assumes p: "p \<in> T" "p \<noteq> []" and m: "\<And>d. tree_ok (DirEntry d) \<Longrightarrow> m d = edit missing f p d"
    and f: "\<And>e. pred_option tree_ok e \<Longrightarrow> pred_option tree_ok (snd (f e))"
    and P: "\<And>e x. pred_option tree_ok e \<Longrightarrow> fst (f e) = Inr x \<Longrightarrow> P x"
  shows "carries T P m"
proof (rule carriesI)
  fix B C x B' assume ok: "tree_ok (DirEntry B)" "tree_ok (DirEntry C)" "agree T B C" "m B = (Inr x, B')"
  then have run: "edit missing f p B = (Inr x, B')" by (simp add: m del: tree_ok_simps)
  have "pred_option tree_ok (get_entry (DirEntry B) p)"
    using tree_ok_get [OF ok(1)] by (cases "get_entry (DirEntry B) p") (simp_all del: tree_ok_simps)
  with P edit_Inr(2) [OF ok(1) p(2) run f] have "P x" by blast
  with edit_agree [OF ok(1,2) p f ok(3) run] m [OF ok(2)]
  show "P x \<and> tree_ok (DirEntry B') \<and>
     (\<exists>C'. m C = (Inr x, C') \<and> agree T B' C' \<and> tree_ok (DirEntry C') \<and> same_apart T C C')" by metis
qed

lemma carries_upsert: "path_segments p \<in> T \<Longrightarrow> carries T (\<lambda>_. True) (upsert_file now p bytes)"
  unfolding upsert_file_def by (rule carries_edit [OF _ path_segments_nonempty upsert_is_edit edits_ok(2)]) simp_all

lemma carries_create: "path_segments p \<in> T \<Longrightarrow> carries T (\<lambda>_. True) (create_directory p)"
  unfolding create_directory_def by (rule carries_edit [OF _ path_segments_nonempty create_is_edit edits_ok(1)]) simp_all

lemma carries_remove: "path_segments p \<in> T \<Longrightarrow> carries T tree_ok (remove_entry_segments (path_segments p))"
  by (rule carries_edit [OF _ path_segments_nonempty remove_is_edit edits_ok(3)])
    (auto simp: remove_edit_def split: option.splits)

lemma carries_insert:
  "tree_ok x \<Longrightarrow> path_segments p \<in> T \<Longrightarrow> carries T (\<lambda>_. True) (insert_entry_segments x (path_segments p))"
  by (rule carries_edit [OF _ path_segments_nonempty insert_is_edit edits_ok(4)]) simp_all

lemma carries_change:
  assumes T: "\<And>p. p \<in> set (exact_conflict_paths nfc ch) \<Longrightarrow> path_segments p \<in> T"
    and valid: "\<And>path s. validate_overlay_path nfc path = Inr s \<Longrightarrow> s = normalize_snapshot_path nfc path"
  shows "carries T (\<lambda>_. True) (apply_overlay_change nfc now ch)"
proof -
  have v: "carries T (\<lambda>_. True) (sbind (slift (validate_overlay_path nfc path)) m)"
    if ok: "carries T (\<lambda>_. True) (m (normalize_snapshot_path nfc path))" for path m
  proof (cases "validate_overlay_path nfc path")
    case (Inl e)
    then have "sbind (slift (validate_overlay_path nfc path)) m = sfail e"
      by (simp add: fun_eq_iff sbind_def slift_def sfail_def)
    then show ?thesis by simp
  next
    case (Inr s)
    then have "sbind (slift (validate_overlay_path nfc path)) m = m s"
      by (simp add: fun_eq_iff sbind_def slift_def)
    with ok valid [OF Inr] show ?thesis by simp
  qed
  show ?thesis
  proof (cases ch)
    case (UpsertFile path bytes)
    then show ?thesis using T by (simp add: v carries_upsert del: sbind_prim)
  next
    case (DeleteFile path)
    then show ?thesis using T
      by (auto simp: delete_file_def simp del: sbind_prim intro!: v carries_sbind [OF carries_remove] split: virtual_entry.split)
  next
    case (CreateDirectory path)
    then show ?thesis using T by (simp add: v carries_create del: sbind_prim)
  next
    case (DeleteDirectory path)
    then show ?thesis using T
      by (auto simp: delete_directory_def simp del: sbind_prim intro!: v carries_sbind [OF carries_remove] split: virtual_entry.split)
  next
    case (Rename p q)
    then show ?thesis using T
      by (auto simp: rename_entry_def simp del: sbind_prim intro!: v carries_sbind [OF carries_remove] carries_insert)
  qed
qed

lemma carries_changes:
  assumes "\<And>ch p. ch \<in> set changes \<Longrightarrow> p \<in> set (exact_conflict_paths nfc ch) \<Longrightarrow> path_segments p \<in> T"
    and valid: "\<And>path s. validate_overlay_path nfc path = Inr s \<Longrightarrow> s = normalize_snapshot_path nfc path"
  shows "carries T (\<lambda>_. True) (apply_overlay_changes nfc clock changes)"
  using assms(1)
proof (induction changes arbitrary: clock)
  case (Cons ch changes)
  show ?case unfolding apply_overlay_changes.simps
    using Cons by (intro carries_sbind [OF carries_change] valid) auto
qed simp

section \<open>Rebasing a writeback\<close>

definition touched :: "(string \<Rightarrow> string) \<Rightarrow> branch_overlay_change list \<Rightarrow> string list set" where
  "touched nfc changes = path_segments ` (\<Union>ch \<in> set changes. set (exact_conflict_paths nfc ch))"

lemma change_paths_good:
  assumes "nfc_ok nfc" "apply_overlay_change nfc now ch d = (Inr u, d')" "p \<in> set (exact_conflict_paths nfc ch)"
  shows "good_segments nfc (path_segments p) \<and> join_with ''/'' (path_segments p) = p"
proof -
  have "\<exists>path s. validate_overlay_path nfc path = Inr s \<and> p = normalize_snapshot_path nfc path"
    using assms(2,3) by (cases ch) (auto split: sum.splits)
  then show ?thesis using validate_overlay_path_good [OF assms(1)] by metis
qed

lemma changes_paths_good:
  "nfc_ok nfc \<Longrightarrow> apply_overlay_changes nfc clock changes d = (Inr u, d') \<Longrightarrow> ch \<in> set changes \<Longrightarrow>
     p \<in> set (exact_conflict_paths nfc ch) \<Longrightarrow>
     good_segments nfc (path_segments p) \<and> join_with ''/'' (path_segments p) = p"
proof (induction changes arbitrary: clock d)
  case (Cons c cs)
  from Cons.prems(2) obtain v d1 where
    "apply_overlay_change nfc (clock 0) c d = (Inr v, d1)" "apply_overlay_changes nfc (\<lambda>n. clock (Suc n)) cs d1 = (Inr u, d')"
    by (auto simp: sbind_Inr_iff)
  with Cons show ?case using change_paths_good by auto
qed simp

lemma no_conflict_agree:
  assumes M: "names_distinct M"
    and load: "load_virtual_directory_from_snapshot k M expected = Some (Inr B)"
      "load_virtual_directory_from_snapshot k' M current_head = Some (Inr C)"
    and detect: "detect_branch_overlay_conflicts nfc M expected current_head changes = Inr []"
    and good: "\<And>ch p. ch \<in> set changes \<Longrightarrow> p \<in> set (exact_conflict_paths nfc ch) \<Longrightarrow>
      good_segments nfc (path_segments p) \<and> join_with ''/'' (path_segments p) = p"
  shows "agree (touched nfc changes) B C"
proof -
  obtain u seen where "detect_conflicts_loop nfc M expected current_head changes ([], {}) = (Inr u, [], seen)"
    using detect by (auto simp: detect_branch_overlay_conflicts_def split: prod.splits sum.splits)
  note none = detect_loop_empty [OF this, simplified]
  have exact: "get_entry (DirEntry B) (path_segments p) = get_entry (DirEntry C) (path_segments p)"
    if p: "ch \<in> set changes" "p \<in> set (exact_conflict_paths nfc ch)" for ch p
  proof -
    obtain st where "snapshot_path_state nfc M expected p = Inr st" "snapshot_path_state nfc M current_head p = Inr st"
      using none p by blast
    with snapshot_path_state_shows [OF M load(1), of nfc "path_segments p" st]
      snapshot_path_state_shows [OF M load(2), of nfc "path_segments p" st] good [OF p]
    show ?thesis using state_shows_eq by metis
  qed
  have above: "is_dir (get_entry (DirEntry C) a)"
    if p: "ch \<in> set changes" "p \<in> set (exact_conflict_paths nfc ch)" and a: "path_segments p = a @ r" "r \<noteq> []"
      and dir: "is_dir (get_entry (DirEntry B) a)" for ch p a r
  proof (cases "a = []")
    case False
    have g: "good_segments nfc (a @ r)" "join_with ''/'' (a @ r) = p" using good [OF p] a(1) by simp_all
    have "join_with ''/'' a \<in> set (ancestor_conflict_paths nfc ch)"
      using parent_paths_prefix [OF g(1) False a(2)] g(2) p(2) by (auto simp: ancestor_conflict_paths_def)
    then obtain b c where st: "snapshot_path_state nfc M expected (join_with ''/'' a) = Inr b"
        "snapshot_path_state nfc M current_head (join_with ''/'' a) = Inr c" "\<not> ancestor_transition_conflicts b c"
      using none p(1) by blast
    note sh = snapshot_path_state_shows [OF M load(1) good_prefix [OF g(1) False] st(1)]
      snapshot_path_state_shows [OF M load(2) good_prefix [OF g(1) False] st(2)]
    from dir state_shows_dir [OF sh(1)] have "kind_label b = ''directory''" by simp
    with st(3) have "kind_label c = ''directory''" by (auto simp: ancestor_transition_conflicts_def Let_def split: if_splits)
    with state_shows_dir [OF sh(2)] show ?thesis by simp
  qed simp
  have t: "\<exists>ch \<in> set changes. \<exists>p \<in> set (exact_conflict_paths nfc ch). q = path_segments p"
    if "q \<in> touched nfc changes" for q
    using that by (auto simp: touched_def)
  show ?thesis unfolding agree_def
  proof (intro conjI ballI allI impI)
    fix q assume "q \<in> touched nfc changes"
    with t exact show "get_entry (DirEntry B) q = get_entry (DirEntry C) q" by metis
  next
    fix q a r assume "q \<in> touched nfc changes" "q = a @ r" "r \<noteq> []" "is_dir (get_entry (DirEntry B) a)"
    with t above show "is_dir (get_entry (DirEntry C) a)" by metis
  qed
qed

text \<open>C23: A writeback that found no conflict can be rebased: when the snapshot the overlay was made
  on and the current head both load, no directory lists a name twice, and the changes apply to
  the first, then they apply to the second; every path a change names is afterwards the same in
  both (its whole subtree included), and whatever is neither above, at nor below such a path is
  still what the current head had there, so no concurrent change is lost.
\<close>

theorem rebased_overlay_agrees:
  assumes "nfc_ok nfc" "names_distinct M"
    and "load_virtual_directory_from_snapshot k M expected = Some (Inr B)"
    and "load_virtual_directory_from_snapshot k' M current_head = Some (Inr C)"
    and "detect_branch_overlay_conflicts nfc M expected current_head changes = Inr []"
    and "apply_overlay_changes nfc clock changes B = (Inr (), B')"
  shows "\<exists>C'. apply_overlay_changes nfc clock changes C = (Inr (), C') \<and>
    (\<forall>p \<in> touched nfc changes. get_entry (DirEntry C') p = get_entry (DirEntry B') p) \<and>
    (\<forall>q. apart (touched nfc changes) q \<longrightarrow> get_entry (DirEntry C') q = get_entry (DirEntry C) q)"
proof -
  have good: "good_segments nfc (path_segments p) \<and> join_with ''/'' (path_segments p) = p"
    if "ch \<in> set changes" "p \<in> set (exact_conflict_paths nfc ch)" for ch p
    using changes_paths_good [OF assms(1,6) that] .
  have all: "carries (touched nfc changes) (\<lambda>_. True) (apply_overlay_changes nfc clock changes)"
    by (rule carries_changes) (auto simp: touched_def dest: validate_overlay_path_good(1) [OF assms(1)])
  have agree: "agree (touched nfc changes) B C"
    by (rule no_conflict_agree [OF assms(2-5)]) (rule good)
  from carriesD(3) [OF all load_snapshot_ok [OF assms(3)] load_snapshot_ok [OF assms(4)] agree assms(6)]
  show ?thesis by (auto simp: agree_def same_apart_def)
qed

text \<open>A file staged on an empty branch, rebased onto the sample snapshot.\<close>

lemma sample_names_distinct: "names_distinct sample_manifest"
  unfolding names_distinct_def
proof (intro allI impI)
  fix i t assume "get_tree_node sample_manifest i = Inr t"
  then have "(\<exists>x r. from_slice (ms_tree sample_manifest) x = Some r \<and> tr_entries t = tr_entries r) \<or>
      (\<exists>y r. from_slice (ms_directory_root sample_manifest) y = Some r)"
    by (fastforce simp: get_tree_node_def read_directory_entries_def read_directory_object_def rbind_Inr_iff postcard_from_bytes_def
        with_context_Inr_iff ok_or_Inr_iff validate_manifest_schema_version_def repo_format_version_def split: if_splits)
  then show "distinct (map te_name (tr_entries t))"
    by (auto simp: sample_manifest_def table_codec_def split: if_splits)
qed

lemma sample_trees:
  "get_tree_node sample_manifest id_root = Inr \<lparr> tr_schema_version = 1, tr_entries =
     [\<lparr> te_name = ''docs'', te_kind = ''tree'', te_object_id = id_docs \<rparr>,
      \<lparr> te_name = ''x.txt'', te_kind = ''file'', te_object_id = id_file \<rparr>] \<rparr>"
  "get_tree_node sample_manifest id_docs = Inr \<lparr> tr_schema_version = 1, tr_entries =
     [\<lparr> te_name = ''a.txt'', te_kind = ''file'', te_object_id = id_file \<rparr>] \<rparr>"
  by (simp_all add: get_tree_node_def read_directory_entries_def sample_reads repo_format_version_def)

definition sample_head :: virtual_directory where
  "sample_head = VirtualDirectory
     [(''docs'', DirEntry (VirtualDirectory [(''a.txt'', FileEntry (Existing id_file))])),
      (''x.txt'', FileEntry (Existing id_file))]"

lemma sample_head_loads:
  "load_virtual_directory_from_snapshot 2 sample_manifest (Some id_snapshot) = Some (Inr sample_head)"
proof -
  obtain sn where sn: "read_snapshot_object sample_manifest id_snapshot = Inr sn" "sn_root_tree_id sn = id_root"
    using sample_reads(1) by blast
  then show ?thesis
    by (simp add: load_virtual_directory_from_snapshot_def get_snapshot_def eval_nat_numeral sample_trees sample_head_def)
qed

theorem rebased_overlay_agrees_witness:
  "\<exists>C'. apply_overlay_changes (\<lambda>s. s) (\<lambda>n. 7) [UpsertFile ''new'' [1]] sample_head = (Inr (), C') \<and>
     get_entry (DirEntry C') [''new''] = Some (FileEntry (Staged [1] 7)) \<and>
     get_entry (DirEntry C') [''docs'', ''a.txt''] = Some (FileEntry (Existing id_file))"
proof -
  obtain sn where sn: "read_snapshot_object sample_manifest id_snapshot = Inr sn" "sn_root_tree_id sn = id_root"
    using sample_reads(1) by blast
  have norm: "normalize_snapshot_path (\<lambda>s. s) ''new'' = ''new''" "path_segments ''new'' = [''new'']" by code_simp+
  have parents: "parent_paths ''new'' = []" by (subst parent_paths.simps) simp
  have "snapshot_path_state (\<lambda>s. s) sample_manifest (Some id_snapshot) ''new'' = Inr Missing_Path"
    using norm by (simp add: snapshot_path_state_def get_snapshot_def sn path_segments_def sample_trees)
  moreover have "snapshot_path_state (\<lambda>s. s) sample_manifest None ''new'' = Inr Missing_Path"
    using norm by (simp add: snapshot_path_state_def)
  ultimately have detect: "detect_branch_overlay_conflicts (\<lambda>s. s) sample_manifest None (Some id_snapshot)
      [UpsertFile ''new'' [1]] = Inr []"
    by (simp add: detect_branch_overlay_conflicts_def sbind_def sret_def conflict_at_def norm ancestor_conflict_paths_def parents)
  have run: "apply_overlay_changes (\<lambda>s. s) (\<lambda>n. 7) [UpsertFile ''new'' [1]] empty_directory =
      (Inr (), VirtualDirectory [(''new'', FileEntry (Staged [1] 7))])"
    by code_simp
  have "nfc_ok (\<lambda>s. s)" by (simp add: nfc_ok_def)
  from rebased_overlay_agrees [OF this sample_names_distinct _ sample_head_loads detect run, of 0]
  have "\<exists>C'. apply_overlay_changes (\<lambda>s. s) (\<lambda>n. 7) [UpsertFile ''new'' [1]] sample_head = (Inr (), C') \<and>
      get_entry (DirEntry C') [''new''] = get_entry (DirEntry (VirtualDirectory [(''new'', FileEntry (Staged [1] 7))])) [''new''] \<and>
      get_entry (DirEntry C') [''docs'', ''a.txt''] = get_entry (DirEntry sample_head) [''docs'', ''a.txt'']"
    by (auto simp: load_virtual_directory_from_snapshot_def touched_def apart_def norm simp del: get_entry.simps)
  then show ?thesis by (simp add: sample_head_def)
qed

end
