(* ===== verification/Refs.thy ===== *)
theory Refs
  imports Manifest Layout
begin

text \<open>
  The local refs of a repository and the branch operations on them (\<^verbatim>\<open>e2v-core/src/facade.rs\<close>).
  The default ref is a copy of the record of the current branch; every branch has its own file
  below \<^verbatim>\<open>refs/branches\<close>, named by the token of its name. Both are sealed records. The secrets
  are the unlocked ones: opening the keyring is not modelled. Walks along the parents of a
  snapshot take fuel and return \<^const>\<open>None\<close> when it is used up.
\<close>

section \<open>Records\<close>

record ref_record =
  rf_branch_name :: string
  rf_ref_token_hex :: string
  rf_head_snapshot_id :: "string option"

text \<open>The codecs of sealed records, refs and the layout root.\<close>

record ref_codecs =
  rc_sealed :: "encrypted_control_record serde"
  rc_ref :: "ref_record serde"
  rc_layout :: "layout_root serde"

definition default_ref_token :: string where "default_ref_token = ''default''"
definition default_ref_file :: string where "default_ref_file = ''refs/default.json''"
definition branch_refs_dir :: string where "branch_refs_dir = ''refs/branches''"
definition layout_root_file :: string where "layout_root_file = ''layout_root.json''"

definition branch_ref_stable_name :: "string \<Rightarrow> string" where
  "branch_ref_stable_name ref_token_hex = ''branch-ref:'' @ ref_token_hex"

text \<open>The path of a branch ref below the control directory.\<close>

definition branch_ref_file :: "string \<Rightarrow> string res" where
  "branch_ref_file ref_token_hex = rbind (branch_ref_path [] ref_token_hex) (\<lambda>p. Inr (tl p))"

definition derive_branch_token :: "crypto \<Rightarrow> byte list \<Rightarrow> string \<Rightarrow> string" where
  "derive_branch_token C ref_key branch_name =
     hex_encode (keyed_hash C ref_key (as_bytes (''branch:'' @ branch_name)))"

abbreviation branch_token :: "manifest_store \<Rightarrow> string \<Rightarrow> string" where
  "branch_token M \<equiv> derive_branch_token (ms_crypto M) (repo_ref_key (ms_secrets M))"

section \<open>Reading and writing refs\<close>

definition seal_ref :: "manifest_store \<Rightarrow> ref_codecs \<Rightarrow> string \<Rightarrow> ref_record \<Rightarrow> byte list res" where
  "seal_ref M K stable_name value =
     encrypt_control_record (ms_crypto M) (rc_sealed K) (ms_secrets M) stable_name ''ref'' (to_vec (rc_ref K) value)"

definition open_ref :: "manifest_store \<Rightarrow> ref_codecs \<Rightarrow> string \<Rightarrow> string \<Rightarrow> byte list \<Rightarrow> ref_record res" where
  "open_ref M K context_text stable_name bytes =
     rbind (decrypt_control_record (ms_crypto M) (rc_sealed K) (ms_secrets M) stable_name ''ref'' bytes) (\<lambda>plaintext.
     with_context context_text (ok_or (Bail ''postcard'') (from_slice (rc_ref K) plaintext)))"

definition write_file :: "string \<Rightarrow> byte list \<Rightarrow> (files, unit) prog" where
  "write_file path bytes fs = (Inr (), bt_insert path bytes fs)"

definition write_default_ref :: "manifest_store \<Rightarrow> ref_codecs \<Rightarrow> ref_record \<Rightarrow> (files, unit) prog" where
  "write_default_ref M K value =
     sbind (slift (seal_ref M K default_ref_token value)) (\<lambda>bytes. write_file default_ref_file bytes)"

definition write_branch_ref :: "manifest_store \<Rightarrow> ref_codecs \<Rightarrow> ref_record \<Rightarrow> (files, unit) prog" where
  "write_branch_ref M K value =
     sbind (slift (seal_ref M K (branch_ref_stable_name (rf_ref_token_hex value)) value)) (\<lambda>bytes.
     sbind (slift (branch_ref_file (rf_ref_token_hex value))) (\<lambda>path. write_file path bytes))"

definition read_default_ref :: "manifest_store \<Rightarrow> ref_codecs \<Rightarrow> files \<Rightarrow> ref_record res" where
  "read_default_ref M K fs =
     rbind (with_context ''failed to read'' (fs_read default_ref_file fs)) (\<lambda>bytes.
     open_ref M K ''failed to decode ref record'' default_ref_token bytes)"

definition read_branch_ref_if_exists :: "manifest_store \<Rightarrow> ref_codecs \<Rightarrow> string \<Rightarrow> files \<Rightarrow> ref_record option res" where
  "read_branch_ref_if_exists M K ref_token_hex fs =
     rbind (branch_ref_file ref_token_hex) (\<lambda>path.
     case map_of fs path of
       None \<Rightarrow> Inr None
     | Some bytes \<Rightarrow>
         rbind (open_ref M K ''failed to decode branch ref record'' (branch_ref_stable_name ref_token_hex) bytes) (\<lambda>record.
         ensure (rf_ref_token_hex record = ref_token_hex) (Bail ''branch ref token mismatch'')
           (Inr (Some record))))"

text \<open>The files directly in the directory of branch refs that are named \<^verbatim>\<open>*.json\<close>, in the order of their names.\<close>

definition branch_ref_tokens :: "files \<Rightarrow> string list" where
  "branch_ref_tokens fs = List.map_filter (\<lambda>(path, bytes).
     case strip_prefix (branch_refs_dir @ ''/'') path of
       None \<Rightarrow> None
     | Some name \<Rightarrow>
         if slash \<in> set name then None
         else (case rsplit_once (CHR ''.'') name of
                 Some (stem, ext) \<Rightarrow> if stem \<noteq> [] \<and> ext = ''json'' then Some stem else None
               | None \<Rightarrow> None)) fs"

definition read_all_branch_refs :: "manifest_store \<Rightarrow> ref_codecs \<Rightarrow> files \<Rightarrow> ref_record list res" where
  "read_all_branch_refs M K fs =
     rbind (mapM (\<lambda>token_hex. read_branch_ref_if_exists M K token_hex fs) (branch_ref_tokens fs)) (\<lambda>found.
     Inr (List.map_filter (\<lambda>r. r) found))"

section \<open>Opening\<close>

definition validate_layout_root_value :: "layout_root \<Rightarrow> unit res" where
  "validate_layout_root_value root =
     ensure (root_schema_version root = repo_format_version) (Bail ''unsupported layout root schema version'')
    (ensure (\<not> blank (root_layout_id root)) (Bail ''layout root id must not be empty'')
    (ensure (\<not> blank (mapping_policy root)) (Bail ''layout root mapping policy must not be empty'')
    (Inr ())))"

definition validate_layout_root :: "ref_codecs \<Rightarrow> files \<Rightarrow> layout_root res" where
  "validate_layout_root K fs =
     rbind (with_context ''failed to read'' (fs_read layout_root_file fs)) (\<lambda>bytes.
     rbind (with_context ''failed to decode'' (ok_or (Bail ''json'') (from_slice (rc_layout K) bytes))) (\<lambda>root.
     rbind (validate_layout_root_value root) (\<lambda>_. Inr root)))"

record branch_state =
  bs_name :: string
  bs_token_hex :: string

record repository_state =
  rs_branch :: branch_state
  rs_layout_generation :: u64

definition open_repository :: "manifest_store \<Rightarrow> ref_codecs \<Rightarrow> files \<Rightarrow> repository_state res" where
  "open_repository M K fs =
     rbind (validate_layout_root K fs) (\<lambda>root.
     rbind (read_default_ref M K fs) (\<lambda>default_ref.
     ensure (\<not> blank (rf_branch_name default_ref)) (Bail ''default ref record is missing branch name'')
       (Inr \<lparr> rs_branch = \<lparr> bs_name = rf_branch_name default_ref, bs_token_hex = rf_ref_token_hex default_ref \<rparr>,
              rs_layout_generation = root_generation root \<rparr>)))"

section \<open>Branches\<close>

definition create_branch :: "manifest_store \<Rightarrow> ref_codecs \<Rightarrow> string \<Rightarrow> (files, branch_state) prog" where
  "create_branch M K branch_name =
     sensure (\<not> blank branch_name) (Bail ''branch name must not be empty'')
    (sbind (sread (read_default_ref M K)) (\<lambda>current_ref.
     let token_hex = branch_token M branch_name in
     sensure (rf_ref_token_hex current_ref \<noteq> token_hex) (Bail ''branch already exists'')
    (sbind (sread (read_branch_ref_if_exists M K token_hex)) (\<lambda>existing.
     sensure (existing = None) (Bail ''branch already exists'')
    (sbind (write_branch_ref M K
        \<lparr> rf_branch_name = branch_name, rf_ref_token_hex = token_hex,
          rf_head_snapshot_id = rf_head_snapshot_id current_ref \<rparr>) (\<lambda>_.
     sret \<lparr> bs_name = branch_name, bs_token_hex = token_hex \<rparr>))))))"

record branch_summary =
  bm_name :: string
  bm_token_hex :: string
  bm_head_snapshot_id :: "string option"
  bm_is_current :: bool

definition list_branches :: "manifest_store \<Rightarrow> ref_codecs \<Rightarrow> files \<Rightarrow> branch_summary list res" where
  "list_branches M K fs =
     rbind (read_default_ref M K fs) (\<lambda>current_ref.
     rbind (read_all_branch_refs M K fs) (\<lambda>branches.
     ensure (\<exists>b \<in> set branches. rf_ref_token_hex b = rf_ref_token_hex current_ref)
       (Bail ''current branch ref is missing from refs/branches'')
       (Inr (map (\<lambda>b. \<lparr> bm_name = rf_branch_name b, bm_token_hex = rf_ref_token_hex b,
                 bm_head_snapshot_id = rf_head_snapshot_id b,
                 bm_is_current = (rf_ref_token_hex b = rf_ref_token_hex current_ref) \<rparr>)
          (sort_key rf_branch_name branches)))))"

definition delete_branch :: "manifest_store \<Rightarrow> ref_codecs \<Rightarrow> string \<Rightarrow> (files, unit) prog" where
  "delete_branch M K branch_name =
     sensure (\<not> blank branch_name) (Bail ''branch name must not be empty'')
    (sbind (sread (read_default_ref M K)) (\<lambda>current_ref.
     let token_hex = branch_token M branch_name in
     sensure (rf_ref_token_hex current_ref \<noteq> token_hex) (Bail ''cannot delete the current branch'')
    (sbind (slift (branch_ref_file token_hex)) (\<lambda>path fs.
     if map_of fs path \<noteq> None then (Inr (), bt_remove path fs) else (Inl (Bail ''branch not found''), fs)))))"

definition checkout_branch :: "manifest_store \<Rightarrow> ref_codecs \<Rightarrow> string \<Rightarrow> (files, repository_state) prog" where
  "checkout_branch M K branch_name =
     sensure (\<not> blank branch_name) (Bail ''branch name must not be empty'')
    (sbind (sread (read_default_ref M K)) (\<lambda>current_ref.
     let token_hex = branch_token M branch_name in
     sbind (if rf_ref_token_hex current_ref = token_hex then sret current_ref
            else sbind (sread (read_branch_ref_if_exists M K token_hex)) (\<lambda>found.
                 slift (ok_or (Bail ''branch not found'') found))) (\<lambda>target_ref.
     sbind (write_default_ref M K target_ref) (\<lambda>_.
     sread (open_repository M K)))))"

text \<open>The branch's own record, or the default ref's when that is the branch and the file is missing.\<close>

definition branch_or_default :: "manifest_store \<Rightarrow> ref_codecs \<Rightarrow> string \<Rightarrow> files \<Rightarrow> ref_record res" where
  "branch_or_default M K ref_token_hex fs =
     rbind (read_branch_ref_if_exists M K ref_token_hex fs) (\<lambda>found.
     case found of
       Some branch_ref \<Rightarrow> Inr branch_ref
     | None \<Rightarrow>
         rbind (read_default_ref M K fs) (\<lambda>current_default_ref.
         ensure (rf_ref_token_hex current_default_ref = ref_token_hex) (Bail ''branch ref not found for token'')
           (Inr current_default_ref)))"

definition restore_default_ref_from_branch :: "manifest_store \<Rightarrow> ref_codecs \<Rightarrow> string \<Rightarrow> (files, string option) prog" where
  "restore_default_ref_from_branch M K ref_token_hex =
     sbind (slift (validate_ref_token_value ref_token_hex)) (\<lambda>_.
     sbind (sread (branch_or_default M K ref_token_hex)) (\<lambda>branch_ref.
     sbind (write_default_ref M K branch_ref) (\<lambda>_. sret (rf_head_snapshot_id branch_ref))))"

definition default_head_snapshot_id :: "manifest_store \<Rightarrow> ref_codecs \<Rightarrow> files \<Rightarrow> string option res" where
  "default_head_snapshot_id M K fs = rbind (read_default_ref M K fs) (\<lambda>r. Inr (rf_head_snapshot_id r))"

section \<open>Histories\<close>

record snapshot_summary =
  ss_snapshot_id :: string
  ss_message :: string
  ss_parent_snapshot_id :: "string option"

fun snapshots_from :: "nat \<Rightarrow> manifest_store \<Rightarrow> string option \<Rightarrow> snapshot_summary list \<Rightarrow> snapshot_summary list res option" where
  "snapshots_from fuel M None acc = Some (Inr acc)"
| "snapshots_from 0 M (Some snapshot_id) acc = None"
| "snapshots_from (Suc fuel) M (Some snapshot_id) acc =
     (case read_snapshot_object M snapshot_id of
        Inl e \<Rightarrow> Some (Inl e)
      | Inr snapshot \<Rightarrow>
          snapshots_from fuel M (sn_parent_snapshot_id snapshot)
            (acc @ [\<lparr> ss_snapshot_id = snapshot_id, ss_message = sn_message snapshot,
                      ss_parent_snapshot_id = sn_parent_snapshot_id snapshot \<rparr>]))"

definition snapshots :: "nat \<Rightarrow> manifest_store \<Rightarrow> ref_codecs \<Rightarrow> files \<Rightarrow> snapshot_summary list res option" where
  "snapshots fuel M K fs =
     (case read_default_ref M K fs of
        Inl e \<Rightarrow> Some (Inl e)
      | Inr default_ref \<Rightarrow> snapshots_from fuel (store_at M fs) (rf_head_snapshot_id default_ref) [])"

fun search_parents :: "nat \<Rightarrow> manifest_store \<Rightarrow> string \<Rightarrow> string option \<Rightarrow> bool res option" where
  "search_parents fuel M wanted None = Some (Inr False)"
| "search_parents 0 M wanted (Some snapshot_id) = None"
| "search_parents (Suc fuel) M wanted (Some snapshot_id) =
     (if snapshot_id = wanted then Some (Inr True)
      else (case get_snapshot M snapshot_id of
              Inl e \<Rightarrow> Some (Inl e)
            | Inr snapshot \<Rightarrow> search_parents fuel M wanted (sn_parent_snapshot_id snapshot)))"

definition branch_fast_forward_allowed ::
  "nat \<Rightarrow> manifest_store \<Rightarrow> string option \<Rightarrow> string option \<Rightarrow> bool res option" where
  "branch_fast_forward_allowed fuel M previous_head next_head =
     (case next_head of
        None \<Rightarrow> Some (Inr (previous_head = None))
      | Some n \<Rightarrow>
          (case previous_head of
             None \<Rightarrow> Some (Inr True)
           | Some p \<Rightarrow> if p = n then Some (Inr True) else search_parents fuel M p (Some n)))"

definition update_branch_head_if_fast_forward ::
  "nat \<Rightarrow> manifest_store \<Rightarrow> ref_codecs \<Rightarrow> string \<Rightarrow> string option \<Rightarrow> files \<Rightarrow> (string option res \<times> files) option" where
  "update_branch_head_if_fast_forward fuel M K ref_token_hex next_head fs =
     (case rbind (validate_ref_token_value ref_token_hex) (\<lambda>_.
           rbind (case next_head of
                    None \<Rightarrow> Inr ()
                  | Some i \<Rightarrow> with_context ''invalid snapshot id'' (validate_object_id_value i)) (\<lambda>_.
           rbind (read_default_ref M K fs) (\<lambda>current_default_ref.
           rbind (read_branch_ref_if_exists M K ref_token_hex fs) (\<lambda>found.
           rbind (case found of
                    Some branch_ref \<Rightarrow> Inr branch_ref
                  | None \<Rightarrow>
                      ensure (rf_ref_token_hex current_default_ref = ref_token_hex)
                        (Bail ''branch ref not found for token'') (Inr current_default_ref)) (\<lambda>branch_ref.
           Inr (branch_ref, rf_ref_token_hex current_default_ref = ref_token_hex)))))) of
        Inl e \<Rightarrow> Some (Inl e, fs)
      | Inr (branch_ref, is_default) \<Rightarrow>
          (let previous_head = rf_head_snapshot_id branch_ref; updated = branch_ref\<lparr> rf_head_snapshot_id := next_head \<rparr> in
           if previous_head = next_head then Some (Inr previous_head, fs)
           else
             (case branch_fast_forward_allowed fuel (store_at M fs) previous_head next_head of
                None \<Rightarrow> None
              | Some (Inl e) \<Rightarrow> Some (Inl e, fs)
              | Some (Inr False) \<Rightarrow> Some (Inl (Bail ''pull diverged: local branch requires rebase''), fs)
              | Some (Inr True) \<Rightarrow>
                  Some (sbind (write_branch_ref M K updated) (\<lambda>_.
                        sbind (if is_default then write_default_ref M K updated else sret ()) (\<lambda>_.
                        sret previous_head)) fs))))"

end
