(* ===== verification/Pack_Cache.thy ===== *)
theory Pack_Cache
  imports Sync_Support
begin

text \<open>
  The cache of pack data below \<^verbatim>\<open>cache/pack-data\<close>: the side of the sync engine that fills and
  prunes it (\<^verbatim>\<open>e2v-sync/src/pack_cache.rs\<close>) and the side of the core that reads a single object
  out of it (\<^verbatim>\<open>sync_support\<close> in \<^verbatim>\<open>e2v-core/src/lib.rs\<close>). Each cached container has its bytes and
  the hex digest of their BLAKE3 hash in two files; \<open>digest\<close> stands for that hash. The files are
  those of the control directory; directories in the place of files are not modelled.
\<close>

section \<open>Paths\<close>

text \<open>\<^verbatim>\<open>Path::extension\<close> and \<^verbatim>\<open>Path::with_extension\<close>, on a file name.\<close>

definition file_extension :: "string \<Rightarrow> string option" where
  "file_extension name =
     (case rsplit_once (CHR ''.'') name of
        None \<Rightarrow> None | Some (stem, ext) \<Rightarrow> if stem = [] then None else Some ext)"

definition with_extension :: "string \<Rightarrow> string \<Rightarrow> string" where
  "with_extension name ext =
     (case rsplit_once (CHR ''.'') name of
        None \<Rightarrow> name | Some (stem, old) \<Rightarrow> if stem = [] then name else stem) @ ''.'' @ ext"

definition component_name :: "component \<Rightarrow> string" where
  "component_name c = (case c of Normal n \<Rightarrow> n | _ \<Rightarrow> [])"

definition pack_data_cache_names :: "string \<Rightarrow> string list" where
  "pack_data_cache_names container = [''cache'', ''pack-data''] @ map component_name (components container)"

definition pack_data_cache_path :: "string \<Rightarrow> string" where
  "pack_data_cache_path container = join_with ''/'' (pack_data_cache_names container)"

definition pack_data_cache_hash_path :: "string \<Rightarrow> string" where
  "pack_data_cache_hash_path container =
     (let names = pack_data_cache_names container; name = last names in
      join_with ''/'' (butlast names @
        [with_extension name ((case file_extension name of Some ext \<Rightarrow> ext | None \<Rightarrow> ''cache'') @ ''.blake3'')]))"

text \<open>\<^verbatim>\<open>s.trim() == h\<close>, for an \<open>h\<close> without white space at its ends.\<close>

definition trims_to :: "string \<Rightarrow> string \<Rightarrow> bool" where
  "trims_to s h =
     list_ex (\<lambda>k. blank (take k s) \<and> take (length h) (drop k s) = h \<and> blank (drop (k + length h) s))
       [0..<Suc (length s)]"

section \<open>Filling the cache\<close>

type_synonym digest = "byte list \<Rightarrow> string"

definition cached_pack_data_hash_matches :: "digest \<Rightarrow> string \<Rightarrow> byte list \<Rightarrow> files \<Rightarrow> bool" where
  "cached_pack_data_hash_matches digest container bytes fs =
     (case map_of fs (pack_data_cache_hash_path container) of
        None \<Rightarrow> False
      | Some content \<Rightarrow> (case from_utf8 content of None \<Rightarrow> False | Some expected \<Rightarrow> trims_to expected (digest bytes)))"

definition write_cached_pack_data_bytes :: "digest \<Rightarrow> string \<Rightarrow> byte list \<Rightarrow> (files, unit) prog" where
  "write_cached_pack_data_bytes digest container pack_bytes fs =
     (let cache_path = pack_data_cache_path container;
          hash_path = pack_data_cache_hash_path container;
          cleared = bt_remove hash_path (bt_remove cache_path fs)
      in (Inr (), bt_insert hash_path (as_bytes (digest pack_bytes)) (bt_insert cache_path pack_bytes cleared)))"

definition overwrite_cached_pack_data_bytes :: "digest \<Rightarrow> string \<Rightarrow> byte list \<Rightarrow> (files, unit) prog" where
  "overwrite_cached_pack_data_bytes digest container pack_bytes =
     sbind (slift (validate_cached_pack_relative_name container)) (\<lambda>_.
     write_cached_pack_data_bytes digest container pack_bytes)"

definition cache_pack_data_bytes :: "digest \<Rightarrow> string \<Rightarrow> byte list \<Rightarrow> (files, unit) prog" where
  "cache_pack_data_bytes digest container pack_bytes =
     sbind (slift (validate_cached_pack_relative_name container)) (\<lambda>_ fs.
     if map_of fs (pack_data_cache_path container) \<noteq> None \<and>
        cached_pack_data_hash_matches digest container pack_bytes fs
     then (Inr (), fs)
     else write_cached_pack_data_bytes digest container pack_bytes fs)"

definition delete_cached_pack_data_bytes :: "string \<Rightarrow> (files, unit) prog" where
  "delete_cached_pack_data_bytes container =
     sbind (slift (validate_cached_pack_relative_name container)) (\<lambda>_ fs.
     (Inr (), bt_remove (pack_data_cache_hash_path container) (bt_remove (pack_data_cache_path container) fs)))"

definition read_cached_pack_data_bytes :: "digest \<Rightarrow> string \<Rightarrow> (files, byte list option) prog" where
  "read_cached_pack_data_bytes digest container =
     sbind (slift (validate_cached_pack_relative_name container)) (\<lambda>_ fs.
     case map_of fs (pack_data_cache_path container) of
       None \<Rightarrow> (Inr None, fs)
     | Some bytes \<Rightarrow>
         if cached_pack_data_hash_matches digest container bytes fs then (Inr (Some bytes), fs)
         else sbind (delete_cached_pack_data_bytes container) (\<lambda>_. sret None) fs)"

section \<open>Reading a packed object\<close>

text \<open>
  \<open>w\<close> is the remote's state, which a read does not change. Without a control directory
  (\<open>cache = False\<close>) the files are not used.
\<close>

definition load_pack_bytes ::
  "digest \<Rightarrow> 'w remote \<Rightarrow> 'w \<Rightarrow> bool \<Rightarrow> string \<Rightarrow> nat \<Rightarrow> bool \<Rightarrow> (files, byte list) prog" where
  "load_pack_bytes digest R w cache container minimum_len allow_cached_read =
     sbind (if allow_cached_read \<and> cache then read_cached_pack_data_bytes digest container else sret None) (\<lambda>cached.
     case (case cached of Some bytes \<Rightarrow> if minimum_len \<le> length bytes then Some bytes else None | None \<Rightarrow> None) of
       Some bytes \<Rightarrow> sret bytes
     | None \<Rightarrow>
         sbind (slift (r_stat R container w)) (\<lambda>stat.
         sbind (slift (r_get_range R container 0 (unat (stat_length stat)) w)) (\<lambda>pack_bytes.
         sbind (if cache then overwrite_cached_pack_data_bytes digest container pack_bytes else sret ()) (\<lambda>_.
         sret pack_bytes))))"

record pack_reader =
  pr_packs :: "(string, byte list) btree"
  pr_files :: files

definition on_files :: "(files, 'a) prog \<Rightarrow> (pack_reader, 'a) prog" where
  "on_files m st = (case m (pr_files st) of (r, fs) \<Rightarrow> (r, st\<lparr> pr_files := fs \<rparr>))"

definition remember_pack :: "string \<Rightarrow> byte list \<Rightarrow> (pack_reader, unit) prog" where
  "remember_pack container bytes st = (Inr (), st\<lparr> pr_packs := bt_insert container bytes (pr_packs st) \<rparr>)"

definition remote_object_bytes_with_pack_cache ::
  "digest \<Rightarrow> 'w remote \<Rightarrow> 'w \<Rightarrow> string set \<Rightarrow> locations \<Rightarrow> bool \<Rightarrow> string \<Rightarrow> (pack_reader, byte list option) prog" where
  "remote_object_bytes_with_pack_cache digest R w loose_object_ids pack_locations cache object_id =
     (case map_of pack_locations object_id of
        Some location \<Rightarrow>
          sbind (slift (location_physical_ref location)) (\<lambda>r.
          let offset = unat (case ref_offset r of Some off \<Rightarrow> off | None \<Rightarrow> 0);
              len = unat (ref_length r);
              end_pos = usize_sat_add offset len
          in
          sbind (\<lambda>st. if map_of (pr_packs st) (container_id r) = None
            then sbind (on_files (load_pack_bytes digest R w cache (container_id r) end_pos True))
                   (remember_pack (container_id r)) st
            else (Inr (), st)) (\<lambda>_.
          sbind (\<lambda>st. if (case map_of (pr_packs st) (container_id r) of
                              Some pack_bytes \<Rightarrow> end_pos \<le> length pack_bytes | None \<Rightarrow> False)
            then (Inr (), st)
            else sbind (if cache then on_files (delete_cached_pack_data_bytes (container_id r)) else sret ()) (\<lambda>_.
                 sbind (on_files (load_pack_bytes digest R w cache (container_id r) end_pos False))
                   (remember_pack (container_id r))) st) (\<lambda>_.
          sbind (sread (\<lambda>st. ok_or (Bail ''missing pack'') (map_of (pr_packs st) (container_id r)))) (\<lambda>pack_bytes.
          sensure (end_pos \<le> length pack_bytes) (Bail ''packed object range out of bounds'')
         (sret (Some (take (end_pos - offset) (drop offset pack_bytes))))))))
      | None \<Rightarrow>
          if object_id \<in> loose_object_ids then
            sbind (slift (r_get R (relative_object_path object_id) w)) (\<lambda>bytes. sret (Some bytes))
          else sret None)"

section \<open>The reader of the core\<close>

definition cached_pack_data_path :: "string \<Rightarrow> string res" where
  "cached_pack_data_path container =
     ensure (container \<noteq> []) (Bail ''cached pack container id must not be empty'')
    (ensure (\<not> is_absolute container) (Bail ''cached pack container id must be relative'')
    (ensure (all_normal container) (Bail ''cached pack container path traversal is not allowed'')
    (Inr (pack_data_cache_path container))))"

definition delete_cached_pack_data_entry :: "string \<Rightarrow> (files, unit) prog" where
  "delete_cached_pack_data_entry container fs =
     (Inr (), bt_remove (pack_data_cache_hash_path container) (bt_remove (pack_data_cache_path container) fs))"

definition delete_cached_pack_data_for_object_id ::
  "crypto \<Rightarrow> cache_codecs \<Rightarrow> repo_secrets \<Rightarrow> string \<Rightarrow> (files, unit) prog" where
  "delete_cached_pack_data_for_object_id C K s object_id =
     sbind (load_cached_pack_physical_ref_for_object_id C K s object_id) (\<lambda>r.
     sbind (slift (cached_pack_data_path (container_id r))) (\<lambda>_.
     delete_cached_pack_data_entry (container_id r)))"

text \<open>The digest check of the core: an error of a file that is not there is told apart from one of the data.\<close>

definition core_cached_pack_data_hash_matches :: "digest \<Rightarrow> string \<Rightarrow> files \<Rightarrow> bool res" where
  "core_cached_pack_data_hash_matches digest container fs =
     (case map_of fs (pack_data_cache_hash_path container) of
        None \<Rightarrow> Inr False
      | Some content \<Rightarrow>
          rbind (ok_or (Bail ''stream did not contain valid UTF-8'') (from_utf8 content)) (\<lambda>expected.
          rbind (fs_read (pack_data_cache_path container) fs) (\<lambda>bytes.
          Inr (trims_to expected (digest bytes)))))"

definition read_cached_pack_object_range :: "byte list \<Rightarrow> nat \<Rightarrow> nat \<Rightarrow> byte list res" where
  "read_cached_pack_object_range pack offset len =
     ensure (offset < 2 ^ 63 \<and> (offset + len \<le> length pack \<or> len = 0)) (Bail ''cached pack object range out of bounds'')
       (Inr (take len (drop offset pack)))"

definition read_cached_pack_object_bytes ::
  "crypto \<Rightarrow> cache_codecs \<Rightarrow> repo_secrets \<Rightarrow> digest \<Rightarrow> string \<Rightarrow> (files, byte list) prog" where
  "read_cached_pack_object_bytes C K s digest object_id =
     sbind (load_cached_pack_physical_ref_for_object_id C K s object_id) (\<lambda>r.
     let offset = unat (case ref_offset r of Some off \<Rightarrow> off | None \<Rightarrow> 0); len = unat (ref_length r) in
     sbind (slift (cached_pack_data_path (container_id r))) (\<lambda>pack_path.
     sbind (\<lambda>fs. case core_cached_pack_data_hash_matches digest (container_id r) fs of
              Inr matches \<Rightarrow> (Inr matches, fs)
            | Inl e \<Rightarrow> sbind (delete_cached_pack_data_entry (container_id r)) (\<lambda>_. sret False) fs) (\<lambda>usable.
     if usable then
       (\<lambda>fs. case fs_read pack_path fs of
           Inr pack \<Rightarrow> (read_cached_pack_object_range pack offset len, fs)
         | Inl e \<Rightarrow> sbind (delete_cached_pack_data_entry (container_id r))
             (\<lambda>_. sfail (Context ''cached pack data is missing'' e)) fs)
     else
       sbind (delete_cached_pack_data_entry (container_id r)) (\<lambda>_.
       sfail (Bail ''cached pack data integrity metadata is missing or invalid'')))))"

end
