(* ===== verification/File_Objects.thy ===== *)
theory File_Objects
  imports Manifest Pack_Cache
begin

text \<open>
  File contents (\<^verbatim>\<open>e2v-core/src/facade.rs\<close>, \<^verbatim>\<open>chunker.rs\<close>): a file is cut into chunks, each an
  object of its own, and described by a file object that lists them, inline or in shards; a range
  is read back through the chunks that cover it, from the object store or, for a chunk that is
  not there, from the pack cache. Directories beyond a size are written as a root over shards.
  FastCDC is a parameter: where it cuts. The tests can override it with spans of a fixed size, through a
  variable of the thread that is unset otherwise; the definitions are for the unset one.
\<close>

section \<open>Chunking\<close>

record chunk_span =
  span_offset :: nat
  span_length :: nat

definition span_end :: "chunk_span \<Rightarrow> nat" where
  "span_end s = span_offset s + span_length s"

type_synonym chunker = "byte list \<Rightarrow> chunk_span list"

definition split_spans :: "chunker \<Rightarrow> chunker" where
  "split_spans fastcdc bytes =
     (let spans = fastcdc bytes in
      if spans = [] \<and> bytes \<noteq> [] then [\<lparr> span_offset = 0, span_length = length bytes \<rparr>] else spans)"

text \<open>Documented behaviour: the spans follow each other without gaps and cover the input.\<close>

fun spans_from :: "nat \<Rightarrow> chunk_span list \<Rightarrow> nat \<Rightarrow> bool" where
  "spans_from start [] n = (start = n)"
| "spans_from start (s # ss) n = (span_offset s = start \<and> spans_from (span_end s) ss n)"

definition chunker_ok :: "chunker \<Rightarrow> bool" where
  "chunker_ok fastcdc \<longleftrightarrow> (\<forall>bytes. fastcdc bytes = [] \<or> spans_from 0 (fastcdc bytes) (length bytes))"

section \<open>Writing objects\<close>

record chunk_object =
  ck_plaintext_length :: u64
  ck_data :: "byte list"

text \<open>
  What a commit changes: the files of the object store, the random source (what the next puts
  draw), the counters of the result, and the warnings.
\<close>

record commit_state =
  cs_files :: files
  cs_draws :: "nat \<Rightarrow> random_draw"
  cs_committed_files :: u64
  cs_new_bytes :: u64
  cs_reused_bytes :: u64
  cs_warnings :: "string list"

text \<open>Of \<open>M\<close> the writers use the keys and the codecs; the files are those of the state.\<close>

definition put_next :: "manifest_store \<Rightarrow> string \<Rightarrow> byte list \<Rightarrow> (commit_state, string) prog" where
  "put_next M object_type plaintext st =
     (case put_object (ms_crypto M) (cs_draws st 0) (ms_secrets M) object_type plaintext (cs_files st) of
        (r, fs) \<Rightarrow> (r, st\<lparr> cs_files := fs, cs_draws := (\<lambda>n. cs_draws st (Suc n)) \<rparr>))"

definition write_object :: "manifest_store \<Rightarrow> 'a serde \<Rightarrow> string \<Rightarrow> 'a \<Rightarrow> (commit_state, string) prog" where
  "write_object M pc object_type value = put_next M object_type (to_vec pc value)"

definition count_bytes :: "bool \<Rightarrow> nat \<Rightarrow> (commit_state, unit) prog" where
  "count_bytes already_exists n st =
     (Inr (), if already_exists then st\<lparr> cs_reused_bytes := cs_reused_bytes st + of_nat n \<rparr>
              else st\<lparr> cs_new_bytes := cs_new_bytes st + of_nat n \<rparr>)"

definition max_file_chunks_per_object :: nat where "max_file_chunks_per_object = 8192"
definition max_tree_entries_per_object :: nat where "max_tree_entries_per_object = 4096"

fun write_chunks ::
  "manifest_store \<Rightarrow> chunk_object serde \<Rightarrow> byte list \<Rightarrow> chunk_span list \<Rightarrow> string list \<Rightarrow> u64 list \<Rightarrow>
   (commit_state, string list \<times> u64 list) prog" where
  "write_chunks M pc file_bytes [] chunk_ids chunk_lengths = sret (chunk_ids, chunk_lengths)"
| "write_chunks M pc file_bytes (span # spans) chunk_ids chunk_lengths =
     (let piece_bytes = take (span_length span) (drop (span_offset span) file_bytes);
          piece_len = length piece_bytes;
          chunk_bytes = to_vec pc \<lparr> ck_plaintext_length = of_nat piece_len, ck_data = piece_bytes \<rparr>;
          preview = derive_object_id (ms_crypto M) (ms_secrets M) ''chunk'' chunk_bytes
      in
      sbind (sread (\<lambda>st. Inr (exists_object preview (cs_files st)))) (\<lambda>already_exists.
      sbind (put_next M ''chunk'' chunk_bytes) (\<lambda>chunk_id.
      sbind (count_bytes already_exists piece_len) (\<lambda>_.
      write_chunks M pc file_bytes spans (chunk_ids @ [chunk_id]) (chunk_lengths @ [of_nat piece_len])))))"

function write_file_shards ::
  "manifest_store \<Rightarrow> string list \<Rightarrow> u64 list \<Rightarrow> string list \<Rightarrow> u64 list \<Rightarrow>
   (commit_state, string list \<times> u64 list) prog" where
  "write_file_shards M chunk_ids chunk_lengths shard_ids shard_byte_lengths =
     (if chunk_ids = [] then sret (shard_ids, shard_byte_lengths)
      else
        sbind (write_object M (ms_file_shard M) ''file_shard''
                 \<lparr> fs_schema_version = repo_format_version, fs_chunks = take max_file_chunks_per_object chunk_ids,
                   fs_chunk_lengths = take max_file_chunks_per_object chunk_lengths \<rparr>) (\<lambda>shard_id.
        write_file_shards M (drop max_file_chunks_per_object chunk_ids) (drop max_file_chunks_per_object chunk_lengths)
          (shard_ids @ [shard_id])
          (shard_byte_lengths @ [sum_list (take max_file_chunks_per_object chunk_lengths)])))"
  by pat_completeness auto
termination
  by (relation "measure (\<lambda>(M, ids, lengths, shards, sizes). length ids)") (auto simp: max_file_chunks_per_object_def)

declare write_file_shards.simps [simp del]

definition chunker_id_name :: string where "chunker_id_name = ''fastcdc''"
definition chunker_config_fingerprint :: string where "chunker_config_fingerprint = ''fastcdc-64k-1m-8m''"

text \<open>\<open>source\<close> is what reading the file gave: its bytes and modification time, or the error.\<close>

definition build_file_tree_entry_with ::
  "manifest_store \<Rightarrow> chunk_object serde \<Rightarrow> chunker \<Rightarrow> string \<Rightarrow> (byte list \<times> u64) res \<Rightarrow>
   (commit_state, tree_entry option) prog" where
  "build_file_tree_entry_with M pc fastcdc name source =
     (case source of
        Inl e \<Rightarrow> (\<lambda>st. (Inr None, st\<lparr> cs_warnings := cs_warnings st @
            [if contains_sub ''unstable input'' (error_message e) then ''skipped unstable input''
             else ''skipped unreadable file''] \<rparr>))
      | Inr (file_bytes, modified_unix_ms) \<Rightarrow>
          sbind (write_chunks M pc file_bytes (split_spans fastcdc file_bytes) [] []) (\<lambda>(chunk_ids, chunk_lengths).
          sbind (if max_file_chunks_per_object < length chunk_ids
                 then sbind (write_file_shards M chunk_ids chunk_lengths [] []) (\<lambda>(shard_ids, shard_byte_lengths).
                        sret ([], [], shard_ids, shard_byte_lengths))
                 else sret (chunk_ids, chunk_lengths, [], [])) (\<lambda>(inline_ids, inline_lengths, shard_ids, shard_byte_lengths).
          sbind (write_object M (ms_file M) ''file''
                   \<lparr> fo_schema_version = repo_format_version, fo_entry_name = name,
                     fo_file_size = of_nat (length file_bytes), fo_modified_unix_ms = modified_unix_ms,
                     fo_chunker_id = chunker_id_name, fo_chunker_config_id = chunker_config_fingerprint,
                     fo_chunk_count = of_nat (length chunk_ids), fo_chunks = inline_ids,
                     fo_chunk_lengths = inline_lengths, fo_shard_ids = shard_ids,
                     fo_shard_byte_lengths = shard_byte_lengths \<rparr>) (\<lambda>file_id.
          (\<lambda>st. (Inr (Some \<lparr> te_name = name, te_kind = ''file'', te_object_id = file_id \<rparr>),
                 st\<lparr> cs_committed_files := cs_committed_files st + 1 \<rparr>))))))"

section \<open>Writing directories\<close>

function write_tree_shards ::
  "manifest_store \<Rightarrow> tree_entry list \<Rightarrow> string list \<Rightarrow> (commit_state, string list) prog" where
  "write_tree_shards M entries shard_ids =
     (if entries = [] then sret shard_ids
      else (let shard_entries = take max_tree_entries_per_object entries in
        sbind (write_object M (ms_tree_shard M) ''tree_shard''
                 \<lparr> ts_schema_version = repo_format_version, ts_range_start = te_name (hd shard_entries),
                   ts_range_end = te_name (last shard_entries), ts_entries = shard_entries \<rparr>) (\<lambda>shard_id.
        write_tree_shards M (drop max_tree_entries_per_object entries) (shard_ids @ [shard_id]))))"
  by pat_completeness auto
termination
  by (relation "measure (\<lambda>(M, entries, shards). length entries)") (auto simp: max_tree_entries_per_object_def)

declare write_tree_shards.simps [simp del]

definition build_directory_root_object :: "manifest_store \<Rightarrow> tree_entry list \<Rightarrow> (commit_state, string) prog" where
  "build_directory_root_object M entries =
     sbind (write_tree_shards M entries []) (\<lambda>shard_ids.
     write_object M (ms_directory_root M) ''directory_root''
       \<lparr> dr_schema_version = repo_format_version, dr_fanout = of_nat (length shard_ids), dr_shards = shard_ids \<rparr>)"

text \<open>The end of both \<^verbatim>\<open>build_tree_object\<close> and \<^verbatim>\<open>write_virtual_directory_object\<close>.\<close>

definition write_directory :: "manifest_store \<Rightarrow> tree_entry list \<Rightarrow> (commit_state, string) prog" where
  "write_directory M entries =
     (if length entries \<le> max_tree_entries_per_object
      then write_object M (ms_tree M) ''tree'' \<lparr> tr_schema_version = repo_format_version, tr_entries = entries \<rparr>
      else build_directory_root_object M entries)"

section \<open>Reading ranges\<close>

record file_handle =
  fh_snapshot_id :: string
  fh_file_object_id :: string
  fh_file_size :: u64
  fh_chunk_count :: u64
  fh_chunk_ids :: "string list"
  fh_chunk_lengths :: "u64 list"
  fh_shard_ids :: "string list"
  fh_shard_byte_lengths :: "u64 list"
  fh_layout_generation :: u64
  fh_crypto_suite :: string
  fh_key_epoch :: u32
  fh_chunker_id :: string

definition default_active_epoch :: u32 where "default_active_epoch = 1"

definition handle_of :: "string \<Rightarrow> string \<Rightarrow> u64 \<Rightarrow> file_object \<Rightarrow> file_handle" where
  "handle_of snapshot_id file_object_id layout_generation f =
     \<lparr> fh_snapshot_id = snapshot_id, fh_file_object_id = file_object_id, fh_file_size = fo_file_size f,
       fh_chunk_count = fo_chunk_count f, fh_chunk_ids = fo_chunks f, fh_chunk_lengths = fo_chunk_lengths f,
       fh_shard_ids = fo_shard_ids f, fh_shard_byte_lengths = fo_shard_byte_lengths f,
       fh_layout_generation = layout_generation, fh_crypto_suite = crypto_suite_name,
       fh_key_epoch = default_active_epoch, fh_chunker_id = fo_chunker_id f \<rparr>"

definition read_chunk_object :: "manifest_store \<Rightarrow> chunk_object serde \<Rightarrow> string \<Rightarrow> chunk_object res" where
  "read_chunk_object M pc object_id = read_stored_object M pc object_id ''chunk''"

text \<open>A reader has the store's keys and codecs, the codec of chunks, those of the pack cache and its digest.\<close>

record range_reader =
  rr_store :: manifest_store
  rr_chunk :: "chunk_object serde"
  rr_codecs :: cache_codecs
  rr_digest :: digest

definition load_chunk :: "range_reader \<Rightarrow> string \<Rightarrow> (files, chunk_object) prog" where
  "load_chunk R chunk_id =
     (let C = ms_crypto (rr_store R); s = ms_secrets (rr_store R);
          unavailable = Bail ''stale-layout fallback unavailable for missing chunk''
      in (\<lambda>fs.
       if exists_object chunk_id fs then (read_chunk_object (store_at (rr_store R) fs) (rr_chunk R) chunk_id, fs)
       else
         (case read_cached_pack_object_bytes C (rr_codecs R) s (rr_digest R) chunk_id fs of
            (Inl e, fs') \<Rightarrow> (Inl unavailable, fs')
          | (Inr fallback_bytes, fs') \<Rightarrow>
              (case decode_object_bytes_for_sync C s chunk_id ''chunk'' fallback_bytes of
                 Inl e \<Rightarrow> (Inl unavailable, snd (delete_cached_pack_data_for_object_id C (rr_codecs R) s chunk_id fs'))
               | Inr plaintext \<Rightarrow> (postcard_from_bytes (rr_chunk R) plaintext, fs')))))"

text \<open>The loop carries the output and the position at which the next chunk starts.\<close>

fun append_requested_bytes_from_chunks ::
  "range_reader \<Rightarrow> u64 \<Rightarrow> u64 \<Rightarrow> (string \<times> u64) list \<Rightarrow> byte list \<times> u64 \<Rightarrow> (files, byte list \<times> u64) prog" where
  "append_requested_bytes_from_chunks R offset end_pos [] (output, chunk_start) = sret (output, chunk_start)"
| "append_requested_bytes_from_chunks R offset end_pos ((chunk_id, chunk_len) # pieces) (output, chunk_start) =
     (if unat (end_pos - offset) \<le> length output then sret (output, chunk_start)
      else (let chunk_end = sat_add chunk_start chunk_len in
        if chunk_end \<le> offset then
          append_requested_bytes_from_chunks R offset end_pos pieces (output, chunk_end)
        else if end_pos \<le> chunk_start then sret (output, chunk_start)
        else
          sbind (load_chunk R chunk_id) (\<lambda>chunk.
          sensure (length (ck_data chunk) = unat chunk_len)
            (Bail ''file chunk metadata does not match chunk payload length'')
         (let slice_start = unat (sat_sub offset chunk_start);
              slice_end = unat (min (end_pos - chunk_start) chunk_len)
          in append_requested_bytes_from_chunks R offset end_pos pieces
               (output @ take (slice_end - slice_start) (drop slice_start (ck_data chunk)), chunk_end)))))"

fun read_shards ::
  "range_reader \<Rightarrow> u64 \<Rightarrow> u64 \<Rightarrow> (string \<times> u64) list \<Rightarrow> u64 \<Rightarrow> byte list \<times> u64 \<Rightarrow> (files, byte list \<times> u64) prog" where
  "read_shards R offset end_pos [] shard_byte_start (output, chunk_start) = sret (output, chunk_start)"
| "read_shards R offset end_pos ((shard_id, shard_len) # shards) shard_byte_start (output, chunk_start) =
     (let shard_byte_end = sat_add shard_byte_start shard_len in
      if unat (end_pos - offset) \<le> length output then sret (output, chunk_start)
      else if shard_byte_end \<le> offset then
        read_shards R offset end_pos shards shard_byte_end (output, shard_byte_end)
      else if end_pos \<le> shard_byte_start then sret (output, chunk_start)
      else
        sbind (sread (\<lambda>fs. read_file_shard_object (store_at (rr_store R) fs) shard_id)) (\<lambda>shard.
        sensure (length (fs_chunks shard) = length (fs_chunk_lengths shard))
          (Bail ''file shard metadata is inconsistent'')
       (sbind (append_requested_bytes_from_chunks R offset end_pos (zip (fs_chunks shard) (fs_chunk_lengths shard))
                 (output, chunk_start)) (\<lambda>acc.
        read_shards R offset end_pos shards shard_byte_end acc))))"

text \<open>The middle of \<^verbatim>\<open>read_range\<close>: through the inline chunks, or through the shards.\<close>

definition collect_range :: "range_reader \<Rightarrow> file_handle \<Rightarrow> u64 \<Rightarrow> u64 \<Rightarrow> (files, byte list \<times> u64) prog" where
  "collect_range R f offset end_pos =
     (if fh_chunk_ids f \<noteq> [] then
        sensure (length (fh_chunk_ids f) = length (fh_chunk_lengths f))
          (Bail ''file chunk metadata is inconsistent'')
        (append_requested_bytes_from_chunks R offset end_pos (zip (fh_chunk_ids f) (fh_chunk_lengths f)) ([], 0))
      else
        sensure (fh_shard_ids f \<noteq> []) (Bail ''file has no chunks'')
       (sensure (length (fh_shard_ids f) = length (fh_shard_byte_lengths f))
          (Bail ''file shard metadata is inconsistent'')
       (read_shards R offset end_pos (zip (fh_shard_ids f) (fh_shard_byte_lengths f)) 0 ([], 0))))"

definition read_range :: "range_reader \<Rightarrow> file_handle \<Rightarrow> u64 \<Rightarrow> u64 \<Rightarrow> (files, byte list) prog" where
  "read_range R f offset len =
     sensure (offset \<le> fh_file_size f) (Bail ''range offset out of bounds'')
    (let end_pos = min (sat_add offset len) (fh_file_size f) in
     if offset = end_pos then sret []
     else
       sbind (collect_range R f offset end_pos) (\<lambda>(output, chunk_start).
       sensure (length output = unat (end_pos - offset)) (Bail ''file chunk coverage incomplete for requested range'')
      (sret output)))"

end
