(* ===== verification/Snapshots.thy ===== *)
theory Snapshots
  imports Refs File_Objects Overlay
begin

text \<open>
  Commits, the read service and the verification of snapshots (\<^verbatim>\<open>e2v-core/src/facade.rs\<close>): a
  working tree is written as directories and files, the new snapshot becomes the head of the
  current branch, and snapshots are opened, listed, read and verified.
\<close>

section \<open>The working tree\<close>

text \<open>
  What a commit sees of the working tree: a directory's entries in the order of \<^verbatim>\<open>read_dir\<close>, with
  their raw names, and for a file what its stable read gives, the bytes and the modification time
  or the error.
\<close>

datatype disk_node =
    Disk_File "(byte list \<times> u64) res"
  | Disk_Dir "(string \<times> disk_node) list"

fun is_directory :: "disk_node \<Rightarrow> bool" where
  "is_directory (Disk_Dir children) = True"
| "is_directory (Disk_File source) = False"

text \<open>How contents are written: the codec of chunks and where FastCDC cuts.\<close>

record content_writer =
  cw_chunk :: "chunk_object serde"
  cw_fastcdc :: chunker

text \<open>What is fixed during a commit besides: \<open>nfc\<close> and \<^verbatim>\<open>to_lowercase\<close>.\<close>

record commit_env =
  ce_nfc :: "string \<Rightarrow> string"
  ce_to_lowercase :: "string \<Rightarrow> string"
  ce_writer :: content_writer

text \<open>
  The loop over the scanned entries; \<open>build\<close> gives, for a raw name, the recursive call for that
  directory, \<open>source\<close> what reading that file gives.
\<close>

fun build_entries ::
  "manifest_store \<Rightarrow> commit_env \<Rightarrow> (string \<Rightarrow> (commit_state, string) prog) \<Rightarrow> (string \<Rightarrow> (byte list \<times> u64) res) \<Rightarrow>
   working_tree_entry list \<Rightarrow> tree_entry list \<Rightarrow> (commit_state, tree_entry list) prog" where
  "build_entries M E build source [] tree_entries = sret tree_entries"
| "build_entries M E build source (entry # entries) tree_entries =
     (if wt_is_dir entry then
        sbind (build (wt_raw_name entry)) (\<lambda>tree_id.
        build_entries M E build source entries
          (tree_entries @ [\<lparr> te_name = wt_name entry, te_kind = ''tree'', te_object_id = tree_id \<rparr>]))
      else
        sbind (build_file_tree_entry_with M (cw_chunk (ce_writer E)) (cw_fastcdc (ce_writer E)) (wt_name entry) (source (wt_raw_name entry)))
          (\<lambda>maybe_tree_entry.
        build_entries M E build source entries
          (tree_entries @ (case maybe_tree_entry of Some e \<Rightarrow> [e] | None \<Rightarrow> []))))"

definition source_of :: "(string \<times> disk_node) list \<Rightarrow> string \<Rightarrow> (byte list \<times> u64) res" where
  "source_of children raw_name =
     (case map_of children raw_name of Some (Disk_File source) \<Rightarrow> source | _ \<Rightarrow> Inl (Io_not_found raw_name))"

definition pick :: "(string \<times> (commit_state, string) prog) list \<Rightarrow> string \<Rightarrow> (commit_state, string) prog" where
  "pick builders raw_name =
     (case map_of builders raw_name of Some build \<Rightarrow> build | None \<Rightarrow> sfail (Io_not_found raw_name))"

fun build_tree_object :: "manifest_store \<Rightarrow> commit_env \<Rightarrow> bool \<Rightarrow> disk_node \<Rightarrow> (commit_state, string) prog" where
  "build_tree_object M E is_root (Disk_File source) = sfail (Bail ''failed to read directory'')"
| "build_tree_object M E is_root (Disk_Dir children) =
     sbind (slift (scan_dir (ce_nfc E) (ce_to_lowercase E) is_root True
              (map (\<lambda>c. (fst c, is_directory (snd c))) children))) (\<lambda>scanned_entries.
     sbind (build_entries M E (pick (map (\<lambda>c. (fst c, build_tree_object M E False (snd c))) children))
              (source_of children) scanned_entries []) (\<lambda>tree_entries.
     write_directory M (sort_key te_name tree_entries)))"

section \<open>Commit\<close>

definition on_commit_files :: "(files, 'a) prog \<Rightarrow> (commit_state, 'a) prog" where
  "on_commit_files m st = (case m (cs_files st) of (r, fs) \<Rightarrow> (r, st\<lparr> cs_files := fs \<rparr>))"

record commit_result =
  co_snapshot_id :: string
  co_committed_files :: u64
  co_new_bytes :: u64
  co_reused_bytes :: u64
  co_warnings :: "string list"

definition reset_counters :: "(commit_state, unit) prog" where
  "reset_counters st =
     (Inr (), st\<lparr> cs_committed_files := 0, cs_new_bytes := 0, cs_reused_bytes := 0, cs_warnings := [] \<rparr>)"

definition commit :: "manifest_store \<Rightarrow> ref_codecs \<Rightarrow> commit_env \<Rightarrow> string \<Rightarrow> disk_node \<Rightarrow> (commit_state, commit_result) prog" where
  "commit M K E message tree =
     sensure (\<not> blank message) (Bail ''commit message must not be empty'')
    (sbind (on_commit_files (sread (read_default_ref M K))) (\<lambda>default_ref.
     sbind reset_counters (\<lambda>_.
     sbind (build_tree_object M E True tree) (\<lambda>tree_id.
     sbind (write_object M (ms_snapshot M) ''snapshot''
        \<lparr> sn_schema_version = repo_format_version, sn_message = message, sn_root_tree_id = tree_id,
          sn_parent_snapshot_id = rf_head_snapshot_id default_ref \<rparr>) (\<lambda>snapshot_id.
     let updated = default_ref\<lparr> rf_head_snapshot_id := Some snapshot_id \<rparr> in
     sbind (on_commit_files (write_default_ref M K updated)) (\<lambda>_.
     sbind (on_commit_files (write_branch_ref M K updated)) (\<lambda>_.
     sread (\<lambda>st. Inr \<lparr> co_snapshot_id = snapshot_id, co_committed_files = cs_committed_files st,
       co_new_bytes = cs_new_bytes st, co_reused_bytes = cs_reused_bytes st, co_warnings = cs_warnings st \<rparr>))))))))"

section \<open>The read service\<close>

record snapshot_handle =
  sh_snapshot_id :: string
  sh_layout_generation :: u64
  sh_root_tree_id :: string

definition open_snapshot :: "manifest_store \<Rightarrow> ref_codecs \<Rightarrow> string \<Rightarrow> files \<Rightarrow> snapshot_handle res" where
  "open_snapshot M K snapshot_id fs =
     rbind (with_context ''invalid snapshot id'' (validate_object_id_value snapshot_id)) (\<lambda>_.
     rbind (validate_layout_root K fs) (\<lambda>root.
     rbind (read_snapshot_object (store_at M fs) snapshot_id) (\<lambda>snapshot.
     Inr \<lparr> sh_snapshot_id = snapshot_id, sh_layout_generation = root_generation root,
           sh_root_tree_id = sn_root_tree_id snapshot \<rparr>)))"

definition resolve_branch :: "manifest_store \<Rightarrow> ref_codecs \<Rightarrow> string \<Rightarrow> files \<Rightarrow> snapshot_handle res" where
  "resolve_branch M K ref_token_hex fs =
     rbind (validate_ref_token_value ref_token_hex) (\<lambda>_.
     rbind (validate_layout_root K fs) (\<lambda>root.
     rbind (branch_or_default M K ref_token_hex fs) (\<lambda>branch_ref.
     rbind (ok_or (Bail ''branch ref does not point to a snapshot'') (rf_head_snapshot_id branch_ref)) (\<lambda>snapshot_id.
     rbind (get_snapshot (store_at M fs) snapshot_id) (\<lambda>snapshot.
     Inr \<lparr> sh_snapshot_id = snapshot_id, sh_layout_generation = root_generation root,
           sh_root_tree_id = sn_root_tree_id snapshot \<rparr>)))))"

fun resolve_segments :: "manifest_store \<Rightarrow> string list \<Rightarrow> string \<Rightarrow> string res" where
  "resolve_segments M [] current_tree_id = Inr current_tree_id"
| "resolve_segments M (segment # segments) current_tree_id =
     ensure (segment \<noteq> []) (Bail ''invalid snapshot path'')
    (ensure (segment \<noteq> ''.'' \<and> segment \<noteq> ''..'') (Bail ''invalid snapshot path'')
    (rbind (get_tree_node M current_tree_id) (\<lambda>tree.
     rbind (ok_or (Bail ''directory not found in snapshot'')
              (List.find (\<lambda>e. te_name e = segment \<and> te_kind e = ''tree'') (tr_entries tree))) (\<lambda>entry.
     resolve_segments M segments (te_object_id entry)))))"

definition resolve_tree_for_path :: "(string \<Rightarrow> string) \<Rightarrow> manifest_store \<Rightarrow> string \<Rightarrow> string \<Rightarrow> string res" where
  "resolve_tree_for_path nfc M root_tree_id path =
     (let normalized = normalize_snapshot_path nfc path in
      if normalized = [] then Inr root_tree_id
      else resolve_segments M (split_on slash normalized) root_tree_id)"

definition split_parent_and_name :: "(string \<Rightarrow> string) \<Rightarrow> string \<Rightarrow> (string \<times> string) res" where
  "split_parent_and_name nfc path =
     (let normalized = normalize_snapshot_path nfc path in
      ensure (normalized \<noteq> []) (Bail ''snapshot path must not be empty'')
        (Inr (case rsplit_once slash normalized of Some (parent, name) \<Rightarrow> (parent, name) | None \<Rightarrow> ([], normalized))))"

record directory_entry =
  de_name :: string
  de_kind :: string

definition read_dir :: "(string \<Rightarrow> string) \<Rightarrow> manifest_store \<Rightarrow> snapshot_handle \<Rightarrow> string \<Rightarrow> directory_entry list res" where
  "read_dir nfc M snapshot path =
     rbind (resolve_tree_for_path nfc M (sh_root_tree_id snapshot) path) (\<lambda>tree_id.
     rbind (get_tree_node M tree_id) (\<lambda>tree.
     Inr (map (\<lambda>e. \<lparr> de_name = te_name e, de_kind = te_kind e \<rparr>) (tr_entries tree))))"

definition open_file :: "(string \<Rightarrow> string) \<Rightarrow> manifest_store \<Rightarrow> snapshot_handle \<Rightarrow> string \<Rightarrow> file_handle res" where
  "open_file nfc M snapshot path =
     rbind (split_parent_and_name nfc path) (\<lambda>(parent_path, file_name).
     rbind (resolve_tree_for_path nfc M (sh_root_tree_id snapshot) parent_path) (\<lambda>tree_id.
     rbind (get_tree_node M tree_id) (\<lambda>tree.
     rbind (ok_or (Bail ''file not found in snapshot'')
              (List.find (\<lambda>e. te_name e = file_name \<and> te_kind e = ''file'') (tr_entries tree))) (\<lambda>entry.
     rbind (read_file_object M (te_object_id entry)) (\<lambda>f.
     Inr (handle_of (sh_snapshot_id snapshot) (te_object_id entry) (sh_layout_generation snapshot) f))))))"

text \<open>The files of a checkout, in the order of the listing; the recursion takes fuel.\<close>

definition join_snapshot_path :: "string \<Rightarrow> string \<Rightarrow> string" where
  "join_snapshot_path parent name = (if parent = [] then name else parent @ ''/'' @ name)"

fun collect_checkout_entries ::
  "(string \<Rightarrow> (string \<times> file_handle) list res option) \<Rightarrow> (string \<Rightarrow> file_handle res) \<Rightarrow> string \<Rightarrow>
   directory_entry list \<Rightarrow> (string \<times> file_handle) list \<Rightarrow> (string \<times> file_handle) list res option" where
  "collect_checkout_entries collect open_one snapshot_path [] paths = Some (Inr paths)"
| "collect_checkout_entries collect open_one snapshot_path (entry # entries) paths =
     (let child = join_snapshot_path snapshot_path (de_name entry) in
      case path_jail_validate child of
        Inl e \<Rightarrow> Some (Inl e)
      | Inr _ \<Rightarrow>
          if de_kind entry = ''tree'' then
            (case collect child of
               None \<Rightarrow> None
             | Some (Inl e) \<Rightarrow> Some (Inl e)
             | Some (Inr below) \<Rightarrow> collect_checkout_entries collect open_one snapshot_path entries (paths @ below))
          else
            (case open_one child of
               Inl e \<Rightarrow> Some (Inl e)
             | Inr handle \<Rightarrow> collect_checkout_entries collect open_one snapshot_path entries (paths @ [(child, handle)])))"

primrec collect_checkout_file_paths ::
  "nat \<Rightarrow> (string \<Rightarrow> string) \<Rightarrow> manifest_store \<Rightarrow> snapshot_handle \<Rightarrow> string \<Rightarrow> (string \<times> file_handle) list res option" where
  "collect_checkout_file_paths 0 nfc M snapshot = (\<lambda>path. None)"
| "collect_checkout_file_paths (Suc fuel) nfc M snapshot = (\<lambda>path.
     (case read_dir nfc M snapshot path of
        Inl e \<Rightarrow> Some (Inl e)
      | Inr entries \<Rightarrow>
          collect_checkout_entries (collect_checkout_file_paths fuel nfc M snapshot) (open_file nfc M snapshot) path entries []))"

section \<open>Verification\<close>

fun verify_chunks :: "manifest_store \<Rightarrow> chunk_object serde \<Rightarrow> string list \<Rightarrow> unit res" where
  "verify_chunks M pc [] = Inr ()"
| "verify_chunks M pc (chunk_id # chunk_ids) =
     rbind (read_chunk_object M pc chunk_id) (\<lambda>_. verify_chunks M pc chunk_ids)"

fun verify_file_shards :: "manifest_store \<Rightarrow> chunk_object serde \<Rightarrow> string list \<Rightarrow> unit res" where
  "verify_file_shards M pc [] = Inr ()"
| "verify_file_shards M pc (shard_id # shard_ids) =
     rbind (read_file_shard_object M shard_id) (\<lambda>shard.
     ensure (length (fs_chunks shard) = length (fs_chunk_lengths shard)) (Bail ''file shard metadata is inconsistent'')
    (rbind (verify_chunks M pc (fs_chunks shard)) (\<lambda>_.
     verify_file_shards M pc shard_ids)))"

definition verify_file_graph :: "manifest_store \<Rightarrow> chunk_object serde \<Rightarrow> string \<Rightarrow> unit res" where
  "verify_file_graph M pc file_id =
     rbind (get_file M file_id) (\<lambda>f.
     rbind (verify_chunks M pc (fo_chunks f)) (\<lambda>_.
     verify_file_shards M pc (fo_shard_ids f)))"

fun verify_tree_entries ::
  "(string \<Rightarrow> unit res option) \<Rightarrow> (string \<Rightarrow> unit res) \<Rightarrow> tree_entry list \<Rightarrow> unit res option" where
  "verify_tree_entries verify_tree verify_file [] = Some (Inr ())"
| "verify_tree_entries verify_tree verify_file (entry # entries) =
     (if te_kind entry = ''tree'' then
        (case verify_tree (te_object_id entry) of
           None \<Rightarrow> None
         | Some (Inl e) \<Rightarrow> Some (Inl e)
         | Some (Inr _) \<Rightarrow> verify_tree_entries verify_tree verify_file entries)
      else if te_kind entry = ''file'' then
        (case verify_file (te_object_id entry) of
           Inl e \<Rightarrow> Some (Inl e)
         | Inr _ \<Rightarrow> verify_tree_entries verify_tree verify_file entries)
      else Some (Inl (Bail ''verify snapshot failed: unknown tree entry kind'')))"

primrec verify_tree_graph :: "nat \<Rightarrow> manifest_store \<Rightarrow> chunk_object serde \<Rightarrow> string \<Rightarrow> unit res option" where
  "verify_tree_graph 0 M pc = (\<lambda>tree_id. None)"
| "verify_tree_graph (Suc fuel) M pc = (\<lambda>tree_id.
     (case get_tree_node M tree_id of
        Inl e \<Rightarrow> Some (Inl e)
      | Inr tree \<Rightarrow> verify_tree_entries (verify_tree_graph fuel M pc) (verify_file_graph M pc) (tr_entries tree)))"

fun verify_history ::
  "nat \<Rightarrow> nat \<Rightarrow> manifest_store \<Rightarrow> chunk_object serde \<Rightarrow> string set \<Rightarrow> string option \<Rightarrow> unit res option" where
  "verify_history fuel depth M pc visited None = Some (Inr ())"
| "verify_history 0 depth M pc visited (Some snapshot_id) = None"
| "verify_history (Suc fuel) depth M pc visited (Some snapshot_id) =
     (if snapshot_id \<in> visited then
        Some (Inl (Bail ''verify snapshot failed: snapshot parent cycle detected''))
      else
        (case get_snapshot M snapshot_id of
           Inl e \<Rightarrow> Some (Inl e)
         | Inr snapshot \<Rightarrow>
             (case verify_tree_graph depth M pc (sn_root_tree_id snapshot) of
                None \<Rightarrow> None
              | Some (Inl e) \<Rightarrow> Some (Inl e)
              | Some (Inr _) \<Rightarrow>
                  verify_history fuel depth M pc (insert snapshot_id visited) (sn_parent_snapshot_id snapshot))))"

definition verify_snapshot_graph :: "nat \<Rightarrow> nat \<Rightarrow> manifest_store \<Rightarrow> chunk_object serde \<Rightarrow> string \<Rightarrow> unit res option" where
  "verify_snapshot_graph fuel depth M pc snapshot_id = verify_history fuel depth M pc {} (Some snapshot_id)"

definition verify_snapshot ::
  "nat \<Rightarrow> nat \<Rightarrow> manifest_store \<Rightarrow> ref_codecs \<Rightarrow> chunk_object serde \<Rightarrow> string \<Rightarrow> files \<Rightarrow> unit res option" where
  "verify_snapshot fuel depth M K pc snapshot_id fs =
     (case open_repository M K fs of
        Inl e \<Rightarrow> Some (Inl e)
      | Inr _ \<Rightarrow> verify_snapshot_graph fuel depth (store_at M fs) pc snapshot_id)"

definition verify_object :: "manifest_store \<Rightarrow> ref_codecs \<Rightarrow> string \<Rightarrow> string \<Rightarrow> files \<Rightarrow> unit res" where
  "verify_object M K object_id expected_type fs =
     rbind (validate_layout_root K fs) (\<lambda>_.
     rbind (get_object (ms_crypto M) (ms_secrets M) object_id expected_type fs) (\<lambda>_. Inr ()))"

definition verify_ref ::
  "nat \<Rightarrow> nat \<Rightarrow> manifest_store \<Rightarrow> ref_codecs \<Rightarrow> chunk_object serde \<Rightarrow> files \<Rightarrow> unit res option" where
  "verify_ref fuel depth M K pc fs =
     (case rbind (open_repository M K fs) (\<lambda>_. read_default_ref M K fs) of
        Inl e \<Rightarrow> Some (Inl e)
      | Inr default_ref \<Rightarrow>
          (case rf_head_snapshot_id default_ref of
             None \<Rightarrow> Some (Inr ())
           | Some snapshot_id \<Rightarrow> verify_snapshot_graph fuel depth (store_at M fs) pc snapshot_id))"

end
