(* ===== verification/Writeback.thy ===== *)
theory Writeback
  imports Snapshots
begin

text \<open>
  The writeback of an overlay to a branch (\<^verbatim>\<open>write_branch_overlay\<close> in
  \<^verbatim>\<open>e2v-core/src/facade.rs\<close>): the virtual tree written as objects, and the whole operation from
  the options to the new head.
\<close>

section \<open>The branch\<close>

definition resolve_branch_ref_for_writeback ::
  "manifest_store \<Rightarrow> ref_codecs \<Rightarrow> ref_record \<Rightarrow> string \<Rightarrow> files \<Rightarrow> (ref_record \<times> bool) res" where
  "resolve_branch_ref_for_writeback M K current_default_ref ref_token_hex fs =
     (if rf_ref_token_hex current_default_ref = ref_token_hex then Inr (current_default_ref, True)
      else
        rbind (read_branch_ref_if_exists M K ref_token_hex fs) (\<lambda>found.
        rbind (ok_or (Bail ''branch ref not found for token'') found) (\<lambda>branch_ref. Inr (branch_ref, False))))"

section \<open>Writing the virtual tree\<close>

text \<open>The writer has a list of warnings of its own, which must stay empty.\<close>

definition own_warnings :: "(commit_state, 'a) prog \<Rightarrow> (commit_state, 'a) prog" where
  "own_warnings m st = (case m (st\<lparr> cs_warnings := [] \<rparr>) of (r, st') \<Rightarrow> (r, st'\<lparr> cs_warnings := cs_warnings st \<rparr>))"

definition write_virtual_file_object ::
  "manifest_store \<Rightarrow> content_writer \<Rightarrow> string \<Rightarrow> byte list \<Rightarrow> u64 \<Rightarrow> (commit_state, string) prog" where
  "write_virtual_file_object M W entry_name bytes modified_unix_ms =
     own_warnings
      (sbind (build_file_tree_entry_with M (cw_chunk W) (cw_fastcdc W) entry_name (Inr (bytes, modified_unix_ms))) (\<lambda>maybe_entry.
       sbind (slift (ok_or (Bail ''virtual overlay file should be writable'') maybe_entry)) (\<lambda>tree_entry.
       sbind (sread (\<lambda>st. Inr (cs_warnings st))) (\<lambda>warnings.
       sensure (warnings = []) (Bail ''virtual overlay file staging produced unexpected warnings'')
      (sret (te_object_id tree_entry))))))"

function write_virtual_directory_object ::
    "manifest_store \<Rightarrow> content_writer \<Rightarrow> virtual_directory \<Rightarrow> (commit_state, string) prog"
  and write_virtual_entries ::
    "manifest_store \<Rightarrow> content_writer \<Rightarrow> (string \<times> virtual_entry) list \<Rightarrow> tree_entry list \<Rightarrow>
     (commit_state, tree_entry list) prog" where
  "write_virtual_directory_object M W (VirtualDirectory entries) =
     sbind (write_virtual_entries M W entries []) (write_directory M)"
| "write_virtual_entries M W [] tree_entries = sret tree_entries"
| "write_virtual_entries M W ((name, entry) # rest) tree_entries =
     sbind (case entry of
         FileEntry (Existing object_id) \<Rightarrow> sret \<lparr> te_name = name, te_kind = ''file'', te_object_id = object_id \<rparr>
       | FileEntry (Staged bytes modified_unix_ms) \<Rightarrow>
           sbind (write_virtual_file_object M W name bytes modified_unix_ms) (\<lambda>object_id.
           sret \<lparr> te_name = name, te_kind = ''file'', te_object_id = object_id \<rparr>)
       | DirEntry child \<Rightarrow>
           sbind (write_virtual_directory_object M W child) (\<lambda>object_id.
           sret \<lparr> te_name = name, te_kind = ''tree'', te_object_id = object_id \<rparr>)) (\<lambda>tree_entry.
     write_virtual_entries M W rest (tree_entries @ [tree_entry]))"
  by pat_completeness auto
termination
  by (relation "measure (case_sum (\<lambda>(M, W, d). size d)
      (\<lambda>(M, W, es, acc). size_list (size_prod (\<lambda>_. 0) size) es))") auto

section \<open>The writeback\<close>

record branch_writeback_options =
  bo_ref_token_hex :: string
  bo_expected_head_snapshot_id :: "string option"
  bo_message :: string
  bo_changes :: "branch_overlay_change list"

datatype branch_writeback_outcome =
    Noop "string option"
  | Committed string "string option" bool
  | Conflicted "string option" "string option" "conflict_entry list"

text \<open>
  What the operation needs besides the store: \<open>nfc\<close>, the clock \<open>clk\<close>, the codecs of refs, the writer of
  contents, and the fuel for loading the base snapshot (\<^const>\<open>None\<close> when it is used up).
\<close>

definition write_branch_overlay ::
  "(string \<Rightarrow> string) \<Rightarrow> (nat \<Rightarrow> u64) \<Rightarrow> nat \<Rightarrow> manifest_store \<Rightarrow> ref_codecs \<Rightarrow> content_writer \<Rightarrow>
   branch_writeback_options \<Rightarrow> commit_state \<Rightarrow> (branch_writeback_outcome res \<times> commit_state) option" where
  "write_branch_overlay nfc clk fuel M K W opts st =
     (let fs = cs_files st in
      case (ensure (\<not> blank (bo_message opts)) (Bail ''writeback message must not be empty'')
             (rbind (validate_ref_token_value (bo_ref_token_hex opts)) (\<lambda>_.
              rbind (case bo_expected_head_snapshot_id opts of
                       None \<Rightarrow> Inr ()
                     | Some i \<Rightarrow> with_context ''invalid expected head snapshot id'' (validate_object_id_value i)) (\<lambda>_.
              rbind (read_default_ref M K fs) (\<lambda>current_default_ref.
              resolve_branch_ref_for_writeback M K current_default_ref (bo_ref_token_hex opts) fs))))) of
        Inl e \<Rightarrow> Some (Inl e, st)
      | Inr (branch_ref, branch_is_default) \<Rightarrow>
          (let head = rf_head_snapshot_id branch_ref; rebased = (head \<noteq> bo_expected_head_snapshot_id opts) in
           if bo_changes opts = [] then Some (Inr (Noop head), st)
           else
             (case (if rebased then
                      detect_branch_overlay_conflicts nfc (store_at M fs) (bo_expected_head_snapshot_id opts) head (bo_changes opts)
                    else Inr []) of
                Inl e \<Rightarrow> Some (Inl e, st)
              | Inr (c # cs) \<Rightarrow> Some (Inr (Conflicted (bo_expected_head_snapshot_id opts) head (c # cs)), st)
              | Inr [] \<Rightarrow>
                  (case load_virtual_directory_from_snapshot fuel (store_at M fs) head of
                     None \<Rightarrow> None
                   | Some (Inl e) \<Rightarrow> Some (Inl e, st)
                   | Some (Inr base) \<Rightarrow>
                       (case apply_overlay_changes nfc clk (bo_changes opts) base of
                          (Inl e, _) \<Rightarrow> Some (Inl e, st)
                        | (Inr _, virtual_root) \<Rightarrow>
                            Some (sbind (write_virtual_directory_object M W virtual_root) (\<lambda>root_tree_id.
                              sbind (write_object M (ms_snapshot M) ''snapshot''
                                \<lparr> sn_schema_version = repo_format_version, sn_message = bo_message opts,
                                  sn_root_tree_id = root_tree_id, sn_parent_snapshot_id = head \<rparr>) (\<lambda>snapshot_id.
                              let updated = branch_ref\<lparr> rf_head_snapshot_id := Some snapshot_id \<rparr> in
                              sbind (on_commit_files (write_branch_ref M K updated)) (\<lambda>_.
                              sbind (if branch_is_default then on_commit_files (write_default_ref M K updated) else sret ()) (\<lambda>_.
                              sret (Committed snapshot_id head rebased))))) st))))))"

end
