(* ===== verification/File_Proofs.thy ===== *)
theory File_Proofs
  imports File_Objects
begin

text \<open>
  Lemmas on file contents: a sequence of puts leaves every object of it readable, the writers are
  sequences of puts that depend only on the content, and the loops over chunks and shards collect
  the requested slice.
\<close>

section \<open>Sequences of puts\<close>

abbreviation oid :: "manifest_store \<Rightarrow> string \<Rightarrow> byte list \<Rightarrow> string" where
  "oid M t p \<equiv> derive_object_id (ms_crypto M) (ms_secrets M) t p"

abbreviation typed :: "manifest_store \<Rightarrow> string \<Rightarrow> files \<Rightarrow> loaded_object res" where
  "typed M i fs \<equiv> get_typed_object (ms_crypto M) (ms_secrets M) i fs"

inductive puts :: "manifest_store \<Rightarrow> files \<Rightarrow> (string \<times> byte list) list \<Rightarrow> files \<Rightarrow> bool" for M where
  puts_Nil: "puts M fs [] fs"
| puts_Cons: "put_object (ms_crypto M) rnd (ms_secrets M) t p fs = (Inr i, fs1) \<Longrightarrow> draw_ok rnd \<Longrightarrow>
    puts M fs1 W fs' \<Longrightarrow> puts M fs ((t, p) # W) fs'"

inductive_cases puts_NilE: "puts M fs [] fs'"
inductive_cases puts_ConsE: "puts M fs ((t, p) # W) fs'"

lemma puts_append: "puts M fs W fs1 \<Longrightarrow> puts M fs1 V fs' \<Longrightarrow> puts M fs (W @ V) fs'"
  by (induction rule: puts.induct) (auto intro: puts.intros)

text \<open>
  Objects that may be written together over a store: their sizes fit the envelope, no two
  different ones have the same id, and none has the id of another that is already stored.
\<close>

definition storable :: "manifest_store \<Rightarrow> files \<Rightarrow> (string \<times> byte list) set \<Rightarrow> bool" where
  "storable M fs W \<longleftrightarrow>
     (\<forall>(t, p) \<in> W. utf8_string t \<and> length t < 256 \<and> length p + 36 < 2 ^ 64 \<and>
        (\<forall>l. typed M (oid M t p) fs = Inr l \<longrightarrow> l = \<lparr> loaded_type = t, loaded_plaintext = p \<rparr>) \<and>
        (\<forall>(u, q) \<in> W. oid M u q = oid M t p \<longrightarrow> (u, q) = (t, p)))"

lemma storable_mono: "storable M fs W \<Longrightarrow> V \<subseteq> W \<Longrightarrow> storable M fs V"
  unfolding storable_def by blast

lemma typed_cong:
  "map_of fs (relative_object_path i) = map_of fs' (relative_object_path i) \<Longrightarrow>
     get_typed_object C s i fs = get_typed_object C s i fs'"
  by (simp add: get_typed_object_def file_get_def)

lemma object_path_inject [simp]: "relative_object_path i = relative_object_path j \<longleftrightarrow> i = j"
  by (simp add: relative_object_path_def)

definition keeps :: "manifest_store \<Rightarrow> files \<Rightarrow> files \<Rightarrow> bool" where
  "keeps M fs fs' \<longleftrightarrow> (\<forall>i l. typed M i fs = Inr l \<longrightarrow> typed M i fs' = Inr l)"

lemma keeps_refl [simp]: "keeps M fs fs"
  by (simp add: keeps_def)

lemma keeps_trans: "keeps M fs fs1 \<Longrightarrow> keeps M fs1 fs' \<Longrightarrow> keeps M fs fs'"
  by (simp add: keeps_def)

lemma put_one:
  assumes "crypto_ok (ms_crypto M)" "draw_ok rnd" "bt_ok fs" "storable M fs W" "(t, p) \<in> W"
    and put: "put_object (ms_crypto M) rnd (ms_secrets M) t p fs = (Inr i, fs1)"
  shows "i = oid M t p" "bt_ok fs1" "typed M i fs1 = Inr \<lparr> loaded_type = t, loaded_plaintext = p \<rparr>"
    "keeps M fs fs1" "storable M fs1 W"
proof -
  have w: "utf8_string t" "length t < 256" "length p + 36 < 2 ^ 64"
    and old: "\<And>l. typed M (oid M t p) fs = Inr l \<Longrightarrow> l = \<lparr> loaded_type = t, loaded_plaintext = p \<rparr>"
    using assms(4,5) by (auto simp: storable_def)
  show i: "i = oid M t p" and ok: "bt_ok fs1" using put assms(3) by (elim put_object_stored; simp)+
  note got = put_get_typed [OF assms(1-3) w put]
  show here: "typed M i fs1 = Inr \<lparr> loaded_type = t, loaded_plaintext = p \<rparr>" using got by simp
  have other: "typed M j fs1 = typed M j fs" if "j \<noteq> i" for j
  proof (rule typed_cong)
    show "map_of fs1 (relative_object_path j) = map_of fs (relative_object_path j)" using got that by simp
  qed
  show "keeps M fs fs1" unfolding keeps_def
  proof (intro allI impI)
    fix j l assume l: "typed M j fs = Inr l"
    show "typed M j fs1 = Inr l"
    proof (cases "j = i")
      case True
      with l old i here show ?thesis by metis
    next
      case False
      with l other show ?thesis by simp
    qed
  qed
  show "storable M fs1 W" unfolding storable_def
  proof (intro ballI, clarify)
    fix u q assume uq: "(u, q) \<in> W"
    have "l = \<lparr> loaded_type = u, loaded_plaintext = q \<rparr>" if l: "typed M (oid M u q) fs1 = Inr l" for l
    proof (cases "oid M u q = i")
      case True
      then have "(u, q) = (t, p)" using assms(4,5) uq i by (force simp: storable_def)
      with l here True show ?thesis by simp
    next
      case False
      with l other have "typed M (oid M u q) fs = Inr l" by simp
      with assms(4) uq show ?thesis by (force simp: storable_def)
    qed
    moreover have "utf8_string u \<and> length u < 256 \<and> length q + 36 < 2 ^ 64 \<and>
        (\<forall>(v, r) \<in> W. oid M v r = oid M u q \<longrightarrow> (v, r) = (u, q))"
      using assms(4) uq by (force simp: storable_def)
    ultimately show "utf8_string u \<and> length u < 256 \<and> length q + 36 < 2 ^ 64 \<and>
        (\<forall>l. typed M (oid M u q) fs1 = Inr l \<longrightarrow> l = \<lparr> loaded_type = u, loaded_plaintext = q \<rparr>) \<and>
        (\<forall>(v, r) \<in> W. oid M v r = oid M u q \<longrightarrow> (v, r) = (u, q))" by blast
  qed
qed

lemma puts_stored:
  assumes "puts M fs W fs'" "crypto_ok (ms_crypto M)"
  shows "bt_ok fs \<Longrightarrow> storable M fs S \<Longrightarrow> set W \<subseteq> S \<Longrightarrow> bt_ok fs' \<and> storable M fs' S \<and> keeps M fs fs' \<and>
    (\<forall>(t, p) \<in> set W. typed M (oid M t p) fs' = Inr \<lparr> loaded_type = t, loaded_plaintext = p \<rparr>)"
  using assms(1)
proof (induction rule: puts.induct)
  case (puts_Cons rnd t p fs i fs1 W fs')
  have "(t, p) \<in> S" using puts_Cons.prems by simp
  note one = put_one [OF assms(2) puts_Cons.hyps(2) puts_Cons.prems(1,2) this puts_Cons.hyps(1)]
  have ih: "bt_ok fs'" "storable M fs' S" "keeps M fs1 fs'"
    "\<forall>(t, p) \<in> set W. typed M (oid M t p) fs' = Inr \<lparr> loaded_type = t, loaded_plaintext = p \<rparr>"
    using puts_Cons.IH [OF one(2,5)] puts_Cons.prems(3) by simp_all
  with one(1,3,4) show ?case by (auto simp: keeps_def)
qed simp

section \<open>Writers are sequences of puts\<close>

definition draws_ok :: "commit_state \<Rightarrow> bool" where
  "draws_ok st \<longleftrightarrow> (\<forall>n. draw_ok (cs_draws st n))"

definition writes :: "manifest_store \<Rightarrow> (commit_state, 'a) prog \<Rightarrow> (string \<times> byte list) list \<Rightarrow> 'a \<Rightarrow> bool" where
  "writes M m W x \<longleftrightarrow> (\<forall>st y st'. draws_ok st \<longrightarrow> m st = (Inr y, st') \<longrightarrow>
     y = x \<and> puts M (cs_files st) W (cs_files st') \<and> draws_ok st')"

lemma writesD:
  "writes M m W x \<Longrightarrow> draws_ok st \<Longrightarrow> m st = (Inr y, st') \<Longrightarrow> y = x"
  "writes M m W x \<Longrightarrow> draws_ok st \<Longrightarrow> m st = (Inr y, st') \<Longrightarrow> puts M (cs_files st) W (cs_files st')"
  "writes M m W x \<Longrightarrow> draws_ok st \<Longrightarrow> m st = (Inr y, st') \<Longrightarrow> draws_ok st'"
  by (simp_all add: writes_def)

lemma writes_sret: "writes M (sret x) [] x"
  by (simp add: writes_def puts_Nil)

lemma writes_sbind:
  assumes "writes M m W x" "writes M (f x) V y"
  shows "writes M (sbind m f) (W @ V) y"
  unfolding writes_def
proof (intro allI impI)
  fix st z st' assume st: "draws_ok st" "sbind m f st = (Inr z, st')"
  then obtain x' st1 where one: "m st = (Inr x', st1)" "f x' st1 = (Inr z, st')" by (auto simp: sbind_Inr_iff)
  note w = writesD [OF assms(1) st(1) one(1)]
  from one(2) w(1) have "f x st1 = (Inr z, st')" by simp
  from writesD [OF assms(2) w(3) this] puts_append [OF w(2)]
  show "z = y \<and> puts M (cs_files st) (W @ V) (cs_files st') \<and> draws_ok st'" by blast
qed

lemma writes_quiet:
  assumes "\<And>st y st'. m st = (Inr y, st') \<Longrightarrow> y = x \<and> cs_files st' = cs_files st \<and> cs_draws st' = cs_draws st"
  shows "writes M m [] x"
  unfolding writes_def using assms puts_Nil by (auto simp: draws_ok_def)

lemma writes_put_next: "writes M (put_next M t p) [(t, p)] (oid M t p)"
  unfolding writes_def
proof (intro allI impI)
  fix st y st' assume st: "draws_ok st" "put_next M t p st = (Inr y, st')"
  then obtain fs where put: "put_object (ms_crypto M) (cs_draws st 0) (ms_secrets M) t p (cs_files st) = (Inr y, fs)"
    and st': "st' = st\<lparr> cs_files := fs, cs_draws := (\<lambda>n. cs_draws st (Suc n)) \<rparr>"
    by (auto simp: put_next_def split: prod.splits)
  from put have "y = oid M t p" by (elim put_object_stored)
  moreover have "puts M (cs_files st) [(t, p)] (cs_files st')"
    using puts_Cons [OF put _ puts_Nil] st(1) by (simp add: st' draws_ok_def)
  moreover have "draws_ok st'" using st(1) by (simp add: st' draws_ok_def)
  ultimately show "y = oid M t p \<and> puts M (cs_files st) [(t, p)] (cs_files st') \<and> draws_ok st'" by blast
qed

lemma writes_object: "writes M (write_object M pc t x) [(t, to_vec pc x)] (oid M t (to_vec pc x))"
  unfolding write_object_def by (rule writes_put_next)

lemma writes_read: "(\<And>x. writes M (f x) W y) \<Longrightarrow> writes M (sbind (sread g) f) W y"
  unfolding writes_def by (auto simp: sbind_def split: sum.splits)

lemma writes_count_bytes: "writes M (count_bytes b n) [] ()"
  by (rule writes_quiet) (auto simp: count_bytes_def split: if_splits)

section \<open>What a file is stored as\<close>

definition piece_at :: "byte list \<Rightarrow> chunk_span \<Rightarrow> byte list" where
  "piece_at bytes s = take (span_length s) (drop (span_offset s) bytes)"

definition chunk_entry :: "chunk_object serde \<Rightarrow> byte list \<Rightarrow> string \<times> byte list" where
  "chunk_entry pc piece = (''chunk'', to_vec pc \<lparr> ck_plaintext_length = of_nat (length piece), ck_data = piece \<rparr>)"

definition entry_id :: "manifest_store \<Rightarrow> string \<times> byte list \<Rightarrow> string" where
  "entry_id M e = oid M (fst e) (snd e)"

definition len64 :: "byte list \<Rightarrow> u64" where
  "len64 piece = of_nat (length piece)"

definition chunk_id :: "manifest_store \<Rightarrow> chunk_object serde \<Rightarrow> byte list \<Rightarrow> string" where
  "chunk_id M pc piece = entry_id M (chunk_entry pc piece)"

text \<open>Cutting a list into blocks of \<open>n\<close>.\<close>

function blocks :: "nat \<Rightarrow> 'a list \<Rightarrow> 'a list list" where
  "blocks n xs = (if xs = [] \<or> n = 0 then [] else take n xs # blocks n (drop n xs))"
  by pat_completeness auto
termination by (relation "measure (\<lambda>(n, xs). length xs)") auto

declare blocks.simps [simp del]

lemma blocks_Nil [simp]: "blocks n [] = []"
  by (simp add: blocks.simps)

lemma concat_blocks: "0 < n \<Longrightarrow> concat (blocks n xs) = xs"
  by (induction n xs rule: blocks.induct) (subst blocks.simps, simp)

lemma map_blocks: "blocks n (map f xs) = map (map f) (blocks n xs)"
proof (induction n xs rule: blocks.induct)
  case (1 n xs)
  then show ?case
    by (subst (1 2) blocks.simps) (simp add: take_map drop_map)
qed

lemma blocks_eq_Nil: "0 < n \<Longrightarrow> blocks n xs = [] \<longleftrightarrow> xs = []"
  by (subst blocks.simps) simp

definition file_shard_entry :: "manifest_store \<Rightarrow> chunk_object serde \<Rightarrow> byte list list \<Rightarrow> string \<times> byte list" where
  "file_shard_entry M pc ps = (''file_shard'', to_vec (ms_file_shard M)
     \<lparr> fs_schema_version = repo_format_version, fs_chunks = map (chunk_id M pc) ps, fs_chunk_lengths = map len64 ps \<rparr>)"

definition described_file ::
  "manifest_store \<Rightarrow> chunk_object serde \<Rightarrow> string \<Rightarrow> u64 \<Rightarrow> byte list \<Rightarrow> byte list list \<Rightarrow> file_object" where
  "described_file M pc name mtime bytes ps =
     (let groups = (if max_file_chunks_per_object < length ps then blocks max_file_chunks_per_object ps else []) in
      \<lparr> fo_schema_version = repo_format_version, fo_entry_name = name, fo_file_size = of_nat (length bytes),
        fo_modified_unix_ms = mtime, fo_chunker_id = chunker_id_name, fo_chunker_config_id = chunker_config_fingerprint,
        fo_chunk_count = of_nat (length ps),
        fo_chunks = (if groups = [] then map (chunk_id M pc) ps else []),
        fo_chunk_lengths = (if groups = [] then map len64 ps else []),
        fo_shard_ids = map (\<lambda>g. entry_id M (file_shard_entry M pc g)) groups,
        fo_shard_byte_lengths = map (\<lambda>g. sum_list (map len64 g)) groups \<rparr>)"

definition stored_pieces :: "chunker \<Rightarrow> byte list \<Rightarrow> byte list list" where
  "stored_pieces fastcdc bytes = map (piece_at bytes) (split_spans fastcdc bytes)"

definition file_entries ::
  "manifest_store \<Rightarrow> chunk_object serde \<Rightarrow> chunker \<Rightarrow> string \<Rightarrow> u64 \<Rightarrow> byte list \<Rightarrow> (string \<times> byte list) list" where
  "file_entries M pc fastcdc name mtime bytes =
     (let ps = stored_pieces fastcdc bytes in
      map (chunk_entry pc) ps @
      (if max_file_chunks_per_object < length ps
       then map (file_shard_entry M pc) (blocks max_file_chunks_per_object ps) else []) @
      [(''file'', to_vec (ms_file M) (described_file M pc name mtime bytes ps))])"

definition file_id :: "manifest_store \<Rightarrow> chunk_object serde \<Rightarrow> chunker \<Rightarrow> string \<Rightarrow> u64 \<Rightarrow> byte list \<Rightarrow> string" where
  "file_id M pc fastcdc name mtime bytes =
     oid M ''file'' (to_vec (ms_file M) (described_file M pc name mtime bytes (stored_pieces fastcdc bytes)))"

lemma chunk_id_eq: "oid M ''chunk'' (snd (chunk_entry pc p)) = chunk_id M pc p"
  by (simp add: chunk_id_def entry_id_def chunk_entry_def)

lemma writes_chunks:
  "writes M (write_chunks M pc bytes spans ids lens) (map (chunk_entry pc) (map (piece_at bytes) spans))
     (ids @ map (chunk_id M pc) (map (piece_at bytes) spans), lens @ map len64 (map (piece_at bytes) spans))"
proof (induction spans arbitrary: ids lens)
  case Nil
  then show ?case unfolding write_chunks.simps list.map append_Nil2 by (rule writes_sret)
next
  case (Cons s spans)
  let ?p = "piece_at bytes s"
  have "writes M (sbind (put_next M ''chunk'' (snd (chunk_entry pc ?p))) (\<lambda>i. sbind (count_bytes b n) (\<lambda>_.
      write_chunks M pc bytes spans (ids @ [i]) (lens @ [len64 ?p]))))
    ([(''chunk'', snd (chunk_entry pc ?p))] @ [] @ map (chunk_entry pc) (map (piece_at bytes) spans))
    ((ids @ [chunk_id M pc ?p]) @ map (chunk_id M pc) (map (piece_at bytes) spans),
     (lens @ [len64 ?p]) @ map len64 (map (piece_at bytes) spans))" for b n
    by (rule writes_sbind [OF writes_put_next writes_sbind [OF writes_count_bytes]])
      (unfold chunk_id_eq, rule Cons.IH)
  then show ?case
    unfolding write_chunks.simps Let_def
    unfolding piece_at_def [symmetric] len64_def [symmetric]
    by (intro writes_read) (simp add: chunk_entry_def [of pc ?p] len64_def [of ?p])
qed

lemma writes_file_shards:
  "writes M (write_file_shards M (map (chunk_id M pc) ps) (map len64 ps) ids lens)
     (map (file_shard_entry M pc) (blocks max_file_chunks_per_object ps))
     (ids @ map (\<lambda>g. entry_id M (file_shard_entry M pc g)) (blocks max_file_chunks_per_object ps),
      lens @ map (\<lambda>g. sum_list (map len64 g)) (blocks max_file_chunks_per_object ps))"
proof (induction "max_file_chunks_per_object" ps arbitrary: ids lens rule: blocks.induct)
  case (1 ps)
  have n: "max_file_chunks_per_object \<noteq> 0" by (simp add: max_file_chunks_per_object_def)
  show ?case
  proof (cases "ps = []")
    case True
    then show ?thesis
      using writes_sret [of M "(ids, lens)"] by (subst write_file_shards.simps) (simp del: prog_simps)
  next
    case False
    let ?g = "take max_file_chunks_per_object ps" and ?r = "drop max_file_chunks_per_object ps"
    note ih = 1 [OF _ , of "ids @ [entry_id M (file_shard_entry M pc ?g)]" "lens @ [sum_list (map len64 ?g)]"]
    have "writes M (sbind (write_object M (ms_file_shard M) ''file_shard''
          \<lparr> fs_schema_version = repo_format_version, fs_chunks = map (chunk_id M pc) ?g, fs_chunk_lengths = map len64 ?g \<rparr>) (\<lambda>i.
        write_file_shards M (map (chunk_id M pc) ?r) (map len64 ?r) (ids @ [i]) (lens @ [sum_list (map len64 ?g)])))
      ([file_shard_entry M pc ?g] @ map (file_shard_entry M pc) (blocks max_file_chunks_per_object ?r))
      ((ids @ [entry_id M (file_shard_entry M pc ?g)]) @
         map (\<lambda>g. entry_id M (file_shard_entry M pc g)) (blocks max_file_chunks_per_object ?r),
       (lens @ [sum_list (map len64 ?g)]) @ map (\<lambda>g. sum_list (map len64 g)) (blocks max_file_chunks_per_object ?r))"
      unfolding file_shard_entry_def [of M pc ?g] entry_id_def [of M "(''file_shard'', x)" for x] fst_conv snd_conv
      by (rule writes_sbind [OF writes_object])
        (use ih False n in \<open>simp add: file_shard_entry_def [of M pc ?g] entry_id_def [of M "(''file_shard'', x)" for x]\<close>)
    then show ?thesis
      using False n by (subst write_file_shards.simps, subst (1 2 3) blocks.simps) (simp add: take_map drop_map)
  qed
qed

lemma writes_build_file:
  "writes M (build_file_tree_entry_with M pc fastcdc name (Inr (bytes, mtime))) (file_entries M pc fastcdc name mtime bytes)
     (Some \<lparr> te_name = name, te_kind = ''file'', te_object_id = file_id M pc fastcdc name mtime bytes \<rparr>)"
proof -
  let ?ps = "stored_pieces fastcdc bytes"
  let ?big = "max_file_chunks_per_object < length ?ps"
  let ?groups = "blocks max_file_chunks_per_object ?ps"
  let ?f = "described_file M pc name mtime bytes ?ps"
  have n: "0 < max_file_chunks_per_object" by (simp add: max_file_chunks_per_object_def)
  have nonempty: "?groups \<noteq> []" if ?big using that n by (auto simp: blocks_eq_Nil)
  have layout: "writes M (if max_file_chunks_per_object < length (map (chunk_id M pc) ?ps)
      then sbind (write_file_shards M (map (chunk_id M pc) ?ps) (map len64 ?ps) [] []) (\<lambda>(shard_ids, shard_byte_lengths).
             sret ([], [], shard_ids, shard_byte_lengths))
      else sret (map (chunk_id M pc) ?ps, map len64 ?ps, [], []))
    (if ?big then map (file_shard_entry M pc) ?groups else [])
    (fo_chunks ?f, fo_chunk_lengths ?f, fo_shard_ids ?f, fo_shard_byte_lengths ?f)"
  proof (cases ?big)
    case True
    have "writes M (sbind (write_file_shards M (map (chunk_id M pc) ?ps) (map len64 ?ps) [] [])
        (\<lambda>(shard_ids, shard_byte_lengths). sret ([], [], shard_ids, shard_byte_lengths)))
      (map (file_shard_entry M pc) ?groups @ [])
      ([], [], [] @ map (\<lambda>g. entry_id M (file_shard_entry M pc g)) ?groups, [] @ map (\<lambda>g. sum_list (map len64 g)) ?groups)"
      by (rule writes_sbind [OF writes_file_shards]) (simp only: prod.case writes_sret)
    with True nonempty show ?thesis by (simp add: described_file_def Let_def)
  next
    case False
    then show ?thesis by (simp add: described_file_def Let_def writes_sret del: prog_simps)
  qed
  have fields: "\<lparr> fo_schema_version = repo_format_version, fo_entry_name = name,
      fo_file_size = of_nat (length bytes), fo_modified_unix_ms = mtime,
      fo_chunker_id = chunker_id_name, fo_chunker_config_id = chunker_config_fingerprint,
      fo_chunk_count = of_nat (length (map (chunk_id M pc) ?ps)), fo_chunks = fo_chunks ?f,
      fo_chunk_lengths = fo_chunk_lengths ?f, fo_shard_ids = fo_shard_ids ?f,
      fo_shard_byte_lengths = fo_shard_byte_lengths ?f \<rparr> = ?f"
    by (simp add: described_file_def Let_def)
  have count: "writes M (\<lambda>st. (Inr (Some \<lparr> te_name = name, te_kind = ''file'', te_object_id = i \<rparr>),
      st\<lparr> cs_committed_files := cs_committed_files st + 1 \<rparr>)) [] (Some \<lparr> te_name = name, te_kind = ''file'', te_object_id = i \<rparr>)" for i
    by (rule writes_quiet) auto
  have pieces: "writes M (write_chunks M pc bytes (split_spans fastcdc bytes) [] []) (map (chunk_entry pc) ?ps)
      (map (chunk_id M pc) ?ps, map len64 ?ps)"
    using writes_chunks [of M pc bytes "split_spans fastcdc bytes" "[]" "[]"] unfolding stored_pieces_def by simp
  have "writes M (build_file_tree_entry_with M pc fastcdc name (Inr (bytes, mtime)))
    (map (chunk_entry pc) ?ps @ (if ?big then map (file_shard_entry M pc) ?groups else []) @ [(''file'', to_vec (ms_file M) ?f)] @ [])
    (Some \<lparr> te_name = name, te_kind = ''file'', te_object_id = oid M ''file'' (to_vec (ms_file M) ?f) \<rparr>)"
    unfolding build_file_tree_entry_with_def sum.case prod.case
    apply (rule writes_sbind [OF pieces])
    apply (simp only: prod.case)
    apply (rule writes_sbind [OF layout])
    apply (simp only: prod.case fields)
    apply (rule writes_sbind [OF writes_object])
    apply (rule count)
    done
  then show ?thesis by (simp add: file_entries_def file_id_def Let_def)
qed

section \<open>Slices\<close>

definition slice :: "nat \<Rightarrow> nat \<Rightarrow> 'a list \<Rightarrow> 'a list" where
  "slice a b xs = take (b - a) (drop a xs)"

lemma length_slice: "length (slice a b xs) = min b (length xs) - a"
  by (auto simp: slice_def)

lemma slice_empty [simp]: "b \<le> a \<Longrightarrow> slice a b xs = []"
  by (simp add: slice_def)

text \<open>One more piece after a prefix of the input.\<close>

lemma slice_step:
  assumes "length pre < b" "a < length pre + length p"
  shows "slice a (min (length pre) b) (pre @ p @ rest) @
      take (min (b - length pre) (length p) - (a - length pre)) (drop (a - length pre) p) =
    slice a (min (length pre + length p) b) (pre @ p @ rest)"
proof (cases "a \<le> length pre")
  case True
  with assms show ?thesis by (auto simp: slice_def min_def)
next
  case False
  with assms show ?thesis by (auto simp: slice_def min_def)
qed

section \<open>Reading what is stored\<close>

abbreviation stored :: "manifest_store \<Rightarrow> files \<Rightarrow> string \<times> byte list \<Rightarrow> bool" where
  "stored M fs e \<equiv> typed M (entry_id M e) fs = Inr \<lparr> loaded_type = fst e, loaded_plaintext = snd e \<rparr>"

lemma read_stored:
  "stored M fs (t, to_vec pc x) \<Longrightarrow> serde_ok pc \<Longrightarrow> read_stored_object (store_at M fs) pc (oid M t (to_vec pc x)) t = Inr x"
  by (simp add: read_stored_object_def get_object_def postcard_from_bytes_def entry_id_def)

lemma typed_exists: "typed M i fs = Inr l \<Longrightarrow> exists_object i fs"
  by (auto simp: get_typed_object_def exists_object_def file_get_def file_exists_def rbind_Inr_iff with_context_Inr_iff ok_or_Inr_iff)

definition reader_of :: "manifest_store \<Rightarrow> chunk_object serde \<Rightarrow> range_reader \<Rightarrow> bool" where
  "reader_of M pc R \<longleftrightarrow> rr_store R = M \<and> rr_chunk R = pc"

lemma load_chunk_stored:
  assumes "stored M fs (chunk_entry pc p)" "serde_ok pc" "reader_of M pc R"
  shows "load_chunk R (chunk_id M pc p) fs = (Inr \<lparr> ck_plaintext_length = len64 p, ck_data = p \<rparr>, fs)"
proof -
  have "exists_object (chunk_id M pc p) fs" using assms(1) by (auto simp: chunk_id_def dest: typed_exists)
  moreover have "read_chunk_object (store_at M fs) pc (chunk_id M pc p) = Inr \<lparr> ck_plaintext_length = len64 p, ck_data = p \<rparr>"
    unfolding read_chunk_object_def chunk_id_eq [symmetric] chunk_entry_def snd_conv len64_def
    by (rule read_stored) (use assms(1,2) in \<open>simp_all add: chunk_entry_def\<close>)
  ultimately show ?thesis using assms(3) by (simp add: load_chunk_def reader_of_def Let_def)
qed

lemma len64_nat: "length p < 2 ^ 64 \<Longrightarrow> unat (len64 p) = length p"
  by (simp add: len64_def unat_of_nat take_bit_nat_eq_self)

lemma append_spec:
  assumes R: "reader_of M pc R" "serde_ok pc" and bounds: "length full < 2 ^ 64" "unat off < unat stop" "unat stop \<le> length full"
  shows "full = pre @ concat ps @ post \<Longrightarrow> \<forall>p \<in> set ps. stored M fs (chunk_entry pc p) \<Longrightarrow>
    unat start = length pre \<Longrightarrow> buf = slice (unat off) (min (length pre) (unat stop)) full \<Longrightarrow>
    \<exists>start'. append_requested_bytes_from_chunks R off stop (zip (map (chunk_id M pc) ps) (map len64 ps)) (buf, start) fs =
        (Inr (slice (unat off) (min (length pre + length (concat ps)) (unat stop)) full, start'), fs) \<and>
      (length pre + length (concat ps) < unat stop \<longrightarrow> unat start' = length pre + length (concat ps))"
proof (induction ps arbitrary: pre start buf)
  case Nil
  then show ?case by auto
next
  case (Cons p ps)
  let ?run = "\<lambda>out s. append_requested_bytes_from_chunks R off stop (zip (map (chunk_id M pc) ps) (map len64 ps)) (out, s) fs"
  have len: "length pre + length p + length (concat ps) \<le> length full" using Cons.prems(1) by simp
  have dist: "unat (stop - off) = unat stop - unat off" using bounds(2) by (simp add: unat_sub_if')
  have plen: "unat (len64 p) = length p" using len bounds(1) by (intro len64_nat) simp
  have ends: "unat (sat_add start (len64 p)) = length pre + length p"
    using len bounds(1) Cons.prems(3) plen by (simp add: unat_sat_add)
  have rest: "full = (pre @ p) @ concat ps @ post" using Cons.prems(1) by simp
  have out: "length buf = min (length pre) (unat stop) - unat off"
    using Cons.prems(4) len by (simp add: length_slice min_def)
  have tail: "\<exists>start'. ?run (slice (unat off) (min (length (pre @ p)) (unat stop)) full) (sat_add start (len64 p)) =
        (Inr (slice (unat off) (min (length (pre @ p) + length (concat ps)) (unat stop)) full, start'), fs) \<and>
      (length (pre @ p) + length (concat ps) < unat stop \<longrightarrow> unat start' = length (pre @ p) + length (concat ps))"
    using Cons.IH [OF rest _ _ refl, of "sat_add start (len64 p)"] Cons.prems(2) ends by simp
  consider (complete) "unat stop - unat off \<le> length buf"
    | (skip) "length buf < unat stop - unat off" "length pre + length p \<le> unat off"
    | (part) "length buf < unat stop - unat off" "unat off < length pre + length p" "length pre < unat stop"
    using out by linarith
  then show ?case
  proof cases
    case complete
    then have "unat stop \<le> length pre" using out bounds(2) by (simp add: min_def split: if_splits)
    with complete dist Cons.prems(4) show ?thesis by (simp add: min_absorb2)
  next
    case skip
    then have "slice (unat off) (min (length (pre @ p)) (unat stop)) full = buf"
      using Cons.prems(4) by simp
    with tail skip dist ends show ?thesis
      by (simp add: word_le_nat_alt Let_def add.assoc)
  next
    case part
    have load: "load_chunk R (chunk_id M pc p) fs = (Inr \<lparr> ck_plaintext_length = len64 p, ck_data = p \<rparr>, fs)"
      using load_chunk_stored Cons.prems(2) R by simp
    have s1: "unat (sat_sub off start) = unat off - length pre" using Cons.prems(3) by (simp add: unat_sat_sub)
    have s2: "unat (min (stop - start) (len64 p)) = min (unat stop - length pre) (length p)"
      using part(3) Cons.prems(3) plen by (simp add: min_def word_le_nat_alt unat_sub_if')
    have step: "buf @ take (min (unat stop - length pre) (length p) - (unat off - length pre)) (drop (unat off - length pre) p) =
        slice (unat off) (min (length (pre @ p)) (unat stop)) full"
      using slice_step [OF part(3), of "unat off" p "concat ps @ post"] part(2) Cons.prems(1,4) by simp
    have "append_requested_bytes_from_chunks R off stop (zip (map (chunk_id M pc) (p # ps)) (map len64 (p # ps))) (buf, start) fs =
        ?run (buf @ take (min (unat stop - length pre) (length p) - (unat off - length pre)) (drop (unat off - length pre) p))
          (sat_add start (len64 p))"
      using part dist ends Cons.prems(3) plen
      by (simp add: word_le_nat_alt Let_def sbind_def load s1 s2 not_le)
    with tail step show ?thesis by (simp add: add.assoc)
  qed
qed

lemma sum_len64: "length (concat g) < 2 ^ 64 \<Longrightarrow> unat (sum_list (map len64 g)) = length (concat g)"
proof (induction g)
  case (Cons p g)
  then have "unat (len64 p) = length p" "unat (sum_list (map len64 g)) = length (concat g)" by (simp_all add: len64_nat)
  with Cons.prems show ?case by (simp add: unat_add_no_wrap)
qed simp

lemma read_shard_stored:
  assumes "stored M fs (file_shard_entry M pc g)" "serde_ok (ms_file_shard M)"
  shows "read_file_shard_object (store_at M fs) (entry_id M (file_shard_entry M pc g)) =
    Inr \<lparr> fs_schema_version = repo_format_version, fs_chunks = map (chunk_id M pc) g, fs_chunk_lengths = map len64 g \<rparr>"
proof -
  let ?shard = "\<lparr> fs_schema_version = repo_format_version, fs_chunks = map (chunk_id M pc) g, fs_chunk_lengths = map len64 g \<rparr>"
  have "read_stored_object (store_at M fs) (ms_file_shard M) (oid M ''file_shard'' (to_vec (ms_file_shard M) ?shard)) ''file_shard'' = Inr ?shard"
    by (rule read_stored) (use assms in \<open>simp_all add: file_shard_entry_def\<close>)
  then show ?thesis
    by (simp add: read_file_shard_object_def file_shard_entry_def entry_id_def validate_manifest_schema_version_def)
qed

lemma shards_spec:
  assumes R: "reader_of M pc R" "serde_ok pc" "serde_ok (ms_file_shard M)"
    and bounds: "length full < 2 ^ 64" "unat off < unat stop" "unat stop \<le> length full"
  shows "full = pre @ concat (concat gs) @ post \<Longrightarrow> \<forall>g \<in> set gs. stored M fs (file_shard_entry M pc g) \<Longrightarrow>
    \<forall>p \<in> set (concat gs). stored M fs (chunk_entry pc p) \<Longrightarrow>
    unat shard_start = length pre \<Longrightarrow> length pre < unat stop \<longrightarrow> unat start = length pre \<Longrightarrow>
    buf = slice (unat off) (min (length pre) (unat stop)) full \<Longrightarrow>
    \<exists>start'. read_shards R off stop (zip (map (\<lambda>g. entry_id M (file_shard_entry M pc g)) gs) (map (\<lambda>g. sum_list (map len64 g)) gs))
        shard_start (buf, start) fs =
        (Inr (slice (unat off) (min (length pre + length (concat (concat gs))) (unat stop)) full, start'), fs)"
proof (induction gs arbitrary: pre start shard_start buf)
  case Nil
  then show ?case by auto
next
  case (Cons g gs)
  let ?run = "\<lambda>out sh st. read_shards R off stop (zip (map (\<lambda>g. entry_id M (file_shard_entry M pc g)) gs)
      (map (\<lambda>g. sum_list (map len64 g)) gs)) sh (out, st) fs"
  let ?size = "sum_list (map len64 g)"
  have len: "length pre + length (concat g) + length (concat (concat gs)) \<le> length full" using Cons.prems(1) by simp
  have dist: "unat (stop - off) = unat stop - unat off" using bounds(2) by (simp add: unat_sub_if')
  have glen: "unat ?size = length (concat g)" using len bounds(1) by (intro sum_len64) simp
  have ends: "unat (sat_add shard_start ?size) = length pre + length (concat g)"
    using len bounds(1) Cons.prems(4) glen by (simp add: unat_sat_add)
  have rest: "full = (pre @ concat g) @ concat (concat gs) @ post" using Cons.prems(1) by simp
  have out: "length buf = min (length pre) (unat stop) - unat off"
    using Cons.prems(6) len by (simp add: length_slice min_def)
  have tail: "\<exists>start'. ?run (slice (unat off) (min (length (pre @ concat g)) (unat stop)) full) (sat_add shard_start ?size) st =
        (Inr (slice (unat off) (min (length (pre @ concat g) + length (concat (concat gs))) (unat stop)) full, start'), fs)"
    if "length (pre @ concat g) < unat stop \<longrightarrow> unat st = length (pre @ concat g)" for st
    using Cons.IH [OF rest _ _ _ that refl, of "sat_add shard_start ?size"] Cons.prems(2,3) ends by simp
  consider (complete) "unat stop - unat off \<le> length buf"
    | (skip) "length buf < unat stop - unat off" "length pre + length (concat g) \<le> unat off"
    | (part) "length buf < unat stop - unat off" "unat off < length pre + length (concat g)" "length pre < unat stop"
    using out by linarith
  then show ?case
  proof cases
    case complete
    then have "unat stop \<le> length pre" using out bounds(2) by (simp add: min_def split: if_splits)
    with complete dist Cons.prems(6) show ?thesis by (simp add: min_absorb2)
  next
    case skip
    then have "slice (unat off) (min (length (pre @ concat g)) (unat stop)) full = buf"
      using Cons.prems(6) by simp
    with tail [of "sat_add shard_start ?size"] skip dist ends show ?thesis
      by (simp add: word_le_nat_alt Let_def add.assoc)
  next
    case part
    have shard: "read_file_shard_object (store_at (rr_store R) fs) (entry_id M (file_shard_entry M pc g)) =
      Inr \<lparr> fs_schema_version = repo_format_version, fs_chunks = map (chunk_id M pc) g, fs_chunk_lengths = map len64 g \<rparr>"
      using read_shard_stored Cons.prems(2) R by (simp add: reader_of_def)
    have full: "full = pre @ concat g @ concat (concat gs) @ post" using Cons.prems(1) by simp
    from append_spec [OF R(1,2) bounds full, of fs start buf] Cons.prems(3,5,6) part(3)
    obtain start' where app: "append_requested_bytes_from_chunks R off stop (zip (map (chunk_id M pc) g) (map len64 g)) (buf, start) fs =
        (Inr (slice (unat off) (min (length pre + length (concat g)) (unat stop)) full, start'), fs)"
      "length pre + length (concat g) < unat stop \<longrightarrow> unat start' = length pre + length (concat g)"
      by auto
    have "read_shards R off stop (zip (map (\<lambda>g. entry_id M (file_shard_entry M pc g)) (g # gs))
        (map (\<lambda>g. sum_list (map len64 g)) (g # gs))) shard_start (buf, start) fs =
      ?run (slice (unat off) (min (length (pre @ concat g)) (unat stop)) full) (sat_add shard_start ?size) start'"
      using part dist ends Cons.prems(4)
      by (simp add: word_le_nat_alt Let_def sbind_def shard app(1) not_le)
    with tail [of start'] app(2) show ?thesis by (simp add: add.assoc)
  qed
qed

lemma concat_pieces: "chunker_ok fastcdc \<Longrightarrow> concat (stored_pieces fastcdc bytes) = bytes"
proof -
  have cover: "concat (map (piece_at bytes) ss) = drop start bytes" if "spans_from start ss (length bytes)" for ss start
    using that
  proof (induction ss arbitrary: start)
    case (Cons s ss)
    then have "span_offset s = start" "concat (map (piece_at bytes) ss) = drop (span_end s) bytes" by simp_all
    then show ?case
      using append_take_drop_id [of "span_length s" "drop start bytes"] by (simp add: piece_at_def [of bytes s] span_end_def add.commute)
  qed simp
  assume ok: "chunker_ok fastcdc"
  then consider "fastcdc bytes = []" | "fastcdc bytes \<noteq> []" "spans_from 0 (fastcdc bytes) (length bytes)"
    by (auto simp: chunker_ok_def)
  then show ?thesis
    by cases (auto simp: stored_pieces_def split_spans_def piece_at_def dest: cover)
qed

end
