(* ===== verification/File_Claims.thy ===== *)
theory File_Claims
  imports File_Proofs Manifest_Claims
begin

text \<open>
  The property of file contents: what a commit stores for a file is read back, range by range.
\<close>

lemma read_range_described:
  assumes R: "reader_of M pc R" "serde_ok pc" "serde_ok (ms_file_shard M)"
    and bytes: "concat ps = bytes" "length bytes < 2 ^ 64"
    and pieces: "\<forall>p \<in> set ps. stored M fs (chunk_entry pc p)"
    and shards: "max_file_chunks_per_object < length ps \<longrightarrow>
      (\<forall>g \<in> set (blocks max_file_chunks_per_object ps). stored M fs (file_shard_entry M pc g))"
    and off: "unat off \<le> length bytes"
  shows "read_range R (handle_of sid hid gen (described_file M pc name mtime bytes ps)) off len fs =
    (Inr (take (unat len) (drop (unat off) bytes)), fs)"
proof -
  let ?f = "described_file M pc name mtime bytes ps"
  let ?stop = "min (sat_add off len) (len64 bytes)"
  have size: "fh_file_size (handle_of sid hid gen ?f) = len64 bytes" by (simp add: handle_of_def described_file_def Let_def len64_def)
  have blen: "unat (len64 bytes) = length bytes" using bytes(2) by (rule len64_nat)
  have stop: "unat ?stop = min (unat off + unat len) (length bytes)"
    using bytes(2) by (simp add: min_def word_le_nat_alt unat_sat_add blen split: if_splits)
  have slice_eq: "slice (unat off) (unat ?stop) bytes = take (unat len) (drop (unat off) bytes)"
    unfolding slice_def stop by (simp add: min_def)
  have in_range: "off \<le> len64 bytes" using off blen by (simp add: word_le_nat_alt)
  show ?thesis
  proof (cases "off = ?stop")
    case True
    then have "slice (unat off) (unat ?stop) bytes = []" by simp
    with slice_eq have "take (unat len) (drop (unat off) bytes) = []" by simp
    with True in_range show ?thesis by (simp add: read_range_def size Let_def)
  next
    case False
    then have lt: "unat off < unat ?stop" using stop off by (simp add: word_unat_eq_iff min_def split: if_splits)
    have le: "unat ?stop \<le> length bytes" by (simp add: stop)
    have dist: "unat (?stop - off) = unat ?stop - unat off" using lt by (simp add: unat_sub_if')
    have n: "0 < max_file_chunks_per_object" by (simp add: max_file_chunks_per_object_def)
    have ne: "ps \<noteq> []" using lt le bytes(1) by auto
    have "\<exists>start. collect_range R (handle_of sid hid gen ?f) off ?stop fs =
      (Inr (take (unat len) (drop (unat off) bytes), start), fs)"
    proof (cases "max_file_chunks_per_object < length ps")
      case False
      from append_spec [OF R(1,2) bytes(2) lt le, of "[]" ps "[]" fs 0 "[]"] bytes(1) pieces lt le slice_eq False ne
      show ?thesis by (auto simp: collect_range_def handle_of_def described_file_def Let_def min_absorb2)
    next
      case True
      have groups: "blocks max_file_chunks_per_object ps \<noteq> []" "concat (concat (blocks max_file_chunks_per_object ps)) = bytes"
        using ne n bytes(1) by (simp_all add: blocks_eq_Nil concat_blocks)
      from shards_spec [OF R bytes(2) lt le, of "[]" "blocks max_file_chunks_per_object ps" "[]" fs 0 0 "[]"]
        groups pieces shards lt le slice_eq True n
      show ?thesis by (auto simp: collect_range_def handle_of_def described_file_def Let_def min_absorb2 concat_blocks)
    qed
    moreover have "length (take (unat len) (drop (unat off) bytes)) = unat (?stop - off)"
      unfolding dist unfolding stop using off by (auto simp: min_def)
    ultimately show ?thesis
      using False in_range by (auto simp: read_range_def size Let_def sbind_def)
  qed
qed

lemma described_file_stored:
  assumes "chunker_ok fastcdc" "serde_ok pc" "serde_ok (ms_file M)" "serde_ok (ms_file_shard M)" "reader_of M pc R"
    and "\<forall>e \<in> set (file_entries M pc fastcdc name mtime bytes). stored M fs e" "length bytes < 2 ^ 64"
    and "unat off \<le> length bytes"
  shows "\<exists>f. read_file_object (store_at M fs) (file_id M pc fastcdc name mtime bytes) = Inr f \<and>
    read_range R (handle_of sid hid gen f) off len fs = (Inr (take (unat len) (drop (unat off) bytes)), fs)"
proof -
  let ?ps = "stored_pieces fastcdc bytes"
  let ?f = "described_file M pc name mtime bytes ?ps"
  have "read_stored_object (store_at M fs) (ms_file M) (oid M ''file'' (to_vec (ms_file M) ?f)) ''file'' = Inr ?f"
    by (rule read_stored [OF _ assms(3)]) (use assms(6) in \<open>simp add: file_entries_def Let_def\<close>)
  then have "read_file_object (store_at M fs) (file_id M pc fastcdc name mtime bytes) = Inr ?f"
    by (simp add: read_file_object_def file_id_def validate_manifest_schema_version_def described_file_def Let_def)
  moreover have "read_range R (handle_of sid hid gen ?f) off len fs = (Inr (take (unat len) (drop (unat off) bytes)), fs)"
    by (rule read_range_described [OF assms(5,2,4) concat_pieces [OF assms(1)] assms(7) _ _ assms(8)])
      (use assms(6) in \<open>auto simp: file_entries_def Let_def\<close>)
  ultimately show ?thesis by blast
qed

text \<open>C24: A stored file can be read back. When a file has been cut, stored and described, and no
  two of the objects written collide in the keyed hash, its file object can be read, and a read
  of any range that starts inside the file returns exactly the bytes of that range (the rest of
  the file when the range is longer), from inline chunks or through shards, leaving the files as
  they are.\<close>

theorem stored_file_readable:
  assumes "crypto_ok (ms_crypto M)" "chunker_ok fastcdc" "serde_ok pc" "serde_ok (ms_file M)" "serde_ok (ms_file_shard M)"
    and "reader_of M pc R" "draws_ok st" "bt_ok (cs_files st)"
    and "storable M (cs_files st) (set (file_entries M pc fastcdc name mtime bytes))" "length bytes < 2 ^ 64"
    and "build_file_tree_entry_with M pc fastcdc name (Inr (bytes, mtime)) st = (Inr r, st')"
    and "unat off \<le> length bytes"
  shows "\<exists>e f. r = Some e \<and> read_file_object (store_at M (cs_files st')) (te_object_id e) = Inr f \<and>
    read_range R (handle_of sid hid gen f) off len (cs_files st') = (Inr (take (unat len) (drop (unat off) bytes)), cs_files st')"
proof -
  note w = writesD [OF writes_build_file assms(7,11)]
  have "\<forall>(t, p) \<in> set (file_entries M pc fastcdc name mtime bytes).
      typed M (oid M t p) (cs_files st') = Inr \<lparr> loaded_type = t, loaded_plaintext = p \<rparr>"
    using puts_stored [OF w(2) assms(1,8,9)] by simp
  then have "\<forall>e \<in> set (file_entries M pc fastcdc name mtime bytes). stored M (cs_files st') e"
    by (auto simp: entry_id_def)
  from described_file_stored [OF assms(2-6) this assms(10,12), of sid hid gen len] w(1) show ?thesis by auto
qed

text \<open>A codec that has a short encoding for one value, for the witnesses.\<close>

definition short_codec :: "'a::countable \<Rightarrow> 'a serde" where
  "short_codec x0 = \<lparr> to_vec = (\<lambda>x. if x = x0 then [] else 1 # to_vec unary_codec x),
     from_slice = (\<lambda>bs. case bs of [] \<Rightarrow> Some x0 | b # r \<Rightarrow> from_slice unary_codec r) \<rparr>"

lemma short_codec [simp]: "serde_ok (short_codec x0)" "to_vec (short_codec x0) x0 = []"
  by (auto simp: serde_ok_def short_codec_def serde_okD [OF serde_ok_unary])

instance chunk_object_ext :: (countable) countable
  by (rule countable_classI [of "\<lambda>r. to_nat (ck_plaintext_length r, ck_data r, chunk_object.more r)"]) auto

instance file_shard_object_ext :: (countable) countable
  by (rule countable_classI [of "\<lambda>r. to_nat (fs_schema_version r, fs_chunks r, fs_chunk_lengths r, file_shard_object.more r)"]) auto

instance file_object_ext :: (countable) countable
  by (rule countable_classI [of "\<lambda>r. to_nat (fo_schema_version r, fo_entry_name r, fo_file_size r, fo_modified_unix_ms r,
        fo_chunker_id r, fo_chunker_config_id r, fo_chunk_count r, fo_chunks r, fo_chunk_lengths r, fo_shard_ids r,
        fo_shard_byte_lengths r, file_object.more r)"]) auto

definition sample_chunk_codec :: "chunk_object serde" where
  "sample_chunk_codec = short_codec \<lparr> ck_plaintext_length = 3, ck_data = [1, 2, 3] \<rparr>"

definition sample_file_store :: manifest_store where
  "sample_file_store = sample_manifest\<lparr> ms_files := [], ms_file_shard := unary_codec,
     ms_file := short_codec (described_file sample_manifest sample_chunk_codec ''f'' 7 [1, 2, 3] [[1, 2, 3]]) \<rparr>"

definition sample_commit :: commit_state where
  "sample_commit = \<lparr> cs_files = [], cs_draws = (\<lambda>n. sample_draw), cs_committed_files = 0, cs_new_bytes = 0,
     cs_reused_bytes = 0, cs_warnings = [] \<rparr>"

lemma sample_keys [simp]:
  "ms_crypto sample_file_store = plain_crypto" "ms_secrets sample_file_store = sample_secrets"
  by (simp_all add: sample_file_store_def sample_manifest_def)

lemma sample_entries:
  "file_entries sample_file_store sample_chunk_codec (\<lambda>bytes. []) ''f'' 7 [1, 2, 3] = [(''chunk'', []), (''file'', [])]"
proof -
  have pieces: "stored_pieces (\<lambda>bytes. []) [1, 2, 3 :: byte] = [[1, 2, 3]]"
    by (simp add: stored_pieces_def split_spans_def piece_at_def)
  have "described_file sample_file_store sample_chunk_codec ''f'' 7 [1, 2, 3] [[1, 2, 3]] =
      described_file sample_manifest sample_chunk_codec ''f'' 7 [1, 2, 3] [[1, 2, 3]]"
    by (simp add: described_file_def chunk_id_def entry_id_def max_file_chunks_per_object_def) (simp add: sample_manifest_def)
  then have "to_vec (ms_file sample_file_store) (described_file sample_file_store sample_chunk_codec ''f'' 7 [1, 2, 3] [[1, 2, 3]]) = []"
    by (simp add: sample_file_store_def)
  then show ?thesis
    by (simp add: file_entries_def pieces max_file_chunks_per_object_def chunk_entry_def) (simp add: sample_chunk_codec_def)
qed

lemma plain_put_next:
  assumes "ms_crypto M = plain_crypto" "ms_secrets M = sample_secrets" "cs_draws st = (\<lambda>n. sample_draw)"
  shows "\<exists>fs. put_next M t p st = (Inr (plain_id t p), st\<lparr> cs_files := fs \<rparr>)"
proof -
  obtain fs where "put_object plain_crypto sample_draw sample_secrets t p (cs_files st) = (Inr (plain_id t p), fs)"
    using plain_put by blast
  moreover have "st\<lparr> cs_files := fs, cs_draws := \<lambda>n. sample_draw \<rparr> = st\<lparr> cs_files := fs \<rparr>"
    using assms(3) by (cases st) simp
  ultimately show ?thesis using assms by (intro exI [of _ fs]) (simp add: put_next_def)
qed

theorem stored_file_readable_witness:
  "\<exists>r st' e f R. build_file_tree_entry_with sample_file_store sample_chunk_codec (\<lambda>bytes. []) ''f'' (Inr ([1, 2, 3], 7)) sample_commit =
       (Inr r, st') \<and> r = Some e \<and> read_file_object (store_at sample_file_store (cs_files st')) (te_object_id e) = Inr f \<and>
     read_range R (handle_of [] [] 0 f) 1 5 (cs_files st') = (Inr [2, 3], cs_files st')"
proof -
  let ?M = sample_file_store and ?pc = sample_chunk_codec and ?bytes = "[1, 2, 3] :: byte list"
  have "storable ?M (cs_files sample_commit) (set (file_entries ?M ?pc (\<lambda>bytes. []) ''f'' 7 ?bytes))"
    unfolding sample_entries storable_def
    by (auto simp: sample_commit_def get_typed_object_def file_get_def plain_id_type rbind_Inr_iff with_context_Inr_iff
        ok_or_Inr_iff intro!: utf8_string_ascii) (auto simp: ascii_char_def)
  note storable = this
  have spans: "split_spans (\<lambda>bytes. []) ?bytes = [\<lparr> span_offset = 0, span_length = 3 \<rparr>]" by (simp add: split_spans_def)
  have run: "\<exists>r st'. build_file_tree_entry_with ?M ?pc (\<lambda>bytes. []) ''f'' (Inr (?bytes, 7)) sample_commit = (Inr r, st')"
  proof -
    have ex: "\<exists>fs. put_next ?M t p st = (Inr (plain_id t p), st\<lparr> cs_files := fs \<rparr>)"
      if "cs_draws st = (\<lambda>n. sample_draw)" for t p st
      by (rule plain_put_next) (simp_all add: that)
    have d0: "cs_draws sample_commit = (\<lambda>n. sample_draw)" by (simp add: sample_commit_def)
    let ?c = "to_vec ?pc \<lparr> ck_plaintext_length = 3, ck_data = [1, 2, 3] \<rparr>"
    obtain fs1 where p1: "put_next ?M ''chunk'' ?c sample_commit = (Inr (plain_id ''chunk'' ?c), sample_commit\<lparr> cs_files := fs1 \<rparr>)"
      using ex [OF d0] by blast
    define b where "b = exists_object (plain_id ''chunk'' ?c) (cs_files sample_commit)"
    obtain st1 where st1: "count_bytes b 3 (sample_commit\<lparr> cs_files := fs1 \<rparr>) = (Inr (), st1)" "cs_draws st1 = (\<lambda>n. sample_draw)"
      by (auto simp: count_bytes_def d0)
    have w1: "write_chunks ?M ?pc ?bytes [\<lparr> span_offset = 0, span_length = 3 \<rparr>] [] [] sample_commit =
        (Inr ([plain_id ''chunk'' ?c], [3]), st1)"
      by (simp add: Let_def sbind_def p1 b_def [symmetric] st1(1) [unfolded numeral_3_eq_3])
    have w2: "\<exists>fs. write_object ?M pc2 ''file'' x st1 = (Inr (plain_id ''file'' (to_vec pc2 x)), st1\<lparr> cs_files := fs \<rparr>)"
      for pc2 and x :: file_object
      unfolding write_object_def by (rule ex [OF st1(2)])
    let ?x = "\<lparr> fo_schema_version = repo_format_version, fo_entry_name = ''f'', fo_file_size = of_nat (length ?bytes),
      fo_modified_unix_ms = 7, fo_chunker_id = chunker_id_name, fo_chunker_config_id = chunker_config_fingerprint,
      fo_chunk_count = of_nat (length [plain_id ''chunk'' ?c]), fo_chunks = [plain_id ''chunk'' ?c], fo_chunk_lengths = [3],
      fo_shard_ids = [], fo_shard_byte_lengths = [] \<rparr>"
    obtain fs2 where w3: "write_object ?M (ms_file ?M) ''file'' ?x st1 =
        (Inr (plain_id ''file'' (to_vec (ms_file ?M) ?x)), st1\<lparr> cs_files := fs2 \<rparr>)" using w2 by blast
    have small: "\<not> max_file_chunks_per_object < length [plain_id ''chunk'' ?c]" by (simp add: max_file_chunks_per_object_def)
    show ?thesis
      unfolding build_file_tree_entry_with_def sum.case prod.case spans sbind_def w1
      by (simp only: prod.case sum.case small if_False prog_simps w3) blast
  qed
  have ok: "crypto_ok (ms_crypto ?M)" "chunker_ok (\<lambda>bytes. [])" "serde_ok ?pc" "serde_ok (ms_file ?M)" "serde_ok (ms_file_shard ?M)"
    "draws_ok sample_commit" "bt_ok (cs_files sample_commit)"
    by (simp_all add: plain_crypto_ok chunker_ok_def sample_chunk_codec_def draws_ok_def sample_draw_ok sample_commit_def)
      (simp_all add: sample_file_store_def)
  obtain r st' where st': "build_file_tree_entry_with ?M ?pc (\<lambda>bytes. []) ''f'' (Inr (?bytes, 7)) sample_commit = (Inr r, st')"
    using run by blast
  define R where "R = \<lparr> rr_store = ?M, rr_chunk = ?pc, rr_codecs = undefined, rr_digest = undefined \<rparr>"
  have R: "reader_of ?M ?pc R" by (simp add: reader_of_def R_def)
  obtain e f where "r = Some e" "read_file_object (store_at ?M (cs_files st')) (te_object_id e) = Inr f"
      "read_range R (handle_of [] [] 0 f) 1 5 (cs_files st') = (Inr (take (unat (5 :: u64)) (drop (unat (1 :: u64)) ?bytes)), cs_files st')"
    using stored_file_readable [OF ok(1-5) R ok(6,7) storable _ st', where off = 1 and len = 5 and sid = "[]" and hid = "[]" and gen = 0] by auto
  moreover have "take (unat (5 :: u64)) (drop (unat (1 :: u64)) ?bytes) = [2, 3]" by simp
  ultimately show ?thesis using st' by auto
qed

end
