(* ===== verification/Snapshot_Proofs.thy ===== *)
theory Snapshot_Proofs
  imports Writeback File_Claims Overlay_Merge
begin

text \<open>
  Lemmas on commits and writebacks: a virtual tree determines the objects it is written as and
  the id of its root, the writers put exactly those, and what is stored is loaded again.
\<close>

section \<open>What a tree is stored as\<close>

definition tree_shard_entry :: "manifest_store \<Rightarrow> tree_entry list \<Rightarrow> string \<times> byte list" where
  "tree_shard_entry M es = (''tree_shard'', to_vec (ms_tree_shard M)
     \<lparr> ts_schema_version = repo_format_version, ts_range_start = te_name (hd es), ts_range_end = te_name (last es),
       ts_entries = es \<rparr>)"

definition shard_ids_of :: "manifest_store \<Rightarrow> tree_entry list \<Rightarrow> string list" where
  "shard_ids_of M es = map (\<lambda>b. entry_id M (tree_shard_entry M b)) (blocks max_tree_entries_per_object es)"

definition dir_objects :: "manifest_store \<Rightarrow> tree_entry list \<Rightarrow> (string \<times> byte list) list" where
  "dir_objects M es =
     (if length es \<le> max_tree_entries_per_object
      then [(''tree'', to_vec (ms_tree M) \<lparr> tr_schema_version = repo_format_version, tr_entries = es \<rparr>)]
      else map (tree_shard_entry M) (blocks max_tree_entries_per_object es) @
        [(''directory_root'', to_vec (ms_directory_root M)
           \<lparr> dr_schema_version = repo_format_version, dr_fanout = of_nat (length (shard_ids_of M es)),
             dr_shards = shard_ids_of M es \<rparr>)])"

definition dir_id :: "manifest_store \<Rightarrow> tree_entry list \<Rightarrow> string" where
  "dir_id M es = entry_id M (last (dir_objects M es))"

definition writer_file_id :: "manifest_store \<Rightarrow> content_writer \<Rightarrow> string \<Rightarrow> u64 \<Rightarrow> byte list \<Rightarrow> string" where
  "writer_file_id M W name mtime bytes = file_id M (cw_chunk W) (cw_fastcdc W) name mtime bytes"

text \<open>The entries of a directory as they are stored, and the id of a directory.\<close>

function tree_id_of :: "manifest_store \<Rightarrow> content_writer \<Rightarrow> virtual_directory \<Rightarrow> string"
  and stored_entry :: "manifest_store \<Rightarrow> content_writer \<Rightarrow> string \<times> virtual_entry \<Rightarrow> tree_entry" where
  "tree_id_of M W (VirtualDirectory es) = dir_id M (map (stored_entry M W) es)"
| "stored_entry M W (name, FileEntry (Existing i)) = \<lparr> te_name = name, te_kind = ''file'', te_object_id = i \<rparr>"
| "stored_entry M W (name, FileEntry (Staged bytes mtime)) =
     \<lparr> te_name = name, te_kind = ''file'', te_object_id = writer_file_id M W name mtime bytes \<rparr>"
| "stored_entry M W (name, DirEntry d) = \<lparr> te_name = name, te_kind = ''tree'', te_object_id = tree_id_of M W d \<rparr>"
  by pat_completeness auto
termination
  by (relation "measure (case_sum (\<lambda>(M, W, d). size d) (\<lambda>(M, W, n, e). Suc (size e)))")
    (auto simp: less_Suc_eq_le dest!: size_list_estimation' [of _ _ _ "size_prod (\<lambda>_. 0) size", OF _ order_refl])

function tree_objects :: "manifest_store \<Rightarrow> content_writer \<Rightarrow> virtual_directory \<Rightarrow> (string \<times> byte list) list"
  and entry_objects :: "manifest_store \<Rightarrow> content_writer \<Rightarrow> string \<times> virtual_entry \<Rightarrow> (string \<times> byte list) list" where
  "tree_objects M W (VirtualDirectory es) =
     concat (map (entry_objects M W) es) @ dir_objects M (map (stored_entry M W) es)"
| "entry_objects M W (name, FileEntry (Existing i)) = []"
| "entry_objects M W (name, FileEntry (Staged bytes mtime)) = file_entries M (cw_chunk W) (cw_fastcdc W) name mtime bytes"
| "entry_objects M W (name, DirEntry d) = tree_objects M W d"
  by pat_completeness auto
termination
  by (relation "measure (case_sum (\<lambda>(M, W, d). size d) (\<lambda>(M, W, n, e). Suc (size e)))")
    (auto simp: less_Suc_eq_le dest!: size_list_estimation' [of _ _ _ "size_prod (\<lambda>_. 0) size", OF _ order_refl])

text \<open>The tree as it is loaded again: the staged files have become stored ones.\<close>

function settled :: "manifest_store \<Rightarrow> content_writer \<Rightarrow> virtual_directory \<Rightarrow> virtual_directory"
  and settled_entry :: "manifest_store \<Rightarrow> content_writer \<Rightarrow> string \<times> virtual_entry \<Rightarrow> string \<times> virtual_entry" where
  "settled M W (VirtualDirectory es) = VirtualDirectory (map (settled_entry M W) es)"
| "settled_entry M W (name, FileEntry (Existing i)) = (name, FileEntry (Existing i))"
| "settled_entry M W (name, FileEntry (Staged bytes mtime)) = (name, FileEntry (Existing (writer_file_id M W name mtime bytes)))"
| "settled_entry M W (name, DirEntry d) = (name, DirEntry (settled M W d))"
  by pat_completeness auto
termination
  by (relation "measure (case_sum (\<lambda>(M, W, d). size d) (\<lambda>(M, W, n, e). Suc (size e)))")
    (auto simp: less_Suc_eq_le dest!: size_list_estimation' [of _ _ _ "size_prod (\<lambda>_. 0) size", OF _ order_refl])

lemma tree_induct [case_names Dir]:
  assumes "\<And>es. (\<And>n d. (n, DirEntry d) \<in> set es \<Longrightarrow> P d) \<Longrightarrow> P (VirtualDirectory es)"
  shows "P d"
proof (induction d rule: measure_induct_rule [of size])
  case (less d)
  obtain es where d: "d = VirtualDirectory es" by (cases d)
  show ?case unfolding d
  proof (rule assms)
    fix n c assume "(n, DirEntry c) \<in> set es"
    then have "size c < size d"
      by (auto simp: d less_Suc_eq_le dest!: size_list_estimation' [of _ _ _ "size_prod (\<lambda>_. 0) size", OF _ order_refl])
    then show "P c" by (rule less)
  qed
qed

lemma entry_cases [case_names Existing Staged Sub]:
  obtains i where "e = FileEntry (Existing i)" | bytes mtime where "e = FileEntry (Staged bytes mtime)"
    | d where "e = DirEntry d"
  by (cases e; cases "case e of FileEntry f \<Rightarrow> f | DirEntry d \<Rightarrow> Existing []") auto

lemma stored_entry_name [simp]: "te_name (stored_entry M W p) = fst p"
  by (cases p; cases "snd p" rule: entry_cases) auto

lemma settled_entry_name [simp]: "fst (settled_entry M W p) = fst p"
  by (cases p; cases "snd p" rule: entry_cases) auto

section \<open>Writers are sequences of puts\<close>

lemma writes_slift: "writes M (slift (Inr x)) [] x"
  by (rule writes_quiet) auto

lemma writes_tree_shards:
  "writes M (write_tree_shards M es ids) (map (tree_shard_entry M) (blocks max_tree_entries_per_object es))
     (ids @ shard_ids_of M es)"
proof (induction "max_tree_entries_per_object" es arbitrary: ids rule: blocks.induct)
  case (1 es)
  have n: "max_tree_entries_per_object \<noteq> 0" by (simp add: max_tree_entries_per_object_def)
  show ?case
  proof (cases "es = []")
    case True
    then show ?thesis
      using writes_sret [of M ids] by (subst write_tree_shards.simps) (simp add: shard_ids_of_def del: prog_simps)
  next
    case False
    let ?b = "take max_tree_entries_per_object es"
    have run: "write_tree_shards M es ids = sbind (write_object M (ms_tree_shard M) ''tree_shard''
        \<lparr> ts_schema_version = repo_format_version, ts_range_start = te_name (hd ?b), ts_range_end = te_name (last ?b), ts_entries = ?b \<rparr>)
        (\<lambda>i. write_tree_shards M (drop max_tree_entries_per_object es) (ids @ [i]))"
      using False by (subst write_tree_shards.simps) (simp add: Let_def)
    have ids: "shard_ids_of M es = entry_id M (tree_shard_entry M ?b) # shard_ids_of M (drop max_tree_entries_per_object es)"
      using False n unfolding shard_ids_of_def by (subst blocks.simps) simp
    have objs: "map (tree_shard_entry M) (blocks max_tree_entries_per_object es) =
        [tree_shard_entry M ?b] @ map (tree_shard_entry M) (blocks max_tree_entries_per_object (drop max_tree_entries_per_object es))"
      using False n by (subst blocks.simps) simp
    have rest: "writes M (write_tree_shards M (drop max_tree_entries_per_object es) (ids @ [entry_id M (tree_shard_entry M ?b)]))
        (map (tree_shard_entry M) (blocks max_tree_entries_per_object (drop max_tree_entries_per_object es))) (ids @ shard_ids_of M es)"
      using 1 [of "ids @ [entry_id M (tree_shard_entry M ?b)]"] False n by (simp add: ids)
    show ?thesis
      unfolding run objs tree_shard_entry_def [of M ?b]
      by (rule writes_sbind [OF writes_object]) (use rest in \<open>simp add: entry_id_def tree_shard_entry_def [of M ?b]\<close>)
  qed
qed

lemma writes_directory: "writes M (write_directory M es) (dir_objects M es) (dir_id M es)"
proof (cases "length es \<le> max_tree_entries_per_object")
  case True
  then have run: "write_directory M es =
      write_object M (ms_tree M) ''tree'' \<lparr> tr_schema_version = repo_format_version, tr_entries = es \<rparr>"
    by (simp only: write_directory_def if_True)
  from True have objs: "dir_objects M es =
      [(''tree'', to_vec (ms_tree M) \<lparr> tr_schema_version = repo_format_version, tr_entries = es \<rparr>)]"
    by (simp only: dir_objects_def if_True)
  show ?thesis unfolding run dir_id_def objs entry_id_def last.simps if_P [OF refl] fst_conv snd_conv
    by (rule writes_object)
next
  case False
  let ?root = "\<lparr> dr_schema_version = repo_format_version, dr_fanout = of_nat (length (shard_ids_of M es)),
    dr_shards = shard_ids_of M es \<rparr>"
  from False have run: "write_directory M es = sbind (write_tree_shards M es []) (\<lambda>shard_ids.
      write_object M (ms_directory_root M) ''directory_root''
        \<lparr> dr_schema_version = repo_format_version, dr_fanout = of_nat (length shard_ids), dr_shards = shard_ids \<rparr>)"
    by (simp only: write_directory_def build_directory_root_object_def if_False)
  from False have objs: "dir_objects M es = map (tree_shard_entry M) (blocks max_tree_entries_per_object es) @
      [(''directory_root'', to_vec (ms_directory_root M) ?root)]"
    by (simp only: dir_objects_def if_False)
  show ?thesis unfolding run dir_id_def objs entry_id_def last_snoc fst_conv snd_conv
    by (rule writes_sbind [OF writes_tree_shards]) (unfold append_Nil, rule writes_object)
qed

lemma writes_own_warnings: "writes M m V x \<Longrightarrow> writes M (own_warnings m) V x"
  unfolding writes_def
proof (intro allI impI)
  fix st y st' assume w: "\<forall>st y st'. draws_ok st \<longrightarrow> m st = (Inr y, st') \<longrightarrow> y = x \<and> puts M (cs_files st) V (cs_files st') \<and> draws_ok st'"
    and st: "draws_ok st" "own_warnings m st = (Inr y, st')"
  obtain st1 where run: "m (st\<lparr> cs_warnings := [] \<rparr>) = (Inr y, st1)" and st': "st' = st1\<lparr> cs_warnings := cs_warnings st \<rparr>"
    using st(2) by (cases "m (st\<lparr> cs_warnings := [] \<rparr>)") (simp add: own_warnings_def)
  have "draws_ok (st\<lparr> cs_warnings := [] \<rparr>)" using st(1) by (simp add: draws_ok_def)
  from w [rule_format, OF this run] show "y = x \<and> puts M (cs_files st) V (cs_files st') \<and> draws_ok st'"
    by (simp add: st' draws_ok_def)
qed

lemma writes_virtual_file:
  "writes M (write_virtual_file_object M W name bytes mtime) (file_entries M (cw_chunk W) (cw_fastcdc W) name mtime bytes)
     (writer_file_id M W name mtime bytes)"
proof -
  have tail: "writes M (sbind (slift (ok_or e (Some x))) (\<lambda>y. sbind (sread g) (\<lambda>w. sensure (w = []) e' (sret (te_object_id y)))))
      [] (te_object_id x)" for e e' g x
    by (rule writes_quiet) (auto split: sum.splits if_splits)
  have "writes M (sbind (build_file_tree_entry_with M (cw_chunk W) (cw_fastcdc W) name (Inr (bytes, mtime)))
      (\<lambda>y. sbind (slift (ok_or (Bail ''virtual overlay file should be writable'') y)) (\<lambda>y. sbind (sread (\<lambda>st. Inr (cs_warnings st)))
        (\<lambda>w. sensure (w = []) (Bail ''virtual overlay file staging produced unexpected warnings'') (sret (te_object_id y))))))
      (file_entries M (cw_chunk W) (cw_fastcdc W) name mtime bytes @ []) (writer_file_id M W name mtime bytes)"
  proof (rule writes_sbind [OF writes_build_file])
    let ?x = "\<lparr> te_name = name, te_kind = ''file'', te_object_id = file_id M (cw_chunk W) (cw_fastcdc W) name mtime bytes \<rparr>"
    show "writes M (sbind (slift (ok_or (Bail ''virtual overlay file should be writable'') (Some ?x)))
      (\<lambda>y. sbind (sread (\<lambda>st. Inr (cs_warnings st)))
        (\<lambda>w. sensure (w = []) (Bail ''virtual overlay file staging produced unexpected warnings'') (sret (te_object_id y)))))
      [] (writer_file_id M W name mtime bytes)"
      using tail [of "Bail ''virtual overlay file should be writable''" ?x "\<lambda>st. Inr (cs_warnings st)"
          "Bail ''virtual overlay file staging produced unexpected warnings''"]
      by (simp only: writer_file_id_def tree_entry.simps)
  qed
  from writes_own_warnings [OF this] show ?thesis by (simp add: write_virtual_file_object_def)
qed

lemma writes_virtual:
  "writes M (write_virtual_directory_object M W d) (tree_objects M W d) (tree_id_of M W d)"
proof (induction d rule: tree_induct)
  case (Dir es)
  have entries: "writes M (write_virtual_entries M W xs acc) (concat (map (entry_objects M W) xs)) (acc @ map (stored_entry M W) xs)"
    if "set xs \<subseteq> set es" for xs acc
    using that
  proof (induction xs arbitrary: acc)
    case Nil
    then show ?case using writes_sret [of M acc] by (simp del: prog_simps)
  next
    case (Cons p xs)
    obtain n e where p: "p = (n, e)" by (cases p)
    have one: "writes M (case e of
         FileEntry (Existing object_id) \<Rightarrow> sret \<lparr> te_name = n, te_kind = ''file'', te_object_id = object_id \<rparr>
       | FileEntry (Staged bytes modified_unix_ms) \<Rightarrow>
           sbind (write_virtual_file_object M W n bytes modified_unix_ms) (\<lambda>object_id.
           sret \<lparr> te_name = n, te_kind = ''file'', te_object_id = object_id \<rparr>)
       | DirEntry child \<Rightarrow>
           sbind (write_virtual_directory_object M W child) (\<lambda>object_id.
           sret \<lparr> te_name = n, te_kind = ''tree'', te_object_id = object_id \<rparr>)) (entry_objects M W p) (stored_entry M W p)"
    proof (cases e rule: entry_cases)
      case (Existing i)
      show ?thesis unfolding p Existing virtual_entry.case virtual_file_entry.case entry_objects.simps stored_entry.simps
        by (rule writes_sret)
    next
      case (Staged bytes mtime)
      from writes_sbind [OF writes_virtual_file [of M W n bytes mtime] writes_sret]
      show ?thesis unfolding p Staged virtual_entry.case virtual_file_entry.case entry_objects.simps stored_entry.simps
        by (simp only: append_Nil2)
    next
      case (Sub d)
      then have "writes M (write_virtual_directory_object M W d) (tree_objects M W d) (tree_id_of M W d)"
        using Dir Cons.prems p by auto
      from writes_sbind [OF this writes_sret]
      show ?thesis unfolding p Sub virtual_entry.case entry_objects.simps stored_entry.simps by (simp only: append_Nil2)
    qed
    have "writes M (write_virtual_entries M W xs (acc @ [stored_entry M W p])) (concat (map (entry_objects M W) xs))
        (acc @ map (stored_entry M W) (p # xs))"
      using Cons.IH [of "acc @ [stored_entry M W p]"] Cons.prems by simp
    show ?case unfolding p write_virtual_entries.simps list.map concat.simps
      by (rule writes_sbind [OF one [unfolded p]]) (use \<open>writes M (write_virtual_entries M W xs _) _ _\<close> p in simp)
  qed
  have "writes M (write_virtual_entries M W es []) (concat (map (entry_objects M W) es)) (map (stored_entry M W) es)"
    using entries [of es "[]"] by simp
  from writes_sbind [OF this writes_directory] show ?case by simp
qed

section \<open>Reading directories back\<close>

definition store_codecs_ok :: "manifest_store \<Rightarrow> bool" where
  "store_codecs_ok M \<longleftrightarrow> serde_ok (ms_snapshot M) \<and> serde_ok (ms_tree M) \<and> serde_ok (ms_directory_root M) \<and>
     serde_ok (ms_tree_shard M) \<and> serde_ok (ms_file M) \<and> serde_ok (ms_file_shard M)"

lemma blocks_each: "0 < n \<Longrightarrow> b \<in> set (blocks n xs) \<Longrightarrow> b \<noteq> []"
proof (induction n xs rule: blocks.induct)
  case (1 n xs)
  then show ?case by (subst (asm) (2) blocks.simps) (auto split: if_splits)
qed

lemma length_blocks: "0 < n \<Longrightarrow> length (blocks n xs) \<le> length xs"
proof (induction n xs rule: blocks.induct)
  case (1 n xs)
  show ?case
  proof (cases "xs = []")
    case False
    with 1 have "length (blocks n (drop n xs)) \<le> length xs - n" by simp
    moreover have "length xs - n < length xs" using False 1(2) by simp
    moreover have "blocks n xs = take n xs # blocks n (drop n xs)" using False 1(2) by (subst blocks.simps) simp
    ultimately show ?thesis using 1(2) by simp
  qed simp
qed

lemma read_tree_shard_stored:
  assumes "stored M fs (tree_shard_entry M b)" "serde_ok (ms_tree_shard M)" "b \<noteq> []"
  shows "read_tree_shard_object (store_at M fs) (entry_id M (tree_shard_entry M b)) =
    Inr \<lparr> ts_schema_version = repo_format_version, ts_range_start = te_name (hd b), ts_range_end = te_name (last b), ts_entries = b \<rparr>"
proof -
  let ?x = "\<lparr> ts_schema_version = repo_format_version, ts_range_start = te_name (hd b), ts_range_end = te_name (last b), ts_entries = b \<rparr>"
  have "read_stored_object (store_at M fs) (ms_tree_shard M) (oid M ''tree_shard'' (to_vec (ms_tree_shard M) ?x)) ''tree_shard'' = Inr ?x"
    by (rule read_stored) (use assms in \<open>simp_all add: tree_shard_entry_def\<close>)
  moreover have "validate_tree_shard_object ?x = Inr ()"
    using assms(3) by (cases b) (simp_all add: validate_tree_shard_object_def)
  ultimately show ?thesis
    by (simp add: read_tree_shard_object_def tree_shard_entry_def entry_id_def validate_manifest_schema_version_def)
qed

lemma get_tree_node_stored:
  assumes stored: "\<forall>e \<in> set (dir_objects M es). stored M fs e"
    and ok: "store_codecs_ok M" "sorted (map te_name es)" "length es < 2 ^ 32"
  shows "get_tree_node (store_at M fs) (dir_id M es) = Inr \<lparr> tr_schema_version = repo_format_version, tr_entries = es \<rparr>"
proof (cases "length es \<le> max_tree_entries_per_object")
  case True
  then have "stored M fs (''tree'', to_vec (ms_tree M) \<lparr> tr_schema_version = repo_format_version, tr_entries = es \<rparr>)"
    and "dir_id M es = entry_id M (''tree'', to_vec (ms_tree M) \<lparr> tr_schema_version = repo_format_version, tr_entries = es \<rparr>)"
    using stored by (simp_all add: dir_objects_def dir_id_def)
  with ok(1) show ?thesis
    by (simp add: get_tree_node_def read_directory_entries_def read_directory_object_def postcard_from_bytes_def
        store_codecs_ok_def serde_okD validate_manifest_schema_version_def)
next
  case False
  let ?bs = "blocks max_tree_entries_per_object es"
  let ?root = "\<lparr> dr_schema_version = repo_format_version, dr_fanout = of_nat (length (shard_ids_of M es)),
    dr_shards = shard_ids_of M es \<rparr>"
  have n: "0 < max_tree_entries_per_object" by (simp add: max_tree_entries_per_object_def)
  have objs: "dir_objects M es = map (tree_shard_entry M) ?bs @ [(''directory_root'', to_vec (ms_directory_root M) ?root)]"
    using False by (simp only: dir_objects_def if_False)
  have "length ?bs < 2 ^ 32" using length_blocks [OF n, of es] ok(3) by simp
  then have fanout: "unat (of_nat (length (shard_ids_of M es)) :: u32) = length (shard_ids_of M es)"
    by (simp add: shard_ids_of_def unat_of_nat take_bit_nat_eq_self)
  have root: "read_directory_object (store_at M fs) (dir_id M es) = Inr (Sharded_Directory (shard_ids_of M es))"
    using stored ok(1) fanout unfolding dir_id_def objs last_snoc
    by (simp add: read_directory_object_def postcard_from_bytes_def store_codecs_ok_def serde_okD
        validate_manifest_schema_version_def validate_directory_root_object_def)
  let ?shard = "\<lambda>b. \<lparr> ts_schema_version = repo_format_version, ts_range_start = te_name (hd b),
    ts_range_end = te_name (last b), ts_entries = b \<rparr>"
  have "mapM (read_tree_shard_object (store_at M fs)) (map (\<lambda>b. entry_id M (tree_shard_entry M b)) bs) = Inr (map ?shard bs)"
    if "set bs \<subseteq> set ?bs" for bs
    using that
  proof (induction bs)
    case (Cons b bs)
    then have b: "stored M fs (tree_shard_entry M b)" "b \<noteq> []" using stored blocks_each [OF n] by (auto simp: objs)
    have "serde_ok (ms_tree_shard M)" using ok(1) by (simp add: store_codecs_ok_def)
    from read_tree_shard_stored [OF b(1) this b(2)] Cons show ?case by simp
  qed simp
  from this [OF order_refl]
  have "mapM (read_tree_shard_object (store_at M fs)) (shard_ids_of M es) = Inr (map ?shard ?bs)"
    by (simp only: shard_ids_of_def)
  moreover have "concat (map ts_entries (map ?shard ?bs)) = es" using concat_blocks [OF n, of es] by (simp add: comp_def)
  ultimately show ?thesis
    using root ok(2) by (simp add: get_tree_node_def read_directory_entries_def sort_key_id_if_sorted del: map_map)
qed

section \<open>Loading what is stored\<close>

text \<open>No directory of the tree has \<open>2 ^ 32\<close> entries or more: the fanout of a root has 32 bits.\<close>

definition narrow :: "virtual_directory \<Rightarrow> bool" where
  "narrow d \<longleftrightarrow> (\<forall>p d'. get_entry (DirEntry d) p = Some (DirEntry d') \<longrightarrow> length (dir_entries d') < 2 ^ 32)"

lemma narrow_child: "narrow d \<Longrightarrow> map_of (dir_entries d) n = Some (DirEntry c) \<Longrightarrow> narrow c"
  unfolding narrow_def
proof (intro allI impI)
  fix p d' assume n: "\<forall>p d'. get_entry (DirEntry d) p = Some (DirEntry d') \<longrightarrow> length (dir_entries d') < 2 ^ 32"
    and c: "map_of (dir_entries d) n = Some (DirEntry c)" "get_entry (DirEntry c) p = Some (DirEntry d')"
  then have "get_entry (DirEntry d) (n # p) = Some (DirEntry d')" by simp
  with n show "length (dir_entries d') < 2 ^ 32" by blast
qed

lemma narrow_top: "narrow d \<Longrightarrow> length (dir_entries d) < 2 ^ 32"
  unfolding narrow_def by (drule spec [of _ "[]"]) simp

lemma stored_names: "map te_name (map (stored_entry M W) es) = map fst es"
  by simp

lemma get_tree_node_tree:
  assumes "tree_ok (DirEntry d)" "narrow d" "store_codecs_ok M" "\<forall>e \<in> set (tree_objects M W d). stored M fs e"
  shows "get_tree_node (store_at M fs) (tree_id_of M W d) =
    Inr \<lparr> tr_schema_version = repo_format_version, tr_entries = map (stored_entry M W) (dir_entries d) \<rparr>"
proof -
  obtain es where d: "d = VirtualDirectory es" by (cases d)
  have "bt_ok es" using assms(1) by (simp add: d)
  then have "sorted (map te_name (map (stored_entry M W) es))" unfolding stored_names by (rule bt_ok_sorted)
  moreover have "length (map (stored_entry M W) es) < 2 ^ 32" using narrow_top [OF assms(2)] by (simp add: d)
  ultimately show ?thesis
    using get_tree_node_stored [of M "map (stored_entry M W) es" fs] assms(3,4) by (simp add: d)
qed

lemma bt_insert_snoc: "\<forall>x \<in> fst ` set m. x < k \<Longrightarrow> bt_insert k v m = m @ [(k, v)]"
  by (induction m) auto

lemma load_stored:
  assumes "store_codecs_ok M"
  shows "tree_ok (DirEntry d) \<Longrightarrow> narrow d \<Longrightarrow> \<forall>e \<in> set (tree_objects M W d). stored M fs e \<Longrightarrow>
    \<exists>k. load_virtual_directory k (store_at M fs) (tree_id_of M W d) = Some (Inr (settled M W d))"
proof (induction d rule: tree_induct)
  case (Dir es)
  let ?N = "store_at M fs"
  have ok: "bt_ok es" "distinct (map fst es)" using Dir.prems(1) by (auto dest: bt_ok_distinct)
  have child: "\<exists>k. load_virtual_directory k ?N (tree_id_of M W c) = Some (Inr (settled M W c))" if "(n, DirEntry c) \<in> set es" for n c
  proof (rule Dir.IH [OF that])
    have look: "map_of (dir_entries (VirtualDirectory es)) n = Some (DirEntry c)" using that ok(2) by simp
    show "tree_ok (DirEntry c)" by (rule tree_ok_child [OF Dir.prems(1) look])
    show "narrow c" by (rule narrow_child [OF Dir.prems(2) look])
    have "set (tree_objects M W c) \<subseteq> set (tree_objects M W (VirtualDirectory es))"
      using that by (auto intro!: bexI [of _ "(n, DirEntry c)"])
    with Dir.prems(3) show "\<forall>e \<in> set (tree_objects M W c). stored M fs e" by blast
  qed
  have entries: "\<exists>k. load_virtual_entries (load_virtual_directory k ?N) (map (stored_entry M W) xs) (map (settled_entry M W) pre) =
      Some (Inr (VirtualDirectory (map (settled_entry M W) (pre @ xs))))" if "es = pre @ xs" for pre xs
    using that
  proof (induction xs arbitrary: pre)
    case Nil
    then show ?case by simp
  next
    case (Cons p xs)
    from Cons.IH [of "pre @ [p]"] Cons.prems obtain k where
      k: "load_virtual_entries (load_virtual_directory k ?N) (map (stored_entry M W) xs) (map (settled_entry M W) (pre @ [p])) =
        Some (Inr (VirtualDirectory (map (settled_entry M W) (pre @ p # xs))))" by auto
    obtain n e where p: "p = (n, e)" by (cases p)
    have "\<forall>x \<in> fst ` set pre. x < n" using ok(1) by (auto simp: Cons.prems p bt_ok_def sorted_wrt_append)
    then have snoc: "bt_insert n v (map (settled_entry M W) pre) = map (settled_entry M W) pre @ [(n, v)]" for v
      by (intro bt_insert_snoc) (simp add: image_image)
    have more: "load_virtual_entries (load_virtual_directory k' ?N) (map (stored_entry M W) xs) (map (settled_entry M W) (pre @ [p])) =
        Some (Inr (VirtualDirectory (map (settled_entry M W) (pre @ p # xs))))" if "k \<le> k'" for k'
      by (rule load_entries_mono [OF load_more [OF that] k])
    show ?case
    proof (cases e rule: entry_cases)
      case (Existing i)
      with more [OF order_refl] p snoc show ?thesis by auto
    next
      case (Staged bytes mtime)
      with more [OF order_refl] p snoc show ?thesis by auto
    next
      case (Sub c)
      with child [of n c] Cons.prems p obtain k2 where
        "load_virtual_directory k2 ?N (tree_id_of M W c) = Some (Inr (settled M W c))" by auto
      from load_more [OF max.cobounded2 this, of k] more [OF max.cobounded1, of k2] p Sub snoc
      show ?thesis by (intro exI [of _ "max k k2"]) simp
    qed
  qed
  from entries [of "[]" es] obtain k where
    k: "load_virtual_entries (load_virtual_directory k ?N) (map (stored_entry M W) es) [] =
      Some (Inr (VirtualDirectory (map (settled_entry M W) es)))" by auto
  from get_tree_node_tree [OF Dir.prems(1,2) assms Dir.prems(3)] k
  have "load_virtual_directory (Suc k) ?N (tree_id_of M W (VirtualDirectory es)) = Some (Inr (settled M W (VirtualDirectory es)))"
    by simp
  then show ?case by blast
qed

end
