(* ===== verification/Ref_Proofs.thy ===== *)
theory Ref_Proofs
  imports Refs File_Proofs
begin

text \<open>
  Lemmas on refs: a written ref is read back, a write leaves every other file alone, and the files
  of objects are none of them.
\<close>

definition branch_file_name :: "string \<Rightarrow> string" where
  "branch_file_name ref_token_hex = ''refs/branches/'' @ ref_token_hex @ ''.json''"

lemma branch_ref_file_Inr: "branch_ref_file t = Inr p \<Longrightarrow> p = branch_file_name t"
  by (auto simp: branch_ref_file_def branch_ref_path_def branch_file_name_def rbind_Inr_iff split: if_splits)

lemma paths_differ [simp]:
  "relative_object_path i \<noteq> default_ref_file" "relative_object_path i \<noteq> branch_file_name t"
  "relative_object_path i \<noteq> layout_root_file" "branch_file_name t \<noteq> default_ref_file" "default_ref_file \<noteq> branch_file_name t"
  "layout_root_file \<noteq> default_ref_file" "layout_root_file \<noteq> branch_file_name t"
  "default_ref_file \<noteq> relative_object_path i" "branch_file_name t \<noteq> relative_object_path i" "layout_root_file \<noteq> relative_object_path i"
  "default_ref_file \<noteq> layout_root_file" "branch_file_name t \<noteq> layout_root_file"
  by (simp_all add: relative_object_path_def default_ref_file_def branch_file_name_def layout_root_file_def)

lemma branch_file_name_inject [simp]: "branch_file_name t = branch_file_name u \<longleftrightarrow> t = u"
  by (simp add: branch_file_name_def)

definition ref_codecs_ok :: "ref_codecs \<Rightarrow> bool" where
  "ref_codecs_ok K \<longleftrightarrow> serde_ok (rc_sealed K) \<and> serde_ok (rc_ref K)"

lemma open_sealed:
  "crypto_ok (ms_crypto M) \<Longrightarrow> ref_codecs_ok K \<Longrightarrow> seal_ref M K n v = Inr bytes \<Longrightarrow> open_ref M K ctx n bytes = Inr v"
  by (simp add: seal_ref_def open_ref_def ref_codecs_ok_def decrypt_encrypted serde_okD)

text \<open>Files that agree but for one path.\<close>

definition same_but :: "string set \<Rightarrow> files \<Rightarrow> files \<Rightarrow> bool" where
  "same_but P fs fs' \<longleftrightarrow> (\<forall>p. p \<notin> P \<longrightarrow> map_of fs' p = map_of fs p)"

lemma same_butD: "same_but P fs fs' \<Longrightarrow> p \<notin> P \<Longrightarrow> map_of fs' p = map_of fs p"
  by (simp add: same_but_def)

lemma same_but_refl [simp]: "same_but P fs fs"
  by (simp add: same_but_def)

lemma same_but_trans: "same_but P fs fs1 \<Longrightarrow> same_but Q fs1 fs' \<Longrightarrow> P \<union> Q \<subseteq> R \<Longrightarrow> same_but R fs fs'"
  unfolding same_but_def by (metis UnCI subsetD)

lemma write_default_ref_run:
  assumes "crypto_ok (ms_crypto M)" "ref_codecs_ok K" "bt_ok fs" "write_default_ref M K v fs = (Inr u, fs')"
  shows "read_default_ref M K fs' = Inr v" "bt_ok fs'" "same_but {default_ref_file} fs fs'"
proof -
  obtain bytes where b: "seal_ref M K default_ref_token v = Inr bytes" "fs' = bt_insert default_ref_file bytes fs"
    using assms(4) by (auto simp: write_default_ref_def write_file_def split: sum.splits)
  then show "read_default_ref M K fs' = Inr v" "bt_ok fs'" "same_but {default_ref_file} fs fs'"
    using assms(1-3) by (simp_all add: read_default_ref_def fs_read_def map_of_bt_insert open_sealed same_but_def)
qed

lemma write_branch_ref_run:
  assumes "crypto_ok (ms_crypto M)" "ref_codecs_ok K" "bt_ok fs" "write_branch_ref M K v fs = (Inr u, fs')"
  shows "read_branch_ref_if_exists M K (rf_ref_token_hex v) fs' = Inr (Some v)" "bt_ok fs'"
    "same_but {branch_file_name (rf_ref_token_hex v)} fs fs'"
proof -
  obtain bytes path where b: "seal_ref M K (branch_ref_stable_name (rf_ref_token_hex v)) v = Inr bytes"
      "branch_ref_file (rf_ref_token_hex v) = Inr path" "fs' = bt_insert path bytes fs"
    using assms(4) by (auto simp: write_branch_ref_def write_file_def sbind_def split: sum.splits prod.splits)
  moreover have "path = branch_file_name (rf_ref_token_hex v)" using b(2) by (rule branch_ref_file_Inr)
  ultimately show "read_branch_ref_if_exists M K (rf_ref_token_hex v) fs' = Inr (Some v)" "bt_ok fs'"
      "same_but {branch_file_name (rf_ref_token_hex v)} fs fs'"
    using assms(1-3) by (simp_all add: read_branch_ref_if_exists_def map_of_bt_insert open_sealed same_but_def)
qed

section \<open>What a write leaves alone\<close>

lemma read_default_ref_cong:
  "map_of fs default_ref_file = map_of fs' default_ref_file \<Longrightarrow> read_default_ref M K fs = read_default_ref M K fs'"
  by (simp add: read_default_ref_def fs_read_def)

lemma read_branch_ref_cong:
  "map_of fs (branch_file_name t) = map_of fs' (branch_file_name t) \<Longrightarrow>
     read_branch_ref_if_exists M K t fs = read_branch_ref_if_exists M K t fs'"
  using branch_ref_file_Inr [of t] by (cases "branch_ref_file t") (auto simp: read_branch_ref_if_exists_def)

lemma validate_layout_root_cong:
  "map_of fs layout_root_file = map_of fs' layout_root_file \<Longrightarrow> validate_layout_root K fs = validate_layout_root K fs'"
  by (simp add: validate_layout_root_def fs_read_def)

text \<open>The paths that refs are written to.\<close>

definition ref_paths :: "string set" where
  "ref_paths = insert default_ref_file (range branch_file_name)"

lemma ref_paths_simps [simp]:
  "default_ref_file \<in> ref_paths" "branch_file_name t \<in> ref_paths" "relative_object_path i \<notin> ref_paths" "layout_root_file \<notin> ref_paths"
  by (auto simp: ref_paths_def)

lemma typed_same: "same_but P fs fs' \<Longrightarrow> P \<subseteq> ref_paths \<Longrightarrow> typed M i fs' = typed M i fs"
  by (intro typed_cong same_butD) auto

lemma puts_frame:
  "puts M fs W fs' \<Longrightarrow> bt_ok fs \<Longrightarrow> bt_ok fs' \<and> same_but (range relative_object_path) fs fs'"
proof (induction rule: puts.induct)
  case (puts_Cons rnd t p fs i fs1 W fs')
  have "bt_ok fs1 \<and> same_but (range relative_object_path) fs fs1"
    using puts_Cons.hyps(1) puts_Cons.prems
    by (elim put_object_stored) (simp add: same_but_def map_of_bt_insert)
  with puts_Cons.IH show ?case by (auto intro: same_but_trans)
qed simp

end
