(* ===== verification/Sample_Runs.thy ===== *)
theory Sample_Runs
  imports Snapshot_Proofs Ref_Proofs
begin

text \<open>
  For the witnesses: with keys and random bytes that never fail, the writers succeed, and a small
  repository whose objects have short encodings.
\<close>

definition plain_store :: "manifest_store \<Rightarrow> bool" where
  "plain_store M \<longleftrightarrow> ms_crypto M = plain_crypto \<and> ms_secrets M = sample_secrets"

text \<open>With \<open>w\<close> a run also adds no warning.\<close>

definition steady :: "bool \<Rightarrow> commit_state \<Rightarrow> bool" where
  "steady w st \<longleftrightarrow> cs_draws st = (\<lambda>n. sample_draw) \<and> (w \<longrightarrow> cs_warnings st = [])"

definition runs :: "bool \<Rightarrow> (commit_state, 'a) prog \<Rightarrow> bool" where
  "runs w m \<longleftrightarrow> (\<forall>st. steady w st \<longrightarrow> (\<exists>x st'. m st = (Inr x, st') \<and> steady w st'))"

lemma runsD: "runs w m \<Longrightarrow> steady w st \<Longrightarrow> \<exists>x st'. m st = (Inr x, st') \<and> steady w st'"
  by (simp add: runs_def)

lemma runs_sret: "runs w (sret x)"
  by (simp add: runs_def)

lemma runs_sbind: "runs w m \<Longrightarrow> (\<And>x. runs w (f x)) \<Longrightarrow> runs w (sbind m f)"
  unfolding runs_def
proof (intro allI impI)
  fix st
  assume m: "\<forall>st. steady w st \<longrightarrow> (\<exists>x st'. m st = (Inr x, st') \<and> steady w st')"
    and f: "\<And>x. \<forall>st. steady w st \<longrightarrow> (\<exists>y st'. f x st = (Inr y, st') \<and> steady w st')"
    and st: "steady w st"
  from m st obtain x st1 where one: "m st = (Inr x, st1)" "steady w st1" by blast
  with f [of x] show "\<exists>y st'. sbind m f st = (Inr y, st') \<and> steady w st'" by (simp add: sbind_Inr)
qed

lemma runs_quiet:
  assumes "\<And>st. \<exists>x st'. m st = (Inr x, st') \<and> cs_draws st' = cs_draws st \<and> (w \<longrightarrow> cs_warnings st' = cs_warnings st)"
  shows "runs w m"
  unfolding runs_def
proof (intro allI impI)
  fix st assume st: "steady w st"
  obtain x st' where "m st = (Inr x, st')" "cs_draws st' = cs_draws st" "w \<longrightarrow> cs_warnings st' = cs_warnings st"
    using assms by blast
  with st show "\<exists>x st'. m st = (Inr x, st') \<and> steady w st'" by (simp add: steady_def)
qed

lemma runs_sread: "(\<And>x. runs w (f x)) \<Longrightarrow> runs w (sbind (sread (\<lambda>st. Inr (g st))) f)"
  unfolding runs_def by simp

lemma runs_put_next: "plain_store M \<Longrightarrow> runs w (put_next M t p)"
  unfolding runs_def
proof (intro allI impI)
  fix st assume "plain_store M" "steady w st"
  then obtain fs where "put_next M t p st = (Inr (plain_id t p), st\<lparr> cs_files := fs \<rparr>)"
    using plain_put_next [of M st t p] by (auto simp: plain_store_def steady_def)
  with \<open>steady w st\<close> show "\<exists>x st'. put_next M t p st = (Inr x, st') \<and> steady w st'" by (simp add: steady_def)
qed

lemma runs_write_object: "plain_store M \<Longrightarrow> runs w (write_object M pc t x)"
  unfolding write_object_def by (rule runs_put_next)

lemma runs_chunks: "plain_store M \<Longrightarrow> runs w (write_chunks M pc bytes spans ids lens)"
proof (induction spans arbitrary: ids lens)
  case Nil
  show ?case unfolding write_chunks.simps by (rule runs_sret)
next
  case (Cons s spans)
  have count: "runs w (count_bytes b n)" for b n by (rule runs_quiet) (simp add: count_bytes_def)
  show ?case unfolding write_chunks.simps Let_def
    by (intro runs_sread runs_sbind runs_put_next count Cons)
qed

lemma runs_file_shards: "plain_store M \<Longrightarrow> runs w (write_file_shards M ids lens shards sizes)"
proof (induction M ids lens shards sizes rule: write_file_shards.induct)
  case (1 M ids lens shards sizes)
  show ?case
  proof (cases "ids = []")
    case True
    show ?thesis by (subst write_file_shards.simps) (unfold if_P [OF True], rule runs_sret)
  next
    case False
    show ?thesis
      by (subst write_file_shards.simps)
        (simp only: False if_False, intro runs_sbind runs_write_object 1(2) 1(1) False)
  qed
qed

lemma runs_build_file: "plain_store M \<Longrightarrow> w \<longrightarrow> is_ok source \<Longrightarrow> runs w (build_file_tree_entry_with M pc fastcdc name source)"
proof -
  assume M: "plain_store M" and source: "w \<longrightarrow> is_ok source"
  have final: "runs w (\<lambda>st. (Inr (Some e), st\<lparr> cs_committed_files := cs_committed_files st + 1 \<rparr>))" for e :: tree_entry
    by (rule runs_quiet) simp
  have skip: "runs w (\<lambda>st. (Inr None, st\<lparr> cs_warnings := cs_warnings st @ ws \<rparr>) :: tree_entry option res \<times> commit_state)"
    if "\<not> w" for ws
    by (rule runs_quiet) (simp add: that)
  show ?thesis
  proof (cases source)
    case (Inl e)
    then show ?thesis using skip source by (simp add: build_file_tree_entry_with_def)
  next
    case (Inr p)
    obtain bytes mtime where p: "p = (bytes, mtime)" by (cases p)
    have layout: "runs w (if b then sbind (write_file_shards M ids lens [] []) (\<lambda>(s, l). sret ([], [], s, l)) else sret y)" for b ids lens y
    proof (cases b)
      case True
      have "runs w (case z of (s, l) \<Rightarrow> sret ([], [], s, l))" for z :: "string list \<times> u64 list"
        by (cases z) (simp only: prod.case runs_sret)
      with True show ?thesis by (simp only: if_True) (intro runs_sbind runs_file_shards M)
    qed (simp only: if_False runs_sret)
    have rest: "runs w (case z of (ids, lens, s, l) \<Rightarrow> sbind (write_object M (ms_file M) ''file'' (F ids lens s l))
        (\<lambda>i. (\<lambda>st. (Inr (Some (G i)), st\<lparr> cs_committed_files := cs_committed_files st + 1 \<rparr>))))"
      for z :: "string list \<times> u64 list \<times> string list \<times> u64 list" and F and G :: "string \<Rightarrow> tree_entry"
      by (cases z) (simp only: prod.case, intro runs_sbind runs_write_object M final)
    have middle: "runs w (case z of (ids, lens) \<Rightarrow> sbind (if max_file_chunks_per_object < length ids
        then sbind (write_file_shards M ids lens [] []) (\<lambda>(s, l). sret ([], [], s, l)) else sret (ids, lens, [], []))
        (\<lambda>(ids', lens', s, l). sbind (write_object M (ms_file M) ''file'' (F ids ids' lens' s l))
          (\<lambda>i. (\<lambda>st. (Inr (Some (G i)), st\<lparr> cs_committed_files := cs_committed_files st + 1 \<rparr>)))))"
      for z :: "string list \<times> u64 list" and F and G :: "string \<Rightarrow> tree_entry"
      by (cases z) (simp only: prod.case, intro runs_sbind layout rest)
    show ?thesis unfolding build_file_tree_entry_with_def Inr p sum.case prod.case
      by (intro runs_sbind runs_chunks M middle)
  qed
qed

lemma runs_tree_shards: "plain_store M \<Longrightarrow> runs w (write_tree_shards M es ids)"
proof (induction M es ids rule: write_tree_shards.induct)
  case (1 M es ids)
  show ?case
  proof (cases "es = []")
    case True
    show ?thesis by (subst write_tree_shards.simps) (unfold if_P [OF True], rule runs_sret)
  next
    case False
    show ?thesis
      by (subst write_tree_shards.simps)
        (simp only: False if_False Let_def, rule runs_sbind [OF runs_write_object [OF 1(2)]], rule 1(1) [OF False refl 1(2)])
  qed
qed

lemma runs_directory: "plain_store M \<Longrightarrow> runs w (write_directory M es)"
  unfolding write_directory_def build_directory_root_object_def
  by (cases "length es \<le> max_tree_entries_per_object") (simp_all add: runs_write_object runs_sbind runs_tree_shards)

lemma runs_virtual_file:
  assumes "plain_store M" "\<not> w"
  shows "runs w (write_virtual_file_object M W name bytes mtime)"
proof -
  let ?build = "build_file_tree_entry_with M (cw_chunk W) (cw_fastcdc W) name (Inr (bytes, mtime))"
  have "\<exists>x st'. write_virtual_file_object M W name bytes mtime st = (Inr x, st') \<and> cs_draws st' = (\<lambda>n. sample_draw)"
    if st: "cs_draws st = (\<lambda>n. sample_draw)" for st
  proof -
    have "steady True (st\<lparr> cs_warnings := [] \<rparr>)" using st by (simp add: steady_def)
    from runsD [OF runs_build_file [OF assms(1)] this, of "Inr (bytes, mtime)" "cw_chunk W" "cw_fastcdc W" name]
    obtain x st1 where one: "?build (st\<lparr> cs_warnings := [] \<rparr>) = (Inr x, st1)" "steady True st1" by auto
    then obtain e where "x = Some e"
      by (auto simp: build_file_tree_entry_with_def sbind_Inr_iff split: prod.splits)
    with one show ?thesis
      by (simp add: write_virtual_file_object_def own_warnings_def sbind_Inr steady_def)
  qed
  with assms(2) show ?thesis by (simp add: runs_def steady_def)
qed

lemma plain_seal: "plain_store M \<Longrightarrow> \<exists>bytes. seal_ref M K n v = Inr bytes"
  by (simp add: seal_ref_def plain_store_def encrypt_control_record_def derive_control_nonce_def active_epoch_keys_def
      epoch_keys_def sample_secrets_def plain_crypto_def Let_def)

lemma runs_default_ref: "plain_store M \<Longrightarrow> runs w (on_commit_files (write_default_ref M K v))"
proof (rule runs_quiet)
  fix st :: commit_state assume "plain_store M"
  from plain_seal [OF this] obtain bytes where "seal_ref M K default_ref_token v = Inr bytes" by blast
  then show "\<exists>x st'. on_commit_files (write_default_ref M K v) st = (Inr x, st') \<and> cs_draws st' = cs_draws st \<and> (w \<longrightarrow> cs_warnings st' = cs_warnings st)"
    by (simp add: on_commit_files_def write_default_ref_def write_file_def)
qed

lemma runs_branch_ref:
  assumes "plain_store M" "branch_ref_file (rf_ref_token_hex v) = Inr path"
  shows "runs w (on_commit_files (write_branch_ref M K v))"
proof (rule runs_quiet)
  fix st :: commit_state
  from plain_seal [OF assms(1)] obtain bytes where "seal_ref M K (branch_ref_stable_name (rf_ref_token_hex v)) v = Inr bytes" by blast
  with assms(2) show "\<exists>x st'. on_commit_files (write_branch_ref M K v) st = (Inr x, st') \<and> cs_draws st' = cs_draws st \<and> (w \<longrightarrow> cs_warnings st' = cs_warnings st)"
    by (simp add: on_commit_files_def write_branch_ref_def write_file_def)
qed

section \<open>A repository\<close>

instance ref_record_ext :: (countable) countable
  by (rule countable_classI [of "\<lambda>r. to_nat (rf_branch_name r, rf_ref_token_hex r, rf_head_snapshot_id r, ref_record.more r)"]) auto

definition sample_refs :: ref_codecs where
  "sample_refs = \<lparr> rc_sealed = unary_codec, rc_ref = unary_codec,
     rc_layout = \<lparr> to_vec = (\<lambda>x. []), from_slice = (\<lambda>bs. Some direct_default) \<rparr> \<rparr>"

lemma sample_refs_ok [simp]: "ref_codecs_ok sample_refs"
  by (simp add: ref_codecs_ok_def sample_refs_def)

definition main_ref :: ref_record where
  "main_ref = \<lparr> rf_branch_name = ''main'', rf_ref_token_hex = ''aa'', rf_head_snapshot_id = None \<rparr>"

lemma main_ref_file: "branch_ref_file ''aa'' = Inr ''refs/branches/aa.json''"
  by (simp add: branch_ref_file_def branch_ref_path_def) code_simp

text \<open>The files of a new repository on branch \<^verbatim>\<open>main\<close>.\<close>

definition sample_repo :: "manifest_store \<Rightarrow> files" where
  "sample_repo M = (case seal_ref M sample_refs default_ref_token main_ref of
     Inr bytes \<Rightarrow> bt_insert default_ref_file bytes [(layout_root_file, [])] | Inl e \<Rightarrow> [])"

end
