(* ===== verification/Commit_Claims.thy ===== *)
theory Commit_Claims
  imports Sample_Runs
begin

text \<open>
  What a commit records: the working tree as a virtual tree, path by path, and its files as they
  are read through the read service.
\<close>

section \<open>Scanning\<close>

definition is_control :: "string \<Rightarrow> bool" where
  "is_control raw_name \<longleftrightarrow> raw_name = ''.e2v'' \<or> raw_name = ''.e2v-checkout-mapping.json''"

lemma scan_entries_run:
  assumes "scan_entries nfc low skip acc listing seen = (Inr es, seen')"
  shows "es = acc @ map (\<lambda>(raw, d). \<lparr> wt_name = nfc raw, wt_raw_name = raw, wt_is_dir = d \<rparr>)
      (filter (\<lambda>(raw, d). \<not> (skip \<and> is_control raw)) listing) \<and>
    distinct (map (\<lambda>(raw, d). low (nfc raw)) (filter (\<lambda>(raw, d). \<not> (skip \<and> is_control raw)) listing)) \<and>
    (\<forall>(raw, d) \<in> set (filter (\<lambda>(raw, d). \<not> (skip \<and> is_control raw)) listing).
       low (nfc raw) \<notin> seen \<and> validate_path_component (nfc raw) = Inr ())"
  using assms
proof (induction listing arbitrary: acc seen)
  case Nil
  then show ?case by simp
next
  case (Cons p listing)
  obtain raw d where p: "p = (raw, d)" by (cases p)
  show ?case
  proof (cases "skip \<and> is_control raw")
    case True
    with Cons.prems have "scan_entries nfc low skip acc listing seen = (Inr es, seen')" by (simp add: p is_control_def)
    from Cons.IH [OF this] True show ?thesis by (simp add: p)
  next
    case False
    with Cons.prems have v: "validate_path_component (nfc raw) = Inr ()" "low (nfc raw) \<notin> seen"
      and run: "scan_entries nfc low skip (acc @ [\<lparr> wt_name = nfc raw, wt_raw_name = raw, wt_is_dir = d \<rparr>]) listing
        (insert (low (nfc raw)) seen) = (Inr es, seen')"
      by (auto simp: p is_control_def sbind_Inr_iff validate_case_fold_uniqueness_def Let_def split: if_splits sum.splits)
    from Cons.IH [OF run] v False show ?thesis by (auto simp: p)
  qed
qed

text \<open>What a successful scan of a directory gives.\<close>

lemma scan_dir_run:
  assumes "scan_dir nfc low root True listing = Inr es"
  shows "sorted_wrt (<) (map wt_name es)"
    "set es = {\<lparr> wt_name = nfc raw, wt_raw_name = raw, wt_is_dir = d \<rparr> | raw d. (raw, d) \<in> set listing \<and> \<not> (root \<and> is_control raw)}"
    "\<forall>e \<in> set es. validate_path_component (wt_name e) = Inr ()"
proof -
  let ?kept = "filter (\<lambda>(raw, d). \<not> (root \<and> is_control raw)) listing"
  let ?entry = "\<lambda>(raw, d). \<lparr> wt_name = nfc raw, wt_raw_name = raw, wt_is_dir = d \<rparr>"
  obtain xs seen' where run: "scan_entries nfc low (True \<and> root) [] listing {} = (Inr xs, seen')" and es: "es = sort_key wt_name xs"
    using assms by (cases "scan_entries nfc low (True \<and> root) [] listing {}") (auto simp: scan_dir_def rbind_Inr_iff)
  from scan_entries_run [OF run] have xs: "xs = map ?entry ?kept"
    and low: "distinct (map (\<lambda>(raw, d). low (nfc raw)) ?kept)"
    and ok: "\<forall>(raw, d) \<in> set ?kept. validate_path_component (nfc raw) = Inr ()" by auto
  have "map (\<lambda>(raw, d). low (nfc raw)) ?kept = map low (map wt_name xs)" unfolding xs by auto
  with low have "distinct (map wt_name xs)" by (metis distinct_map)
  then have "distinct (map wt_name es)" unfolding es by (simp add: distinct_map)
  moreover have "sorted (map wt_name es)" unfolding es by simp
  ultimately show "sorted_wrt (<) (map wt_name es)" by (simp add: strict_sorted_iff)
  show "set es = {\<lparr> wt_name = nfc raw, wt_raw_name = raw, wt_is_dir = d \<rparr> | raw d. (raw, d) \<in> set listing \<and> \<not> (root \<and> is_control raw)}"
    unfolding es xs by (auto simp: image_iff)
  show "\<forall>e \<in> set es. validate_path_component (wt_name e) = Inr ()" unfolding es xs using ok by auto
qed

section \<open>The working tree as a virtual tree\<close>

definition staged_node ::
  "(string \<times> virtual_directory) list \<Rightarrow> (string \<times> disk_node) list \<Rightarrow> working_tree_entry \<Rightarrow> virtual_entry option" where
  "staged_node subs kids entry =
     (if wt_is_dir entry then map_option DirEntry (map_of subs (wt_raw_name entry))
      else (case source_of kids (wt_raw_name entry) of
              Inr (bytes, mtime) \<Rightarrow> Some (FileEntry (Staged bytes mtime)) | Inl e \<Rightarrow> None))"

definition staged_entries ::
  "(working_tree_entry \<Rightarrow> virtual_entry option) \<Rightarrow> working_tree_entry list \<Rightarrow> (string \<times> virtual_entry) list" where
  "staged_entries f es = List.map_filter (\<lambda>e. map_option (Pair (wt_name e)) (f e)) es"

fun staged_tree :: "commit_env \<Rightarrow> bool \<Rightarrow> disk_node \<Rightarrow> virtual_directory" where
  "staged_tree E is_root (Disk_File source) = empty_directory"
| "staged_tree E is_root (Disk_Dir kids) =
     (case scan_dir (ce_nfc E) (ce_to_lowercase E) is_root True (map (\<lambda>c. (fst c, is_directory (snd c))) kids) of
        Inl e \<Rightarrow> empty_directory
      | Inr es \<Rightarrow> VirtualDirectory (staged_entries
          (staged_node (map (\<lambda>c. (fst c, staged_tree E False (snd c))) kids) kids) es))"

lemma staged_entries_simps [simp]:
  "staged_entries f [] = []"
  "staged_entries f (e # es) = (case f e of None \<Rightarrow> staged_entries f es | Some x \<Rightarrow> (wt_name e, x) # staged_entries f es)"
  by (simp_all add: staged_entries_def map_filter_simps split: option.splits)

lemma set_staged_entries: "set (staged_entries f es) = {(wt_name e, x) | e x. e \<in> set es \<and> f e = Some x}"
  by (induction es) (auto split: option.splits)

lemma staged_entries_sorted: "sorted_wrt (<) (map wt_name es) \<Longrightarrow> bt_ok (staged_entries f es)"
  unfolding bt_ok_def
  by (induction es) (auto simp: set_staged_entries split: option.splits)

lemma map_of_pairs: "map_of (map (\<lambda>c. (fst c, f (snd c))) cs) = map_option f \<circ> map_of cs"
  by (induction cs) (auto simp: fun_eq_iff)

lemma tree_ok_list:
  assumes "bt_ok es" "\<And>n d. (n, DirEntry d) \<in> set es \<Longrightarrow> tree_ok (DirEntry d)"
  shows "tree_ok (DirEntry (VirtualDirectory es))"
proof (rule tree_ok_dir)
  fix n e assume "map_of (dir_entries (VirtualDirectory es)) n = Some e"
  then have "(n, e) \<in> set es" by (simp add: map_of_SomeD)
  with assms(2) show "tree_ok e" by (cases e) (auto simp only: intro: tree_ok_file)
qed (use assms(1) in simp)

lemma staged_tree_ok: "tree_ok (DirEntry (staged_tree E is_root node))"
proof (induction node arbitrary: is_root)
  case (Disk_File source)
  then show ?case by (simp add: empty_directory_def)
next
  case (Disk_Dir kids)
  let ?subs = "map (\<lambda>c. (fst c, staged_tree E False (snd c))) kids"
  show ?case
  proof (cases "scan_dir (ce_nfc E) (ce_to_lowercase E) is_root True (map (\<lambda>c. (fst c, is_directory (snd c))) kids)")
    case (Inr es)
    have "tree_ok (DirEntry (VirtualDirectory (staged_entries (staged_node ?subs kids) es)))"
    proof (rule tree_ok_list)
      show "bt_ok (staged_entries (staged_node ?subs kids) es)"
        by (rule staged_entries_sorted [OF scan_dir_run(1) [OF Inr]])
      fix n d assume "(n, DirEntry d) \<in> set (staged_entries (staged_node ?subs kids) es)"
      then obtain raw node where "map_of kids raw = Some node" "d = staged_tree E False node"
        by (auto simp: set_staged_entries staged_node_def map_of_pairs split: if_splits sum.splits)
      then show "tree_ok (DirEntry d)"
        using Disk_Dir [of "(raw, node)" node False] by (auto dest!: map_of_SomeD simp: snds.simps simp del: tree_ok_simps)
    qed
    with Inr show ?thesis by (simp del: tree_ok_simps)
  qed (simp add: empty_directory_def)
qed

section \<open>A commit writes that tree\<close>

lemma writes_sfail: "writes M (sfail e) V x"
  by (simp add: writes_def)

lemma writes_unreadable: "writes M (build_file_tree_entry_with M pc fastcdc name (Inl e)) [] None"
  by (rule writes_quiet) (auto simp: build_file_tree_entry_with_def)

lemma writes_entries:
  assumes W: "W = ce_writer E"
    and dirs: "\<And>e. e \<in> set es \<Longrightarrow> wt_is_dir e \<Longrightarrow> (case f e of
        Some (DirEntry d) \<Rightarrow> writes M (build (wt_raw_name e)) (tree_objects M W d) (tree_id_of M W d)
      | _ \<Rightarrow> \<exists>err. build (wt_raw_name e) = sfail err)"
    and sources: "\<And>e. e \<in> set es \<Longrightarrow> \<not> wt_is_dir e \<Longrightarrow> (case source (wt_raw_name e) of
        Inr (bytes, mtime) \<Rightarrow> f e = Some (FileEntry (Staged bytes mtime)) | Inl err \<Rightarrow> f e = None)"
  shows "writes M (build_entries M E build source es acc) (concat (map (entry_objects M W) (staged_entries f es)))
    (acc @ map (stored_entry M W) (staged_entries f es))"
  using dirs sources
proof (induction es arbitrary: acc)
  case Nil
  then show ?case using writes_sret [of M acc] by (simp del: prog_simps)
next
  case (Cons e es)
  have tail: "writes M (build_entries M E build source es acc') (concat (map (entry_objects M W) (staged_entries f es)))
      (acc' @ map (stored_entry M W) (staged_entries f es))" for acc'
    by (rule Cons.IH) (use Cons.prems in auto)
  show ?case
  proof (cases "wt_is_dir e")
    case True
    let ?rest = "\<lambda>i. build_entries M E build source es (acc @ [\<lparr> te_name = wt_name e, te_kind = ''tree'', te_object_id = i \<rparr>])"
    have run: "build_entries M E build source (e # es) acc = sbind (build (wt_raw_name e)) ?rest" using True by simp
    show ?thesis
    proof (cases "\<exists>d. f e = Some (DirEntry d)")
      case True
      then obtain d where d: "f e = Some (DirEntry d)" by blast
      then have "writes M (build (wt_raw_name e)) (tree_objects M W d) (tree_id_of M W d)"
        using Cons.prems(1) [of e] \<open>wt_is_dir e\<close> by simp
      from writes_sbind [OF this, of ?rest] tail [of "acc @ [stored_entry M W (wt_name e, DirEntry d)]"]
      show ?thesis unfolding run by (simp add: d)
    next
      case False
      then obtain err where "build (wt_raw_name e) = sfail err"
        using Cons.prems(1) [of e] \<open>wt_is_dir e\<close> by (auto split: option.splits virtual_entry.splits)
      then show ?thesis unfolding run by (simp add: writes_def)
    qed
  next
    case False
    let ?rest = "\<lambda>t. build_entries M E build source es (acc @ (case t of Some e \<Rightarrow> [e] | None \<Rightarrow> []))"
    have run: "build_entries M E build source (e # es) acc = sbind (build_file_tree_entry_with M (cw_chunk W) (cw_fastcdc W)
        (wt_name e) (source (wt_raw_name e))) ?rest" using False by (simp add: W)
    show ?thesis
    proof (cases "source (wt_raw_name e)")
      case (Inl err)
      then have "f e = None" using Cons.prems(2) [of e] False by simp
      with writes_sbind [OF writes_unreadable, of M ?rest] tail [of acc] show ?thesis unfolding run Inl by simp
    next
      case (Inr r)
      obtain bytes mtime where r: "r = (bytes, mtime)" by (cases r)
      then have "f e = Some (FileEntry (Staged bytes mtime))" using Cons.prems(2) [of e] False Inr by simp
      with writes_sbind [OF writes_build_file, of M ?rest] tail [of "acc @ [stored_entry M W (wt_name e, FileEntry (Staged bytes mtime))]"]
      show ?thesis unfolding run Inr r by (simp add: writer_file_id_def)
    qed
  qed
qed

lemma writes_build:
  "writes M (build_tree_object M E is_root node) (tree_objects M (ce_writer E) (staged_tree E is_root node))
     (tree_id_of M (ce_writer E) (staged_tree E is_root node))"
proof (induction node arbitrary: is_root)
  case (Disk_File source)
  then show ?case by (simp add: writes_def)
next
  case (Disk_Dir kids)
  let ?W = "ce_writer E"
  let ?subs = "map (\<lambda>c. (fst c, staged_tree E False (snd c))) kids"
  let ?scan = "scan_dir (ce_nfc E) (ce_to_lowercase E) is_root True (map (\<lambda>c. (fst c, is_directory (snd c))) kids)"
  show ?case
  proof (cases ?scan)
    case (Inl e)
    then show ?thesis by (simp add: writes_def)
  next
    case (Inr es)
    let ?es = "staged_entries (staged_node ?subs kids) es"
    let ?build = "pick (map (\<lambda>c. (fst c, build_tree_object M E False (snd c))) kids)"
    have entries: "writes M (build_entries M E ?build (source_of kids) es []) (concat (map (entry_objects M ?W) ?es))
        ([] @ map (stored_entry M ?W) ?es)"
    proof (rule writes_entries [OF refl])
      fix e assume e: "e \<in> set es" "wt_is_dir e"
      show "case staged_node ?subs kids e of
          Some (DirEntry d) \<Rightarrow> writes M (?build (wt_raw_name e)) (tree_objects M ?W d) (tree_id_of M ?W d)
        | _ \<Rightarrow> \<exists>err. ?build (wt_raw_name e) = sfail err"
      proof (cases "map_of kids (wt_raw_name e)")
        case None
        with e show ?thesis by (simp add: staged_node_def pick_def map_of_pairs) blast
      next
        case (Some node)
        then have "(wt_raw_name e, node) \<in> set kids" by (rule map_of_SomeD)
        from Disk_Dir [OF this, of node False] e Some show ?thesis
          by (simp add: staged_node_def pick_def map_of_pairs snds.simps)
      qed
    next
      fix e :: working_tree_entry assume "\<not> wt_is_dir e"
      then show "case source_of kids (wt_raw_name e) of
          Inr (bytes, mtime) \<Rightarrow> staged_node ?subs kids e = Some (FileEntry (Staged bytes mtime))
        | Inl err \<Rightarrow> staged_node ?subs kids e = None"
        by (auto simp: staged_node_def split: sum.splits)
    qed
    have "bt_ok ?es" by (rule staged_entries_sorted [OF scan_dir_run(1) [OF Inr]])
    then have "sorted (map te_name (map (stored_entry M ?W) ?es))" unfolding stored_names by (rule bt_ok_sorted)
    then have sort: "sort_key te_name (map (stored_entry M ?W) ?es) = map (stored_entry M ?W) ?es" by (rule sort_key_id_if_sorted)
    have "writes M (sbind (build_entries M E ?build (source_of kids) es []) (\<lambda>ts. write_directory M (sort_key te_name ts)))
        (concat (map (entry_objects M ?W) ?es) @ dir_objects M (map (stored_entry M ?W) ?es)) (dir_id M (map (stored_entry M ?W) ?es))"
      by (rule writes_sbind [OF entries]) (use writes_directory [of M "map (stored_entry M ?W) ?es"] sort in simp)
    moreover have "sbind (slift (Inr x)) f = f x" for x :: "working_tree_entry list" and f :: "_ \<Rightarrow> (commit_state, string) prog"
      by (simp add: fun_eq_iff)
    ultimately show ?thesis
      by (simp only: build_tree_object.simps staged_tree.simps Inr sum.case tree_objects.simps tree_id_of.simps)
  qed
qed

section \<open>Paths of the working tree\<close>

text \<open>The file at a path of raw names, below the root without the control entries.\<close>

fun disk_file :: "bool \<Rightarrow> disk_node \<Rightarrow> string list \<Rightarrow> (byte list \<times> u64) option" where
  "disk_file is_root (Disk_File (Inr r)) [] = Some r"
| "disk_file is_root (Disk_Dir kids) (n # ns) =
     (if is_root \<and> is_control n then None
      else (case map_of kids n of None \<Rightarrow> None | Some node \<Rightarrow> disk_file False node ns))"
| "disk_file is_root node ns = None"

definition plain_segments :: "string list \<Rightarrow> bool" where
  "plain_segments segs \<longleftrightarrow> (\<forall>s \<in> set segs. validate_path_component s = Inr ())"

lemma build_entries_each:
  "build_entries M E build source es acc st = (Inr x, st') \<Longrightarrow> e \<in> set es \<Longrightarrow> wt_is_dir e \<Longrightarrow>
     \<exists>st1 i st2. build (wt_raw_name e) st1 = (Inr i, st2)"
proof (induction es arbitrary: acc st)
  case (Cons d es)
  then show ?case
  proof (cases "wt_is_dir d")
    case True
    then obtain i st1 where one: "build (wt_raw_name d) st = (Inr i, st1)"
      "build_entries M E build source es (acc @ [\<lparr> te_name = wt_name d, te_kind = ''tree'', te_object_id = i \<rparr>]) st1 = (Inr x, st')"
      using Cons.prems(1) by (auto simp: sbind_Inr_iff)
    show ?thesis
    proof (cases "e = d")
      case True
      with one(1) show ?thesis by blast
    next
      case False
      with Cons.IH [OF one(2)] Cons.prems(2,3) show ?thesis by simp
    qed
  next
    case False
    then have "e \<noteq> d" using Cons.prems(3) by blast
    from False Cons.prems(1) obtain t st1 where
      "build_entries M E build source es (acc @ (case t of Some e \<Rightarrow> [e] | None \<Rightarrow> [])) st1 = (Inr x, st')"
      by (auto simp: sbind_Inr_iff)
    from Cons.IH [OF this] \<open>e \<noteq> d\<close> Cons.prems(2,3) show ?thesis by simp
  qed
qed simp

lemma staged_lookup:
  assumes "build_tree_object M E is_root node st = (Inr i, st')" "disk_file is_root node ns = Some (bytes, mtime)"
  shows "get_entry (DirEntry (staged_tree E is_root node)) (map (ce_nfc E) ns) = Some (FileEntry (Staged bytes mtime)) \<and>
    ns \<noteq> [] \<and> plain_segments (map (ce_nfc E) ns)"
  using assms
proof (induction ns arbitrary: is_root node st i st')
  case Nil
  then show ?case by (cases node) auto
next
  case (Cons n ns)
  obtain kids where node: "node = Disk_Dir kids" using Cons.prems(1) by (cases node) auto
  let ?subs = "map (\<lambda>c. (fst c, staged_tree E False (snd c))) kids"
  let ?listing = "map (\<lambda>c. (fst c, is_directory (snd c))) kids"
  let ?builders = "map (\<lambda>c. (fst c, build_tree_object M E False (snd c))) kids"
  obtain es where scan: "scan_dir (ce_nfc E) (ce_to_lowercase E) is_root True ?listing = Inr es"
    and run: "\<exists>x st1. build_entries M E (pick ?builders) (source_of kids) es [] st = (Inr x, st1)"
    using Cons.prems(1) by (auto simp: node sbind_Inr_iff split: sum.splits)
  obtain child where child: "map_of kids n = Some child" "disk_file False child ns = Some (bytes, mtime)" "\<not> (is_root \<and> is_control n)"
    using Cons.prems(2) by (auto simp: node split: if_splits option.splits)
  let ?e = "\<lparr> wt_name = ce_nfc E n, wt_raw_name = n, wt_is_dir = is_directory child \<rparr>"
  have e: "?e \<in> set es"
    unfolding scan_dir_run(2) [OF scan] using map_of_SomeD [OF child(1)] child(3) by force
  have top: "map_of (staged_entries (staged_node ?subs kids) es) (ce_nfc E n) = Some x" if "staged_node ?subs kids ?e = Some x" for x
  proof (rule map_of_is_SomeI)
    show "distinct (map fst (staged_entries (staged_node ?subs kids) es))"
      by (rule bt_ok_distinct [OF staged_entries_sorted [OF scan_dir_run(1) [OF scan]]])
    show "(ce_nfc E n, x) \<in> set (staged_entries (staged_node ?subs kids) es)"
      using e that by (force simp: set_staged_entries)
  qed
  have valid: "validate_path_component (ce_nfc E n) = Inr ()" using scan_dir_run(3) [OF scan] e by force
  show ?case
  proof (cases child)
    case (Disk_File source)
    then have "ns = []" "source = Inr (bytes, mtime)" using child(2) by (cases ns; cases source; simp)+
    then have "staged_node ?subs kids ?e = Some (FileEntry (Staged bytes mtime))"
      using child(1) Disk_File by (simp add: staged_node_def source_of_def)
    from top [OF this] valid \<open>ns = []\<close> show ?thesis by (simp add: node scan plain_segments_def)
  next
    case (Disk_Dir kids')
    obtain x st1 where "build_entries M E (pick ?builders) (source_of kids) es [] st = (Inr x, st1)" using run by blast
    from build_entries_each [OF this e] Disk_Dir child(1) obtain st2 j st3 where
      "build_tree_object M E False child st2 = (Inr j, st3)" by (auto simp: pick_def map_of_pairs)
    note ih = Cons.IH [OF this child(2)]
    have "staged_node ?subs kids ?e = Some (DirEntry (staged_tree E False child))"
      using child(1) Disk_Dir by (simp add: staged_node_def map_of_pairs)
    from top [OF this] valid ih show ?thesis by (simp add: node scan plain_segments_def)
  qed
qed

section \<open>Reading by path\<close>

lemma find_stored:
  assumes "distinct (map fst es)" "map_of es n = Some x" "te_kind (stored_entry M W (n, x)) = kind"
  shows "List.find (\<lambda>e. te_name e = n \<and> te_kind e = kind) (map (stored_entry M W) es) = Some (stored_entry M W (n, x))"
  using assms
proof (induction es)
  case (Cons p es)
  show ?case
  proof (cases "fst p = n")
    case True
    with Cons.prems show ?thesis by (cases p) auto
  next
    case False
    with Cons show ?thesis by auto
  qed
qed simp

lemma stored_subtree:
  assumes "tree_ok (DirEntry d)" "narrow d" "\<forall>e \<in> set (tree_objects M W d). stored M fs e"
    and "map_of (dir_entries d) n = Some x"
  shows "distinct (map fst (dir_entries d))" "\<forall>e \<in> set (entry_objects M W (n, x)). stored M fs e"
    "x = DirEntry c \<Longrightarrow> tree_ok (DirEntry c) \<and> narrow c"
proof -
  obtain es where d: "d = VirtualDirectory es" by (cases d)
  show "distinct (map fst (dir_entries d))" using assms(1) by (simp add: bt_ok_distinct)
  have "set (entry_objects M W (n, x)) \<subseteq> set (tree_objects M W d)"
    using map_of_SomeD [OF assms(4)] by (auto simp: d)
  with assms(3) show "\<forall>e \<in> set (entry_objects M W (n, x)). stored M fs e" by blast
  assume "x = DirEntry c"
  with assms(4) narrow_child [OF assms(2)] tree_ok_child [OF assms(1)] show "tree_ok (DirEntry c) \<and> narrow c"
    by (simp del: tree_ok_simps)
qed

lemma resolve_segments_stored:
  assumes "store_codecs_ok M"
  shows "tree_ok (DirEntry d) \<Longrightarrow> narrow d \<Longrightarrow> \<forall>e \<in> set (tree_objects M W d). stored M fs e \<Longrightarrow> plain_segments segs \<Longrightarrow>
    get_entry (DirEntry d) segs = Some (DirEntry c) \<Longrightarrow>
    resolve_segments (store_at M fs) segs (tree_id_of M W d) = Inr (tree_id_of M W c) \<and>
    tree_ok (DirEntry c) \<and> narrow c \<and> (\<forall>e \<in> set (tree_objects M W c). stored M fs e)"
proof (induction segs arbitrary: d)
  case Nil
  then show ?case by simp
next
  case (Cons s segs)
  from Cons.prems(5) obtain x where x: "map_of (dir_entries d) s = Some x" "get_entry x segs = Some (DirEntry c)"
    by (auto split: option.splits)
  then obtain b where b: "x = DirEntry b" by (cases x; cases segs) auto
  note sub = stored_subtree [OF Cons.prems(1-3) x(1)]
  note node = get_tree_node_tree [OF Cons.prems(1,2) assms Cons.prems(3)]
  have found: "List.find (\<lambda>e. te_name e = s \<and> te_kind e = ''tree'') (map (stored_entry M W) (dir_entries d)) =
      Some \<lparr> te_name = s, te_kind = ''tree'', te_object_id = tree_id_of M W b \<rparr>"
    using find_stored [OF sub(1) x(1) refl, of M W] by (simp add: b)
  have "plain_segments segs" "validate_path_component s = Inr ()" using Cons.prems(4) by (simp_all add: plain_segments_def)
  note seg = validate_path_component_Inr [OF this(2)]
  have "resolve_segments (store_at M fs) segs (tree_id_of M W b) = Inr (tree_id_of M W c) \<and>
      tree_ok (DirEntry c) \<and> narrow c \<and> (\<forall>e \<in> set (tree_objects M W c). stored M fs e)"
    by (rule Cons.IH) (use sub b x(2) \<open>plain_segments segs\<close> in \<open>simp_all del: tree_ok_simps\<close>)
  with node found seg show ?case by (simp del: tree_ok_simps)
qed

lemma rsplit_once_absent: "c \<notin> set s \<Longrightarrow> rsplit_once c s = None"
  by (induction s) auto

lemma split_parent_and_name_join:
  assumes "good_segments nfc (parent @ [name])"
  shows "split_parent_and_name nfc (join_with ''/'' (parent @ [name])) = Inr (join_with ''/'' parent, name)"
proof -
  have fixed: "normalize_snapshot_path nfc (join_with ''/'' (parent @ [name])) = join_with ''/'' (parent @ [name])"
    "join_with ''/'' (parent @ [name]) \<noteq> []"
    using good_fixed [OF assms] by blast+
  have name: "slash \<notin> set name" using assms by (simp add: good_segments_def)
  show ?thesis
  proof (cases "parent = []")
    case True
    with fixed name show ?thesis by (simp add: split_parent_and_name_def rsplit_once_absent)
  next
    case False
    then have join: "join_with ''/'' (parent @ [name]) = join_with ''/'' parent @ slash # name" by (simp add: join_snoc)
    with fixed name show ?thesis by (simp add: split_parent_and_name_def rsplit_once_last)
  qed
qed

lemma resolve_tree_join:
  assumes "nfc_ok nfc" "segs = [] \<or> good_segments nfc segs"
  shows "resolve_tree_for_path nfc M root (join_with ''/'' segs) = resolve_segments M segs root"
proof (cases "segs = []")
  case True
  have "nfc [] = []" using assms(1) by (force simp: nfc_ok_def)
  with True show ?thesis by (simp add: resolve_tree_for_path_def normalize_snapshot_path_def trim_matches_def)
next
  case False
  with assms good_fixed [of nfc segs] show ?thesis by (simp add: resolve_tree_for_path_def)
qed

text \<open>A file of a stored tree opens and reads.\<close>

lemma open_file_stored:
  assumes tree: "tree_ok (DirEntry d)" "narrow d" "\<forall>e \<in> set (tree_objects M W d). stored M fs e"
    and ok: "store_codecs_ok M" "chunker_ok (cw_fastcdc W)" "serde_ok (cw_chunk W)" "reader_of M (cw_chunk W) R" "nfc_ok nfc"
    and path: "get_entry (DirEntry d) segs = Some (FileEntry (Staged bytes mtime))" "plain_segments segs"
      "\<forall>s \<in> set segs. nfc s = s"
    and range: "length bytes < 2 ^ 64" "unat off \<le> length bytes" and root: "sh_root_tree_id h = tree_id_of M W d"
  shows "\<exists>f. open_file nfc (store_at M fs) h (join_with ''/'' segs) = Inr f \<and>
    read_range R f off len fs = (Inr (take (unat len) (drop (unat off) bytes)), fs)"
proof -
  have "segs \<noteq> []" using path(1) by auto
  then obtain parent name where segs: "segs = parent @ [name]" by (metis append_butlast_last_id)
  have good: "good_segments nfc segs"
    using path(2,3) validate_path_component_plain \<open>segs \<noteq> []\<close> unfolding good_segments_def plain_segments_def by fast
  obtain c where c: "get_entry (DirEntry d) parent = Some (DirEntry c)" "map_of (dir_entries c) name = Some (FileEntry (Staged bytes mtime))"
  proof -
    from path(1) obtain y where y: "get_entry (DirEntry d) parent = Some y" "get_entry y [name] = Some (FileEntry (Staged bytes mtime))"
      unfolding segs get_entry_append by (auto split: option.splits)
    then show ?thesis using that by (cases y) (auto split: option.splits)
  qed
  have "plain_segments parent" using path(2) by (simp add: segs plain_segments_def)
  from resolve_segments_stored [OF ok(1) tree this c(1)]
  have res: "resolve_segments (store_at M fs) parent (tree_id_of M W d) = Inr (tree_id_of M W c)"
    and sub: "tree_ok (DirEntry c)" "narrow c" "\<forall>e \<in> set (tree_objects M W c). stored M fs e" by (simp_all del: tree_ok_simps)
  note child = stored_subtree [OF sub c(2)]
  have "parent = [] \<or> good_segments nfc parent" using good good_prefix [of nfc parent "[name]"] by (auto simp: segs)
  from resolve_tree_join [OF ok(5) this] res
  have tree_id: "resolve_tree_for_path nfc (store_at M fs) (sh_root_tree_id h) (join_with ''/'' parent) = Inr (tree_id_of M W c)"
    by (simp add: root)
  have found: "List.find (\<lambda>e. te_name e = name \<and> te_kind e = ''file'') (map (stored_entry M W) (dir_entries c)) =
      Some \<lparr> te_name = name, te_kind = ''file'', te_object_id = writer_file_id M W name mtime bytes \<rparr>"
    using find_stored [OF child(1) c(2) refl, of M W] by simp
  have codecs: "serde_ok (ms_file M)" "serde_ok (ms_file_shard M)" using ok(1) by (simp_all add: store_codecs_ok_def)
  have "\<forall>e \<in> set (file_entries M (cw_chunk W) (cw_fastcdc W) name mtime bytes). stored M fs e" using child(2) by simp
  from described_file_stored [OF ok(2,3) codecs ok(4) this range, of "sh_snapshot_id h" "writer_file_id M W name mtime bytes"
      "sh_layout_generation h"] obtain f where
    f: "read_file_object (store_at M fs) (writer_file_id M W name mtime bytes) = Inr f"
      "read_range R (handle_of (sh_snapshot_id h) (writer_file_id M W name mtime bytes) (sh_layout_generation h) f) off len fs = (Inr (take (unat len) (drop (unat off) bytes)), fs)"
    unfolding writer_file_id_def by blast
  have "open_file nfc (store_at M fs) h (join_with ''/'' segs) =
      Inr (handle_of (sh_snapshot_id h) (writer_file_id M W name mtime bytes) (sh_layout_generation h) f)"
    using split_parent_and_name_join [OF good [unfolded segs]] tree_id get_tree_node_tree [OF sub(1,2) ok(1) sub(3)] found f(1)
    by (simp add: open_file_def segs)
  with f(2) show ?thesis by blast
qed

section \<open>Commits\<close>

definition snapshot_of :: "manifest_store \<Rightarrow> content_writer \<Rightarrow> string \<Rightarrow> virtual_directory \<Rightarrow> string option \<Rightarrow> snapshot_object" where
  "snapshot_of M W message d parent = \<lparr> sn_schema_version = repo_format_version, sn_message = message,
     sn_root_tree_id = tree_id_of M W d, sn_parent_snapshot_id = parent \<rparr>"

definition snapshot_entry :: "manifest_store \<Rightarrow> content_writer \<Rightarrow> string \<Rightarrow> virtual_directory \<Rightarrow> string option \<Rightarrow> string \<times> byte list" where
  "snapshot_entry M W message d parent = (''snapshot'', to_vec (ms_snapshot M) (snapshot_of M W message d parent))"

text \<open>Everything a commit or a writeback of \<open>d\<close> stores.\<close>

definition commit_objects ::
  "manifest_store \<Rightarrow> content_writer \<Rightarrow> string \<Rightarrow> virtual_directory \<Rightarrow> string option \<Rightarrow> (string \<times> byte list) list" where
  "commit_objects M W message d parent = tree_objects M W d @ [snapshot_entry M W message d parent]"

lemma on_commit_files_iff: "on_commit_files m st = (r, st') \<longleftrightarrow> (\<exists>fs. m (cs_files st) = (r, fs) \<and> st' = st\<lparr> cs_files := fs \<rparr>)"
  by (auto simp: on_commit_files_def split: prod.splits)

lemma commit_run:
  assumes "commit M K E message tree st = (Inr r, st')" "draws_ok st"
  defines "d \<equiv> staged_tree E True tree"
  obtains r0 fs1 fs2 tree_st tree_st' where
    "read_default_ref M K (cs_files st) = Inr r0"
    "co_snapshot_id r = entry_id M (snapshot_entry M (ce_writer E) message d (rf_head_snapshot_id r0))"
    "puts M (cs_files st) (commit_objects M (ce_writer E) message d (rf_head_snapshot_id r0)) fs1"
    "write_default_ref M K (r0\<lparr> rf_head_snapshot_id := Some (co_snapshot_id r) \<rparr>) fs1 = (Inr (), fs2)"
    "write_branch_ref M K (r0\<lparr> rf_head_snapshot_id := Some (co_snapshot_id r) \<rparr>) fs2 = (Inr (), cs_files st')"
    "build_tree_object M E True tree tree_st = (Inr (tree_id_of M (ce_writer E) d), tree_st')"
proof -
  let ?W = "ce_writer E"
  obtain r0 where r0: "read_default_ref M K (cs_files st) = Inr r0"
    using assms(1) by (auto simp: commit_def sbind_def on_commit_files_def split: if_splits sum.splits prod.splits)
  obtain st1 where st1: "reset_counters st = (Inr (), st1)" "cs_files st1 = cs_files st" "draws_ok st1"
    using assms(2) by (simp add: reset_counters_def draws_ok_def)
  have "st\<lparr> cs_files := cs_files st \<rparr> = st" by simp
  with assms(1) r0 st1(1) obtain i st2 j st3 fs2 st4 where
    build: "build_tree_object M E True tree st1 = (Inr i, st2)"
    and snap: "write_object M (ms_snapshot M) ''snapshot'' \<lparr> sn_schema_version = repo_format_version, sn_message = message,
        sn_root_tree_id = i, sn_parent_snapshot_id = rf_head_snapshot_id r0 \<rparr> st2 = (Inr j, st3)"
    and d1: "write_default_ref M K (r0\<lparr> rf_head_snapshot_id := Some j \<rparr>) (cs_files st3) = (Inr (), fs2)"
    and b1: "write_branch_ref M K (r0\<lparr> rf_head_snapshot_id := Some j \<rparr>) fs2 = (Inr (), cs_files st')"
    and r: "co_snapshot_id r = j"
    by (auto simp: commit_def sbind_Inr_iff on_commit_files_iff Let_def split: if_splits)
  note w1 = writesD [OF writes_build st1(3) build]
  note w2 = writesD [OF writes_object w1(3) snap]
  show ?thesis
  proof (rule that [OF r0])
    show "co_snapshot_id r = entry_id M (snapshot_entry M ?W message d (rf_head_snapshot_id r0))"
      using r w1(1) w2(1) by (simp add: snapshot_entry_def snapshot_of_def entry_id_def d_def)
    show "puts M (cs_files st) (commit_objects M ?W message d (rf_head_snapshot_id r0)) (cs_files st3)"
      using puts_append [OF w1(2) w2(2)] w1(1) st1(2) by (simp add: commit_objects_def snapshot_entry_def snapshot_of_def d_def)
    show "write_default_ref M K (r0\<lparr> rf_head_snapshot_id := Some (co_snapshot_id r) \<rparr>) (cs_files st3) = (Inr (), fs2)"
      "write_branch_ref M K (r0\<lparr> rf_head_snapshot_id := Some (co_snapshot_id r) \<rparr>) fs2 = (Inr (), cs_files st')"
      using d1 b1 by (simp_all add: r)
    show "build_tree_object M E True tree st1 = (Inr (tree_id_of M ?W d), st2)" using build w1(1) by (simp add: d_def)
  qed
qed

lemma snapshot_stored:
  assumes "stored M fs (snapshot_entry M W message d parent)" "store_codecs_ok M"
  shows "read_snapshot_object (store_at M fs) (entry_id M (snapshot_entry M W message d parent)) = Inr (snapshot_of M W message d parent)"
proof -
  let ?s = "snapshot_of M W message d parent"
  have "read_stored_object (store_at M fs) (ms_snapshot M) (oid M ''snapshot'' (to_vec (ms_snapshot M) ?s)) ''snapshot'' = Inr ?s"
    by (rule read_stored) (use assms in \<open>simp_all add: snapshot_entry_def store_codecs_ok_def\<close>)
  then show ?thesis
    by (simp add: read_snapshot_object_def snapshot_entry_def entry_id_def validate_manifest_schema_version_def snapshot_of_def)
qed

text \<open>C25: What was committed is what is read. After a commit the current branch points to the new
  snapshot, and every file that the commit read, at whatever path of the working tree, opens in
  that snapshot under its normalised path and gives its bytes back on every range. The objects
  written must not collide in the keyed hash, and no directory may have \<open>2 ^ 32\<close> entries.\<close>

theorem committed_file_readable:
  assumes "crypto_ok (ms_crypto M)" "store_codecs_ok M" "ref_codecs_ok K" "chunker_ok (cw_fastcdc (ce_writer E))"
    and "serde_ok (cw_chunk (ce_writer E))" "reader_of M (cw_chunk (ce_writer E)) R" "nfc_ok (ce_nfc E)"
    and "draws_ok st" "bt_ok (cs_files st)" "validate_layout_root K (cs_files st) = Inr root"
    and "default_head_snapshot_id M K (cs_files st) = Inr parent" "narrow (staged_tree E True tree)"
    and "storable M (cs_files st) (set (commit_objects M (ce_writer E) message (staged_tree E True tree) parent))"
    and "commit M K E message tree st = (Inr r, st')" "disk_file True tree ns = Some (bytes, mtime)"
    and "length bytes < 2 ^ 64" "unat off \<le> length bytes"
  shows "default_head_snapshot_id M K (cs_files st') = Inr (Some (co_snapshot_id r)) \<and>
    (\<exists>h f. open_snapshot M K (co_snapshot_id r) (cs_files st') = Inr h \<and>
       open_file (ce_nfc E) (store_at M (cs_files st')) h (join_with ''/'' (map (ce_nfc E) ns)) = Inr f \<and>
       read_range R f off len (cs_files st') = (Inr (take (unat len) (drop (unat off) bytes)), cs_files st'))"
proof -
  let ?W = "ce_writer E" and ?d = "staged_tree E True tree" and ?fs = "cs_files st" and ?fs' = "cs_files st'"
  obtain r0 fs1 fs2 tree_st tree_st' where
    r0: "read_default_ref M K ?fs = Inr r0"
    and sid: "co_snapshot_id r = entry_id M (snapshot_entry M ?W message ?d (rf_head_snapshot_id r0))"
    and puts: "puts M ?fs (commit_objects M ?W message ?d (rf_head_snapshot_id r0)) fs1"
    and d1: "write_default_ref M K (r0\<lparr> rf_head_snapshot_id := Some (co_snapshot_id r) \<rparr>) fs1 = (Inr (), fs2)"
    and b1: "write_branch_ref M K (r0\<lparr> rf_head_snapshot_id := Some (co_snapshot_id r) \<rparr>) fs2 = (Inr (), ?fs')"
    and build: "build_tree_object M E True tree tree_st = (Inr (tree_id_of M ?W ?d), tree_st')"
    by (rule commit_run [OF assms(14,8)])
  have parent: "rf_head_snapshot_id r0 = parent" using assms(11) r0 by (simp add: default_head_snapshot_id_def)
  note frame = puts_frame [OF puts assms(9)]
  note w1 = write_default_ref_run [OF assms(1,3) conjunct1 [OF frame] d1]
  note w2 = write_branch_ref_run [OF assms(1,3) w1(2) b1]
  have refs: "same_but ref_paths fs1 ?fs'"
    by (rule same_but_trans [OF w1(3) w2(3)]) auto
  have head: "read_default_ref M K ?fs' = Inr (r0\<lparr> rf_head_snapshot_id := Some (co_snapshot_id r) \<rparr>)"
    using w1(1) read_default_ref_cong [OF same_butD [OF w2(3)], of M K] by simp
  have "\<forall>e \<in> set (commit_objects M ?W message ?d parent). stored M fs1 e"
    using puts_stored [OF puts [unfolded parent] assms(1,9,13) order_refl] by (auto simp: entry_id_def)
  then have all: "\<forall>e \<in> set (commit_objects M ?W message ?d parent). stored M ?fs' e"
    using typed_same [OF refs order_refl] by simp
  have snap: "read_snapshot_object (store_at M ?fs') (co_snapshot_id r) = Inr (snapshot_of M ?W message ?d parent)"
    unfolding sid parent by (rule snapshot_stored [OF _ assms(2)]) (use all in \<open>simp add: commit_objects_def\<close>)
  have "map_of ?fs' layout_root_file = map_of ?fs layout_root_file"
    using same_butD [OF refs, of layout_root_file] same_butD [OF conjunct2 [OF frame], of layout_root_file]
    by (simp add: image_iff)
  from validate_layout_root_cong [OF this] assms(10) have layout: "validate_layout_root K ?fs' = Inr root" by simp
  have valid: "validate_object_id_value (co_snapshot_id r) = Inr ()"
    using derive_object_id_facts(1) [OF assms(1)] by (simp add: sid entry_id_def)
  let ?h = "\<lparr> sh_snapshot_id = co_snapshot_id r, sh_layout_generation = root_generation root, sh_root_tree_id = tree_id_of M ?W ?d \<rparr>"
  have h: "open_snapshot M K (co_snapshot_id r) ?fs' = Inr ?h"
    using valid layout snap by (simp add: open_snapshot_def snapshot_of_def)
  from staged_lookup [OF build assms(15)] have path: "get_entry (DirEntry ?d) (map (ce_nfc E) ns) = Some (FileEntry (Staged bytes mtime))"
    "plain_segments (map (ce_nfc E) ns)" by blast+
  have fixed: "\<forall>s \<in> set (map (ce_nfc E) ns). ce_nfc E s = s" using assms(7) by (auto simp: nfc_ok_def)
  have "\<forall>e \<in> set (tree_objects M ?W ?d). stored M ?fs' e" using all by (simp add: commit_objects_def)
  from open_file_stored [OF staged_tree_ok assms(12) this assms(2,4,5,6,7) path fixed assms(16,17), of ?h len]
  show ?thesis using h head by (auto simp: default_head_snapshot_id_def)
qed

section \<open>A commit in a new repository\<close>

definition sample_env :: commit_env where
  "sample_env = \<lparr> ce_nfc = (\<lambda>s. s), ce_to_lowercase = (\<lambda>s. s),
     ce_writer = \<lparr> cw_chunk = sample_chunk_codec, cw_fastcdc = (\<lambda>bytes. []) \<rparr> \<rparr>"

definition sample_disk :: disk_node where
  "sample_disk = Disk_Dir [(''f'', Disk_File (Inr ([1, 2, 3], 7))), (''.e2v'', Disk_Dir [])]"

definition sample_dir :: virtual_directory where
  "sample_dir = VirtualDirectory [(''f'', FileEntry (Staged [1, 2, 3] 7))]"

lemma sample_staged: "staged_tree sample_env True sample_disk = sample_dir"
proof -
  have "scan_dir (\<lambda>s. s) (\<lambda>s. s) True True [(''f'', False), (''.e2v'', True)] = Inr [\<lparr> wt_name = ''f'', wt_raw_name = ''f'', wt_is_dir = False \<rparr>]"
    by code_simp
  then show ?thesis
    by (simp add: sample_disk_def sample_env_def sample_dir_def staged_node_def source_of_def)
qed

text \<open>The store of the repository: short encodings of the directory and the snapshot.\<close>

definition sample_dir_entries :: "tree_entry list" where
  "sample_dir_entries = [\<lparr> te_name = ''f'', te_kind = ''file'', te_object_id = plain_id ''file'' [] \<rparr>]"

instance tree_entry_ext :: (countable) countable
  by (rule countable_classI [of "\<lambda>r. to_nat (te_name r, te_kind r, te_object_id r, tree_entry.more r)"]) auto

instance tree_object_ext :: (countable) countable
  by (rule countable_classI [of "\<lambda>r. to_nat (tr_schema_version r, tr_entries r, tree_object.more r)"]) auto

instance directory_root_object_ext :: (countable) countable
  by (rule countable_classI [of "\<lambda>r. to_nat (dr_schema_version r, dr_fanout r, dr_shards r, directory_root_object.more r)"]) auto

instance tree_shard_object_ext :: (countable) countable
  by (rule countable_classI [of "\<lambda>r. to_nat (ts_schema_version r, ts_range_start r, ts_range_end r, ts_entries r, tree_shard_object.more r)"]) auto

instance snapshot_object_ext :: (countable) countable
  by (rule countable_classI [of "\<lambda>r. to_nat (sn_schema_version r, sn_message r, sn_root_tree_id r, sn_parent_snapshot_id r, snapshot_object.more r)"]) auto

definition sample_repo_store :: manifest_store where
  "sample_repo_store = \<lparr> ms_crypto = plain_crypto, ms_secrets = sample_secrets, ms_files = [],
     ms_snapshot = short_codec \<lparr> sn_schema_version = repo_format_version, sn_message = ''m'',
       sn_root_tree_id = plain_id ''tree'' [], sn_parent_snapshot_id = None \<rparr>,
     ms_tree = short_codec \<lparr> tr_schema_version = repo_format_version, tr_entries = sample_dir_entries \<rparr>,
     ms_directory_root = unary_codec, ms_tree_shard = unary_codec,
     ms_file = short_codec (described_file sample_manifest sample_chunk_codec ''f'' 7 [1, 2, 3] [[1, 2, 3]]),
     ms_file_shard = unary_codec \<rparr>"

lemma sample_repo_store_plain [simp]: "plain_store sample_repo_store" "store_codecs_ok sample_repo_store"
  "ms_crypto sample_repo_store = plain_crypto" "ms_secrets sample_repo_store = sample_secrets"
  by (simp_all add: plain_store_def sample_repo_store_def store_codecs_ok_def)

lemma sample_repo_entries:
  "file_entries sample_repo_store sample_chunk_codec (\<lambda>bytes. []) ''f'' 7 [1, 2, 3] = [(''chunk'', []), (''file'', [])]"
  "writer_file_id sample_repo_store (ce_writer sample_env) ''f'' 7 [1, 2, 3] = plain_id ''file'' []"
proof -
  have pieces: "stored_pieces (\<lambda>bytes. []) [1, 2, 3 :: byte] = [[1, 2, 3]]"
    by (simp add: stored_pieces_def split_spans_def piece_at_def)
  have "described_file sample_repo_store sample_chunk_codec ''f'' 7 [1, 2, 3] [[1, 2, 3]] =
      described_file sample_manifest sample_chunk_codec ''f'' 7 [1, 2, 3] [[1, 2, 3]]"
    by (simp add: described_file_def chunk_id_def entry_id_def max_file_chunks_per_object_def) (simp add: sample_manifest_def)
  then have f: "to_vec (ms_file sample_repo_store) (described_file sample_repo_store sample_chunk_codec ''f'' 7 [1, 2, 3] [[1, 2, 3]]) = []"
    by (simp add: sample_repo_store_def)
  then show "file_entries sample_repo_store sample_chunk_codec (\<lambda>bytes. []) ''f'' 7 [1, 2, 3] = [(''chunk'', []), (''file'', [])]"
    by (simp add: file_entries_def pieces max_file_chunks_per_object_def chunk_entry_def) (simp add: sample_chunk_codec_def)
  from f show "writer_file_id sample_repo_store (ce_writer sample_env) ''f'' 7 [1, 2, 3] = plain_id ''file'' []"
    by (simp add: writer_file_id_def file_id_def sample_env_def pieces)
qed

lemma sample_commit_objects:
  "commit_objects sample_repo_store (ce_writer sample_env) ''m'' sample_dir None =
     [(''chunk'', []), (''file'', []), (''tree'', []), (''snapshot'', [])]"
proof -
  have entries: "map (stored_entry sample_repo_store (ce_writer sample_env)) [(''f'', FileEntry (Staged [1, 2, 3] 7))] = sample_dir_entries"
    by (simp add: sample_repo_entries(2) sample_dir_entries_def)
  have dir: "dir_objects sample_repo_store sample_dir_entries = [(''tree'', [])]"
    by (simp add: dir_objects_def max_tree_entries_per_object_def sample_dir_entries_def)
      (simp add: sample_repo_store_def sample_dir_entries_def)
  have id: "tree_id_of sample_repo_store (ce_writer sample_env) sample_dir = plain_id ''tree'' []"
    unfolding sample_dir_def tree_id_of.simps entries by (simp add: dir_id_def dir entry_id_def)
  have "tree_objects sample_repo_store (ce_writer sample_env) sample_dir = [(''chunk'', []), (''file'', []), (''tree'', [])]"
    unfolding sample_dir_def tree_objects.simps entries dir by (simp add: sample_env_def sample_repo_entries(1))
  then show ?thesis
    by (simp add: commit_objects_def snapshot_entry_def snapshot_of_def id) (simp add: sample_repo_store_def)
qed

lemma sample_repo_files:
  "bt_ok (sample_repo M)" "plain_store M \<Longrightarrow> read_default_ref M sample_refs (sample_repo M) = Inr main_ref"
  "plain_store M \<Longrightarrow> validate_layout_root sample_refs (sample_repo M) = Inr direct_default"
  "map_of (sample_repo M) (relative_object_path i) = None"
proof -
  have one: "bt_ok [(layout_root_file, [] :: byte list)]" by (simp add: bt_ok_def)
  then show "bt_ok (sample_repo M)" by (auto simp: sample_repo_def simp del: bt_insert.simps split: sum.splits)
  show "map_of (sample_repo M) (relative_object_path i) = None"
    using one by (auto simp: sample_repo_def map_of_bt_insert simp del: bt_insert.simps split: sum.splits)
  assume M: "plain_store M"
  then have crypto: "crypto_ok (ms_crypto M)" by (simp add: plain_store_def plain_crypto_ok)
  obtain bytes where b: "seal_ref M sample_refs default_ref_token main_ref = Inr bytes" using plain_seal [OF M] by blast
  then have run: "write_default_ref M sample_refs main_ref [(layout_root_file, [])] = (Inr (), sample_repo M)"
    by (simp add: write_default_ref_def write_file_def sample_repo_def)
  show "read_default_ref M sample_refs (sample_repo M) = Inr main_ref"
    by (rule write_default_ref_run(1) [OF crypto sample_refs_ok one run])
  have layout: "validate_layout_root_value direct_default = Inr ()" by code_simp
  have "map_of (sample_repo M) layout_root_file = Some []"
    using same_butD [OF write_default_ref_run(3) [OF crypto sample_refs_ok one run], of layout_root_file] by simp
  then show "validate_layout_root sample_refs (sample_repo M) = Inr direct_default"
    using layout by (simp add: validate_layout_root_def fs_read_def sample_refs_def)
qed

lemma sample_storable: "storable sample_repo_store (sample_repo sample_repo_store)
    (set [(''chunk'', []), (''file'', []), (''tree'', []), (''snapshot'', [])])"
  unfolding storable_def
  by (auto simp: get_typed_object_def file_get_def sample_repo_files plain_id_type rbind_Inr_iff with_context_Inr_iff
      ok_or_Inr_iff intro!: utf8_string_ascii) (auto simp: ascii_char_def)

definition sample_start :: commit_state where
  "sample_start = sample_commit\<lparr> cs_files := sample_repo sample_repo_store \<rparr>"

theorem committed_file_readable_witness:
  "\<exists>r st' h f R. commit sample_repo_store sample_refs sample_env ''m'' sample_disk sample_start = (Inr r, st') \<and>
     open_snapshot sample_repo_store sample_refs (co_snapshot_id r) (cs_files st') = Inr h \<and>
     open_file (\<lambda>s. s) (store_at sample_repo_store (cs_files st')) h ''f'' = Inr f \<and>
     read_range R f 1 5 (cs_files st') = (Inr [2, 3], cs_files st')"
proof -
  let ?M = sample_repo_store and ?E = sample_env
  have disk: "disk_file True sample_disk [''f''] = Some ([1, 2, 3], 7)" by (simp add: sample_disk_def is_control_def)
  have narrow: "narrow (staged_tree ?E True sample_disk)"
  proof -
    have "length (dir_entries d') < 2 ^ 32" if "get_entry (DirEntry sample_dir) p = Some (DirEntry d')" for p d'
      using that by (cases p; cases "tl p") (auto simp: sample_dir_def split: if_splits)
    then show ?thesis by (simp add: narrow_def sample_staged)
  qed
  have ref: "read_default_ref ?M sample_refs (cs_files sample_start) = Inr main_ref"
    by (simp add: sample_start_def sample_repo_files)
  have run: "\<exists>r st'. commit ?M sample_refs ?E ''m'' sample_disk sample_start = (Inr r, st')"
  proof -
    have scan: "scan_dir (ce_nfc ?E) (ce_to_lowercase ?E) True True [(''f'', False), (''.e2v'', True)] =
        Inr [\<lparr> wt_name = ''f'', wt_raw_name = ''f'', wt_is_dir = False \<rparr>]" by code_simp
    have tree: "runs False (build_tree_object ?M ?E True sample_disk)"
    proof -
      have "runs False (build_entries ?M ?E b (source_of kids) [\<lparr> wt_name = ''f'', wt_raw_name = ''f'', wt_is_dir = False \<rparr>] [])" for b kids
        by (simp only: build_entries.simps working_tree_entry.simps if_False)
          (intro runs_sbind runs_build_file sample_repo_store_plain runs_sret impI, simp)
      then have "runs False (sbind (build_entries ?M ?E b (source_of kids) [\<lparr> wt_name = ''f'', wt_raw_name = ''f'', wt_is_dir = False \<rparr>] [])
          (\<lambda>ts. write_directory ?M (sort_key te_name ts)))" for b kids
        by (intro runs_sbind runs_directory sample_repo_store_plain)
      then show ?thesis using scan by (simp add: sample_disk_def runs_def)
    qed
    have branch: "branch_ref_file (rf_ref_token_hex (main_ref\<lparr> rf_head_snapshot_id := h \<rparr>)) = Inr ''refs/branches/aa.json''" for h
      using main_ref_file by (simp add: main_ref_def)
    have reset: "runs False reset_counters" by (rule runs_quiet) (simp add: reset_counters_def)
    have rest: "runs False (sbind reset_counters (\<lambda>_. sbind (build_tree_object ?M ?E True sample_disk) (\<lambda>tree_id.
       sbind (write_object ?M (ms_snapshot ?M) ''snapshot'' (G tree_id)) (\<lambda>snapshot_id.
       let updated = main_ref\<lparr> rf_head_snapshot_id := Some snapshot_id \<rparr> in
       sbind (on_commit_files (write_default_ref ?M sample_refs updated)) (\<lambda>_.
       sbind (on_commit_files (write_branch_ref ?M sample_refs updated)) (\<lambda>_. sread (\<lambda>st. Inr (F snapshot_id st))))))))"
      for G and F :: "string \<Rightarrow> commit_state \<Rightarrow> commit_result"
      unfolding Let_def
      by (intro runs_sbind reset tree runs_write_object runs_default_ref runs_branch_ref [OF _ branch] sample_repo_store_plain)
        (rule runs_quiet, simp)
    have draws: "steady False sample_start" by (simp add: steady_def sample_start_def sample_commit_def)
    have "on_commit_files (sread (read_default_ref ?M sample_refs)) sample_start = (Inr main_ref, sample_start)"
      using ref by (simp add: on_commit_files_def)
    moreover have "\<not> blank ''m''" by code_simp
    ultimately show ?thesis
      using runsD [OF rest [of "\<lambda>t. \<lparr> sn_schema_version = repo_format_version, sn_message = ''m'', sn_root_tree_id = t,
          sn_parent_snapshot_id = rf_head_snapshot_id main_ref \<rparr>" "\<lambda>i st. \<lparr> co_snapshot_id = i,
          co_committed_files = cs_committed_files st, co_new_bytes = cs_new_bytes st, co_reused_bytes = cs_reused_bytes st,
          co_warnings = cs_warnings st \<rparr>"] draws]
      by (auto simp: commit_def sbind_Inr)
  qed
  then obtain r st' where st': "commit ?M sample_refs ?E ''m'' sample_disk sample_start = (Inr r, st')" by blast
  define R where "R = \<lparr> rr_store = ?M, rr_chunk = sample_chunk_codec, rr_codecs = undefined, rr_digest = undefined \<rparr>"
  have R: "reader_of ?M (cw_chunk (ce_writer ?E)) R" by (simp add: reader_of_def R_def sample_env_def)
  have ok: "crypto_ok (ms_crypto ?M)" "chunker_ok (cw_fastcdc (ce_writer ?E))" "serde_ok (cw_chunk (ce_writer ?E))" "nfc_ok (ce_nfc ?E)"
    "draws_ok sample_start" "bt_ok (cs_files sample_start)" "default_head_snapshot_id ?M sample_refs (cs_files sample_start) = Inr None"
    "validate_layout_root sample_refs (cs_files sample_start) = Inr direct_default"
    using ref by (simp_all add: plain_crypto_ok chunker_ok_def sample_chunk_codec_def sample_env_def nfc_ok_def draws_ok_def sample_draw_ok
        sample_start_def sample_commit_def sample_repo_files default_head_snapshot_id_def main_ref_def)
  have storable: "storable ?M (cs_files sample_start) (set (commit_objects ?M (ce_writer ?E) ''m'' (staged_tree ?E True sample_disk) None))"
    using sample_storable unfolding sample_staged sample_commit_objects by (simp add: sample_start_def)
  have short: "length [1, 2, 3 :: byte] < 2 ^ 64" "unat (1 :: u64) \<le> length [1, 2, 3 :: byte]" by simp_all
  note c37 = committed_file_readable [OF ok(1) sample_repo_store_plain(2) sample_refs_ok ok(2,3) R ok(4,5,6,8,7) narrow storable st' disk short, of 5]
  have "take (unat (5 :: u64)) (drop (unat (1 :: u64)) [1, 2, 3 :: byte]) = [2, 3]" by simp
  moreover have "join_with ''/'' (map (ce_nfc ?E) [''f'']) = ''f''" "ce_nfc ?E = (\<lambda>s. s)" by (simp_all add: sample_env_def)
  ultimately show ?thesis using c37 st' by metis
qed

end
