(* ===== verification/Writeback_Claims.thy ===== *)
theory Writeback_Claims
  imports Commit_Claims
begin

text \<open>
  What a writeback leaves: the branch at a snapshot that loads as the tree with the overlay
  applied.
\<close>

lemma resolve_for_writeback:
  assumes "resolve_branch_ref_for_writeback M K r0 token fs = Inr (r, b)"
  shows "rf_ref_token_hex r = token" "b \<longleftrightarrow> rf_ref_token_hex r0 = token" "b \<Longrightarrow> r = r0"
    "\<not> b \<Longrightarrow> read_branch_ref_if_exists M K token fs = Inr (Some r)"
  using assms
  by (auto simp: resolve_branch_ref_for_writeback_def rbind_Inr_iff ok_or_Inr_iff read_branch_ref_if_exists_def
      split: if_splits option.splits)

lemma writeback_run:
  assumes "write_branch_overlay nfc clk fuel M K W opts st = Some (Inr (Committed i previous rebased), st')" "draws_ok st"
    and base: "load_virtual_directory_from_snapshot fuel (store_at M (cs_files st)) previous = Some (Inr base)"
    and d: "apply_overlay_changes nfc clk (bo_changes opts) base = (Inr u, d)"
  obtains r0 r b fs1 fs2 where
    "read_default_ref M K (cs_files st) = Inr r0"
    "resolve_branch_ref_for_writeback M K r0 (bo_ref_token_hex opts) (cs_files st) = Inr (r, b)" "previous = rf_head_snapshot_id r"
    "i = entry_id M (snapshot_entry M W (bo_message opts) d previous)"
    "puts M (cs_files st) (commit_objects M W (bo_message opts) d previous) fs1"
    "write_branch_ref M K (r\<lparr> rf_head_snapshot_id := Some i \<rparr>) fs1 = (Inr (), fs2)"
    "(if b then write_default_ref M K (r\<lparr> rf_head_snapshot_id := Some i \<rparr>) else sret ()) fs2 = (Inr (), cs_files st')"
proof -
  let ?fs = "cs_files st"
  let ?checked = "ensure (\<not> blank (bo_message opts)) (Bail ''writeback message must not be empty'')
             (rbind (validate_ref_token_value (bo_ref_token_hex opts)) (\<lambda>_.
              rbind (case bo_expected_head_snapshot_id opts of
                       None \<Rightarrow> Inr ()
                     | Some i \<Rightarrow> with_context ''invalid expected head snapshot id'' (validate_object_id_value i)) (\<lambda>_.
              rbind (read_default_ref M K ?fs) (\<lambda>current_default_ref.
              resolve_branch_ref_for_writeback M K current_default_ref (bo_ref_token_hex opts) ?fs))))"
  obtain r b where checked: "?checked = Inr (r, b)"
    using assms(1) by (cases ?checked) (auto simp: write_branch_overlay_def Let_def)
  then obtain r0 where r0: "read_default_ref M K ?fs = Inr r0"
    "resolve_branch_ref_for_writeback M K r0 (bo_ref_token_hex opts) ?fs = Inr (r, b)"
    by (auto simp: rbind_Inr_iff split: if_splits)
  let ?run = "sbind (write_virtual_directory_object M W d) (\<lambda>root_tree_id.
      sbind (write_object M (ms_snapshot M) ''snapshot''
        \<lparr> sn_schema_version = repo_format_version, sn_message = bo_message opts,
          sn_root_tree_id = root_tree_id, sn_parent_snapshot_id = rf_head_snapshot_id r \<rparr>) (\<lambda>snapshot_id.
      let updated = r\<lparr> rf_head_snapshot_id := Some snapshot_id \<rparr> in
      sbind (on_commit_files (write_branch_ref M K updated)) (\<lambda>_.
      sbind (if b then on_commit_files (write_default_ref M K updated) else sret ()) (\<lambda>_.
      sret (Committed snapshot_id (rf_head_snapshot_id r)
        (rf_head_snapshot_id r \<noteq> bo_expected_head_snapshot_id opts)))))) st"
  have outcome: "previous = rf_head_snapshot_id r \<and> ?run = (Inr (Committed i previous rebased), st')"
  proof -
    have prev: "previous = rf_head_snapshot_id r"
      using assms(1) unfolding write_branch_overlay_def Let_def checked
      by (auto simp: sbind_Inr_iff split: if_splits sum.splits list.splits option.splits prod.splits)
    with base have "load_virtual_directory_from_snapshot fuel (store_at M ?fs) (rf_head_snapshot_id r) = Some (Inr base)" by simp
    with assms(1) d prev show ?thesis unfolding write_branch_overlay_def Let_def checked
      by (auto split: if_splits sum.splits list.splits)
  qed
  then obtain root st1 j st2 st3 where
    tree: "write_virtual_directory_object M W d st = (Inr root, st1)"
    and snap: "write_object M (ms_snapshot M) ''snapshot'' \<lparr> sn_schema_version = repo_format_version, sn_message = bo_message opts,
        sn_root_tree_id = root, sn_parent_snapshot_id = rf_head_snapshot_id r \<rparr> st1 = (Inr j, st2)"
    and b1: "on_commit_files (write_branch_ref M K (r\<lparr> rf_head_snapshot_id := Some j \<rparr>)) st2 = (Inr (), st3)"
    and d1: "(if b then on_commit_files (write_default_ref M K (r\<lparr> rf_head_snapshot_id := Some j \<rparr>)) else sret ()) st3 = (Inr (), st')"
    and i: "i = j"
    by (fastforce simp: sbind_Inr_iff Let_def)
  have d1': "(if b then write_default_ref M K (r\<lparr> rf_head_snapshot_id := Some j \<rparr>) else sret ()) (cs_files st3) = (Inr (), cs_files st')"
    using d1 by (auto simp: on_commit_files_iff split: if_splits)
  have b1': "write_branch_ref M K (r\<lparr> rf_head_snapshot_id := Some j \<rparr>) (cs_files st2) = (Inr (), cs_files st3)"
    using b1 by (auto simp: on_commit_files_iff)
  note w1 = writesD [OF writes_virtual assms(2) tree]
  note w2 = writesD [OF writes_object w1(3) snap]
  show ?thesis
  proof (rule that [OF r0])
    show "previous = rf_head_snapshot_id r" using outcome by simp
    show "i = entry_id M (snapshot_entry M W (bo_message opts) d previous)"
      using i w1(1) w2(1) outcome by (simp add: snapshot_entry_def snapshot_of_def entry_id_def)
    show "puts M ?fs (commit_objects M W (bo_message opts) d previous) (cs_files st2)"
      using puts_append [OF w1(2) w2(2)] w1(1) outcome by (simp add: commit_objects_def snapshot_entry_def snapshot_of_def)
    show "write_branch_ref M K (r\<lparr> rf_head_snapshot_id := Some i \<rparr>) (cs_files st2) = (Inr (), cs_files st3)"
      "(if b then write_default_ref M K (r\<lparr> rf_head_snapshot_id := Some i \<rparr>) else sret ()) (cs_files st3) = (Inr (), cs_files st')"
      unfolding i by (rule b1', rule d1')
  qed
qed

text \<open>C26: A writeback commits the tree with the overlay applied. When it reports a commit, the branch
  points to the reported snapshot, whose parent is the head the branch had before and whose message
  is the one given; the snapshot loads as the virtual tree in which the changes have been applied
  to that former head, with every staged file turned into a stored one; the default ref is the same
  record if it is that branch and is left alone otherwise.\<close>

theorem writeback_commits_overlay:
  assumes "crypto_ok (ms_crypto M)" "store_codecs_ok M" "ref_codecs_ok K" "draws_ok st" "bt_ok (cs_files st)"
    and "write_branch_overlay nfc clk fuel M K W opts st = Some (Inr (Committed i previous rebased), st')"
    and "load_virtual_directory_from_snapshot fuel (store_at M (cs_files st)) previous = Some (Inr base)"
    and "apply_overlay_changes nfc clk (bo_changes opts) base = (Inr u, d)" "narrow d"
    and "storable M (cs_files st) (set (commit_objects M W (bo_message opts) d previous))"
  shows "\<exists>r s k. branch_or_default M K (bo_ref_token_hex opts) (cs_files st') = Inr r \<and> rf_head_snapshot_id r = Some i \<and>
    get_snapshot (store_at M (cs_files st')) i = Inr s \<and> sn_parent_snapshot_id s = previous \<and> sn_message s = bo_message opts \<and>
    load_virtual_directory_from_snapshot k (store_at M (cs_files st')) (Some i) = Some (Inr (settled M W d)) \<and>
    (\<forall>r0. read_default_ref M K (cs_files st) = Inr r0 \<longrightarrow>
       read_default_ref M K (cs_files st') = Inr (if rf_ref_token_hex r0 = bo_ref_token_hex opts then r else r0))"
proof -
  let ?fs = "cs_files st" and ?fs' = "cs_files st'"
  obtain r0 r b fs1 fs2 where
    r0: "read_default_ref M K ?fs = Inr r0"
    and r: "resolve_branch_ref_for_writeback M K r0 (bo_ref_token_hex opts) ?fs = Inr (r, b)"
    and i: "i = entry_id M (snapshot_entry M W (bo_message opts) d previous)"
    and puts: "puts M ?fs (commit_objects M W (bo_message opts) d previous) fs1"
    and b1: "write_branch_ref M K (r\<lparr> rf_head_snapshot_id := Some i \<rparr>) fs1 = (Inr (), fs2)"
    and d1: "(if b then write_default_ref M K (r\<lparr> rf_head_snapshot_id := Some i \<rparr>) else sret ()) fs2 = (Inr (), ?fs')"
    by (rule writeback_run [OF assms(6,4,7,8)])
  let ?r = "r\<lparr> rf_head_snapshot_id := Some i \<rparr>"
  note res = resolve_for_writeback [OF r]
  note frame = puts_frame [OF puts assms(5)]
  note w1 = write_branch_ref_run [OF assms(1,3) conjunct1 [OF frame] b1]
  have w2: "same_but {default_ref_file} fs2 ?fs' \<and> (b \<longrightarrow> read_default_ref M K ?fs' = Inr ?r) \<and> (\<not> b \<longrightarrow> ?fs' = fs2)"
    using d1 write_default_ref_run [OF assms(1,3) w1(2), of ?r "()" ?fs'] by (cases b) auto
  have refs: "same_but ref_paths fs1 ?fs'"
    by (rule same_but_trans [OF w1(3) conjunct1 [OF w2]]) auto
  have branch: "branch_or_default M K (bo_ref_token_hex opts) ?fs' = Inr ?r"
    using w1(1) read_branch_ref_cong [OF same_butD [OF conjunct1 [OF w2]], of "bo_ref_token_hex opts" M K] res(1)
    by (simp add: branch_or_default_def)
  have default_ref: "read_default_ref M K ?fs' = Inr (if rf_ref_token_hex r0 = bo_ref_token_hex opts then ?r else r0)"
  proof (cases b)
    case True
    with w2 res(2,3) res(1) show ?thesis by simp
  next
    case False
    have "map_of ?fs' default_ref_file = map_of ?fs default_ref_file"
      using w2 False same_butD [OF w1(3), of default_ref_file] same_butD [OF conjunct2 [OF frame], of default_ref_file]
      by (simp add: image_iff)
    from read_default_ref_cong [OF this, of M K] r0 False res(2) res(1) show ?thesis by simp
  qed
  have "\<forall>e \<in> set (commit_objects M W (bo_message opts) d previous). stored M fs1 e"
    using puts_stored [OF puts assms(1,5,10) order_refl] by (auto simp: entry_id_def)
  then have all: "\<forall>e \<in> set (commit_objects M W (bo_message opts) d previous). stored M ?fs' e"
    using typed_same [OF refs order_refl] by simp
  have snap: "get_snapshot (store_at M ?fs') i = Inr (snapshot_of M W (bo_message opts) d previous)"
    unfolding i get_snapshot_def by (rule snapshot_stored [OF _ assms(2)]) (use all in \<open>simp add: commit_objects_def\<close>)
  have tree: "tree_ok (DirEntry d)"
    using refines_changes [OF load_snapshot_ok [OF assms(7)], of nfc clk "bo_changes opts"] assms(8) by (simp add: refines_def del: tree_ok_simps)
  obtain k where "load_virtual_directory k (store_at M ?fs') (tree_id_of M W d) = Some (Inr (settled M W d))"
    using load_stored [OF assms(2) tree assms(9), of W ?fs'] all by (auto simp: commit_objects_def)
  then have "load_virtual_directory_from_snapshot k (store_at M ?fs') (Some i) = Some (Inr (settled M W d))"
    using snap by (simp add: load_virtual_directory_from_snapshot_def snapshot_of_def)
  with branch snap default_ref r0 show ?thesis
    by (intro exI [of _ ?r] exI [of _ "snapshot_of M W (bo_message opts) d previous"] exI [of _ k]) (simp add: snapshot_of_def)
qed

definition sample_options :: branch_writeback_options where
  "sample_options = \<lparr> bo_ref_token_hex = ''aa'', bo_expected_head_snapshot_id = None, bo_message = ''m'',
     bo_changes = [UpsertFile ''f'' [1, 2, 3]] \<rparr>"

theorem writeback_commits_overlay_witness:
  "\<exists>i st' r s k. write_branch_overlay (\<lambda>s. s) (\<lambda>n. 7) 1 sample_repo_store sample_refs (ce_writer sample_env) sample_options sample_start =
       Some (Inr (Committed i None False), st') \<and>
     branch_or_default sample_repo_store sample_refs ''aa'' (cs_files st') = Inr r \<and> rf_head_snapshot_id r = Some i \<and>
     get_snapshot (store_at sample_repo_store (cs_files st')) i = Inr s \<and> sn_message s = ''m'' \<and>
     load_virtual_directory_from_snapshot k (store_at sample_repo_store (cs_files st')) (Some i) =
       Some (Inr (VirtualDirectory [(''f'', FileEntry (Existing (plain_id ''file'' [])))]))"
proof -
  let ?M = sample_repo_store and ?W = "ce_writer sample_env"
  have ref: "read_default_ref ?M sample_refs (cs_files sample_start) = Inr main_ref"
    by (simp add: sample_start_def sample_repo_files)
  have change: "apply_overlay_changes (\<lambda>s. s) (\<lambda>n. 7) (bo_changes sample_options) empty_directory = (Inr (), sample_dir)"
    by code_simp
  have base: "load_virtual_directory_from_snapshot 1 (store_at ?M (cs_files sample_start)) None = Some (Inr empty_directory)"
    by (simp add: load_virtual_directory_from_snapshot_def)
  have narrow: "narrow sample_dir"
  proof -
    have "length (dir_entries d') < 2 ^ 32" if "get_entry (DirEntry sample_dir) p = Some (DirEntry d')" for p d'
      using that by (cases p; cases "tl p") (auto simp: sample_dir_def split: if_splits)
    then show ?thesis by (simp add: narrow_def)
  qed
  have run: "\<exists>i st'. write_branch_overlay (\<lambda>s. s) (\<lambda>n. 7) 1 ?M sample_refs ?W sample_options sample_start =
      Some (Inr (Committed i None False), st')"
  proof -
    have token: "validate_ref_token_value ''aa'' = Inr ()" "\<not> blank ''m''" by code_simp+
    have branch: "branch_ref_file (rf_ref_token_hex (main_ref\<lparr> rf_head_snapshot_id := h \<rparr>)) = Inr ''refs/branches/aa.json''" for h
      using main_ref_file by (simp add: main_ref_def)
    let ?d = "write_virtual_directory_object ?M ?W sample_dir"
    have tree: "runs False ?d"
      unfolding sample_dir_def write_virtual_directory_object.simps write_virtual_entries.simps virtual_entry.case virtual_file_entry.case
      by (intro runs_sbind runs_virtual_file runs_directory runs_sret sample_repo_store_plain) simp
    have rest: "runs False (sbind ?d (\<lambda>root_tree_id.
       sbind (write_object ?M (ms_snapshot ?M) ''snapshot'' (G root_tree_id)) (\<lambda>snapshot_id.
       let updated = main_ref\<lparr> rf_head_snapshot_id := Some snapshot_id \<rparr> in
       sbind (on_commit_files (write_branch_ref ?M sample_refs updated)) (\<lambda>_.
       sbind (on_commit_files (write_default_ref ?M sample_refs updated)) (\<lambda>_. sret (Committed snapshot_id None False))))))" for G
      unfolding Let_def
      by (intro runs_sbind tree runs_write_object runs_default_ref runs_branch_ref [OF _ branch] runs_sret sample_repo_store_plain)
    have draws: "steady False sample_start" by (simp add: steady_def sample_start_def sample_commit_def)
    have ref_token: "rf_ref_token_hex main_ref = ''aa''" "rf_head_snapshot_id main_ref = None" by (simp_all add: main_ref_def)
    have opts: "bo_message sample_options = ''m''" "bo_ref_token_hex sample_options = ''aa''"
      "bo_expected_head_snapshot_id sample_options = None" "bo_changes sample_options \<noteq> []"
      by (simp_all add: sample_options_def)
    from runsD [OF rest draws, of "\<lambda>t. \<lparr> sn_schema_version = repo_format_version, sn_message = ''m'', sn_root_tree_id = t,
          sn_parent_snapshot_id = None \<rparr>"]
    obtain x st' where x: "sbind ?d (\<lambda>root_tree_id.
       sbind (write_object ?M (ms_snapshot ?M) ''snapshot'' \<lparr> sn_schema_version = repo_format_version, sn_message = ''m'',
          sn_root_tree_id = root_tree_id, sn_parent_snapshot_id = None \<rparr>) (\<lambda>snapshot_id.
       let updated = main_ref\<lparr> rf_head_snapshot_id := Some snapshot_id \<rparr> in
       sbind (on_commit_files (write_branch_ref ?M sample_refs updated)) (\<lambda>_.
       sbind (on_commit_files (write_default_ref ?M sample_refs updated)) (\<lambda>_. sret (Committed snapshot_id None False)))))
       sample_start = (Inr x, st')" by blast
    then have "\<exists>i. x = Committed i None False" by (auto simp: sbind_Inr_iff Let_def)
    with x show ?thesis
      using token opts ref ref_token base change
      by (auto simp: write_branch_overlay_def resolve_branch_ref_for_writeback_def)
  qed
  then obtain i st' where st': "write_branch_overlay (\<lambda>s. s) (\<lambda>n. 7) 1 ?M sample_refs ?W sample_options sample_start =
      Some (Inr (Committed i None False), st')" by blast
  have ok: "crypto_ok (ms_crypto ?M)" "draws_ok sample_start" "bt_ok (cs_files sample_start)"
    by (simp_all add: plain_crypto_ok draws_ok_def sample_draw_ok sample_start_def sample_commit_def sample_repo_files)
  have storable: "storable ?M (cs_files sample_start) (set (commit_objects ?M ?W (bo_message sample_options) sample_dir None))"
    using sample_storable unfolding sample_options_def branch_writeback_options.simps sample_commit_objects by (simp add: sample_start_def)
  have "settled ?M ?W sample_dir = VirtualDirectory [(''f'', FileEntry (Existing (plain_id ''file'' [])))]"
    by (simp add: sample_dir_def sample_repo_entries(2))
  with writeback_commits_overlay [OF ok(1) sample_repo_store_plain(2) sample_refs_ok ok(2,3) st' base change narrow storable] st'
  show ?thesis by (fastforce simp: sample_options_def)
qed

end
