(* ===== verification/Branch_Claims.thy ===== *)
theory Branch_Claims
  imports Writeback_Claims
begin

text \<open>
  The history of branches: every operation that changes a ref, as a step on the files of the
  repository, and what no sequence of them does.
\<close>

section \<open>Histories\<close>

inductive descends :: "manifest_store \<Rightarrow> files \<Rightarrow> string \<Rightarrow> string \<Rightarrow> bool" for M fs where
  descends_refl: "descends M fs s s"
| descends_parent: "get_snapshot (store_at M fs) s = Inr sn \<Longrightarrow> sn_parent_snapshot_id sn = Some p \<Longrightarrow>
    descends M fs p old \<Longrightarrow> descends M fs s old"

lemma descends_trans: "descends M fs a b \<Longrightarrow> descends M fs b c \<Longrightarrow> descends M fs a c"
  by (induction rule: descends.induct) (auto intro: descends.intros)

lemma get_snapshot_keeps:
  assumes "keeps M fs fs'" "get_snapshot (store_at M fs) i = Inr s"
  shows "get_snapshot (store_at M fs') i = Inr s"
proof -
  obtain l where l: "typed M i fs = Inr l"
    using assms(2) by (auto simp: get_snapshot_def read_snapshot_object_def read_stored_object_def get_object_def rbind_Inr_iff)
  with assms(1) have "typed M i fs' = typed M i fs" by (simp add: keeps_def)
  with assms(2) show ?thesis
    by (simp add: get_snapshot_def read_snapshot_object_def read_stored_object_def get_object_def)
qed

lemma descends_keeps: "descends M fs a b \<Longrightarrow> keeps M fs fs' \<Longrightarrow> descends M fs' a b"
  by (induction rule: descends.induct) (auto intro: descends.intros get_snapshot_keeps)

lemma search_parents_descends:
  "search_parents fuel M old (Some s) = Some (Inr True) \<Longrightarrow> M = store_at N fs \<Longrightarrow> descends N fs s old"
proof (induction fuel arbitrary: s)
  case (Suc fuel)
  show ?case
  proof (cases "s = old")
    case True
    then show ?thesis by (simp add: descends_refl)
  next
    case False
    with Suc.prems obtain sn where sn: "get_snapshot (store_at N fs) s = Inr sn"
      "search_parents fuel M old (sn_parent_snapshot_id sn) = Some (Inr True)" by (auto split: sum.splits)
    then obtain p where p: "sn_parent_snapshot_id sn = Some p" by (cases "sn_parent_snapshot_id sn") auto
    from descends_parent [OF sn(1) p] Suc.IH [of p] Suc.prems(2) sn(2) p show ?thesis by simp
  qed
qed simp

lemma fast_forward_descends:
  assumes "branch_fast_forward_allowed fuel (store_at M fs) (Some h) next_head = Some (Inr True)"
  shows "\<exists>n. next_head = Some n \<and> descends M fs n h"
  using assms search_parents_descends [OF _ refl]
  by (auto simp: branch_fast_forward_allowed_def descends_refl split: option.splits if_splits)

section \<open>Steps\<close>

text \<open>
  A completed operation on the refs; deletions of the branch with token \<open>t\<close> are left out. Of a
  commit and a writeback the objects must not collide with each other or with what is stored.
\<close>

inductive branch_step :: "manifest_store \<Rightarrow> ref_codecs \<Rightarrow> string \<Rightarrow> files \<Rightarrow> files \<Rightarrow> bool" for M K t where
  step_create: "create_branch M K name fs = (x, fs') \<Longrightarrow> branch_step M K t fs fs'"
| step_delete: "delete_branch M K name fs = (x, fs') \<Longrightarrow> branch_token M name \<noteq> t \<Longrightarrow> branch_step M K t fs fs'"
| step_checkout: "checkout_branch M K name fs = (x, fs') \<Longrightarrow> branch_step M K t fs fs'"
| step_restore: "restore_default_ref_from_branch M K token fs = (x, fs') \<Longrightarrow> branch_step M K t fs fs'"
| step_fast_forward: "update_branch_head_if_fast_forward fuel M K token next_head fs = Some (Inr x, fs') \<Longrightarrow> branch_step M K t fs fs'"
| step_commit: "commit M K E message tree st = (Inr r, st') \<Longrightarrow> draws_ok st \<Longrightarrow>
    default_head_snapshot_id M K (cs_files st) = Inr parent \<Longrightarrow>
    storable M (cs_files st) (set (commit_objects M (ce_writer E) message (staged_tree E True tree) parent)) \<Longrightarrow>
    branch_step M K t (cs_files st) (cs_files st')"
| step_writeback: "write_branch_overlay nfc clk fuel M K W opts st = Some (Inr (Committed i previous rebased), st') \<Longrightarrow> draws_ok st \<Longrightarrow>
    load_virtual_directory_from_snapshot fuel (store_at M (cs_files st)) previous = Some (Inr base) \<Longrightarrow>
    apply_overlay_changes nfc clk (bo_changes opts) base = (Inr u, d) \<Longrightarrow>
    storable M (cs_files st) (set (commit_objects M W (bo_message opts) d previous)) \<Longrightarrow>
    branch_step M K t (cs_files st) (cs_files st')"

text \<open>The default ref is the record of the branch it names.\<close>

definition refs_agree :: "manifest_store \<Rightarrow> ref_codecs \<Rightarrow> files \<Rightarrow> bool" where
  "refs_agree M K fs \<longleftrightarrow> (\<exists>r0. read_default_ref M K fs = Inr r0 \<and>
     read_branch_ref_if_exists M K (rf_ref_token_hex r0) fs = Inr (Some r0))"

definition branch_head :: "manifest_store \<Rightarrow> ref_codecs \<Rightarrow> string \<Rightarrow> files \<Rightarrow> string option" where
  "branch_head M K t fs = (case read_branch_ref_if_exists M K t fs of Inr (Some r) \<Rightarrow> rf_head_snapshot_id r | _ \<Rightarrow> None)"

text \<open>What a step keeps, from which everything follows.\<close>

definition advances :: "manifest_store \<Rightarrow> ref_codecs \<Rightarrow> string \<Rightarrow> files \<Rightarrow> files \<Rightarrow> bool" where
  "advances M K t fs fs' \<longleftrightarrow> bt_ok fs' \<and> refs_agree M K fs' \<and> keeps M fs fs' \<and>
     (\<forall>h. branch_head M K t fs = Some h \<longrightarrow> (\<exists>h'. branch_head M K t fs' = Some h' \<and> descends M fs' h' h))"

lemma advances_refl: "bt_ok fs \<Longrightarrow> refs_agree M K fs \<Longrightarrow> advances M K t fs fs"
  by (auto simp: advances_def intro: descends_refl)

lemma advances_trans: "advances M K t fs fs1 \<Longrightarrow> advances M K t fs1 fs' \<Longrightarrow> advances M K t fs fs'"
  unfolding advances_def by (meson descends_keeps descends_trans keeps_trans)

lemma keeps_same: "same_but P fs fs' \<Longrightarrow> P \<subseteq> ref_paths \<Longrightarrow> keeps M fs fs'"
  by (simp add: keeps_def typed_same)

lemma branch_head_cong:
  "map_of fs (branch_file_name t) = map_of fs' (branch_file_name t) \<Longrightarrow> branch_head M K t fs = branch_head M K t fs'"
  using read_branch_ref_cong [of fs t fs' M K] by (simp add: branch_head_def)

lemma read_branch_token: "read_branch_ref_if_exists M K t fs = Inr (Some r) \<Longrightarrow> rf_ref_token_hex r = t"
  by (auto simp: read_branch_ref_if_exists_def rbind_Inr_iff split: option.splits if_splits)

text \<open>Writing a record of a branch as the default ref.\<close>

lemma advances_default:
  assumes "crypto_ok (ms_crypto M)" "ref_codecs_ok K" "bt_ok fs" "write_default_ref M K v fs = (Inr u, fs')"
    and "read_branch_ref_if_exists M K (rf_ref_token_hex v) fs = Inr (Some v)"
  shows "advances M K t fs fs'"
proof -
  note w = write_default_ref_run [OF assms(1-4)]
  have same: "map_of fs (branch_file_name s) = map_of fs' (branch_file_name s)" for s using same_butD [OF w(3)] by simp
  have "refs_agree M K fs'" using w(1) assms(5) read_branch_ref_cong [OF same] by (simp add: refs_agree_def)
  moreover have "keeps M fs fs'" by (rule keeps_same [OF w(3)]) simp
  ultimately show ?thesis using w(2) branch_head_cong [OF same] by (auto simp: advances_def intro: descends_refl)
qed

text \<open>Writing a record with a later head to a branch and, if it is the current one, to the default ref.\<close>

lemma advances_head:
  assumes ok: "crypto_ok (ms_crypto M)" "ref_codecs_ok K" "bt_ok fs" "refs_agree M K fs"
    and r0: "read_default_ref M K fs = Inr r0"
    and fs': "bt_ok fs'" "keeps M fs fs'"
      "read_branch_ref_if_exists M K (rf_ref_token_hex v) fs' = Inr (Some v)"
      "\<And>s. s \<noteq> rf_ref_token_hex v \<Longrightarrow> map_of fs' (branch_file_name s) = map_of fs (branch_file_name s)"
      "read_default_ref M K fs' = Inr (if rf_ref_token_hex r0 = rf_ref_token_hex v then v else r0)"
    and head: "\<And>h. branch_head M K (rf_ref_token_hex v) fs = Some h \<Longrightarrow> \<exists>h'. rf_head_snapshot_id v = Some h' \<and> descends M fs' h' h"
  shows "advances M K t fs fs'"
proof -
  have "refs_agree M K fs'"
  proof (cases "rf_ref_token_hex r0 = rf_ref_token_hex v")
    case True
    with fs'(3,5) show ?thesis by (simp add: refs_agree_def)
  next
    case False
    from ok(4) r0 have "read_branch_ref_if_exists M K (rf_ref_token_hex r0) fs = Inr (Some r0)" by (auto simp: refs_agree_def)
    with read_branch_ref_cong [OF fs'(4) [OF False], of M K] fs'(5) False show ?thesis by (simp add: refs_agree_def)
  qed
  moreover have "\<exists>h'. branch_head M K t fs' = Some h' \<and> descends M fs' h' h" if "branch_head M K t fs = Some h" for h
  proof (cases "t = rf_ref_token_hex v")
    case True
    with head that fs'(3) show ?thesis by (auto simp: branch_head_def)
  next
    case False
    with branch_head_cong [OF fs'(4) [OF False], of M K] that show ?thesis by (auto intro: descends_refl)
  qed
  ultimately show ?thesis using fs'(1,2) by (simp add: advances_def)
qed

section \<open>Each operation\<close>

lemma same_refl: "same_but {} fs fs"
  by simp

lemma create_advances:
  assumes ok: "crypto_ok (ms_crypto M)" "ref_codecs_ok K" "bt_ok fs" "refs_agree M K fs"
    and run: "create_branch M K name fs = (x, fs')"
  shows "advances M K t fs fs'"
proof (cases "fs' = fs")
  case True
  with ok show ?thesis by (simp add: advances_refl)
next
  case False
  let ?token = "branch_token M name"
  obtain r0 where r0: "read_default_ref M K fs = Inr r0" "read_branch_ref_if_exists M K (rf_ref_token_hex r0) fs = Inr (Some r0)"
    using ok(4) by (auto simp: refs_agree_def)
  let ?v = "\<lparr> rf_branch_name = name, rf_ref_token_hex = ?token, rf_head_snapshot_id = rf_head_snapshot_id r0 \<rparr>"
  have new: "rf_ref_token_hex r0 \<noteq> ?token \<and> read_branch_ref_if_exists M K ?token fs = Inr None \<and> snd (write_branch_ref M K ?v fs) = fs'"
    using run False r0(1) by (auto simp: create_branch_def Let_def sbind_def split: if_splits sum.splits prod.splits)
  moreover obtain y where "write_branch_ref M K ?v fs = (y, fs')" using new by (cases "write_branch_ref M K ?v fs") auto
  moreover have "\<exists>u. y = Inr u" using False \<open>write_branch_ref M K ?v fs = (y, fs')\<close>
    by (auto simp: write_branch_ref_def write_file_def sbind_def split: sum.splits prod.splits)
  ultimately obtain u where w: "write_branch_ref M K ?v fs = (Inr u, fs')" by blast
  note run = write_branch_ref_run [OF ok(1-3) w]
  show ?thesis
  proof (rule advances_head [OF ok r0(1), of fs' ?v])
    show "keeps M fs fs'" by (rule keeps_same [OF run(3)]) simp
    show "map_of fs' (branch_file_name s) = map_of fs (branch_file_name s)" if "s \<noteq> rf_ref_token_hex ?v" for s
      using same_butD [OF run(3)] that by simp
    have "map_of fs default_ref_file = map_of fs' default_ref_file" using same_butD [OF run(3)] by simp
    from read_default_ref_cong [OF this, of M K] r0(1) new
    show "read_default_ref M K fs' = Inr (if rf_ref_token_hex r0 = rf_ref_token_hex ?v then ?v else r0)" by simp
  qed (use run new in \<open>simp_all add: branch_head_def\<close>)
qed

lemma delete_advances:
  assumes ok: "bt_ok fs" "refs_agree M K fs"
    and run: "delete_branch M K name fs = (x, fs')" "branch_token M name \<noteq> t"
  shows "advances M K t fs fs'"
proof (cases "fs' = fs")
  case True
  with ok show ?thesis by (simp add: advances_refl)
next
  case False
  let ?token = "branch_token M name"
  obtain r0 where r0: "read_default_ref M K fs = Inr r0" "read_branch_ref_if_exists M K (rf_ref_token_hex r0) fs = Inr (Some r0)"
    using ok(2) by (auto simp: refs_agree_def)
  obtain path where other: "rf_ref_token_hex r0 \<noteq> ?token" and path: "branch_ref_file ?token = Inr path" and fs': "fs' = bt_remove path fs"
    using run(1) False r0(1) by (auto simp: delete_branch_def Let_def split: if_splits sum.splits)
  have path_eq: "path = branch_file_name ?token" using path by (rule branch_ref_file_Inr)
  have same: "same_but {branch_file_name ?token} fs fs'" by (simp add: same_but_def fs' path_eq map_of_bt_remove)
  have branches: "map_of fs (branch_file_name s) = map_of fs' (branch_file_name s)" if "s \<noteq> ?token" for s
    using same_butD [OF same] that by simp
  have "map_of fs default_ref_file = map_of fs' default_ref_file" using same_butD [OF same] by simp
  from read_default_ref_cong [OF this, of M K] read_branch_ref_cong [OF branches [OF other], of M K] r0
  have "read_default_ref M K fs' = Inr r0" "read_branch_ref_if_exists M K (rf_ref_token_hex r0) fs' = Inr (Some r0)" by simp_all
  then have "refs_agree M K fs'" by (auto simp: refs_agree_def)
  moreover have "keeps M fs fs'" by (rule keeps_same [OF same]) simp
  ultimately show ?thesis
    using branch_head_cong [OF branches [OF run(2) [symmetric]], of M K] ok(1) by (auto simp: advances_def fs' intro: descends_refl)
qed

lemma default_write_advances:
  assumes ok: "crypto_ok (ms_crypto M)" "ref_codecs_ok K" "bt_ok fs" "refs_agree M K fs"
    and run: "snd (write_default_ref M K v fs) = fs'"
    and v: "read_branch_ref_if_exists M K (rf_ref_token_hex v) fs = Inr (Some v)"
  shows "advances M K t fs fs'"
proof (cases "fst (write_default_ref M K v fs)")
  case (Inl e)
  then have "fs' = fs" using run by (auto simp: write_default_ref_def write_file_def split: sum.splits)
  with ok show ?thesis by (simp add: advances_refl)
next
  case (Inr u)
  with run have "write_default_ref M K v fs = (Inr u, fs')" by (cases "write_default_ref M K v fs") simp
  from advances_default [OF ok(1-3) this v] show ?thesis .
qed

lemma checkout_advances:
  assumes ok: "crypto_ok (ms_crypto M)" "ref_codecs_ok K" "bt_ok fs" "refs_agree M K fs"
    and run: "checkout_branch M K name fs = (x, fs')"
  shows "advances M K t fs fs'"
proof (cases "fs' = fs")
  case True
  with ok show ?thesis by (simp add: advances_refl)
next
  case False
  let ?token = "branch_token M name"
  obtain r0 where r0: "read_default_ref M K fs = Inr r0" "read_branch_ref_if_exists M K (rf_ref_token_hex r0) fs = Inr (Some r0)"
    using ok(4) by (auto simp: refs_agree_def)
  have "snd (write_default_ref M K r0 fs) = fs' \<or>
      (\<exists>v. read_branch_ref_if_exists M K ?token fs = Inr (Some v) \<and> snd (write_default_ref M K v fs) = fs')"
    using run False r0(1)
    by (auto simp: checkout_branch_def Let_def sbind_def ok_or_Inr_iff split: if_splits sum.splits prod.splits)
  then obtain v where v: "snd (write_default_ref M K v fs) = fs'" "v = r0 \<or> read_branch_ref_if_exists M K ?token fs = Inr (Some v)"
    by blast
  then have "read_branch_ref_if_exists M K (rf_ref_token_hex v) fs = Inr (Some v)" using r0(2) read_branch_token by metis
  from default_write_advances [OF ok v(1) this] show ?thesis .
qed

lemma branch_or_default_agree:
  assumes "refs_agree M K fs" "branch_or_default M K token fs = Inr r"
  shows "read_branch_ref_if_exists M K token fs = Inr (Some r)"
  using assms by (auto simp: branch_or_default_def refs_agree_def rbind_Inr_iff split: option.splits if_splits)

lemma restore_advances:
  assumes ok: "crypto_ok (ms_crypto M)" "ref_codecs_ok K" "bt_ok fs" "refs_agree M K fs"
    and run: "restore_default_ref_from_branch M K token fs = (x, fs')"
  shows "advances M K t fs fs'"
proof (cases "fs' = fs")
  case True
  with ok show ?thesis by (simp add: advances_refl)
next
  case False
  obtain v where v: "branch_or_default M K token fs = Inr v" "snd (write_default_ref M K v fs) = fs'"
    using run False by (auto simp: restore_default_ref_from_branch_def sbind_def split: sum.splits prod.splits)
  from branch_or_default_agree [OF ok(4) v(1)] have "read_branch_ref_if_exists M K (rf_ref_token_hex v) fs = Inr (Some v)"
    using read_branch_token by metis
  from default_write_advances [OF ok v(2) this] show ?thesis .
qed

text \<open>A branch ref, and the default ref when it is that branch.\<close>

lemma write_both:
  assumes ok: "crypto_ok (ms_crypto M)" "ref_codecs_ok K" "bt_ok fs" "read_default_ref M K fs = Inr r0"
    and b1: "write_branch_ref M K v fs = (Inr u, fs1)"
    and d1: "(if rf_ref_token_hex r0 = rf_ref_token_hex v then write_default_ref M K v else sret ()) fs1 = (Inr u', fs')"
  shows "bt_ok fs'" "same_but ref_paths fs fs'" "read_branch_ref_if_exists M K (rf_ref_token_hex v) fs' = Inr (Some v)"
    "s \<noteq> rf_ref_token_hex v \<Longrightarrow> map_of fs' (branch_file_name s) = map_of fs (branch_file_name s)"
    "read_default_ref M K fs' = Inr (if rf_ref_token_hex r0 = rf_ref_token_hex v then v else r0)"
proof -
  let ?b = "rf_ref_token_hex r0 = rf_ref_token_hex v"
  note w1 = write_branch_ref_run [OF ok(1-3) b1]
  have w2: "bt_ok fs' \<and> same_but {default_ref_file} fs1 fs' \<and> (?b \<longrightarrow> read_default_ref M K fs' = Inr v) \<and> (\<not> ?b \<longrightarrow> fs' = fs1)"
    using d1 write_default_ref_run [OF ok(1,2) w1(2), of v u' fs'] w1(2) by (cases ?b) auto
  have same: "map_of fs' (branch_file_name s) = map_of fs1 (branch_file_name s)" for s
    using w2 same_butD [of "{default_ref_file}" fs1 fs' "branch_file_name s"] by simp
  show "bt_ok fs'" using w2 by simp
  show "same_but ref_paths fs fs'" by (rule same_but_trans [OF w1(3)]) (use w2 in auto)
  show "read_branch_ref_if_exists M K (rf_ref_token_hex v) fs' = Inr (Some v)" using w1(1) read_branch_ref_cong [OF same] by simp
  show "s \<noteq> rf_ref_token_hex v \<Longrightarrow> map_of fs' (branch_file_name s) = map_of fs (branch_file_name s)"
    using same same_butD [OF w1(3)] by simp
  show "read_default_ref M K fs' = Inr (if ?b then v else r0)"
  proof (cases ?b)
    case False
    have "map_of fs default_ref_file = map_of fs1 default_ref_file" using same_butD [OF w1(3)] by simp
    with read_default_ref_cong [OF this, of M K] ok(4) w2 False show ?thesis by simp
  qed (use w2 in simp)
qed

lemma fast_forward_advances:
  assumes ok: "crypto_ok (ms_crypto M)" "ref_codecs_ok K" "bt_ok fs" "refs_agree M K fs"
    and run: "update_branch_head_if_fast_forward fuel M K token next_head fs = Some (Inr x, fs')"
  shows "advances M K t fs fs'"
proof (cases "fs' = fs")
  case True
  with ok show ?thesis by (simp add: advances_refl)
next
  case False
  obtain r0 where r0: "read_default_ref M K fs = Inr r0" "read_branch_ref_if_exists M K (rf_ref_token_hex r0) fs = Inr (Some r0)"
    using ok(4) by (auto simp: refs_agree_def)
  obtain r where r: "read_branch_ref_if_exists M K token fs = Inr (Some r)"
    using run r0 by (cases "read_branch_ref_if_exists M K token fs")
      (auto simp: update_branch_head_if_fast_forward_def rbind_def split: if_splits sum.splits option.splits)
  let ?v = "r\<lparr> rf_head_snapshot_id := next_head \<rparr>"
  have token: "rf_ref_token_hex r = token" by (rule read_branch_token [OF r])
  have "branch_fast_forward_allowed fuel (store_at M fs) (rf_head_snapshot_id r) next_head = Some (Inr True) \<and>
      sbind (write_branch_ref M K ?v) (\<lambda>_.
        sbind (if rf_ref_token_hex r0 = token then write_default_ref M K ?v else sret ()) (\<lambda>_.
        sret (rf_head_snapshot_id r))) fs = (Inr x, fs')"
    using run False r0(1) r
    by (auto simp: update_branch_head_if_fast_forward_def Let_def rbind_def split: if_splits sum.splits option.splits bool.splits)
  then obtain fs1 where ff: "branch_fast_forward_allowed fuel (store_at M fs) (rf_head_snapshot_id r) next_head = Some (Inr True)"
    and b1: "write_branch_ref M K ?v fs = (Inr (), fs1)"
    and d1: "(if rf_ref_token_hex r0 = rf_ref_token_hex ?v then write_default_ref M K ?v else sret ()) fs1 = (Inr (), fs')"
    using token by (auto simp: sbind_Inr_iff split: if_splits)
  note w = write_both [OF ok(1-3) r0(1) b1 d1]
  have keeps: "keeps M fs fs'" by (rule keeps_same [OF w(2)]) simp
  show ?thesis
  proof (rule advances_head [OF ok r0(1) w(1) keeps w(3) w(4) w(5)])
    fix h assume "branch_head M K (rf_ref_token_hex ?v) fs = Some h"
    then have "rf_head_snapshot_id r = Some h" using r token by (simp add: branch_head_def)
    with ff fast_forward_descends obtain n where "next_head = Some n" "descends M fs n h" by metis
    then show "\<exists>h'. rf_head_snapshot_id ?v = Some h' \<and> descends M fs' h' h" using descends_keeps [OF _ keeps] by simp
  qed
qed

lemma new_head_descends:
  assumes "stored M fs (snapshot_entry M W message d (Some h))" "store_codecs_ok M"
  shows "descends M fs (entry_id M (snapshot_entry M W message d (Some h))) h"
  using snapshot_stored [OF assms] descends_parent [OF _ _ descends_refl]
  by (force simp: get_snapshot_def snapshot_of_def)

lemma commit_advances:
  assumes ok: "crypto_ok (ms_crypto M)" "ref_codecs_ok K" "store_codecs_ok M" "bt_ok (cs_files st)" "refs_agree M K (cs_files st)"
    and run: "commit M K E message tree st = (Inr r, st')" "draws_ok st" "default_head_snapshot_id M K (cs_files st) = Inr parent"
      "storable M (cs_files st) (set (commit_objects M (ce_writer E) message (staged_tree E True tree) parent))"
  shows "advances M K t (cs_files st) (cs_files st')"
proof -
  let ?W = "ce_writer E" and ?d = "staged_tree E True tree" and ?fs = "cs_files st" and ?fs' = "cs_files st'"
  obtain r0 fs1 fs2 where
    r0: "read_default_ref M K ?fs = Inr r0"
    and sid: "co_snapshot_id r = entry_id M (snapshot_entry M ?W message ?d (rf_head_snapshot_id r0))"
    and puts: "puts M ?fs (commit_objects M ?W message ?d (rf_head_snapshot_id r0)) fs1"
    and d1: "write_default_ref M K (r0\<lparr> rf_head_snapshot_id := Some (co_snapshot_id r) \<rparr>) fs1 = (Inr (), fs2)"
    and b1: "write_branch_ref M K (r0\<lparr> rf_head_snapshot_id := Some (co_snapshot_id r) \<rparr>) fs2 = (Inr (), ?fs')"
    by (rule commit_run [OF run(1,2)])
  let ?v = "r0\<lparr> rf_head_snapshot_id := Some (co_snapshot_id r) \<rparr>"
  have parent: "rf_head_snapshot_id r0 = parent" using run(3) r0 by (simp add: default_head_snapshot_id_def)
  note frame = puts_frame [OF puts ok(4)]
  note w1 = write_default_ref_run [OF ok(1,2) conjunct1 [OF frame] d1]
  note w2 = write_branch_ref_run [OF ok(1,2) w1(2) b1]
  have refs: "same_but ref_paths fs1 ?fs'" by (rule same_but_trans [OF w1(3) w2(3)]) auto
  have "map_of fs2 default_ref_file = map_of ?fs' default_ref_file" using same_butD [OF w2(3)] by simp
  from read_default_ref_cong [OF this, of M K] w1(1) have head: "read_default_ref M K ?fs' = Inr ?v" by simp
  note put = puts_stored [OF puts [unfolded parent] ok(1,4) run(4) order_refl]
  have keeps: "keeps M ?fs ?fs'" using put keeps_trans [OF _ keeps_same [OF refs order_refl]] by blast
  show ?thesis
  proof (rule advances_head [OF ok(1,2,4,5) r0 w2(2) keeps w2(1)])
    fix s assume s: "s \<noteq> rf_ref_token_hex ?v"
    show "map_of ?fs' (branch_file_name s) = map_of ?fs (branch_file_name s)"
      using same_butD [OF w2(3), of "branch_file_name s"] same_butD [OF w1(3), of "branch_file_name s"]
        same_butD [OF conjunct2 [OF frame], of "branch_file_name s"] s by (simp add: image_iff)
  next
    show "read_default_ref M K ?fs' = Inr (if rf_ref_token_hex r0 = rf_ref_token_hex ?v then ?v else r0)" using head by simp
  next
    fix h assume "branch_head M K (rf_ref_token_hex ?v) ?fs = Some h"
    then have "parent = Some h" using ok(5) r0 parent by (auto simp: branch_head_def refs_agree_def)
    moreover have "stored M ?fs' (snapshot_entry M ?W message ?d parent)"
      using put typed_same [OF refs order_refl] by (simp add: commit_objects_def entry_id_def split_beta)
    ultimately show "\<exists>h'. rf_head_snapshot_id ?v = Some h' \<and> descends M ?fs' h' h"
      using new_head_descends [OF _ ok(3)] by (simp add: sid parent)
  qed
qed

lemma writeback_advances:
  assumes ok: "crypto_ok (ms_crypto M)" "ref_codecs_ok K" "store_codecs_ok M" "bt_ok (cs_files st)" "refs_agree M K (cs_files st)"
    and run: "write_branch_overlay nfc clk fuel M K W opts st = Some (Inr (Committed i previous rebased), st')" "draws_ok st"
      "load_virtual_directory_from_snapshot fuel (store_at M (cs_files st)) previous = Some (Inr base)"
      "apply_overlay_changes nfc clk (bo_changes opts) base = (Inr u, d)"
      "storable M (cs_files st) (set (commit_objects M W (bo_message opts) d previous))"
  shows "advances M K t (cs_files st) (cs_files st')"
proof -
  let ?fs = "cs_files st" and ?fs' = "cs_files st'"
  obtain r0 r b fs1 fs2 where
    r0: "read_default_ref M K ?fs = Inr r0"
    and r: "resolve_branch_ref_for_writeback M K r0 (bo_ref_token_hex opts) ?fs = Inr (r, b)" "previous = rf_head_snapshot_id r"
    and i: "i = entry_id M (snapshot_entry M W (bo_message opts) d previous)"
    and puts: "puts M ?fs (commit_objects M W (bo_message opts) d previous) fs1"
    and b1: "write_branch_ref M K (r\<lparr> rf_head_snapshot_id := Some i \<rparr>) fs1 = (Inr (), fs2)"
    and d1: "(if b then write_default_ref M K (r\<lparr> rf_head_snapshot_id := Some i \<rparr>) else sret ()) fs2 = (Inr (), ?fs')"
    by (rule writeback_run [OF run(1-4)])
  let ?v = "r\<lparr> rf_head_snapshot_id := Some i \<rparr>"
  note res = resolve_for_writeback [OF r(1)]
  note frame = puts_frame [OF puts ok(4)]
  have "map_of ?fs default_ref_file = map_of fs1 default_ref_file"
    using same_butD [OF conjunct2 [OF frame], of default_ref_file] by (simp add: image_iff)
  from read_default_ref_cong [OF this, of M K] r0 have r1: "read_default_ref M K fs1 = Inr r0" by simp
  have b: "b \<longleftrightarrow> rf_ref_token_hex r0 = rf_ref_token_hex ?v" using res(1,2) by simp
  note w = write_both [OF ok(1,2) conjunct1 [OF frame] r1 b1 d1 [unfolded b]]
  note put = puts_stored [OF puts ok(1,4) run(5) order_refl]
  have keeps: "keeps M ?fs ?fs'" using put keeps_trans [OF _ keeps_same [OF w(2) order_refl]] by blast
  have branch: "read_branch_ref_if_exists M K (rf_ref_token_hex ?v) ?fs = Inr (Some r)"
    using res ok(5) r0 by (cases b) (auto simp: refs_agree_def)
  show ?thesis
  proof (rule advances_head [OF ok(1,2,4,5) r0 w(1) keeps w(3)])
    fix s assume "s \<noteq> rf_ref_token_hex ?v"
    then show "map_of ?fs' (branch_file_name s) = map_of ?fs (branch_file_name s)"
      using w(4) same_butD [OF conjunct2 [OF frame], of "branch_file_name s"] by (simp add: image_iff)
  next
    show "read_default_ref M K ?fs' = Inr (if rf_ref_token_hex r0 = rf_ref_token_hex ?v then ?v else r0)" by (rule w(5))
  next
    fix h assume "branch_head M K (rf_ref_token_hex ?v) ?fs = Some h"
    then have "previous = Some h" using branch r(2) by (simp add: branch_head_def)
    moreover have "stored M ?fs' (snapshot_entry M W (bo_message opts) d previous)"
      using put typed_same [OF w(2) order_refl] by (simp add: commit_objects_def entry_id_def split_beta)
    ultimately show "\<exists>h'. rf_head_snapshot_id ?v = Some h' \<and> descends M ?fs' h' h"
      using new_head_descends [OF _ ok(3)] by (simp add: i)
  qed
qed

lemma step_advances:
  assumes "branch_step M K t fs fs'" "crypto_ok (ms_crypto M)" "ref_codecs_ok K" "store_codecs_ok M" "bt_ok fs" "refs_agree M K fs"
  shows "advances M K t fs fs'"
  using assms
  by (induction rule: branch_step.induct)
    (blast intro: create_advances delete_advances checkout_advances restore_advances fast_forward_advances
       commit_advances writeback_advances)+

lemma steps_advance:
  assumes "(branch_step M K t)\<^sup>*\<^sup>* fs fs'" "crypto_ok (ms_crypto M)" "ref_codecs_ok K" "store_codecs_ok M" "bt_ok fs" "refs_agree M K fs"
  shows "advances M K t fs fs'"
  using assms(1)
proof (induction rule: rtranclp_induct)
  case base
  show ?case by (rule advances_refl [OF assms(5,6)])
next
  case (step fs1 fs2)
  then have "bt_ok fs1" "refs_agree M K fs1" by (simp_all add: advances_def)
  from advances_trans [OF step.IH step_advances [OF step.hyps(2) assms(2-4) this]] show ?case .
qed

text \<open>C27: A branch that is not deleted loses no history. Start from a repository whose default ref is
  the record of the branch it names, as creating a repository leaves it (\<open>init_refs_agree\<close>; accepting an
  invitation writes no branch ref), and run any sequence of branch creations, checkouts, restores and
  deletions of other branches, whatever their outcome, and of successful fast forwards, commits and
  writebacks (whose new objects collide with no stored ones): if the branch pointed to a snapshot at the
  start, it points to one at the end from which the first is reached along parents (which can still be
  read), and the default ref is still the record of the branch it names.\<close>

theorem heads_only_advance:
  assumes "(branch_step M K t)\<^sup>*\<^sup>* fs fs'" "crypto_ok (ms_crypto M)" "ref_codecs_ok K" "store_codecs_ok M"
    and "bt_ok fs" "refs_agree M K fs" "branch_head M K t fs = Some h"
  shows "refs_agree M K fs' \<and> (\<exists>h'. branch_head M K t fs' = Some h' \<and> descends M fs' h' h)"
  using steps_advance [OF assms(1-6)] assms(7) by (simp add: advances_def)

definition ahead_ref :: ref_record where
  "ahead_ref = main_ref\<lparr> rf_head_snapshot_id := Some ''cc'' \<rparr>"

theorem heads_only_advance_witness:
  "\<exists>fs b fs'. create_branch sample_repo_store sample_refs ''dev'' fs = (Inr b, fs') \<and> refs_agree sample_repo_store sample_refs fs' \<and>
     (\<exists>h'. branch_head sample_repo_store sample_refs ''aa'' fs' = Some h' \<and> descends sample_repo_store fs' h' ''cc'')"
proof -
  let ?M = sample_repo_store and ?K = sample_refs
  have crypto: "crypto_ok (ms_crypto ?M)" by (simp add: plain_crypto_ok)
  have token: "rf_ref_token_hex ahead_ref = ''aa''" by (simp add: ahead_ref_def main_ref_def)
  have sealed: "\<exists>fs'. write_branch_ref ?M ?K v fs = (Inr (), fs')" if "branch_ref_file (rf_ref_token_hex v) = Inr p" for v fs p
    using plain_seal [OF sample_repo_store_plain(1), of ?K "branch_ref_stable_name (rf_ref_token_hex v)" v] that
    by (auto simp: write_branch_ref_def write_file_def)
  obtain fs1 where one: "write_branch_ref ?M ?K ahead_ref [] = (Inr (), fs1)" using sealed main_ref_file token by metis
  obtain fs where two: "write_default_ref ?M ?K ahead_ref fs1 = (Inr (), fs)"
    using plain_seal [OF sample_repo_store_plain(1), of ?K default_ref_token ahead_ref] by (auto simp: write_default_ref_def write_file_def)
  note w1 = write_branch_ref_run [OF crypto sample_refs_ok bt_ok_Nil one]
  note w2 = write_default_ref_run [OF crypto sample_refs_ok w1(2) two]
  have same: "map_of fs1 (branch_file_name s) = map_of fs (branch_file_name s)" for s using same_butD [OF w2(3)] by simp
  have branch: "read_branch_ref_if_exists ?M ?K ''aa'' fs = Inr (Some ahead_ref)"
    using w1(1) read_branch_ref_cong [OF same] token by simp
  have agree: "refs_agree ?M ?K fs" using w2(1) branch token by (simp add: refs_agree_def)
  have head: "branch_head ?M ?K ''aa'' fs = Some ''cc''" using branch by (simp add: branch_head_def ahead_ref_def)
  let ?dev = "branch_token ?M ''dev''"
  have plain: "?dev = derive_branch_token plain_crypto [] ''dev''" by (simp add: sample_secrets_def)
  have dev: "is_ok (branch_ref_file ?dev)" "?dev \<noteq> ''aa''" "\<not> blank ''dev''" unfolding plain by code_simp+
  then obtain p where p: "branch_ref_file ?dev = Inr p" by (auto simp: is_ok_iff)
  have "map_of fs (branch_file_name ?dev) = None"
    using same_butD [OF w1(3), of "branch_file_name ?dev"] same dev(2) token by simp
  then have none: "read_branch_ref_if_exists ?M ?K ?dev fs = Inr None"
    using p branch_ref_file_Inr [OF p] by (simp add: read_branch_ref_if_exists_def)
  let ?v = "\<lparr> rf_branch_name = ''dev'', rf_ref_token_hex = ?dev, rf_head_snapshot_id = Some ''cc'' \<rparr>"
  obtain fs' where three: "write_branch_ref ?M ?K ?v fs = (Inr (), fs')" using sealed [of ?v p fs] p by auto
  have h: "rf_head_snapshot_id ahead_ref = Some ''cc''" by (simp add: ahead_ref_def)
  from three have run: "create_branch ?M ?K ''dev'' fs = (Inr \<lparr> bs_name = ''dev'', bs_token_hex = ?dev \<rparr>, fs')"
    using w2(1) none dev token h by (simp add: create_branch_def Let_def sbind_Inr)
  have steps: "(branch_step ?M ?K ''aa'')\<^sup>*\<^sup>* fs fs'" by (rule r_into_rtranclp, rule step_create [OF run])
  from heads_only_advance [OF steps crypto sample_refs_ok sample_repo_store_plain(2) w2(2) agree head] run show ?thesis by blast
qed

end
