(* ===== verification/Pack_Index.thy ===== *)
theory Pack_Index
  imports Sync_Support
begin

text \<open>
  The pack index of a remote (\<^verbatim>\<open>e2v-sync/src/pack_index.rs\<close>): the sealed root that lists the index
  segments, the segments of one pack and the compacted segments that gather many, publishing a
  root with at most four segments, and reading the locations of all packed objects through the
  cache below \<^verbatim>\<open>cache/pack-index\<close>. The cache is a map from paths to contents; directories that
  stand in the place of its files are not modelled.
\<close>

section \<open>The root and the segments\<close>

definition pack_index_root_schema_version :: u32 where "pack_index_root_schema_version = 1"

definition pack_index_root_path :: string where "pack_index_root_path = ''pack-index/root.json''"

definition pack_index_segment_bound :: nat where "pack_index_segment_bound = 4"

definition pack_index_compacted_segment_prefix :: string where
  "pack_index_compacted_segment_prefix = ''pack-index/segments/''"

record observed_pack_index_root_state =
  seen_root_bytes :: "byte list option"
  seen_segment_paths :: "string list"

record pack_index_root =
  pr_schema_version :: u32
  pr_layout_id :: string
  pr_layout_generation :: u64
  pr_generation :: u64
  pr_segments :: "string list"

record aggregate_pack_index_entry =
  ae_object_id :: string
  ae_data_path :: string
  ae_offset :: u64
  ae_length :: u64

record aggregate_pack_index_segment =
  as_schema_version :: u32
  as_entries :: "aggregate_pack_index_entry list"

instance pack_index_root_ext :: (countable) countable
  by (rule countable_classI [of "\<lambda>r. to_nat (pr_schema_version r, pr_layout_id r, pr_layout_generation r,
        pr_generation r, pr_segments r, pack_index_root.more r)"]) auto

instance aggregate_pack_index_entry_ext :: (countable) countable
  by (rule countable_classI [of "\<lambda>r. to_nat (ae_object_id r, ae_data_path r, ae_offset r, ae_length r,
        aggregate_pack_index_entry.more r)"]) auto

instance aggregate_pack_index_segment_ext :: (countable) countable
  by (rule countable_classI [of "\<lambda>r. to_nat (as_schema_version r, as_entries r,
        aggregate_pack_index_segment.more r)"]) auto

text \<open>The cryptography and the codecs; a password or unlocked repository gives the secrets.\<close>

record pack_index_env =
  px_crypto :: crypto
  px_postcard :: "encrypted_control_record serde"
  px_root :: "pack_index_root serde"
  px_index :: "object_pack_index serde"
  px_segment :: "aggregate_pack_index_segment serde"

definition encode_pack_index_root_bytes :: "pack_index_env \<Rightarrow> repo_secrets \<Rightarrow> pack_index_root \<Rightarrow> byte list res" where
  "encode_pack_index_root_bytes X secrets r =
     encrypt_control_record (px_crypto X) (px_postcard X) secrets ''pack-index-root'' ''pack-index-root''
       (to_vec (px_root X) r)"

definition decode_pack_index_root_bytes ::
  "pack_index_env \<Rightarrow> repo_secrets option \<Rightarrow> byte list \<Rightarrow> pack_index_root res" where
  "decode_pack_index_root_bytes X secrets bytes =
     rbind (ok_or (Bail ''pack index root requires unlocked repository or password'') secrets) (\<lambda>unlocked.
     rbind (decrypt_control_record (px_crypto X) (px_postcard X) unlocked ''pack-index-root'' ''pack-index-root'' bytes)
       (\<lambda>plaintext.
     with_context ''failed to decode authenticated pack index root''
       (ok_or (Bail ''invalid json'') (from_slice (px_root X) plaintext))))"

definition pack_index_segment_stable_name :: "string \<Rightarrow> string" where
  "pack_index_segment_stable_name segment_path = ''pack-index-segment:'' @ segment_path"

definition encode_index_segment :: "pack_index_env \<Rightarrow> repo_secrets \<Rightarrow> string \<Rightarrow> byte list \<Rightarrow> byte list res" where
  "encode_index_segment X secrets segment_path plaintext =
     encrypt_control_record (px_crypto X) (px_postcard X) secrets
       (pack_index_segment_stable_name segment_path) ''pack-index-segment'' plaintext"

definition decode_index_segment ::
  "pack_index_env \<Rightarrow> repo_secrets option \<Rightarrow> string \<Rightarrow> byte list \<Rightarrow> byte list res" where
  "decode_index_segment X secrets segment_path bytes =
     rbind (ok_or (Bail ''pack index segment requires unlocked repository or password'') secrets) (\<lambda>unlocked.
     with_context ''failed to decrypt authenticated pack index segment''
       (decrypt_control_record (px_crypto X) (px_postcard X) unlocked
          (pack_index_segment_stable_name segment_path) ''pack-index-segment'' bytes))"

definition validate_pack_index_root :: "pack_index_root \<Rightarrow> unit res" where
  "validate_pack_index_root r =
     ensure (pr_schema_version r = pack_index_root_schema_version)
       (Bail ''unsupported pack index root schema version'')
    (ensure (\<not> blank (pr_layout_id r)) (Bail ''pack index root layout id must not be empty'')
     (Inr ()))"

definition validate_segment_path :: "string \<Rightarrow> unit res" where
  "validate_segment_path segment_path =
     ensure (starts_with segment_path remote_pack_index_prefix \<or>
             starts_with segment_path pack_index_compacted_segment_prefix)
       (Bail ''invalid pack index segment path'') (Inr ())"

definition decode_aggregate ::
  "pack_index_env \<Rightarrow> byte list \<Rightarrow> aggregate_pack_index_segment res" where
  "decode_aggregate X plaintext =
     rbind (with_context ''failed to decode authenticated pack index segment''
              (ok_or (Bail ''invalid json'') (from_slice (px_segment X) plaintext))) (\<lambda>aggregate.
     ensure (as_schema_version aggregate = pack_index_root_schema_version)
       (Bail ''unsupported aggregate pack index schema version'')
     (Inr aggregate))"

definition read_segment_entries ::
  "pack_index_env \<Rightarrow> repo_secrets option \<Rightarrow> string \<Rightarrow> byte list \<Rightarrow> aggregate_pack_index_entry list res" where
  "read_segment_entries X secrets segment_path segment_bytes =
     (if starts_with segment_path remote_pack_index_prefix then
        rbind (decode_index_segment X secrets segment_path segment_bytes) (\<lambda>plaintext.
        rbind (with_context ''failed to decode authenticated pack index segment''
                 (ok_or (Bail ''invalid json'') (from_slice (px_index X) plaintext))) (\<lambda>index.
        Inr (map (\<lambda>entry. \<lparr> ae_object_id = pe_object_id entry, ae_data_path = pi_data_path index,
                             ae_offset = pe_offset entry, ae_length = pe_length entry \<rparr>)
              (pi_entries index))))
      else
        rbind (decode_index_segment X secrets segment_path segment_bytes) (\<lambda>plaintext.
        rbind (decode_aggregate X plaintext) (\<lambda>aggregate. Inr (as_entries aggregate))))"

definition read_segment_object_ids ::
  "pack_index_env \<Rightarrow> repo_secrets \<Rightarrow> string \<Rightarrow> byte list \<Rightarrow> string list res" where
  "read_segment_object_ids X secrets segment_path segment_bytes =
     rbind (read_segment_entries X (Some secrets) segment_path segment_bytes) (\<lambda>entries.
     Inr (map ae_object_id entries))"

section \<open>The locations a segment gives\<close>

fun append_aggregate_entries :: "aggregate_pack_index_entry list \<Rightarrow> locations \<Rightarrow> locations res" where
  "append_aggregate_entries [] locs = Inr locs"
| "append_aggregate_entries (entry # entries) locs =
     ensure (map_of locs (ae_object_id entry) = None) (Bail ''duplicate packed object id'')
     (let location = \<lparr> loc_data_path = ae_data_path entry, loc_offset = unat (ae_offset entry),
                       loc_length = unat (ae_length entry) \<rparr>
      in rbind (location_validate location) (\<lambda>_.
         append_aggregate_entries entries (bt_insert (ae_object_id entry) location locs)))"

definition append_segment_locations ::
  "pack_index_env \<Rightarrow> 's remote \<Rightarrow> repo_secrets option \<Rightarrow> string \<Rightarrow> byte list \<Rightarrow> locations \<Rightarrow> 's \<Rightarrow> locations res" where
  "append_segment_locations X R secrets segment_path segment_bytes locs s =
     (if starts_with segment_path remote_pack_index_prefix then
        rbind (decode_index_segment X secrets segment_path segment_bytes) (\<lambda>plaintext.
        append_pack_index_locations_from_bytes (px_index X) R plaintext locs s)
      else
        rbind (decode_index_segment X secrets segment_path segment_bytes) (\<lambda>plaintext.
        rbind (decode_aggregate X plaintext) (\<lambda>aggregate.
        append_aggregate_entries (as_entries aggregate) locs)))"

section \<open>Publishing a root\<close>

fun merge_segments ::
  "pack_index_env \<Rightarrow> 's remote \<Rightarrow> repo_secrets \<Rightarrow> string list \<Rightarrow>
     (string, aggregate_pack_index_entry) btree \<Rightarrow> 's \<Rightarrow> (string, aggregate_pack_index_entry) btree res" where
  "merge_segments X R secrets [] merged s = Inr merged"
| "merge_segments X R secrets (segment_path # segment_paths) merged s =
     rbind (r_get R segment_path s) (\<lambda>bytes.
     rbind (read_segment_entries X (Some secrets) segment_path bytes) (\<lambda>entries.
     merge_segments X R secrets segment_paths
       (foldl (\<lambda>m entry. bt_insert (ae_object_id entry) entry m) merged entries) s))"

definition build_compacted_segment_bytes ::
  "pack_index_env \<Rightarrow> 's remote \<Rightarrow> repo_secrets \<Rightarrow> string list \<Rightarrow> string \<Rightarrow> 's \<Rightarrow> byte list res" where
  "build_compacted_segment_bytes X R secrets segment_paths compacted_path s =
     rbind (merge_segments X R secrets segment_paths [] s) (\<lambda>merged.
     encode_index_segment X secrets compacted_path
       (to_vec (px_segment X) \<lparr> as_schema_version = pack_index_root_schema_version,
                                as_entries = map snd merged \<rparr>))"

definition stores_already :: "'s remote \<Rightarrow> string \<Rightarrow> byte list \<Rightarrow> 's \<Rightarrow> bool" where
  "stores_already R p bytes s = (case r_get R p s of Inr existing \<Rightarrow> existing = bytes | Inl _ \<Rightarrow> False)"

definition compacted_segment_path :: "u64 \<Rightarrow> string" where
  "compacted_segment_path layout_generation =
     pack_index_compacted_segment_prefix @ ''compact-'' @ padded 20 (unat layout_generation) @ ''.json''"

definition compact_segment_paths_if_needed ::
  "pack_index_env \<Rightarrow> 's remote \<Rightarrow> repo_secrets \<Rightarrow> u64 \<Rightarrow> string list \<Rightarrow> ('s, string list) prog" where
  "compact_segment_paths_if_needed X R secrets layout_generation segment_paths =
     (if length segment_paths \<le> pack_index_segment_bound then sret segment_paths
      else
        let keep_tail = pack_index_segment_bound - 1;
            split_at = length segment_paths - keep_tail;
            older_segments = take split_at segment_paths;
            newer_segments = drop split_at segment_paths;
            compacted_path = compacted_segment_path layout_generation
        in sbind (sread (build_compacted_segment_bytes X R secrets older_segments compacted_path))
             (\<lambda>compacted_bytes.
           sbind (\<lambda>s. if stores_already R compacted_path compacted_bytes s then (Inr (), s)
                      else r_put R compacted_path compacted_bytes s) (\<lambda>_.
           sret (compacted_path # newer_segments))))"

definition publish_pack_index_root_with_observed_current ::
  "pack_index_env \<Rightarrow> 's remote \<Rightarrow> repo_secrets \<Rightarrow> string \<Rightarrow> u64 \<Rightarrow> string list \<Rightarrow>
     observed_pack_index_root_state option \<Rightarrow> ('s, unit) prog" where
  "publish_pack_index_root_with_observed_current X R secrets layout_id layout_generation segment_paths
     observed_current_root =
     sbind (compact_segment_paths_if_needed X R secrets layout_generation segment_paths) (\<lambda>compacted_segment_paths.
     sbind (slift (encode_pack_index_root_bytes X secrets
              \<lparr> pr_schema_version = pack_index_root_schema_version, pr_layout_id = layout_id,
                pr_layout_generation = layout_generation, pr_generation = layout_generation,
                pr_segments = compacted_segment_paths \<rparr>)) (\<lambda>root_bytes s.
     if (case observed_current_root of
           Some seen \<Rightarrow> seen_root_bytes seen = Some root_bytes
         | None \<Rightarrow> stores_already R pack_index_root_path root_bytes s)
     then (Inr (), s)
     else r_put R pack_index_root_path root_bytes s))"

definition publish_pack_index_root ::
  "pack_index_env \<Rightarrow> 's remote \<Rightarrow> repo_secrets \<Rightarrow> string \<Rightarrow> u64 \<Rightarrow> string list \<Rightarrow> ('s, unit) prog" where
  "publish_pack_index_root X R secrets layout_id layout_generation segment_paths =
     publish_pack_index_root_with_observed_current X R secrets layout_id layout_generation segment_paths None"

section \<open>Reading the root\<close>

definition load_remote_pack_index_root_bytes :: "'s remote \<Rightarrow> 's \<Rightarrow> byte list option res" where
  "load_remote_pack_index_root_bytes R s =
     (case r_get R pack_index_root_path s of
        Inr bytes \<Rightarrow> Inr (Some bytes)
      | Inl e \<Rightarrow> if is_missing_physical_object_error e then Inr None else Inl e)"

definition load_remote_pack_index_segment_paths ::
  "pack_index_env \<Rightarrow> 's remote \<Rightarrow> repo_secrets option \<Rightarrow> 's \<Rightarrow> string list res" where
  "load_remote_pack_index_segment_paths X R secrets s =
     rbind (load_remote_pack_index_root_bytes R s) (\<lambda>found.
     case found of
       None \<Rightarrow> Inr []
     | Some root_bytes \<Rightarrow>
         rbind (decode_pack_index_root_bytes X secrets root_bytes) (\<lambda>r.
         rbind (validate_pack_index_root r) (\<lambda>_. Inr (pr_segments r))))"

fun add_segment_paths :: "string list \<Rightarrow> string list \<Rightarrow> string list res" where
  "add_segment_paths segment_paths [] = Inr segment_paths"
| "add_segment_paths segment_paths (segment_path # newly_published) =
     rbind (validate_segment_path segment_path) (\<lambda>_.
     add_segment_paths
       (if segment_path \<in> set segment_paths then segment_paths else segment_paths @ [segment_path])
       newly_published)"

definition next_pack_index_segment_paths_from_observed_root ::
  "observed_pack_index_root_state \<Rightarrow> string list \<Rightarrow> string list res" where
  "next_pack_index_segment_paths_from_observed_root observed newly_published =
     add_segment_paths (seen_segment_paths observed) newly_published"

definition next_pack_index_segment_paths ::
  "pack_index_env \<Rightarrow> 's remote \<Rightarrow> repo_secrets option \<Rightarrow> string list \<Rightarrow> 's \<Rightarrow> string list res" where
  "next_pack_index_segment_paths X R secrets newly_published s =
     rbind (load_remote_pack_index_root_bytes R s) (\<lambda>found.
     rbind (case found of
              None \<Rightarrow> Inr \<lparr> seen_root_bytes = None, seen_segment_paths = [] \<rparr>
            | Some root_bytes \<Rightarrow>
                rbind (decode_pack_index_root_bytes X secrets root_bytes) (\<lambda>r.
                rbind (validate_pack_index_root r) (\<lambda>_.
                Inr \<lparr> seen_root_bytes = Some root_bytes, seen_segment_paths = pr_segments r \<rparr>)))
       (\<lambda>observed. next_pack_index_segment_paths_from_observed_root observed newly_published))"

section \<open>The cache of segments\<close>

definition pack_index_segment_cache_dir :: string where
  "pack_index_segment_cache_dir = ''cache/pack-index/segments/''"

definition index_cache_path :: "string \<Rightarrow> string" where
  "index_cache_path segment_path = pack_index_segment_cache_dir @ replace_slashes segment_path"

text \<open>A file directly in the directory of the cached segments.\<close>

definition in_segment_cache :: "string \<Rightarrow> bool" where
  "in_segment_cache p =
     (case strip_prefix pack_index_segment_cache_dir p of None \<Rightarrow> False | Some name \<Rightarrow> slash \<notin> set name)"

definition prune_stale_cached_segments :: "string list \<Rightarrow> (files, unit) prog" where
  "prune_stale_cached_segments live_segment_paths fs =
     (Inr (), filter (\<lambda>f. \<not> (in_segment_cache (fst f) \<and> fst f \<notin> set (map index_cache_path live_segment_paths))) fs)"

definition prune_pack_index_cache :: "(files, unit) prog" where
  "prune_pack_index_cache fs =
     (Inr (), bt_remove cached_root_path (filter (\<lambda>f. \<not> in_segment_cache (fst f)) fs))"

definition persist_root_cache_if_changed :: "byte list \<Rightarrow> (files, unit) prog" where
  "persist_root_cache_if_changed root_bytes fs =
     (if map_of fs cached_root_path = Some root_bytes then (Inr (), fs)
      else (Inr (), bt_insert cached_root_path root_bytes fs))"

definition load_segment_bytes_with_cache_recovery ::
  "pack_index_env \<Rightarrow> 's remote \<Rightarrow> 's \<Rightarrow> repo_secrets option \<Rightarrow> string \<Rightarrow> (files, byte list) prog" where
  "load_segment_bytes_with_cache_recovery X R s secrets segment_path =
     (let fetch_segment =
        sbind (slift (r_get R segment_path s)) (\<lambda>bytes fs.
        (Inr bytes, bt_insert (index_cache_path segment_path) bytes fs))
      in (\<lambda>fs. case map_of fs (index_cache_path segment_path) of
           Some cached_bytes \<Rightarrow>
             if is_ok (read_segment_entries X secrets segment_path cached_bytes) then (Inr cached_bytes, fs)
             else fetch_segment (bt_remove (index_cache_path segment_path) fs)
         | None \<Rightarrow> fetch_segment fs))"

fun append_remote_pack_locations_from_segment_paths ::
  "pack_index_env \<Rightarrow> 's remote \<Rightarrow> 's \<Rightarrow> repo_secrets option \<Rightarrow> string list \<Rightarrow> locations \<Rightarrow> (files, locations) prog" where
  "append_remote_pack_locations_from_segment_paths X R s secrets [] locs = sret locs"
| "append_remote_pack_locations_from_segment_paths X R s secrets (segment_path # segment_paths) locs =
     sbind (slift (validate_segment_path segment_path)) (\<lambda>_.
     sbind (load_segment_bytes_with_cache_recovery X R s secrets segment_path) (\<lambda>segment_bytes.
     sbind (slift (append_segment_locations X R secrets segment_path segment_bytes locs s)) (\<lambda>locs'.
     append_remote_pack_locations_from_segment_paths X R s secrets segment_paths locs')))"

definition load_remote_pack_locations_with_observed_root_and_local_cache ::
  "pack_index_env \<Rightarrow> 's remote \<Rightarrow> 's \<Rightarrow> repo_secrets option \<Rightarrow>
     (files, observed_pack_index_root_state \<times> locations) prog" where
  "load_remote_pack_locations_with_observed_root_and_local_cache X R s secrets =
     sbind (slift (load_remote_pack_index_root_bytes R s)) (\<lambda>found.
     case found of
       None \<Rightarrow>
         sbind prune_pack_index_cache (\<lambda>_.
         sret (\<lparr> seen_root_bytes = None, seen_segment_paths = [] \<rparr>, []))
     | Some root_bytes \<Rightarrow>
         sbind (slift (decode_pack_index_root_bytes X secrets root_bytes)) (\<lambda>r.
         sbind (slift (validate_pack_index_root r)) (\<lambda>_.
         sbind (prune_stale_cached_segments (pr_segments r)) (\<lambda>_.
         sbind (append_remote_pack_locations_from_segment_paths X R s secrets (pr_segments r) []) (\<lambda>locs.
         sbind (persist_root_cache_if_changed root_bytes) (\<lambda>_.
         sret (\<lparr> seen_root_bytes = Some root_bytes, seen_segment_paths = pr_segments r \<rparr>, locs)))))))"

definition load_remote_pack_locations_with_local_cache ::
  "pack_index_env \<Rightarrow> 's remote \<Rightarrow> 's \<Rightarrow> repo_secrets option \<Rightarrow> (files, locations) prog" where
  "load_remote_pack_locations_with_local_cache X R s secrets =
     sbind (load_remote_pack_locations_with_observed_root_and_local_cache X R s secrets) (\<lambda>(seen, locs).
     sret locs)"

definition load_remote_pack_locations_from_segment_paths_with_local_cache ::
  "pack_index_env \<Rightarrow> 's remote \<Rightarrow> 's \<Rightarrow> repo_secrets option \<Rightarrow> string list \<Rightarrow> (files, locations) prog" where
  "load_remote_pack_locations_from_segment_paths_with_local_cache X R s secrets segment_paths =
     sbind (prune_stale_cached_segments segment_paths) (\<lambda>_.
     append_remote_pack_locations_from_segment_paths X R s secrets segment_paths [])"

text \<open>The segments of one operation are numbered; the loop ends at the first that is missing.\<close>

partial_function (option) append_operation_segments ::
  "pack_index_env \<Rightarrow> 's remote \<Rightarrow> 's \<Rightarrow> string \<Rightarrow> repo_secrets \<Rightarrow> nat \<Rightarrow> locations \<Rightarrow> locations res option" where
  "append_operation_segments X R s operation_id secrets batch_index locs =
     (case pack_paths operation_id batch_index of
        Inl e \<Rightarrow> Some (Inl e)
      | Inr (pack_id, data_path, index_path) \<Rightarrow>
          (case r_get R index_path s of
             Inl e \<Rightarrow> Some (if is_missing_physical_object_error e then Inr locs else Inl e)
           | Inr bytes \<Rightarrow>
               (case append_segment_locations X R (Some secrets) index_path bytes locs s of
                  Inl e \<Rightarrow> Some (Inl e)
                | Inr locs' \<Rightarrow> append_operation_segments X R s operation_id secrets (batch_index + 1) locs')))"

definition load_remote_operation_pack_locations_with_secrets ::
  "pack_index_env \<Rightarrow> 's remote \<Rightarrow> 's \<Rightarrow> string \<Rightarrow> repo_secrets \<Rightarrow> locations res option" where
  "load_remote_operation_pack_locations_with_secrets X R s operation_id secrets =
     (case validate_sync_identifier operation_id of
        Inl e \<Rightarrow> Some (Inl e)
      | Inr _ \<Rightarrow> append_operation_segments X R s operation_id secrets 0 [])"

end
