(* ===== verification/Pack_Index_Proofs.thy ===== *)
theory Pack_Index_Proofs
  imports Pack_Index Pack_Proofs
begin

text \<open>
  What a compacted pack index segment keeps of the segments it replaces, and when the cache of
  segments gives what the remote holds. The lemmas on the remote hold for every backend that keeps
  the contract of a blob store.
\<close>

section \<open>The entries of a segment and their locations\<close>

definition aggregate_location :: "aggregate_pack_index_entry \<Rightarrow> packed_object_location" where
  "aggregate_location e =
     \<lparr> loc_data_path = ae_data_path e, loc_offset = unat (ae_offset e), loc_length = unat (ae_length e) \<rparr>"

definition add_aggregate :: "aggregate_pack_index_entry list \<Rightarrow> locations \<Rightarrow> locations" where
  "add_aggregate es locs = foldl (\<lambda>m e. bt_insert (ae_object_id e) (aggregate_location e) m) locs es"

lemma add_aggregate_simps [simp]:
  "add_aggregate [] locs = locs"
  "add_aggregate (e # es) locs = add_aggregate es (bt_insert (ae_object_id e) (aggregate_location e) locs)"
  by (simp_all add: add_aggregate_def)

definition fits :: "aggregate_pack_index_entry list \<Rightarrow> locations \<Rightarrow> bool" where
  "fits es locs \<longleftrightarrow> distinct (map ae_object_id es) \<and>
     (\<forall>e \<in> set es. map_of locs (ae_object_id e) = None \<and> location_validate (aggregate_location e) = Inr ())"

lemma add_aggregate_ok: "bt_ok locs \<Longrightarrow> bt_ok (add_aggregate es locs)"
  by (induction es arbitrary: locs) auto

lemma map_of_add_aggregate:
  "bt_ok locs \<Longrightarrow> distinct (map ae_object_id es) \<Longrightarrow>
     map_of (add_aggregate es locs) = map_of locs ++ map_of (map (\<lambda>e. (ae_object_id e, aggregate_location e)) es)"
proof (induction es arbitrary: locs)
  case (Cons e es)
  have "ae_object_id e \<notin> dom (map_of (map (\<lambda>e. (ae_object_id e, aggregate_location e)) es))"
    using Cons.prems(2) by (simp add: dom_map_of_conv_image_fst image_image)
  with Cons show ?case by (auto simp: map_of_bt_insert map_add_def fun_eq_iff split: option.splits)
qed simp

lemma fits_Cons:
  "bt_ok locs \<Longrightarrow> fits (e # es) locs \<longleftrightarrow>
     map_of locs (ae_object_id e) = None \<and> location_validate (aggregate_location e) = Inr () \<and>
     fits es (bt_insert (ae_object_id e) (aggregate_location e) locs)"
  using all_new_after_insert [of locs es "ae_object_id e" "aggregate_location e" ae_object_id]
  by (auto simp: fits_def)

lemma append_aggregate_entries_Inr_iff:
  "bt_ok locs \<Longrightarrow> append_aggregate_entries es locs = Inr l \<longleftrightarrow> fits es locs \<and> l = add_aggregate es locs"
proof (induction es arbitrary: locs)
  case Nil
  then show ?case by (auto simp: fits_def)
next
  case (Cons e es)
  let ?locs = "bt_insert (ae_object_id e) (aggregate_location e) locs"
  have "append_aggregate_entries (e # es) locs = Inr l \<longleftrightarrow>
      map_of locs (ae_object_id e) = None \<and> location_validate (aggregate_location e) = Inr () \<and>
      append_aggregate_entries es ?locs = Inr l"
    by (auto simp: rbind_Inr_iff aggregate_location_def Let_def split: if_splits)
  also have "append_aggregate_entries es ?locs = Inr l \<longleftrightarrow> fits es ?locs \<and> l = add_aggregate es ?locs"
    using Cons by (intro Cons.IH) simp
  finally show ?case
    by (simp add: fits_Cons [OF Cons.prems])
qed

text \<open>The entries of the index of one pack are those of its aggregate form.\<close>

definition aggregate_of :: "string \<Rightarrow> object_pack_entry \<Rightarrow> aggregate_pack_index_entry" where
  "aggregate_of data_path e =
     \<lparr> ae_object_id = pe_object_id e, ae_data_path = data_path, ae_offset = pe_offset e, ae_length = pe_length e \<rparr>"

lemma aggregate_of_simps [simp]:
  "ae_object_id (aggregate_of dp e) = pe_object_id e"
  "aggregate_location (aggregate_of dp e) = entry_location dp e"
  by (simp_all add: aggregate_of_def aggregate_location_def entry_location_def)

lemma add_aggregate_of: "add_aggregate (map (aggregate_of dp) es) locs = add_entries dp es locs"
  by (induction es arbitrary: locs) auto

lemma append_segment_locations_entries:
  assumes "append_segment_locations X R secrets p bytes locs s = Inr l" and "bt_ok locs"
  obtains es where "read_segment_entries X secrets p bytes = Inr es" "fits es locs" "l = add_aggregate es locs"
proof (cases "starts_with p remote_pack_index_prefix")
  case True
  with assms(1) obtain plaintext index st where
    d: "decode_index_segment X secrets p bytes = Inr plaintext" "from_slice (px_index X) plaintext = Some index"
    and v: "starts_with (pi_data_path index) remote_pack_data_prefix"
      "rbind (validate_pack_relative_path (case strip_prefix remote_pack_data_prefix (pi_data_path index) of
         Some r \<Rightarrow> r | None \<Rightarrow> [])) (\<lambda>_. Inr ()) = Inr ()"
    and a: "append_entries (pi_data_path index) st 0 (pi_entries index) locs = Inr l"
    by (auto simp: append_segment_locations_def append_pack_index_locations_from_bytes_def
        append_pack_index_locations_def rbind_Inr_iff with_context_Inr_iff ok_or_Inr_iff split: if_splits)
  let ?es = "map (aggregate_of (pi_data_path index)) (pi_entries index)"
  have valid: "location_validate (entry_location (pi_data_path index) e) = Inr ()" for e
    using v by (simp add: location_validate_def entry_location_def)
  have "read_segment_entries X secrets p bytes = Inr ?es"
    using True d by (simp add: read_segment_entries_def aggregate_of_def [abs_def])
  moreover have "fits ?es locs"
    using a valid by (auto simp: fits_def append_entries_Inr_iff [OF assms(2)] comp_def)
  moreover have "l = add_aggregate ?es locs"
    using a by (simp add: append_entries_Inr_iff [OF assms(2)] add_aggregate_of)
  ultimately show thesis by (rule that)
next
  case False
  with assms obtain plaintext aggregate where
    "decode_index_segment X secrets p bytes = Inr plaintext" "decode_aggregate X plaintext = Inr aggregate"
    "append_aggregate_entries (as_entries aggregate) locs = Inr l"
    by (auto simp: append_segment_locations_def rbind_Inr_iff)
  with False that [of "as_entries aggregate"] show thesis
    by (simp add: read_segment_entries_def append_aggregate_entries_Inr_iff [OF assms(2)])
qed

section \<open>Reading without a cache\<close>

fun fresh_locations ::
  "pack_index_env \<Rightarrow> 's remote \<Rightarrow> repo_secrets option \<Rightarrow> string list \<Rightarrow> locations \<Rightarrow> 's \<Rightarrow> locations res" where
  "fresh_locations X R secrets [] locs s = Inr locs"
| "fresh_locations X R secrets (p # ps) locs s =
     rbind (validate_segment_path p) (\<lambda>_. rbind (r_get R p s) (\<lambda>bytes.
     rbind (append_segment_locations X R secrets p bytes locs s) (\<lambda>l.
     fresh_locations X R secrets ps l s)))"

lemma fresh_locations_append:
  "fresh_locations X R secrets (ps @ qs) locs s =
     rbind (fresh_locations X R secrets ps locs s) (\<lambda>l. fresh_locations X R secrets qs l s)"
  by (induction X R secrets ps locs s rule: fresh_locations.induct) (auto simp: rbind_def split: sum.splits)

lemma fresh_locations_split:
  assumes "fresh_locations X R secrets ps locs s = Inr l"
  obtains l1 where "fresh_locations X R secrets (take n ps) locs s = Inr l1"
    "fresh_locations X R secrets (drop n ps) l1 s = Inr l"
proof -
  have "rbind (fresh_locations X R secrets (take n ps) locs s) (\<lambda>l. fresh_locations X R secrets (drop n ps) l s) = Inr l"
    using assms fresh_locations_append [of X R secrets "take n ps" "drop n ps" locs s] by simp
  then show thesis using that unfolding rbind_Inr_iff by blast
qed

lemma append_segment_locations_ok:
  "append_segment_locations X R secrets p bytes locs s = Inr l \<Longrightarrow> bt_ok locs \<Longrightarrow> bt_ok l"
  by (auto elim!: append_segment_locations_entries simp: add_aggregate_ok)

lemma fresh_locations_ok:
  "fresh_locations X R secrets ps locs s = Inr l \<Longrightarrow> bt_ok locs \<Longrightarrow> bt_ok l"
  by (induction ps arbitrary: locs) (auto simp: rbind_Inr_iff dest: append_segment_locations_ok)

text \<open>A cache that holds, for the listed segments, what the remote holds.\<close>

definition cache_agrees :: "'s remote \<Rightarrow> 's \<Rightarrow> string list \<Rightarrow> files \<Rightarrow> bool" where
  "cache_agrees R s ps fs \<longleftrightarrow> bt_ok fs \<and>
     (\<forall>p \<in> set ps. \<forall>c. map_of fs (index_cache_path p) = Some c \<longrightarrow> r_get R p s = Inr c)"

lemma cache_agrees_tl: "cache_agrees R s (p # ps) fs \<Longrightarrow> cache_agrees R s ps fs"
  by (simp add: cache_agrees_def)

lemma cache_agrees_insert:
  "cache_agrees R s ps fs \<Longrightarrow> k \<notin> index_cache_path ` set ps \<Longrightarrow> cache_agrees R s ps (bt_insert k b fs)"
  by (auto simp: cache_agrees_def map_of_bt_insert split: if_splits)

lemma cache_agrees_remove: "cache_agrees R s ps fs \<Longrightarrow> cache_agrees R s ps (bt_remove k fs)"
  by (auto simp: cache_agrees_def map_of_bt_remove split: if_splits)

lemma load_segment_agrees:
  assumes "cache_agrees R s (p # ps) fs" and "r_get R p s = Inr bytes"
    and "index_cache_path p \<notin> index_cache_path ` set ps"
  shows "\<exists>fs'. load_segment_bytes_with_cache_recovery X R s secrets p fs = (Inr bytes, fs') \<and> cache_agrees R s ps fs'"
proof -
  note tl = cache_agrees_tl [OF assms(1)]
  have "map_of fs (index_cache_path p) = Some c \<Longrightarrow> c = bytes" for c
    using assms(1,2) by (auto simp: cache_agrees_def)
  with tl cache_agrees_insert [OF tl assms(3)] cache_agrees_insert [OF cache_agrees_remove [OF tl] assms(3)]
  show ?thesis
    by (cases "map_of fs (index_cache_path p)")
      (auto simp: load_segment_bytes_with_cache_recovery_def sbind_def slift_def Let_def assms(2))
qed

lemma load_segment_fails:
  assumes "cache_agrees R s (p # ps) fs" and "r_get R p s = Inl e"
  shows "fst (load_segment_bytes_with_cache_recovery X R s secrets p fs) = Inl e"
  using assms
  by (cases "map_of fs (index_cache_path p)")
    (auto simp: load_segment_bytes_with_cache_recovery_def cache_agrees_def sbind_def slift_def Let_def)

lemma cached_locations_fresh:
  "cache_agrees R s ps fs \<Longrightarrow> distinct (map index_cache_path ps) \<Longrightarrow>
     fst (append_remote_pack_locations_from_segment_paths X R s secrets ps locs fs)
       = fresh_locations X R secrets ps locs s"
proof (induction ps arbitrary: locs fs)
  case (Cons p ps)
  show ?case
  proof (cases "validate_segment_path p")
    case valid: (Inr u)
    show ?thesis
    proof (cases "r_get R p s")
      case (Inl e)
      with load_segment_fails [OF Cons.prems(1) Inl, of X secrets] valid show ?thesis
        by (cases "load_segment_bytes_with_cache_recovery X R s secrets p fs") (auto simp: sbind_def)
    next
      case (Inr bytes)
      from load_segment_agrees [OF Cons.prems(1) Inr, of X secrets] Cons.prems(2)
      obtain fs' where l: "load_segment_bytes_with_cache_recovery X R s secrets p fs = (Inr bytes, fs')"
        "cache_agrees R s ps fs'" by auto
      show ?thesis
        using valid Inr l Cons.IH [OF l(2)] Cons.prems(2)
        by (cases "append_segment_locations X R secrets p bytes locs s") (auto simp: sbind_def slift_def)
    qed
  qed simp
qed simp

lemma cache_agrees_empty [simp]: "cache_agrees R s ps []"
  by (simp add: cache_agrees_def)

lemma map_of_filter_keys: "map_of (filter (\<lambda>f. P (fst f)) fs) k = (if P k then map_of fs k else None)"
  by (induction fs) auto

lemma bt_ok_filter_keys: "bt_ok fs \<Longrightarrow> bt_ok (filter (\<lambda>f. P (fst f)) fs)"
  by (induction fs) (auto simp: bt_ok_def)

lemma prune_agrees:
  assumes "cache_agrees R s ps fs"
  shows "\<exists>fs'. prune_stale_cached_segments live fs = (Inr (), fs') \<and> cache_agrees R s ps fs'"
proof -
  let ?P = "\<lambda>k. \<not> (in_segment_cache k \<and> k \<notin> set (map index_cache_path live))"
  have "prune_stale_cached_segments live fs = (Inr (), filter (\<lambda>f. ?P (fst f)) fs)"
    by (simp only: prune_stale_cached_segments_def)
  moreover have "cache_agrees R s ps (filter (\<lambda>f. ?P (fst f)) fs)"
    unfolding cache_agrees_def map_of_filter_keys [of ?P]
    using assms bt_ok_filter_keys [of fs ?P] by (auto simp: cache_agrees_def)
  ultimately show ?thesis by blast
qed

section \<open>Compaction\<close>

text \<open>The merged entries give exactly the locations that were read.\<close>

definition mirrors :: "(string, aggregate_pack_index_entry) btree \<Rightarrow> locations \<Rightarrow> bool" where
  "mirrors m locs \<longleftrightarrow> bt_ok m \<and> locs = map (\<lambda>(i, e). (i, aggregate_location e)) m \<and>
     (\<forall>(i, e) \<in> set m. ae_object_id e = i \<and> location_validate (aggregate_location e) = Inr ())"

lemma bt_insert_map_values:
  "bt_insert k (f v) (map (\<lambda>(i, e). (i, f e)) m) = map (\<lambda>(i, e). (i, f e)) (bt_insert k v m)"
  by (induction m) (auto split: prod.splits)

lemma set_bt_insert_subset: "set (bt_insert k v m) \<subseteq> insert (k, v) (set m)"
  by (induction m) auto

lemma mirrors_insert:
  assumes "mirrors m locs" and "location_validate (aggregate_location e) = Inr ()"
  shows "mirrors (bt_insert (ae_object_id e) e m) (bt_insert (ae_object_id e) (aggregate_location e) locs)"
  using assms set_bt_insert_subset [of "ae_object_id e" e m]
  by (auto simp: mirrors_def bt_insert_map_values)

lemma mirrors_add:
  "mirrors m locs \<Longrightarrow> \<forall>e \<in> set es. location_validate (aggregate_location e) = Inr () \<Longrightarrow>
     mirrors (foldl (\<lambda>m e. bt_insert (ae_object_id e) e m) m es) (add_aggregate es locs)"
  by (induction es arbitrary: m locs) (auto simp: mirrors_insert)

lemma mirrors_ok: "mirrors m locs \<Longrightarrow> bt_ok locs"
  by (auto simp: mirrors_def bt_ok_def comp_def split_def)

lemma merge_segments_mirror:
  "fresh_locations X R (Some secrets) ps locs s = Inr l \<Longrightarrow> mirrors m locs \<Longrightarrow>
     \<exists>m'. merge_segments X R secrets ps m s = Inr m' \<and> mirrors m' l"
proof (induction ps arbitrary: locs m)
  case (Cons p ps)
  from Cons.prems(1) obtain bytes l1 where b: "r_get R p s = Inr bytes"
    and a: "append_segment_locations X R (Some secrets) p bytes locs s = Inr l1"
    and rest: "fresh_locations X R (Some secrets) ps l1 s = Inr l"
    by (auto simp: rbind_Inr_iff)
  from append_segment_locations_entries [OF a mirrors_ok [OF Cons.prems(2)]] obtain es where
    es: "read_segment_entries X (Some secrets) p bytes = Inr es" "fits es locs" "l1 = add_aggregate es locs"
    by blast
  have "mirrors (foldl (\<lambda>m e. bt_insert (ae_object_id e) e m) m es) l1"
    using mirrors_add [OF Cons.prems(2), of es] es by (simp add: fits_def)
  from Cons.IH [OF rest this] b es(1) show ?case by simp
qed simp

lemma mirrors_aggregate:
  assumes "mirrors m locs"
  shows "append_aggregate_entries (map snd m) [] = Inr locs"
proof -
  have ids: "map (ae_object_id \<circ> snd) m = map fst m"
    using assms by (intro map_cong) (auto simp: mirrors_def)
  have located: "map (\<lambda>e. (ae_object_id e, aggregate_location e)) (map snd m) = locs"
    using assms by (auto simp: mirrors_def)
  then have distinct: "distinct (map ae_object_id (map snd m))"
    using assms by (simp add: ids mirrors_def bt_ok_distinct)
  have "fits (map snd m) []"
    using assms distinct by (auto simp: fits_def mirrors_def)
  moreover have "add_aggregate (map snd m) [] = locs"
    using map_of_add_aggregate [OF bt_ok_Nil distinct] located mirrors_ok [OF assms]
    by (intro bt_eqI) (simp_all add: add_aggregate_ok)
  ultimately show ?thesis by (simp add: append_aggregate_entries_Inr_iff)
qed

section \<open>Backends whose statistics follow the contents\<close>

locale stat_blob_store = blob_store +
  assumes stat_none: "ok s \<Longrightarrow> view s p = None \<Longrightarrow> \<exists>e. r_stat R p s = Inl e"
begin

lemma stat_frame:
  "ok s \<Longrightarrow> ok s' \<Longrightarrow> view s' p = view s p \<Longrightarrow> r_stat R p s = Inr st \<Longrightarrow> r_stat R p s' = Inr st"
  using stat_none [of s p] stat_some [of s p] stat_some [of s' p]
  by (cases "view s p") (auto simp: split_paired_all)

lemma get_cong:
  "ok s \<Longrightarrow> ok s' \<Longrightarrow> view s' p = view s p \<Longrightarrow> r_get R p s = Inr b \<Longrightarrow> r_get R p s' = Inr b"
  using get_none [of s p] get_some [of s p] get_some [of s' p]
  by (cases "view s p") (auto simp: split_paired_all)

lemma append_segment_locations_frame:
  assumes "ok s" "ok s'" and "\<And>q. starts_with q remote_pack_data_prefix \<Longrightarrow> view s' q = view s q"
    and "append_segment_locations X R secrets p bytes locs s = Inr l"
  shows "append_segment_locations X R secrets p bytes locs s' = Inr l"
  using assms(4) stat_frame [OF assms(1,2) assms(3)]
  by (auto simp: append_segment_locations_def append_pack_index_locations_from_bytes_def
      append_pack_index_locations_def rbind_Inr_iff with_context_Inr_iff ok_or_Inr_iff split: if_splits)

lemma fresh_locations_frame:
  assumes "ok s" "ok s'" and "\<And>q. starts_with q remote_pack_data_prefix \<Longrightarrow> view s' q = view s q"
  shows "\<forall>p \<in> set ps. view s' p = view s p \<Longrightarrow> fresh_locations X R secrets ps locs s = Inr l \<Longrightarrow>
    fresh_locations X R secrets ps locs s' = Inr l"
proof (induction ps arbitrary: locs)
  case (Cons p ps)
  then show ?case
    using get_cong [OF assms(1,2), of p] append_segment_locations_frame [OF assms]
    by (fastforce simp: rbind_Inr_iff)
qed simp

lemma put_unless_stored:
  assumes "ok s"
  shows "\<exists>s'. (if stores_already R p b s then (Inr (), s) else r_put R p b s) = (Inr (), s') \<and> ok s' \<and>
    r_get R p s' = Inr b \<and> (\<forall>q. q \<noteq> p \<longrightarrow> view s' q = view s q)"
proof (cases "stores_already R p b s")
  case True
  then show ?thesis using assms by (auto simp: stores_already_def split: sum.splits)
next
  case False
  with put [OF assms, of p b] get_after_put [OF assms] show ?thesis by fastforce
qed

end

interpretation memory_stat: stat_blob_store "memory_remote ref_json root_json" mem_ok mem_view clock
  for ref_json root_json
proof unfold_locales
  fix s p assume "mem_ok s" "mem_view s p = None"
  then show "\<exists>e. r_stat (memory_remote ref_json root_json) p s = Inl e"
    by (simp add: memory_remote_def stat_physical_def get_physical_def mem_view_None)
qed

section \<open>What publishing a root leaves\<close>

text \<open>The segments a published root lists.\<close>

definition published_segments :: "u64 \<Rightarrow> string list \<Rightarrow> string list" where
  "published_segments gen ps =
     (if length ps \<le> 4 then ps else compacted_segment_path gen # drop (length ps - 3) ps)"

lemma compacted_path_facts:
  "starts_with (compacted_segment_path gen) pack_index_compacted_segment_prefix"
  "\<not> starts_with (compacted_segment_path gen) remote_pack_index_prefix"
  "\<not> starts_with (compacted_segment_path gen) remote_pack_data_prefix"
  "compacted_segment_path gen \<noteq> pack_index_root_path"
  "\<not> starts_with pack_index_root_path remote_pack_data_prefix"
  "validate_segment_path pack_index_root_path \<noteq> Inr ()"
  by (simp_all add: compacted_segment_path_def pack_index_compacted_segment_prefix_def starts_with_def
      remote_pack_index_prefix_def remote_pack_data_prefix_def pack_index_root_path_def validate_segment_path_def)

lemma fresh_locations_valid:
  "fresh_locations X R secrets ps locs s = Inr l \<Longrightarrow> p \<in> set ps \<Longrightarrow> validate_segment_path p = Inr ()"
  by (induction ps arbitrary: locs) (auto simp: rbind_Inr_iff)

context stat_blob_store
begin

lemma build_compacted_readable:
  assumes "fresh_locations X R (Some secrets) ps [] s = Inr l"
    and "crypto_ok (px_crypto X)" "serde_ok (px_postcard X)" "serde_ok (px_segment X)"
    and "build_compacted_segment_bytes X R secrets ps (compacted_segment_path gen) s = Inr bytes"
  shows "append_segment_locations X R (Some secrets) (compacted_segment_path gen) bytes [] s' = Inr l"
proof -
  have "mirrors [] []" by (simp add: mirrors_def)
  from merge_segments_mirror [OF assms(1) this] obtain m where
    m: "merge_segments X R secrets ps [] s = Inr m" "mirrors m l" by blast
  with assms(5) have "encode_index_segment X secrets (compacted_segment_path gen)
      (to_vec (px_segment X) \<lparr> as_schema_version = pack_index_root_schema_version, as_entries = map snd m \<rparr>) = Inr bytes"
    by (simp add: build_compacted_segment_bytes_def)
  from decrypt_encrypted [OF assms(2,3) this [unfolded encode_index_segment_def]]
  have "decode_index_segment X (Some secrets) (compacted_segment_path gen) bytes =
      Inr (to_vec (px_segment X) \<lparr> as_schema_version = pack_index_root_schema_version, as_entries = map snd m \<rparr>)"
    by (simp add: decode_index_segment_def ok_or_def with_context_def)
  then show ?thesis
    using mirrors_aggregate [OF m(2)] assms(4)
    by (simp add: append_segment_locations_def compacted_path_facts decode_aggregate_def ok_or_def with_context_def)
qed

lemma compact_effect:
  assumes ok: "ok s" and read: "fresh_locations X R (Some secrets) ps [] s = Inr l"
    and env: "crypto_ok (px_crypto X)" "serde_ok (px_postcard X)" "serde_ok (px_segment X)"
    and fresh: "compacted_segment_path gen \<notin> set (drop (length ps - 3) ps)"
    and run: "compact_segment_paths_if_needed X R secrets gen ps s = (Inr qs, s')"
  shows "qs = published_segments gen ps \<and> ok s' \<and> (\<forall>q. q \<noteq> compacted_segment_path gen \<longrightarrow> view s' q = view s q) \<and>
    fresh_locations X R (Some secrets) qs [] s' = Inr l"
proof (cases "length ps \<le> 4")
  case True
  with run ok read show ?thesis
    by (simp add: compact_segment_paths_if_needed_def pack_index_segment_bound_def published_segments_def)
next
  case False
  let ?c = "compacted_segment_path gen" and ?old = "take (length ps - 3) ps" and ?new = "drop (length ps - 3) ps"
  from fresh_locations_split [OF read] obtain l1 where
    l1: "fresh_locations X R (Some secrets) ?old [] s = Inr l1" "fresh_locations X R (Some secrets) ?new l1 s = Inr l" .
  from run False obtain bytes where b: "build_compacted_segment_bytes X R secrets ?old ?c s = Inr bytes"
    and w: "(if stores_already R ?c bytes s then (Inr (), s) else r_put R ?c bytes s) = (Inr (), s')"
    and qs: "qs = ?c # ?new"
    by (cases "build_compacted_segment_bytes X R secrets ?old ?c s")
      (auto simp: compact_segment_paths_if_needed_def pack_index_segment_bound_def Let_def sbind_Inr_iff)
  from put_unless_stored [OF ok, of ?c bytes] w
  have s': "ok s'" "r_get R ?c s' = Inr bytes" "\<forall>q. q \<noteq> ?c \<longrightarrow> view s' q = view s q" by auto
  have "fresh_locations X R (Some secrets) ?new l1 s' = Inr l"
    using s' fresh compacted_path_facts(3) by (intro fresh_locations_frame [OF ok s'(1) _ _ l1(2)]) metis+
  moreover have "append_segment_locations X R (Some secrets) ?c bytes [] s' = Inr l1"
    by (rule build_compacted_readable [OF l1(1) env b])
  moreover have "validate_segment_path ?c = Inr ()" by (simp add: validate_segment_path_def compacted_path_facts)
  ultimately show ?thesis using s' qs False by (simp add: published_segments_def)
qed

lemma publish_effect:
  assumes ok: "ok s" and read: "fresh_locations X R (Some secrets) ps [] s = Inr l"
    and env: "crypto_ok (px_crypto X)" "serde_ok (px_postcard X)" "serde_ok (px_segment X)" "serde_ok (px_root X)"
    and fresh: "compacted_segment_path gen \<notin> set (drop (length ps - 3) ps)"
    and run: "publish_pack_index_root X R secrets layout_id gen ps s = (Inr (), s')"
  shows "ok s' \<and> fresh_locations X R (Some secrets) (published_segments gen ps) [] s' = Inr l \<and>
    (\<exists>rb. r_get R pack_index_root_path s' = Inr rb \<and> decode_pack_index_root_bytes X (Some secrets) rb =
       Inr \<lparr> pr_schema_version = pack_index_root_schema_version, pr_layout_id = layout_id,
             pr_layout_generation = gen, pr_generation = gen, pr_segments = published_segments gen ps \<rparr>)"
proof -
  let ?root = "\<lambda>qs. \<lparr> pr_schema_version = pack_index_root_schema_version, pr_layout_id = layout_id,
      pr_layout_generation = gen, pr_generation = gen, pr_segments = qs \<rparr>"
  from run obtain qs s1 where c: "compact_segment_paths_if_needed X R secrets gen ps s = (Inr qs, s1)"
    and rest: "sbind (slift (encode_pack_index_root_bytes X secrets (?root qs))) (\<lambda>rb t.
        if stores_already R pack_index_root_path rb t then (Inr (), t) else r_put R pack_index_root_path rb t) s1
      = (Inr (), s')"
    unfolding publish_pack_index_root_def publish_pack_index_root_with_observed_current_def sbind_Inr_iff option.case
    by blast
  from rest obtain rb where rb: "encode_pack_index_root_bytes X secrets (?root qs) = Inr rb"
    and w: "(if stores_already R pack_index_root_path rb s1 then (Inr (), s1)
        else r_put R pack_index_root_path rb s1) = (Inr (), s')"
    by (cases "encode_pack_index_root_bytes X secrets (?root qs)") auto
  from compact_effect [OF ok read env(1-3) fresh c] have s1: "ok s1" and qs: "qs = published_segments gen ps"
    and l: "fresh_locations X R (Some secrets) qs [] s1 = Inr l" by auto
  from put_unless_stored [OF s1, of pack_index_root_path rb] w
  have s': "ok s'" "r_get R pack_index_root_path s' = Inr rb"
    "\<forall>q. q \<noteq> pack_index_root_path \<longrightarrow> view s' q = view s1 q" by auto
  have "pack_index_root_path \<notin> set qs"
    using fresh_locations_valid [OF l] compacted_path_facts(6) by blast
  then have "fresh_locations X R (Some secrets) qs [] s' = Inr l"
    using s' compacted_path_facts(5) by (intro fresh_locations_frame [OF s1 s'(1) _ _ l]) metis+
  moreover have "decode_pack_index_root_bytes X (Some secrets) rb = Inr (?root qs)"
    using decrypt_encrypted [OF env(1,2) rb [unfolded encode_pack_index_root_bytes_def]] env(4)
    by (simp add: decode_pack_index_root_bytes_def ok_or_def with_context_def)
  ultimately show ?thesis using s' qs by blast
qed

lemma publish_succeeds:
  assumes ok: "ok s" and read: "fresh_locations X R (Some secrets) ps [] s = Inr l"
    and seal: "\<And>n t p. \<exists>b. encrypt_control_record (px_crypto X) (px_postcard X) secrets n t p = Inr b"
  shows "\<exists>s'. publish_pack_index_root X R secrets layout_id gen ps s = (Inr (), s')"
proof -
  let ?old = "take (length ps - 3) ps"
  from fresh_locations_split [OF read] obtain l1 where
    l1: "fresh_locations X R (Some secrets) ?old [] s = Inr l1" .
  have "mirrors [] []" by (simp add: mirrors_def)
  from merge_segments_mirror [OF l1 this] seal obtain bytes where
    "build_compacted_segment_bytes X R secrets ?old (compacted_segment_path gen) s = Inr bytes"
    by (fastforce simp: build_compacted_segment_bytes_def encode_index_segment_def)
  then obtain qs s1 where c: "compact_segment_paths_if_needed X R secrets gen ps s = (Inr qs, s1)" and s1: "ok s1"
    using put_unless_stored [OF ok, of "compacted_segment_path gen" bytes] ok that
    by (cases "length ps \<le> 4")
      (auto simp: compact_segment_paths_if_needed_def pack_index_segment_bound_def Let_def sbind_def split: if_splits)
  obtain rb where "encode_pack_index_root_bytes X secrets \<lparr> pr_schema_version = pack_index_root_schema_version,
      pr_layout_id = layout_id, pr_layout_generation = gen, pr_generation = gen, pr_segments = qs \<rparr> = Inr rb"
    using seal unfolding encode_pack_index_root_bytes_def by blast
  then show ?thesis
    using c put_unless_stored [OF s1, of pack_index_root_path rb]
    unfolding publish_pack_index_root_def publish_pack_index_root_with_observed_current_def
    by (auto simp: sbind_def slift_def)
qed

lemma load_published:
  assumes root: "r_get R pack_index_root_path s = Inr rb"
      "decode_pack_index_root_bytes X (Some secrets) rb = Inr r" "validate_pack_index_root r = Inr ()"
    and agrees: "cache_agrees R s (pr_segments r) fs" and names: "distinct (map index_cache_path (pr_segments r))"
    and l: "fresh_locations X R (Some secrets) (pr_segments r) [] s = Inr l"
  shows "fst (load_remote_pack_locations_with_local_cache X R s (Some secrets) fs) = Inr l"
proof -
  from prune_agrees [OF agrees, of "pr_segments r"] obtain fs1 where
    p: "prune_stale_cached_segments (pr_segments r) fs = (Inr (), fs1)" "cache_agrees R s (pr_segments r) fs1" by blast
  have "fst (append_remote_pack_locations_from_segment_paths X R s (Some secrets) (pr_segments r) [] fs1) = Inr l"
    using cached_locations_fresh [OF p(2) names] l by simp
  then obtain fs2 where
    "append_remote_pack_locations_from_segment_paths X R s (Some secrets) (pr_segments r) [] fs1 = (Inr l, fs2)"
    by (metis fst_conv surj_pair)
  then show ?thesis
    using root p(1)
    by (simp add: load_remote_pack_locations_with_local_cache_def load_remote_pack_index_root_bytes_def
        load_remote_pack_locations_with_observed_root_and_local_cache_def sbind_def slift_def sret_def
        persist_root_cache_if_changed_def)
qed

end

end
