(* ===== verification/Pack_Index_Claims.thy ===== *)
theory Pack_Index_Claims
  imports Pack_Index_Proofs Sync_Support_Claims
begin

text \<open>
  Compaction of the pack index, and the limit of the cache of its segments.
\<close>

text \<open>C28: Compacting the pack index loses and changes nothing. When the segments of a list give the
  locations \<open>L\<close>, publishing that list (which replaces all but the last three segments by one
  compacted segment once there are more than four) leaves a remote whose root is read back to exactly
  \<open>L\<close>, through any cache that holds no other bytes for these segments than the remote does.\<close>

theorem compaction_keeps_locations:
  assumes ok: "mem_ok s" and crypto: "crypto_ok (px_crypto X)"
    and codecs: "serde_ok (px_postcard X)" "serde_ok (px_segment X)" "serde_ok (px_root X)"
    and layout: "\<not> blank layout_id"
    and read: "fst (append_remote_pack_locations_from_segment_paths X (memory_remote rj lj) s (Some secrets) ps [] []) = Inr L"
    and names: "distinct (map index_cache_path ps)"
      "index_cache_path (compacted_segment_path gen) \<notin> index_cache_path ` set (drop (length ps - 3) ps)"
    and publish: "publish_pack_index_root X (memory_remote rj lj) secrets layout_id gen ps s = (Inr (), s')"
    and cache: "bt_ok fs" "\<forall>p \<in> set (compacted_segment_path gen # ps). \<forall>c.
      map_of fs (index_cache_path p) = Some c \<longrightarrow> get_physical p s' = Inr c"
  shows "fst (load_remote_pack_locations_with_local_cache X (memory_remote rj lj) s' (Some secrets) fs) = Inr L"
proof -
  let ?R = "memory_remote rj lj"
  have fresh: "fresh_locations X ?R (Some secrets) ps [] s = Inr L"
    using read cached_locations_fresh [of ?R s ps "[]" X "Some secrets" "[]"] names(1) by simp
  have new: "compacted_segment_path gen \<notin> set (drop (length ps - 3) ps)" using names(2) by blast
  from memory_stat.publish_effect [OF ok fresh crypto codecs new publish] obtain rb where
    l: "fresh_locations X ?R (Some secrets) (published_segments gen ps) [] s' = Inr L"
    and rb: "r_get ?R pack_index_root_path s' = Inr rb"
      "decode_pack_index_root_bytes X (Some secrets) rb = Inr \<lparr> pr_schema_version = pack_index_root_schema_version,
         pr_layout_id = layout_id, pr_layout_generation = gen, pr_generation = gen,
         pr_segments = published_segments gen ps \<rparr>" by blast
  have sub: "set (published_segments gen ps) \<subseteq> set (compacted_segment_path gen # ps)"
    using set_drop_subset [of "length ps - 3" ps] by (auto simp: published_segments_def)
  have agrees: "cache_agrees ?R s' (published_segments gen ps) fs"
    using cache sub unfolding cache_agrees_def by (auto simp: memory_remote_def)
  have "distinct (map index_cache_path (drop (length ps - 3) ps))"
    using names(1) by (metis distinct_drop drop_map)
  then have "distinct (map index_cache_path (published_segments gen ps))"
    using names by (simp add: published_segments_def)
  then show ?thesis
    using memory_stat.load_published [OF rb] agrees l layout by (simp add: validate_pack_index_root_def)
qed

section \<open>A sample index\<close>

definition sample_pack_index_env :: pack_index_env where
  "sample_pack_index_env = \<lparr> px_crypto = plain_crypto, px_postcard = unary_codec, px_root = unary_codec,
     px_index = unary_codec, px_segment = unary_codec \<rparr>"

text \<open>Five aggregate segments; the first has the object \<^verbatim>\<open>aa\<close>, the others are empty.\<close>

definition sample_segment_paths :: "string list" where
  "sample_segment_paths = map (\<lambda>c. ''pack-index/segments/'' @ [c]) ''vwxyz''"

definition sample_entries :: "string \<Rightarrow> aggregate_pack_index_entry list" where
  "sample_entries p = (if p = ''pack-index/segments/v''
     then [\<lparr> ae_object_id = ''aa'', ae_data_path = ''packs/data/p.bin'', ae_offset = 0, ae_length = 4 \<rparr>] else [])"

definition sample_segments :: "(string \<Rightarrow> byte list) \<Rightarrow> mem" where
  "sample_segments f = (mem_new 0)\<lparr> physical := map (\<lambda>p. (p, f p)) sample_segment_paths,
     physical_modified_at := map (\<lambda>p. (p, 0)) sample_segment_paths \<rparr>"

lemma sample_segments_ok: "mem_ok (sample_segments f)"
  by (simp add: mem_ok_def sample_segments_def mem_new_def bt_ok_def sample_segment_paths_def
      dom_map_of_conv_image_fst)

definition sample_loc :: packed_object_location where
  "sample_loc = \<lparr> loc_data_path = ''packs/data/p.bin'', loc_offset = 0, loc_length = 4 \<rparr>"

lemma sample_segment_read:
  assumes "\<And>p. encode_index_segment sample_pack_index_env sample_secrets p (to_vec (unary_codec :: aggregate_pack_index_segment serde)
      \<lparr> as_schema_version = 1, as_entries = sample_entries p \<rparr>) = Inr (f p)"
    and "\<not> starts_with p remote_pack_index_prefix"
  shows "append_segment_locations sample_pack_index_env R (Some sample_secrets) p (f p) locs s
    = append_aggregate_entries (sample_entries p) locs"
proof -
  have "decode_index_segment sample_pack_index_env (Some sample_secrets) p (f p) = Inr (to_vec unary_codec
      \<lparr> as_schema_version = 1, as_entries = sample_entries p \<rparr>)"
    using decrypt_encrypted [of plain_crypto unary_codec, OF plain_crypto_ok serde_ok_unary] assms(1) [of p]
    by (simp add: decode_index_segment_def encode_index_segment_def sample_pack_index_env_def ok_or_def with_context_def)
  then show ?thesis
    using assms(2) by (simp add: append_segment_locations_def decode_aggregate_def sample_pack_index_env_def
        ok_or_def with_context_def unary_roundtrip pack_index_root_schema_version_def)
qed

lemma sample_fresh:
  assumes "\<And>p. encode_index_segment sample_pack_index_env sample_secrets p (to_vec (unary_codec :: aggregate_pack_index_segment serde)
      \<lparr> as_schema_version = 1, as_entries = sample_entries p \<rparr>) = Inr (f p)"
  shows "fresh_locations sample_pack_index_env (memory_remote unary_codec unary_codec) (Some sample_secrets)
    sample_segment_paths [] (sample_segments f) = Inr [(''aa'', sample_loc)]"
proof -
  let ?R = "memory_remote unary_codec unary_codec" and ?s = "sample_segments f" and ?v = "''pack-index/segments/v''"
  have get: "r_get (memory_remote unary_codec unary_codec) p (sample_segments f) = Inr (f p)"
    if "p \<in> set sample_segment_paths" for p
    using that by (auto simp: memory_remote_def get_physical_def sample_segments_def sample_segment_paths_def)
  have paths: "\<not> starts_with p remote_pack_index_prefix \<and> validate_segment_path p = Inr ()"
    if "p \<in> set sample_segment_paths" for p
    using that by (auto simp: sample_segment_paths_def remote_pack_index_prefix_def starts_with_def validate_segment_path_def
        pack_index_compacted_segment_prefix_def)
  have step: "fresh_locations sample_pack_index_env ?R (Some sample_secrets) (p # qs) locs ?s =
      rbind (append_aggregate_entries (sample_entries p) locs) (\<lambda>l.
      fresh_locations sample_pack_index_env ?R (Some sample_secrets) qs l ?s)"
    if "p \<in> set sample_segment_paths" for p qs locs
    using get [OF that] paths [OF that] sample_segment_read [where R = ?R, OF assms, of p] by simp
  have rest: "fresh_locations sample_pack_index_env ?R (Some sample_secrets) qs locs ?s = Inr locs"
    if "set qs \<subseteq> set sample_segment_paths" "?v \<notin> set qs" for qs locs
    using that
  proof (induction qs)
    case (Cons q qs)
    then have "sample_entries q = []" by (auto simp: sample_entries_def)
    with Cons show ?case using step [of q qs locs] by simp
  qed simp
  have "location_validate sample_loc = Inr ()" by code_simp
  then have first: "append_aggregate_entries (sample_entries ?v) [] = Inr [(''aa'', sample_loc)]"
    by (simp add: sample_entries_def sample_loc_def)
  have split: "sample_segment_paths = ?v # tl sample_segment_paths" by (simp add: sample_segment_paths_def)
  have "?v \<in> set sample_segment_paths" "set (tl sample_segment_paths) \<subseteq> set sample_segment_paths"
    "?v \<notin> set (tl sample_segment_paths)" by (simp_all add: sample_segment_paths_def)
  then show ?thesis using first rest [of "tl sample_segment_paths"] step [of ?v "tl sample_segment_paths" "[]"] split by simp
qed

theorem compaction_keeps_locations_witness:
  "\<exists>f s'. publish_pack_index_root sample_pack_index_env (memory_remote unary_codec unary_codec) sample_secrets ''l'' 7
       sample_segment_paths (sample_segments f) = (Inr (), s') \<and>
     fst (load_remote_pack_locations_with_local_cache sample_pack_index_env (memory_remote unary_codec unary_codec) s'
       (Some sample_secrets) []) = Inr [(''aa'', sample_loc)]"
proof -
  let ?X = sample_pack_index_env and ?R = "memory_remote unary_codec unary_codec"
  have X: "px_crypto ?X = plain_crypto" "px_postcard ?X = unary_codec" "serde_ok (px_segment ?X)" "serde_ok (px_root ?X)"
    by (simp_all add: sample_pack_index_env_def)
  have seal: "\<exists>b. encrypt_control_record (px_crypto ?X) (px_postcard ?X) sample_secrets n t p = Inr b" for n t p
    using sample_encrypt by (simp add: X)
  then have "\<forall>p. \<exists>b. encode_index_segment ?X sample_secrets p (to_vec (unary_codec :: aggregate_pack_index_segment serde)
      \<lparr> as_schema_version = 1, as_entries = sample_entries p \<rparr>) = Inr b" unfolding encode_index_segment_def by blast
  then obtain f where f: "\<And>p. encode_index_segment ?X sample_secrets p (to_vec (unary_codec :: aggregate_pack_index_segment serde)
      \<lparr> as_schema_version = 1, as_entries = sample_entries p \<rparr>) = Inr (f p)" by metis
  note fresh = sample_fresh [OF f]
  from memory_stat.publish_succeeds [OF sample_segments_ok fresh seal] obtain s' where
    pub: "publish_pack_index_root ?X ?R sample_secrets ''l'' 7 sample_segment_paths (sample_segments f) = (Inr (), s')" by blast
  have names: "distinct (map index_cache_path sample_segment_paths)"
    "index_cache_path (compacted_segment_path 7) \<notin> index_cache_path ` set (drop (length sample_segment_paths - 3) sample_segment_paths)"
    by code_simp+
  have read: "fst (append_remote_pack_locations_from_segment_paths ?X ?R (sample_segments f) (Some sample_secrets)
      sample_segment_paths [] []) = Inr [(''aa'', sample_loc)]"
    using cached_locations_fresh [of ?R "sample_segments f" sample_segment_paths "[]" ?X "Some sample_secrets" "[]"] names(1) fresh
    by simp
  have "\<not> blank ''l''" by code_simp
  from compaction_keeps_locations [OF sample_segments_ok _ _ X(3,4) this read names pub bt_ok_Nil] pub plain_crypto_ok
  show ?thesis by (auto simp: X)
qed

section \<open>What the cache of segments never notices\<close>

text \<open>
  A cached copy that still decodes is used whatever the remote holds now, and pruning keeps it while
  the root lists its path. Compacted segments are rewritten in place when the layout generation
  stays, so a reader with an earlier copy does not see what a later compaction added.
\<close>

definition cached_copy :: "pack_index_env \<Rightarrow> repo_secrets option \<Rightarrow> files \<Rightarrow> string \<Rightarrow> bool" where
  "cached_copy X secrets fs p \<longleftrightarrow> starts_with p pack_index_compacted_segment_prefix \<and>
     (case map_of fs (index_cache_path p) of None \<Rightarrow> False | Some c \<Rightarrow> is_ok (read_segment_entries X secrets p c))"

lemma encoded_segment_decodes:
  assumes "crypto_ok (px_crypto X)" "serde_ok (px_postcard X)" "serde_ok (px_segment X)"
    and "encode_index_segment X secrets p (to_vec (px_segment X)
      \<lparr> as_schema_version = pack_index_root_schema_version, as_entries = es \<rparr>) = Inr c"
  shows "rbind (decode_index_segment X (Some secrets) p c) (decode_aggregate X) =
    Inr \<lparr> as_schema_version = pack_index_root_schema_version, as_entries = es \<rparr>"
  using assms by (simp add: encode_index_segment_def decode_index_segment_def decode_aggregate_def decrypt_encrypted
      ok_or_def with_context_def serde_ok_def)

lemma compacted_not_pack:
  "starts_with p pack_index_compacted_segment_prefix \<Longrightarrow>
     \<not> starts_with p remote_pack_index_prefix \<and> \<not> starts_with p remote_pack_data_prefix \<and> p \<noteq> pack_index_root_path"
  by (auto simp: starts_with_iff pack_index_compacted_segment_prefix_def remote_pack_index_prefix_def
      remote_pack_data_prefix_def pack_index_root_path_def)

text \<open>Two states of the remote that a reader cannot tell apart outside the segments it has copies of.\<close>

definition same_outside :: "'s remote \<Rightarrow> 's \<Rightarrow> 's \<Rightarrow> string set \<Rightarrow> bool" where
  "same_outside R s1 s2 P \<longleftrightarrow>
     (\<forall>p. p \<notin> P \<longrightarrow> r_get R p s1 = r_get R p s2 \<and> r_stat R p s1 = r_stat R p s2)"

lemma append_segment_same:
  fixes R :: "'s remote"
  assumes "same_outside R s1 s2 P" "\<forall>p \<in> P. starts_with p pack_index_compacted_segment_prefix"
  shows "append_segment_locations X R secrets p c locs s1 = append_segment_locations X R secrets p c locs s2"
proof -
  have "r_stat R d s1 = r_stat R d s2" if "starts_with d remote_pack_data_prefix" for d
    using that assms compacted_not_pack unfolding same_outside_def by blast
  then have "append_pack_index_locations R index locs s1 = append_pack_index_locations R index locs s2" for index
    by (simp add: append_pack_index_locations_def cong: if_cong)
  then show ?thesis
    by (simp add: append_segment_locations_def append_pack_index_locations_from_bytes_def)
qed

text \<open>Loading a segment touches only its own file of the cache.\<close>

lemma loaded_segment_files:
  fixes R :: "'s remote"
  assumes "load_segment_bytes_with_cache_recovery X R s secrets p fs = (out, fs')" "k \<noteq> index_cache_path p" "bt_ok fs"
  shows "map_of fs' k = map_of fs k \<and> bt_ok fs'"
  using assms
  by (auto simp: load_segment_bytes_with_cache_recovery_def Let_def sbind_def map_of_bt_insert map_of_bt_remove
      split: option.splits if_splits sum.splits)

lemma load_segment_same:
  fixes R :: "'s remote"
  assumes "cached_copy X secrets fs p \<or> r_get R p s1 = r_get R p s2"
  shows "load_segment_bytes_with_cache_recovery X R s1 secrets p fs =
    load_segment_bytes_with_cache_recovery X R s2 secrets p fs"
  using assms
  by (auto simp: cached_copy_def load_segment_bytes_with_cache_recovery_def Let_def split: option.splits)

lemma cached_locations_state:
  fixes R :: "'s remote"
  assumes "same_outside R s1 s2 P" "\<forall>p \<in> P. starts_with p pack_index_compacted_segment_prefix"
  shows "bt_ok fs \<Longrightarrow> distinct (map index_cache_path ps) \<Longrightarrow>
     \<forall>p \<in> set ps \<inter> P. cached_copy X secrets fs p \<Longrightarrow>
     append_remote_pack_locations_from_segment_paths X R s1 secrets ps locs fs =
     append_remote_pack_locations_from_segment_paths X R s2 secrets ps locs fs"
proof (induction ps arbitrary: locs fs)
  case (Cons p ps)
  have load: "load_segment_bytes_with_cache_recovery X R s1 secrets p fs =
      load_segment_bytes_with_cache_recovery X R s2 secrets p fs"
    using Cons.prems(3) assms(1) by (intro load_segment_same) (auto simp: same_outside_def)
  obtain out fs' where out: "load_segment_bytes_with_cache_recovery X R s2 secrets p fs = (out, fs')" by fastforce
  have "cached_copy X secrets fs' q" if q: "q \<in> set ps \<inter> P" for q
  proof -
    have "index_cache_path q \<noteq> index_cache_path p" using Cons.prems(2) q by (metis IntD1 distinct.simps(2) imageI list.simps(9) list.set_map)
    from loaded_segment_files [OF out this Cons.prems(1)] have "map_of fs' (index_cache_path q) = map_of fs (index_cache_path q)"
      by blast
    then show ?thesis using Cons.prems(3) q by (simp add: cached_copy_def)
  qed
  moreover have "bt_ok fs'"
    using Cons.prems(1) out
    by (auto simp: load_segment_bytes_with_cache_recovery_def Let_def sbind_def
      split: option.splits if_splits sum.splits)
  ultimately have rest: "append_remote_pack_locations_from_segment_paths X R s1 secrets ps l fs' =
      append_remote_pack_locations_from_segment_paths X R s2 secrets ps l fs'" for l
    using Cons.IH Cons.prems(2) by simp
  show ?case
    using rest append_segment_same [OF assms, of X secrets p]
    by (cases out) (simp_all add: load out sbind_def split: sum.splits)
qed simp

text \<open>
  Which locations a client reads does not depend on what the compacted segments hold of which its
  cache has a copy that decodes: two remotes that differ in nothing but such segments (of those that
  the root lists; their file names in the cache are distinct) give the same answer and leave the same
  cache, whatever other segments the root lists.
\<close>

theorem cached_segments_never_refreshed:
  fixes R :: "'s remote"
  assumes root: "load_remote_pack_index_root_bytes R s1 = Inr (Some rb)"
      "decode_pack_index_root_bytes X secrets rb = Inr r"
    and names: "distinct (map index_cache_path (pr_segments r))" and fs: "bt_ok fs"
    and same: "same_outside R s1 s2 {p \<in> set (pr_segments r). cached_copy X secrets fs p}"
  shows "load_remote_pack_locations_with_local_cache X R s1 secrets fs
       = load_remote_pack_locations_with_local_cache X R s2 secrets fs"
proof -
  let ?C = "{p \<in> set (pr_segments r). cached_copy X secrets fs p}"
  let ?P = "\<lambda>k. \<not> (in_segment_cache k \<and> k \<notin> set (map index_cache_path (pr_segments r)))"
  let ?fs = "filter (\<lambda>f. ?P (fst f)) fs"
  have compacted: "\<forall>p \<in> ?C. starts_with p pack_index_compacted_segment_prefix"
    by (simp add: cached_copy_def)
  then have "pack_index_root_path \<notin> ?C" using compacted_not_pack by blast
  then have "load_remote_pack_index_root_bytes R s2 = load_remote_pack_index_root_bytes R s1"
    using same by (simp add: same_outside_def load_remote_pack_index_root_bytes_def)
  with root have root2: "load_remote_pack_index_root_bytes R s2 = Inr (Some rb)" by simp
  have prune: "prune_stale_cached_segments (pr_segments r) fs = (Inr (), ?fs)"
    by (simp only: prune_stale_cached_segments_def)
  have "map_of ?fs (index_cache_path p) = map_of fs (index_cache_path p)" if "p \<in> set (pr_segments r)" for p
    using that by (simp only: map_of_filter_keys [of ?P]) simp
  then have "\<forall>p \<in> set (pr_segments r) \<inter> ?C. cached_copy X secrets ?fs p"
    unfolding cached_copy_def by simp
  from cached_locations_state [OF same compacted bt_ok_filter_keys [OF fs] names this, of "[]"] show ?thesis
    unfolding load_remote_pack_locations_with_local_cache_def
      load_remote_pack_locations_with_observed_root_and_local_cache_def
    by (simp add: root root2 prune sbind_def split: sum.splits)
qed

text \<open>A client that cached an empty compacted segment, and the segment that replaced it.\<close>

definition sample_index_state :: "byte list \<Rightarrow> byte list \<Rightarrow> mem" where
  "sample_index_state rb c = (mem_new 0)\<lparr> physical :=
     [(pack_index_root_path, rb), (''pack-index/segments/v'', c)] \<rparr>"

theorem cached_segments_never_refreshed_witness:
  "\<exists>fs s. let load = load_remote_pack_locations_with_local_cache sample_pack_index_env
       (memory_remote unary_codec unary_codec) s (Some sample_secrets)
     in fst (load []) = Inr [(''aa'', sample_loc)] \<and> fst (load fs) = Inr []"
proof -
  let ?X = sample_pack_index_env and ?R = "memory_remote unary_codec unary_codec" and ?v = "''pack-index/segments/v''"
  let ?root = "\<lparr> pr_schema_version = pack_index_root_schema_version, pr_layout_id = ''l'', pr_layout_generation = 7,
    pr_generation = 7, pr_segments = [?v] \<rparr>"
  have X: "crypto_ok (px_crypto ?X)" "serde_ok (px_postcard ?X)" "serde_ok (px_segment ?X)" "serde_ok (px_root ?X)"
    by (simp_all add: sample_pack_index_env_def plain_crypto_ok)
  have seal: "\<exists>b. encrypt_control_record (px_crypto ?X) (px_postcard ?X) sample_secrets n t p = Inr b" for n t p
    using sample_encrypt by (simp add: sample_pack_index_env_def)
  obtain rb where rb: "encode_pack_index_root_bytes ?X sample_secrets ?root = Inr rb"
    using seal unfolding encode_pack_index_root_bytes_def by blast
  then have decode: "decode_pack_index_root_bytes ?X (Some sample_secrets) rb = Inr ?root"
    using X by (auto simp: encode_pack_index_root_bytes_def decode_pack_index_root_bytes_def ok_or_def with_context_def
        serde_ok_def decrypt_encrypted)
  have seg: "\<exists>c. encode_index_segment ?X sample_secrets ?v (to_vec (px_segment ?X)
      \<lparr> as_schema_version = pack_index_root_schema_version, as_entries = es \<rparr>) = Inr c" for es
    using seal unfolding encode_index_segment_def by blast
  obtain old where old: "encode_index_segment ?X sample_secrets ?v (to_vec (px_segment ?X)
      \<lparr> as_schema_version = pack_index_root_schema_version, as_entries = [] \<rparr>) = Inr old" using seg by blast
  obtain new where new: "encode_index_segment ?X sample_secrets ?v (to_vec (px_segment ?X)
      \<lparr> as_schema_version = pack_index_root_schema_version, as_entries = sample_entries ?v \<rparr>) = Inr new" using seg by blast
  have paths: "\<not> starts_with ?v remote_pack_index_prefix" "validate_segment_path ?v = Inr ()" by code_simp+
  have valid: "validate_pack_index_root ?root = Inr ()" by code_simp
  have "location_validate sample_loc = Inr ()" by code_simp
  then have entries: "append_aggregate_entries (sample_entries ?v) [] = Inr [(''aa'', sample_loc)]"
    by (simp add: sample_entries_def sample_loc_def)
  have read: "append_segment_locations ?X ?R (Some sample_secrets) ?v c locs s = append_aggregate_entries es locs"
      "read_segment_entries ?X (Some sample_secrets) ?v c = Inr es"
    if "encode_index_segment ?X sample_secrets ?v (to_vec (px_segment ?X)
      \<lparr> as_schema_version = pack_index_root_schema_version, as_entries = es \<rparr>) = Inr c" for es c locs s
    using encoded_segment_decodes [OF X(1-3) that] paths
    by (auto simp: append_segment_locations_def read_segment_entries_def rbind_Inr_iff)
  let ?s = "sample_index_state rb"
  have get: "r_get ?R pack_index_root_path (?s c) = Inr rb" "r_get ?R ?v (?s c) = Inr c" for c
    by (simp_all add: memory_remote_def get_physical_def sample_index_state_def pack_index_root_path_def)
  let ?fs = "[(index_cache_path ?v, old)]"
  have "fst (load_remote_pack_locations_with_local_cache ?X ?R (?s old) (Some sample_secrets) ?fs) = Inr []"
    using get paths read(1) [OF old]
    by (intro memory_stat.load_published [OF get(1) decode valid]) (simp_all add: cache_agrees_def bt_ok_def)
  moreover have "fst (load_remote_pack_locations_with_local_cache ?X ?R (?s new) (Some sample_secrets) []) = Inr [(''aa'', sample_loc)]"
    using get paths read(1) [OF new] entries
    by (intro memory_stat.load_published [OF get(1) decode valid]) (simp_all add: cache_agrees_def bt_ok_def)
  moreover have "load_remote_pack_locations_with_local_cache ?X ?R (?s old) (Some sample_secrets) ?fs =
      load_remote_pack_locations_with_local_cache ?X ?R (?s new) (Some sample_secrets) ?fs"
  proof (rule cached_segments_never_refreshed [OF _ decode])
    have "cached_copy ?X (Some sample_secrets) ?fs ?v"
      using read(2) [OF old] by (simp add: cached_copy_def pack_index_compacted_segment_prefix_def starts_with_def)
    then show "same_outside ?R (?s old) (?s new)
        {p \<in> set (pr_segments ?root). cached_copy ?X (Some sample_secrets) ?fs p}"
      by (auto simp: same_outside_def memory_remote_def get_physical_def stat_physical_def sample_index_state_def)
  qed (use get in \<open>simp_all add: load_remote_pack_index_root_bytes_def bt_ok_def\<close>)
  ultimately show ?thesis unfolding Let_def by metis
qed

end
