(* ===== verification/Control_Plane.thy ===== *)
theory Control_Plane
  imports Refs Publisher Pack_Cache
begin

text \<open>
  The control plane that a client reads from a remote (the keyring pointer, the keyring files, the
  layout root and the ref of a branch; \<^verbatim>\<open>e2v-sync/src/fetch.rs\<close>), and the trusted state that a
  client keeps beside it to detect a rollback of the remote (\<^verbatim>\<open>e2v-sync/src/trusted_state.rs\<close>).
  \<^verbatim>\<open>serde_json\<close> and \<^verbatim>\<open>postcard\<close> are parameters. The trusted state directory is a map from file
  names to contents; that its files may be directories is not modelled.
\<close>

section \<open>Names of remote files\<close>

definition validate_remote_relative_name :: "string \<Rightarrow> unit res" where
  "validate_remote_relative_name v =
     ensure (v \<noteq> []) (Bail ''empty relative path'')
    (ensure (\<not> is_absolute v) (Bail ''path escapes target directory'')
    (ensure (all_normal v) (Bail ''path traversal is not allowed'')
    (Inr ())))"

definition validate_remote_object_file_name :: "string \<Rightarrow> unit res" where
  "validate_remote_object_file_name v =
     rbind (validate_remote_relative_name v) (\<lambda>_.
     ensure (length (components v) = 1) (Bail ''nested remote object paths are not allowed'')
    (ensure (strip_suffix ''.json'' v \<noteq> None) (Bail ''remote object path must end with .json'')
    (Inr ())))"

section \<open>The control plane\<close>

record keyring_pointer =
  kp_generation :: u64
  kp_current :: string

record remote_keyring_pointer_summary =
  rkp_generation :: u64

record keyring_state_summary =
  ks_generation :: u64
  ks_repo_id :: string

record keyring_envelope_summary =
  kes_kind :: string

record remote_keyring_state_validation =
  rkv_generation :: u64
  rkv_envelopes :: "keyring_envelope_summary list"

record default_ref_record_summary =
  drs_branch_name :: string
  drs_ref_token_hex :: string
  drs_head_snapshot_id :: "string option"

record trusted_remote_state =
  ts_repo_id :: string
  min_layout_generation :: u64
  min_keyring_generation :: u64
  min_ref_generations :: "(string, u64) btree"

record remote_control_plane =
  cp_repo_id :: string
  cp_keyring_pointer_bytes :: "byte list"
  cp_keyring_pointer :: keyring_pointer
  cp_current_keyring_bytes :: "byte list"
  cp_keyring_files :: "(string \<times> byte list) list"
  cp_layout_root_bytes :: "byte list"
  cp_default_ref_bytes :: "byte list"

instance keyring_pointer_ext :: (countable) countable
  by (rule countable_classI [of "\<lambda>r. to_nat (kp_generation r, kp_current r, keyring_pointer.more r)"]) auto

instance keyring_state_summary_ext :: (countable) countable
  by (rule countable_classI [of "\<lambda>r. to_nat (ks_generation r, ks_repo_id r, keyring_state_summary.more r)"]) auto

instance keyring_envelope_summary_ext :: (countable) countable
  by (rule countable_classI [of "\<lambda>r. to_nat (kes_kind r, keyring_envelope_summary.more r)"]) auto

instance remote_keyring_state_validation_ext :: (countable) countable
  by (rule countable_classI [of "\<lambda>r. to_nat (rkv_generation r, rkv_envelopes r, remote_keyring_state_validation.more r)"]) auto

instance default_ref_record_summary_ext :: (countable) countable
  by (rule countable_classI [of "\<lambda>r. to_nat (drs_branch_name r, drs_ref_token_hex r, drs_head_snapshot_id r,
        default_ref_record_summary.more r)"]) auto

instance remote_keyring_pointer_summary_ext :: (countable) countable
  by (rule countable_classI [of "\<lambda>r. to_nat (rkp_generation r, remote_keyring_pointer_summary.more r)"]) auto

instance trusted_remote_state_ext :: (countable) countable
  by (rule countable_classI [of "\<lambda>r. to_nat (ts_repo_id r, min_layout_generation r, min_keyring_generation r,
        min_ref_generations r, trusted_remote_state.more r)"]) auto

record control_codecs =
  ck_pointer :: "keyring_pointer serde"
  ck_pointer_summary :: "remote_keyring_pointer_summary serde"
  ck_keyring_validation :: "remote_keyring_state_validation serde"
  ck_keyring_summary :: "keyring_state_summary serde"
  ck_layout :: "layout_root serde"
  ck_ref_summary :: "default_ref_record_summary serde"
  ck_trusted :: "trusted_remote_state serde"
  ck_sealed :: "encrypted_control_record serde"

abbreviation decoded :: "string \<Rightarrow> 'a serde \<Rightarrow> byte list \<Rightarrow> 'a res" where
  "decoded what codec bytes \<equiv> with_context what (ok_or (Bail ''invalid data'') (from_slice codec bytes))"

definition decode_default_ref_record_with_secrets ::
  "crypto \<Rightarrow> control_codecs \<Rightarrow> repo_secrets \<Rightarrow> byte list \<Rightarrow> (string \<times> string option) res" where
  "decode_default_ref_record_with_secrets C K secrets encrypted_ref_bytes =
     rbind (decrypt_control_record C (ck_sealed K) secrets ''default'' ''ref'' encrypted_ref_bytes) (\<lambda>plaintext.
     rbind (decoded ''failed to decode ref record'' (ck_ref_summary K) plaintext) (\<lambda>r.
     Inr (drs_ref_token_hex r, drs_head_snapshot_id r)))"

text \<open>The loop over the files below \<^verbatim>\<open>control/keyring\<close> other than the current one.\<close>

fun read_keyring_files :: "'s remote \<Rightarrow> string \<Rightarrow> string list \<Rightarrow> 's \<Rightarrow> (string \<times> byte list) list res" where
  "read_keyring_files R cur [] s = Inr []"
| "read_keyring_files R cur (relative_path # paths) s =
     rbind (ok_or (Bail ''invalid remote keyring path'') (strip_prefix ''control/keyring/'' relative_path)) (\<lambda>file_name.
     rbind (case validate_remote_relative_name file_name of
              Inl e \<Rightarrow> Inl (Bail ''invalid remote keyring path'') | Inr u \<Rightarrow> Inr u) (\<lambda>_.
     if file_name = cur \<or> file_name = ''keyring.current'' \<or> file_name = ''keyring.lock'' then
       read_keyring_files R cur paths s
     else
       rbind (r_get R relative_path s) (\<lambda>bytes.
       rbind (read_keyring_files R cur paths s) (\<lambda>files.
       Inr ((file_name, bytes) # files)))))"

definition read_remote_control_plane_with_pointer_bytes ::
  "control_codecs \<Rightarrow> 's remote \<Rightarrow> byte list \<Rightarrow> byte list \<Rightarrow> 's \<Rightarrow> remote_control_plane res" where
  "read_remote_control_plane_with_pointer_bytes K R default_ref_bytes keyring_pointer_bytes s =
     rbind (decoded ''failed to decode remote keyring pointer'' (ck_pointer K) keyring_pointer_bytes) (\<lambda>pointer.
     rbind (case validate_remote_relative_name (kp_current pointer) of
              Inl e \<Rightarrow> Inl (Bail ''invalid remote keyring path'') | Inr u \<Rightarrow> Inr u) (\<lambda>_.
     rbind (r_get R (''control/keyring/'' @ kp_current pointer) s) (\<lambda>pointed_keyring_bytes.
     rbind (decoded ''failed to decode remote keyring state'' (ck_keyring_validation K) pointed_keyring_bytes)
       (\<lambda>pointed_keyring_state.
     rbind (decoded ''failed to decode remote keyring state summary'' (ck_keyring_summary K) pointed_keyring_bytes)
       (\<lambda>summary.
     rbind (r_list R ''control/keyring/'' s) (\<lambda>paths.
     rbind (read_keyring_files R (kp_current pointer) paths s) (\<lambda>files.
     ensure (rkv_generation pointed_keyring_state = kp_generation pointer)
       (Bail ''remote keyring pointer generation mismatch'')
    (ensure (list_ex (\<lambda>e. kes_kind e = ''password'') (rkv_envelopes pointed_keyring_state))
       (Bail ''remote keyring state has no password envelope'')
    (rbind (r_read_layout_root R s) (\<lambda>layout.
     rbind (validate_layout_root_value layout) (\<lambda>_.
     Inr \<lparr> cp_repo_id = ks_repo_id summary, cp_keyring_pointer_bytes = keyring_pointer_bytes,
           cp_keyring_pointer = pointer, cp_current_keyring_bytes = pointed_keyring_bytes,
           cp_keyring_files = (kp_current pointer, pointed_keyring_bytes) # files,
           cp_layout_root_bytes = to_vec (ck_layout K) layout,
           cp_default_ref_bytes = default_ref_bytes \<rparr>)))))))))))"

definition read_remote_keyring_pointer_bytes :: "'s remote \<Rightarrow> 's \<Rightarrow> byte list res" where
  "read_remote_keyring_pointer_bytes R s =
     rbind (r_list_refs R s) (\<lambda>listed.
     case filter (\<lambda>l. starts_with (listed_token l) ''keyring/'') listed of
       [l] \<Rightarrow> Inr (ref_value (listed_stored l))
     | [] \<Rightarrow> Inl (Bail ''missing remote keyring pointer ref'')
     | _ # _ # _ \<Rightarrow> Inl (Bail ''ambiguous remote keyring pointer refs''))"

definition read_remote_control_plane ::
  "control_codecs \<Rightarrow> 's remote \<Rightarrow> byte list \<Rightarrow> 's \<Rightarrow> remote_control_plane res" where
  "read_remote_control_plane K R default_ref_bytes s =
     rbind (read_remote_keyring_pointer_bytes R s) (\<lambda>keyring_pointer_bytes.
     read_remote_control_plane_with_pointer_bytes K R default_ref_bytes keyring_pointer_bytes s)"

text \<open>
  The variants for a known repository take its id, which \<^verbatim>\<open>read_repo_id\<close> reads from the local
  keyring.
\<close>

definition ensure_remote_root_matches_local_repository :: "'s remote \<Rightarrow> string res \<Rightarrow> 's \<Rightarrow> bool res" where
  "ensure_remote_root_matches_local_repository R read_repo_id s =
     rbind read_repo_id (\<lambda>local_repo_id.
     rbind (r_list_refs R s) (\<lambda>listed.
     let expected = ''keyring/'' @ local_repo_id;
         keyring_tokens = filter (\<lambda>t. starts_with t ''keyring/'') (map listed_token listed)
     in ensure (filter (\<lambda>t. t \<noteq> expected) keyring_tokens = [])
          (Bail ''remote root already contains keyring refs for a different repository'')
          (Inr (expected \<in> set keyring_tokens))))"

definition read_remote_keyring_pointer_bytes_for_repo :: "'s remote \<Rightarrow> string res \<Rightarrow> 's \<Rightarrow> byte list res" where
  "read_remote_keyring_pointer_bytes_for_repo R read_repo_id s =
     rbind read_repo_id (\<lambda>repo_id.
     rbind (r_read_ref R (''keyring/'' @ repo_id) s) (\<lambda>stored.
     ok_or (Bail ''missing remote keyring pointer ref'') (map_option ref_value stored)))"

definition read_remote_control_plane_for_repo ::
  "control_codecs \<Rightarrow> 's remote \<Rightarrow> string res \<Rightarrow> byte list \<Rightarrow> 's \<Rightarrow> remote_control_plane res" where
  "read_remote_control_plane_for_repo K R read_repo_id default_ref_bytes s =
     rbind (ensure_remote_root_matches_local_repository R read_repo_id s) (\<lambda>_.
     rbind (read_remote_keyring_pointer_bytes_for_repo R read_repo_id s) (\<lambda>keyring_pointer_bytes.
     read_remote_control_plane_with_pointer_bytes K R default_ref_bytes keyring_pointer_bytes s))"

section \<open>The trusted state\<close>

definition trusted_state_file_path :: "string \<Rightarrow> string res" where
  "trusted_state_file_path repo_id =
     ensure (\<not> blank repo_id) (Bail ''trusted state repo_id must not be empty'')
    (ensure (\<not> is_absolute repo_id) (Bail ''trusted state repo_id must be relative'')
    (ensure (all_normal repo_id) (Bail ''trusted state repo_id path traversal is not allowed'')
    (Inr (join_with ''/'' (map component_name (components (repo_id @ ''.json'')))))))"

definition load_trusted_remote_state :: "control_codecs \<Rightarrow> string \<Rightarrow> files \<Rightarrow> trusted_remote_state option res" where
  "load_trusted_remote_state K repo_id fs =
     rbind (trusted_state_file_path repo_id) (\<lambda>path.
     case map_of fs path of
       None \<Rightarrow> Inr None
     | Some bytes \<Rightarrow> rbind (decoded ''failed to decode trusted state'' (ck_trusted K) bytes) (\<lambda>state. Inr (Some state)))"

text \<open>\<^verbatim>\<open>atomic_write_bytes\<close>: the temporary file of the path is gone when it returns.\<close>

definition write_trusted_bytes :: "string \<Rightarrow> byte list \<Rightarrow> (files, unit) prog" where
  "write_trusted_bytes path bytes fs = (Inr (), bt_insert path bytes (bt_remove (path @ ''.tmp'') fs))"

definition store_trusted_remote_state :: "control_codecs \<Rightarrow> trusted_remote_state \<Rightarrow> (files, unit) prog" where
  "store_trusted_remote_state K state =
     sbind (slift (trusted_state_file_path (ts_repo_id state))) (\<lambda>path.
     write_trusted_bytes path (to_vec (ck_trusted K) state))"

section \<open>The rollback floor\<close>

definition assert_remote_generations_meet_local_floor ::
  "control_codecs \<Rightarrow> string \<Rightarrow> stored_ref \<Rightarrow> remote_control_plane \<Rightarrow> files \<Rightarrow> unit res" where
  "assert_remote_generations_meet_local_floor K token remote_default_ref control_plane fs =
     rbind (decoded ''failed to decode remote layout root while checking rollback floor'' (ck_layout K)
              (cp_layout_root_bytes control_plane)) (\<lambda>remote_layout_root.
     rbind (decoded ''failed to decode remote keyring pointer while checking rollback floor'' (ck_pointer_summary K)
              (cp_keyring_pointer_bytes control_plane)) (\<lambda>remote_keyring_pointer.
     rbind (load_trusted_remote_state K (cp_repo_id control_plane) fs) (\<lambda>trusted_state.
     ensure (1 \<le> rkp_generation remote_keyring_pointer)
       (Bail ''CRITICAL_ROLLBACK_DETECTED: remote keyring generation is invalid'')
    (ensure (1 \<le> ref_version remote_default_ref)
       (Bail ''CRITICAL_ROLLBACK_DETECTED: remote ref generation is invalid'')
    (case trusted_state of
       None \<Rightarrow> Inr ()
     | Some trusted \<Rightarrow>
         ensure (min_layout_generation trusted \<le> root_generation remote_layout_root)
           (Bail ''CRITICAL_ROLLBACK_DETECTED: remote layout generation rollback detected'')
        (ensure (min_keyring_generation trusted \<le> rkp_generation remote_keyring_pointer)
           (Bail ''CRITICAL_ROLLBACK_DETECTED: remote keyring generation rollback detected'')
        (case map_of (min_ref_generations trusted) token of
           None \<Rightarrow> Inr ()
         | Some min_ref_generation \<Rightarrow>
             ensure (min_ref_generation \<le> ref_version remote_default_ref)
               (Bail ''CRITICAL_ROLLBACK_DETECTED: remote ref generation rollback detected'')
               (Inr ()))))))))"

definition merge_min_ref_generations ::
  "(string, u64) btree \<Rightarrow> (string, u64) btree \<Rightarrow> (string, u64) btree" where
  "merge_min_ref_generations cur new =
     foldl (\<lambda>merged (token, min_generation).
       bt_insert token
         (case map_of merged token of
            Some current_min \<Rightarrow> max current_min min_generation | None \<Rightarrow> min_generation) merged) cur new"

definition update_trusted_remote_state_from_control_plane ::
  "control_codecs \<Rightarrow> string \<Rightarrow> stored_ref \<Rightarrow> remote_control_plane \<Rightarrow> (files, unit) prog" where
  "update_trusted_remote_state_from_control_plane K token remote_default_ref control_plane =
     sbind (slift (decoded ''failed to decode remote layout root while updating trusted state'' (ck_layout K)
              (cp_layout_root_bytes control_plane))) (\<lambda>remote_layout_root.
     sbind (slift (decoded ''failed to decode remote keyring pointer while updating trusted state'' (ck_pointer_summary K)
              (cp_keyring_pointer_bytes control_plane))) (\<lambda>remote_keyring_pointer.
     let new = \<lparr> ts_repo_id = cp_repo_id control_plane,
                 min_layout_generation = root_generation remote_layout_root,
                 min_keyring_generation = rkp_generation remote_keyring_pointer,
                 min_ref_generations = [(token, ref_version remote_default_ref)] \<rparr>
     in sbind (sread (load_trusted_remote_state K (ts_repo_id new))) (\<lambda>loaded.
        case loaded of
          Some cur \<Rightarrow>
            store_trusted_remote_state K
              \<lparr> ts_repo_id = ts_repo_id new,
                min_layout_generation = max (min_layout_generation cur) (min_layout_generation new),
                min_keyring_generation = max (min_keyring_generation cur) (min_keyring_generation new),
                min_ref_generations = merge_min_ref_generations (min_ref_generations cur) (min_ref_generations new) \<rparr>
        | None \<Rightarrow> store_trusted_remote_state K new)))"

definition validate_remote_branch_control_plane ::
  "control_codecs \<Rightarrow> 's remote \<Rightarrow> string \<Rightarrow> files \<Rightarrow> 's \<Rightarrow> unit res" where
  "validate_remote_branch_control_plane K R token trusted s =
     rbind (validate_sync_identifier token) (\<lambda>_.
     rbind (r_read_ref R token s) (\<lambda>found.
     rbind (ok_or (Bail ''remote branch ref not found'') found) (\<lambda>stored_ref.
     rbind (read_remote_control_plane K R (ref_value stored_ref) s) (\<lambda>control_plane.
     assert_remote_generations_meet_local_floor K token stored_ref control_plane trusted))))"

end
