(* ===== verification/Trusted_Claims.thy ===== *)
theory Trusted_Claims
  imports Control_Plane
begin

text \<open>
  The rollback floor: what a client has raised it to once bounds every check that passes from then on. Raising
  and checking are separate: a fetch checks first and raises at its end, as the verification of a remote does;
  garbage collection only checks.
\<close>

section \<open>Where the trusted state of a repository is\<close>

lemma components_json: "\<exists>cs l. components (v @ ''.json'') = cs @ [Normal (l @ ''.json'')]"
proof -
  let ?segs = "butlast (split_on slash v)" and ?l = "last (split_on slash v)"
  have split: "split_on slash (v @ ''.json'') = ?segs @ [?l @ ''.json'']"
    by (simp add: split_on_append)
  have seg: "segment_components (?l @ ''.json'') = [Normal (?l @ ''.json'')]"
  proof -
    have "2 < length (?l @ ''.json'')" by simp
    then have "?l @ ''.json'' \<noteq> ''.''" "?l @ ''.json'' \<noteq> ''..''" by (metis One_nat_def Suc_lessD length_Cons less_irrefl list.size(3) numeral_2_eq_2)+
    then show ?thesis by (simp add: segment_components_def)
  qed
  have absolute: "is_absolute w \<Longrightarrow> hd (split_on slash w) = []" for w
    by (auto simp: is_absolute_def starts_with_iff)
  show ?thesis
  proof (cases ?segs)
    case Nil
    then have "split_on slash (v @ ''.json'') = [?l @ ''.json'']" using split by simp
    with seg absolute [of "v @ ''.json''"] show ?thesis
      by (cases "is_absolute (v @ ''.json'')") (auto simp: components_def Let_def)
  next
    case (Cons a list)
    then have "split_on slash (v @ ''.json'') = a # list @ [?l @ ''.json'']" using split by simp
    with seg show ?thesis by (auto simp: components_def Let_def)
  qed
qed

lemma join_json: "\<exists>p. join_with sep (ns @ [l @ ''.json'']) = p @ ''.json''"
proof (induction ns)
  case (Cons n ns)
  then show ?case by (cases ns) auto
qed simp

lemma trusted_path_json: "trusted_state_file_path i = Inr p \<Longrightarrow> \<exists>q. p = q @ ''.json''"
  using components_json [of i] join_json [of "''/''"]
  by (fastforce simp: trusted_state_file_path_def component_name_def split: if_splits)

lemma trusted_path_not_temporary:
  "trusted_state_file_path i = Inr p \<Longrightarrow> trusted_state_file_path j = Inr q \<Longrightarrow> p \<noteq> q @ ''.tmp''"
  using trusted_path_json [of i p] by auto

section \<open>Sequences of observations\<close>

text \<open>
  What \<^verbatim>\<open>serde_json\<close> promises for the trusted state: a state whose map is ordered, as a \<^verbatim>\<open>BTreeMap\<close>
  is, decodes to itself, and what is decoded has such a map.
\<close>

definition trusted_codec_ok :: "trusted_remote_state serde \<Rightarrow> bool" where
  "trusted_codec_ok c \<longleftrightarrow>
     (\<forall>st. bt_ok (min_ref_generations st) \<longrightarrow> from_slice c (to_vec c st) = Some st) \<and>
     (\<forall>bs st. from_slice c bs = Some st \<longrightarrow> bt_ok (min_ref_generations st))"

text \<open>What a client sees of a remote: the branch, its stored ref, and the control plane.\<close>

record observation =
  ob_token :: string
  ob_ref :: stored_ref
  ob_plane :: remote_control_plane

text \<open>The two operations, on an observation.\<close>

abbreviation passes_floor :: "control_codecs \<Rightarrow> observation \<Rightarrow> files \<Rightarrow> bool" where
  "passes_floor K ob fs \<equiv>
     assert_remote_generations_meet_local_floor K (ob_token ob) (ob_ref ob) (ob_plane ob) fs = Inr ()"

abbreviation raise_floor :: "control_codecs \<Rightarrow> observation \<Rightarrow> (files, unit) prog" where
  "raise_floor K ob \<equiv> update_trusted_remote_state_from_control_plane K (ob_token ob) (ob_ref ob) (ob_plane ob)"

text \<open>What happens to the trusted states of a client: commands raise floors, with any outcome. A check writes nothing.\<close>

inductive floor_step :: "control_codecs \<Rightarrow> files \<Rightarrow> files \<Rightarrow> bool" for K where
  raised: "raise_floor K ob fs = (r, fs') \<Longrightarrow> floor_step K fs fs'"

definition layout_generation_of :: "control_codecs \<Rightarrow> observation \<Rightarrow> u64" where
  "layout_generation_of K ob =
     (case from_slice (ck_layout K) (cp_layout_root_bytes (ob_plane ob)) of Some r \<Rightarrow> root_generation r | None \<Rightarrow> 0)"

definition keyring_generation_of :: "control_codecs \<Rightarrow> observation \<Rightarrow> u64" where
  "keyring_generation_of K ob =
     (case from_slice (ck_pointer_summary K) (cp_keyring_pointer_bytes (ob_plane ob)) of
        Some p \<Rightarrow> rkp_generation p | None \<Rightarrow> 0)"

text \<open>The later of two observations of one repository is not older in any generation.\<close>

definition not_rolled_back :: "control_codecs \<Rightarrow> observation \<Rightarrow> observation \<Rightarrow> bool" where
  "not_rolled_back K a b \<longleftrightarrow>
     (cp_repo_id (ob_plane a) = cp_repo_id (ob_plane b) \<longrightarrow>
        layout_generation_of K a \<le> layout_generation_of K b \<and>
        keyring_generation_of K a \<le> keyring_generation_of K b \<and>
        (ob_token a = ob_token b \<longrightarrow> ref_version (ob_ref a) \<le> ref_version (ob_ref b)))"

text \<open>The floor below a file covers an observation.\<close>

definition covers :: "control_codecs \<Rightarrow> files \<Rightarrow> string \<Rightarrow> observation \<Rightarrow> bool" where
  "covers K fs path ob \<longleftrightarrow> (\<exists>bytes st m. map_of fs path = Some bytes \<and> from_slice (ck_trusted K) bytes = Some st \<and>
     layout_generation_of K ob \<le> min_layout_generation st \<and> keyring_generation_of K ob \<le> min_keyring_generation st \<and>
     map_of (min_ref_generations st) (ob_token ob) = Some m \<and> ref_version (ob_ref ob) \<le> m)"

lemma merge_one:
  assumes "bt_ok m"
  shows "bt_ok (merge_min_ref_generations m [(t, g)])"
    and "map_of (merge_min_ref_generations m [(t, g)]) =
      (map_of m)(t \<mapsto> (case map_of m t of Some old \<Rightarrow> max old g | None \<Rightarrow> g))"
  using assms by (simp_all add: merge_min_ref_generations_def map_of_bt_insert)

lemma raise_floor_effect:
  assumes codec: "trusted_codec_ok (ck_trusted K)" and ok: "bt_ok fs" and upd: "raise_floor K ob fs = (Inr (), fs')"
  obtains path where "trusted_state_file_path (cp_repo_id (ob_plane ob)) = Inr path"
    and "bt_ok fs'" and "covers K fs' path ob" and "\<forall>a. covers K fs path a \<longrightarrow> covers K fs' path a"
    and "\<forall>q. q \<noteq> path \<and> q \<noteq> path @ ''.tmp'' \<longrightarrow> map_of fs' q = map_of fs q"
proof -
  let ?cp = "ob_plane ob" and ?t = "ob_token ob" and ?v = "ref_version (ob_ref ob)"
  from upd obtain layout pointer where l: "from_slice (ck_layout K) (cp_layout_root_bytes ?cp) = Some layout"
    and p: "from_slice (ck_pointer_summary K) (cp_keyring_pointer_bytes ?cp) = Some pointer"
    by (auto simp: update_trusted_remote_state_from_control_plane_def sbind_def slift_def with_context_def ok_or_def
        split: sum.splits option.splits)
  have gens: "layout_generation_of K ob = root_generation layout" "keyring_generation_of K ob = rkp_generation pointer"
    by (simp_all add: layout_generation_of_def keyring_generation_of_def l p)
  from upd l p obtain path where path: "trusted_state_file_path (cp_repo_id ?cp) = Inr path"
    by (auto simp: update_trusted_remote_state_from_control_plane_def load_trusted_remote_state_def sbind_def sread_def slift_def
        rbind_def Let_def split: sum.splits)
  let ?new = "\<lparr> ts_repo_id = cp_repo_id ?cp, min_layout_generation = root_generation layout,
    min_keyring_generation = rkp_generation pointer, min_ref_generations = [(?t, ?v)] \<rparr>"
  let ?merged = "\<lambda>cur. \<lparr> ts_repo_id = cp_repo_id ?cp,
    min_layout_generation = max (min_layout_generation cur) (root_generation layout),
    min_keyring_generation = max (min_keyring_generation cur) (rkp_generation pointer),
    min_ref_generations = merge_min_ref_generations (min_ref_generations cur) [(?t, ?v)] \<rparr>"
  have stored: "covers K (bt_insert path (to_vec (ck_trusted K) st) (bt_remove (path @ ''.tmp'') fs)) path a"
    if "bt_ok (min_ref_generations st)" "layout_generation_of K a \<le> min_layout_generation st"
      "keyring_generation_of K a \<le> min_keyring_generation st"
      "map_of (min_ref_generations st) (ob_token a) = Some m" "ref_version (ob_ref a) \<le> m" for st a m
    using that codec ok by (simp add: covers_def map_of_bt_insert trusted_codec_ok_def)
  show thesis
  proof (cases "map_of fs path")
    case None
    with upd l p path have fs': "fs' = bt_insert path (to_vec (ck_trusted K) ?new) (bt_remove (path @ ''.tmp'') fs)"
      by (simp add: update_trusted_remote_state_from_control_plane_def load_trusted_remote_state_def
          store_trusted_remote_state_def write_trusted_bytes_def with_context_def ok_or_def Let_def sbind_def sread_def slift_def)
    have "covers K fs' path ob" unfolding fs' by (rule stored [of ?new ob ?v]) (simp_all add: gens bt_ok_def)
    moreover have "\<not> covers K fs path a" for a by (simp add: covers_def None)
    ultimately show thesis using that [OF path] ok by (simp add: fs' map_of_bt_insert map_of_bt_remove)
  next
    case (Some bytes)
    with upd l p path obtain cur where cur: "from_slice (ck_trusted K) bytes = Some cur"
      by (auto simp: update_trusted_remote_state_from_control_plane_def load_trusted_remote_state_def sbind_def sread_def slift_def
          rbind_def Let_def with_context_def ok_or_def split: sum.splits option.splits)
    have sorted: "bt_ok (min_ref_generations cur)" using codec cur by (auto simp: trusted_codec_ok_def)
    from upd Some cur l p path have fs': "fs' = bt_insert path (to_vec (ck_trusted K) (?merged cur)) (bt_remove (path @ ''.tmp'') fs)"
      by (simp add: update_trusted_remote_state_from_control_plane_def load_trusted_remote_state_def
          store_trusted_remote_state_def write_trusted_bytes_def with_context_def ok_or_def Let_def sbind_def sread_def slift_def)
    have "covers K fs' path ob"
      unfolding fs' by (rule stored [of "?merged cur" ob "case map_of (min_ref_generations cur) ?t of Some old \<Rightarrow> max old ?v | None \<Rightarrow> ?v"])
        (auto simp: gens merge_one sorted split: option.splits)
    moreover have "covers K fs' path a" if "covers K fs path a" for a
    proof -
      from that Some cur obtain m where a: "layout_generation_of K a \<le> min_layout_generation cur"
        "keyring_generation_of K a \<le> min_keyring_generation cur"
        "map_of (min_ref_generations cur) (ob_token a) = Some m" "ref_version (ob_ref a) \<le> m"
        by (auto simp: covers_def)
      show ?thesis
        unfolding fs' using a
        by (intro stored [of "?merged cur" a "if ob_token a = ?t then max m ?v else m"]) (auto simp: merge_one sorted le_max_iff_disj)
    qed
    ultimately show thesis using that [OF path] ok by (simp add: fs' map_of_bt_insert map_of_bt_remove)
  qed
qed

lemma raise_floor_refused: "raise_floor K ob fs = (Inl e, fs') \<Longrightarrow> fs' = fs"
proof -
  have stores: "store_trusted_remote_state K st fs = (Inl e, fs') \<Longrightarrow> fs' = fs" for st
    by (auto simp: store_trusted_remote_state_def write_trusted_bytes_def sbind_def slift_def split: sum.splits)
  then show "raise_floor K ob fs = (Inl e, fs') \<Longrightarrow> fs' = fs"
    by (auto simp: update_trusted_remote_state_from_control_plane_def Let_def split: sum.splits option.splits)
qed

text \<open>A floor that covers an observation covers it from then on.\<close>

lemma covers_step:
  assumes codec: "trusted_codec_ok (ck_trusted K)" and "floor_step K fs fs'" and "bt_ok fs"
    and path: "trusted_state_file_path i = Inr path" and "covers K fs path a"
  shows "bt_ok fs' \<and> covers K fs' path a"
  using assms(2)
proof cases
  case (raised ob r)
  show ?thesis
  proof (cases r)
    case (Inl e)
    then show ?thesis using raise_floor_refused raised assms(3,5) by metis
  next
    case (Inr u)
    then have run: "raise_floor K ob fs = (Inr (), fs')" using raised by simp
    obtain path' where p: "trusted_state_file_path (cp_repo_id (ob_plane ob)) = Inr path'" and ok: "bt_ok fs'"
      and same: "\<forall>a. covers K fs path' a \<longrightarrow> covers K fs' path' a"
      and other: "\<forall>q. q \<noteq> path' \<and> q \<noteq> path' @ ''.tmp'' \<longrightarrow> map_of fs' q = map_of fs q"
      by (rule raise_floor_effect [OF codec assms(3) run])
    have "covers K fs' path a"
    proof (cases "path' = path")
      case True
      then show ?thesis using same assms(5) by simp
    next
      case False
      then have "map_of fs' path = map_of fs path" using other trusted_path_not_temporary [OF path p] by simp
      then show ?thesis using assms(5) by (simp add: covers_def)
    qed
    then show ?thesis using ok by simp
  qed
qed

lemma covers_steps:
  assumes "(floor_step K)\<^sup>*\<^sup>* fs fs'" and "trusted_codec_ok (ck_trusted K)" and "bt_ok fs"
    and "trusted_state_file_path i = Inr path" and "covers K fs path a"
  shows "bt_ok fs' \<and> covers K fs' path a"
  using assms(1)
proof (induction rule: rtranclp_induct)
  case (step fs1 fs2)
  then show ?case using covers_step [OF assms(2) step.hyps(2) _ assms(4)] by blast
qed (use assms in simp)

lemma covered_bounds:
  assumes "covers K fs path a" and "trusted_state_file_path (cp_repo_id (ob_plane b)) = Inr path" and "passes_floor K b fs"
  shows "layout_generation_of K a \<le> layout_generation_of K b \<and> keyring_generation_of K a \<le> keyring_generation_of K b \<and>
    (ob_token a = ob_token b \<longrightarrow> ref_version (ob_ref a) \<le> ref_version (ob_ref b))"
proof -
  from assms(3) obtain layout pointer where "from_slice (ck_layout K) (cp_layout_root_bytes (ob_plane b)) = Some layout"
      "from_slice (ck_pointer_summary K) (cp_keyring_pointer_bytes (ob_plane b)) = Some pointer"
    by (auto simp: assert_remote_generations_meet_local_floor_def rbind_Inr_iff with_context_Inr_iff ok_or_Inr_iff)
  moreover from this have "layout_generation_of K b = root_generation layout" "keyring_generation_of K b = rkp_generation pointer"
    by (simp_all add: layout_generation_of_def keyring_generation_of_def)
  ultimately show ?thesis
    using assms by (auto simp: covers_def assert_remote_generations_meet_local_floor_def load_trusted_remote_state_def rbind_Inr_iff
        with_context_Inr_iff ok_or_Inr_iff split: if_splits option.splits intro: order_trans)
qed

text \<open>C29: Once a client has raised its floor to an observation of a repository, then after any further raising
  of floors, of this or other repositories and branches, no check passes for an observation of that
  repository with an older layout or keyring generation, or an older version of the same branch ref. (What a
  command only checked without raising the floor, as garbage collection does, binds nothing.)\<close>

theorem raised_never_rolled_back:
  assumes "trusted_codec_ok (ck_trusted K)" and "bt_ok fs" and "raise_floor K a fs = (Inr (), fs1)"
    and "(floor_step K)\<^sup>*\<^sup>* fs1 fs2" and "passes_floor K b fs2"
  shows "not_rolled_back K a b"
proof -
  obtain path where path: "trusted_state_file_path (cp_repo_id (ob_plane a)) = Inr path" and ok: "bt_ok fs1"
    and "covers K fs1 path a"
    by (rule raise_floor_effect [OF assms(1-3)])
  with covers_steps [OF assms(4,1)] have covers: "covers K fs2 path a" by blast
  show ?thesis
    unfolding not_rolled_back_def
  proof
    assume "cp_repo_id (ob_plane a) = cp_repo_id (ob_plane b)"
    then have "trusted_state_file_path (cp_repo_id (ob_plane b)) = Inr path" using path by simp
    from covered_bounds [OF covers this assms(5)]
    show "layout_generation_of K a \<le> layout_generation_of K b \<and> keyring_generation_of K a \<le> keyring_generation_of K b \<and>
      (ob_token a = ob_token b \<longrightarrow> ref_version (ob_ref a) \<le> ref_version (ob_ref b))" .
  qed
qed

section \<open>A sample history\<close>

definition sample_trusted_codec :: "trusted_remote_state serde" where
  "sample_trusted_codec = \<lparr> to_vec = to_vec unary_codec,
     from_slice = (\<lambda>bs. case from_slice unary_codec bs of
        Some st \<Rightarrow> if bt_ok (min_ref_generations st) then Some st else None | None \<Rightarrow> None) \<rparr>"

lemma sample_trusted_codec_simps:
  "from_slice sample_trusted_codec (to_vec sample_trusted_codec st) = (if bt_ok (min_ref_generations st) then Some st else None)"
  by (simp add: sample_trusted_codec_def unary_roundtrip)

lemma sample_trusted_codec_ok: "trusted_codec_ok sample_trusted_codec"
  unfolding trusted_codec_ok_def
  by (auto simp: sample_trusted_codec_simps) (auto simp: sample_trusted_codec_def split: option.splits if_splits)

definition sample_control_codecs :: control_codecs where
  "sample_control_codecs = \<lparr> ck_pointer = unary_codec, ck_pointer_summary = unary_codec,
     ck_keyring_validation = unary_codec, ck_keyring_summary = unary_codec, ck_layout = unary_codec,
     ck_ref_summary = unary_codec, ck_trusted = sample_trusted_codec, ck_sealed = unary_codec \<rparr>"

definition sample_observation :: "u64 \<Rightarrow> observation" where
  "sample_observation g = \<lparr> ob_token = ''b'', ob_ref = \<lparr> ref_version = 5, ref_value = [] \<rparr>,
     ob_plane = \<lparr> cp_repo_id = ''r'', cp_keyring_pointer_bytes = to_vec unary_codec \<lparr> rkp_generation = 1 \<rparr>,
       cp_keyring_pointer = \<lparr> kp_generation = 1, kp_current = ''k'' \<rparr>, cp_current_keyring_bytes = [],
       cp_keyring_files = [], cp_layout_root_bytes = to_vec unary_codec (direct_default\<lparr> root_generation := g \<rparr>),
       cp_default_ref_bytes = [] \<rparr> \<rparr>"

text \<open>The floor is at layout generation 2: the older generation 1 is refused, 3 passes.\<close>

theorem raised_never_rolled_back_witness:
  "\<exists>fs. raise_floor sample_control_codecs (sample_observation 2) [] = (Inr (), fs) \<and>
     \<not> passes_floor sample_control_codecs (sample_observation 1) fs \<and>
     passes_floor sample_control_codecs (sample_observation 3) fs \<and>
     not_rolled_back sample_control_codecs (sample_observation 2) (sample_observation 3)"
proof -
  let ?K = sample_control_codecs
  let ?st = "\<lparr> ts_repo_id = ''r'', min_layout_generation = 2, min_keyring_generation = 1,
      min_ref_generations = [(''b'', 5)] \<rparr>"
  have path: "trusted_state_file_path ''r'' = Inr ''r.json''" by code_simp
  have codec: "from_slice sample_trusted_codec (to_vec sample_trusted_codec ?st) = Some ?st"
    by (simp add: sample_trusted_codec_simps bt_ok_def)
  note defs = assert_remote_generations_meet_local_floor_def load_trusted_remote_state_def
    update_trusted_remote_state_from_control_plane_def store_trusted_remote_state_def write_trusted_bytes_def
    sample_observation_def sample_control_codecs_def path unary_roundtrip with_context_def ok_or_def Let_def
  let ?fs = "[(''r.json'', to_vec sample_trusted_codec ?st)]"
  have a: "raise_floor ?K (sample_observation 2) [] = (Inr (), ?fs)" by (simp add: defs bt_remove_def)
  have "\<not> passes_floor ?K (sample_observation 1) ?fs" by (simp add: defs codec) (simp add: word_le_nat_alt)
  moreover have c: "passes_floor ?K (sample_observation 3) ?fs" by (simp add: defs codec)
  moreover have "trusted_codec_ok (ck_trusted ?K)" by (simp add: sample_control_codecs_def sample_trusted_codec_ok)
  from raised_never_rolled_back [OF this bt_ok_Nil a rtranclp.rtrancl_refl c]
  have "not_rolled_back ?K (sample_observation 2) (sample_observation 3)" .
  ultimately show ?thesis using a by blast
qed

end
