(* ===== verification/Remote_Reach.thy ===== *)
theory Remote_Reach
  imports Control_Plane Pack_Index Layout_Roots Manifest
begin

text \<open>
  Which objects of a remote a snapshot needs: the packs that the active layout names
  (\<^verbatim>\<open>e2v-sync/src/oram.rs\<close>), and the traversal of the object graph on the remote
  (\<^verbatim>\<open>e2v-sync/src/fetch.rs\<close>), which copies every snapshot, directory and file object it meets into a
  validation directory, authenticates it there, and records the ids it has seen.
\<close>

section \<open>The active packs\<close>

definition oblivious_root_path :: string where "oblivious_root_path = ''oblivious/root.json''"

record oblivious_root_record =
  or_schema_version :: u32
  or_layout_id :: string
  or_layout_generation :: u64
  or_oblivious_generation :: u64
  or_policy_profile :: string
  or_bucket_bytes :: u32
  or_object_count :: nat
  or_segment_paths :: "string list"

definition remote_oblivious_root_with_secrets ::
  "pack_index_env \<Rightarrow> oblivious_root_record serde \<Rightarrow> 's remote \<Rightarrow> repo_secrets \<Rightarrow> 's \<Rightarrow> oblivious_root_record option res" where
  "remote_oblivious_root_with_secrets X J R secrets s =
     (case r_get R oblivious_root_path s of
        Inl e \<Rightarrow> if is_missing_physical_object_error e then Inr None else Inl e
      | Inr bytes \<Rightarrow>
          rbind (decrypt_control_record (px_crypto X) (px_postcard X) secrets ''oblivious-root'' ''oblivious-root'' bytes)
            (\<lambda>plaintext.
          rbind (decoded ''failed to decode oblivious root'' J plaintext) (\<lambda>r. Inr (Some r))))"

definition active_pack_segment_paths_for_layout_root ::
  "pack_index_env \<Rightarrow> oblivious_root_record serde \<Rightarrow> 's remote \<Rightarrow> layout_root \<Rightarrow> repo_secrets \<Rightarrow> 's \<Rightarrow> string list res" where
  "active_pack_segment_paths_for_layout_root X J R layout secrets s =
     (if root_mode layout = Oblivious then
        rbind (remote_oblivious_root_with_secrets X J R secrets s) (\<lambda>found.
        rbind (ok_or (Bail ''remote layout root declares oblivious mode but oblivious/root.json is missing'') found) (\<lambda>r.
        Inr (or_segment_paths r)))
      else load_remote_pack_index_segment_paths X R (Some secrets) s)"

definition load_remote_active_pack_segment_paths ::
  "pack_index_env \<Rightarrow> oblivious_root_record serde \<Rightarrow> 's remote \<Rightarrow> repo_secrets \<Rightarrow> 's \<Rightarrow> string list res" where
  "load_remote_active_pack_segment_paths X J R secrets s =
     rbind (r_read_layout_root R s) (\<lambda>layout. active_pack_segment_paths_for_layout_root X J R layout secrets s)"

definition load_remote_active_pack_locations_with_local_cache ::
  "pack_index_env \<Rightarrow> oblivious_root_record serde \<Rightarrow> 's remote \<Rightarrow> repo_secrets \<Rightarrow> 's \<Rightarrow> (files, locations) prog" where
  "load_remote_active_pack_locations_with_local_cache X J R secrets s =
     sbind (slift (r_read_layout_root R s)) (\<lambda>layout.
     if root_mode layout \<noteq> Oblivious then load_remote_pack_locations_with_local_cache X R s (Some secrets)
     else
       sbind (slift (active_pack_segment_paths_for_layout_root X J R layout secrets s)) (\<lambda>segment_paths.
       load_remote_pack_locations_from_segment_paths_with_local_cache X R s (Some secrets) segment_paths))"

record observed_remote_active_pack_locations =
  oal_layout_root_generation :: u64
  oal_pack_locations :: locations
  oal_observed_pack_index_root :: "observed_pack_index_root_state option"

definition load_remote_active_pack_locations_with_observed_layout_root ::
  "pack_index_env \<Rightarrow> oblivious_root_record serde \<Rightarrow> 's remote \<Rightarrow> repo_secrets \<Rightarrow> 's \<Rightarrow>
     (files, observed_remote_active_pack_locations) prog" where
  "load_remote_active_pack_locations_with_observed_layout_root X J R secrets s =
     sbind (slift (r_read_layout_root R s)) (\<lambda>layout.
     sbind (if root_mode layout \<noteq> Oblivious then
              sbind (load_remote_pack_locations_with_observed_root_and_local_cache X R s (Some secrets))
                (\<lambda>(observed, locs). sret (locs, Some observed))
            else
              sbind (slift (active_pack_segment_paths_for_layout_root X J R layout secrets s)) (\<lambda>segment_paths.
              sbind (load_remote_pack_locations_from_segment_paths_with_local_cache X R s (Some secrets) segment_paths)
                (\<lambda>locs. sret (locs, None)))) (\<lambda>(locs, observed).
     sret \<lparr> oal_layout_root_generation = root_generation layout, oal_pack_locations = locs,
            oal_observed_pack_index_root = observed \<rparr>))"

section \<open>Copying an object into the validation directory\<close>

text \<open>
  What a traversal reads from: the remote and its state, the ids of its loose objects, the locations
  of its packed ones, and the secrets and codecs of the object store over the validation directory.
\<close>

record 'w remote_view =
  rv_remote :: "'w remote"
  rv_state :: 'w
  rv_loose :: "string set"
  rv_locations :: locations
  rv_digest :: digest
  rv_cached :: bool
  rv_store :: manifest_store

text \<open>
  What it changes: the packs held in memory and the cache of packs, the objects of the validation
  directory (and, beside them, the control files written there), and the recorder, a list without repetitions (\<^verbatim>\<open>VecReachabilityRecorder\<close>, and the
  table of \<^verbatim>\<open>GcReachabilityStore\<close>).
\<close>

record traversal =
  tv_reader :: pack_reader
  tv_objects :: files
  tv_reached :: "string list"
  tv_control :: files

definition on_reader :: "(pack_reader, 'a) prog \<Rightarrow> (traversal, 'a) prog" where
  "on_reader m st = (case m (tv_reader st) of (r, p) \<Rightarrow> (r, st\<lparr> tv_reader := p \<rparr>))"

definition record_reachable_id :: "string \<Rightarrow> (traversal, bool) prog" where
  "record_reachable_id object_id st =
     (if object_id \<in> set (tv_reached st) then (Inr False, st)
      else (Inr True, st\<lparr> tv_reached := tv_reached st @ [object_id] \<rparr>))"

definition fetch_remote_object_into_validation_root :: "'w remote_view \<Rightarrow> string \<Rightarrow> (traversal, unit) prog" where
  "fetch_remote_object_into_validation_root V object_id =
     sbind (slift (validate_object_id_value object_id)) (\<lambda>_ st.
     if map_of (tv_objects st) (relative_object_path object_id) \<noteq> None then (Inr (), st)
     else
       sbind (on_reader (remote_object_bytes_with_pack_cache (rv_digest V) (rv_remote V) (rv_state V)
                (rv_loose V) (rv_locations V) (rv_cached V) object_id)) (\<lambda>found.
       sbind (slift (ok_or (Bail ''missing remote object'') found)) (\<lambda>bytes st'.
       (Inr (), st'\<lparr> tv_objects := bt_insert (relative_object_path object_id) bytes (tv_objects st') \<rparr>))) st)"

definition read_remote_validation_object ::
  "'w remote_view \<Rightarrow> 'a serde \<Rightarrow> string \<Rightarrow> string \<Rightarrow> files \<Rightarrow> 'a res" where
  "read_remote_validation_object V codec object_id expected_type objects =
     rbind (get_object (ms_crypto (rv_store V)) (ms_secrets (rv_store V)) object_id expected_type objects) (\<lambda>plaintext.
     decoded ''failed to decode remote object plaintext'' codec plaintext)"

definition read_object :: "(files \<Rightarrow> 'a res) \<Rightarrow> (traversal, 'a) prog" where
  "read_object r st = (r (tv_objects st), st)"

section \<open>The traversal\<close>

text \<open>A run that may use up its fuel: \<^const>\<open>None\<close> when it does.\<close>

type_synonym ('s, 'a) fuelled = "'s \<Rightarrow> ('a res \<times> 's) option"

definition obind :: "('s, 'a) fuelled \<Rightarrow> ('a \<Rightarrow> ('s, 'b) fuelled) \<Rightarrow> ('s, 'b) fuelled" where
  "obind m f s = (case m s of None \<Rightarrow> None | Some (Inl e, t) \<Rightarrow> Some (Inl e, t) | Some (Inr x, t) \<Rightarrow> f x t)"

definition total_run :: "('s, 'a) prog \<Rightarrow> ('s, 'a) fuelled" where
  "total_run m s = Some (m s)"

fun record_chunk_ids :: "string list \<Rightarrow> (traversal, unit) prog" where
  "record_chunk_ids [] = sret ()"
| "record_chunk_ids (chunk_id # chunk_ids) =
     sbind (slift (with_context ''invalid chunk id'' (validate_object_id_value chunk_id))) (\<lambda>_.
     sbind (record_reachable_id chunk_id) (\<lambda>_. record_chunk_ids chunk_ids))"

fun collect_remote_file_shards :: "'w remote_view \<Rightarrow> string list \<Rightarrow> (traversal, unit) prog" where
  "collect_remote_file_shards V [] = sret ()"
| "collect_remote_file_shards V (shard_id # shard_ids) =
     sbind (slift (with_context ''invalid file shard id in file'' (validate_object_id_value shard_id))) (\<lambda>_.
     sbind (fetch_remote_object_into_validation_root V shard_id) (\<lambda>_.
     sbind (record_reachable_id shard_id) (\<lambda>new.
     if \<not> new then collect_remote_file_shards V shard_ids
     else
       sbind (read_object (read_remote_validation_object V (ms_file_shard (rv_store V)) shard_id ''file_shard'')) (\<lambda>shard.
       sbind (slift (validate_manifest_schema_version (fs_schema_version shard))) (\<lambda>_.
       sbind (record_chunk_ids (fs_chunks shard)) (\<lambda>_.
       collect_remote_file_shards V shard_ids))))))"

definition collect_remote_file_object_ids :: "'w remote_view \<Rightarrow> string \<Rightarrow> (traversal, unit) prog" where
  "collect_remote_file_object_ids V file_id =
     sbind (fetch_remote_object_into_validation_root V file_id) (\<lambda>_.
     sbind (record_reachable_id file_id) (\<lambda>new.
     if \<not> new then sret ()
     else
       sbind (read_object (read_remote_validation_object V (ms_file (rv_store V)) file_id ''file'')) (\<lambda>f.
       sbind (slift (validate_manifest_schema_version (fo_schema_version f))) (\<lambda>_.
       sbind (record_chunk_ids (fo_chunks f)) (\<lambda>_.
       collect_remote_file_shards V (fo_shard_ids f))))))"

text \<open>
  The loops over entries and shards of a directory take the recursive call for a subdirectory as an
  argument.
\<close>

fun collect_remote_tree_entries ::
  "(string \<Rightarrow> (traversal, unit) fuelled) \<Rightarrow> 'w remote_view \<Rightarrow> tree_entry list \<Rightarrow> (traversal, unit) fuelled" where
  "collect_remote_tree_entries subtree V [] = total_run (sret ())"
| "collect_remote_tree_entries subtree V (entry # entries) =
     obind (total_run (slift (with_context ''invalid object id in tree entry'' (validate_object_id_value (te_object_id entry))))) (\<lambda>_.
     obind (if te_kind entry = ''tree'' then subtree (te_object_id entry)
            else if te_kind entry = ''file'' then total_run (collect_remote_file_object_ids V (te_object_id entry))
            else total_run (sfail (Bail ''unknown remote tree entry kind''))) (\<lambda>_.
     collect_remote_tree_entries subtree V entries))"

fun collect_remote_tree_shards ::
  "(string \<Rightarrow> (traversal, unit) fuelled) \<Rightarrow> 'w remote_view \<Rightarrow> string list \<Rightarrow> (traversal, unit) fuelled" where
  "collect_remote_tree_shards subtree V [] = total_run (sret ())"
| "collect_remote_tree_shards subtree V (shard_id # shard_ids) =
     obind (total_run (slift (with_context ''invalid shard id in directory root'' (validate_object_id_value shard_id)))) (\<lambda>_.
     obind (total_run (fetch_remote_object_into_validation_root V shard_id)) (\<lambda>_.
     obind (total_run (record_reachable_id shard_id)) (\<lambda>new.
     if \<not> new then collect_remote_tree_shards subtree V shard_ids
     else
       obind (total_run (read_object (read_remote_validation_object V (ms_tree_shard (rv_store V)) shard_id ''tree_shard''))) (\<lambda>shard.
       obind (total_run (slift (validate_manifest_schema_version (ts_schema_version shard)))) (\<lambda>_.
       obind (collect_remote_tree_entries subtree V (ts_entries shard)) (\<lambda>_.
       collect_remote_tree_shards subtree V shard_ids))))))"

text \<open>What a directory id is read as: a tree or, when its type is another one, a directory root.\<close>

definition read_remote_directory :: "'w remote_view \<Rightarrow> string \<Rightarrow> files \<Rightarrow> directory_object res" where
  "read_remote_directory V tree_id objects =
     (case read_remote_validation_object V (ms_tree (rv_store V)) tree_id ''tree'' objects of
        Inr tree \<Rightarrow> rbind (validate_manifest_schema_version (tr_schema_version tree)) (\<lambda>_. Inr (Plain_Tree (tr_entries tree)))
      | Inl e \<Rightarrow>
          if \<not> contains_sub ''object type mismatch'' (error_message e) then Inl e
          else
            rbind (read_remote_validation_object V (ms_directory_root (rv_store V)) tree_id ''directory_root'' objects) (\<lambda>r.
            rbind (validate_manifest_schema_version (dr_schema_version r)) (\<lambda>_.
            Inr (Sharded_Directory (dr_shards r)))))"

primrec collect_remote_tree_object_ids :: "nat \<Rightarrow> 'w remote_view \<Rightarrow> string \<Rightarrow> (traversal, unit) fuelled" where
  "collect_remote_tree_object_ids 0 V = (\<lambda>tree_id st. None)"
| "collect_remote_tree_object_ids (Suc fuel) V = (\<lambda>tree_id.
     obind (total_run (fetch_remote_object_into_validation_root V tree_id)) (\<lambda>_.
     obind (total_run (record_reachable_id tree_id)) (\<lambda>new.
     if \<not> new then total_run (sret ())
     else
       obind (total_run (read_object (read_remote_directory V tree_id))) (\<lambda>d.
       case d of
         Plain_Tree entries \<Rightarrow> collect_remote_tree_entries (collect_remote_tree_object_ids fuel V) V entries
       | Sharded_Directory shards \<Rightarrow> collect_remote_tree_shards (collect_remote_tree_object_ids fuel V) V shards))))"

text \<open>
  The loop over the history: at most one snapshot is pending at a time. Each round uses one unit of
  fuel; the traversal of its tree has \<open>depth\<close> units for itself.
\<close>

primrec collect_remote_reachable_object_ids_with_context ::
  "nat \<Rightarrow> nat \<Rightarrow> 'w remote_view \<Rightarrow> string list \<Rightarrow> (traversal, unit) fuelled" where
  "collect_remote_reachable_object_ids_with_context 0 depth V = (\<lambda>pending st. None)"
| "collect_remote_reachable_object_ids_with_context (Suc fuel) depth V = (\<lambda>pending.
     case pending of
       [] \<Rightarrow> total_run (sret ())
     | snapshot_id # pending_snapshots \<Rightarrow>
         obind (total_run (fetch_remote_object_into_validation_root V snapshot_id)) (\<lambda>_.
         obind (total_run (record_reachable_id snapshot_id)) (\<lambda>new.
         if \<not> new then collect_remote_reachable_object_ids_with_context fuel depth V pending_snapshots
         else
           obind (total_run (read_object (read_remote_validation_object V (ms_snapshot (rv_store V)) snapshot_id ''snapshot'')))
             (\<lambda>snapshot.
           obind (total_run (slift (validate_manifest_schema_version (sn_schema_version snapshot)))) (\<lambda>_.
           obind (collect_remote_tree_object_ids depth V (sn_root_tree_id snapshot)) (\<lambda>_.
           case sn_parent_snapshot_id snapshot of
             None \<Rightarrow> collect_remote_reachable_object_ids_with_context fuel depth V pending_snapshots
           | Some parent_snapshot_id \<Rightarrow>
               obind (total_run (slift (with_context ''invalid parent snapshot id''
                        (validate_object_id_value parent_snapshot_id)))) (\<lambda>_.
               collect_remote_reachable_object_ids_with_context fuel depth V
                 (parent_snapshot_id # pending_snapshots))))))))"

definition collect_remote_reachable_object_ids_with_recorder ::
  "nat \<Rightarrow> nat \<Rightarrow> 'w remote_view \<Rightarrow> string \<Rightarrow> (traversal, unit) fuelled" where
  "collect_remote_reachable_object_ids_with_recorder fuel depth V head_snapshot_id =
     collect_remote_reachable_object_ids_with_context fuel depth V [head_snapshot_id]"

definition collect_remote_reachable_object_ids ::
  "nat \<Rightarrow> nat \<Rightarrow> 'w remote_view \<Rightarrow> string \<Rightarrow> (pack_reader \<times> files, string list) fuelled" where
  "collect_remote_reachable_object_ids fuel depth V head_snapshot_id = (\<lambda>(reader, objects).
     case collect_remote_reachable_object_ids_with_recorder fuel depth V head_snapshot_id
            \<lparr> tv_reader = reader, tv_objects = objects, tv_reached = [], tv_control = [] \<rparr> of
       None \<Rightarrow> None
     | Some (r, st) \<Rightarrow> Some (rbind r (\<lambda>_. Inr (tv_reached st)), tv_reader st, tv_objects st))"

fun materialize_remote_objects_into_validation_root :: "'w remote_view \<Rightarrow> string list \<Rightarrow> (traversal, unit) prog" where
  "materialize_remote_objects_into_validation_root V [] = sret ()"
| "materialize_remote_objects_into_validation_root V (object_id # object_ids) =
     sbind (fetch_remote_object_into_validation_root V object_id) (\<lambda>_.
     materialize_remote_objects_into_validation_root V object_ids)"

section \<open>The control files of the validation directory\<close>

definition write_remote_control_plane_to_validation_root :: "remote_control_plane \<Rightarrow> (traversal, unit) prog" where
  "write_remote_control_plane_to_validation_root control_plane st =
     (let base = bt_insert ''keyring/keyring.current'' (cp_keyring_pointer_bytes control_plane)
                (bt_insert ''refs/default.json'' (cp_default_ref_bytes control_plane)
                (bt_insert ''layout_root.json'' (cp_layout_root_bytes control_plane) (tv_control st)))
      in (Inr (), st\<lparr> tv_control := foldl (\<lambda>fs (file_name, bytes). bt_insert (''keyring/'' @ file_name) bytes fs) base
                       (cp_keyring_files control_plane) \<rparr>))"

end
