(* ===== verification/Remote_Gc.thy ===== *)
theory Remote_Gc
  imports Remote_Reach
begin

text \<open>
  Garbage collection on a remote (\<^verbatim>\<open>e2v-sync/src/remote_maintenance.rs\<close>): the objects that branches and
  recent local heads need are marked by traversing the remote, everything else below the directories of
  objects, packs and indices is a candidate, and the candidates are deleted under a fence of everything
  that a concurrent writer changes, a grace period, and a journal of what is still to be deleted.
  \<^verbatim>\<open>GcReachabilityStore\<close> keeps its two tables in SQLite; here they are the recorder of the traversal and a
  set of paths. Times are milliseconds.
\<close>

section \<open>Pruning the cache of packs\<close>

definition file_stem :: "string \<Rightarrow> string" where
  "file_stem name =
     (case rsplit_once (CHR ''.'') name of None \<Rightarrow> name | Some (stem, ext) \<Rightarrow> if stem = [] then name else stem)"

definition normalize_cached_pack_relative_path :: "string list \<Rightarrow> string option" where
  "normalize_cached_pack_relative_path names =
     (if all_normal (join_with ''/'' names) \<and> names \<noteq> []
      then Some (join_with ''/'' (map component_name (components (join_with ''/'' names)))) else None)"

definition cached_pack_container_id_from_relative_path :: "string \<Rightarrow> string option" where
  "cached_pack_container_id_from_relative_path relative =
     (let names = map component_name (components relative); name = last names in
      if names = [] then None
      else case file_extension name of
        None \<Rightarrow> None
      | Some extension \<Rightarrow>
          if extension = ''blake3''
          then normalize_cached_pack_relative_path (butlast names @ [with_extension name (file_stem name)])
          else normalize_cached_pack_relative_path names)"

definition pack_data_cache_root :: string where "pack_data_cache_root = ''cache/pack-data/''"

fun prune_cached_packs :: "string set \<Rightarrow> string list \<Rightarrow> files \<Rightarrow> files" where
  "prune_cached_packs live [] fs = fs"
| "prune_cached_packs live (path # paths) fs =
     (case strip_prefix pack_data_cache_root path of
        None \<Rightarrow> prune_cached_packs live paths fs
      | Some relative \<Rightarrow>
          (case cached_pack_container_id_from_relative_path relative of
             None \<Rightarrow> prune_cached_packs live paths fs
           | Some container \<Rightarrow>
               if container \<in> live then prune_cached_packs live paths fs
               else prune_cached_packs live paths (snd (delete_cached_pack_data_bytes container fs))))"

definition prune_stale_cached_pack_data :: "locations \<Rightarrow> (files, unit) prog" where
  "prune_stale_cached_pack_data pack_locations fs =
     (if \<not> list_ex (\<lambda>f. starts_with (fst f) pack_data_cache_root) fs then (Inr (), fs)
      else case mapM location_physical_ref (map snd pack_locations) of
        Inl e \<Rightarrow> (Inl e, fs)
      | Inr refs \<Rightarrow> (Inr (), prune_cached_packs (set (map container_id refs)) (map fst fs) fs))"

section \<open>What garbage collection works on\<close>

text \<open>
  The local side is the control directory and what it unlocks: the id of the repository, the secrets of
  its keyring, those a keyring read from the remote gives this device, and the reconciliation of the two
  keyrings, which are parameters.
\<close>

record gc_fence_state =
  gf_refs :: "(string \<times> u64 \<times> byte list) list"
  gf_active_intent_paths :: "string list"
  gf_active_lease_paths :: "string list"
  gf_layout_root_generation :: u64
  gf_layout_root_bytes :: "byte list"
  gf_pack_index_root_bytes :: "byte list option"

record gc_delete_journal =
  gd_grace_period_days :: u64
  gd_fence_state :: gc_fence_state
  gd_pending_paths :: "string list"

instance gc_fence_state_ext :: (countable) countable
  by (rule countable_classI [of "\<lambda>r. to_nat (gf_refs r, gf_active_intent_paths r, gf_active_lease_paths r,
        gf_layout_root_generation r, gf_layout_root_bytes r, gf_pack_index_root_bytes r, gc_fence_state.more r)"]) auto

instance gc_delete_journal_ext :: (countable) countable
  by (rule countable_classI [of "\<lambda>r. to_nat (gd_grace_period_days r, gd_fence_state r, gd_pending_paths r,
        gc_delete_journal.more r)"]) auto

record 's gc_env =
  ge_remote :: "'s remote"
  ge_capability :: backend_capability
  ge_store :: manifest_store
  ge_control :: control_codecs
  ge_refs :: ref_codecs
  ge_packs :: pack_index_env
  ge_oblivious :: "oblivious_root_record serde"
  ge_journal :: "gc_delete_journal serde"
  ge_digest :: digest
  ge_trusted :: files
  ge_repo_id :: "files \<Rightarrow> string res"
  ge_local_secrets :: "files \<Rightarrow> repo_secrets res"
  ge_remote_secrets :: "byte list \<Rightarrow> files \<Rightarrow> repo_secrets res"
  ge_reconcile :: "'s \<Rightarrow> (files, unit) prog"
  ge_fuel :: nat
  ge_depth :: nat

record 's gc_state =
  gs_remote :: 's
  gs_files :: files

definition gc_on_remote :: "('s, 'a) prog \<Rightarrow> ('s gc_state, 'a) prog" where
  "gc_on_remote m st = (case m (gs_remote st) of (r, s) \<Rightarrow> (r, st\<lparr> gs_remote := s \<rparr>))"

definition gc_on_files :: "(files, 'a) prog \<Rightarrow> ('s gc_state, 'a) prog" where
  "gc_on_files m st = (case m (gs_files st) of (r, fs) \<Rightarrow> (r, st\<lparr> gs_files := fs \<rparr>))"

definition gc_reads :: "('s \<Rightarrow> 'a res) \<Rightarrow> ('s gc_state, 'a) prog" where
  "gc_reads f st = (f (gs_remote st), st)"

section \<open>Listing the remote\<close>

definition load_remote_loose_object_ids :: "'s remote \<Rightarrow> 's \<Rightarrow> string list res" where
  "load_remote_loose_object_ids R s =
     rbind (r_list R ''objects/'' s) (\<lambda>paths.
     Inr (sort (remdups (List.map_filter (\<lambda>path.
       case strip_prefix ''objects/'' path of
         None \<Rightarrow> None
       | Some v \<Rightarrow> (case strip_suffix ''.json'' v of
           None \<Rightarrow> None
         | Some object_id \<Rightarrow> if is_ok (validate_object_id_value object_id) then Some object_id else None)) paths))))"

definition gc_time_probe :: string where "gc_time_probe = ''.e2v/gc-remote-time.probe''"

definition list_fresh_marker_paths :: "'s remote \<Rightarrow> string \<Rightarrow> string \<Rightarrow> nat \<Rightarrow> ('s, string list) prog" where
  "list_fresh_marker_paths R prefix suffix expiry_hours =
     sbind (observe_remote_now_with_probe R gc_time_probe) (\<lambda>observed_now.
     sbind (sread (r_list R prefix)) (\<lambda>paths s.
     (Inr (sort (filter (\<lambda>path. case marker_is_fresh_at R path observed_now expiry_hours s of Inr fresh \<Rightarrow> fresh | Inl e \<Rightarrow> False)
             (filter (\<lambda>path. strip_suffix suffix path \<noteq> None) paths))), s)))"

definition list_active_intent_paths :: "'s remote \<Rightarrow> ('s, string list) prog" where
  "list_active_intent_paths R = list_fresh_marker_paths R ''transactions/active/'' ''.intent'' intent_expiry_hours"

definition list_active_lease_paths :: "'s remote \<Rightarrow> ('s, string list) prog" where
  "list_active_lease_paths R = list_fresh_marker_paths R ''leases/'' ''.lock'' intent_expiry_hours"

definition list_remote_branch_refs :: "'s remote \<Rightarrow> 's \<Rightarrow> listed_ref list res" where
  "list_remote_branch_refs R s =
     rbind (r_list_refs R s) (\<lambda>listed.
     mapM (\<lambda>l. rbind (with_context ''invalid remote branch token'' (validate_sync_identifier (listed_token l))) (\<lambda>_. Inr l))
       (filter (\<lambda>l. \<not> starts_with (listed_token l) ''keyring/'') listed))"

definition capture_gc_fence_state :: "'s remote \<Rightarrow> ('s, gc_fence_state) prog" where
  "capture_gc_fence_state R =
     sbind (sread (r_list_refs R)) (\<lambda>listed.
     sbind (list_active_intent_paths R) (\<lambda>intents.
     sbind (list_active_lease_paths R) (\<lambda>leases.
     sbind (sread (r_get R ''layout_root.json'')) (\<lambda>layout_bytes.
     sbind (sread (r_read_layout_root R)) (\<lambda>layout.
     sbind (sread (load_remote_pack_index_root_bytes R)) (\<lambda>pack_index_bytes.
     sret \<lparr> gf_refs = map (\<lambda>l. (listed_token l, ref_version (listed_stored l), ref_value (listed_stored l)))
              (filter (\<lambda>l. \<not> starts_with (listed_token l) ''keyring/'') listed),
            gf_active_intent_paths = intents, gf_active_lease_paths = leases,
            gf_layout_root_generation = root_generation layout, gf_layout_root_bytes = layout_bytes,
            gf_pack_index_root_bytes = pack_index_bytes \<rparr>))))))"

section \<open>The clock of the remote\<close>

definition required_time :: "'s remote \<Rightarrow> string \<Rightarrow> string \<Rightarrow> 's \<Rightarrow> nat res" where
  "required_time R what path s =
     rbind (r_stat R path s) (\<lambda>st. ok_or (Bail what) (stat_modified_at st))"

definition optional_time :: "'s remote \<Rightarrow> string \<Rightarrow> string \<Rightarrow> 's \<Rightarrow> nat option res" where
  "optional_time R what path s =
     (case r_stat R path s of
        Inr st \<Rightarrow> rbind (ok_or (Bail what) (stat_modified_at st)) (\<lambda>t. Inr (Some t))
      | Inl e \<Rightarrow> if is_missing_physical_object_error e then Inr None else Inl e)"

definition observed_remote_latest_time :: "'s remote \<Rightarrow> string list \<Rightarrow> 's \<Rightarrow> nat res" where
  "observed_remote_latest_time R candidate_paths s =
     rbind (required_time R ''gc execute aborted: layout root has no reliable remote modification time'' ''layout_root.json'' s)
       (\<lambda>layout_time.
     rbind (optional_time R ''gc execute aborted: pack index root has no reliable remote modification time'' pack_index_root_path s)
       (\<lambda>index_time.
     rbind (r_list R ''transactions/active/'' s) (\<lambda>intents.
     rbind (mapM (\<lambda>path. required_time R ''gc execute aborted: active intent has no reliable remote modification time'' path s)
              (filter (\<lambda>path. strip_suffix ''.intent'' path \<noteq> None) intents)) (\<lambda>intent_times.
     rbind (r_list R ''leases/'' s) (\<lambda>leases.
     rbind (mapM (\<lambda>path. required_time R ''gc execute aborted: writer lease has no reliable remote modification time'' path s)
              (filter (\<lambda>path. strip_suffix ''.lock'' path \<noteq> None) leases)) (\<lambda>lease_times.
     rbind (mapM (\<lambda>path. optional_time R ''gc execute aborted: physical ref has no reliable remote modification time'' path s)
              candidate_paths) (\<lambda>times.
     Inr (foldl max layout_time
       ((case index_time of None \<Rightarrow> [] | Some t \<Rightarrow> [t]) @ intent_times @ lease_times @ List.map_filter id times)))))))))"

text \<open>\<^verbatim>\<open>SystemTime::checked_sub\<close>: the seconds of a time are a signed number of 64 bits.\<close>

definition time_checked_sub :: "nat \<Rightarrow> u64 \<Rightarrow> int option" where
  "time_checked_sub t seconds =
     (if int (t div 1000) - int (unat seconds) < - (2 ^ 63) then None else Some (int t - int (unat seconds) * 1000))"

definition days_as_seconds :: "u64 \<Rightarrow> u64" where
  "days_as_seconds days = (if unat days * 86400 < 2 ^ 64 then days * 86400 else -1)"

definition observed_remote_safe_horizon :: "'s remote \<Rightarrow> u64 \<Rightarrow> string list \<Rightarrow> 's \<Rightarrow> int res" where
  "observed_remote_safe_horizon R grace_period_days candidate_paths s =
     rbind (observed_remote_latest_time R candidate_paths s) (\<lambda>observed_now.
     ok_or (Bail ''gc execute aborted: invalid grace period horizon'')
       (time_checked_sub observed_now (days_as_seconds grace_period_days)))"

definition physical_ref_is_older_than_horizon :: "'s remote \<Rightarrow> string \<Rightarrow> int \<Rightarrow> 's \<Rightarrow> bool res" where
  "physical_ref_is_older_than_horizon R path safe_horizon s =
     rbind (optional_time R ''gc execute aborted: physical ref has no reliable remote modification time'' path s) (\<lambda>t.
     Inr (case t of None \<Rightarrow> False | Some modified_at \<Rightarrow> int modified_at \<le> safe_horizon))"

section \<open>Marking\<close>

record maintenance_remote_state =
  mr_default_ref :: stored_ref
  mr_control_plane :: remote_control_plane
  mr_validation_secrets :: repo_secrets
  mr_loose_object_ids :: "string list"
  mr_pack_locations :: locations

definition local_store :: "'s gc_env \<Rightarrow> files \<Rightarrow> manifest_store res" where
  "local_store E fs =
     rbind (ge_local_secrets E fs) (\<lambda>secrets. Inr ((ge_store E)\<lparr> ms_secrets := secrets, ms_files := fs \<rparr>))"

definition local_default_branch_token :: "'s gc_env \<Rightarrow> files \<Rightarrow> string res" where
  "local_default_branch_token E fs =
     rbind (fs_read default_ref_file fs) (\<lambda>bytes.
     rbind (local_store E fs) (\<lambda>M.
     rbind (open_ref M (ge_refs E) ''failed to decode ref record'' default_ref_token bytes) (\<lambda>r.
     Inr (rf_ref_token_hex r))))"

definition load_maintenance_remote_state :: "'s gc_env \<Rightarrow> string \<Rightarrow> ('s gc_state, maintenance_remote_state) prog" where
  "load_maintenance_remote_state E token st =
     (let R = ge_remote E; s = gs_remote st; fs = gs_files st in
      sbind (slift (r_read_ref R token s)) (\<lambda>found.
      sbind (slift (ok_or (Bail ''remote branch ref not found'') found)) (\<lambda>default_ref.
      sbind (slift (read_remote_control_plane_for_repo (ge_control E) R (ge_repo_id E fs) (ref_value default_ref) s)) (\<lambda>control_plane.
      sbind (slift (ge_remote_secrets E (cp_current_keyring_bytes control_plane) fs)) (\<lambda>secrets.
      sbind (slift (load_remote_loose_object_ids R s)) (\<lambda>loose.
      sbind (gc_on_files (load_remote_active_pack_locations_with_local_cache (ge_packs E) (ge_oblivious E) R secrets s)) (\<lambda>locs.
      sret \<lparr> mr_default_ref = default_ref, mr_control_plane = control_plane, mr_validation_secrets = secrets,
             mr_loose_object_ids = loose, mr_pack_locations = locs \<rparr>)))))) st)"

definition maintenance_view :: "'s gc_env \<Rightarrow> maintenance_remote_state \<Rightarrow> 's \<Rightarrow> 's remote_view" where
  "maintenance_view E m s =
     \<lparr> rv_remote = ge_remote E, rv_state = s, rv_loose = set (mr_loose_object_ids m), rv_locations = mr_pack_locations m,
       rv_digest = ge_digest E, rv_cached = True, rv_store = (ge_store E)\<lparr> ms_secrets := mr_validation_secrets m \<rparr> \<rparr>"

definition decode_remote_ref :: "'s gc_env \<Rightarrow> maintenance_remote_state \<Rightarrow> byte list \<Rightarrow> (string \<times> string option) res" where
  "decode_remote_ref E m = decode_default_ref_record_with_secrets (ms_crypto (ge_store E)) (ge_control E) (mr_validation_secrets m)"

text \<open>The loop over the branches; the result says whether any of them has a head.\<close>

fun collect_branches :: "'s gc_env \<Rightarrow> maintenance_remote_state \<Rightarrow> 's \<Rightarrow> listed_ref list \<Rightarrow> bool \<Rightarrow> (traversal, bool) fuelled" where
  "collect_branches E m s [] saw_head_snapshot = total_run (sret saw_head_snapshot)"
| "collect_branches E m s (l # ls) saw_head_snapshot =
     obind (total_run (\<lambda>tv. (read_remote_control_plane_for_repo (ge_control E) (ge_remote E)
              (ge_repo_id E (pr_files (tv_reader tv))) (ref_value (listed_stored l)) s, tv))) (\<lambda>control_plane.
     obind (total_run (write_remote_control_plane_to_validation_root control_plane)) (\<lambda>_.
     obind (total_run (slift (with_context ''failed to decode remote branch ref'' (decode_remote_ref E m (ref_value (listed_stored l))))))
       (\<lambda>(decoded_branch_token, head_snapshot_id).
     obind (total_run (sensure (decoded_branch_token = listed_token l) (Bail ''remote ref token mismatch'') (sret ()))) (\<lambda>_.
     case head_snapshot_id of
       None \<Rightarrow> collect_branches E m s ls saw_head_snapshot
     | Some head \<Rightarrow>
         obind (collect_remote_reachable_object_ids_with_recorder (ge_fuel E) (ge_depth E) (maintenance_view E m s) head) (\<lambda>_.
         collect_branches E m s ls True)))))"

definition collect_all_remote_reachable_object_ids ::
  "'s gc_env \<Rightarrow> maintenance_remote_state \<Rightarrow> 's \<Rightarrow> (traversal, unit) fuelled" where
  "collect_all_remote_reachable_object_ids E m s =
     obind (total_run (\<lambda>tv. (local_default_branch_token E (pr_files (tv_reader tv)), tv))) (\<lambda>default_branch_token.
     obind (total_run (slift (list_remote_branch_refs (ge_remote E) s))) (\<lambda>refs.
     obind (collect_branches E m s refs False) (\<lambda>saw_head_snapshot.
     if saw_head_snapshot then total_run (sret ())
     else
       obind (total_run (slift (r_read_ref (ge_remote E) default_branch_token s))) (\<lambda>found.
       obind (total_run (slift (ok_or (Bail ''remote branch ref not found'') found))) (\<lambda>default_ref.
       obind (total_run (slift (decode_remote_ref E m (ref_value default_ref)))) (\<lambda>(token, head_snapshot_id).
       case head_snapshot_id of
         None \<Rightarrow> total_run (sret ())
       | Some head \<Rightarrow>
           collect_remote_reachable_object_ids_with_recorder (ge_fuel E) (ge_depth E) (maintenance_view E m s) head))))))"

definition remote_physical_path_for_object :: "string list \<Rightarrow> locations \<Rightarrow> string \<Rightarrow> string option" where
  "remote_physical_path_for_object loose pack_locations object_id =
     (if object_id \<in> set loose then Some (relative_object_path object_id)
      else case map_of pack_locations object_id of
        None \<Rightarrow> None
      | Some location \<Rightarrow>
          (case location_physical_ref location of Inl e \<Rightarrow> None | Inr r \<Rightarrow> Some (container_id r)))"

definition unpublished_snapshot_grace_period_days :: u64 where "unpublished_snapshot_grace_period_days = 30"

fun collect_snapshots :: "'s gc_env \<Rightarrow> 's remote_view \<Rightarrow> string list \<Rightarrow> (traversal, unit) fuelled" where
  "collect_snapshots E V [] = total_run (sret ())"
| "collect_snapshots E V (snapshot_id # snapshot_ids) =
     obind (collect_remote_reachable_object_ids_with_recorder (ge_fuel E) (ge_depth E) V snapshot_id) (\<lambda>_.
     collect_snapshots E V snapshot_ids)"

text \<open>The heads of local branches that are on the remote but in no remote branch, unless they are old.\<close>

definition recent_unpublished_heads ::
  "'s gc_env \<Rightarrow> maintenance_remote_state \<Rightarrow> 's \<Rightarrow> branch_summary list \<Rightarrow> string list \<Rightarrow> string list res" where
  "recent_unpublished_heads E m s branches reached =
     (let R = ge_remote E;
          path_of = remote_physical_path_for_object (mr_loose_object_ids m) (mr_pack_locations m);
          candidates = sort (remdups (filter (\<lambda>i. i \<notin> set reached) (List.map_filter bm_head_snapshot_id branches)));
          candidate_paths = sort (remdups (List.map_filter path_of candidates))
      in if candidates = [] \<or> candidate_paths = [] then Inr []
         else
           rbind (observed_remote_safe_horizon R unpublished_snapshot_grace_period_days candidate_paths s) (\<lambda>horizon.
           Inr (filter (\<lambda>i. case path_of i of
                   None \<Rightarrow> False
                 | Some path \<Rightarrow>
                     \<not> (case physical_ref_is_older_than_horizon R path horizon s of Inr older \<Rightarrow> older | Inl e \<Rightarrow> False))
                  candidates)))"

definition collect_recent_unpublished_local_reachable_object_ids ::
  "'s gc_env \<Rightarrow> maintenance_remote_state \<Rightarrow> 's \<Rightarrow> (traversal, unit) fuelled" where
  "collect_recent_unpublished_local_reachable_object_ids E m s =
     obind (total_run (\<lambda>tv. (let fs = pr_files (tv_reader tv) in
        rbind (local_store E fs) (\<lambda>M. list_branches M (ge_refs E) fs), tv))) (\<lambda>branches.
     obind (total_run (\<lambda>tv. (recent_unpublished_heads E m s branches (tv_reached tv), tv))) (\<lambda>heads.
     collect_snapshots E (maintenance_view E m s) heads))"

section \<open>What is unreachable\<close>

definition current_remote_physical_path_for_object :: "locations \<Rightarrow> string \<Rightarrow> string" where
  "current_remote_physical_path_for_object pack_locations object_id =
     (case map_of pack_locations object_id of
        None \<Rightarrow> relative_object_path object_id
      | Some location \<Rightarrow>
          (case location_physical_ref location of Inl e \<Rightarrow> relative_object_path object_id | Inr r \<Rightarrow> container_id r))"

text \<open>The table of reachable physical refs, which starts empty.\<close>

fun insert_packed_refs :: "string list \<Rightarrow> locations \<Rightarrow> string list res" where
  "insert_packed_refs reachable [] = Inr []"
| "insert_packed_refs reachable ((object_id, location) # locs) =
     (if object_id \<in> set reachable then
        rbind (location_physical_ref location) (\<lambda>r.
        rbind (insert_packed_refs reachable locs) (\<lambda>refs. Inr (container_id r # refs)))
      else insert_packed_refs reachable locs)"

definition collect_unreachable_physical_refs_with_spill ::
  "'s remote \<Rightarrow> string list \<Rightarrow> locations \<Rightarrow> string list \<Rightarrow> string list \<Rightarrow> 's \<Rightarrow> string list res" where
  "collect_unreachable_physical_refs_with_spill R loose pack_locations reachable segment_paths s =
     rbind (insert_packed_refs reachable pack_locations) (\<lambda>packed.
     let single = map relative_object_path (filter (\<lambda>i. i \<in> set reachable \<and>
           current_remote_physical_path_for_object pack_locations i = relative_object_path i) loose);
         physical_refs = set single \<union> set packed \<union> set segment_paths
     in rbind (r_list R ''objects/'' s) (\<lambda>objects.
        rbind (r_list R ''packs/data/'' s) (\<lambda>datas.
        rbind (r_list R ''packs/index/'' s) (\<lambda>indices.
        rbind (r_list R ''pack-index/segments/'' s) (\<lambda>segments.
        let candidates = filter (\<lambda>path. case strip_prefix ''objects/'' path of
              None \<Rightarrow> False
            | Some v \<Rightarrow> (case strip_suffix ''.json'' v of
                None \<Rightarrow> False | Some object_id \<Rightarrow> is_ok (validate_object_id_value object_id))) objects
            @ datas @ indices @ segments
        in Inr (filter (\<lambda>path. path \<notin> physical_refs) candidates))))))"

section \<open>The dry run\<close>

record gc_dry_run_report =
  unreachable_physical_refs :: "string list"
  active_intent_paths :: "string list"

fun persist_cached_pack_data :: "digest \<Rightarrow> (string, byte list) btree \<Rightarrow> (files, unit) prog" where
  "persist_cached_pack_data digest [] = sret ()"
| "persist_cached_pack_data digest ((container, pack_bytes) # packs) =
     sbind (cache_pack_data_bytes digest container pack_bytes) (\<lambda>_. persist_cached_pack_data digest packs)"

definition initialize_maintenance_pack_cache :: "locations \<Rightarrow> (files, (string, byte list) btree) prog" where
  "initialize_maintenance_pack_cache pack_locations =
     sbind (prune_stale_cached_pack_data pack_locations) (\<lambda>_. sret [])"

text \<open>A traversal that starts with an empty validation directory and works on the local cache.\<close>

definition with_traversal :: "(string, byte list) btree \<Rightarrow> (traversal, unit) fuelled \<Rightarrow> ('s gc_state, traversal) fuelled" where
  "with_traversal packs m st =
     (case m \<lparr> tv_reader = \<lparr> pr_packs = packs, pr_files = gs_files st \<rparr>, tv_objects = [], tv_reached = [], tv_control = [] \<rparr> of
        None \<Rightarrow> None
      | Some (r, tv) \<Rightarrow> Some (rbind r (\<lambda>_. Inr tv), st\<lparr> gs_files := pr_files (tv_reader tv) \<rparr>))"

definition gc_mark :: "'s gc_env \<Rightarrow> ('s gc_state, maintenance_remote_state \<times> traversal) fuelled" where
  "gc_mark E =
     obind (total_run (\<lambda>st. gc_on_files (ge_reconcile E (gs_remote st)) st)) (\<lambda>_.
     obind (total_run (\<lambda>st. (local_default_branch_token E (gs_files st), st))) (\<lambda>token.
     obind (total_run (load_maintenance_remote_state E token)) (\<lambda>m.
     obind (total_run (slift (assert_remote_generations_meet_local_floor (ge_control E) token (mr_default_ref m)
              (mr_control_plane m) (ge_trusted E)))) (\<lambda>_.
     obind (total_run (gc_on_files (initialize_maintenance_pack_cache (mr_pack_locations m)))) (\<lambda>packs.
     obind (\<lambda>st. with_traversal packs
              (obind (total_run (write_remote_control_plane_to_validation_root (mr_control_plane m))) (\<lambda>_.
               obind (collect_all_remote_reachable_object_ids E m (gs_remote st)) (\<lambda>_.
               collect_recent_unpublished_local_reachable_object_ids E m (gs_remote st)))) st) (\<lambda>tv.
     obind (total_run (gc_on_files (persist_cached_pack_data (ge_digest E) (pr_packs (tv_reader tv))))) (\<lambda>_.
     total_run (sret (m, tv)))))))))"

definition gc_dry_run :: "'s gc_env \<Rightarrow> ('s gc_state, gc_dry_run_report) fuelled" where
  "gc_dry_run E =
     obind (gc_mark E) (\<lambda>(m, tv).
     obind (total_run (gc_reads (load_remote_active_pack_segment_paths (ge_packs E) (ge_oblivious E) (ge_remote E)
              (mr_validation_secrets m)))) (\<lambda>segment_paths.
     obind (total_run (gc_on_remote (list_active_intent_paths (ge_remote E)))) (\<lambda>intents.
     obind (total_run (gc_reads (collect_unreachable_physical_refs_with_spill (ge_remote E) (mr_loose_object_ids m)
              (mr_pack_locations m) (tv_reached tv) segment_paths))) (\<lambda>unreachable.
     total_run (sret \<lparr> unreachable_physical_refs = sort unreachable, active_intent_paths = intents \<rparr>)))))"

section \<open>The journal of deletions\<close>

definition gc_delete_journal_path :: string where "gc_delete_journal_path = ''journal/gc/gc-execute.json''"

definition load_gc_delete_journal :: "gc_delete_journal serde \<Rightarrow> (files, gc_delete_journal option) prog" where
  "load_gc_delete_journal J fs =
     (case map_of fs gc_delete_journal_path of
        None \<Rightarrow> (Inr None, fs)
      | Some bytes \<Rightarrow>
          (case from_slice J bytes of
             Some journal \<Rightarrow> (Inr (Some journal), fs)
           | None \<Rightarrow> (Inr None, bt_remove gc_delete_journal_path fs)))"

definition store_gc_delete_journal :: "gc_delete_journal serde \<Rightarrow> gc_delete_journal \<Rightarrow> (files, unit) prog" where
  "store_gc_delete_journal J journal fs = (Inr (), bt_insert gc_delete_journal_path (to_vec J journal) fs)"

definition remove_gc_delete_journal :: "(files, unit) prog" where
  "remove_gc_delete_journal fs = (Inr (), bt_remove gc_delete_journal_path fs)"

section \<open>Deleting\<close>

definition gc_execute_capability_status :: "backend_capability \<Rightarrow> bool \<times> string list" where
  "gc_execute_capability_status c =
     (let blockers =
        (if supports_paged_list c then [] else [''requires reliable paged listing'']) @
        (if supports_reliable_remote_time c then [] else [''requires reliable remote time'']) @
        (if supports_remote_lock_or_lease c then [] else [''requires remote lock or lease'']) @
        (if supports_transaction_markers c then [] else [''requires transaction markers''])
      in (blockers = [], blockers))"

definition ensure_gc_execute_capability :: "backend_capability \<Rightarrow> unit res" where
  "ensure_gc_execute_capability c =
     ensure (fst (gc_execute_capability_status c))
       (Bail ''gc execute aborted: backend capability does not satisfy destructive gc safety requirements'') (Inr ())"

fun gc_delete_loop ::
  "'s gc_env \<Rightarrow> u64 \<Rightarrow> gc_fence_state \<Rightarrow> int \<Rightarrow> string list \<Rightarrow> string list \<Rightarrow> ('s gc_state, string list) prog" where
  "gc_delete_loop E grace fence safe_horizon deleted [] st = (Inr deleted, st)"
| "gc_delete_loop E grace fence safe_horizon deleted (path # paths) st =
     (case physical_ref_is_older_than_horizon (ge_remote E) path safe_horizon (gs_remote st) of
        Inl e \<Rightarrow> (Inl e, st)
      | Inr older \<Rightarrow>
          if \<not> older then gc_delete_loop E grace fence safe_horizon deleted paths st
          else
            (case r_delete (ge_remote E) path (gs_remote st) of
               (Inr _, s) \<Rightarrow> gc_delete_loop E grace fence safe_horizon (deleted @ [path]) paths (st\<lparr> gs_remote := s \<rparr>)
             | (Inl e, s) \<Rightarrow>
                 if is_missing_physical_object_error e
                 then gc_delete_loop E grace fence safe_horizon deleted paths (st\<lparr> gs_remote := s \<rparr>)
                 else
                   (let st' = st\<lparr> gs_remote := s \<rparr>; pending_paths = filter (\<lambda>p. r_exists (ge_remote E) p s) (path # paths) in
                    if pending_paths = [] then (Inl e, st')
                    else
                      (case gc_on_files (store_gc_delete_journal (ge_journal E)
                              \<lparr> gd_grace_period_days = grace, gd_fence_state = fence, gd_pending_paths = pending_paths \<rparr>) st' of
                         (Inl e', st'') \<Rightarrow> (Inl e', st'')
                       | (Inr _, st'') \<Rightarrow> (Inl e, st'')))))"

definition gc_candidates :: "'s gc_env \<Rightarrow> u64 \<Rightarrow> ('s gc_state, gc_fence_state \<times> string list) fuelled" where
  "gc_candidates E grace_period_days =
     obind (total_run (gc_on_files (load_gc_delete_journal (ge_journal E)))) (\<lambda>loaded.
     case loaded of
       Some journal \<Rightarrow>
         total_run (sensure (gd_grace_period_days journal = grace_period_days)
           (Bail ''gc execute aborted: existing delete journal was created with a different grace period'')
           (sret (gd_fence_state journal, gd_pending_paths journal)))
     | None \<Rightarrow>
         obind (total_run (gc_on_remote (capture_gc_fence_state (ge_remote E)))) (\<lambda>before_fence.
         obind (gc_dry_run E) (\<lambda>report.
         obind (total_run (sensure (active_intent_paths report = []) (Bail ''gc execute aborted: active intent exists'') (sret ())))
           (\<lambda>_.
         obind (total_run (sensure (gf_active_lease_paths before_fence = []) (Bail ''gc execute aborted: writer lease exists'')
           (sret ()))) (\<lambda>_.
         obind (total_run (gc_on_files (store_gc_delete_journal (ge_journal E)
           \<lparr> gd_grace_period_days = grace_period_days, gd_fence_state = before_fence,
             gd_pending_paths = unreachable_physical_refs report \<rparr>))) (\<lambda>_.
         total_run (sret (before_fence, unreachable_physical_refs report))))))))"

definition gc_execute :: "'s gc_env \<Rightarrow> u64 \<Rightarrow> bool \<Rightarrow> ('s gc_state, string list) fuelled" where
  "gc_execute E grace_period_days allow_single_writer_maintenance_window =
     obind (total_run (sensure (0 < grace_period_days) (Bail ''grace period must be greater than zero'') (sret ()))) (\<lambda>_.
     obind (total_run (slift (ensure_gc_execute_capability (ge_capability E)))) (\<lambda>_.
     obind (total_run (sensure (capability_writer_mode (ge_capability E) \<noteq> SingleWriter \<or> allow_single_writer_maintenance_window)
       (Bail ''gc execute aborted: single-writer backends require an explicit offline maintenance window confirmation'') (sret ())))
       (\<lambda>_.
     obind (gc_candidates E grace_period_days) (\<lambda>(before_fence, candidate_paths).
     obind (total_run (gc_on_remote (capture_gc_fence_state (ge_remote E)))) (\<lambda>after_fence.
     obind (total_run (sensure (before_fence = after_fence)
       (Bail ''gc execute aborted: remote refs, intents, or layout root changed during execution'') (sret ()))) (\<lambda>_.
     obind (total_run (sensure (gf_active_lease_paths after_fence = []) (Bail ''gc execute aborted: writer lease exists'') (sret ())))
       (\<lambda>_.
     obind (total_run (gc_reads (observed_remote_safe_horizon (ge_remote E) grace_period_days candidate_paths))) (\<lambda>safe_horizon.
     obind (total_run (gc_delete_loop E grace_period_days before_fence safe_horizon [] candidate_paths)) (\<lambda>deleted.
     obind (total_run (gc_on_files remove_gc_delete_journal)) (\<lambda>_.
     total_run (sret deleted)))))))))))"

end
