(* ===== verification/Remote_Reach_Proofs.thy ===== *)
theory Remote_Reach_Proofs
  imports Remote_Reach Manifest_Claims
begin

text \<open>
  The traversal of a remote explores the graph of the objects it has copied, whose nodes are opened
  by authenticated reads only, and ends on every remote.
\<close>

section \<open>The graph of the validation directory\<close>

datatype rnode = R_Snapshot string | R_Tree string | R_Tree_Shard string | R_File string
  | R_File_Shard string | R_Chunk string

fun rnode_id :: "rnode \<Rightarrow> string" where
  "rnode_id (R_Snapshot i) = i"
| "rnode_id (R_Tree i) = i"
| "rnode_id (R_Tree_Shard i) = i"
| "rnode_id (R_File i) = i"
| "rnode_id (R_File_Shard i) = i"
| "rnode_id (R_Chunk i) = i"

fun rnode_types :: "rnode \<Rightarrow> string set" where
  "rnode_types (R_Snapshot i) = {''snapshot''}"
| "rnode_types (R_Tree i) = {''tree'', ''directory_root''}"
| "rnode_types (R_Tree_Shard i) = {''tree_shard''}"
| "rnode_types (R_File i) = {''file''}"
| "rnode_types (R_File_Shard i) = {''file_shard''}"
| "rnode_types (R_Chunk i) = {}"

fun is_chunk :: "rnode \<Rightarrow> bool" where
  "is_chunk (R_Chunk i) = True"
| "is_chunk n = False"

definition entry_rnode :: "tree_entry \<Rightarrow> rnode" where
  "entry_rnode e = (if te_kind e = ''tree'' then R_Tree (te_object_id e) else R_File (te_object_id e))"

fun rnode_children :: "'w remote_view \<Rightarrow> files \<Rightarrow> rnode \<Rightarrow> rnode list res" where
  "rnode_children V F (R_Snapshot i) =
     rbind (read_remote_validation_object V (ms_snapshot (rv_store V)) i ''snapshot'' F) (\<lambda>sn.
     rbind (validate_manifest_schema_version (sn_schema_version sn)) (\<lambda>_.
     Inr (R_Tree (sn_root_tree_id sn) #
       (case sn_parent_snapshot_id sn of None \<Rightarrow> [] | Some p \<Rightarrow> [R_Snapshot p]))))"
| "rnode_children V F (R_Tree i) =
     rbind (read_remote_directory V i F) (\<lambda>d.
     Inr (case d of Plain_Tree es \<Rightarrow> map entry_rnode es | Sharded_Directory shards \<Rightarrow> map R_Tree_Shard shards))"
| "rnode_children V F (R_Tree_Shard i) =
     rbind (read_remote_validation_object V (ms_tree_shard (rv_store V)) i ''tree_shard'' F) (\<lambda>t.
     rbind (validate_manifest_schema_version (ts_schema_version t)) (\<lambda>_.
     Inr (map entry_rnode (ts_entries t))))"
| "rnode_children V F (R_File i) =
     rbind (read_remote_validation_object V (ms_file (rv_store V)) i ''file'' F) (\<lambda>f.
     rbind (validate_manifest_schema_version (fo_schema_version f)) (\<lambda>_.
     Inr (map R_Chunk (fo_chunks f) @ map R_File_Shard (fo_shard_ids f))))"
| "rnode_children V F (R_File_Shard i) =
     rbind (read_remote_validation_object V (ms_file_shard (rv_store V)) i ''file_shard'' F) (\<lambda>f.
     rbind (validate_manifest_schema_version (fs_schema_version f)) (\<lambda>_.
     Inr (map R_Chunk (fs_chunks f))))"
| "rnode_children V F (R_Chunk i) = Inr []"

definition rkids :: "'w remote_view \<Rightarrow> files \<Rightarrow> rnode \<Rightarrow> rnode set" where
  "rkids V F n = (case rnode_children V F n of Inl e \<Rightarrow> {} | Inr ns \<Rightarrow> set ns)"

definition ropened :: "'w remote_view \<Rightarrow> files \<Rightarrow> rnode \<Rightarrow> bool" where
  "ropened V F n = is_ok (rnode_children V F n)"

text \<open>What a node is opened as is determined by the type of the object under its id.\<close>

lemma read_remote_typed:
  "read_remote_validation_object V pc i t F = Inr x \<Longrightarrow>
     \<exists>p. get_typed_object (ms_crypto (rv_store V)) (ms_secrets (rv_store V)) i F = Inr \<lparr> loaded_type = t, loaded_plaintext = p \<rparr>"
  by (auto simp: read_remote_validation_object_def get_object_def rbind_Inr_iff split: if_splits)
    (metis loaded_object.surjective old.unit.exhaust)

lemma rnode_typed:
  assumes "rnode_children V F n = Inr ks" "\<not> is_chunk n"
  shows "\<exists>t p. get_typed_object (ms_crypto (rv_store V)) (ms_secrets (rv_store V)) (rnode_id n) F =
      Inr \<lparr> loaded_type = t, loaded_plaintext = p \<rparr> \<and> t \<in> rnode_types n"
  using assms
  by (cases n) (auto simp: rbind_Inr_iff read_remote_directory_def split: sum.splits if_splits dest!: read_remote_typed)

lemma rnode_types_disjoint:
  "t \<in> rnode_types n \<Longrightarrow> t \<in> rnode_types m \<Longrightarrow> rnode_id n = rnode_id m \<Longrightarrow> n = m"
  by (cases n; cases m) auto

lemma rnode_unique:
  assumes "ropened V F n" "\<not> is_chunk n" "ropened V F m" "\<not> is_chunk m" "rnode_id n = rnode_id m"
  shows "n = m"
proof -
  from assms(1,3) obtain ks ls where ks: "rnode_children V F n = Inr ks" "rnode_children V F m = Inr ls"
    by (auto simp: ropened_def is_ok_iff)
  show ?thesis
    using rnode_typed [OF ks(1) assms(2)] rnode_typed [OF ks(2) assms(4)] assms(5) rnode_types_disjoint by fastforce
qed

interpretation rg: object_graph rnode_id "rkids V F" "ropened V F" is_chunk for V F
proof
  show "ropened V F n \<and> \<not> is_chunk n" if "k \<in> rkids V F n" for k n
    using that by (cases n) (auto simp: rkids_def ropened_def is_ok_iff split: sum.splits)
qed (rule rnode_unique)

text \<open>Opening a node reads one object, so it does not change when objects are added.\<close>

lemma read_remote_cong:
  "map_of F (relative_object_path i) = map_of F' (relative_object_path i) \<Longrightarrow>
     read_remote_validation_object V codec i t F = read_remote_validation_object V codec i t F'"
  by (simp add: read_remote_validation_object_def get_object_def get_typed_cong [of F i F'])

lemma rnode_children_cong:
  "map_of F (relative_object_path (rnode_id n)) = map_of F' (relative_object_path (rnode_id n)) \<Longrightarrow>
     rnode_children V F n = rnode_children V F' n"
  by (cases n) (simp_all add: read_remote_directory_def read_remote_cong [of F _ F'] split: sum.split)

lemma rnode_children_ext:
  assumes "rnode_children V F n = Inr ks" "map_of F \<subseteq>\<^sub>m map_of F'"
  shows "rnode_children V F' n = Inr ks"
proof (cases "is_chunk n")
  case True
  with assms(1) show ?thesis by (cases n) simp_all
next
  case False
  from rnode_typed [OF assms(1) False] obtain b where "map_of F (relative_object_path (rnode_id n)) = Some b"
    by (auto simp: get_typed_object_def file_get_def rbind_Inr_iff with_context_Inr_iff ok_or_Inr_iff)
  then have "map_of F' (relative_object_path (rnode_id n)) = Some b"
    using assms(2) by (auto simp: map_le_def dom_def)
  with \<open>map_of F _ = Some b\<close> assms(1) rnode_children_cong [of F n F' V] show ?thesis by simp
qed

section \<open>What a step of the traversal does\<close>

definition seen :: "traversal \<Rightarrow> recorded" where
  "seen st = (tv_reached st, set (tv_reached st))"

text \<open>The ids that can be copied or have been.\<close>

definition available :: "'w remote_view \<Rightarrow> files \<Rightarrow> string set" where
  "available V fs = rv_loose V \<union> fst ` set (rv_locations V) \<union> {i. relative_object_path i \<in> fst ` set fs}"

definition goes :: "'w remote_view \<Rightarrow> rnode set \<Rightarrow> traversal \<Rightarrow> traversal \<Rightarrow> bool" where
  "goes V ns st st' \<longleftrightarrow> (bt_ok (tv_objects st) \<longrightarrow>
     bt_ok (tv_objects st') \<and> map_of (tv_objects st) \<subseteq>\<^sub>m map_of (tv_objects st') \<and>
     available V (tv_objects st') \<subseteq> available V (tv_objects st) \<and>
     (\<forall>F. map_of (tv_objects st') \<subseteq>\<^sub>m map_of F \<longrightarrow>
        exploration rnode_id (rkids V F) (ropened V F) ns (seen st) (seen st')))"

lemma goes_none: "goes V {} st st"
  by (simp add: goes_def explores_none)

lemma goes_trans:
  assumes "goes V ns st st1" "goes V ms st1 st2"
  shows "goes V (ns \<union> ms) st st2"
  unfolding goes_def
proof (intro impI conjI allI)
  assume ok: "bt_ok (tv_objects st)"
  with assms(1) have 1: "bt_ok (tv_objects st1)" "map_of (tv_objects st) \<subseteq>\<^sub>m map_of (tv_objects st1)"
      "available V (tv_objects st1) \<subseteq> available V (tv_objects st)"
    by (simp_all add: goes_def)
  with assms(2) have 2: "bt_ok (tv_objects st2)" "map_of (tv_objects st1) \<subseteq>\<^sub>m map_of (tv_objects st2)"
      "available V (tv_objects st2) \<subseteq> available V (tv_objects st1)"
    by (simp_all add: goes_def)
  then show "bt_ok (tv_objects st2)" "map_of (tv_objects st) \<subseteq>\<^sub>m map_of (tv_objects st2)"
    "available V (tv_objects st2) \<subseteq> available V (tv_objects st)"
    using 1 map_le_trans by blast+
  fix F assume F: "map_of (tv_objects st2) \<subseteq>\<^sub>m map_of F"
  with 2(2) have "map_of (tv_objects st1) \<subseteq>\<^sub>m map_of F" using map_le_trans by blast
  with assms ok 1 F show "exploration rnode_id (rkids V F) (ropened V F) (ns \<union> ms) (seen st) (seen st2)"
    by (auto simp: goes_def intro: explores_union)
qed

lemma goes_seen: "rnode_id n \<in> set (tv_reached st) \<Longrightarrow> goes V {n} st st"
  by (simp add: goes_def seen_def explores_seen)

lemma record_cases:
  assumes "record_reachable_id i st = (Inr b, st1)"
  obtains "\<not> b" "st1 = st" "i \<in> set (tv_reached st)"
    | "b" "st1 = st\<lparr> tv_reached := tv_reached st @ [i] \<rparr>" "i \<notin> set (tv_reached st)"
  using assms by (auto simp: record_reachable_id_def split: if_splits)

lemma goes_new:
  assumes new: "st1 = st\<lparr> tv_reached := tv_reached st @ [rnode_id n] \<rparr>" "rnode_id n \<notin> set (tv_reached st)"
    and open_n: "rnode_children V (tv_objects st) n = Inr ks"
    and rest: "goes V (set ks \<union> ms) st1 st2"
  shows "goes V (insert n ms) st st2"
  unfolding goes_def
proof (intro impI conjI allI)
  assume ok: "bt_ok (tv_objects st)"
  with rest new show grow: "bt_ok (tv_objects st2)" "map_of (tv_objects st) \<subseteq>\<^sub>m map_of (tv_objects st2)"
      "available V (tv_objects st2) \<subseteq> available V (tv_objects st)"
    by (simp_all add: goes_def)
  fix F assume F: "map_of (tv_objects st2) \<subseteq>\<^sub>m map_of F"
  with grow(2) have "rnode_children V F n = Inr ks"
    using rnode_children_ext [OF open_n] map_le_trans by blast
  then have "ropened V F n" "rkids V F n = set ks" by (simp_all add: ropened_def rkids_def)
  moreover have "exploration rnode_id (rkids V F) (ropened V F) (set ks \<union> ms) (seen st1) (seen st2)"
    using rest ok F new(1) by (simp add: goes_def)
  ultimately show "exploration rnode_id (rkids V F) (ropened V F) (insert n ms) (seen st) (seen st2)"
    using new by (intro explores_new [of rnode_id n "seen st" "seen st1" _ _ ms]) (auto simp: seen_def)
qed

lemma bytes_from_remote:
  "remote_object_bytes_with_pack_cache D R w loose locs cached i p = (Inr (Some b), q) \<Longrightarrow>
     i \<in> loose \<or> map_of locs i \<noteq> None"
  by (auto simp: remote_object_bytes_with_pack_cache_def split: option.splits if_splits)

lemma fetch_effect:
  assumes "fetch_remote_object_into_validation_root V i st = (Inr (), st1)"
  shows "tv_reached st1 = tv_reached st \<and>
     (tv_objects st1 = tv_objects st \<and> map_of (tv_objects st) (relative_object_path i) \<noteq> None \<or>
      map_of (tv_objects st) (relative_object_path i) = None \<and> (i \<in> rv_loose V \<or> map_of (rv_locations V) i \<noteq> None) \<and>
      (\<exists>b. tv_objects st1 = bt_insert (relative_object_path i) b (tv_objects st)))"
proof (cases "map_of (tv_objects st) (relative_object_path i)")
  case (Some b)
  with assms show ?thesis
    by (cases "validate_object_id_value i") (simp_all add: fetch_remote_object_into_validation_root_def)
next
  case None
  with assms obtain b p where "remote_object_bytes_with_pack_cache (rv_digest V) (rv_remote V) (rv_state V)
      (rv_loose V) (rv_locations V) (rv_cached V) i (tv_reader st) = (Inr (Some b), p)"
    and "st1 = st\<lparr> tv_reader := p, tv_objects := bt_insert (relative_object_path i) b (tv_objects st) \<rparr>"
    by (cases "validate_object_id_value i") (auto simp: fetch_remote_object_into_validation_root_def sbind_Inr_iff
        on_reader_def ok_or_def split: prod.splits option.splits)
  with None bytes_from_remote show ?thesis by fastforce
qed

lemma fetch_available:
  assumes "fetch_remote_object_into_validation_root V i st = (Inr (), st1)"
  shows "i \<in> available V (tv_objects st)" and "available V (tv_objects st1) \<subseteq> available V (tv_objects st)"
proof -
  note e = fetch_effect [OF assms]
  then show i: "i \<in> available V (tv_objects st)" unfolding map_of_eq_None_iff available_def by blast
  have "available V (bt_insert (relative_object_path i) b (tv_objects st)) = insert i (available V (tv_objects st))" for b
    unfolding available_def set_keys_bt_insert by (auto simp: relative_object_path_def)
  with e i show "available V (tv_objects st1) \<subseteq> available V (tv_objects st)" by auto
qed

lemma fetch_goes: "fetch_remote_object_into_validation_root V i st = (Inr (), st1) \<Longrightarrow> goes V {} st st1"
  using fetch_effect [of V i st st1] fetch_available(2) [of V i st st1]
  by (auto simp: goes_def seen_def map_of_bt_insert map_le_def explores_none)

text \<open>The pattern of every loop: an object is copied, recorded, and when it is new its children follow.\<close>

lemma goes_visit:
  assumes "fetch_remote_object_into_validation_root V (rnode_id n) st = (Inr (), st1)"
    and "record_reachable_id (rnode_id n) st1 = (Inr new, st2)"
    and "new \<Longrightarrow> \<exists>ks. rnode_children V (tv_objects st2) n = Inr ks \<and> goes V (set ks \<union> ms) st2 st3"
    and "\<not> new \<Longrightarrow> goes V ms st2 st3"
  shows "goes V (insert n ms) st st3"
proof -
  have "goes V (insert n ms) st1 st3"
    using assms(2)
  proof (cases rule: record_cases)
    case 1
    with assms(4) goes_trans [OF goes_seen [of n st1 V], of ms st3] show ?thesis by simp
  next
    case 2
    with assms(3) obtain ks where ks: "rnode_children V (tv_objects st2) n = Inr ks" "goes V (set ks \<union> ms) st2 st3" by blast
    with goes_new [OF 2(2,3)] 2(2) show ?thesis by simp
  qed
  from goes_trans [OF fetch_goes [OF assms(1)] this] show ?thesis by simp
qed

section \<open>What the traversal explores\<close>

lemma obind_Inr_iff: "obind m f s = Some (Inr y, u) \<longleftrightarrow> (\<exists>x t. m s = Some (Inr x, t) \<and> f x t = Some (Inr y, u))"
  by (auto simp: obind_def split: option.splits prod.splits sum.splits)

lemma total_run_iff: "total_run m s = Some (r, t) \<longleftrightarrow> m s = (r, t)"
  by (simp add: total_run_def)

lemma goes_chunks: "record_chunk_ids is st = (Inr (), st') \<Longrightarrow> goes V (R_Chunk ` set is) st st'"
proof (induction "is" arbitrary: st)
  case (Cons i "is")
  then obtain b st1 where b: "record_reachable_id i st = (Inr b, st1)" and rest: "record_chunk_ids is st1 = (Inr (), st')"
    by (auto simp: sbind_Inr_iff slift_def simp del: prog_simps sbind_prim)
  have "goes V {R_Chunk i} st st1"
    using b
  proof (cases rule: record_cases)
    case 2
    with goes_new [of st1 st "R_Chunk i" V "[]" "{}" st1] goes_none [of V st1] show ?thesis by simp
  qed (use goes_seen [of "R_Chunk i" st V] in simp)
  from goes_trans [OF this Cons.IH [OF rest]] show ?case by simp
qed (simp add: goes_none)

lemma goes_file_shards: "collect_remote_file_shards V is st = (Inr (), st') \<Longrightarrow> goes V (R_File_Shard ` set is) st st'"
proof (induction "is" arbitrary: st)
  case (Cons i "is")
  then obtain st1 b st2 where f: "fetch_remote_object_into_validation_root V i st = (Inr (), st1)"
    and r: "record_reachable_id i st1 = (Inr b, st2)"
    and run: "(if \<not> b then collect_remote_file_shards V is
       else sbind (read_object (read_remote_validation_object V (ms_file_shard (rv_store V)) i ''file_shard'')) (\<lambda>shard.
         sbind (slift (validate_manifest_schema_version (fs_schema_version shard))) (\<lambda>_.
         sbind (record_chunk_ids (fs_chunks shard)) (\<lambda>_. collect_remote_file_shards V is)))) st2 = (Inr (), st')"
    by (auto simp: sbind_Inr_iff slift_def simp del: prog_simps sbind_prim)
  have "goes V (insert (R_File_Shard i) (R_File_Shard ` set is)) st st'"
  proof (rule goes_visit [of V "R_File_Shard i" st st1 b st2])
    assume b
    with run obtain shard st3 where "read_remote_validation_object V (ms_file_shard (rv_store V)) i ''file_shard'' (tv_objects st2) = Inr shard"
      "validate_manifest_schema_version (fs_schema_version shard) = Inr ()"
      and c: "record_chunk_ids (fs_chunks shard) st2 = (Inr (), st3)" and rest: "collect_remote_file_shards V is st3 = (Inr (), st')"
      by (auto simp: sbind_Inr_iff slift_def read_object_def simp del: prog_simps sbind_prim)
    with goes_trans [OF goes_chunks [OF c, of V] Cons.IH [OF rest]]
    show "\<exists>ks. rnode_children V (tv_objects st2) (R_File_Shard i) = Inr ks \<and> goes V (set ks \<union> R_File_Shard ` set is) st2 st'"
      by simp
  qed (use f r run Cons.IH in auto)
  then show ?case by simp
qed (simp add: goes_none)

lemma goes_file:
  assumes "collect_remote_file_object_ids V i st = (Inr (), st')"
  shows "goes V {R_File i} st st'"
proof -
  from assms obtain st1 b st2 where f: "fetch_remote_object_into_validation_root V i st = (Inr (), st1)"
    and r: "record_reachable_id i st1 = (Inr b, st2)"
    and run: "(if \<not> b then sret ()
       else sbind (read_object (read_remote_validation_object V (ms_file (rv_store V)) i ''file'')) (\<lambda>f.
         sbind (slift (validate_manifest_schema_version (fo_schema_version f))) (\<lambda>_.
         sbind (record_chunk_ids (fo_chunks f)) (\<lambda>_. collect_remote_file_shards V (fo_shard_ids f))))) st2 = (Inr (), st')"
    by (auto simp: collect_remote_file_object_ids_def sbind_Inr_iff simp del: prog_simps sbind_prim)
  show ?thesis
  proof (rule goes_visit [of V "R_File i" st st1 b st2 "{}"])
    assume b
    with run obtain x st3 where "read_remote_validation_object V (ms_file (rv_store V)) i ''file'' (tv_objects st2) = Inr x"
      "validate_manifest_schema_version (fo_schema_version x) = Inr ()"
      and c: "record_chunk_ids (fo_chunks x) st2 = (Inr (), st3)" and s: "collect_remote_file_shards V (fo_shard_ids x) st3 = (Inr (), st')"
      by (auto simp: sbind_Inr_iff slift_def read_object_def simp del: prog_simps sbind_prim)
    with goes_trans [OF goes_chunks [OF c, of V] goes_file_shards [OF s]]
    show "\<exists>ks. rnode_children V (tv_objects st2) (R_File i) = Inr ks \<and> goes V (set ks \<union> {}) st2 st'"
      by (auto simp: image_Un)
  qed (use f r run goes_none in auto)
qed

lemma goes_entries:
  assumes subtrees: "\<And>i st st'. subtree i st = Some (Inr (), st') \<Longrightarrow> goes V {R_Tree i} st st'"
  shows "collect_remote_tree_entries subtree V es st = Some (Inr (), st') \<Longrightarrow> goes V (entry_rnode ` set es) st st'"
proof (induction es arbitrary: st)
  case (Cons e es)
  then obtain st1 where one: "(if te_kind e = ''tree'' then subtree (te_object_id e)
      else if te_kind e = ''file'' then total_run (collect_remote_file_object_ids V (te_object_id e))
      else total_run (sfail (Bail ''unknown remote tree entry kind''))) st = Some (Inr (), st1)"
    and rest: "collect_remote_tree_entries subtree V es st1 = Some (Inr (), st')"
    by (auto simp: obind_Inr_iff total_run_iff slift_def)
  have "goes V {entry_rnode e} st st1"
    using one subtrees goes_file by (auto simp: entry_rnode_def total_run_iff split: if_splits)
  from goes_trans [OF this Cons.IH [OF rest]] show ?case by simp
qed (simp add: goes_none total_run_iff)

lemma goes_tree_shards:
  assumes subtrees: "\<And>i st st'. subtree i st = Some (Inr (), st') \<Longrightarrow> goes V {R_Tree i} st st'"
  shows "collect_remote_tree_shards subtree V is st = Some (Inr (), st') \<Longrightarrow> goes V (R_Tree_Shard ` set is) st st'"
proof (induction "is" arbitrary: st)
  case (Cons i "is")
  then obtain st1 b st2 where f: "fetch_remote_object_into_validation_root V i st = (Inr (), st1)"
    and r: "record_reachable_id i st1 = (Inr b, st2)"
    and run: "(if \<not> b then collect_remote_tree_shards subtree V is
       else obind (total_run (read_object (read_remote_validation_object V (ms_tree_shard (rv_store V)) i ''tree_shard''))) (\<lambda>shard.
         obind (total_run (slift (validate_manifest_schema_version (ts_schema_version shard)))) (\<lambda>_.
         obind (collect_remote_tree_entries subtree V (ts_entries shard)) (\<lambda>_.
         collect_remote_tree_shards subtree V is)))) st2 = Some (Inr (), st')"
    by (auto simp: obind_Inr_iff total_run_iff slift_def simp del: prog_simps sbind_prim)
  have "goes V (insert (R_Tree_Shard i) (R_Tree_Shard ` set is)) st st'"
  proof (rule goes_visit [of V "R_Tree_Shard i" st st1 b st2])
    assume b
    with run obtain shard st3 where "read_remote_validation_object V (ms_tree_shard (rv_store V)) i ''tree_shard'' (tv_objects st2) = Inr shard"
      "validate_manifest_schema_version (ts_schema_version shard) = Inr ()"
      and c: "collect_remote_tree_entries subtree V (ts_entries shard) st2 = Some (Inr (), st3)"
      and rest: "collect_remote_tree_shards subtree V is st3 = Some (Inr (), st')"
      by (auto simp: obind_Inr_iff total_run_iff slift_def read_object_def simp del: prog_simps sbind_prim)
    with goes_trans [OF goes_entries [OF subtrees c] Cons.IH [OF rest]]
    show "\<exists>ks. rnode_children V (tv_objects st2) (R_Tree_Shard i) = Inr ks \<and> goes V (set ks \<union> R_Tree_Shard ` set is) st2 st'"
      by simp
  qed (use f r run Cons.IH in auto)
  then show ?case by simp
qed (simp add: goes_none total_run_iff)

lemma goes_tree: "collect_remote_tree_object_ids fuel V i st = Some (Inr (), st') \<Longrightarrow> goes V {R_Tree i} st st'"
proof (induction fuel arbitrary: i st st')
  case (Suc fuel)
  then obtain st1 b st2 where f: "fetch_remote_object_into_validation_root V i st = (Inr (), st1)"
    and r: "record_reachable_id i st1 = (Inr b, st2)"
    and run: "(if \<not> b then total_run (sret ())
       else obind (total_run (read_object (read_remote_directory V i))) (\<lambda>d. case d of
         Plain_Tree entries \<Rightarrow> collect_remote_tree_entries (collect_remote_tree_object_ids fuel V) V entries
       | Sharded_Directory shards \<Rightarrow> collect_remote_tree_shards (collect_remote_tree_object_ids fuel V) V shards)) st2
       = Some (Inr (), st')"
    by (auto simp: obind_Inr_iff total_run_iff simp del: prog_simps sbind_prim)
  show ?case
  proof (rule goes_visit [of V "R_Tree i" st st1 b st2 "{}"])
    assume b
    with run obtain d where d: "read_remote_directory V i (tv_objects st2) = Inr d"
      and sub: "(case d of Plain_Tree entries \<Rightarrow> collect_remote_tree_entries (collect_remote_tree_object_ids fuel V) V entries
        | Sharded_Directory shards \<Rightarrow> collect_remote_tree_shards (collect_remote_tree_object_ids fuel V) V shards) st2 = Some (Inr (), st')"
      by (auto simp: obind_Inr_iff total_run_iff read_object_def simp del: prog_simps sbind_prim)
    show "\<exists>ks. rnode_children V (tv_objects st2) (R_Tree i) = Inr ks \<and> goes V (set ks \<union> {}) st2 st'"
      using sub goes_entries [OF Suc.IH] goes_tree_shards [OF Suc.IH] by (cases d) (auto simp: d)
  qed (use f r run goes_none in \<open>auto simp: total_run_iff\<close>)
qed simp

text \<open>Snapshots that are pending; the history is followed through them.\<close>

lemma goes_history:
  "collect_remote_reachable_object_ids_with_context fuel depth V pending st = Some (Inr (), st') \<Longrightarrow>
     goes V (R_Snapshot ` set pending) st st'"
proof (induction fuel arbitrary: pending st)
  case (Suc fuel)
  show ?case
  proof (cases pending)
    case Nil
    with Suc.prems show ?thesis by (simp add: goes_none total_run_iff)
  next
    case (Cons i rest)
    let ?run = "collect_remote_reachable_object_ids_with_context fuel depth V"
    from Suc.prems Cons obtain st1 b st2 where f: "fetch_remote_object_into_validation_root V i st = (Inr (), st1)"
      and r: "record_reachable_id i st1 = (Inr b, st2)"
      and run: "(if \<not> b then ?run rest
         else obind (total_run (read_object (read_remote_validation_object V (ms_snapshot (rv_store V)) i ''snapshot'')))
           (\<lambda>snapshot.
           obind (total_run (slift (validate_manifest_schema_version (sn_schema_version snapshot)))) (\<lambda>_.
           obind (collect_remote_tree_object_ids depth V (sn_root_tree_id snapshot)) (\<lambda>_.
           case sn_parent_snapshot_id snapshot of
             None \<Rightarrow> ?run rest
           | Some p \<Rightarrow>
               obind (total_run (slift (with_context ''invalid parent snapshot id'' (validate_object_id_value p)))) (\<lambda>_.
               ?run (p # rest)))))) st2 = Some (Inr (), st')"
      by (auto simp: obind_Inr_iff total_run_iff simp del: prog_simps sbind_prim)
    have "goes V (insert (R_Snapshot i) (R_Snapshot ` set rest)) st st'"
    proof (rule goes_visit [of V "R_Snapshot i" st st1 b st2])
      assume b
      with run obtain sn st3 where "read_remote_validation_object V (ms_snapshot (rv_store V)) i ''snapshot'' (tv_objects st2) = Inr sn"
        "validate_manifest_schema_version (sn_schema_version sn) = Inr ()"
        and t: "collect_remote_tree_object_ids depth V (sn_root_tree_id sn) st2 = Some (Inr (), st3)"
        and next_run: "?run (case sn_parent_snapshot_id sn of None \<Rightarrow> rest | Some p \<Rightarrow> p # rest) st3 = Some (Inr (), st')"
        by (auto simp: obind_Inr_iff total_run_iff slift_def read_object_def simp del: prog_simps sbind_prim split: option.splits)
      with goes_trans [OF goes_tree [OF t] Suc.IH [OF next_run]]
      show "\<exists>ks. rnode_children V (tv_objects st2) (R_Snapshot i) = Inr ks \<and> goes V (set ks \<union> R_Snapshot ` set rest) st2 st'"
        by (cases "sn_parent_snapshot_id sn") (simp_all add: insert_commute)
    qed (use f r run Suc.IH in auto)
    with Cons show ?thesis by simp
  qed
qed simp

end
