(* ===== verification/Remote_Samples.thy ===== *)
theory Remote_Samples
  imports Remote_Reach_Proofs Manifest_Claims
begin

text \<open>
  A backend that stores the objects of the sample manifest, and the traversal of its history by a client
  that has none of them.
\<close>

abbreviation sample_ids :: "string set" where
  "sample_ids \<equiv> {id_snapshot, id_root, id_docs, id_file}"

definition sample_view_of :: "bool \<Rightarrow> mem \<Rightarrow> string set \<Rightarrow> mem remote_view" where
  "sample_view_of cached w loose = \<lparr> rv_remote = memory_remote unary_codec unary_codec, rv_state = w,
     rv_loose = loose, rv_locations = [], rv_digest = (\<lambda>b. []), rv_cached = cached, rv_store = sample_manifest \<rparr>"

lemma sample_view_sel [simp]:
  "rv_loose (sample_view_of cached w loose) = loose" "rv_locations (sample_view_of cached w loose) = []"
  "rv_store (sample_view_of cached w loose) = sample_manifest" "rv_cached (sample_view_of cached w loose) = cached"
  by (simp_all add: sample_view_of_def)

definition sample_bytes :: "string \<Rightarrow> byte list" where
  "sample_bytes i = the (map_of (put_all sample_objects) (relative_object_path i))"

fun sample_copy :: "string list \<Rightarrow> files" where
  "sample_copy [] = []"
| "sample_copy (i # is) = bt_insert (relative_object_path i) (sample_bytes i) (sample_copy is)"

lemma sample_copy_ok: "bt_ok (sample_copy is)"
  by (induction "is") simp_all

lemma map_of_sample_copy:
  "map_of (sample_copy is) (relative_object_path j) = (if j \<in> set is then Some (sample_bytes j) else None)"
  by (induction "is") (auto simp: map_of_bt_insert sample_copy_ok relative_object_path_def)

lemma sample_holding:
  assumes "i \<in> {id_snapshot, id_root, id_docs, id_file}"
  shows "map_of (put_all sample_objects) (relative_object_path i) = Some (sample_bytes i)"
    and "validate_object_id_value i = Inr ()"
proof -
  have "\<exists>l. get_typed_object plain_crypto sample_secrets i (put_all sample_objects) = Inr l"
    using assms sample_typed by auto
  then show "map_of (put_all sample_objects) (relative_object_path i) = Some (sample_bytes i)" "validate_object_id_value i = Inr ()"
    by (auto simp: get_typed_object_def file_get_def rbind_Inr_iff with_context_Inr_iff ok_or_Inr_iff sample_bytes_def)
qed

definition holds_sample :: "mem \<Rightarrow> string set \<Rightarrow> bool" where
  "holds_sample w loose \<longleftrightarrow> sample_ids \<subseteq> loose \<and>
     (\<forall>i \<in> sample_ids. map_of (physical w) (relative_object_path i) = Some (sample_bytes i))"

definition sample_remote :: mem where
  "sample_remote = (mem_new 0)\<lparr> physical := put_all sample_objects \<rparr>"

lemma sample_remote_holds [simp]: "holds_sample sample_remote sample_ids"
  using sample_holding(1) by (simp add: holds_sample_def sample_remote_def)

definition sample_view :: "mem remote_view" where
  "sample_view = sample_view_of False sample_remote sample_ids"

lemma sample_fetch:
  assumes "holds_sample w loose" and "i \<in> sample_ids"
  shows "fetch_remote_object_into_validation_root (sample_view_of cached w loose) i \<lparr> tv_reader = r, tv_objects = sample_copy is, tv_reached = ids, tv_control = c \<rparr> =
    (Inr (), \<lparr> tv_reader = r, tv_objects = sample_copy (if i \<in> set is then is else i # is), tv_reached = ids, tv_control = c \<rparr>)"
  using assms sample_holding [OF assms(2)]
  by (auto simp: holds_sample_def fetch_remote_object_into_validation_root_def map_of_sample_copy on_reader_def
      remote_object_bytes_with_pack_cache_def sample_view_of_def memory_remote_def get_physical_def sbind_def sret_def slift_def)

lemma sample_remote_read:
  "i \<in> set is \<Longrightarrow> i \<in> sample_ids \<Longrightarrow>
     read_remote_validation_object (sample_view_of cached w loose) codec i t (sample_copy is) =
     read_remote_validation_object (sample_view_of cached w loose) codec i t (put_all sample_objects)"
  using sample_holding(1) by (intro read_remote_cong) (auto simp: map_of_sample_copy)

lemma sample_remote_reads:
  "\<exists>sn. read_remote_validation_object (sample_view_of cached w loose) (ms_snapshot sample_manifest) id_snapshot ''snapshot'' (put_all sample_objects) = Inr sn \<and>
     sn_root_tree_id sn = id_root \<and> sn_parent_snapshot_id sn = None \<and> sn_schema_version sn = 1"
  "read_remote_directory (sample_view_of cached w loose) id_root (put_all sample_objects) = Inr (Plain_Tree
     [\<lparr> te_name = ''docs'', te_kind = ''tree'', te_object_id = id_docs \<rparr>,
      \<lparr> te_name = ''x.txt'', te_kind = ''file'', te_object_id = id_file \<rparr>])"
  "read_remote_directory (sample_view_of cached w loose) id_docs (put_all sample_objects) = Inr (Plain_Tree
     [\<lparr> te_name = ''a.txt'', te_kind = ''file'', te_object_id = id_file \<rparr>])"
  "\<exists>f. read_remote_validation_object (sample_view_of cached w loose) (ms_file sample_manifest) id_file ''file'' (put_all sample_objects) = Inr f \<and>
     fo_chunks f = [''cc''] \<and> fo_shard_ids f = [] \<and> fo_schema_version f = 1"
  by (simp_all add: read_remote_validation_object_def read_remote_directory_def sample_read_defs)

lemma sample_remote_dir:
  "i \<in> set is \<Longrightarrow> i \<in> sample_ids \<Longrightarrow>
     read_remote_directory (sample_view_of cached w loose) i (sample_copy is) = read_remote_directory (sample_view_of cached w loose) i (put_all sample_objects)"
  by (simp only: read_remote_directory_def sample_remote_read)

lemma sample_ids_neq:
  "id_file \<noteq> id_docs" "id_file \<noteq> id_root" "id_file \<noteq> id_snapshot" "id_docs \<noteq> id_root" "id_docs \<noteq> id_snapshot"
  "id_root \<noteq> id_snapshot" "''cc'' \<noteq> id_file" "''cc'' \<noteq> id_docs" "''cc'' \<noteq> id_root" "''cc'' \<noteq> id_snapshot"
  "id_docs \<noteq> id_file" "id_root \<noteq> id_file" "id_snapshot \<noteq> id_file" "id_root \<noteq> id_docs" "id_snapshot \<noteq> id_docs"
  "id_snapshot \<noteq> id_root"
  using sample_ids_distinct by auto

lemmas sample_run_rules = obind_def total_run_def sbind_def sret_def slift_def read_object_def sample_fetch record_reachable_id_def
  sample_remote_read sample_remote_dir sample_remote_reads(2,3) sample_ids_neq validate_manifest_schema_version_def
  repo_format_version_def sample_holding(2) sample_cc_valid

lemma sample_file_run:
  assumes "holds_sample w loose"
  shows "collect_remote_file_object_ids (sample_view_of cached w loose) id_file \<lparr> tv_reader = r, tv_objects = sample_copy is, tv_reached = ids, tv_control = c \<rparr> =
    (Inr (), if id_file \<in> set ids
       then \<lparr> tv_reader = r, tv_objects = sample_copy (if id_file \<in> set is then is else id_file # is), tv_reached = ids, tv_control = c \<rparr>
       else \<lparr> tv_reader = r, tv_objects = sample_copy (if id_file \<in> set is then is else id_file # is),
              tv_reached = (if ''cc'' \<in> set ids then ids @ [id_file] else ids @ [id_file, ''cc'']), tv_control = c \<rparr>)"
proof -
  obtain f where "read_remote_validation_object (sample_view_of cached w loose) (ms_file sample_manifest) id_file ''file'' (put_all sample_objects) = Inr f"
    "fo_chunks f = [''cc'']" "fo_shard_ids f = []" "fo_schema_version f = 1" using sample_remote_reads(4) by blast
  then show ?thesis
    using assms by (simp add: collect_remote_file_object_ids_def sample_run_rules del: sample_copy.simps)
qed

definition sample_fetched :: files where
  "sample_fetched = sample_copy [id_file, id_docs, id_root, id_snapshot]"

lemma sample_remote_run:
  assumes "holds_sample w loose"
  shows "collect_remote_reachable_object_ids_with_recorder 6 5 (sample_view_of cached w loose) id_snapshot
      \<lparr> tv_reader = r, tv_objects = [], tv_reached = [], tv_control = c \<rparr> =
    Some (Inr (), \<lparr> tv_reader = r, tv_objects = sample_fetched, tv_reached = [id_snapshot, id_root, id_docs, id_file, ''cc''],
      tv_control = c \<rparr>)"
proof -
  obtain sn where "read_remote_validation_object (sample_view_of cached w loose) (ms_snapshot sample_manifest) id_snapshot ''snapshot'' (put_all sample_objects) = Inr sn"
    "sn_root_tree_id sn = id_root" "sn_parent_snapshot_id sn = None" "sn_schema_version sn = 1" using sample_remote_reads(1) by blast
  then show ?thesis
    using assms unfolding sample_copy.simps(1) [symmetric]
    by (simp add: collect_remote_reachable_object_ids_with_recorder_def eval_nat_numeral
        sample_run_rules sample_file_run sample_fetched_def del: sample_copy.simps)
qed

lemma sample_rkids:
  "rkids (sample_view_of cached w loose) sample_fetched (R_Snapshot id_snapshot) = {R_Tree id_root}"
  "rkids (sample_view_of cached w loose) sample_fetched (R_Tree id_root) = {R_Tree id_docs, R_File id_file}"
  "rkids (sample_view_of cached w loose) sample_fetched (R_Tree id_docs) = {R_File id_file}"
  "rkids (sample_view_of cached w loose) sample_fetched (R_File id_file) = {R_Chunk ''cc''}"
  "rkids (sample_view_of cached w loose) sample_fetched (R_Chunk i) = {}"
proof -
  note rules = rkids_def sample_fetched_def sample_run_rules entry_rnode_def
  obtain sn where "read_remote_validation_object (sample_view_of cached w loose) (ms_snapshot sample_manifest) id_snapshot ''snapshot'' (put_all sample_objects) = Inr sn"
    "sn_root_tree_id sn = id_root" "sn_parent_snapshot_id sn = None" "sn_schema_version sn = 1" using sample_remote_reads(1) by blast
  then show "rkids (sample_view_of cached w loose) sample_fetched (R_Snapshot id_snapshot) = {R_Tree id_root}"
    by (simp add: rules del: sample_copy.simps)
  obtain f where "read_remote_validation_object (sample_view_of cached w loose) (ms_file sample_manifest) id_file ''file'' (put_all sample_objects) = Inr f"
    "fo_chunks f = [''cc'']" "fo_shard_ids f = []" "fo_schema_version f = 1" using sample_remote_reads(4) by blast
  then show "rkids (sample_view_of cached w loose) sample_fetched (R_File id_file) = {R_Chunk ''cc''}"
    by (simp add: rules del: sample_copy.simps)
qed (simp_all add: rkids_def sample_fetched_def sample_run_rules entry_rnode_def del: sample_copy.simps)

lemma sample_leads:
  "leads (rkids (sample_view_of cached w loose) sample_fetched) (R_Snapshot id_snapshot) n \<Longrightarrow>
     n \<in> {R_Snapshot id_snapshot, R_Tree id_root, R_Tree id_docs, R_File id_file, R_Chunk ''cc''}"
proof -
  have "r = R_Snapshot id_snapshot \<longrightarrow>
      n \<in> {R_Snapshot id_snapshot, R_Tree id_root, R_Tree id_docs, R_File id_file, R_Chunk ''cc''}"
    if "leads (rkids (sample_view_of cached w loose) sample_fetched) r n" for r n
    using that by (induction rule: leads.induct) (auto simp: sample_rkids)
  then show "leads (rkids (sample_view_of cached w loose) sample_fetched) (R_Snapshot id_snapshot) n \<Longrightarrow>
     n \<in> {R_Snapshot id_snapshot, R_Tree id_root, R_Tree id_docs, R_File id_file, R_Chunk ''cc''}" by blast
qed

lemma sample_collision_free:
  "leads (rkids (sample_view_of cached w loose) sample_fetched) (R_Snapshot id_snapshot) (R_Chunk i) \<Longrightarrow>
     leads (rkids (sample_view_of cached w loose) sample_fetched) (R_Snapshot id_snapshot) n \<Longrightarrow> rnode_id n = i \<Longrightarrow> n = R_Chunk i"
  using sample_leads [of cached w loose "R_Chunk i"] sample_leads [of cached w loose n] sample_ids_neq by auto

end
