(* ===== verification/Remote_Reach_Claims.thy ===== *)
theory Remote_Reach_Claims
  imports Remote_Samples
begin

text \<open>
  The traversal of a remote ends: every step records an id that has not been seen or follows none,
  and only the finitely many ids the remote offers can be recorded as directories and snapshots.
\<close>

definition calm :: "'w remote_view \<Rightarrow> string set \<Rightarrow> traversal \<Rightarrow> bool" where
  "calm V A st \<longleftrightarrow> finite A \<and> bt_ok (tv_objects st) \<and> available V (tv_objects st) \<subseteq> A"

abbreviation left :: "string set \<Rightarrow> traversal \<Rightarrow> nat" where
  "left A st \<equiv> unrecorded A (set (tv_reached st))"

lemma goes_settles:
  assumes "goes V ns st st'" "calm V A st"
  shows "calm V A st' \<and> left A st' \<le> left A st"
proof -
  have "bt_ok (tv_objects st)" "finite A" using assms(2) by (simp_all add: calm_def)
  then have "bt_ok (tv_objects st')" "available V (tv_objects st') \<subseteq> available V (tv_objects st)"
    "exploration rnode_id (rkids V (tv_objects st')) (ropened V (tv_objects st')) ns (seen st) (seen st')"
    using assms(1) by (auto simp: goes_def)
  moreover from this(3) have "set (tv_reached st) \<subseteq> set (tv_reached st')"
    using explores_grows [of rnode_id _ _ ns "seen st" "seen st'"] by (simp add: seen_def)
  ultimately show ?thesis
    using assms(2) unrecorded_mono [OF \<open>finite A\<close>] by (auto simp: calm_def)
qed

text \<open>After a visit there is less left, if the object was new.\<close>

lemma visit_settles:
  assumes "fetch_remote_object_into_validation_root V i st = (Inr (), st1)" "record_reachable_id i st1 = (Inr b, st2)"
    and calm: "calm V A st"
  shows "calm V A st2 \<and> left A st2 \<le> left A st \<and> (b \<longrightarrow> left A st2 < left A st)"
proof -
  have 1: "calm V A st1" "left A st1 \<le> left A st" using goes_settles [OF fetch_goes [OF assms(1)] calm] by simp_all
  have "i \<in> A" "finite A" using fetch_available(1) [OF assms(1)] calm by (auto simp: calm_def)
  with assms(2) 1 show ?thesis
    by (cases rule: record_cases) (auto simp: calm_def dest: unrecorded_less)
qed

definition returns :: "('s, 'a) fuelled \<Rightarrow> 's \<Rightarrow> bool" where
  "returns m s \<longleftrightarrow> m s \<noteq> None"

lemma returns_obind:
  "returns m s \<Longrightarrow> (\<And>x t. m s = Some (Inr x, t) \<Longrightarrow> returns (f x) t) \<Longrightarrow> returns (obind m f) s"
  by (fastforce simp: returns_def obind_def split: option.splits prod.splits sum.splits)

lemma returns_total [simp]: "returns (total_run m) s"
  by (simp add: returns_def total_run_def)

lemma returns_total_obind:
  "(\<And>x t. m s = (Inr x, t) \<Longrightarrow> returns (f x) t) \<Longrightarrow> returns (obind (total_run m) f) s"
  by (rule returns_obind) (simp_all add: total_run_iff)

lemma returns_guard: "returns (f x) s \<Longrightarrow> returns (obind (total_run (slift r)) (\<lambda>_. f x)) s"
  by (rule returns_total_obind) (simp add: slift_def)

definition ends_below :: "'w remote_view \<Rightarrow> string set \<Rightarrow> nat \<Rightarrow> (string \<Rightarrow> (traversal, unit) fuelled) \<Rightarrow> bool" where
  "ends_below V A n subtree \<longleftrightarrow>
     (\<forall>i st. calm V A st \<longrightarrow> left A st < n \<longrightarrow> returns (subtree i) st) \<and>
     (\<forall>i st st'. subtree i st = Some (Inr (), st') \<longrightarrow> goes V {R_Tree i} st st')"

lemma entries_end:
  assumes sub: "ends_below V A n subtree"
  shows "calm V A st \<Longrightarrow> left A st < n \<Longrightarrow> returns (collect_remote_tree_entries subtree V es) st"
proof (induction es arbitrary: st)
  case (Cons e es)
  let ?one = "if te_kind e = ''tree'' then subtree (te_object_id e)
      else if te_kind e = ''file'' then total_run (collect_remote_file_object_ids V (te_object_id e))
      else total_run (sfail (Bail ''unknown remote tree entry kind''))"
  have "returns ?one st" using sub Cons.prems by (simp add: ends_below_def)
  moreover have "returns (collect_remote_tree_entries subtree V es) st1" if "?one st = Some (Inr (), st1)" for st1
  proof -
    have "goes V {entry_rnode e} st st1"
      using that sub goes_file by (auto simp: ends_below_def entry_rnode_def total_run_iff split: if_splits)
    from goes_settles [OF this Cons.prems(1)] Cons show ?thesis by simp
  qed
  ultimately have "returns (obind ?one (\<lambda>_. collect_remote_tree_entries subtree V es)) st" by (intro returns_obind) auto
  then show ?case unfolding collect_remote_tree_entries.simps by (intro returns_total_obind) (simp add: slift_def)
qed simp

lemma tree_shards_end:
  assumes sub: "ends_below V A n subtree"
  shows "calm V A st \<Longrightarrow> left A st < n \<Longrightarrow> returns (collect_remote_tree_shards subtree V is) st"
proof (induction "is" arbitrary: st)
  case (Cons i "is")
  have dirs: "goes V {R_Tree i} st st'" if "subtree i st = Some (Inr (), st')" for i st st'
    using sub that by (simp add: ends_below_def)
  have rest: "returns (collect_remote_tree_shards subtree V is) st2"
      "returns (obind (collect_remote_tree_entries subtree V es) (\<lambda>_. collect_remote_tree_shards subtree V is)) st2"
    if "fetch_remote_object_into_validation_root V i st = (Inr (), st1)"
      "record_reachable_id i st1 = (Inr b, st2)" for st1 b st2 es
  proof -
    have c: "calm V A st2" "left A st2 < n" using visit_settles [OF that Cons.prems(1)] Cons.prems(2) by auto
    then show "returns (collect_remote_tree_shards subtree V is) st2" using Cons.IH by simp
    have "returns (collect_remote_tree_shards subtree V is) st3"
      if "collect_remote_tree_entries subtree V es st2 = Some (Inr (), st3)" for es st3
      using goes_settles [OF goes_entries [OF dirs that] c(1)] c(2) by (intro Cons.IH) auto
    with entries_end [OF sub c] show
      "returns (obind (collect_remote_tree_entries subtree V es) (\<lambda>_. collect_remote_tree_shards subtree V is)) st2"
      by (intro returns_obind) auto
  qed
  show ?case
    unfolding collect_remote_tree_shards.simps
    by (intro returns_total_obind) (auto simp: slift_def read_object_def intro!: returns_total_obind dest: rest)
qed simp

lemma tree_ends: "ends_below V A fuel (collect_remote_tree_object_ids fuel V)"
proof (induction fuel)
  case 0
  show ?case by (simp add: ends_below_def)
next
  case (Suc fuel)
  let ?sub = "collect_remote_tree_object_ids fuel V"
  let ?body = "\<lambda>d. case d of Plain_Tree entries \<Rightarrow> collect_remote_tree_entries ?sub V entries
      | Sharded_Directory shards \<Rightarrow> collect_remote_tree_shards ?sub V shards"
  have "returns (collect_remote_tree_object_ids (Suc fuel) V i) st" if c: "calm V A st" "left A st < Suc fuel" for i st
  proof -
    have "returns (?body d) st2" if "fetch_remote_object_into_validation_root V i st = (Inr (), st1)"
        "record_reachable_id i st1 = (Inr True, st2)" for st1 st2 d
    proof -
      have "calm V A st2" "left A st2 < fuel" using visit_settles [OF that c(1)] c(2) by auto
      with entries_end [OF Suc] tree_shards_end [OF Suc] show ?thesis by (cases d) simp_all
    qed
    note body = this
    show ?thesis
      unfolding collect_remote_tree_object_ids.simps
      by (intro returns_total_obind) (auto simp: read_object_def intro!: returns_total_obind dest: body)
  qed
  then show ?case using goes_tree [of "Suc fuel" V] by (simp add: ends_below_def)
qed

lemma history_ends:
  "calm V A st \<Longrightarrow> left A st < depth \<Longrightarrow> left A st + length pending < fuel \<Longrightarrow>
     returns (collect_remote_reachable_object_ids_with_context fuel depth V pending) st"
proof (induction fuel arbitrary: pending st)
  case (Suc fuel)
  show ?case
  proof (cases pending)
    case Nil
    then show ?thesis by (simp add: returns_def total_run_def)
  next
    case (Cons i rest)
    let ?run = "collect_remote_reachable_object_ids_with_context fuel depth V"
    have goal: "returns (?run (case sn_parent_snapshot_id sn of None \<Rightarrow> rest | Some p \<Rightarrow> p # rest)) st3"
      if "fetch_remote_object_into_validation_root V i st = (Inr (), st1)" "record_reachable_id i st1 = (Inr True, st2)"
        "collect_remote_tree_object_ids depth V (sn_root_tree_id sn) st2 = Some (Inr (), st3)" for st1 st2 st3 sn
    proof -
      have 2: "calm V A st2" "left A st2 < left A st" using visit_settles [OF that(1,2) Suc.prems(1)] by auto
      have "calm V A st3" "left A st3 < left A st" using goes_settles [OF goes_tree [OF that(3)] 2(1)] 2(2) by auto
      with Suc.prems Cons show ?thesis by (intro Suc.IH) (auto split: option.split)
    qed
    have old: "returns (?run rest) st2"
      if "fetch_remote_object_into_validation_root V i st = (Inr (), st1)" "record_reachable_id i st1 = (Inr False, st2)" for st1 st2
      using visit_settles [OF that Suc.prems(1)] Suc.prems Cons by (intro Suc.IH) auto
    have tree: "returns (collect_remote_tree_object_ids depth V t) st2"
      if "fetch_remote_object_into_validation_root V i st = (Inr (), st1)" "record_reachable_id i st1 = (Inr True, st2)" for st1 st2 t
      using visit_settles [OF that Suc.prems(1)] Suc.prems(2) tree_ends [of V A depth] by (auto simp: ends_below_def)
    have "returns (obind (collect_remote_tree_object_ids depth V (sn_root_tree_id sn)) (\<lambda>_.
        case sn_parent_snapshot_id sn of
          None \<Rightarrow> ?run rest
        | Some p \<Rightarrow> obind (total_run (slift (with_context ''invalid parent snapshot id'' (validate_object_id_value p))))
            (\<lambda>_. ?run (p # rest)))) st2"
      if v: "fetch_remote_object_into_validation_root V i st = (Inr (), st1)" "record_reachable_id i st1 = (Inr True, st2)" for st1 st2 sn
    proof (rule returns_obind [OF tree [OF v]], rename_tac u st3)
      fix u st3 assume "collect_remote_tree_object_ids depth V (sn_root_tree_id sn) st2 = Some (Inr u, st3)"
      with goal [OF v, of sn st3] show "returns (case sn_parent_snapshot_id sn of
          None \<Rightarrow> ?run rest
        | Some p \<Rightarrow> obind (total_run (slift (with_context ''invalid parent snapshot id'' (validate_object_id_value p))))
            (\<lambda>_. ?run (p # rest))) st3"
        by (cases "sn_parent_snapshot_id sn") (auto simp: slift_def intro!: returns_total_obind)
    qed
    note new = this
    have "returns (if \<not> b then ?run rest
         else obind (total_run (read_object (read_remote_validation_object V (ms_snapshot (rv_store V)) i ''snapshot'')))
           (\<lambda>snapshot.
           obind (total_run (slift (validate_manifest_schema_version (sn_schema_version snapshot)))) (\<lambda>_.
           obind (collect_remote_tree_object_ids depth V (sn_root_tree_id snapshot)) (\<lambda>_.
           case sn_parent_snapshot_id snapshot of
             None \<Rightarrow> ?run rest
           | Some p \<Rightarrow>
               obind (total_run (slift (with_context ''invalid parent snapshot id'' (validate_object_id_value p)))) (\<lambda>_.
               ?run (p # rest)))))) st2"
      if v: "fetch_remote_object_into_validation_root V i st = (Inr (), st1)" "record_reachable_id i st1 = (Inr b, st2)" for st1 b st2
    proof (cases b)
      case False
      with old v show ?thesis by simp
    next
      case True
      with v new [OF v(1), of st2] show ?thesis
        by (simp only: not_True_eq_False if_False) (intro returns_total_obind; simp add: slift_def read_object_def)
    qed
    then show ?thesis
      unfolding Cons collect_remote_reachable_object_ids_with_context.simps list.case
      by (intro returns_total_obind) simp
  qed
qed simp

section \<open>The properties\<close>

lemma available_size:
  assumes "finite (rv_loose V)"
  shows "finite (available V fs) \<and> card (available V fs) \<le> card (rv_loose V) + length (rv_locations V) + length fs"
proof -
  let ?files = "{i. relative_object_path i \<in> fst ` set fs}"
  have img: "relative_object_path ` ?files \<subseteq> fst ` set fs" by auto
  then have fin: "finite ?files"
    using inj_object_path finite_imageD finite_subset by (metis List.finite_set finite_imageI)
  have "card ?files \<le> card (fst ` set fs)"
    using card_image [OF inj_object_path, of ?files] card_mono [OF _ img] by simp
  also have "\<dots> \<le> length fs" by (metis card_length length_map list.set_map)
  finally have files: "card ?files \<le> length fs" .
  have "card (fst ` set (rv_locations V)) \<le> length (rv_locations V)" by (metis card_length length_map list.set_map)
  moreover have "card (available V fs) \<le> card (rv_loose V) + card (fst ` set (rv_locations V)) + card ?files"
    unfolding available_def by (meson add_le_mono1 card_Un_le le_trans)
  ultimately show ?thesis using files fin assms by (auto simp: available_def)
qed

text \<open>C30: The traversal of a remote always ends, even when a hostile remote serves snapshots or directories
  that form a cycle: units of fuel for one more snapshot, and one more level of directories, than
  there are loose objects, packed objects and objects copied before are enough.\<close>

theorem remote_traversal_terminates:
  assumes "finite (rv_loose V)" and "bt_ok (tv_objects st)"
    and "card (rv_loose V) + length (rv_locations V) + length (tv_objects st) < depth"
    and "card (rv_loose V) + length (rv_locations V) + length (tv_objects st) + 1 < fuel"
  shows "collect_remote_reachable_object_ids_with_recorder fuel depth V head_snapshot_id st \<noteq> None"
proof -
  let ?A = "available V (tv_objects st)"
  note size = available_size [OF assms(1), of "tv_objects st"]
  then have "calm V ?A st" using assms(2) by (simp add: calm_def)
  moreover have "left ?A st \<le> card ?A" unfolding unrecorded_def using size by (intro card_mono) auto
  ultimately have "returns (collect_remote_reachable_object_ids_with_context fuel depth V [head_snapshot_id]) st"
    using assms(3,4) size by (intro history_ends [of V ?A]) simp_all
  then show ?thesis by (simp add: returns_def collect_remote_reachable_object_ids_with_recorder_def)
qed

text \<open>C31: The traversal records the closure. When it succeeds, the ids are listed once each and are those of
  the snapshots of the history of the head, their directories, shards, files and chunks, as the
  objects in the validation directory describe them, provided that no chunk listed by a file has the id of
  a snapshot, directory, shard or file among them.\<close>

theorem remote_traversal_closure:
  assumes "collect_remote_reachable_object_ids fuel depth V head_snapshot_id (reader, objects) = Some (Inr ids, reader', objects')"
    and "bt_ok objects"
    and "\<forall>i n. leads (rkids V objects') (R_Snapshot head_snapshot_id) (R_Chunk i) \<longrightarrow>
      leads (rkids V objects') (R_Snapshot head_snapshot_id) n \<longrightarrow> rnode_id n = i \<longrightarrow> n = R_Chunk i"
  shows "distinct ids \<and> set ids = rnode_id ` {n. leads (rkids V objects') (R_Snapshot head_snapshot_id) n}"
proof -
  let ?head = "R_Snapshot head_snapshot_id" and ?st = "\<lparr> tv_reader = reader, tv_objects = objects, tv_reached = [], tv_control = [] \<rparr>"
  from assms(1) obtain st' where
    run: "collect_remote_reachable_object_ids_with_context fuel depth V [head_snapshot_id] ?st = Some (Inr (), st')"
    and st': "tv_reached st' = ids" "tv_objects st' = objects'"
    by (auto simp: collect_remote_reachable_object_ids_def collect_remote_reachable_object_ids_with_recorder_def rbind_Inr_iff
        split: option.splits)
  from goes_history [OF run] assms(2) st'
  have e: "exploration rnode_id (rkids V objects') (ropened V objects') {?head} ([], {}) (ids, set ids)"
    by (auto simp: goes_def seen_def)
  have chunk: "is_chunk n" if "is_chunk l" "leads (rkids V objects') ?head l" "leads (rkids V objects') ?head n"
    "rnode_id n = rnode_id l" for l n
  proof -
    from that(1) obtain i where "l = R_Chunk i" by (cases l) simp_all
    with assms(3) that(2-4) have "n = R_Chunk i" by simp
    then show ?thesis by simp
  qed
  have "snd (ids, set ids) = snd (([], {}) :: recorded) \<union> rnode_id ` {n. \<exists>k \<in> {?head}. leads (rkids V objects') k n}"
  proof (rule rg.explored_closure [OF e])
    show "is_chunk n" if "is_chunk l" "\<exists>k \<in> {?head}. leads (rkids V objects') k l" "\<exists>k \<in> {?head}. leads (rkids V objects') k n"
      "rnode_id n = rnode_id l" for l n
      using chunk that by blast
  qed simp
  moreover have "distinct ids" using e by (simp add: exploration_def)
  ultimately show ?thesis by simp
qed

section \<open>The sample remote\<close>

abbreviation fresh_reader :: pack_reader where
  "fresh_reader \<equiv> \<lparr> pr_packs = [], pr_files = [] \<rparr>"

theorem remote_traversal_terminates_witness:
  "collect_remote_reachable_object_ids_with_recorder 6 5 sample_view id_snapshot
     \<lparr> tv_reader = fresh_reader, tv_objects = [], tv_reached = [], tv_control = [] \<rparr> \<noteq> None"
proof (rule remote_traversal_terminates)
  have "card (rv_loose sample_view) \<le> length [id_snapshot, id_root, id_docs, id_file]"
    using card_length [of "[id_snapshot, id_root, id_docs, id_file]"] by (simp add: sample_view_def)
  then show "card (rv_loose sample_view) + length (rv_locations sample_view) +
      length (tv_objects \<lparr> tv_reader = fresh_reader, tv_objects = [], tv_reached = [], tv_control = [] \<rparr>) < 5"
    "card (rv_loose sample_view) + length (rv_locations sample_view) +
      length (tv_objects \<lparr> tv_reader = fresh_reader, tv_objects = [], tv_reached = [], tv_control = [] \<rparr>) + 1 < 6" by (simp_all add: sample_view_def)
qed (simp_all add: sample_view_def)

theorem remote_traversal_closure_witness:
  "\<exists>r'. collect_remote_reachable_object_ids 6 5 sample_view id_snapshot (fresh_reader, []) =
      Some (Inr [id_snapshot, id_root, id_docs, id_file, ''cc''], r', sample_fetched) \<and>
    set [id_snapshot, id_root, id_docs, id_file, ''cc''] =
      rnode_id ` {n. leads (rkids sample_view sample_fetched) (R_Snapshot id_snapshot) n}"
proof -
  have run: "collect_remote_reachable_object_ids 6 5 sample_view id_snapshot (fresh_reader, []) =
      Some (Inr [id_snapshot, id_root, id_docs, id_file, ''cc''], fresh_reader, sample_fetched)"
    unfolding sample_view_def
    using sample_remote_run [OF sample_remote_holds, of False fresh_reader "[]"] by (simp add: collect_remote_reachable_object_ids_def)
  have "\<forall>i n. leads (rkids sample_view sample_fetched) (R_Snapshot id_snapshot) (R_Chunk i) \<longrightarrow>
      leads (rkids sample_view sample_fetched) (R_Snapshot id_snapshot) n \<longrightarrow> rnode_id n = i \<longrightarrow> n = R_Chunk i"
    unfolding sample_view_def using sample_collision_free by blast
  from remote_traversal_closure [OF run bt_ok_Nil this] run show ?thesis by blast
qed

end
