(* ===== verification/Remote_Gc_Proofs.thy ===== *)
theory Remote_Gc_Proofs
  imports Remote_Gc Remote_Reach_Claims Pack_Index_Proofs Publisher_Proofs
begin

text \<open>
  What garbage collection does to a remote: up to the deletions only the time probe is touched, what is
  deleted was a candidate older than the horizon, and no candidate holds an object that was marked.
  The lemmas hold for every backend with the contract of a blob store.
\<close>

section \<open>Fuelled runs\<close>

lemma total_run_Some [res_simps]: "total_run m s = Some (r, t) \<longleftrightarrow> m s = (r, t)"
  by (rule total_run_iff)

lemma obind_cases:
  assumes "obind m f s = Some (r, t)"
  obtains (fails) e where "m s = Some (Inl e, t)" "r = Inl e"
    | (goes_on) x u where "m s = Some (Inr x, u)" "f x u = Some (r, t)"
  using assms by (auto simp: obind_def split: option.splits prod.splits sum.splits)

text \<open>Runs that leave the remote alone.\<close>

definition spares_remote :: "('s gc_state, 'a) fuelled \<Rightarrow> bool" where
  "spares_remote m \<longleftrightarrow> (\<forall>st r st'. m st = Some (r, st') \<longrightarrow> gs_remote st' = gs_remote st)"

lemma spares_obind:
  assumes m: "spares_remote m" and f: "\<And>x. spares_remote (f x)"
  shows "spares_remote (obind m f)"
  unfolding spares_remote_def
proof (intro allI impI)
  fix st r st' assume "obind m f st = Some (r, st')"
  then show "gs_remote st' = gs_remote st"
  proof (cases rule: obind_cases)
    case (fails e)
    with m show ?thesis by (simp add: spares_remote_def)
  next
    case (goes_on x u)
    with m f [of x] have "gs_remote u = gs_remote st" "gs_remote st' = gs_remote u"
      unfolding spares_remote_def by blast+
    then show ?thesis by simp
  qed
qed

lemma spares_total: "(\<And>st. gs_remote (snd (m st)) = gs_remote st) \<Longrightarrow> spares_remote (total_run m)"
  unfolding spares_remote_def total_run_iff by (metis snd_conv)

lemma remote_on_files [simp]: "gs_remote (snd (gc_on_files m st)) = gs_remote st"
  by (simp add: gc_on_files_def split: prod.split)

lemma spares_files: "spares_remote (total_run (gc_on_files m))"
  by (rule spares_total) simp

lemma spares_reads: "spares_remote (total_run (\<lambda>st. (f st, st)))" "spares_remote (total_run (gc_reads g))"
    "spares_remote (total_run (slift r))" "spares_remote (total_run (sret x))" "spares_remote (total_run (sfail e))"
  by (rule spares_total, simp add: gc_reads_def slift_def sret_def sfail_def)+

lemma remote_after_slift:
  "(\<And>x. gs_remote (snd (f x st)) = gs_remote st) \<Longrightarrow> gs_remote (snd (sbind (slift r) f st)) = gs_remote st"
  by (cases r) simp_all

lemma remote_after_files: "gs_remote (snd (sbind (gc_on_files m) (\<lambda>x. sret (g x)) st)) = gs_remote st"
  by (simp add: sbind_def gc_on_files_def sret_def split: prod.split sum.split)

lemma load_state_remote: "gs_remote (snd (load_maintenance_remote_state E token st)) = gs_remote st"
  unfolding load_maintenance_remote_state_def Let_def by (intro remote_after_slift remote_after_files)

lemma spares_mark: "spares_remote (gc_mark E)"
proof -
  have "spares_remote (\<lambda>st. with_traversal packs (m st) st)" for packs and m :: "'a gc_state \<Rightarrow> (traversal, unit) fuelled"
    by (auto simp: spares_remote_def with_traversal_def split: option.splits prod.splits)
  then show ?thesis
    unfolding gc_mark_def
    by (intro spares_obind spares_files spares_reads spares_total load_state_remote) simp_all
qed

section \<open>The mark\<close>

lemma goes_same:
  "tv_objects st' = tv_objects st \<Longrightarrow> tv_reached st' = tv_reached st \<Longrightarrow> goes V {} st st'"
  by (simp add: goes_def seen_def explores_none)

lemma goes_recorder:
  "collect_remote_reachable_object_ids_with_recorder fuel depth V head st = Some (Inr (), st') \<Longrightarrow> goes V {R_Snapshot head} st st'"
  using goes_history [of fuel depth V "[head]" st st'] by (simp add: collect_remote_reachable_object_ids_with_recorder_def)

lemma write_control_goes:
  "write_remote_control_plane_to_validation_root cp st = (r, st') \<Longrightarrow> goes V {} st st'"
  by (rule goes_same) (auto simp: write_remote_control_plane_to_validation_root_def Let_def)

definition heads_in :: "'s gc_env \<Rightarrow> maintenance_remote_state \<Rightarrow> listed_ref list \<Rightarrow> string set \<Rightarrow> bool" where
  "heads_in E m refs heads \<longleftrightarrow> (\<forall>l \<in> set refs. \<exists>h. decode_remote_ref E m (ref_value (listed_stored l)) = Inr (listed_token l, h) \<and>
     (\<forall>head. h = Some head \<longrightarrow> head \<in> heads))"

lemma collect_branches_goes:
  "collect_branches E m s ls saw tv = Some (Inr b, tv') \<Longrightarrow>
     \<exists>heads. goes (maintenance_view E m s) (R_Snapshot ` heads) tv tv' \<and> heads_in E m ls heads"
proof (induction ls arbitrary: saw tv)
  case Nil
  then show ?case by (intro exI [of _ "{}"]) (simp add: total_run_Some goes_none heads_in_def)
next
  case (Cons l ls)
  let ?V = "maintenance_view E m s"
  from Cons.prems obtain cp tv1 h where w: "write_remote_control_plane_to_validation_root cp tv = (Inr (), tv1)"
    and d: "decode_remote_ref E m (ref_value (listed_stored l)) = Inr (listed_token l, h)"
    and rest: "(case h of None \<Rightarrow> collect_branches E m s ls saw
      | Some head \<Rightarrow> obind (collect_remote_reachable_object_ids_with_recorder (ge_fuel E) (ge_depth E) ?V head) (\<lambda>_.
          collect_branches E m s ls True)) tv1 = Some (Inr b, tv')"
    by (auto simp: obind_Inr_iff total_run_Some slift_def sret_def sfail_def with_context_Inr_iff split: if_splits)
  note first = write_control_goes [OF w, of ?V]
  show ?case
  proof (cases h)
    case None
    with rest Cons.IH obtain heads where "goes ?V (R_Snapshot ` heads) tv1 tv'" "heads_in E m ls heads" by auto
    with goes_trans [OF first] d None show ?thesis by (intro exI [of _ heads]) (auto simp: heads_in_def)
  next
    case (Some head)
    with rest obtain tv2 where g: "collect_remote_reachable_object_ids_with_recorder (ge_fuel E) (ge_depth E) ?V head tv1 = Some (Inr (), tv2)"
      and "collect_branches E m s ls True tv2 = Some (Inr b, tv')" by (auto simp: obind_Inr_iff)
    with Cons.IH obtain heads where ih: "goes ?V (R_Snapshot ` heads) tv2 tv'" "heads_in E m ls heads" by blast
    have "goes ?V (R_Snapshot ` insert head heads) tv tv'"
      using goes_trans [OF goes_trans [OF first goes_recorder [OF g]] ih(1)] by simp
    with ih(2) d Some show ?thesis by (intro exI [of _ "insert head heads"]) (auto simp: heads_in_def)
  qed
qed

lemma collect_snapshots_goes:
  "collect_snapshots E V ids tv = Some (Inr (), tv') \<Longrightarrow> goes V (R_Snapshot ` set ids) tv tv'"
proof (induction ids arbitrary: tv)
  case (Cons i ids)
  then obtain tv1 where "collect_remote_reachable_object_ids_with_recorder (ge_fuel E) (ge_depth E) V i tv = Some (Inr (), tv1)"
    "collect_snapshots E V ids tv1 = Some (Inr (), tv')" by (auto simp: obind_Inr_iff)
  with goes_trans [OF goes_recorder Cons.IH] show ?case by fastforce
qed (simp add: goes_none total_run_Some)

lemma collect_all_goes:
  assumes "collect_all_remote_reachable_object_ids E m s tv = Some (Inr (), tv')"
  shows "\<exists>refs heads. list_remote_branch_refs (ge_remote E) s = Inr refs \<and> heads_in E m refs heads \<and>
    goes (maintenance_view E m s) (R_Snapshot ` heads) tv tv'"
proof -
  let ?V = "maintenance_view E m s"
  from assms obtain refs b tv1 where refs: "list_remote_branch_refs (ge_remote E) s = Inr refs"
    and br: "collect_branches E m s refs False tv = Some (Inr b, tv1)"
    and rest: "tv1 = tv' \<or> (\<exists>head. collect_remote_reachable_object_ids_with_recorder (ge_fuel E) (ge_depth E) ?V head tv1 = Some (Inr (), tv'))"
    unfolding collect_all_remote_reachable_object_ids_def obind_Inr_iff total_run_Some slift_def sret_def
    by (fastforce simp: obind_Inr_iff total_run_Some split: if_splits option.splits)
  from collect_branches_goes [OF br] obtain heads where h: "goes ?V (R_Snapshot ` heads) tv tv1" "heads_in E m refs heads" by blast
  from rest show ?thesis
  proof
    assume "tv1 = tv'"
    with refs h show ?thesis by blast
  next
    assume "\<exists>head. collect_remote_reachable_object_ids_with_recorder (ge_fuel E) (ge_depth E) ?V head tv1 = Some (Inr (), tv')"
    then obtain head where "collect_remote_reachable_object_ids_with_recorder (ge_fuel E) (ge_depth E) ?V head tv1 = Some (Inr (), tv')" ..
    from goes_trans [OF h(1) goes_recorder [OF this]] have "goes ?V (R_Snapshot ` insert head heads) tv tv'" by simp
    moreover have "heads_in E m refs (insert head heads)" using h(2) by (fastforce simp: heads_in_def)
    ultimately show ?thesis using refs by blast
  qed
qed

lemma collect_recent_goes:
  assumes "collect_recent_unpublished_local_reachable_object_ids E m s tv = Some (Inr (), tv')"
  shows "\<exists>heads. goes (maintenance_view E m s) (R_Snapshot ` heads) tv tv'"
  using assms collect_snapshots_goes
  by (fastforce simp: collect_recent_unpublished_local_reachable_object_ids_def obind_Inr_iff total_run_Some)

text \<open>A marking from an empty validation directory.\<close>

definition unmarked :: "traversal \<Rightarrow> bool" where
  "unmarked tv \<longleftrightarrow> tv_objects tv = [] \<and> tv_reached tv = []"

lemma gc_mark_goes:
  assumes "gc_mark E st = Some (Inr (m, tv), st')"
  shows "load_remote_loose_object_ids (ge_remote E) (gs_remote st) = Inr (mr_loose_object_ids m) \<and>
    (\<exists>refs heads tv0. list_remote_branch_refs (ge_remote E) (gs_remote st) = Inr refs \<and> heads_in E m refs heads \<and>
      unmarked tv0 \<and> goes (maintenance_view E m (gs_remote st)) (R_Snapshot ` heads) tv0 tv)"
proof -
  from assms obtain st1 token st2 packs st3 st4 where
    1: "gc_on_files (ge_reconcile E (gs_remote st)) st = (Inr (), st1)"
    and 2: "load_maintenance_remote_state E token st1 = (Inr m, st2)"
    and 3: "gc_on_files (initialize_maintenance_pack_cache (mr_pack_locations m)) st2 = (Inr packs, st3)"
    and 4: "with_traversal packs
              (obind (total_run (write_remote_control_plane_to_validation_root (mr_control_plane m))) (\<lambda>_.
               obind (collect_all_remote_reachable_object_ids E m (gs_remote st3)) (\<lambda>_.
               collect_recent_unpublished_local_reachable_object_ids E m (gs_remote st3)))) st3 = Some (Inr tv, st4)"
    by (auto simp: gc_mark_def obind_Inr_iff total_run_Some slift_def sret_def)
  have same: "gs_remote st1 = gs_remote st" "gs_remote st2 = gs_remote st" "gs_remote st3 = gs_remote st"
    using remote_on_files [of "ge_reconcile E (gs_remote st)" st] load_state_remote [of E token st1]
      remote_on_files [of "initialize_maintenance_pack_cache (mr_pack_locations m)" st2] by (simp_all add: 1 2 3)
  have loose: "load_remote_loose_object_ids (ge_remote E) (gs_remote st) = Inr (mr_loose_object_ids m)"
    using 2 same(1) by (auto simp: load_maintenance_remote_state_def Let_def sbind_Inr_iff slift_def sret_def
        simp del: sbind_prim prog_simps)
  let ?V = "maintenance_view E m (gs_remote st)"
  let ?tv0 = "\<lparr> tv_reader = \<lparr> pr_packs = packs, pr_files = gs_files st3 \<rparr>, tv_objects = [], tv_reached = [], tv_control = [] \<rparr>"
  from 4 same(3) obtain tv1 tv2 where w: "write_remote_control_plane_to_validation_root (mr_control_plane m) ?tv0 = (Inr (), tv1)"
    and a: "collect_all_remote_reachable_object_ids E m (gs_remote st) tv1 = Some (Inr (), tv2)"
    and r: "collect_recent_unpublished_local_reachable_object_ids E m (gs_remote st) tv2 = Some (Inr (), tv)"
    by (auto simp: with_traversal_def obind_Inr_iff total_run_Some rbind_Inr_iff split: option.splits)
  from collect_all_goes [OF a] obtain refs heads where h: "list_remote_branch_refs (ge_remote E) (gs_remote st) = Inr refs"
    "heads_in E m refs heads" "goes ?V (R_Snapshot ` heads) tv1 tv2" by blast
  from collect_recent_goes [OF r] obtain more where more: "goes ?V (R_Snapshot ` more) tv2 tv" by blast
  have "goes ?V (R_Snapshot ` (heads \<union> more)) ?tv0 tv"
    using goes_trans [OF goes_trans [OF write_control_goes [OF w] h(3)] more] by (simp add: image_Un)
  moreover have "heads_in E m refs (heads \<union> more)" using h(2) unfolding heads_in_def by blast
  moreover have "unmarked ?tv0" by (simp add: unmarked_def)
  ultimately show ?thesis using loose h(1) by blast
qed

section \<open>The sweep\<close>

context stat_blob_store
begin

definition undisturbed :: "'a \<Rightarrow> 'a \<Rightarrow> bool" where
  "undisturbed s s' \<longleftrightarrow> ok s' \<and> (view s' = view s \<or> view s' = (view s)(gc_time_probe := None))"

lemma undisturbed_refl: "ok s \<Longrightarrow> undisturbed s s"
  by (simp add: undisturbed_def)

lemma undisturbed_trans: "undisturbed s t \<Longrightarrow> undisturbed t u \<Longrightarrow> undisturbed s u"
  by (auto simp: undisturbed_def)

lemma markers_undisturbed:
  assumes "ok s" "list_fresh_marker_paths R prefix suffix hours s = (r, s')"
  shows "undisturbed s s'"
proof -
  obtain s1 where s1: "observe_remote_now_with_probe R gc_time_probe s = (Inr (now s), s1)" "ok s1"
      "view s1 = (view s)(gc_time_probe := None)"
    using observe_probe [OF assms(1)] by blast
  with assms(2) have "s' = s1"
    by (auto simp: list_fresh_marker_paths_def sbind_def sread_def split: sum.splits)
  with s1 show ?thesis by (simp add: undisturbed_def)
qed

lemma capture_undisturbed:
  assumes "ok s" "capture_gc_fence_state R s = (r, s')"
  shows "undisturbed s s'"
proof -
  have step: "sbind m f t = (r, s') \<Longrightarrow> ok t \<Longrightarrow> (\<And>q u. m t = (q, u) \<Longrightarrow> undisturbed t u) \<Longrightarrow>
      (\<And>x u. m t = (Inr x, u) \<Longrightarrow> f x u = (r, s') \<Longrightarrow> ok u \<Longrightarrow> undisturbed u s') \<Longrightarrow> undisturbed t s'"
    for m :: "('a, 'b) prog" and f :: "'b \<Rightarrow> ('a, gc_fence_state) prog" and t
  proof (cases "m t")
    fix q u assume a: "m t = (q, u)" "sbind m f t = (r, s')" and one: "\<And>q u. m t = (q, u) \<Longrightarrow> undisturbed t u"
      and rest: "\<And>x u. m t = (Inr x, u) \<Longrightarrow> f x u = (r, s') \<Longrightarrow> ok u \<Longrightarrow> undisturbed u s'"
    from one [OF a(1)] have u: "undisturbed t u" "ok u" by (simp_all add: undisturbed_def)
    show "undisturbed t s'"
    proof (cases q)
      case (Inl e)
      with a u show ?thesis by (simp add: sbind_def)
    next
      case (Inr x)
      with a have "f x u = (r, s')" by (simp add: sbind_def)
      with rest a Inr u show ?thesis using undisturbed_trans by blast
    qed
  qed
  have reads: "undisturbed t u" if "sread g t = (q, u)" "ok t" for g :: "'a \<Rightarrow> 'b res" and q t u
    using that undisturbed_refl by (simp add: sread_def)
  show ?thesis
    using assms(2,1) unfolding capture_gc_fence_state_def list_active_intent_paths_def list_active_lease_paths_def
    by (elim step) (auto dest: reads markers_undisturbed simp: sret_def intro: undisturbed_refl)
qed

lemma older_iff:
  assumes "ok s" "physical_ref_is_older_than_horizon R p h s = Inr older"
  shows "older \<longleftrightarrow> (\<exists>b t. view s p = Some (b, t) \<and> int t \<le> h)"
  using assms stat_some [of s p] stat_none [of s p]
  by (cases "view s p") (auto simp: physical_ref_is_older_than_horizon_def optional_time_def rbind_Inr_iff split: if_splits)

lemma delete_loop_effect:
  assumes "gc_delete_loop E g f h ds ps st = (Inr ds', st')" and "ge_remote E = R" and "ok (gs_remote st)"
  shows "ok (gs_remote st') \<and> gs_files st' = gs_files st \<and> (\<exists>D. ds' = ds @ D \<and> set D \<subseteq> set ps \<and>
    (\<forall>d \<in> set D. \<exists>b t. view (gs_remote st) d = Some (b, t) \<and> int t \<le> h) \<and>
    view (gs_remote st') = (\<lambda>p. if p \<in> set D then None else view (gs_remote st) p))"
  using assms
proof (induction ps arbitrary: ds st)
  case Nil
  then show ?case by auto
next
  case (Cons p ps)
  from Cons.prems obtain older where o: "physical_ref_is_older_than_horizon R p h (gs_remote st) = Inr older"
    by (auto split: sum.splits)
  show ?case
  proof (cases older)
    case False
    with Cons.prems o have "gc_delete_loop E g f h ds ps st = (Inr ds', st')" by simp
    from Cons.IH [OF this Cons.prems(2,3)] show ?thesis by auto
  next
    case True
    then obtain b t where t: "view (gs_remote st) p = Some (b, t)" "int t \<le> h"
      using older_iff [OF Cons.prems(3) o] by blast
    obtain s where s: "r_delete R p (gs_remote st) = (Inr (), s)" "ok s" "view s = (view (gs_remote st))(p := None)"
      using delete [OF Cons.prems(3), of p] by blast
    with Cons.prems o True have "gc_delete_loop E g f h (ds @ [p]) ps (st\<lparr> gs_remote := s \<rparr>) = (Inr ds', st')" by simp
    from Cons.IH [OF this Cons.prems(2)] s(2) have "ok (gs_remote st') \<and> gs_files st' = gs_files st \<and>
        (\<exists>D. ds' = (ds @ [p]) @ D \<and> set D \<subseteq> set ps \<and> (\<forall>d \<in> set D. \<exists>b t. view s d = Some (b, t) \<and> int t \<le> h) \<and>
        view (gs_remote st') = (\<lambda>q. if q \<in> set D then None else view s q))" by (simp cong: if_cong)
    then obtain D where D: "ok (gs_remote st')" "gs_files st' = gs_files st" "ds' = (ds @ [p]) @ D" "set D \<subseteq> set ps"
      "\<forall>d \<in> set D. \<exists>b t. view s d = Some (b, t) \<and> int t \<le> h"
      "view (gs_remote st') = (\<lambda>q. if q \<in> set D then None else view s q)" by blast
    show ?thesis
    proof (intro conjI exI [of _ "p # D"])
      show "\<forall>d \<in> set (p # D). \<exists>b t. view (gs_remote st) d = Some (b, t) \<and> int t \<le> h"
        using t D(5) s(3) by (auto split: if_splits)
    qed (use D s(3) in \<open>auto simp: fun_eq_iff\<close>)
  qed
qed

text \<open>Every loose object is listed, and no marked object is among the unreachable paths.\<close>

lemma loose_listed:
  assumes "ok s" "load_remote_loose_object_ids R s = Inr loose" "view s (relative_object_path i) \<noteq> None"
    and "validate_object_id_value i = Inr ()"
  shows "i \<in> set loose"
proof -
  obtain ps where ps: "r_list R ''objects/'' s = Inr ps" "set ps = {p. view s p \<noteq> None \<and> starts_with p ''objects/''}"
    using list_view [OF assms(1), of "''objects/''"] by blast
  have strips: "strip_prefix ''objects/'' (relative_object_path i) = Some (i @ ''.json'')"
      "strip_suffix ''.json'' (i @ ''.json'') = Some i"
    by (simp_all add: relative_object_path_def strip_suffix_def strip_prefix_append)
  with assms(3) ps have "relative_object_path i \<in> set ps" by (simp add: starts_with_def)
  with ps(1) assms(2,4) strips show ?thesis
    by (force simp: load_remote_loose_object_ids_def List.map_filter_def image_iff)
qed

lemma insert_packed_marks:
  "insert_packed_refs reached locs = Inr refs \<Longrightarrow> (i, l) \<in> set locs \<Longrightarrow> i \<in> set reached \<Longrightarrow>
     \<exists>r. location_physical_ref l = Inr r \<and> container_id r \<in> set refs"
proof (induction locs arbitrary: refs)
  case (Cons e locs)
  then show ?case by (cases e) (auto simp: rbind_Inr_iff split: if_splits)
qed simp

definition marked_refs :: "string list \<Rightarrow> locations \<Rightarrow> string list \<Rightarrow> string list \<Rightarrow> string list \<Rightarrow> string set" where
  "marked_refs loose locs reached segs packed = relative_object_path ` {i \<in> set loose. i \<in> set reached \<and>
       current_remote_physical_path_for_object locs i = relative_object_path i} \<union> set packed \<union> set segs"

lemma unreachable_member:
  assumes un: "collect_unreachable_physical_refs_with_spill R loose locs reached segs s = Inr us" and ok: "ok s"
  obtains packed where "insert_packed_refs reached locs = Inr packed"
    and "\<And>p. p \<in> set us \<longleftrightarrow> p \<notin> marked_refs loose locs reached segs packed \<and> view s p \<noteq> None \<and>
      ((\<exists>j. p = relative_object_path j \<and> validate_object_id_value j = Inr ()) \<or> starts_with p ''packs/data/'' \<or>
        starts_with p ''packs/index/'' \<or> starts_with p ''pack-index/segments/'')"
proof -
  have lists: "\<exists>ps. r_list R q s = Inr ps \<and> set ps = {p. view s p \<noteq> None \<and> starts_with p q}" for q
    using list_view [OF ok] by blast
  obtain os ds xs gs where l: "r_list R ''objects/'' s = Inr os" "r_list R ''packs/data/'' s = Inr ds"
      "r_list R ''packs/index/'' s = Inr xs" "r_list R ''pack-index/segments/'' s = Inr gs"
    and sets: "set os = {p. view s p \<noteq> None \<and> starts_with p ''objects/''}" "set ds = {p. view s p \<noteq> None \<and> starts_with p ''packs/data/''}"
      "set xs = {p. view s p \<noteq> None \<and> starts_with p ''packs/index/''}"
      "set gs = {p. view s p \<noteq> None \<and> starts_with p ''pack-index/segments/''}"
    using lists [of "''objects/''"] lists [of "''packs/data/''"] lists [of "''packs/index/''"] lists [of "''pack-index/segments/''"]
    by blast
  let ?object = "\<lambda>path. case strip_prefix ''objects/'' path of
              None \<Rightarrow> False
            | Some v \<Rightarrow> (case strip_suffix ''.json'' v of
                None \<Rightarrow> False | Some object_id \<Rightarrow> is_ok (validate_object_id_value object_id))"
  have object: "?object p \<longleftrightarrow> (\<exists>j. p = relative_object_path j \<and> validate_object_id_value j = Inr ())" for p
    by (auto simp: relative_object_path_def strip_prefix_Some_iff strip_suffix_Some_iff is_ok_iff split: option.splits)
      (metis strip_suffix_Some_iff option.discI option.inject append.assoc)+
  obtain packed where packed: "insert_packed_refs reached locs = Inr packed"
    using un by (auto simp: collect_unreachable_physical_refs_with_spill_def rbind_Inr_iff)
  have marked: "set (map relative_object_path (filter (\<lambda>i. i \<in> set reached \<and>
           current_remote_physical_path_for_object locs i = relative_object_path i) loose)) \<union> set packed \<union> set segs =
      marked_refs loose locs reached segs packed" by (auto simp: marked_refs_def)
  have us: "us = filter (\<lambda>p. p \<notin> marked_refs loose locs reached segs packed) (filter ?object os @ ds @ xs @ gs)"
    using un unfolding collect_unreachable_physical_refs_with_spill_def packed l rbind_simps Let_def marked by simp
  have "starts_with (relative_object_path j) ''objects/''" for j
    by (simp add: starts_with_iff relative_object_path_def)
  then have "p \<in> set us \<longleftrightarrow> p \<notin> marked_refs loose locs reached segs packed \<and> view s p \<noteq> None \<and>
      ((\<exists>j. p = relative_object_path j \<and> validate_object_id_value j = Inr ()) \<or> starts_with p ''packs/data/'' \<or>
        starts_with p ''packs/index/'' \<or> starts_with p ''pack-index/segments/'')" for p
    unfolding us set_filter set_append object sets by blast
  with packed show ?thesis by (rule that)
qed

lemma marked_not_unreachable:
  assumes un: "collect_unreachable_physical_refs_with_spill R loose locs reached segs s = Inr us"
    and i: "i \<in> set reached" and ok: "ok s"
    and loose: "\<And>j. view s (relative_object_path j) \<noteq> None \<Longrightarrow> validate_object_id_value j = Inr () \<Longrightarrow> j \<in> set loose"
  shows "current_remote_physical_path_for_object locs i \<notin> set us"
proof
  let ?p = "current_remote_physical_path_for_object locs i"
  assume us: "?p \<in> set us"
  from un ok obtain packed where packed: "insert_packed_refs reached locs = Inr packed"
    and member: "\<And>p. p \<in> set us \<longleftrightarrow> p \<notin> marked_refs loose locs reached segs packed \<and> view s p \<noteq> None \<and>
      ((\<exists>j. p = relative_object_path j \<and> validate_object_id_value j = Inr ()) \<or> starts_with p ''packs/data/'' \<or>
        starts_with p ''packs/index/'' \<or> starts_with p ''pack-index/segments/'')" by (rule unreachable_member) blast
  show False
  proof (cases "map_of locs i")
    case (Some l)
    with insert_packed_marks [OF packed, of i l] i obtain r where "location_physical_ref l = Inr r" "container_id r \<in> set packed"
      by (blast dest: map_of_SomeD)
    then have "?p \<in> marked_refs loose locs reached segs packed"
      by (simp add: current_remote_physical_path_for_object_def Some marked_refs_def)
    with us member show False by blast
  next
    case None
    then have p: "?p = relative_object_path i" by (simp add: current_remote_physical_path_for_object_def)
    have "\<not> starts_with ?p ''packs/data/''" "\<not> starts_with ?p ''packs/index/''" "\<not> starts_with ?p ''pack-index/segments/''"
      by (simp_all add: p starts_with_iff relative_object_path_def)
    with us member [of ?p] obtain j where j: "?p = relative_object_path j" "validate_object_id_value j = Inr ()" "view s ?p \<noteq> None"
      by blast
    then have "i = j" using p by (simp add: relative_object_path_def)
    with loose j p have "i \<in> set loose" by simp
    with i p have "?p \<in> marked_refs loose locs reached segs packed" by (auto simp: marked_refs_def)
    with us member show False by blast
  qed
qed

end

end
