(* ===== verification/Remote_Gc_Runs.thy ===== *)
theory Remote_Gc_Runs
  imports Remote_Gc_Proofs
begin

text \<open>
  Runs of the collection on a backend with the contract of a blob store: the steps of a run that
  succeeds, the time the horizon is taken from, the packs that the active index needs, and the objects
  that a branch needs.
\<close>

section \<open>Runs of the collection\<close>

lemma gc_on_remote_iff: "gc_on_remote m st = (r, st') \<longleftrightarrow> (\<exists>s. m (gs_remote st) = (r, s) \<and> st' = st\<lparr> gs_remote := s \<rparr>)"
  by (auto simp: gc_on_remote_def split: prod.splits)

lemma gc_on_files_iff: "gc_on_files m st = (r, st') \<longleftrightarrow> (\<exists>fs. m (gs_files st) = (r, fs) \<and> st' = st\<lparr> gs_files := fs \<rparr>)"
  by (auto simp: gc_on_files_def split: prod.splits)

lemmas gc_runs = obind_Inr_iff total_run_Some gc_on_remote_iff gc_on_files_iff gc_reads_def slift_def sret_def sfail_def

context stat_blob_store
begin

lemma dry_run_steps:
  assumes R: "ge_remote E = R" and ok: "ok (gs_remote st)" and run: "gc_dry_run E st = Some (Inr report, st')"
  shows "undisturbed (gs_remote st) (gs_remote st') \<and> (\<exists>m tv st1 segs s us. gc_mark E st = Some (Inr (m, tv), st1) \<and>
    undisturbed (gs_remote st) s \<and>
    collect_unreachable_physical_refs_with_spill R (mr_loose_object_ids m) (mr_pack_locations m) (tv_reached tv) segs s = Inr us \<and>
    unreachable_physical_refs report = sort us)"
proof -
  from run R obtain m tv st1 segs intents s us where mark: "gc_mark E st = Some (Inr (m, tv), st1)"
    and i: "list_active_intent_paths R (gs_remote st1) = (Inr intents, s)"
    and u: "collect_unreachable_physical_refs_with_spill R (mr_loose_object_ids m) (mr_pack_locations m) (tv_reached tv) segs s = Inr us"
    and r: "unreachable_physical_refs report = sort us" "gs_remote st' = s"
    by (auto simp: gc_dry_run_def gc_runs)
  have "gs_remote st1 = gs_remote st" using spares_mark mark unfolding spares_remote_def by blast
  with markers_undisturbed [of "gs_remote st1"] i ok have "undisturbed (gs_remote st) s"
    by (simp add: list_active_intent_paths_def)
  with mark u r show ?thesis by blast
qed

text \<open>The candidates of a run without a journal.\<close>

lemma candidates_fresh:
  assumes R: "ge_remote E = R" and ok: "ok (gs_remote st)" and new: "map_of (gs_files st) gc_delete_journal_path = None"
    and run: "gc_candidates E grace st = Some (Inr (fence, paths), st')"
  obtains s1 m tv st1 segs s us where "snd (capture_gc_fence_state R (gs_remote st)) = s1"
    and "undisturbed (gs_remote st) s1" and "gc_mark E (st\<lparr> gs_remote := s1 \<rparr>) = Some (Inr (m, tv), st1)"
    and "undisturbed s1 s" and "undisturbed s1 (gs_remote st')" and "set paths = set us"
    and "collect_unreachable_physical_refs_with_spill R (mr_loose_object_ids m) (mr_pack_locations m) (tv_reached tv) segs s = Inr us"
proof -
  from run R new obtain s1 report st1 where f: "capture_gc_fence_state R (gs_remote st) = (Inr fence, s1)"
    and d: "gc_dry_run E (st\<lparr> gs_remote := s1 \<rparr>) = Some (Inr report, st1)"
    and p: "paths = unreachable_physical_refs report" "gs_remote st' = gs_remote st1"
    by (auto simp: gc_candidates_def gc_runs load_gc_delete_journal_def store_gc_delete_journal_def split: if_splits)
  have u: "undisturbed (gs_remote st) s1" using capture_undisturbed [OF ok f] .
  then have "ok (gs_remote (st\<lparr> gs_remote := s1 \<rparr>))" by (simp add: undisturbed_def)
  from dry_run_steps [OF R this d] f u p that show ?thesis by auto
qed

lemma candidates_ok:
  assumes R: "ge_remote E = R" and ok: "ok (gs_remote st)" and run: "gc_candidates E grace st = Some (Inr (fence, paths), st')"
  shows "undisturbed (gs_remote st) (gs_remote st')"
proof (cases "load_gc_delete_journal (ge_journal E) (gs_files st)")
  case (Pair r fs)
  show ?thesis
  proof (cases "r = Inr None")
    case True
    with run R Pair obtain s1 report st1 where f: "capture_gc_fence_state R (gs_remote st) = (Inr fence, s1)"
      and d: "gc_dry_run E (st\<lparr> gs_files := fs, gs_remote := s1 \<rparr>) = Some (Inr report, st1)" and p: "gs_remote st' = gs_remote st1"
      by (auto simp: gc_candidates_def gc_runs store_gc_delete_journal_def split: if_splits)
    have u: "undisturbed (gs_remote st) s1" using capture_undisturbed [OF ok f] .
    then have "ok (gs_remote (st\<lparr> gs_files := fs, gs_remote := s1 \<rparr>))" by (simp add: undisturbed_def)
    from dry_run_steps [OF R this d] u p show ?thesis using undisturbed_trans by auto
  next
    case False
    with run Pair have "gs_remote st' = gs_remote st"
      by (auto simp: gc_candidates_def gc_runs load_gc_delete_journal_def split: if_splits option.splits)
    with ok show ?thesis by (simp add: undisturbed_refl)
  qed
qed

text \<open>What a run that succeeds went through after the candidates were known.\<close>

lemma gc_execute_run:
  assumes R: "ge_remote E = R" and ok: "ok (gs_remote st)" and run: "gc_execute E grace allow st = Some (Inr deleted, st')"
  obtains fence paths st1 s2 h where "gc_candidates E grace st = Some (Inr (fence, paths), st1)"
    and "capture_gc_fence_state R (gs_remote st1) = (Inr fence, s2)" and "undisturbed (gs_remote st1) s2"
    and "gf_active_lease_paths fence = []" and "observed_remote_safe_horizon R grace paths s2 = Inr h"
    and "ok (gs_remote st')" and "set deleted \<subseteq> set paths"
    and "\<forall>d \<in> set deleted. \<exists>b t. view s2 d = Some (b, t) \<and> int t \<le> h"
    and "view (gs_remote st') = (\<lambda>p. if p \<in> set deleted then None else view s2 p)"
proof -
  from run R obtain fence paths st1 s2 h st3 where
    c: "gc_candidates E grace st = Some (Inr (fence, paths), st1)"
    and f: "capture_gc_fence_state R (gs_remote st1) = (Inr fence, s2)" "gf_active_lease_paths fence = []"
    and h: "observed_remote_safe_horizon R grace paths s2 = Inr h"
    and d: "gc_delete_loop E grace fence h [] paths (st1\<lparr> gs_remote := s2 \<rparr>) = (Inr deleted, st3)"
    and last: "gs_remote st' = gs_remote st3"
    by (auto simp: gc_execute_def gc_runs remove_gc_delete_journal_def split: if_splits)
  have "ok (gs_remote st1)" using candidates_ok [OF R ok c] by (simp add: undisturbed_def)
  then have u: "undisturbed (gs_remote st1) s2" using capture_undisturbed f(1) by blast
  then have "ok (gs_remote (st1\<lparr> gs_remote := s2 \<rparr>))" by (simp add: undisturbed_def)
  from delete_loop_effect [OF d R this]
  have "ok (gs_remote st') \<and> set deleted \<subseteq> set paths \<and>
    (\<forall>d \<in> set deleted. \<exists>b t. view s2 d = Some (b, t) \<and> int t \<le> h) \<and>
    view (gs_remote st') = (\<lambda>p. if p \<in> set deleted then None else view s2 p)"
    by (auto simp: last cong: if_cong)
  with c f u h show ?thesis using that by blast
qed

end

section \<open>What is kept\<close>

lemma container_below_packs: "location_physical_ref l = Inr r \<Longrightarrow> starts_with (container_id r) ''packs/data/''"
  by (auto simp: location_physical_ref_def rbind_Inr_iff with_context_Inr_iff location_validate_def pack_resolve_def
      remote_pack_data_prefix_def physical_ref_pack_def Let_def split: if_splits)

lemma object_path_not_probe: "current_remote_physical_path_for_object locs i \<noteq> gc_time_probe"
  by (auto simp: current_remote_physical_path_for_object_def relative_object_path_def gc_time_probe_def starts_with_iff
      split: option.splits sum.splits dest: container_below_packs)

text \<open>
  The objects that a collection must keep: those to which the head of a branch leads in the objects that
  the marking authenticated. An id that a file lists as a chunk could only be the id of another
  kind of object by a collision of the keyed hash.
\<close>

definition gc_live :: "'s gc_env \<Rightarrow> maintenance_remote_state \<Rightarrow> traversal \<Rightarrow> 's \<Rightarrow> rnode set" where
  "gc_live E m tv s = {n. \<exists>refs l head. list_remote_branch_refs (ge_remote E) s = Inr refs \<and> l \<in> set refs \<and>
     decode_remote_ref E m (ref_value (listed_stored l)) = Inr (listed_token l, Some head) \<and>
     leads (rkids (maintenance_view E m s) (tv_objects tv)) (R_Snapshot head) n}"

definition chunk_collision :: "'w remote_view \<Rightarrow> files \<Rightarrow> bool" where
  "chunk_collision V F \<longleftrightarrow> (\<exists>k i n. R_Chunk i \<in> rkids V F k \<and> ropened V F n \<and> \<not> is_chunk n \<and> rnode_id n = i)"

lemma live_marked:
  assumes mark: "gc_mark E st = Some (Inr (m, tv), st')"
    and free: "\<not> chunk_collision (maintenance_view E m (gs_remote st)) (tv_objects tv)"
    and live: "n \<in> gc_live E m tv (gs_remote st)"
  shows "rnode_id n \<in> set (tv_reached tv)"
proof -
  let ?V = "maintenance_view E m (gs_remote st)" and ?F = "tv_objects tv"
  from gc_mark_goes [OF mark] obtain refs heads tv0 where refs: "list_remote_branch_refs (ge_remote E) (gs_remote st) = Inr refs"
    and heads: "heads_in E m refs heads" and tv0: "unmarked tv0" and goes: "goes ?V (R_Snapshot ` heads) tv0 tv" by blast
  from live refs obtain l head where l: "l \<in> set refs" "decode_remote_ref E m (ref_value (listed_stored l)) = Inr (listed_token l, Some head)"
    and n: "leads (rkids ?V ?F) (R_Snapshot head) n" by (auto simp: gc_live_def)
  from l heads have head: "head \<in> heads" by (fastforce simp: heads_in_def)
  have e: "exploration rnode_id (rkids ?V ?F) (ropened ?V ?F) (R_Snapshot ` heads) ([], {}) (seen tv)"
    using goes tv0 by (simp add: goes_def unmarked_def seen_def)
  have chunk: "is_chunk x" if x: "ropened ?V ?F x" "rnode_id x = rnode_id c" "is_chunk c"
      and c: "\<exists>k \<in> R_Snapshot ` heads. leads (rkids ?V ?F) k c" for x c
  proof -
    from x(3) obtain i where i: "c = R_Chunk i" by (cases c) simp_all
    from c obtain k where "leads (rkids ?V ?F) k c" "k \<in> R_Snapshot ` heads" by blast
    then obtain k' where "R_Chunk i \<in> rkids ?V ?F k'" by (cases rule: leads.cases) (auto simp: i)
    with free x(1,2) i show ?thesis unfolding chunk_collision_def by auto
  qed
  have "snd (seen tv) = snd (([], {}) :: recorded) \<union> rnode_id ` {n. \<exists>k \<in> R_Snapshot ` heads. leads (rkids ?V ?F) k n}"
  proof (rule rg.explored_closure [OF e])
    show "is_chunk x" if "is_chunk c" "\<exists>k \<in> R_Snapshot ` heads. leads (rkids ?V ?F) k c" "ropened ?V ?F x"
      "rnode_id x = rnode_id c" for c x using chunk that by blast
  qed simp
  with n head show ?thesis by (auto simp: seen_def)
qed

lemma mem_view_get:
  "mem_ok s \<Longrightarrow> mem_ok s' \<Longrightarrow> mem_view s p = mem_view s' p \<Longrightarrow> get_physical p s = get_physical p s'"
  by (cases "mem_view s' p") (auto simp: get_physical_def mem_view_None mem_view_Some)

section \<open>The horizon\<close>

context stat_blob_store
begin

lemma required_time_view:
  "ok s \<Longrightarrow> required_time R what p s = Inr t \<Longrightarrow> \<exists>b. view s p = Some (b, t)"
  using stat_some [of s p] stat_none [of s p]
  by (cases "view s p") (auto simp: required_time_def rbind_Inr_iff)

lemma optional_time_view:
  "ok s \<Longrightarrow> optional_time R what p s = Inr (Some t) \<Longrightarrow> \<exists>b. view s p = Some (b, t)"
  using stat_some [of s p] stat_none [of s p]
  by (cases "view s p") (auto simp: optional_time_def rbind_Inr_iff split: if_splits)

definition stored_time :: "'a \<Rightarrow> nat \<Rightarrow> bool" where
  "stored_time s t \<longleftrightarrow> (\<exists>p b. view s p = Some (b, t))"

lemma foldl_max_in: "foldl max a xs \<in> insert a (set xs)" for a :: nat
  by (induction xs arbitrary: a) (auto simp: max_def)

lemma latest_stored:
  assumes "ok s" "observed_remote_latest_time R ps s = Inr t"
  shows "stored_time s t"
proof -
  have one: "stored_time s t" if "required_time R what p s = Inr t" for what p t
    using required_time_view [OF assms(1) that] by (auto simp: stored_time_def)
  have opt: "stored_time s t" if "optional_time R what p s = Inr (Some t)" for what p t
    using optional_time_view [OF assms(1) that] by (auto simp: stored_time_def)
  have many: "stored_time s t" if "mapM (\<lambda>p. required_time R what p s) ps = Inr ts" "t \<in> set ts" for what ps ts t
    using that(2) one unfolding mapM_Inr_set [OF that(1)] by blast
  have opts: "stored_time s t" if "mapM (\<lambda>p. optional_time R what p s) ps = Inr ts" "Some t \<in> set ts" for what ps ts t
    using that(2) opt unfolding mapM_Inr_set [OF that(1)] by blast
  from assms(2) obtain a i it lt ts where a: "stored_time s a"
    and "t = foldl max a ((case i of None \<Rightarrow> [] | Some t \<Rightarrow> [t]) @ it @ lt @ List.map_filter id ts)"
    and "\<forall>t. i = Some t \<longrightarrow> stored_time s t" "\<forall>t \<in> set it. stored_time s t" "\<forall>t \<in> set lt. stored_time s t"
      "\<forall>t. Some t \<in> set ts \<longrightarrow> stored_time s t"
    unfolding observed_remote_latest_time_def rbind_Inr_iff using one opt many opts by (metis Inr_inject)
  with foldl_max_in [of a "(case i of None \<Rightarrow> [] | Some t \<Rightarrow> [t]) @ it @ lt @ List.map_filter id ts"]
  show ?thesis by (auto simp: List.map_filter_def split: option.splits)
qed

lemma horizon_stored:
  assumes "ok s" "observed_remote_safe_horizon R g ps s = Inr h"
  shows "\<exists>t. stored_time s t \<and> h = int t - int (unat (days_as_seconds g)) * 1000"
  using assms latest_stored
  by (auto simp: observed_remote_safe_horizon_def rbind_Inr_iff time_checked_sub_def split: if_splits)

end

section \<open>Packs of the active index\<close>

lemma fresh_locations_member:
  "fresh_locations X R secrets ps locs s = Inr l \<Longrightarrow> p \<in> set ps \<Longrightarrow>
     \<exists>bytes l1 l2. validate_segment_path p = Inr () \<and> r_get R p s = Inr bytes \<and>
       append_segment_locations X R secrets p bytes l1 s = Inr l2"
  by (induction ps arbitrary: locs) (auto simp: rbind_Inr_iff)

text \<open>The index of one upload: the sealed segment and the pack it describes.\<close>

definition segment_index ::
  "pack_index_env \<Rightarrow> 's remote \<Rightarrow> repo_secrets \<Rightarrow> string \<Rightarrow> 's \<Rightarrow> object_pack_index res" where
  "segment_index X R secrets p s =
     rbind (r_get R p s) (\<lambda>bytes.
     rbind (decode_index_segment X (Some secrets) p bytes) (\<lambda>plaintext.
     ok_or (Bail ''invalid json'') (from_slice (px_index X) plaintext)))"

lemma segment_needs_data:
  assumes "append_segment_locations X R (Some secrets) p bytes l1 s = Inr l2" and "r_get R p s = Inr bytes"
    and "segment_index X R secrets p s = Inr index" and "starts_with p remote_pack_index_prefix"
  shows "starts_with (pi_data_path index) remote_pack_data_prefix \<and> (\<exists>st. r_stat R (pi_data_path index) s = Inr st)"
  using assms
  by (auto simp: append_segment_locations_def segment_index_def append_pack_index_locations_from_bytes_def
      append_pack_index_locations_def rbind_Inr_iff with_context_Inr_iff split: if_splits)

lemma insert_packed_only:
  "insert_packed_refs reached locs = Inr refs \<Longrightarrow> d \<in> set refs \<Longrightarrow>
     \<exists>i l r. (i, l) \<in> set locs \<and> i \<in> set reached \<and> location_physical_ref l = Inr r \<and> container_id r = d"
proof (induction locs arbitrary: refs)
  case (Cons e locs)
  obtain i l where e: "e = (i, l)" by (cases e)
  show ?case
  proof (cases "i \<in> set reached")
    case True
    with Cons.prems e obtain r refs' where "location_physical_ref l = Inr r" "insert_packed_refs reached locs = Inr refs'"
      "refs = container_id r # refs'" by (auto simp: rbind_Inr_iff)
    with Cons True e show ?thesis by (cases "d = container_id r") fastforce+
  next
    case False
    with Cons e show ?thesis by (simp add: rbind_Inr_iff) blast
  qed
qed simp

context stat_blob_store
begin

lemma idle_pack_unreachable:
  assumes ok: "ok s" and l: "fresh_locations X R (Some secrets) segs [] s = Inr locs"
    and un: "collect_unreachable_physical_refs_with_spill R loose locs reached segs s = Inr us"
    and p: "p \<in> set segs" "starts_with p remote_pack_index_prefix" "segment_index X R secrets p s = Inr index"
    and idle: "\<forall>(i, l) \<in> set locs. \<forall>r. location_physical_ref l = Inr r \<and> container_id r = pi_data_path index \<longrightarrow> i \<notin> set reached"
  shows "pi_data_path index \<in> set us" and "set segs \<inter> set us = {}" and "pack_index_root_path \<notin> set us"
proof -
  let ?d = "pi_data_path index"
  obtain packed where packed: "insert_packed_refs reached locs = Inr packed"
    and member: "\<And>p. p \<in> set us \<longleftrightarrow> p \<notin> marked_refs loose locs reached segs packed \<and> view s p \<noteq> None \<and>
      ((\<exists>j. p = relative_object_path j \<and> validate_object_id_value j = Inr ()) \<or> starts_with p ''packs/data/'' \<or>
        starts_with p ''packs/index/'' \<or> starts_with p ''pack-index/segments/'')"
    by (rule unreachable_member [OF un ok]) blast
  show "set segs \<inter> set us = {}" using member by (auto simp: marked_refs_def)
  show "pack_index_root_path \<notin> set us"
    by (simp add: member pack_index_root_path_def relative_object_path_def starts_with_iff)
  from fresh_locations_member [OF l p(1)] obtain bytes l1 l2 where
    "r_get R p s = Inr bytes" "append_segment_locations X R (Some secrets) p bytes l1 s = Inr l2" by blast
  from segment_needs_data [OF this(2,1) p(3,2)] have d: "starts_with ?d remote_pack_data_prefix" "\<exists>st. r_stat R ?d s = Inr st"
    by blast+
  then have stored: "view s ?d \<noteq> None" using stat_none [OF ok, of ?d] by (metis Inl_Inr_False)
  have "?d \<notin> set packed" using insert_packed_only [OF packed, of ?d] idle by blast
  moreover have "?d \<notin> set segs"
  proof
    assume "?d \<in> set segs"
    with fresh_locations_member [OF l] have "validate_segment_path ?d = Inr ()" by blast
    with d(1) show False
      by (auto simp: validate_segment_path_def remote_pack_data_prefix_def remote_pack_index_prefix_def
          pack_index_compacted_segment_prefix_def starts_with_iff split: if_splits)
  qed
  moreover have "?d \<noteq> relative_object_path i" for i
    using d(1) by (auto simp: relative_object_path_def remote_pack_data_prefix_def starts_with_iff)
  ultimately have "?d \<notin> marked_refs loose locs reached segs packed" by (auto simp: marked_refs_def)
  with d(1) stored show "?d \<in> set us" by (simp add: member remote_pack_data_prefix_def)
qed

lemma index_without_data:
  assumes ok: "ok s'" and p: "p \<in> set segs" "starts_with p remote_pack_index_prefix"
    and index: "segment_index X R secrets p s' = Inr index" and gone: "view s' (pi_data_path index) = None"
  shows "\<exists>e. fresh_locations X R (Some secrets) segs [] s' = Inl e"
proof (cases "fresh_locations X R (Some secrets) segs [] s'")
  case (Inr locs)
  from fresh_locations_member [OF this p(1)] obtain bytes l1 l2 where
    "r_get R p s' = Inr bytes" "append_segment_locations X R (Some secrets) p bytes l1 s' = Inr l2" by blast
  from segment_needs_data [OF this(2,1) index p(2)] stat_none [OF ok gone] show ?thesis by auto
qed blast

lemma load_unreadable:
  assumes root: "r_get R pack_index_root_path s = Inr rb"
      "decode_pack_index_root_bytes X (Some secrets) rb = Inr r" "validate_pack_index_root r = Inr ()"
    and agrees: "cache_agrees R s (pr_segments r) fs" and names: "distinct (map index_cache_path (pr_segments r))"
    and l: "fresh_locations X R (Some secrets) (pr_segments r) [] s = Inl e"
  shows "fst (load_remote_pack_locations_with_local_cache X R s (Some secrets) fs) = Inl e"
proof -
  from prune_agrees [OF agrees, of "pr_segments r"] obtain fs1 where
    p: "prune_stale_cached_segments (pr_segments r) fs = (Inr (), fs1)" "cache_agrees R s (pr_segments r) fs1" by blast
  have "fst (append_remote_pack_locations_from_segment_paths X R s (Some secrets) (pr_segments r) [] fs1) = Inl e"
    using cached_locations_fresh [OF p(2) names] l by simp
  then obtain fs2 where
    "append_remote_pack_locations_from_segment_paths X R s (Some secrets) (pr_segments r) [] fs1 = (Inl e, fs2)"
    by (metis fst_conv surj_pair)
  then show ?thesis
    using root p(1)
    by (simp add: load_remote_pack_locations_with_local_cache_def load_remote_pack_index_root_bytes_def
        load_remote_pack_locations_with_observed_root_and_local_cache_def sbind_def slift_def)
qed

lemma collection_breaks_index:
  assumes ok: "ok s" "ok s'" and root: "r_get R pack_index_root_path s = Inr rb"
      "decode_pack_index_root_bytes X (Some secrets) rb = Inr r" "validate_pack_index_root r = Inr ()"
    and names: "distinct (map index_cache_path (pr_segments r))"
    and l: "fresh_locations X R (Some secrets) (pr_segments r) [] s = Inr locs"
    and un: "collect_unreachable_physical_refs_with_spill R loose locs reached (pr_segments r) s = Inr us"
    and p: "p \<in> set (pr_segments r)" "starts_with p remote_pack_index_prefix" "segment_index X R secrets p s = Inr index"
    and idle: "\<forall>(i, l) \<in> set locs. \<forall>r. location_physical_ref l = Inr r \<and> container_id r = pi_data_path index \<longrightarrow> i \<notin> set reached"
    and swept: "set deleted \<subseteq> set us" "pi_data_path index \<in> set deleted"
      "view s' = (\<lambda>q. if q \<in> set deleted then None else view s q)"
    and agrees: "cache_agrees R s' (pr_segments r) fs"
  shows "\<exists>e. fst (load_remote_pack_locations_with_local_cache X R s' (Some secrets) fs) = Inl e"
proof -
  note gone = idle_pack_unreachable [OF ok(1) l un p idle]
  have get: "r_get R q s' = Inr b" if "r_get R q s = Inr b" "q \<notin> set us" for q b
  proof -
    have "view s' q = view s q" using swept that(2) by auto
    from get_cong [OF ok this that(1)] show ?thesis .
  qed
  have "segment_index X R secrets p s' = Inr index"
    using p gone(2) get [of p] by (auto simp: segment_index_def rbind_Inr_iff)
  from index_without_data [OF ok(2) p(1,2) this] swept
  obtain e where "fresh_locations X R (Some secrets) (pr_segments r) [] s' = Inl e" by auto
  with load_unreadable [OF _ root(2,3) agrees names] get [OF root(1) gone(3)] show ?thesis by auto
qed

end

section \<open>The fence\<close>

lemma fence_refs_current:
  assumes "capture_gc_fence_state (memory_remote json lj) s = (Inr fence, s')" and "mem_ok s"
    and "(t, v, x) \<in> set (gf_refs fence)"
  shows "read_ref json t s = Inr (Some \<lparr> ref_version = v, ref_value = x \<rparr>)"
proof -
  from assms(1) obtain listed where l: "list_refs json s = Inr listed"
    and f: "gf_refs fence = map (\<lambda>l. (listed_token l, ref_version (listed_stored l), ref_value (listed_stored l)))
              (filter (\<lambda>l. \<not> starts_with (listed_token l) ''keyring/'') listed)"
    by (auto simp: capture_gc_fence_state_def sbind_Inr_iff sread_def sret_def memory_remote_def
        simp del: prog_simps sbind_prim)
  from f assms(3) obtain l' where l': "l' \<in> set listed" "listed_token l' = t" "ref_version (listed_stored l') = v"
    "ref_value (listed_stored l') = x" by auto
  then have "l' = \<lparr> listed_token = t, listed_stored = \<lparr> ref_version = v, ref_value = x \<rparr> \<rparr>" by simp
  with l'(1) listed_refs [OF assms(2) l] show ?thesis by blast
qed

end
