(* ===== verification/Remote_Gc_Sample.thy ===== *)
theory Remote_Gc_Sample
  imports Remote_Gc_Runs Sample_Runs
begin

text \<open>
  A run of the collection: the remote stores the sample history under the branch \<^verbatim>\<open>aa\<close> and an older
  object that nothing refers to.
\<close>

section \<open>The remote\<close>

definition const_codec :: "'a \<Rightarrow> 'a serde" where
  "const_codec x = \<lparr> to_vec = (\<lambda>_. []), from_slice = (\<lambda>_. Some x) \<rparr>"

definition sealed_ref :: "string \<Rightarrow> byte list" where
  "sealed_ref name = (case seal_ref sample_manifest sample_refs name main_ref of Inr bytes \<Rightarrow> bytes | Inl e \<Rightarrow> [])"

lemma sealed_ref: "seal_ref sample_manifest sample_refs name main_ref = Inr (sealed_ref name)"
proof -
  have "plain_store sample_manifest" by (simp add: plain_store_def sample_manifest_def)
  from plain_seal [OF this] obtain b where "seal_ref sample_manifest sample_refs name main_ref = Inr b" by blast
  then show ?thesis by (simp add: sealed_ref_def)
qed

definition sample_pointer :: stored_ref where "sample_pointer = \<lparr> ref_version = 1, ref_value = [] \<rparr>"
definition sample_branch :: stored_ref where
  "sample_branch = \<lparr> ref_version = 1, ref_value = sealed_ref default_ref_token \<rparr>"

definition stale_path :: string where "stale_path = relative_object_path ''aa''"

definition gc_files :: files where
  "gc_files = bt_insert stale_path [] (bt_insert ''layout_root.json'' (to_vec unary_codec direct_default)
     (bt_insert ''control/keyring/k'' [] (bt_insert (ref_path ''keyring/r'') (to_vec unary_codec sample_pointer)
     (bt_insert (ref_path ''aa'') (to_vec unary_codec sample_branch) sample_fetched))))"

definition gc_time :: "string \<Rightarrow> nat" where
  "gc_time p = (if p = stale_path then 0 else 2 * 86400000)"

definition gc_mem :: mem where
  "gc_mem = \<lparr> physical = gc_files, physical_modified_at = map (\<lambda>f. (fst f, gc_time (fst f))) gc_files,
     mem_layout_root = direct_default, clock = 3 * 86400000 \<rparr>"

abbreviation gc_backend :: "mem remote" where "gc_backend \<equiv> memory_remote unary_codec unary_codec"

lemma sample_fetched_ok: "bt_ok sample_fetched"
  unfolding sample_fetched_def by (rule sample_copy_ok)

lemma gc_files_ok: "bt_ok gc_files"
  unfolding gc_files_def by (intro bt_ok_insert sample_fetched_ok)

lemma sample_fetched_keys: "fst ` set sample_fetched = relative_object_path ` sample_ids"
proof -
  have "fst ` set (sample_copy is) = relative_object_path ` set is" for "is"
    by (induction "is") (simp_all add: set_keys_bt_insert)
  then show ?thesis unfolding sample_fetched_def by (simp only:) auto
qed

lemma gc_keys: "fst ` set gc_files = {stale_path, ''layout_root.json'', ''control/keyring/k'', ref_path ''keyring/r'', ref_path ''aa''} \<union>
    relative_object_path ` sample_ids"
  unfolding gc_files_def set_keys_bt_insert sample_fetched_keys by auto

lemma gc_map_of: "map_of gc_files p = (if p = stale_path then Some [] else if p = ''layout_root.json'' then Some (to_vec unary_codec direct_default)
    else if p = ''control/keyring/k'' then Some [] else if p = ref_path ''keyring/r'' then Some (to_vec unary_codec sample_pointer)
    else if p = ref_path ''aa'' then Some (to_vec unary_codec sample_branch) else map_of sample_fetched p)"
  by (simp add: gc_files_def map_of_bt_insert sample_fetched_ok del: bt_insert.simps)

lemma gc_mem_ok: "mem_ok gc_mem"
proof -
  have "bt_ok (map (\<lambda>f. (fst f, gc_time (fst f))) gc_files)" using gc_files_ok by (simp add: bt_ok_def comp_def)
  moreover have "dom (map_of (map (\<lambda>f. (fst f, gc_time (fst f))) gc_files)) = dom (map_of gc_files)"
    by (simp add: dom_map_of_conv_image_fst image_image)
  ultimately show ?thesis using gc_files_ok by (simp add: mem_ok_def gc_mem_def)
qed

lemma gc_view: "mem_view gc_mem p = map_option (\<lambda>b. (b, gc_time p)) (map_of gc_files p)"
proof -
  have "map_of (map (\<lambda>f. (fst f, gc_time (fst f))) fs) p = map_option (\<lambda>b. gc_time p) (map_of fs p)" for fs :: files
    by (induction fs) auto
  then show ?thesis by (cases "map_of gc_files p") (simp_all add: mem_view_def gc_mem_def)
qed

lemma bt_remove_insert: "map_of m k = None \<Longrightarrow> bt_remove k (bt_insert k v m) = m"
proof (induction m)
  case (Cons e m)
  then have "filter (\<lambda>e. fst e \<noteq> k) m = m" by (auto simp: map_of_eq_None_iff filter_id_conv split: if_splits)
  with Cons show ?case by (auto simp: bt_remove_def split: if_splits)
qed (simp add: bt_remove_def)

lemma gc_list: "r_list gc_backend q gc_mem = Inr (sorted_list_of_set {p \<in> fst ` set gc_files. starts_with p q})"
proof -
  have "distinct (map fst gc_files)" using gc_files_ok by (rule bt_ok_distinct)
  then have "sort (filter (\<lambda>p. starts_with p q) (map fst gc_files)) = sorted_list_of_set (set (filter (\<lambda>p. starts_with p q) (map fst gc_files)))"
    by (metis distinct_filter distinct_remdups_id sorted_list_of_set_sort_remdups)
  moreover have "set (filter (\<lambda>p. starts_with p q) (map fst gc_files)) = {p \<in> fst ` set gc_files. starts_with p q}" by auto
  ultimately show ?thesis by (simp add: memory_remote_def list_physical_def gc_mem_def)
qed

lemma paths_below:
  "{p \<in> fst ` set gc_files. starts_with p ''objects/''} = insert stale_path (relative_object_path ` sample_ids)"
  "{p \<in> fst ` set gc_files. starts_with p ''control/refs/by-token/''} = {ref_path ''keyring/r'', ref_path ''aa''}"
  "{p \<in> fst ` set gc_files. starts_with p ''control/keyring/''} = {''control/keyring/k''}"
  "{p \<in> fst ` set gc_files. starts_with p ''transactions/active/''} = {}"
  "{p \<in> fst ` set gc_files. starts_with p ''leases/''} = {}"
  "{p \<in> fst ` set gc_files. starts_with p ''packs/data/''} = {}"
  "{p \<in> fst ` set gc_files. starts_with p ''packs/index/''} = {}"
  "{p \<in> fst ` set gc_files. starts_with p ''pack-index/segments/''} = {}"
  unfolding gc_keys by (auto simp: starts_with_iff relative_object_path_def stale_path_def ref_path_def)

section \<open>Reading it\<close>

lemma gc_get: "r_get gc_backend p gc_mem = ok_or (Missing_physical p) (map_of gc_files p)"
  by (simp add: memory_remote_def get_physical_def gc_mem_def)

lemma gc_stat: "map_of gc_files p = Some b \<Longrightarrow>
     r_stat gc_backend p gc_mem = Inr \<lparr> stat_length = of_nat (length b), stat_modified_at = Some (gc_time p) \<rparr>"
  by (simp add: memory.stat_some [OF gc_mem_ok] gc_view)

lemma gc_missing: "map_of gc_files p = None \<Longrightarrow> r_stat gc_backend p gc_mem = Inl (Missing_physical p)"
  by (simp add: memory_remote_def stat_physical_def get_physical_def gc_mem_def)

lemma gc_paths: "map_of gc_files gc_time_probe = None" "map_of gc_files pack_index_root_path = None"
    "map_of gc_files ''layout_root.json'' = Some (to_vec unary_codec direct_default)"
    "map_of gc_files ''control/keyring/k'' = Some []"
    "map_of gc_files (ref_path ''keyring/r'') = Some (to_vec unary_codec sample_pointer)"
    "map_of gc_files (ref_path ''aa'') = Some (to_vec unary_codec sample_branch)" "map_of gc_files stale_path = Some []"
proof -
  have "map_of gc_files p = None \<longleftrightarrow> p \<notin> fst ` set gc_files" for p by (rule map_of_eq_None_iff)
  then show "map_of gc_files gc_time_probe = None" "map_of gc_files pack_index_root_path = None"
    by (auto simp: gc_keys gc_time_probe_def pack_index_root_path_def stale_path_def relative_object_path_def ref_path_def)
qed (auto simp: gc_map_of stale_path_def relative_object_path_def ref_path_def)

lemma sorted_set: "sorted xs \<Longrightarrow> distinct xs \<Longrightarrow> set xs = A \<Longrightarrow> sorted_list_of_set A = xs"
  using sorted_list_of_set.idem_if_sorted_distinct by blast

lemma gc_lists:
  "r_list gc_backend ''control/refs/by-token/'' gc_mem = Inr [ref_path ''aa'', ref_path ''keyring/r'']"
  "r_list gc_backend ''control/keyring/'' gc_mem = Inr [''control/keyring/k'']"
  "r_list gc_backend ''transactions/active/'' gc_mem = Inr []" "r_list gc_backend ''leases/'' gc_mem = Inr []"
  "r_list gc_backend ''packs/data/'' gc_mem = Inr []" "r_list gc_backend ''packs/index/'' gc_mem = Inr []"
  "r_list gc_backend ''pack-index/segments/'' gc_mem = Inr []"
proof -
  have "sorted [ref_path ''aa'', ref_path ''keyring/r'']" "distinct [ref_path ''aa'', ref_path ''keyring/r'']" by code_simp+
  from sorted_set [OF this] show "r_list gc_backend ''control/refs/by-token/'' gc_mem = Inr [ref_path ''aa'', ref_path ''keyring/r'']"
    unfolding gc_list paths_below by auto
qed (simp_all add: gc_list paths_below)

lemma gc_list_refs: "r_list_refs gc_backend gc_mem =
    Inr [\<lparr> listed_token = ''aa'', listed_stored = sample_branch \<rparr>, \<lparr> listed_token = ''keyring/r'', listed_stored = sample_pointer \<rparr>]"
proof -
  have l: "list_physical ''control/refs/by-token/'' gc_mem = Inr [ref_path ''aa'', ref_path ''keyring/r'']"
    using gc_lists(1) by (simp add: memory_remote_def)
  have t: "token_of_path (ref_path x) = Some (ref_path x, x)" for x
    by (simp add: token_of_path_def ref_path_def strip_prefix_Some_iff strip_suffix_Some_iff bind_eq_Some_conv)
  have v: "validate_ref_token_value ''aa'' = Inr ()" "validate_ref_token_value ''keyring/r'' = Inr ()" by code_simp+
  have g: "get_physical p gc_mem = ok_or (Missing_physical p) (map_of gc_files p)" for p
    using gc_get [of p] by (simp add: memory_remote_def)
  have "sort_key listed_token [\<lparr> listed_token = ''aa'', listed_stored = sample_branch \<rparr>, \<lparr> listed_token = ''keyring/r'', listed_stored = sample_pointer \<rparr>] =
      [\<lparr> listed_token = ''aa'', listed_stored = sample_branch \<rparr>, \<lparr> listed_token = ''keyring/r'', listed_stored = sample_pointer \<rparr>]"
    by simp
  then show ?thesis
    by (simp add: memory_remote_def list_refs_def l List.map_filter_def t load_listed_ref_def v g gc_paths unary_roundtrip del: sort_key_simps)
qed

lemma gc_read_refs: "r_read_ref gc_backend ''aa'' gc_mem = Inr (Some sample_branch)"
    "r_read_ref gc_backend ''keyring/r'' gc_mem = Inr (Some sample_pointer)"
proof -
  have v: "validate_ref_token_value ''aa'' = Inr ()" "validate_ref_token_value ''keyring/r'' = Inr ()" by code_simp+
  have g: "get_physical p gc_mem = ok_or (Missing_physical p) (map_of gc_files p)" for p
    using gc_get [of p] by (simp add: memory_remote_def)
  show "r_read_ref gc_backend ''aa'' gc_mem = Inr (Some sample_branch)"
    "r_read_ref gc_backend ''keyring/r'' gc_mem = Inr (Some sample_pointer)"
    by (simp_all add: memory_remote_def read_ref_def v g gc_paths unary_roundtrip)
qed

lemma gc_layout: "r_read_layout_root gc_backend gc_mem = Inr direct_default"
proof -
  have g: "get_physical p gc_mem = ok_or (Missing_physical p) (map_of gc_files p)" for p
    using gc_get [of p] by (simp add: memory_remote_def)
  show ?thesis by (simp add: memory_remote_def read_layout_root_def g gc_paths unary_roundtrip)
qed

lemma gc_probe: "observe_remote_now_with_probe gc_backend gc_time_probe gc_mem = (Inr (3 * 86400000), gc_mem)"
proof -
  have "map_of (physical gc_mem) gc_time_probe = None" using gc_paths(1) by (simp add: gc_mem_def)
  moreover from this have "map_of (physical_modified_at gc_mem) gc_time_probe = None" using mem_domD [OF gc_mem_ok] by blast
  moreover have "clock gc_mem = 3 * 86400000" by (simp add: gc_mem_def)
  moreover have "bt_ok (physical gc_mem)" "bt_ok (physical_modified_at gc_mem)" using gc_mem_ok by (simp_all add: mem_ok_def)
  ultimately show ?thesis
    by (simp add: observe_remote_now_with_probe_def memory_remote_def sbind_def sread_def slift_def sret_def put_physical_def
        delete_physical_def stat_physical_def get_physical_def map_of_bt_insert bt_remove_insert)
qed

definition gc_fence :: gc_fence_state where
  "gc_fence = \<lparr> gf_refs = [(''aa'', 1, sealed_ref default_ref_token)], gf_active_intent_paths = [], gf_active_lease_paths = [],
     gf_layout_root_generation = root_generation direct_default, gf_layout_root_bytes = to_vec unary_codec direct_default,
     gf_pack_index_root_bytes = None \<rparr>"

lemma gc_markers: "list_active_intent_paths gc_backend gc_mem = (Inr [], gc_mem)" "list_active_lease_paths gc_backend gc_mem = (Inr [], gc_mem)"
  by (simp_all add: list_active_intent_paths_def list_active_lease_paths_def list_fresh_marker_paths_def sbind_def gc_probe sread_def gc_lists)

lemma gc_capture: "capture_gc_fence_state gc_backend gc_mem = (Inr gc_fence, gc_mem)"
  by (simp add: capture_gc_fence_state_def sbind_def sread_def sret_def gc_list_refs gc_markers gc_get gc_paths gc_layout
      load_remote_pack_index_root_bytes_def gc_fence_def sample_branch_def starts_with_iff is_missing_physical_object_error_def)

section \<open>The client\<close>

definition gc_codecs :: control_codecs where
  "gc_codecs = \<lparr> ck_pointer = const_codec \<lparr> kp_generation = 1, kp_current = ''k'' \<rparr>, ck_pointer_summary = const_codec \<lparr> rkp_generation = 1 \<rparr>,
     ck_keyring_validation = const_codec \<lparr> rkv_generation = 1, rkv_envelopes = [\<lparr> kes_kind = ''password'' \<rparr>] \<rparr>,
     ck_keyring_summary = const_codec \<lparr> ks_generation = 1, ks_repo_id = ''r'' \<rparr>, ck_layout = const_codec direct_default,
     ck_ref_summary = const_codec \<lparr> drs_branch_name = ''main'', drs_ref_token_hex = ''aa'', drs_head_snapshot_id = Some id_snapshot \<rparr>,
     ck_trusted = table_codec [], ck_sealed = unary_codec \<rparr>"

definition gc_sample :: "gc_delete_journal serde \<Rightarrow> mem gc_env" where
  "gc_sample J = \<lparr> ge_remote = gc_backend, ge_capability = mem_capability, ge_store = sample_manifest, ge_control = gc_codecs,
     ge_refs = sample_refs, ge_packs = \<lparr> px_crypto = plain_crypto, px_postcard = unary_codec, px_root = unary_codec,
       px_index = unary_codec, px_segment = unary_codec \<rparr>, ge_oblivious = table_codec [], ge_journal = J, ge_digest = (\<lambda>b. []),
     ge_trusted = [], ge_repo_id = (\<lambda>fs. Inr ''r''), ge_local_secrets = (\<lambda>fs. Inr sample_secrets),
     ge_remote_secrets = (\<lambda>k fs. Inr sample_secrets), ge_reconcile = (\<lambda>s. sret ()), ge_fuel = 6, ge_depth = 5 \<rparr>"

lemma gc_sample_sel [simp]:
  "ge_remote (gc_sample J) = gc_backend" "ge_capability (gc_sample J) = mem_capability" "ge_store (gc_sample J) = sample_manifest"
  "ge_control (gc_sample J) = gc_codecs" "ge_refs (gc_sample J) = sample_refs" "ge_journal (gc_sample J) = J"
  "ge_digest (gc_sample J) = (\<lambda>b. [])" "ge_trusted (gc_sample J) = []" "ge_repo_id (gc_sample J) fs = Inr ''r''"
  "ge_local_secrets (gc_sample J) fs = Inr sample_secrets" "ge_remote_secrets (gc_sample J) k fs = Inr sample_secrets"
  "ge_reconcile (gc_sample J) s fs = (Inr (), fs)" "ge_fuel (gc_sample J) = 6" "ge_depth (gc_sample J) = 5"
  by (simp_all add: gc_sample_def sret_def)

definition gc_local :: files where
  "gc_local = [(''refs/branches/aa.json'', sealed_ref (branch_ref_stable_name ''aa'')), (default_ref_file, sealed_ref default_ref_token)]"

definition gc_start :: "mem gc_state" where "gc_start = \<lparr> gs_remote = gc_mem, gs_files = gc_local \<rparr>"

lemma gc_store: "local_store (gc_sample J) fs = Inr (sample_manifest\<lparr> ms_files := fs \<rparr>)"
  by (simp add: local_store_def gc_sample_def sample_manifest_def)

lemma open_main: "open_ref (sample_manifest\<lparr> ms_files := fs \<rparr>) sample_refs what name (sealed_ref name) = Inr main_ref"
proof -
  have "ref_codecs_ok sample_refs" by simp
  from open_sealed [OF _ this sealed_ref] show ?thesis
    by (simp add: sample_manifest_def plain_crypto_ok open_ref_def)
qed

lemma gc_local_token: "local_default_branch_token (gc_sample J) gc_local = Inr ''aa''"
proof -
  have "fs_read default_ref_file gc_local = Inr (sealed_ref default_ref_token)"
    by (simp add: fs_read_def gc_local_def default_ref_file_def)
  then show ?thesis by (simp add: local_default_branch_token_def gc_store open_main main_ref_def)
qed

definition gc_plane :: remote_control_plane where
  "gc_plane = \<lparr> cp_repo_id = ''r'', cp_keyring_pointer_bytes = [], cp_keyring_pointer = \<lparr> kp_generation = 1, kp_current = ''k'' \<rparr>,
     cp_current_keyring_bytes = [], cp_keyring_files = [(''k'', [])], cp_layout_root_bytes = [],
     cp_default_ref_bytes = sealed_ref default_ref_token \<rparr>"

lemma gc_control: "read_remote_control_plane_for_repo gc_codecs gc_backend (Inr ''r'') (sealed_ref default_ref_token) gc_mem = Inr gc_plane"
proof -
  have v: "validate_remote_relative_name ''k'' = Inr ()" "validate_layout_root_value direct_default = Inr ()" by code_simp+
  have strip: "strip_prefix ''control/keyring/'' ''control/keyring/k'' = Some ''k''" by (simp add: strip_prefix_Some_iff)
  show ?thesis
    by (simp add: read_remote_control_plane_for_repo_def ensure_remote_root_matches_local_repository_def gc_list_refs
        read_remote_keyring_pointer_bytes_for_repo_def gc_read_refs read_remote_control_plane_with_pointer_bytes_def
        gc_codecs_def const_codec_def sample_pointer_def v strip gc_get gc_paths gc_lists gc_layout gc_plane_def starts_with_iff)
qed

lemma gc_branches: "list_branches (sample_manifest\<lparr> ms_files := fs \<rparr>) sample_refs gc_local =
    Inr [\<lparr> bm_name = ''main'', bm_token_hex = ''aa'', bm_head_snapshot_id = None, bm_is_current = True \<rparr>]"
proof -
  have d: "fs_read default_ref_file gc_local = Inr (sealed_ref default_ref_token)"
    by (simp add: fs_read_def gc_local_def default_ref_file_def)
  have t: "branch_ref_tokens gc_local = [''aa'']"
    by (simp add: branch_ref_tokens_def gc_local_def List.map_filter_def branch_refs_dir_def default_ref_file_def)
  have b: "map_of gc_local ''refs/branches/aa.json'' = Some (sealed_ref (branch_ref_stable_name ''aa''))"
    by (simp add: gc_local_def)
  show ?thesis
    by (simp add: list_branches_def read_default_ref_def d open_main read_all_branch_refs_def t read_branch_ref_if_exists_def
        main_ref_file b main_ref_def List.map_filter_def with_context_def)
qed

lemma gc_decode: "decode_remote_ref (gc_sample J) \<lparr> mr_default_ref = d, mr_control_plane = cp, mr_validation_secrets = sample_secrets,
    mr_loose_object_ids = loose, mr_pack_locations = locs \<rparr> (sealed_ref default_ref_token) = Inr (''aa'', Some id_snapshot)"
proof -
  have "open_ref sample_manifest sample_refs ''x'' default_ref_token (sealed_ref default_ref_token) = Inr main_ref"
    using open_sealed [OF _ sample_refs_ok sealed_ref] by (simp add: sample_manifest_def plain_crypto_ok)
  then obtain plaintext where "decrypt_control_record plain_crypto unary_codec sample_secrets ''default'' ''ref'' (sealed_ref default_ref_token) = Inr plaintext"
    by (auto simp: open_ref_def rbind_Inr_iff sample_manifest_def sample_refs_def default_ref_token_def)
  then show ?thesis
    by (simp add: decode_remote_ref_def decode_default_ref_record_with_secrets_def gc_codecs_def const_codec_def
        sample_manifest_def with_context_def)
qed

definition gc_loose :: "string list" where
  "gc_loose = (case load_remote_loose_object_ids gc_backend gc_mem of Inr ids \<Rightarrow> ids | Inl e \<Rightarrow> [])"

lemma gc_loose: "load_remote_loose_object_ids gc_backend gc_mem = Inr gc_loose" "sample_ids \<subseteq> set gc_loose" "''aa'' \<in> set gc_loose"
proof -
  obtain ps where "r_list gc_backend ''objects/'' gc_mem = Inr ps" using gc_list by blast
  then show l: "load_remote_loose_object_ids gc_backend gc_mem = Inr gc_loose"
    by (simp add: gc_loose_def load_remote_loose_object_ids_def)
  have "mem_view gc_mem (relative_object_path i) \<noteq> None" if "i \<in> insert ''aa'' sample_ids" for i
  proof -
    have "relative_object_path i \<in> fst ` set gc_files" using that by (auto simp: gc_keys stale_path_def)
    then show ?thesis by (simp add: gc_view map_of_eq_None_iff)
  qed
  moreover have "validate_object_id_value ''aa'' = Inr ()" by code_simp
  ultimately have "i \<in> set gc_loose" if "i \<in> insert ''aa'' sample_ids" for i
    using that memory_stat.loose_listed [OF gc_mem_ok l, of i] sample_holding(2) by blast
  then show "sample_ids \<subseteq> set gc_loose" "''aa'' \<in> set gc_loose" by blast+
qed

lemma gc_holds: "holds_sample gc_mem (set gc_loose)"
proof -
  have "map_of gc_files (relative_object_path i) = Some (sample_bytes i)" if "i \<in> sample_ids" for i
  proof -
    have "\<exists>t p. i = plain_id t p" using that unfolding id_snapshot_def id_root_def id_docs_def id_file_def by blast
    then obtain t p where "i = plain_id t p" by blast
    then have "i \<noteq> ''aa''" using plain_id_not_short [of "''aa''" t p] by simp
    then have "map_of gc_files (relative_object_path i) = map_of sample_fetched (relative_object_path i)"
      by (simp add: gc_map_of stale_path_def relative_object_path_def ref_path_def)
    also have "\<dots> = Some (sample_bytes i)" using that unfolding sample_fetched_def map_of_sample_copy by auto
    finally show ?thesis .
  qed
  then show ?thesis using gc_loose(2) by (simp add: holds_sample_def gc_mem_def)
qed

section \<open>The run\<close>

definition gc_maintenance :: maintenance_remote_state where
  "gc_maintenance = \<lparr> mr_default_ref = sample_branch, mr_control_plane = gc_plane, mr_validation_secrets = sample_secrets,
     mr_loose_object_ids = gc_loose, mr_pack_locations = [] \<rparr>"

lemma gc_no_index: "load_remote_pack_index_root_bytes gc_backend gc_mem = Inr None"
  by (simp add: load_remote_pack_index_root_bytes_def gc_get gc_paths)

lemma gc_direct: "root_mode direct_default \<noteq> Oblivious"
  by (simp add: direct_default_def)

lemma gc_locations: "load_remote_active_pack_locations_with_local_cache X K gc_backend secrets gc_mem gc_local = (Inr [], gc_local)"
proof -
  have "prune_pack_index_cache gc_local = (Inr (), gc_local)"
  proof -
    have "\<not> in_segment_cache ''refs/branches/aa.json''" "\<not> in_segment_cache default_ref_file" "default_ref_file \<noteq> cached_root_path"
      "''refs/branches/aa.json'' \<noteq> cached_root_path" by code_simp+
    then show ?thesis by (simp add: prune_pack_index_cache_def gc_local_def bt_remove_def)
  qed
  then show ?thesis
    by (simp add: load_remote_active_pack_locations_with_local_cache_def gc_layout gc_direct
        load_remote_pack_locations_with_local_cache_def load_remote_pack_locations_with_observed_root_and_local_cache_def
        gc_no_index sbind_def slift_def sret_def)
qed

lemma gc_maintained: "load_maintenance_remote_state (gc_sample J) ''aa'' \<lparr> gs_remote = gc_mem, gs_files = gc_local \<rparr> =
    (Inr gc_maintenance, \<lparr> gs_remote = gc_mem, gs_files = gc_local \<rparr>)"
  by (simp add: load_maintenance_remote_state_def sbind_def slift_def sret_def gc_read_refs gc_control gc_loose(1) gc_on_files_def
      gc_locations gc_maintenance_def sample_branch_def)

lemma gc_floor: "assert_remote_generations_meet_local_floor gc_codecs ''aa'' sample_branch gc_plane [] = Inr ()"
proof -
  have "load_trusted_remote_state gc_codecs ''r'' [] = Inr None" by code_simp
  then show ?thesis
    by (simp add: assert_remote_generations_meet_local_floor_def gc_codecs_def const_codec_def with_context_def gc_plane_def sample_branch_def)
qed

lemma gc_cache: "initialize_maintenance_pack_cache [] gc_local = (Inr [], gc_local)"
  by (simp add: initialize_maintenance_pack_cache_def prune_stale_cached_pack_data_def sbind_def sret_def gc_local_def
      default_ref_file_def pack_data_cache_root_def starts_with_iff)

definition gc_control_files :: files where
  "gc_control_files = tv_control (snd (write_remote_control_plane_to_validation_root gc_plane
     \<lparr> tv_reader = \<lparr> pr_packs = [], pr_files = [] \<rparr>, tv_objects = [], tv_reached = [], tv_control = [] \<rparr>))"

lemma gc_maintenance_view: "maintenance_view (gc_sample J) gc_maintenance gc_mem = sample_view_of True gc_mem (set gc_loose)"
  by (simp add: maintenance_view_def sample_view_of_def gc_maintenance_def sample_manifest_def)

lemma sample_control_run:
  "write_remote_control_plane_to_validation_root gc_plane \<lparr> tv_reader = r, tv_objects = objs, tv_reached = ids, tv_control = c \<rparr> =
     (Inr (), \<lparr> tv_reader = r, tv_objects = objs, tv_reached = ids, tv_control =
        foldl (\<lambda>fs (file_name, bytes). bt_insert (''keyring/'' @ file_name) bytes fs)
          (bt_insert ''keyring/keyring.current'' (cp_keyring_pointer_bytes gc_plane)
                (bt_insert ''refs/default.json'' (cp_default_ref_bytes gc_plane)
                (bt_insert ''layout_root.json'' (cp_layout_root_bytes gc_plane) c))) (cp_keyring_files gc_plane) \<rparr>)"
  by (simp add: write_remote_control_plane_to_validation_root_def Let_def)

lemma gc_reached:
  assumes "write_remote_control_plane_to_validation_root gc_plane
      \<lparr> tv_reader = r, tv_objects = [], tv_reached = [], tv_control = c \<rparr> =
     (Inr (), \<lparr> tv_reader = r, tv_objects = [], tv_reached = [], tv_control = c' \<rparr>)" and "pr_files r = gc_local"
  shows "collect_all_remote_reachable_object_ids (gc_sample J) gc_maintenance gc_mem
      \<lparr> tv_reader = r, tv_objects = [], tv_reached = [], tv_control = c \<rparr> =
    Some (Inr (), \<lparr> tv_reader = r, tv_objects = sample_fetched, tv_reached = [id_snapshot, id_root, id_docs, id_file, ''cc''],
      tv_control = c' \<rparr>)"
proof -
  have refs: "list_remote_branch_refs gc_backend gc_mem = Inr [\<lparr> listed_token = ''aa'', listed_stored = sample_branch \<rparr>]"
  proof -
    have "validate_sync_identifier ''aa'' = Inr ()" by code_simp
    then show ?thesis by (simp add: list_remote_branch_refs_def gc_list_refs starts_with_iff with_context_def)
  qed
  have branch: "collect_branches (gc_sample J) gc_maintenance gc_mem [\<lparr> listed_token = ''aa'', listed_stored = sample_branch \<rparr>] False
      \<lparr> tv_reader = r, tv_objects = [], tv_reached = [], tv_control = c \<rparr> =
    Some (Inr True, \<lparr> tv_reader = r, tv_objects = sample_fetched, tv_reached = [id_snapshot, id_root, id_docs, id_file, ''cc''],
      tv_control = c' \<rparr>)"
    using gc_decode [of J sample_branch gc_plane gc_loose "[]", folded gc_maintenance_def]
    by (simp add: obind_def total_run_def sample_branch_def gc_control assms(1) slift_def sret_def with_context_def
        gc_maintenance_view sample_remote_run [OF gc_holds] del: sample_copy.simps)
  show ?thesis
    by (simp add: collect_all_remote_reachable_object_ids_def obind_def total_run_def slift_def sret_def assms(2) gc_local_token refs branch del: collect_branches.simps)
qed

lemma gc_recent:
  assumes "pr_files r = gc_local"
  shows "collect_recent_unpublished_local_reachable_object_ids (gc_sample J) gc_maintenance gc_mem
      \<lparr> tv_reader = r, tv_objects = objs, tv_reached = ids, tv_control = c \<rparr> =
    Some (Inr (), \<lparr> tv_reader = r, tv_objects = objs, tv_reached = ids, tv_control = c \<rparr>)"
  by (simp add: collect_recent_unpublished_local_reachable_object_ids_def obind_def total_run_def assms gc_store gc_branches
      recent_unpublished_heads_def List.map_filter_def sret_def)

definition gc_traversed :: traversal where
  "gc_traversed = \<lparr> tv_reader = \<lparr> pr_packs = [], pr_files = gc_local \<rparr>, tv_objects = sample_fetched,
     tv_reached = [id_snapshot, id_root, id_docs, id_file, ''cc''],
     tv_control = (let c = tv_control (snd (write_remote_control_plane_to_validation_root gc_plane
       \<lparr> tv_reader = \<lparr> pr_packs = [], pr_files = gc_local \<rparr>, tv_objects = [], tv_reached = [], tv_control = [] \<rparr>))
     in tv_control (snd (write_remote_control_plane_to_validation_root gc_plane
       \<lparr> tv_reader = \<lparr> pr_packs = [], pr_files = gc_local \<rparr>, tv_objects = [], tv_reached = [], tv_control = c \<rparr>))) \<rparr>"

lemma gc_marked: "gc_mark (gc_sample J) gc_start = Some (Inr (gc_maintenance, gc_traversed), gc_start)"
proof -
  have m: "mr_pack_locations gc_maintenance = []" "mr_control_plane gc_maintenance = gc_plane" "mr_default_ref gc_maintenance = sample_branch"
    by (simp_all add: gc_maintenance_def)
  note control = sample_control_run
  note run = gc_reached [OF control]
  show ?thesis
    by (simp add: gc_mark_def obind_def total_run_def gc_on_files_def gc_start_def gc_local_token gc_maintained slift_def
        m gc_floor gc_cache with_traversal_def control run gc_recent sret_def gc_traversed_def Let_def del: foldl_Cons)
qed

lemma distinct_singleton_set: "distinct xs \<Longrightarrow> set xs = {x} \<Longrightarrow> xs = [x]"
  by (cases xs; cases "tl xs") auto

lemma gc_unreachable: "collect_unreachable_physical_refs_with_spill gc_backend gc_loose [] (tv_reached gc_traversed) [] gc_mem = Inr [stale_path]"
proof -
  obtain ps where ps: "r_list gc_backend ''objects/'' gc_mem = Inr ps" "distinct ps"
    "set ps = insert stale_path (relative_object_path ` sample_ids)"
  proof (rule that [OF gc_list])
    have "finite {p \<in> fst ` set gc_files. starts_with p ''objects/''}" by simp
    then show "set (sorted_list_of_set {p \<in> fst ` set gc_files. starts_with p ''objects/''}) =
        insert stale_path (relative_object_path ` sample_ids)" by (simp only: set_sorted_list_of_set paths_below(1))
  qed (rule distinct_sorted_list_of_set)
  let ?marked = "set (map relative_object_path (filter (\<lambda>i. i \<in> set (tv_reached gc_traversed) \<and>
      current_remote_physical_path_for_object [] i = relative_object_path i) gc_loose))"
  let ?object = "\<lambda>path. case strip_prefix ''objects/'' path of None \<Rightarrow> False
      | Some v \<Rightarrow> (case strip_suffix ''.json'' v of None \<Rightarrow> False | Some i \<Rightarrow> is_ok (validate_object_id_value i))"
  let ?us = "filter (\<lambda>p. p \<notin> ?marked) (filter ?object ps)"
  have us: "collect_unreachable_physical_refs_with_spill gc_backend gc_loose [] (tv_reached gc_traversed) [] gc_mem = Inr ?us"
    by (simp add: collect_unreachable_physical_refs_with_spill_def ps gc_lists Let_def)
  have strips: "strip_prefix ''objects/'' (relative_object_path i) = Some (i @ ''.json'')" "strip_suffix ''.json'' (i @ ''.json'') = Some i" for i
    by (simp_all add: relative_object_path_def strip_suffix_def strip_prefix_append)
  have "validate_object_id_value ''aa'' = Inr ()" by code_simp
  then have "?object stale_path" unfolding stale_path_def strips option.case by simp
  moreover have marked: "relative_object_path i \<in> ?marked \<longleftrightarrow> i \<in> set gc_loose \<and> i \<in> set (tv_reached gc_traversed)" for i
    by (auto simp: current_remote_physical_path_for_object_def relative_object_path_def)
  moreover have "''aa'' \<notin> set (tv_reached gc_traversed)"
    using plain_id_not_short [of "''aa''", THEN not_sym] by (simp add: gc_traversed_def id_snapshot_def id_root_def id_docs_def id_file_def)
  ultimately have "stale_path \<in> set ?us" unfolding set_filter ps(3) stale_path_def by blast
  moreover have "sample_ids \<subseteq> set (tv_reached gc_traversed)" by (simp add: gc_traversed_def)
  then have "relative_object_path i \<in> ?marked" if "i \<in> sample_ids" for i
    unfolding marked using gc_loose(2) that by blast
  then have "set ?us \<subseteq> {stale_path}" unfolding set_filter ps(3) by blast
  moreover have "distinct ?us" using ps(2) by simp
  ultimately have "?us = [stale_path]" by (intro distinct_singleton_set subset_antisym) blast+
  then show ?thesis unfolding us by simp
qed

lemma gc_dry: "gc_dry_run (gc_sample J) gc_start =
    Some (Inr \<lparr> unreachable_physical_refs = [stale_path], active_intent_paths = [] \<rparr>, gc_start)"
proof -
  have "load_remote_active_pack_segment_paths X K gc_backend secrets gc_mem = Inr []" for X K secrets
    by (simp add: load_remote_active_pack_segment_paths_def gc_layout active_pack_segment_paths_for_layout_root_def gc_direct
        load_remote_pack_index_segment_paths_def gc_no_index)
  moreover have "mr_loose_object_ids gc_maintenance = gc_loose" "mr_pack_locations gc_maintenance = []"
    by (simp_all add: gc_maintenance_def)
  moreover have "gs_remote gc_start = gc_mem" "gc_start\<lparr> gs_remote := gc_mem \<rparr> = gc_start" by (simp_all add: gc_start_def)
  ultimately show ?thesis
    by (simp add: gc_dry_run_def obind_def total_run_def gc_marked gc_reads_def gc_on_remote_def gc_markers gc_unreachable sret_def)
qed

text \<open>With a grace period of one day only the object that nothing refers to is old enough.\<close>

definition gc_end :: "mem gc_state" where
  "gc_end = snd (the (gc_execute (gc_sample (table_codec [])) 1 False gc_start))"

lemma gc_run: "gc_execute (gc_sample (table_codec [])) 1 False gc_start = Some (Inr [stale_path], gc_end)"
proof -
  let ?J = "table_codec [] :: gc_delete_journal serde"
  let ?journal = "\<lparr> gd_grace_period_days = 1, gd_fence_state = gc_fence, gd_pending_paths = [stale_path] \<rparr>"
  let ?st = "gc_start\<lparr> gs_files := snd (store_gc_delete_journal ?J ?journal gc_local) \<rparr>"
  have start: "gs_remote gc_start = gc_mem" "gs_files gc_start = gc_local" "gc_start\<lparr> gs_remote := gc_mem \<rparr> = gc_start"
      "gc_start\<lparr> gs_files := gc_local \<rparr> = gc_start" by (simp_all add: gc_start_def)
  have "map_of gc_local gc_delete_journal_path = None" by (simp add: gc_local_def gc_delete_journal_path_def default_ref_file_def)
  then have cand: "gc_candidates (gc_sample ?J) 1 gc_start = Some (Inr (gc_fence, [stale_path]), ?st)"
    by (simp add: gc_candidates_def obind_def total_run_def gc_on_files_def gc_on_remote_def load_gc_delete_journal_def start
        gc_capture gc_dry store_gc_delete_journal_def sret_def) (simp add: gc_fence_def sret_def)
  have cap: "ensure_gc_execute_capability mem_capability = Inr ()" "capability_writer_mode mem_capability \<noteq> SingleWriter" by code_simp+
  have times: "gc_time ''layout_root.json'' = 172800000" "gc_time stale_path = 0"
    by (simp_all add: gc_time_def stale_path_def relative_object_path_def)
  have latest: "observed_remote_latest_time gc_backend [stale_path] gc_mem = Inr 172800000"
    by (simp add: observed_remote_latest_time_def required_time_def optional_time_def gc_stat [OF gc_paths(3)] gc_stat [OF gc_paths(7)]
        gc_missing [OF gc_paths(2)] gc_lists times List.map_filter_def)
  have "days_as_seconds 1 = 86400" by (simp add: days_as_seconds_def)
  then have h: "observed_remote_safe_horizon gc_backend 1 [stale_path] gc_mem = Inr 86400000"
    by (simp add: observed_remote_safe_horizon_def latest time_checked_sub_def)
  have older: "physical_ref_is_older_than_horizon gc_backend stale_path 86400000 gc_mem = Inr True"
    by (simp add: physical_ref_is_older_than_horizon_def optional_time_def gc_stat [OF gc_paths(7)] times)
  have delete: "r_delete gc_backend stale_path s = (Inr (), snd (delete_physical stale_path s))" for s
    by (simp add: memory_remote_def delete_physical_def)
  have "gs_remote ?st = gc_mem" "?st\<lparr> gs_remote := gc_mem \<rparr> = ?st" by (simp_all add: gc_start_def)
  then have "\<exists>st'. gc_execute (gc_sample ?J) 1 False gc_start = Some (Inr [stale_path], st')"
    using cap by (simp add: gc_execute_def obind_def total_run_def slift_def sret_def cand gc_on_remote_def gc_capture gc_reads_def h older
        delete gc_on_files_def remove_gc_delete_journal_def) (simp add: gc_fence_def h older delete)
  then show ?thesis by (auto simp: gc_end_def)
qed

text \<open>No object of the sample has the id of its one chunk, and every object of it is live.\<close>

lemma sample_no_collision: "\<not> chunk_collision (sample_view_of cached w loose) sample_fetched"
proof
  let ?V = "sample_view_of cached w loose"
  assume "chunk_collision ?V sample_fetched"
  then obtain k i n where k: "R_Chunk i \<in> rkids ?V sample_fetched k" and n: "ropened ?V sample_fetched n" "\<not> is_chunk n" "rnode_id n = i"
    by (auto simp: chunk_collision_def)
  have plain: "R_Chunk i \<noteq> entry_rnode e" for e by (simp add: entry_rnode_def)
  have "R_Chunk i \<notin> set (case d of Plain_Tree es \<Rightarrow> map entry_rnode es | Sharded_Directory shards \<Rightarrow> map R_Tree_Shard shards)" for d
    using plain by (cases d) auto
  with k plain have "i = ''cc''"
    by (cases k) (auto simp: rkids_def rbind_Inr_iff read_remote_validation_object_def with_context_Inr_iff sample_manifest_def
        table_codec_def split: sum.splits option.splits if_splits)
  with n rnode_typed obtain l where "get_typed_object plain_crypto sample_secrets ''cc'' sample_fetched = Inr l"
    by (fastforce simp: ropened_def is_ok_iff sample_manifest_def)
  then have "map_of sample_fetched (relative_object_path ''cc'') \<noteq> None"
    by (auto simp: get_typed_object_def file_get_def rbind_Inr_iff with_context_Inr_iff ok_or_Inr_iff)
  then show False using sample_ids_neq unfolding sample_fetched_def map_of_sample_copy by auto
qed

lemma gc_sample_live: "R_File id_file \<in> gc_live (gc_sample J) gc_maintenance gc_traversed gc_mem"
proof -
  let ?V = "sample_view_of True gc_mem (set gc_loose)"
  have "validate_sync_identifier ''aa'' = Inr ()" by code_simp
  then have refs: "list_remote_branch_refs gc_backend gc_mem = Inr [\<lparr> listed_token = ''aa'', listed_stored = sample_branch \<rparr>]"
    by (simp add: list_remote_branch_refs_def gc_list_refs starts_with_iff with_context_def)
  have "leads (rkids ?V sample_fetched) (R_Snapshot id_snapshot) (R_File id_file)"
  proof (rule leads_step [OF leads_step [OF leads_refl]])
    show "R_Tree id_root \<in> rkids ?V sample_fetched (R_Snapshot id_snapshot)" unfolding sample_rkids by blast
    show "R_File id_file \<in> rkids ?V sample_fetched (R_Tree id_root)" unfolding sample_rkids(2) by blast
  qed
  then show ?thesis
    using refs gc_decode [of J sample_branch gc_plane gc_loose "[]", folded gc_maintenance_def]
    by (auto simp: gc_live_def gc_maintenance_view gc_traversed_def sample_branch_def)
qed

end
