(* ===== verification/Remote_Gc_Claims.thy ===== *)
theory Remote_Gc_Claims
  imports Remote_Gc_Sample Pack_Index_Claims
begin

text \<open>
  The properties of garbage collection on the in-memory backend: what is kept, what is never deleted,
  and two states it leads to from which it, or every reader, does not recover.
\<close>

section \<open>What is kept\<close>

text \<open>C32: Garbage collection keeps every object that a branch needs. After a run without an earlier journal,
  each object to which the head of any branch of the remote leads, a chunk, file, directory or
  snapshot, packed or loose, still has the bytes it had where it is read from, and that path is not among
  the deleted ones, unless the authenticated objects contain a collision.\<close>

theorem gc_keeps_live_objects:
  assumes E: "ge_remote E = memory_remote rj lj" and ok: "mem_ok (gs_remote st)"
    and new: "map_of (gs_files st) gc_delete_journal_path = None"
    and run: "gc_execute E grace allow st = Some (Inr deleted, st')"
  shows "\<exists>s m tv st1. s = snd (capture_gc_fence_state (ge_remote E) (gs_remote st)) \<and>
    gc_mark E (st\<lparr> gs_remote := s \<rparr>) = Some (Inr (m, tv), st1) \<and>
    (\<not> chunk_collision (maintenance_view E m s) (tv_objects tv) \<longrightarrow>
      (\<forall>n \<in> gc_live E m tv s. let p = current_remote_physical_path_for_object (mr_pack_locations m) (rnode_id n)
         in p \<notin> set deleted \<and> get_physical p (gs_remote st') = get_physical p (gs_remote st)))"
proof -
  obtain fence paths st1 s2 where
    c: "gc_candidates E grace st = Some (Inr (fence, paths), st1)" and u2: "memory_stat.undisturbed (gs_remote st1) s2"
    and del: "mem_ok (gs_remote st')" "set deleted \<subseteq> set paths"
      "mem_view (gs_remote st') = (\<lambda>p. if p \<in> set deleted then None else mem_view s2 p)"
    by (rule memory_stat.gc_execute_run [OF E ok run]) (rule that)
  obtain s1 m tv st2 segs s us where
    s1: "snd (capture_gc_fence_state (ge_remote E) (gs_remote st)) = s1" "memory_stat.undisturbed (gs_remote st) s1"
    and mark: "gc_mark E (st\<lparr> gs_remote := s1 \<rparr>) = Some (Inr (m, tv), st2)"
    and u: "memory_stat.undisturbed s1 s" "memory_stat.undisturbed s1 (gs_remote st1)" and us: "set paths = set us"
    and un: "collect_unreachable_physical_refs_with_spill (ge_remote E) (mr_loose_object_ids m) (mr_pack_locations m)
      (tv_reached tv) segs s = Inr us" by (rule memory_stat.candidates_fresh [OF E ok new c, folded E]) (rule that)
  have "p \<notin> set deleted \<and> get_physical p (gs_remote st') = get_physical p (gs_remote st)"
    if free: "\<not> chunk_collision (maintenance_view E m s1) (tv_objects tv)" and n: "n \<in> gc_live E m tv s1"
      and p: "p = current_remote_physical_path_for_object (mr_pack_locations m) (rnode_id n)" for n p
  proof -
    have i: "rnode_id n \<in> set (tv_reached tv)" using live_marked [OF mark] free n by simp
    have loose: "load_remote_loose_object_ids (memory_remote rj lj) s1 = Inr (mr_loose_object_ids m)"
      using gc_mark_goes [OF mark] E by simp
    have "j \<in> set (mr_loose_object_ids m)" if "mem_view s (relative_object_path j) \<noteq> None" "validate_object_id_value j = Inr ()" for j
    proof (rule memory_stat.loose_listed [OF _ loose _ that(2)])
      show "mem_ok s1" using s1(2) by (simp add: memory_stat.undisturbed_def)
      show "mem_view s1 (relative_object_path j) \<noteq> None"
        using u(1) that(1) by (auto simp: memory_stat.undisturbed_def split: if_splits)
    qed
    from memory_stat.marked_not_unreachable [OF un [unfolded E] i _ this] have keep: "p \<notin> set deleted"
      using u(1) us del(2) p by (auto simp: memory_stat.undisturbed_def)
    have probe: "p \<noteq> gc_time_probe" using object_path_not_probe p by simp
    have "mem_view (gs_remote st') p = mem_view (gs_remote st) p"
      using keep probe del(3) u2 u(2) s1(2) by (auto simp: memory_stat.undisturbed_def)
    then have "get_physical p (gs_remote st') = get_physical p (gs_remote st)"
      using del(1) ok mem_view_get by blast
    with keep show ?thesis by blast
  qed
  with s1(1) mark show ?thesis by (intro exI [of _ s1] exI [of _ m] exI [of _ tv] exI [of _ st2]) (simp add: Let_def)
qed

text \<open>The sample run keeps the file of the sample history and deletes the object beside it.\<close>

theorem gc_keeps_live_objects_witness:
  "gc_execute (gc_sample (table_codec [])) 1 False gc_start = Some (Inr [stale_path], gc_end) \<and>
   relative_object_path id_file \<noteq> stale_path \<and>
   get_physical (relative_object_path id_file) (gs_remote gc_end) = get_physical (relative_object_path id_file) gc_mem"
proof -
  let ?E = "gc_sample (table_codec [])"
  have start: "ge_remote ?E = gc_backend" "gs_remote gc_start = gc_mem" "gc_start\<lparr> gs_remote := gc_mem \<rparr> = gc_start"
      "map_of (gs_files gc_start) gc_delete_journal_path = None"
    by (simp_all add: gc_start_def gc_local_def gc_delete_journal_path_def default_ref_file_def)
  have ok: "mem_ok (gs_remote gc_start)" using gc_mem_ok start(2) by simp
  obtain s m tv st1 where s: "s = snd (capture_gc_fence_state (ge_remote ?E) (gs_remote gc_start))"
    and mark: "gc_mark ?E (gc_start\<lparr> gs_remote := s \<rparr>) = Some (Inr (m, tv), st1)"
    and keep: "\<not> chunk_collision (maintenance_view ?E m s) (tv_objects tv) \<longrightarrow>
      (\<forall>n \<in> gc_live ?E m tv s. let p = current_remote_physical_path_for_object (mr_pack_locations m) (rnode_id n)
         in p \<notin> set [stale_path] \<and> get_physical p (gs_remote gc_end) = get_physical p (gs_remote gc_start))"
    using gc_keeps_live_objects [OF start(1) ok start(4) gc_run] by blast
  have "s = gc_mem" using s unfolding start gc_capture by simp
  note here = this start(2,3)
  have same: "m = gc_maintenance" "tv = gc_traversed" using mark gc_marked unfolding here by simp_all
  have "\<not> chunk_collision (maintenance_view ?E m gc_mem) (tv_objects tv)"
    using sample_no_collision by (simp add: same gc_maintenance_view gc_traversed_def)
  moreover have "R_File id_file \<in> gc_live ?E m tv gc_mem" unfolding same by (rule gc_sample_live)
  ultimately have "let p = current_remote_physical_path_for_object (mr_pack_locations m) id_file
      in p \<notin> set [stale_path] \<and> get_physical p (gs_remote gc_end) = get_physical p gc_mem"
    using keep unfolding here by fastforce
  then show ?thesis using gc_run by (simp add: same gc_maintenance_def current_remote_physical_path_for_object_def Let_def)
qed

text \<open>C33: Only old files are deleted. Every deleted path was stored with a modification time that is at least
  the grace period, in seconds that saturate, before that of another stored path; apart from the
  deleted paths and the time probe the backend holds what it held. This also holds for
  a run that resumes from a journal.\<close>

theorem gc_deletes_only_old:
  assumes E: "ge_remote E = memory_remote rj lj" and ok: "mem_ok (gs_remote st)"
    and run: "gc_execute E grace allow st = Some (Inr deleted, st')"
  shows "(\<forall>d \<in> set deleted. \<exists>b t. mem_view (gs_remote st) d = Some (b, t) \<and>
      (\<exists>p b' t'. mem_view (gs_remote st) p = Some (b', t') \<and> t + unat (days_as_seconds grace) * 1000 \<le> t')) \<and>
    (\<forall>p. p \<noteq> gc_time_probe \<longrightarrow> mem_view (gs_remote st') p = (if p \<in> set deleted then None else mem_view (gs_remote st) p))"
proof -
  obtain fence paths st1 s2 h where
    c: "gc_candidates E grace st = Some (Inr (fence, paths), st1)" and u2: "memory_stat.undisturbed (gs_remote st1) s2"
    and h: "observed_remote_safe_horizon (memory_remote rj lj) grace paths s2 = Inr h"
    and del: "\<forall>d \<in> set deleted. \<exists>b t. mem_view s2 d = Some (b, t) \<and> int t \<le> h"
      "mem_view (gs_remote st') = (\<lambda>p. if p \<in> set deleted then None else mem_view s2 p)"
    by (rule memory_stat.gc_execute_run [OF E ok run]) (rule that)
  have u: "memory_stat.undisturbed (gs_remote st) s2"
    using memory_stat.undisturbed_trans [OF memory_stat.candidates_ok [OF E ok c] u2] .
  have same: "mem_view (gs_remote st) p = Some x" if "mem_view s2 p = Some x" for p x
    using u that by (auto simp: memory_stat.undisturbed_def split: if_splits)
  have "mem_ok s2" using u by (simp add: memory_stat.undisturbed_def)
  from memory_stat.horizon_stored [OF this h] obtain p b' t' where
    t': "mem_view s2 p = Some (b', t')" "h = int t' - int (unat (days_as_seconds grace)) * 1000"
    by (auto simp: memory_stat.stored_time_def)
  have "\<exists>b t. mem_view (gs_remote st) d = Some (b, t) \<and>
      (\<exists>p b' t'. mem_view (gs_remote st) p = Some (b', t') \<and> t + unat (days_as_seconds grace) * 1000 \<le> t')"
    if "d \<in> set deleted" for d
  proof -
    from del(1) that obtain b t where t: "mem_view s2 d = Some (b, t)" "int t \<le> h" by blast
    have "t + unat (days_as_seconds grace) * 1000 \<le> t'" using t(2) t'(2) by linarith
    with same [OF t(1)] same [OF t'(1)] show ?thesis by blast
  qed
  moreover have "\<forall>p. p \<noteq> gc_time_probe \<longrightarrow> mem_view (gs_remote st') p =
      (if p \<in> set deleted then None else mem_view (gs_remote st) p)"
    using u del(2) by (auto simp: memory_stat.undisturbed_def)
  ultimately show ?thesis by blast
qed

theorem gc_deletes_only_old_witness:
  "gc_execute (gc_sample (table_codec [])) 1 False gc_start = Some (Inr [stale_path], gc_end) \<and>
   mem_view gc_mem stale_path \<noteq> None \<and> mem_view (gs_remote gc_end) stale_path = None \<and>
   mem_view (gs_remote gc_end) ''layout_root.json'' = mem_view gc_mem ''layout_root.json''"
proof -
  have start: "ge_remote (gc_sample (table_codec [])) = gc_backend" "gs_remote gc_start = gc_mem" by (simp_all add: gc_start_def)
  have paths: "stale_path \<noteq> gc_time_probe" "''layout_root.json'' \<noteq> gc_time_probe" "''layout_root.json'' \<noteq> stale_path"
    by (simp_all add: stale_path_def relative_object_path_def gc_time_probe_def)
  from gc_deletes_only_old [OF start(1) _ gc_run, unfolded start, OF gc_mem_ok] gc_run paths show ?thesis by auto
qed

section \<open>A journal that is out of date\<close>

text \<open>C34: A journal that is out of date blocks every later collection. When a branch moved after the fence of the journal
  was taken, the collection fails with the local files as they were, the journal among them, and so
  it does after any further pushes, with every grace period.\<close>

theorem stale_gc_journal_blocks:
  assumes E: "ge_remote E = memory_remote json lj" and ok: "mem_ok s" and json: "serde_ok json"
    and journal: "map_of fs gc_delete_journal_path = Some bytes" "from_slice (ge_journal E) bytes = Some j"
    and fence: "(t, v, x) \<in> set (gf_refs (gd_fence_state j))"
    and moved: "read_ref json t s = Inr cur" "unat v < version_number cur"
    and run: "run_cas (memory_remote json lj) reqs s = (rs, s')" "version_number cur + length reqs < 2 ^ 64"
  shows "\<exists>e s''. gc_execute E grace allow \<lparr> gs_remote = s', gs_files = fs \<rparr> = Some (Inl e, \<lparr> gs_remote = s'', gs_files = fs \<rparr>)"
proof -
  have "mem_refs_ok json s" using ok json by (simp add: mem_refs_ok_def)
  moreover have "r_read_ref (memory_remote json lj) t s = Inr cur"
    using moved(1) by (simp add: memory_remote_def)
  ultimately have after: "length rs = length reqs \<and> mem_refs_ok json s' \<and>
      r_read_ref (memory_remote json lj) t s' = Inr (apply_all cur (applied_on t reqs rs))"
    using memory_refs.run_cas_chain [of json s lj t cur reqs rs s'] run(1) by blast
  have "length (applied_on t reqs rs) \<le> length reqs"
    by (metis (no_types, lifting) applied_on_def length_filter_le length_map length_zip min.bounded_iff)
  with run(2) have "version_number (apply_all cur (applied_on t reqs rs)) = version_number cur + length (applied_on t reqs rs)"
    by (intro version_number_apply_all) simp
  with moved(2) after have later: "read_ref json t s' \<noteq> Inr (Some \<lparr> ref_version = v, ref_value = x \<rparr>)"
    by (auto simp: memory_remote_def version_number_def split: option.splits)
  have ok': "mem_ok s'" using after by (simp add: mem_refs_ok_def)
  obtain r s'' where capture: "capture_gc_fence_state (memory_remote json lj) s' = (r, s'')" by (cases "capture_gc_fence_state (memory_remote json lj) s'")
  have differs: "r = Inr fence \<Longrightarrow> gd_fence_state j \<noteq> fence" for fence
    using fence_refs_current [of json lj s' fence s'' t v x] capture ok' later fence by auto
  show ?thesis
    using journal capture differs
    by (cases r; cases "0 < grace"; cases "ensure_gc_execute_capability (ge_capability E)"; cases "gd_grace_period_days j = grace")
      (auto simp: gc_execute_def gc_candidates_def obind_def total_run_def gc_on_files_def gc_on_remote_def
        load_gc_delete_journal_def slift_def sret_def sfail_def E)
qed

text \<open>The journal of a run that saw the branch of the sample before its first version, and one more push.\<close>

definition stale_journal :: gc_delete_journal where
  "stale_journal = \<lparr> gd_grace_period_days = 1, gd_fence_state = gc_fence\<lparr> gf_refs := [(''aa'', 0, [])] \<rparr>, gd_pending_paths = [] \<rparr>"

theorem stale_gc_journal_blocks_witness:
  "\<exists>rs s' e s''. run_cas gc_backend [(''aa'', Some 1, [7])] gc_mem = (rs, s') \<and>
     gc_execute (gc_sample (const_codec stale_journal)) 1 False \<lparr> gs_remote = s', gs_files = [(gc_delete_journal_path, [])] \<rparr> =
       Some (Inl e, \<lparr> gs_remote = s'', gs_files = [(gc_delete_journal_path, [])] \<rparr>)"
proof -
  let ?E = "gc_sample (const_codec stale_journal)"
  obtain rs s' where run: "run_cas gc_backend [(''aa'', Some 1, [7])] gc_mem = (rs, s')" by fastforce
  have remote: "ge_remote ?E = gc_backend" by simp
  have journal: "map_of [(gc_delete_journal_path, [])] gc_delete_journal_path = Some []"
    "from_slice (ge_journal ?E) [] = Some stale_journal" by (simp_all add: const_codec_def)
  have fence: "(''aa'', 0, []) \<in> set (gf_refs (gd_fence_state stale_journal))" by (simp add: stale_journal_def)
  have cur: "read_ref unary_codec ''aa'' gc_mem = Inr (Some sample_branch)"
    using gc_read_refs(1) by (simp add: memory_remote_def)
  have "unat (0 :: u64) < version_number (Some sample_branch)"
    "version_number (Some sample_branch) + length [(''aa'', Some 1 :: u64 option, [7] :: byte list)] < 2 ^ 64"
    by (simp_all add: version_number_def sample_branch_def)
  from stale_gc_journal_blocks [OF remote gc_mem_ok serde_ok_unary journal fence cur this(1) run this(2), of 1 False] run
  show ?thesis by blast
qed

section \<open>Packs that the index still lists\<close>

text \<open>C35: Collecting an idle pack makes the remote unreadable. When no object of a pack that the active index lists is
  marked, the data file of the pack is a candidate while its index segment and the index root are
  not, and once the data file is among the deleted ones no client can read the pack index, whatever it
  has cached.\<close>

theorem gc_breaks_active_index:
  assumes ok: "mem_ok s" "mem_ok s'" and R: "R = memory_remote rj lj" and root: "r_get R pack_index_root_path s = Inr rb"
      "decode_pack_index_root_bytes X (Some secrets) rb = Inr r" "validate_pack_index_root r = Inr ()"
    and names: "distinct (map index_cache_path (pr_segments r))"
    and l: "fresh_locations X R (Some secrets) (pr_segments r) [] s = Inr locs"
    and un: "collect_unreachable_physical_refs_with_spill R loose locs reached (pr_segments r) s = Inr us"
    and p: "p \<in> set (pr_segments r)" "starts_with p remote_pack_index_prefix" "segment_index X R secrets p s = Inr index"
    and idle: "\<forall>(i, l) \<in> set locs. \<forall>c. location_physical_ref l = Inr c \<and> container_id c = pi_data_path index \<longrightarrow> i \<notin> set reached"
    and swept: "set deleted \<subseteq> set us" "pi_data_path index \<in> set deleted"
      "mem_view s' = (\<lambda>q. if q \<in> set deleted then None else mem_view s q)"
  shows "pi_data_path index \<in> set us \<and> p \<notin> set us \<and> pack_index_root_path \<notin> set us \<and>
    (\<forall>fs. cache_agrees R s' (pr_segments r) fs \<longrightarrow>
      (\<exists>e. fst (load_remote_pack_locations_with_local_cache X R s' (Some secrets) fs) = Inl e))"
  using memory_stat.idle_pack_unreachable [OF ok(1) l [unfolded R] un [unfolded R] p(1,2) p(3) [unfolded R] idle] p(1)
    memory_stat.collection_breaks_index [OF ok root(1) [unfolded R] root(2,3) names l [unfolded R] un [unfolded R] p(1,2)
      p(3) [unfolded R] idle swept] unfolding R by blast

text \<open>A remote with one pack, none of whose objects is marked.\<close>

definition idle_segment :: string where "idle_segment = ''packs/index/a.json''"

definition idle_index :: object_pack_index where
  "idle_index = \<lparr> pi_schema_version = pack_schema_version, pi_pack_id = ''p'', pi_data_path = ''packs/data/p.bin'',
     pi_entries = [\<lparr> pe_object_id = ''aa'', pe_offset = 0, pe_length = 4 \<rparr>] \<rparr>"

definition idle_root :: pack_index_root where
  "idle_root = \<lparr> pr_schema_version = pack_index_root_schema_version, pr_layout_id = ''l'', pr_layout_generation = 7,
     pr_generation = 7, pr_segments = [idle_segment] \<rparr>"

definition idle_state :: "byte list \<Rightarrow> byte list \<Rightarrow> mem" where
  "idle_state rb c = (mem_new 0)\<lparr> physical := [(pack_index_root_path, rb), (''packs/data/p.bin'', [1, 2, 3, 4]), (idle_segment, c)],
     physical_modified_at := [(pack_index_root_path, 0), (''packs/data/p.bin'', 0), (idle_segment, 0)] \<rparr>"

theorem gc_breaks_active_index_witness:
  "\<exists>rb c locs. let s = idle_state rb c; s' = snd (delete_physical ''packs/data/p.bin'' s) in
     fst (load_remote_pack_locations_with_local_cache sample_pack_index_env gc_backend s (Some sample_secrets) []) = Inr locs \<and>
     collect_unreachable_physical_refs_with_spill gc_backend [] locs [] [idle_segment] s = Inr [''packs/data/p.bin''] \<and>
     (\<exists>e. fst (load_remote_pack_locations_with_local_cache sample_pack_index_env gc_backend s' (Some sample_secrets) []) = Inl e)"
proof -
  let ?X = sample_pack_index_env and ?R = gc_backend and ?d = "''packs/data/p.bin''"
  have X: "crypto_ok (px_crypto ?X)" "serde_ok (px_postcard ?X)" "serde_ok (px_index ?X)" "serde_ok (px_root ?X)"
    by (simp_all add: sample_pack_index_env_def plain_crypto_ok)
  have seal: "\<exists>b. encrypt_control_record (px_crypto ?X) (px_postcard ?X) sample_secrets n t p = Inr b" for n t p
    using sample_encrypt by (simp add: sample_pack_index_env_def)
  obtain rb where "encode_pack_index_root_bytes ?X sample_secrets idle_root = Inr rb"
    using seal unfolding encode_pack_index_root_bytes_def by blast
  then have decode: "decode_pack_index_root_bytes ?X (Some sample_secrets) rb = Inr idle_root"
    using X by (auto simp: encode_pack_index_root_bytes_def decode_pack_index_root_bytes_def ok_or_def with_context_def
        serde_ok_def decrypt_encrypted)
  obtain c where "encode_index_segment ?X sample_secrets idle_segment (to_vec (px_index ?X) idle_index) = Inr c"
    using seal unfolding encode_index_segment_def by blast
  then have plain: "decode_index_segment ?X (Some sample_secrets) idle_segment c = Inr (to_vec (px_index ?X) idle_index)"
    using X by (simp add: encode_index_segment_def decode_index_segment_def ok_or_def with_context_def decrypt_encrypted)
  let ?s = "idle_state rb c" and ?segs = "pr_segments idle_root"
  let ?s' = "snd (delete_physical ?d ?s)"
  have root: "r_get ?R pack_index_root_path ?s = Inr rb" "validate_pack_index_root idle_root = Inr ()"
    and seg: "r_get ?R idle_segment ?s = Inr c" and prefix: "starts_with idle_segment remote_pack_index_prefix"
      "validate_segment_path idle_segment = Inr ()" and stat: "\<exists>t. r_stat ?R ?d ?s = Inr \<lparr> stat_length = 4, stat_modified_at = t \<rparr>"
    by (simp_all add: memory_remote_def get_physical_def stat_physical_def idle_state_def pack_index_root_path_def idle_segment_def) code_simp+
  have ok: "mem_ok ?s" by (simp add: mem_ok_def idle_state_def mem_new_def bt_ok_def pack_index_root_path_def idle_segment_def insert_commute)
  then have ok': "mem_ok ?s'" using delete_physical_step [OF ok, of ?d] by auto
  have gone: "mem_view ?s' = (\<lambda>q. if q \<in> set [?d] then None else mem_view ?s q)"
    using delete_physical_step [OF ok, of ?d] by auto
  let ?locs = "[(''aa'', sample_loc)]"
  have "append_pack_index_locations ?R idle_index [] ?s = Inr ?locs"
  proof -
    have "validate_pack_relative_path ''p.bin'' = Inr ()" "starts_with ?d remote_pack_data_prefix"
      "strip_prefix remote_pack_data_prefix ?d = Some ''p.bin''" by code_simp+
    moreover have "append_entries ?d 4 0 (pi_entries idle_index) [] = Inr ?locs"
    proof -
      have "list_all ascii_hexdigit ''aa''" by code_simp
      then show ?thesis by (simp add: idle_index_def checked_add_def sample_loc_def)
    qed
    moreover have "pi_schema_version idle_index = pack_schema_version" "pi_data_path idle_index = ?d" by (simp_all add: idle_index_def)
    moreover from stat obtain t where "r_stat ?R ?d ?s = Inr \<lparr> stat_length = 4, stat_modified_at = t \<rparr>" by blast
    ultimately show ?thesis by (simp add: append_pack_index_locations_def)
  qed
  then have "append_segment_locations ?X ?R (Some sample_secrets) idle_segment c [] ?s = Inr ?locs"
    using X(3) by (simp add: append_segment_locations_def prefix plain append_pack_index_locations_from_bytes_def with_context_def serde_okD)
  then have locs: "fresh_locations ?X ?R (Some sample_secrets) ?segs [] ?s = Inr ?locs"
    by (simp add: idle_root_def prefix seg)
  have index: "segment_index ?X ?R sample_secrets idle_segment ?s = Inr idle_index"
    using X(3) by (simp add: segment_index_def seg plain serde_okD)
  have un: "collect_unreachable_physical_refs_with_spill ?R [] ?locs [] ?segs ?s = Inr [?d]"
    by (simp add: collect_unreachable_physical_refs_with_spill_def memory_remote_def list_physical_def idle_state_def idle_root_def
        idle_segment_def pack_index_root_path_def starts_with_iff Let_def)
  have member: "idle_segment \<in> set ?segs" "distinct (map index_cache_path ?segs)" by (simp_all add: idle_root_def)
  have data: "pi_data_path idle_index = ?d" by (simp add: idle_index_def)
  have "fst (load_remote_pack_locations_with_local_cache ?X ?R ?s (Some sample_secrets) []) = Inr ?locs"
    by (rule memory_stat.load_published [OF root(1) decode root(2) cache_agrees_empty member(2) locs])
  moreover have "\<exists>e. fst (load_remote_pack_locations_with_local_cache ?X ?R ?s' (Some sample_secrets) []) = Inl e"
    using gc_breaks_active_index [OF ok ok' refl root(1) decode root(2) member(2) locs un member(1) prefix(1) index _ _ _ gone] data
    by simp
  ultimately show ?thesis using un by (auto simp: Let_def idle_root_def)
qed

end
