(* ===== verification/Keyring.thy ===== *)
theory Keyring
  imports Control_Plane
begin

text \<open>
  The keyring of a repository (\<^verbatim>\<open>e2v-core/src/keyring.rs\<close>, and the writing of its generations in
  \<^verbatim>\<open>facade.rs\<close>). A keyring seals the secrets of the repository in envelopes, one for the password and one
  for each device. Argon2, X25519 and the unkeyed hash are parameters. A client has the files below the
  control directory, the two caches of the process, the random bytes that it will be given, and the
  number of writes after which its disk fails: a crash, or a full disk.
\<close>

section \<open>Records\<close>

record keyring_envelope =
  ev_kind :: string
  ev_envelope_id :: string
  ev_actor_id :: string
  ev_device_id :: string
  ev_recipient_pubkey_hex :: string
  ev_record_hex :: string
  ev_password_hint :: string
  ev_salt_hex :: string
  ev_nonce_hex :: string
  ev_ciphertext_hex :: string
  ev_auth_tag_hex :: string

record actor_record =
  ac_actor_id :: string
  ac_display_name :: string
  ac_role :: string

record device_record =
  dv_device_id :: string
  dv_actor_id :: string
  dv_label :: string
  dv_pubkey_hex :: string
  dv_status :: string

record epoch_descriptor =
  ep_epoch :: u32
  ep_status :: string

record keyring_state =
  kg_format_version :: u32
  kg_generation :: u64
  kg_repo_id :: string
  kg_active_epoch :: u32
  kg_crypto_suite :: string
  kg_kdf :: string
  kg_actors :: "actor_record list"
  kg_devices :: "device_record list"
  kg_epochs :: "epoch_descriptor list"
  kg_envelopes :: "keyring_envelope list"

record sealed_repo_secrets =
  sl_repo_dedup_key_hex :: string
  sl_repo_ref_key_hex :: string
  sl_repo_manifest_enc_key_hex :: string
  sl_repo_nonce_key_hex :: string
  sl_repo_path_index_key_hex :: string
  sl_epoch_manifest_enc_keys_hex :: "(u32, string) btree"
  sl_epoch_nonce_keys_hex :: "(u32, string) btree"

record password_envelope_record =
  pr_magic :: "byte list"
  pr_format_version :: u32
  pr_object_type :: string
  pr_crypto_suite :: string
  pr_nonce :: "byte list"
  pr_ciphertext :: "byte list"
  pr_auth_tag :: "byte list"

record device_envelope_record =
  de_magic :: "byte list"
  de_format_version :: u32
  de_object_type :: string
  de_crypto_suite :: string
  de_ephemeral_public_key :: "byte list"
  de_nonce :: "byte list"
  de_ciphertext :: "byte list"
  de_auth_tag :: "byte list"

record local_device_credential =
  cd_actor_id :: string
  cd_device_id :: string
  cd_label :: string
  cd_public_key_hex :: string
  cd_private_key_hex :: string

record local_bootstrap_credential =
  lb_credential :: local_device_credential
  lb_keyring_pointer :: keyring_pointer
  lb_keyring_state :: keyring_state

text \<open>\<^verbatim>\<open>serde_json::Value\<close>; a number that is not an integer is kept as its text.\<close>

datatype json = J_Null | J_Bool bool | J_Integer int | J_Float string | J_Text string
  | J_Array "json list" | J_Object "(string \<times> json) list"

definition json_at :: "string \<Rightarrow> json \<Rightarrow> json" where
  "json_at key v = (case v of J_Object members \<Rightarrow> (case map_of members key of Some x \<Rightarrow> x | None \<Rightarrow> J_Null) | _ \<Rightarrow> J_Null)"

definition json_as_str :: "json \<Rightarrow> string option" where
  "json_as_str v = (case v of J_Text s \<Rightarrow> Some s | _ \<Rightarrow> None)"

definition json_as_u64 :: "json \<Rightarrow> u64 option" where
  "json_as_u64 v = (case v of J_Integer n \<Rightarrow> if 0 \<le> n \<and> n < 2 ^ 64 then Some (of_int n) else None | _ \<Rightarrow> None)"

text \<open>Cryptography and codecs: \<^verbatim>\<open>serde_json\<close> for the files, \<^verbatim>\<open>postcard\<close> inside the envelopes.\<close>

record keyring_env =
  ke_crypto :: crypto
  ke_argon2 :: "byte list \<Rightarrow> byte list \<Rightarrow> byte list option"
  ke_public_key :: "byte list \<Rightarrow> byte list"
  ke_diffie_hellman :: "byte list \<Rightarrow> byte list \<Rightarrow> byte list"
  ke_hash :: "byte list \<Rightarrow> byte list"
  ke_sealed :: "sealed_repo_secrets serde"
  ke_password_record :: "password_envelope_record serde"
  ke_device_record :: "device_envelope_record serde"
  ke_pointer :: "keyring_pointer serde"
  ke_state :: "keyring_state serde"
  ke_credential :: "local_device_credential serde"
  ke_bootstrap :: "local_bootstrap_credential serde"
  ke_json :: "json serde"

text \<open>
  Documented behaviour: a shared secret does not depend on which side computes it, and keys and hashes
  have 32 bytes; the codecs decode what they encoded, and no record is encoded by nothing.
\<close>

definition keyring_env_ok :: "keyring_env \<Rightarrow> bool" where
  "keyring_env_ok E \<longleftrightarrow> crypto_ok (ke_crypto E) \<and>
     (\<forall>a b. ke_diffie_hellman E a (ke_public_key E b) = ke_diffie_hellman E b (ke_public_key E a)) \<and>
     (\<forall>a. length (ke_public_key E a) = 32) \<and> (\<forall>m. length (ke_hash E m) = 32) \<and>
     serde_ok (ke_sealed E) \<and> serde_ok (ke_password_record E) \<and> serde_ok (ke_device_record E) \<and> (\<forall>r. to_vec (ke_device_record E) r \<noteq> []) \<and>
     serde_ok (ke_pointer E) \<and> serde_ok (ke_state E) \<and> serde_ok (ke_credential E) \<and>
     serde_ok (ke_bootstrap E) \<and> serde_ok (ke_json E)"

definition keyring_dir :: string where "keyring_dir = ''keyring''"
definition keyring_current_file :: string where "keyring_current_file = ''keyring/keyring.current''"
definition keyring_lock_file :: string where "keyring_lock_file = ''keyring/keyring.lock''"
definition keyring_journal_file :: string where "keyring_journal_file = ''journal/keyring-update.json''"
definition local_device_file :: string where "local_device_file = ''device/local-device.json''"
definition local_bootstrap_file :: string where "local_bootstrap_file = ''device/local-bootstrap.json''"
definition keyring_password_magic :: "byte list" where "keyring_password_magic = as_bytes ''E2KP''"
definition keyring_password_format_version :: u32 where "keyring_password_format_version = 1"
definition keyring_password_object_type :: string where "keyring_password_object_type = ''keyring-password-envelope''"
definition keyring_device_magic :: "byte list" where "keyring_device_magic = as_bytes ''E2KD''"
definition keyring_device_format_version :: u32 where "keyring_device_format_version = 1"
definition keyring_device_object_type :: string where "keyring_device_object_type = ''keyring-device-envelope''"

definition keyring_path :: "string \<Rightarrow> string" where
  "keyring_path name = keyring_dir @ ''/'' @ name"

section \<open>The client\<close>

record cached_unlocked_keyring =
  un_secrets :: repo_secrets
  un_pointer_bytes :: "byte list"
  un_keyring_bytes :: "byte list"

record client =
  cl_files :: files
  cl_unlocked :: "cached_unlocked_keyring option"
  cl_password :: "string option"
  cl_draws :: "byte list list"
  cl_writes_left :: "nat option"

definition disk_works :: "client \<Rightarrow> bool" where
  "disk_works st \<longleftrightarrow> cl_writes_left st \<noteq> Some 0"

definition on_disk :: "(files \<Rightarrow> files) \<Rightarrow> (client, unit) prog" where
  "on_disk f st =
     (if disk_works st
      then (Inr (), st\<lparr> cl_files := f (cl_files st), cl_writes_left := map_option (\<lambda>n. n - 1) (cl_writes_left st) \<rparr>)
      else (Inl (Bail ''input/output error''), st))"

definition disk_write :: "string \<Rightarrow> byte list \<Rightarrow> (client, unit) prog" where
  "disk_write path bytes = on_disk (bt_insert path bytes)"

definition disk_remove :: "string \<Rightarrow> (client, unit) prog" where
  "disk_remove path st =
     (if map_of (cl_files st) path = None then (Inl (Io_not_found path), st) else on_disk (bt_remove path) st)"

definition disk_rename :: "string \<Rightarrow> string \<Rightarrow> (client, unit) prog" where
  "disk_rename from to st =
     (case map_of (cl_files st) from of
        None \<Rightarrow> (Inl (Io_not_found from), st)
      | Some bytes \<Rightarrow> on_disk (\<lambda>fs. bt_insert to bytes (bt_remove from fs)) st)"

text \<open>\<^verbatim>\<open>getrandom::fill\<close>: a draw that does not have the length is a failure of the source.\<close>

definition random_bytes :: "nat \<Rightarrow> string \<Rightarrow> (client, byte list) prog" where
  "random_bytes n what st =
     (case cl_draws st of
        [] \<Rightarrow> (Inl (Bail what), st)
      | d # ds \<Rightarrow> if length d = n then (Inr d, st\<lparr> cl_draws := ds \<rparr>) else (Inl (Bail what), st\<lparr> cl_draws := ds \<rparr>))"

definition on_client_files :: "(files \<Rightarrow> 'a res) \<Rightarrow> (client, 'a) prog" where
  "on_client_files f st = (f (cl_files st), st)"

text \<open>\<^verbatim>\<open>path.with_extension(..)\<close> on a path whose directories are named without dots.\<close>

definition temporary_path :: "string \<Rightarrow> string" where
  "temporary_path path =
     (let (dir, name) = (case rsplit_once slash path of None \<Rightarrow> ([], path) | Some (d, n) \<Rightarrow> (d @ ''/'', n))
      in dir @ with_extension name ((case file_extension name of Some e \<Rightarrow> e | None \<Rightarrow> ''tmp'') @ ''.tmp''))"

text \<open>The writer of \<^verbatim>\<open>facade.rs\<close> reads the temporary file back, that of \<^verbatim>\<open>keyring.rs\<close> does not.\<close>

definition atomic_write_bytes :: "string \<Rightarrow> byte list \<Rightarrow> (client, unit) prog" where
  "atomic_write_bytes path bytes =
     sbind (disk_write (temporary_path path) bytes) (\<lambda>_.
     sbind (on_client_files (fs_read (temporary_path path))) (\<lambda>read_back.
     sensure (read_back = bytes) (Bail ''read-back validation failed'')
    (disk_rename (temporary_path path) path)))"

definition publish_bytes :: "string \<Rightarrow> byte list \<Rightarrow> (client, unit) prog" where
  "publish_bytes path bytes =
     sbind (disk_write (temporary_path path) bytes) (\<lambda>_. disk_rename (temporary_path path) path)"

definition read_json :: "'a serde \<Rightarrow> string \<Rightarrow> files \<Rightarrow> 'a res" where
  "read_json codec path fs =
     rbind (with_context ''failed to read'' (fs_read path fs)) (\<lambda>bytes. decoded ''failed to decode'' codec bytes)"

section \<open>Reading the keyring\<close>

definition decode_keyring_pointer :: "keyring_env \<Rightarrow> byte list \<Rightarrow> keyring_pointer res" where
  "decode_keyring_pointer E pointer_bytes =
     rbind (decoded ''failed to decode current keyring pointer'' (ke_pointer E) pointer_bytes) (\<lambda>p.
     rbind (case validate_keyring_file_name (kp_current p) of
              Inl e \<Rightarrow> Inl (Bail ''invalid current keyring path'') | Inr u \<Rightarrow> Inr u) (\<lambda>_. Inr p))"

definition read_current_keyring_pointer :: "keyring_env \<Rightarrow> files \<Rightarrow> keyring_pointer res" where
  "read_current_keyring_pointer E fs =
     rbind (with_context ''failed to read current keyring pointer'' (fs_read keyring_current_file fs)) (decode_keyring_pointer E)"

definition read_current_keyring_state_with_pointer :: "keyring_env \<Rightarrow> files \<Rightarrow> (keyring_pointer \<times> keyring_state) res" where
  "read_current_keyring_state_with_pointer E fs =
     rbind (read_current_keyring_pointer E fs) (\<lambda>p.
     rbind (read_json (ke_state E) (keyring_path (kp_current p)) fs) (\<lambda>keyring.
     ensure (kp_generation p = kg_generation keyring) (Bail ''keyring pointer generation mismatch'')
       (Inr (p, keyring))))"

definition read_current_keyring_state :: "keyring_env \<Rightarrow> files \<Rightarrow> keyring_state res" where
  "read_current_keyring_state E fs = rbind (read_current_keyring_state_with_pointer E fs) (\<lambda>(p, keyring). Inr keyring)"

definition current_keyring_cache_material :: "keyring_env \<Rightarrow> files \<Rightarrow> (byte list \<times> byte list) res" where
  "current_keyring_cache_material E fs =
     rbind (with_context ''failed to read current keyring pointer'' (fs_read keyring_current_file fs)) (\<lambda>pointer_bytes.
     rbind (decode_keyring_pointer E pointer_bytes) (\<lambda>p.
     rbind (with_context ''failed to read'' (fs_read (keyring_path (kp_current p)) fs)) (\<lambda>keyring_bytes.
     rbind (decoded ''failed to decode'' (ke_state E) keyring_bytes) (\<lambda>keyring.
     ensure (kp_generation p = kg_generation keyring) (Bail ''keyring pointer generation mismatch'')
       (Inr (pointer_bytes, keyring_bytes))))))"

section \<open>The caches of the process\<close>

definition cache_unlocked_secrets :: "keyring_env \<Rightarrow> repo_secrets \<Rightarrow> (client, unit) prog" where
  "cache_unlocked_secrets E secrets st =
     (Inr (), st\<lparr> cl_unlocked :=
        (case current_keyring_cache_material E (cl_files st) of
           Inr (pointer_bytes, keyring_bytes) \<Rightarrow>
             Some \<lparr> un_secrets = secrets, un_pointer_bytes = pointer_bytes, un_keyring_bytes = keyring_bytes \<rparr>
         | Inl e \<Rightarrow> None) \<rparr>)"

definition cache_unlocked_password :: "string \<Rightarrow> (client, unit) prog" where
  "cache_unlocked_password password st = (Inr (), st\<lparr> cl_password := Some password \<rparr>)"

definition clear_unlocked_keyring_cache :: "(client, unit) prog" where
  "clear_unlocked_keyring_cache st = (Inr (), st\<lparr> cl_unlocked := None, cl_password := None \<rparr>)"

abbreviation keyring_locked :: error where
  "keyring_locked \<equiv> Bail ''repository keyring is locked; unlock with a password first''"

definition open_repo_secrets :: "keyring_env \<Rightarrow> (client, repo_secrets) prog" where
  "open_repo_secrets E st =
     (case cl_unlocked st of
        None \<Rightarrow> (Inl keyring_locked, st)
      | Some cached \<Rightarrow>
          (case current_keyring_cache_material E (cl_files st) of
             Inr (pointer_bytes, keyring_bytes) \<Rightarrow>
               if pointer_bytes = un_pointer_bytes cached \<and> keyring_bytes = un_keyring_bytes cached
               then (Inr (un_secrets cached), st)
               else sbind clear_unlocked_keyring_cache (\<lambda>_. sfail keyring_locked) st
           | Inl e \<Rightarrow> sbind clear_unlocked_keyring_cache (\<lambda>_. sfail e) st))"

section \<open>Keys\<close>

definition hex_value :: "char \<Rightarrow> nat option" where
  "hex_value c =
     (let n = of_char c :: nat in
      if 48 \<le> n \<and> n \<le> 57 then Some (n - 48)
      else if 97 \<le> n \<and> n \<le> 102 then Some (n - 87)
      else if 65 \<le> n \<and> n \<le> 70 then Some (n - 55) else None)"

text \<open>\<^verbatim>\<open>hex::decode\<close>\<close>

fun hex_decode :: "string \<Rightarrow> byte list option" where
  "hex_decode [] = Some []"
| "hex_decode [c] = None"
| "hex_decode (c # d # cs) =
     (case (hex_value c, hex_value d, hex_decode cs) of
        (Some h, Some l, Some bytes) \<Rightarrow> Some (of_nat (16 * h + l) # bytes) | _ \<Rightarrow> None)"

definition decode_hex :: "string \<Rightarrow> string \<Rightarrow> byte list res" where
  "decode_hex what v = with_context what (ok_or (Bail ''invalid hex'') (hex_decode v))"

definition decode_hex_key :: "string \<Rightarrow> byte list res" where
  "decode_hex_key v =
     rbind (decode_hex ''invalid key hex'' v) (\<lambda>bytes. ensure (length bytes = 32) (Bail ''invalid key length'') (Inr bytes))"

definition decode_epoch_keys :: "sealed_repo_secrets \<Rightarrow> u32 \<Rightarrow> (u32, epoch_secrets) btree res" where
  "decode_epoch_keys sealed active =
     ensure (sl_epoch_manifest_enc_keys_hex sealed \<noteq> []) (Bail ''missing epoch manifest encryption keys'')
    (ensure (sl_epoch_nonce_keys_hex sealed \<noteq> []) (Bail ''missing epoch nonce keys'')
    (rbind (mapM (\<lambda>(epoch, manifest_enc_key_hex).
        rbind (ok_or (Bail ''missing nonce key for epoch'') (map_of (sl_epoch_nonce_keys_hex sealed) epoch)) (\<lambda>nonce_key_hex.
        rbind (decode_hex_key manifest_enc_key_hex) (\<lambda>m.
        rbind (decode_hex_key nonce_key_hex) (\<lambda>n.
        Inr (epoch, \<lparr> manifest_enc_key = m, nonce_key = n \<rparr>))))) (sl_epoch_manifest_enc_keys_hex sealed)) (\<lambda>keys.
     ensure (map_of keys active \<noteq> None) (Bail ''missing epoch keys for active epoch'') (Inr keys))))"

definition password_envelope_associated_data :: "string \<Rightarrow> u32 \<Rightarrow> byte list" where
  "password_envelope_associated_data repo_id active =
     keyring_password_magic @ u32_to_le keyring_password_format_version @ as_bytes repo_id @ u32_to_le active"

definition derive_password_salt :: "keyring_env \<Rightarrow> string \<Rightarrow> u32 \<Rightarrow> byte list" where
  "derive_password_salt E repo_id active =
     take 16 (ke_hash E (as_bytes repo_id @ u32_to_le active @ as_bytes ''keyring-password-salt''))"

definition derive_password_key :: "keyring_env \<Rightarrow> string \<Rightarrow> byte list \<Rightarrow> byte list res" where
  "derive_password_key E password salt =
     ok_or (Bail ''failed to derive keyring password key'') (ke_argon2 E (as_bytes password) salt)"

definition derive_device_key :: "keyring_env \<Rightarrow> byte list \<Rightarrow> string \<Rightarrow> u32 \<Rightarrow> string \<Rightarrow> string \<Rightarrow> byte list" where
  "derive_device_key E shared_secret repo_id active actor_id device_id =
     ke_hash E (shared_secret @ as_bytes repo_id @ u32_to_le active @ as_bytes actor_id @ as_bytes device_id @
       as_bytes ''keyring-device-envelope'')"

definition device_envelope_associated_data :: "string \<Rightarrow> u32 \<Rightarrow> string \<Rightarrow> string \<Rightarrow> byte list" where
  "device_envelope_associated_data repo_id active actor_id device_id =
     keyring_device_magic @ u32_to_le keyring_device_format_version @ as_bytes repo_id @ u32_to_le active @
     as_bytes actor_id @ as_bytes device_id"

section \<open>Sealing\<close>

definition sealed_secrets_of :: "repo_secrets \<Rightarrow> sealed_repo_secrets" where
  "sealed_secrets_of s =
     \<lparr> sl_repo_dedup_key_hex = hex_encode (repo_dedup_key s), sl_repo_ref_key_hex = hex_encode (repo_ref_key s),
       sl_repo_manifest_enc_key_hex = hex_encode (repo_manifest_enc_key s),
       sl_repo_nonce_key_hex = hex_encode (repo_nonce_key s),
       sl_repo_path_index_key_hex = hex_encode (repo_path_index_key s),
       sl_epoch_manifest_enc_keys_hex = map (\<lambda>(epoch, k). (epoch, hex_encode (manifest_enc_key k))) (epoch_keys_of s),
       sl_epoch_nonce_keys_hex = map (\<lambda>(epoch, k). (epoch, hex_encode (nonce_key k))) (epoch_keys_of s) \<rparr>"

definition seal_repo_secrets ::
  "keyring_env \<Rightarrow> string \<Rightarrow> u32 \<Rightarrow> string \<Rightarrow> repo_secrets \<Rightarrow> string \<Rightarrow> (client, keyring_envelope) prog" where
  "seal_repo_secrets E repo_id active password secrets hint =
     (let salt = derive_password_salt E repo_id active in
      sbind (slift (derive_password_key E password salt)) (\<lambda>key.
      sbind (random_bytes 24 ''failed to obtain keyring nonce'') (\<lambda>nonce.
      sbind (slift (ok_or (Bail ''failed to encrypt keyring envelope'')
          (aead_seal (ke_crypto E) key nonce (password_envelope_associated_data repo_id active)
             (to_vec (ke_sealed E) (sealed_secrets_of secrets))))) (\<lambda>(ciphertext, auth_tag).
      sret \<lparr> ev_kind = ''password'', ev_envelope_id = [], ev_actor_id = [], ev_device_id = [],
             ev_recipient_pubkey_hex = [], ev_record_hex = [], ev_password_hint = hint,
             ev_salt_hex = hex_encode salt, ev_nonce_hex = hex_encode nonce,
             ev_ciphertext_hex = hex_encode (to_vec (ke_password_record E)
               \<lparr> pr_magic = keyring_password_magic, pr_format_version = keyring_password_format_version,
                 pr_object_type = keyring_password_object_type, pr_crypto_suite = ''xchacha20poly1305'',
                 pr_nonce = nonce, pr_ciphertext = ciphertext, pr_auth_tag = auth_tag \<rparr>),
             ev_auth_tag_hex = hex_encode auth_tag \<rparr>))))"

definition seal_repo_secrets_for_device ::
  "keyring_env \<Rightarrow> string \<Rightarrow> u32 \<Rightarrow> string \<Rightarrow> repo_secrets \<Rightarrow> string \<Rightarrow> string \<Rightarrow> (client, keyring_envelope) prog" where
  "seal_repo_secrets_for_device E repo_id active recipient_public_key_hex secrets actor_id device_id =
     sbind (slift (decode_hex_key recipient_public_key_hex)) (\<lambda>recipient_public_key.
     sbind (random_bytes 32 ''failed to obtain device envelope key material'') (\<lambda>ephemeral_secret.
     let key = derive_device_key E (ke_diffie_hellman E ephemeral_secret recipient_public_key) repo_id active actor_id device_id in
     sbind (random_bytes 24 ''failed to obtain device envelope nonce'') (\<lambda>nonce.
     sbind (slift (ok_or (Bail ''failed to encrypt keyring device envelope'')
         (aead_seal (ke_crypto E) key nonce (device_envelope_associated_data repo_id active actor_id device_id)
            (to_vec (ke_sealed E) (sealed_secrets_of secrets))))) (\<lambda>(ciphertext, auth_tag).
     sret \<lparr> ev_kind = ''device'', ev_envelope_id = ''device:'' @ device_id, ev_actor_id = actor_id,
            ev_device_id = device_id, ev_recipient_pubkey_hex = recipient_public_key_hex,
            ev_record_hex = hex_encode (to_vec (ke_device_record E)
              \<lparr> de_magic = keyring_device_magic, de_format_version = keyring_device_format_version,
                de_object_type = keyring_device_object_type, de_crypto_suite = ''x25519-xchacha20poly1305'',
                de_ephemeral_public_key = ke_public_key E ephemeral_secret, de_nonce = nonce,
                de_ciphertext = ciphertext, de_auth_tag = auth_tag \<rparr>),
            ev_password_hint = [], ev_salt_hex = [], ev_nonce_hex = [], ev_ciphertext_hex = [],
            ev_auth_tag_hex = [] \<rparr>))))"

section \<open>Unlocking\<close>

definition decrypt_password_envelope ::
  "keyring_env \<Rightarrow> keyring_state \<Rightarrow> keyring_envelope \<Rightarrow> string \<Rightarrow> sealed_repo_secrets res" where
  "decrypt_password_envelope E keyring envelope password =
     rbind (decode_hex ''invalid keyring password envelope salt'' (ev_salt_hex envelope)) (\<lambda>salt.
     rbind (derive_password_key E password salt) (\<lambda>key.
     rbind (decode_hex ''invalid keyring password envelope ciphertext'' (ev_ciphertext_hex envelope)) (\<lambda>record_bytes.
     rbind (decoded ''failed to decode keyring password envelope'' (ke_password_record E) record_bytes) (\<lambda>r.
     ensure (pr_magic r = keyring_password_magic) (Bail ''keyring unlock failed'')
    (ensure (pr_format_version r = keyring_password_format_version) (Bail ''unsupported keyring password envelope version'')
    (ensure (pr_object_type r = keyring_password_object_type) (Bail ''keyring unlock failed'')
    (ensure (length (pr_nonce r) = 24) (Bail ''keyring unlock failed'')
    (ensure (length (pr_auth_tag r) = 16) (Bail ''keyring unlock failed'')
    (rbind (ok_or (Bail ''keyring unlock failed: wrong password'')
        (aead_open (ke_crypto E) key (pr_nonce r)
           (password_envelope_associated_data (kg_repo_id keyring) (kg_active_epoch keyring))
           (pr_ciphertext r) (pr_auth_tag r))) (\<lambda>plaintext.
     decoded ''failed to decode sealed repo secrets'' (ke_sealed E) plaintext))))))))))"

definition decrypt_device_envelope ::
  "keyring_env \<Rightarrow> keyring_state \<Rightarrow> keyring_envelope \<Rightarrow> local_device_credential \<Rightarrow> sealed_repo_secrets res" where
  "decrypt_device_envelope E keyring envelope credential =
     ensure (ev_record_hex envelope \<noteq> []) (Bail ''invalid keyring device envelope record'')
    (rbind (decode_hex ''invalid keyring device envelope record'' (ev_record_hex envelope)) (\<lambda>record_bytes.
     rbind (decoded ''failed to decode keyring device envelope'' (ke_device_record E) record_bytes) (\<lambda>r.
     ensure (de_magic r = keyring_device_magic) (Bail ''keyring device unlock failed'')
    (ensure (de_format_version r = keyring_device_format_version) (Bail ''unsupported keyring device envelope version'')
    (ensure (de_object_type r = keyring_device_object_type) (Bail ''keyring device unlock failed'')
    (ensure (de_crypto_suite r = ''x25519-xchacha20poly1305'') (Bail ''unsupported keyring device envelope crypto suite'')
    (ensure (length (de_nonce r) = 24) (Bail ''keyring device unlock failed'')
    (ensure (length (de_auth_tag r) = 16) (Bail ''keyring device unlock failed'')
    (rbind (decode_hex_key (cd_private_key_hex credential)) (\<lambda>private_key.
     let key = derive_device_key E (ke_diffie_hellman E private_key (de_ephemeral_public_key r)) (kg_repo_id keyring)
                 (kg_active_epoch keyring) (cd_actor_id credential) (cd_device_id credential) in
     rbind (ok_or (Bail ''keyring device unlock failed'')
        (aead_open (ke_crypto E) key (de_nonce r)
           (device_envelope_associated_data (kg_repo_id keyring) (kg_active_epoch keyring)
              (cd_actor_id credential) (cd_device_id credential))
           (de_ciphertext r) (de_auth_tag r))) (\<lambda>plaintext.
     decoded ''failed to decode sealed repo secrets'' (ke_sealed E) plaintext)))))))))))"

definition repo_secrets_of_sealed :: "keyring_state \<Rightarrow> sealed_repo_secrets \<Rightarrow> repo_secrets res" where
  "repo_secrets_of_sealed keyring sealed =
     rbind (decode_hex_key (sl_repo_dedup_key_hex sealed)) (\<lambda>dedup.
     rbind (decode_hex_key (sl_repo_ref_key_hex sealed)) (\<lambda>ref_key.
     rbind (decode_hex_key (sl_repo_manifest_enc_key_hex sealed)) (\<lambda>manifest.
     rbind (decode_hex_key (sl_repo_nonce_key_hex sealed)) (\<lambda>nonce.
     rbind (decode_hex_key (sl_repo_path_index_key_hex sealed)) (\<lambda>path_index.
     rbind (decode_epoch_keys sealed (kg_active_epoch keyring)) (\<lambda>keys.
     Inr \<lparr> secrets_repo_id = kg_repo_id keyring, active_epoch = kg_active_epoch keyring, repo_dedup_key = dedup,
           repo_ref_key = ref_key, repo_manifest_enc_key = manifest, repo_nonce_key = nonce,
           repo_path_index_key = path_index, epoch_keys_of = keys \<rparr>))))))"

definition unlock_repo_secrets_from_state :: "keyring_env \<Rightarrow> keyring_state \<Rightarrow> string \<Rightarrow> repo_secrets res" where
  "unlock_repo_secrets_from_state E keyring password =
     rbind (ok_or (Bail ''keyring has no password envelope'')
        (find (\<lambda>e. ev_kind e = ''password'') (kg_envelopes keyring))) (\<lambda>envelope.
     rbind (decrypt_password_envelope E keyring envelope password) (repo_secrets_of_sealed keyring))"

definition unlock_repo_secrets_from_state_with_local_device ::
  "keyring_env \<Rightarrow> keyring_state \<Rightarrow> local_device_credential \<Rightarrow> repo_secrets res" where
  "unlock_repo_secrets_from_state_with_local_device E keyring credential =
     rbind (ok_or (Bail ''keyring has no matching local device envelope'')
        (find (\<lambda>e. ev_kind e = ''device'' \<and> ev_device_id e \<noteq> [] \<and> ev_device_id e = cd_device_id credential)
           (kg_envelopes keyring))) (\<lambda>envelope.
     rbind (decrypt_device_envelope E keyring envelope credential) (repo_secrets_of_sealed keyring))"

definition unlock_repo_secrets_uncached :: "keyring_env \<Rightarrow> string \<Rightarrow> files \<Rightarrow> repo_secrets res" where
  "unlock_repo_secrets_uncached E password fs =
     rbind (read_current_keyring_state E fs) (\<lambda>keyring. unlock_repo_secrets_from_state E keyring password)"

definition unlock_repo_secrets :: "keyring_env \<Rightarrow> string \<Rightarrow> (client, repo_secrets) prog" where
  "unlock_repo_secrets E password =
     sbind (on_client_files (unlock_repo_secrets_uncached E password)) (\<lambda>secrets.
     sbind (cache_unlocked_secrets E secrets) (\<lambda>_.
     sbind (cache_unlocked_password password) (\<lambda>_. sret secrets)))"

definition unlock_repo_secrets_from_generation_file :: "keyring_env \<Rightarrow> string \<Rightarrow> string \<Rightarrow> files \<Rightarrow> repo_secrets res" where
  "unlock_repo_secrets_from_generation_file E keyring_file_name password fs =
     rbind (with_context ''invalid keyring file name'' (validate_keyring_file_name keyring_file_name)) (\<lambda>_.
     rbind (read_json (ke_state E) (keyring_path keyring_file_name) fs) (\<lambda>keyring.
     unlock_repo_secrets_from_state E keyring password))"

definition unlock_repo_secrets_from_keyring_bytes :: "keyring_env \<Rightarrow> byte list \<Rightarrow> string \<Rightarrow> repo_secrets res" where
  "unlock_repo_secrets_from_keyring_bytes E keyring_bytes password =
     rbind (decoded ''failed to decode keyring state'' (ke_state E) keyring_bytes) (\<lambda>keyring.
     unlock_repo_secrets_from_state E keyring password)"

definition read_local_device_credential :: "keyring_env \<Rightarrow> files \<Rightarrow> local_device_credential res" where
  "read_local_device_credential E = read_json (ke_credential E) local_device_file"

definition read_local_bootstrap_credential :: "keyring_env \<Rightarrow> files \<Rightarrow> local_bootstrap_credential res" where
  "read_local_bootstrap_credential E = read_json (ke_bootstrap E) local_bootstrap_file"

definition write_local_device_credential :: "keyring_env \<Rightarrow> local_device_credential \<Rightarrow> (client, unit) prog" where
  "write_local_device_credential E credential = publish_bytes local_device_file (to_vec (ke_credential E) credential)"

definition write_local_bootstrap_credential :: "keyring_env \<Rightarrow> local_bootstrap_credential \<Rightarrow> (client, unit) prog" where
  "write_local_bootstrap_credential E bootstrap = publish_bytes local_bootstrap_file (to_vec (ke_bootstrap E) bootstrap)"

definition generate_local_device_credential ::
  "keyring_env \<Rightarrow> string \<Rightarrow> string \<Rightarrow> string \<Rightarrow> (client, local_device_credential) prog" where
  "generate_local_device_credential E actor_id device_id label =
     sbind (random_bytes 32 ''failed to obtain local device key material'') (\<lambda>private_key.
     sret \<lparr> cd_actor_id = actor_id, cd_device_id = device_id, cd_label = label,
            cd_public_key_hex = hex_encode (ke_public_key E private_key), cd_private_key_hex = hex_encode private_key \<rparr>)"

definition unlock_repo_secrets_from_keyring_bytes_with_local_device ::
  "keyring_env \<Rightarrow> byte list \<Rightarrow> files \<Rightarrow> repo_secrets res" where
  "unlock_repo_secrets_from_keyring_bytes_with_local_device E keyring_bytes fs =
     rbind (decoded ''failed to decode keyring state'' (ke_state E) keyring_bytes) (\<lambda>keyring.
     rbind (read_local_device_credential E fs) (unlock_repo_secrets_from_state_with_local_device E keyring))"

definition unlock_repo_secrets_with_current_local_device :: "keyring_env \<Rightarrow> files \<Rightarrow> repo_secrets res" where
  "unlock_repo_secrets_with_current_local_device E fs =
     rbind (read_current_keyring_state E fs) (\<lambda>keyring.
     rbind (read_local_device_credential E fs) (unlock_repo_secrets_from_state_with_local_device E keyring))"

definition unlock_repo_secrets_with_local_device :: "keyring_env \<Rightarrow> (client, repo_secrets) prog" where
  "unlock_repo_secrets_with_local_device E =
     sbind (on_client_files (\<lambda>fs.
        case unlock_repo_secrets_with_current_local_device E fs of
          Inr secrets \<Rightarrow> Inr secrets
        | Inl primary_error \<Rightarrow>
            (case read_local_bootstrap_credential E fs of
               Inl e \<Rightarrow> Inl primary_error
             | Inr bootstrap \<Rightarrow>
                 unlock_repo_secrets_from_state_with_local_device E (lb_keyring_state bootstrap) (lb_credential bootstrap))))
       (\<lambda>secrets.
     sbind (cache_unlocked_secrets E secrets) (\<lambda>_. sret secrets))"

section \<open>Writing a generation\<close>

definition with_keyring_lock :: "(client, 'a) prog \<Rightarrow> (client, 'a) prog" where
  "with_keyring_lock f st =
     (if map_of (cl_files st) keyring_lock_file \<noteq> None then (Inl (Bail ''keyring update blocked by local lock''), st)
      else
        sbind (disk_write keyring_lock_file (as_bytes ''locked'')) (\<lambda>_ st1.
          case f st1 of (r, st2) \<Rightarrow>
            (case disk_remove keyring_lock_file st2 of
               (Inr u, st3) \<Rightarrow> (r, st3)
             | (Inl cleanup_error, st3) \<Rightarrow> (case r of Inr v \<Rightarrow> Inl cleanup_error | Inl e \<Rightarrow> Inl e, st3))) st)"

definition keyring_update_journal :: "keyring_env \<Rightarrow> keyring_state \<Rightarrow> keyring_pointer \<Rightarrow> string \<Rightarrow> byte list" where
  "keyring_update_journal E keyring pointer stage =
     to_vec (ke_json E) (J_Object [(''generation'', J_Integer (uint (kg_generation keyring))),
       (''current'', J_Text (kp_current pointer)), (''stage'', J_Text stage)])"

text \<open>\<^verbatim>\<open>let _ = fs::remove_file(..)\<close>\<close>

definition disk_remove_ignoring :: "string \<Rightarrow> (client, unit) prog" where
  "disk_remove_ignoring path st = (Inr (), snd (disk_remove path st))"

definition write_keyring_generation_and_pointer ::
  "keyring_env \<Rightarrow> string \<Rightarrow> keyring_state \<Rightarrow> keyring_pointer \<Rightarrow> (client, unit) prog" where
  "write_keyring_generation_and_pointer E generation_file_name keyring pointer =
     sbind (slift (with_context ''invalid keyring generation file name'' (validate_keyring_file_name generation_file_name))) (\<lambda>_.
     sbind (slift (case validate_keyring_file_name (kp_current pointer) of
              Inl e \<Rightarrow> Inl (Bail ''invalid keyring pointer current'') | Inr u \<Rightarrow> Inr u)) (\<lambda>_.
     sbind (atomic_write_bytes keyring_journal_file (keyring_update_journal E keyring pointer ''writing_generation'')) (\<lambda>_.
     sbind (with_keyring_lock
        (sbind (atomic_write_bytes (keyring_path generation_file_name) (to_vec (ke_state E) keyring)) (\<lambda>_.
         sbind (atomic_write_bytes keyring_journal_file (keyring_update_journal E keyring pointer ''writing_pointer'')) (\<lambda>_.
         atomic_write_bytes keyring_current_file (to_vec (ke_pointer E) pointer))))) (\<lambda>_.
     disk_remove_ignoring keyring_journal_file))))"

end
