(* ===== verification/Keyring_Ops.thy ===== *)
theory Keyring_Ops
  imports Keyring "HOL-Library.Product_Lexorder"
begin

text \<open>
  The operations that change a keyring (\<^verbatim>\<open>e2v-core/src/facade.rs\<close>): changing the password, revoking a
  device or a member, and the reconciliation with the keyring of a remote; and unlocking a repository
  after an interrupted change. Generations and epochs wrap around, as in a release build.
\<close>

record facade_env =
  fe_keyring :: keyring_env
  fe_store :: manifest_store
  fe_refs :: ref_codecs

definition unlocked_store :: "facade_env \<Rightarrow> repo_secrets \<Rightarrow> files \<Rightarrow> manifest_store" where
  "unlocked_store F secrets fs = (fe_store F)\<lparr> ms_secrets := secrets, ms_files := fs \<rparr>"

section \<open>Opening\<close>

definition open_or_unlock_repo_secrets_for_sync :: "keyring_env \<Rightarrow> (client, repo_secrets) prog" where
  "open_or_unlock_repo_secrets_for_sync E st =
     (case open_repo_secrets E st of
        (Inr secrets, st') \<Rightarrow> (Inr secrets, st')
      | (Inl e, st') \<Rightarrow> unlock_repo_secrets_with_local_device E st')"

definition open_or_unlock_repo_secrets_with_local_device :: "keyring_env \<Rightarrow> (client, repo_secrets) prog" where
  "open_or_unlock_repo_secrets_with_local_device E st =
     (case open_repo_secrets E st of
        (Inr secrets, st') \<Rightarrow> (Inr secrets, st')
      | (Inl e, st') \<Rightarrow>
          sbind (unlock_repo_secrets_with_local_device E) (\<lambda>secrets.
          sbind (cache_unlocked_secrets E secrets) (\<lambda>_. sret secrets)) st')"

definition facade_open :: "facade_env \<Rightarrow> (client, repository_state) prog" where
  "facade_open F =
     sbind (on_client_files (validate_layout_root (fe_refs F))) (\<lambda>layout_root.
     sbind (open_or_unlock_repo_secrets_with_local_device (fe_keyring F)) (\<lambda>secrets.
     sbind (on_client_files (\<lambda>fs. read_default_ref (unlocked_store F secrets fs) (fe_refs F) fs)) (\<lambda>default_ref.
     sensure (\<not> blank (rf_branch_name default_ref)) (Bail ''default ref record is missing branch name'')
       (sret \<lparr> rs_branch = \<lparr> bs_name = rf_branch_name default_ref, bs_token_hex = rf_ref_token_hex default_ref \<rparr>,
               rs_layout_generation = root_generation layout_root \<rparr>))))"

text \<open>The repair of an interrupted update: the generation that the journal names becomes the current one.\<close>

definition recover_keyring :: "keyring_env \<Rightarrow> string \<Rightarrow> error \<Rightarrow> (client, repo_secrets) prog" where
  "recover_keyring E password primary_error st =
     (if map_of (cl_files st) keyring_journal_file = None then (Inl primary_error, st)
      else
        sbind (on_client_files (read_json (ke_json E) keyring_journal_file)) (\<lambda>journal.
        sbind (slift (ok_or (Bail ''invalid keyring recovery journal current'') (json_as_str (json_at ''current'' journal)))) (\<lambda>current.
        sbind (slift (ok_or (Bail ''invalid keyring recovery journal generation'') (json_as_u64 (json_at ''generation'' journal)))) (\<lambda>g st1.
        if map_of (cl_files st1) (keyring_path current) = None then (Inl primary_error, st1)
        else
          sbind (on_client_files (unlock_repo_secrets_from_generation_file E current password)) (\<lambda>secrets.
          sbind (on_client_files (read_json (ke_state E) (keyring_path current))) (\<lambda>recovered_keyring.
          sbind (atomic_write_bytes keyring_current_file
             (to_vec (ke_pointer E) \<lparr> kp_generation = kg_generation recovered_keyring, kp_current = current \<rparr>)) (\<lambda>_.
          sbind (disk_remove_ignoring keyring_journal_file) (\<lambda>_.
          sbind (cache_unlocked_secrets E secrets) (\<lambda>_.
          sbind (cache_unlocked_password password) (\<lambda>_.
          sret secrets)))))) st1))) st)"

definition unlock_with_recovery :: "keyring_env \<Rightarrow> string \<Rightarrow> (client, repo_secrets) prog" where
  "unlock_with_recovery E password st =
     (case unlock_repo_secrets E password st of
        (Inr secrets, st') \<Rightarrow> (Inr secrets, st')
      | (Inl primary_error, st') \<Rightarrow> recover_keyring E password primary_error st')"

definition unlock :: "facade_env \<Rightarrow> string \<Rightarrow> (client, repository_state) prog" where
  "unlock F password = sbind (unlock_with_recovery (fe_keyring F) password) (\<lambda>_. facade_open F)"

section \<open>A new generation\<close>

definition redact_password_hint :: "string \<Rightarrow> string" where
  "redact_password_hint password = ''len:'' @ decimal (length (filter (\<lambda>b. \<not> utf8_cont b) (as_bytes password)))"

definition keyring_file_name :: "u64 \<Rightarrow> string" where
  "keyring_file_name generation = ''keyring.'' @ decimal (unat generation)"

fun reseal_device_envelopes :: "keyring_env \<Rightarrow> repo_secrets \<Rightarrow> keyring_envelope list \<Rightarrow> (client, keyring_envelope list) prog" where
  "reseal_device_envelopes E secrets [] = sret []"
| "reseal_device_envelopes E secrets (envelope # envelopes) =
     (if ev_kind envelope \<noteq> ''device'' \<or> ev_recipient_pubkey_hex envelope = []
      then reseal_device_envelopes E secrets envelopes
      else
        sbind (seal_repo_secrets_for_device E (secrets_repo_id secrets) (active_epoch secrets)
                 (ev_recipient_pubkey_hex envelope) secrets (ev_actor_id envelope) (ev_device_id envelope)) (\<lambda>sealed.
        sbind (reseal_device_envelopes E secrets envelopes) (\<lambda>rest. sret (sealed # rest))))"

definition rebuild_local_device_and_password_envelopes ::
  "keyring_env \<Rightarrow> keyring_state \<Rightarrow> repo_secrets \<Rightarrow> string \<Rightarrow> (client, keyring_envelope list) prog" where
  "rebuild_local_device_and_password_envelopes E current_state secrets password =
     sbind (seal_repo_secrets E (secrets_repo_id secrets) (active_epoch secrets) password secrets
              (redact_password_hint password)) (\<lambda>password_envelope.
     sbind (reseal_device_envelopes E secrets (kg_envelopes current_state)) (\<lambda>device_envelopes.
     sret (password_envelope # device_envelopes)))"

definition epoch_status :: "u32 \<Rightarrow> u32 \<Rightarrow> epoch_descriptor" where
  "epoch_status active epoch = \<lparr> ep_epoch = epoch, ep_status = (if epoch = active then ''active'' else ''retired'') \<rparr>"

definition build_epoch_descriptors :: "repo_secrets \<Rightarrow> epoch_descriptor list" where
  "build_epoch_descriptors secrets = map (epoch_status (active_epoch secrets)) (map fst (epoch_keys_of secrets))"

text \<open>The file of a new generation is named after it, and the pointer names the file.\<close>

definition write_next_generation :: "keyring_env \<Rightarrow> keyring_state \<Rightarrow> (client, unit) prog" where
  "write_next_generation E next_state =
     (let next_file_name = keyring_file_name (kg_generation next_state) in
      write_keyring_generation_and_pointer E next_file_name next_state
        \<lparr> kp_generation = kg_generation next_state, kp_current = next_file_name \<rparr>)"

definition change_password :: "keyring_env \<Rightarrow> string \<Rightarrow> string \<Rightarrow> (client, unit) prog" where
  "change_password E old_password new_password =
     sbind (on_client_files (unlock_repo_secrets_uncached E old_password)) (\<lambda>secrets.
     sbind (on_client_files (read_current_keyring_state_with_pointer E)) (\<lambda>(pointer, current_state).
     sbind (rebuild_local_device_and_password_envelopes E current_state secrets new_password) (\<lambda>envelopes.
     sbind (write_next_generation E
        (current_state\<lparr> kg_generation := kg_generation current_state + 1, kg_envelopes := envelopes \<rparr>)) (\<lambda>_.
     sbind (cache_unlocked_secrets E secrets) (\<lambda>_.
     cache_unlocked_password new_password)))))"

section \<open>Revoking\<close>

definition ensure_local_share_admin :: "keyring_env \<Rightarrow> files \<Rightarrow> unit res" where
  "ensure_local_share_admin E fs =
     rbind (read_local_device_credential E fs) (\<lambda>credential.
     rbind (read_current_keyring_state E fs) (\<lambda>keyring.
     rbind (ok_or (Bail ''share actor not found'') (find (\<lambda>a. ac_actor_id a = cd_actor_id credential) (kg_actors keyring))) (\<lambda>actor.
     ensure (ac_role actor = ''owner_admin'') (Bail ''share admin operations require an owner-admin local device'')
       (Inr ()))))"

definition random_key_material :: "(client, byte list) prog" where
  "random_key_material = random_bytes 32 ''failed to obtain repository key material''"

definition advance_epoch :: "repo_secrets \<Rightarrow> (client, repo_secrets) prog" where
  "advance_epoch secrets =
     (let epoch = active_epoch secrets + 1 in
      sbind random_key_material (\<lambda>enc_key.
      sbind random_key_material (\<lambda>nonce.
      sret (secrets\<lparr> active_epoch := epoch, repo_manifest_enc_key := enc_key, repo_nonce_key := nonce,
        epoch_keys_of := bt_insert epoch \<lparr> manifest_enc_key = enc_key, nonce_key = nonce \<rparr> (epoch_keys_of secrets) \<rparr>))))"

definition revoke_where :: "(device_record \<Rightarrow> bool) \<Rightarrow> device_record list \<Rightarrow> device_record list" where
  "revoke_where P = map (\<lambda>d. if P d then d\<lparr> dv_status := ''revoked'' \<rparr> else d)"

text \<open>The common end of the two revocations: a new epoch, the statuses, and only the remaining envelopes.\<close>

definition publish_revocation ::
  "keyring_env \<Rightarrow> keyring_state \<Rightarrow> repo_secrets \<Rightarrow> string \<Rightarrow> (device_record \<Rightarrow> bool) \<Rightarrow> (keyring_envelope \<Rightarrow> bool) \<Rightarrow>
   (client, unit) prog" where
  "publish_revocation E current_state secrets password revoked keep =
     sbind (advance_epoch secrets) (\<lambda>advanced.
     sbind (rebuild_local_device_and_password_envelopes E current_state advanced password) (\<lambda>envelopes.
     sbind (write_next_generation E
        (current_state\<lparr> kg_generation := kg_generation current_state + 1, kg_active_epoch := active_epoch advanced,
           kg_devices := revoke_where revoked (kg_devices current_state),
           kg_epochs := build_epoch_descriptors advanced, kg_envelopes := filter keep envelopes \<rparr>)) (\<lambda>_.
     sbind (cache_unlocked_secrets E advanced) (\<lambda>_.
     cache_unlocked_password password))))"

definition share_revoke_device :: "keyring_env \<Rightarrow> string \<Rightarrow> string \<Rightarrow> (client, unit) prog" where
  "share_revoke_device E device_id password =
     sensure (\<not> blank device_id) (Bail ''share device id must not be empty'')
    (sensure (\<not> blank password) (Bail ''share revoke device password must not be empty'')
    (sbind (on_client_files (ensure_local_share_admin E)) (\<lambda>_.
     sbind (open_or_unlock_repo_secrets_with_local_device E) (\<lambda>secrets.
     sbind (on_client_files (read_current_keyring_state_with_pointer E)) (\<lambda>(pointer, current_state).
     sbind (slift (ok_or (Bail ''share device not found'')
        (find (\<lambda>d. dv_device_id d = device_id) (kg_devices current_state)))) (\<lambda>target_device.
     sensure (list_all (\<lambda>a. ac_actor_id a \<noteq> dv_actor_id target_device \<or> ac_role a \<noteq> ''owner_admin'') (kg_actors current_state))
       (Bail ''cannot revoke owner-admin device'')
    (publish_revocation E current_state secrets password (\<lambda>d. dv_device_id d = device_id) (\<lambda>e. ev_device_id e \<noteq> device_id))))))))"

definition share_revoke_member :: "keyring_env \<Rightarrow> string \<Rightarrow> string \<Rightarrow> (client, unit) prog" where
  "share_revoke_member E actor_id password =
     sensure (\<not> blank actor_id) (Bail ''share actor id must not be empty'')
    (sensure (\<not> blank password) (Bail ''share revoke member password must not be empty'')
    (sbind (on_client_files (ensure_local_share_admin E)) (\<lambda>_.
     sbind (open_or_unlock_repo_secrets_with_local_device E) (\<lambda>secrets.
     sbind (on_client_files (read_current_keyring_state_with_pointer E)) (\<lambda>(pointer, current_state).
     sensure (list_ex (\<lambda>a. ac_actor_id a = actor_id) (kg_actors current_state)) (Bail ''share actor not found'')
    (sensure (list_all (\<lambda>a. ac_actor_id a \<noteq> actor_id \<or> ac_role a \<noteq> ''owner_admin'') (kg_actors current_state))
       (Bail ''cannot revoke owner-admin actor'')
    (publish_revocation E current_state secrets password (\<lambda>d. dv_actor_id d = actor_id) (\<lambda>e. ev_actor_id e \<noteq> actor_id))))))))"

section \<open>Merging two keyrings\<close>

fun merge_actor_loop :: "(string, actor_record) btree \<Rightarrow> actor_record list \<Rightarrow> (string, actor_record) btree res" where
  "merge_actor_loop merged [] = Inr merged"
| "merge_actor_loop merged (actor # actors) =
     (case map_of merged (ac_actor_id actor) of
        Some existing \<Rightarrow>
          if ac_display_name existing \<noteq> ac_display_name actor \<or> ac_role existing \<noteq> ac_role actor
          then Inl (Bail ''manual resolution required for actor'')
          else merge_actor_loop merged actors
      | None \<Rightarrow> merge_actor_loop (bt_insert (ac_actor_id actor) actor merged) actors)"

definition merge_actor_records :: "keyring_state \<Rightarrow> keyring_state \<Rightarrow> actor_record list res" where
  "merge_actor_records local_state remote_state =
     rbind (merge_actor_loop [] (kg_actors local_state @ kg_actors remote_state)) (\<lambda>merged. Inr (map snd merged))"

fun merge_device_loop :: "(string, device_record) btree \<Rightarrow> device_record list \<Rightarrow> (string, device_record) btree res" where
  "merge_device_loop merged [] = Inr merged"
| "merge_device_loop merged (device # devices) =
     (case map_of merged (dv_device_id device) of
        Some existing \<Rightarrow>
          if dv_actor_id existing \<noteq> dv_actor_id device \<or> dv_pubkey_hex existing \<noteq> dv_pubkey_hex device
          then Inl (Bail ''manual resolution required for device'')
          else if dv_label existing \<noteq> dv_label device \<and> dv_status existing = dv_status device \<and> dv_status existing \<noteq> ''revoked''
          then Inl (Bail ''manual resolution required for device'')
          else
            let status = (if dv_status existing = ''revoked'' \<or> dv_status device = ''revoked'' then ''revoked'' else dv_status existing);
                label = (if status = ''revoked'' then dv_label existing else dv_label device)
            in merge_device_loop (bt_insert (dv_device_id device)
                 \<lparr> dv_device_id = dv_device_id device, dv_actor_id = dv_actor_id device, dv_label = label,
                   dv_pubkey_hex = dv_pubkey_hex device, dv_status = status \<rparr> merged) devices
      | None \<Rightarrow> merge_device_loop (bt_insert (dv_device_id device) device merged) devices)"

definition merge_device_records :: "keyring_state \<Rightarrow> keyring_state \<Rightarrow> device_record list res" where
  "merge_device_records local_state remote_state =
     rbind (merge_device_loop [] (kg_devices local_state @ kg_devices remote_state)) (\<lambda>merged. Inr (map snd merged))"

definition merge_epoch_descriptors :: "keyring_state \<Rightarrow> keyring_state \<Rightarrow> repo_secrets \<Rightarrow> epoch_descriptor list" where
  "merge_epoch_descriptors local_state remote_state secrets =
     map (epoch_status (active_epoch secrets))
       (sort (remdups (map ep_epoch (kg_epochs local_state) @ map ep_epoch (kg_epochs remote_state) @
          map fst (epoch_keys_of secrets))))"

definition select_password_envelope_for_active_epoch ::
  "keyring_state \<Rightarrow> keyring_state \<Rightarrow> u32 \<Rightarrow> keyring_envelope option" where
  "select_password_envelope_for_active_epoch local_state remote_state epoch =
     (let local_password = find (\<lambda>e. ev_kind e = ''password'') (kg_envelopes local_state);
          remote_password = find (\<lambda>e. ev_kind e = ''password'') (kg_envelopes remote_state)
      in if kg_active_epoch local_state = epoch \<and> local_password \<noteq> None then local_password
         else if kg_active_epoch remote_state = epoch \<and> remote_password \<noteq> None then remote_password
         else if local_password \<noteq> None then local_password
         else remote_password)"

fun build_device_envelopes_for_active_devices ::
  "keyring_env \<Rightarrow> string \<Rightarrow> device_record list \<Rightarrow> u32 \<Rightarrow> repo_secrets \<Rightarrow> (client, keyring_envelope list) prog" where
  "build_device_envelopes_for_active_devices E repo_id [] epoch secrets = sret []"
| "build_device_envelopes_for_active_devices E repo_id (device # devices) epoch secrets =
     (if dv_status device \<noteq> ''active'' then build_device_envelopes_for_active_devices E repo_id devices epoch secrets
      else
        sbind (seal_repo_secrets_for_device E repo_id epoch (dv_pubkey_hex device) secrets (dv_actor_id device)
                 (dv_device_id device)) (\<lambda>sealed.
        sbind (build_device_envelopes_for_active_devices E repo_id devices epoch secrets) (\<lambda>rest. sret (sealed # rest))))"

definition comparable_keyring_state :: "keyring_state \<Rightarrow> keyring_state" where
  "comparable_keyring_state k = k\<lparr> kg_generation := 0, kg_envelopes := [] \<rparr>"

text \<open>The secrets of the keyring whose epoch is the newer one, the local ones when the epochs are equal.\<close>

definition authoritative_secrets_for ::
  "keyring_env \<Rightarrow> keyring_state \<Rightarrow> keyring_state \<Rightarrow> byte list \<Rightarrow> (client, repo_secrets) prog" where
  "authoritative_secrets_for E local_state remote_state remote_keyring_bytes =
     sbind (open_or_unlock_repo_secrets_for_sync E) (\<lambda>local_secrets.
     if active_epoch local_secrets = max (kg_active_epoch local_state) (kg_active_epoch remote_state)
     then sret local_secrets
     else on_client_files (unlock_repo_secrets_from_keyring_bytes_with_local_device E remote_keyring_bytes))"

definition merged_keyring_without_envelopes :: "keyring_state \<Rightarrow> keyring_state \<Rightarrow> repo_secrets \<Rightarrow> keyring_state res" where
  "merged_keyring_without_envelopes local_state remote_state secrets =
     rbind (merge_actor_records local_state remote_state) (\<lambda>actors.
     rbind (merge_device_records local_state remote_state) (\<lambda>devices.
     Inr \<lparr> kg_format_version = max (kg_format_version local_state) (kg_format_version remote_state),
           kg_generation = 0, kg_repo_id = kg_repo_id local_state,
           kg_active_epoch = max (kg_active_epoch local_state) (kg_active_epoch remote_state),
           kg_crypto_suite = kg_crypto_suite local_state, kg_kdf = kg_kdf local_state,
           kg_actors = sort_key ac_actor_id actors, kg_devices = sort_key dv_device_id devices,
           kg_epochs = merge_epoch_descriptors local_state remote_state secrets, kg_envelopes = [] \<rparr>))"

definition merged_envelopes ::
  "keyring_env \<Rightarrow> keyring_state \<Rightarrow> keyring_state \<Rightarrow> keyring_state \<Rightarrow> repo_secrets \<Rightarrow> (client, keyring_envelope list) prog" where
  "merged_envelopes E local_state remote_state merged secrets =
     (let epoch = kg_active_epoch merged in
      sbind (build_device_envelopes_for_active_devices E (kg_repo_id local_state) (kg_devices merged) epoch secrets)
        (\<lambda>device_envelopes.
      sret (sort_key (\<lambda>e. (ev_kind e, ev_actor_id e, ev_device_id e, ev_envelope_id e))
        ((case select_password_envelope_for_active_epoch local_state remote_state epoch of
            None \<Rightarrow> [] | Some e \<Rightarrow> [e]) @ device_envelopes))))"

definition reconcile_remote_keyring_for_sync :: "keyring_env \<Rightarrow> byte list \<Rightarrow> (client, bool) prog" where
  "reconcile_remote_keyring_for_sync E remote_keyring_bytes =
     sbind (on_client_files (read_current_keyring_state_with_pointer E)) (\<lambda>(pointer, local_state).
     sbind (slift (decoded ''failed to decode remote keyring state'' (ke_state E) remote_keyring_bytes)) (\<lambda>remote_state.
     sensure (kg_repo_id local_state = kg_repo_id remote_state) (Bail ''remote keyring targets a different repository'')
    (sbind (authoritative_secrets_for E local_state remote_state remote_keyring_bytes) (\<lambda>secrets.
     sbind (slift (merged_keyring_without_envelopes local_state remote_state secrets)) (\<lambda>merged.
     if merged = comparable_keyring_state local_state then sret False
     else
       sbind (merged_envelopes E local_state remote_state merged secrets) (\<lambda>envelopes.
       let merged_state = merged\<lparr> kg_generation := max (kg_generation local_state) (kg_generation remote_state) + 1,
                                  kg_envelopes := envelopes \<rparr>
       in if comparable_keyring_state local_state = comparable_keyring_state merged_state \<and>
             kg_active_epoch local_state = kg_active_epoch merged_state \<and>
             kg_generation local_state = kg_generation merged_state
          then sret False
          else
            sbind (write_next_generation E merged_state) (\<lambda>_.
            sbind (cache_unlocked_secrets E secrets) (\<lambda>_.
            sret True))))))))"

end
