(* ===== verification/Sharing.thy ===== *)
theory Sharing
  imports Keyring_Ops
begin

text \<open>
  Creating a repository, and sharing it (\<^verbatim>\<open>e2v-core/src/facade.rs\<close>): an owner invites a member or a further
  device of a member with a bundle that carries a bootstrap device; who accepts it on a fresh machine
  installs the bundle, who accepts it in a repository that is already there adds a device of their own.
\<close>

section \<open>Invitations\<close>

record share_actor_summary =
  sa_actor_id :: string
  sa_display_name :: string
  sa_role :: string

record share_device_summary =
  sd_device_id :: string
  sd_actor_id :: string
  sd_label :: string
  sd_status :: string

record share_list_result =
  sr_actors :: "share_actor_summary list"
  sr_devices :: "share_device_summary list"

record share_invite_bundle =
  sb_actor_id :: string
  sb_device_id :: string
  sb_bundle_bytes :: "byte list"

record share_accept_result =
  sx_actor_id :: string
  sx_device_id :: string
  sx_role :: string

record share_invite_payload =
  in_repo_id :: string
  in_actor_id :: string
  in_device_id :: string
  in_display_name :: string
  in_role :: string
  in_invite_kind :: string
  in_active_epoch :: u32
  in_branch_name :: string
  in_branch_token_hex :: string
  in_default_ref_bytes_hex :: string
  in_layout_root_bytes_hex :: string
  in_bootstrap_credential :: local_device_credential
  in_bootstrap_keyring_state :: keyring_state
  in_bootstrap_keyring_pointer :: keyring_pointer

definition share_list :: "keyring_env \<Rightarrow> files \<Rightarrow> share_list_result res" where
  "share_list E fs =
     rbind (read_current_keyring_state E fs) (\<lambda>keyring.
     Inr \<lparr> sr_actors = map (\<lambda>a. \<lparr> sa_actor_id = ac_actor_id a, sa_display_name = ac_display_name a, sa_role = ac_role a \<rparr>)
             (kg_actors keyring),
           sr_devices = map (\<lambda>d. \<lparr> sd_device_id = dv_device_id d, sd_actor_id = dv_actor_id d, sd_label = dv_label d,
             sd_status = dv_status d \<rparr>) (kg_devices keyring) \<rparr>)"

definition random_hex_identifier :: "(client, string) prog" where
  "random_hex_identifier = sbind (random_bytes 8 ''failed to obtain random identifier'') (\<lambda>bytes. sret (hex_encode bytes))"

definition active_device_of :: "local_device_credential \<Rightarrow> device_record" where
  "active_device_of c =
     \<lparr> dv_device_id = cd_device_id c, dv_actor_id = cd_actor_id c, dv_label = cd_label c,
       dv_pubkey_hex = cd_public_key_hex c, dv_status = ''active'' \<rparr>"

text \<open>The keyring of a bootstrap device: a generation of its own with one envelope.\<close>

definition bootstrap_keyring ::
  "keyring_env \<Rightarrow> keyring_state \<Rightarrow> actor_record list \<Rightarrow> local_device_credential \<Rightarrow> repo_secrets \<Rightarrow> (client, keyring_state) prog" where
  "bootstrap_keyring E keyring actors credential secrets =
     sbind (seal_repo_secrets_for_device E (kg_repo_id keyring) (kg_active_epoch keyring) (cd_public_key_hex credential)
              secrets (cd_actor_id credential) (cd_device_id credential)) (\<lambda>envelope.
     sret (keyring\<lparr> kg_generation := kg_generation keyring + 1, kg_actors := actors,
             kg_devices := [active_device_of credential], kg_envelopes := [envelope] \<rparr>))"

definition bootstrap_pointer :: "keyring_state \<Rightarrow> local_device_credential \<Rightarrow> keyring_pointer" where
  "bootstrap_pointer bootstrap credential =
     \<lparr> kp_generation = kg_generation bootstrap,
       kp_current = keyring_file_name (kg_generation bootstrap) @ ''.bootstrap-'' @ cd_device_id credential \<rparr>"

text \<open>What both invitations do once the bootstrap credential is made.\<close>

definition invite_bundle ::
  "facade_env \<Rightarrow> share_invite_payload serde \<Rightarrow> keyring_state \<Rightarrow> actor_record \<Rightarrow> string \<Rightarrow> local_device_credential \<Rightarrow>
   (client, share_invite_bundle) prog" where
  "invite_bundle F J keyring actor kind credential =
     sbind (facade_open F) (\<lambda>opened.
     sbind (open_or_unlock_repo_secrets_with_local_device (fe_keyring F)) (\<lambda>secrets.
     sbind (bootstrap_keyring (fe_keyring F) keyring [actor] credential secrets) (\<lambda>bootstrap.
     sbind (on_client_files (fs_read default_ref_file)) (\<lambda>default_ref_bytes.
     sbind (on_client_files (fs_read layout_root_file)) (\<lambda>layout_root_bytes.
     sret \<lparr> sb_actor_id = ac_actor_id actor, sb_device_id = cd_device_id credential,
       sb_bundle_bytes = to_vec J
         \<lparr> in_repo_id = kg_repo_id keyring, in_actor_id = ac_actor_id actor, in_device_id = cd_device_id credential,
           in_display_name = ac_display_name actor, in_role = ac_role actor, in_invite_kind = kind,
           in_active_epoch = kg_active_epoch keyring, in_branch_name = bs_name (rs_branch opened),
           in_branch_token_hex = bs_token_hex (rs_branch opened),
           in_default_ref_bytes_hex = hex_encode default_ref_bytes,
           in_layout_root_bytes_hex = hex_encode layout_root_bytes, in_bootstrap_credential = credential,
           in_bootstrap_keyring_state = bootstrap,
           in_bootstrap_keyring_pointer = bootstrap_pointer bootstrap credential \<rparr> \<rparr>)))))"

definition share_invite_member ::
  "facade_env \<Rightarrow> share_invite_payload serde \<Rightarrow> string \<Rightarrow> (client, share_invite_bundle) prog" where
  "share_invite_member F J display_name =
     sensure (\<not> blank display_name) (Bail ''share invite display name must not be empty'')
    (sbind (on_client_files (ensure_local_share_admin (fe_keyring F))) (\<lambda>_.
     sbind (on_client_files (read_current_keyring_state (fe_keyring F))) (\<lambda>keyring.
     sbind random_hex_identifier (\<lambda>member.
     sbind random_hex_identifier (\<lambda>device.
     sbind (generate_local_device_credential (fe_keyring F) (''member-'' @ member) (''device-'' @ device) ''bootstrap-device'') (\<lambda>credential.
     invite_bundle F J keyring \<lparr> ac_actor_id = ''member-'' @ member, ac_display_name = display_name, ac_role = ''writer_member'' \<rparr>
       ''member'' credential))))))"

definition share_invite_device ::
  "facade_env \<Rightarrow> share_invite_payload serde \<Rightarrow> string \<Rightarrow> string \<Rightarrow> (client, share_invite_bundle) prog" where
  "share_invite_device F J actor_id device_label =
     sensure (\<not> blank actor_id) (Bail ''share invite actor id must not be empty'')
    (sensure (\<not> blank device_label) (Bail ''share invite device label must not be empty'')
    (sbind (on_client_files (ensure_local_share_admin (fe_keyring F))) (\<lambda>_.
     sbind (on_client_files (read_current_keyring_state (fe_keyring F))) (\<lambda>keyring.
     sbind (slift (ok_or (Bail ''share actor not found'') (find (\<lambda>a. ac_actor_id a = actor_id) (kg_actors keyring)))) (\<lambda>actor.
     sbind random_hex_identifier (\<lambda>device.
     sbind (generate_local_device_credential (fe_keyring F) (ac_actor_id actor) (''device-'' @ device) device_label) (\<lambda>credential.
     invite_bundle F J keyring actor ''device'' credential)))))))"

section \<open>Accepting\<close>

text \<open>\<^verbatim>\<open>iter_mut().find(..)\<close>\<close>

fun update_first :: "('a \<Rightarrow> bool) \<Rightarrow> ('a \<Rightarrow> 'a) \<Rightarrow> 'a list \<Rightarrow> 'a list" where
  "update_first P f [] = []"
| "update_first P f (x # xs) = (if P x then f x # xs else x # update_first P f xs)"

definition bootstrap_recipient_repository ::
  "keyring_env \<Rightarrow> share_invite_payload \<Rightarrow> string \<Rightarrow> (client, unit) prog" where
  "bootstrap_recipient_repository E invite local_device_label st =
     sensure (cl_files st = []) (Bail ''share recipient repository is already initialized'')
    (let credential = (in_bootstrap_credential invite)\<lparr> cd_label := local_device_label \<rparr>;
         keyring = (in_bootstrap_keyring_state invite)
           \<lparr> kg_devices := update_first (\<lambda>d. dv_device_id d = cd_device_id credential \<and> dv_actor_id d = cd_actor_id credential)
               (\<lambda>d. d\<lparr> dv_label := cd_label credential, dv_pubkey_hex := cd_public_key_hex credential \<rparr>)
               (kg_devices (in_bootstrap_keyring_state invite)) \<rparr>;
         pointer = in_bootstrap_keyring_pointer invite in
     sbind (slift (decode_hex ''invalid invite layout root bytes'' (in_layout_root_bytes_hex invite))) (\<lambda>layout_root_bytes.
     sbind (atomic_write_bytes layout_root_file layout_root_bytes) (\<lambda>_.
     sbind (slift (decode_hex ''invalid invite default ref bytes'' (in_default_ref_bytes_hex invite))) (\<lambda>default_ref_bytes.
     sbind (atomic_write_bytes default_ref_file default_ref_bytes) (\<lambda>_.
     sbind (write_keyring_generation_and_pointer E (kp_current pointer) keyring pointer) (\<lambda>_.
     sbind (write_local_device_credential E credential) (\<lambda>_.
     sbind (unlock_repo_secrets_with_local_device E) (\<lambda>secrets.
     cache_unlocked_secrets E secrets)))))))) st"

definition accept_share_device ::
  "keyring_env \<Rightarrow> share_invite_payload \<Rightarrow> string \<Rightarrow> bool \<Rightarrow> (client, share_accept_result) prog" where
  "accept_share_device E invite local_device_label create_actor st =
     sensure (\<not> blank local_device_label) (Bail ''share accept local device label must not be empty'')
    (if cl_files st = [] then
       sbind (bootstrap_recipient_repository E invite local_device_label) (\<lambda>_.
       sret \<lparr> sx_actor_id = in_actor_id invite, sx_device_id = cd_device_id (in_bootstrap_credential invite),
              sx_role = in_role invite \<rparr>)
     else
       sbind (open_or_unlock_repo_secrets_with_local_device E) (\<lambda>secrets.
       sensure (secrets_repo_id secrets = in_repo_id invite) (Bail ''share invite bundle targets a different repository'')
      (sbind (on_client_files (read_current_keyring_state_with_pointer E)) (\<lambda>(pointer, current_state).
       sensure (create_actor \<noteq> list_ex (\<lambda>a. ac_actor_id a = in_actor_id invite) (kg_actors current_state))
         (Bail (if create_actor then ''share actor already exists'' else ''share actor not found''))
      (sbind random_hex_identifier (\<lambda>device.
       sbind (generate_local_device_credential E (in_actor_id invite) (''device-'' @ device) local_device_label) (\<lambda>local_device.
       sbind (seal_repo_secrets_for_device E (secrets_repo_id secrets) (active_epoch secrets)
                (cd_public_key_hex local_device) secrets (in_actor_id invite) (cd_device_id local_device)) (\<lambda>envelope.
       sbind (write_next_generation E
          (current_state\<lparr> kg_generation := kg_generation current_state + 1,
             kg_actors := kg_actors current_state @
               (if create_actor then [\<lparr> ac_actor_id = in_actor_id invite, ac_display_name = in_display_name invite,
                  ac_role = in_role invite \<rparr>] else []),
             kg_devices := kg_devices current_state @ [active_device_of local_device],
             kg_envelopes := kg_envelopes current_state @ [envelope] \<rparr>)) (\<lambda>_.
       sbind (write_local_device_credential E local_device) (\<lambda>_.
       sbind (cache_unlocked_secrets E secrets) (\<lambda>_.
       sret \<lparr> sx_actor_id = in_actor_id invite, sx_device_id = cd_device_id local_device, sx_role = in_role invite \<rparr>))))))))))) st"

definition share_accept_member ::
  "keyring_env \<Rightarrow> share_invite_payload serde \<Rightarrow> byte list \<Rightarrow> string \<Rightarrow> (client, share_accept_result) prog" where
  "share_accept_member E J invite_bytes local_device_label =
     sbind (slift (decoded ''failed to decode share invite bundle'' J invite_bytes)) (\<lambda>invite.
     sensure (in_invite_kind invite = ''member'') (Bail ''share invite bundle is not a member invite'')
       (accept_share_device E invite local_device_label True))"

definition share_accept_device ::
  "keyring_env \<Rightarrow> share_invite_payload serde \<Rightarrow> byte list \<Rightarrow> string \<Rightarrow> (client, share_accept_result) prog" where
  "share_accept_device E J invite_bytes local_device_label =
     sbind (slift (decoded ''failed to decode share device invite bundle'' J invite_bytes)) (\<lambda>invite.
     sensure (in_invite_kind invite = ''device'') (Bail ''share invite bundle is not a device invite'')
       (accept_share_device E invite local_device_label False))"

definition bootstrap_password_clone_local_device :: "keyring_env \<Rightarrow> string \<Rightarrow> (client, unit) prog" where
  "bootstrap_password_clone_local_device E password st =
     (if map_of (cl_files st) local_device_file \<noteq> None then (Inr (), st)
      else
        sbind (unlock_repo_secrets E password) (\<lambda>secrets.
        sbind (on_client_files (read_current_keyring_state_with_pointer E)) (\<lambda>(pointer, current_state).
        let actor_id = (case kg_actors current_state of [] \<Rightarrow> ''owner-admin'' | a # as \<Rightarrow> ac_actor_id a) in
        sbind random_hex_identifier (\<lambda>device.
        sbind (generate_local_device_credential E actor_id (''device-'' @ device) ''cloned-device'') (\<lambda>credential.
        sbind (bootstrap_keyring E current_state (kg_actors current_state) credential secrets) (\<lambda>bootstrap.
        sbind (write_local_bootstrap_credential E
           \<lparr> lb_credential = credential, lb_keyring_pointer = bootstrap_pointer bootstrap credential,
             lb_keyring_state = bootstrap \<rparr>) (\<lambda>_.
        sbind (cache_unlocked_secrets E secrets) (\<lambda>_.
        cache_unlocked_password password))))))) st)"

section \<open>Creating a repository\<close>

definition default_active_epoch :: u32 where "default_active_epoch = 1"

definition derive_repo_id :: "keyring_env \<Rightarrow> string \<Rightarrow> string" where
  "derive_repo_id E repo_root = hex_encode (ke_hash E (as_bytes repo_root))"

definition generate_repo_secrets :: "string \<Rightarrow> (client, repo_secrets) prog" where
  "generate_repo_secrets repo_id =
     sbind random_key_material (\<lambda>manifest.
     sbind random_key_material (\<lambda>nonce.
     sbind random_key_material (\<lambda>dedup.
     sbind random_key_material (\<lambda>ref_key.
     sbind random_key_material (\<lambda>path_index.
     sret \<lparr> secrets_repo_id = repo_id, active_epoch = default_active_epoch, repo_dedup_key = dedup,
            repo_ref_key = ref_key, repo_manifest_enc_key = manifest, repo_nonce_key = nonce,
            repo_path_index_key = path_index,
            epoch_keys_of = [(default_active_epoch, \<lparr> manifest_enc_key = manifest, nonce_key = nonce \<rparr>)] \<rparr>)))))"

text \<open>Control files that \<open>Refs\<close> writes, on the disk of the client.\<close>

definition on_control_files :: "(files, 'a) prog \<Rightarrow> (client, 'a) prog" where
  "on_control_files m st =
     (if disk_works st
      then (fst (m (cl_files st)), st\<lparr> cl_files := snd (m (cl_files st)),
              cl_writes_left := map_option (\<lambda>n. n - 1) (cl_writes_left st) \<rparr>)
      else (Inl (Bail ''input/output error''), st))"

definition init ::
  "facade_env \<Rightarrow> string \<Rightarrow> bool \<Rightarrow> string \<Rightarrow> string \<Rightarrow> (client, repository_state) prog" where
  "init F repo_root root_is_empty password branch_name =
     (let E = fe_keyring F; repo_id = derive_repo_id E repo_root in
      sensure (password \<noteq> []) (Bail ''repository password must not be empty'')
     (sensure (\<not> blank branch_name) (Bail ''branch name must not be empty'')
     (sensure root_is_empty (Bail ''repository root must be empty before init'')
     (sbind (generate_repo_secrets repo_id) (\<lambda>secrets.
      let token = derive_branch_token (ke_crypto E) (repo_ref_key secrets) branch_name in
      sbind (generate_local_device_credential E ''owner-admin'' ''device-local'' ''local-device'') (\<lambda>credential.
      sbind (seal_repo_secrets E repo_id default_active_epoch password secrets (redact_password_hint password)) (\<lambda>password_envelope.
      sbind (seal_repo_secrets_for_device E repo_id default_active_epoch (cd_public_key_hex credential) secrets
               (cd_actor_id credential) (cd_device_id credential)) (\<lambda>device_envelope.
      let layout_root = direct_default;
          default_ref = \<lparr> rf_branch_name = branch_name, rf_ref_token_hex = token, rf_head_snapshot_id = None \<rparr>;
          keyring = \<lparr> kg_format_version = repo_format_version, kg_generation = 1, kg_repo_id = repo_id,
            kg_active_epoch = default_active_epoch, kg_crypto_suite = ''xchacha20poly1305'', kg_kdf = ''argon2id'',
            kg_actors = [\<lparr> ac_actor_id = cd_actor_id credential, ac_display_name = ''Local Owner'', ac_role = ''owner_admin'' \<rparr>],
            kg_devices = [active_device_of credential],
            kg_epochs = [\<lparr> ep_epoch = default_active_epoch, ep_status = ''active'' \<rparr>],
            kg_envelopes = [password_envelope, device_envelope] \<rparr> in
      sbind (atomic_write_bytes layout_root_file (to_vec (rc_layout (fe_refs F)) layout_root)) (\<lambda>_.
      sbind (write_keyring_generation_and_pointer E ''keyring.1'' keyring
               \<lparr> kp_generation = 1, kp_current = ''keyring.1'' \<rparr>) (\<lambda>_.
      sbind (write_local_device_credential E credential) (\<lambda>_.
      sbind (on_control_files (\<lambda>fs. write_default_ref (unlocked_store F secrets fs) (fe_refs F) default_ref fs)) (\<lambda>_.
      sbind (on_control_files (\<lambda>fs. write_branch_ref (unlocked_store F secrets fs) (fe_refs F) default_ref fs)) (\<lambda>_.
      sbind (cache_unlocked_secrets E secrets) (\<lambda>_.
      sbind (cache_unlocked_password password) (\<lambda>_.
      sret \<lparr> rs_branch = \<lparr> bs_name = branch_name, bs_token_hex = token \<rparr>,
             rs_layout_generation = root_generation layout_root \<rparr>)))))))))))))))"

end
