(* ===== verification/Keyring_Proofs.thy ===== *)
theory Keyring_Proofs
  imports Sharing
begin

text \<open>
  What sealing and unlocking do to secrets, which envelopes the operations write, and what a disk that
  fails at any write leaves of a keyring update.
\<close>

section \<open>Hexadecimal\<close>

lemma hex_value_digit: "d < 16 \<Longrightarrow> hex_value (hex_digit d) = Some d"
proof -
  assume "d < 16"
  then have "d \<in> set [0..<16]" by simp
  then show ?thesis by (simp add: upt_rec hex_value_def hex_digit_def) (auto simp: char_of_def)
qed

lemma hex_decode_encode [simp]: "hex_decode (hex_encode bs) = Some bs"
proof (induction bs)
  case (Cons b bs)
  have "unat b < 256" using unsigned_less [of b] by simp
  then have "unat b div 16 < 16" "unat b mod 16 < 16" by simp_all
  moreover have "(of_nat (16 * (unat b div 16) + unat b mod 16) :: byte) = b"
    by (simp add: word_unat_eq_iff unat_of_nat)
  ultimately show ?case using Cons by (simp add: hex_value_digit del: of_nat_add of_nat_mult)
qed simp

lemma decode_hex_encode [simp]: "decode_hex what (hex_encode bs) = Inr bs"
  by (simp add: decode_hex_def)

lemma decode_hex_key_encode: "length k = 32 \<Longrightarrow> decode_hex_key (hex_encode k) = Inr k"
  by (simp add: decode_hex_key_def)

lemma decode_hex_key_length: "decode_hex_key v = Inr k \<Longrightarrow> length k = 32"
  by (auto simp: decode_hex_key_def res_simps split: if_splits)

lemma hex_encode_eq_Nil [simp]: "hex_encode bs = [] \<longleftrightarrow> bs = []"
  by (cases bs) simp_all

section \<open>Secrets\<close>

definition secrets_ok :: "repo_secrets \<Rightarrow> bool" where
  "secrets_ok s \<longleftrightarrow> length (repo_dedup_key s) = 32 \<and> length (repo_ref_key s) = 32 \<and>
     length (repo_manifest_enc_key s) = 32 \<and> length (repo_nonce_key s) = 32 \<and> length (repo_path_index_key s) = 32 \<and>
     bt_ok (epoch_keys_of s) \<and> map_of (epoch_keys_of s) (active_epoch s) \<noteq> None \<and>
     list_all (\<lambda>(epoch, k). length (manifest_enc_key k) = 32 \<and> length (nonce_key k) = 32) (epoch_keys_of s)"

lemma map_of_map_pairs: "map_of (map (\<lambda>(k, v). (k, f v)) m) k = map_option f (map_of m k)"
  by (induction m) auto

lemma decode_epoch_keys_sealed:
  assumes "secrets_ok s"
  shows "decode_epoch_keys (sealed_secrets_of s) (active_epoch s) = Inr (epoch_keys_of s)"
proof -
  let ?K = "epoch_keys_of s" and ?S = "sealed_secrets_of s"
  have nonempty: "?K \<noteq> []" using assms by (auto simp: secrets_ok_def)
  have entry: "map_of (sl_epoch_nonce_keys_hex ?S) epoch = Some (hex_encode (nonce_key k)) \<and>
      decode_hex_key (hex_encode (manifest_enc_key k)) = Inr (manifest_enc_key k) \<and>
      decode_hex_key (hex_encode (nonce_key k)) = Inr (nonce_key k)" if "(epoch, k) \<in> set ?K" for epoch k
  proof -
    have "distinct (map fst ?K)" using assms bt_ok_distinct by (auto simp: secrets_ok_def)
    with that have "map_of ?K epoch = Some k" by simp
    moreover have "length (manifest_enc_key k) = 32 \<and> length (nonce_key k) = 32"
      using assms that by (auto simp: secrets_ok_def list_all_iff)
    ultimately show ?thesis by (simp add: sealed_secrets_of_def map_of_map_pairs decode_hex_key_encode)
  qed
  let ?f = "\<lambda>(epoch, manifest_enc_key_hex).
        rbind (ok_or (Bail ''missing nonce key for epoch'') (map_of (sl_epoch_nonce_keys_hex ?S) epoch)) (\<lambda>nonce_key_hex.
        rbind (decode_hex_key manifest_enc_key_hex) (\<lambda>m.
        rbind (decode_hex_key nonce_key_hex) (\<lambda>n.
        Inr (epoch, \<lparr> manifest_enc_key = m, nonce_key = n \<rparr>))))"
  have "mapM ?f (map (\<lambda>(epoch, k). (epoch, hex_encode (manifest_enc_key k))) m) = Inr m" if "set m \<subseteq> set ?K" for m
    using that
  proof (induction m)
    case (Cons e m)
    obtain epoch k where e: "e = (epoch, k)" by (cases e)
    with Cons.prems entry [of epoch k] Cons.IH show ?case by simp
  qed simp
  from this [of ?K] have "mapM ?f (sl_epoch_manifest_enc_keys_hex ?S) = Inr ?K" by (simp add: sealed_secrets_of_def)
  then show ?thesis
    using assms nonempty by (simp add: decode_epoch_keys_def secrets_ok_def sealed_secrets_of_def)
qed

lemma repo_secrets_of_sealed_secrets:
  assumes "secrets_ok s" and "kg_repo_id k = secrets_repo_id s" and "kg_active_epoch k = active_epoch s"
  shows "repo_secrets_of_sealed k (sealed_secrets_of s) = Inr s"
proof -
  have "repo_secrets_of_sealed k (sealed_secrets_of s) = rbind (decode_epoch_keys (sealed_secrets_of s) (active_epoch s))
      (\<lambda>keys. Inr (s\<lparr> epoch_keys_of := keys \<rparr>))"
    using assms by (cases s) (simp add: repo_secrets_of_sealed_def sealed_secrets_of_def decode_hex_key_encode secrets_ok_def)
  then show ?thesis using decode_epoch_keys_sealed [OF assms(1)] by simp
qed

text \<open>Secrets that were unlocked are in order when the decoded map of epochs is.\<close>

lemma repo_secrets_of_sealed_ok:
  assumes "repo_secrets_of_sealed k sealed = Inr s" and "bt_ok (epoch_keys_of s)"
  shows "secrets_ok s" "secrets_repo_id s = kg_repo_id k" "active_epoch s = kg_active_epoch k"
proof -
  obtain dedup ref_key manifest nonce path_index keys where parts:
      "decode_hex_key (sl_repo_dedup_key_hex sealed) = Inr dedup" "decode_hex_key (sl_repo_ref_key_hex sealed) = Inr ref_key"
      "decode_hex_key (sl_repo_manifest_enc_key_hex sealed) = Inr manifest"
      "decode_hex_key (sl_repo_nonce_key_hex sealed) = Inr nonce"
      "decode_hex_key (sl_repo_path_index_key_hex sealed) = Inr path_index"
      and keys: "decode_epoch_keys sealed (kg_active_epoch k) = Inr keys"
      and s: "s = \<lparr> secrets_repo_id = kg_repo_id k, active_epoch = kg_active_epoch k, repo_dedup_key = dedup,
           repo_ref_key = ref_key, repo_manifest_enc_key = manifest, repo_nonce_key = nonce,
           repo_path_index_key = path_index, epoch_keys_of = keys \<rparr>"
    using assms(1) by (auto simp: repo_secrets_of_sealed_def res_simps)
  show "secrets_repo_id s = kg_repo_id k" "active_epoch s = kg_active_epoch k" by (simp_all add: s)
  have "list_all (\<lambda>(epoch, k). length (manifest_enc_key k) = 32 \<and> length (nonce_key k) = 32) keys"
    and "map_of keys (kg_active_epoch k) \<noteq> None"
    using keys
    by (auto simp: decode_epoch_keys_def res_simps list_all_iff decode_hex_key_length dest!: mapM_Inr_set split: if_splits)
  then show "secrets_ok s"
    using assms(2) parts [THEN decode_hex_key_length] by (simp add: secrets_ok_def s)
qed

section \<open>Envelopes\<close>

lemma random_bytes_Inr: "random_bytes n what st = (Inr d, st') \<Longrightarrow> length d = n \<and> st' = st\<lparr> cl_draws := tl (cl_draws st) \<rparr>"
  by (auto simp: random_bytes_def split: list.splits if_splits)

definition password_envelope_for :: "keyring_env \<Rightarrow> keyring_state \<Rightarrow> string \<Rightarrow> repo_secrets \<Rightarrow> keyring_envelope \<Rightarrow> bool" where
  "password_envelope_for E k password secrets e \<longleftrightarrow>
     ev_kind e = ''password'' \<and> ev_device_id e = [] \<and> ev_actor_id e = [] \<and>
     decrypt_password_envelope E k e password = Inr (sealed_secrets_of secrets)"

lemma seal_repo_secrets_run:
  assumes E: "keyring_env_ok E"
    and run: "seal_repo_secrets E (kg_repo_id k) (kg_active_epoch k) password secrets hint st = (Inr e, st')"
  shows "password_envelope_for E k password secrets e" and "st' = st\<lparr> cl_draws := cl_draws st' \<rparr>"
proof -
  let ?salt = "derive_password_salt E (kg_repo_id k) (kg_active_epoch k)"
    and ?aad = "password_envelope_associated_data (kg_repo_id k) (kg_active_epoch k)"
  obtain key nonce c t where key: "derive_password_key E password ?salt = Inr key"
      and nonce: "random_bytes 24 ''failed to obtain keyring nonce'' st = (Inr nonce, st')"
      and seal: "aead_seal (ke_crypto E) key nonce ?aad (to_vec (ke_sealed E) (sealed_secrets_of secrets)) = Some (c, t)"
      and e: "e = \<lparr> ev_kind = ''password'', ev_envelope_id = [], ev_actor_id = [], ev_device_id = [],
             ev_recipient_pubkey_hex = [], ev_record_hex = [], ev_password_hint = hint,
             ev_salt_hex = hex_encode ?salt, ev_nonce_hex = hex_encode nonce,
             ev_ciphertext_hex = hex_encode (to_vec (ke_password_record E)
               \<lparr> pr_magic = keyring_password_magic, pr_format_version = keyring_password_format_version,
                 pr_object_type = keyring_password_object_type, pr_crypto_suite = ''xchacha20poly1305'',
                 pr_nonce = nonce, pr_ciphertext = c, pr_auth_tag = t \<rparr>),
             ev_auth_tag_hex = hex_encode t \<rparr>"
    using run by (auto simp: seal_repo_secrets_def Let_def res_simps simp del: prog_simps sbind_prim) (auto simp: slift_def sret_def res_simps)
  from E seal have "length t = 16 \<and> aead_open (ke_crypto E) key nonce ?aad c t =
      Some (to_vec (ke_sealed E) (sealed_secrets_of secrets))"
    by (auto simp: keyring_env_ok_def crypto_ok_def)
  moreover have "serde_ok (ke_password_record E)" "serde_ok (ke_sealed E)" using E by (simp_all add: keyring_env_ok_def)
  ultimately show "password_envelope_for E k password secrets e"
    using key random_bytes_Inr [OF nonce] by (simp add: password_envelope_for_def decrypt_password_envelope_def e)
  show "st' = st\<lparr> cl_draws := cl_draws st' \<rparr>" using random_bytes_Inr [OF nonce] by simp
qed

definition device_envelope_for :: "keyring_env \<Rightarrow> keyring_state \<Rightarrow> string \<Rightarrow> string \<Rightarrow> string \<Rightarrow> repo_secrets \<Rightarrow> keyring_envelope \<Rightarrow> bool" where
  "device_envelope_for E k pubkey_hex actor_id device_id secrets e \<longleftrightarrow>
     ev_kind e = ''device'' \<and> ev_device_id e = device_id \<and> ev_actor_id e = actor_id \<and> ev_recipient_pubkey_hex e = pubkey_hex \<and>
     (\<forall>c priv. decode_hex_key (cd_private_key_hex c) = Inr priv \<longrightarrow> pubkey_hex = hex_encode (ke_public_key E priv) \<longrightarrow>
        cd_actor_id c = actor_id \<longrightarrow> cd_device_id c = device_id \<longrightarrow>
        decrypt_device_envelope E k e c = Inr (sealed_secrets_of secrets))"

lemma seal_repo_secrets_for_device_run:
  assumes E: "keyring_env_ok E"
    and run: "seal_repo_secrets_for_device E (kg_repo_id k) (kg_active_epoch k) pubkey_hex secrets actor_id device_id st = (Inr e, st')"
  shows "device_envelope_for E k pubkey_hex actor_id device_id secrets e" and "st' = st\<lparr> cl_draws := cl_draws st' \<rparr>"
proof -
  let ?aad = "device_envelope_associated_data (kg_repo_id k) (kg_active_epoch k) actor_id device_id"
  let ?key = "\<lambda>shared. derive_device_key E shared (kg_repo_id k) (kg_active_epoch k) actor_id device_id"
  obtain pubkey secret nonce c t st1 where pubkey: "decode_hex_key pubkey_hex = Inr pubkey"
      and secret: "random_bytes 32 ''failed to obtain device envelope key material'' st = (Inr secret, st1)"
      and nonce: "random_bytes 24 ''failed to obtain device envelope nonce'' st1 = (Inr nonce, st')"
      and seal: "aead_seal (ke_crypto E) (?key (ke_diffie_hellman E secret pubkey)) nonce ?aad
          (to_vec (ke_sealed E) (sealed_secrets_of secrets)) = Some (c, t)"
      and e: "e = \<lparr> ev_kind = ''device'', ev_envelope_id = ''device:'' @ device_id, ev_actor_id = actor_id,
            ev_device_id = device_id, ev_recipient_pubkey_hex = pubkey_hex,
            ev_record_hex = hex_encode (to_vec (ke_device_record E)
              \<lparr> de_magic = keyring_device_magic, de_format_version = keyring_device_format_version,
                de_object_type = keyring_device_object_type, de_crypto_suite = ''x25519-xchacha20poly1305'',
                de_ephemeral_public_key = ke_public_key E secret, de_nonce = nonce,
                de_ciphertext = c, de_auth_tag = t \<rparr>),
            ev_password_hint = [], ev_salt_hex = [], ev_nonce_hex = [], ev_ciphertext_hex = [],
            ev_auth_tag_hex = [] \<rparr>"
    using run by (auto simp: seal_repo_secrets_for_device_def Let_def res_simps simp del: prog_simps sbind_prim) (auto simp: slift_def sret_def res_simps)
  from E seal have opened: "length t = 16" "aead_open (ke_crypto E) (?key (ke_diffie_hellman E secret pubkey)) nonce ?aad c t =
      Some (to_vec (ke_sealed E) (sealed_secrets_of secrets))"
    by (auto simp: keyring_env_ok_def crypto_ok_def)
  have codecs: "serde_ok (ke_device_record E)" "serde_ok (ke_sealed E)" "\<And>r. to_vec (ke_device_record E) r \<noteq> []"
    using E by (simp_all add: keyring_env_ok_def)
  have "decrypt_device_envelope E k e cr = Inr (sealed_secrets_of secrets)"
    if "decode_hex_key (cd_private_key_hex cr) = Inr priv" and "pubkey_hex = hex_encode (ke_public_key E priv)"
      and "cd_actor_id cr = actor_id" and "cd_device_id cr = device_id" for cr priv
  proof -
    have "pubkey = ke_public_key E priv" using pubkey that(2) by (auto simp: decode_hex_key_def split: if_splits)
    then have "ke_diffie_hellman E priv (ke_public_key E secret) = ke_diffie_hellman E secret pubkey"
      using E by (simp add: keyring_env_ok_def)
    with that opened codecs random_bytes_Inr [OF nonce] show ?thesis
      by (simp add: decrypt_device_envelope_def Let_def e)
  qed
  then show "device_envelope_for E k pubkey_hex actor_id device_id secrets e"
    by (auto simp: device_envelope_for_def e)
  show "st' = st\<lparr> cl_draws := cl_draws st' \<rparr>" using random_bytes_Inr [OF nonce] random_bytes_Inr [OF secret] by simp
qed

end
