(* ===== verification/Keyring_Writes.thy ===== *)
theory Keyring_Writes
  imports Keyring_Proofs
begin

text \<open>
  What the writing of a keyring generation leaves on a disk that may fail at any of its writes: the pointer
  is the old one, or the new one and then the generation it names is there.
\<close>

section \<open>Names\<close>

lemma rsplit_once_append: "c \<notin> set b \<Longrightarrow> rsplit_once c (a @ c # b) = Some (a, b)"
proof -
  assume b: "c \<notin> set b"
  have none: "rsplit_once c b = None" using b by (induction b) auto
  show ?thesis by (induction a) (auto simp: none)
qed

lemma digits_of_decimal: "c \<in> set (decimal n) \<Longrightarrow> digit c"
  using digit_decimal [of n] by (simp add: list_all_iff)

lemma decimal_names:
  "decimal n \<noteq> ''current''" "decimal n \<noteq> ''lock''" "decimal n \<noteq> ''current.tmp''"
  "decimal n @ ''.tmp'' \<noteq> ''current''" "decimal n @ ''.tmp'' \<noteq> ''lock''" "decimal n @ ''.tmp'' \<noteq> ''current.tmp''"
  "decimal m \<noteq> decimal n @ ''.tmp''"
proof -
  have "\<not> digit (CHR ''c'')" "\<not> digit (CHR ''l'')" "\<not> digit (CHR ''.'')" by (simp_all add: digit_def)
  then have letter: "CHR ''c'' \<notin> set (decimal n)" "CHR ''l'' \<notin> set (decimal n)" "CHR ''.'' \<notin> set (decimal m)" for m n
    using digits_of_decimal by blast+
  show "decimal n \<noteq> ''current''" "decimal n \<noteq> ''current.tmp''" using letter(1) [of n] by auto
  show "decimal n \<noteq> ''lock''" using letter(2) [of n] by auto
  show "decimal m \<noteq> decimal n @ ''.tmp''" using letter(3) [of m] by auto
  have "CHR ''c'' \<notin> set (decimal n @ ''.tmp'')" "CHR ''l'' \<notin> set (decimal n @ ''.tmp'')" using letter(1,2) [of n] by auto
  moreover have "CHR ''c'' \<in> set ''current''" "CHR ''c'' \<in> set ''current.tmp''" "CHR ''l'' \<in> set ''lock''" by simp_all
  ultimately show "decimal n @ ''.tmp'' \<noteq> ''current''" "decimal n @ ''.tmp'' \<noteq> ''lock''" "decimal n @ ''.tmp'' \<noteq> ''current.tmp''"
    by (metis)+
qed

abbreviation generation_path :: "u64 \<Rightarrow> string" where
  "generation_path g \<equiv> keyring_path (keyring_file_name g)"

lemmas keyring_names = keyring_path_def keyring_dir_def keyring_file_name_def keyring_current_file_def keyring_lock_file_def
  keyring_journal_file_def local_device_file_def local_bootstrap_file_def

lemma keyring_file_name_not_slash: "slash \<notin> set (keyring_file_name g)"
  using decimal_not_slash [of slash "unat g"] by (auto simp: keyring_file_name_def)

lemma temporary_generation_path: "temporary_path (generation_path g) = generation_path g @ ''.tmp''"
proof -
  let ?d = "decimal (unat g)"
  have path: "rsplit_once slash (generation_path g) = Some (''keyring'', keyring_file_name g)"
    using rsplit_once_append [OF keyring_file_name_not_slash, of "''keyring''"] by (simp add: keyring_path_def keyring_dir_def)
  have name: "rsplit_once (CHR ''.'') (keyring_file_name g) = Some (''keyring'', ?d)"
  proof -
    have "CHR ''.'' \<notin> set ?d" using decimal_not_slash by fastforce
    from rsplit_once_append [OF this, of "''keyring''"] show ?thesis by (simp add: keyring_file_name_def)
  qed
  show ?thesis
    unfolding temporary_path_def path with_extension_def file_extension_def
    by (simp add: name) (simp add: keyring_names)
qed

lemma temporary_fixed_paths:
  "temporary_path keyring_current_file = ''keyring/keyring.current.tmp''"
  "temporary_path keyring_journal_file = ''journal/keyring-update.json.tmp''"
  "temporary_path local_device_file = ''device/local-device.json.tmp''"
  "temporary_path local_bootstrap_file = ''device/local-bootstrap.json.tmp''"
  by code_simp+

definition update_paths :: "u64 \<Rightarrow> string set" where
  "update_paths g = {keyring_journal_file, temporary_path keyring_journal_file, keyring_lock_file,
     generation_path g, temporary_path (generation_path g), keyring_current_file, temporary_path keyring_current_file}"

lemma generation_path_inject [simp]: "generation_path g = generation_path h \<longleftrightarrow> g = h"
  by (auto simp: keyring_names word_unat_eq_iff)

lemma path_distinct:
  "generation_path g \<notin> {keyring_journal_file, temporary_path keyring_journal_file, keyring_lock_file,
     keyring_current_file, temporary_path keyring_current_file, local_device_file, local_bootstrap_file}"
  "temporary_path (generation_path h) \<notin> {keyring_journal_file, temporary_path keyring_journal_file, keyring_lock_file,
     keyring_current_file, temporary_path keyring_current_file, local_device_file, local_bootstrap_file, generation_path g}"
  using decimal_names [of "unat g"] decimal_names [of "unat h"] decimal_names(7) [of "unat g" "unat h", THEN not_sym]
  unfolding temporary_generation_path temporary_fixed_paths by (simp_all add: keyring_names)

lemma fixed_distinct:
  "distinct [keyring_journal_file, temporary_path keyring_journal_file, keyring_lock_file,
     keyring_current_file, temporary_path keyring_current_file, local_device_file, local_bootstrap_file]"
  unfolding temporary_fixed_paths by (simp add: keyring_names)

lemma local_device_kept: "local_device_file \<notin> update_paths g" "local_bootstrap_file \<notin> update_paths g"
  using path_distinct(1) [of g] path_distinct(2) [of g g] fixed_distinct by (auto simp: update_paths_def)

lemma valid_generation_name [simp]: "validate_keyring_file_name (keyring_file_name g) = Inr ()"
proof -
  let ?v = "keyring_file_name g"
  have v: "?v \<noteq> []" "?v \<noteq> ''.''" "?v \<noteq> ''..''" by (simp_all add: keyring_file_name_def)
  have "split_on slash ?v = [?v]" using keyring_file_name_not_slash by (rule split_on_single)
  then have "components ?v = [Normal ?v]" using v by (simp add: components_def segment_components_def is_absolute_def starts_with_def keyring_file_name_def)
  moreover have "\<not> is_absolute ?v" by (simp add: is_absolute_def starts_with_def keyring_file_name_def)
  moreover have "\<not> blank ?v" by (simp add: blank_def keyring_file_name_def)
  ultimately show ?thesis by (simp add: validate_keyring_file_name_def all_normal_def is_normal_def)
qed

section \<open>Atomic writes\<close>

text \<open>What does not change when files are written: the caches and the random bytes.\<close>

definition same_process :: "client \<Rightarrow> client \<Rightarrow> bool" where
  "same_process st st' \<longleftrightarrow> cl_unlocked st' = cl_unlocked st \<and> cl_password st' = cl_password st \<and> cl_draws st' = cl_draws st \<and>
     (bt_ok (cl_files st) \<longrightarrow> bt_ok (cl_files st')) \<and> (cl_writes_left st = None \<longrightarrow> cl_writes_left st' = None)"

lemma same_process_refl [simp]: "same_process st st"
  by (simp add: same_process_def)

lemma same_process_trans: "same_process s t \<Longrightarrow> same_process t u \<Longrightarrow> same_process s u"
  by (simp add: same_process_def)

definition changes_only :: "string set \<Rightarrow> client \<Rightarrow> client \<Rightarrow> bool" where
  "changes_only P st st' \<longleftrightarrow> (\<forall>p. p \<notin> P \<longrightarrow> map_of (cl_files st') p = map_of (cl_files st) p)"

lemma changes_only_refl [simp]: "changes_only P st st"
  by (simp add: changes_only_def)

lemma changes_onlyD: "changes_only P st st' \<Longrightarrow> p \<notin> P \<Longrightarrow> map_of (cl_files st') p = map_of (cl_files st) p"
  by (simp add: changes_only_def)

lemma changes_only_trans: "changes_only P s t \<Longrightarrow> changes_only Q t u \<Longrightarrow> changes_only (P \<union> Q) s u"
  by (simp add: changes_only_def)

lemma on_disk_run:
  "on_disk f st = (r, st') \<Longrightarrow>
     (r = Inr () \<and> st' = st\<lparr> cl_files := f (cl_files st), cl_writes_left := map_option (\<lambda>n. n - 1) (cl_writes_left st) \<rparr> \<or>
      (\<exists>e. r = Inl e) \<and> st' = st \<and> cl_writes_left st \<noteq> None)"
  by (auto simp: on_disk_def disk_works_def split: if_splits)

lemma disk_write_run:
  assumes "disk_write path bytes st = (r, st')" and "bt_ok (cl_files st)"
  shows "same_process st st'" and "changes_only {path} st st'"
    and "map_of (cl_files st') path = map_of (cl_files st) path \<or> map_of (cl_files st') path = Some bytes"
    and "r = Inr () \<Longrightarrow> map_of (cl_files st') path = Some bytes"
    and "cl_writes_left st = None \<Longrightarrow> r = Inr ()"
  using on_disk_run [OF assms(1) [unfolded disk_write_def]] assms(2)
  by (auto simp: same_process_def changes_only_def map_of_bt_insert)

lemma atomic_write_run:
  assumes run: "atomic_write_bytes path bytes st = (r, st')" and ok: "bt_ok (cl_files st)"
    and path: "temporary_path path \<noteq> path"
  shows "same_process st st'" and "changes_only {path, temporary_path path} st st'"
    and "map_of (cl_files st') path = map_of (cl_files st) path \<or> map_of (cl_files st') path = Some bytes"
    and "r = Inr () \<Longrightarrow> map_of (cl_files st') path = Some bytes"
    and "cl_writes_left st = None \<Longrightarrow> r = Inr ()"
proof -
  obtain r1 st1 where w: "disk_write (temporary_path path) bytes st = (r1, st1)" by fastforce
  note W = disk_write_run [OF w ok]
  have "same_process st st' \<and> changes_only {path, temporary_path path} st st' \<and>
      (map_of (cl_files st') path = map_of (cl_files st) path \<or> map_of (cl_files st') path = Some bytes) \<and>
      (r = Inr () \<longrightarrow> map_of (cl_files st') path = Some bytes) \<and> (cl_writes_left st = None \<longrightarrow> r = Inr ())"
  proof (cases r1)
    case (Inl e)
    then have "st' = st1" "r = Inl e" using run w by (auto simp: atomic_write_bytes_def sbind_Inl)
    then show ?thesis using W Inl path by (auto simp: changes_only_def)
  next
    case (Inr u)
    have read: "map_of (cl_files st1) (temporary_path path) = Some bytes" using W(4) Inr by simp
    have ok1: "bt_ok (cl_files st1)" using W(1) ok by (simp add: same_process_def)
    have "disk_rename (temporary_path path) path st1 = (r, st')"
      using run w Inr read by (simp add: atomic_write_bytes_def sbind_Inr on_client_files_def fs_read_def)
    then have "on_disk (\<lambda>fs. bt_insert path bytes (bt_remove (temporary_path path) fs)) st1 = (r, st')"
      using read by (simp add: disk_rename_def)
    from on_disk_run [OF this] ok1 W(1,2) path show ?thesis
      by (auto simp: same_process_def changes_only_def map_of_bt_insert map_of_bt_remove)
  qed
  then show "same_process st st'" "changes_only {path, temporary_path path} st st'"
    "map_of (cl_files st') path = map_of (cl_files st) path \<or> map_of (cl_files st') path = Some bytes"
    "r = Inr () \<Longrightarrow> map_of (cl_files st') path = Some bytes" "cl_writes_left st = None \<Longrightarrow> r = Inr ()"
    by auto
qed

lemma disk_remove_run:
  assumes "disk_remove path st = (r, st')" and "bt_ok (cl_files st)"
  shows "same_process st st'" and "changes_only {path} st st'"
    and "cl_writes_left st = None \<Longrightarrow> map_of (cl_files st) path \<noteq> None \<Longrightarrow> r = Inr ()"
  using assms on_disk_run [of "bt_remove path" st r st']
  by (auto simp: disk_remove_def same_process_def changes_only_def map_of_bt_remove split: if_splits)

section \<open>A generation\<close>

text \<open>
  The outcome of an update, on every disk: the pointer and the generation file are old or new, and a new
  pointer has its new generation.
\<close>

definition update_outcome :: "byte list \<Rightarrow> byte list \<Rightarrow> u64 \<Rightarrow> client \<Rightarrow> client \<Rightarrow> bool" where
  "update_outcome pointer_bytes keyring_bytes g st st' \<longleftrightarrow>
     same_process st st' \<and> changes_only (update_paths g) st st' \<and>
     (map_of (cl_files st') (generation_path g) = map_of (cl_files st) (generation_path g) \<or>
      map_of (cl_files st') (generation_path g) = Some keyring_bytes) \<and>
     (map_of (cl_files st') keyring_current_file = map_of (cl_files st) keyring_current_file \<or>
      map_of (cl_files st') keyring_current_file = Some pointer_bytes \<and>
      map_of (cl_files st') (generation_path g) = Some keyring_bytes)"

lemma update_outcome_refl [simp]: "update_outcome pb kb g st st"
  by (simp add: update_outcome_def)

lemma update_outcome_step:
  assumes "update_outcome pb kb g st st1" and "same_process st1 st2" and "changes_only P st1 st2" and "P \<subseteq> update_paths g"
    and "map_of (cl_files st2) (generation_path g) = map_of (cl_files st1) (generation_path g) \<or>
      map_of (cl_files st2) (generation_path g) = Some kb"
    and "map_of (cl_files st2) keyring_current_file = map_of (cl_files st1) keyring_current_file \<or>
      map_of (cl_files st2) keyring_current_file = Some pb \<and> map_of (cl_files st2) (generation_path g) = Some kb"
  shows "update_outcome pb kb g st st2"
proof -
  have "changes_only (update_paths g) st st2" using assms(1,3,4) unfolding update_outcome_def changes_only_def by auto
  then show ?thesis using assms(1,2,5,6) same_process_trans unfolding update_outcome_def by auto
qed

text \<open>Writes beside the pointer and the generation do not disturb the outcome.\<close>

lemma update_outcome_beside:
  assumes "update_outcome pb kb g st st1" and "same_process st1 st2" and "changes_only P st1 st2"
    and "P \<subseteq> update_paths g" and "generation_path g \<notin> P" and "keyring_current_file \<notin> P"
  shows "update_outcome pb kb g st st2"
  using update_outcome_step [OF assms(1-4)] assms(3,5,6) by (simp add: changes_only_def)

lemma update_outcome_ok: "update_outcome pb kb g st st' \<Longrightarrow> bt_ok (cl_files st) \<Longrightarrow> bt_ok (cl_files st')"
  by (simp add: update_outcome_def same_process_def)

definition locked_update :: "keyring_env \<Rightarrow> keyring_state \<Rightarrow> keyring_pointer \<Rightarrow> (client, unit) prog" where
  "locked_update E k p =
     sbind (atomic_write_bytes (generation_path (kg_generation k)) (to_vec (ke_state E) k)) (\<lambda>_.
     sbind (atomic_write_bytes keyring_journal_file (keyring_update_journal E k p ''writing_pointer'')) (\<lambda>_.
     atomic_write_bytes keyring_current_file (to_vec (ke_pointer E) p)))"

lemma journal_paths: "{keyring_journal_file, temporary_path keyring_journal_file} \<subseteq> update_paths g"
    "generation_path g \<notin> {keyring_journal_file, temporary_path keyring_journal_file}"
    "keyring_current_file \<notin> {keyring_journal_file, temporary_path keyring_journal_file}"
  using path_distinct(1) [of g] fixed_distinct by (auto simp: update_paths_def)

lemma lock_paths: "{keyring_lock_file} \<subseteq> update_paths g" "generation_path g \<notin> {keyring_lock_file}"
    "keyring_current_file \<notin> {keyring_lock_file}"
  using path_distinct(1) [of g] fixed_distinct by (auto simp: update_paths_def)

lemma temporary_differs: "temporary_path keyring_journal_file \<noteq> keyring_journal_file"
    "temporary_path keyring_current_file \<noteq> keyring_current_file" "temporary_path (generation_path g) \<noteq> generation_path g"
  using path_distinct(2) [of g g] fixed_distinct by auto

lemma update_neqs:
  "keyring_current_file \<notin> {generation_path g, temporary_path (generation_path g)}"
  "generation_path g \<notin> {keyring_current_file, temporary_path keyring_current_file}"
  "keyring_lock_file \<notin> {generation_path g, temporary_path (generation_path g)}"
  "keyring_lock_file \<notin> {keyring_journal_file, temporary_path keyring_journal_file}"
  "keyring_lock_file \<notin> {keyring_current_file, temporary_path keyring_current_file}"
  using path_distinct(1) [of g] path_distinct(2) [of g g] fixed_distinct by auto

lemma locked_update_run:
  assumes run: "locked_update E k p st1 = (r, st2)" and ok: "bt_ok (cl_files st1)"
    and before: "update_outcome (to_vec (ke_pointer E) p) (to_vec (ke_state E) k) (kg_generation k) st st1"
  shows "update_outcome (to_vec (ke_pointer E) p) (to_vec (ke_state E) k) (kg_generation k) st st2"
    and "r = Inr () \<Longrightarrow> map_of (cl_files st2) keyring_current_file = Some (to_vec (ke_pointer E) p) \<and>
      map_of (cl_files st2) (generation_path (kg_generation k)) = Some (to_vec (ke_state E) k)"
    and "cl_writes_left st1 = None \<Longrightarrow> r = Inr ()"
    and "map_of (cl_files st2) keyring_lock_file = map_of (cl_files st1) keyring_lock_file"
    and "same_process st1 st2"
proof -
  let ?G = "generation_path (kg_generation k)" and ?pb = "to_vec (ke_pointer E) p" and ?kb = "to_vec (ke_state E) k"
  let ?L = "\<lambda>t. map_of (cl_files t) keyring_lock_file = map_of (cl_files st1) keyring_lock_file"
  let ?O = "update_outcome ?pb ?kb (kg_generation k) st"
  obtain r1 t1 where w1: "atomic_write_bytes ?G ?kb st1 = (r1, t1)" by fastforce
  note W1 = atomic_write_run [OF w1 ok temporary_differs(3)]
  have C1: "map_of (cl_files t1) keyring_current_file = map_of (cl_files st1) keyring_current_file"
    by (rule changes_onlyD [OF W1(2) update_neqs(1)])
  have O1: "?O t1"
    by (rule update_outcome_step [OF before W1(1,2)]) (use W1(3) C1 in \<open>auto simp: update_paths_def\<close>)
  have L1: "?L t1" by (rule changes_onlyD [OF W1(2) update_neqs(3)])
  have ok1: "bt_ok (cl_files t1)" using W1(1) ok by (simp add: same_process_def)
  have "?O st2 \<and> (r = Inr () \<longrightarrow> map_of (cl_files st2) keyring_current_file = Some ?pb \<and> map_of (cl_files st2) ?G = Some ?kb) \<and>
      (cl_writes_left st1 = None \<longrightarrow> r = Inr ()) \<and> ?L st2 \<and> same_process st1 st2"
  proof (cases r1)
    case (Inl e)
    then show ?thesis using run w1 O1 L1 W1(1,5) by (auto simp: locked_update_def sbind_Inl)
  next
    case (Inr u)
    obtain r2 t2 where w2: "atomic_write_bytes keyring_journal_file (keyring_update_journal E k p ''writing_pointer'') t1 = (r2, t2)"
      by fastforce
    note W2 = atomic_write_run [OF w2 ok1 temporary_differs(1)]
    have G2: "map_of (cl_files t2) ?G = Some ?kb"
      using changes_onlyD [OF W2(2) journal_paths(2)] W1(4) Inr by simp
    have O2: "?O t2" by (rule update_outcome_beside [OF O1 W2(1,2) journal_paths])
    have L2: "?L t2" using changes_onlyD [OF W2(2) update_neqs(4)] L1 by simp
    have ok2: "bt_ok (cl_files t2)" using W2(1) ok1 by (simp add: same_process_def)
    show ?thesis
    proof (cases r2)
      case (Inl e)
      then show ?thesis using run w1 w2 \<open>r1 = Inr u\<close> O2 L2 W1(1) W2(1,5) same_process_trans [OF W1(1) W2(1)] by (auto simp: locked_update_def sbind_Inr sbind_Inl same_process_def)
    next
      case (Inr u')
      have w3: "atomic_write_bytes keyring_current_file ?pb t2 = (r, st2)"
        using run w1 w2 \<open>r1 = Inr u\<close> Inr by (simp add: locked_update_def sbind_Inr)
      note W3 = atomic_write_run [OF w3 ok2 temporary_differs(2)]
      have G3: "map_of (cl_files st2) ?G = Some ?kb"
        using changes_onlyD [OF W3(2) update_neqs(2)] G2 by simp
      have "?O st2"
        by (rule update_outcome_step [OF O2 W3(1,2)]) (use W3(3) G2 G3 in \<open>auto simp: update_paths_def\<close>)
      moreover have "?L st2" using changes_onlyD [OF W3(2) update_neqs(5)] L2 by simp
      ultimately show ?thesis using W3(4,5) G3 W1(1) W2(1) same_process_trans [OF W1(1) same_process_trans [OF W2(1) W3(1)]] by (auto simp: same_process_def)
    qed
  qed
  then show "?O st2" "r = Inr () \<Longrightarrow> map_of (cl_files st2) keyring_current_file = Some ?pb \<and> map_of (cl_files st2) ?G = Some ?kb"
    "cl_writes_left st1 = None \<Longrightarrow> r = Inr ()" "?L st2" "same_process st1 st2" by auto
qed

definition pointer_to :: "keyring_state \<Rightarrow> keyring_pointer" where
  "pointer_to k = \<lparr> kp_generation = kg_generation k, kp_current = keyring_file_name (kg_generation k) \<rparr>"

lemma write_next_generation_locked:
  "write_next_generation E k =
     sbind (atomic_write_bytes keyring_journal_file (keyring_update_journal E k (pointer_to k) ''writing_generation'')) (\<lambda>_.
     sbind (with_keyring_lock (locked_update E k (pointer_to k))) (\<lambda>_. disk_remove_ignoring keyring_journal_file))"
  by (rule ext) (simp add: write_next_generation_def write_keyring_generation_and_pointer_def locked_update_def Let_def pointer_to_def)

lemma with_keyring_lock_run:
  assumes run: "with_keyring_lock (locked_update E k p) st1 = (r, st2)" and ok0: "bt_ok (cl_files st)"
    and before: "update_outcome (to_vec (ke_pointer E) p) (to_vec (ke_state E) k) (kg_generation k) st st1"
  shows "update_outcome (to_vec (ke_pointer E) p) (to_vec (ke_state E) k) (kg_generation k) st st2"
    and "r = Inr () \<Longrightarrow> map_of (cl_files st2) keyring_current_file = Some (to_vec (ke_pointer E) p) \<and>
      map_of (cl_files st2) (generation_path (kg_generation k)) = Some (to_vec (ke_state E) k)"
    and "cl_writes_left st1 = None \<Longrightarrow> map_of (cl_files st1) keyring_lock_file = None \<Longrightarrow> r = Inr ()"
    and "map_of (cl_files st1) keyring_lock_file \<noteq> None \<Longrightarrow> st2 = st1 \<and> (\<exists>e. r = Inl e)"
proof -
  let ?G = "generation_path (kg_generation k)" and ?pb = "to_vec (ke_pointer E) p" and ?kb = "to_vec (ke_state E) k"
  let ?O = "update_outcome ?pb ?kb (kg_generation k) st"
  have "?O st2 \<and> (r = Inr () \<longrightarrow> map_of (cl_files st2) keyring_current_file = Some ?pb \<and> map_of (cl_files st2) ?G = Some ?kb) \<and>
      (cl_writes_left st1 = None \<longrightarrow> r = Inr ())" if free: "map_of (cl_files st1) keyring_lock_file = None"
  proof -
    have ok: "bt_ok (cl_files st1)" by (rule update_outcome_ok [OF before ok0])
    obtain r1 t1 where w1: "disk_write keyring_lock_file (as_bytes ''locked'') st1 = (r1, t1)" by fastforce
    note W1 = disk_write_run [OF w1 ok]
    have O1: "?O t1" by (rule update_outcome_beside [OF before W1(1,2) lock_paths])
    have ok1: "bt_ok (cl_files t1)" using W1(1) ok by (simp add: same_process_def)
    show ?thesis
    proof (cases r1)
      case (Inl e)
      then show ?thesis using run w1 free O1 W1(5) by (auto simp: with_keyring_lock_def sbind_Inl)
    next
      case (Inr u)
      obtain r2 t2 where w2: "locked_update E k p t1 = (r2, t2)" by fastforce
      note W2 = locked_update_run [OF w2 ok1 O1]
      have ok2: "bt_ok (cl_files t2)" by (rule update_outcome_ok [OF W2(1) ok0])
      obtain r3 where w3: "disk_remove keyring_lock_file t2 = (r3, st2)"
        and r: "r = (case r3 of Inr v \<Rightarrow> r2 | Inl e \<Rightarrow> (case r2 of Inr v \<Rightarrow> Inl e | Inl e' \<Rightarrow> Inl e'))"
        using run w1 w2 free Inr by (auto simp: with_keyring_lock_def sbind_Inr split: prod.splits sum.splits)
      note W3 = disk_remove_run [OF w3 ok2]
      note T2 = W2(5)
      have "?O st2" by (rule update_outcome_beside [OF W2(1) W3(1,2) lock_paths])
      moreover have "map_of (cl_files st2) q = map_of (cl_files t2) q" if "q \<in> {?G, keyring_current_file}" for q
        using changes_onlyD [OF W3(2)] that lock_paths(2) [of "kg_generation k"] lock_paths(3) by auto
      moreover have "r = Inr ()" if none: "cl_writes_left st1 = None"
      proof -
        have "cl_writes_left t1 = None" using W1(1) none by (simp add: same_process_def)
        with W2(3) have r2: "r2 = Inr ()" by simp
        have "cl_writes_left t2 = None" using \<open>cl_writes_left t1 = None\<close> T2 by (simp add: same_process_def)
        moreover have "map_of (cl_files t2) keyring_lock_file \<noteq> None" using W1(4) Inr W2(4) by simp
        ultimately show ?thesis using W3(3) r r2 by simp
      qed
      ultimately show ?thesis using W2(2) r by (auto split: sum.splits)
    qed
  qed
  then show "?O st2" "r = Inr () \<Longrightarrow> map_of (cl_files st2) keyring_current_file = Some ?pb \<and> map_of (cl_files st2) ?G = Some ?kb"
    "cl_writes_left st1 = None \<Longrightarrow> map_of (cl_files st1) keyring_lock_file = None \<Longrightarrow> r = Inr ()"
    "map_of (cl_files st1) keyring_lock_file \<noteq> None \<Longrightarrow> st2 = st1 \<and> (\<exists>e. r = Inl e)"
    using run before by (cases "map_of (cl_files st1) keyring_lock_file"; auto simp: with_keyring_lock_def)+
qed

abbreviation next_outcome :: "keyring_env \<Rightarrow> keyring_state \<Rightarrow> client \<Rightarrow> client \<Rightarrow> bool" where
  "next_outcome E k \<equiv> update_outcome (to_vec (ke_pointer E) (pointer_to k)) (to_vec (ke_state E) k) (kg_generation k)"

lemma write_next_generation_run:
  assumes run: "write_next_generation E k st = (r, st')" and ok: "bt_ok (cl_files st)"
  shows "next_outcome E k st st'"
    and "r = Inr () \<Longrightarrow> map_of (cl_files st') keyring_current_file = Some (to_vec (ke_pointer E) (pointer_to k)) \<and>
      map_of (cl_files st') (generation_path (kg_generation k)) = Some (to_vec (ke_state E) k)"
    and "cl_writes_left st = None \<Longrightarrow> map_of (cl_files st) keyring_lock_file = None \<Longrightarrow> r = Inr ()"
    and "map_of (cl_files st) keyring_lock_file \<noteq> None \<Longrightarrow> (\<exists>e. r = Inl e) \<and>
      changes_only {keyring_journal_file, temporary_path keyring_journal_file} st st'"
proof -
  let ?O = "next_outcome E k st" and ?G = "generation_path (kg_generation k)"
  obtain r1 t1 where w1: "atomic_write_bytes keyring_journal_file (keyring_update_journal E k (pointer_to k) ''writing_generation'') st = (r1, t1)"
    by fastforce
  note W1 = atomic_write_run [OF w1 ok temporary_differs(1)]
  have O1: "?O t1" by (rule update_outcome_beside [OF update_outcome_refl W1(1,2) journal_paths])
  have L1: "map_of (cl_files t1) keyring_lock_file = map_of (cl_files st) keyring_lock_file"
    by (rule changes_onlyD [OF W1(2) update_neqs(4)])
  have "?O st' \<and> (r = Inr () \<longrightarrow> map_of (cl_files st') keyring_current_file = Some (to_vec (ke_pointer E) (pointer_to k)) \<and>
        map_of (cl_files st') ?G = Some (to_vec (ke_state E) k)) \<and>
      (cl_writes_left st = None \<longrightarrow> map_of (cl_files st) keyring_lock_file = None \<longrightarrow> r = Inr ()) \<and>
      (map_of (cl_files st) keyring_lock_file \<noteq> None \<longrightarrow> (\<exists>e. r = Inl e) \<and>
        changes_only {keyring_journal_file, temporary_path keyring_journal_file} st st')"
  proof (cases r1)
    case (Inl e)
    then show ?thesis using run w1 O1 W1(2,5) by (auto simp: write_next_generation_locked sbind_Inl)
  next
    case (Inr u)
    obtain r2 t2 where w2: "with_keyring_lock (locked_update E k (pointer_to k)) t1 = (r2, t2)" by fastforce
    note W2 = with_keyring_lock_run [OF w2 ok O1]
    show ?thesis
    proof (cases r2)
      case (Inl e)
      then have "st' = t2" "r = Inl e" using run w1 w2 \<open>r1 = Inr u\<close> by (simp_all add: write_next_generation_locked sbind_Inr sbind_Inl)
      then show ?thesis using W1(1,2) W2(1,3,4) L1 Inl by (auto simp: same_process_def)
    next
      case (Inr u')
      then have r: "r = Inr ()" "st' = snd (disk_remove keyring_journal_file t2)"
        using run w1 w2 \<open>r1 = Inr u\<close> by (simp_all add: write_next_generation_locked sbind_Inr disk_remove_ignoring_def)
      then obtain r3 where w3: "disk_remove keyring_journal_file t2 = (r3, st')" by (metis prod.collapse)
      note W3 = disk_remove_run [OF w3 update_outcome_ok [OF W2(1) ok]]
      have only: "changes_only {keyring_journal_file, temporary_path keyring_journal_file} t2 st'"
        using W3(2) by (simp add: changes_only_def)
      have "?O st'" by (rule update_outcome_beside [OF W2(1) W3(1) only journal_paths])
      moreover have "map_of (cl_files st') q = map_of (cl_files t2) q" if "q \<in> {?G, keyring_current_file}" for q
        using changes_onlyD [OF only] that journal_paths(2) [of "kg_generation k"] journal_paths(3) by blast
      ultimately show ?thesis using W2(2,4) r Inr L1 by (cases "map_of (cl_files st) keyring_lock_file") auto
    qed
  qed
  then show "?O st'" "r = Inr () \<Longrightarrow> map_of (cl_files st') keyring_current_file = Some (to_vec (ke_pointer E) (pointer_to k)) \<and>
        map_of (cl_files st') ?G = Some (to_vec (ke_state E) k)"
    "cl_writes_left st = None \<Longrightarrow> map_of (cl_files st) keyring_lock_file = None \<Longrightarrow> r = Inr ()"
    "map_of (cl_files st) keyring_lock_file \<noteq> None \<Longrightarrow> (\<exists>e. r = Inl e) \<and>
      changes_only {keyring_journal_file, temporary_path keyring_journal_file} st st'"
    by auto
qed

section \<open>Reading it back\<close>

lemma read_pointer_to:
  assumes "serde_ok (ke_pointer E)" and "serde_ok (ke_state E)"
    and "map_of fs keyring_current_file = Some (to_vec (ke_pointer E) (pointer_to k))"
    and "map_of fs (generation_path (kg_generation k)) = Some (to_vec (ke_state E) k)"
  shows "read_current_keyring_state_with_pointer E fs = Inr (pointer_to k, k)"
  using assms by (simp add: read_current_keyring_state_with_pointer_def read_current_keyring_pointer_def
      decode_keyring_pointer_def read_json_def fs_read_def pointer_to_def)

lemma decode_keyring_pointer_iff:
  "decode_keyring_pointer E pb = Inr p \<longleftrightarrow>
     from_slice (ke_pointer E) pb = Some p \<and> validate_keyring_file_name (kp_current p) = Inr ()"
proof -
  have "(case v of Inl e \<Rightarrow> Inl e' | Inr u \<Rightarrow> Inr u) = Inr () \<longleftrightarrow> v = Inr ()" for v :: "unit res" and e' :: error
    by (cases v) auto
  then show ?thesis by (auto simp: decode_keyring_pointer_def res_simps)
qed

lemma read_current_cases:
  "read_current_keyring_state_with_pointer E fs = Inr (p, k) \<longleftrightarrow>
     (\<exists>pb kb. map_of fs keyring_current_file = Some pb \<and> from_slice (ke_pointer E) pb = Some p \<and>
        validate_keyring_file_name (kp_current p) = Inr () \<and> map_of fs (keyring_path (kp_current p)) = Some kb \<and>
        from_slice (ke_state E) kb = Some k \<and> kp_generation p = kg_generation k)"
  by (auto simp: read_current_keyring_state_with_pointer_def read_current_keyring_pointer_def decode_keyring_pointer_iff
      read_json_def fs_read_def res_simps split: if_splits)

definition names_generation :: "keyring_pointer \<Rightarrow> bool" where
  "names_generation p \<longleftrightarrow> (\<exists>g. kp_current p = keyring_file_name g)"

text \<open>After an update on any disk, what can be read as the current keyring is the old one or the new one.\<close>

lemma read_after_update:
  assumes E: "serde_ok (ke_pointer E)" "serde_ok (ke_state E)"
    and outcome: "next_outcome E k st st'"
    and before: "\<And>p k0. read_current_keyring_state_with_pointer E (cl_files st) = Inr (p, k0) \<Longrightarrow> names_generation p"
    and readable: "read_current_keyring_state_with_pointer E (cl_files st) = Inr (p0, k0)"
    and after: "read_current_keyring_state_with_pointer E (cl_files st') = Inr (p, k')"
  shows "(p, k') = (p0, k0) \<or> k' = k \<and> names_generation p"
proof -
  obtain pb kb where p: "map_of (cl_files st') keyring_current_file = Some pb" "from_slice (ke_pointer E) pb = Some p"
      "map_of (cl_files st') (keyring_path (kp_current p)) = Some kb" "from_slice (ke_state E) kb = Some k'"
    using after by (auto simp: read_current_cases)
  obtain pb0 kb0 where p0: "map_of (cl_files st) keyring_current_file = Some pb0" "from_slice (ke_pointer E) pb0 = Some p0"
      "map_of (cl_files st) (keyring_path (kp_current p0)) = Some kb0" "from_slice (ke_state E) kb0 = Some k0"
    using readable by (auto simp: read_current_cases)
  let ?G = "generation_path (kg_generation k)"
  consider "pb = pb0" | "pb = to_vec (ke_pointer E) (pointer_to k)" "map_of (cl_files st') ?G = Some (to_vec (ke_state E) k)"
    using outcome p(1) p0(1) unfolding update_outcome_def by auto
  then show ?thesis
  proof cases
    case 1
    then have eq: "p = p0" using p(2) p0(2) by simp
    obtain g where g: "kp_current p0 = keyring_file_name g" using before [OF readable] by (auto simp: names_generation_def)
    show ?thesis
    proof (cases "g = kg_generation k")
      case True
      then have "kb = kb0 \<or> kb = to_vec (ke_state E) k"
        using outcome p(3) p0(3) g eq unfolding update_outcome_def by auto
      then show ?thesis using p(4) p0(4) eq E(2) before [OF readable] by auto
    next
      case False
      then have "generation_path g \<notin> update_paths (kg_generation k)"
        using path_distinct(1) [of g] path_distinct(2) [of "kg_generation k" g] by (auto simp: update_paths_def)
      then have "kb = kb0" using outcome p(3) p0(3) g eq by (auto simp: update_outcome_def changes_only_def)
      then show ?thesis using p(4) p0(4) eq by simp
    qed
  next
    case 2
    then have "p = pointer_to k" using p(2) E(1) by simp
    then show ?thesis using 2 p(3,4) E(2) by (auto simp: pointer_to_def names_generation_def)
  qed
qed

end
