(* ===== verification/Keyring_Runs.thy ===== *)
theory Keyring_Runs
  imports Keyring_Writes
begin

text \<open>
  One run of each operation that writes a keyring: which keyring it started from, which one it writes, and
  that a device that is revoked stays revoked and without an envelope.
\<close>

section \<open>The envelopes of a new generation\<close>

definition only_draws :: "client \<Rightarrow> client \<Rightarrow> bool" where
  "only_draws st st' \<longleftrightarrow> st' = st\<lparr> cl_draws := cl_draws st' \<rparr>"

lemma only_draws_refl [simp]: "only_draws st st"
  by (simp add: only_draws_def)

lemma only_draws_trans: "only_draws s t \<Longrightarrow> only_draws t u \<Longrightarrow> only_draws s u"
  by (cases s; cases t; cases u) (simp add: only_draws_def)

lemma only_drawsD: "only_draws st st' \<Longrightarrow> cl_files st' = cl_files st \<and> cl_unlocked st' = cl_unlocked st \<and>
    cl_password st' = cl_password st \<and> cl_writes_left st' = cl_writes_left st"
  by (cases st; cases st') (simp add: only_draws_def)

lemma random_bytes_draws: "random_bytes n what st = (r, st') \<Longrightarrow> only_draws st st'"
  by (cases st; cases st') (auto simp: random_bytes_def only_draws_def split: list.splits if_splits)

lemma sbind_only_draws:
  assumes "sbind m f st = (r, st')" and "\<And>r' s'. m st = (r', s') \<Longrightarrow> only_draws st s'"
    and "\<And>x s'. m st = (Inr x, s') \<Longrightarrow> only_draws s' (snd (f x s'))"
  shows "only_draws st st'"
  using assms only_draws_trans by (fastforce simp: sbind_def split: prod.splits sum.splits)

lemma seal_draws: "seal_repo_secrets E i ep pw s h st = (r, st') \<Longrightarrow> only_draws st st'"
  by (auto simp: seal_repo_secrets_def Let_def sbind_def split: prod.splits sum.splits dest!: random_bytes_draws)

lemma seal_device_draws: "seal_repo_secrets_for_device E i ep pk s a d st = (r, st') \<Longrightarrow> only_draws st st'"
  by (auto simp: seal_repo_secrets_for_device_def Let_def sbind_def split: prod.splits sum.splits
      dest!: random_bytes_draws intro: only_draws_trans)

text \<open>A keyring into which secrets can be sealed.\<close>

definition seals :: "keyring_state \<Rightarrow> repo_secrets \<Rightarrow> bool" where
  "seals k s \<longleftrightarrow> kg_repo_id k = secrets_repo_id s \<and> kg_active_epoch k = active_epoch s"

definition resealed :: "keyring_env \<Rightarrow> keyring_state \<Rightarrow> repo_secrets \<Rightarrow> keyring_envelope \<Rightarrow> keyring_envelope \<Rightarrow> bool" where
  "resealed E k s e = device_envelope_for E k (ev_recipient_pubkey_hex e) (ev_actor_id e) (ev_device_id e) s"

abbreviation reaches_device :: "keyring_envelope \<Rightarrow> bool" where
  "reaches_device e \<equiv> ev_kind e = ''device'' \<and> ev_recipient_pubkey_hex e \<noteq> []"

lemma reseal_run:
  assumes "keyring_env_ok E" and "seals k s"
  shows "reseal_device_envelopes E s es st = (Inr out, st') \<Longrightarrow>
    list_all2 (resealed E k s) (filter reaches_device es) out"
proof (induction es arbitrary: st out)
  case (Cons e es)
  show ?case
  proof (cases "reaches_device e")
    case True
    obtain x rest st1 where x: "seal_repo_secrets_for_device E (secrets_repo_id s) (active_epoch s)
          (ev_recipient_pubkey_hex e) s (ev_actor_id e) (ev_device_id e) st = (Inr x, st1)"
        and rest: "reseal_device_envelopes E s es st1 = (Inr rest, st')" and out: "out = x # rest"
      using Cons.prems True by (auto simp: sbind_Inr_iff sret_def simp del: prog_simps sbind_prim)
    from x have "resealed E k s e x"
      using seal_repo_secrets_for_device_run(1) [OF assms(1), of k] assms(2) by (simp add: seals_def resealed_def)
    then show ?thesis using Cons.IH [OF rest] True out by simp
  next
    case False
    then have "reseal_device_envelopes E s es st = (Inr out, st')" using Cons.prems by (auto split: if_splits)
    then show ?thesis using Cons.IH False by auto
  qed
qed simp

lemma reseal_draws: "reseal_device_envelopes E s es st = (r, st') \<Longrightarrow> only_draws st st'"
proof (induction es arbitrary: st r st')
  case (Cons e es)
  show ?case
  proof (cases "reaches_device e")
    case True
    show ?thesis
    proof (rule sbind_only_draws)
      show "sbind (seal_repo_secrets_for_device E (secrets_repo_id s) (active_epoch s)
          (ev_recipient_pubkey_hex e) s (ev_actor_id e) (ev_device_id e)) (\<lambda>x.
        sbind (reseal_device_envelopes E s es) (\<lambda>rest. sret (x # rest))) st = (r, st')"
        using Cons.prems True by simp
      show "only_draws s' (snd (sbind (reseal_device_envelopes E s es) (\<lambda>rest. sret (x # rest)) s'))" for x s'
        using Cons.IH [of s'] by (auto simp: sbind_def split: prod.splits sum.splits)
    qed (rule seal_device_draws)
  next
    case False
    then show ?thesis using Cons.prems Cons.IH by (auto split: if_splits)
  qed
qed simp

lemma rebuild_run:
  assumes "keyring_env_ok E" and "seals k s"
    and "rebuild_local_device_and_password_envelopes E k0 s password st = (Inr es, st')"
  shows "\<exists>e out. es = e # out \<and> password_envelope_for E k password s e \<and>
    list_all2 (resealed E k s) (filter reaches_device (kg_envelopes k0)) out"
proof -
  obtain e st1 out where e: "seal_repo_secrets E (secrets_repo_id s) (active_epoch s) password s
          (redact_password_hint password) st = (Inr e, st1)"
      and out: "reseal_device_envelopes E s (kg_envelopes k0) st1 = (Inr out, st')" and es: "es = e # out"
    using assms(3) by (auto simp: rebuild_local_device_and_password_envelopes_def sbind_Inr_iff sret_def simp del: prog_simps sbind_prim)
  from seal_repo_secrets_run(1) [OF assms(1), of k] e assms(2) have "password_envelope_for E k password s e" by (simp add: seals_def)
  then show ?thesis using reseal_run [OF assms(1,2) out] es by blast
qed

lemma rebuild_draws:
  assumes "rebuild_local_device_and_password_envelopes E k0 s password st = (r, st')"
  shows "only_draws st st'"
proof (rule sbind_only_draws [OF assms [unfolded rebuild_local_device_and_password_envelopes_def]])
  show "only_draws s' (snd (sbind (reseal_device_envelopes E s (kg_envelopes k0)) (\<lambda>out. sret (x # out)) s'))" for x s'
    using reseal_draws [of E s "kg_envelopes k0" s'] by (auto simp: sbind_def split: prod.splits sum.splits)
qed (rule seal_draws)

section \<open>Unlocking with an envelope\<close>

lemma unlock_with_password_envelope:
  assumes "password_envelope_for E k password s e" and "find (\<lambda>e. ev_kind e = ''password'') (kg_envelopes k) = Some e"
    and "seals k s" and "secrets_ok s"
  shows "unlock_repo_secrets_from_state E k password = Inr s"
  using assms repo_secrets_of_sealed_secrets [OF assms(4)]
  by (simp add: unlock_repo_secrets_from_state_def password_envelope_for_def seals_def)

text \<open>A credential whose device has an envelope for its key.\<close>

definition has_envelope :: "keyring_env \<Rightarrow> keyring_state \<Rightarrow> local_device_credential \<Rightarrow> bool" where
  "has_envelope E k c \<longleftrightarrow>
     (\<exists>e secret_key. find (\<lambda>e. ev_kind e = ''device'' \<and> ev_device_id e \<noteq> [] \<and> ev_device_id e = cd_device_id c) (kg_envelopes k) = Some e \<and>
        ev_actor_id e = cd_actor_id c \<and> decode_hex_key (cd_private_key_hex c) = Inr secret_key \<and>
        ev_recipient_pubkey_hex e = hex_encode (ke_public_key E secret_key))"

lemma find_related:
  assumes "list_all2 R xs ys" and "find P xs = Some x" and "\<And>x y. x \<in> set xs \<Longrightarrow> R x y \<Longrightarrow> Q y = P x"
  shows "\<exists>y. find Q ys = Some y \<and> R x y"
  using assms by (induction rule: list_all2_induct) (auto split: if_splits)

lemma find_filter: "find P xs = Some x \<Longrightarrow> Q x \<Longrightarrow> find P (filter Q xs) = Some x"
  by (induction xs) (auto split: if_splits)

lemma unlock_resealed:
  assumes E: "keyring_env_ok E" and k: "seals k s" "secrets_ok s" and has: "has_envelope E k0 c"
    and out: "list_all2 (resealed E k s) (filter reaches_device (kg_envelopes k0)) out"
    and envelopes: "find (\<lambda>e. ev_kind e = ''device'' \<and> ev_device_id e \<noteq> [] \<and> ev_device_id e = cd_device_id c) (kg_envelopes k) =
      find (\<lambda>e. ev_kind e = ''device'' \<and> ev_device_id e \<noteq> [] \<and> ev_device_id e = cd_device_id c) out"
  shows "unlock_repo_secrets_from_state_with_local_device E k c = Inr s"
proof -
  let ?P = "\<lambda>e. ev_kind e = ''device'' \<and> ev_device_id e \<noteq> [] \<and> ev_device_id e = cd_device_id c"
  obtain e secret_key where e: "find ?P (kg_envelopes k0) = Some e" "ev_actor_id e = cd_actor_id c"
      "decode_hex_key (cd_private_key_hex c) = Inr secret_key" "ev_recipient_pubkey_hex e = hex_encode (ke_public_key E secret_key)"
    using has by (auto simp: has_envelope_def)
  have P: "?P e" using e(1) by (auto simp: find_Some_iff)
  have "length (ke_public_key E secret_key) = 32" using E by (simp add: keyring_env_ok_def)
  then have "reaches_device e" using P e(4) by auto
  have "\<exists>x. find ?P out = Some x \<and> resealed E k s e x"
  proof (rule find_related [OF out find_filter [where Q = reaches_device, OF e(1) \<open>reaches_device e\<close>]])
    show "?P y = ?P x" if "x \<in> set (filter reaches_device (kg_envelopes k0))" "resealed E k s x y" for x y
      using that by (auto simp: resealed_def device_envelope_for_def)
  qed
  then obtain x where x: "find ?P out = Some x" "resealed E k s e x" by blast
  then have "decrypt_device_envelope E k x c = Inr (sealed_secrets_of s)"
    using e P by (auto simp: resealed_def device_envelope_for_def)
  then show ?thesis
    using x(1) envelopes repo_secrets_of_sealed_secrets [OF k(2)] k(1)
    by (simp add: unlock_repo_secrets_from_state_with_local_device_def seals_def)
qed

lemma unlocked_secrets_seal:
  assumes "unlock_repo_secrets_uncached E password fs = Inr s" and "bt_ok (epoch_keys_of s)"
  shows "\<exists>p k. read_current_keyring_state_with_pointer E fs = Inr (p, k) \<and> seals k s \<and> secrets_ok s"
proof -
  obtain p k sealed where "read_current_keyring_state_with_pointer E fs = Inr (p, k)" "repo_secrets_of_sealed k sealed = Inr s"
    using assms(1) by (auto simp: unlock_repo_secrets_uncached_def read_current_keyring_state_def unlock_repo_secrets_from_state_def res_simps)
  then show ?thesis using repo_secrets_of_sealed_ok [OF _ assms(2)] by (auto simp: seals_def)
qed

section \<open>Changing the password\<close>

lemma cache_password_files [simp]:
  "cl_files (snd (cache_unlocked_secrets E s st)) = cl_files st" "cl_files (snd (cache_unlocked_password p st)) = cl_files st"
  by (simp_all add: cache_unlocked_secrets_def cache_unlocked_password_def)

lemma caches_run:
  "sbind (cache_unlocked_secrets E s) (\<lambda>_. cache_unlocked_password p) st = (r, st') \<Longrightarrow>
     r = Inr () \<and> cl_files st' = cl_files st \<and> cl_writes_left st' = cl_writes_left st"
  by (auto simp: sbind_def cache_unlocked_secrets_def cache_unlocked_password_def)

text \<open>Either nothing is written, or the next generation is, with these envelopes.\<close>

lemma change_password_cases:
  assumes run: "change_password E old new st = (r, st')" and ok: "bt_ok (cl_files st)"
  obtains (unchanged) e where "r = Inl e" "cl_files st' = cl_files st"
  | (written) s p k0 es st2 st3 where "unlock_repo_secrets_uncached E old (cl_files st) = Inr s"
      "read_current_keyring_state_with_pointer E (cl_files st) = Inr (p, k0)"
      "rebuild_local_device_and_password_envelopes E k0 s new st = (Inr es, st2)" "only_draws st st2"
      "write_next_generation E (k0\<lparr> kg_generation := kg_generation k0 + 1, kg_envelopes := es \<rparr>) st2 = (r, st3)"
      "cl_files st' = cl_files st3" "cl_writes_left st' = cl_writes_left st3"
proof (cases "unlock_repo_secrets_uncached E old (cl_files st)")
  case (Inl e)
  then have "r = Inl e" "cl_files st' = cl_files st" using run by (simp_all add: change_password_def sbind_Inl on_client_files_def)
  then show thesis by (rule unchanged)
next
  case (Inr s)
  then obtain p k0 where k0: "read_current_keyring_state_with_pointer E (cl_files st) = Inr (p, k0)"
    by (auto simp: unlock_repo_secrets_uncached_def read_current_keyring_state_def res_simps)
  obtain r2 st2 where w2: "rebuild_local_device_and_password_envelopes E k0 s new st = (r2, st2)" by fastforce
  note D = rebuild_draws [OF w2]
  show thesis
  proof (cases r2)
    case (Inl e)
    then have "r = Inl e" "cl_files st' = cl_files st"
      using run Inr k0 w2 only_drawsD [OF D] by (simp_all add: change_password_def sbind_Inr sbind_Inl on_client_files_def sbind_def)
    then show thesis by (rule unchanged)
  next
    case es: (Inr es)
    let ?k = "k0\<lparr> kg_generation := kg_generation k0 + 1, kg_envelopes := es \<rparr>"
    obtain r3 st3 where w3: "write_next_generation E ?k st2 = (r3, st3)" by fastforce
    have tail: "(case r3 of Inl e \<Rightarrow> (Inl e, st3) | Inr u \<Rightarrow>
        sbind (cache_unlocked_secrets E s) (\<lambda>_. cache_unlocked_password new) st3) = (r, st')"
      using run Inr k0 w2 es w3 by (simp add: change_password_def sbind_def on_client_files_def split: sum.splits)
    have "r = r3 \<and> cl_files st' = cl_files st3 \<and> cl_writes_left st' = cl_writes_left st3"
      using tail by (cases r3) (auto dest: caches_run)
    then show thesis using written [OF Inr k0 w2 [unfolded es] D] w3 by blast
  qed
qed

section \<open>Well-formed keyrings and revoked devices\<close>

text \<open>A device has one record, and an envelope belongs to a device that is not revoked.\<close>

definition keyring_ok :: "keyring_state \<Rightarrow> bool" where
  "keyring_ok k \<longleftrightarrow> distinct (map dv_device_id (kg_devices k)) \<and>
     (\<forall>e \<in> set (kg_envelopes k). ev_kind e = ''device'' \<longrightarrow>
        (\<exists>d \<in> set (kg_devices k). dv_device_id d = ev_device_id e \<and> dv_actor_id d = ev_actor_id e \<and> dv_status d \<noteq> ''revoked''))"

definition revoked_in :: "string \<Rightarrow> keyring_state \<Rightarrow> bool" where
  "revoked_in device_id k \<longleftrightarrow> (\<exists>d \<in> set (kg_devices k). dv_device_id d = device_id \<and> dv_status d = ''revoked'')"

lemma revoked_has_no_envelope:
  assumes "keyring_ok k" and "revoked_in i k" and "e \<in> set (kg_envelopes k)" and "ev_kind e = ''device''"
  shows "ev_device_id e \<noteq> i"
proof
  assume i: "ev_device_id e = i"
  obtain d where d: "d \<in> set (kg_devices k)" "dv_device_id d = i" "dv_status d \<noteq> ''revoked''"
    using assms(1,3,4) i by (auto simp: keyring_ok_def)
  obtain d' where d': "d' \<in> set (kg_devices k)" "dv_device_id d' = i" "dv_status d' = ''revoked''"
    using assms(2) by (auto simp: revoked_in_def)
  have "inj_on dv_device_id (set (kg_devices k))" using assms(1) by (simp add: keyring_ok_def distinct_map)
  then have "d = d'" using d d' by (auto dest: inj_onD)
  with d d' show False by simp
qed

definition sound_step :: "keyring_state \<Rightarrow> keyring_state \<Rightarrow> bool" where
  "sound_step k0 k \<longleftrightarrow> (keyring_ok k0 \<longrightarrow> keyring_ok k) \<and> (\<forall>i. revoked_in i k0 \<longrightarrow> revoked_in i k)"

lemma resealed_device:
  assumes "list_all2 (resealed E k s) (filter reaches_device (kg_envelopes k0)) out" and "keyring_ok k0" and "x \<in> set out"
  obtains d where "d \<in> set (kg_devices k0)" "dv_device_id d = ev_device_id x" "dv_actor_id d = ev_actor_id x" "dv_status d \<noteq> ''revoked''"
proof -
  let ?es = "filter reaches_device (kg_envelopes k0)"
  obtain i where i: "i < length out" "x = out ! i" using assms(3) by (auto simp: in_set_conv_nth)
  then have R: "resealed E k s (?es ! i) x" and "i < length ?es" using assms(1) by (auto simp: list_all2_conv_all_nth)
  then have "?es ! i \<in> set ?es" by (intro nth_mem)
  then have e: "?es ! i \<in> set (kg_envelopes k0)" "ev_kind (?es ! i) = ''device''" by simp_all
  with assms(2) obtain d where "d \<in> set (kg_devices k0)" "dv_device_id d = ev_device_id (?es ! i)"
      "dv_actor_id d = ev_actor_id (?es ! i)" "dv_status d \<noteq> ''revoked''"
    unfolding keyring_ok_def by blast
  with R show thesis by (intro that) (simp_all add: resealed_def device_envelope_for_def)
qed

lemma sound_new_envelopes:
  assumes "list_all2 (resealed E k s) (filter reaches_device (kg_envelopes k0)) out" and "password_envelope_for E k password s e"
  shows "sound_step k0 (k0\<lparr> kg_generation := g, kg_envelopes := e # out \<rparr>)"
proof -
  have "\<exists>d \<in> set (kg_devices k0). dv_device_id d = ev_device_id x \<and> dv_actor_id d = ev_actor_id x \<and> dv_status d \<noteq> ''revoked''"
    if "keyring_ok k0" "x \<in> set out" for x
    using resealed_device [OF assms(1) that] by blast
  moreover have "ev_kind e \<noteq> ''device''" using assms(2) by (simp add: password_envelope_for_def)
  ultimately have "keyring_ok (k0\<lparr> kg_generation := g, kg_envelopes := e # out \<rparr>)" if "keyring_ok k0"
    using that by (simp add: keyring_ok_def)
  then show ?thesis by (simp add: sound_step_def revoked_in_def)
qed

lemma sound_revocation:
  assumes "list_all2 (resealed E k s) (filter reaches_device (kg_envelopes k0)) out" and "password_envelope_for E k password s e"
    and match: "\<And>d x. d \<in> set (kg_devices k0) \<Longrightarrow> dv_device_id d = ev_device_id x \<Longrightarrow> dv_actor_id d = ev_actor_id x \<Longrightarrow>
      keep x \<Longrightarrow> \<not> P d"
  shows "sound_step k0 (k0\<lparr> kg_generation := g, kg_active_epoch := ep, kg_devices := revoke_where P (kg_devices k0),
    kg_epochs := eps, kg_envelopes := filter keep (e # out) \<rparr>)"
proof -
  let ?k = "k0\<lparr> kg_generation := g, kg_active_epoch := ep, kg_devices := revoke_where P (kg_devices k0),
    kg_epochs := eps, kg_envelopes := filter keep (e # out) \<rparr>"
  have ids: "map dv_device_id (revoke_where P ds) = map dv_device_id ds" for ds
    by (simp add: revoke_where_def)
  have "keyring_ok ?k" if ok: "keyring_ok k0"
    unfolding keyring_ok_def
  proof (intro conjI ballI impI)
    show "distinct (map dv_device_id (kg_devices ?k))" using ok by (simp add: ids keyring_ok_def)
    fix x assume "x \<in> set (kg_envelopes ?k)" and kind: "ev_kind x = ''device''"
    then have x: "x \<in> set out" "keep x" using assms(2) by (auto simp: password_envelope_for_def split: if_splits)
    obtain d where d: "d \<in> set (kg_devices k0)" "dv_device_id d = ev_device_id x" "dv_actor_id d = ev_actor_id x" "dv_status d \<noteq> ''revoked''"
      by (rule resealed_device [OF assms(1) ok x(1)])
    then have "\<not> P d" using match x(2) by blast
    then have "d \<in> set (kg_devices ?k)" using d(1) by (force simp: revoke_where_def)
    then show "\<exists>d \<in> set (kg_devices ?k). dv_device_id d = ev_device_id x \<and> dv_actor_id d = ev_actor_id x \<and> dv_status d \<noteq> ''revoked''"
      using d by blast
  qed
  moreover have "revoked_in i ?k" if "revoked_in i k0" for i
    using that by (force simp: revoked_in_def revoke_where_def)
  ultimately show ?thesis by (simp add: sound_step_def)
qed

section \<open>Merging devices\<close>

definition device_map :: "(string, device_record) btree \<Rightarrow> bool" where
  "device_map m \<longleftrightarrow> bt_ok m \<and> (\<forall>i d. map_of m i = Some d \<longrightarrow> dv_device_id d = i)"

definition revoked_at :: "(string, device_record) btree \<Rightarrow> string \<Rightarrow> bool" where
  "revoked_at m i \<longleftrightarrow> (\<exists>d. map_of m i = Some d \<and> dv_status d = ''revoked'')"

lemma merge_device_loop_run:
  "merge_device_loop m ds = Inr m' \<Longrightarrow> device_map m \<Longrightarrow>
     device_map m' \<and> (\<forall>i. revoked_at m i \<longrightarrow> revoked_at m' i) \<and>
     (\<forall>d \<in> set ds. dv_status d = ''revoked'' \<longrightarrow> revoked_at m' (dv_device_id d))"
proof (induction m ds rule: merge_device_loop.induct)
  case (2 m d ds)
  let ?i = "dv_device_id d"
  obtain d' where rest: "merge_device_loop (bt_insert ?i d' m) ds = Inr m'" and id: "dv_device_id d' = ?i"
    and revoked: "dv_status d = ''revoked'' \<or> revoked_at m ?i \<longrightarrow> dv_status d' = ''revoked''"
    and IH: "device_map (bt_insert ?i d' m) \<Longrightarrow> device_map m' \<and> (\<forall>i. revoked_at (bt_insert ?i d' m) i \<longrightarrow> revoked_at m' i) \<and>
      (\<forall>d \<in> set ds. dv_status d = ''revoked'' \<longrightarrow> revoked_at m' (dv_device_id d))"
  proof (cases "map_of m ?i")
    case None
    then show thesis using "2.prems"(1) "2.IH"(1) by (intro that [of d]) (auto simp: revoked_at_def)
  next
    case (Some x)
    let ?st = "if dv_status x = ''revoked'' \<or> dv_status d = ''revoked'' then ''revoked'' else dv_status x"
    let ?d = "\<lparr> dv_device_id = ?i, dv_actor_id = dv_actor_id d, dv_label = (if ?st = ''revoked'' then dv_label x else dv_label d),
      dv_pubkey_hex = dv_pubkey_hex d, dv_status = ?st \<rparr>"
    have "merge_device_loop (bt_insert ?i ?d m) ds = Inr m'"
      using "2.prems"(1) Some by (auto simp: Let_def split: if_splits)
    moreover have "\<not> (dv_actor_id x \<noteq> dv_actor_id d \<or> dv_pubkey_hex x \<noteq> dv_pubkey_hex d)"
      "\<not> (dv_label x \<noteq> dv_label d \<and> dv_status x = dv_status d \<and> dv_status x \<noteq> ''revoked'')"
      using "2.prems"(1) Some by (auto split: if_splits)
    ultimately show thesis using "2.IH"(2) [OF Some, of ?st "if ?st = ''revoked'' then dv_label x else dv_label d"] Some
      by (intro that [of ?d]) (auto simp: revoked_at_def)
  qed
  have ok: "bt_ok m" using "2.prems"(2) by (simp add: device_map_def)
  have map: "map_of (bt_insert ?i d' m) = (map_of m)(?i \<mapsto> d')" by (rule map_of_bt_insert [OF ok])
  have "device_map (bt_insert ?i d' m)" using "2.prems"(2) ok id by (auto simp: device_map_def map)
  note R = IH [OF this]
  have "revoked_at (bt_insert ?i d' m) i" if "revoked_at m i" for i
    using that revoked by (auto simp: revoked_at_def map)
  moreover have "revoked_at (bt_insert ?i d' m) ?i" if "dv_status d = ''revoked''"
    using that revoked by (auto simp: revoked_at_def map)
  ultimately show ?case using R by auto
qed simp

lemma merge_device_records_run:
  assumes "merge_device_records l r = Inr ds"
  shows "distinct (map dv_device_id ds)"
    and "revoked_in i l \<or> revoked_in i r \<Longrightarrow> \<exists>d \<in> set ds. dv_device_id d = i \<and> dv_status d = ''revoked''"
proof -
  obtain m where m: "merge_device_loop [] (kg_devices l @ kg_devices r) = Inr m" and ds: "ds = map snd m"
    using assms by (auto simp: merge_device_records_def res_simps)
  have "device_map []" by (simp add: device_map_def)
  note R = merge_device_loop_run [OF m this]
  then have ok: "bt_ok m" by (simp add: device_map_def)
  have "map dv_device_id ds = map fst m"
    using R bt_ok_distinct [OF ok] by (auto simp: ds device_map_def)
  then show "distinct (map dv_device_id ds)" using bt_ok_distinct [OF ok] by simp
  assume "revoked_in i l \<or> revoked_in i r"
  then have "revoked_at m i" using R by (auto simp: revoked_in_def)
  then obtain d where "map_of m i = Some d" "dv_status d = ''revoked''" by (auto simp: revoked_at_def)
  moreover from this have "dv_device_id d = i" "d \<in> set ds" using R by (auto simp: device_map_def ds dest: map_of_SomeD intro!: image_eqI)
  ultimately show "\<exists>d \<in> set ds. dv_device_id d = i \<and> dv_status d = ''revoked''" by blast
qed

lemma build_envelopes_run:
  assumes "keyring_env_ok E" and "kg_repo_id k = repo_id" and "kg_active_epoch k = epoch"
  shows "build_device_envelopes_for_active_devices E repo_id ds epoch s st = (Inr out, st') \<Longrightarrow>
    list_all2 (\<lambda>d. device_envelope_for E k (dv_pubkey_hex d) (dv_actor_id d) (dv_device_id d) s)
      (filter (\<lambda>d. dv_status d = ''active'') ds) out"
proof (induction ds arbitrary: st out)
  case (Cons d ds)
  show ?case
  proof (cases "dv_status d = ''active''")
    case True
    obtain x rest st1 where x: "seal_repo_secrets_for_device E repo_id epoch (dv_pubkey_hex d) s (dv_actor_id d)
          (dv_device_id d) st = (Inr x, st1)"
        and rest: "build_device_envelopes_for_active_devices E repo_id ds epoch s st1 = (Inr rest, st')" and out: "out = x # rest"
      using Cons.prems True by (auto simp: sbind_Inr_iff sret_def simp del: prog_simps sbind_prim)
    from x have "device_envelope_for E k (dv_pubkey_hex d) (dv_actor_id d) (dv_device_id d) s x"
      using seal_repo_secrets_for_device_run(1) [OF assms(1), of k] assms(2,3) by simp
    then show ?thesis using Cons.IH [OF rest] True out by simp
  next
    case False
    then show ?thesis using Cons.prems Cons.IH by auto
  qed
qed simp

lemma build_envelopes_draws: "build_device_envelopes_for_active_devices E i ds ep s st = (r, st') \<Longrightarrow> only_draws st st'"
proof (induction ds arbitrary: st r st')
  case (Cons d ds)
  show ?case
  proof (cases "dv_status d = ''active''")
    case True
    show ?thesis
    proof (rule sbind_only_draws)
      show "sbind (seal_repo_secrets_for_device E i ep (dv_pubkey_hex d) s (dv_actor_id d) (dv_device_id d)) (\<lambda>x.
        sbind (build_device_envelopes_for_active_devices E i ds ep s) (\<lambda>rest. sret (x # rest))) st = (r, st')"
        using Cons.prems True by simp
      show "only_draws s' (snd (sbind (build_device_envelopes_for_active_devices E i ds ep s) (\<lambda>rest. sret (x # rest)) s'))" for x s'
        using Cons.IH [of s'] by (auto simp: sbind_def split: prod.splits sum.splits)
    qed (rule seal_device_draws)
  next
    case False
    then show ?thesis using Cons.prems Cons.IH by auto
  qed
qed simp

end
