(* ===== verification/Keyring_Steps.thy ===== *)
theory Keyring_Steps
  imports Keyring_Runs
begin

text \<open>
  The runs of revoking, accepting and reconciling, the relation of all steps that change the keyring of a
  client, and the invariant that a revoked device keeps through them.
\<close>

section \<open>Operations that leave the files alone\<close>

lemma open_repo_secrets_files: "open_repo_secrets E st = (r, st') \<Longrightarrow> cl_files st' = cl_files st \<and> cl_writes_left st' = cl_writes_left st \<and> cl_draws st' = cl_draws st"
  by (auto simp: open_repo_secrets_def clear_unlocked_keyring_cache_def sbind_def split: option.splits sum.splits if_splits)

lemma cache_secrets_run: "cache_unlocked_secrets E s st = (r, st') \<Longrightarrow>
    r = Inr () \<and> cl_files st' = cl_files st \<and> cl_writes_left st' = cl_writes_left st \<and> cl_draws st' = cl_draws st"
  by (auto simp: cache_unlocked_secrets_def)

lemma unlock_local_device_files:
  "unlock_repo_secrets_with_local_device E st = (r, st') \<Longrightarrow> cl_files st' = cl_files st \<and> cl_writes_left st' = cl_writes_left st \<and> cl_draws st' = cl_draws st"
  by (auto simp: unlock_repo_secrets_with_local_device_def on_client_files_def sbind_def cache_unlocked_secrets_def
      split: sum.splits prod.splits)

lemma open_or_unlock_files:
  "open_or_unlock_repo_secrets_for_sync E st = (r, st') \<Longrightarrow> cl_files st' = cl_files st \<and> cl_writes_left st' = cl_writes_left st \<and> cl_draws st' = cl_draws st"
  "open_or_unlock_repo_secrets_with_local_device E st = (r, st') \<Longrightarrow> cl_files st' = cl_files st \<and> cl_writes_left st' = cl_writes_left st \<and> cl_draws st' = cl_draws st"
proof -
  obtain r1 s1 where 1: "open_repo_secrets E st = (r1, s1)" by fastforce
  note F1 = open_repo_secrets_files [OF 1]
  obtain r2 s2 where 2: "unlock_repo_secrets_with_local_device E s1 = (r2, s2)" by fastforce
  note F2 = unlock_local_device_files [OF 2]
  show "open_or_unlock_repo_secrets_for_sync E st = (r, st') \<Longrightarrow> cl_files st' = cl_files st \<and> cl_writes_left st' = cl_writes_left st \<and> cl_draws st' = cl_draws st"
    using 1 F1 2 F2 by (auto simp: open_or_unlock_repo_secrets_for_sync_def split: sum.splits)
  show "open_or_unlock_repo_secrets_with_local_device E st = (r, st') \<Longrightarrow> cl_files st' = cl_files st \<and> cl_writes_left st' = cl_writes_left st \<and> cl_draws st' = cl_draws st"
    using 1 F1 2 F2
    by (auto simp: open_or_unlock_repo_secrets_with_local_device_def sbind_def sret_def split: sum.splits prod.splits dest!: cache_secrets_run)
qed

section \<open>Runs\<close>

text \<open>The files outside the directory of the keyring; all other code writes only these.\<close>

definition device_paths :: "string set" where
  "device_paths = {p. take 8 p \<noteq> ''keyring/''}"

lemma device_file_paths: "{local_device_file, temporary_path local_device_file} \<subseteq> device_paths"
  unfolding temporary_fixed_paths by (simp add: device_paths_def local_device_file_def)

lemma device_file_change:
  "changes_only {local_device_file, temporary_path local_device_file} st st' \<Longrightarrow> changes_only device_paths st st'"
  using device_file_paths unfolding changes_only_def by blast

definition beside_paths :: "string set" where
  "beside_paths = {keyring_journal_file, temporary_path keyring_journal_file} \<union> device_paths"

text \<open>
  A run changes at most files outside the keyring, or it started from a readable keyring and wrote, as far
  as its disk let it, a keyring that is a sound step from that one. A lock that is there prevents this.
\<close>

definition keyring_run :: "keyring_env \<Rightarrow> client \<Rightarrow> client \<Rightarrow> bool" where
  "keyring_run E st st' \<longleftrightarrow> (bt_ok (cl_files st) \<longrightarrow> bt_ok (cl_files st')) \<and>
     (map_of (cl_files st) keyring_lock_file \<noteq> None \<longrightarrow> changes_only beside_paths st st') \<and>
     (changes_only device_paths st st' \<or>
      (\<exists>p k0 k st1 st2. read_current_keyring_state_with_pointer E (cl_files st) = Inr (p, k0) \<and> sound_step k0 k \<and>
         cl_files st1 = cl_files st \<and> next_outcome E k st1 st2 \<and> changes_only device_paths st2 st'))"

lemma keyring_run_unchanged: "cl_files st' = cl_files st \<Longrightarrow> keyring_run E st st'"
  by (simp add: keyring_run_def changes_only_def)

lemma keyring_run_written:
  assumes "bt_ok (cl_files st)" and "read_current_keyring_state_with_pointer E (cl_files st) = Inr (p, k0)"
    and "write_next_generation E k st1 = (r, st2)" and "cl_files st1 = cl_files st" and "cl_files st' = cl_files st2"
    and "sound_step k0 k"
  shows "keyring_run E st st'"
proof -
  have O: "next_outcome E k st1 st2" using write_next_generation_run(1) [OF assms(3)] assms(1,4) by simp
  have "bt_ok (cl_files st2)" using update_outcome_ok [OF O] assms(1,4) by simp
  moreover have "changes_only device_paths st2 st'" using assms(5) by (simp add: changes_only_def)
  moreover have "changes_only beside_paths st st'" if "map_of (cl_files st) keyring_lock_file \<noteq> None"
    using write_next_generation_run(4) [OF assms(3)] assms(1,4,5) that by (simp add: changes_only_def beside_paths_def)
  ultimately show ?thesis using assms(2,4-6) O by (auto simp: keyring_run_def)
qed

lemma change_password_runs:
  assumes E: "keyring_env_ok E" and run: "change_password E old new st = (r, st')" and ok: "bt_ok (cl_files st)"
  shows "keyring_run E st st'"
  using run ok
proof (cases rule: change_password_cases)
  case unchanged
  then show ?thesis by (intro keyring_run_unchanged) simp
next
  case (written s p k0 es st2 st3)
  let ?k = "k0\<lparr> kg_repo_id := secrets_repo_id s, kg_active_epoch := active_epoch s \<rparr>"
  have "seals ?k s" by (simp add: seals_def)
  from rebuild_run [OF E this written(3)] obtain e out where es: "es = e # out" "password_envelope_for E ?k new s e"
      "list_all2 (resealed E ?k s) (filter reaches_device (kg_envelopes k0)) out" by blast
  have "sound_step k0 (k0\<lparr> kg_generation := kg_generation k0 + 1, kg_envelopes := es \<rparr>)"
    unfolding es(1) by (rule sound_new_envelopes [OF es(3,2)])
  then show ?thesis
    using keyring_run_written [OF ok written(2,5)] only_drawsD [OF written(4)] written(6) by simp
qed

section \<open>Revocations\<close>

lemma advance_epoch_run:
  "advance_epoch s st = (Inr s', st') \<Longrightarrow>
     (\<exists>enc nonce. length enc = 32 \<and> length nonce = 32 \<and> s' = s\<lparr> active_epoch := active_epoch s + 1, repo_manifest_enc_key := enc,
        repo_nonce_key := nonce, epoch_keys_of := bt_insert (active_epoch s + 1) \<lparr> manifest_enc_key = enc, nonce_key = nonce \<rparr> (epoch_keys_of s) \<rparr>)"
  by (auto simp: advance_epoch_def random_key_material_def Let_def sbind_Inr_iff sret_def simp del: prog_simps sbind_prim dest!: random_bytes_Inr)

lemma advance_epoch_draws: "advance_epoch s st = (r, st') \<Longrightarrow> only_draws st st'"
  by (auto simp: advance_epoch_def random_key_material_def Let_def sbind_def sret_def split: prod.splits sum.splits
      dest!: random_bytes_draws intro: only_draws_trans)

definition revoked_keyring :: "keyring_state \<Rightarrow> repo_secrets \<Rightarrow> (device_record \<Rightarrow> bool) \<Rightarrow> keyring_envelope list \<Rightarrow> keyring_state" where
  "revoked_keyring k0 s P es = k0\<lparr> kg_generation := kg_generation k0 + 1, kg_active_epoch := active_epoch s,
     kg_devices := revoke_where P (kg_devices k0), kg_epochs := build_epoch_descriptors s, kg_envelopes := es \<rparr>"

lemma publish_revocation_cases:
  assumes run: "publish_revocation E k0 s password P keep st = (r, st')"
  obtains (unchanged) e where "r = Inl e" "cl_files st' = cl_files st"
  | (written) s' es st1 st2 st3 where "advance_epoch s st = (Inr s', st1)"
      "rebuild_local_device_and_password_envelopes E k0 s' password st1 = (Inr es, st2)" "only_draws st st2"
      "write_next_generation E (revoked_keyring k0 s' P (filter keep es)) st2 = (r, st3)" "cl_files st' = cl_files st3"
proof -
  obtain r1 st1 where w1: "advance_epoch s st = (r1, st1)" by fastforce
  note D1 = advance_epoch_draws [OF w1]
  show thesis
  proof (cases r1)
    case (Inl e)
    then show thesis using run w1 only_drawsD [OF D1] by (intro unchanged [of e]) (simp_all add: publish_revocation_def sbind_Inl)
  next
    case s': (Inr s')
    obtain r2 st2 where w2: "rebuild_local_device_and_password_envelopes E k0 s' password st1 = (r2, st2)" by fastforce
    note D2 = only_draws_trans [OF D1 rebuild_draws [OF w2]]
    show thesis
    proof (cases r2)
      case (Inl e)
      then show thesis using run w1 s' w2 only_drawsD [OF D2]
        by (intro unchanged [of e]) (simp_all add: publish_revocation_def sbind_Inr sbind_Inl)
    next
      case (Inr es)
      obtain r3 st3 where w3: "write_next_generation E (revoked_keyring k0 s' P (filter keep es)) st2 = (r3, st3)" by fastforce
      have "(case r3 of Inl e \<Rightarrow> (Inl e, st3) | Inr u \<Rightarrow>
          sbind (cache_unlocked_secrets E s') (\<lambda>_. cache_unlocked_password password) st3) = (r, st')"
        using run w1 s' w2 Inr w3 by (simp add: publish_revocation_def sbind_def revoked_keyring_def split: sum.splits)
      then have "r = r3 \<and> cl_files st' = cl_files st3" by (cases r3) (auto dest: caches_run)
      then show thesis using written [OF w1 [unfolded s'] w2 [unfolded Inr] D2] w3 by simp
    qed
  qed
qed

lemma publish_revocation_runs:
  assumes E: "keyring_env_ok E" and run: "publish_revocation E k0 s password P keep st = (r, st')"
    and read: "read_current_keyring_state_with_pointer E (cl_files st) = Inr (p, k0)" and ok: "bt_ok (cl_files st)"
    and match: "\<And>d x. d \<in> set (kg_devices k0) \<Longrightarrow> dv_device_id d = ev_device_id x \<Longrightarrow> dv_actor_id d = ev_actor_id x \<Longrightarrow>
      keep x \<Longrightarrow> \<not> P d"
  shows "keyring_run E st st'"
    and "r = Inr () \<Longrightarrow> \<exists>k. read_current_keyring_state_with_pointer E (cl_files st') = Inr (pointer_to k, k) \<and>
      sound_step k0 k \<and> (\<forall>d \<in> set (kg_devices k0). P d \<longrightarrow> revoked_in (dv_device_id d) k)"
proof -
  have "keyring_run E st st' \<and> (r = Inr () \<longrightarrow> (\<exists>k. read_current_keyring_state_with_pointer E (cl_files st') = Inr (pointer_to k, k) \<and>
      sound_step k0 k \<and> (\<forall>d \<in> set (kg_devices k0). P d \<longrightarrow> revoked_in (dv_device_id d) k)))"
    using run
  proof (cases rule: publish_revocation_cases)
    case unchanged
    then show ?thesis using keyring_run_unchanged by simp
  next
    case (written s' es st1 st2 st3)
    let ?k = "k0\<lparr> kg_repo_id := secrets_repo_id s', kg_active_epoch := active_epoch s' \<rparr>"
    have "seals ?k s'" by (simp add: seals_def)
    from rebuild_run [OF E this written(2)] obtain e out where es: "es = e # out" "password_envelope_for E ?k password s' e"
        "list_all2 (resealed E ?k s') (filter reaches_device (kg_envelopes k0)) out" by blast
    let ?n = "revoked_keyring k0 s' P (filter keep es)"
    have sound: "sound_step k0 ?n" unfolding es(1) revoked_keyring_def by (rule sound_revocation [OF es(3,2) match])
    have files: "cl_files st2 = cl_files st" using only_drawsD [OF written(3)] by simp
    have "keyring_run E st st'" by (rule keyring_run_written [OF ok read written(4) files written(5) sound])
    moreover have "read_current_keyring_state_with_pointer E (cl_files st') = Inr (pointer_to ?n, ?n)" if "r = Inr ()"
      unfolding written(5) using write_next_generation_run(2) [OF written(4)] ok files that E
      by (intro read_pointer_to) (simp_all add: keyring_env_ok_def)
    moreover have "revoked_in (dv_device_id d) ?n" if "d \<in> set (kg_devices k0)" "P d" for d
    proof -
      have "d\<lparr> dv_status := ''revoked'' \<rparr> \<in> set (revoke_where P (kg_devices k0))" using that by (force simp: revoke_where_def)
      then show ?thesis unfolding revoked_in_def by (intro bexI) (simp_all add: revoked_keyring_def)
    qed
    ultimately show ?thesis using sound by blast
  qed
  then show "keyring_run E st st'"
    "r = Inr () \<Longrightarrow> \<exists>k. read_current_keyring_state_with_pointer E (cl_files st') = Inr (pointer_to k, k) \<and>
      sound_step k0 k \<and> (\<forall>d \<in> set (kg_devices k0). P d \<longrightarrow> revoked_in (dv_device_id d) k)" by auto
qed

lemma guard_files: "(if b then m else sfail e) st = (r, st') \<Longrightarrow> \<not> b \<Longrightarrow> cl_files st' = cl_files st"
  by (simp add: sfail_def)

lemma on_client_files_bind: "sbind (on_client_files f) g st = (case f (cl_files st) of Inl e \<Rightarrow> (Inl e, st) | Inr x \<Rightarrow> g x st)"
  by (simp add: sbind_def on_client_files_def split: sum.splits)

lemma share_revoke_device_runs:
  assumes E: "keyring_env_ok E" and run: "share_revoke_device E device_id password st = (r, st')" and ok: "bt_ok (cl_files st)"
  shows "keyring_run E st st'"
    and "r = Inr () \<Longrightarrow> \<exists>p k0 k. read_current_keyring_state_with_pointer E (cl_files st) = Inr (p, k0) \<and>
      read_current_keyring_state_with_pointer E (cl_files st') = Inr (pointer_to k, k) \<and> sound_step k0 k \<and> revoked_in device_id k"
proof -
  obtain r1 st1 where o: "open_or_unlock_repo_secrets_with_local_device E st = (r1, st1)" by fastforce
  note F = open_or_unlock_files(2) [OF o]
  have "cl_files st' = cl_files st \<and> r \<noteq> Inr () \<or>
      (\<exists>s p k0 t. read_current_keyring_state_with_pointer E (cl_files st) = Inr (p, k0) \<and>
        find (\<lambda>d. dv_device_id d = device_id) (kg_devices k0) = Some t \<and>
        publish_revocation E k0 s password (\<lambda>d. dv_device_id d = device_id) (\<lambda>e. ev_device_id e \<noteq> device_id) st1 = (r, st'))"
    using run o F by (auto simp: share_revoke_device_def on_client_files_bind sbind_def [of "open_or_unlock_repo_secrets_with_local_device E"]
        split: if_splits sum.splits option.splits prod.splits)
  then have "keyring_run E st st' \<and> (r = Inr () \<longrightarrow> (\<exists>p k0 k. read_current_keyring_state_with_pointer E (cl_files st) = Inr (p, k0) \<and>
      read_current_keyring_state_with_pointer E (cl_files st') = Inr (pointer_to k, k) \<and> sound_step k0 k \<and> revoked_in device_id k))"
  proof (elim disjE exE conjE)
    assume "cl_files st' = cl_files st" "r \<noteq> Inr ()"
    then show ?thesis using keyring_run_unchanged by simp
  next
    fix s p k0 t
    assume read: "read_current_keyring_state_with_pointer E (cl_files st) = Inr (p, k0)"
      and t: "find (\<lambda>d. dv_device_id d = device_id) (kg_devices k0) = Some t"
      and pub: "publish_revocation E k0 s password (\<lambda>d. dv_device_id d = device_id) (\<lambda>e. ev_device_id e \<noteq> device_id) st1 = (r, st')"
    have read1: "read_current_keyring_state_with_pointer E (cl_files st1) = Inr (p, k0)" and ok1: "bt_ok (cl_files st1)"
      using read ok F by simp_all
    note R = publish_revocation_runs [OF E pub read1 ok1]
    have "t \<in> set (kg_devices k0)" "dv_device_id t = device_id" using t by (auto simp: find_Some_iff)
    then show ?thesis using R read F by (fastforce simp: keyring_run_def changes_only_def)
  qed
  then show "keyring_run E st st'"
    "r = Inr () \<Longrightarrow> \<exists>p k0 k. read_current_keyring_state_with_pointer E (cl_files st) = Inr (p, k0) \<and>
      read_current_keyring_state_with_pointer E (cl_files st') = Inr (pointer_to k, k) \<and> sound_step k0 k \<and> revoked_in device_id k"
    by auto
qed

lemma share_revoke_member_runs:
  assumes E: "keyring_env_ok E" and run: "share_revoke_member E actor_id password st = (r, st')" and ok: "bt_ok (cl_files st)"
  shows "keyring_run E st st'"
proof -
  obtain r1 st1 where o: "open_or_unlock_repo_secrets_with_local_device E st = (r1, st1)" by fastforce
  note F = open_or_unlock_files(2) [OF o]
  have "cl_files st' = cl_files st \<or>
      (\<exists>s p k0. read_current_keyring_state_with_pointer E (cl_files st) = Inr (p, k0) \<and>
        publish_revocation E k0 s password (\<lambda>d. dv_actor_id d = actor_id) (\<lambda>e. ev_actor_id e \<noteq> actor_id) st1 = (r, st'))"
    using run o F by (auto simp: share_revoke_member_def on_client_files_bind sbind_def [of "open_or_unlock_repo_secrets_with_local_device E"]
        split: if_splits sum.splits option.splits prod.splits)
  then show ?thesis
  proof (elim disjE exE conjE)
    assume "cl_files st' = cl_files st"
    then show ?thesis by (rule keyring_run_unchanged)
  next
    fix s p k0
    assume read: "read_current_keyring_state_with_pointer E (cl_files st) = Inr (p, k0)"
      and pub: "publish_revocation E k0 s password (\<lambda>d. dv_actor_id d = actor_id) (\<lambda>e. ev_actor_id e \<noteq> actor_id) st1 = (r, st')"
    have "read_current_keyring_state_with_pointer E (cl_files st1) = Inr (p, k0)" "bt_ok (cl_files st1)"
      using read ok F by simp_all
    from publish_revocation_runs(1) [OF E pub this] show ?thesis using F by (fastforce simp: keyring_run_def changes_only_def)
  qed
qed

section \<open>Accepting an invitation\<close>

lemma publish_bytes_run:
  assumes run: "publish_bytes path bytes st = (r, st')" and path: "temporary_path path \<noteq> path" and ok: "bt_ok (cl_files st)"
  shows "changes_only {path, temporary_path path} st st'" and "bt_ok (cl_files st')"
proof -
  obtain r1 st1 where w: "disk_write (temporary_path path) bytes st = (r1, st1)" by fastforce
  note W = disk_write_run [OF w ok]
  have ok1: "bt_ok (cl_files st1)" using W(1) ok by (simp add: same_process_def)
  have "changes_only {path, temporary_path path} st st' \<and> bt_ok (cl_files st')"
  proof (cases r1)
    case (Inl e)
    then show ?thesis using run w W(2) ok1 by (auto simp: publish_bytes_def sbind_Inl changes_only_def)
  next
    case (Inr u)
    then have "on_disk (\<lambda>fs. bt_insert path bytes (bt_remove (temporary_path path) fs)) st1 = (r, st')"
      using run w W(4) by (simp add: publish_bytes_def sbind_Inr disk_rename_def)
    from on_disk_run [OF this] ok1 W(2) path show ?thesis
      by (auto simp: changes_only_def map_of_bt_insert map_of_bt_remove)
  qed
  then show "changes_only {path, temporary_path path} st st'" "bt_ok (cl_files st')" by auto
qed

lemma sound_accept:
  assumes "device_envelope_for E k pk (dv_actor_id d) (dv_device_id d) s e" and "dv_status d \<noteq> ''revoked''"
    and "dv_device_id d \<notin> dv_device_id ` set (kg_devices k0)"
  shows "sound_step k0 (k0\<lparr> kg_generation := g, kg_actors := as, kg_devices := kg_devices k0 @ [d], kg_envelopes := kg_envelopes k0 @ [e] \<rparr>)"
  using assms by (auto simp: sound_step_def keyring_ok_def revoked_in_def device_envelope_for_def)

lemma accept_share_device_runs:
  assumes E: "keyring_env_ok E" and run: "accept_share_device E invite label create st = (r, st')" and ok: "bt_ok (cl_files st)"
    and there: "cl_files st \<noteq> []"
    and fresh: "\<And>p k. read_current_keyring_state_with_pointer E (cl_files st) = Inr (p, k) \<Longrightarrow>
      ''device-'' @ hex_encode (hd (cl_draws st)) \<notin> dv_device_id ` set (kg_devices k)"
  shows "keyring_run E st st'"
proof -
  obtain r1 st1 where o: "open_or_unlock_repo_secrets_with_local_device E st = (r1, st1)" by fastforce
  note F = open_or_unlock_files(2) [OF o]
  let ?next = "\<lambda>k0 actors dev e. k0\<lparr> kg_generation := kg_generation k0 + 1, kg_actors := actors,
    kg_devices := kg_devices k0 @ [active_device_of dev], kg_envelopes := kg_envelopes k0 @ [e] \<rparr>"
  have "cl_files st' = cl_files st \<or>
      (\<exists>s p k0 bytes st2 dev st3 e st4 actors r5 st5.
        read_current_keyring_state_with_pointer E (cl_files st) = Inr (p, k0) \<and>
        random_bytes 8 ''failed to obtain random identifier'' st1 = (Inr bytes, st2) \<and>
        generate_local_device_credential E (in_actor_id invite) (''device-'' @ hex_encode bytes) label st2 = (Inr dev, st3) \<and>
        seal_repo_secrets_for_device E (secrets_repo_id s) (active_epoch s) (cd_public_key_hex dev) s (in_actor_id invite)
          (cd_device_id dev) st3 = (Inr e, st4) \<and>
        write_next_generation E (?next k0 actors dev e) st4 = (r5, st5) \<and>
        (cl_files st' = cl_files st5 \<or>
         (\<exists>r6 st6. write_local_device_credential E dev st5 = (r6, st6) \<and> cl_files st' = cl_files st6)))" (is "_ \<or> ?written")
  proof (cases r1)
    case (Inl e)
    then show ?thesis using run there o F by (auto simp: accept_share_device_def sbind_Inl split: if_splits)
  next
    case (Inr s)
    show ?thesis
    proof (cases "\<not> blank label \<and> secrets_repo_id s = in_repo_id invite \<and>
        (\<exists>p k0. read_current_keyring_state_with_pointer E (cl_files st) = Inr (p, k0) \<and>
          create \<noteq> list_ex (\<lambda>a. ac_actor_id a = in_actor_id invite) (kg_actors k0))")
      case False
      then show ?thesis using run there o Inr F
        by (auto simp: accept_share_device_def sbind_Inr on_client_files_bind split: if_splits sum.splits prod.splits)
    next
      case True
      then obtain p k0 where k0: "read_current_keyring_state_with_pointer E (cl_files st) = Inr (p, k0)"
          "create \<noteq> list_ex (\<lambda>a. ac_actor_id a = in_actor_id invite) (kg_actors k0)" by blast
      obtain r2 st2 where w2: "random_bytes 8 ''failed to obtain random identifier'' st1 = (r2, st2)" by fastforce
      note D2 = random_bytes_draws [OF w2]
      show ?thesis
      proof (cases r2)
        case (Inl e)
        then show ?thesis using run there o \<open>r1 = Inr s\<close> F True k0 w2 only_drawsD [OF D2]
          by (auto simp: accept_share_device_def sbind_Inr sbind_Inl on_client_files_bind random_hex_identifier_def)
      next
        case bytes: (Inr bytes)
        obtain r3 st3 where w3: "generate_local_device_credential E (in_actor_id invite) (''device-'' @ hex_encode bytes) label st2 = (r3, st3)"
          by fastforce
        have D3: "only_draws st1 st3" using w3 D2
          by (auto simp: generate_local_device_credential_def sbind_def sret_def split: prod.splits sum.splits
              dest!: random_bytes_draws intro: only_draws_trans)
        have hex: "random_hex_identifier st1 = (Inr (hex_encode bytes), st2)"
          using w2 bytes by (simp add: random_hex_identifier_def sbind_Inr)
        note run1 = run [unfolded accept_share_device_def]
        show ?thesis
        proof (cases r3)
          case (Inl e)
          then show ?thesis using run1 there o \<open>r1 = Inr s\<close> F True k0 hex w3 only_drawsD [OF D3]
            by (auto simp: sbind_Inr sbind_Inl on_client_files_bind)
        next
          case dev: (Inr dev)
          obtain r4 st4 where w4: "seal_repo_secrets_for_device E (secrets_repo_id s) (active_epoch s) (cd_public_key_hex dev) s
              (in_actor_id invite) (cd_device_id dev) st3 = (r4, st4)" by fastforce
          note D4 = only_draws_trans [OF D3 seal_device_draws [OF w4]]
          show ?thesis
          proof (cases r4)
            case (Inl e)
            then show ?thesis using run1 there o \<open>r1 = Inr s\<close> F True k0 hex w3 dev w4 only_drawsD [OF D4]
              by (auto simp: sbind_Inr sbind_Inl on_client_files_bind)
          next
            case e: (Inr e)
            let ?as = "kg_actors k0 @ (if create then [\<lparr> ac_actor_id = in_actor_id invite, ac_display_name = in_display_name invite,
                  ac_role = in_role invite \<rparr>] else [])"
            obtain r5 st5 where w5: "write_next_generation E (?next k0 ?as dev e) st4 = (r5, st5)" by fastforce
            obtain r6 st6 where w6: "write_local_device_credential E dev st5 = (r6, st6)" by fastforce
            have "cl_files st' = cl_files st5 \<or> cl_files st' = cl_files st6"
              using run1 there o \<open>r1 = Inr s\<close> F True k0 hex w3 dev w4 e w5 w6
              by (cases r5; cases r6) (auto simp: sbind_Inr sbind_Inl on_client_files_bind cache_unlocked_secrets_def sbind_def [of "cache_unlocked_secrets E s"])
            then show ?thesis using k0 w2 bytes w3 dev w4 e w5 w6 by blast
          qed
        qed
      qed
    qed
  qed
  then show ?thesis
  proof
    assume "cl_files st' = cl_files st"
    then show ?thesis by (rule keyring_run_unchanged)
  next
    assume "?written"
    then obtain s p k0 bytes st2 dev st3 e st4 actors r5 st5 where
      read: "read_current_keyring_state_with_pointer E (cl_files st) = Inr (p, k0)"
      and w2: "random_bytes 8 ''failed to obtain random identifier'' st1 = (Inr bytes, st2)"
      and w3: "generate_local_device_credential E (in_actor_id invite) (''device-'' @ hex_encode bytes) label st2 = (Inr dev, st3)"
      and w4: "seal_repo_secrets_for_device E (secrets_repo_id s) (active_epoch s) (cd_public_key_hex dev) s (in_actor_id invite)
          (cd_device_id dev) st3 = (Inr e, st4)"
      and w5: "write_next_generation E (?next k0 actors dev e) st4 = (r5, st5)"
      and rest: "cl_files st' = cl_files st5 \<or> (\<exists>r6 st6. write_local_device_credential E dev st5 = (r6, st6) \<and> cl_files st' = cl_files st6)"
      by blast
    have bytes: "bytes = hd (cl_draws st)" using w2 F by (auto simp: random_bytes_def split: list.splits if_splits)
    have dev: "cd_device_id dev = ''device-'' @ hex_encode bytes" "cd_actor_id dev = in_actor_id invite"
      using w3 by (auto simp: generate_local_device_credential_def sbind_Inr_iff sret_def simp del: prog_simps sbind_prim)
    let ?k = "k0\<lparr> kg_repo_id := secrets_repo_id s, kg_active_epoch := active_epoch s \<rparr>"
    have "device_envelope_for E ?k (cd_public_key_hex dev) (in_actor_id invite) (cd_device_id dev) s e"
      using seal_repo_secrets_for_device_run(1) [OF E, of ?k] w4 by simp
    then have sound: "sound_step k0 (?next k0 actors dev e)"
      using fresh [OF read] dev bytes by (intro sound_accept [of E ?k "cd_public_key_hex dev" _ s]) (simp_all add: active_device_of_def)
    have "only_draws st2 st3" using w3
      by (auto simp: generate_local_device_credential_def sbind_def sret_def split: prod.splits sum.splits dest!: random_bytes_draws)
    then have files: "cl_files st4 = cl_files st"
      using only_drawsD [OF only_draws_trans [OF random_bytes_draws [OF w2] only_draws_trans [OF _ seal_device_draws [OF w4]]]] F by simp
    have ok4: "bt_ok (cl_files st4)" using ok files by simp
    note O = write_next_generation_run(1) [OF w5 ok4]
    have ok5: "bt_ok (cl_files st5)" by (rule update_outcome_ok [OF O ok4])
    have "temporary_path local_device_file \<noteq> local_device_file" unfolding temporary_fixed_paths by (simp add: local_device_file_def)
    note publish = publish_bytes_run [OF _ this ok5]
    have "changes_only device_paths st5 st' \<and> bt_ok (cl_files st')"
      using rest
    proof
      assume "cl_files st' = cl_files st5"
      then show ?thesis using ok5 by (simp add: changes_only_def)
    next
      assume "\<exists>r6 st6. write_local_device_credential E dev st5 = (r6, st6) \<and> cl_files st' = cl_files st6"
      then obtain r6 st6 where w6: "write_local_device_credential E dev st5 = (r6, st6)" and st': "cl_files st' = cl_files st6" by blast
      note W6 = publish [OF w6 [unfolded write_local_device_credential_def]]
      show ?thesis using device_file_change [OF W6(1)] W6(2) st' by (simp add: changes_only_def)
    qed
    moreover have "changes_only beside_paths st st'" if "map_of (cl_files st) keyring_lock_file \<noteq> None"
    proof -
      have "changes_only {keyring_journal_file, temporary_path keyring_journal_file} st4 st5"
        using write_next_generation_run(4) [OF w5 ok4] that files by simp
      with calculation show ?thesis using files by (auto simp: changes_only_def beside_paths_def)
    qed
    ultimately show ?thesis using read sound files O unfolding keyring_run_def by blast
  qed
qed

section \<open>Reconciling with a remote keyring\<close>

definition next_merged :: "keyring_state \<Rightarrow> keyring_state \<Rightarrow> keyring_state \<Rightarrow> keyring_envelope list \<Rightarrow> keyring_state" where
  "next_merged l r merged es =
     merged\<lparr> kg_generation := max (kg_generation l) (kg_generation r) + 1, kg_envelopes := es \<rparr>"

lemma authoritative_secrets_files:
  "authoritative_secrets_for E l rs bytes st = (r, st') \<Longrightarrow> cl_files st' = cl_files st"
  by (auto simp: authoritative_secrets_for_def sbind_def on_client_files_def sret_def split: sum.splits prod.splits if_splits
      dest!: open_or_unlock_files(1))

lemma merged_envelopes_draws: "merged_envelopes E l rs m s st = (r, st') \<Longrightarrow> only_draws st st'"
  by (auto simp: merged_envelopes_def Let_def sbind_def sret_def split: sum.splits prod.splits dest!: build_envelopes_draws)

lemma reconcile_cases:
  assumes run: "reconcile_remote_keyring_for_sync E bytes st = (r, st')"
  obtains (unchanged) "cl_files st' = cl_files st" "r \<noteq> Inr True"
  | (written) p l rs s st1 merged es st2 r3 st3 where
      "read_current_keyring_state_with_pointer E (cl_files st) = Inr (p, l)" "from_slice (ke_state E) bytes = Some rs"
      "kg_repo_id l = kg_repo_id rs" "authoritative_secrets_for E l rs bytes st = (Inr s, st1)"
      "merged_keyring_without_envelopes l rs s = Inr merged" "merged_envelopes E l rs merged s st1 = (Inr es, st2)"
      "cl_files st2 = cl_files st" "write_next_generation E (next_merged l rs merged es) st2 = (r3, st3)"
      "cl_files st' = cl_files st3" "r = rbind r3 (\<lambda>u. Inr True)"
proof (cases "read_current_keyring_state_with_pointer E (cl_files st)")
  case (Inl e)
  then show thesis using run by (intro unchanged) (auto simp: reconcile_remote_keyring_for_sync_def on_client_files_bind)
next
  case (Inr pl)
  then obtain p l where l: "read_current_keyring_state_with_pointer E (cl_files st) = Inr (p, l)" by (cases pl) auto
  note run1 = run [unfolded reconcile_remote_keyring_for_sync_def]
  show thesis
  proof (cases "\<exists>rs. from_slice (ke_state E) bytes = Some rs \<and> kg_repo_id l = kg_repo_id rs")
    case False
    then show thesis using run1 l
      by (intro unchanged) (cases "from_slice (ke_state E) bytes"; auto simp: on_client_files_bind with_context_def)+
  next
    case True
    then obtain rs where rs: "from_slice (ke_state E) bytes = Some rs" "kg_repo_id l = kg_repo_id rs" by blast
    obtain r1 st1 where w1: "authoritative_secrets_for E l rs bytes st = (r1, st1)" by fastforce
    note F1 = authoritative_secrets_files [OF w1]
    show thesis
    proof (cases r1)
      case (Inl e)
      then show thesis using run1 l rs w1 F1 by (intro unchanged) (auto simp: on_client_files_bind sbind_Inl)
    next
      case s: (Inr s)
      show thesis
      proof (cases "merged_keyring_without_envelopes l rs s")
        case (Inl e)
        then show thesis using run1 l rs w1 s F1 by (intro unchanged) (auto simp: on_client_files_bind sbind_Inr)
      next
        case merged: (Inr merged)
        obtain r2 st2 where w2: "merged_envelopes E l rs merged s st1 = (r2, st2)" by fastforce
        have F2: "cl_files st2 = cl_files st" using only_drawsD [OF merged_envelopes_draws [OF w2]] F1 by simp
        show thesis
        proof (cases r2)
          case (Inl e)
          then show thesis using run1 l rs w1 s merged w2 F1 F2
            by (intro unchanged) (auto simp: on_client_files_bind sbind_Inr sbind_Inl split: if_splits)
        next
          case es: (Inr es)
          obtain r3 st3 where w3: "write_next_generation E (next_merged l rs merged es) st2 = (r3, st3)" by fastforce
          let ?n = "next_merged l rs merged es"
          have base: "(if merged = comparable_keyring_state l then (Inr False, st1)
              else if comparable_keyring_state l = comparable_keyring_state ?n \<and> kg_active_epoch l = kg_active_epoch ?n \<and>
                kg_generation l = kg_generation ?n then (Inr False, st2)
              else (case r3 of Inl e \<Rightarrow> (Inl e, st3) | Inr u \<Rightarrow> sbind (cache_unlocked_secrets E s) (\<lambda>_. sret True) st3)) = (r, st')"
            using run1 l rs w1 s merged w2 es w3 unfolding next_merged_def
            by (simp add: on_client_files_bind sbind_Inr Let_def if_apply sbind_def [of "write_next_generation E _"] cong: if_cong)
          show thesis
          proof (cases "merged = comparable_keyring_state l \<or>
              comparable_keyring_state l = comparable_keyring_state ?n \<and> kg_active_epoch l = kg_active_epoch ?n \<and> kg_generation l = kg_generation ?n")
            case True
            then have "st' \<in> {st1, st2} \<and> r = Inr False" using base by (auto split: if_splits)
            then show thesis using F1 F2 by (intro unchanged) auto
          next
            case False
            then have "(case r3 of Inl e \<Rightarrow> (Inl e, st3) | Inr u \<Rightarrow> sbind (cache_unlocked_secrets E s) (\<lambda>_. sret True) st3) = (r, st')"
              using base by (simp split: if_splits)
            then have "cl_files st' = cl_files st3 \<and> r = rbind r3 (\<lambda>u. Inr True)"
              by (cases r3) (auto simp: cache_unlocked_secrets_def sbind_def)
            then show thesis using written [OF l rs w1 [unfolded s] merged w2 [unfolded es] F2 w3] by blast
          qed
        qed
      qed
    qed
  qed
qed

lemma merged_keyring_facts:
  assumes "merged_keyring_without_envelopes l rs s = Inr merged"
  shows "distinct (map dv_device_id (kg_devices merged))" and "kg_repo_id merged = kg_repo_id l"
    and "kg_active_epoch merged = max (kg_active_epoch l) (kg_active_epoch rs)"
    and "revoked_in i l \<or> revoked_in i rs \<Longrightarrow> revoked_in i merged"
proof -
  obtain ds where ds: "merge_device_records l rs = Inr ds" "kg_devices merged = sort_key dv_device_id ds"
    using assms by (auto simp: merged_keyring_without_envelopes_def res_simps)
  note R = merge_device_records_run [OF ds(1)]
  have "distinct ds" using R(1) by (simp add: distinct_map)
  then show "distinct (map dv_device_id (kg_devices merged))" using R(1) by (simp add: ds(2) distinct_map)
  show "kg_repo_id merged = kg_repo_id l" "kg_active_epoch merged = max (kg_active_epoch l) (kg_active_epoch rs)"
    using assms by (auto simp: merged_keyring_without_envelopes_def res_simps)
  assume "revoked_in i l \<or> revoked_in i rs"
  from R(2) [OF this] show "revoked_in i merged" by (simp add: revoked_in_def ds(2))
qed

lemma merged_envelopes_run:
  assumes E: "keyring_env_ok E" and "merged_envelopes E l rs merged s st = (Inr es, st')" and "kg_repo_id k = kg_repo_id l"
    and "kg_active_epoch k = kg_active_epoch merged"
  shows "\<exists>out. list_all2 (\<lambda>d. device_envelope_for E k (dv_pubkey_hex d) (dv_actor_id d) (dv_device_id d) s)
        (filter (\<lambda>d. dv_status d = ''active'') (kg_devices merged)) out \<and>
      es = sort_key (\<lambda>e. (ev_kind e, ev_actor_id e, ev_device_id e, ev_envelope_id e))
        ((case select_password_envelope_for_active_epoch l rs (kg_active_epoch merged) of None \<Rightarrow> [] | Some e \<Rightarrow> [e]) @ out)"
proof -
  obtain out where "build_device_envelopes_for_active_devices E (kg_repo_id l) (kg_devices merged) (kg_active_epoch merged) s st = (Inr out, st')"
      and "es = sort_key (\<lambda>e. (ev_kind e, ev_actor_id e, ev_device_id e, ev_envelope_id e))
        ((case select_password_envelope_for_active_epoch l rs (kg_active_epoch merged) of None \<Rightarrow> [] | Some e \<Rightarrow> [e]) @ out)"
    using assms(2) by (auto simp: merged_envelopes_def Let_def sbind_Inr_iff sret_def simp del: prog_simps sbind_prim)
  then show ?thesis using build_envelopes_run [OF E assms(3) assms(4)] by blast
qed

lemma selected_password_kind:
  "select_password_envelope_for_active_epoch l rs ep = Some e \<Longrightarrow> ev_kind e = ''password''"
  by (auto simp: select_password_envelope_for_active_epoch_def Let_def find_Some_iff split: if_splits)

lemma sound_merge:
  assumes E: "keyring_env_ok E" and merged: "merged_keyring_without_envelopes l rs s = Inr merged"
    and es: "merged_envelopes E l rs merged s st = (Inr es, st')"
  shows "sound_step l (next_merged l rs merged es)"
proof -
  let ?k = "next_merged l rs merged es"
  note M = merged_keyring_facts [OF merged]
  have k: "kg_repo_id ?k = kg_repo_id l" "kg_active_epoch ?k = kg_active_epoch merged" using M(2) by (simp_all add: next_merged_def)
  from merged_envelopes_run [OF E es k] obtain out where
      out: "list_all2 (\<lambda>d. device_envelope_for E ?k (dv_pubkey_hex d) (dv_actor_id d) (dv_device_id d) s)
        (filter (\<lambda>d. dv_status d = ''active'') (kg_devices merged)) out"
      and set_es: "set es = set ((case select_password_envelope_for_active_epoch l rs (kg_active_epoch merged) of None \<Rightarrow> [] | Some e \<Rightarrow> [e]) @ out)"
    by auto
  have "keyring_ok ?k"
    unfolding keyring_ok_def
  proof (intro conjI ballI impI)
    show "distinct (map dv_device_id (kg_devices ?k))" using M(1) by (simp add: next_merged_def)
    fix x assume "x \<in> set (kg_envelopes ?k)" "ev_kind x = ''device''"
    then have "x \<in> set out" using set_es by (auto simp: next_merged_def dest: selected_password_kind [OF sym] split: option.splits)
    then obtain i where i: "i < length out" "x = out ! i" by (auto simp: in_set_conv_nth)
    let ?ds = "filter (\<lambda>d. dv_status d = ''active'') (kg_devices merged)"
    have "device_envelope_for E ?k (dv_pubkey_hex (?ds ! i)) (dv_actor_id (?ds ! i)) (dv_device_id (?ds ! i)) s x" and "i < length ?ds"
      using out i by (auto simp: list_all2_conv_all_nth)
    then have "?ds ! i \<in> set ?ds" "dv_device_id (?ds ! i) = ev_device_id x" "dv_actor_id (?ds ! i) = ev_actor_id x"
      by (auto simp only: nth_mem) (auto simp: device_envelope_for_def)
    then show "\<exists>d \<in> set (kg_devices ?k). dv_device_id d = ev_device_id x \<and> dv_actor_id d = ev_actor_id x \<and> dv_status d \<noteq> ''revoked''"
      by (intro bexI [of _ "?ds ! i"]) (auto simp: next_merged_def)
  qed
  moreover have "revoked_in i ?k" if "revoked_in i l" for i
    using M(4) [of i] that by (simp add: revoked_in_def next_merged_def)
  ultimately show ?thesis by (simp add: sound_step_def)
qed

lemma reconcile_runs:
  assumes E: "keyring_env_ok E" and run: "reconcile_remote_keyring_for_sync E bytes st = (r, st')" and ok: "bt_ok (cl_files st)"
  shows "keyring_run E st st'"
  using run
proof (cases rule: reconcile_cases)
  case unchanged
  then show ?thesis by (intro keyring_run_unchanged) simp
next
  case (written p l rs s st1 merged es st2 r3 st3)
  show ?thesis by (rule keyring_run_written [OF ok written(1,8,7,9) sound_merge [OF E written(5,6)]])
qed

section \<open>All steps\<close>

text \<open>
  What may happen to a client that has a repository: the process restarts, the disk gets better or worse,
  other code uses the caches, draws random bytes and writes files outside the directory of the keyring, and any
  of the operations that write a new generation runs, with any outcome. The recovery of an interrupted update
  and the installation of an invitation on an empty directory are not among them.
\<close>

inductive keyring_step :: "keyring_env \<Rightarrow> client \<Rightarrow> client \<Rightarrow> bool" for E where
  environment: "changes_only device_paths st st' \<Longrightarrow> bt_ok (cl_files st') \<Longrightarrow> keyring_step E st st'"
| password: "change_password E old new st = (r, st') \<Longrightarrow> keyring_step E st st'"
| revoke_device: "share_revoke_device E device_id password st = (r, st') \<Longrightarrow> keyring_step E st st'"
| revoke_member: "share_revoke_member E actor_id password st = (r, st') \<Longrightarrow> keyring_step E st st'"
| accept: "accept_share_device E invite label create st = (r, st') \<Longrightarrow> cl_files st \<noteq> [] \<Longrightarrow>
    (\<And>p k. read_current_keyring_state_with_pointer E (cl_files st) = Inr (p, k) \<Longrightarrow>
      ''device-'' @ hex_encode (hd (cl_draws st)) \<notin> dv_device_id ` set (kg_devices k)) \<Longrightarrow> keyring_step E st st'"
| reconcile: "reconcile_remote_keyring_for_sync E bytes st = (r, st') \<Longrightarrow> keyring_step E st st'"

lemma keyring_step_runs:
  assumes E: "keyring_env_ok E" and "keyring_step E st st'" and "bt_ok (cl_files st)"
  shows "keyring_run E st st'"
  using assms(2)
proof cases
  case environment
  then show ?thesis by (simp add: keyring_run_def changes_only_def beside_paths_def)
next
  case (password old new r)
  then show ?thesis by (rule change_password_runs [OF E _ assms(3)])
next
  case (revoke_device device_id password r)
  then show ?thesis by (rule share_revoke_device_runs(1) [OF E _ assms(3)])
next
  case (revoke_member actor_id password r)
  then show ?thesis by (rule share_revoke_member_runs [OF E _ assms(3)])
next
  case (accept invite label create r)
  then show ?thesis by (intro accept_share_device_runs [OF E _ assms(3)])
next
  case (reconcile bytes r)
  then show ?thesis by (rule reconcile_runs [OF E _ assms(3)])
qed

text \<open>The invariant: whatever keyring can be read is well formed and has the device revoked.\<close>

definition bars :: "keyring_env \<Rightarrow> string \<Rightarrow> client \<Rightarrow> bool" where
  "bars E i st \<longleftrightarrow> bt_ok (cl_files st) \<and>
     (\<forall>p k. read_current_keyring_state_with_pointer E (cl_files st) = Inr (p, k) \<longrightarrow>
        names_generation p \<and> keyring_ok k \<and> revoked_in i k)"

lemma current_paths:
  "keyring_current_file \<notin> beside_paths" "keyring_path name \<notin> beside_paths" "keyring_lock_file \<notin> beside_paths"
  unfolding beside_paths_def device_paths_def temporary_fixed_paths by (simp_all add: keyring_path_def keyring_dir_def keyring_current_file_def
      keyring_lock_file_def keyring_journal_file_def)

lemma read_beside:
  assumes "changes_only beside_paths st st'"
  shows "read_current_keyring_state_with_pointer E (cl_files st') = read_current_keyring_state_with_pointer E (cl_files st)"
  using changes_onlyD [OF assms current_paths(1)] changes_onlyD [OF assms current_paths(2)]
  by (simp add: read_current_keyring_state_with_pointer_def read_current_keyring_pointer_def read_json_def fs_read_def)

lemma beside_device: "changes_only device_paths st st' \<Longrightarrow> changes_only beside_paths st st'"
  by (simp add: changes_only_def beside_paths_def)

lemma bars_step:
  assumes E: "keyring_env_ok E" and bars: "bars E i st" and step: "keyring_step E st st'"
  shows "bars E i st'"
proof -
  have ok: "bt_ok (cl_files st)" using bars by (simp add: bars_def)
  note R = keyring_step_runs [OF E step ok]
  have ok': "bt_ok (cl_files st')" using R ok by (simp add: keyring_run_def)
  have codecs: "serde_ok (ke_pointer E)" "serde_ok (ke_state E)" using E by (simp_all add: keyring_env_ok_def)
  have "names_generation p \<and> keyring_ok k \<and> revoked_in i k"
    if after: "read_current_keyring_state_with_pointer E (cl_files st') = Inr (p, k)" for p k
  proof (cases "changes_only device_paths st st'")
    case True
    then show ?thesis using after bars read_beside [OF beside_device [OF True]] by (simp add: bars_def)
  next
    case False
    then obtain p0 k0 n st1 st2 where before: "read_current_keyring_state_with_pointer E (cl_files st) = Inr (p0, k0)"
        and sound: "sound_step k0 n" and files: "cl_files st1 = cl_files st" and O: "next_outcome E n st1 st2"
        and rest: "changes_only device_paths st2 st'"
      using R unfolding keyring_run_def by blast
    have "read_current_keyring_state_with_pointer E (cl_files st2) = Inr (p, k)"
      using after read_beside [OF beside_device [OF rest]] by simp
    from read_after_update [OF codecs O _ _ this, of p0 k0] before bars files
    have "(p, k) = (p0, k0) \<or> k = n \<and> names_generation p" by (simp add: bars_def)
    then show ?thesis using before bars sound by (auto simp: bars_def sound_step_def)
  qed
  then show ?thesis using ok' by (simp add: bars_def)
qed

lemma bars_steps:
  assumes "(keyring_step E)\<^sup>*\<^sup>* st st'" and "keyring_env_ok E" and "bars E i st"
  shows "bars E i st'"
  using assms by (induction rule: rtranclp_induct) (auto intro: bars_step)

lemma lock_steps:
  assumes "(keyring_step E)\<^sup>*\<^sup>* st st'" and "keyring_env_ok E" and "bt_ok (cl_files st)"
    and "map_of (cl_files st) keyring_lock_file \<noteq> None"
  shows "bt_ok (cl_files st') \<and> map_of (cl_files st') keyring_lock_file \<noteq> None \<and>
    read_current_keyring_state_with_pointer E (cl_files st') = read_current_keyring_state_with_pointer E (cl_files st)"
  using assms(1)
proof (induction rule: rtranclp_induct)
  case (step s t)
  then have ok: "bt_ok (cl_files s)" and lock: "map_of (cl_files s) keyring_lock_file \<noteq> None" by simp_all
  note R = keyring_step_runs [OF assms(2) step.hyps(2) ok]
  then have only: "changes_only beside_paths s t" using lock by (simp add: keyring_run_def)
  have "bt_ok (cl_files t)" using R ok by (simp add: keyring_run_def)
  moreover have "map_of (cl_files t) keyring_lock_file \<noteq> None" using changes_onlyD [OF only current_paths(3)] lock by simp
  ultimately show ?case using read_beside [OF only] step.IH by simp
qed (use assms in simp)

end
