(* ===== verification/Keyring_Sample.thy ===== *)
theory Keyring_Sample
  imports Keyring_Steps
begin

text \<open>
  A small repository with two devices, on which the properties of the keyring are applied: the owner's
  device is the local one, and a member has another.
\<close>

section \<open>Codecs and cryptography\<close>

instance keyring_envelope_ext :: (countable) countable
  by (rule countable_classI [of "\<lambda>r. to_nat (ev_kind r, ev_envelope_id r, ev_actor_id r, ev_device_id r,
        ev_recipient_pubkey_hex r, ev_record_hex r, ev_password_hint r, ev_salt_hex r, ev_nonce_hex r,
        ev_ciphertext_hex r, ev_auth_tag_hex r, keyring_envelope.more r)"]) auto

instance actor_record_ext :: (countable) countable
  by (rule countable_classI [of "\<lambda>r. to_nat (ac_actor_id r, ac_display_name r, ac_role r, actor_record.more r)"]) auto

instance device_record_ext :: (countable) countable
  by (rule countable_classI [of "\<lambda>r. to_nat (dv_device_id r, dv_actor_id r, dv_label r, dv_pubkey_hex r, dv_status r,
        device_record.more r)"]) auto

instance epoch_descriptor_ext :: (countable) countable
  by (rule countable_classI [of "\<lambda>r. to_nat (ep_epoch r, ep_status r, epoch_descriptor.more r)"]) auto

instance keyring_state_ext :: (countable) countable
  by (rule countable_classI [of "\<lambda>r. to_nat (kg_format_version r, kg_generation r, kg_repo_id r, kg_active_epoch r,
        kg_crypto_suite r, kg_kdf r, kg_actors r, kg_devices r, kg_epochs r, kg_envelopes r, keyring_state.more r)"]) auto

instance sealed_repo_secrets_ext :: (countable) countable
  by (rule countable_classI [of "\<lambda>r. to_nat (sl_repo_dedup_key_hex r, sl_repo_ref_key_hex r, sl_repo_manifest_enc_key_hex r,
        sl_repo_nonce_key_hex r, sl_repo_path_index_key_hex r, sl_epoch_manifest_enc_keys_hex r,
        sl_epoch_nonce_keys_hex r, sealed_repo_secrets.more r)"]) auto

instance password_envelope_record_ext :: (countable) countable
  by (rule countable_classI [of "\<lambda>r. to_nat (pr_magic r, pr_format_version r, pr_object_type r, pr_crypto_suite r,
        pr_nonce r, pr_ciphertext r, pr_auth_tag r, password_envelope_record.more r)"]) auto

instance device_envelope_record_ext :: (countable) countable
  by (rule countable_classI [of "\<lambda>r. to_nat (de_magic r, de_format_version r, de_object_type r, de_crypto_suite r,
        de_ephemeral_public_key r, de_nonce r, de_ciphertext r, de_auth_tag r, device_envelope_record.more r)"]) auto

instance local_device_credential_ext :: (countable) countable
  by (rule countable_classI [of "\<lambda>r. to_nat (cd_actor_id r, cd_device_id r, cd_label r, cd_public_key_hex r,
        cd_private_key_hex r, local_device_credential.more r)"]) auto

instance local_bootstrap_credential_ext :: (countable) countable
  by (rule countable_classI [of "\<lambda>r. to_nat (lb_credential r, lb_keyring_pointer r, lb_keyring_state r,
        local_bootstrap_credential.more r)"]) auto

instance json :: countable by countable_datatype

definition keyring_env0 :: keyring_env where
  "keyring_env0 = \<lparr> ke_crypto = plain_crypto, ke_argon2 = (\<lambda>p s. Some []), ke_public_key = (\<lambda>k. replicate 32 0),
     ke_diffie_hellman = (\<lambda>a b. []), ke_hash = (\<lambda>m. replicate 32 0), ke_sealed = unary_codec,
     ke_password_record = unary_codec, ke_device_record = unary_codec, ke_pointer = unary_codec,
     ke_state = unary_codec, ke_credential = unary_codec, ke_bootstrap = unary_codec, ke_json = unary_codec \<rparr>"

lemma keyring_env0_ok: "keyring_env_ok keyring_env0"
  by (simp add: keyring_env_ok_def keyring_env0_def plain_crypto_ok)

lemma keyring_env0_codecs [simp]:
  "serde_ok (ke_pointer keyring_env0)" "serde_ok (ke_state keyring_env0)" "serde_ok (ke_credential keyring_env0)"
  using keyring_env0_ok by (simp_all add: keyring_env_ok_def)

section \<open>The repository\<close>

definition secrets0 :: "byte \<Rightarrow> repo_secrets" where
  "secrets0 b = \<lparr> secrets_repo_id = ''r'', active_epoch = 1, repo_dedup_key = replicate 32 0, repo_ref_key = replicate 32 0,
     repo_manifest_enc_key = replicate 32 b, repo_nonce_key = replicate 32 0, repo_path_index_key = replicate 32 0,
     epoch_keys_of = [(1, \<lparr> manifest_enc_key = replicate 32 b, nonce_key = replicate 32 0 \<rparr>)] \<rparr>"

lemma secrets0_ok: "secrets_ok (secrets0 b)"
  by (simp add: secrets_ok_def secrets0_def bt_ok_def)

definition public_key0 :: string where
  "public_key0 = hex_encode (replicate 32 0)"

definition credential0 :: "string \<Rightarrow> string \<Rightarrow> local_device_credential" where
  "credential0 actor_id device_id = \<lparr> cd_actor_id = actor_id, cd_device_id = device_id, cd_label = ''l'',
     cd_public_key_hex = public_key0, cd_private_key_hex = hex_encode (replicate 32 7) \<rparr>"

definition device0 :: "string \<Rightarrow> string \<Rightarrow> device_record" where
  "device0 actor_id device_id = \<lparr> dv_device_id = device_id, dv_actor_id = actor_id, dv_label = ''l'',
     dv_pubkey_hex = public_key0, dv_status = ''active'' \<rparr>"

definition keyring0 :: "keyring_envelope list \<Rightarrow> keyring_state" where
  "keyring0 es = \<lparr> kg_format_version = 1, kg_generation = 1, kg_repo_id = ''r'', kg_active_epoch = 1,
     kg_crypto_suite = ''c'', kg_kdf = ''k'',
     kg_actors = [\<lparr> ac_actor_id = ''owner'', ac_display_name = ''o'', ac_role = ''owner_admin'' \<rparr>,
                  \<lparr> ac_actor_id = ''member'', ac_display_name = ''m'', ac_role = ''member'' \<rparr>],
     kg_devices = [device0 ''owner'' ''d1'', device0 ''member'' ''d2''],
     kg_epochs = [\<lparr> ep_epoch = 1, ep_status = ''active'' \<rparr>], kg_envelopes = es \<rparr>"

text \<open>Draws for as many seals as a step needs.\<close>

definition draws0 :: "byte list list" where
  "draws0 = [replicate 24 0, replicate 32 0, replicate 24 0, replicate 32 0, replicate 24 0]"

definition client0 :: "files \<Rightarrow> byte list list \<Rightarrow> nat option \<Rightarrow> client" where
  "client0 fs ds n = \<lparr> cl_files = fs, cl_unlocked = None, cl_password = None, cl_draws = ds, cl_writes_left = n \<rparr>"

lemma random_bytes_draw: "cl_draws st = d # ds \<Longrightarrow> length d = n \<Longrightarrow> random_bytes n what st = (Inr d, st\<lparr> cl_draws := ds \<rparr>)"
  by (simp add: random_bytes_def)

text \<open>With these parameters sealing never fails.\<close>

lemma seal0:
  assumes "cl_draws st = d # ds" and "length d = 24"
  shows "\<exists>e. seal_repo_secrets keyring_env0 i ep password s hint st = (Inr e, st\<lparr> cl_draws := ds \<rparr>)"
  using assms
  by (simp add: seal_repo_secrets_def Let_def derive_password_key_def keyring_env0_def plain_crypto_def sbind_def
      random_bytes_draw)

lemma seal_device0:
  assumes "cl_draws st = d # e # ds" and "length d = 32" and "length e = 24"
  shows "\<exists>x. seal_repo_secrets_for_device keyring_env0 i ep public_key0 s a dv st = (Inr x, st\<lparr> cl_draws := ds \<rparr>)"
  using assms
  by (simp add: seal_repo_secrets_for_device_def Let_def public_key0_def decode_hex_key_encode keyring_env0_def
      plain_crypto_def sbind_def random_bytes_draw)

text \<open>The envelopes of the two devices and the password.\<close>

definition envelopes0 :: "byte \<Rightarrow> keyring_envelope list \<Rightarrow> bool" where
  "envelopes0 b es \<longleftrightarrow> (\<exists>e x y. es = [e, x, y] \<and>
     password_envelope_for keyring_env0 (keyring0 []) ''old'' (secrets0 b) e \<and>
     device_envelope_for keyring_env0 (keyring0 []) public_key0 ''owner'' ''d1'' (secrets0 b) x \<and>
     device_envelope_for keyring_env0 (keyring0 []) public_key0 ''member'' ''d2'' (secrets0 b) y)"

lemma sample_envelopes: "\<exists>es. envelopes0 b es"
proof -
  let ?st = "client0 [] draws0 None" and ?E = keyring_env0 and ?k = "keyring0 []"
  have k: "kg_repo_id ?k = ''r''" "kg_active_epoch ?k = 1" by (simp_all add: keyring0_def)
  obtain e where e: "seal_repo_secrets ?E ''r'' 1 ''old'' (secrets0 b) [] ?st = (Inr e, ?st\<lparr> cl_draws := tl draws0 \<rparr>)"
    using seal0 [of ?st "hd draws0" "tl draws0" "''r''" 1 "''old''" "secrets0 b" "[]"] by (auto simp: client0_def draws0_def)
  obtain x where x: "seal_repo_secrets_for_device ?E ''r'' 1 public_key0 (secrets0 b) ''owner'' ''d1''
      (?st\<lparr> cl_draws := tl draws0 \<rparr>) = (Inr x, ?st\<lparr> cl_draws := drop 3 draws0 \<rparr>)"
    using seal_device0 [of "?st\<lparr> cl_draws := tl draws0 \<rparr>" "draws0 ! 1" "draws0 ! 2" "drop 3 draws0" "''r''" 1 "secrets0 b" "''owner''" "''d1''"] by (auto simp: client0_def draws0_def)
  obtain y where y: "seal_repo_secrets_for_device ?E ''r'' 1 public_key0 (secrets0 b) ''member'' ''d2''
      (?st\<lparr> cl_draws := drop 3 draws0 \<rparr>) = (Inr y, ?st\<lparr> cl_draws := [] \<rparr>)"
    using seal_device0 [of "?st\<lparr> cl_draws := drop 3 draws0 \<rparr>" "draws0 ! 3" "draws0 ! 4" "[]" "''r''" 1 "secrets0 b" "''member''" "''d2''"] by (auto simp: client0_def draws0_def)
  have "password_envelope_for ?E ?k ''old'' (secrets0 b) e"
    using seal_repo_secrets_run(1) [OF keyring_env0_ok, of ?k] e k by simp
  moreover have "device_envelope_for ?E ?k public_key0 ''owner'' ''d1'' (secrets0 b) x"
      "device_envelope_for ?E ?k public_key0 ''member'' ''d2'' (secrets0 b) y"
    using seal_repo_secrets_for_device_run(1) [OF keyring_env0_ok, of ?k] x y k by simp_all
  ultimately show ?thesis by (auto simp: envelopes0_def)
qed

text \<open>The repository on the disk, with the local credential of the owner.\<close>

definition files0 :: "keyring_envelope list \<Rightarrow> files" where
  "files0 es = bt_insert keyring_current_file (to_vec unary_codec (pointer_to (keyring0 es)))
    (bt_insert (generation_path 1) (to_vec unary_codec (keyring0 es))
    (bt_insert local_device_file (to_vec unary_codec (credential0 ''owner'' ''d1'')) []))"

lemma files0_ok: "bt_ok (files0 es)"
  unfolding files0_def by (intro bt_ok_insert bt_ok_Nil)

lemma files0_at:
  "map_of (files0 es) keyring_current_file = Some (to_vec unary_codec (pointer_to (keyring0 es)))"
  "map_of (files0 es) (generation_path 1) = Some (to_vec unary_codec (keyring0 es))"
  "map_of (files0 es) local_device_file = Some (to_vec unary_codec (credential0 ''owner'' ''d1''))"
  "map_of (files0 es) keyring_lock_file = None"
proof -
  have "local_device_file \<noteq> generation_path 1" "local_device_file \<noteq> keyring_current_file" "keyring_lock_file \<noteq> local_device_file"
    "keyring_lock_file \<noteq> generation_path 1" "keyring_lock_file \<noteq> keyring_current_file" "generation_path 1 \<noteq> keyring_current_file"
    by code_simp+
  then show "map_of (files0 es) keyring_current_file = Some (to_vec unary_codec (pointer_to (keyring0 es)))"
    "map_of (files0 es) (generation_path 1) = Some (to_vec unary_codec (keyring0 es))"
    "map_of (files0 es) local_device_file = Some (to_vec unary_codec (credential0 ''owner'' ''d1''))"
    "map_of (files0 es) keyring_lock_file = None"
    unfolding files0_def by (simp_all add: map_of_bt_insert del: bt_insert.simps)
qed

lemma read0: "read_current_keyring_state_with_pointer keyring_env0 (files0 es) = Inr (pointer_to (keyring0 es), keyring0 es)"
  using files0_at by (intro read_pointer_to) (simp_all add: keyring_env0_def keyring0_def)


section \<open>Unlocking it\<close>

lemma keyring0_fields [simp]:
  "kg_repo_id (keyring0 es) = ''r''" "kg_active_epoch (keyring0 es) = 1" "kg_generation (keyring0 es) = 1"
  "kg_envelopes (keyring0 es) = es" "kg_devices (keyring0 es) = [device0 ''owner'' ''d1'', device0 ''member'' ''d2'']"
  by (simp_all add: keyring0_def)

lemma secrets0_seal: "seals (keyring0 es) (secrets0 b)"
  by (simp add: seals_def secrets0_def)

lemma envelopes0_cases:
  assumes "envelopes0 b es"
  obtains e x y where "es = [e, x, y]" "password_envelope_for keyring_env0 (keyring0 es) ''old'' (secrets0 b) e"
    "device_envelope_for keyring_env0 (keyring0 es) public_key0 ''owner'' ''d1'' (secrets0 b) x"
    "device_envelope_for keyring_env0 (keyring0 es) public_key0 ''member'' ''d2'' (secrets0 b) y"
proof -
  have "password_envelope_for keyring_env0 (keyring0 es) pw s e \<longleftrightarrow> password_envelope_for keyring_env0 (keyring0 []) pw s e" for pw s e
    unfolding password_envelope_for_def decrypt_password_envelope_def keyring0_fields ..
  moreover have "device_envelope_for keyring_env0 (keyring0 es) pk a d s x \<longleftrightarrow> device_envelope_for keyring_env0 (keyring0 []) pk a d s x" for pk a d s x
    unfolding device_envelope_for_def decrypt_device_envelope_def keyring0_fields ..
  ultimately show thesis using assms that unfolding envelopes0_def by blast
qed

lemma unlock0:
  assumes "envelopes0 b es"
  shows "unlock_repo_secrets_uncached keyring_env0 ''old'' (files0 es) = Inr (secrets0 b)"
proof -
  obtain e x y where es: "es = [e, x, y]" "password_envelope_for keyring_env0 (keyring0 es) ''old'' (secrets0 b) e"
    by (rule envelopes0_cases [OF assms])
  then have "find (\<lambda>e. ev_kind e = ''password'') (kg_envelopes (keyring0 es)) = Some e"
    by (simp add: password_envelope_for_def)
  from unlock_with_password_envelope [OF es(2) this secrets0_seal secrets0_ok] show ?thesis
    by (simp add: unlock_repo_secrets_uncached_def read_current_keyring_state_def read0)
qed

lemma secret_key0: "decode_hex_key (cd_private_key_hex (credential0 a d)) = Inr (replicate 32 7)"
    "ke_public_key keyring_env0 k = replicate 32 0"
  by (simp_all add: credential0_def decode_hex_key_encode keyring_env0_def)

lemma has_envelope0:
  assumes "envelopes0 b es"
  shows "has_envelope keyring_env0 (keyring0 es) (credential0 ''owner'' ''d1'')"
    "has_envelope keyring_env0 (keyring0 es) (credential0 ''member'' ''d2'')"
proof -
  obtain e x y where es: "es = [e, x, y]" "password_envelope_for keyring_env0 (keyring0 es) ''old'' (secrets0 b) e"
      "device_envelope_for keyring_env0 (keyring0 es) public_key0 ''owner'' ''d1'' (secrets0 b) x"
      "device_envelope_for keyring_env0 (keyring0 es) public_key0 ''member'' ''d2'' (secrets0 b) y"
    by (rule envelopes0_cases [OF assms])
  have f: "ev_kind e = ''password''" "ev_kind x = ''device''" "ev_device_id x = ''d1''" "ev_actor_id x = ''owner''"
    "ev_recipient_pubkey_hex x = public_key0" "ev_kind y = ''device''" "ev_device_id y = ''d2''" "ev_actor_id y = ''member''"
    "ev_recipient_pubkey_hex y = public_key0"
    using es(2-4) by (simp_all add: password_envelope_for_def device_envelope_for_def)
  show "has_envelope keyring_env0 (keyring0 es) (credential0 ''owner'' ''d1'')"
    unfolding has_envelope_def
    by (rule exI [of _ x], rule exI [of _ "replicate 32 7"]) (simp add: es(1) f secret_key0 public_key0_def, simp add: credential0_def)
  show "has_envelope keyring_env0 (keyring0 es) (credential0 ''member'' ''d2'')"
    unfolding has_envelope_def
    by (rule exI [of _ y], rule exI [of _ "replicate 32 7"]) (simp add: es(1) f secret_key0 public_key0_def, simp add: credential0_def)
qed

lemma keyring0_ok: "envelopes0 b es \<Longrightarrow> keyring_ok (keyring0 es)"
  by (erule envelopes0_cases) (auto simp: keyring_ok_def device0_def password_envelope_for_def device_envelope_for_def)

section \<open>Writing its next generation\<close>

lemma rebuild0:
  assumes "envelopes0 b es" and "cl_draws st = draws0"
  shows "\<exists>out. rebuild_local_device_and_password_envelopes keyring_env0 (keyring0 es) s pw st = (Inr out, st\<lparr> cl_draws := [] \<rparr>)"
proof -
  obtain e x y where es: "es = [e, x, y]" "password_envelope_for keyring_env0 (keyring0 es) ''old'' (secrets0 b) e"
      "device_envelope_for keyring_env0 (keyring0 es) public_key0 ''owner'' ''d1'' (secrets0 b) x"
      "device_envelope_for keyring_env0 (keyring0 es) public_key0 ''member'' ''d2'' (secrets0 b) y"
    by (rule envelopes0_cases [OF assms(1)])
  have f: "ev_kind e = ''password''" "ev_kind x = ''device''" "ev_recipient_pubkey_hex x = public_key0"
    "ev_kind y = ''device''" "ev_recipient_pubkey_hex y = public_key0" "public_key0 \<noteq> []"
    using es(2-4) by (simp_all add: password_envelope_for_def device_envelope_for_def public_key0_def)
  let ?E = keyring_env0 and ?i = "secrets_repo_id s" and ?ep = "active_epoch s"
  obtain e' where e': "seal_repo_secrets ?E ?i ?ep pw s (redact_password_hint pw) st = (Inr e', st\<lparr> cl_draws := tl draws0 \<rparr>)"
    using seal0 [of st "hd draws0" "tl draws0" ?i ?ep pw s "redact_password_hint pw"] assms(2) by (auto simp: draws0_def)
  obtain x' where x': "seal_repo_secrets_for_device ?E ?i ?ep public_key0 s (ev_actor_id x) (ev_device_id x)
      (st\<lparr> cl_draws := tl draws0 \<rparr>) = (Inr x', st\<lparr> cl_draws := drop 3 draws0 \<rparr>)"
    using seal_device0 [of "st\<lparr> cl_draws := tl draws0 \<rparr>" "draws0 ! 1" "draws0 ! 2" "drop 3 draws0" ?i ?ep s "ev_actor_id x" "ev_device_id x"]
    by (auto simp: draws0_def)
  obtain y' where y': "seal_repo_secrets_for_device ?E ?i ?ep public_key0 s (ev_actor_id y) (ev_device_id y)
      (st\<lparr> cl_draws := drop 3 draws0 \<rparr>) = (Inr y', st\<lparr> cl_draws := [] \<rparr>)"
    using seal_device0 [of "st\<lparr> cl_draws := drop 3 draws0 \<rparr>" "draws0 ! 3" "draws0 ! 4" "[]" ?i ?ep s "ev_actor_id y" "ev_device_id y"]
    by (auto simp: draws0_def)
  have "reseal_device_envelopes ?E s es (st\<lparr> cl_draws := tl draws0 \<rparr>) = (Inr [x', y'], st\<lparr> cl_draws := [] \<rparr>)"
    using f x' y' by (simp add: es(1) sbind_def sret_def)
  with e' show ?thesis
    by (simp add: rebuild_local_device_and_password_envelopes_def sbind_def sret_def)
qed

text \<open>On a disk that works the next generation is always written; one that fails after three writes leaves the lock.\<close>

lemma write0:
  assumes "bt_ok (cl_files st)" "map_of (cl_files st) keyring_lock_file = None" "cl_writes_left st = None"
  shows "\<exists>st'. write_next_generation E k st = (Inr (), st')"
proof -
  obtain r st' where run: "write_next_generation E k st = (r, st')" by fastforce
  with write_next_generation_run(3) [OF run assms(1)] assms(2,3) show ?thesis by auto
qed

lemma crash0:
  assumes "bt_ok (cl_files st)" "map_of (cl_files st) keyring_lock_file = None" "cl_writes_left st = Some 3"
  shows "\<exists>e st'. write_next_generation E k st = (Inl e, st') \<and> map_of (cl_files st') keyring_lock_file \<noteq> None \<and> bt_ok (cl_files st')"
proof -
  let ?j = "keyring_update_journal E k (pointer_to k) ''writing_generation''"
  let ?t = "temporary_path keyring_journal_file"
  let ?fs = "bt_insert keyring_journal_file ?j (bt_remove ?t (bt_insert ?t ?j (cl_files st)))"
  let ?st1 = "st\<lparr> cl_files := ?fs, cl_writes_left := Some 1 \<rparr>"
  have ok: "bt_ok (bt_insert ?t ?j (cl_files st))" "bt_ok ?fs" using assms(1) by simp_all
  have one: "atomic_write_bytes keyring_journal_file ?j st = (Inr (), ?st1)"
    using assms by (simp add: atomic_write_bytes_def disk_write_def disk_rename_def on_disk_def disk_works_def
        on_client_files_def fs_read_def sbind_def map_of_bt_insert del: bt_insert.simps)
  have lock: "map_of ?fs keyring_lock_file = None"
    using ok assms(1,2) update_neqs(4) by (simp add: map_of_bt_insert map_of_bt_remove del: bt_insert.simps)
  let ?st2 = "?st1\<lparr> cl_files := bt_insert keyring_lock_file (as_bytes ''locked'') ?fs, cl_writes_left := Some 0 \<rparr>"
  have dead: "\<exists>e. locked_update E k (pointer_to k) ?st2 = (Inl e, ?st2)"
    by (simp add: locked_update_def atomic_write_bytes_def disk_write_def on_disk_def disk_works_def sbind_def)
  have "\<exists>e. with_keyring_lock (locked_update E k (pointer_to k)) ?st1 = (Inl e, ?st2)"
    using lock dead ok(2)
    by (auto simp: with_keyring_lock_def disk_write_def on_disk_def disk_works_def disk_remove_def sbind_def
        map_of_bt_insert simp del: bt_insert.simps)
  then show ?thesis
    using one ok(2) by (auto simp: write_next_generation_locked sbind_def map_of_bt_insert simp del: bt_insert.simps)
qed

lemma change_password_forward:
  assumes "unlock_repo_secrets_uncached E old (cl_files st) = Inr s"
    and "read_current_keyring_state_with_pointer E (cl_files st) = Inr (p, k0)"
    and "rebuild_local_device_and_password_envelopes E k0 s new st = (Inr es, st2)"
    and "write_next_generation E (k0\<lparr> kg_generation := kg_generation k0 + 1, kg_envelopes := es \<rparr>) st2 = (r3, st3)"
  shows "change_password E old new st = (case r3 of Inl e \<Rightarrow> (Inl e, st3)
      | Inr u \<Rightarrow> sbind (cache_unlocked_secrets E s) (\<lambda>_. cache_unlocked_password new) st3)"
  using assms by (simp add: change_password_def sbind_def on_client_files_def split: sum.splits)

lemma change_password0:
  assumes "envelopes0 b es"
  shows "\<exists>st'. change_password keyring_env0 ''old'' ''new'' (client0 (files0 es) draws0 None) = (Inr (), st')"
    and "\<exists>e st'. change_password keyring_env0 ''old'' ''new'' (client0 (files0 es) draws0 (Some 3)) = (Inl e, st') \<and>
      map_of (cl_files st') keyring_lock_file \<noteq> None \<and> bt_ok (cl_files st')"
proof -
  let ?E = keyring_env0 and ?st = "client0 (files0 es) draws0"
  have st: "cl_files (?st n) = files0 es" "cl_draws (?st n) = draws0" "cl_writes_left (?st n) = n" for n
    by (simp_all add: client0_def)
  have "\<exists>out. rebuild_local_device_and_password_envelopes ?E (keyring0 es) (secrets0 b) ''new'' (?st n) = (Inr out, (?st n)\<lparr> cl_draws := [] \<rparr>)" for n
    using rebuild0 [OF assms st(2)] .
  then obtain out where out: "\<And>n. rebuild_local_device_and_password_envelopes ?E (keyring0 es) (secrets0 b) ''new'' (?st n)
      = (Inr (out n), (?st n)\<lparr> cl_draws := [] \<rparr>)" by metis
  have unlock: "unlock_repo_secrets_uncached ?E ''old'' (cl_files (?st n)) = Inr (secrets0 b)" for n
    using unlock0 [OF assms] st by simp
  have read: "read_current_keyring_state_with_pointer ?E (cl_files (?st n)) = Inr (pointer_to (keyring0 es), keyring0 es)" for n
    using read0 st by simp
  note fwd = change_password_forward [OF unlock read out]
  let ?st2 = "\<lambda>n. (?st n)\<lparr> cl_draws := [] \<rparr>"
  let ?k = "\<lambda>n. (keyring0 es)\<lparr> kg_generation := kg_generation (keyring0 es) + 1, kg_envelopes := out n \<rparr>"
  have st2: "bt_ok (cl_files (?st2 n))" "map_of (cl_files (?st2 n)) keyring_lock_file = None" "cl_writes_left (?st2 n) = n" for n
    using files0_ok files0_at(4) st by simp_all
  obtain s3 where "write_next_generation ?E (?k None) (?st2 None) = (Inr (), s3)" using write0 [OF st2] by blast
  from fwd [OF this] caches_run show "\<exists>st'. change_password ?E ''old'' ''new'' (?st None) = (Inr (), st')"
    by (metis old.sum.simps(6) surj_pair)
  obtain e s3 where crash: "write_next_generation ?E (?k (Some 3)) (?st2 (Some 3)) = (Inl e, s3)"
      "map_of (cl_files s3) keyring_lock_file \<noteq> None" "bt_ok (cl_files s3)" using crash0 [OF st2] by blast
  from fwd [OF this(1)] this(2,3)
  show "\<exists>e st'. change_password ?E ''old'' ''new'' (?st (Some 3)) = (Inl e, st') \<and>
      map_of (cl_files st') keyring_lock_file \<noteq> None \<and> bt_ok (cl_files st')" by auto
qed


section \<open>Revoking and merging\<close>

lemma credential_files0: "read_local_device_credential keyring_env0 (files0 es) = Inr (credential0 ''owner'' ''d1'')"
  using files0_at(3) by (simp add: read_local_device_credential_def read_json_def fs_read_def keyring_env0_def unary_roundtrip)

lemma unlock_device0:
  assumes "envelopes0 b es" and "c = credential0 ''owner'' ''d1'' \<or> c = credential0 ''member'' ''d2''"
  shows "unlock_repo_secrets_from_state_with_local_device keyring_env0 (keyring0 es) c = Inr (secrets0 b)"
proof -
  obtain e x y where es: "es = [e, x, y]" "password_envelope_for keyring_env0 (keyring0 es) ''old'' (secrets0 b) e"
      "device_envelope_for keyring_env0 (keyring0 es) public_key0 ''owner'' ''d1'' (secrets0 b) x"
      "device_envelope_for keyring_env0 (keyring0 es) public_key0 ''member'' ''d2'' (secrets0 b) y"
    by (rule envelopes0_cases [OF assms(1)])
  have f: "ev_kind e = ''password''" "ev_kind x = ''device''" "ev_device_id x = ''d1''" "ev_kind y = ''device''" "ev_device_id y = ''d2''"
    using es(2-4) by (simp_all add: password_envelope_for_def device_envelope_for_def)
  have id: "cd_actor_id (credential0 a d) = a" "cd_device_id (credential0 a d) = d" for a d by (simp_all add: credential0_def)
  have "decrypt_device_envelope keyring_env0 (keyring0 es) x (credential0 ''owner'' ''d1'') = Inr (sealed_secrets_of (secrets0 b))"
    "decrypt_device_envelope keyring_env0 (keyring0 es) y (credential0 ''member'' ''d2'') = Inr (sealed_secrets_of (secrets0 b))"
    using es(3,4) secret_key0 id by (simp_all add: device_envelope_for_def public_key0_def)
  moreover have "repo_secrets_of_sealed (keyring0 es) (sealed_secrets_of (secrets0 b)) = Inr (secrets0 b)"
    using secrets0_seal [of es b] by (intro repo_secrets_of_sealed_secrets [OF secrets0_ok]) (simp_all add: seals_def)
  moreover have "find (\<lambda>e. ev_kind e = ''device'' \<and> ev_device_id e \<noteq> [] \<and> ev_device_id e = ''d1'') es = Some x"
    "find (\<lambda>e. ev_kind e = ''device'' \<and> ev_device_id e \<noteq> [] \<and> ev_device_id e = ''d2'') es = Some y"
    by (simp_all add: es(1) f)
  ultimately show ?thesis
    using assms(2) by (auto simp: unlock_repo_secrets_from_state_with_local_device_def id)
qed

lemma open0:
  assumes "envelopes0 b es"
  shows "\<exists>u. open_or_unlock_repo_secrets_for_sync keyring_env0 (client0 (files0 es) ds n) =
      (Inr (secrets0 b), (client0 (files0 es) ds n)\<lparr> cl_unlocked := u \<rparr>)"
    and "\<exists>u. open_or_unlock_repo_secrets_with_local_device keyring_env0 (client0 (files0 es) ds n) =
      (Inr (secrets0 b), (client0 (files0 es) ds n)\<lparr> cl_unlocked := u \<rparr>)"
proof -
  have "unlock_repo_secrets_with_current_local_device keyring_env0 (files0 es) = Inr (secrets0 b)"
    using unlock_device0 [OF assms, of "credential0 ''owner'' ''d1''"]
    by (simp add: unlock_repo_secrets_with_current_local_device_def read_current_keyring_state_def read0 credential_files0)
  then have one: "\<exists>u. unlock_repo_secrets_with_local_device keyring_env0 (client0 (files0 es) ds n) =
      (Inr (secrets0 b), (client0 (files0 es) ds n)\<lparr> cl_unlocked := u \<rparr>)"
    by (simp add: unlock_repo_secrets_with_local_device_def on_client_files_def sbind_def cache_unlocked_secrets_def client0_def)
  have closed: "open_repo_secrets keyring_env0 (client0 (files0 es) ds n) = (Inl keyring_locked, client0 (files0 es) ds n)"
    by (simp add: open_repo_secrets_def client0_def)
  show "\<exists>u. open_or_unlock_repo_secrets_for_sync keyring_env0 (client0 (files0 es) ds n) =
      (Inr (secrets0 b), (client0 (files0 es) ds n)\<lparr> cl_unlocked := u \<rparr>)"
    using one closed by (simp add: open_or_unlock_repo_secrets_for_sync_def)
  show "\<exists>u. open_or_unlock_repo_secrets_with_local_device keyring_env0 (client0 (files0 es) ds n) =
      (Inr (secrets0 b), (client0 (files0 es) ds n)\<lparr> cl_unlocked := u \<rparr>)"
    using one closed by (auto simp: open_or_unlock_repo_secrets_with_local_device_def sbind_def sret_def cache_unlocked_secrets_def client0_def)
qed

lemma revoke0:
  assumes "envelopes0 b es"
  shows "\<exists>st'. share_revoke_device keyring_env0 ''d2'' ''pw'' (client0 (files0 es) ([replicate 32 5, replicate 32 6] @ draws0) None) = (Inr (), st')"
proof -
  let ?E = keyring_env0 and ?ds = "[replicate 32 5, replicate 32 6] @ draws0" and ?P = "\<lambda>d. dv_device_id d = ''d2''"
    and ?keep = "\<lambda>e. ev_device_id e \<noteq> ''d2''"
  obtain u where u: "open_or_unlock_repo_secrets_with_local_device ?E (client0 (files0 es) ?ds None) =
      (Inr (secrets0 b), (client0 (files0 es) ?ds None)\<lparr> cl_unlocked := u \<rparr>)" using open0(2) [OF assms] by blast
  let ?st = "(client0 (files0 es) ?ds None)\<lparr> cl_unlocked := u \<rparr>"
  have files: "cl_files (client0 (files0 es) ds n) = files0 es" for ds n by (simp add: client0_def)
  have admin: "ensure_local_share_admin ?E (files0 es) = Inr ()"
    by (simp add: ensure_local_share_admin_def credential_files0 read_current_keyring_state_def read0) (simp add: keyring0_def credential0_def)
  obtain s1 where advance: "advance_epoch (secrets0 b) ?st = (Inr s1, ?st\<lparr> cl_draws := draws0 \<rparr>)"
    by (simp add: advance_epoch_def random_key_material_def Let_def sbind_def random_bytes_def client0_def sret_def)
  obtain out where out: "rebuild_local_device_and_password_envelopes ?E (keyring0 es) s1 ''pw'' (?st\<lparr> cl_draws := draws0 \<rparr>)
      = (Inr out, ?st\<lparr> cl_draws := [] \<rparr>)"
    using rebuild0 [OF assms, of "?st\<lparr> cl_draws := draws0 \<rparr>" s1 "''pw''"] by auto
  obtain s3 where written: "write_next_generation ?E (revoked_keyring (keyring0 es) s1 ?P (filter ?keep out)) (?st\<lparr> cl_draws := [] \<rparr>) = (Inr (), s3)"
    using write0 [of "?st\<lparr> cl_draws := [] \<rparr>" ?E "revoked_keyring (keyring0 es) s1 ?P (filter ?keep out)"] files0_ok files0_at(4)
    by (auto simp: client0_def)
  have "publish_revocation ?E (keyring0 es) (secrets0 b) ''pw'' ?P ?keep ?st =
      sbind (cache_unlocked_secrets ?E s1) (\<lambda>_. cache_unlocked_password ''pw'') s3"
    using advance out written by (simp add: publish_revocation_def sbind_def revoked_keyring_def split: sum.splits)
  moreover obtain r st' where "sbind (cache_unlocked_secrets ?E s1) (\<lambda>_. cache_unlocked_password ''pw'') s3 = (r, st')" by fastforce
  ultimately have pub: "publish_revocation ?E (keyring0 es) (secrets0 b) ''pw'' ?P ?keep ?st = (Inr (), st')"
    using caches_run by metis
  have names: "\<not> blank ''d2''" "\<not> blank ''pw''" by code_simp+
  have actors: "list_all (\<lambda>a. ac_actor_id a \<noteq> ''member'' \<or> ac_role a \<noteq> ''owner_admin'') (kg_actors (keyring0 es))"
    by (simp add: keyring0_def)
  have "share_revoke_device ?E ''d2'' ''pw'' (client0 (files0 es) ?ds None) = (Inr (), st')"
    unfolding share_revoke_device_def
    using names admin u pub actors
    by (simp add: on_client_files_bind files sbind_def [of "open_or_unlock_repo_secrets_with_local_device ?E"] read0 device0_def)
  then show ?thesis by blast
qed

text \<open>A remote keyring of the same epoch, on which the member's device is revoked.\<close>

definition remote0 :: "keyring_envelope list \<Rightarrow> keyring_state" where
  "remote0 es = (keyring0 es)\<lparr> kg_devices := [device0 ''owner'' ''d1'', (device0 ''member'' ''d2'')\<lparr> dv_status := ''revoked'' \<rparr>] \<rparr>"

lemma merged0:
  "\<exists>m. merged_keyring_without_envelopes (keyring0 es) (remote0 fs) s = Inr m \<and>
     kg_devices m = [device0 ''owner'' ''d1'', (device0 ''member'' ''d2'')\<lparr> dv_status := ''revoked'' \<rparr>]"
proof -
  let ?ds = "[device0 ''owner'' ''d1'', (device0 ''member'' ''d2'')\<lparr> dv_status := ''revoked'' \<rparr>]"
  have "is_ok (merge_actor_records (keyring0 []) (remote0 []))" by code_simp
  moreover have "merge_device_records (keyring0 []) (remote0 []) = Inr ?ds" "sort_key dv_device_id ?ds = ?ds"
    by (simp_all add: merge_device_records_def remote0_def device0_def)
  moreover have "merge_actor_records (keyring0 es) (remote0 fs) = merge_actor_records (keyring0 []) (remote0 [])"
    "merge_device_records (keyring0 es) (remote0 fs) = merge_device_records (keyring0 []) (remote0 [])"
    by (simp_all only: merge_actor_records_def merge_device_records_def remote0_def keyring0_def keyring_state.simps)
  ultimately show ?thesis by (auto simp: is_ok_iff merged_keyring_without_envelopes_def)
qed

lemma reconcile0:
  assumes "envelopes0 b es"
  shows "\<exists>st'. reconcile_remote_keyring_for_sync keyring_env0 (to_vec unary_codec (remote0 fs))
    (client0 (files0 es) [replicate 32 5, replicate 24 6] None) = (Inr True, st')"
proof -
  let ?E = keyring_env0 and ?ds = "[replicate 32 5, replicate 24 6] :: byte list list" and ?l = "keyring0 es" and ?r = "remote0 fs"
    and ?s = "secrets0 b" and ?bytes = "to_vec unary_codec (remote0 fs) :: byte list"
  obtain u where u: "open_or_unlock_repo_secrets_for_sync ?E (client0 (files0 es) ?ds None) =
      (Inr ?s, (client0 (files0 es) ?ds None)\<lparr> cl_unlocked := u \<rparr>)" using open0(1) [OF assms] by blast
  let ?st = "(client0 (files0 es) ?ds None)\<lparr> cl_unlocked := u \<rparr>"
  have files: "cl_files (client0 (files0 es) ds n) = files0 es" for ds n by (simp add: client0_def)
  have r: "kg_repo_id ?r = ''r''" "kg_active_epoch ?r = 1" "kg_generation ?r = 1" by (simp_all add: remote0_def)
  have auth: "authoritative_secrets_for ?E ?l ?r ?bytes (client0 (files0 es) ?ds None) = (Inr ?s, ?st)"
    using u by (simp add: authoritative_secrets_for_def sbind_def r secrets0_def sret_def)
  obtain m where m: "merged_keyring_without_envelopes ?l ?r ?s = Inr m"
    and devices: "kg_devices m = [device0 ''owner'' ''d1'', (device0 ''member'' ''d2'')\<lparr> dv_status := ''revoked'' \<rparr>]"
    using merged0 by blast
  have "kg_devices (comparable_keyring_state ?l) \<noteq> kg_devices m"
    by (simp add: comparable_keyring_state_def devices) (simp add: device0_def)
  then have differs: "m \<noteq> comparable_keyring_state ?l"
    "comparable_keyring_state ?l \<noteq> comparable_keyring_state (next_merged ?l ?r m out)" for out
    by (auto simp: comparable_keyring_state_def next_merged_def dest: arg_cong [where f = kg_devices])
  obtain x where x: "seal_repo_secrets_for_device ?E ''r'' (kg_active_epoch m) public_key0 ?s ''owner'' ''d1'' ?st = (Inr x, ?st\<lparr> cl_draws := [] \<rparr>)"
    using seal_device0 [of ?st "replicate 32 5" "replicate 24 6" "[]" "''r''" "kg_active_epoch m" ?s "''owner''" "''d1''"]
    by (auto simp: client0_def)
  have "\<exists>out. merged_envelopes ?E ?l ?r m ?s ?st = (Inr out, ?st\<lparr> cl_draws := [] \<rparr>)"
    using x by (simp add: merged_envelopes_def Let_def devices device0_def sbind_def sret_def)
  then obtain out where out: "merged_envelopes ?E ?l ?r m ?s ?st = (Inr out, ?st\<lparr> cl_draws := [] \<rparr>)" ..
  obtain s3 where written: "write_next_generation ?E (next_merged ?l ?r m out) (?st\<lparr> cl_draws := [] \<rparr>) = (Inr (), s3)"
    using write0 [of "?st\<lparr> cl_draws := [] \<rparr>" ?E "next_merged ?l ?r m out"] files0_ok files0_at(4)
    by (auto simp: client0_def)
  have bytes: "from_slice (ke_state ?E) ?bytes = Some ?r" by (simp add: keyring_env0_def unary_roundtrip)
  have "\<exists>st'. reconcile_remote_keyring_for_sync ?E ?bytes (client0 (files0 es) ?ds None) = (Inr True, st')"
    using auth m differs out written bytes unfolding next_merged_def
    by (simp add: reconcile_remote_keyring_for_sync_def on_client_files_bind files read0 r with_context_def
        sbind_def [of "authoritative_secrets_for _ _ _ _"] sbind_def [of "merged_envelopes _ _ _ _ _"]
        sbind_def [of "write_next_generation _ _"] sbind_def [of "cache_unlocked_secrets _ _"] cache_unlocked_secrets_def sret_def
        Let_def if_apply cong: if_cong)
  then show ?thesis .
qed

end
