(* ===== verification/Keyring_Claims.thy ===== *)
theory Keyring_Claims
  imports Keyring_Sample
begin

text \<open>
  The properties of the keyring: who can unlock after a change of the password, on which disk whatever, who
  cannot after a revocation, what a lock that was left behind does, and which secrets a reconciliation keeps.
\<close>

section \<open>Changing the password\<close>

lemma written_password:
  assumes E: "keyring_env_ok E"
    and unlocked: "unlock_repo_secrets_uncached E old fs = Inr s" and keys: "bt_ok (epoch_keys_of s)"
    and read: "read_current_keyring_state_with_pointer E fs = Inr (p, k0)"
    and es: "rebuild_local_device_and_password_envelopes E k0 s new st = (Inr es, st2)"
  shows "let k = k0\<lparr> kg_generation := kg_generation k0 + 1, kg_envelopes := es \<rparr> in
    unlock_repo_secrets_from_state E k new = Inr s \<and>
    (\<forall>c. has_envelope E k0 c \<longrightarrow> unlock_repo_secrets_from_state_with_local_device E k c = Inr s)"
proof -
  let ?k = "k0\<lparr> kg_generation := kg_generation k0 + 1, kg_envelopes := es \<rparr>"
  have s: "seals k0 s" "secrets_ok s" using unlocked_secrets_seal [OF unlocked keys] read by auto
  then have k: "seals ?k s" by (simp add: seals_def)
  obtain e out where e: "es = e # out" "password_envelope_for E ?k new s e"
    and out: "list_all2 (resealed E ?k s) (filter reaches_device (kg_envelopes k0)) out"
    using rebuild_run [OF E k es] by blast
  have kind: "ev_kind e = ''password''" using e(2) by (simp add: password_envelope_for_def)
  then have "find (\<lambda>e. ev_kind e = ''password'') (kg_envelopes ?k) = Some e" by (simp add: e(1))
  from unlock_with_password_envelope [OF e(2) this k s(2)]
  have "unlock_repo_secrets_from_state E ?k new = Inr s" .
  moreover have "unlock_repo_secrets_from_state_with_local_device E ?k c = Inr s" if "has_envelope E k0 c" for c
    by (rule unlock_resealed [OF E k s(2) that out]) (simp add: e(1) kind)
  ultimately show ?thesis by (simp only: Let_def) blast
qed

lemma unlock_read:
  "read_current_keyring_state_with_pointer E fs = Inr (p, k) \<Longrightarrow>
     unlock_repo_secrets_uncached E password fs = unlock_repo_secrets_from_state E k password"
  by (simp add: unlock_repo_secrets_uncached_def read_current_keyring_state_def)

text \<open>C37: Changing the password keeps everybody's access. When it succeeds, the current keyring is the next
  generation of the former one with nothing but new envelopes, the new password unlocks the secrets that
  the old one unlocked, and so does every device that had an envelope sealed to its key.\<close>

theorem change_password_keeps_access:
  assumes "keyring_env_ok E" and "bt_ok (cl_files st)"
    and "unlock_repo_secrets_uncached E old (cl_files st) = Inr s" and "bt_ok (epoch_keys_of s)"
    and "change_password E old new st = (Inr (), st')"
  shows "\<exists>p0 k0 p k. read_current_keyring_state_with_pointer E (cl_files st) = Inr (p0, k0) \<and>
    read_current_keyring_state_with_pointer E (cl_files st') = Inr (p, k) \<and>
    k = k0\<lparr> kg_generation := kg_generation k0 + 1, kg_envelopes := kg_envelopes k \<rparr> \<and>
    unlock_repo_secrets_uncached E new (cl_files st') = Inr s \<and>
    (\<forall>c. has_envelope E k0 c \<longrightarrow> unlock_repo_secrets_from_state_with_local_device E k c = Inr s)"
  using assms(5,2)
proof (cases rule: change_password_cases)
  case (written s1 p0 k0 es st2 st3)
  let ?k = "k0\<lparr> kg_generation := kg_generation k0 + 1, kg_envelopes := es \<rparr>"
  have s1: "s1 = s" using written(1) assms(3) by simp
  have "bt_ok (cl_files st2)" using assms(2) only_drawsD [OF written(4)] by simp
  from write_next_generation_run(2) [OF written(5) this]
  have read: "read_current_keyring_state_with_pointer E (cl_files st') = Inr (pointer_to ?k, ?k)"
    using assms(1) written(6) by (intro read_pointer_to) (simp_all add: keyring_env_ok_def)
  note W = written_password [OF assms(1,3,4) written(2) written(3) [unfolded s1], unfolded Let_def]
  show ?thesis
    by (rule exI [of _ p0], rule exI [of _ k0], rule exI [of _ "pointer_to ?k"], rule exI [of _ ?k])
      (use written(2) read W unlock_read [OF read] in simp)
qed simp

theorem change_password_keeps_access_witness:
  "\<exists>es st' k. change_password keyring_env0 ''old'' ''new'' (client0 (files0 es) draws0 None) = (Inr (), st') \<and>
     read_current_keyring_state_with_pointer keyring_env0 (cl_files st') = Inr (pointer_to k, k) \<and>
     unlock_repo_secrets_uncached keyring_env0 ''new'' (cl_files st') = Inr (secrets0 3) \<and>
     unlock_repo_secrets_from_state_with_local_device keyring_env0 k (credential0 ''member'' ''d2'') = Inr (secrets0 3)"
proof -
  obtain es where es: "envelopes0 3 es" using sample_envelopes by blast
  obtain st' where run: "change_password keyring_env0 ''old'' ''new'' (client0 (files0 es) draws0 None) = (Inr (), st')"
    using change_password0(1) [OF es] by blast
  have st: "bt_ok (cl_files (client0 (files0 es) draws0 None))" "bt_ok (epoch_keys_of (secrets0 3))"
    "unlock_repo_secrets_uncached keyring_env0 ''old'' (cl_files (client0 (files0 es) draws0 None)) = Inr (secrets0 3)"
    "read_current_keyring_state_with_pointer keyring_env0 (cl_files (client0 (files0 es) draws0 None)) = Inr (pointer_to (keyring0 es), keyring0 es)"
    using files0_ok unlock0 [OF es] read0 by (simp_all add: client0_def secrets0_def bt_ok_def)
  obtain p k where k: "read_current_keyring_state_with_pointer keyring_env0 (cl_files st') = Inr (p, k)"
      "unlock_repo_secrets_uncached keyring_env0 ''new'' (cl_files st') = Inr (secrets0 3)"
      "unlock_repo_secrets_from_state_with_local_device keyring_env0 k (credential0 ''member'' ''d2'') = Inr (secrets0 3)"
    using change_password_keeps_access [OF keyring_env0_ok st(1,3,2) run] st(4) has_envelope0(2) [OF es] by auto
  have "p = pointer_to k"
  proof -
    have "bt_ok (cl_files (client0 (files0 es) draws0 None))" using st(1) .
    with run show ?thesis
    proof (cases rule: change_password_cases)
      case (written s p0 k0 out st2 st3)
      let ?n = "k0\<lparr> kg_generation := kg_generation k0 + 1, kg_envelopes := out \<rparr>"
      have "bt_ok (cl_files st2)" using st(1) only_drawsD [OF written(4)] by simp
      from write_next_generation_run(2) [OF written(5) this]
      have "read_current_keyring_state_with_pointer keyring_env0 (cl_files st3) = Inr (pointer_to ?n, ?n)"
        by (intro read_pointer_to) simp_all
      then show ?thesis using k(1) written(6) by auto
    qed simp
  qed
  with run k show ?thesis by blast
qed

text \<open>C38: A change of the password is safe on a disk that fails at any of its writes. Whatever the outcome, the
  repository can be unlocked afterwards, with the old password or with the new one, and gives the same secrets.
  (The pointer names the file of its own generation, as every update writes it.)\<close>

theorem password_change_survives_crash:
  assumes "keyring_env_ok E" and "bt_ok (cl_files st)"
    and "read_current_keyring_state_with_pointer E (cl_files st) = Inr (pointer_to k0, k0)"
    and "unlock_repo_secrets_uncached E old (cl_files st) = Inr s" and "bt_ok (epoch_keys_of s)"
    and "change_password E old new st = (r, st')"
  shows "unlock_repo_secrets_uncached E old (cl_files st') = Inr s \<or>
    unlock_repo_secrets_uncached E new (cl_files st') = Inr s"
  using assms(6,2)
proof (cases rule: change_password_cases)
  case (written s1 p1 k1 es st2 st3)
  let ?k = "k0\<lparr> kg_generation := kg_generation k0 + 1, kg_envelopes := es \<rparr>"
  have same: "s1 = s" "p1 = pointer_to k0" "k1 = k0" using written(1,2) assms(3,4) by auto
  have files: "cl_files st2 = cl_files st" using only_drawsD [OF written(4)] by simp
  have run: "write_next_generation E ?k st2 = (r, st3)" using written(5) same by simp
  have O: "next_outcome E ?k st2 st3" using write_next_generation_run(1) [OF run] assms(2) files by simp
  have codecs: "serde_ok (ke_pointer E)" "serde_ok (ke_state E)" using assms(1) by (simp_all add: keyring_env_ok_def)
  consider (old) "map_of (cl_files st3) keyring_current_file = map_of (cl_files st2) keyring_current_file"
    | (new) "map_of (cl_files st3) keyring_current_file = Some (to_vec (ke_pointer E) (pointer_to ?k))"
      "map_of (cl_files st3) (generation_path (kg_generation ?k)) = Some (to_vec (ke_state E) ?k)"
    using O unfolding update_outcome_def by auto
  then show ?thesis
  proof cases
    case old
    have "generation_path (kg_generation k0) \<notin> update_paths (kg_generation ?k)"
      using path_distinct(1) [of "kg_generation k0"] path_distinct(2) [of "kg_generation ?k" "kg_generation k0"]
      by (auto simp: update_paths_def)
    then have "map_of (cl_files st3) (generation_path (kg_generation k0)) = map_of (cl_files st2) (generation_path (kg_generation k0))"
      using O by (auto simp: update_outcome_def changes_only_def)
    with old have "read_current_keyring_state_with_pointer E (cl_files st3) = Inr (pointer_to k0, k0)"
      using assms(3) files by (simp add: read_current_cases pointer_to_def)
    from unlock_read [OF this, of old] unlock_read [OF assms(3), of old] show ?thesis
      using assms(4) written(6) by simp
  next
    case new
    from read_pointer_to [OF codecs new] have read: "read_current_keyring_state_with_pointer E (cl_files st3) = Inr (pointer_to ?k, ?k)" .
    note W = written_password [OF assms(1,4,5,3) written(3) [unfolded same], unfolded Let_def]
    show ?thesis using unlock_read [OF read, of new] W written(6) by simp
  qed
qed (use assms(4) in simp)

theorem password_change_survives_crash_witness:
  "\<exists>es e st'. change_password keyring_env0 ''old'' ''new'' (client0 (files0 es) draws0 (Some 3)) = (Inl e, st') \<and>
     (unlock_repo_secrets_uncached keyring_env0 ''old'' (cl_files st') = Inr (secrets0 3) \<or>
      unlock_repo_secrets_uncached keyring_env0 ''new'' (cl_files st') = Inr (secrets0 3))"
proof -
  obtain es where es: "envelopes0 3 es" using sample_envelopes by blast
  obtain e st' where run: "change_password keyring_env0 ''old'' ''new'' (client0 (files0 es) draws0 (Some 3)) = (Inl e, st')"
    using change_password0(2) [OF es] by blast
  have st: "bt_ok (cl_files (client0 (files0 es) draws0 (Some 3)))" "bt_ok (epoch_keys_of (secrets0 3))"
    "unlock_repo_secrets_uncached keyring_env0 ''old'' (cl_files (client0 (files0 es) draws0 (Some 3))) = Inr (secrets0 3)"
    "read_current_keyring_state_with_pointer keyring_env0 (cl_files (client0 (files0 es) draws0 (Some 3))) = Inr (pointer_to (keyring0 es), keyring0 es)"
    using files0_ok unlock0 [OF es] read0 by (simp_all add: client0_def secrets0_def bt_ok_def)
  from password_change_survives_crash [OF keyring_env0_ok st(1,4,3,2) run] run show ?thesis by blast
qed

section \<open>A revoked device\<close>



section \<open>A lock that was left behind\<close>



section \<open>Two rotations of one epoch\<close>

lemma find_device:
  assumes "list_all2 (\<lambda>d. device_envelope_for E k (dv_pubkey_hex d) (dv_actor_id d) (dv_device_id d) s) ds out"
    and "distinct (map dv_device_id ds)" and "d \<in> set ds" and "dv_device_id d \<noteq> []"
    and "set es = A \<union> set out" and "\<forall>e \<in> A. ev_kind e \<noteq> ''device''"
  shows "\<exists>e. find (\<lambda>e. ev_kind e = ''device'' \<and> ev_device_id e \<noteq> [] \<and> ev_device_id e = dv_device_id d) es = Some e \<and>
    device_envelope_for E k (dv_pubkey_hex d) (dv_actor_id d) (dv_device_id d) s e"
proof -
  let ?P = "\<lambda>e. ev_kind e = ''device'' \<and> ev_device_id e \<noteq> [] \<and> ev_device_id e = dv_device_id d"
  let ?R = "\<lambda>d. device_envelope_for E k (dv_pubkey_hex d) (dv_actor_id d) (dv_device_id d) s"
  obtain i where i: "i < length ds" "ds ! i = d" using assms(3) by (auto simp: in_set_conv_nth)
  then have "?R d (out ! i)" "i < length out" using assms(1) by (auto simp: list_all2_conv_all_nth)
  then have "?P (out ! i)" "out ! i \<in> set es" using assms(4,5) by (auto simp: device_envelope_for_def)
  then have "find ?P es \<noteq> None" by (auto simp: find_None_iff)
  then obtain e where e: "find ?P es = Some e" by blast
  then have "?P e" "e \<in> set es" by (auto simp: find_Some_iff)
  then have "e \<in> set out" using assms(5,6) by blast
  then obtain j where j: "j < length out" "out ! j = e" by (auto simp: in_set_conv_nth)
  then have R: "?R (ds ! j) e" "j < length ds" using assms(1) by (auto simp: list_all2_conv_all_nth)
  then have "dv_device_id (ds ! j) = dv_device_id (ds ! i)" using \<open>?P e\<close> i by (simp add: device_envelope_for_def)
  then have "j = i" using assms(2) i(1) R(2) by (simp add: distinct_conv_nth) metis
  then show ?thesis using e R(1) i(2) by blast
qed

text \<open>C40: When two clients have rotated to the same epoch, merging keeps only one of the keys. When a client's
  merge of a remote keyring of its own active epoch takes effect, then in the keyring it writes every active device
  that has an identifier unlocks exactly the secrets the client had, whatever secrets the envelopes of the remote
  keyring held, so an epoch key that only the other client has drawn is lost to them.\<close>

theorem reconcile_keeps_local_epoch_key:
  assumes "keyring_env_ok E" and "bt_ok (cl_files st)"
    and "read_current_keyring_state_with_pointer E (cl_files st) = Inr (p, l)"
    and "from_slice (ke_state E) bytes = Some remote" and "kg_active_epoch remote = kg_active_epoch l"
    and "open_or_unlock_repo_secrets_for_sync E st = (Inr s, st1)" and "seals l s" and "secrets_ok s"
    and "reconcile_remote_keyring_for_sync E bytes st = (Inr True, st')"
  shows "\<exists>k. read_current_keyring_state_with_pointer E (cl_files st') = Inr (pointer_to k, k) \<and>
    (\<forall>d \<in> set (kg_devices k). dv_status d = ''active'' \<longrightarrow> dv_device_id d \<noteq> [] \<longrightarrow>
       (\<forall>c secret_key. decode_hex_key (cd_private_key_hex c) = Inr secret_key \<longrightarrow>
          dv_pubkey_hex d = hex_encode (ke_public_key E secret_key) \<longrightarrow>
          cd_actor_id c = dv_actor_id d \<longrightarrow> cd_device_id c = dv_device_id d \<longrightarrow>
          unlock_repo_secrets_from_state_with_local_device E k c = Inr s))"
  using assms(9)
proof (cases rule: reconcile_cases)
  case (written p1 l1 rs s1 st2 merged es st3 r3 st4)
  have same: "l1 = l" "rs = remote" using written(1,2) assms(3,4) by simp_all
  have "s1 = s"
    using written(4) assms(5-7) by (auto simp: authoritative_secrets_for_def same sbind_Inr seals_def sret_def)
  note M = merged_keyring_facts [OF written(5)]
  let ?k = "next_merged l remote merged es"
  have k: "kg_repo_id ?k = kg_repo_id l1" "kg_active_epoch ?k = kg_active_epoch merged"
    "kg_active_epoch merged = kg_active_epoch l" "kg_devices ?k = kg_devices merged" "kg_envelopes ?k = es"
    using M(2,3) assms(5) by (simp_all add: next_merged_def same)
  obtain out where out: "list_all2 (\<lambda>d. device_envelope_for E ?k (dv_pubkey_hex d) (dv_actor_id d) (dv_device_id d) s)
      (filter (\<lambda>d. dv_status d = ''active'') (kg_devices merged)) out"
    and es: "set es = set (case select_password_envelope_for_active_epoch l1 rs (kg_active_epoch merged) of None \<Rightarrow> [] | Some e \<Rightarrow> [e]) \<union> set out"
    using merged_envelopes_run [OF assms(1) written(6) k(1,2)] \<open>s1 = s\<close> by auto
  have "\<forall>e \<in> set (case select_password_envelope_for_active_epoch l1 rs (kg_active_epoch merged) of None \<Rightarrow> [] | Some e \<Rightarrow> [e]). ev_kind e \<noteq> ''device''"
    by (auto dest: selected_password_kind [OF sym] split: option.splits)
  note find = find_device [OF out distinct_map_filter [OF M(1)] _ _ es this]
  have "r3 = Inr ()" using written(10) by (cases r3) auto
  then have "read_current_keyring_state_with_pointer E (cl_files st') = Inr (pointer_to ?k, ?k)"
    using write_next_generation_run(2) [OF written(8) [unfolded same]] written(7,9) assms(1,2)
    by (intro read_pointer_to) (simp_all add: keyring_env_ok_def)
  moreover have "unlock_repo_secrets_from_state_with_local_device E ?k c = Inr s"
    if d: "d \<in> set (kg_devices ?k)" "dv_status d = ''active''" "dv_device_id d \<noteq> []"
      and c: "decode_hex_key (cd_private_key_hex c) = Inr secret_key" "dv_pubkey_hex d = hex_encode (ke_public_key E secret_key)"
        "cd_actor_id c = dv_actor_id d" "cd_device_id c = dv_device_id d" for d c secret_key
  proof -
    obtain e where "find (\<lambda>e. ev_kind e = ''device'' \<and> ev_device_id e \<noteq> [] \<and> ev_device_id e = dv_device_id d) es = Some e"
        "device_envelope_for E ?k (dv_pubkey_hex d) (dv_actor_id d) (dv_device_id d) s e"
      using find [of d] d k(4) by auto
    moreover from this(2) c have "decrypt_device_envelope E ?k e c = Inr (sealed_secrets_of s)"
      by (simp add: device_envelope_for_def)
    moreover have "repo_secrets_of_sealed ?k (sealed_secrets_of s) = Inr s"
      using k(1-3) same assms(7) by (intro repo_secrets_of_sealed_secrets [OF assms(8)]) (simp_all add: seals_def)
    ultimately show ?thesis using c(4) k(5) by (simp add: unlock_repo_secrets_from_state_with_local_device_def)
  qed
  ultimately show ?thesis by blast
qed simp

text \<open>The remote keyring seals other secrets to the owner's device; the merged one does not.\<close>

theorem reconcile_keeps_local_epoch_key_witness:
  "\<exists>es fs st' k. unlock_repo_secrets_from_state_with_local_device keyring_env0 (keyring0 fs) (credential0 ''owner'' ''d1'') = Inr (secrets0 9) \<and>
     reconcile_remote_keyring_for_sync keyring_env0 (to_vec unary_codec (remote0 fs))
       (client0 (files0 es) [replicate 32 5, replicate 24 6] None) = (Inr True, st') \<and>
     read_current_keyring_state_with_pointer keyring_env0 (cl_files st') = Inr (pointer_to k, k) \<and>
     unlock_repo_secrets_from_state_with_local_device keyring_env0 k (credential0 ''owner'' ''d1'') = Inr (secrets0 3)"
proof -
  obtain es where es: "envelopes0 3 es" using sample_envelopes by blast
  obtain fs where fs: "envelopes0 9 fs" using sample_envelopes by blast
  let ?E = keyring_env0 and ?st = "client0 (files0 es) [replicate 32 5, replicate 24 6] None"
  obtain st' where run: "reconcile_remote_keyring_for_sync ?E (to_vec unary_codec (remote0 fs)) ?st = (Inr True, st')"
    using reconcile0 [OF es] by blast
  obtain u where u: "open_or_unlock_repo_secrets_for_sync ?E ?st = (Inr (secrets0 3), ?st\<lparr> cl_unlocked := u \<rparr>)"
    using open0(1) [OF es] by blast
  have st: "bt_ok (cl_files ?st)"
    "read_current_keyring_state_with_pointer ?E (cl_files ?st) = Inr (pointer_to (keyring0 es), keyring0 es)"
    using files0_ok read0 by (simp_all add: client0_def)
  have remote: "from_slice (ke_state ?E) (to_vec unary_codec (remote0 fs)) = Some (remote0 fs)"
    "kg_active_epoch (remote0 fs) = kg_active_epoch (keyring0 es)"
    by (simp_all add: keyring_env0_def unary_roundtrip remote0_def)
  obtain k where k: "read_current_keyring_state_with_pointer ?E (cl_files st') = Inr (pointer_to k, k)"
    and all: "\<forall>d \<in> set (kg_devices k). dv_status d = ''active'' \<longrightarrow> dv_device_id d \<noteq> [] \<longrightarrow>
       (\<forall>c secret_key. decode_hex_key (cd_private_key_hex c) = Inr secret_key \<longrightarrow>
          dv_pubkey_hex d = hex_encode (ke_public_key ?E secret_key) \<longrightarrow>
          cd_actor_id c = dv_actor_id d \<longrightarrow> cd_device_id c = dv_device_id d \<longrightarrow>
          unlock_repo_secrets_from_state_with_local_device ?E k c = Inr (secrets0 3))"
    using reconcile_keeps_local_epoch_key [OF keyring_env0_ok st remote u secrets0_seal secrets0_ok run] by blast
  let ?d = "device0 ''owner'' ''d1''" and ?c = "credential0 ''owner'' ''d1''"
  have d: "dv_status ?d = ''active''" "dv_device_id ?d \<noteq> []" "dv_pubkey_hex ?d = hex_encode (ke_public_key ?E (replicate 32 7))"
    "cd_actor_id ?c = dv_actor_id ?d" "cd_device_id ?c = dv_device_id ?d"
    using secret_key0(2) by (simp_all add: device0_def credential0_def public_key0_def)
  have "?d \<in> set (kg_devices k)"
    using run
  proof (cases rule: reconcile_cases)
    case (written p1 l1 rs s1 st2 merged out st3 r3 st4)
    have "l1 = keyring0 es" "rs = remote0 fs" using written(1,2) st(2) remote(1) by auto
    then have "?d \<in> set (kg_devices merged)" using written(5) merged0 [of es fs s1] by auto
    moreover have "r3 = Inr ()" using written(10) by (cases r3) auto
    then have "read_current_keyring_state_with_pointer ?E (cl_files st4) =
        Inr (pointer_to (next_merged l1 rs merged out), next_merged l1 rs merged out)"
      using write_next_generation_run(2) [OF written(8)] written(7) st(1) by (intro read_pointer_to) simp_all
    then have "k = next_merged l1 rs merged out" using k written(9) by simp
    ultimately show ?thesis by (simp add: next_merged_def)
  qed simp
  then have "unlock_repo_secrets_from_state_with_local_device ?E k ?c = Inr (secrets0 3)"
    using all d secret_key0(1) by blast
  with run k unlock_device0 [OF fs, of ?c] show ?thesis by blast
qed

end
