(* ===== verification/Init_Refs.thy ===== *)
theory Init_Refs
  imports Branch_Claims Keyring_Steps
begin

text \<open>
  A repository that \<open>init\<close> has created has the state that the invariant of the branches starts from: its
  default ref is the record of the branch it names.
\<close>

lemma random_bytes_files: "random_bytes n what st = (r, st') \<Longrightarrow> cl_files st' = cl_files st"
  by (auto dest: random_bytes_draws only_drawsD)

lemma generate_secrets_files: "generate_repo_secrets repo_id st = (r, st') \<Longrightarrow> cl_files st' = cl_files st"
  by (auto simp: generate_repo_secrets_def random_key_material_def sbind_def sret_def
      split: prod.splits sum.splits dest!: random_bytes_files)

lemma generate_credential_files: "generate_local_device_credential E a d l st = (r, st') \<Longrightarrow> cl_files st' = cl_files st"
  by (auto simp: generate_local_device_credential_def sbind_def sret_def split: prod.splits sum.splits dest!: random_bytes_files)

lemma seal_files:
  "seal_repo_secrets E i ep pw s h st = (r, st') \<Longrightarrow> cl_files st' = cl_files st"
  "seal_repo_secrets_for_device E i ep pk s a d st = (r, st') \<Longrightarrow> cl_files st' = cl_files st"
  by (auto dest: seal_draws seal_device_draws only_drawsD)

lemma atomic_write_ok: "atomic_write_bytes path b st = (r, st') \<Longrightarrow> bt_ok (cl_files st) \<Longrightarrow> bt_ok (cl_files st')"
  by (auto simp: atomic_write_bytes_def disk_write_def disk_rename_def on_disk_def on_client_files_def sbind_def
      split: if_splits option.splits sum.splits prod.splits)

lemma disk_remove_ok: "disk_remove path st = (r, st') \<Longrightarrow> bt_ok (cl_files st) \<Longrightarrow> bt_ok (cl_files st')"
  by (auto simp: disk_remove_def on_disk_def split: if_splits)

lemma publish_bytes_ok: "publish_bytes path b st = (r, st') \<Longrightarrow> bt_ok (cl_files st) \<Longrightarrow> bt_ok (cl_files st')"
  by (auto simp: publish_bytes_def disk_write_def disk_rename_def on_disk_def sbind_def
      split: if_splits option.splits sum.splits prod.splits)

lemma write_generation_ok:
  assumes "write_keyring_generation_and_pointer E ''keyring.1'' k \<lparr> kp_generation = 1, kp_current = ''keyring.1'' \<rparr> st = (r, st')"
    and "kg_generation k = 1" and "bt_ok (cl_files st)"
  shows "bt_ok (cl_files st')"
proof -
  have "keyring_file_name 1 = ''keyring.1''" by code_simp
  then have "write_next_generation E k st = (r, st')"
    using assms(1,2) by (simp add: write_next_generation_def Let_def)
  from write_next_generation_run(1) [OF this assms(3)] show ?thesis using update_outcome_ok assms(3) by blast
qed

lemma ref_io_files:
  "read_default_ref (unlocked_store F s fs) K = read_default_ref (unlocked_store F s fs') K"
  "read_branch_ref_if_exists (unlocked_store F s fs) K = read_branch_ref_if_exists (unlocked_store F s fs') K"
  "write_default_ref (unlocked_store F s fs) K = write_default_ref (unlocked_store F s fs') K"
  "write_branch_ref (unlocked_store F s fs) K = write_branch_ref (unlocked_store F s fs') K"
proof -
  have io: "seal_ref (unlocked_store F s fs) = seal_ref (unlocked_store F s fs')"
    "open_ref (unlocked_store F s fs) = open_ref (unlocked_store F s fs')"
    by (simp_all add: fun_eq_iff seal_ref_def open_ref_def unlocked_store_def)
  show "read_default_ref (unlocked_store F s fs) K = read_default_ref (unlocked_store F s fs') K"
    "read_branch_ref_if_exists (unlocked_store F s fs) K = read_branch_ref_if_exists (unlocked_store F s fs') K"
    "write_default_ref (unlocked_store F s fs) K = write_default_ref (unlocked_store F s fs') K"
    "write_branch_ref (unlocked_store F s fs) K = write_branch_ref (unlocked_store F s fs') K"
    unfolding fun_eq_iff read_default_ref_def read_branch_ref_if_exists_def write_default_ref_def write_branch_ref_def io by simp_all
qed

lemma on_control_files_Inr:
  "on_control_files m st = (Inr x, st') \<Longrightarrow> m (cl_files st) = (Inr x, cl_files st')"
  by (cases "m (cl_files st)") (auto simp: on_control_files_def split: if_splits)

lemma written_refs_agree:
  assumes crypto: "crypto_ok (ms_crypto M)" and codecs: "ref_codecs_ok K" and ok: "bt_ok fs"
    and default: "write_default_ref M K r fs = (Inr u, fs1)" and branch: "write_branch_ref M K r fs1 = (Inr v, fs2)"
  shows "bt_ok fs2 \<and> refs_agree M K fs2"
proof -
  note w1 = write_default_ref_run [OF crypto codecs ok default]
  note w2 = write_branch_ref_run [OF crypto codecs w1(2) branch]
  have "map_of fs1 default_ref_file = map_of fs2 default_ref_file" using same_butD [OF w2(3)] by simp
  from read_default_ref_cong [OF this, of M K] have "read_default_ref M K fs2 = Inr r" using w1(1) by simp
  then show ?thesis using w2(1,2) by (simp add: refs_agree_def)
qed

theorem init_refs_agree:
  assumes run: "init F repo_root root_is_empty password branch_name st = (Inr state, st')" and ok: "bt_ok (cl_files st)"
    and "crypto_ok (ms_crypto (fe_store F))" and "ref_codecs_ok (fe_refs F)"
  shows "\<exists>secrets. bt_ok (cl_files st') \<and> refs_agree (unlocked_store F secrets fs) (fe_refs F) (cl_files st')"
proof -
  let ?E = "fe_keyring F" and ?K = "fe_refs F"
  obtain secrets credential e1 e2 k r s1 s2 s3 s4 s5 s6 s7 s8 s9 i3 ep3 pw3 h3 i4 ep4 pk4 a4 d4 b5 where
    s1: "generate_repo_secrets (derive_repo_id ?E repo_root) st = (Inr secrets, s1)"
    and s2: "generate_local_device_credential ?E ''owner-admin'' ''device-local'' ''local-device'' s1 = (Inr credential, s2)"
    and s3: "seal_repo_secrets ?E i3 ep3 pw3 secrets h3 s2 = (Inr e1, s3)"
    and s4: "seal_repo_secrets_for_device ?E i4 ep4 pk4 secrets a4 d4 s3 = (Inr e2, s4)"
    and s5: "atomic_write_bytes layout_root_file b5 s4 = (Inr (), s5)"
    and s6: "write_keyring_generation_and_pointer ?E ''keyring.1'' k \<lparr> kp_generation = 1, kp_current = ''keyring.1'' \<rparr> s5 = (Inr (), s6)"
    and s7: "write_local_device_credential ?E credential s6 = (Inr (), s7)"
    and s8: "on_control_files (\<lambda>fs. write_default_ref (unlocked_store F secrets fs) ?K r fs) s7 = (Inr (), s8)"
    and s9: "on_control_files (\<lambda>fs. write_branch_ref (unlocked_store F secrets fs) ?K r fs) s8 = (Inr (), s9)"
    and k: "kg_generation k = 1" and s10: "cl_files st' = cl_files s9"
    using run
    apply (auto simp: init_def Let_def sbind_Inr_iff sret_def cache_unlocked_secrets_def cache_unlocked_password_def
        simp del: prog_simps sbind_prim split: if_splits)
    apply (rule that; (assumption | simp))+
    done
  have "cl_files s4 = cl_files st"
    using generate_secrets_files [OF s1] generate_credential_files [OF s2] seal_files(1) [OF s3] seal_files(2) [OF s4] by simp
  then have "bt_ok (cl_files s7)"
    using ok publish_bytes_ok [OF s7 [unfolded write_local_device_credential_def] write_generation_ok [OF s6 k atomic_write_ok [OF s5]]]
    by simp
  moreover have "write_default_ref (unlocked_store F secrets fs) ?K r (cl_files s7) = (Inr (), cl_files s8)"
    using on_control_files_Inr [OF s8] by (simp only: ref_io_files(3) [of F secrets "cl_files s7" _ fs])
  moreover have "write_branch_ref (unlocked_store F secrets fs) ?K r (cl_files s8) = (Inr (), cl_files s9)"
    using on_control_files_Inr [OF s9] by (simp only: ref_io_files(4) [of F secrets "cl_files s8" _ fs])
  moreover have "crypto_ok (ms_crypto (unlocked_store F secrets fs))" using assms(3) by (simp add: unlocked_store_def)
  ultimately have "bt_ok (cl_files s9) \<and> refs_agree (unlocked_store F secrets fs) ?K (cl_files s9)"
    using written_refs_agree assms(4) by blast
  then show ?thesis unfolding s10 by blast
qed

end
