(* ===== verification/Spec2Isabelle.thy ===== *)
theory Spec2Isabelle
  imports Layout_Roots Publisher_Claims Push_Upload Sync_Support_Claims Resume_Claims Manifest_Claims Overlay_Merge Branch_Claims Pack_Index_Claims Trusted_Claims Remote_Gc_Claims Keyring_Claims Init_Refs
begin

text \<open>
  A verification development of e2v, a client-side encrypted, versioned store that synchronises with
  untrusted remotes. File names are below \<^verbatim>\<open>crates/\<close>.

  \<^bold>\<open>The program.\<close> A repository keeps immutable encrypted objects (snapshots, directories, files, chunks), named
  by a keyed hash of their type and content, and sealed refs that point branches at snapshots. A commit
  turns the working tree, or an overlay of changes, into objects and advances a ref. A push copies the
  objects that a remote lacks, single or gathered in packs with an index, and then publishes the ref under
  a lease and an intent marker; a journal lets it be resumed. A fetch reads the control plane, refuses
  anything older than what the client has trusted before, and walks the object graph.

  \<^bold>\<open>Shared.\<close> \<open>Prelude\<close>: results as sums, sorted maps (\<^verbatim>\<open>BTreeMap\<close> as a list of pairs), the runs \<open>('s, 'a) prog\<close>
  that thread a state and may fail, strings and numbers as the code reads and prints them. Their rules are
  the collection \<open>prog_simps\<close>. \<open>Paths\<close>: components of a path and the validation of every identifier that
  becomes one. A failed check keeps the text of its message where the code inspects it.

  \<^bold>\<open>Remotes.\<close> \<open>Remote\<close> has the interface of a backend as a record of operations and its contracts as the
  locales \<open>blob_store\<close> and \<open>ref_store\<close>; \<open>Memory_Backend\<close> models \<^verbatim>\<open>memory_backend.rs\<close>, \<^verbatim>\<open>ref_store.rs\<close> and
  \<^verbatim>\<open>layout_root_store.rs\<close>, and interprets both. Everything above is written against the record. \<open>Layout\<close> has
  \<^verbatim>\<open>capability.rs\<close>, the layout root and the storage layouts. The definitions of \<open>Memory_Backend\<close> are calls that
  nobody interrupts, as a single client of the backend sees them. The code takes a lock for each access to a
  table, not for a whole call: \<open>Backend_Steps\<close> has the calls as sequences of such accesses (\<open>lock_step\<close>), any number of
  threads that interleave them (\<open>lock_run\<close>), the agreement with \<open>Memory_Backend\<close> for a call that runs alone, and what
  compare-and-swap is worth: overlapping swaps can lose an update, swaps that do not overlap cannot.
  \<open>Layout_Roots\<close> has what holds of the layout roots at every point of every interleaving.

  \<^bold>\<open>Publishing.\<close> \<open>Publisher\<close> models \<^verbatim>\<open>publisher.rs\<close>, \<^verbatim>\<open>remote_markers.rs\<close> and \<^verbatim>\<open>transaction.rs\<close>: intents, leases, heartbeats, the
  check before a commit and the clean-up. \<open>Publisher_Proofs\<close> works inside the contracts, \<open>Publisher_Claims\<close>
  states the properties of the in-memory backend, for operations that run one after the other.

  \<^bold>\<open>Objects.\<close> \<open>Envelope\<close>: \<^verbatim>\<open>logical_object_store.rs\<close> and the control records of \<^verbatim>\<open>facade.rs\<close>. The cipher and the hash
  are a parameter, \<open>crypto\<close>, with the laws of an authenticated cipher in \<open>crypto_ok\<close>; random bytes are
  arguments; \<^verbatim>\<open>postcard\<close> and \<^verbatim>\<open>serde_json\<close> are codecs with the law \<open>serde_ok\<close>. \<open>Manifest\<close>: \<^verbatim>\<open>manifest_store.rs\<close>, with
  the collection of reachable objects. \<open>Sync_Support\<close>: the second decoder, in \<^verbatim>\<open>e2v-core/src/lib.rs\<close>, and
  \<^verbatim>\<open>object_type.rs\<close>.

  \<^bold>\<open>Keys.\<close> \<open>Keyring\<close>: \<^verbatim>\<open>keyring.rs\<close> and the journalled writing of a generation; \<open>Keyring_Ops\<close> and \<open>Sharing\<close>: the operations of
  \<^verbatim>\<open>facade.rs\<close> that create, change, share and merge keyrings. The state is a client: its files, the caches of the
  process, the random bytes it will draw and the number of writes after which its disk fails. Argon2, X25519
  and the unkeyed hash are parameters with the laws \<open>keyring_env_ok\<close>. \<open>Keyring_Proofs\<close>: sealing and unlocking;
  \<open>Keyring_Writes\<close>: what the files are after the writing of a generation, wherever the disk fails; \<open>Keyring_Runs\<close> and
  \<open>Keyring_Steps\<close>: each operation as such an update, and the relation \<open>keyring_step\<close> of all of them, without the
  recovery of an interrupted update and the installation of an invitation on an empty directory;
  \<open>Keyring_Sample\<close> and \<open>Keyring_Claims\<close>: the properties on concrete keyrings and in general. Elsewhere the secrets that
  a keyring unlocks are arguments. \<open>Init_Refs\<close>: a created repository satisfies the invariant of the branches.

  \<^bold>\<open>Packs.\<close> \<open>Pack\<close>: \<^verbatim>\<open>pack.rs\<close> and the uploads of \<^verbatim>\<open>push.rs\<close>; \<open>Pack_Cache\<close>: \<^verbatim>\<open>pack_cache.rs\<close>; \<open>Pack_Index\<close>: \<^verbatim>\<open>pack_index.rs\<close>, whose
  publication compacts old segments. The locale of a blob store whose status requests report missing
  objects carries the proof that compaction loses nothing. An upload runs a callback for each object;
  \<open>Push_Upload\<close> has the one of \<^verbatim>\<open>push_head\<close>, which writes the journal and renews the markers on the remote.

  \<^bold>\<open>Resuming.\<close> \<open>Journal\<close>: the three tables of \<^verbatim>\<open>journal.rs\<close> and every query; \<open>Resume\<close>: the loop of \<^verbatim>\<open>resume_push\<close>.

  \<^bold>\<open>Commits.\<close> \<open>File_Objects\<close>: chunking, file and directory objects and range reads of \<^verbatim>\<open>facade.rs\<close>. \<open>Refs\<close>: the local
  refs and branch operations. \<open>Snapshots\<close>: commits, the read service and verification. \<open>Overlay\<close> and
  \<open>Writeback\<close>: the virtual tree, conflict detection and \<^verbatim>\<open>write_branch_overlay\<close>. \<open>Working_Tree\<close>: the path policy and
  the stable reads of \<^verbatim>\<open>working_tree.rs\<close>. The repository's files are a map from paths to contents.

  \<^bold>\<open>Fetching.\<close> \<open>Control_Plane\<close>: the control plane of \<^verbatim>\<open>fetch.rs\<close> and \<^verbatim>\<open>trusted_state.rs\<close>. Checking an observation against the
  trusted state and raising that state are two operations (garbage collection only checks); \<open>Trusted_Claims\<close> is about
  what was raised. \<open>Remote_Reach\<close>: the active packs
  of a layout root (\<^verbatim>\<open>oram.rs\<close>) and the authenticated traversal of a remote in \<^verbatim>\<open>fetch.rs\<close>. \<open>Object_Graph\<close> has the
  locale of explorations of an object graph; the local collection of \<open>Manifest\<close> and the traversal of a
  remote are its two interpretations.

  \<^bold>\<open>Collecting.\<close> \<open>Remote_Gc\<close>: garbage collection in \<^verbatim>\<open>remote_maintenance.rs\<close>: marking, the fence, the horizon, the
  journal of deletions, the deletions. \<open>Remote_Gc_Runs\<close> follows one run through these stages,
  \<open>Remote_Gc_Claims\<close> states what survives it and where it goes wrong. The secrets of the two keyrings and the
  reconciliation of the local with the remote one are parameters; the SQLite tables of reachable objects are
  a list and a set.

  \<^bold>\<open>What the lemmas show.\<close> A theory \<open>T_Proofs\<close> has the lemmas of \<open>T\<close>: which paths an operation may change, what it
  leaves, what a reader gets afterwards. A theory \<open>T_Claims\<close> has the properties, each with a witness at a
  concrete input, on samples whose cipher is the identity with a checksum and whose codecs are unary
  numbers or tables.

  \<^bold>\<open>Fuel.\<close> The walks over object graphs can meet cycles, so they take fuel; \<open>collect_reachable_terminates\<close> shows
  that one more than the number of stored objects is enough, and the equivalences say that any larger fuel
  gives the same result. \<open>remote_traversal_terminates\<close> bounds the traversal of a remote by the number of ids that
  its loose files and located packs can have. \<open>resume_loop_terminates\<close> does the same for the resume loop. Loops that a remote
  could keep going are \<open>partial_function (option)\<close>.

  \<^bold>\<open>Not modelled.\<close> Directories in the place of cache files, failures of the local file system in the middle of an
  operation, SQLite itself, the terminal, graphical, web, C and mounted-file-system front ends, remotes other than the
  in-memory one (the local directory and OpenDAL backends need an operating system or a service), and the
  benchmarks.
\<close>

end
